(* ===== verification/Numeric.thy ===== *)
theory Numeric
  imports Complex_Main
begin

text \<open>
  Numbers of the Python program. Unbounded Python \<open>int\<close> is \<open>int\<close>. A Python \<open>float\<close> is an
  IEEE-754 double and a \<open>decimal.Decimal\<close> carries 28 significant digits; both are modelled as the
  exact rational they denote, and every arithmetic operation rounds its exact result to the nearest
  representable number, ties to even (\<open>rnd 2 53\<close> for doubles, \<open>rnd 10 28\<close> for decimals). Only
  overflow to infinity, subnormal results and NaN are outside the model: stakes, scores and amounts
  of the program stay far inside the normal range.

  The contract of a rounding is the locale \<open>rounding\<close> (monotone, idempotent, exact on the integers
  up to a bound); what the components need of float arithmetic is proved from that contract and
  obtained for doubles and decimals by interpretation.
\<close>

type_synonym pyfloat = rat

section \<open>Rounding to significant digits\<close>

fun ndigits :: "nat \<Rightarrow> nat \<Rightarrow> nat" where
  "ndigits b n = (if b < 2 \<or> n = 0 then 0 else Suc (ndigits b (n div b)))"

declare ndigits.simps [simp del]

definition rne :: "rat \<Rightarrow> int" where
  "rne q =
     (let f = \<lfloor>q\<rfloor>; r = q - of_int f
      in if r < 1/2 then f
         else if 1/2 < r then f + 1
         else if even f then f else f + 1)"

text \<open>\<open>magnitude b q\<close> is the \<open>k\<close> with \<open>b ^ (k - 1) \<le> q < b ^ k\<close>, for a positive \<open>q\<close>.\<close>

definition magnitude :: "nat \<Rightarrow> rat \<Rightarrow> int" where
  "magnitude b q =
     (if 1 \<le> q then int (ndigits b (nat \<lfloor>q\<rfloor>))
      else 1 - int (ndigits b (nat (\<lceil>1 / q\<rceil> - 1))))"

definition rnd_pos :: "nat \<Rightarrow> nat \<Rightarrow> rat \<Rightarrow> rat" where
  "rnd_pos b p q =
     (let e = magnitude b q - int p
      in of_int (rne (q / of_nat b powi e)) * of_nat b powi e)"

definition rnd :: "nat \<Rightarrow> nat \<Rightarrow> rat \<Rightarrow> rat" where
  "rnd b p q =
     (if q = 0 then 0 else if 0 < q then rnd_pos b p q else - rnd_pos b p (- q))"

subsection \<open>Digits and magnitude\<close>

lemma ndigits_bounds:
  assumes "2 \<le> b" and "0 < n"
  shows "b ^ (ndigits b n - 1) \<le> n \<and> n < b ^ ndigits b n \<and> 0 < ndigits b n"
  using assms
proof (induction b n rule: ndigits.induct)
  case (1 b n)
  show ?case
  proof (cases "n div b = 0")
    case True
    with "1.prems" have "n < b" by (simp add: div_eq_0_iff)
    with True "1.prems" show ?thesis
      by (simp add: ndigits.simps [of b n] ndigits.simps [of b 0])
  next
    case False
    let ?k = "ndigits b (n div b)"
    from False "1.prems" "1.IH" have IH: "b ^ (?k - 1) \<le> n div b" "n div b < b ^ ?k" "0 < ?k"
      by auto
    have eq: "ndigits b n = Suc ?k" using "1.prems" by (simp add: ndigits.simps [of b n])
    have "b ^ ?k = b ^ (?k - 1) * b" using IH(3) by (cases ?k) auto
    also have "\<dots> \<le> (n div b) * b" using IH(1) by simp
    also have "\<dots> \<le> n" by simp
    finally have lo: "b ^ ?k \<le> n" .
    have "n < (n div b + 1) * b"
      using "1.prems" by (metis dividend_less_div_times add.commute mult_1
          add_mult_distrib less_le_trans zero_less_numeral)
    also have "\<dots> \<le> b ^ ?k * b" using IH(2) by (intro mult_right_mono) auto
    finally have "n < b ^ Suc ?k" by (simp add: mult.commute)
    with lo eq show ?thesis by simp
  qed
qed

lemma powi_of_nat: "b powi (int n) = b ^ n" for b :: rat
  by simp

lemma powi_less_imp: "1 < b \<Longrightarrow> b powi j < b powi k \<Longrightarrow> j < k" for b :: rat
  by (meson linorder_not_less less_imp_le power_int_increasing order.strict_trans1 less_le_not_le)

lemma powi_pos: "0 < b \<Longrightarrow> 0 < b powi k" for b :: rat
  by (simp add: zero_less_power_int)

lemma magnitude_bounds:
  assumes "2 \<le> b" and "0 < q"
  shows "of_nat b powi (magnitude b q - 1) \<le> q" and "q < of_nat b powi magnitude b q"
proof -
  let ?B = "of_nat b :: rat"
  have B: "2 \<le> ?B" "?B \<noteq> 0" using assms(1) by auto
  have "?B powi (magnitude b q - 1) \<le> q \<and> q < ?B powi magnitude b q"
  proof (cases "1 \<le> q")
    case True
    define n where "n = nat \<lfloor>q\<rfloor>"
    have n: "0 < n" "int n = \<lfloor>q\<rfloor>" using True by (auto simp: n_def le_floor_iff)
    define k where "k = ndigits b n"
    have k: "b ^ (k - 1) \<le> n" "n < b ^ k" "0 < k"
      using ndigits_bounds [OF assms(1) n(1)] by (auto simp: k_def)
    have m: "magnitude b q = int k"
      using True by (simp add: magnitude_def n_def k_def)
    have e1: "?B powi (magnitude b q) = ?B ^ k" by (simp add: m powi_of_nat)
    have e2: "?B powi (magnitude b q - 1) = ?B ^ (k - 1)"
      by (metis Suc_pred' diff_Suc_1 k(3) m of_nat_1 of_nat_diff One_nat_def Suc_leI powi_of_nat)
    have nq: "of_nat n \<le> q" "q < of_nat n + 1"
      using n(2) by (metis of_int_floor_le of_int_of_nat_eq,
          metis floor_less_iff of_int_add of_int_1 of_int_of_nat_eq less_add_one)
    have "?B ^ (k - 1) \<le> of_nat n" using k(1) by (metis of_nat_le_iff of_nat_power)
    moreover have "of_nat n + 1 \<le> ?B ^ k" using k(2)
      by (metis Suc_leI of_nat_Suc of_nat_le_iff of_nat_power add.commute)
    ultimately show ?thesis unfolding e1 e2 using nq by linarith
  next
    case False
    define c where "c = nat (\<lceil>1 / q\<rceil> - 1)"
    have iq: "1 < 1 / q" using False assms(2) by simp
    hence "1 < \<lceil>1 / q\<rceil>" by (simp add: less_ceiling_iff)
    hence c: "0 < c" "int c + 1 = \<lceil>1 / q\<rceil>" unfolding c_def by linarith+
    define k where "k = ndigits b c"
    have k: "b ^ (k - 1) \<le> c" "c < b ^ k" "0 < k"
      using ndigits_bounds [OF assms(1) c(1)] by (auto simp: k_def)
    have m: "magnitude b q = 1 - int k" using False by (simp add: magnitude_def c_def k_def)
    have cq: "of_nat c < 1 / q" "1 / q \<le> of_nat c + 1"
    proof -
      have "int c < \<lceil>1 / q\<rceil>" using c(2) by simp
      thus "of_nat c < 1 / q" by (simp add: less_ceiling_iff)
      have "1 / q \<le> of_int \<lceil>1 / q\<rceil>" by simp
      also have "\<dots> = of_nat c + 1" by (metis c(2) of_int_1 of_int_add of_int_of_nat_eq)
      finally show "1 / q \<le> of_nat c + 1" .
    qed
    have "?B ^ (k - 1) \<le> of_nat c" using k(1) by (metis of_nat_le_iff of_nat_power)
    hence up: "?B ^ (k - 1) < 1 / q" using cq(1) by linarith
    have "of_nat c + 1 \<le> ?B ^ k" using k(2)
      by (metis Suc_leI of_nat_Suc of_nat_le_iff of_nat_power add.commute)
    hence lo: "1 / q \<le> ?B ^ k" using cq(2) by linarith
    have e1: "?B powi (magnitude b q) = 1 / ?B ^ (k - 1)"
    proof -
      have e: "magnitude b q = - int (k - 1)" using m k(3) by linarith
      show ?thesis by (simp only: e power_int_minus powi_of_nat inverse_eq_divide)
    qed
    have e2: "?B powi (magnitude b q - 1) = 1 / ?B ^ k"
    proof -
      have e: "magnitude b q - 1 = - int k" using m by linarith
      show ?thesis by (simp only: e power_int_minus powi_of_nat inverse_eq_divide)
    qed
    have bp: "0 < ?B ^ (k - 1)" "0 < ?B ^ k" using B by auto
    show ?thesis unfolding e1 e2 using up lo bp assms(2) by (simp add: field_simps)
  qed
  thus "?B powi (magnitude b q - 1) \<le> q" and "q < ?B powi magnitude b q" by auto
qed

subsection \<open>Round half to even\<close>

lemma rne_of_int [simp]: "rne (of_int k) = k"
  by (simp add: rne_def)

lemma rne_floor: "\<lfloor>q\<rfloor> \<le> rne q" "rne q \<le> \<lfloor>q\<rfloor> + 1"
  by (auto simp: rne_def Let_def)

lemma rne_mono: "x \<le> y \<Longrightarrow> rne x \<le> rne y"
proof -
  assume xy: "x \<le> y"
  show ?thesis
  proof (cases "\<lfloor>x\<rfloor> = \<lfloor>y\<rfloor>")
    case True
    with xy show ?thesis by (auto simp: rne_def Let_def)
  next
    case False
    with floor_mono [OF xy] have "\<lfloor>x\<rfloor> + 1 \<le> \<lfloor>y\<rfloor>" by linarith
    with rne_floor(2) [of x] rne_floor(1) [of y] show ?thesis by linarith
  qed
qed

lemma rne_ge_int: "of_int k \<le> q \<Longrightarrow> k \<le> rne q"
  using rne_mono [of "of_int k" q] by simp

lemma rne_le_int: "q \<le> of_int k \<Longrightarrow> rne q \<le> k"
  using rne_mono [of q "of_int k"] by simp

subsection \<open>Rounding is monotone, idempotent and exact on short numbers\<close>

lemma powi_split:
  fixes b :: rat
  assumes "b \<noteq> 0"
  shows "b powi (k - int n) * b ^ n = b powi k"
  by (metis assms diff_add_cancel power_int_add power_int_of_nat)

lemma magnitude_unique:
  assumes "2 \<le> b" "0 < q" "of_nat b powi (k - 1) \<le> q" "q < of_nat b powi k"
  shows "magnitude b q = k"
proof -
  let ?B = "of_nat b :: rat"
  have B: "1 < ?B" using assms(1) by auto
  note m = magnitude_bounds [OF assms(1,2)]
  have "?B powi (k - 1) < ?B powi magnitude b q" using assms(3) m(2) by linarith
  hence 1: "k - 1 < magnitude b q" using B by (intro powi_less_imp)
  have "?B powi (magnitude b q - 1) < ?B powi k" using assms(4) m(1) by linarith
  hence 2: "magnitude b q - 1 < k" using B by (intro powi_less_imp)
  from 1 2 show ?thesis by linarith
qed

lemma rnd_pos_range:
  assumes "2 \<le> b" "0 < p" "0 < q"
  shows "of_nat b powi (magnitude b q - 1) \<le> rnd_pos b p q"
    and "rnd_pos b p q \<le> of_nat b powi magnitude b q"
proof -
  let ?B = "of_nat b :: rat" and ?m = "magnitude b q"
  let ?e = "?m - int p"
  have B: "0 < ?B" "?B \<noteq> 0" using assms(1) by auto
  have pe: "0 < ?B powi ?e" using B by (simp add: zero_less_power_int)
  have s1: "?B powi (?m - 1) = of_int (int b ^ (p - 1)) * ?B powi ?e"
    using powi_split [OF B(2), of "?m - 1" "p - 1"] assms(2)
    by (simp add: of_nat_diff algebra_simps)
  have s2: "?B powi ?m = of_int (int b ^ p) * ?B powi ?e"
    using powi_split [OF B(2), of ?m p] by (simp add: mult.commute)
  note m = magnitude_bounds [OF assms(1,3)]
  have "of_int (int b ^ (p - 1)) \<le> q / ?B powi ?e" using m(1) pe unfolding s1 by (simp add: pos_le_divide_eq)
  from rne_ge_int [OF this] have lo: "int b ^ (p - 1) \<le> rne (q / ?B powi ?e)" .
  have "q / ?B powi ?e \<le> of_int (int b ^ p)"
    using less_imp_le [OF m(2)] pe unfolding s2 by (simp add: pos_divide_le_eq)
  from rne_le_int [OF this] have hi: "rne (q / ?B powi ?e) \<le> int b ^ p" .
  from lo have "(of_int (int b ^ (p - 1)) :: rat) \<le> of_int (rne (q / ?B powi ?e))" by (simp only: of_int_le_iff)
  thus "?B powi (?m - 1) \<le> rnd_pos b p q"
    unfolding s1 rnd_pos_def Let_def using pe by (intro mult_right_mono) auto
  from hi have "(of_int (rne (q / ?B powi ?e)) :: rat) \<le> of_int (int b ^ p)" by (simp only: of_int_le_iff)
  thus "rnd_pos b p q \<le> ?B powi ?m"
    unfolding s2 rnd_pos_def Let_def using pe by (intro mult_right_mono) auto
qed

lemma rnd_pos_pos: "2 \<le> b \<Longrightarrow> 0 < p \<Longrightarrow> 0 < q \<Longrightarrow> 0 < rnd_pos b p q"
  using rnd_pos_range(1) [of b p q] powi_pos [of "of_nat b" "magnitude b q - 1"]
  by (meson less_le_trans of_nat_0_less_iff pos2 less_le_trans)

lemma magnitude_mono:
  assumes "2 \<le> b" "0 < x" "x \<le> y"
  shows "magnitude b x \<le> magnitude b y"
proof -
  have "of_nat b powi (magnitude b x - 1) < (of_nat b :: rat) powi magnitude b y"
    using magnitude_bounds [of b x] magnitude_bounds [of b y] assms by linarith
  hence "magnitude b x - 1 < magnitude b y" using assms(1) by (intro powi_less_imp) auto
  thus ?thesis by linarith
qed

lemma rnd_pos_mono:
  assumes "2 \<le> b" "0 < p" "0 < x" "x \<le> y"
  shows "rnd_pos b p x \<le> rnd_pos b p y"
proof (cases "magnitude b x = magnitude b y")
  case True
  have pe: "0 < (of_nat b :: rat) powi (magnitude b y - int p)" using assms(1) by (simp add: zero_less_power_int)
  have "rne (x / of_nat b powi (magnitude b y - int p)) \<le> rne (y / of_nat b powi (magnitude b y - int p))"
    using assms(4) pe by (intro rne_mono) (simp add: divide_right_mono)
  hence "(of_int (rne (x / of_nat b powi (magnitude b y - int p))) :: rat)
      \<le> of_int (rne (y / of_nat b powi (magnitude b y - int p)))" by (simp only: of_int_le_iff)
  thus ?thesis unfolding rnd_pos_def Let_def True using pe by (intro mult_right_mono) auto
next
  case False
  have "magnitude b x \<le> magnitude b y - 1" using False magnitude_mono [OF assms(1,3,4)] by linarith
  hence "(of_nat b :: rat) powi magnitude b x \<le> of_nat b powi (magnitude b y - 1)"
    using assms(1) by (intro power_int_increasing) auto
  with rnd_pos_range [OF assms(1,2,3)] rnd_pos_range [OF assms(1,2), of y] assms(3,4)
  show ?thesis by linarith
qed

lemma rnd_0 [simp]: "rnd b p 0 = 0"
  by (simp add: rnd_def)

lemma rnd_uminus: "rnd b p (- q) = - rnd b p q"
  by (simp add: rnd_def)

lemma rnd_mono:
  assumes "2 \<le> b" "0 < p" "x \<le> y"
  shows "rnd b p x \<le> rnd b p y"
proof -
  note P = rnd_pos_pos [OF assms(1,2)] and M = rnd_pos_mono [OF assms(1,2)]
  consider "0 < x" | "x = 0" | "x < 0" "y < 0" | "x < 0" "0 \<le> y" by linarith
  thus ?thesis
  proof cases
    case 1
    with assms(3) M show ?thesis by (simp add: rnd_def)
  next
    case 2
    with assms(3) P [of y] show ?thesis by (auto simp: rnd_def)
  next
    case 3
    with M [of "- y" "- x"] assms(3) show ?thesis by (simp add: rnd_def)
  next
    case 4
    with P [of "- x"] P [of y] show ?thesis by (auto simp: rnd_def)
  qed
qed

text \<open>A number \<open>m * b ^ k\<close> with at most \<open>p\<close> digits in \<open>m\<close> is representable.\<close>

lemma rnd_pos_exact_less:
  fixes k :: int
  assumes "2 \<le> b" "0 < m" "m < b ^ p"
  defines "x \<equiv> of_nat m * (of_nat b :: rat) powi k"
  shows "rnd_pos b p x = x"
proof -
  let ?B = "of_nat b :: rat" and ?d = "ndigits b m"
  have B: "0 < ?B" "?B \<noteq> 0" "1 < ?B" using assms(1) by auto
  have d: "b ^ (?d - 1) \<le> m" "m < b ^ ?d" "0 < ?d" using ndigits_bounds [OF assms(1,2)] by auto
  have "b ^ (?d - 1) < b ^ p" using d(1) assms(3) by linarith
  hence dp: "?d \<le> p" using assms(1) d(3) by (metis Suc_pred' Suc_leI not_less power_increasing_iff
        power_strict_increasing_iff less_le_trans one_less_numeral_iff semiring_norm(76))
  have x0: "0 < x" using assms(2) B(1) by (simp add: x_def zero_less_power_int)
  have bk: "0 < ?B powi k" using B(1) by (simp add: zero_less_power_int)
  have "?B powi (k + int ?d - 1) \<le> x"
  proof -
    have "k + int ?d - 1 = int (?d - 1) + k" using d(3) by simp
    hence "?B powi (k + int ?d - 1) = ?B ^ (?d - 1) * ?B powi k"
      using B(2) by (simp only: power_int_add powi_of_nat simp_thms)
    moreover have "?B ^ (?d - 1) \<le> of_nat m" using d(1) by (metis of_nat_le_iff of_nat_power)
    ultimately show ?thesis unfolding x_def using bk by (simp add: mult_right_mono)
  qed
  moreover have "x < ?B powi (k + int ?d)"
  proof -
    have "?B powi (k + int ?d) = ?B ^ ?d * ?B powi k" using B(2) by (simp add: power_int_add)
    moreover have "of_nat m < ?B ^ ?d" using d(2) by (metis of_nat_less_iff of_nat_power)
    ultimately show ?thesis unfolding x_def using bk by simp
  qed
  ultimately have mag: "magnitude b x = k + int ?d" using magnitude_unique [OF assms(1) x0] by simp
  define e where "e = k + int ?d - int p"
  have "k = e + int (p - ?d)" using dp by (simp add: e_def)
  hence xe: "x = of_int (int (m * b ^ (p - ?d))) * ?B powi e"
    using B(2) by (simp add: x_def power_int_add)
  have pe: "?B powi e \<noteq> 0" using B by simp
  have "x / ?B powi e = of_int (int (m * b ^ (p - ?d)))" using pe by (simp add: xe)
  hence "rne (x / ?B powi e) = int (m * b ^ (p - ?d))" by (metis rne_of_int)
  thus ?thesis unfolding rnd_pos_def Let_def mag e_def [symmetric] using xe by simp
qed

lemma rnd_pos_exact:
  fixes k :: int
  assumes "2 \<le> b" "0 < p" "0 < m" "m \<le> b ^ p"
  shows "rnd_pos b p (of_nat m * of_nat b powi k) = of_nat m * (of_nat b :: rat) powi k"
proof (cases "m = b ^ p")
  case True
  have B: "(of_nat b :: rat) \<noteq> 0" using assms(1) by auto
  have "of_nat m * (of_nat b :: rat) powi k = of_nat 1 * of_nat b powi (k + int p)"
    using B True by (simp add: power_int_add mult.commute)
  moreover have "1 < b ^ p" using assms(1,2) by (intro one_less_power) auto
  ultimately show ?thesis using rnd_pos_exact_less [of b 1 p "k + int p"] assms(1) by simp
next
  case False
  with assms show ?thesis by (intro rnd_pos_exact_less) auto
qed

lemma rnd_exact:
  fixes k :: int
  assumes "2 \<le> b" "0 < p" "\<bar>m\<bar> \<le> int b ^ p"
  shows "rnd b p (of_int m * of_nat b powi k) = of_int m * of_nat b powi k"
proof -
  have B: "0 < (of_nat b :: rat) powi k" using assms(1) by (simp add: zero_less_power_int)
  define n where "n = nat \<bar>m\<bar>"
  have n: "n \<le> b ^ p" using assms(3) by (metis n_def nat_le_iff of_nat_power)
  consider "m = 0" | "0 < m" | "m < 0" by linarith
  thus ?thesis
  proof cases
    case 2
    hence "of_int m = (of_nat n :: rat)" "0 < n" by (auto simp: n_def)
    thus ?thesis using rnd_pos_exact [OF assms(1,2) _ n, of k] B by (simp add: rnd_def)
  next
    case 3
    hence m: "of_int m * of_nat b powi k = - (of_nat n * (of_nat b :: rat) powi k)" "0 < n"
      by (auto simp: n_def)
    hence "rnd b p (of_nat n * of_nat b powi k) = of_nat n * of_nat b powi k"
      using rnd_pos_exact [OF assms(1,2) _ n, of k] B by (simp add: rnd_def)
    thus ?thesis unfolding m(1) rnd_uminus by simp
  qed simp
qed

lemma rnd_int: "2 \<le> b \<Longrightarrow> 0 < p \<Longrightarrow> \<bar>m\<bar> \<le> int b ^ p \<Longrightarrow> rnd b p (of_int m) = of_int m"
  using rnd_exact [of b p m 0] by simp

lemma rnd_form:
  assumes "2 \<le> b" "0 < p"
  shows "\<exists>m k. rnd b p q = of_int m * of_nat b powi k \<and> \<bar>m\<bar> \<le> int b ^ p"
proof -
  have *: "\<exists>m k. rnd_pos b p q = of_int m * of_nat b powi k \<and> \<bar>m\<bar> \<le> int b ^ p" if "0 < q" for q
  proof -
    let ?e = "magnitude b q - int p" and ?B = "of_nat b :: rat"
    have pe: "0 < ?B powi ?e" "?B \<noteq> 0" using assms(1) by (auto simp: zero_less_power_int)
    have "?B powi magnitude b q = of_int (int b ^ p) * ?B powi ?e"
      using powi_split [OF pe(2), of "magnitude b q" p] by (simp add: mult.commute)
    hence "q / ?B powi ?e \<le> of_int (int b ^ p)"
      using magnitude_bounds(2) [OF assms(1) that] pe(1) by (simp add: pos_divide_le_eq)
    hence "rne (q / ?B powi ?e) \<le> int b ^ p" by (rule rne_le_int)
    moreover have "0 \<le> rne (q / ?B powi ?e)" using that pe by (intro rne_ge_int) simp
    ultimately show ?thesis unfolding rnd_pos_def Let_def by (metis abs_of_nonneg)
  qed
  consider "q = 0" | "0 < q" | "q < 0" by linarith
  thus ?thesis
  proof cases
    case 1
    thus ?thesis by (intro exI [of _ 0]) simp
  next
    case 2
    with * show ?thesis by (simp add: rnd_def)
  next
    case 3
    with * [of "- q"] obtain m k where "rnd_pos b p (- q) = of_int m * of_nat b powi k" "\<bar>m\<bar> \<le> int b ^ p" by auto
    with 3 show ?thesis by (intro exI [of _ "- m"] exI [of _ k]) (simp add: rnd_def)
  qed
qed

lemma rnd_idem: "2 \<le> b \<Longrightarrow> 0 < p \<Longrightarrow> rnd b p (rnd b p q) = rnd b p q"
  by (metis rnd_exact rnd_form)

section \<open>The contract of a rounding, and float arithmetic proved from it\<close>

locale rounding =
  fixes R :: "rat \<Rightarrow> rat" and bound :: int
  assumes R_mono: "x \<le> y \<Longrightarrow> R x \<le> R y"
    and R_idem: "R (R x) = R x"
    and R_uminus: "R (- x) = - R x"
    and R_int: "\<bar>m\<bar> \<le> bound \<Longrightarrow> R (of_int m) = of_int m"
    and bound_pos: "1 \<le> bound"
begin

lemma R_0 [simp]: "R 0 = 0"
  using R_int [of 0] bound_pos by simp

lemma R_1 [simp]: "R 1 = 1"
  using R_int [of 1] bound_pos by simp

lemma R_nonneg: "0 \<le> x \<Longrightarrow> 0 \<le> R x"
  using R_mono [of 0 x] by simp

lemma R_nonpos: "x \<le> 0 \<Longrightarrow> R x \<le> 0"
  using R_mono [of x 0] by simp

text \<open>Left-to-right accumulation \<open>acc += x\<close> over integers below the bound is exact.\<close>

lemma foldl_int_exact:
  assumes "\<forall>k \<in> set ks. 0 \<le> k" "0 \<le> a" "a + sum_list ks \<le> bound"
  shows "foldl (\<lambda>s x. R (s + x)) (of_int a) (map of_int ks) = of_int (a + sum_list ks)"
  using assms
proof (induction ks arbitrary: a)
  case (Cons k ks)
  have "0 \<le> sum_list ks" using Cons.prems(1) by (intro sum_list_nonneg) auto
  hence "R (of_int a + of_int k) = of_int (a + k)"
    using R_int [of "a + k"] Cons.prems by simp
  with Cons.IH [of "a + k"] Cons.prems show ?case by (simp add: add.assoc)
qed simp

text \<open>A strict comparison of rounded values is a strict comparison of the exact ones.\<close>

lemma R_less_imp_less: "R x < R c \<Longrightarrow> x < c"
  using R_mono [of c x] by linarith

end

definition f64 :: "rat \<Rightarrow> rat" where
  "f64 = rnd 2 53"

definition dec28 :: "rat \<Rightarrow> rat" where
  "dec28 = rnd 10 28"

interpretation double: rounding f64 "2 ^ 53"
  by unfold_locales (simp_all add: f64_def rnd_mono rnd_idem rnd_uminus rnd_int)

interpretation decimal: rounding dec28 "10 ^ 28"
  by unfold_locales (simp_all add: dec28_def rnd_mono rnd_idem rnd_uminus rnd_int)

section \<open>Python float operations\<close>

definition fadd :: "pyfloat \<Rightarrow> pyfloat \<Rightarrow> pyfloat" where "fadd x y = f64 (x + y)"
definition fsub :: "pyfloat \<Rightarrow> pyfloat \<Rightarrow> pyfloat" where "fsub x y = f64 (x - y)"
definition fmul :: "pyfloat \<Rightarrow> pyfloat \<Rightarrow> pyfloat" where "fmul x y = f64 (x * y)"
definition fdiv :: "pyfloat \<Rightarrow> pyfloat \<Rightarrow> pyfloat" where "fdiv x y = f64 (x / y)"
definition float_of_int :: "int \<Rightarrow> pyfloat" where "float_of_int k = f64 (of_int k)"

lemma float_of_int_exact [simp]: "\<bar>k\<bar> \<le> 2 ^ 53 \<Longrightarrow> float_of_int k = of_int k"
  by (simp add: float_of_int_def double.R_int)

lemma fadd_int: "\<bar>j + k\<bar> \<le> 2 ^ 53 \<Longrightarrow> fadd (of_int j) (of_int k) = of_int (j + k)"
  using double.R_int [of "j + k"] by (simp add: fadd_def)

lemma fsub_int: "\<bar>j - k\<bar> \<le> 2 ^ 53 \<Longrightarrow> fsub (of_int j) (of_int k) = of_int (j - k)"
  using double.R_int [of "j - k"] by (simp add: fsub_def)

text \<open>
  The built-in \<open>sum\<close> of a sequence of floats adds with Neumaier's compensation since Python 3.12
  (the containers and workflows of the repository pin 3.12 and 3.13): \<open>fsum_step\<close> is one step of the
  running pair (sum, correction), \<open>py_sum\<close> the whole call, which starts from the integer 0.
\<close>

fun fsum_step :: "pyfloat \<times> pyfloat \<Rightarrow> pyfloat \<Rightarrow> pyfloat \<times> pyfloat" where
  "fsum_step (s, c) x =
     (let t = fadd s x
      in if \<bar>x\<bar> \<le> \<bar>s\<bar> then (t, fadd c (fadd (fsub s t) x))
         else (t, fadd c (fadd (fsub x t) s)))"

definition py_sum :: "pyfloat list \<Rightarrow> pyfloat" where
  "py_sum xs = (case foldl fsum_step (0, 0) xs of (s, c) \<Rightarrow> if c = 0 then s else fadd s c)"

lemma foldl_fsum_int:
  assumes "\<forall>k \<in> set ks. 0 \<le> k" "0 \<le> a" "a + sum_list ks \<le> 2 ^ 53"
  shows "foldl fsum_step (of_int a, 0) (map of_int ks) = (of_int (a + sum_list ks), 0)"
  using assms
proof (induction ks arbitrary: a)
  case (Cons k ks)
  have "0 \<le> sum_list ks" using Cons.prems(1) by (intro sum_list_nonneg) auto
  hence b: "0 \<le> a" "0 \<le> k" "a + k \<le> 2 ^ 53" using Cons.prems by auto
  have 1: "fadd (of_int a) (of_int k) = of_int (a + k)" using b by (intro fadd_int) simp
  have 2: "fsub (of_int a) (of_int (a + k)) = of_int (- k)" "fsub (of_int k) (of_int (a + k)) = of_int (- a)"
    using b fsub_int [of a "a + k"] fsub_int [of k "a + k"] by simp_all
  have 3: "fadd (of_int (- k)) (of_int k) = 0" "fadd (of_int (- a)) (of_int a) = 0" "fadd 0 0 = 0"
    by (simp_all add: fadd_def)
  have "fsum_step (of_int a, 0) (of_int k) = (of_int (a + k), 0)"
    by (simp only: fsum_step.simps Let_def 1 2 3 if_cancel)
  with Cons.IH [of "a + k"] Cons.prems b show ?case by (simp add: add.assoc del: fsum_step.simps)
qed simp

lemma py_sum_int:
  assumes "\<forall>k \<in> set ks. 0 \<le> k" "sum_list ks \<le> 2 ^ 53"
  shows "py_sum (map of_int ks) = of_int (sum_list ks)"
  using foldl_fsum_int [of ks 0] assms by (simp add: py_sum_def)

end
