(* ===== verification/Prelude.thy ===== *)
theory Prelude
  imports Numeric "HOL-Library.AList"
begin

text \<open>
  Shared vocabulary of the component theories: Python strings (as ASCII character lists) with
  \<open>strip\<close> and \<open>lower\<close>, insertion-ordered dictionaries as association lists, and the
  fact collections the component proofs draw on.
\<close>

named_theorems op_defs "definitions of component operations"
named_theorems inv_intros "an operation preserves the invariant of its component"

section \<open>Strings\<close>

definition py_space :: "char \<Rightarrow> bool" where
  "py_space c = (let n = of_char c :: nat in (9 \<le> n \<and> n \<le> 13) \<or> (28 \<le> n \<and> n \<le> 32))"

definition py_strip :: "string \<Rightarrow> string" where
  "py_strip s = rev (dropWhile py_space (rev (dropWhile py_space s)))"

definition lower_char :: "char \<Rightarrow> char" where
  "lower_char c = (let n = of_char c :: nat in if 65 \<le> n \<and> n \<le> 90 then char_of (n + 32) else c)"

definition py_lower :: "string \<Rightarrow> string" where
  "py_lower s = map lower_char s"

definition norm_hash :: "string \<Rightarrow> string" where
  "norm_hash s = py_lower (py_strip s)"

lemma lower_char_idem [simp]: "lower_char (lower_char c) = lower_char c"
  by (auto simp: lower_char_def Let_def)

lemma py_lower_idem [simp]: "py_lower (py_lower s) = py_lower s"
  by (simp add: py_lower_def)

lemma py_lower_Nil_iff [simp]: "py_lower s = [] \<longleftrightarrow> s = []"
  by (simp add: py_lower_def)

lemma py_lower_Nil [simp]: "py_lower [] = []" "py_strip [] = []" "norm_hash [] = []"
  by (simp_all add: py_lower_def py_strip_def norm_hash_def)

lemma length_py_lower [simp]: "length (py_lower s) = length s"
  by (simp add: py_lower_def)

lemma py_space_lower [simp]: "py_space (lower_char c) = py_space c"
  by (auto simp: py_space_def lower_char_def Let_def)

lemma dropWhile_rev_dropWhile:
  assumes "t = [] \<or> \<not> P (hd t)"
  shows "dropWhile P (rev (dropWhile P (rev t))) = rev (dropWhile P (rev t))"
proof (cases "rev (dropWhile P (rev t))")
  case (Cons x xs)
  have "rev t = takeWhile P (rev t) @ dropWhile P (rev t)" by simp
  hence "t = rev (dropWhile P (rev t)) @ rev (takeWhile P (rev t))" by (metis rev_append rev_rev_ident)
  hence "hd t = x" "t \<noteq> []" using Cons by (metis append_Cons list.sel(1), auto)
  with assms Cons show ?thesis by simp
next
  case Nil
  thus ?thesis by (simp only: Nil dropWhile.simps)
qed

lemma py_strip_idem [simp]: "py_strip (py_strip s) = py_strip s"
proof -
  let ?t = "dropWhile py_space s"
  have "?t = [] \<or> \<not> py_space (hd ?t)" using hd_dropWhile by blast
  from dropWhile_rev_dropWhile [of ?t py_space, OF this] show ?thesis by (simp add: py_strip_def)
qed

lemma dropWhile_lower: "dropWhile py_space (map lower_char s) = map lower_char (dropWhile py_space s)"
  by (induction s) auto

lemma strip_lower: "py_strip (py_lower s) = py_lower (py_strip s)"
  by (simp add: py_strip_def py_lower_def dropWhile_lower rev_map)

lemma norm_hash_idem [simp]: "norm_hash (norm_hash s) = norm_hash s"
  by (simp add: norm_hash_def strip_lower)

lemma norm_hash_lower [simp]: "py_lower (norm_hash s) = norm_hash s" "py_strip (norm_hash s) = norm_hash s"
  by (simp_all add: norm_hash_def strip_lower)

text \<open>A number in decimal, as \<open>str\<close> writes it.\<close>

fun nat_text :: "nat \<Rightarrow> string" where
  "nat_text n = (if n < 10 then [] else nat_text (n div 10)) @ [char_of (n mod 10 + 48)]"

definition int_text :: "int \<Rightarrow> string" where
  "int_text n = (if n < 0 then CHR ''-'' # nat_text (nat (- n)) else nat_text (nat n))"

section \<open>Dictionaries with insertion order\<close>

text \<open>
  \<open>AList.update\<close> overwrites in place and appends a new key at the end, as a Python \<open>dict\<close> does.
\<close>

type_synonym ('k, 'v) dict = "('k \<times> 'v) list"

abbreviation dict_set :: "'k \<Rightarrow> 'v \<Rightarrow> ('k, 'v) dict \<Rightarrow> ('k, 'v) dict" where
  "dict_set \<equiv> AList.update"

abbreviation dict_keys :: "('k, 'v) dict \<Rightarrow> 'k list" where
  "dict_keys d \<equiv> map fst d"

abbreviation dict_values :: "('k, 'v) dict \<Rightarrow> 'v list" where
  "dict_values d \<equiv> map snd d"

definition dict_get :: "('k, 'v) dict \<Rightarrow> 'k \<Rightarrow> 'v \<Rightarrow> 'v" where
  "dict_get d k x = (case map_of d k of None \<Rightarrow> x | Some v \<Rightarrow> v)"

text \<open>\<open>v = d.get(k); if v: v.modify()\<close> on an object stored in the dictionary.\<close>

definition dict_modify :: "'k \<Rightarrow> ('v \<Rightarrow> 'v) \<Rightarrow> ('k, 'v) dict \<Rightarrow> ('k, 'v) dict" where
  "dict_modify k f d = (case map_of d k of None \<Rightarrow> d | Some v \<Rightarrow> dict_set k (f v) d)"

lemma dict_set_keys: "distinct (dict_keys d) \<Longrightarrow> distinct (dict_keys (dict_set k v d))"
  by (rule distinct_update)

lemma dict_keys_set: "dict_keys (dict_set k v d) = (if k \<in> set (dict_keys d) then dict_keys d else dict_keys d @ [k])"
  by (induction d) auto

lemma dict_modify_keys [simp]: "dict_keys (dict_modify k f d) = dict_keys d"
proof (cases "map_of d k")
  case (Some v)
  hence "k \<in> set (dict_keys d)" by (metis domI dom_map_of_conv_image_fst image_set)
  with Some show ?thesis by (simp add: dict_modify_def dict_keys_set)
qed (simp add: dict_modify_def)

lemma dict_modify_keyset [simp]: "fst ` set (dict_modify k f d) = fst ` set d"
  by (metis dict_modify_keys list.set_map)

lemma dict_modify_get: "map_of (dict_modify k f d) j = (if j = k then map_option f (map_of d k) else map_of d j)"
  by (auto simp: dict_modify_def update_conv split: option.splits)

lemma dict_modify_other: "j \<noteq> k \<Longrightarrow> map_of (dict_modify k f d) j = map_of d j"
  by (simp add: dict_modify_get)

lemma map_of_key: "map_of d k = Some v \<Longrightarrow> k \<in> set (dict_keys d)"
  by (metis domI dom_map_of_conv_image_fst image_set)

lemma map_of_find: "map_of (map (\<lambda>x. (f x, x)) xs) k = find (\<lambda>x. f x = k) xs"
  by (induction xs) auto

section \<open>Results\<close>

text \<open>\<open>Inl\<close> is the exception raised, \<open>Inr\<close> the value returned.\<close>

type_synonym ('e, 'a) result = "'e + 'a"

abbreviation raise :: "'e \<Rightarrow> ('e, 'a) result" where "raise \<equiv> Inl"
abbreviation ret :: "'a \<Rightarrow> ('e, 'a) result" where "ret \<equiv> Inr"

end
