(* ===== verification/Bft_Types.thy ===== *)
theory Bft_Types
  imports Prelude
begin

text \<open>
  The value types of \<open>consensus/bft/types.py\<close> and the evidence helpers of
  \<open>consensus/bft/evidence.py\<close>. A frozen dataclass is a record; its \<open>__post_init__\<close>
  normalisation is the constructor function \<open>mk_\<dots>\<close>, so a value the program can hold is one built by
  that function (\<open>wf_vote\<close>). \<open>str(x or "")\<close> on a string is the string itself.
\<close>

datatype vote_type = VtPropose | VtPrevote | VtPrecommit

datatype round_phase = PhPropose | PhPrevote | PhPrecommit | PhFinalize | PhLocked

datatype round_status = StOk | StRefused | StComplete | StLocked

record round_id =
  rid_epoch :: int
  rid_height :: int
  rid_round :: int

type_synonym round_key = "int \<times> int \<times> int"

definition rid_key :: "round_id \<Rightarrow> round_key" where
  "rid_key r = (rid_epoch r, rid_height r, rid_round r)"

lemma rid_key_eq [simp]: "rid_key r = rid_key q \<longleftrightarrow> (r :: round_id) = q"
  by (cases r; cases q) (simp add: rid_key_def)

record validator_info =
  vi_id :: string
  vi_stake :: pyfloat
  vi_pubkey :: string
  vi_active :: bool
  vi_slashed :: bool

definition mk_validator_info :: "string \<Rightarrow> pyfloat \<Rightarrow> string \<Rightarrow> bool \<Rightarrow> bool \<Rightarrow> validator_info" where
  "mk_validator_info vid stake pk act sl =
     \<lparr>vi_id = py_strip vid, vi_stake = stake, vi_pubkey = pk, vi_active = act, vi_slashed = sl\<rparr>"

text \<open>\<open>ValidatorSetSnapshot\<close>: the validators of one round, as a tuple.\<close>

type_synonym snapshot = "validator_info list"

definition snap_get :: "snapshot \<Rightarrow> string \<Rightarrow> validator_info option" where
  "snap_get sn vid = find (\<lambda>v. vi_id v = py_strip vid) sn"

definition counts :: "validator_info \<Rightarrow> bool" where
  "counts v \<longleftrightarrow> vi_active v \<and> \<not> vi_slashed v \<and> 0 < vi_stake v"

definition total_active_stake :: "snapshot \<Rightarrow> pyfloat" where
  "total_active_stake sn = py_sum (map vi_stake (filter counts sn))"

definition is_active :: "snapshot \<Rightarrow> string \<Rightarrow> bool" where
  "is_active sn vid =
     (case snap_get sn vid of None \<Rightarrow> False | Some v \<Rightarrow> vi_active v \<and> \<not> vi_slashed v)"

record block_ref =
  br_height :: int
  br_hash :: string
  br_parent :: string

definition mk_block_ref :: "int \<Rightarrow> string \<Rightarrow> string \<Rightarrow> block_ref" where
  "mk_block_ref h bh ph = \<lparr>br_height = h, br_hash = norm_hash bh, br_parent = norm_hash ph\<rparr>"

record vote =
  v_validator :: string
  v_type :: vote_type
  v_round :: round_id
  v_hash :: string
  v_slot :: int
  v_signature :: string
  v_verified :: bool

definition mk_vote :: "string \<Rightarrow> vote_type \<Rightarrow> round_id \<Rightarrow> string \<Rightarrow> int \<Rightarrow> string \<Rightarrow> bool \<Rightarrow> vote" where
  "mk_vote vid vt rid h slot sig ver =
     \<lparr>v_validator = py_strip vid, v_type = vt, v_round = rid, v_hash = norm_hash h,
      v_slot = slot, v_signature = sig, v_verified = ver\<rparr>"

definition wf_vote :: "vote \<Rightarrow> bool" where
  "wf_vote v \<longleftrightarrow> py_strip (v_validator v) = v_validator v \<and> norm_hash (v_hash v) = v_hash v"

lemma wf_mk_vote [simp]: "wf_vote (mk_vote vid vt rid h slot sig ver)"
  by (simp add: wf_vote_def mk_vote_def)

record proposal =
  p_proposer :: string
  p_round :: round_id
  p_hash :: string
  p_parent :: string

definition mk_proposal :: "string \<Rightarrow> round_id \<Rightarrow> string \<Rightarrow> string \<Rightarrow> proposal" where
  "mk_proposal pid rid h ph =
     \<lparr>p_proposer = py_strip pid, p_round = rid, p_hash = norm_hash h, p_parent = norm_hash ph\<rparr>"

record quorum_certificate =
  qc_round :: round_id
  qc_type :: vote_type
  qc_hash :: string
  qc_voted :: pyfloat
  qc_total :: pyfloat
  qc_reached :: bool

definition mk_certificate ::
  "round_id \<Rightarrow> vote_type \<Rightarrow> string \<Rightarrow> pyfloat \<Rightarrow> pyfloat \<Rightarrow> bool \<Rightarrow> quorum_certificate" where
  "mk_certificate rid vt h sv st ok =
     \<lparr>qc_round = rid, qc_type = vt, qc_hash = norm_hash h, qc_voted = sv, qc_total = st, qc_reached = ok\<rparr>"

record finality_view =
  fv_finalized_height :: int
  fv_justified_height :: int
  fv_quorum_live :: bool
  fv_attestations :: bool
  fv_detail :: string

record round_outcome =
  ro_status :: round_status
  ro_phase :: round_phase
  ro_reason :: string
  ro_round :: "round_id option"
  ro_hash :: string
  ro_detail :: string

definition outcome_ok :: "round_outcome \<Rightarrow> bool" where
  "outcome_ok o' \<longleftrightarrow> ro_status o' = StOk \<or> ro_status o' = StComplete"

definition ro_accepted :: "round_phase \<Rightarrow> round_id \<Rightarrow> string \<Rightarrow> string \<Rightarrow> round_outcome" where
  "ro_accepted ph rid h reason =
     \<lparr>ro_status = StOk, ro_phase = ph, ro_reason = reason, ro_round = Some rid, ro_hash = h, ro_detail = ''''\<rparr>"

definition ro_complete :: "round_id \<Rightarrow> string \<Rightarrow> round_outcome" where
  "ro_complete rid h =
     \<lparr>ro_status = StComplete, ro_phase = PhFinalize, ro_reason = ''finalized'', ro_round = Some rid,
      ro_hash = h, ro_detail = ''''\<rparr>"

definition ro_refused :: "round_phase \<Rightarrow> string \<Rightarrow> round_id \<Rightarrow> string \<Rightarrow> round_outcome" where
  "ro_refused ph reason rid h =
     \<lparr>ro_status = StRefused, ro_phase = ph,
      ro_reason = (if reason = '''' then ''refused'' else reason),
      ro_round = Some rid, ro_hash = h, ro_detail = ''''\<rparr>"

definition ro_locked :: "string \<Rightarrow> round_id \<Rightarrow> string \<Rightarrow> round_outcome" where
  "ro_locked reason rid detail =
     \<lparr>ro_status = StLocked, ro_phase = PhLocked,
      ro_reason = (if reason = '''' then ''locked'' else reason),
      ro_round = Some rid, ro_hash = '''', ro_detail = detail\<rparr>"

section \<open>Evidence\<close>

record security_evidence =
  se_reason :: string
  se_validator :: string
  se_round :: "round_id option"
  se_votes :: "vote list"
  se_attempts :: int
  se_detail :: string

definition malicious_reason_codes :: "string list" where
  "malicious_reason_codes =
     [''double_vote'', ''double_proposal'', ''surround_vote'', ''unknown_validator_vote'',
      ''fake_vote_unverified'', ''consensus_double_sign'', ''consensus_round_spam'',
      ''prevote_precommit_hash_mismatch'']"

definition is_malicious_reason :: "string \<Rightarrow> bool" where
  "is_malicious_reason reason \<longleftrightarrow> reason \<in> set malicious_reason_codes"

definition spam_threshold :: int where
  "spam_threshold = 3"

definition build_evidence ::
  "string \<Rightarrow> string \<Rightarrow> round_id option \<Rightarrow> vote list \<Rightarrow> int \<Rightarrow> string \<Rightarrow> security_evidence" where
  "build_evidence reason vid rid vs attempts detail =
     \<lparr>se_reason = (if reason = '''' then ''refused'' else reason), se_validator = vid, se_round = rid,
      se_votes = vs, se_attempts = max 1 (if attempts = 0 then 1 else attempts), se_detail = detail\<rparr>"

text \<open>\<open>to_bus_payload\<close>: the fields put on the event bus; \<open>kind\<close> and \<open>fail_closed\<close> are constants.\<close>

record evidence_payload =
  ep_reason :: string
  ep_validator :: string
  ep_epoch :: int
  ep_height :: int
  ep_round :: int
  ep_attempts :: int
  ep_detail :: string
  ep_vote_count :: int

definition to_bus_payload :: "security_evidence \<Rightarrow> evidence_payload" where
  "to_bus_payload e =
     (case se_round e of
        None \<Rightarrow> \<lparr>ep_reason = se_reason e, ep_validator = se_validator e, ep_epoch = 0, ep_height = 0,
                 ep_round = 0, ep_attempts = se_attempts e, ep_detail = se_detail e,
                 ep_vote_count = int (length (se_votes e))\<rparr>
      | Some r \<Rightarrow> \<lparr>ep_reason = se_reason e, ep_validator = se_validator e, ep_epoch = rid_epoch r,
                   ep_height = rid_height r, ep_round = rid_round r, ep_attempts = se_attempts e,
                   ep_detail = se_detail e, ep_vote_count = int (length (se_votes e))\<rparr>)"

section \<open>Facts about snapshots\<close>

lemma find_cong_map:
  "(\<And>x. x \<in> set xs \<Longrightarrow> P (f x) = P x) \<Longrightarrow> find P (map f xs) = map_option f (find P xs)"
  by (induction xs) auto

lemma snap_get_Some: "snap_get sn vid = Some v \<Longrightarrow> v \<in> set sn \<and> vi_id v = py_strip vid"
  by (auto simp: snap_get_def find_Some_iff)

lemma snap_get_strip [simp]: "snap_get sn (py_strip vid) = snap_get sn vid"
  by (simp add: snap_get_def)

lemma is_active_member:
  "is_active sn vid \<Longrightarrow> \<exists>v \<in> set sn. vi_id v = py_strip vid \<and> vi_active v \<and> \<not> vi_slashed v"
  by (auto simp: is_active_def split: option.splits dest: snap_get_Some)

end
