(* ===== verification/Bft_Quorum.thy ===== *)
theory Bft_Quorum
  imports Bft_Types
begin

text \<open>
  \<open>consensus/bft/quorum.py\<close>: the stake-weighted quorum with its double-precision arithmetic. The
  code compares a rounded quotient with the rounded constant \<open>2.0 / 3.0\<close>; \<open>quorum_reached_iff\<close> shows
  that for whole stakes up to \<open>2 ^ 51\<close> this is exactly "three times the voted stake is at least
  twice the total". On top of it: two certificates of one round share at least a third of the stake,
  so conflicting certificates need equivocating validators.
\<close>

definition quorum_threshold :: pyfloat where
  "quorum_threshold = fdiv 2 3"

definition quorum_reached :: "pyfloat \<Rightarrow> pyfloat \<Rightarrow> bool" where
  "quorum_reached stake_voted stake_total =
     (if stake_total \<le> 0 then False else quorum_threshold \<le> fdiv stake_voted stake_total)"

definition matches :: "round_id \<Rightarrow> vote_type \<Rightarrow> string \<Rightarrow> vote \<Rightarrow> bool" where
  "matches rid vt want v \<longleftrightarrow> v_type v = vt \<and> rid_key (v_round v) = rid_key rid \<and> py_lower (v_hash v) = want"

fun stake_loop ::
  "snapshot \<Rightarrow> round_id \<Rightarrow> vote_type \<Rightarrow> string \<Rightarrow> vote list \<Rightarrow> string list \<Rightarrow> pyfloat \<Rightarrow> pyfloat" where
  "stake_loop sn rid vt want [] seen stake = stake"
| "stake_loop sn rid vt want (v # vs) seen stake =
     (if \<not> matches rid vt want v then stake_loop sn rid vt want vs seen stake
      else if v_validator v \<in> set seen then stake_loop sn rid vt want vs seen stake
      else (case snap_get sn (v_validator v) of
              None \<Rightarrow> stake_loop sn rid vt want vs seen stake
            | Some info \<Rightarrow>
                if \<not> vi_active info \<or> vi_slashed info then stake_loop sn rid vt want vs seen stake
                else stake_loop sn rid vt want vs (v_validator v # seen) (fadd stake (vi_stake info))))"

definition stake_for_votes :: "snapshot \<Rightarrow> vote list \<Rightarrow> round_id \<Rightarrow> vote_type \<Rightarrow> string \<Rightarrow> pyfloat" where
  "stake_for_votes sn vs rid vt h = stake_loop sn rid vt (norm_hash h) vs [] 0"

definition build_certificate ::
  "snapshot \<Rightarrow> vote list \<Rightarrow> round_id \<Rightarrow> vote_type \<Rightarrow> string \<Rightarrow> quorum_certificate" where
  "build_certificate sn vs rid vt h =
     (let total = total_active_stake sn
      in if total \<le> 0 then mk_certificate rid vt (py_lower h) 0 0 False
         else (let voted = stake_for_votes sn vs rid vt h
               in mk_certificate rid vt (py_lower h) voted total (quorum_reached voted total)))"

section \<open>The float threshold is exact on whole stakes\<close>

lemma threshold_value: "quorum_threshold = 6004799503160661 / 9007199254740992"
proof -
  have m: "magnitude 2 (2 / 3) = 0" by (rule magnitude_unique) (simp_all add: power_int_minus)
  have q: "(2 / 3 :: rat) / of_nat 2 powi (0 - int 53) = 18014398509481984 / 3"
    by (simp add: power_int_minus)
  have r: "rne (18014398509481984 / 3) = 6004799503160661"
  proof -
    have "\<lfloor>18014398509481984 / 3 :: rat\<rfloor> = 6004799503160661" by (rule floor_unique) simp_all
    thus ?thesis by (simp add: rne_def Let_def)
  qed
  have "quorum_threshold = rnd_pos 2 53 (2 / 3)" by (simp add: quorum_threshold_def fdiv_def f64_def rnd_def)
  also have "\<dots> = of_int 6004799503160661 * of_nat 2 powi (0 - int 53)"
    unfolding rnd_pos_def Let_def m q r ..
  also have "\<dots> = 6004799503160661 / 9007199254740992" by (simp add: power_int_minus)
  finally show ?thesis .
qed

lemma threshold_pred: "f64 (6004799503160660 / 9007199254740992) = 6004799503160660 / 9007199254740992"
  using rnd_exact [of 2 53 6004799503160660 "-53"] by (simp add: f64_def power_int_minus)

lemma quorum_reached_iff:
  fixes v t :: int
  assumes "0 < t" "t \<le> 2 ^ 51"
  shows "quorum_reached (of_int v) (of_int t) \<longleftrightarrow> 2 * t \<le> 3 * v"
proof -
  let ?x = "(of_int v / of_int t :: rat)"
  have t: "(0 :: rat) < of_int t" using assms(1) by simp
  have "quorum_threshold \<le> f64 ?x \<longleftrightarrow> 2 * t \<le> 3 * v"
  proof
    assume "2 * t \<le> 3 * v"
    hence "(2 :: rat) * of_int t \<le> 3 * of_int v" by (metis of_int_le_iff of_int_mult of_int_numeral)
    hence "2 / 3 \<le> ?x" using t by (simp add: field_simps)
    thus "quorum_threshold \<le> f64 ?x" unfolding quorum_threshold_def fdiv_def by (rule double.R_mono)
  next
    assume "quorum_threshold \<le> f64 ?x"
    hence "f64 (6004799503160660 / 9007199254740992) < f64 ?x"
      unfolding threshold_pred threshold_value by linarith
    from double.R_less_imp_less [OF this]
    have "6004799503160660 * of_int t < (9007199254740992 :: rat) * of_int v" using t by (simp add: field_simps)
    hence "6004799503160660 * t < 9007199254740992 * v"
      by (metis of_int_less_iff of_int_mult of_int_numeral)
    with assms(2) show "2 * t \<le> 3 * v" by simp
  qed
  thus ?thesis using t by (simp add: quorum_reached_def fdiv_def)
qed

section \<open>Supporters of a block, their stake, and quorum intersection\<close>

definition wf_snapshot :: "snapshot \<Rightarrow> bool" where
  "wf_snapshot sn \<longleftrightarrow>
     distinct (map vi_id sn)
     \<and> (\<forall>i \<in> set sn. py_strip (vi_id i) = vi_id i \<and> 0 \<le> vi_stake i \<and> vi_stake i = of_int \<lfloor>vi_stake i\<rfloor>)
     \<and> sum_list (map (\<lambda>i. \<lfloor>vi_stake i\<rfloor>) sn) \<le> 2 ^ 51"

definition voting :: "validator_info \<Rightarrow> bool" where
  "voting i \<longleftrightarrow> vi_active i \<and> \<not> vi_slashed i"

definition supporters ::
  "snapshot \<Rightarrow> round_id \<Rightarrow> vote_type \<Rightarrow> string \<Rightarrow> vote list \<Rightarrow> validator_info set" where
  "supporters sn rid vt want vs =
     {i \<in> set sn. voting i \<and> (\<exists>v \<in> set vs. matches rid vt want v \<and> v_validator v = vi_id i)}"

definition istake :: "validator_info set \<Rightarrow> int" where
  "istake A = (\<Sum>i \<in> A. \<lfloor>vi_stake i\<rfloor>)"

lemma wf_snapshot_get:
  assumes "wf_snapshot sn" "i \<in> set sn"
  shows "snap_get sn (vi_id i) = Some i"
proof -
  have "find (\<lambda>v. vi_id v = vi_id i) sn = Some i"
    using assms by (induction sn) (auto simp: wf_snapshot_def)
  thus ?thesis using assms by (simp add: snap_get_def wf_snapshot_def)
qed

lemma wf_snapshot_inj: "wf_snapshot sn \<Longrightarrow> i \<in> set sn \<Longrightarrow> j \<in> set sn \<Longrightarrow> vi_id i = vi_id j \<Longrightarrow> i = j"
  by (metis option.inject wf_snapshot_get)

lemma wf_snapshot_distinct: "wf_snapshot sn \<Longrightarrow> distinct sn"
  by (simp add: wf_snapshot_def distinct_map)

lemma istake_mono: "wf_snapshot sn \<Longrightarrow> A \<subseteq> B \<Longrightarrow> B \<subseteq> set sn \<Longrightarrow> istake A \<le> istake B"
  unfolding istake_def by (rule sum_mono2) (auto simp: wf_snapshot_def finite_subset)

lemma istake_nonneg: "wf_snapshot sn \<Longrightarrow> A \<subseteq> set sn \<Longrightarrow> 0 \<le> istake A"
  unfolding istake_def by (rule sum_nonneg) (auto simp: wf_snapshot_def)

lemma istake_all:
  assumes "wf_snapshot sn" shows "istake (set sn) \<le> 2 ^ 51"
proof -
  have "distinct sn" using assms by (rule wf_snapshot_distinct)
  hence "istake (set sn) = sum_list (map (\<lambda>i. \<lfloor>vi_stake i\<rfloor>) sn)"
    by (simp add: istake_def sum_list_distinct_conv_sum_set)
  with assms show ?thesis by (simp add: wf_snapshot_def)
qed

lemma istake_Un_Int:
  "finite A \<Longrightarrow> finite B \<Longrightarrow> istake A + istake B = istake (A \<union> B) + istake (A \<inter> B)"
  unfolding istake_def by (rule sum.union_inter [symmetric])

lemma supporters_Cons:
  "supporters sn rid vt want (v # vs) =
     supporters sn rid vt want vs \<union> {i \<in> set sn. voting i \<and> matches rid vt want v \<and> v_validator v = vi_id i}"
  by (auto simp: supporters_def)

lemma stake_loop_exact:
  assumes "wf_snapshot sn" "\<forall>v \<in> set vs. wf_vote v"
    and "0 \<le> a" "a + istake {i \<in> supporters sn rid vt want vs. vi_id i \<notin> set seen} \<le> 2 ^ 53"
  shows "stake_loop sn rid vt want vs seen (of_int a) =
    of_int (a + istake {i \<in> supporters sn rid vt want vs. vi_id i \<notin> set seen})"
  using assms
proof (induction vs arbitrary: seen a)
  case Nil
  thus ?case by (simp add: supporters_def istake_def)
next
  case (Cons v vs)
  let ?S = "\<lambda>vs seen. {i \<in> supporters sn rid vt want vs. vi_id i \<notin> set seen}"
  have strip: "py_strip (v_validator v) = v_validator v" using Cons.prems(2) by (simp add: wf_vote_def)
  show ?case
  proof (cases "matches rid vt want v \<and> v_validator v \<notin> set seen \<and> is_active sn (v_validator v)")
    case False
    have "?S (v # vs) seen = ?S vs seen"
      using False wf_snapshot_get [OF Cons.prems(1)] by (auto simp: supporters_def is_active_def voting_def)
    moreover have "stake_loop sn rid vt want (v # vs) seen x = stake_loop sn rid vt want vs seen x" for x
      using False by (auto simp: is_active_def split: option.splits)
    ultimately show ?thesis using Cons by simp
  next
    case True
    then obtain i where i: "snap_get sn (v_validator v) = Some i" "voting i"
      by (auto simp: is_active_def voting_def split: option.splits)
    from snap_get_Some [OF i(1)] strip have id: "i \<in> set sn" "vi_id i = v_validator v" by auto
    have S: "?S (v # vs) seen = insert i (?S vs (v_validator v # seen))"
    proof -
      have one: "{j \<in> set sn. voting j \<and> matches rid vt want v \<and> v_validator v = vi_id j} = {i}"
      proof (intro equalityI subsetI)
        fix j assume "j \<in> {j \<in> set sn. voting j \<and> matches rid vt want v \<and> v_validator v = vi_id j}"
        hence "j \<in> set sn" "vi_id j = vi_id i" using id(2) by auto
        with wf_snapshot_inj [OF Cons.prems(1) _ id(1)] show "j \<in> {i}" by blast
      qed (use True id i(2) in simp)
      have ids: "vi_id j = v_validator v \<Longrightarrow> j = i" if "j \<in> supporters sn rid vt want vs" for j
        using that wf_snapshot_inj [OF Cons.prems(1) _ id(1), of j] id(2) by (auto simp: supporters_def)
      have seen: "vi_id i \<notin> set seen" using True id(2) by simp
      show ?thesis
        unfolding supporters_Cons one using ids seen id(2) by (intro set_eqI) (simp, metis)
    qed
    have fin: "finite (?S vs (v_validator v # seen))"
      by (rule finite_subset [of _ "set sn"]) (auto simp: supporters_def)
    have sum: "istake (?S (v # vs) seen) = \<lfloor>vi_stake i\<rfloor> + istake (?S vs (v_validator v # seen))"
      unfolding S istake_def using fin id(2) by (subst sum.insert) auto
    have st: "0 \<le> \<lfloor>vi_stake i\<rfloor>" "vi_stake i = of_int \<lfloor>vi_stake i\<rfloor>"
      using Cons.prems(1) id(1) by (auto simp: wf_snapshot_def)
    have nn: "0 \<le> istake (?S vs (v_validator v # seen))"
      by (rule istake_nonneg [OF Cons.prems(1)]) (auto simp: supporters_def)
    have "fadd (of_int a) (vi_stake i) = of_int (a + \<lfloor>vi_stake i\<rfloor>)"
    proof -
      have "\<bar>a + \<lfloor>vi_stake i\<rfloor>\<bar> \<le> 2 ^ 53" using st(1) Cons.prems(3,4) sum nn by linarith
      from fadd_int [OF this] st(2) show ?thesis by metis
    qed
    moreover have "stake_loop sn rid vt want (v # vs) seen (of_int a) =
        stake_loop sn rid vt want vs (v_validator v # seen) (fadd (of_int a) (vi_stake i))"
      using True i by (simp add: voting_def)
    ultimately show ?thesis
      using Cons.IH [of "a + \<lfloor>vi_stake i\<rfloor>" "v_validator v # seen"] Cons.prems st sum by (simp add: add.assoc)
  qed
qed

lemma stake_for_votes_exact:
  assumes "wf_snapshot sn" "\<forall>v \<in> set vs. wf_vote v"
  shows "stake_for_votes sn vs rid vt h = of_int (istake (supporters sn rid vt (norm_hash h) vs))"
proof -
  have sub: "supporters sn rid vt (norm_hash h) vs \<subseteq> set sn" by (auto simp: supporters_def)
  have "istake (supporters sn rid vt (norm_hash h) vs) \<le> 2 ^ 53"
    using istake_mono [OF assms(1) sub] istake_all [OF assms(1)] by simp
  thus ?thesis using stake_loop_exact [OF assms, of 0 rid vt "norm_hash h" "[]"] by (simp add: stake_for_votes_def)
qed

lemma total_active_stake_exact:
  assumes "wf_snapshot sn"
  shows "total_active_stake sn = of_int (istake {i \<in> set sn. voting i})"
proof -
  let ?ks = "map (\<lambda>i. \<lfloor>vi_stake i\<rfloor>) (filter counts sn)"
  have st: "vi_stake i = of_int \<lfloor>vi_stake i\<rfloor> \<and> 0 \<le> \<lfloor>vi_stake i\<rfloor>" if "i \<in> set sn" for i
    using assms that by (auto simp: wf_snapshot_def)
  have d: "distinct (filter counts sn)" using wf_snapshot_distinct [OF assms] by simp
  hence sum: "sum_list ?ks = istake {i \<in> set sn. counts i}"
    by (simp add: istake_def sum_list_distinct_conv_sum_set)
  also have "\<dots> = istake {i \<in> set sn. voting i}"
    unfolding istake_def
  proof (rule sum.mono_neutral_left)
    show "\<forall>i \<in> {i \<in> set sn. voting i} - {i \<in> set sn. counts i}. \<lfloor>vi_stake i\<rfloor> = 0"
    proof
      fix i assume i: "i \<in> {i \<in> set sn. voting i} - {i \<in> set sn. counts i}"
      hence "vi_stake i \<le> 0" by (auto simp: voting_def counts_def)
      hence le: "\<lfloor>vi_stake i\<rfloor> \<le> 0" by (simp add: floor_le_iff)
      from i have "i \<in> set sn" by blast
      from st [OF this] le show "\<lfloor>vi_stake i\<rfloor> = 0" by linarith
    qed
  qed (auto simp: voting_def counts_def)
  finally have eq: "sum_list ?ks = istake {i \<in> set sn. voting i}" .
  have "istake {i \<in> set sn. voting i} \<le> 2 ^ 53"
    using istake_mono [OF assms, of "{i \<in> set sn. voting i}" "set sn"] istake_all [OF assms] by auto
  moreover have "\<forall>k \<in> set ?ks. 0 \<le> k" using st by auto
  ultimately have "py_sum (map of_int ?ks) = of_int (sum_list ?ks)" by (intro py_sum_int) (simp_all only: eq)
  moreover have "map of_int ?ks = map vi_stake (filter counts sn)"
    unfolding map_map
  proof (rule map_cong [OF refl])
    fix i assume "i \<in> set (filter counts sn)"
    hence "i \<in> set sn" by simp
    from st [OF this] show "(of_int \<circ> (\<lambda>i. \<lfloor>vi_stake i\<rfloor>)) i = vi_stake i" by (simp only: comp_apply)
  qed
  ultimately show ?thesis unfolding total_active_stake_def eq [symmetric] by (simp only:)
qed

text \<open>The certificate decides exactly whether the supporters hold two thirds of the active stake.\<close>

lemma certificate_reached_iff:
  assumes "wf_snapshot sn" "\<forall>v \<in> set vs. wf_vote v"
  shows "qc_reached (build_certificate sn vs rid vt h) \<longleftrightarrow>
    0 < istake {i \<in> set sn. voting i}
    \<and> 2 * istake {i \<in> set sn. voting i} \<le> 3 * istake (supporters sn rid vt (norm_hash h) vs)"
proof -
  have "istake {i \<in> set sn. voting i} \<le> 2 ^ 51"
    using istake_mono [OF assms(1), of "{i \<in> set sn. voting i}" "set sn"] istake_all [OF assms(1)] by auto
  thus ?thesis
    using quorum_reached_iff
    by (auto simp: build_certificate_def Let_def mk_certificate_def total_active_stake_exact [OF assms(1)]
        stake_for_votes_exact [OF assms])
qed

text \<open>Two certificates of one round and type have supporters holding a third of the stake in common.\<close>

lemma certificates_intersect:
  assumes "wf_snapshot sn" "\<forall>v \<in> set vs. wf_vote v"
    and "qc_reached (build_certificate sn vs rid vt h)" "qc_reached (build_certificate sn vs rid vt h')"
  shows "istake {i \<in> set sn. voting i} \<le>
    3 * istake (supporters sn rid vt (norm_hash h) vs \<inter> supporters sn rid vt (norm_hash h') vs)"
    and "0 < istake {i \<in> set sn. voting i}"
proof -
  let ?A = "supporters sn rid vt (norm_hash h) vs" and ?B = "supporters sn rid vt (norm_hash h') vs"
  let ?V = "{i \<in> set sn. voting i}"
  have fin: "finite ?A" "finite ?B" by (rule finite_subset [of _ "set sn"]; auto simp: supporters_def)+
  have "istake (?A \<union> ?B) \<le> istake ?V"
    by (rule istake_mono [OF assms(1)]) (auto simp: supporters_def)
  with istake_Un_Int [OF fin] assms(3,4) show "istake ?V \<le> 3 * istake (?A \<inter> ?B)"
    by (simp add: certificate_reached_iff [OF assms(1,2)])
  show "0 < istake ?V" using assms(3) by (simp add: certificate_reached_iff [OF assms(1,2)])
qed

end
