(* ===== verification/Validator_Registry.thy ===== *)
theory Validator_Registry
  imports Bft_Types
begin

text \<open>
  \<open>consensus/validator_registry.py\<close> (validators, reputation, slashing) and the part of
  \<open>consensus/registry_adapter.py\<close> that turns the registry and the engine's validator table into
  the \<open>ValidatorInfo\<close> tuple every BFT round works on (\<open>AdapterValidatorRegistry\<close>), with
  \<open>ConsensusAdapter.slash_validator\<close>, which \<open>mark_slashed\<close> calls. The registry's lock serialises
  its methods, so each is one step on the state; \<open>time.time()\<close> is an argument.

  The locale \<open>validator_set\<close> is the interface a round relies on (\<open>ValidatorRegistryPort\<close>):
  slashing never re-activates anybody and leaves every other validator as it is. It is interpreted
  on the adapter's functions at the end of the theory.
\<close>

section \<open>ValidatorState\<close>

record validator_state =
  vs_address :: string
  vs_stake :: int
  vs_reputation :: pyfloat
  vs_missed_blocks :: int
  vs_slashed :: bool
  vs_slash_count :: int
  vs_produced_blocks :: int
  vs_voted_blocks :: int
  vs_last_active :: pyfloat

definition new_validator :: "string \<Rightarrow> int \<Rightarrow> pyfloat \<Rightarrow> validator_state" where
  "new_validator addr stake now =
     \<lparr>vs_address = addr, vs_stake = stake, vs_reputation = 1, vs_missed_blocks = 0,
      vs_slashed = False, vs_slash_count = 0, vs_produced_blocks = 0, vs_voted_blocks = 0,
      vs_last_active = now\<rparr>"

definition get_score :: "validator_state \<Rightarrow> pyfloat" where
  "get_score v =
     (if vs_slashed v then 0
      else let base_score = fmul (float_of_int (vs_stake v)) (vs_reputation v);
               penalty = fmul (float_of_int (vs_missed_blocks v)) (f64 (1 / 10))
           in max 0 (fsub base_score penalty))"

definition slash :: "validator_state \<Rightarrow> validator_state" where
  "slash v = v\<lparr>vs_reputation := fmul (vs_reputation v) (1 / 2),
               vs_slash_count := vs_slash_count v + 1, vs_slashed := True\<rparr>"

definition state_missed_block :: "validator_state \<Rightarrow> validator_state" where
  "state_missed_block v =
     (let v' = v\<lparr>vs_missed_blocks := vs_missed_blocks v + 1\<rparr>
      in if 10 < vs_missed_blocks v' then slash v' else v')"

definition state_produced_block :: "validator_state \<Rightarrow> validator_state" where
  "state_produced_block v =
     v\<lparr>vs_produced_blocks := vs_produced_blocks v + 1,
       vs_missed_blocks := max 0 (vs_missed_blocks v - 1)\<rparr>"

definition state_vote :: "pyfloat \<Rightarrow> validator_state \<Rightarrow> validator_state" where
  "state_vote now v = v\<lparr>vs_voted_blocks := vs_voted_blocks v + 1, vs_last_active := now\<rparr>"

section \<open>ValidatorRegistry\<close>

type_synonym registry = "(string, validator_state) dict"

definition register_validator :: "string \<Rightarrow> int \<Rightarrow> pyfloat \<Rightarrow> registry \<Rightarrow> registry \<times> bool" where
  "register_validator addr stake now r =
     (case map_of r addr of
        Some _ \<Rightarrow> (r, False)
      | None \<Rightarrow> (dict_set addr (new_validator addr stake now) r, True))"

definition get_validator :: "registry \<Rightarrow> string \<Rightarrow> validator_state option" where
  "get_validator r addr = map_of r addr"

definition get_all_validators :: "registry \<Rightarrow> validator_state list" where
  "get_all_validators r = dict_values r"

definition get_total_stake :: "registry \<Rightarrow> int" where
  "get_total_stake r = sum_list (map vs_stake (dict_values r))"

definition record_produced_block :: "string \<Rightarrow> registry \<Rightarrow> registry" where
  "record_produced_block addr r = dict_modify addr state_produced_block r"

definition record_missed_block :: "string \<Rightarrow> registry \<Rightarrow> registry" where
  "record_missed_block addr r = dict_modify addr state_missed_block r"

definition record_vote :: "pyfloat \<Rightarrow> string \<Rightarrow> registry \<Rightarrow> registry" where
  "record_vote now addr r = dict_modify addr (state_vote now) r"

definition slash_validator :: "string \<Rightarrow> registry \<Rightarrow> registry" where
  "slash_validator addr r = dict_modify addr slash r"

text \<open>Stable sort by score, highest first, cut at \<open>limit\<close>.\<close>

definition get_top_validators :: "registry \<Rightarrow> nat \<Rightarrow> validator_state list" where
  "get_top_validators r limit = take limit (sort_key (\<lambda>v. - get_score v) (dict_values r))"

text \<open>The statistics; the dictionary for an empty registry lacks the slashed count.\<close>

record registry_stats =
  st_total_validators :: int
  st_total_stake :: int
  st_active :: int
  st_slashed :: "int option"

definition get_stats :: "registry \<Rightarrow> registry_stats" where
  "get_stats r =
     (let active = int (length (filter (\<lambda>v. \<not> vs_slashed v) (dict_values r)))
      in \<lparr>st_total_validators = int (length r), st_total_stake = get_total_stake r,
          st_active = active, st_slashed = (if r = [] then None else Some (int (length r) - active))\<rparr>)"

datatype registry_op =
    Register string int pyfloat
  | Produced string
  | Missed string
  | Voted string pyfloat
  | Slash string

fun registry_step :: "registry \<Rightarrow> registry_op \<Rightarrow> registry" where
  "registry_step r (Register a s now) = fst (register_validator a s now r)"
| "registry_step r (Produced a) = record_produced_block a r"
| "registry_step r (Missed a) = record_missed_block a r"
| "registry_step r (Voted a now) = record_vote now a r"
| "registry_step r (Slash a) = slash_validator a r"

section \<open>Registry invariant\<close>

text \<open>
  A validator's reputation lies between 0 and 1 and equals 1 as long as it was never slashed;
  \<open>slashed\<close> and \<open>slash_count\<close> agree; counters are never negative; more than ten missed blocks
  imply that the validator was slashed.
\<close>

definition validator_ok :: "validator_state \<Rightarrow> bool" where
  "validator_ok v \<longleftrightarrow>
     0 \<le> vs_reputation v \<and> vs_reputation v \<le> 1 \<and> 0 \<le> vs_missed_blocks v \<and> 0 \<le> vs_slash_count v
     \<and> 0 \<le> vs_produced_blocks v \<and> 0 \<le> vs_voted_blocks v
     \<and> (vs_slashed v \<longleftrightarrow> 0 < vs_slash_count v)
     \<and> (\<not> vs_slashed v \<longrightarrow> vs_reputation v = 1 \<and> vs_missed_blocks v \<le> 10)"

definition registry_ok :: "registry \<Rightarrow> bool" where
  "registry_ok r \<longleftrightarrow>
     distinct (dict_keys r) \<and> (\<forall>(a, v) \<in> set r. vs_address v = a \<and> validator_ok v)"

lemma registry_okD:
  assumes "registry_ok r" "map_of r a = Some v"
  shows "vs_address v = a" "validator_ok v"
  using assms by (auto simp: registry_ok_def dest!: map_of_SomeD)

lemma registry_ok_set:
  assumes "registry_ok r" "vs_address v = a" "validator_ok v"
  shows "registry_ok (dict_set a v r)"
proof -
  have "(b, w) \<in> set (dict_set a v r) \<Longrightarrow> (b, w) = (a, v) \<or> (b, w) \<in> set r" for b w
    by (induction r) (auto split: if_splits)
  with assms show ?thesis by (fastforce simp: registry_ok_def intro: dict_set_keys)
qed

lemma registry_ok_modify:
  assumes "registry_ok r" "\<And>v. validator_ok v \<Longrightarrow> validator_ok (f v)" "\<And>v. vs_address (f v) = vs_address v"
  shows "registry_ok (dict_modify a f r)"
  using assms registry_okD [OF assms(1)]
  by (auto simp: dict_modify_def split: option.split intro!: registry_ok_set)

lemma validator_ok_slash [inv_intros]: "validator_ok v \<Longrightarrow> validator_ok (slash v)"
proof -
  assume v: "validator_ok v"
  hence r: "0 \<le> vs_reputation v" "vs_reputation v \<le> 1" by (auto simp: validator_ok_def)
  have "fmul (vs_reputation v) (1 / 2) \<le> f64 1"
    unfolding fmul_def using r by (intro double.R_mono) simp
  moreover have "0 \<le> fmul (vs_reputation v) (1 / 2)"
    unfolding fmul_def using r by (intro double.R_nonneg) simp
  ultimately show ?thesis using v by (auto simp: validator_ok_def slash_def)
qed

lemma validator_ok_steps [inv_intros]:
  "validator_ok v \<Longrightarrow> validator_ok (state_missed_block v)"
  "validator_ok v \<Longrightarrow> validator_ok (state_produced_block v)"
  "validator_ok v \<Longrightarrow> validator_ok (state_vote now v)"
proof -
  assume v: "validator_ok v"
  let ?v = "v\<lparr>vs_missed_blocks := vs_missed_blocks v + 1\<rparr>"
  show "validator_ok (state_missed_block v)"
  proof (cases "10 < vs_missed_blocks ?v")
    case True
    have "slash ?v = (slash v)\<lparr>vs_missed_blocks := vs_missed_blocks v + 1\<rparr>"
      by (simp add: slash_def)
    with validator_ok_slash [OF v] v show ?thesis
      using True by (auto simp: state_missed_block_def validator_ok_def slash_def)
  next
    case False
    with v show ?thesis by (auto simp: state_missed_block_def validator_ok_def)
  qed
qed (auto simp: validator_ok_def state_produced_block_def state_vote_def)

lemma step_address [simp]:
  "vs_address (slash v) = vs_address v" "vs_address (state_missed_block v) = vs_address v"
  "vs_address (state_produced_block v) = vs_address v" "vs_address (state_vote now v) = vs_address v"
  by (simp_all add: slash_def state_missed_block_def state_produced_block_def state_vote_def Let_def)

lemma registry_step_ok: "registry_ok r \<Longrightarrow> registry_ok (registry_step r op)"
proof (cases op)
  case (Register a s now)
  assume "registry_ok r"
  thus ?thesis
    by (auto simp: Register register_validator_def validator_ok_def new_validator_def
        split: option.split intro!: registry_ok_set)
qed (simp_all add: record_produced_block_def record_missed_block_def record_vote_def slash_validator_def
    registry_ok_modify inv_intros)

lemma registry_run_ok: "registry_ok r \<Longrightarrow> registry_ok (foldl registry_step r ops)"
  by (induction ops arbitrary: r) (auto intro: registry_step_ok)

text \<open>Slashing is permanent: no operation of the registry clears the flag.\<close>

lemma slashed_mono: "vs_slashed v \<Longrightarrow> vs_slashed (slash v)" "vs_slashed v \<Longrightarrow> vs_slashed (state_missed_block v)"
    "vs_slashed v \<Longrightarrow> vs_slashed (state_produced_block v)" "vs_slashed v \<Longrightarrow> vs_slashed (state_vote now v)"
  by (simp_all add: slash_def state_missed_block_def state_produced_block_def state_vote_def Let_def)

lemma registry_step_slashed:
  assumes "map_of r a = Some v" "vs_slashed v"
  shows "\<exists>v'. map_of (registry_step r op) a = Some v' \<and> vs_slashed v'"
  using assms
  by (cases op) (auto simp: register_validator_def record_produced_block_def record_missed_block_def
      record_vote_def slash_validator_def dict_modify_get update_conv slashed_mono split: option.splits)

lemma registry_run_slashed:
  assumes "map_of r a = Some v" "vs_slashed v"
  shows "\<exists>v'. map_of (foldl registry_step r ops) a = Some v' \<and> vs_slashed v'"
  using assms
proof (induction ops arbitrary: r v)
  case (Cons op ops)
  from registry_step_slashed [OF Cons.prems] Cons.IH show ?case by auto
qed auto

text \<open>The top list: a prefix of a permutation, best scores first, slashed validators (score 0) last.\<close>

lemma get_score_nonneg: "0 \<le> get_score v"
  by (simp add: get_score_def Let_def)

lemma get_top_sorted: "sorted_wrt (\<lambda>v w. get_score w \<le> get_score v) (get_top_validators r limit)"
proof -
  have "sorted (map (\<lambda>v. - get_score v) (sort_key (\<lambda>v. - get_score v) (dict_values r)))" by simp
  hence "sorted_wrt (\<lambda>v w. get_score w \<le> get_score v) (sort_key (\<lambda>v. - get_score v) (dict_values r))"
    by (simp only: sorted_map neg_le_iff_le)
  thus ?thesis unfolding get_top_validators_def by (rule sorted_wrt_take)
qed

lemma get_top_best:
  assumes "v \<in> set (get_top_validators r limit)" "w \<in> set (dict_values r)"
    and "w \<notin> set (get_top_validators r limit)"
  shows "get_score w \<le> get_score v"
proof -
  let ?s = "sort_key (\<lambda>v. - get_score v) (dict_values r)"
  have "w \<in> set (drop limit ?s)"
    using assms(2,3) unfolding get_top_validators_def by (metis append_take_drop_id Un_iff set_append set_sort)
  moreover have "sorted (map (\<lambda>v. - get_score v) (take limit ?s @ drop limit ?s))" by simp
  hence "\<forall>x \<in> set (take limit ?s). \<forall>y \<in> set (drop limit ?s). - get_score x \<le> - get_score y"
    unfolding map_append sorted_append by auto
  ultimately show ?thesis using assms(1) unfolding get_top_validators_def by force
qed

section \<open>AdapterValidatorRegistry\<close>

text \<open>
  The adapter reads the validator registry (if the node has one) and the consensus engine's table.
  \<open>ar_db_fails\<close> says whether persisting a slash in the database raises, \<open>ar_db_slashed\<close> collects
  the addresses persisted. A \<open>ValidatorState\<close> object has no \<open>is_active\<close> attribute, so the
  \<open>getattr\<close> default makes every registry validator active; only \<open>slashed\<close> removes it.
\<close>

record engine_validator =
  ev_address :: string
  ev_stake :: pyfloat
  ev_is_active :: bool

record adapter_registry =
  ar_registry :: "registry option"
  ar_engine :: "(string, engine_validator) dict"
  ar_db_fails :: bool
  ar_db_slashed :: "string list"

definition from_registry_obj :: "validator_state \<Rightarrow> validator_info option" where
  "from_registry_obj raw =
     (if vs_address raw = '''' then None
      else Some (mk_validator_info (vs_address raw) (float_of_int (vs_stake raw)) '''' True (vs_slashed raw)))"

definition add_registry_info ::
  "validator_state \<Rightarrow> string list \<times> snapshot \<Rightarrow> string list \<times> snapshot" where
  "add_registry_info raw acc =
     (case acc of (seen, out) \<Rightarrow>
        (case from_registry_obj raw of
           None \<Rightarrow> (seen, out)
         | Some info \<Rightarrow> if vi_id info \<in> set seen then (seen, out)
                        else (vi_id info # seen, out @ [info])))"

definition engine_vid :: "string \<times> engine_validator \<Rightarrow> string" where
  "engine_vid av = (if ev_address (snd av) = [] then fst av else ev_address (snd av))"

definition engine_info :: "string \<times> engine_validator \<Rightarrow> validator_info" where
  "engine_info av = mk_validator_info (engine_vid av) (ev_stake (snd av)) [] (ev_is_active (snd av)) False"

definition add_engine_info ::
  "string \<times> engine_validator \<Rightarrow> string list \<times> snapshot \<Rightarrow> string list \<times> snapshot" where
  "add_engine_info av acc =
     (case acc of (seen, out) \<Rightarrow>
        if engine_vid av \<in> set seen then (seen, out)
        else (engine_vid av # seen, out @ [engine_info av]))"

definition registry_objects :: "adapter_registry \<Rightarrow> validator_state list" where
  "registry_objects s = (case ar_registry s of None \<Rightarrow> [] | Some r \<Rightarrow> get_all_validators r)"

definition adapter_snapshot :: "adapter_registry \<Rightarrow> snapshot" where
  "adapter_snapshot s =
     snd (fold add_engine_info (ar_engine s) (fold add_registry_info (registry_objects s) ([], [])))"

definition list_active :: "adapter_registry \<Rightarrow> snapshot" where
  "list_active s = filter (\<lambda>v. vi_active v \<and> \<not> vi_slashed v) (adapter_snapshot s)"

definition adapter_total_active_stake :: "adapter_registry \<Rightarrow> pyfloat" where
  "adapter_total_active_stake s = py_sum (map vi_stake (list_active s))"

definition reg_slash :: "string \<Rightarrow> adapter_registry \<Rightarrow> adapter_registry" where
  "reg_slash vid s = s\<lparr>ar_registry := map_option (slash_validator vid) (ar_registry s)\<rparr>"

text \<open>\<open>ConsensusAdapter._on_validator_slashed\<close>: persist, then slash; the flag says that it raised.\<close>

definition on_validator_slashed :: "string \<Rightarrow> adapter_registry \<Rightarrow> adapter_registry \<times> bool" where
  "on_validator_slashed vid s =
     (let s1 = (if ar_db_fails s then s else s\<lparr>ar_db_slashed := vid # ar_db_slashed s\<rparr>)
      in (reg_slash vid s1, ar_db_fails s))"

text \<open>\<open>mark_slashed\<close>: when \<open>slash_validator\<close> raised, the registry is slashed a second time.\<close>

definition mark_slashed :: "string \<Rightarrow> adapter_registry \<Rightarrow> adapter_registry" where
  "mark_slashed validator_id s =
     (let vid = py_strip validator_id
      in if vid = '''' then s
         else (case on_validator_slashed vid s of
                 (s1, raised) \<Rightarrow> if raised then reg_slash vid s1 else s1))"

section \<open>The validator-set interface\<close>

definition slash_info :: "validator_info \<Rightarrow> validator_info" where
  "slash_info i = i\<lparr>vi_slashed := True\<rparr>"

definition slash_in :: "string \<Rightarrow> snapshot \<Rightarrow> snapshot" where
  "slash_in vid sn = map (\<lambda>i. if vi_id i = vid then slash_info i else i) sn"

lemma slash_in_get:
  "snap_get (slash_in vid sn) w =
     map_option (\<lambda>i. if py_strip w = vid then slash_info i else i) (snap_get sn w)"
proof -
  let ?f = "\<lambda>i. if vi_id i = vid then slash_info i else i"
  have "snap_get (slash_in vid sn) w = map_option ?f (snap_get sn w)"
    unfolding snap_get_def slash_in_def by (rule find_cong_map) (simp add: slash_info_def)
  thus ?thesis by (cases "snap_get sn w") (auto dest: snap_get_Some)
qed

lemma slash_in_idem: "slash_in vid (slash_in vid sn) = slash_in vid sn"
  by (simp add: slash_in_def slash_info_def)

locale validator_set =
  fixes snap :: "'s \<Rightarrow> snapshot"
    and mark :: "string \<Rightarrow> 's \<Rightarrow> 's"
    and ok :: "'s \<Rightarrow> bool"
  assumes ok_mark: "ok s \<Longrightarrow> ok (mark vid s)"
    and mark_only: "ok s \<Longrightarrow> snap (mark vid s) = snap s \<or> snap (mark vid s) = slash_in (py_strip vid) (snap s)"
begin

lemma mark_other:
  "ok s \<Longrightarrow> py_strip w \<noteq> py_strip vid \<Longrightarrow> snap_get (snap (mark vid s)) w = snap_get (snap s) w"
  using mark_only [of s vid] by (auto simp: slash_in_get map_option_idI)

lemma mark_active_mono: "ok s \<Longrightarrow> is_active (snap (mark vid s)) w \<Longrightarrow> is_active (snap s) w"
  using mark_only [of s vid]
  by (auto simp: is_active_def slash_in_get slash_info_def split: option.splits if_splits)

lemma mark_stakes: "ok s \<Longrightarrow> map vi_stake (snap (mark vid s)) = map vi_stake (snap s)"
  using mark_only [of s vid] by (auto simp: slash_in_def slash_info_def)

lemma marks_ok: "ok s \<Longrightarrow> ok (fold mark vids s)"
  by (induction vids arbitrary: s) (auto intro: ok_mark)

lemma marks_active_mono: "ok s \<Longrightarrow> is_active (snap (fold mark vids s)) w \<Longrightarrow> is_active (snap s) w"
  by (induction vids arbitrary: s) (auto intro: mark_active_mono ok_mark)

end

section \<open>The adapter provides the interface\<close>

definition known :: "adapter_registry \<Rightarrow> string \<Rightarrow> bool" where
  "known s vid \<longleftrightarrow> (case ar_registry s of None \<Rightarrow> False | Some r \<Rightarrow> vid \<in> set (dict_keys r))"

definition adapter_ok :: "adapter_registry \<Rightarrow> bool" where
  "adapter_ok s \<longleftrightarrow>
     (case ar_registry s of None \<Rightarrow> True
      | Some r \<Rightarrow> registry_ok r \<and> list_all (\<lambda>a. a \<noteq> '''' \<and> py_strip a = a) (dict_keys r))
     \<and> (\<forall>(a, v) \<in> set (ar_engine s). py_strip a = a \<and> py_strip (ev_address v) = ev_address v)"

definition reg_info :: "validator_state \<Rightarrow> validator_info" where
  "reg_info v = mk_validator_info (vs_address v) (float_of_int (vs_stake v)) '''' True (vs_slashed v)"

lemma fold_registry_info:
  assumes "distinct (map vs_address vs)" "\<forall>v \<in> set vs. vs_address v \<noteq> '''' \<and> py_strip (vs_address v) = vs_address v"
    and "set (map vs_address vs) \<inter> set seen = {}"
  shows "fold add_registry_info vs (seen, out) = (rev (map vs_address vs) @ seen, out @ map reg_info vs)"
  using assms
proof (induction vs arbitrary: seen out)
  case (Cons v vs)
  have "add_registry_info v (seen, out) = (vs_address v # seen, out @ [reg_info v])"
    using Cons.prems by (auto simp: add_registry_info_def from_registry_obj_def reg_info_def mk_validator_info_def)
  with Cons show ?case by auto
qed simp

lemma add_engine_info_simp [simp]:
  "add_engine_info e (seen, out) =
     (if engine_vid e \<in> set seen then (seen, out) else (engine_vid e # seen, out @ [engine_info e]))"
  by (simp add: add_engine_info_def)

lemma fold_engine_append:
  "snd (fold add_engine_info es (seen, out)) = out @ snd (fold add_engine_info es (seen, []))"
proof (induction es arbitrary: seen out)
  case (Cons e es)
  show ?case
    using Cons.IH [of "engine_vid e # seen" "out @ [engine_info e]"]
      Cons.IH [of "engine_vid e # seen" "[engine_info e]"] Cons.IH [of seen out] by simp
qed simp

lemma fold_engine_ids:
  assumes "\<forall>e \<in> set es. py_strip (engine_vid e) = engine_vid e"
    and "i \<in> set (snd (fold add_engine_info es (seen, [])))"
  shows "vi_id i \<notin> set seen"
  using assms
proof (induction es arbitrary: seen)
  case (Cons e es)
  show ?case
  proof (cases "engine_vid e \<in> set seen")
    case True
    with Cons show ?thesis by simp
  next
    case False
    with Cons.prems(2) have "i = engine_info e \<or> i \<in> set (snd (fold add_engine_info es (engine_vid e # seen, [])))"
      using fold_engine_append [of es "engine_vid e # seen" "[engine_info e]"] by simp
    with Cons.IH [of "engine_vid e # seen"] Cons.prems(1) False show ?thesis
      by (auto simp: engine_info_def mk_validator_info_def)
  qed
qed simp

lemma registry_ok_addresses: "registry_ok r \<Longrightarrow> map vs_address (dict_values r) = dict_keys r"
  by (auto simp: registry_ok_def)

lemma adapter_okD:
  "adapter_ok s \<Longrightarrow> ar_registry s = Some r \<Longrightarrow> registry_ok r"
  "adapter_ok s \<Longrightarrow> ar_registry s = Some r \<Longrightarrow> a \<in> fst ` set r \<Longrightarrow> a \<noteq> [] \<and> py_strip a = a"
  by (auto simp: adapter_ok_def list_all_iff)

lemma adapter_ok_objects:
  assumes "adapter_ok s"
  shows "distinct (map vs_address (registry_objects s))"
    and "\<forall>v \<in> set (registry_objects s). vs_address v \<noteq> [] \<and> py_strip (vs_address v) = vs_address v"
    and "known s a \<longleftrightarrow> a \<in> set (map vs_address (registry_objects s))"
proof -
  have "map vs_address (registry_objects s) = (case ar_registry s of None \<Rightarrow> [] | Some r \<Rightarrow> dict_keys r)"
  proof (cases "ar_registry s")
    case (Some r)
    from registry_ok_addresses [OF adapter_okD(1) [OF assms Some]] Some show ?thesis
      by (simp add: registry_objects_def get_all_validators_def)
  qed (simp add: registry_objects_def)
  moreover have "distinct (case ar_registry s of None \<Rightarrow> [] | Some r \<Rightarrow> dict_keys r)"
    "\<forall>a \<in> set (case ar_registry s of None \<Rightarrow> [] | Some r \<Rightarrow> dict_keys r). a \<noteq> [] \<and> py_strip a = a"
    using assms by (auto simp: adapter_ok_def registry_ok_def list_all_iff split: option.splits)
  ultimately show "distinct (map vs_address (registry_objects s))"
    and "\<forall>v \<in> set (registry_objects s). vs_address v \<noteq> [] \<and> py_strip (vs_address v) = vs_address v"
    and "known s a \<longleftrightarrow> a \<in> set (map vs_address (registry_objects s))"
    by (metis, metis image_eqI list.set_map, auto simp: known_def split: option.splits)
qed

text \<open>The snapshot: the registry's validators in registration order, then the engine's other ones.\<close>

definition engine_infos :: "adapter_registry \<Rightarrow> snapshot" where
  "engine_infos s = snd (fold add_engine_info (ar_engine s) (rev (map vs_address (registry_objects s)), []))"

lemma adapter_snapshot_eq:
  "adapter_ok s \<Longrightarrow> adapter_snapshot s = map reg_info (registry_objects s) @ engine_infos s"
  using adapter_ok_objects [of s] unfolding adapter_snapshot_def engine_infos_def
  by (subst fold_registry_info) (auto simp: fold_engine_append [of _ _ "map reg_info _"])

lemma dict_values_modify:
  assumes "registry_ok r" "\<And>v. vs_address (f v) = vs_address v"
  shows "dict_values (dict_modify a f r) = map (\<lambda>v. if vs_address v = a then f v else v) (dict_values r)"
proof -
  have *: "\<lbrakk>distinct (dict_keys r); \<forall>(b, v) \<in> set r. vs_address v = b; map_of r a = Some v\<rbrakk>
    \<Longrightarrow> dict_values (dict_set a (f v) r) = map (\<lambda>v. if vs_address v = a then f v else v) (dict_values r)" for v
  proof (induction r)
    case (Cons p r)
    show ?case
    proof (cases "fst p = a")
      case True
      have "\<forall>w \<in> set (dict_values r). vs_address w \<noteq> a"
        using Cons.prems(1,2) True by (force simp: image_iff)
      hence "map (\<lambda>v. if vs_address v = a then f v else v) (dict_values r) = dict_values r"
        by (intro map_idI) auto
      with True Cons.prems show ?thesis by (cases p) auto
    next
      case False
      with Cons show ?thesis by (cases p) auto
    qed
  qed simp
  show ?thesis
  proof (cases "map_of r a")
    case None
    hence "\<forall>w \<in> set (dict_values r). vs_address w \<noteq> a"
      using assms(1) by (force simp: registry_ok_def map_of_eq_None_iff)
    hence "map (\<lambda>v. if vs_address v = a then f v else v) (dict_values r) = dict_values r"
      by (intro map_idI) auto
    with None show ?thesis by (simp add: dict_modify_def)
  next
    case (Some v)
    with assms(1) * show ?thesis by (auto simp: dict_modify_def registry_ok_def)
  qed
qed

lemma slash_unknown: "map_of r a = None \<Longrightarrow> slash_validator a r = r"
  by (simp add: slash_validator_def dict_modify_def)

lemma reg_info_slash: "reg_info (slash v) = slash_info (reg_info v)"
  by (simp add: reg_info_def slash_def slash_info_def mk_validator_info_def)

lemma registry_objects_reg_slash:
  assumes "adapter_ok s"
  shows "registry_objects (reg_slash a s) = map (\<lambda>v. if vs_address v = a then slash v else v) (registry_objects s)"
proof (cases "ar_registry s")
  case (Some r)
  have "dict_values (slash_validator a r) = map (\<lambda>v. if vs_address v = a then slash v else v) (dict_values r)"
    unfolding slash_validator_def using adapter_okD(1) [OF assms Some] by (intro dict_values_modify) simp_all
  with Some show ?thesis by (simp only: registry_objects_def reg_slash_def get_all_validators_def) simp
qed (simp add: registry_objects_def reg_slash_def)

lemma registry_ok_slash: "registry_ok r \<Longrightarrow> registry_ok (slash_validator a r)"
  by (simp add: slash_validator_def registry_ok_modify inv_intros)

lemma adapter_ok_reg_slash: "adapter_ok s \<Longrightarrow> adapter_ok (reg_slash a s)"
  by (cases "ar_registry s")
    (simp_all add: adapter_ok_def reg_slash_def registry_ok_slash, simp add: slash_validator_def)

lemma adapter_snapshot_reg_slash:
  assumes ok: "adapter_ok s"
  shows "adapter_snapshot (reg_slash a s) =
    (if known s a then slash_in a (adapter_snapshot s) else adapter_snapshot s)"
proof -
  let ?f = "\<lambda>v. if vs_address v = a then slash v else v" and ?o = "registry_objects s"
  have addr: "map vs_address (map ?f ?o) = map vs_address ?o" by simp
  have eng: "engine_infos (reg_slash a s) = engine_infos s"
    unfolding engine_infos_def registry_objects_reg_slash [OF ok] addr by (simp add: reg_slash_def)
  have obj: "map reg_info (map ?f ?o) = slash_in a (map reg_info ?o)"
  proof -
    have "reg_info (?f v) = (if vi_id (reg_info v) = a then slash_info (reg_info v) else reg_info v)"
      if "v \<in> set ?o" for v
    proof -
      have "vi_id (reg_info v) = vs_address v"
        using that adapter_ok_objects(2) [OF ok] by (simp add: reg_info_def mk_validator_info_def)
      thus ?thesis by (simp add: reg_info_slash)
    qed
    thus ?thesis by (simp add: slash_in_def)
  qed
  have snap: "adapter_snapshot (reg_slash a s) = slash_in a (map reg_info ?o) @ engine_infos s"
    unfolding adapter_snapshot_eq [OF adapter_ok_reg_slash [OF ok]] registry_objects_reg_slash [OF ok] eng obj ..
  show ?thesis
  proof (cases "known s a")
    case True
    have "\<forall>e \<in> set (ar_engine s). py_strip (engine_vid e) = engine_vid e"
      using ok by (auto simp: adapter_ok_def engine_vid_def)
    from fold_engine_ids [OF this] have "i \<in> set (engine_infos s) \<Longrightarrow> vi_id i \<noteq> a" for i
      using True adapter_ok_objects(3) [OF ok, of a] by (fastforce simp: engine_infos_def)
    hence "slash_in a (engine_infos s) = engine_infos s"
      unfolding slash_in_def by (intro map_idI) auto
    with True snap show ?thesis by (simp add: adapter_snapshot_eq [OF ok] slash_in_def)
  next
    case False
    hence "map ?f ?o = ?o" using adapter_ok_objects(3) [OF ok, of a] by (intro map_idI) auto
    with False snap obj show ?thesis by (simp add: adapter_snapshot_eq [OF ok])
  qed
qed

lemma known_reg_slash [simp]: "known (reg_slash a s) b = known s b"
  by (cases "ar_registry s") (simp_all add: known_def reg_slash_def slash_validator_def)

lemma adapter_snapshot_mark:
  assumes ok: "adapter_ok s"
  shows "adapter_snapshot (mark_slashed vid s) =
    (if known s (py_strip vid) then slash_in (py_strip vid) (adapter_snapshot s) else adapter_snapshot s)"
proof -
  let ?v = "py_strip vid" and ?s1 = "s\<lparr>ar_db_slashed := py_strip vid # ar_db_slashed s\<rparr>"
  have s1: "adapter_ok ?s1" "adapter_snapshot ?s1 = adapter_snapshot s" "known ?s1 = known s"
    using ok by (auto simp: adapter_ok_def adapter_snapshot_def registry_objects_def known_def)
  have "known s [] = False" using ok by (auto simp: known_def adapter_ok_def list_all_iff split: option.splits)
  thus ?thesis
    using adapter_snapshot_reg_slash [OF ok, of ?v] adapter_snapshot_reg_slash [OF s1(1), of ?v]
      adapter_snapshot_reg_slash [OF adapter_ok_reg_slash [OF ok], of ?v ?v] s1
    by (auto simp: mark_slashed_def on_validator_slashed_def Let_def slash_in_idem)
qed

lemma adapter_ok_mark: "adapter_ok s \<Longrightarrow> adapter_ok (mark_slashed vid s)"
proof -
  assume ok: "adapter_ok s"
  have "adapter_ok (s\<lparr>ar_db_slashed := py_strip vid # ar_db_slashed s\<rparr>)"
    using ok by (simp add: adapter_ok_def)
  with ok show ?thesis
    by (auto simp: mark_slashed_def on_validator_slashed_def Let_def intro!: adapter_ok_reg_slash)
qed

interpretation vset: validator_set adapter_snapshot mark_slashed adapter_ok
  by unfold_locales (auto simp: adapter_snapshot_mark intro: adapter_ok_mark)

text \<open>Slashing a registered validator removes it from the active set.\<close>

lemma mark_slashed_inactive:
  "adapter_ok s \<Longrightarrow> known s (py_strip vid) \<Longrightarrow> \<not> is_active (adapter_snapshot (mark_slashed vid s)) vid"
  by (auto simp: is_active_def adapter_snapshot_mark slash_in_get slash_info_def split: option.splits)

end
