(* ===== verification/Bft_Round.thy ===== *)
theory Bft_Round
  imports Bft_Quorum Validator_Registry
begin

text \<open>
  \<open>RoundStateMachine\<close> of \<open>consensus/bft/service.py\<close> with the ports it is wired to in
  \<open>consensus/registry_adapter.py\<close>: the validator registry, the evidence sink with its attempt
  counters, the lockdown sink and the attestation / finality notifications. The machine and its
  sinks are one record; what the sinks put on the event bus is the list \<open>sm_events\<close> (newest
  first). \<open>ConsensusMaliciousError\<close> is the left summand of a result; the state is returned in both
  cases because evidence, slashing and lockdown are done before the exception leaves.
\<close>

datatype consensus_event =
    EvAttestation string int string vote_type
  | EvFinalized string int
  | EvRefuse evidence_payload
  | EvLockdown string

record round_sm =
  sm_registry :: adapter_registry
  sm_attempts :: "(string, int) dict"
  sm_last_evidence :: "security_evidence option"
  sm_lockdown_reason :: "string option"
  sm_events :: "consensus_event list"
  sm_expected_proposer :: string
  sm_epoch_size :: int
  sm_round :: round_id
  sm_phase :: round_phase
  sm_proposal :: "proposal option"
  sm_votes :: "vote list"
  sm_seen :: "(string \<times> vote_type \<times> round_key) \<rightharpoonup> string"
  sm_qc :: "(round_key \<times> vote_type) \<rightharpoonup> quorum_certificate"
  sm_finalized_hashes :: "string set"
  sm_finalized_height :: int
  sm_blocks :: "string \<rightharpoonup> block_ref"
  sm_head :: "block_ref option"
  sm_attest :: "string \<rightharpoonup> vote list"
  sm_live_armed :: bool

definition init_sm :: "adapter_registry \<Rightarrow> string \<Rightarrow> int \<Rightarrow> round_sm" where
  "init_sm reg expected epoch_size =
     \<lparr>sm_registry = reg, sm_attempts = [], sm_last_evidence = None, sm_lockdown_reason = None,
      sm_events = [], sm_expected_proposer = expected,
      sm_epoch_size = max 1 (if epoch_size = 0 then 32 else epoch_size),
      sm_round = \<lparr>rid_epoch = 0, rid_height = 0, rid_round = 0\<rparr>, sm_phase = PhPropose,
      sm_proposal = None, sm_votes = [], sm_seen = Map.empty, sm_qc = Map.empty,
      sm_finalized_hashes = {}, sm_finalized_height = 0, sm_blocks = Map.empty, sm_head = None,
      sm_attest = Map.empty, sm_live_armed = False\<rparr>"

datatype malicious_error = MaliciousError round_outcome security_evidence

type_synonym sm_result = "round_sm \<times> (malicious_error, round_outcome) result"

section \<open>The sinks\<close>

definition note_malicious_attempt :: "string \<Rightarrow> string \<Rightarrow> round_sm \<Rightarrow> round_sm \<times> int" where
  "note_malicious_attempt vid reason s =
     (let key = vid @ '':'' @ reason; n = dict_get (sm_attempts s) key 0 + 1
      in (s\<lparr>sm_attempts := dict_set key n (sm_attempts s)\<rparr>, n))"

definition emit_evidence :: "security_evidence \<Rightarrow> round_sm \<Rightarrow> round_sm" where
  "emit_evidence e s =
     s\<lparr>sm_last_evidence := Some e, sm_events := EvRefuse (to_bus_payload e) # sm_events s\<rparr>"

definition request_lockdown :: "string \<Rightarrow> round_sm \<Rightarrow> round_sm" where
  "request_lockdown reason s =
     (let r = (if reason = '''' then ''consensus_double_sign'' else reason)
      in s\<lparr>sm_lockdown_reason := Some r, sm_events := EvLockdown r # sm_events s\<rparr>)"

section \<open>Fail-closed path\<close>

definition lock_reason :: "string \<Rightarrow> string" where
  "lock_reason reason =
     (if reason \<in> {''double_vote'', ''double_proposal'', ''consensus_double_sign''}
      then ''consensus_double_sign'' else reason)"

definition fail_closed :: "string \<Rightarrow> string \<Rightarrow> round_id \<Rightarrow> vote list \<Rightarrow> string \<Rightarrow> round_sm \<Rightarrow> sm_result" where
  "fail_closed reason vid rid conflicting detail s =
     (let rc = (if reason = '''' then ''refused'' else reason);
          (s1, n1) = note_malicious_attempt vid rc s;
          spam = (spam_threshold \<le> n1 \<and> rc \<noteq> ''consensus_round_spam'');
          rc2 = (if spam then ''consensus_round_spam'' else rc);
          (s2, n2) = (if spam then note_malicious_attempt vid rc2 s1 else (s1, n1));
          ev = build_evidence rc2 vid (Some rid) conflicting n2 detail;
          s3 = emit_evidence ev s2;
          s4 = s3\<lparr>sm_registry := mark_slashed vid (sm_registry s3)\<rparr>;
          s5 = (if is_malicious_reason rc2 \<or> rc2 = ''consensus_round_spam''
                then request_lockdown (lock_reason rc2) s4 else s4);
          s6 = s5\<lparr>sm_phase := PhLocked\<rparr>
      in (s6, Inl (MaliciousError (ro_locked rc2 rid detail) ev)))"

section \<open>Queries\<close>

definition snapshot_of :: "round_sm \<Rightarrow> snapshot" where
  "snapshot_of s = adapter_snapshot (sm_registry s)"

definition round_phase_of :: "round_sm \<Rightarrow> round_id \<Rightarrow> round_phase" where
  "round_phase_of s rid =
     (if rid_key rid \<noteq> rid_key (sm_round s)
      then (if sm_phase s = PhLocked then PhLocked else sm_phase s)
      else sm_phase s)"

definition is_finalized_height :: "round_sm \<Rightarrow> int \<Rightarrow> bool" where
  "is_finalized_height s h \<longleftrightarrow> h \<le> sm_finalized_height s"

definition is_finalized_hash :: "round_sm \<Rightarrow> string \<Rightarrow> bool" where
  "is_finalized_hash s h \<longleftrightarrow> norm_hash h \<in> sm_finalized_hashes s"

text \<open>\<open>any(qc.reached for qc in self._qc.values())\<close>, as a property of the certificate table.\<close>

definition qc_live :: "round_sm \<Rightarrow> bool" where
  "qc_live s \<longleftrightarrow> (\<exists>c \<in> ran (sm_qc s). qc_reached c)"

definition finality_status :: "round_sm \<Rightarrow> finality_view" where
  "finality_status s =
     (let allow = sm_live_armed s; live = (allow \<and> qc_live s)
      in \<lparr>fv_finalized_height = sm_finalized_height s, fv_justified_height = sm_finalized_height s,
          fv_quorum_live = live, fv_attestations = (sm_votes s \<noteq> []),
          fv_detail = (if live then ''quorum_certificate_reached''
                       else if allow then ''quorum_armed_waiting_certificate''
                       else ''local_path_only'')\<rparr>)"

definition arm_quorum_live :: "bool \<Rightarrow> round_sm \<Rightarrow> round_sm" where
  "arm_quorum_live armed s = s\<lparr>sm_live_armed := armed\<rparr>"

definition quorum_certificate_of :: "round_sm \<Rightarrow> round_id \<Rightarrow> vote_type \<Rightarrow> quorum_certificate option" where
  "quorum_certificate_of s rid vt = sm_qc s (rid_key rid, vt)"

definition get_attestations_for_block :: "round_sm \<Rightarrow> string \<Rightarrow> vote list" where
  "get_attestations_for_block s h = (case sm_attest s (py_lower h) of None \<Rightarrow> [] | Some vs \<Rightarrow> vs)"

section \<open>Rounds and blocks\<close>

definition begin_round :: "round_id \<Rightarrow> round_sm \<Rightarrow> round_sm" where
  "begin_round rid s =
     s\<lparr>sm_round := rid, sm_phase := PhPropose, sm_proposal := None, sm_votes := [],
       sm_seen := (\<lambda>k. if snd (snd k) = rid_key rid then sm_seen s k else None)\<rparr>"

definition open_round :: "int \<Rightarrow> int option \<Rightarrow> int \<Rightarrow> string option \<Rightarrow> round_sm \<Rightarrow> round_sm \<times> round_id" where
  "open_round height epoch round_n expected s =
     (let ep = (case epoch of Some e \<Rightarrow> e | None \<Rightarrow> height div sm_epoch_size s);
          rid = \<lparr>rid_epoch = ep, rid_height = height, rid_round = round_n\<rparr>;
          s1 = (case expected of None \<Rightarrow> s | Some p \<Rightarrow> s\<lparr>sm_expected_proposer := p\<rparr>)
      in (begin_round rid s1, rid))"

definition note_block :: "block_ref \<Rightarrow> round_sm \<Rightarrow> round_sm" where
  "note_block ref s =
     s\<lparr>sm_blocks := (sm_blocks s)(br_hash ref \<mapsto> ref),
       sm_head := (case sm_head s of
                     None \<Rightarrow> Some ref
                   | Some tip \<Rightarrow> if br_height tip \<le> br_height ref then Some ref else Some tip)\<rparr>"

definition add_block :: "block_ref \<Rightarrow> string \<Rightarrow> round_sm \<Rightarrow> round_sm" where
  "add_block b parent_hash s =
     (let parent = py_lower (if parent_hash = '''' then br_parent b else parent_hash);
          ref = mk_block_ref (br_height b) (br_hash b) parent;
          s1 = note_block ref s
      in if rid_height (sm_round s1) < br_height ref
            \<or> (br_height ref = rid_height (sm_round s1) \<and> sm_phase s1 = PhFinalize)
         then begin_round \<lparr>rid_epoch = br_height ref div sm_epoch_size s1, rid_height = br_height ref,
                           rid_round = 0\<rparr> s1
         else s1)"

section \<open>Proposals\<close>

definition submit_proposal :: "proposal \<Rightarrow> round_sm \<Rightarrow> sm_result" where
  "submit_proposal p s =
     (if sm_phase s = PhLocked then
        (s, Inr (ro_locked ''round_locked'' (sm_round s) ''round already locked''))
      else if rid_key (p_round p) \<noteq> rid_key (sm_round s) then
        (s, Inr (ro_refused (sm_phase s) ''stale_round_vote'' (p_round p) (p_hash p)))
      else if sm_phase s \<noteq> PhPropose then
        (s, Inr (ro_refused (sm_phase s) ''unexpected_proposal_phase'' (sm_round s) (p_hash p)))
      else if \<not> is_active (snapshot_of s) (p_proposer p) then
        fail_closed ''unknown_validator_vote'' (p_proposer p) (p_round p) [] ''proposer not in active set'' s
      else if sm_expected_proposer s \<noteq> '''' \<and> p_proposer p \<noteq> sm_expected_proposer s then
        fail_closed ''double_proposal'' (p_proposer p) (p_round p) []
          (''expected proposer '' @ take 12 (sm_expected_proposer s)) s
      else (case sm_proposal s of
              Some q \<Rightarrow>
                if p_hash q \<noteq> p_hash p then
                  fail_closed ''double_proposal'' (p_proposer p) (p_round p) [] ''conflicting proposal'' s
                else (s, Inr (ro_accepted PhPrevote (sm_round s) (p_hash p) ''duplicate_proposal''))
            | None \<Rightarrow>
                (let s1 = s\<lparr>sm_proposal := Some p, sm_phase := PhPrevote\<rparr>;
                     s2 = add_block (mk_block_ref (rid_height (p_round p)) (p_hash p) (p_parent p)) '''' s1
                 in (s2, Inr (ro_accepted PhPrevote (sm_round s2) (p_hash p) ''accepted'')))))"

section \<open>Votes\<close>

definition finalize :: "string \<Rightarrow> round_sm \<Rightarrow> sm_result" where
  "finalize h s =
     (let s1 = s\<lparr>sm_phase := PhFinalize\<rparr>;
          hh = py_lower h;
          s2 = s1\<lparr>sm_finalized_hashes := insert hh (sm_finalized_hashes s1)\<rparr>;
          height = (case sm_blocks s2 hh of Some ref \<Rightarrow> br_height ref | None \<Rightarrow> rid_height (sm_round s2));
          s3 = s2\<lparr>sm_finalized_height := max (sm_finalized_height s2) height,
                  sm_events := EvFinalized hh height # sm_events s2\<rparr>
      in (s3, Inr (ro_complete (sm_round s3) hh)))"

definition maybe_advance_prevote :: "snapshot \<Rightarrow> string \<Rightarrow> round_sm \<Rightarrow> sm_result" where
  "maybe_advance_prevote snap h s =
     (let cert = build_certificate snap (sm_votes s) (sm_round s) VtPrevote h;
          s1 = s\<lparr>sm_qc := (sm_qc s)((rid_key (sm_round s), VtPrevote) \<mapsto> cert)\<rparr>
      in if \<not> qc_reached cert then (s1, Inr (ro_accepted PhPrevote (sm_round s1) h ''prevote_pending''))
         else (s1\<lparr>sm_phase := PhPrecommit\<rparr>, Inr (ro_accepted PhPrecommit (sm_round s1) h ''prevote_quorum'')))"

definition precommit_cert :: "snapshot \<Rightarrow> string \<Rightarrow> round_sm \<Rightarrow> sm_result" where
  "precommit_cert snap h s =
     (let cert = build_certificate snap (sm_votes s) (sm_round s) VtPrecommit h;
          s1 = s\<lparr>sm_qc := (sm_qc s)((rid_key (sm_round s), VtPrecommit) \<mapsto> cert)\<rparr>
      in if \<not> qc_reached cert then
           (let s2 = (if sm_phase s1 = PhPrevote then s1\<lparr>sm_phase := PhPrecommit\<rparr> else s1)
            in (s2, Inr (ro_accepted PhPrecommit (sm_round s2) h ''precommit_pending'')))
         else finalize h s1)"

definition maybe_advance_precommit :: "snapshot \<Rightarrow> string \<Rightarrow> round_sm \<Rightarrow> sm_result" where
  "maybe_advance_precommit snap h s =
     (case sm_qc s (rid_key (sm_round s), VtPrevote) of
        Some prev \<Rightarrow>
          if qc_reached prev \<and> qc_hash prev \<noteq> h then
            fail_closed ''prevote_precommit_hash_mismatch'' '''' (sm_round s) []
              (''prevote='' @ take 12 (qc_hash prev) @ '' precommit='' @ take 12 h) s
          else precommit_cert snap h s
      | None \<Rightarrow> precommit_cert snap h s)"

definition phase_gate :: "vote \<Rightarrow> round_sm \<Rightarrow> round_outcome + round_sm" where
  "phase_gate v s =
     (if v_type v = VtPrevote \<and> sm_phase s \<notin> {PhPrevote, PhPrecommit, PhFinalize} then
        (if sm_phase s = PhPropose \<and> sm_proposal s = None then Inr (s\<lparr>sm_phase := PhPrevote\<rparr>)
         else if sm_phase s = PhPropose then Inr s
         else Inl (ro_refused (sm_phase s) ''unexpected_prevote_phase'' (sm_round s) (v_hash v)))
      else if v_type v = VtPrecommit \<and> sm_phase s \<notin> {PhPrecommit, PhFinalize, PhPrevote} then
        Inl (ro_refused (sm_phase s) ''unexpected_precommit_phase'' (sm_round s) (v_hash v))
      else Inr s)"

definition vote_key :: "vote \<Rightarrow> string \<times> vote_type \<times> round_key" where
  "vote_key v = (v_validator v, v_type v, rid_key (v_round v))"

definition record_vote_in :: "vote \<Rightarrow> round_sm \<Rightarrow> round_sm" where
  "record_vote_in v s =
     s\<lparr>sm_seen := (sm_seen s)(vote_key v \<mapsto> v_hash v),
       sm_votes := sm_votes s @ [v],
       sm_attest := (sm_attest s)(v_hash v \<mapsto>
         (case sm_attest s (v_hash v) of None \<Rightarrow> [v] | Some vs \<Rightarrow> vs @ [v])),
       sm_events := EvAttestation (v_validator v) (v_slot v) (v_hash v) (v_type v) # sm_events s\<rparr>"

definition submit_vote :: "vote \<Rightarrow> round_sm \<Rightarrow> sm_result" where
  "submit_vote v s =
     (if sm_phase s = PhLocked then (s, Inr (ro_locked ''round_locked'' (sm_round s) ''''))
      else if \<not> v_verified v then
        fail_closed ''fake_vote_unverified'' (v_validator v) (v_round v) [v] '''' s
      else if rid_key (v_round v) \<noteq> rid_key (sm_round s) then
        (s, Inr (ro_refused (sm_phase s) ''stale_round_vote'' (v_round v) (v_hash v)))
      else (let snap = snapshot_of s in
        if \<not> is_active snap (v_validator v) then
          fail_closed ''unknown_validator_vote'' (v_validator v) (v_round v) [v] '''' s
        else (let prior = sm_seen s (vote_key v) in
          if prior \<noteq> None \<and> prior \<noteq> Some (v_hash v) then
            fail_closed ''double_vote'' (v_validator v) (v_round v)
              [mk_vote (v_validator v) (v_type v) (v_round v) (the prior) (v_slot v) '''' True, v] '''' s
          else if prior = Some (v_hash v) then
            (s, Inr (ro_accepted (sm_phase s) (sm_round s) (v_hash v) ''duplicate_vote''))
          else (case phase_gate v s of
                  Inl refusal \<Rightarrow> (s, Inr refusal)
                | Inr s0 \<Rightarrow>
                    (let s1 = record_vote_in v s0 in
                     case v_type v of
                       VtPrevote \<Rightarrow> maybe_advance_prevote snap (v_hash v) s1
                     | VtPrecommit \<Rightarrow> maybe_advance_precommit snap (v_hash v) s1
                     | VtPropose \<Rightarrow> (s1, Inr (ro_accepted (sm_phase s1) (sm_round s1) (v_hash v) ''accepted'')))))))"

section \<open>Operations and runs\<close>

datatype sm_op =
    SubmitProposal proposal
  | SubmitVote vote
  | AddBlock block_ref string
  | OpenRound int "int option" int "string option"
  | ArmLive bool

fun sm_step :: "round_sm \<Rightarrow> sm_op \<Rightarrow> round_sm" where
  "sm_step s (SubmitProposal p) = fst (submit_proposal p s)"
| "sm_step s (SubmitVote v) = fst (submit_vote v s)"
| "sm_step s (AddBlock b ph) = add_block b ph s"
| "sm_step s (OpenRound h e n p) = fst (open_round h e n p s)"
| "sm_step s (ArmLive a) = arm_quorum_live a s"

definition sm_run :: "round_sm \<Rightarrow> sm_op list \<Rightarrow> round_sm" where
  "sm_run s ops = foldl sm_step s ops"

end
