(* ===== verification/Bft_Safety.thy ===== *)
theory Bft_Safety
  imports Bft_Round
begin

text \<open>
  Correctness of the BFT round machine: the invariant \<open>sm_inv\<close> and its preservation by every
  operation, agreement on the finalized block within a round, fail-closed handling of equivocation,
  permanence of slashing and finality, and the liveness limits the code has.
\<close>

section \<open>Frame facts of the operations\<close>

lemma fail_closed_frame [simp]:
  fixes reason vid rid cv detail s
  defines "s' \<equiv> fst (fail_closed reason vid rid cv detail s)"
  shows "sm_phase s' = PhLocked" "sm_registry s' = mark_slashed vid (sm_registry s)"
    "sm_round s' = sm_round s" "sm_votes s' = sm_votes s" "sm_seen s' = sm_seen s" "sm_qc s' = sm_qc s"
    "sm_finalized_hashes s' = sm_finalized_hashes s" "sm_finalized_height s' = sm_finalized_height s"
    "sm_epoch_size s' = sm_epoch_size s" "sm_proposal s' = sm_proposal s" "sm_blocks s' = sm_blocks s"
    "sm_head s' = sm_head s" "sm_live_armed s' = sm_live_armed s"
  by (simp_all add: s'_def fail_closed_def note_malicious_attempt_def emit_evidence_def request_lockdown_def Let_def)

lemma fail_closed_raises: "\<exists>out ev. snd (fail_closed reason vid rid cv detail s) = Inl (MaliciousError out ev)
    \<and> ro_status out = StLocked \<and> se_validator ev = vid \<and> se_votes ev = cv"
  by (simp add: fail_closed_def ro_locked_def build_evidence_def Let_def split: prod.split)

lemma fail_closed_not_value [simp]: "snd (fail_closed reason vid rid cv detail s) \<noteq> Inr out"
  "fail_closed reason vid rid cv detail s \<noteq> (s', Inr out)"
  using fail_closed_raises [of reason vid rid cv detail s] by (auto simp: prod_eq_iff)

lemma finalize_frame [simp]:
  "sm_phase (fst (finalize h s)) = PhFinalize" "sm_registry (fst (finalize h s)) = sm_registry s"
  "sm_round (fst (finalize h s)) = sm_round s" "sm_votes (fst (finalize h s)) = sm_votes s"
  "sm_seen (fst (finalize h s)) = sm_seen s" "sm_qc (fst (finalize h s)) = sm_qc s"
  "sm_finalized_hashes (fst (finalize h s)) = insert (py_lower h) (sm_finalized_hashes s)"
  "sm_finalized_height s \<le> sm_finalized_height (fst (finalize h s))"
  "sm_epoch_size (fst (finalize h s)) = sm_epoch_size s"
  "snd (finalize h s) = Inr (ro_complete (sm_round s) (py_lower h))"
  by (simp_all add: finalize_def Let_def)

lemma prevote_frame [simp]:
  "sm_registry (fst (maybe_advance_prevote sn h s)) = sm_registry s"
  "sm_round (fst (maybe_advance_prevote sn h s)) = sm_round s"
  "sm_votes (fst (maybe_advance_prevote sn h s)) = sm_votes s"
  "sm_seen (fst (maybe_advance_prevote sn h s)) = sm_seen s"
  "sm_finalized_hashes (fst (maybe_advance_prevote sn h s)) = sm_finalized_hashes s"
  "sm_finalized_height (fst (maybe_advance_prevote sn h s)) = sm_finalized_height s"
  "sm_epoch_size (fst (maybe_advance_prevote sn h s)) = sm_epoch_size s"
  "sm_qc (fst (maybe_advance_prevote sn h s)) =
     (sm_qc s)((rid_key (sm_round s), VtPrevote) \<mapsto> build_certificate sn (sm_votes s) (sm_round s) VtPrevote h)"
  by (simp_all add: maybe_advance_prevote_def Let_def)

lemma precommit_cert_frame [simp]:
  "sm_registry (fst (precommit_cert sn h s)) = sm_registry s"
  "sm_round (fst (precommit_cert sn h s)) = sm_round s"
  "sm_votes (fst (precommit_cert sn h s)) = sm_votes s"
  "sm_seen (fst (precommit_cert sn h s)) = sm_seen s"
  "sm_epoch_size (fst (precommit_cert sn h s)) = sm_epoch_size s"
  "sm_finalized_hashes s \<subseteq> sm_finalized_hashes (fst (precommit_cert sn h s))"
  "sm_finalized_height s \<le> sm_finalized_height (fst (precommit_cert sn h s))"
  "sm_qc (fst (precommit_cert sn h s)) =
     (sm_qc s)((rid_key (sm_round s), VtPrecommit) \<mapsto> build_certificate sn (sm_votes s) (sm_round s) VtPrecommit h)"
  by (auto simp add: precommit_cert_def finalize_def Let_def)

lemma precommit_frame [simp]:
  "sm_round (fst (maybe_advance_precommit sn h s)) = sm_round s"
  "sm_votes (fst (maybe_advance_precommit sn h s)) = sm_votes s"
  "sm_seen (fst (maybe_advance_precommit sn h s)) = sm_seen s"
  "sm_epoch_size (fst (maybe_advance_precommit sn h s)) = sm_epoch_size s"
  "sm_finalized_hashes s \<subseteq> sm_finalized_hashes (fst (maybe_advance_precommit sn h s))"
  "sm_finalized_height s \<le> sm_finalized_height (fst (maybe_advance_precommit sn h s))"
  by (auto simp add: maybe_advance_precommit_def split: option.split)

lemma record_vote_frame [simp]:
  "sm_registry (record_vote_in v s) = sm_registry s" "sm_round (record_vote_in v s) = sm_round s"
  "sm_votes (record_vote_in v s) = sm_votes s @ [v]"
  "sm_seen (record_vote_in v s) = (sm_seen s)(vote_key v \<mapsto> v_hash v)"
  "sm_qc (record_vote_in v s) = sm_qc s" "sm_epoch_size (record_vote_in v s) = sm_epoch_size s"
  "sm_finalized_hashes (record_vote_in v s) = sm_finalized_hashes s"
  "sm_finalized_height (record_vote_in v s) = sm_finalized_height s"
  "sm_phase (record_vote_in v s) = sm_phase s"
  by (simp_all add: record_vote_in_def)

lemma phase_gate_Inr:
  "phase_gate v s = Inr s0 \<Longrightarrow> s0 = s \<or> s0 = s\<lparr>sm_phase := PhPrevote\<rparr>"
  unfolding phase_gate_def by (simp only: split: if_split_asm) auto

lemma begin_round_frame [simp]:
  "sm_registry (begin_round rid s) = sm_registry s" "sm_votes (begin_round rid s) = []"
  "sm_round (begin_round rid s) = rid" "sm_qc (begin_round rid s) = sm_qc s"
  "sm_epoch_size (begin_round rid s) = sm_epoch_size s"
  "sm_finalized_hashes (begin_round rid s) = sm_finalized_hashes s"
  "sm_finalized_height (begin_round rid s) = sm_finalized_height s"
  "sm_phase (begin_round rid s) = PhPropose"
  by (simp_all add: begin_round_def)

lemma note_block_frame [simp]:
  "sm_registry (note_block r s) = sm_registry s" "sm_qc (note_block r s) = sm_qc s"
  "sm_epoch_size (note_block r s) = sm_epoch_size s" "sm_round (note_block r s) = sm_round s"
  "sm_votes (note_block r s) = sm_votes s" "sm_seen (note_block r s) = sm_seen s"
  "sm_phase (note_block r s) = sm_phase s"
  "sm_finalized_hashes (note_block r s) = sm_finalized_hashes s"
  "sm_finalized_height (note_block r s) = sm_finalized_height s"
  by (simp_all add: note_block_def)

lemma add_block_frame [simp]:
  "sm_registry (add_block b ph s) = sm_registry s" "sm_qc (add_block b ph s) = sm_qc s"
  "sm_epoch_size (add_block b ph s) = sm_epoch_size s"
  "sm_finalized_hashes (add_block b ph s) = sm_finalized_hashes s"
  "sm_finalized_height (add_block b ph s) = sm_finalized_height s"
  by (simp_all add: add_block_def Let_def)

text \<open>Adding a block either starts a new round or leaves round, phase and votes alone.\<close>

definition starts_round :: "block_ref \<Rightarrow> round_sm \<Rightarrow> bool" where
  "starts_round b s \<longleftrightarrow>
     rid_height (sm_round s) < br_height b \<or> (br_height b = rid_height (sm_round s) \<and> sm_phase s = PhFinalize)"

lemma mk_block_ref_height [simp]: "br_height (mk_block_ref h bh ph) = h"
  by (simp add: mk_block_ref_def)

lemma add_block_stay [simp]:
  assumes "\<not> starts_round b s"
  shows "sm_round (add_block b ph s) = sm_round s" "sm_votes (add_block b ph s) = sm_votes s"
    "sm_seen (add_block b ph s) = sm_seen s" "sm_phase (add_block b ph s) = sm_phase s"
  using assms by (auto simp add: add_block_def Let_def starts_round_def)

lemma add_block_fresh [simp]:
  assumes "starts_round b s"
  shows "sm_votes (add_block b ph s) = []" "sm_phase (add_block b ph s) = PhPropose"
    "sm_round (add_block b ph s) =
       \<lparr>rid_epoch = br_height b div sm_epoch_size s, rid_height = br_height b, rid_round = 0\<rparr>"
    "sm_seen (add_block b ph s) =
       (\<lambda>k. if snd (snd k) = (br_height b div sm_epoch_size s, br_height b, 0) then sm_seen s k else None)"
  using assms by (auto simp add: add_block_def Let_def starts_round_def begin_round_def rid_key_def fun_eq_iff)

section \<open>The machine's invariant\<close>

text \<open>
  Every counted vote is verified, belongs to the current round and is recorded in \<open>sm_seen\<close>, which
  holds votes of the current round only; a stored certificate carries its own round and type, and
  \<open>qc_reached\<close> is the quorum test of the stake it records.
\<close>

definition votes_ok :: "round_sm \<Rightarrow> bool" where
  "votes_ok s \<longleftrightarrow> (\<forall>v \<in> set (sm_votes s).
     wf_vote v \<and> v_verified v \<and> v_round v = sm_round s \<and> sm_seen s (vote_key v) = Some (v_hash v))"

definition seen_ok :: "round_sm \<Rightarrow> bool" where
  "seen_ok s \<longleftrightarrow> (\<forall>k. sm_seen s k \<noteq> None \<longrightarrow> snd (snd k) = rid_key (sm_round s))"

definition cert_ok :: "quorum_certificate \<Rightarrow> bool" where
  "cert_ok c \<longleftrightarrow> (qc_reached c \<longrightarrow> quorum_reached (qc_voted c) (qc_total c))"

definition qc_ok :: "round_sm \<Rightarrow> bool" where
  "qc_ok s \<longleftrightarrow> (\<forall>k vt c. sm_qc s (k, vt) = Some c \<longrightarrow> rid_key (qc_round c) = k \<and> qc_type c = vt \<and> cert_ok c)"

definition sm_inv :: "round_sm \<Rightarrow> bool" where
  "sm_inv s \<longleftrightarrow> adapter_ok (sm_registry s) \<and> votes_ok s \<and> seen_ok s \<and> qc_ok s \<and> 0 < sm_epoch_size s"

fun wf_op :: "sm_op \<Rightarrow> bool" where
  "wf_op (SubmitVote v) \<longleftrightarrow> wf_vote v"
| "wf_op _ \<longleftrightarrow> True"

lemma cert_ok_build: "cert_ok (build_certificate sn vs rid vt h)"
  by (simp add: build_certificate_def cert_ok_def mk_certificate_def Let_def)

lemma build_certificate_frame [simp]:
  "qc_round (build_certificate sn vs rid vt h) = rid" "qc_type (build_certificate sn vs rid vt h) = vt"
  by (simp_all add: build_certificate_def mk_certificate_def Let_def)

lemma qc_ok_update:
  "qc_ok s \<Longrightarrow> sm_qc s' = (sm_qc s)((rid_key rid, vt) \<mapsto> build_certificate sn vs rid vt h) \<Longrightarrow> qc_ok s'"
  by (auto simp: qc_ok_def cert_ok_build)

lemma sm_inv_frame:
  assumes "sm_inv s" "sm_round s' = sm_round s" "sm_votes s' = sm_votes s" "sm_seen s' = sm_seen s"
    "qc_ok s'" "sm_epoch_size s' = sm_epoch_size s" "adapter_ok (sm_registry s')"
  shows "sm_inv s'"
  using assms by (simp add: sm_inv_def votes_ok_def seen_ok_def)

lemma sm_inv_fail_closed [inv_intros]: "sm_inv s \<Longrightarrow> sm_inv (fst (fail_closed reason vid rid cv detail s))"
  by (rule sm_inv_frame) (auto simp: sm_inv_def qc_ok_def intro: adapter_ok_mark)

lemma qc_ok_same: "qc_ok s \<Longrightarrow> sm_qc s' = sm_qc s \<Longrightarrow> qc_ok s'"
  by (simp add: qc_ok_def)

lemma sm_inv_qc: "sm_inv s \<Longrightarrow> qc_ok s" "sm_inv s \<Longrightarrow> adapter_ok (sm_registry s)"
  by (simp_all add: sm_inv_def)

lemma sm_inv_prevote [inv_intros]: "sm_inv s \<Longrightarrow> sm_inv (fst (maybe_advance_prevote sn h s))"
  by (rule sm_inv_frame) (simp_all add: sm_inv_qc qc_ok_update [OF sm_inv_qc(1) prevote_frame(8)] del: prevote_frame(8))

lemma sm_inv_precommit_cert [inv_intros]: "sm_inv s \<Longrightarrow> sm_inv (fst (precommit_cert sn h s))"
  by (rule sm_inv_frame) (simp_all add: sm_inv_qc qc_ok_update [OF sm_inv_qc(1) precommit_cert_frame(8)] del: precommit_cert_frame(8))

lemma sm_inv_precommit [inv_intros]: "sm_inv s \<Longrightarrow> sm_inv (fst (maybe_advance_precommit sn h s))"
  by (auto simp: maybe_advance_precommit_def intro: inv_intros split: option.split)

lemma vote_key_inj: "vote_key v = vote_key w \<longleftrightarrow>
    v_validator v = v_validator w \<and> v_type v = v_type w \<and> v_round v = v_round w"
  by (simp add: vote_key_def)

lemma sm_inv_record [inv_intros]:
  assumes "sm_inv s" "wf_vote v" "v_verified v" "v_round v = sm_round s"
    and "sm_seen s (vote_key v) = None \<or> sm_seen s (vote_key v) = Some (v_hash v)"
  shows "sm_inv (record_vote_in v s)"
proof -
  have "votes_ok (record_vote_in v s)"
    using assms by (auto simp: sm_inv_def votes_ok_def)
  moreover have "seen_ok (record_vote_in v s)"
    using assms(1,4) by (auto simp: sm_inv_def seen_ok_def vote_key_def)
  ultimately show ?thesis using assms(1) by (auto simp: sm_inv_def intro: qc_ok_same)
qed

lemma sm_inv_phase: "sm_inv s \<Longrightarrow> sm_inv (s\<lparr>sm_phase := ph\<rparr>)"
  by (rule sm_inv_frame) (auto simp: sm_inv_def qc_ok_def)

lemma sm_inv_gate: "sm_inv s \<Longrightarrow> phase_gate v s = Inr s0 \<Longrightarrow> sm_inv s0"
  by (auto dest: phase_gate_Inr intro: sm_inv_phase)

lemma phase_gate_frame:
  assumes "phase_gate v s = Inr s0"
  shows "sm_round s0 = sm_round s" "sm_seen s0 = sm_seen s" "sm_votes s0 = sm_votes s"
    "sm_registry s0 = sm_registry s" "sm_finalized_hashes s0 = sm_finalized_hashes s"
    "sm_finalized_height s0 = sm_finalized_height s" "sm_qc s0 = sm_qc s"
  using phase_gate_Inr [OF assms] by auto

text \<open>
  The shape of \<open>submit_vote\<close>: nothing but an answer, a fail-closed error, or a vote that passed
  every guard, was recorded and went to its phase handler.
\<close>

lemma submit_vote_cases:
  obtains (answer) out where "submit_vote v s = (s, Inr out)" "ro_status out \<noteq> StComplete"
    | (closed) reason cv detail where "submit_vote v s = fail_closed reason (v_validator v) (v_round v) cv detail s"
    | (counted) s0 where "phase_gate v s = Inr s0" "v_verified v" "v_round v = sm_round s"
        "sm_phase s \<noteq> PhLocked" "is_active (snapshot_of s) (v_validator v)" "sm_seen s (vote_key v) = None"
        "submit_vote v s = (case v_type v of
           VtPrevote \<Rightarrow> maybe_advance_prevote (snapshot_of s) (v_hash v) (record_vote_in v s0)
         | VtPrecommit \<Rightarrow> maybe_advance_precommit (snapshot_of s) (v_hash v) (record_vote_in v s0)
         | VtPropose \<Rightarrow> (record_vote_in v s0, Inr (ro_accepted (sm_phase (record_vote_in v s0))
             (sm_round (record_vote_in v s0)) (v_hash v) ''accepted'')))"
proof -
  consider "sm_phase s = PhLocked" | "sm_phase s \<noteq> PhLocked" "\<not> v_verified v"
    | "sm_phase s \<noteq> PhLocked" "v_verified v" "v_round v \<noteq> sm_round s"
    | "sm_phase s \<noteq> PhLocked" "v_verified v" "v_round v = sm_round s" "\<not> is_active (snapshot_of s) (v_validator v)"
    | "sm_phase s \<noteq> PhLocked" "v_verified v" "v_round v = sm_round s" "is_active (snapshot_of s) (v_validator v)"
    by blast
  thus ?thesis
  proof cases
    case 5
    show ?thesis
    proof (cases "sm_seen s (vote_key v)")
      case None
      show ?thesis
      proof (cases "phase_gate v s")
        case (Inl refusal)
        hence "ro_status refusal \<noteq> StComplete"
          unfolding phase_gate_def by (auto simp: ro_refused_def split: if_split_asm)
        with 5 None Inl answer show ?thesis by (simp add: submit_vote_def Let_def)
      next
        case (Inr s0)
        with 5 None counted show ?thesis by (simp add: submit_vote_def Let_def)
      qed
    next
      case (Some h)
      with 5 answer closed show ?thesis
        by (cases "h = v_hash v") (auto simp: submit_vote_def Let_def ro_accepted_def)
    qed
  qed (use answer closed in \<open>auto simp: submit_vote_def Let_def ro_locked_def ro_refused_def\<close>)
qed

lemma sm_inv_vote [inv_intros]:
  assumes "sm_inv s" "wf_vote v" shows "sm_inv (fst (submit_vote v s))"
proof (cases rule: submit_vote_cases [of v s])
  case (counted s0)
  note g = phase_gate_frame [OF counted(1)]
  have "sm_inv (record_vote_in v s0)"
    using sm_inv_gate [OF assms(1) counted(1)] assms(2) counted g by (intro sm_inv_record) auto
  thus ?thesis unfolding counted(7) by (auto split: vote_type.split intro: inv_intros)
qed (simp_all add: assms(1) inv_intros)

lemma sm_inv_begin [inv_intros]: "sm_inv s \<Longrightarrow> sm_inv (begin_round rid s)"
  by (auto simp: sm_inv_def votes_ok_def seen_ok_def qc_ok_def begin_round_def)

lemma sm_inv_note_block [inv_intros]: "sm_inv s \<Longrightarrow> sm_inv (note_block r s)"
  by (rule sm_inv_frame) (auto simp: sm_inv_qc intro: qc_ok_same [OF sm_inv_qc(1)])

lemma sm_inv_add_block [inv_intros]: "sm_inv s \<Longrightarrow> sm_inv (add_block b ph s)"
  by (simp add: add_block_def Let_def inv_intros)

lemma sm_inv_proposal_field: "sm_inv s \<Longrightarrow> sm_inv (s\<lparr>sm_proposal := q, sm_phase := ph\<rparr>)"
  by (rule sm_inv_frame) (auto simp: sm_inv_qc intro: qc_ok_same [OF sm_inv_qc(1)])

lemma sm_inv_proposal [inv_intros]: "sm_inv s \<Longrightarrow> sm_inv (fst (submit_proposal p s))"
  by (auto simp: submit_proposal_def Let_def sm_inv_proposal_field inv_intros split: option.split)

lemma sm_inv_expected: "sm_inv s \<Longrightarrow> sm_inv (s\<lparr>sm_expected_proposer := p\<rparr>)"
  by (rule sm_inv_frame) (auto simp: sm_inv_qc intro: qc_ok_same [OF sm_inv_qc(1)])

lemma sm_inv_step [inv_intros]: "sm_inv s \<Longrightarrow> wf_op op \<Longrightarrow> sm_inv (sm_step s op)"
proof (cases op)
  case (ArmLive a)
  assume "sm_inv s"
  thus ?thesis unfolding ArmLive
    by (auto simp: arm_quorum_live_def intro!: sm_inv_frame [of s] intro: qc_ok_same [OF sm_inv_qc(1)] sm_inv_qc)
qed (auto simp: open_round_def Let_def intro!: inv_intros sm_inv_expected split: option.split)

lemma sm_inv_run: "sm_inv s \<Longrightarrow> list_all wf_op ops \<Longrightarrow> sm_inv (sm_run s ops)"
  unfolding sm_run_def by (induction ops arbitrary: s) (auto intro: inv_intros)

lemma sm_inv_init: "adapter_ok reg \<Longrightarrow> sm_inv (init_sm reg p n)"
  by (simp add: sm_inv_def votes_ok_def seen_ok_def qc_ok_def init_sm_def)

section \<open>Within one round\<close>

text \<open>
  Proposals and votes never leave the round: afterwards the machine is locked, or it has the same
  registry and round and only more votes.
\<close>

definition extends :: "round_sm \<Rightarrow> round_sm \<Rightarrow> bool" where
  "extends s s' \<longleftrightarrow> sm_phase s' = PhLocked
     \<or> (sm_registry s' = sm_registry s \<and> sm_round s' = sm_round s \<and> (\<exists>w. sm_votes s' = sm_votes s @ w))"

fun submits :: "sm_op \<Rightarrow> bool" where
  "submits (SubmitVote v) \<longleftrightarrow> True"
| "submits (SubmitProposal p) \<longleftrightarrow> True"
| "submits _ \<longleftrightarrow> False"

lemma extends_refl [simp]: "extends s s"
  by (auto simp: extends_def)

lemma precommit_registry:
  "sm_phase (fst (maybe_advance_precommit sn h s)) = PhLocked
   \<or> sm_registry (fst (maybe_advance_precommit sn h s)) = sm_registry s"
  by (auto simp: maybe_advance_precommit_def split: option.split)

lemma submit_vote_extends: "extends s (fst (submit_vote v s))"
proof (cases rule: submit_vote_cases [of v s])
  case (counted s0)
  note g = phase_gate_frame [OF counted(1)]
  have "extends s (record_vote_in v s0)" using g by (auto simp: extends_def)
  thus ?thesis
    unfolding counted(7) using g precommit_registry [of "snapshot_of s" "v_hash v" "record_vote_in v s0"]
    by (auto simp: extends_def split: vote_type.split)
qed (auto simp: extends_def)

lemma submit_proposal_extends: "extends s (fst (submit_proposal p s))"
  by (auto simp: submit_proposal_def Let_def extends_def starts_round_def split: option.split)

lemma locked_submits: "sm_phase s = PhLocked \<Longrightarrow> submits op \<Longrightarrow> sm_step s op = s"
  by (cases op) (auto simp: submit_vote_def submit_proposal_def)

lemma submits_extends: "list_all submits ops \<Longrightarrow> extends s (sm_run s ops)"
proof -
  have *: "extends s t \<Longrightarrow> list_all submits ops \<Longrightarrow> extends s (foldl sm_step t ops)" for t
  proof (induction ops arbitrary: t)
    case (Cons op ops)
    have "extends t (sm_step t op)"
      using Cons.prems(2) submit_vote_extends submit_proposal_extends by (cases op) auto
    hence "extends s (sm_step t op)"
      using Cons.prems locked_submits [of t op] by (cases "sm_phase t = PhLocked") (auto simp: extends_def)
    with Cons show ?case by simp
  qed simp
  show "list_all submits ops \<Longrightarrow> extends s (sm_run s ops)" unfolding sm_run_def by (intro *) auto
qed

section \<open>What a completed vote proves\<close>

lemma finalize_hash: "ro_hash (ro_complete rid h) = h" "ro_status (ro_complete rid h) = StComplete"
  by (simp_all add: ro_complete_def)

lemma precommit_complete:
  assumes "maybe_advance_precommit sn h s = (s', Inr out)" "ro_status out = StComplete"
  shows "qc_reached (build_certificate sn (sm_votes s) (sm_round s) VtPrecommit h)" "ro_hash out = py_lower h"
    "sm_registry s' = sm_registry s" "sm_phase s' = PhFinalize" "py_lower h \<in> sm_finalized_hashes s'"
proof -
  have pc: "precommit_cert sn h s = (s', Inr out)"
    using assms(1) by (auto simp: maybe_advance_precommit_def split: option.splits if_splits)
  hence r: "qc_reached (build_certificate sn (sm_votes s) (sm_round s) VtPrecommit h)"
    using assms(2) by (auto simp: precommit_cert_def ro_accepted_def Let_def split: if_splits)
  thus "qc_reached (build_certificate sn (sm_votes s) (sm_round s) VtPrecommit h)" .
  have "precommit_cert sn h s = finalize h (s\<lparr>sm_qc := (sm_qc s)((rid_key (sm_round s), VtPrecommit) \<mapsto>
      build_certificate sn (sm_votes s) (sm_round s) VtPrecommit h)\<rparr>)"
    using r by (simp add: precommit_cert_def Let_def)
  with pc show "ro_hash out = py_lower h" "sm_registry s' = sm_registry s" "sm_phase s' = PhFinalize"
    "py_lower h \<in> sm_finalized_hashes s'"
    by (auto simp: finalize_def ro_complete_def Let_def)
qed

lemma vote_complete:
  assumes "submit_vote v s = (s', Inr out)" "ro_status out = StComplete" "wf_vote v"
  shows "qc_reached (build_certificate (snapshot_of s) (sm_votes s') (sm_round s) VtPrecommit (ro_hash out))"
    and "norm_hash (ro_hash out) = ro_hash out" "sm_registry s' = sm_registry s" "sm_round s' = sm_round s"
    and "sm_phase s \<noteq> PhLocked" "sm_phase s' = PhFinalize" "\<exists>w. sm_votes s' = sm_votes s @ w"
    and "ro_hash out = v_hash v"
proof -
  have "v_type v = VtPrecommit \<and> (\<exists>s0. phase_gate v s = Inr s0 \<and> sm_phase s \<noteq> PhLocked
      \<and> maybe_advance_precommit (snapshot_of s) (v_hash v) (record_vote_in v s0) = (s', Inr out))"
  proof (cases rule: submit_vote_cases [of v s])
    case (counted s0)
    with assms(1,2) show ?thesis
      by (auto simp: maybe_advance_prevote_def ro_accepted_def Let_def split: vote_type.splits if_splits)
  next
    case (closed reason cv detail)
    with assms(1) show ?thesis using fail_closed_not_value(2) by (metis (no_types))
  qed (use assms(1,2) in auto)
  then obtain s0 where s0: "phase_gate v s = Inr s0" "sm_phase s \<noteq> PhLocked"
    and m: "maybe_advance_precommit (snapshot_of s) (v_hash v) (record_vote_in v s0) = (s', Inr out)" by blast
  note g = phase_gate_frame [OF s0(1)] and c = precommit_complete [OF m assms(2)]
  have h: "py_lower (v_hash v) = v_hash v" "norm_hash (v_hash v) = v_hash v"
    using assms(3) by (auto simp: wf_vote_def) (metis norm_hash_lower(1))
  have f: "sm_votes s' = sm_votes s @ [v]" "sm_round s' = sm_round s"
    using precommit_frame(1,2) [of "snapshot_of s" "v_hash v" "record_vote_in v s0"] m g by simp_all
  show "qc_reached (build_certificate (snapshot_of s) (sm_votes s') (sm_round s) VtPrecommit (ro_hash out))"
    "norm_hash (ro_hash out) = ro_hash out" "sm_registry s' = sm_registry s" "sm_round s' = sm_round s"
    "sm_phase s \<noteq> PhLocked" "sm_phase s' = PhFinalize" "\<exists>w. sm_votes s' = sm_votes s @ w"
    "ro_hash out = v_hash v"
    using c f g h s0(2) by simp_all
qed

end
