(* ===== verification/Bft_Agreement.thy ===== *)
theory Bft_Agreement
  imports Bft_Safety
begin

text \<open>
  The properties of the BFT round machine: the quorum test on doubles, agreement inside a round,
  accountability of conflicting certificates, fail-closed handling of equivocation, permanence of
  slashing and finality, progress of an honest round, and the limits that re-opening a round has.
\<close>

section \<open>Facts shared by the properties\<close>

lemma certificate_mono:
  assumes "wf_snapshot sn" "\<forall>v \<in> set (vs @ ws). wf_vote v"
    and "qc_reached (build_certificate sn vs rid vt h)"
  shows "qc_reached (build_certificate sn (vs @ ws) rid vt h)"
proof -
  have "istake (supporters sn rid vt (norm_hash h) vs) \<le> istake (supporters sn rid vt (norm_hash h) (vs @ ws))"
    by (rule istake_mono [OF assms(1)]) (auto simp: supporters_def)
  moreover have "\<forall>v \<in> set vs. wf_vote v" using assms(2) by simp
  ultimately show ?thesis
    using assms by (auto simp: certificate_reached_iff [OF assms(1)])
qed

lemma common_voter:
  assumes "wf_snapshot sn" "\<forall>v \<in> set vs. wf_vote v"
    and "qc_reached (build_certificate sn vs rid vt h)" "qc_reached (build_certificate sn vs rid vt h')"
  obtains v w where "v \<in> set vs" "w \<in> set vs" "v_validator v = v_validator w" "v_type v = vt" "v_type w = vt"
    "rid_key (v_round v) = rid_key rid" "rid_key (v_round w) = rid_key rid"
    "py_lower (v_hash v) = norm_hash h" "py_lower (v_hash w) = norm_hash h'"
proof -
  let ?I = "supporters sn rid vt (norm_hash h) vs \<inter> supporters sn rid vt (norm_hash h') vs"
  from certificates_intersect [OF assms] have "?I \<noteq> {}" by (auto simp: istake_def)
  then obtain i where "i \<in> ?I" by blast
  then obtain v w where "v \<in> set vs" "w \<in> set vs" "matches rid vt (norm_hash h) v" "v_validator v = vi_id i"
      "matches rid vt (norm_hash h') w" "v_validator w = vi_id i"
    by (auto simp: supporters_def)
  with that show thesis by (auto simp: matches_def)
qed

lemma votes_unique:
  assumes "votes_ok s" "v \<in> set (sm_votes s)" "w \<in> set (sm_votes s)"
    and "v_validator v = v_validator w" "v_type v = v_type w"
  shows "v_hash v = v_hash w"
proof -
  from assms have "sm_seen s (vote_key v) = Some (v_hash v)" "sm_seen s (vote_key w) = Some (v_hash w)"
    "v_round v = v_round w" by (auto simp: votes_ok_def)
  with assms(4,5) show ?thesis by (metis option.inject vote_key_inj)
qed

lemma sm_invD:
  "sm_inv s \<Longrightarrow> votes_ok s" "sm_inv s \<Longrightarrow> v \<in> set (sm_votes s) \<Longrightarrow> wf_vote v"
  "sm_inv s \<Longrightarrow> v \<in> set (sm_votes s) \<Longrightarrow> py_lower (v_hash v) = v_hash v"
  unfolding sm_inv_def votes_ok_def wf_vote_def by (auto, metis norm_hash_lower(1))

lemma one_certificate:
  assumes "sm_inv s" "wf_snapshot sn"
    and "qc_reached (build_certificate sn (sm_votes s) rid vt h)"
    and "qc_reached (build_certificate sn (sm_votes s) rid vt h')"
  shows "norm_hash h = norm_hash h'"
proof -
  obtain v w where v: "v \<in> set (sm_votes s)" "w \<in> set (sm_votes s)" "v_validator v = v_validator w"
      "v_type v = vt" "v_type w = vt" "py_lower (v_hash v) = norm_hash h" "py_lower (v_hash w) = norm_hash h'"
    using common_voter [OF assms(2) _ assms(3,4)] sm_invD(2) [OF assms(1)] by metis
  with votes_unique [OF sm_invD(1) [OF assms(1)] v(1,2)] show ?thesis by simp
qed

text \<open>Every operation changes the registry by marking validators slashed, and by nothing else.\<close>

definition marked :: "round_sm \<Rightarrow> round_sm \<Rightarrow> bool" where
  "marked s s' \<longleftrightarrow> (\<exists>vids. sm_registry s' = fold mark_slashed vids (sm_registry s))"

lemma marked_same: "sm_registry s' = sm_registry s \<Longrightarrow> marked s s'"
  unfolding marked_def by (rule exI [of _ "[]"]) simp

lemma marked_fail_closed: "marked s (fst (fail_closed reason vid rid cv detail s))"
  unfolding marked_def by (rule exI [of _ "[vid]"]) simp

lemma marked_trans: "marked s t \<Longrightarrow> marked t u \<Longrightarrow> marked s u"
  unfolding marked_def by (metis fold_append comp_apply)

lemma marked_precommit: "marked s (fst (maybe_advance_precommit sn h s))"
  by (auto simp: maybe_advance_precommit_def marked_fail_closed marked_same split: option.split)

lemma marked_vote: "marked s (fst (submit_vote v s))"
proof (cases rule: submit_vote_cases [of v s])
  case (counted s0)
  have "marked s (record_vote_in v s0)" using phase_gate_frame [OF counted(1)] by (simp add: marked_same)
  thus ?thesis
    unfolding counted(7)
    by (auto split: vote_type.split intro: marked_trans [OF _ marked_precommit]
        marked_trans [OF _ marked_same [OF prevote_frame(1)]])
qed (simp_all add: marked_same marked_fail_closed)

lemma marked_step: "marked s (sm_step s op)"
  by (cases op)
    (auto simp: submit_proposal_def open_round_def arm_quorum_live_def Let_def marked_vote marked_fail_closed
      intro: marked_same split: option.split)

lemma marked_run: "marked s (sm_run s ops)"
proof -
  have "marked s t \<Longrightarrow> marked s (foldl sm_step t ops)" for t
    by (induction ops arbitrary: t) (simp_all add: marked_trans [OF _ marked_step])
  thus ?thesis unfolding sm_run_def by (simp add: marked_same)
qed

lemma marked_active_mono:
  "adapter_ok (sm_registry s) \<Longrightarrow> marked s s' \<Longrightarrow> is_active (snapshot_of s') w \<Longrightarrow> is_active (snapshot_of s) w"
  unfolding marked_def snapshot_of_def using vset.marks_active_mono by force

section \<open>Finality only grows\<close>

definition finality_grows :: "round_sm \<Rightarrow> round_sm \<Rightarrow> bool" where
  "finality_grows s s' \<longleftrightarrow>
     sm_finalized_height s \<le> sm_finalized_height s' \<and> sm_finalized_hashes s \<subseteq> sm_finalized_hashes s'"

lemma grows_refl [simp]: "finality_grows s s"
  by (simp add: finality_grows_def)

lemma grows_same:
  "sm_finalized_height s' = sm_finalized_height s \<Longrightarrow> sm_finalized_hashes s' = sm_finalized_hashes s \<Longrightarrow>
     finality_grows s s'"
  by (simp add: finality_grows_def)

lemma grows_vote: "finality_grows s (fst (submit_vote v s))"
proof (cases rule: submit_vote_cases [of v s])
  case (counted s0)
  show ?thesis
    unfolding counted(7) finality_grows_def
    using phase_gate_frame(5,6) [OF counted(1)] precommit_frame(5,6) [of "record_vote_in v s0"]
    by (auto split: vote_type.split)
qed (simp_all add: finality_grows_def)

lemma grows_step: "finality_grows s (sm_step s op)"
  by (cases op)
    (auto simp: submit_proposal_def open_round_def arm_quorum_live_def Let_def grows_vote
      intro: grows_same split: option.split)

lemma grows_run: "finality_grows s (sm_run s ops)"
proof -
  have "finality_grows s t \<Longrightarrow> finality_grows s (foldl sm_step t ops)" for t
  proof (induction ops arbitrary: t)
    case (Cons op ops)
    with grows_step [of t op] show ?case by (simp add: finality_grows_def) (meson order_trans)
  qed simp
  thus ?thesis unfolding sm_run_def by simp
qed

section \<open>An honest round\<close>

text \<open>
  The votes honest validators cast for \<open>h\<close>, and the state of a round in which every vote counted
  so far is for \<open>h\<close>, cast by the validators \<open>pv\<close> (prevotes) and \<open>pc\<close> (precommits).
\<close>

definition honest_vote :: "round_id \<Rightarrow> string \<Rightarrow> vote_type \<Rightarrow> string \<Rightarrow> vote" where
  "honest_vote rid h vt vid = mk_vote vid vt rid h 0 '''' True"

definition vote_all :: "round_id \<Rightarrow> string \<Rightarrow> vote_type \<Rightarrow> string list \<Rightarrow> round_sm \<Rightarrow> round_sm" where
  "vote_all rid h vt vids s = sm_run s (map (\<lambda>vid. SubmitVote (honest_vote rid h vt vid)) vids)"

definition in_favour :: "string \<Rightarrow> string list \<Rightarrow> string list \<Rightarrow> round_sm \<Rightarrow> bool" where
  "in_favour h pv pc s \<longleftrightarrow>
     (\<forall>vid vt. sm_seen s (vid, vt, rid_key (sm_round s)) \<noteq> None \<longrightarrow>
        (vt = VtPrevote \<and> vid \<in> set pv \<or> vt = VtPrecommit \<and> vid \<in> set pc))
     \<and> (\<forall>c. sm_qc s (rid_key (sm_round s), VtPrevote) = Some c \<longrightarrow> qc_reached c \<longrightarrow> qc_hash c = h)
     \<and> sm_votes s = map (honest_vote (sm_round s) h VtPrevote) pv @ map (honest_vote (sm_round s) h VtPrecommit) pc"

definition can_prevote :: "round_sm \<Rightarrow> bool" where
  "can_prevote s \<longleftrightarrow> sm_phase s = PhPropose \<and> sm_proposal s = None \<or> sm_phase s \<in> {PhPrevote, PhPrecommit}"

definition can_precommit :: "round_sm \<Rightarrow> bool" where
  "can_precommit s \<longleftrightarrow> sm_phase s \<in> {PhPrevote, PhPrecommit, PhFinalize}"

lemma honest_vote_frame [simp]:
  "v_type (honest_vote rid h vt vid) = vt" "v_round (honest_vote rid h vt vid) = rid"
  "v_verified (honest_vote rid h vt vid)" "wf_vote (honest_vote rid h vt vid)"
  "v_validator (honest_vote rid h vt vid) = py_strip vid" "v_hash (honest_vote rid h vt vid) = norm_hash h"
  by (simp_all add: honest_vote_def) (simp_all add: mk_vote_def)

lemma qc_hash_build [simp]: "qc_hash (build_certificate sn vs rid vt h) = norm_hash h"
  by (simp add: build_certificate_def mk_certificate_def Let_def norm_hash_def strip_lower)

lemma in_favour_unseen:
  assumes "in_favour h pv pc s" "py_strip vid = vid" "vt = VtPrevote \<and> vid \<notin> set pv \<or> vt = VtPrecommit \<and> vid \<notin> set pc"
  shows "sm_seen s (vote_key (honest_vote (sm_round s) h vt vid)) = None"
proof (rule ccontr)
  assume "\<not> ?thesis"
  hence "sm_seen s (vid, vt, rid_key (sm_round s)) \<noteq> None" using assms(2) by (simp add: vote_key_def)
  with assms(1,3) show False unfolding in_favour_def by blast
qed

lemma honest_prevote:
  assumes "in_favour h pv [] s" "can_prevote s" "norm_hash h = h" "py_strip vid = vid"
    and "vid \<notin> set pv" "is_active (snapshot_of s) vid"
  defines "s' \<equiv> fst (submit_vote (honest_vote (sm_round s) h VtPrevote vid) s)"
  shows "in_favour h (pv @ [vid]) [] s'" "can_prevote s'" "can_precommit s'"
    "sm_round s' = sm_round s" "sm_registry s' = sm_registry s"
proof -
  let ?v = "honest_vote (sm_round s) h VtPrevote vid"
  obtain s0 where g: "phase_gate ?v s = Inr s0" and ph: "sm_phase s0 \<in> {PhPrevote, PhPrecommit}"
    using assms(2) by (auto simp: phase_gate_def can_prevote_def)
  have unseen: "sm_seen s (vote_key ?v) = None"
    using in_favour_unseen [OF assms(1,4)] assms(5) by blast
  have s': "s' = fst (maybe_advance_prevote (snapshot_of s) h (record_vote_in ?v s0))"
    using assms(2,3,4,6) g unseen by (auto simp: s'_def submit_vote_def Let_def can_prevote_def)
  note f = phase_gate_frame [OF g]
  show "sm_round s' = sm_round s" "sm_registry s' = sm_registry s" using f by (simp_all add: s')
  show "can_prevote s'" "can_precommit s'"
    using ph f by (auto simp: s' maybe_advance_prevote_def can_prevote_def can_precommit_def Let_def)
  show "in_favour h (pv @ [vid]) [] s'"
    using assms(1,3,4) f by (auto simp: s' in_favour_def vote_key_def split: if_splits)
qed

lemma precommit_cert_phase:
  "can_precommit s \<Longrightarrow> can_precommit (fst (precommit_cert sn h s))"
  by (auto simp: precommit_cert_def can_precommit_def Let_def)

lemma honest_precommit:
  assumes "in_favour h pv pc s" "can_precommit s" "norm_hash h = h" "py_strip vid = vid"
    and "vid \<notin> set pc" "is_active (snapshot_of s) vid"
  defines "s' \<equiv> fst (submit_vote (honest_vote (sm_round s) h VtPrecommit vid) s)"
  shows "in_favour h pv (pc @ [vid]) s'" "can_precommit s'"
    "sm_round s' = sm_round s" "sm_registry s' = sm_registry s"
    "qc_reached (build_certificate (snapshot_of s) (sm_votes s') (sm_round s) VtPrecommit h) \<Longrightarrow>
       sm_phase s' = PhFinalize \<and> h \<in> sm_finalized_hashes s'
       \<and> snd (submit_vote (honest_vote (sm_round s) h VtPrecommit vid) s) = Inr (ro_complete (sm_round s) h)"
proof -
  let ?v = "honest_vote (sm_round s) h VtPrecommit vid" and ?sn = "snapshot_of s"
  have g: "phase_gate ?v s = Inr s" and ph: "sm_phase s \<noteq> PhLocked"
    using assms(2) by (auto simp: phase_gate_def can_precommit_def)
  have unseen: "sm_seen s (vote_key ?v) = None"
    using in_favour_unseen [OF assms(1,4)] assms(5) by blast
  have "submit_vote ?v s = maybe_advance_precommit ?sn h (record_vote_in ?v s)"
    using ph assms(3,4,6) g unseen by (auto simp: submit_vote_def Let_def)
  moreover have "maybe_advance_precommit ?sn h (record_vote_in ?v s) = precommit_cert ?sn h (record_vote_in ?v s)"
    using assms(1) by (auto simp: maybe_advance_precommit_def in_favour_def split: option.split)
  ultimately have sv: "submit_vote ?v s = precommit_cert ?sn h (record_vote_in ?v s)" by simp
  hence s': "s' = fst (precommit_cert ?sn h (record_vote_in ?v s))" by (simp add: s'_def)
  show "sm_round s' = sm_round s" "sm_registry s' = sm_registry s" by (simp_all add: s')
  show "can_precommit s'"
    unfolding s' using assms(2) by (intro precommit_cert_phase) (simp add: can_precommit_def)
  show "in_favour h pv (pc @ [vid]) s'"
    using assms(1,3,4) by (auto simp: s' in_favour_def vote_key_def split: if_splits)
  have lower: "py_lower h = h" using assms(3) by (metis norm_hash_lower(1))
  have votes: "sm_votes s' = sm_votes s @ [?v]" by (simp add: s')
  assume "qc_reached (build_certificate ?sn (sm_votes s') (sm_round s) VtPrecommit h)"
  hence "qc_reached (build_certificate ?sn (sm_votes s @ [?v]) (sm_round s) VtPrecommit h)" by (simp only: votes)
  thus "sm_phase s' = PhFinalize \<and> h \<in> sm_finalized_hashes s' \<and> snd (submit_vote ?v s) = Inr (ro_complete (sm_round s) h)"
    using lower by (simp add: s' sv precommit_cert_def Let_def)
qed

lemma vote_all_Cons: "vote_all rid h vt (vid # vids) s = vote_all rid h vt vids (fst (submit_vote (honest_vote rid h vt vid) s))"
  by (simp add: vote_all_def sm_run_def)

lemma prevote_all:
  assumes "in_favour h pv [] s" "can_prevote s" "norm_hash h = h" "distinct (pv @ vids)"
    and "list_all (\<lambda>vid. py_strip vid = vid \<and> is_active (snapshot_of s) vid) vids"
    and "pv \<noteq> [] \<Longrightarrow> can_precommit s"
  defines "s' \<equiv> vote_all (sm_round s) h VtPrevote vids s"
  shows "in_favour h (pv @ vids) [] s' \<and> sm_round s' = sm_round s \<and> sm_registry s' = sm_registry s
    \<and> (pv @ vids \<noteq> [] \<longrightarrow> can_precommit s')"
  using assms(1-6) unfolding s'_def
proof (induction vids arbitrary: pv s)
  case (Cons vid vids)
  let ?t = "fst (submit_vote (honest_vote (sm_round s) h VtPrevote vid) s)"
  have "py_strip vid = vid" "vid \<notin> set pv" "is_active (snapshot_of s) vid" using Cons.prems by auto
  note t = honest_prevote [OF Cons.prems(1,2,3) this]
  show ?case using Cons.IH [of "pv @ [vid]" ?t] Cons.prems t by (simp add: vote_all_Cons snapshot_of_def)
qed (simp add: vote_all_def sm_run_def)

lemma precommit_all:
  assumes "in_favour h pv pc s" "can_precommit s" "norm_hash h = h" "distinct (pc @ vids)" "vids \<noteq> []"
    and "list_all (\<lambda>vid. py_strip vid = vid \<and> is_active (snapshot_of s) vid) vids"
    and "qc_reached (build_certificate (snapshot_of s)
      (map (honest_vote (sm_round s) h VtPrevote) pv @ map (honest_vote (sm_round s) h VtPrecommit) (pc @ vids))
      (sm_round s) VtPrecommit h)"
  defines "s' \<equiv> vote_all (sm_round s) h VtPrecommit vids s"
  shows "sm_phase s' = PhFinalize \<and> h \<in> sm_finalized_hashes s'"
  using assms(1-7) unfolding s'_def
proof (induction vids arbitrary: pc s)
  case (Cons vid vids)
  let ?t = "fst (submit_vote (honest_vote (sm_round s) h VtPrecommit vid) s)"
  have "py_strip vid = vid" "vid \<notin> set pc" "is_active (snapshot_of s) vid" using Cons.prems by auto
  note t = honest_precommit [OF Cons.prems(1,2,3) this]
  show ?case
  proof (cases "vids = []")
    case True
    have "sm_votes ?t = map (honest_vote (sm_round s) h VtPrevote) pv @ map (honest_vote (sm_round s) h VtPrecommit) (pc @ [vid])"
      using t(1,3) by (simp add: in_favour_def)
    with Cons.prems(7) True t(5) show ?thesis by (simp add: vote_all_def sm_run_def)
  next
    case False
    thus ?thesis using Cons.IH [of "pc @ [vid]" ?t] Cons.prems t by (simp add: vote_all_Cons snapshot_of_def)
  qed
qed simp

section \<open>A concrete network\<close>

text \<open>Two registered validators with stakes 3 and 1, used to instantiate the properties.\<close>

definition demo_registry :: adapter_registry where
  "demo_registry = \<lparr>ar_registry = Some [(''A'', new_validator ''A'' 3 0), (''B'', new_validator ''B'' 1 0)],
     ar_engine = [], ar_db_fails = False, ar_db_slashed = []\<rparr>"

definition demo_machine :: round_sm where
  "demo_machine = init_sm demo_registry [] 32"

definition demo_round :: round_id where
  "demo_round = \<lparr>rid_epoch = 0, rid_height = 0, rid_round = 0\<rparr>"

definition demo_vote :: "vote_type \<Rightarrow> string \<Rightarrow> string \<Rightarrow> vote" where
  "demo_vote vt vid h = honest_vote demo_round h vt vid"

lemma demo_strip: "py_strip ''A'' = ''A''" "py_strip ''B'' = ''B''" "norm_hash ''h'' = ''h''" "norm_hash ''k'' = ''k''"
  by (simp_all add: py_strip_def py_space_def norm_hash_def py_lower_def lower_char_def Let_def)

lemma demo_snapshot: "adapter_snapshot demo_registry =
    [\<lparr>vi_id = ''A'', vi_stake = 3, vi_pubkey = [], vi_active = True, vi_slashed = False\<rparr>,
     \<lparr>vi_id = ''B'', vi_stake = 1, vi_pubkey = [], vi_active = True, vi_slashed = False\<rparr>]"
proof -
  have "float_of_int 3 = 3" "float_of_int 1 = 1" using float_of_int_exact [of 3] float_of_int_exact [of 1] by simp_all
  thus ?thesis
    by (simp add: adapter_snapshot_def demo_registry_def registry_objects_def get_all_validators_def new_validator_def
        add_registry_info_def from_registry_obj_def mk_validator_info_def demo_strip)
qed

lemma demo_wf: "wf_snapshot (adapter_snapshot demo_registry)" "adapter_ok demo_registry"
  by (auto simp: demo_snapshot wf_snapshot_def demo_strip)
    (simp add: adapter_ok_def demo_registry_def registry_ok_def validator_ok_def new_validator_def demo_strip)

lemma istake_filter:
  assumes "distinct xs"
  shows "istake {i \<in> set xs. P i} = sum_list (map (\<lambda>i. \<lfloor>vi_stake i\<rfloor>) (filter P xs))"
  using assms unfolding istake_def set_filter [symmetric]
  by (simp add: sum_list_distinct_conv_sum_set)

lemma demo_istake: "istake {i \<in> set (adapter_snapshot demo_registry). voting i} = 4"
  "istake {i \<in> set (adapter_snapshot demo_registry). voting i \<and> P i} =
     (if P (adapter_snapshot demo_registry ! 0) then 3 else 0) + (if P (adapter_snapshot demo_registry ! 1) then 1 else 0)"
  unfolding istake_filter [OF wf_snapshot_distinct [OF demo_wf(1)]] by (simp_all add: demo_snapshot voting_def)

lemma demo_certificate:
  assumes "\<forall>v \<in> set vs. wf_vote v"
  shows "qc_reached (build_certificate (adapter_snapshot demo_registry) vs rid vt h) \<longleftrightarrow>
    (\<exists>v \<in> set vs. matches rid vt (norm_hash h) v \<and> v_validator v = ''A'')"
  unfolding certificate_reached_iff [OF demo_wf(1) assms] supporters_def demo_istake
  by (auto simp: demo_snapshot)

lemma demo_vote_frame [simp]:
  "v_type (demo_vote vt vid h) = vt" "v_round (demo_vote vt vid h) = demo_round"
  "v_verified (demo_vote vt vid h)" "wf_vote (demo_vote vt vid h)"
  "v_validator (demo_vote vt vid h) = py_strip vid" "v_hash (demo_vote vt vid h) = norm_hash h"
  by (simp_all add: demo_vote_def)

lemma demo_inv: "sm_inv demo_machine"
  unfolding demo_machine_def by (rule sm_inv_init) (rule demo_wf(2))

text \<open>Both validators prevote; \<open>A\<close>'s precommit alone has the quorum.\<close>

definition demo_prevoted :: round_sm where
  "demo_prevoted = sm_run demo_machine [SubmitVote (demo_vote VtPrevote ''A'' ''h''), SubmitVote (demo_vote VtPrevote ''B'' ''h'')]"

lemma demo_prevoted_inv: "sm_inv demo_prevoted"
  unfolding demo_prevoted_def by (rule sm_inv_run [OF demo_inv]) simp

lemma demo_active: "is_active (adapter_snapshot demo_registry) ''A''" "is_active (adapter_snapshot demo_registry) ''B''"
  by (simp_all add: is_active_def snap_get_def demo_snapshot demo_strip)

lemma demo_in_favour:
  "in_favour ''h'' [''A'', ''B''] [] demo_prevoted \<and> sm_round demo_prevoted = demo_round
   \<and> sm_registry demo_prevoted = demo_registry \<and> can_precommit demo_prevoted"
proof -
  have m: "sm_round demo_machine = demo_round" "sm_registry demo_machine = demo_registry"
    by (simp_all add: demo_machine_def init_sm_def demo_round_def)
  have "demo_prevoted = vote_all (sm_round demo_machine) ''h'' VtPrevote [''A'', ''B''] demo_machine"
    by (simp add: demo_prevoted_def vote_all_def demo_vote_def m)
  moreover have "in_favour ''h'' [] [] demo_machine" "can_prevote demo_machine"
    by (simp_all add: in_favour_def demo_machine_def init_sm_def can_prevote_def)
  ultimately show ?thesis
    using prevote_all [of "''h''" "[]" demo_machine "[''A'', ''B'']"] m demo_strip demo_active
    by (simp add: snapshot_of_def)
qed

definition demo_committed :: round_sm where
  "demo_committed = fst (submit_vote (demo_vote VtPrecommit ''A'' ''h'') demo_prevoted)"

lemma demo_commits:
  "submit_vote (demo_vote VtPrecommit ''A'' ''h'') demo_prevoted = (demo_committed, Inr (ro_complete demo_round ''h''))"
  "snd (submit_vote (demo_vote VtPrecommit ''B'' ''h'') demo_committed) = Inr (ro_complete demo_round ''h'')"
proof -
  note d = demo_in_favour [THEN conjunct1] demo_in_favour [THEN conjunct2, THEN conjunct2, THEN conjunct2]
  have r: "sm_round demo_prevoted = demo_round" "snapshot_of demo_prevoted = adapter_snapshot demo_registry"
    using demo_in_favour by (simp_all add: snapshot_of_def)
  note a = honest_precommit [OF d demo_strip(3,1), simplified, unfolded r, OF demo_active(1), folded demo_vote_def, folded demo_committed_def]
  have v1: "sm_votes demo_committed = map (honest_vote demo_round ''h'' VtPrevote) [''A'', ''B''] @ [honest_vote demo_round ''h'' VtPrecommit ''A'']"
    using a(1,3) by (simp add: in_favour_def)
  have "qc_reached (build_certificate (adapter_snapshot demo_registry) (sm_votes demo_committed) demo_round VtPrecommit ''h'')"
    unfolding v1 by (subst demo_certificate) (auto simp: matches_def demo_strip, metis demo_strip(3) norm_hash_lower(1))
  from a(5) [OF this] show "submit_vote (demo_vote VtPrecommit ''A'' ''h'') demo_prevoted = (demo_committed, Inr (ro_complete demo_round ''h''))"
    by (simp add: prod_eq_iff demo_committed_def)
  have r1: "snapshot_of demo_committed = adapter_snapshot demo_registry" "sm_round demo_committed = demo_round"
    using a(3,4) demo_in_favour by (simp_all add: snapshot_of_def)
  note b = honest_precommit [OF a(1,2) demo_strip(3,2), simplified, unfolded r1, OF demo_active(2), folded demo_vote_def]
  have v2: "sm_votes (fst (submit_vote (demo_vote VtPrecommit ''B'' ''h'') demo_committed)) =
      map (honest_vote demo_round ''h'' VtPrevote) [''A'', ''B''] @ map (honest_vote demo_round ''h'' VtPrecommit) [''A'', ''B'']"
    using b(1,3) by (simp add: in_favour_def)
  have "qc_reached (build_certificate (adapter_snapshot demo_registry)
      (sm_votes (fst (submit_vote (demo_vote VtPrecommit ''B'' ''h'') demo_committed))) demo_round VtPrecommit ''h'')"
    unfolding v2 by (subst demo_certificate) (auto simp: matches_def demo_strip, metis demo_strip(3) norm_hash_lower(1))
  from b(5) [OF this] show "snd (submit_vote (demo_vote VtPrecommit ''B'' ''h'') demo_committed) = Inr (ro_complete demo_round ''h'')"
    by simp
qed

text \<open>A first prevote for \<open>h\<close> in a fresh machine; a prevote of the same validator for \<open>k\<close> is then
  a double vote.\<close>

definition first_prevote :: "adapter_registry \<Rightarrow> string \<Rightarrow> round_sm" where
  "first_prevote reg vid = fst (submit_vote (demo_vote VtPrevote vid ''h'') (init_sm reg [] 32))"

lemma first_prevote_facts:
  assumes "adapter_ok reg" "is_active (adapter_snapshot reg) vid" "py_strip vid = vid"
  shows "sm_inv (first_prevote reg vid)" "sm_phase (first_prevote reg vid) \<noteq> PhLocked"
    "sm_round (first_prevote reg vid) = demo_round" "sm_registry (first_prevote reg vid) = reg"
    "sm_seen (first_prevote reg vid) (vote_key (demo_vote VtPrevote vid ''k'')) = Some ''h''"
proof -
  have m: "sm_round (init_sm reg [] 32) = demo_round" "sm_registry (init_sm reg [] 32) = reg"
    by (simp_all add: init_sm_def demo_round_def)
  have sv: "submit_vote (demo_vote VtPrevote vid ''h'') (init_sm reg [] 32) =
      maybe_advance_prevote (adapter_snapshot reg) ''h''
        (record_vote_in (demo_vote VtPrevote vid ''h'') ((init_sm reg [] 32)\<lparr>sm_phase := PhPrevote\<rparr>))"
    using assms(2,3) demo_strip m
    by (simp add: submit_vote_def Let_def phase_gate_def snapshot_of_def) (simp add: init_sm_def)
  show "sm_inv (first_prevote reg vid)"
    unfolding first_prevote_def by (rule sm_inv_vote [OF sm_inv_init [OF assms(1)]]) simp
  show "sm_phase (first_prevote reg vid) \<noteq> PhLocked"
    unfolding first_prevote_def sv by (simp add: maybe_advance_prevote_def Let_def)
  show "sm_round (first_prevote reg vid) = demo_round" "sm_registry (first_prevote reg vid) = reg"
    "sm_seen (first_prevote reg vid) (vote_key (demo_vote VtPrevote vid ''k'')) = Some ''h''"
    unfolding first_prevote_def sv using m demo_strip assms(3) by (simp_all add: vote_key_def)
qed

lemmas demo_voted_facts = first_prevote_facts [OF demo_wf(2) demo_active(1) demo_strip(1)]

section \<open>Properties\<close>

text \<open>
  C1. agreement. From a state of a round that satisfies the machine's invariant, if a vote
  completes the round on a block and, after any further proposals and votes, another vote completes it
  again, both completed the same block.
\<close>

theorem agreement_in_round:
  assumes "sm_inv s" "wf_snapshot (snapshot_of s)" "list_all submits ops" "list_all wf_op ops"
    and "submit_vote v s = (s1, Inr o1)" "ro_status o1 = StComplete" "wf_vote v"
    and "submit_vote w (sm_run s1 ops) = (s3, Inr o2)" "ro_status o2 = StComplete" "wf_vote w"
  shows "ro_hash o1 = ro_hash o2"
proof -
  let ?s2 = "sm_run s1 ops" and ?sn = "snapshot_of s"
  note c1 = vote_complete [OF assms(5-7)] and c2 = vote_complete [OF assms(8-10)]
  have "extends s1 ?s2" using assms(3) by (rule submits_extends)
  with c2(5) obtain ws where s2: "sm_registry ?s2 = sm_registry s" "sm_round ?s2 = sm_round s"
      "sm_votes ?s2 = sm_votes s1 @ ws"
    using c1(3,4) by (auto simp: extends_def)
  with c2(7) obtain ws' where v3: "sm_votes s3 = sm_votes s1 @ ws'" by auto
  have "sm_inv s1" using sm_inv_vote [OF assms(1,7)] assms(5) by simp
  hence inv3: "sm_inv s3" using sm_inv_vote [OF sm_inv_run [OF _ assms(4)] assms(10)] assms(8) by fastforce
  have "snapshot_of ?s2 = ?sn" using s2(1) by (simp add: snapshot_of_def)
  hence q2: "qc_reached (build_certificate ?sn (sm_votes s3) (sm_round s) VtPrecommit (ro_hash o2))"
    using c2(1) s2(2) by simp
  have "qc_reached (build_certificate ?sn (sm_votes s3) (sm_round s) VtPrecommit (ro_hash o1))"
    unfolding v3 using certificate_mono [OF assms(2) _ c1(1)] sm_invD(2) [OF inv3] v3 by auto
  from one_certificate [OF inv3 assms(2) this q2] c1(2) c2(2) show ?thesis by simp
qed

lemma agreement_in_round_witness:
  "snd (submit_vote (demo_vote VtPrecommit ''B'' ''h'') (sm_run demo_committed [])) = Inr (ro_complete demo_round ''h'')
   \<and> ro_hash (ro_complete demo_round ''h'') = ro_hash (ro_complete demo_round ''h'')"
proof -
  have "snapshot_of demo_prevoted = adapter_snapshot demo_registry" using demo_in_favour by (simp add: snapshot_of_def)
  hence wf: "wf_snapshot (snapshot_of demo_prevoted)" using demo_wf(1) by simp
  have run: "sm_run demo_committed [] = demo_committed" by (simp add: sm_run_def)
  have two: "submit_vote (demo_vote VtPrecommit ''B'' ''h'') (sm_run demo_committed []) =
      (fst (submit_vote (demo_vote VtPrecommit ''B'' ''h'') demo_committed), Inr (ro_complete demo_round ''h''))"
    unfolding run using demo_commits(2) by (simp add: prod_eq_iff)
  from agreement_in_round [OF demo_prevoted_inv wf _ _ demo_commits(1) _ _ two] demo_commits(2)
  show ?thesis by (simp add: run finalize_hash)
qed

text \<open>
  C2. accountability. If one vote log yields certificates for two different blocks in the same
  round and vote type, then validators that hold at least a third of the active stake have each cast a
  vote for both.
\<close>

theorem conflicting_certificates_accountable:
  assumes "wf_snapshot sn" "\<forall>v \<in> set vs. wf_vote v"
    and "qc_reached (build_certificate sn vs rid vt h)" "qc_reached (build_certificate sn vs rid vt h')"
  shows "0 < istake {i \<in> set sn. voting i} \<and>
    istake {i \<in> set sn. voting i} \<le> 3 * istake {i \<in> set sn. voting i
      \<and> (\<exists>v \<in> set vs. v_validator v = vi_id i \<and> matches rid vt (norm_hash h) v)
      \<and> (\<exists>w \<in> set vs. v_validator w = vi_id i \<and> matches rid vt (norm_hash h') w)}"
proof -
  have "supporters sn rid vt (norm_hash h) vs \<inter> supporters sn rid vt (norm_hash h') vs =
    {i \<in> set sn. voting i \<and> (\<exists>v \<in> set vs. v_validator v = vi_id i \<and> matches rid vt (norm_hash h) v)
      \<and> (\<exists>w \<in> set vs. v_validator w = vi_id i \<and> matches rid vt (norm_hash h') w)}"
    by (auto simp: supporters_def)
  with certificates_intersect [OF assms] show ?thesis by simp
qed

lemma conflicting_certificates_witness:
  "0 < istake {i \<in> set (adapter_snapshot demo_registry). voting i}"
proof -
  let ?vs = "[demo_vote VtPrecommit ''A'' ''h'', demo_vote VtPrecommit ''A'' ''k'']"
  have low: "py_lower ''h'' = ''h''" "py_lower ''k'' = ''k''" using demo_strip norm_hash_lower(1) by metis+
  have "qc_reached (build_certificate (adapter_snapshot demo_registry) ?vs demo_round VtPrecommit ''h'')"
    "qc_reached (build_certificate (adapter_snapshot demo_registry) ?vs demo_round VtPrecommit ''k'')"
    by (subst demo_certificate; simp add: matches_def demo_strip low)+
  from conflicting_certificates_accountable [OF demo_wf(1) _ this] show ?thesis by simp
qed

text \<open>
  the quorum test on doubles. For whole stakes with a total up to 2^51, the code's float
  comparison of the quotient with 2.0 / 3.0 holds exactly when three times the voted stake is at least
  twice the total.
\<close>

theorem quorum_test_exact:
  fixes v t :: int
  assumes "0 < t" "t \<le> 2 ^ 51"
  shows "quorum_reached (of_int v) (of_int t) \<longleftrightarrow> 2 * t \<le> 3 * v"
  using assms by (rule quorum_reached_iff)

lemma quorum_test_exact_witness: "quorum_reached 2 3 \<and> \<not> quorum_reached 1 3"
  using quorum_test_exact [of 3 2] quorum_test_exact [of 3 1] by simp

text \<open>
  the certificate. On a well-formed snapshot and vote log it is reached exactly when the
  distinct active validators that voted for the block hold two thirds of the active stake, however
  often a validator's vote is repeated.
\<close>

theorem certificate_exact:
  assumes "wf_snapshot sn" "\<forall>v \<in> set vs. wf_vote v"
  shows "qc_reached (build_certificate sn vs rid vt h) \<longleftrightarrow>
    0 < istake {i \<in> set sn. voting i}
    \<and> 2 * istake {i \<in> set sn. voting i} \<le> 3 * istake (supporters sn rid vt (norm_hash h) vs)"
  using assms by (rule certificate_reached_iff)

lemma certificate_exact_witness:
  "qc_reached (build_certificate (adapter_snapshot demo_registry) [demo_vote VtPrecommit ''A'' ''h''] demo_round VtPrecommit ''h'')"
proof -
  have low: "py_lower ''h'' = ''h''" using demo_strip norm_hash_lower(1) by metis
  show ?thesis
    by (subst certificate_exact [OF demo_wf(1)])
      (simp_all add: supporters_def demo_istake, simp add: demo_snapshot matches_def demo_strip low)
qed

text \<open>
  C22. equivocation. A verified vote of an active validator that contradicts its earlier vote of
  the same type and round raises the malicious error with both votes as evidence, locks the round,
  requests a lockdown and, when the validator is in the registry, removes it from the active set.
\<close>

theorem double_vote_fails_closed:
  assumes "sm_inv s" "wf_vote v" "sm_phase s \<noteq> PhLocked" "v_verified v" "v_round v = sm_round s"
    and "is_active (snapshot_of s) (v_validator v)" "sm_seen s (vote_key v) = Some h" "h \<noteq> v_hash v"
  shows "(\<exists>out ev v0. snd (submit_vote v s) = Inl (MaliciousError out ev) \<and> ro_status out = StLocked
      \<and> se_validator ev = v_validator v \<and> se_votes ev = [v0, v] \<and> v_hash v0 = norm_hash h
      \<and> v_validator v0 = v_validator v \<and> v_type v0 = v_type v \<and> v_round v0 = v_round v)
    \<and> sm_phase (fst (submit_vote v s)) = PhLocked
    \<and> sm_lockdown_reason (fst (submit_vote v s)) \<in> {Some ''consensus_double_sign'', Some ''consensus_round_spam''}
    \<and> (known (sm_registry s) (v_validator v) \<longrightarrow>
      \<not> is_active (snapshot_of (fst (submit_vote v s))) (v_validator v))"
    (is "?error \<and> ?locked \<and> ?lockdown \<and> ?inactive")
proof (intro conjI impI)
  have strip: "py_strip (v_validator v) = v_validator v" using assms(2) by (simp add: wf_vote_def)
  define v0 where "v0 = mk_vote (v_validator v) (v_type v) (v_round v) h (v_slot v) '''' True"
  have sv: "submit_vote v s = fail_closed ''double_vote'' (v_validator v) (v_round v) [v0, v] '''' s"
    using assms by (simp add: submit_vote_def Let_def v0_def)
  obtain out ev where "snd (submit_vote v s) = Inl (MaliciousError out ev)" "ro_status out = StLocked"
      "se_validator ev = v_validator v" "se_votes ev = [v0, v]"
    using fail_closed_raises [of "''double_vote''"] unfolding sv by metis
  moreover have "v_hash v0 = norm_hash h" "v_validator v0 = v_validator v" "v_type v0 = v_type v" "v_round v0 = v_round v"
    using strip by (simp_all add: v0_def mk_vote_def)
  ultimately show ?error by metis
  show ?locked by (simp add: sv)
  show ?lockdown
    by (simp add: sv fail_closed_def Let_def is_malicious_reason_def malicious_reason_codes_def lock_reason_def
        request_lockdown_def note_malicious_attempt_def emit_evidence_def)
  show "\<not> is_active (snapshot_of (fst (submit_vote v s))) (v_validator v)"
    if "known (sm_registry s) (v_validator v)"
    using that mark_slashed_inactive [of "sm_registry s" "v_validator v"] strip sm_inv_qc(2) [OF assms(1)]
    by (simp add: sv snapshot_of_def)
qed

lemma double_vote_witness:
  "sm_phase (fst (submit_vote (demo_vote VtPrevote ''A'' ''k'') (first_prevote demo_registry ''A''))) = PhLocked
   \<and> \<not> is_active (snapshot_of (fst (submit_vote (demo_vote VtPrevote ''A'' ''k'') (first_prevote demo_registry ''A'')))) ''A''"
proof -
  have "known demo_registry ''A''" by (simp add: known_def demo_registry_def)
  with double_vote_fails_closed [OF demo_voted_facts(1) _ demo_voted_facts(2) _ _ _ demo_voted_facts(5)]
  show ?thesis using demo_voted_facts demo_active demo_strip by (simp add: snapshot_of_def)
qed

text \<open>
  slashing is permanent. No sequence of operations makes a validator active that the
  snapshot has as inactive or slashed.
\<close>

theorem inactive_stays_inactive:
  assumes "sm_inv s" "\<not> is_active (snapshot_of s) vid"
  shows "\<not> is_active (snapshot_of (sm_run s ops)) vid"
  using marked_active_mono [OF sm_inv_qc(2) [OF assms(1)] marked_run] assms(2) by blast

lemma inactive_stays_inactive_witness:
  "\<not> is_active (snapshot_of (sm_run (init_sm (mark_slashed ''A'' demo_registry) [] 32)
     [OpenRound 5 None 0 None, SubmitVote (demo_vote VtPrevote ''A'' ''h'')])) ''A''"
proof (rule inactive_stays_inactive)
  show "sm_inv (init_sm (mark_slashed ''A'' demo_registry) [] 32)"
    by (intro sm_inv_init adapter_ok_mark demo_wf(2))
  have "known demo_registry ''A''" by (simp add: known_def demo_registry_def)
  with mark_slashed_inactive [OF demo_wf(2), of "''A''"] demo_strip
  show "\<not> is_active (snapshot_of (init_sm (mark_slashed ''A'' demo_registry) [] 32)) ''A''"
    by (simp add: snapshot_of_def init_sm_def)
qed

text \<open>
  finality. No operation lowers the finalized height or removes a finalized hash.
\<close>

theorem finality_monotone:
  "sm_finalized_height s \<le> sm_finalized_height (sm_run s ops) \<and>
   sm_finalized_hashes s \<subseteq> sm_finalized_hashes (sm_run s ops)"
  using grows_run [of s ops] by (simp add: finality_grows_def)

text \<open>
  C23. progress. In a fresh round, when each validator of a nonempty list prevotes and then
  active validators with two thirds of the stake precommit the same block, the round ends finalized
  with that block among the finalized hashes.
\<close>

theorem honest_round_finalizes:
  assumes "wf_snapshot (snapshot_of s)" "norm_hash h = h" "can_prevote s" "sm_votes s = []"
    and "\<And>vid vt. sm_seen s (vid, vt, rid_key (sm_round s)) = None"
    and "sm_qc s (rid_key (sm_round s), VtPrevote) = None"
    and "distinct pv" "pv \<noteq> []" "distinct pc"
    and "list_all (\<lambda>vid. py_strip vid = vid \<and> is_active (snapshot_of s) vid) (pv @ pc)"
    and "0 < istake {i \<in> set (snapshot_of s). voting i}"
    and "2 * istake {i \<in> set (snapshot_of s). voting i} \<le>
      3 * istake {i \<in> set (snapshot_of s). voting i \<and> vi_id i \<in> set pc}"
  defines "s' \<equiv> vote_all (sm_round s) h VtPrecommit pc (vote_all (sm_round s) h VtPrevote pv s)"
  shows "sm_phase s' = PhFinalize \<and> h \<in> sm_finalized_hashes s'"
proof -
  let ?sn = "snapshot_of s" and ?t = "vote_all (sm_round s) h VtPrevote pv s"
  let ?vs = "map (honest_vote (sm_round s) h VtPrevote) pv @ map (honest_vote (sm_round s) h VtPrecommit) ([] @ pc)"
  have "in_favour h [] [] s" using assms(4-6) by (simp add: in_favour_def)
  from prevote_all [OF this assms(3,2), of pv] assms(7,8,10)
  have t: "in_favour h pv [] ?t" "sm_round ?t = sm_round s" "sm_registry ?t = sm_registry s" "can_precommit ?t"
    by simp_all
  hence sn: "snapshot_of ?t = ?sn" by (simp add: snapshot_of_def)
  have pc: "pc \<noteq> []" using assms(11,12) by (auto simp: istake_def)
  have "{i \<in> set ?sn. voting i \<and> vi_id i \<in> set pc} \<subseteq> supporters ?sn (sm_round s) VtPrecommit (norm_hash h) ?vs"
  proof
    fix i assume i: "i \<in> {i \<in> set ?sn. voting i \<and> vi_id i \<in> set pc}"
    let ?v = "honest_vote (sm_round s) h VtPrecommit (vi_id i)"
    have "?v \<in> set ?vs" "matches (sm_round s) VtPrecommit (norm_hash h) ?v" "v_validator ?v = vi_id i"
      using i assms(2,10) norm_hash_lower(1) [of h] by (auto simp: matches_def list_all_iff)
    with i show "i \<in> supporters ?sn (sm_round s) VtPrecommit (norm_hash h) ?vs"
      unfolding supporters_def by blast
  qed
  hence "istake {i \<in> set ?sn. voting i \<and> vi_id i \<in> set pc} \<le> istake (supporters ?sn (sm_round s) VtPrecommit (norm_hash h) ?vs)"
    by (intro istake_mono [OF assms(1)]) (auto simp: supporters_def)
  hence "qc_reached (build_certificate ?sn ?vs (sm_round s) VtPrecommit h)"
    using assms(11,12) by (subst certificate_reached_iff [OF assms(1)]) auto
  with precommit_all [OF t(1,4) assms(2), of pc] pc assms(9,10) show ?thesis
    unfolding s'_def by (simp add: t(2) sn)
qed

lemma honest_round_witness:
  "''h'' \<in> sm_finalized_hashes (vote_all demo_round ''h'' VtPrecommit [''A'']
     (vote_all demo_round ''h'' VtPrevote [''B''] demo_machine))"
proof -
  have m: "sm_round demo_machine = demo_round" "snapshot_of demo_machine = adapter_snapshot demo_registry"
    "can_prevote demo_machine" "sm_votes demo_machine = []" "sm_seen demo_machine k = None"
    "sm_qc demo_machine q = None" for k q
    by (simp_all add: demo_machine_def init_sm_def demo_round_def snapshot_of_def can_prevote_def)
  have st: "vi_id (adapter_snapshot demo_registry ! 0) = ''A''" "vi_id (adapter_snapshot demo_registry ! 1) = ''B''"
    by (simp_all add: demo_snapshot)
  from honest_round_finalizes [of demo_machine "''h''" "[''B'']" "[''A'']"] m demo_wf(1) demo_strip demo_active
  show ?thesis by (simp add: demo_istake st)
qed

end
