(* ===== verification/Bft_Ballot.thy ===== *)
theory Bft_Ballot
  imports Bft_Agreement
begin

text \<open>
  The abstract specification of a round: validators cast at most one vote of each type, and a block
  is decided when the validators that precommitted to it hold two thirds of the active stake. At most
  one block is ever decided. The round machine of \<open>consensus/bft/service.py\<close> implements it: every
  vote it handles is a sequence of ballot steps. The theory closes with the limits of the code that
  the specification makes visible.
\<close>

section \<open>Ballots\<close>

record ballot =
  bl_cast :: "(string \<times> vote_type) \<rightharpoonup> string"
  bl_decided :: "string set"

definition precommitted :: "snapshot \<Rightarrow> ballot \<Rightarrow> string \<Rightarrow> validator_info set" where
  "precommitted sn b h = {i \<in> set sn. voting i \<and> bl_cast b (vi_id i, VtPrecommit) = Some h}"

definition ballot_quorum :: "snapshot \<Rightarrow> ballot \<Rightarrow> string \<Rightarrow> bool" where
  "ballot_quorum sn b h \<longleftrightarrow> 0 < istake {i \<in> set sn. voting i}
     \<and> 2 * istake {i \<in> set sn. voting i} \<le> 3 * istake (precommitted sn b h)"

inductive ballot_step :: "snapshot \<Rightarrow> ballot \<Rightarrow> ballot \<Rightarrow> bool" for sn where
  cast: "bl_cast b (w, vt) = None \<Longrightarrow> is_active sn w \<Longrightarrow>
    ballot_step sn b (b\<lparr>bl_cast := (bl_cast b)((w, vt) \<mapsto> h)\<rparr>)"
| decide: "ballot_quorum sn b h \<Longrightarrow> ballot_step sn b (b\<lparr>bl_decided := insert h (bl_decided b)\<rparr>)"

inductive_cases ballot_stepE: "ballot_step sn b b'"

abbreviation ballot_steps :: "snapshot \<Rightarrow> ballot \<Rightarrow> ballot \<Rightarrow> bool" where
  "ballot_steps sn \<equiv> (ballot_step sn)\<^sup>*\<^sup>*"

lemma ballot_step_cast_mono: "ballot_step sn b b' \<Longrightarrow> bl_cast b \<subseteq>\<^sub>m bl_cast b'"
  by (erule ballot_stepE) (auto simp: map_le_def)

lemma precommitted_mono: "bl_cast b \<subseteq>\<^sub>m bl_cast b' \<Longrightarrow> precommitted sn b h \<subseteq> precommitted sn b' h"
  by (auto simp: precommitted_def map_le_def dom_def)

lemma ballot_quorum_mono:
  assumes "wf_snapshot sn" "bl_cast b \<subseteq>\<^sub>m bl_cast b'" "ballot_quorum sn b h"
  shows "ballot_quorum sn b' h"
proof -
  have "istake (precommitted sn b h) \<le> istake (precommitted sn b' h)"
    by (rule istake_mono [OF assms(1) precommitted_mono [OF assms(2)]]) (auto simp: precommitted_def)
  with assms(3) show ?thesis by (simp add: ballot_quorum_def)
qed

lemma ballot_quorum_unique:
  assumes "wf_snapshot sn" "ballot_quorum sn b h" "ballot_quorum sn b h'"
  shows "h = h'"
proof (rule ccontr)
  let ?V = "{i \<in> set sn. voting i}" and ?A = "precommitted sn b h" and ?B = "precommitted sn b h'"
  assume "h \<noteq> h'"
  hence disj: "?A \<inter> ?B = {}" by (auto simp: precommitted_def)
  have fin: "finite ?A" "finite ?B" by (auto simp: precommitted_def)
  have "istake (?A \<union> ?B) \<le> istake ?V"
    by (rule istake_mono [OF assms(1)]) (auto simp: precommitted_def)
  with istake_Un_Int [OF fin] disj assms(2,3) show False by (simp add: ballot_quorum_def istake_def)
qed

definition ballot_ok :: "snapshot \<Rightarrow> ballot \<Rightarrow> bool" where
  "ballot_ok sn b \<longleftrightarrow> (\<forall>h \<in> bl_decided b. ballot_quorum sn b h)"

lemma ballot_step_ok:
  assumes "wf_snapshot sn" "ballot_step sn b b'" "ballot_ok sn b" shows "ballot_ok sn b'"
  using assms(2)
proof cases
  case (cast w vt h)
  have "ballot_quorum sn b' g" if "g \<in> bl_decided b" for g
    using ballot_quorum_mono [OF assms(1) ballot_step_cast_mono [OF assms(2)]] assms(3) that
    by (simp add: ballot_ok_def)
  thus ?thesis using cast by (simp add: ballot_ok_def)
next
  case (decide h)
  have "ballot_quorum sn b' g" if "ballot_quorum sn b g" for g
    using ballot_quorum_mono [OF assms(1) ballot_step_cast_mono [OF assms(2)] that] .
  thus ?thesis using assms(3) decide by (auto simp: ballot_ok_def)
qed

lemma ballot_steps_ok:
  "ballot_steps sn b b' \<Longrightarrow> wf_snapshot sn \<Longrightarrow> ballot_ok sn b \<Longrightarrow> ballot_ok sn b'"
  by (induction rule: rtranclp_induct) (auto intro: ballot_step_ok)

section \<open>The machine as a ballot\<close>

text \<open>The votes seen in the current round, and the finalized hashes less those of \<open>old\<close>.\<close>

definition ballot_of :: "string set \<Rightarrow> round_sm \<Rightarrow> ballot" where
  "ballot_of old s =
     \<lparr>bl_cast = (\<lambda>(w, vt). sm_seen s (w, vt, rid_key (sm_round s))), bl_decided = sm_finalized_hashes s - old\<rparr>"

lemma ballot_of_frame [simp]:
  "ballot_of old (fst (fail_closed reason vid rid cv detail s)) = ballot_of old s"
  "ballot_of old (fst (maybe_advance_prevote sn h s)) = ballot_of old s"
  by (simp_all add: ballot_of_def)

lemma supporters_precommitted:
  assumes "votes_ok s"
  shows "supporters sn (sm_round s) VtPrecommit (norm_hash h) (sm_votes s) \<subseteq> precommitted sn (ballot_of old s) (norm_hash h)"
proof
  fix i assume "i \<in> supporters sn (sm_round s) VtPrecommit (norm_hash h) (sm_votes s)"
  then obtain v where i: "i \<in> set sn" "voting i" and v: "v \<in> set (sm_votes s)" "v_validator v = vi_id i"
      "v_type v = VtPrecommit" "v_round v = sm_round s" "py_lower (v_hash v) = norm_hash h"
    by (auto simp: supporters_def matches_def)
  with assms have "sm_seen s (vote_key v) = Some (v_hash v)" "norm_hash (v_hash v) = v_hash v"
    by (auto simp: votes_ok_def wf_vote_def)
  hence "sm_seen s (vi_id i, VtPrecommit, rid_key (sm_round s)) = Some (norm_hash h)"
    using v norm_hash_lower(1) [of "v_hash v"] by (simp add: vote_key_def)
  with i show "i \<in> precommitted sn (ballot_of old s) (norm_hash h)" by (simp add: precommitted_def ballot_of_def)
qed

lemma certificate_ballot:
  assumes "wf_snapshot sn" "votes_ok s" "qc_reached (build_certificate sn (sm_votes s) (sm_round s) VtPrecommit h)"
  shows "ballot_quorum sn (ballot_of old s) (norm_hash h)"
proof -
  have wf: "\<forall>v \<in> set (sm_votes s). wf_vote v" using assms(2) by (simp add: votes_ok_def)
  have "istake (supporters sn (sm_round s) VtPrecommit (norm_hash h) (sm_votes s))
      \<le> istake (precommitted sn (ballot_of old s) (norm_hash h))"
    by (rule istake_mono [OF assms(1) supporters_precommitted [OF assms(2)]]) (auto simp: precommitted_def)
  with assms(3) show ?thesis by (simp add: certificate_reached_iff [OF assms(1) wf] ballot_quorum_def)
qed

lemma precommit_cert_hashes:
  "sm_finalized_hashes (fst (precommit_cert sn h s)) =
     (if qc_reached (build_certificate sn (sm_votes s) (sm_round s) VtPrecommit h)
      then insert (py_lower h) (sm_finalized_hashes s) else sm_finalized_hashes s)"
  by (simp add: precommit_cert_def Let_def)

lemma precommit_ballot:
  assumes "wf_snapshot sn" "votes_ok s" "norm_hash h = h"
  shows "ballot_steps sn (ballot_of old s) (ballot_of old (fst (maybe_advance_precommit sn h s)))"
proof -
  let ?c = "build_certificate sn (sm_votes s) (sm_round s) VtPrecommit h"
  have low: "py_lower h = h" using assms(3) by (metis norm_hash_lower(1))
  have fin: "ballot_of old (fst (precommit_cert sn h s)) =
      (ballot_of old s)\<lparr>bl_decided := (if qc_reached ?c then insert h (sm_finalized_hashes s) else sm_finalized_hashes s) - old\<rparr>"
    by (simp add: ballot_of_def precommit_cert_hashes low)
  have cert: "ballot_steps sn (ballot_of old s) (ballot_of old (fst (precommit_cert sn h s)))"
  proof (cases "qc_reached ?c \<and> h \<notin> old")
    case True
    have "ballot_step sn (ballot_of old s) ((ballot_of old s)\<lparr>bl_decided := insert h (bl_decided (ballot_of old s))\<rparr>)"
      using certificate_ballot [OF assms(1,2), of h] True assms(3) by (intro ballot_step.decide) simp
    moreover have "insert h (sm_finalized_hashes s) - old = insert h (sm_finalized_hashes s - old)"
      using True by (simp add: insert_Diff_if)
    ultimately have "ballot_step sn (ballot_of old s) (ballot_of old (fst (precommit_cert sn h s)))"
      unfolding fin using True by (simp add: ballot_of_def)
    thus ?thesis by (rule r_into_rtranclp)
  next
    case False
    hence "(if qc_reached ?c then insert h (sm_finalized_hashes s) else sm_finalized_hashes s) - old = sm_finalized_hashes s - old"
      by auto
    thus ?thesis unfolding fin by (simp add: ballot_of_def)
  qed
  show ?thesis
  proof (cases "sm_qc s (rid_key (sm_round s), VtPrevote)")
    case (Some c)
    with cert show ?thesis
      by (cases "qc_reached c \<and> qc_hash c \<noteq> h") (simp_all only: maybe_advance_precommit_def option.case if_True if_False simp_thms
          ballot_of_frame rtranclp.rtrancl_refl)
  qed (simp add: maybe_advance_precommit_def cert)
qed

lemma ballot_of_record:
  assumes "v_round v = sm_round s" "sm_round s0 = sm_round s" "sm_seen s0 = sm_seen s"
  shows "ballot_of old (record_vote_in v s0) =
    \<lparr>bl_cast = (bl_cast (ballot_of old s))((v_validator v, v_type v) \<mapsto> v_hash v),
     bl_decided = sm_finalized_hashes s0 - old\<rparr>"
  using assms(1,2) by (simp add: ballot_of_def vote_key_def assms(3) fun_eq_iff)

section \<open>Properties\<close>

text \<open>The abstract specification decides at most one block: whatever ballot steps follow a ballot
  with nothing decided, two decided hashes are equal.\<close>

theorem ballot_agreement:
  assumes "wf_snapshot sn" "ballot_steps sn b b'" "bl_decided b = {}"
    and "h \<in> bl_decided b'" "h' \<in> bl_decided b'"
  shows "h = h'"
proof -
  have "ballot_ok sn b'" using ballot_steps_ok [OF assms(2,1)] assms(3) by (simp add: ballot_ok_def)
  with assms(4,5) show ?thesis by (intro ballot_quorum_unique [OF assms(1)]) (auto simp: ballot_ok_def)
qed

lemma ballot_agreement_witness:
  "let sn = adapter_snapshot demo_registry;
       b0 = \<lparr>bl_cast = Map.empty, bl_decided = {}\<rparr>;
       b1 = b0\<lparr>bl_cast := (bl_cast b0)((''A'', VtPrecommit) \<mapsto> ''h'')\<rparr>;
       b2 = b1\<lparr>bl_decided := insert ''h'' (bl_decided b1)\<rparr>
   in ballot_steps sn b0 b2 \<and> (\<forall>x \<in> bl_decided b2. x = ''h'')"
proof -
  let ?sn = "adapter_snapshot demo_registry" and ?b0 = "\<lparr>bl_cast = Map.empty, bl_decided = {}\<rparr>"
  let ?b1 = "?b0\<lparr>bl_cast := (bl_cast ?b0)((''A'', VtPrecommit) \<mapsto> ''h'')\<rparr>"
  let ?b2 = "?b1\<lparr>bl_decided := insert ''h'' (bl_decided ?b1)\<rparr>"
  have "ballot_step ?sn ?b0 ?b1" by (rule ballot_step.cast) (simp_all add: demo_active)
  moreover have "ballot_quorum ?sn ?b1 ''h''"
    unfolding ballot_quorum_def precommitted_def demo_istake by (simp add: demo_snapshot)
  hence "ballot_step ?sn ?b1 ?b2" by (rule ballot_step.decide)
  ultimately have steps: "ballot_steps ?sn ?b0 ?b2" by (meson r_into_rtranclp rtranclp.rtrancl_into_rtrancl)
  have "x = ''h''" if "x \<in> bl_decided ?b2" for x
    using ballot_agreement [OF demo_wf(1) steps _ that, of "''h''"] by simp
  with steps show ?thesis unfolding Let_def by blast
qed

text \<open>
  C25. refinement. Whatever vote the round machine handles, its effect on the votes cast and the
  blocks finalized is a sequence of steps of the ballot specification.
\<close>

theorem submit_vote_refines:
  assumes "sm_inv s" "wf_snapshot (snapshot_of s)" "wf_vote v"
  shows "ballot_steps (snapshot_of s) (ballot_of old s) (ballot_of old (fst (submit_vote v s)))"
proof (cases rule: submit_vote_cases [of v s])
  case (counted s0)
  let ?r = "record_vote_in v s0" and ?sn = "snapshot_of s"
  note g = phase_gate_frame [OF counted(1)]
  have "sm_inv ?r" using sm_inv_gate [OF assms(1) counted(1)] assms(3) counted g by (intro sm_inv_record) auto
  hence ok: "votes_ok ?r" by (rule sm_invD)
  have "ballot_of old ?r = (ballot_of old s)\<lparr>bl_cast := (bl_cast (ballot_of old s))((v_validator v, v_type v) \<mapsto> v_hash v)\<rparr>"
    unfolding ballot_of_record [OF counted(3) g(1,2)] using g(5) by (simp add: ballot_of_def)
  moreover have "bl_cast (ballot_of old s) (v_validator v, v_type v) = None"
    using counted(3,6) by (simp add: ballot_of_def vote_key_def)
  ultimately have cast: "ballot_step ?sn (ballot_of old s) (ballot_of old ?r)"
    using counted(5) ballot_step.cast by metis
  have "norm_hash (v_hash v) = v_hash v" using assms(3) by (simp add: wf_vote_def)
  from precommit_ballot [OF assms(2) ok this]
  have "ballot_steps ?sn (ballot_of old ?r) (ballot_of old (fst (submit_vote v s)))"
    unfolding counted(7) by (cases "v_type v") simp_all
  with cast show ?thesis by (rule converse_rtranclp_into_rtranclp)
qed simp_all

lemma submit_vote_refines_witness:
  "ballot_steps (adapter_snapshot demo_registry) (ballot_of {} demo_prevoted) (ballot_of {} demo_committed)"
proof -
  have "snapshot_of demo_prevoted = adapter_snapshot demo_registry" using demo_in_favour by (simp add: snapshot_of_def)
  with submit_vote_refines [OF demo_prevoted_inv, of "demo_vote VtPrecommit ''A'' ''h''" "{}"] demo_wf(1)
  show ?thesis by (simp add: demo_committed_def)
qed

section \<open>Limits of the code\<close>

text \<open>Re-opening the current round empties the vote log but keeps the record of votes seen, so a
  vote counted before is answered as a duplicate and never counted again: its stake is lost to the
  re-opened round.\<close>

theorem reopened_round_drops_votes:
  assumes "sm_inv s" "v \<in> set (sm_votes s)" "is_active (snapshot_of s) (v_validator v)"
  defines "s' \<equiv> fst (open_round (rid_height (sm_round s)) (Some (rid_epoch (sm_round s))) (rid_round (sm_round s)) None s)"
  shows "sm_votes s' = [] \<and>
    submit_vote v s' = (s', Inr (ro_accepted PhPropose (sm_round s) (v_hash v) ''duplicate_vote''))"
proof -
  have rid: "\<lparr>rid_epoch = rid_epoch (sm_round s), rid_height = rid_height (sm_round s), rid_round = rid_round (sm_round s)\<rparr> = sm_round s"
    by simp
  have s': "s' = begin_round (sm_round s) s" by (simp add: s'_def open_round_def Let_def rid)
  have v: "v_verified v" "v_round v = sm_round s" "sm_seen s (vote_key v) = Some (v_hash v)"
    using assms(1,2) by (auto simp: sm_inv_def votes_ok_def)
  have "sm_seen s' (vote_key v) = Some (v_hash v)" using v by (simp add: s' begin_round_def vote_key_def)
  thus ?thesis using v assms(3) by (simp add: s' submit_vote_def snapshot_of_def Let_def)
qed

lemma reopened_round_witness:
  "submit_vote (demo_vote VtPrevote ''A'' ''h'') (fst (open_round 0 (Some 0) 0 None demo_prevoted)) =
     (fst (open_round 0 (Some 0) 0 None demo_prevoted), Inr (ro_accepted PhPropose demo_round ''h'' ''duplicate_vote''))"
proof -
  have "demo_vote VtPrevote ''A'' ''h'' \<in> set (sm_votes demo_prevoted)" "sm_round demo_prevoted = demo_round"
    "snapshot_of demo_prevoted = adapter_snapshot demo_registry"
    using demo_in_favour by (simp_all add: in_favour_def demo_vote_def snapshot_of_def)
  with reopened_round_drops_votes [OF demo_prevoted_inv, of "demo_vote VtPrevote ''A'' ''h''"] demo_active demo_strip
  show ?thesis by (simp add: demo_round_def)
qed

text \<open>A prevote that arrives after the round was finalized and completes or repeats a prevote
  quorum takes the phase from FINALIZE back to PRECOMMIT, although the block stays finalized.\<close>

theorem late_prevote_leaves_finalize:
  assumes "sm_inv s" "sm_phase s = PhFinalize" "v_type v = VtPrevote" "v_verified v" "v_round v = sm_round s"
    and "wf_vote v" "is_active (snapshot_of s) (v_validator v)" "sm_seen s (vote_key v) = None"
    and "qc_reached (build_certificate (snapshot_of s) (sm_votes s @ [v]) (sm_round s) VtPrevote (v_hash v))"
  shows "sm_phase (fst (submit_vote v s)) = PhPrecommit
    \<and> sm_finalized_hashes (fst (submit_vote v s)) = sm_finalized_hashes s"
  using assms by (simp add: submit_vote_def phase_gate_def maybe_advance_prevote_def Let_def)

lemma late_prevote_witness:
  "\<exists>s. sm_phase s = PhFinalize \<and> sm_phase (fst (submit_vote (demo_vote VtPrevote ''A'' ''h'') s)) = PhPrecommit"
proof -
  have m: "in_favour ''h'' [] [] demo_machine" "can_prevote demo_machine" "sm_round demo_machine = demo_round"
    "snapshot_of demo_machine = adapter_snapshot demo_registry"
    by (simp_all add: in_favour_def can_prevote_def snapshot_of_def demo_machine_def init_sm_def demo_round_def)
  define s1 where "s1 = fst (submit_vote (honest_vote demo_round ''h'' VtPrevote ''B'') demo_machine)"
  note p = honest_prevote [OF m(1,2) demo_strip(3,2), simplified, unfolded m(3,4), OF demo_active(2), folded s1_def]
  have s1: "sm_round s1 = demo_round" "snapshot_of s1 = adapter_snapshot demo_registry"
    using p m by (simp_all add: snapshot_of_def)
  define s2 where "s2 = fst (submit_vote (honest_vote demo_round ''h'' VtPrecommit ''A'') s1)"
  note c = honest_precommit [OF p(1,3) demo_strip(3,1), simplified, unfolded s1, OF demo_active(1), folded s2_def]
  have s2: "sm_round s2 = demo_round" "snapshot_of s2 = adapter_snapshot demo_registry"
    "sm_votes s2 = [honest_vote demo_round ''h'' VtPrevote ''B'', honest_vote demo_round ''h'' VtPrecommit ''A'']"
    using c s1 by (simp_all add: snapshot_of_def in_favour_def)
  have inv: "sm_inv s2"
    unfolding s2_def s1_def by (intro sm_inv_vote demo_inv) simp_all
  have low: "py_lower ''h'' = ''h''" using demo_strip norm_hash_lower(1) by metis
  have "qc_reached (build_certificate (adapter_snapshot demo_registry) (sm_votes s2) demo_round VtPrecommit ''h'')"
    unfolding s2(3) by (subst demo_certificate) (auto simp: matches_def demo_strip low)
  with c(5) have fin: "sm_phase s2 = PhFinalize" by simp
  have "sm_seen s2 (vote_key (demo_vote VtPrevote ''A'' ''h'')) = None"
    using in_favour_unseen [OF c(1) demo_strip(1)] s2(1) by (simp add: demo_vote_def)
  moreover have "qc_reached (build_certificate (adapter_snapshot demo_registry)
      (sm_votes s2 @ [demo_vote VtPrevote ''A'' ''h'']) demo_round VtPrevote ''h'')"
    unfolding s2(3) by (subst demo_certificate) (auto simp: matches_def demo_strip low)
  ultimately have "sm_phase (fst (submit_vote (demo_vote VtPrevote ''A'' ''h'') s2)) = PhPrecommit"
    using late_prevote_leaves_finalize [OF inv fin, of "demo_vote VtPrevote ''A'' ''h''"] s2 demo_active demo_strip by simp
  with fin show ?thesis by blast
qed

text \<open>Slashing only reaches the validator registry. When the equivocating validator comes from
  the consensus engine's table and is not in the registry, the double vote locks the round but leaves
  the validator set as it was: the equivocator keeps its stake and its vote in the next round.\<close>

theorem unregistered_equivocator_keeps_stake:
  assumes "sm_inv s" "wf_vote v" "sm_phase s \<noteq> PhLocked" "v_verified v" "v_round v = sm_round s"
    and "is_active (snapshot_of s) (v_validator v)" "sm_seen s (vote_key v) = Some h" "h \<noteq> v_hash v"
    and "\<not> known (sm_registry s) (v_validator v)"
  shows "sm_phase (fst (submit_vote v s)) = PhLocked \<and> snapshot_of (fst (submit_vote v s)) = snapshot_of s"
proof -
  have strip: "py_strip (v_validator v) = v_validator v" using assms(2) by (simp add: wf_vote_def)
  have "adapter_snapshot (mark_slashed (v_validator v) (sm_registry s)) = adapter_snapshot (sm_registry s)"
    using adapter_snapshot_mark [OF sm_inv_qc(2) [OF assms(1)]] strip assms(9) by simp
  thus ?thesis using assms by (simp add: submit_vote_def Let_def snapshot_of_def)
qed

definition demo_engine :: adapter_registry where
  "demo_engine = \<lparr>ar_registry = None, ar_engine = [(''B'', \<lparr>ev_address = ''B'', ev_stake = 5, ev_is_active = True\<rparr>)],
     ar_db_fails = False, ar_db_slashed = []\<rparr>"

lemma unregistered_equivocator_witness:
  "is_active (snapshot_of (fst (submit_vote (demo_vote VtPrevote ''B'' ''k'') (first_prevote demo_engine ''B'')))) ''B''"
proof -
  have ok: "adapter_ok demo_engine" by (simp add: adapter_ok_def demo_engine_def demo_strip)
  have act: "is_active (adapter_snapshot demo_engine) ''B''"
    by (simp add: adapter_snapshot_def demo_engine_def registry_objects_def engine_vid_def engine_info_def
        mk_validator_info_def is_active_def snap_get_def demo_strip)
  note f = first_prevote_facts [OF ok act demo_strip(2)]
  have "\<not> known demo_engine ''B''" by (simp add: known_def demo_engine_def)
  with unregistered_equivocator_keeps_stake [OF f(1) _ f(2) _ _ _ f(5)] f act demo_strip
  show ?thesis by (simp add: snapshot_of_def)
qed

text \<open>The live flag of \<open>finality_status\<close> is honest in every state a machine reaches: it needs the
  arming switch and a stored certificate whose recorded stake passes the quorum test.\<close>

theorem quorum_live_has_certificate:
  assumes "adapter_ok reg" "list_all wf_op ops"
    and "fv_quorum_live (finality_status (sm_run (init_sm reg p n) ops))"
  shows "sm_live_armed (sm_run (init_sm reg p n) ops) \<and>
    (\<exists>rid vt c. quorum_certificate_of (sm_run (init_sm reg p n) ops) rid vt = Some c
      \<and> qc_round c = rid \<and> qc_type c = vt \<and> quorum_reached (qc_voted c) (qc_total c))"
proof -
  let ?s = "sm_run (init_sm reg p n) ops"
  have ok: "qc_ok ?s" using sm_inv_run [OF sm_inv_init [OF assms(1)] assms(2)] by (rule sm_inv_qc)
  from assms(3) obtain c where armed: "sm_live_armed ?s" and c: "c \<in> ran (sm_qc ?s)" "qc_reached c"
    by (auto simp: finality_status_def Let_def qc_live_def)
  then obtain k vt where k: "sm_qc ?s (k, vt) = Some c" by (auto simp: ran_def)
  with ok have "rid_key (qc_round c) = k \<and> qc_type c = vt \<and> cert_ok c" unfolding qc_ok_def by blast
  with k armed c(2) show ?thesis unfolding quorum_certificate_of_def cert_ok_def by blast
qed

lemma quorum_live_witness:
  "sm_live_armed (sm_run (init_sm demo_registry [] 32) [SubmitVote (demo_vote VtPrevote ''A'' ''h''), ArmLive True])"
proof -
  let ?s = "sm_run (init_sm demo_registry [] 32) [SubmitVote (demo_vote VtPrevote ''A'' ''h''), ArmLive True]"
  let ?c = "build_certificate (adapter_snapshot demo_registry) [demo_vote VtPrevote ''A'' ''h''] demo_round VtPrevote ''h''"
  have low: "py_lower ''h'' = ''h''" using demo_strip norm_hash_lower(1) by metis
  have "qc_reached ?c" by (subst demo_certificate) (auto simp: matches_def demo_strip low)
  moreover have "sm_qc (fst (submit_vote (demo_vote VtPrevote ''A'' ''h'') (init_sm demo_registry [] 32)))
      (rid_key demo_round, VtPrevote) = Some ?c"
    using demo_active demo_strip
    by (simp add: submit_vote_def Let_def phase_gate_def snapshot_of_def init_sm_def) (simp add: demo_round_def)
  ultimately have "qc_live ?s"
    unfolding qc_live_def by (simp add: sm_run_def arm_quorum_live_def) (metis ranI)
  hence "fv_quorum_live (finality_status ?s)"
    by (simp add: finality_status_def Let_def) (simp add: sm_run_def arm_quorum_live_def)
  with quorum_live_has_certificate [OF demo_wf(2), of "[SubmitVote (demo_vote VtPrevote ''A'' ''h''), ArmLive True]" "[]" 32]
  show ?thesis by simp
qed

end
