(* ===== verification/Consistency.thy ===== *)
theory Consistency
  imports Prelude
begin

text \<open>
  \<open>sync/consistency\<close>: the machine that decides whether the node trusts its chain state, its store
  and its service. A snapshot is what the store holds; a decision is what callers read (mining,
  readiness, catch-up). \<open>wire_roots\<close> is a tuple of arbitrary JSON values of which only dictionaries
  count, hence the constructor \<open>Junk\<close>. Times are arguments (\<open>time.time()\<close> in the code).
\<close>

section \<open>Types\<close>

datatype consistency_state = Unknown | Probing | BehindOpen | Consistent | LockedDown

datatype consistency_outcome = AllowTrusted | AllowCatchUp | Deny

definition state_value :: "consistency_state \<Rightarrow> string" where
  "state_value st = (case st of Unknown \<Rightarrow> ''unknown'' | Probing \<Rightarrow> ''probing'' | BehindOpen \<Rightarrow> ''behind_open''
     | Consistent \<Rightarrow> ''consistent'' | LockedDown \<Rightarrow> ''locked_down'')"

record peer_sync_view =
  pv_peer_id :: string
  pv_height :: int
  pv_head_hash :: string
  pv_dial_key :: string

text \<open>An entry of \<open>wire_roots\<close>: \<open>state_root\<close>, \<open>height\<close> and \<open>peer_id\<close> of a dictionary, or junk.\<close>

datatype wire_entry = Junk | WireRoot (we_root: string) (we_height: int) (we_peer: string)

record wire_probe =
  wp_probed :: bool
  wp_ok :: "bool option"
  wp_wire_roots :: "wire_entry list"
  wp_mismatch_peers :: "string list"
  wp_detail :: string

definition never_probed :: "string \<Rightarrow> wire_probe" where
  "never_probed detail = \<lparr>wp_probed = False, wp_ok = None, wp_wire_roots = [], wp_mismatch_peers = [], wp_detail = detail\<rparr>"

definition probe_failed :: "string \<Rightarrow> wire_probe" where
  "probe_failed detail = \<lparr>wp_probed = True, wp_ok = Some False, wp_wire_roots = [], wp_mismatch_peers = [], wp_detail = detail\<rparr>"

definition probe_succeeded :: "wire_entry list \<Rightarrow> string list \<Rightarrow> string \<Rightarrow> wire_probe" where
  "probe_succeeded roots mismatch detail =
     \<lparr>wp_probed = True, wp_ok = Some True, wp_wire_roots = roots, wp_mismatch_peers = mismatch, wp_detail = detail\<rparr>"

record consistency_snapshot =
  cs_state :: consistency_state
  cs_consistent :: bool
  cs_probe :: wire_probe
  cs_reason :: string
  cs_updated_at :: pyfloat
  cs_lockdown_total :: int

record consistency_decision =
  cd_outcome :: consistency_outcome
  cd_state :: consistency_state
  cd_reason :: string
  cd_may_mine :: bool
  cd_may_serve :: bool
  cd_may_catch_up :: bool
  cd_consistent :: bool

definition trusted :: "consistency_decision \<Rightarrow> bool" where
  "trusted d \<longleftrightarrow> cd_outcome d = AllowTrusted \<and> cd_consistent d"

section \<open>ConsistencyMachine\<close>

definition boot_snapshot :: "pyfloat \<Rightarrow> consistency_snapshot" where
  "boot_snapshot now =
     \<lparr>cs_state = Unknown, cs_consistent = False, cs_probe = never_probed ''boot'', cs_reason = ''boot'',
      cs_updated_at = now, cs_lockdown_total = 0\<rparr>"

definition decide_from_snapshot :: "consistency_snapshot \<Rightarrow> consistency_decision" where
  "decide_from_snapshot snap =
     (let st = cs_state snap;
          reason = (\<lambda>d. if cs_reason snap = '''' then d else cs_reason snap)
      in if st = Consistent \<and> cs_consistent snap then
           \<lparr>cd_outcome = AllowTrusted, cd_state = st, cd_reason = reason ''ok'', cd_may_mine = True,
            cd_may_serve = True, cd_may_catch_up = False, cd_consistent = True\<rparr>
         else if st = BehindOpen then
           \<lparr>cd_outcome = AllowCatchUp, cd_state = st, cd_reason = reason ''behind_open'', cd_may_mine = False,
            cd_may_serve = False, cd_may_catch_up = True, cd_consistent = False\<rparr>
         else if st = Probing then
           \<lparr>cd_outcome = AllowCatchUp, cd_state = st, cd_reason = reason ''probing'', cd_may_mine = False,
            cd_may_serve = False, cd_may_catch_up = True, cd_consistent = False\<rparr>
         else
           \<lparr>cd_outcome = Deny, cd_state = st, cd_reason = reason (state_value st), cd_may_mine = False,
            cd_may_serve = False, cd_may_catch_up = False, cd_consistent = False\<rparr>)"

text \<open>The loop over \<open>wire_roots\<close>: mismatching peers found so far and whether a root matched.\<close>

definition scan_entry :: "int \<Rightarrow> string \<Rightarrow> wire_entry \<Rightarrow> string list \<times> bool \<Rightarrow> string list \<times> bool" where
  "scan_entry local_height local_root entry acc =
     (case (acc, entry) of
        ((mism, same), Junk) \<Rightarrow> (mism, same)
      | ((mism, same), WireRoot peer_root peer_h peer) \<Rightarrow>
          if peer_h < local_height then (mism, same)
          else if peer_h = local_height \<and> peer_root \<noteq> '''' then
            (if peer_root \<noteq> local_root then
               (let pid = take 8 (if peer = '''' then ''peer'' else peer)
                in (if pid \<in> set mism then mism else mism @ [pid], same))
             else (mism, True))
          else (mism, same))"

definition scan_roots :: "int \<Rightarrow> string \<Rightarrow> wire_entry list \<Rightarrow> string list \<Rightarrow> string list \<times> bool" where
  "scan_roots local_height local_root entries mism =
     fold (scan_entry local_height local_root) entries (mism, False)"

definition next_snapshot ::
  "consistency_snapshot \<Rightarrow> peer_sync_view list \<Rightarrow> int \<Rightarrow> string \<Rightarrow> wire_probe \<Rightarrow> pyfloat \<Rightarrow> consistency_snapshot" where
  "next_snapshot current peers local_height local_root probe ts =
     (let total = cs_lockdown_total current in
      if peers = [] then
        \<lparr>cs_state = Unknown, cs_consistent = False, cs_probe = never_probed ''no_peers'',
         cs_reason = ''no_peers'', cs_updated_at = ts, cs_lockdown_total = total\<rparr>
      else if \<not> wp_probed probe \<or> wp_ok probe \<noteq> Some True then
        \<lparr>cs_state = LockedDown, cs_consistent = False, cs_probe = probe,
         cs_reason = (if wp_detail probe \<noteq> '''' then wp_detail probe
                      else if \<not> wp_probed probe then ''probe_never'' else ''probe_failed''),
         cs_updated_at = ts, cs_lockdown_total = total + 1\<rparr>
      else (let (mism, same) = scan_roots local_height local_root (wp_wire_roots probe) (wp_mismatch_peers probe) in
        if mism \<noteq> [] then
          \<lparr>cs_state = LockedDown, cs_consistent = False,
           cs_probe = probe_succeeded (wp_wire_roots probe) mism (wp_detail probe),
           cs_reason = ''state_root_mismatch'', cs_updated_at = ts, cs_lockdown_total = total + 1\<rparr>
        else if \<not> same then
          (if \<exists>p \<in> set peers. local_height < pv_height p then
             \<lparr>cs_state = BehindOpen, cs_consistent = False, cs_probe = probe,
              cs_reason = ''incomplete_ahead'', cs_updated_at = ts, cs_lockdown_total = total\<rparr>
           else
             \<lparr>cs_state = LockedDown, cs_consistent = False, cs_probe = probe,
              cs_reason = ''no_same_height_match'', cs_updated_at = ts, cs_lockdown_total = total + 1\<rparr>)
        else
          \<lparr>cs_state = Consistent, cs_consistent = True, cs_probe = probe,
           cs_reason = ''ok'', cs_updated_at = ts, cs_lockdown_total = total\<rparr>))"

definition evaluate_probe ::
  "consistency_snapshot \<Rightarrow> peer_sync_view list \<Rightarrow> int \<Rightarrow> string \<Rightarrow> wire_probe \<Rightarrow> pyfloat \<Rightarrow> consistency_snapshot \<times> consistency_decision" where
  "evaluate_probe current peers local_height local_root probe ts =
     (let snap = next_snapshot current peers local_height local_root probe ts
      in (snap, decide_from_snapshot snap))"

definition lockdown :: "consistency_snapshot \<Rightarrow> string \<Rightarrow> pyfloat \<Rightarrow> wire_probe option \<Rightarrow> consistency_snapshot" where
  "lockdown current reason ts probe =
     \<lparr>cs_state = LockedDown, cs_consistent = False,
      cs_probe = (case probe of Some p \<Rightarrow> p | None \<Rightarrow> cs_probe current),
      cs_reason = (if reason = '''' then ''lockdown'' else reason),
      cs_updated_at = ts, cs_lockdown_total = cs_lockdown_total current + 1\<rparr>"

definition enter_probing :: "consistency_snapshot \<Rightarrow> pyfloat \<Rightarrow> consistency_snapshot" where
  "enter_probing current ts =
     \<lparr>cs_state = Probing, cs_consistent = cs_consistent current, cs_probe = cs_probe current,
      cs_reason = ''probing'', cs_updated_at = ts, cs_lockdown_total = cs_lockdown_total current\<rparr>"

section \<open>Store and service\<close>

text \<open>
  \<open>InMemoryConsistencyStore\<close>: the snapshot, and the snapshots handed to the \<open>on_change\<close> mirror when
  one is set (newest first); an exception of the mirror is swallowed. The lock makes each method one step.
\<close>

record consistency_store =
  sto_snap :: consistency_snapshot
  sto_mirrored :: bool
  sto_changes :: "consistency_snapshot list"

definition new_store :: "consistency_snapshot option \<Rightarrow> bool \<Rightarrow> pyfloat \<Rightarrow> consistency_store" where
  "new_store initial mirrored now =
     \<lparr>sto_snap = (case initial of Some s \<Rightarrow> s | None \<Rightarrow> boot_snapshot now), sto_mirrored = mirrored, sto_changes = []\<rparr>"

definition set_snapshot :: "consistency_snapshot \<Rightarrow> consistency_store \<Rightarrow> consistency_store" where
  "set_snapshot snap s =
     s\<lparr>sto_snap := snap, sto_changes := (if sto_mirrored s then snap # sto_changes s else sto_changes s)\<rparr>"

definition service_decision :: "consistency_store \<Rightarrow> consistency_decision" where
  "service_decision s = decide_from_snapshot (sto_snap s)"

definition service_lockdown :: "string \<Rightarrow> pyfloat \<Rightarrow> consistency_store \<Rightarrow> consistency_store \<times> consistency_decision" where
  "service_lockdown reason now s =
     (let snap = lockdown (sto_snap s) reason now None in (set_snapshot snap s, decide_from_snapshot snap))"

definition service_probing :: "pyfloat \<Rightarrow> consistency_store \<Rightarrow> consistency_store \<times> consistency_decision" where
  "service_probing now s =
     (let snap = enter_probing (sto_snap s) now in (set_snapshot snap s, decide_from_snapshot snap))"

definition apply_probe_evaluation ::
  "peer_sync_view list \<Rightarrow> int \<Rightarrow> string \<Rightarrow> wire_probe \<Rightarrow> pyfloat \<Rightarrow> consistency_store \<Rightarrow> consistency_store \<times> consistency_decision" where
  "apply_probe_evaluation peers local_height local_root probe now s =
     (let (snap, d) = evaluate_probe (sto_snap s) peers local_height local_root probe now in (set_snapshot snap s, d))"

record service_status =
  ss_state :: string
  ss_consistent :: bool
  ss_reason :: string
  ss_lockdown_total :: int
  ss_probed :: bool
  ss_ok :: "bool option"
  ss_may_mine :: bool
  ss_may_catch_up :: bool
  ss_may_serve :: bool

definition service_status_of :: "consistency_store \<Rightarrow> service_status" where
  "service_status_of s =
     (let snap = sto_snap s; d = decide_from_snapshot snap; probe = cs_probe snap
      in \<lparr>ss_state = state_value (cs_state snap), ss_consistent = cs_consistent snap,
          ss_reason = cs_reason snap, ss_lockdown_total = cs_lockdown_total snap,
          ss_probed = wp_probed probe, ss_ok = wp_ok probe, ss_may_mine = cd_may_mine d,
          ss_may_catch_up = cd_may_catch_up d, ss_may_serve = cd_may_serve d\<rparr>)"

datatype service_op =
    Lockdown string pyfloat
  | EnterProbing pyfloat
  | ApplyProbe "peer_sync_view list" int string wire_probe pyfloat

fun service_step :: "consistency_store \<Rightarrow> service_op \<Rightarrow> consistency_store" where
  "service_step s (Lockdown r t) = fst (service_lockdown r t s)"
| "service_step s (EnterProbing t) = fst (service_probing t s)"
| "service_step s (ApplyProbe ps h r p t) = fst (apply_probe_evaluation ps h r p t s)"

definition service_run :: "consistency_store \<Rightarrow> service_op list \<Rightarrow> consistency_store" where
  "service_run s ops = foldl service_step s ops"

section \<open>The scan\<close>

definition contradicts :: "int \<Rightarrow> string \<Rightarrow> wire_entry \<Rightarrow> bool" where
  "contradicts h rt e \<longleftrightarrow> e \<noteq> Junk \<and> we_height e = h \<and> we_root e \<noteq> '''' \<and> we_root e \<noteq> rt"

definition confirms :: "int \<Rightarrow> string \<Rightarrow> wire_entry \<Rightarrow> bool" where
  "confirms h rt e \<longleftrightarrow> e \<noteq> Junk \<and> we_height e = h \<and> we_root e \<noteq> '''' \<and> we_root e = rt"

lemma scan_entry_cases:
  "scan_entry h rt e (m, same) =
     (if contradicts h rt e
      then (let pid = take 8 (if we_peer e = '''' then ''peer'' else we_peer e) in if pid \<in> set m then m else m @ [pid], same)
      else (m, same \<or> confirms h rt e))"
  by (cases e) (auto simp: scan_entry_def contradicts_def confirms_def Let_def)

lemma scan_fold:
  "fst (fold (scan_entry h rt) es (m, same)) = [] \<longleftrightarrow> m = [] \<and> \<not> (\<exists>e \<in> set es. contradicts h rt e)"
  "snd (fold (scan_entry h rt) es (m, same)) \<longleftrightarrow> same \<or> (\<exists>e \<in> set es. confirms h rt e)"
proof (induction es arbitrary: m same)
  case (Cons e es)
  {
    case 1
    show ?case using Cons.IH(1) by (auto simp: scan_entry_cases Let_def)
  next
    case 2
    show ?case using Cons.IH(2) by (auto simp: scan_entry_cases contradicts_def confirms_def)
  }
qed simp_all

lemma scan_roots_clean:
  "fst (scan_roots h rt es m) = [] \<longleftrightarrow> m = [] \<and> (\<forall>e \<in> set es. \<not> contradicts h rt e)"
  "snd (scan_roots h rt es m) \<longleftrightarrow> (\<exists>e \<in> set es. confirms h rt e)"
  by (auto simp: scan_roots_def scan_fold)

section \<open>Properties\<close>

definition conclusive :: "wire_probe \<Rightarrow> bool" where
  "conclusive p \<longleftrightarrow> wp_probed p \<and> wp_ok p = Some True"

text \<open>What a probe must show for the node to be trusted.\<close>

definition evidence :: "peer_sync_view list \<Rightarrow> int \<Rightarrow> string \<Rightarrow> wire_probe \<Rightarrow> bool" where
  "evidence peers h rt p \<longleftrightarrow> peers \<noteq> [] \<and> conclusive p \<and> wp_mismatch_peers p = []
     \<and> (\<forall>e \<in> set (wp_wire_roots p). \<not> contradicts h rt e) \<and> (\<exists>e \<in> set (wp_wire_roots p). confirms h rt e)"

lemma scan_pair:
  obtains m same where "scan_roots h rt es m0 = (m, same)"
    "m = [] \<longleftrightarrow> m0 = [] \<and> (\<forall>e \<in> set es. \<not> contradicts h rt e)" "same \<longleftrightarrow> (\<exists>e \<in> set es. confirms h rt e)"
  using scan_roots_clean [of h rt es m0] by (metis prod.collapse)

lemma next_state:
  "cs_state (next_snapshot cur peers h rt p t) =
     (if peers = [] then Unknown
      else if \<not> conclusive p \<or> wp_mismatch_peers p \<noteq> [] \<or> (\<exists>e \<in> set (wp_wire_roots p). contradicts h rt e) then LockedDown
      else if \<exists>e \<in> set (wp_wire_roots p). confirms h rt e then Consistent
      else if \<exists>v \<in> set peers. h < pv_height v then BehindOpen else LockedDown)
   \<and> cs_consistent (next_snapshot cur peers h rt p t) = (cs_state (next_snapshot cur peers h rt p t) = Consistent)
   \<and> cs_lockdown_total (next_snapshot cur peers h rt p t) =
       cs_lockdown_total cur + (if cs_state (next_snapshot cur peers h rt p t) = LockedDown then 1 else 0)"
proof (cases "peers = [] \<or> \<not> conclusive p")
  case True
  thus ?thesis by (auto simp: next_snapshot_def conclusive_def Let_def)
next
  case False
  obtain m same where s: "scan_roots h rt (wp_wire_roots p) (wp_mismatch_peers p) = (m, same)"
    and m: "m = [] \<longleftrightarrow> wp_mismatch_peers p = [] \<and> (\<forall>e \<in> set (wp_wire_roots p). \<not> contradicts h rt e)"
    and same: "same \<longleftrightarrow> (\<exists>e \<in> set (wp_wire_roots p). confirms h rt e)" by (rule scan_pair)
  have "next_snapshot cur peers h rt p t =
     (if m \<noteq> [] then \<lparr>cs_state = LockedDown, cs_consistent = False,
           cs_probe = probe_succeeded (wp_wire_roots p) m (wp_detail p),
           cs_reason = ''state_root_mismatch'', cs_updated_at = t, cs_lockdown_total = cs_lockdown_total cur + 1\<rparr>
      else if \<not> same then
          (if \<exists>p \<in> set peers. h < pv_height p then
             \<lparr>cs_state = BehindOpen, cs_consistent = False, cs_probe = p,
              cs_reason = ''incomplete_ahead'', cs_updated_at = t, cs_lockdown_total = cs_lockdown_total cur\<rparr>
           else
             \<lparr>cs_state = LockedDown, cs_consistent = False, cs_probe = p,
              cs_reason = ''no_same_height_match'', cs_updated_at = t, cs_lockdown_total = cs_lockdown_total cur + 1\<rparr>)
      else
          \<lparr>cs_state = Consistent, cs_consistent = True, cs_probe = p,
           cs_reason = ''ok'', cs_updated_at = t, cs_lockdown_total = cs_lockdown_total cur\<rparr>)"
    using False by (simp add: next_snapshot_def conclusive_def Let_def s)
  with False m same show ?thesis by auto
qed

lemma decide_mine: "cd_may_mine (decide_from_snapshot snap) \<longleftrightarrow> cs_state snap = Consistent \<and> cs_consistent snap"
  by (simp add: decide_from_snapshot_def Let_def)

lemma next_consistent: "cs_state (next_snapshot cur peers h rt p t) = Consistent \<longleftrightarrow> evidence peers h rt p"
  unfolding next_state [THEN conjunct1] by (auto simp: evidence_def)

text \<open>Trust survives probing: it is set in CONSISTENT and kept in PROBING only.\<close>

definition store_ok :: "consistency_store \<Rightarrow> bool" where
  "store_ok s \<longleftrightarrow> (cs_consistent (sto_snap s) \<longrightarrow> cs_state (sto_snap s) \<in> {Consistent, Probing})
     \<and> (cs_state (sto_snap s) = Consistent \<longrightarrow> cs_consistent (sto_snap s))"

lemma apply_probe_snap [simp]:
  "sto_snap (fst (apply_probe_evaluation ps h r p t s)) = next_snapshot (sto_snap s) ps h r p t"
  "snd (apply_probe_evaluation ps h r p t s) = decide_from_snapshot (next_snapshot (sto_snap s) ps h r p t)"
  by (simp_all add: apply_probe_evaluation_def evaluate_probe_def set_snapshot_def Let_def)

lemma service_snaps [simp]:
  "sto_snap (fst (service_lockdown r t s)) = lockdown (sto_snap s) r t None"
  "sto_snap (fst (service_probing t s)) = enter_probing (sto_snap s) t"
  by (simp_all add: service_lockdown_def service_probing_def set_snapshot_def Let_def)

lemma store_ok_step [inv_intros]: "store_ok s \<Longrightarrow> store_ok (service_step s op)"
  using next_state
  by (cases op) (auto simp: store_ok_def lockdown_def enter_probing_def)

lemma service_run_snoc: "service_run s (ops @ [op]) = service_step (service_run s ops) op"
  by (simp add: service_run_def)

lemma store_ok_run: "store_ok s \<Longrightarrow> store_ok (service_run s ops)"
  by (induction ops rule: rev_induct) (auto simp: service_run_snoc intro: inv_intros, simp add: service_run_def)

lemma store_ok_new: "store_ok (new_store None m t)"
  by (simp add: store_ok_def new_store_def boot_snapshot_def)

text \<open>The probe evaluation on every branch. Without peers the node is UNKNOWN; an inconclusive
  probe, a reported mismatch or a non-empty root of the local height that differs locks it down; a
  matching root makes it CONSISTENT; otherwise a higher peer makes it BEHIND_OPEN and no peer ahead
  locks it down. The lockdown counter counts exactly the lockdowns, and only CONSISTENT may mine.\<close>

theorem evaluate_probe_spec:
  "let (snap, d) = evaluate_probe cur peers h rt p t in
     cs_state snap =
       (if peers = [] then Unknown
        else if \<not> conclusive p \<or> wp_mismatch_peers p \<noteq> [] \<or> (\<exists>e \<in> set (wp_wire_roots p). contradicts h rt e) then LockedDown
        else if \<exists>e \<in> set (wp_wire_roots p). confirms h rt e then Consistent
        else if \<exists>v \<in> set peers. h < pv_height v then BehindOpen else LockedDown)
     \<and> cs_lockdown_total snap = cs_lockdown_total cur + (if cs_state snap = LockedDown then 1 else 0)
     \<and> cd_may_mine d = (cs_state snap = Consistent) \<and> cd_may_serve d = (cs_state snap = Consistent)
     \<and> cd_may_catch_up d = (cs_state snap = BehindOpen) \<and> trusted d = (cs_state snap = Consistent)"
proof -
  let ?n = "next_snapshot cur peers h rt p t"
  have "cs_state ?n \<noteq> Probing" using next_state [of cur peers h rt p t] by (auto split: if_splits)
  moreover have "cs_consistent ?n = (cs_state ?n = Consistent)" using next_state [of cur peers h rt p t] by blast
  ultimately have "cd_may_mine (decide_from_snapshot ?n) = (cs_state ?n = Consistent)
      \<and> cd_may_serve (decide_from_snapshot ?n) = (cs_state ?n = Consistent)
      \<and> cd_may_catch_up (decide_from_snapshot ?n) = (cs_state ?n = BehindOpen)
      \<and> trusted (decide_from_snapshot ?n) = (cs_state ?n = Consistent)"
    by (cases "cs_state ?n") (simp_all add: decide_from_snapshot_def Let_def trusted_def)
  with next_state [of cur peers h rt p t] show ?thesis unfolding evaluate_probe_def Let_def by simp
qed

lemma evaluate_probe_witness:
  "cs_state (fst (evaluate_probe (boot_snapshot 0) [\<lparr>pv_peer_id = ''p'', pv_height = 7, pv_head_hash = [], pv_dial_key = []\<rparr>]
     5 ''r'' (probe_succeeded [WireRoot ''x'' 6 ''p''] [] []) 1)) = BehindOpen"
  using evaluate_probe_spec [of "boot_snapshot 0" "[\<lparr>pv_peer_id = ''p'', pv_height = 7, pv_head_hash = [], pv_dial_key = []\<rparr>]"
     5 "''r''" "probe_succeeded [WireRoot ''x'' 6 ''p''] [] []" 1]
  by (simp add: split_beta Let_def probe_succeeded_def conclusive_def contradicts_def confirms_def)

text \<open>
  C33. mining is allowed only on fresh evidence. In every state a service reaches from its boot
  store, permission to mine means that the last operation was a probe evaluation that saw a matching
  root of the local height and no contradicting one.
\<close>

theorem mining_needs_evidence:
  assumes "cd_may_mine (service_decision (service_run (new_store None m t0) ops))"
  shows "\<exists>ops' ps h rt p t. ops = ops' @ [ApplyProbe ps h rt p t] \<and> evidence ps h rt p"
proof (cases ops rule: rev_cases)
  case Nil
  with assms show ?thesis by (simp add: service_run_def service_decision_def decide_mine new_store_def boot_snapshot_def)
next
  case (snoc ops' op)
  with assms show ?thesis
    by (cases op) (auto simp: service_run_snoc service_decision_def decide_mine lockdown_def enter_probing_def next_consistent)
qed

definition demo_probe :: service_op where
  "demo_probe = ApplyProbe [\<lparr>pv_peer_id = ''p'', pv_height = 5, pv_head_hash = [], pv_dial_key = []\<rparr>] 5 ''r''
     (probe_succeeded [WireRoot ''r'' 5 ''p''] [] []) 1"

lemma demo_probe_state:
  "cs_state (sto_snap (service_step s demo_probe)) = Consistent" "cs_consistent (sto_snap (service_step s demo_probe))"
  using next_state
  by (simp_all add: demo_probe_def next_state probe_succeeded_def conclusive_def contradicts_def confirms_def)

lemma mining_needs_evidence_witness:
  "\<exists>ops' ps h rt p t. [EnterProbing 0, demo_probe] = ops' @ [ApplyProbe ps h rt p t] \<and> evidence ps h rt p"
  by (rule mining_needs_evidence [of False 0])
    (simp add: service_run_def service_decision_def decide_mine demo_probe_state)

text \<open>A lockdown is always on record. The counter never decreases, and in every reachable
  LOCKED_DOWN state it is positive.\<close>

theorem lockdowns_counted:
  "cs_lockdown_total (sto_snap s) \<le> cs_lockdown_total (sto_snap (service_run s ops))
   \<and> (cs_state (sto_snap (service_run (new_store None m t0) ops)) = LockedDown \<longrightarrow>
        0 < cs_lockdown_total (sto_snap (service_run (new_store None m t0) ops)))"
proof -
  have mono: "cs_lockdown_total (sto_snap u) \<le> cs_lockdown_total (sto_snap (service_step u op))" for u op
    using next_state by (cases op) (auto simp: lockdown_def enter_probing_def)
  have step: "0 \<le> cs_lockdown_total (sto_snap u) \<Longrightarrow> cs_state (sto_snap (service_step u op)) = LockedDown \<Longrightarrow>
      0 < cs_lockdown_total (sto_snap (service_step u op))" for u op
    using next_state by (cases op) (auto simp: lockdown_def enter_probing_def)
  have run: "cs_lockdown_total (sto_snap u) \<le> cs_lockdown_total (sto_snap (service_run u ops))" for u ops
    by (induction ops rule: rev_induct) (simp add: service_run_def, metis service_run_snoc mono order_trans)
  have "0 \<le> cs_lockdown_total (sto_snap (new_store None m t0))" by (simp add: new_store_def boot_snapshot_def)
  hence nn: "0 \<le> cs_lockdown_total (sto_snap (service_run (new_store None m t0) ops))" for ops
    using run order_trans by blast
  show ?thesis
  proof (cases ops rule: rev_cases)
    case Nil
    thus ?thesis by (simp add: service_run_def new_store_def boot_snapshot_def)
  next
    case (snoc os op)
    with run step nn show ?thesis by (simp add: service_run_snoc) (metis service_run_snoc)
  qed
qed

lemma lockdowns_counted_witness:
  "0 < cs_lockdown_total (sto_snap (service_run (new_store None False 0) [Lockdown ''consensus_double_sign'' 1]))"
proof -
  have "cs_state (sto_snap (service_run (new_store None False 0) [Lockdown ''consensus_double_sign'' 1])) = LockedDown"
    by (simp add: service_run_def lockdown_def)
  with lockdowns_counted [of "new_store None False 0" "[Lockdown ''consensus_double_sign'' 1]" False 0] show ?thesis by blast
qed

text \<open>A probe in flight keeps the last green visible but grants nothing: after a trusted
  evaluation, entering PROBING leaves \<open>state_consistent\<close> true in the status while mining and
  serving as synced are denied and only catching up is allowed.\<close>

theorem probing_keeps_green:
  assumes "evidence ps h rt p"
  shows "let s' = service_run s [ApplyProbe ps h rt p t, EnterProbing t'] in
    ss_consistent (service_status_of s') \<and> \<not> ss_may_mine (service_status_of s')
    \<and> \<not> ss_may_serve (service_status_of s') \<and> ss_may_catch_up (service_status_of s')"
proof -
  have "cs_consistent (next_snapshot (sto_snap s) ps h rt p t)"
    using next_consistent assms next_state by blast
  thus ?thesis
    by (simp add: service_run_def service_status_of_def Let_def enter_probing_def decide_from_snapshot_def)
qed

lemma probing_keeps_green_witness:
  "ss_consistent (service_status_of (service_run (new_store None False 0) [demo_probe, EnterProbing 2]))"
proof -
  have "evidence [\<lparr>pv_peer_id = ''p'', pv_height = 5, pv_head_hash = [], pv_dial_key = []\<rparr>] 5 ''r''
      (probe_succeeded [WireRoot ''r'' 5 ''p''] [] [])"
    by (simp add: evidence_def probe_succeeded_def conclusive_def contradicts_def confirms_def)
  from probing_keeps_green [OF this] show ?thesis unfolding demo_probe_def by (simp add: Let_def)
qed

end
