(* ===== verification/Tip_Types.thy ===== *)
theory Tip_Types
  imports Prelude "HOL-Library.Char_ord" "HOL-Library.List_Lexorder"
begin

text \<open>
  \<open>consensus/tip_safety\<close>, the values: \<open>types.py\<close>, \<open>errors.py\<close>, \<open>tip_state.py\<close> and
  \<open>fork_choice.py\<close>. A \<open>BlockRef\<close> that the program holds is one built by \<open>mk_tip_ref\<close>. Errors are
  the exception classes; their message texts are not modelled.
\<close>

section \<open>Errors and block references\<close>

datatype tip_error =
  TipValidation | TipAncestry | TipFinalityRegress | TipUnknownParent | TipDuplicate | TipConflict

definition tip_error_code :: "tip_error \<Rightarrow> string" where
  "tip_error_code e = (case e of TipValidation \<Rightarrow> ''tip_validation'' | TipAncestry \<Rightarrow> ''tip_ancestry''
     | TipFinalityRegress \<Rightarrow> ''tip_finality_regress'' | TipUnknownParent \<Rightarrow> ''tip_unknown_parent''
     | TipDuplicate \<Rightarrow> ''tip_duplicate'' | TipConflict \<Rightarrow> ''tip_conflict'')"

definition is_hex :: "char \<Rightarrow> bool" where
  "is_hex c = (let n = of_char c :: nat in (48 \<le> n \<and> n \<le> 57) \<or> (65 \<le> n \<and> n \<le> 70) \<or> (97 \<le> n \<and> n \<le> 102))"

definition is_digest :: "string \<Rightarrow> bool" where
  "is_digest s \<longleftrightarrow> length s = 64 \<and> list_all is_hex s"

definition normalize_block_hash :: "string \<Rightarrow> (tip_error, string) result" where
  "normalize_block_hash raw =
     (let txt = py_strip raw
      in if txt = '''' then raise TipValidation
         else if is_digest txt then ret (py_lower txt)
         else if take 2 txt = ''0x'' \<and> is_digest (drop 2 txt) then ret (py_lower (drop 2 txt))
         else raise TipValidation)"

record tip_ref =
  tr_height :: int
  tr_hash :: string
  tr_parent :: string

definition zero_digest :: string where
  "zero_digest = replicate 64 (CHR ''0'')"

definition mk_tip_ref :: "int \<Rightarrow> string \<Rightarrow> string \<Rightarrow> (tip_error, tip_ref) result" where
  "mk_tip_ref height bh ph =
     (if height < 0 then raise TipValidation
      else (case normalize_block_hash bh of
        Inl e \<Rightarrow> raise e
      | Inr hash \<Rightarrow>
          if height = 0 \<and> py_strip ph \<in> {'''', zero_digest, ''0x'' @ zero_digest}
          then ret \<lparr>tr_height = height, tr_hash = hash, tr_parent = ''''\<rparr>
          else if height \<noteq> 0 \<and> py_strip ph = '''' then raise TipValidation
          else (case normalize_block_hash ph of
                  Inl e \<Rightarrow> raise e
                | Inr parent \<Rightarrow> ret \<lparr>tr_height = height, tr_hash = hash, tr_parent = parent\<rparr>)))"

definition wf_tip_ref :: "tip_ref \<Rightarrow> bool" where
  "wf_tip_ref b \<longleftrightarrow> 0 \<le> tr_height b \<and> is_digest (tr_hash b) \<and> py_lower (tr_hash b) = tr_hash b
     \<and> (tr_parent b = '''' \<and> tr_height b = 0
        \<or> is_digest (tr_parent b) \<and> py_lower (tr_parent b) = tr_parent b)"

lemma is_hex_lower [simp]: "is_hex c \<Longrightarrow> is_hex (lower_char c)"
  by (auto simp: is_hex_def lower_char_def Let_def)

lemma is_digest_lower [simp]: "is_digest s \<Longrightarrow> is_digest (py_lower s)"
  by (simp add: is_digest_def py_lower_def list_all_iff)

lemma normalize_ok:
  "normalize_block_hash raw = Inr h \<Longrightarrow> is_digest h \<and> py_lower h = h"
  by (auto simp: normalize_block_hash_def Let_def split: if_splits)

lemma normalize_error: "normalize_block_hash raw = Inl e \<Longrightarrow> e = TipValidation"
  by (auto simp: normalize_block_hash_def Let_def split: if_splits)

lemma digest_no_space: "is_hex c \<Longrightarrow> \<not> py_space c"
  by (auto simp: is_hex_def py_space_def Let_def)

lemma strip_digest:
  assumes "is_digest s" shows "py_strip s = s"
proof -
  have "dropWhile py_space t = t" if "list_all is_hex t" for t
    using that by (cases t) (auto dest: digest_no_space)
  with assms show ?thesis by (simp add: py_strip_def is_digest_def list_all_iff)
qed

lemma normalize_digest: "is_digest s \<Longrightarrow> normalize_block_hash s = Inr (py_lower s)"
  by (auto simp: normalize_block_hash_def strip_digest Let_def is_digest_def)

lemma wf_mk_tip_ref: "mk_tip_ref h bh ph = Inr b \<Longrightarrow> wf_tip_ref b \<and> tr_height b = h"
  by (auto simp: mk_tip_ref_def wf_tip_ref_def dest: normalize_ok split: if_splits sum.splits)

section \<open>TipState\<close>

record tip_state =
  ts_head :: tip_ref
  ts_finalized :: "tip_ref option"

definition mk_tip_state :: "tip_ref \<Rightarrow> tip_ref option \<Rightarrow> (tip_error, tip_state) result" where
  "mk_tip_state head finalized =
     (case finalized of
        Some f \<Rightarrow> if tr_height head < tr_height f then raise TipFinalityRegress
                  else ret \<lparr>ts_head = head, ts_finalized = finalized\<rparr>
      | None \<Rightarrow> ret \<lparr>ts_head = head, ts_finalized = finalized\<rparr>)"

definition finalized_floor_height :: "tip_state \<Rightarrow> int" where
  "finalized_floor_height s = (case ts_finalized s of None \<Rightarrow> 0 | Some f \<Rightarrow> tr_height f)"

definition can_reorg_to :: "tip_state \<Rightarrow> int \<Rightarrow> (tip_error, bool) result" where
  "can_reorg_to s h = (if h < 0 then raise TipValidation else ret (finalized_floor_height s \<le> h))"

definition with_head :: "tip_ref \<Rightarrow> tip_state \<Rightarrow> (tip_error, tip_state) result" where
  "with_head new_head s =
     (case ts_finalized s of
        None \<Rightarrow> mk_tip_state new_head None
      | Some f \<Rightarrow>
          if tr_height new_head < tr_height f then raise TipFinalityRegress
          else if tr_height new_head = tr_height f \<and> tr_hash new_head \<noteq> tr_hash f then raise TipFinalityRegress
          else mk_tip_state new_head (Some f))"

definition with_finalized :: "tip_ref \<Rightarrow> tip_state \<Rightarrow> (tip_error, tip_state) result" where
  "with_finalized checkpoint s =
     (if tr_height (ts_head s) < tr_height checkpoint then raise TipFinalityRegress
      else (case ts_finalized s of
              None \<Rightarrow> mk_tip_state (ts_head s) (Some checkpoint)
            | Some f \<Rightarrow>
                if tr_height checkpoint < tr_height f then raise TipFinalityRegress
                else if tr_height checkpoint = tr_height f \<and> tr_hash checkpoint \<noteq> tr_hash f then raise TipFinalityRegress
                else mk_tip_state (ts_head s) (Some checkpoint)))"

definition tip_state_ok :: "tip_state \<Rightarrow> bool" where
  "tip_state_ok s \<longleftrightarrow> (case ts_finalized s of None \<Rightarrow> True | Some f \<Rightarrow> tr_height f \<le> tr_height (ts_head s))"

text \<open>The finalized checkpoint of \<open>s'\<close> is that of \<open>s\<close> or a later one.\<close>

definition finality_le :: "tip_state \<Rightarrow> tip_state \<Rightarrow> bool" where
  "finality_le s s' \<longleftrightarrow>
     (case ts_finalized s of None \<Rightarrow> True
      | Some f \<Rightarrow> (case ts_finalized s' of None \<Rightarrow> False
          | Some f' \<Rightarrow> tr_height f < tr_height f' \<or> tr_height f = tr_height f' \<and> tr_hash f = tr_hash f'))"

lemma mk_tip_state_ok: "mk_tip_state h f = Inr s \<Longrightarrow> tip_state_ok s \<and> ts_head s = h \<and> ts_finalized s = f"
  by (auto simp: mk_tip_state_def tip_state_ok_def split: option.splits if_splits)

lemma with_head_Inr:
  assumes "with_head b s = Inr s'"
  shows "ts_head s' = b" "ts_finalized s' = ts_finalized s" "tip_state_ok s'"
    "ts_finalized s = Some f \<Longrightarrow> tr_height f < tr_height b \<or> tr_height f = tr_height b \<and> tr_hash f = tr_hash b"
  using assms by (auto simp: with_head_def dest!: mk_tip_state_ok split: option.splits if_splits)

lemma with_finalized_Inr:
  assumes "with_finalized c s = Inr s'"
  shows "ts_head s' = ts_head s" "ts_finalized s' = Some c" "tip_state_ok s'"
    "ts_finalized s = Some f \<Longrightarrow> tr_height f < tr_height c \<or> tr_height f = tr_height c \<and> tr_hash f = tr_hash c"
    "tr_height c \<le> tr_height (ts_head s)"
  using assms by (auto simp: with_finalized_def dest!: mk_tip_state_ok split: option.splits if_splits)

section \<open>ForkChoice\<close>

text \<open>
  The key \<open>(b.height, b.block_hash)\<close> of the ranking. Python compares tuples lexicographically and
  strings by code points, so the key type is made a linear order of the library.
\<close>

datatype tip_key = TipKey (key_height: int) (key_hash: string)

instantiation tip_key :: linorder
begin

definition less_eq_tip_key :: "tip_key \<Rightarrow> tip_key \<Rightarrow> bool" where
  "less_eq_tip_key a b \<longleftrightarrow> key_height a < key_height b \<or> key_height a = key_height b \<and> key_hash a \<le> key_hash b"

definition less_tip_key :: "tip_key \<Rightarrow> tip_key \<Rightarrow> bool" where
  "less_tip_key a b \<longleftrightarrow> key_height a < key_height b \<or> key_height a = key_height b \<and> key_hash a < key_hash b"

instance
  by standard (auto simp: less_eq_tip_key_def less_tip_key_def intro: tip_key.expand)

end

definition tip_key_of :: "tip_ref \<Rightarrow> tip_key" where
  "tip_key_of b = TipKey (tr_height b) (tr_hash b)"

text \<open>Python's \<open>max\<close> with a key keeps the first of the largest elements.\<close>

fun max_by_key :: "tip_ref \<Rightarrow> tip_ref list \<Rightarrow> tip_ref" where
  "max_by_key best [] = best"
| "max_by_key best (b # bs) = max_by_key (if tip_key_of best < tip_key_of b then b else best) bs"

definition fork_choose :: "tip_ref list \<Rightarrow> (tip_error, tip_ref) result" where
  "fork_choose candidates = (case candidates of [] \<Rightarrow> raise TipValidation | b # bs \<Rightarrow> ret (max_by_key b bs))"

definition beats :: "tip_ref \<Rightarrow> tip_ref \<Rightarrow> bool" where
  "beats l r = (if l = r then False else fork_choose [l, r] = ret l)"

lemma max_by_key_max:
  "max_by_key b bs \<in> set (b # bs) \<and> (\<forall>x \<in> set (b # bs). tip_key_of x \<le> tip_key_of (max_by_key b bs))"
proof (induction bs arbitrary: b)
  case (Cons c bs)
  show ?case using Cons.IH [of b] Cons.IH [of c] by (auto simp: not_less intro: order_trans)
qed simp

lemma fork_choose_max: "fork_choose bs = Inr w \<Longrightarrow> w \<in> set bs \<and> (\<forall>x \<in> set bs. tip_key_of x \<le> tip_key_of w)"
  using max_by_key_max by (cases bs) (auto simp: fork_choose_def)

end
