(* ===== verification/Ancestry_Window.thy ===== *)
theory Ancestry_Window
  imports Tip_Types
begin

text \<open>
  \<open>consensus/tip_safety/ancestry_window.py\<close>: the bounded LRU of recent blocks with its height index,
  and the walk along parents. \<open>OrderedDict\<close> is an association list, oldest entry first;
  \<open>move_to_end\<close> re-appends. A lookup that hits moves its entry, so every walk returns the window too.

  The locale \<open>block_cache\<close> is what the reorg policy relies on: lookups only return recorded blocks
  under their own hash, a record is found at once, and touching an entry changes no lookup.
\<close>

section \<open>The window\<close>

record window =
  aw_max :: int
  aw_by_hash :: "(string, tip_ref) dict"
  aw_by_height :: "int \<rightharpoonup> string"

definition new_window :: "int \<Rightarrow> window option" where
  "new_window n = (if n < 1 then None else Some \<lparr>aw_max = n, aw_by_hash = [], aw_by_height = Map.empty\<rparr>)"

definition window_len :: "window \<Rightarrow> int" where
  "window_len w = int (length (aw_by_hash w))"

definition window_clear :: "window \<Rightarrow> window" where
  "window_clear w = w\<lparr>aw_by_hash := [], aw_by_height := Map.empty\<rparr>"

definition move_to_end :: "string \<Rightarrow> tip_ref \<Rightarrow> (string, tip_ref) dict \<Rightarrow> (string, tip_ref) dict" where
  "move_to_end k b d = filter (\<lambda>e. fst e \<noteq> k) d @ [(k, b)]"

fun evict :: "int \<Rightarrow> (string, tip_ref) dict \<Rightarrow> (int \<rightharpoonup> string) \<Rightarrow> (string, tip_ref) dict \<times> (int \<rightharpoonup> string)" where
  "evict n [] hs = ([], hs)"
| "evict n ((k, r) # d) hs =
     (if n < int (length ((k, r) # d))
      then evict n d (if hs (tr_height r) = Some k then hs(tr_height r := None) else hs)
      else ((k, r) # d, hs))"

definition window_record :: "tip_ref \<Rightarrow> window \<Rightarrow> window" where
  "window_record b w =
     (let key = tr_hash b;
          d = move_to_end key b (aw_by_hash w);
          hs = (aw_by_height w)(tr_height b \<mapsto> key);
          (d', hs') = evict (aw_max w) d hs
      in w\<lparr>aw_by_hash := d', aw_by_height := hs'\<rparr>)"

definition window_find :: "window \<Rightarrow> string \<Rightarrow> tip_ref option" where
  "window_find w key = (if key = '''' then None else map_of (aw_by_hash w) key)"

definition window_touch :: "string \<Rightarrow> window \<Rightarrow> window" where
  "window_touch key w =
     (case window_find w key of None \<Rightarrow> w | Some r \<Rightarrow> w\<lparr>aw_by_hash := move_to_end key r (aw_by_hash w)\<rparr>)"

definition window_get :: "string \<Rightarrow> window \<Rightarrow> window \<times> tip_ref option" where
  "window_get key w = (window_touch key w, window_find w key)"

definition get_at_height :: "window \<Rightarrow> int \<Rightarrow> tip_ref option" where
  "get_at_height w h =
     (case aw_by_height w h of None \<Rightarrow> None
      | Some key \<Rightarrow> if key = '''' then None else map_of (aw_by_hash w) key)"

text \<open>
  \<open>connects_to\<close> consumes the generator \<open>walk_parents\<close>: per step the current block is compared, and
  only when the walk goes on its parent is looked up.
\<close>

fun connects_walk :: "nat \<Rightarrow> string set \<Rightarrow> tip_ref option \<Rightarrow> string \<Rightarrow> window \<Rightarrow> window \<times> bool" where
  "connects_walk 0 seen cur want w = (w, False)"
| "connects_walk (Suc n) seen None want w = (w, False)"
| "connects_walk (Suc n) seen (Some b) want w =
     (if tr_hash b \<in> seen then (w, False)
      else if tr_hash b = want then (w, True)
      else if tr_parent b = want then (w, True)
      else (let (w', p) = window_get (tr_parent b) w
            in connects_walk n (insert (tr_hash b) seen) p want w'))"

definition connects_to :: "tip_ref \<Rightarrow> string \<Rightarrow> int option \<Rightarrow> window \<Rightarrow> window \<times> bool" where
  "connects_to candidate target max_steps w =
     (if target = '''' then (w, False)
      else connects_walk (nat (case max_steps of None \<Rightarrow> aw_max w | Some n \<Rightarrow> max 0 n)) {} (Some candidate) target w)"

definition is_ancestor_of :: "tip_ref \<Rightarrow> string \<Rightarrow> window \<Rightarrow> window \<times> bool" where
  "is_ancestor_of descendant ancestor w = connects_to descendant ancestor None w"

section \<open>Invariant\<close>

text \<open>Keys are distinct and are the hashes of their blocks, and the capacity holds.\<close>

definition window_ok :: "window \<Rightarrow> bool" where
  "window_ok w \<longleftrightarrow> 1 \<le> aw_max w \<and> distinct (dict_keys (aw_by_hash w))
     \<and> list_all (\<lambda>(k, b). tr_hash b = k) (aw_by_hash w) \<and> window_len w \<le> aw_max w"

lemma map_of_filter_key: "map_of (filter (\<lambda>e. fst e \<noteq> k) d) = (map_of d)(k := None)"
  by (induction d) (auto simp: fun_eq_iff)

lemma move_to_end_map: "map_of (move_to_end k b d) = (map_of d)(k \<mapsto> b)"
  by (simp add: move_to_end_def map_of_filter_key fun_eq_iff map_add_def split: option.split)

lemma move_to_end_keys: "distinct (dict_keys d) \<Longrightarrow> distinct (dict_keys (move_to_end k b d))"
  by (auto simp: move_to_end_def distinct_map inj_on_def)

lemma evict_drop: "0 \<le> n \<Longrightarrow> fst (evict n d hs) = drop (length d - nat n) d"
proof (induction d arbitrary: hs)
  case (Cons e d)
  obtain k r where e: "e = (k, r)" by (cases e)
  show ?case
  proof (cases "n < int (length (e # d))")
    case True
    hence "length (e # d) - nat n = Suc (length d - nat n)" by (simp add: nat_le_iff of_nat_less_iff Suc_diff_le nat_less_iff)
    with True Cons show ?thesis by (simp add: e)
  next
    case False
    hence "length (e # d) - nat n = 0" by simp
    with False show ?thesis by (simp add: e)
  qed
qed simp

lemma map_of_drop:
  assumes "distinct (dict_keys d)" shows "map_of (drop n d) \<subseteq>\<^sub>m map_of d"
  unfolding map_le_def
proof
  fix k assume "k \<in> dom (map_of (drop n d))"
  then obtain v where v: "map_of (drop n d) k = Some v" by blast
  hence "(k, v) \<in> set d" by (meson in_set_dropD map_of_SomeD)
  with assms v show "map_of (drop n d) k = map_of d k" by simp
qed

lemma window_record_fields:
  "aw_max (window_record b w) = aw_max w"
  "aw_by_hash (window_record b w) = fst (evict (aw_max w) (move_to_end (tr_hash b) b (aw_by_hash w))
     ((aw_by_height w)(tr_height b \<mapsto> tr_hash b)))"
  by (simp_all add: window_record_def Let_def split_beta)

lemma record_last:
  assumes "window_ok w"
  shows "\<exists>d. aw_by_hash (window_record b w) = d @ [(tr_hash b, b)]"
proof -
  let ?m = "move_to_end (tr_hash b) b (aw_by_hash w)"
  have "1 \<le> nat (aw_max w)" "0 \<le> aw_max w" using assms by (auto simp: window_ok_def)
  moreover from this have "length ?m - nat (aw_max w) \<le> length ?m - 1" by simp
  ultimately show ?thesis
    unfolding window_record_fields evict_drop [OF \<open>0 \<le> aw_max w\<close>] by (simp add: move_to_end_def)
qed

lemma window_ok_record [inv_intros]:
  assumes "window_ok w" shows "window_ok (window_record b w)"
proof -
  let ?m = "move_to_end (tr_hash b) b (aw_by_hash w)"
  have n: "0 \<le> aw_max w" "1 \<le> aw_max w" using assms by (auto simp: window_ok_def)
  have d: "distinct (dict_keys ?m)" using assms by (intro move_to_end_keys) (simp add: window_ok_def)
  have l: "list_all (\<lambda>(k, b). tr_hash b = k) ?m"
    using assms by (auto simp: window_ok_def move_to_end_def list_all_iff)
  show ?thesis
    unfolding window_ok_def window_len_def window_record_fields evict_drop [OF n(1)]
    using n d l by (auto simp: drop_map distinct_drop list_all_iff simp flip: drop_map dest: in_set_dropD)
qed

lemma window_touch_max [simp]: "aw_max (window_touch k w) = aw_max w"
  by (simp add: window_touch_def split: option.split)

lemma window_ok_touch [inv_intros]:
  assumes "window_ok w" shows "window_ok (window_touch k w)"
proof (cases "window_find w k")
  case (Some r)
  hence m: "map_of (aw_by_hash w) k = Some r" by (simp add: window_find_def split: if_splits)
  hence r: "(k, r) \<in> set (aw_by_hash w)" by (rule map_of_SomeD)
  hence "length (filter (\<lambda>e. fst e \<noteq> k) (aw_by_hash w)) < length (aw_by_hash w)"
    by (intro length_filter_less [of "(k, r)"]) simp_all
  with assms r Some show ?thesis
    by (auto simp: window_touch_def window_ok_def window_len_def move_to_end_keys list_all_iff)
      (auto simp: move_to_end_def)
qed (use assms in \<open>simp add: window_touch_def\<close>)

lemma window_find_touch: "window_find (window_touch k w) j = window_find w j"
proof (cases "window_find w k")
  case (Some r)
  thus ?thesis by (auto simp: window_touch_def window_find_def move_to_end_map split: if_splits)
qed (simp add: window_touch_def)

lemma window_find_record:
  assumes "window_ok w" "tr_hash b \<noteq> ''''"
  shows "window_find (window_record b w) (tr_hash b) = Some b"
    "j \<noteq> tr_hash b \<Longrightarrow> window_find (window_record b w) j \<in> {None, window_find w j}"
proof -
  let ?m = "move_to_end (tr_hash b) b (aw_by_hash w)"
  have ok: "distinct (dict_keys (aw_by_hash (window_record b w)))"
    using window_ok_record [OF assms(1)] by (simp add: window_ok_def)
  from record_last [OF assms(1)] obtain d where d: "aw_by_hash (window_record b w) = d @ [(tr_hash b, b)]" by blast
  have "map_of (aw_by_hash (window_record b w)) (tr_hash b) = Some b"
    using ok unfolding d by (simp add: map_of_eq_None_iff [THEN iffD2] map_add_def)
  with assms(2) show "window_find (window_record b w) (tr_hash b) = Some b" by (simp add: window_find_def)
  have "map_of (aw_by_hash (window_record b w)) \<subseteq>\<^sub>m map_of ?m"
    unfolding window_record_fields using assms(1)
    by (subst evict_drop) (auto simp: window_ok_def intro: map_of_drop move_to_end_keys)
  thus "window_find (window_record b w) j \<in> {None, window_find w j}" if "j \<noteq> tr_hash b"
    using that by (auto simp: window_find_def move_to_end_map map_le_def dom_def)
qed

section \<open>The interface of the cache\<close>

text \<open>
  \<open>c\<close> maps a digest to the block it is the digest of; \<open>knows c f\<close> says that the lookups of \<open>f\<close> agree
  with it. \<open>ancestor c h b\<close>: following parents from \<open>b\<close> reaches the digest \<open>h\<close>.
\<close>

definition knows :: "(string \<rightharpoonup> tip_ref) \<Rightarrow> (string \<Rightarrow> tip_ref option) \<Rightarrow> bool" where
  "knows c f \<longleftrightarrow> (\<forall>k r. f k = Some r \<longrightarrow> c k = Some r)"

inductive ancestor :: "(string \<rightharpoonup> tip_ref) \<Rightarrow> string \<Rightarrow> tip_ref \<Rightarrow> bool" for c where
  self: "ancestor c (tr_hash b) b"
| parent: "ancestor c (tr_parent b) b"
| step: "c (tr_parent b) = Some p \<Longrightarrow> ancestor c h p \<Longrightarrow> ancestor c h b"

locale block_cache =
  fixes look :: "'w \<Rightarrow> string \<Rightarrow> tip_ref option"
    and put :: "tip_ref \<Rightarrow> 'w \<Rightarrow> 'w"
    and touch :: "string \<Rightarrow> 'w \<Rightarrow> 'w"
    and ok :: "'w \<Rightarrow> bool"
  assumes ok_record: "ok w \<Longrightarrow> ok (put b w)"
    and ok_touch: "ok w \<Longrightarrow> ok (touch k w)"
    and find_touch: "ok w \<Longrightarrow> look (touch k w) j = look w j"
    and find_recorded: "ok w \<Longrightarrow> tr_hash b \<noteq> [] \<Longrightarrow> look (put b w) (tr_hash b) = Some b"
    and find_other: "ok w \<Longrightarrow> tr_hash b \<noteq> [] \<Longrightarrow> j \<noteq> tr_hash b \<Longrightarrow> look (put b w) j \<in> {None, look w j}"
begin

lemma knows_touch: "ok w \<Longrightarrow> knows c (look w) \<Longrightarrow> knows c (look (touch k w))"
  by (simp add: knows_def find_touch)

lemma knows_record:
  assumes "ok w" "knows c (look w)" "tr_hash b \<noteq> []" "c (tr_hash b) = Some b"
  shows "knows c (look (put b w))"
  unfolding knows_def
proof (intro allI impI)
  fix k r assume f: "look (put b w) k = Some r"
  show "c k = Some r"
  proof (cases "k = tr_hash b")
    case True
    with f find_recorded [OF assms(1,3)] assms(4) show ?thesis by simp
  next
    case False
    with f find_other [OF assms(1,3) False] have "look w k = Some r" by auto
    with assms(2) show ?thesis by (simp add: knows_def)
  qed
qed

lemma records_ok: "ok w \<Longrightarrow> ok (fold put bs w)"
  by (induction bs arbitrary: w) (auto intro: ok_record)

lemma knows_records:
  "ok w \<Longrightarrow> knows c (look w) \<Longrightarrow> \<forall>b \<in> set bs. tr_hash b \<noteq> [] \<and> c (tr_hash b) = Some b \<Longrightarrow> knows c (look (fold put bs w))"
  by (induction bs arbitrary: w) (auto intro: ok_record knows_record)

end

interpretation cache: block_cache window_find window_record window_touch window_ok
  by unfold_locales (rule window_ok_record window_ok_touch window_find_touch window_find_record; assumption?)+

text \<open>A walk changes no lookup, and its answer yes is right.\<close>

lemma connects_walk_frame:
  "window_ok w \<Longrightarrow> (let w' = fst (connects_walk n seen b want w) in
     window_ok w' \<and> window_find w' = window_find w \<and> aw_max w' = aw_max w)"
proof (induction n seen b want w rule: connects_walk.induct)
  case (3 n seen b want w)
  from 3 show ?case
    by (auto simp: window_get_def Let_def cache.find_touch inv_intros fun_eq_iff split: prod.splits)
qed simp_all

lemma connects_walk_sound:
  "window_ok w \<Longrightarrow> knows c (window_find w) \<Longrightarrow> snd (connects_walk n seen (Some b) want w) \<Longrightarrow> ancestor c want b"
proof (induction n arbitrary: seen b w)
  case (Suc n)
  show ?case
  proof (cases "tr_hash b = want \<or> tr_parent b = want")
    case True
    thus ?thesis by (auto intro: ancestor.intros)
  next
    case False
    with Suc.prems(3) have r: "snd (connects_walk n (insert (tr_hash b) seen) (window_find w (tr_parent b)) want (window_touch (tr_parent b) w))"
      by (auto simp: window_get_def split: if_splits)
    then obtain p where p: "window_find w (tr_parent b) = Some p"
      by (cases n; cases "window_find w (tr_parent b)") auto
    hence "c (tr_parent b) = Some p" using Suc.prems(2) by (simp add: knows_def)
    moreover have "ancestor c want p"
      using Suc.IH [OF cache.ok_touch [OF Suc.prems(1)] cache.knows_touch [OF Suc.prems(1,2)]] r p by metis
    ultimately show ?thesis by (rule ancestor.step)
  qed
qed simp

lemma connects_to_frame:
  "window_ok w \<Longrightarrow> (let w' = fst (connects_to b t m w) in window_ok w' \<and> window_find w' = window_find w \<and> aw_max w' = aw_max w)"
  using connects_walk_frame by (simp add: connects_to_def)

lemma connects_to_sound:
  "window_ok w \<Longrightarrow> knows c (window_find w) \<Longrightarrow> snd (connects_to b t m w) \<Longrightarrow> ancestor c t b"
  using connects_walk_sound by (auto simp: connects_to_def split: if_splits)

end
