(* ===== verification/Tip_Safety.thy ===== *)
theory Tip_Safety
  imports Ancestry_Window
begin

text \<open>
  \<open>consensus/tip_safety/reorg_policy.py\<close> and \<open>service.py\<close>: which block may become the tip, and the
  service that applies candidates and advances finality. Safety: the finalized checkpoint never
  regresses, and it stays an ancestor of the tip as long as every checkpoint handed to
  \<open>advance_finalized\<close> was one, which the code itself does not check.
\<close>

datatype apply_outcome = AcceptExtend | AcceptReorg | Reject

record apply_decision =
  ad_outcome :: apply_outcome
  ad_reason :: string
  ad_new_head :: "tip_ref option"

definition accepted :: "apply_decision \<Rightarrow> bool" where
  "accepted d \<longleftrightarrow> ad_outcome d \<in> {AcceptExtend, AcceptReorg}"

definition accept_as :: "apply_outcome \<Rightarrow> tip_ref \<Rightarrow> apply_decision" where
  "accept_as out b = \<lparr>ad_outcome = out, ad_reason = ''ok'', ad_new_head = Some b\<rparr>"

definition reject_with :: "tip_error \<Rightarrow> apply_decision" where
  "reject_with e = \<lparr>ad_outcome = Reject, ad_reason = tip_error_code e, ad_new_head = None\<rparr>"

section \<open>ReorgPolicy\<close>

text \<open>The last part of \<open>evaluate\<close>: a candidate below the tip needs to be a recorded ancestor of it.\<close>

definition evaluate_rollback ::
  "tip_ref \<Rightarrow> tip_ref \<Rightarrow> window option \<Rightarrow> window option \<times> (tip_error, apply_decision) result" where
  "evaluate_rollback head' candidate anc =
     (case anc of
        None \<Rightarrow> (anc, raise TipUnknownParent)
      | Some w \<Rightarrow>
          (let (w1, known) = window_get (tr_hash candidate) w
           in case known of
                None \<Rightarrow> (Some w1, raise TipUnknownParent)
              | Some k \<Rightarrow>
                  if tr_height k \<noteq> tr_height candidate then (Some w1, raise TipUnknownParent)
                  else (let (w2, anc_ok) = is_ancestor_of head' (tr_hash candidate) w1
                        in (Some w2, if anc_ok then ret (accept_as AcceptReorg candidate) else raise TipUnknownParent))))"

definition evaluate ::
  "tip_state \<Rightarrow> tip_ref \<Rightarrow> window option \<Rightarrow> window option \<times> (tip_error, apply_decision) result" where
  "evaluate s candidate anc =
     (let head' = ts_head s in
      if tr_hash candidate = tr_hash head' \<and> tr_height candidate = tr_height head' then (anc, raise TipDuplicate)
      else (case can_reorg_to s (tr_height candidate) of
        Inl e \<Rightarrow> (anc, raise e)
      | Inr clears \<Rightarrow>
          if \<not> clears then (anc, raise TipFinalityRegress)
          else if \<exists>f. ts_finalized s = Some f \<and> tr_height candidate = tr_height f \<and> tr_hash candidate \<noteq> tr_hash f
          then (anc, raise TipFinalityRegress)
          else if tr_height candidate = tr_height head' + 1 then
            (anc, if tr_parent candidate \<noteq> tr_hash head' then raise TipAncestry
                  else ret (accept_as AcceptExtend candidate))
          else if tr_height candidate = tr_height head' then
            (anc, if tr_parent candidate \<noteq> tr_parent head' then raise TipAncestry
                  else if tr_hash candidate = tr_hash head' then raise TipDuplicate
                  else ret (accept_as AcceptReorg candidate))
          else if tr_height head' + 1 < tr_height candidate then (anc, raise TipUnknownParent)
          else evaluate_rollback head' candidate anc))"

section \<open>TipSafetyService\<close>

record tip_service =
  tv_state :: tip_state
  tv_window :: window

text \<open>
  The constructor: the window of an injected policy (\<open>Some (Some w)\<close>) wins over an injected window,
  and a new one is made otherwise; \<open>None\<close> is the \<open>ValueError\<close> of a negative capacity.
\<close>

definition new_tip_service :: "tip_state \<Rightarrow> window option option \<Rightarrow> window option \<Rightarrow> int \<Rightarrow> tip_service option" where
  "new_tip_service s policy ancestry max_blocks =
     (let w0 = (case policy of
                  Some (Some w) \<Rightarrow> Some w
                | _ \<Rightarrow> (case ancestry of Some w \<Rightarrow> Some w
                        | None \<Rightarrow> new_window (if max_blocks = 0 then 256 else max_blocks)))
      in map_option (\<lambda>w. \<lparr>tv_state = s,
           tv_window = (case ts_finalized s of
                          None \<Rightarrow> window_record (ts_head s) w
                        | Some f \<Rightarrow> window_record f (window_record (ts_head s) w))\<rparr>) w0)"

definition evaluate_candidate :: "tip_ref \<Rightarrow> tip_service \<Rightarrow> tip_service \<times> apply_decision" where
  "evaluate_candidate b v =
     (let (anc, r) = evaluate (tv_state v) b (Some (tv_window v))
      in (v\<lparr>tv_window := the anc\<rparr>, case r of Inr d \<Rightarrow> d | Inl e \<Rightarrow> reject_with e))"

definition apply_candidate :: "tip_ref \<Rightarrow> tip_service \<Rightarrow> tip_service \<times> apply_decision" where
  "apply_candidate b v =
     (let (v1, d) = evaluate_candidate b v
      in case ad_new_head d of
           None \<Rightarrow> (v1, d)
         | Some nh \<Rightarrow>
             if \<not> accepted d then (v1, d)
             else (case with_head nh (tv_state v1) of
                     Inl e \<Rightarrow> (v1, reject_with e)
                   | Inr s \<Rightarrow> (v1\<lparr>tv_state := s, tv_window := window_record nh (tv_window v1)\<rparr>, d)))"

definition choose_and_apply :: "tip_ref list \<Rightarrow> tip_service \<Rightarrow> tip_service \<times> apply_decision" where
  "choose_and_apply candidates v =
     (case fork_choose candidates of Inl e \<Rightarrow> (v, reject_with e) | Inr w \<Rightarrow> apply_candidate w v)"

definition advance_finalized :: "tip_ref \<Rightarrow> tip_service \<Rightarrow> tip_service \<times> (tip_error, tip_state) result" where
  "advance_finalized cp v =
     (case with_finalized cp (tv_state v) of
        Inl e \<Rightarrow> (v, raise e)
      | Inr s \<Rightarrow> (v\<lparr>tv_state := s, tv_window := window_record cp (tv_window v)\<rparr>, ret s))"

section \<open>What an evaluation does\<close>

lemma rollback_frame:
  assumes "window_ok w"
  obtains w' where "fst (evaluate_rollback h b (Some w)) = Some w'" "window_ok w'"
    "window_find w' = window_find w" "aw_max w' = aw_max w"
proof -
  let ?w1 = "window_touch (tr_hash b) w"
  have w1: "window_ok ?w1" "window_find ?w1 = window_find w"
    using assms by (auto simp: inv_intros cache.find_touch)
  note f = connects_to_frame [OF w1(1), of h "tr_hash b" None, unfolded Let_def, folded is_ancestor_of_def]
  have "fst (evaluate_rollback h b (Some w)) = Some ?w1
      \<or> fst (evaluate_rollback h b (Some w)) = Some (fst (is_ancestor_of h (tr_hash b) ?w1))"
    by (cases "window_find w (tr_hash b)") (auto simp: evaluate_rollback_def window_get_def Let_def split_beta)
  thus thesis
  proof
    assume "fst (evaluate_rollback h b (Some w)) = Some ?w1"
    with that w1 show ?thesis by simp
  next
    assume "fst (evaluate_rollback h b (Some w)) = Some (fst (is_ancestor_of h (tr_hash b) ?w1))"
    with that f w1 show ?thesis by simp
  qed
qed

lemma evaluate_frame:
  assumes "window_ok w"
  obtains w' where "fst (evaluate s b (Some w)) = Some w'" "window_ok w'"
    "window_find w' = window_find w" "aw_max w' = aw_max w"
proof -
  have "fst (evaluate s b (Some w)) = Some w \<or>
      fst (evaluate s b (Some w)) = fst (evaluate_rollback (ts_head s) b (Some w))"
    by (auto simp: evaluate_def Let_def split: sum.split)
  with rollback_frame [OF assms, of "ts_head s" b] that assms show thesis by metis
qed

lemma evaluate_candidate_frame:
  assumes "window_ok (tv_window v)"
  shows "tv_state (fst (evaluate_candidate b v)) = tv_state v"
    "window_ok (tv_window (fst (evaluate_candidate b v)))"
    "window_find (tv_window (fst (evaluate_candidate b v))) = window_find (tv_window v)"
    "aw_max (tv_window (fst (evaluate_candidate b v))) = aw_max (tv_window v)"
proof -
  obtain w' where w': "fst (evaluate (tv_state v) b (Some (tv_window v))) = Some w'" "window_ok w'"
      "window_find w' = window_find (tv_window v)" "aw_max w' = aw_max (tv_window v)"
    by (rule evaluate_frame [OF assms])
  have "fst (evaluate_candidate b v) = v\<lparr>tv_window := w'\<rparr>"
    by (simp add: evaluate_candidate_def split_beta Let_def w')
  with w' show "tv_state (fst (evaluate_candidate b v)) = tv_state v"
    "window_ok (tv_window (fst (evaluate_candidate b v)))"
    "window_find (tv_window (fst (evaluate_candidate b v))) = window_find (tv_window v)"
    "aw_max (tv_window (fst (evaluate_candidate b v))) = aw_max (tv_window v)" by simp_all
qed

text \<open>An accepted candidate extends the tip, replaces it, or is a recorded ancestor of it.\<close>

lemma evaluate_accepts:
  assumes "window_ok w" "knows c (window_find w)" "snd (evaluate s b (Some w)) = Inr d"
  shows "ad_new_head d = Some b \<and> accepted d \<and>
     (tr_height b = tr_height (ts_head s) + 1 \<and> tr_parent b = tr_hash (ts_head s)
      \<or> tr_height b = tr_height (ts_head s) \<and> tr_parent b = tr_parent (ts_head s)
      \<or> tr_height b < tr_height (ts_head s) \<and> ancestor c (tr_hash b) (ts_head s))"
proof -
  have roll: "ancestor c (tr_hash b) (ts_head s) \<and> d = accept_as AcceptReorg b"
    if "snd (evaluate_rollback (ts_head s) b (Some w)) = Inr d"
  proof -
    from that have "snd (is_ancestor_of (ts_head s) (tr_hash b) (window_touch (tr_hash b) w))"
      and d: "d = accept_as AcceptReorg b"
      by (auto simp: evaluate_rollback_def window_get_def Let_def split_beta split: option.splits if_splits)
    with connects_to_sound [OF cache.ok_touch [OF assms(1)] cache.knows_touch [OF assms(1,2)]] d
    show ?thesis by (auto simp: is_ancestor_of_def)
  qed
  show ?thesis
    using assms(3) roll
    by (auto simp: evaluate_def accept_as_def accepted_def Let_def split: sum.splits if_splits)
qed

lemma apply_candidate_cases:
  assumes "window_ok (tv_window v)" "knows c (window_find (tv_window v))"
  obtains (kept) "tv_state (fst (apply_candidate b v)) = tv_state v" "\<not> accepted (snd (apply_candidate b v))"
      "window_ok (tv_window (fst (apply_candidate b v)))"
      "window_find (tv_window (fst (apply_candidate b v))) = window_find (tv_window v)"
    | (moved) w1 s where "window_ok w1" "window_find w1 = window_find (tv_window v)"
      "with_head b (tv_state v) = Inr s" "accepted (snd (apply_candidate b v))"
      "fst (apply_candidate b v) = v\<lparr>tv_state := s, tv_window := window_record b w1\<rparr>"
      "tr_height b = tr_height (ts_head (tv_state v)) + 1 \<and> tr_parent b = tr_hash (ts_head (tv_state v))
       \<or> tr_height b = tr_height (ts_head (tv_state v)) \<and> tr_parent b = tr_parent (ts_head (tv_state v))
       \<or> tr_height b < tr_height (ts_head (tv_state v)) \<and> ancestor c (tr_hash b) (ts_head (tv_state v))"
proof -
  note f = evaluate_candidate_frame [OF assms(1), of b]
  let ?v1 = "fst (evaluate_candidate b v)" and ?r = "snd (evaluate (tv_state v) b (Some (tv_window v)))"
  have d: "snd (evaluate_candidate b v) = (case ?r of Inr d \<Rightarrow> d | Inl e \<Rightarrow> reject_with e)"
    by (simp add: evaluate_candidate_def split_beta Let_def)
  show thesis
  proof (cases ?r)
    case (Inl e)
    with d f kept show ?thesis
      by (simp add: apply_candidate_def split_beta Let_def reject_with_def accepted_def)
  next
    case (Inr dec)
    note acc = evaluate_accepts [OF assms Inr]
    show ?thesis
    proof (cases "with_head b (tv_state v)")
      case (Inl e)
      with acc d Inr f kept show ?thesis
        by (simp add: apply_candidate_def split_beta Let_def reject_with_def accepted_def)
    next
      case (Inr s)
      have "fst (apply_candidate b v) = v\<lparr>tv_state := s, tv_window := window_record b (tv_window ?v1)\<rparr>"
        "accepted (snd (apply_candidate b v))"
        using acc d Inr \<open>?r = Inr dec\<close> f
        by (simp_all add: apply_candidate_def split_beta Let_def evaluate_candidate_def)
      with moved [OF f(2,3) Inr] acc show ?thesis by blast
    qed
  qed
qed

section \<open>Chains\<close>

text \<open>
  A digest identifies its block (\<open>c\<close> is a function), and a block is one higher than its parent.
\<close>

definition chain_ok :: "(string \<rightharpoonup> tip_ref) \<Rightarrow> bool" where
  "chain_ok c \<longleftrightarrow> (\<forall>k b. c k = Some b \<longrightarrow> tr_hash b = k \<and> k \<noteq> ''''
     \<and> (\<forall>p. c (tr_parent b) = Some p \<longrightarrow> tr_height b = tr_height p + 1))"

definition on_chain :: "(string \<rightharpoonup> tip_ref) \<Rightarrow> tip_ref \<Rightarrow> bool" where
  "on_chain c b \<longleftrightarrow> c (tr_hash b) = Some b"

lemma chain_okD:
  assumes "chain_ok c"
  shows "on_chain c b \<Longrightarrow> tr_hash b \<noteq> ''''" "c k = Some b \<Longrightarrow> tr_hash b = k" "c k = Some b \<Longrightarrow> on_chain c b"
    "on_chain c b \<Longrightarrow> c (tr_parent b) = Some p \<Longrightarrow> tr_height b = tr_height p + 1"
  using assms unfolding chain_ok_def on_chain_def by blast+

lemma ancestor_height:
  assumes "chain_ok c"
  shows "ancestor c h b \<Longrightarrow> on_chain c b \<Longrightarrow> c h = Some x \<Longrightarrow> x = b \<or> tr_height x < tr_height b"
proof (induction rule: ancestor.induct)
  case (self b)
  thus ?case by (simp add: on_chain_def)
next
  case (parent b)
  with chain_okD(4) [OF assms parent.prems] show ?case by simp
next
  case (step b p h)
  with chain_okD(3) [OF assms step.hyps(1)] chain_okD(4) [OF assms step.prems(1) step.hyps(1)] show ?case by fastforce
qed

text \<open>The ancestors of a block are linearly ordered: the lower of two is an ancestor of the higher.\<close>

lemma ancestor_linear:
  assumes ok: "chain_ok c" and x: "c x = Some X"
  shows "ancestor c y b \<Longrightarrow> on_chain c b \<Longrightarrow> c y = Some Y \<Longrightarrow> ancestor c x b \<Longrightarrow>
    tr_height X \<le> tr_height Y \<Longrightarrow> ancestor c x Y"
proof (induction rule: ancestor.induct)
  case (self b)
  thus ?case by (simp add: on_chain_def)
next
  case (parent b)
  have lt: "tr_height X < tr_height b" using parent.prems chain_okD(4) [OF ok parent.prems(1,2)] by simp
  from parent.prems(3) show ?case
  proof cases
    case self
    with parent.prems(1) x lt show ?thesis by (simp add: on_chain_def)
  next
    case parent
    hence "x = tr_hash Y" using chain_okD(2) [OF ok parent.prems(2)] by simp
    thus ?thesis by (simp add: ancestor.self)
  next
    case (step p)
    with parent.prems(2) show ?thesis by simp
  qed
next
  case (step b p y)
  have p: "on_chain c p" "tr_height b = tr_height p + 1"
    using chain_okD(3) [OF ok step.hyps(1)] chain_okD(4) [OF ok step.prems(1) step.hyps(1)] by auto
  have Yp: "Y = p \<or> tr_height Y < tr_height p" by (rule ancestor_height [OF ok step.hyps(2) p(1) step.prems(2)])
  from step.prems(3) show ?case
  proof cases
    case self
    with step.prems(1,4) x Yp p(2) show ?thesis by (auto simp: on_chain_def)
  next
    case parent
    with x step.hyps(1) have "X = p" by simp
    with Yp step.prems(4) have "Y = p" by auto
    thus ?thesis using parent chain_okD(2) [OF ok step.hyps(1)] by (metis ancestor.self)
  next
    case (step q)
    with step.hyps(1) step.IH [OF p(1) step.prems(2) _ step.prems(4)] show ?thesis by simp
  qed
qed

section \<open>Reachable services\<close>

inductive reached :: "(string \<rightharpoonup> tip_ref) \<Rightarrow> tip_service \<Rightarrow> bool" for c where
  start: "on_chain c b \<Longrightarrow> mk_tip_state b None = Inr s \<Longrightarrow> new_tip_service s None None n = Some v \<Longrightarrow> reached c v"
| evaluated: "reached c v \<Longrightarrow> reached c (fst (evaluate_candidate b v))"
| applied: "reached c v \<Longrightarrow> on_chain c b \<Longrightarrow> reached c (fst (apply_candidate b v))"
| chosen: "reached c v \<Longrightarrow> \<forall>b \<in> set bs. on_chain c b \<Longrightarrow> reached c (fst (choose_and_apply bs v))"
| finalized: "reached c v \<Longrightarrow> on_chain c b \<Longrightarrow> ancestor c (tr_hash b) (ts_head (tv_state v)) \<Longrightarrow>
    reached c (fst (advance_finalized b v))"

definition service_ok :: "(string \<rightharpoonup> tip_ref) \<Rightarrow> tip_service \<Rightarrow> bool" where
  "service_ok c v \<longleftrightarrow> tip_state_ok (tv_state v) \<and> window_ok (tv_window v) \<and> knows c (window_find (tv_window v))
     \<and> on_chain c (ts_head (tv_state v))
     \<and> (\<forall>f. ts_finalized (tv_state v) = Some f \<longrightarrow> on_chain c f \<and> ancestor c (tr_hash f) (ts_head (tv_state v)))"

lemma service_ok_evaluated:
  assumes "service_ok c v" shows "service_ok c (fst (evaluate_candidate b v))"
proof -
  have "window_ok (tv_window v)" using assms by (simp add: service_ok_def)
  from evaluate_candidate_frame [OF this, of b] assms show ?thesis by (simp add: service_ok_def)
qed

lemma moved_ancestor:
  assumes c: "chain_ok c" and b: "on_chain c b" and f: "on_chain c f" and hd: "on_chain c h" "ancestor c (tr_hash f) h"
    and fl: "tr_height f < tr_height b \<or> tr_height f = tr_height b \<and> tr_hash f = tr_hash b"
    and mv: "tr_height b = tr_height h + 1 \<and> tr_parent b = tr_hash h
       \<or> tr_height b = tr_height h \<and> tr_parent b = tr_parent h
       \<or> tr_height b < tr_height h \<and> ancestor c (tr_hash b) h"
  shows "ancestor c (tr_hash f) b"
proof -
  have fh: "c (tr_hash f) = Some f" "c (tr_hash b) = Some b" using f b by (simp_all add: on_chain_def)
  consider "tr_parent b = tr_hash h" | "tr_hash f = tr_hash b"
    | "tr_height f < tr_height b" "tr_height b = tr_height h" "tr_parent b = tr_parent h"
    | "tr_height f \<le> tr_height b" "ancestor c (tr_hash b) h"
    using fl mv by fastforce
  thus ?thesis
  proof cases
    case 1
    with hd show ?thesis by (metis ancestor.step on_chain_def)
  next
    case 2
    thus ?thesis by (simp add: ancestor.self)
  next
    case 3
    from hd(2) show ?thesis
    proof cases
      case self
      with hd(1) fh(1) have "f = h" by (simp add: on_chain_def)
      with 3 show ?thesis by simp
    next
      case parent
      with 3(3) show ?thesis by (metis ancestor.parent)
    next
      case (step p)
      with 3(3) show ?thesis by (metis ancestor.step)
    qed
  next
    case 4
    from ancestor_linear [OF c fh(1) 4(2) hd(1) fh(2) hd(2) 4(1)] show ?thesis .
  qed
qed

lemma service_ok_applied:
  assumes c: "chain_ok c" and ok: "service_ok c v" and b: "on_chain c b"
  shows "service_ok c (fst (apply_candidate b v))"
proof -
  have w: "window_ok (tv_window v)" "knows c (window_find (tv_window v))" using ok by (simp_all add: service_ok_def)
  show ?thesis
  proof (cases rule: apply_candidate_cases [OF w, of b, case_names kept moved])
    case kept
    with ok show ?thesis by (simp add: service_ok_def)
  next
    case (moved w1 s)
    note h = with_head_Inr [OF moved(3)]
    have "knows c (window_find (window_record b w1))"
      using cache.knows_record [OF moved(1)] moved(2) w(2) b chain_okD(1) [OF c b] by (simp add: on_chain_def)
    moreover have "ancestor c (tr_hash f) b" if "ts_finalized (tv_state v) = Some f" for f
      using moved_ancestor [OF c b, of f "ts_head (tv_state v)"] that ok h(4) [OF that] moved(6)
      by (auto simp: service_ok_def)
    ultimately show ?thesis
      using ok moved(1,5) h b by (simp add: service_ok_def inv_intros)
  qed
qed

lemma service_ok_finalized:
  assumes c: "chain_ok c" and ok: "service_ok c v" and b: "on_chain c b"
    and anc: "ancestor c (tr_hash b) (ts_head (tv_state v))"
  shows "service_ok c (fst (advance_finalized b v))"
proof (cases "with_finalized b (tv_state v)")
  case (Inl e)
  with ok show ?thesis by (simp add: advance_finalized_def)
next
  case (Inr s)
  have w: "window_ok (tv_window v)" "knows c (window_find (tv_window v))" using ok by (simp_all add: service_ok_def)
  have "knows c (window_find (window_record b (tv_window v)))"
    using cache.knows_record [OF w] b chain_okD(1) [OF c b] by (simp add: on_chain_def)
  thus ?thesis
    using ok b anc w with_finalized_Inr [OF Inr] Inr by (simp add: advance_finalized_def service_ok_def inv_intros)
qed

lemma new_window_ok: "new_window n = Some w \<Longrightarrow> window_ok w \<and> window_find w = Map.empty"
  by (auto simp: new_window_def window_ok_def window_len_def window_find_def fun_eq_iff split: if_splits)

lemma service_ok_new:
  assumes "chain_ok c" "on_chain c b" "mk_tip_state b None = Inr s" "new_tip_service s None None n = Some v"
  shows "service_ok c v"
proof -
  from assms(4) obtain w where w: "new_window (if n = 0 then 256 else n) = Some w"
      "v = \<lparr>tv_state = s, tv_window = (case ts_finalized s of
                          None \<Rightarrow> window_record (ts_head s) w
                        | Some f \<Rightarrow> window_record f (window_record (ts_head s) w))\<rparr>"
    by (auto simp: new_tip_service_def)
  note s = mk_tip_state_ok [OF assms(3)] and wk = new_window_ok [OF w(1)]
  have "knows c (window_find w)" using wk by (simp add: knows_def)
  hence "knows c (window_find (window_record b w))"
    using cache.knows_record [of w c b] wk assms(2) chain_okD(1) [OF assms(1,2)] by (simp add: on_chain_def)
  with w(2) s wk assms(2) show ?thesis by (simp add: service_ok_def inv_intros)
qed

lemma reached_ok: "reached c v \<Longrightarrow> chain_ok c \<Longrightarrow> service_ok c v"
proof (induction rule: reached.induct)
  case (chosen v bs)
  thus ?case
    by (cases "fork_choose bs") (auto simp: choose_and_apply_def intro: service_ok_applied dest: fork_choose_max)
qed (auto intro: service_ok_new service_ok_evaluated service_ok_applied service_ok_finalized)

end
