(* ===== verification/Tip_Props.thy ===== *)
theory Tip_Props
  imports Tip_Safety
begin

text \<open>
  The properties of the tip-safety service: finality, atomic application, fork choice, block
  references and the window, with the step function of the service's operations.
\<close>

section \<open>Runs\<close>

datatype tip_op = EvaluateOp tip_ref | ApplyOp tip_ref | ChooseOp "tip_ref list" | FinalizeOp tip_ref

fun tip_step :: "tip_service \<Rightarrow> tip_op \<Rightarrow> tip_service" where
  "tip_step v (EvaluateOp b) = fst (evaluate_candidate b v)"
| "tip_step v (ApplyOp b) = fst (apply_candidate b v)"
| "tip_step v (ChooseOp bs) = fst (choose_and_apply bs v)"
| "tip_step v (FinalizeOp b) = fst (advance_finalized b v)"

lemma evaluate_candidate_state [simp]: "tv_state (fst (evaluate_candidate b v)) = tv_state v"
  by (simp add: evaluate_candidate_def split_beta)

lemma finality_le_refl [simp]: "finality_le s s"
  by (simp add: finality_le_def split: option.split)

lemma finality_le_trans: "finality_le s t \<Longrightarrow> finality_le t u \<Longrightarrow> finality_le s u"
  by (auto simp: finality_le_def split: option.splits)

lemma finality_le_same: "ts_finalized s' = ts_finalized s \<Longrightarrow> finality_le s s'"
  by (simp add: finality_le_def split: option.split)

lemma apply_candidate_state:
  "tv_state (fst (apply_candidate b v)) = tv_state v
   \<or> (\<exists>nh s. ad_new_head (snd (evaluate_candidate b v)) = Some nh \<and> with_head nh (tv_state v) = Inr s
        \<and> tv_state (fst (apply_candidate b v)) = s)"
  by (auto simp: apply_candidate_def split_beta Let_def split: option.split sum.split)

lemma step_finality:
  assumes "tip_state_ok (tv_state v)"
  shows "finality_le (tv_state v) (tv_state (tip_step v op)) \<and> tip_state_ok (tv_state (tip_step v op))"
proof -
  have app: "finality_le (tv_state v) (tv_state (fst (apply_candidate b v)))
      \<and> tip_state_ok (tv_state (fst (apply_candidate b v)))" for b
    using apply_candidate_state [of b v] assms with_head_Inr(2,3) by (auto intro: finality_le_same)
  show ?thesis
  proof (cases op)
    case (ChooseOp bs)
    with app assms show ?thesis by (cases "fork_choose bs") (simp_all add: choose_and_apply_def)
  next
    case (FinalizeOp b)
    show ?thesis
    proof (cases "with_finalized b (tv_state v)")
      case (Inr s)
      from with_finalized_Inr [OF Inr] Inr show ?thesis
        unfolding FinalizeOp by (auto simp: advance_finalized_def finality_le_def split: option.split)
    qed (simp add: FinalizeOp advance_finalized_def assms)
  qed (use app assms in simp_all)
qed

section \<open>Accepting means moving\<close>

lemma evaluate_accepts_head:
  assumes "snd (evaluate s b anc) = Inr d"
  shows "ad_new_head d = Some b" "accepted d"
    "\<forall>f. ts_finalized s = Some f \<longrightarrow> tr_height f < tr_height b \<or> tr_height f = tr_height b \<and> tr_hash f = tr_hash b"
proof -
  have roll: "d = accept_as AcceptReorg b" if "snd (evaluate_rollback h b anc) = Inr d" for h
    using that by (auto simp: evaluate_rollback_def window_get_def Let_def split_beta split: option.splits if_splits)
  from assms have "d = accept_as AcceptExtend b \<or> d = accept_as AcceptReorg b"
    by (auto simp: evaluate_def Let_def split: sum.splits if_splits dest!: roll)
  thus "ad_new_head d = Some b" "accepted d" by (auto simp: accept_as_def accepted_def)
  from assms show "\<forall>f. ts_finalized s = Some f \<longrightarrow> tr_height f < tr_height b \<or> tr_height f = tr_height b \<and> tr_hash f = tr_hash b"
    by (auto simp: evaluate_def can_reorg_to_def finalized_floor_height_def Let_def split: sum.splits if_splits)
qed

lemma with_head_ok:
  assumes "\<forall>f. ts_finalized s = Some f \<longrightarrow> tr_height f < tr_height b \<or> tr_height f = tr_height b \<and> tr_hash f = tr_hash b"
  shows "with_head b s = Inr \<lparr>ts_head = b, ts_finalized = ts_finalized s\<rparr>"
  using assms by (auto simp: with_head_def mk_tip_state_def split: option.split)

lemma evaluate_candidate_result:
  "snd (evaluate_candidate b v) = (case snd (evaluate (tv_state v) b (Some (tv_window v))) of Inr d \<Rightarrow> d | Inl e \<Rightarrow> reject_with e)"
  by (simp add: evaluate_candidate_def split_beta Let_def)

section \<open>Fork choice\<close>

lemma fork_choose_eq:
  assumes "inj_on tip_key_of (set bs)" "w \<in> set bs" "\<forall>x \<in> set bs. tip_key_of x \<le> tip_key_of w"
  shows "fork_choose bs = Inr w"
proof -
  obtain w' where w': "fork_choose bs = Inr w'" using assms(2) by (cases bs) (auto simp: fork_choose_def)
  with fork_choose_max [OF w'] assms(2,3) have "tip_key_of w' = tip_key_of w" by (auto intro: order.antisym)
  with fork_choose_max [OF w'] assms(1,2) have "w' = w" by (auto dest: inj_onD)
  with w' show ?thesis by simp
qed

text \<open>Two references with equal height and hash but different parents beat each other.\<close>

lemma beats_same_key: "l \<noteq> r \<Longrightarrow> tip_key_of l = tip_key_of r \<Longrightarrow> beats l r \<and> beats r l"
  by (simp add: beats_def fork_choose_def)

section \<open>A concrete chain\<close>

definition demo_block :: "int \<Rightarrow> string \<Rightarrow> string \<Rightarrow> tip_ref" where
  "demo_block h bh ph = \<lparr>tr_height = h, tr_hash = bh, tr_parent = ph\<rparr>"

definition demo_chain :: "string \<rightharpoonup> tip_ref" where
  "demo_chain = [''a'' \<mapsto> demo_block 0 ''a'' [], ''b'' \<mapsto> demo_block 1 ''b'' ''a'', ''c'' \<mapsto> demo_block 2 ''c'' ''b'']"

lemma demo_chain_ok: "chain_ok demo_chain"
  by (auto simp: chain_ok_def demo_chain_def demo_block_def split: if_splits)

definition demo_start :: tip_service where
  "demo_start = the (new_tip_service \<lparr>ts_head = demo_block 0 ''a'' [], ts_finalized = None\<rparr> None None 8)"

lemma demo_start_eq:
  "demo_start = \<lparr>tv_state = \<lparr>ts_head = demo_block 0 ''a'' [], ts_finalized = None\<rparr>,
     tv_window = \<lparr>aw_max = 8, aw_by_hash = [(''a'', demo_block 0 ''a'' [])], aw_by_height = [0 \<mapsto> ''a'']\<rparr>\<rparr>"
  by (simp add: demo_start_def new_tip_service_def new_window_def window_record_def move_to_end_def demo_block_def Let_def)

lemma demo_start_reached: "reached demo_chain demo_start"
  unfolding demo_start_def
  by (rule reached.start [of demo_chain "demo_block 0 ''a'' []" "\<lparr>ts_head = demo_block 0 ''a'' [], ts_finalized = None\<rparr>" 8])
    (simp_all add: on_chain_def demo_chain_def demo_block_def mk_tip_state_def new_tip_service_def new_window_def)

definition demo_tip :: tip_service where
  "demo_tip = fst (apply_candidate (demo_block 1 ''b'' ''a'') demo_start)"

lemma demo_tip_eq:
  "demo_tip = \<lparr>tv_state = \<lparr>ts_head = demo_block 1 ''b'' ''a'', ts_finalized = None\<rparr>,
     tv_window = \<lparr>aw_max = 8, aw_by_hash = [(''a'', demo_block 0 ''a'' []), (''b'', demo_block 1 ''b'' ''a'')],
       aw_by_height = [0 \<mapsto> ''a'', 1 \<mapsto> ''b'']\<rparr>\<rparr>"
  by (simp add: demo_tip_def demo_start_eq apply_candidate_def evaluate_candidate_def evaluate_def can_reorg_to_def
      finalized_floor_height_def demo_block_def accept_as_def accepted_def with_head_def mk_tip_state_def
      window_record_def move_to_end_def Let_def)

lemma demo_tip_reached: "reached demo_chain demo_tip"
  unfolding demo_tip_def
  by (rule reached.applied [OF demo_start_reached]) (simp add: on_chain_def demo_chain_def demo_block_def)

section \<open>The window keeps the last blocks\<close>

lemma move_to_end_fresh: "k \<notin> set (dict_keys d) \<Longrightarrow> move_to_end k b d = d @ [(k, b)]"
  by (force simp: move_to_end_def intro: filter_True)

lemma records_contents:
  assumes "new_window n = Some w" "distinct (map tr_hash bs)"
  shows "aw_by_hash (fold window_record bs w) = map (\<lambda>b. (tr_hash b, b)) (drop (length bs - nat n) bs)
    \<and> aw_max (fold window_record bs w) = n"
  using assms(2)
proof (induction bs rule: rev_induct)
  case Nil
  with assms(1) show ?case by (auto simp: new_window_def split: if_splits)
next
  case (snoc b bs)
  let ?w = "fold window_record bs w" and ?e = "\<lambda>b. (tr_hash b, b)"
  have n: "1 \<le> n" using assms(1) by (auto simp: new_window_def split: if_splits)
  from snoc have IH: "aw_by_hash ?w = map ?e (drop (length bs - nat n) bs)" "aw_max ?w = n" by simp_all
  have "tr_hash b \<notin> set (dict_keys (aw_by_hash ?w))"
    using snoc.prems by (auto simp: IH dest: in_set_dropD)
  hence m: "move_to_end (tr_hash b) b (aw_by_hash ?w) = map ?e (drop (length bs - nat n) bs @ [b])"
    by (simp add: move_to_end_fresh IH)
  have "drop (length (drop (length bs - nat n) bs @ [b]) - nat n) (drop (length bs - nat n) bs @ [b]) =
      drop (length (bs @ [b]) - nat n) (bs @ [b])"
    using n by (cases "length bs < nat n") (auto simp: Suc_diff_le not_less)
  hence "fst (evict n (map ?e (drop (length bs - nat n) bs @ [b])) hs) = map ?e (drop (length (bs @ [b]) - nat n) (bs @ [b]))" for hs
    using n by (subst evict_drop) (simp_all only: length_map drop_map)
  with IH(2) m show ?case by (simp add: window_record_fields)
qed

section \<open>The zero digest\<close>

lemma lower_char_zero: "lower_char c = CHR ''0'' \<Longrightarrow> c = CHR ''0''"
proof (rule ccontr)
  assume l: "lower_char c = CHR ''0''" and "c \<noteq> CHR ''0''"
  let ?n = "of_char c :: nat"
  from l \<open>c \<noteq> CHR ''0''\<close> have n: "65 \<le> ?n" "?n \<le> 90" "char_of (?n + 32) = CHR ''0''"
    by (auto simp: lower_char_def Let_def split: if_splits)
  have "of_char (char_of (?n + 32) :: char) = (of_char CHR ''0'' :: nat)" by (simp only: n(3))
  hence "(?n + 32) mod 256 = 48" by (simp only: of_char_of) simp
  moreover have "(?n + 32) mod 256 = ?n + 32" using n(2) by (intro mod_less) linarith
  ultimately show False using n(1) by linarith
qed

lemma lower_zero_digest:
  assumes "py_lower t = zero_digest" shows "t = zero_digest"
proof -
  have len: "length t = 64" using arg_cong [OF assms, of length] by (simp add: zero_digest_def)
  have "lower_char c = CHR ''0''" if "c \<in> set t" for c
    using arg_cong [OF assms, of set] that by (auto simp: py_lower_def zero_digest_def)
  hence "replicate (length t) CHR ''0'' = t" by (intro replicate_length_same) (blast intro: lower_char_zero)
  with len show ?thesis by (simp only: zero_digest_def)
qed

lemma normalize_zero:
  assumes "normalize_block_hash s = Inr zero_digest" shows "py_strip s = zero_digest \<or> py_strip s = ''0x'' @ zero_digest"
proof -
  from assms consider "py_lower (py_strip s) = zero_digest"
    | "take 2 (py_strip s) = ''0x''" "py_lower (drop 2 (py_strip s)) = zero_digest"
    by (auto simp: normalize_block_hash_def Let_def split: if_splits)
  thus ?thesis
  proof cases
    case 2
    thus ?thesis by (metis append_take_drop_id lower_zero_digest)
  qed (simp add: lower_zero_digest)
qed

section \<open>Properties\<close>

text \<open>
  C34. finality is safe. In every state a service reaches on a chain of blocks, when each
  checkpoint handed to \<open>advance_finalized\<close> was an ancestor of the tip at that time, the finalized
  checkpoint is an ancestor of the tip and not above it: no accepted extension, replacement or
  rollback ever leaves the finalized block behind.
\<close>

theorem finalized_stays_ancestor:
  assumes "reached c v" "chain_ok c" "ts_finalized (tv_state v) = Some f"
  shows "ancestor c (tr_hash f) (ts_head (tv_state v)) \<and> tr_height f \<le> tr_height (ts_head (tv_state v))"
  using reached_ok [OF assms(1,2)] assms(3) by (simp add: service_ok_def tip_state_ok_def)

lemma finalized_stays_ancestor_witness:
  "ancestor demo_chain ''a'' (ts_head (tv_state (fst (advance_finalized (demo_block 0 ''a'' []) demo_tip))))"
proof -
  have b: "on_chain demo_chain (demo_block 0 ''a'' [])" by (simp add: on_chain_def demo_chain_def demo_block_def)
  have "ancestor demo_chain (tr_parent (demo_block 1 ''b'' ''a'')) (demo_block 1 ''b'' ''a'')" by (rule ancestor.parent)
  hence "ancestor demo_chain (tr_hash (demo_block 0 ''a'' [])) (ts_head (tv_state demo_tip))"
    by (simp add: demo_tip_eq demo_block_def)
  from reached.finalized [OF demo_tip_reached b this]
  have "reached demo_chain (fst (advance_finalized (demo_block 0 ''a'' []) demo_tip))" .
  from finalized_stays_ancestor [OF this demo_chain_ok, of "demo_block 0 ''a'' []"] show ?thesis
    by (simp add: advance_finalized_def with_finalized_def mk_tip_state_def demo_tip_eq demo_block_def)
qed

text \<open>
  finality is monotone with no assumption on the caller. Whatever operations follow, the
  finalized checkpoint never goes back and never changes its hash at the same height, and it never
  lies above the tip.
\<close>

theorem tip_finality_monotone:
  assumes "tip_state_ok (tv_state v)"
  shows "finality_le (tv_state v) (tv_state (foldl tip_step v ops)) \<and> tip_state_ok (tv_state (foldl tip_step v ops))"
  using assms
proof (induction ops arbitrary: v)
  case (Cons op ops)
  with step_finality [OF Cons.prems, of op] show ?case by (auto intro: finality_le_trans)
qed simp

lemma tip_finality_monotone_witness:
  "tip_state_ok (tv_state (foldl tip_step demo_tip [FinalizeOp (demo_block 1 ''b'' ''a''), ApplyOp (demo_block 2 ''c'' ''b'')]))"
proof -
  have "tip_state_ok (tv_state demo_tip)" by (simp add: demo_tip_eq tip_state_ok_def)
  from tip_finality_monotone [OF this] show ?thesis by blast
qed

text \<open>Applying is atomic, and the second check inside \<open>apply_candidate\<close> never fires. The decision
  is the one of \<open>evaluate_candidate\<close>; when it accepts, the candidate is the new tip and the finalized
  checkpoint is kept; when it rejects, the tip state is untouched.\<close>

theorem apply_candidate_atomic:
  "snd (apply_candidate b v) = snd (evaluate_candidate b v)
   \<and> tv_state (fst (apply_candidate b v)) =
      (if accepted (snd (apply_candidate b v))
       then \<lparr>ts_head = b, ts_finalized = ts_finalized (tv_state v)\<rparr> else tv_state v)"
proof (cases "snd (evaluate (tv_state v) b (Some (tv_window v)))")
  case (Inl e)
  thus ?thesis by (simp add: apply_candidate_def evaluate_candidate_result split_beta Let_def reject_with_def accepted_def)
next
  case (Inr d)
  note h = evaluate_accepts_head [OF Inr]
  from with_head_ok [OF h(3)] h(1,2) Inr show ?thesis
    by (simp add: apply_candidate_def evaluate_candidate_result split_beta Let_def)
qed

text \<open>
  fork choice is deterministic. Among references with different (height, hash) keys the
  winner does not depend on the order in which they arrive, and every other candidate has a smaller key.
\<close>

theorem fork_choice_order_independent:
  assumes "inj_on tip_key_of (set bs)" "set bs' = set bs" "bs \<noteq> []"
  shows "\<exists>w \<in> set bs. fork_choose bs = Inr w \<and> fork_choose bs' = Inr w
    \<and> (\<forall>x \<in> set bs. x \<noteq> w \<longrightarrow> tip_key_of x < tip_key_of w)"
proof -
  obtain w where w: "fork_choose bs = Inr w" using assms(3) by (cases bs) (auto simp: fork_choose_def)
  note m = fork_choose_max [OF w]
  have "fork_choose bs' = Inr w" using fork_choose_eq [of bs' w] assms(1,2) m by simp
  moreover have "tip_key_of x < tip_key_of w" if "x \<in> set bs" "x \<noteq> w" for x
    using m that inj_onD [OF assms(1), of x w] by (auto simp: order.strict_iff_order)
  ultimately show ?thesis using w m by blast
qed

lemma fork_choice_witness:
  "fork_choose [demo_block 2 ''d'' ''b'', demo_block 2 ''c'' ''b''] = fork_choose [demo_block 2 ''c'' ''b'', demo_block 2 ''d'' ''b'']"
proof -
  have "inj_on tip_key_of (set [demo_block 2 ''d'' ''b'', demo_block 2 ''c'' ''b''])"
    by (simp add: tip_key_of_def demo_block_def)
  from fork_choice_order_independent [OF this, of "[demo_block 2 ''c'' ''b'', demo_block 2 ''d'' ''b'']"]
  show ?thesis by (force simp: insert_commute)
qed

text \<open>A block reference is in canonical form. Its digest is 64 lower-case hex characters without
  prefix, a prefix on the way in makes no difference, and building the reference again from its own
  fields gives it back.\<close>

theorem mk_tip_ref_canonical:
  assumes "mk_tip_ref h bh ph = Inr b"
  shows "wf_tip_ref b \<and> mk_tip_ref (tr_height b) (tr_hash b) (tr_parent b) = Inr b
    \<and> mk_tip_ref h (''0x'' @ tr_hash b) ph = Inr b"
proof -
  have w: "wf_tip_ref b" "tr_height b = h" using wf_mk_tip_ref [OF assms] by simp_all
  hence wf: "is_digest (tr_hash b)" "py_lower (tr_hash b) = tr_hash b" "wf_tip_ref b" "tr_height b = h"
    by (simp_all add: wf_tip_ref_def)
  have nh: "normalize_block_hash (tr_hash b) = Inr (tr_hash b)" using normalize_digest [OF wf(1)] wf(2) by simp
  have "\<not> is_digest (''0x'' @ tr_hash b)" using wf(1) by (simp add: is_digest_def)
  moreover have "py_strip (''0x'' @ tr_hash b) = ''0x'' @ tr_hash b"
  proof -
    obtain x y where "tr_hash b = x @ [y]" "is_hex y"
      using wf(1) by (cases "tr_hash b" rule: rev_cases) (auto simp: is_digest_def)
    thus ?thesis by (simp add: py_strip_def digest_no_space) (simp add: py_space_def Let_def)
  qed
  ultimately have px: "normalize_block_hash (''0x'' @ tr_hash b) = Inr (tr_hash b)"
    using wf by (simp add: normalize_block_hash_def Let_def)
  from assms have nb: "normalize_block_hash bh = Inr (tr_hash b)"
    by (auto simp: mk_tip_ref_def split: sum.splits if_splits)
  have "mk_tip_ref h (''0x'' @ tr_hash b) ph = mk_tip_ref h bh ph"
    unfolding mk_tip_ref_def by (simp only: px nb)
  with assms have two: "mk_tip_ref h (''0x'' @ tr_hash b) ph = Inr b" by simp
  have "mk_tip_ref (tr_height b) (tr_hash b) (tr_parent b) = Inr b"
  proof (cases "tr_parent b = ''''")
    case True
    with wf(3) have "tr_height b = 0" by (auto simp: wf_tip_ref_def is_digest_def)
    with True nh show ?thesis by (cases b) (simp add: mk_tip_ref_def)
  next
    case False
    with wf(3) have p: "is_digest (tr_parent b)" "py_lower (tr_parent b) = tr_parent b" "0 \<le> tr_height b"
      by (auto simp: wf_tip_ref_def)
    have "tr_height b = 0 \<Longrightarrow> tr_parent b \<noteq> zero_digest"
      using assms False wf(4) by (auto simp: mk_tip_ref_def dest!: normalize_zero split: sum.splits if_splits)
    moreover have "tr_parent b \<noteq> ''0x'' @ zero_digest" using p(1) by (auto simp: is_digest_def zero_digest_def)
    ultimately show ?thesis
      using p False nh normalize_digest [OF p(1)] strip_digest [OF p(1)] by (auto simp: mk_tip_ref_def)
  qed
  with wf(3) two show ?thesis by blast
qed

lemma mk_tip_ref_witness:
  "wf_tip_ref \<lparr>tr_height = 3, tr_hash = zero_digest, tr_parent = zero_digest\<rparr>"
proof -
  have "is_hex CHR ''0''" by (simp add: is_hex_def Let_def)
  hence d: "is_digest zero_digest" by (simp add: is_digest_def zero_digest_def list_all_iff)
  have "py_lower zero_digest = zero_digest" by (simp add: zero_digest_def py_lower_def lower_char_def Let_def)
  with normalize_digest [OF d] strip_digest [OF d] d
  have "mk_tip_ref 3 zero_digest zero_digest = Inr \<lparr>tr_height = 3, tr_hash = zero_digest, tr_parent = zero_digest\<rparr>"
    by (simp add: mk_tip_ref_def) (simp add: zero_digest_def)
  from mk_tip_ref_canonical [OF this] show ?thesis by blast
qed

text \<open>The window holds exactly the last blocks. After recording blocks with different digests
  into a new window of capacity n, it contains the last n of them in order, and nothing else.\<close>

theorem window_holds_last:
  assumes "new_window n = Some w" "distinct (map tr_hash bs)"
  shows "aw_by_hash (fold window_record bs w) = map (\<lambda>b. (tr_hash b, b)) (drop (length bs - nat n) bs)
    \<and> window_len (fold window_record bs w) = min n (int (length bs))"
proof -
  have "1 \<le> n" using assms(1) by (auto simp: new_window_def split: if_splits)
  with records_contents [OF assms] show ?thesis by (auto simp: window_len_def)
qed

lemma window_holds_last_witness:
  "window_len (fold window_record [demo_block 0 ''a'' [], demo_block 1 ''b'' ''a'', demo_block 2 ''c'' ''b'']
     \<lparr>aw_max = 2, aw_by_hash = [], aw_by_height = Map.empty\<rparr>) = 2"
proof -
  have "new_window 2 = Some \<lparr>aw_max = 2, aw_by_hash = [], aw_by_height = Map.empty\<rparr>" by (simp add: new_window_def)
  from window_holds_last [OF this, of "[demo_block 0 ''a'' [], demo_block 1 ''b'' ''a'', demo_block 2 ''c'' ''b'']"]
  show ?thesis by (simp add: demo_block_def)
qed

text \<open>\<open>advance_finalized\<close> does not look at ancestry. Without a checkpoint yet, any reference at
  or below the tip's height is accepted, also one with another hash at the height of the tip, and
  then the tip contradicts the finalized checkpoint.\<close>

theorem advance_finalized_unchecked:
  assumes "ts_finalized (tv_state v) = None" "tr_height b = tr_height (ts_head (tv_state v))"
    and "tr_hash b \<noteq> tr_hash (ts_head (tv_state v))"
  shows "\<exists>s. snd (advance_finalized b v) = Inr s \<and> ts_finalized s = Some b
    \<and> with_head (ts_head s) s = Inl TipFinalityRegress"
  using assms by (simp add: advance_finalized_def with_finalized_def mk_tip_state_def with_head_def)

lemma advance_finalized_unchecked_witness:
  "\<exists>s. snd (advance_finalized (demo_block 1 ''x'' ''y'') demo_tip) = Inr s
     \<and> ts_finalized s = Some (demo_block 1 ''x'' ''y'')"
proof -
  have "ts_finalized (tv_state demo_tip) = None" "ts_head (tv_state demo_tip) = demo_block 1 ''b'' ''a''"
    by (simp_all add: demo_tip_eq)
  with advance_finalized_unchecked [of demo_tip "demo_block 1 ''x'' ''y''"] show ?thesis
    by (auto simp: demo_block_def)
qed

end
