(* ===== verification/Json_Block.thy ===== *)
theory Json_Block
  imports Prelude
begin

text \<open>
  The block dictionaries peers send: of the JSON object only the keys the consensus and sync code
  reads are kept, each present or absent.
\<close>

text \<open>
  A JSON value where a height is expected: an integer, something else that \<open>int()\<close> converts and that
  is true in a condition (a numeral text, a non-zero float), or something \<open>int()\<close> raises on.
\<close>

datatype json_int = IntValue int | IntLike int | NotAnInt

record block_data =
  bd_height :: "json_int option"
  bd_number :: "json_int option"
  bd_hash :: "string option"
  bd_block_hash :: "string option"
  bd_parent :: "string option"

fun to_int :: "json_int \<Rightarrow> int option" where
  "to_int (IntValue n) = Some n"
| "to_int (IntLike n) = Some n"
| "to_int NotAnInt = None"

text \<open>\<open>data.get("height", data.get("number", default))\<close>.\<close>

definition json_height :: "block_data \<Rightarrow> json_int \<Rightarrow> json_int" where
  "json_height d other =
     (case bd_height d of Some h \<Rightarrow> h | None \<Rightarrow> (case bd_number d of Some n \<Rightarrow> n | None \<Rightarrow> other))"

text \<open>\<open>str(x or "")\<close> of an optional text.\<close>

definition text_or :: "string option \<Rightarrow> string \<Rightarrow> string" where
  "text_or x d = (case x of None \<Rightarrow> d | Some s \<Rightarrow> if s = '''' then d else s)"

end
