(* ===== verification/Tip_Shadow.thy ===== *)
theory Tip_Shadow
  imports Tip_Props Json_Block
begin

text \<open>
  \<open>consensus/tip_safety/shadow.py\<close>: the import gate. A block announcement is a JSON object of which
  the fields read are modelled; the blockchain facade is a view of what its methods return or
  whether they raise. Exceptions inside the observer end in its error counters, as in the code.
\<close>

section \<open>What the observer reads\<close>

datatype lookup = Raises | NoBlock | NotAMapping | Block block_data

record chain_view =
  cw_height :: "unit + int option"
  cw_genesis :: string
  cw_last :: lookup
  cw_block :: "int \<Rightarrow> lookup"

definition block_ref_from_mapping :: "block_data \<Rightarrow> (tip_error, tip_ref) result" where
  "block_ref_from_mapping d =
     (case to_int (json_height d (IntValue (-1))) of
        None \<Rightarrow> raise TipValidation
      | Some height \<Rightarrow>
          (let raw_hash = (case bd_hash d of Some h \<Rightarrow> h
                           | None \<Rightarrow> (case bd_block_hash d of Some h \<Rightarrow> h | None \<Rightarrow> ''''));
               parent = (case bd_parent d of Some p \<Rightarrow> p | None \<Rightarrow> '''');
               parent' = (if height = 0 \<and> py_strip parent = '''' then '''' else parent)
           in mk_tip_ref height raw_hash parent'))"

definition tip_state_from_chain :: "chain_view \<Rightarrow> (tip_error, tip_state) result" where
  "tip_state_from_chain cw =
     (case cw_height cw of
        Inl _ \<Rightarrow> raise TipValidation
      | Inr raw_h \<Rightarrow>
          (let height = (case raw_h of Some h \<Rightarrow> h | None \<Rightarrow> -1);
               genesis = (if cw_genesis cw = '''' then zero_digest else cw_genesis cw);
               found = (case cw_last cw of NoBlock \<Rightarrow> if 0 \<le> height then cw_block cw height else NoBlock | l \<Rightarrow> l)
           in case found of
                Raises \<Rightarrow> raise TipValidation
              | Block d \<Rightarrow> (case block_ref_from_mapping d of Inl e \<Rightarrow> raise e | Inr b \<Rightarrow> mk_tip_state b None)
              | _ \<Rightarrow> if 0 < height then raise TipValidation
                     else (case mk_tip_ref 0 genesis '''' of Inl e \<Rightarrow> raise e | Inr b \<Rightarrow> mk_tip_state b None)))"

section \<open>TipSafetyShadowObserver\<close>

record observer =
  ob_enabled :: bool
  ob_enforce :: bool
  ob_service :: "tip_service option"
  ob_last :: "apply_decision option"
  ob_observed :: int
  ob_accepted :: int
  ob_rejected :: int
  ob_reject_by_code :: "(string, int) dict"
  ob_diverge_reject_ok :: int
  ob_diverge_accept_fail :: int
  ob_enforce_refused :: int
  ob_observe_errors :: int
  ob_sync_errors :: int

definition new_observer :: "bool \<Rightarrow> bool \<Rightarrow> observer" where
  "new_observer enabled enforce =
     \<lparr>ob_enabled = (enabled \<or> enforce), ob_enforce = enforce, ob_service = None, ob_last = None,
      ob_observed = 0, ob_accepted = 0, ob_rejected = 0, ob_reject_by_code = [], ob_diverge_reject_ok = 0,
      ob_diverge_accept_fail = 0, ob_enforce_refused = 0, ob_observe_errors = 0, ob_sync_errors = 0\<rparr>"

text \<open>\<open>max_blocks\<close> is \<open>TIP_ANCESTRY_WINDOW_MAX\<close> from the environment.\<close>

definition sync_from_chain :: "int \<Rightarrow> chain_view \<Rightarrow> observer \<Rightarrow> observer \<times> bool" where
  "sync_from_chain max_blocks cw ob =
     (if \<not> ob_enabled ob then (ob, False)
      else (case tip_state_from_chain cw of
        Inl _ \<Rightarrow> (ob\<lparr>ob_sync_errors := ob_sync_errors ob + 1\<rparr>, False)
      | Inr s \<Rightarrow>
          (case new_tip_service s None None (max 1 max_blocks) of
             None \<Rightarrow> (ob\<lparr>ob_sync_errors := ob_sync_errors ob + 1\<rparr>, False)
           | Some v \<Rightarrow> (ob\<lparr>ob_service := Some v\<rparr>, True))))"

definition count_decision :: "apply_decision \<Rightarrow> observer \<Rightarrow> observer" where
  "count_decision d ob =
     (let ob1 = ob\<lparr>ob_observed := ob_observed ob + 1, ob_last := Some d\<rparr>
      in if accepted d then ob1\<lparr>ob_accepted := ob_accepted ob1 + 1\<rparr>
         else (let code = (if ad_reason d = '''' then ''unknown'' else ad_reason d)
               in ob1\<lparr>ob_rejected := ob_rejected ob1 + 1,
                      ob_reject_by_code :=
                        dict_set code (dict_get (ob_reject_by_code ob1) code 0 + 1) (ob_reject_by_code ob1)\<rparr>))"

definition observe_before_import ::
  "int \<Rightarrow> block_data \<Rightarrow> chain_view \<Rightarrow> observer \<Rightarrow> observer \<times> apply_decision option" where
  "observe_before_import max_blocks d cw ob =
     (if \<not> ob_enabled ob then (ob, None)
      else (let ob1 = (if ob_service ob = None then fst (sync_from_chain max_blocks cw ob) else ob)
        in case ob_service ob1 of
             None \<Rightarrow> (ob1\<lparr>ob_observe_errors := ob_observe_errors ob1 + 1\<rparr>, None)
           | Some v \<Rightarrow>
               (case block_ref_from_mapping d of
                  Inl _ \<Rightarrow> (ob1\<lparr>ob_observe_errors := ob_observe_errors ob1 + 1, ob_last := None\<rparr>, None)
                | Inr b \<Rightarrow>
                    (let (v', dec) = evaluate_candidate b v
                     in (count_decision dec (ob1\<lparr>ob_service := Some v'\<rparr>), Some dec)))))"

definition allows_import :: "observer \<Rightarrow> apply_decision option \<Rightarrow> bool" where
  "allows_import ob d =
     (if \<not> ob_enforce ob then True else (case d of None \<Rightarrow> False | Some dec \<Rightarrow> accepted dec))"

definition outcome_value :: "apply_outcome \<Rightarrow> string" where
  "outcome_value out = (case out of AcceptExtend \<Rightarrow> ''accept_extend'' | AcceptReorg \<Rightarrow> ''accept_reorg'' | Reject \<Rightarrow> ''reject'')"

definition record_enforce_refuse :: "apply_decision option \<Rightarrow> observer \<Rightarrow> observer \<times> string" where
  "record_enforce_refuse d ob =
     (ob\<lparr>ob_enforce_refused := ob_enforce_refused ob + 1, ob_last := None\<rparr>,
      case d of None \<Rightarrow> ''tip_safety_observe_error''
      | Some dec \<Rightarrow> if ad_reason dec = '''' then outcome_value (ad_outcome dec) else ad_reason dec)"

definition note_import_result :: "int \<Rightarrow> bool \<Rightarrow> chain_view \<Rightarrow> observer \<Rightarrow> observer" where
  "note_import_result max_blocks imported_ok cw ob =
     (if \<not> ob_enabled ob then ob
      else (let ob1 = ob\<lparr>ob_last := None\<rparr>;
                ob2 = (case ob_last ob of
                         None \<Rightarrow> ob1
                       | Some d \<Rightarrow>
                           if ob_enforce ob then ob1
                           else if \<not> accepted d \<and> imported_ok then ob1\<lparr>ob_diverge_reject_ok := ob_diverge_reject_ok ob1 + 1\<rparr>
                           else if accepted d \<and> \<not> imported_ok then ob1\<lparr>ob_diverge_accept_fail := ob_diverge_accept_fail ob1 + 1\<rparr>
                           else ob1)
            in if imported_ok then fst (sync_from_chain max_blocks cw ob2) else ob2))"

section \<open>Runs of the gate\<close>

datatype gate_op =
    Sync int chain_view
  | Observe int block_data chain_view
  | Refuse "apply_decision option"
  | Note int bool chain_view

fun gate_step :: "observer \<Rightarrow> gate_op \<Rightarrow> observer" where
  "gate_step ob (Sync n cw) = fst (sync_from_chain n cw ob)"
| "gate_step ob (Observe n d cw) = fst (observe_before_import n d cw ob)"
| "gate_step ob (Refuse d) = fst (record_enforce_refuse d ob)"
| "gate_step ob (Note n ok cw) = note_import_result n ok cw ob"

text \<open>
  The gate's invariant: every observation is accepted or rejected, rejections are counted per code,
  and the service has no finalized checkpoint and a window holding the tip only.
\<close>

definition service_synced :: "tip_service \<Rightarrow> bool" where
  "service_synced v \<longleftrightarrow> ts_finalized (tv_state v) = None
     \<and> aw_by_hash (tv_window v) = [(tr_hash (ts_head (tv_state v)), ts_head (tv_state v))]"

definition gate_ok :: "observer \<Rightarrow> bool" where
  "gate_ok ob \<longleftrightarrow> ob_observed ob = ob_accepted ob + ob_rejected ob
     \<and> sum_list (dict_values (ob_reject_by_code ob)) = ob_rejected ob
     \<and> (ob_enforce ob \<longrightarrow> ob_diverge_reject_ok ob = 0 \<and> ob_diverge_accept_fail ob = 0)
     \<and> (\<forall>v. ob_service ob = Some v \<longrightarrow> service_synced v)"

lemma sum_dict_bump:
  "sum_list (dict_values (dict_set k (dict_get d k 0 + 1) d)) = sum_list (dict_values d) + (1 :: int)"
  by (induction d) (auto simp: dict_get_def)

lemma new_service_synced:
  assumes "mk_tip_state b None = Inr s" "new_tip_service s None None n = Some v" "1 \<le> n"
  shows "service_synced v"
proof -
  note s = mk_tip_state_ok [OF assms(1)]
  show ?thesis
    using assms(2,3) s
    by (auto simp: new_tip_service_def new_window_def window_record_def move_to_end_def Let_def service_synced_def)
qed

lemma chain_state: "tip_state_from_chain cw = Inr s \<Longrightarrow> \<exists>b. mk_tip_state b None = Inr s"
  by (auto simp: tip_state_from_chain_def Let_def split: sum.splits lookup.splits if_splits)

lemma sync_ok [inv_intros]: "gate_ok ob \<Longrightarrow> gate_ok (fst (sync_from_chain n cw ob))"
  by (auto simp: sync_from_chain_def gate_ok_def split: sum.split option.split
      dest!: chain_state intro: new_service_synced)

lemma sync_frame [simp]: "ob_enforce (fst (sync_from_chain n cw ob)) = ob_enforce ob"
  by (simp add: sync_from_chain_def split: sum.split option.split)

lemma synced_evaluate:
  assumes "service_synced v"
  shows "service_synced (fst (evaluate_candidate b v))"
    and "accepted (snd (evaluate_candidate b v)) \<Longrightarrow>
      tr_height b = tr_height (ts_head (tv_state v)) + 1 \<and> tr_parent b = tr_hash (ts_head (tv_state v))
      \<or> tr_height b = tr_height (ts_head (tv_state v)) \<and> tr_parent b = tr_parent (ts_head (tv_state v))
         \<and> tr_hash b \<noteq> tr_hash (ts_head (tv_state v))"
proof -
  let ?t = "ts_head (tv_state v)" and ?w = "tv_window v"
  have one: "aw_by_hash ?w = [(tr_hash ?t, ?t)]" and fin: "ts_finalized (tv_state v) = None"
    using assms by (simp_all add: service_synced_def)
  have touch: "aw_by_hash (window_touch k ?w) = [(tr_hash ?t, ?t)]" for k
    using one by (simp add: window_touch_def window_find_def move_to_end_def split: option.split)
  have roll: "\<exists>w'. fst (evaluate_rollback ?t b (Some ?w)) = Some w' \<and> aw_by_hash w' = [(tr_hash ?t, ?t)]
      \<and> (\<exists>e. snd (evaluate_rollback ?t b (Some ?w)) = Inl e)" if "tr_height b \<noteq> tr_height ?t"
    using that one touch
    by (auto simp: evaluate_rollback_def window_get_def window_find_def Let_def)
  have "\<exists>w'. fst (evaluate (tv_state v) b (Some ?w)) = Some w' \<and> aw_by_hash w' = [(tr_hash ?t, ?t)]"
    using roll one by (auto simp: evaluate_def Let_def split: sum.split)
  thus "service_synced (fst (evaluate_candidate b v))"
    using fin by (auto simp: evaluate_candidate_def service_synced_def split_beta Let_def)
  assume acc: "accepted (snd (evaluate_candidate b v))"
  then obtain d where "snd (evaluate (tv_state v) b (Some ?w)) = Inr d"
    by (auto simp: evaluate_candidate_result reject_with_def accepted_def split: sum.splits)
  thus "tr_height b = tr_height ?t + 1 \<and> tr_parent b = tr_hash ?t
      \<or> tr_height b = tr_height ?t \<and> tr_parent b = tr_parent ?t \<and> tr_hash b \<noteq> tr_hash ?t"
    using roll by (auto simp: evaluate_def Let_def split: sum.splits if_splits)
qed

lemma count_ok:
  assumes "gate_ok ob" "service_synced v" shows "gate_ok (count_decision d (ob\<lparr>ob_service := Some v\<rparr>))"
  using assms by (auto simp: count_decision_def gate_ok_def Let_def sum_dict_bump)

lemma gate_ok_error: "gate_ok ob \<Longrightarrow> gate_ok (ob\<lparr>ob_observe_errors := n\<rparr>)"
  "gate_ok ob \<Longrightarrow> gate_ok (ob\<lparr>ob_observe_errors := n, ob_last := l\<rparr>)"
  "gate_ok ob \<Longrightarrow> gate_ok (ob\<lparr>ob_last := l\<rparr>)"
  "gate_ok ob \<Longrightarrow> gate_ok (ob\<lparr>ob_enforce_refused := n, ob_last := l\<rparr>)"
  by (simp_all add: gate_ok_def)

lemma observe_ok [inv_intros]: "gate_ok ob \<Longrightarrow> gate_ok (fst (observe_before_import n d cw ob))"
proof -
  assume ok: "gate_ok ob"
  define ob1 where "ob1 = (if ob_service ob = None then fst (sync_from_chain n cw ob) else ob)"
  have ok1: "gate_ok ob1" using ok by (simp add: ob1_def inv_intros)
  hence syn: "ob_service ob1 = Some v \<Longrightarrow> service_synced v" for v by (simp add: gate_ok_def)
  show ?thesis
    unfolding observe_before_import_def Let_def ob1_def [symmetric]
    using ok ok1 syn
    by (auto simp: gate_ok_error split_beta intro!: count_ok synced_evaluate(1) split: option.split sum.split)
qed

lemma note_ok [inv_intros]:
  assumes "gate_ok ob" shows "gate_ok (note_import_result n ok cw ob)"
proof -
  define ob2 where "ob2 = (case ob_last ob of
      None \<Rightarrow> ob\<lparr>ob_last := None\<rparr>
    | Some d \<Rightarrow>
        if ob_enforce ob then ob\<lparr>ob_last := None\<rparr>
        else if \<not> accepted d \<and> ok then ob\<lparr>ob_last := None, ob_diverge_reject_ok := ob_diverge_reject_ok ob + 1\<rparr>
        else if accepted d \<and> \<not> ok then ob\<lparr>ob_last := None, ob_diverge_accept_fail := ob_diverge_accept_fail ob + 1\<rparr>
        else ob\<lparr>ob_last := None\<rparr>)"
  have "gate_ok ob2" using assms by (auto simp: ob2_def gate_ok_def split: option.split)
  moreover have "note_import_result n ok cw ob =
      (if \<not> ob_enabled ob then ob else if ok then fst (sync_from_chain n cw ob2) else ob2)"
    by (simp add: note_import_result_def ob2_def Let_def split: option.split)
  ultimately show ?thesis using assms by (simp add: inv_intros)
qed

lemma gate_ok_run: "gate_ok ob \<Longrightarrow> gate_ok (foldl gate_step ob ops)"
proof (induction ops arbitrary: ob)
  case (Cons op ops)
  have "gate_ok (gate_step ob op)"
    using Cons.prems by (cases op) (auto simp: record_enforce_refuse_def gate_ok_error intro: inv_intros)
  with Cons show ?case by simp
qed simp

lemma gate_ok_new: "gate_ok (new_observer e f)"
  by (simp add: gate_ok_def new_observer_def)

lemma enforce_run [simp]: "ob_enforce (foldl gate_step ob ops) = ob_enforce ob"
proof (induction ops arbitrary: ob)
  case (Cons op ops)
  have "ob_enforce (gate_step ob op) = ob_enforce ob"
    by (cases op) (auto simp: record_enforce_refuse_def observe_before_import_def note_import_result_def
        count_decision_def Let_def split_beta split: option.split sum.split)
  with Cons show ?case by simp
qed simp

section \<open>A concrete gate\<close>

definition digest_of :: "char \<Rightarrow> string" where
  "digest_of c = replicate 64 c"

definition demo_data :: "int \<Rightarrow> char \<Rightarrow> char \<Rightarrow> block_data" where
  "demo_data h c p = \<lparr>bd_height = Some (IntValue h), bd_number = None, bd_hash = Some (digest_of c),
     bd_block_hash = None, bd_parent = Some (digest_of p)\<rparr>"

definition demo_view :: chain_view where
  "demo_view = \<lparr>cw_height = Inr (Some 5), cw_genesis = [], cw_last = Block (demo_data 5 CHR ''2'' CHR ''1''),
     cw_block = (\<lambda>_. NoBlock)\<rparr>"

lemma demo_ref:
  assumes "c \<in> {CHR ''1'', CHR ''2'', CHR ''3''}" "p \<in> {CHR ''1'', CHR ''2'', CHR ''3''}" "0 < h"
  shows "block_ref_from_mapping (demo_data h c p) = Inr \<lparr>tr_height = h, tr_hash = digest_of c, tr_parent = digest_of p\<rparr>"
proof -
  have d: "is_digest (digest_of x)" "py_lower (digest_of x) = digest_of x" if "x \<in> {CHR ''1'', CHR ''2'', CHR ''3''}" for x
    using that by (auto simp: is_digest_def digest_of_def list_all_iff is_hex_def py_lower_def lower_char_def Let_def)
  have n: "normalize_block_hash (digest_of x) = Inr (digest_of x)" "py_strip (digest_of x) \<noteq> []"
    if "x \<in> {CHR ''1'', CHR ''2'', CHR ''3''}" for x
    using normalize_digest [OF d(1) [OF that]] strip_digest [OF d(1) [OF that]] d [OF that] by (auto simp: is_digest_def)
  show ?thesis
    using assms(3) n [OF assms(1)] n [OF assms(2)]
    by (simp add: block_ref_from_mapping_def demo_data_def mk_tip_ref_def json_height_def)
qed

lemma demo_gate:
  "allows_import (fst (observe_before_import 256 (demo_data 6 CHR ''3'' CHR ''2'') demo_view (new_observer True True)))
     (snd (observe_before_import 256 (demo_data 6 CHR ''3'' CHR ''2'') demo_view (new_observer True True)))"
proof -
  have t: "tip_state_from_chain demo_view =
      Inr \<lparr>ts_head = \<lparr>tr_height = 5, tr_hash = digest_of CHR ''2'', tr_parent = digest_of CHR ''1''\<rparr>, ts_finalized = None\<rparr>"
    using demo_ref [of "CHR ''2''" "CHR ''1''" 5]
    by (simp add: tip_state_from_chain_def demo_view_def mk_tip_state_def)
  have c: "block_ref_from_mapping (demo_data 6 CHR ''3'' CHR ''2'') =
      Inr \<lparr>tr_height = 6, tr_hash = digest_of CHR ''3'', tr_parent = digest_of CHR ''2''\<rparr>"
    by (rule demo_ref) simp_all
  show ?thesis
    by (simp add: observe_before_import_def sync_from_chain_def new_observer_def t c new_tip_service_def new_window_def
        evaluate_candidate_def evaluate_def can_reorg_to_def finalized_floor_height_def accept_as_def accepted_def
        allows_import_def count_decision_def)
qed

section \<open>Properties\<close>

text \<open>
  the enforcing gate is fail-closed and knows no finality. In every state an enforcing
  observer reaches, an announcement it lets through parsed into a block reference that extends the
  synchronised tip or replaces it under the same parent; rollbacks are never admitted, and no
  finalized floor is in force.
\<close>

theorem gate_admits_only_neighbours:
  assumes "observe_before_import n bd cw (foldl gate_step (new_observer e True) ops) = (ob', d)"
    and "allows_import ob' d"
  shows "\<exists>b v. block_ref_from_mapping bd = Inr b \<and> ob_service ob' = Some v \<and> ts_finalized (tv_state v) = None
    \<and> (tr_height b = tr_height (ts_head (tv_state v)) + 1 \<and> tr_parent b = tr_hash (ts_head (tv_state v))
       \<or> tr_height b = tr_height (ts_head (tv_state v)) \<and> tr_parent b = tr_parent (ts_head (tv_state v))
          \<and> tr_hash b \<noteq> tr_hash (ts_head (tv_state v)))"
proof -
  let ?ob = "foldl gate_step (new_observer e True) ops"
  define ob1 where "ob1 = (if ob_service ?ob = None then fst (sync_from_chain n cw ?ob) else ?ob)"
  have "gate_ok ob1" by (simp add: ob1_def inv_intros gate_ok_run gate_ok_new)
  have "ob_enforce ob1" by (simp add: ob1_def) (simp add: new_observer_def)
  moreover have en: "ob_enforce ob' = ob_enforce ?ob"
    using assms(1) by (auto simp: observe_before_import_def count_decision_def Let_def split_beta
        split: if_splits option.splits sum.splits)
  ultimately obtain dec where dec: "d = Some dec" "accepted dec"
    using assms(2) by (auto simp: allows_import_def new_observer_def split: option.splits)
  with assms(1) obtain b v where b: "block_ref_from_mapping bd = Inr b" "ob_service ob1 = Some v"
      "dec = snd (evaluate_candidate b v)" "ob' = count_decision dec (ob1\<lparr>ob_service := Some (fst (evaluate_candidate b v))\<rparr>)"
    by (auto simp: observe_before_import_def ob1_def [symmetric] Let_def split_beta split: if_splits option.splits sum.splits)
  have v: "service_synced v" using \<open>gate_ok ob1\<close> b(2) by (simp add: gate_ok_def)
  have "ob_service ob' = Some (fst (evaluate_candidate b v))" by (simp add: b(4) count_decision_def Let_def)
  moreover have "ts_finalized (tv_state v) = None" using v by (simp add: service_synced_def)
  ultimately show ?thesis using synced_evaluate(2) [OF v, of b] dec(2) b(1,3) by auto
qed

lemma gate_admits_witness:
  "\<exists>b v. block_ref_from_mapping (demo_data 6 CHR ''3'' CHR ''2'') = Inr b
     \<and> ob_service (fst (observe_before_import 256 (demo_data 6 CHR ''3'' CHR ''2'') demo_view (new_observer True True))) = Some v
     \<and> ts_finalized (tv_state v) = None"
proof -
  have e: "observe_before_import 256 (demo_data 6 CHR ''3'' CHR ''2'') demo_view (foldl gate_step (new_observer True True) []) =
      (fst (observe_before_import 256 (demo_data 6 CHR ''3'' CHR ''2'') demo_view (new_observer True True)),
       snd (observe_before_import 256 (demo_data 6 CHR ''3'' CHR ''2'') demo_view (new_observer True True)))" by simp
  from gate_admits_only_neighbours [OF e demo_gate] show ?thesis by blast
qed

text \<open>The gate's books balance. In every state an observer reaches, the observations are the
  accepted plus the rejected ones, the rejections per reason code add up to the rejected ones, and an
  enforcing observer never counts a divergence.\<close>

theorem gate_counters_balance:
  "let ob = foldl gate_step (new_observer e f) ops in
     ob_observed ob = ob_accepted ob + ob_rejected ob
     \<and> sum_list (dict_values (ob_reject_by_code ob)) = ob_rejected ob
     \<and> (f \<longrightarrow> ob_diverge_reject_ok ob = 0 \<and> ob_diverge_accept_fail ob = 0)"
proof -
  have "gate_ok (foldl gate_step (new_observer e f) ops)" by (rule gate_ok_run [OF gate_ok_new])
  moreover have "ob_enforce (new_observer e f) = f" by (simp add: new_observer_def)
  ultimately show ?thesis by (simp add: gate_ok_def Let_def)
qed

lemma gate_counters_witness:
  "ob_diverge_reject_ok (foldl gate_step (new_observer False True) [Sync 256 demo_view, Note 256 True demo_view]) = 0"
  using gate_counters_balance [of False True "[Sync 256 demo_view, Note 256 True demo_view]"]
  by (simp only: Let_def simp_thms)

end
