(* ===== verification/Fork_Reconcile.thy ===== *)
theory Fork_Reconcile
  imports Json_Block
begin

text \<open>
  \<open>sync/fork\<close>: same-height fork reconciliation over ports, with the evidence log, counters and
  strikes of \<open>network/fork_adapters.py\<close>. The node behind the ports (chain, wire probes, peers) is a
  value of an arbitrary type \<open>'w\<close> and the record \<open>fork_ports\<close> of the functions the service calls on
  it; only \<open>reorg_and_import\<close> changes it. The adapters catch their own exceptions (a failed fetch is
  \<open>None\<close>, a failed reorg is \<open>False\<close>), so the catch-all of \<open>run_same_height\<close> has no branch here.
  Progress messages are not modelled.
\<close>

section \<open>Types\<close>

datatype fork_status = FkSkipped | FkRefused | FkFetchFailed | FkNoAncestor | FkImportFailed | FkComplete | FkError

record fork_peer =
  fr_peer_id :: string
  fr_height :: int
  fr_head_hash :: string

definition mk_fork_peer :: "string \<Rightarrow> int \<Rightarrow> string \<Rightarrow> fork_peer" where
  "mk_fork_peer pid h hh = \<lparr>fr_peer_id = pid, fr_height = h, fr_head_hash = py_strip hh\<rparr>"

record fork_config =
  fc_fork_probe :: bool
  fc_ghost_probe :: bool
  fc_prefer_ghost :: bool
  fc_head_hash_bind :: bool
  fc_contiguous_bind :: bool
  fc_same_height_bind :: bool
  fc_tip_head_bind :: bool
  fc_fetch_timeout :: pyfloat

definition default_fork_config :: fork_config where
  "default_fork_config =
     \<lparr>fc_fork_probe = True, fc_ghost_probe = True, fc_prefer_ghost = True, fc_head_hash_bind = True,
      fc_contiguous_bind = True, fc_same_height_bind = True, fc_tip_head_bind = True, fc_fetch_timeout = 30\<rparr>"

record fork_outcome =
  fo_status :: fork_status
  fo_reason :: string
  fo_local_height :: int
  fo_target :: string

definition fork_ok :: "fork_outcome \<Rightarrow> bool" where
  "fork_ok o' \<longleftrightarrow> fo_status o' \<in> {FkComplete, FkSkipped}"

definition fo_make :: "fork_status \<Rightarrow> string \<Rightarrow> int \<Rightarrow> string \<Rightarrow> fork_outcome" where
  "fo_make st reason h target = \<lparr>fo_status = st, fo_reason = reason, fo_local_height = h, fo_target = target\<rparr>"

definition fo_refused :: "string \<Rightarrow> int \<Rightarrow> string \<Rightarrow> fork_outcome" where
  "fo_refused reason h target = fo_make FkRefused (if reason = '''' then ''refused'' else reason) h target"

section \<open>Evidence\<close>

definition malicious_refuse_codes :: "string list" where
  "malicious_refuse_codes =
     [''reconcile_head_hash_mismatch'', ''reconcile_same_height_parent_mismatch'',
      ''reconcile_contiguous_parent_mismatch'', ''fork_peer_head_hash_mismatch'',
      ''fork_peer_head_parent_mismatch'', ''fork_peer_head_height_mismatch'',
      ''fork_same_height_spam'', ''tip_evidence_enforce_refuse'']"

definition is_malicious_refuse :: "string \<Rightarrow> bool" where
  "is_malicious_refuse reason \<longleftrightarrow> reason \<in> set malicious_refuse_codes"

record fork_evidence =
  fe_reason :: string
  fe_peer :: string
  fe_local_height :: int
  fe_target :: string
  fe_block_hash :: string
  fe_block_height :: int
  fe_attempts :: int

text \<open>\<open>_block_height\<close>: a height of 0 is false and becomes the default, as does a missing or bad one.\<close>

definition block_height_of :: "block_data \<Rightarrow> int \<Rightarrow> int" where
  "block_height_of b d =
     (case json_height b (IntValue d) of
        IntValue n \<Rightarrow> if n = 0 then d else n
      | IntLike n \<Rightarrow> n
      | NotAnInt \<Rightarrow> d)"

definition block_hash_of :: "block_data \<Rightarrow> string" where
  "block_hash_of b = py_strip (text_or (bd_hash b) (text_or (bd_block_hash b) ''''))"

definition parent_of :: "block_data \<Rightarrow> string" where
  "parent_of b = text_or (bd_parent b) ''''"

definition fork_build_evidence :: "string \<Rightarrow> string \<Rightarrow> int \<Rightarrow> string \<Rightarrow> block_data option \<Rightarrow> int \<Rightarrow> fork_evidence" where
  "fork_build_evidence reason peer h target block attempts =
     \<lparr>fe_reason = (if reason = '''' then ''refused'' else reason), fe_peer = peer, fe_local_height = h,
      fe_target = target,
      fe_block_hash = (case block of None \<Rightarrow> '''' | Some b \<Rightarrow> block_hash_of b),
      fe_block_height = (case block of None \<Rightarrow> -1 | Some b \<Rightarrow> block_height_of b (-1)),
      fe_attempts = max 1 (if attempts = 0 then 1 else attempts)\<rparr>"

datatype fork_malicious = ForkMalicious fork_outcome fork_evidence

section \<open>ForkReconcilePolicy\<close>

text \<open>A refuse reason; the empty text means that the bind holds.\<close>

definition fetched_head_refuse :: "string \<Rightarrow> block_data \<Rightarrow> bool \<Rightarrow> string" where
  "fetched_head_refuse target b enabled =
     (if \<not> enabled then ''''
      else (let want = py_strip target; got = block_hash_of b
            in if want = '''' then ''''
               else if got \<noteq> '''' \<and> py_lower got \<noteq> py_lower want then ''reconcile_head_hash_mismatch'' else ''''))"

definition contiguous_parent_refuse :: "block_data \<Rightarrow> int \<Rightarrow> string \<Rightarrow> bool \<Rightarrow> string" where
  "contiguous_parent_refuse b tip_h local_tip enabled =
     (if \<not> enabled then ''''
      else (let body_h = block_height_of b (-1)
            in if body_h < 0 \<or> tip_h < 0 \<or> body_h \<noteq> tip_h + 1 then ''''
               else (let parent = py_strip (parent_of b); tip = py_strip local_tip
                     in if parent \<noteq> '''' \<and> tip \<noteq> '''' \<and> py_lower parent \<noteq> py_lower tip
                        then ''reconcile_contiguous_parent_mismatch'' else '''')))"

definition same_height_parent_refuse :: "block_data \<Rightarrow> int \<Rightarrow> string \<Rightarrow> string \<Rightarrow> bool \<Rightarrow> string" where
  "same_height_parent_refuse b tip_h local_tip local_parent enabled =
     (if \<not> enabled then ''''
      else (let body_h = block_height_of b (-1)
            in if body_h < 0 \<or> tip_h < 0 \<or> body_h \<noteq> tip_h then ''''
               else (let got = block_hash_of b; tip = py_strip local_tip
                     in if got \<noteq> '''' \<and> tip \<noteq> '''' \<and> py_lower got = py_lower tip then ''''
                        else (let parent = py_strip (parent_of b); want = py_strip local_parent
                              in if parent \<noteq> '''' \<and> want \<noteq> '''' \<and> want \<noteq> replicate 64 (CHR ''0'')
                                    \<and> py_lower parent \<noteq> py_lower want
                                 then ''reconcile_same_height_parent_mismatch'' else ''''))))"

definition tip_head_refuse :: "string \<Rightarrow> string \<Rightarrow> bool \<Rightarrow> string" where
  "tip_head_refuse target local_tip enabled =
     (if \<not> enabled then ''''
      else (let want = py_strip target; tip = py_strip local_tip
            in if want = '''' then ''''
               else if tip \<noteq> '''' \<and> py_lower tip \<noteq> py_lower want then ''reconcile_tip_head_mismatch'' else ''''))"

section \<open>Ports and state\<close>

record 'w fork_ports =
  fp_height :: "'w \<Rightarrow> int"
  fp_head :: "'w \<Rightarrow> string"
  fp_expected_parent :: "'w \<Rightarrow> int \<Rightarrow> string"
  fp_find_ancestor :: "'w \<Rightarrow> string \<Rightarrow> int option"
  fp_reorg :: "int \<Rightarrow> block_data \<Rightarrow> 'w \<Rightarrow> 'w \<times> bool"
  fp_fetch :: "string \<Rightarrow> string \<Rightarrow> 'w \<Rightarrow> block_data option"
  fp_fork_probe :: "fork_peer \<Rightarrow> 'w \<Rightarrow> string"
  fp_ghost_probe :: "string \<Rightarrow> fork_peer option \<Rightarrow> 'w \<Rightarrow> string"
  fp_ghost_head :: "'w \<Rightarrow> string"
  fp_tip_evidence :: "block_data \<Rightarrow> 'w \<Rightarrow> string"
  fp_peers_for_head :: "string \<Rightarrow> 'w \<Rightarrow> string list"
  fp_all_peers :: "'w \<Rightarrow> string list"

text \<open>The side-effect adapter: attempt counters, bumped refuse reasons, evidence, strikes, peer tips.\<close>

record 'w fork_state =
  fk_world :: 'w
  fk_attempts :: "(string, int) dict"
  fk_refuses :: "string list"
  fk_evidence :: "fork_evidence list"
  fk_strikes :: "(string \<times> string) list"
  fk_reorg_risks :: nat
  fk_peer_tips :: "(string \<times> int \<times> string) list"

definition new_fork_state :: "'w \<Rightarrow> 'w fork_state" where
  "new_fork_state w = \<lparr>fk_world = w, fk_attempts = [], fk_refuses = [], fk_evidence = [], fk_strikes = [],
     fk_reorg_risks = 0, fk_peer_tips = []\<rparr>"

definition fork_note_attempt :: "string \<Rightarrow> string \<Rightarrow> 'w fork_state \<Rightarrow> 'w fork_state \<times> int" where
  "fork_note_attempt peer reason s =
     (let key = peer @ '':'' @ reason;
          a1 = dict_set key (dict_get (fk_attempts s) key 0 + 1) (fk_attempts s);
          total = dict_get a1 peer 0 + 1
      in (s\<lparr>fk_attempts := dict_set peer total a1\<rparr>, total))"

definition bump_refuse :: "string \<Rightarrow> 'w fork_state \<Rightarrow> 'w fork_state" where
  "bump_refuse reason s = s\<lparr>fk_refuses := reason # fk_refuses s\<rparr>"

type_synonym 'w fork_result = "'w fork_state \<times> (fork_malicious, fork_outcome) result"

section \<open>ForkReconcileService\<close>

definition fork_spam_threshold :: int where
  "fork_spam_threshold = 3"

definition fork_fail_closed :: "string \<Rightarrow> string \<Rightarrow> int \<Rightarrow> string \<Rightarrow> block_data option \<Rightarrow> 'w fork_state \<Rightarrow> 'w fork_result" where
  "fork_fail_closed reason peer h target block s =
     (let rc = (if reason = '''' then ''refused'' else reason);
          (s1, n) = fork_note_attempt peer rc s;
          n1 = (if n = 0 then 1 else n);
          spam = (fork_spam_threshold \<le> n1 \<and> rc \<noteq> ''fork_same_height_spam'');
          rc' = (if spam then ''fork_same_height_spam'' else rc);
          s2 = bump_refuse rc' s1;
          (s3, m) = (if spam then fork_note_attempt peer rc' s2 else (s2, n1));
          attempts = (if m = 0 then n1 else m);
          ev = fork_build_evidence rc' peer h target block attempts;
          s4 = s3\<lparr>fk_evidence := ev # fk_evidence s3, fk_strikes := (peer, rc') # fk_strikes s3\<rparr>
      in (s4, Inl (ForkMalicious (fo_refused rc' h target) ev)))"

definition refuse_or_fail_closed ::
  "string \<Rightarrow> string \<Rightarrow> int \<Rightarrow> string \<Rightarrow> block_data option \<Rightarrow> 'w fork_state \<Rightarrow> 'w fork_result" where
  "refuse_or_fail_closed reason peer h target block s =
     (if is_malicious_refuse reason then fork_fail_closed reason peer h target block s
      else (bump_refuse reason s, Inr (fo_refused reason h target)))"

text \<open>The order in which peers are asked: the hinted one, those that claim the head, all.\<close>

fun add_peers :: "string list \<Rightarrow> string list \<Rightarrow> string list" where
  "add_peers order [] = order"
| "add_peers order (p # ps) = add_peers (if p \<noteq> '''' \<and> p \<notin> set order then order @ [p] else order) ps"

definition fetch_order :: "'w fork_ports \<Rightarrow> string \<Rightarrow> fork_peer option \<Rightarrow> 'w \<Rightarrow> string list" where
  "fetch_order P target hint w =
     (let first = (case hint of None \<Rightarrow> []
                   | Some p \<Rightarrow> (let hh = py_strip (fr_head_hash p)
                       in if fr_peer_id p \<noteq> '''' \<and> (hh = '''' \<or> py_lower hh = py_lower target) then [fr_peer_id p] else []))
      in add_peers (add_peers first (fp_peers_for_head P target w)) (fp_all_peers P w))"

fun try_fetch :: "'w fork_ports \<Rightarrow> string \<Rightarrow> string list \<Rightarrow> 'w \<Rightarrow> (block_data \<times> string) option" where
  "try_fetch P target [] w = None"
| "try_fetch P target (pid # ps) w =
     (case fp_fetch P pid target w of Some b \<Rightarrow> Some (b, pid) | None \<Rightarrow> try_fetch P target ps w)"

definition fetch_target_block :: "'w fork_ports \<Rightarrow> string \<Rightarrow> fork_peer option \<Rightarrow> 'w \<Rightarrow> (block_data \<times> string) option" where
  "fetch_target_block P target hint w = try_fetch P target (fetch_order P target hint w) w"

text \<open>The binds checked on the fetched body before the chain is touched; the first reason counts.\<close>

definition body_refuse :: "'w fork_ports \<Rightarrow> fork_config \<Rightarrow> string \<Rightarrow> block_data \<Rightarrow> 'w \<Rightarrow> string" where
  "body_refuse P cfg target b w =
     (let tip_ev = fp_tip_evidence P b w;
          r1 = fetched_head_refuse target b (fc_head_hash_bind cfg);
          tip_h = fp_height P w; local_tip = fp_head P w;
          r2 = contiguous_parent_refuse b tip_h local_tip (fc_contiguous_bind cfg);
          r3 = same_height_parent_refuse b tip_h local_tip (fp_expected_parent P w tip_h) (fc_same_height_bind cfg)
      in if tip_ev \<noteq> '''' then (if is_malicious_refuse tip_ev then tip_ev else ''tip_evidence_enforce_refuse'')
         else if r1 \<noteq> '''' then r1 else if r2 \<noteq> '''' then r2 else r3)"

definition reorg_stage ::
  "'w fork_ports \<Rightarrow> fork_config \<Rightarrow> string \<Rightarrow> string \<Rightarrow> block_data \<Rightarrow> 'w fork_state \<Rightarrow> 'w fork_result" where
  "reorg_stage P cfg target peer b s =
     (let tip_h = fp_height P (fk_world s); block_h = block_height_of b 0
      in case fp_find_ancestor P (fk_world s) (parent_of b) of
           None \<Rightarrow> (s, Inr (fo_make FkNoAncestor ''no_common_ancestor'' tip_h target))
         | Some anc \<Rightarrow>
             (let rollback_to = min anc (block_h - 1);
                  s1 = s\<lparr>fk_reorg_risks := Suc (fk_reorg_risks s)\<rparr>;
                  (w', ok) = fp_reorg P rollback_to b (fk_world s1);
                  s2 = s1\<lparr>fk_world := w'\<rparr>
              in if \<not> ok then (s2, Inr (fo_make FkImportFailed ''reorg_import_failed'' (fp_height P w') target))
                 else (let refuse = tip_head_refuse target (fp_head P w') (fc_tip_head_bind cfg)
                       in if refuse \<noteq> '''' then refuse_or_fail_closed refuse peer (fp_height P w') target (Some b) s2
                          else (let s3 = (if peer \<noteq> '''' then
                                  s2\<lparr>fk_peer_tips := (peer, block_h, if block_hash_of b = '''' then target else block_hash_of b)
                                       # fk_peer_tips s2\<rparr> else s2)
                                in (s3, Inr (fo_make FkComplete ''ok'' (fp_height P w') target))))))"

definition run_to_head_inner ::
  "'w fork_ports \<Rightarrow> string \<Rightarrow> fork_peer option \<Rightarrow> fork_config \<Rightarrow> bool \<Rightarrow> 'w fork_state \<Rightarrow> 'w fork_result" where
  "run_to_head_inner P target_head hint cfg ghost_probe s =
     (let w = fk_world s; local_h = fp_height P w; target = py_strip target_head;
          peer = (case hint of None \<Rightarrow> '''' | Some p \<Rightarrow> fr_peer_id p);
          local_head = py_strip (fp_head P w);
          ghost_refuse = (if ghost_probe then fp_ghost_probe P target hint w else '''')
      in if target = '''' then (s, Inr (fo_refused ''empty_target_head'' local_h ''''))
         else if local_head \<noteq> '''' \<and> py_lower local_head = py_lower target then
           (s, Inr (fo_make FkSkipped ''already_at_head'' local_h target))
         else if ghost_refuse \<noteq> '''' then refuse_or_fail_closed ghost_refuse peer local_h target None s
         else (case fetch_target_block P target hint w of
                 None \<Rightarrow> (s, Inr (fo_make FkFetchFailed ''fetch_failed'' local_h target))
               | Some (b, sourced) \<Rightarrow>
                   (let refuse = body_refuse P cfg target b w
                    in if refuse \<noteq> '''' then refuse_or_fail_closed refuse sourced local_h target (Some b) s
                       else reorg_stage P cfg target sourced b s)))"

definition same_height_tail ::
  "'w fork_ports \<Rightarrow> fork_peer \<Rightarrow> fork_config \<Rightarrow> int \<Rightarrow> string \<Rightarrow> 'w fork_state \<Rightarrow> 'w fork_result" where
  "same_height_tail P peer cfg local_h local_head s =
     (let peer_head = py_strip (fr_head_hash peer);
          refuse = (if fc_fork_probe cfg then fp_fork_probe P peer (fk_world s) else '''')
      in if peer_head = '''' \<or> (local_head \<noteq> '''' \<and> py_lower peer_head = py_lower local_head) then
           (s, Inr (fo_make FkSkipped ''same_head'' local_h (if peer_head = '''' then local_head else peer_head)))
         else if refuse \<noteq> '''' then refuse_or_fail_closed refuse (fr_peer_id peer) local_h peer_head None s
         else run_to_head_inner P peer_head (Some peer) cfg False s)"

definition run_same_height_inner ::
  "'w fork_ports \<Rightarrow> fork_peer \<Rightarrow> fork_config \<Rightarrow> 'w fork_state \<Rightarrow> 'w fork_result" where
  "run_same_height_inner P peer cfg s =
     (let w = fk_world s; local_h = fp_height P w; local_head = py_strip (fp_head P w);
          ghost = (if fc_prefer_ghost cfg then py_strip (fp_ghost_head P w) else '''')
      in if ghost \<noteq> '''' \<and> py_lower ghost \<noteq> py_lower local_head then
           (case run_to_head_inner P ghost (Some peer) cfg (fc_ghost_probe cfg) s of
              (s1, Inl e) \<Rightarrow> (s1, Inl e)
            | (s1, Inr out) \<Rightarrow>
                if fo_status out = FkComplete then (s1, Inr out)
                else same_height_tail P peer cfg local_h local_head s1)
         else same_height_tail P peer cfg local_h local_head s)"

section \<open>Frame facts\<close>

lemma fork_note_attempt_world [simp]:
  "fk_world (fst (fork_note_attempt peer r s)) = fk_world s"
  "fk_evidence (fst (fork_note_attempt peer r s)) = fk_evidence s"
  "fk_strikes (fst (fork_note_attempt peer r s)) = fk_strikes s"
  "fk_refuses (fst (fork_note_attempt peer r s)) = fk_refuses s"
  by (simp_all add: fork_note_attempt_def Let_def)

lemma bump_refuse_world [simp]:
  "fk_world (bump_refuse r s) = fk_world s" "fk_evidence (bump_refuse r s) = fk_evidence s"
  "fk_strikes (bump_refuse r s) = fk_strikes s" "fk_attempts (bump_refuse r s) = fk_attempts s"
  by (simp_all add: bump_refuse_def)

text \<open>Failing closed leaves the chain alone, logs one piece of evidence and strikes the peer once.\<close>

definition struck :: "string \<Rightarrow> 'w fork_state \<Rightarrow> 'w fork_state \<Rightarrow> fork_malicious \<Rightarrow> bool" where
  "struck peer s s' e \<longleftrightarrow> (\<exists>out ev. e = ForkMalicious out ev \<and> fo_status out = FkRefused \<and> fo_reason out = fe_reason ev
     \<and> fe_peer ev = peer \<and> fk_evidence s' = ev # fk_evidence s
     \<and> fk_strikes s' = (peer, fe_reason ev) # fk_strikes s \<and> fk_world s' = fk_world s)"

lemma fork_fail_closed_shape:
  obtains rc n s3 where "rc \<noteq> ''''" "fk_world s3 = fk_world s" "fk_evidence s3 = fk_evidence s" "fk_strikes s3 = fk_strikes s"
    "fork_fail_closed r peer h t b s =
       (s3\<lparr>fk_evidence := fork_build_evidence rc peer h t b n # fk_evidence s3, fk_strikes := (peer, rc) # fk_strikes s3\<rparr>,
        Inl (ForkMalicious (fo_refused rc h t) (fork_build_evidence rc peer h t b n)))"
proof -
  define rc where "rc = (if r = '''' then ''refused'' else r)"
  obtain s1 m where 1: "fork_note_attempt peer rc s = (s1, m)" by fastforce
  define n where "n = (if m = 0 then 1 else m)"
  let ?spam = "''fork_same_height_spam''"
  obtain s2 k where 2: "fork_note_attempt peer ?spam (bump_refuse ?spam s1) = (s2, k)" by fastforce
  have rc: "rc \<noteq> ''''" and n: "(if n = 0 then n else n) = n" by (simp_all add: rc_def)
  have w1: "fk_world s1 = fk_world s" "fk_evidence s1 = fk_evidence s" "fk_strikes s1 = fk_strikes s"
    using fork_note_attempt_world [of peer rc s] 1 by simp_all
  have w2: "fk_world s2 = fk_world s" "fk_evidence s2 = fk_evidence s" "fk_strikes s2 = fk_strikes s"
    using fork_note_attempt_world [of peer ?spam "bump_refuse ?spam s1"] 2 w1 by simp_all
  note unf = fork_fail_closed_def rc_def [symmetric] Let_def 1 prod.case n_def [symmetric]
  show thesis
  proof (cases "fork_spam_threshold \<le> n \<and> rc \<noteq> ?spam")
    case True
    hence sp: "(fork_spam_threshold \<le> n \<and> rc \<noteq> ?spam) = True" by simp
    have "fork_fail_closed r peer h t b s =
       (s2\<lparr>fk_evidence := fork_build_evidence ?spam peer h t b (if k = 0 then n else k) # fk_evidence s2,
           fk_strikes := (peer, ?spam) # fk_strikes s2\<rparr>,
        Inl (ForkMalicious (fo_refused ?spam h t) (fork_build_evidence ?spam peer h t b (if k = 0 then n else k))))"
      unfolding unf sp if_True 2 by (rule refl)
    with that [OF _ w2] show ?thesis by blast
  next
    case False
    hence sp: "(fork_spam_threshold \<le> n \<and> rc \<noteq> ?spam) = False" by simp
    have "fork_fail_closed r peer h t b s =
       ((bump_refuse rc s1)\<lparr>fk_evidence := fork_build_evidence rc peer h t b n # fk_evidence (bump_refuse rc s1),
           fk_strikes := (peer, rc) # fk_strikes (bump_refuse rc s1)\<rparr>,
        Inl (ForkMalicious (fo_refused rc h t) (fork_build_evidence rc peer h t b n)))"
      unfolding unf sp if_False n by (rule refl)
    moreover have "fk_world (bump_refuse rc s1) = fk_world s" "fk_evidence (bump_refuse rc s1) = fk_evidence s"
      "fk_strikes (bump_refuse rc s1) = fk_strikes s" using w1 by simp_all
    ultimately show ?thesis using that [OF rc] by blast
  qed
qed

lemma fork_fail_closed_struck:
  "\<exists>e. snd (fork_fail_closed r peer h t b s) = Inl e \<and> struck peer s (fst (fork_fail_closed r peer h t b s)) e"
  by (rule fork_fail_closed_shape [of s r peer h t b])
    (simp add: struck_def fo_refused_def fo_make_def fork_build_evidence_def)

lemma refuse_cases:
  obtains (malicious) e where "snd (refuse_or_fail_closed r peer h t b s) = Inl e"
      "struck peer s (fst (refuse_or_fail_closed r peer h t b s)) e" "is_malicious_refuse r"
    | (soft) out where "refuse_or_fail_closed r peer h t b s = (bump_refuse r s, Inr out)" "fo_status out = FkRefused"
      "\<not> is_malicious_refuse r"
  using fork_fail_closed_struck [of r peer h t b s]
  by (auto simp: refuse_or_fail_closed_def fo_refused_def fo_make_def split: if_splits)

lemma refuse_frame:
  "fk_world (fst (refuse_or_fail_closed r peer h t b s)) = fk_world s"
  "snd (refuse_or_fail_closed r peer h t b s) \<noteq> Inr out \<or> fo_status out = FkRefused"
  by (rule refuse_cases [of r peer h t b s]; auto simp: struck_def)+

section \<open>What a reconcile run does to the chain\<close>

text \<open>
  \<open>gated\<close>: the body was fetched from a peer, every bind held on the untouched chain and its parent has
  a common ancestor.
\<close>

definition gated :: "'w fork_ports \<Rightarrow> fork_config \<Rightarrow> string \<Rightarrow> 'w \<Rightarrow> block_data \<Rightarrow> int \<Rightarrow> bool" where
  "gated P cfg target w b anc \<longleftrightarrow>
     (\<exists>pid. fp_fetch P pid target w = Some b) \<and> body_refuse P cfg target b w = ''''
     \<and> fp_find_ancestor P w (parent_of b) = Some anc"

definition rollback_height :: "block_data \<Rightarrow> int \<Rightarrow> int" where
  "rollback_height b anc = min anc (block_height_of b 0 - 1)"

lemma try_fetch_Some: "try_fetch P t ps w = Some (b, pid) \<Longrightarrow> fp_fetch P pid t w = Some b"
  by (induction ps) (auto split: option.splits)

lemma reorg_stage_cases:
  obtains (no_ancestor) "reorg_stage P cfg t peer b s = (s, Inr (fo_make FkNoAncestor ''no_common_ancestor'' (fp_height P (fk_world s)) t))"
      "fp_find_ancestor P (fk_world s) (parent_of b) = None"
    | (reorged) anc w' ok where "fp_find_ancestor P (fk_world s) (parent_of b) = Some anc"
      "fp_reorg P (rollback_height b anc) b (fk_world s) = (w', ok)"
      "fk_world (fst (reorg_stage P cfg t peer b s)) = w'"
      "\<And>out. snd (reorg_stage P cfg t peer b s) = Inr out \<Longrightarrow> fo_status out = FkComplete \<Longrightarrow>
         ok \<and> tip_head_refuse t (fp_head P w') (fc_tip_head_bind cfg) = ''''"
      "\<And>e. snd (reorg_stage P cfg t peer b s) = Inl e \<Longrightarrow> is_malicious_refuse (tip_head_refuse t (fp_head P w') (fc_tip_head_bind cfg))"
proof (cases "fp_find_ancestor P (fk_world s) (parent_of b)")
  case None
  with no_ancestor show thesis by (simp add: reorg_stage_def Let_def)
next
  case (Some anc)
  obtain w' ok where r: "fp_reorg P (rollback_height b anc) b (fk_world s) = (w', ok)" by fastforce
  let ?tr = "tip_head_refuse t (fp_head P w') (fc_tip_head_bind cfg)"
  let ?s2 = "s\<lparr>fk_reorg_risks := Suc (fk_reorg_risks s), fk_world := w'\<rparr>"
  have eq: "reorg_stage P cfg t peer b s =
      (if \<not> ok then (?s2, Inr (fo_make FkImportFailed ''reorg_import_failed'' (fp_height P w') t))
       else if ?tr \<noteq> '''' then refuse_or_fail_closed ?tr peer (fp_height P w') t (Some b) ?s2
       else (if peer \<noteq> '''' then ?s2\<lparr>fk_peer_tips := (peer, block_height_of b 0,
                if block_hash_of b = '''' then t else block_hash_of b) # fk_peer_tips ?s2\<rparr> else ?s2,
             Inr (fo_make FkComplete ''ok'' (fp_height P w') t)))"
    using r [unfolded rollback_height_def] by (simp add: reorg_stage_def Some Let_def)
  show thesis
  proof (rule reorged [OF Some r])
    show "fk_world (fst (reorg_stage P cfg t peer b s)) = w'"
      unfolding eq by (simp add: refuse_frame(1))
    show "snd (reorg_stage P cfg t peer b s) = Inr out \<Longrightarrow> fo_status out = FkComplete \<Longrightarrow> ok \<and> ?tr = ''''" for out
      unfolding eq using refuse_frame(2) [of ?tr peer "fp_height P w'" t "Some b" ?s2 out]
      by (auto simp: fo_make_def split: if_splits)
    show "snd (reorg_stage P cfg t peer b s) = Inl e \<Longrightarrow> is_malicious_refuse ?tr" for e
      unfolding eq by (rule refuse_cases [of ?tr peer "fp_height P w'" t "Some b" ?s2]) (auto split: if_splits)
  qed
qed

lemma tip_refuse_soft: "\<not> is_malicious_refuse (tip_head_refuse t tip en)"
  by (simp add: tip_head_refuse_def is_malicious_refuse_def malicious_refuse_codes_def Let_def)

lemma run_to_head_cases:
  fixes target :: string
  defines "t \<equiv> py_strip target"
  obtains (kept) out where "snd (run_to_head_inner P target hint cfg gp s) = Inr out"
      "fk_world (fst (run_to_head_inner P target hint cfg gp s)) = fk_world s" "fo_status out \<noteq> FkComplete"
    | (malicious) e peer where "snd (run_to_head_inner P target hint cfg gp s) = Inl e"
      "struck peer s (fst (run_to_head_inner P target hint cfg gp s)) e"
    | (reorged) b anc w' ok out where "gated P cfg t (fk_world s) b anc"
      "fp_reorg P (rollback_height b anc) b (fk_world s) = (w', ok)"
      "fk_world (fst (run_to_head_inner P target hint cfg gp s)) = w'"
      "snd (run_to_head_inner P target hint cfg gp s) = Inr out"
      "fo_status out = FkComplete \<Longrightarrow> ok \<and> tip_head_refuse t (fp_head P w') (fc_tip_head_bind cfg) = ''''"
proof -
  let ?run = "run_to_head_inner P target hint cfg gp s" and ?w = "fk_world s"
  have refused: thesis if "?run = refuse_or_fail_closed r peer h t b s" for r peer h b
    using that kept malicious by (rule_tac refuse_cases [of r peer h t b s]) (auto simp: fo_make_def)
  consider (answer) out where "?run = (s, Inr out)" "fo_status out \<noteq> FkComplete"
    | (refuse) r peer h b where "?run = refuse_or_fail_closed r peer h t b s"
    | (stage) b pid where "fetch_target_block P t hint ?w = Some (b, pid)" "body_refuse P cfg t b ?w = ''''"
        "?run = reorg_stage P cfg t pid b s"
  proof -
    assume A: "\<And>out. ?run = (s, Inr out) \<Longrightarrow> fo_status out \<noteq> FkComplete \<Longrightarrow> thesis"
      and R: "\<And>r peer h b. ?run = refuse_or_fail_closed r peer h t b s \<Longrightarrow> thesis"
      and S: "\<And>b pid. fetch_target_block P t hint ?w = Some (b, pid) \<Longrightarrow> body_refuse P cfg t b ?w = '''' \<Longrightarrow>
        ?run = reorg_stage P cfg t pid b s \<Longrightarrow> thesis"
    let ?g = "if gp then fp_ghost_probe P t hint ?w else ''''" and ?lh = "py_strip (fp_head P ?w)"
    show thesis
    proof (cases "t = '''' \<or> (?lh \<noteq> '''' \<and> py_lower ?lh = py_lower t)")
      case True
      thus ?thesis
        by (intro A [of "if t = '''' then fo_refused ''empty_target_head'' (fp_height P ?w) ''''
            else fo_make FkSkipped ''already_at_head'' (fp_height P ?w) t"])
          (auto simp: run_to_head_inner_def Let_def t_def [symmetric], simp_all add: fo_refused_def fo_make_def)
    next
      case False
      hence F: "(t = '''') = False" "(?lh \<noteq> '''' \<and> py_lower ?lh = py_lower t) = False" by simp_all
      show ?thesis
      proof (cases "?g = ''''")
        case False
        thus ?thesis
          by (intro R [of ?g "case hint of None \<Rightarrow> '''' | Some p \<Rightarrow> fr_peer_id p" "fp_height P ?w" None])
            (simp only: run_to_head_inner_def Let_def t_def [symmetric] F if_False if_True simp_thms)
      next
        case G: True
        show ?thesis
        proof (cases "fetch_target_block P t hint ?w")
          case None
          with G show ?thesis
            by (intro A [of "fo_make FkFetchFailed ''fetch_failed'' (fp_height P ?w) t"])
              (simp only: run_to_head_inner_def Let_def t_def [symmetric] F if_False if_True simp_thms option.case, simp add: fo_make_def)
        next
          case (Some bp)
          obtain b pid where bp: "bp = (b, pid)" by (cases bp)
          have run: "?run = (if body_refuse P cfg t b ?w \<noteq> '''' then
              refuse_or_fail_closed (body_refuse P cfg t b ?w) pid (fp_height P ?w) t (Some b) s
              else reorg_stage P cfg t pid b s)"
            using G by (simp only: run_to_head_inner_def Let_def t_def [symmetric] F if_False if_True simp_thms Some bp option.case prod.case)
          with Some S R bp show ?thesis by (cases "body_refuse P cfg t b ?w = ''''") simp_all
        qed
      qed
    qed
  qed
  thus thesis
  proof cases
    case answer
    with kept show ?thesis by simp
  next
    case refuse
    thus ?thesis by (rule refused)
  next
    case (stage b pid)
    show ?thesis
    proof (rule reorg_stage_cases [of P cfg t pid b s])
      assume "reorg_stage P cfg t pid b s = (s, Inr (fo_make FkNoAncestor ''no_common_ancestor'' (fp_height P ?w) t))"
      with stage kept show ?thesis by (simp add: fo_make_def)
    next
      fix anc w' ok
      assume a: "fp_find_ancestor P ?w (parent_of b) = Some anc" "fp_reorg P (rollback_height b anc) b ?w = (w', ok)"
        "fk_world (fst (reorg_stage P cfg t pid b s)) = w'"
        and c: "\<And>out. snd (reorg_stage P cfg t pid b s) = Inr out \<Longrightarrow> fo_status out = FkComplete \<Longrightarrow>
         ok \<and> tip_head_refuse t (fp_head P w') (fc_tip_head_bind cfg) = ''''"
        and m: "\<And>e. snd (reorg_stage P cfg t pid b s) = Inl e \<Longrightarrow>
         is_malicious_refuse (tip_head_refuse t (fp_head P w') (fc_tip_head_bind cfg))"
      have "fp_fetch P pid t ?w = Some b" using stage(1) by (auto simp: fetch_target_block_def dest: try_fetch_Some)
      hence g: "gated P cfg t ?w b anc" using stage(2) a(1) by (auto simp: gated_def)
      obtain out where "snd (reorg_stage P cfg t pid b s) = Inr out"
        using m tip_refuse_soft by (cases "snd (reorg_stage P cfg t pid b s)") blast+
      with reorged [OF g a(2)] a(3) c stage(3) show ?thesis by simp
    qed
  qed
qed

end
