(* ===== verification/Fork_Props.thy ===== *)
theory Fork_Props
  imports Fork_Reconcile
begin

text \<open>
  The properties of fork reconciliation, with the two operations of \<open>core/blockchain.py\<close> it ends in:
  the ancestor lookup and the truncation done by \<open>reorg_to_ancestor\<close>.
\<close>

section \<open>The chain below the ports\<close>

definition find_ancestor_height :: "string \<Rightarrow> (string \<rightharpoonup> int) \<Rightarrow> string \<Rightarrow> int option" where
  "find_ancestor_height genesis height_of parent =
     (if parent = '''' \<or> parent = genesis then Some 0 else height_of parent)"

text \<open>
  \<open>reorg_to_ancestor\<close> on the heights stored: the finalized floor, the no-op above the tip, and the
  truncation, which is undone when replaying the state raises (\<open>replay_ok\<close> false).
\<close>

definition reorg_to_ancestor :: "int \<Rightarrow> bool \<Rightarrow> int \<Rightarrow> int list \<Rightarrow> int list \<times> bool" where
  "reorg_to_ancestor flr replay_ok anc hs =
     (let tip = (if hs = [] then 0 else Max (set hs))
      in if 0 < flr \<and> anc < flr then (hs, False)
         else if tip < anc then (hs, True)
         else if \<not> replay_ok then (hs, False)
         else (if tip \<le> anc then hs else filter (\<lambda>h. h \<le> anc) hs, True))"

section \<open>Attempt counting\<close>

lemma key_not_peer: "(p :: string) @ '':'' @ r \<noteq> p"
  by (metis append_self_conv append_is_Nil_conv list.distinct(1))

lemma note_attempt_total:
  "snd (fork_note_attempt p r s) = dict_get (fk_attempts s) p 0 + 1"
  "dict_get (fk_attempts (fst (fork_note_attempt p r s))) p 0 = dict_get (fk_attempts s) p 0 + 1"
  using key_not_peer [of p r]
  by (simp_all add: fork_note_attempt_def Let_def dict_get_def update_conv fun_upd_apply del: append.simps)

definition hit :: "string \<Rightarrow> string \<Rightarrow> 'w fork_state \<Rightarrow> 'w fork_state" where
  "hit peer reason s = fst (fork_fail_closed reason peer 0 '''' None s)"

lemma fail_closed_reason:
  assumes "r \<noteq> ''''" "r \<noteq> ''fork_same_height_spam''" "0 \<le> dict_get (fk_attempts s) p 0"
  shows "fe_reason (hd (fk_evidence (fst (fork_fail_closed r p h t b s)))) =
      (if 2 \<le> dict_get (fk_attempts s) p 0 then ''fork_same_height_spam'' else r)"
    "fk_strikes (fst (fork_fail_closed r p h t b s)) =
      (p, if 2 \<le> dict_get (fk_attempts s) p 0 then ''fork_same_height_spam'' else r) # fk_strikes s"
    "dict_get (fk_attempts (fst (fork_fail_closed r p h t b s))) p 0 =
      dict_get (fk_attempts s) p 0 + (if 2 \<le> dict_get (fk_attempts s) p 0 then 2 else 1)"
proof -
  let ?spam = "''fork_same_height_spam''"
  obtain s1 m where 1: "fork_note_attempt p r s = (s1, m)" by fastforce
  have m: "m = dict_get (fk_attempts s) p 0 + 1" "dict_get (fk_attempts s1) p 0 = dict_get (fk_attempts s) p 0 + 1"
    using note_attempt_total [of p r s] 1 by simp_all
  have f1: "fk_strikes s1 = fk_strikes s" using fork_note_attempt_world(3) [of p r s] 1 by simp
  obtain s2 k where 2: "fork_note_attempt p ?spam (bump_refuse ?spam s1) = (s2, k)" by fastforce
  have k: "dict_get (fk_attempts s2) p 0 = dict_get (fk_attempts s) p 0 + 2"
    using note_attempt_total(2) [of p ?spam "bump_refuse ?spam s1"] 2 m by simp
  have f2: "fk_strikes s2 = fk_strikes s" using fork_note_attempt_world(3) [of p ?spam "bump_refuse ?spam s1"] 2 f1 by simp
  have mm: "(if m = 0 then 1 else m) = m" using m(1) assms(3) by simp
  have rcs: "(if r = '''' then ''refused'' else r) = r" using assms(1) by simp
  note unf = fork_fail_closed_def rcs Let_def 1 prod.case mm fork_spam_threshold_def
  have eq: "fork_fail_closed r p h t b s =
     (if 2 \<le> dict_get (fk_attempts s) p 0
      then (s2\<lparr>fk_evidence := fork_build_evidence ?spam p h t b (if k = 0 then m else k) # fk_evidence s2,
               fk_strikes := (p, ?spam) # fk_strikes s2\<rparr>,
            Inl (ForkMalicious (fo_refused ?spam h t) (fork_build_evidence ?spam p h t b (if k = 0 then m else k))))
      else ((bump_refuse r s1)\<lparr>fk_evidence := fork_build_evidence r p h t b m # fk_evidence (bump_refuse r s1),
               fk_strikes := (p, r) # fk_strikes (bump_refuse r s1)\<rparr>,
            Inl (ForkMalicious (fo_refused r h t) (fork_build_evidence r p h t b m))))"
  proof (cases "2 \<le> dict_get (fk_attempts s) p 0")
    case True
    hence sp: "(3 \<le> m \<and> r \<noteq> ?spam) = True" using m(1) assms(2) by simp
    show ?thesis unfolding unf sp if_True 2 by (simp add: True)
  next
    case False
    hence sp: "(3 \<le> m \<and> r \<noteq> ?spam) = False" using m(1) by simp
    show ?thesis unfolding unf sp if_False by (simp add: False)
  qed
  show "fe_reason (hd (fk_evidence (fst (fork_fail_closed r p h t b s)))) =
      (if 2 \<le> dict_get (fk_attempts s) p 0 then ?spam else r)"
    "fk_strikes (fst (fork_fail_closed r p h t b s)) = (p, if 2 \<le> dict_get (fk_attempts s) p 0 then ?spam else r) # fk_strikes s"
    "dict_get (fk_attempts (fst (fork_fail_closed r p h t b s))) p 0 =
      dict_get (fk_attempts s) p 0 + (if 2 \<le> dict_get (fk_attempts s) p 0 then 2 else 1)"
    unfolding eq using assms(1) m k f1 f2 by (simp_all add: fork_build_evidence_def)
qed

section \<open>A concrete node\<close>

text \<open>A node whose world is its head, with one peer that serves the body \<open>demo_body\<close>.\<close>

definition demo_body :: block_data where
  "demo_body = \<lparr>bd_height = Some (IntValue 7), bd_number = None, bd_hash = Some ''t'', bd_block_hash = None,
     bd_parent = Some ''p''\<rparr>"

definition demo_ports :: "block_data \<Rightarrow> string \<Rightarrow> string fork_ports" where
  "demo_ports b ev =
     \<lparr>fp_height = (\<lambda>w. 6), fp_head = (\<lambda>w. w), fp_expected_parent = (\<lambda>w h. ''q''), fp_find_ancestor = (\<lambda>w p. find_ancestor_height ''g'' [''p'' \<mapsto> 6] p),
      fp_reorg = (\<lambda>h b w. (''t'', True)), fp_fetch = (\<lambda>pid t w. if pid = ''n'' then Some b else None),
      fp_fork_probe = (\<lambda>p w. ''''), fp_ghost_probe = (\<lambda>g h w. ''''), fp_ghost_head = (\<lambda>w. ''''),
      fp_tip_evidence = (\<lambda>b w. ev), fp_peers_for_head = (\<lambda>t w. []), fp_all_peers = (\<lambda>w. [''n''])\<rparr>"

lemma demo_strip_body: "py_strip ''t'' = ''t''" "py_strip ''p'' = ''p''" "py_lower ''t'' = ''t''" "py_lower ''p'' = ''p''"
  by (simp_all add: py_strip_def py_space_def py_lower_def lower_char_def Let_def)

definition demo_run :: "block_data \<Rightarrow> string \<Rightarrow> string fork_result" where
  "demo_run b ev = run_to_head_inner (demo_ports b ev) ''t'' None default_fork_config False (new_fork_state ''p'')"

lemma demo_fetch: "fetch_target_block (demo_ports b ev) t None w = Some (b, ''n'')"
  by (simp add: fetch_target_block_def fetch_order_def demo_ports_def)

lemma demo_ports_simps [simp]:
  "fp_height (demo_ports b ev) w = 6" "fp_head (demo_ports b ev) w = w"
  "fp_find_ancestor (demo_ports b ev) w = find_ancestor_height ''g'' [''p'' \<mapsto> 6]"
  "fp_reorg (demo_ports b ev) h b' w = (''t'', True)" "fp_tip_evidence (demo_ports b ev) b' w = ev"
  by (simp_all add: demo_ports_def fun_eq_iff)

lemma demo_run_good: "demo_run demo_body '''' = (fst (demo_run demo_body ''''), Inr (fo_make FkComplete ''ok'' 6 ''t''))"
  "fk_world (fst (demo_run demo_body '''')) = ''t''"
proof -
  have "body_refuse (demo_ports demo_body '''') default_fork_config ''t'' demo_body ''p'' = ''''"
    by (simp add: body_refuse_def fetched_head_refuse_def contiguous_parent_refuse_def same_height_parent_refuse_def
        block_height_of_def block_hash_of_def parent_of_def text_or_def json_height_def demo_body_def demo_strip_body Let_def)
  hence r: "demo_run demo_body '''' =
      reorg_stage (demo_ports demo_body '''') default_fork_config ''t'' ''n'' demo_body (new_fork_state ''p'')"
    by (simp add: demo_run_def run_to_head_inner_def new_fork_state_def demo_strip_body demo_fetch Let_def)
  show "demo_run demo_body '''' = (fst (demo_run demo_body ''''), Inr (fo_make FkComplete ''ok'' 6 ''t''))"
    "fk_world (fst (demo_run demo_body '''')) = ''t''"
    unfolding r
    by (simp_all add: reorg_stage_def new_fork_state_def find_ancestor_height_def parent_of_def text_or_def demo_body_def
        tip_head_refuse_def demo_strip_body Let_def)
qed

section \<open>Properties\<close>

text \<open>
  C37. the chain moves only behind the gates. When a run to a head changed the node, the body was
  fetched from a peer, every enabled bind held on the untouched chain, its parent has a common
  ancestor, and the change is one \<open>reorg_and_import\<close> that rolls back to at most that ancestor and
  strictly below the body.
\<close>

theorem reorg_only_after_gates:
  fixes target :: string
  assumes "run_to_head_inner P target hint cfg gp s = (s', r)" "fk_world s' \<noteq> fk_world s"
  shows "\<exists>b anc n. gated P cfg (py_strip target) (fk_world s) b anc \<and> n \<le> anc \<and> n < block_height_of b 0
    \<and> fk_world s' = fst (fp_reorg P n b (fk_world s))"
proof (cases rule: run_to_head_cases [of P target hint cfg gp s])
  case (reorged b anc w' ok out)
  with assms(1) have "fk_world s' = fst (fp_reorg P (rollback_height b anc) b (fk_world s))" by simp
  moreover have "rollback_height b anc \<le> anc" "rollback_height b anc < block_height_of b 0"
    by (simp_all add: rollback_height_def)
  ultimately show ?thesis using reorged(1) by blast
qed (use assms in \<open>auto simp: struck_def\<close>)

lemma reorg_only_after_gates_witness:
  "\<exists>b anc n. gated (demo_ports demo_body '''') default_fork_config ''t'' ''p'' b anc \<and> n \<le> anc \<and> n < block_height_of b 0"
proof -
  have "fk_world (fst (demo_run demo_body '''')) \<noteq> fk_world (new_fork_state ''p'')"
    by (simp add: demo_run_good(2)) (simp add: new_fork_state_def)
  from reorg_only_after_gates [OF demo_run_good(1) [unfolded demo_run_def], folded demo_run_def, OF this]
  show ?thesis by (simp add: demo_strip_body) (auto simp: new_fork_state_def)
qed

text \<open>What COMPLETE means. A run that reports COMPLETE reorganised the chain successfully behind
  the gates, and with the tip bind on, the tip the chain then reports is the target head.\<close>

theorem complete_reaches_target:
  fixes target :: string
  assumes "run_to_head_inner P target hint cfg gp s = (s', Inr out)" "fo_status out = FkComplete"
  shows "\<exists>b anc. gated P cfg (py_strip target) (fk_world s) b anc
    \<and> fp_reorg P (rollback_height b anc) b (fk_world s) = (fk_world s', True)
    \<and> (fc_tip_head_bind cfg \<longrightarrow> py_strip target = '''' \<or> py_strip (fp_head P (fk_world s')) = ''''
         \<or> py_lower (py_strip (fp_head P (fk_world s'))) = py_lower (py_strip target))"
proof (cases rule: run_to_head_cases [of P target hint cfg gp s])
  case (reorged b anc w' ok out')
  with assms have r: "fp_reorg P (rollback_height b anc) b (fk_world s) = (fk_world s', True)"
    "tip_head_refuse (py_strip target) (fp_head P (fk_world s')) (fc_tip_head_bind cfg) = ''''" by auto
  have "fc_tip_head_bind cfg \<longrightarrow> py_strip target = '''' \<or> py_strip (fp_head P (fk_world s')) = ''''
      \<or> py_lower (py_strip (fp_head P (fk_world s'))) = py_lower (py_strip target)"
    using r(2) by (auto simp: tip_head_refuse_def Let_def split: if_splits)
  with reorged(1) r(1) show ?thesis by blast
qed (use assms in auto)

lemma complete_reaches_target_witness:
  "\<exists>b anc. gated (demo_ports demo_body '''') default_fork_config ''t'' ''p'' b anc"
  using complete_reaches_target [OF demo_run_good(1) [unfolded demo_run_def]]
  by (auto simp: fo_make_def demo_strip_body new_fork_state_def)

text \<open>
  hostile bodies fail closed. When a run raises, the chain is untouched, exactly one piece of
  evidence was logged and exactly one strike given, both for the same peer with the reason raised.
\<close>

theorem malicious_run_strikes:
  assumes "run_to_head_inner P target hint cfg gp s = (s', Inl e)"
  shows "\<exists>peer. struck peer s s' e"
proof (cases rule: run_to_head_cases [of P target hint cfg gp s])
  case (malicious e' peer)
  with assms show ?thesis by auto
qed (use assms in auto)

lemma malicious_run_witness:
  "\<exists>e peer. snd (demo_run demo_body ''tip_evidence_enforce_refuse'') = Inl e
     \<and> struck peer (new_fork_state ''p'') (fst (demo_run demo_body ''tip_evidence_enforce_refuse'')) e"
proof -
  let ?ev = "''tip_evidence_enforce_refuse''"
  have mal: "is_malicious_refuse ?ev" by (simp add: is_malicious_refuse_def malicious_refuse_codes_def)
  have "body_refuse (demo_ports demo_body ?ev) default_fork_config ''t'' demo_body ''p'' = ?ev"
    unfolding body_refuse_def Let_def by (simp add: mal)
  hence "demo_run demo_body ?ev = refuse_or_fail_closed ?ev ''n'' 6 ''t'' (Some demo_body) (new_fork_state ''p'')"
    by (simp add: demo_run_def run_to_head_inner_def new_fork_state_def demo_strip_body demo_fetch Let_def)
  then obtain e where e: "snd (demo_run demo_body ?ev) = Inl e"
    using fork_fail_closed_struck mal by (metis refuse_or_fail_closed_def)
  hence "run_to_head_inner (demo_ports demo_body ?ev) ''t'' None default_fork_config False (new_fork_state ''p'') =
      (fst (demo_run demo_body ?ev), Inl e)"
    by (simp add: demo_run_def prod_eq_iff)
  from malicious_run_strikes [OF this] e show ?thesis by blast
qed

text \<open>Escalation. The first two hostile bodies of a peer are struck under their own reasons, and
  every later one as same-height spam, whatever reasons they had.\<close>

theorem third_strike_is_spam:
  assumes "list_all (\<lambda>r. r \<noteq> '''' \<and> r \<noteq> ''fork_same_height_spam'') (r1 # r2 # rs)"
  shows "fk_strikes (fold (hit peer) (r1 # r2 # rs) (new_fork_state w)) =
    replicate (length rs) (peer, ''fork_same_height_spam'') @ [(peer, r2), (peer, r1)]"
proof -
  let ?n = "\<lambda>s. dict_get (fk_attempts s) peer 0" and ?s0 = "new_fork_state w"
  have later: "fk_strikes (fold (hit peer) rs s) = replicate (length rs) (peer, ''fork_same_height_spam'') @ fk_strikes s"
    if "2 \<le> ?n s" "list_all (\<lambda>r. r \<noteq> '''' \<and> r \<noteq> ''fork_same_height_spam'') rs" for s :: "'a fork_state" and rs
    using that
  proof (induction rs arbitrary: s)
    case (Cons r rs)
    have "?n (hit peer r s) = ?n s + 2" "fk_strikes (hit peer r s) = (peer, ''fork_same_height_spam'') # fk_strikes s"
      using Cons.prems fail_closed_reason(2,3) [of r s peer 0 "''''" None] by (simp_all add: hit_def)
    with Cons show ?case by (simp add: replicate_app_Cons_same)
  qed simp
  have z: "?n ?s0 = 0" "fk_strikes ?s0 = []" by (simp_all add: new_fork_state_def dict_get_def)
  have a: "?n (hit peer r1 ?s0) = 1" "fk_strikes (hit peer r1 ?s0) = [(peer, r1)]"
    using assms z fail_closed_reason(2,3) [of r1 ?s0 peer 0 "''''" None] by (simp_all add: hit_def)
  have b: "?n (hit peer r2 (hit peer r1 ?s0)) = 2" "fk_strikes (hit peer r2 (hit peer r1 ?s0)) = [(peer, r2), (peer, r1)]"
    using assms a fail_closed_reason(2,3) [of r2 "hit peer r1 ?s0" peer 0 "''''" None] by (simp_all add: hit_def)
  show ?thesis using later [of "hit peer r2 (hit peer r1 ?s0)" rs] b assms by simp
qed

lemma third_strike_witness:
  "fk_strikes (fold (hit ''n'') [''fork_peer_head_hash_mismatch'', ''fork_peer_head_height_mismatch'',
       ''reconcile_head_hash_mismatch''] (new_fork_state ())) =
     [(''n'', ''fork_same_height_spam''), (''n'', ''fork_peer_head_height_mismatch''), (''n'', ''fork_peer_head_hash_mismatch'')]"
  using third_strike_is_spam [of "''fork_peer_head_hash_mismatch''" "''fork_peer_head_height_mismatch''"
      "[''reconcile_head_hash_mismatch'']" "''n''" "()"] by simp

text \<open>
  a body without a height wipes the chain. A fetched body with neither height nor parent
  passes every bind, its empty parent is taken for the genesis parent at height 0, and the chain is
  asked to roll back to height -1; with no finalized floor \<open>reorg_to_ancestor\<close> then removes every
  block, the genesis block included.
\<close>

theorem heightless_body_wipes_chain:
  assumes "bd_height b = None" "bd_number b = None" "bd_parent b = None"
    and "py_lower (block_hash_of b) = py_lower (py_strip target)"
    and "fetch_target_block P (py_strip target) hint (fk_world s) = Some (b, pid)" "py_strip target \<noteq> ''''"
    and "py_lower (py_strip (fp_head P (fk_world s))) \<noteq> py_lower (py_strip target)"
    and "fp_tip_evidence P b (fk_world s) = ''''"
    and "fp_find_ancestor P (fk_world s) = find_ancestor_height genesis height_of"
  shows "fk_world (fst (run_to_head_inner P target hint cfg False s)) = fst (fp_reorg P (-1) b (fk_world s))
    \<and> (list_all (\<lambda>h. 0 \<le> h) hs \<longrightarrow> fst (reorg_to_ancestor 0 True (-1) hs) = [])"
proof -
  have h: "block_height_of b (-1) = -1" "block_height_of b 0 = 0" "parent_of b = ''''"
    using assms(1-3) by (simp_all add: block_height_of_def json_height_def parent_of_def text_or_def)
  have "body_refuse P cfg (py_strip target) b (fk_world s) = ''''"
    using assms(4,8) h by (simp add: body_refuse_def fetched_head_refuse_def contiguous_parent_refuse_def
        same_height_parent_refuse_def Let_def)
  hence run: "run_to_head_inner P target hint cfg False s = reorg_stage P cfg (py_strip target) pid b s"
    using assms(5-7) by (auto simp: run_to_head_inner_def Let_def)
  have anc: "fp_find_ancestor P (fk_world s) (parent_of b) = Some 0"
    by (simp add: assms(9) h find_ancestor_height_def)
  have "rollback_height b 0 = -1" by (simp add: rollback_height_def h)
  moreover have "fk_world (fst (reorg_stage P cfg (py_strip target) pid b s)) = fst (fp_reorg P (rollback_height b 0) b (fk_world s))"
    using anc by (cases rule: reorg_stage_cases [of P cfg "py_strip target" pid b s]) auto
  moreover have "fst (reorg_to_ancestor 0 True (-1) hs) = []" if "list_all (\<lambda>h. 0 \<le> h) hs"
  proof -
    have "hs \<noteq> [] \<Longrightarrow> 0 \<le> Max (set hs)" using that Max_in [of "set hs"] by (auto simp: list_all_iff)
    moreover have "filter (\<lambda>h. h \<le> -1) hs = []" using that by (auto simp: list_all_iff filter_empty_conv)
    ultimately show ?thesis by (cases "hs = []") (simp_all add: reorg_to_ancestor_def Let_def del: Max_le_iff Max_less_iff)
  qed
  ultimately show ?thesis unfolding run by simp
qed

lemma heightless_body_witness:
  "let b = \<lparr>bd_height = None, bd_number = None, bd_hash = Some ''t'', bd_block_hash = None, bd_parent = None\<rparr>
   in fk_world (fst (run_to_head_inner (demo_ports b '''') ''t'' None default_fork_config False (new_fork_state ''p'')))
        = fst (fp_reorg (demo_ports b '''') (-1) b ''p'')
      \<and> fst (reorg_to_ancestor 0 True (-1) [0, 1, 2]) = []"
proof -
  let ?b = "\<lparr>bd_height = None, bd_number = None, bd_hash = Some ''t'', bd_block_hash = None, bd_parent = None\<rparr>"
  have "fetch_target_block (demo_ports ?b '''') (py_strip ''t'') None (fk_world (new_fork_state ''p'')) = Some (?b, ''n'')"
    by (rule demo_fetch)
  from heightless_body_wipes_chain [OF _ _ _ _ this, of "''g''" "[''p'' \<mapsto> 6]" default_fork_config "[0, 1, 2]"]
  show ?thesis
    by (simp add: block_hash_of_def text_or_def demo_strip_body new_fork_state_def Let_def)
qed

end
