(* ===== verification/Amount.thy ===== *)
theory Amount
  imports Json_Block
begin

text \<open>
  \<open>runtime/amount.py\<close>: ABS amounts as integer satoshi. An argument that the code turns into
  \<open>Decimal(str(x))\<close> is represented by the exact value of that decimal, or by what keeps it from being
  a finite one; decimal products are rounded to the 28 digits of the default context (\<open>dec28\<close>). The
  native library (a Rust extension) is a record of optional functions: absent, or a function whose
  \<open>None\<close> is an exception, after which the Python path runs unless the native code is required.
\<close>

section \<open>Arguments, errors, the native library\<close>

datatype number = NumBool bool | NumValue rat | NumText | NumNaN | NumInf bool

datatype amount_error = AmountType | AmountValue | AmountInvalid | AmountRuntime

record fee_plan =
  pl_fee :: int
  pl_burned :: int
  pl_miner :: int
  pl_value :: int
  pl_total :: int

record native_amount =
  na_required :: bool
  na_to_satoshi :: "(number \<Rightarrow> int option) option"
  na_from_float :: "(int \<Rightarrow> pyfloat option) option"
  na_delta :: "(int \<Rightarrow> number \<Rightarrow> int option) option"
  na_plan :: "(int \<Rightarrow> number \<Rightarrow> number \<Rightarrow> number \<Rightarrow> int option \<Rightarrow> (int \<times> int \<times> int \<times> int) option) option"
  na_afford :: "(int \<Rightarrow> number \<Rightarrow> bool option) option"

definition no_native :: native_amount where
  "no_native = \<lparr>na_required = False, na_to_satoshi = None, na_from_float = None, na_delta = None,
     na_plan = None, na_afford = None\<rparr>"

text \<open>Run the native call, or fall back to \<open>py\<close>.\<close>

definition native_or :: "native_amount \<Rightarrow> 'a option option \<Rightarrow> (amount_error, 'a) result \<Rightarrow> (amount_error, 'a) result" where
  "native_or N call py =
     (case call of
        None \<Rightarrow> py
      | Some (Some r) \<Rightarrow> ret r
      | Some None \<Rightarrow> if na_required N then raise AmountRuntime else py)"

section \<open>Conversions\<close>

definition satoshi_multiplier :: int where
  "satoshi_multiplier = 10 ^ 6"

definition truncate_rat :: "rat \<Rightarrow> int" where
  "truncate_rat x = (if 0 \<le> x then \<lfloor>x\<rfloor> else - \<lfloor>- x\<rfloor>)"

text \<open>\<open>quantize\<close> raises when the result needs more than 28 digits.\<close>

definition quantize_down :: "rat \<Rightarrow> (amount_error, int) result" where
  "quantize_down x = (if \<bar>truncate_rat x\<bar> < 10 ^ 28 then ret (truncate_rat x) else raise AmountInvalid)"

definition to_satoshi_py :: "number \<Rightarrow> (amount_error, int) result" where
  "to_satoshi_py a =
     (case a of
        NumBool _ \<Rightarrow> raise AmountType
      | NumText \<Rightarrow> raise AmountValue
      | NumNaN \<Rightarrow> raise AmountValue
      | NumInf _ \<Rightarrow> raise AmountInvalid
      | NumValue d \<Rightarrow> quantize_down (dec28 (d * of_int satoshi_multiplier)))"

definition to_satoshi :: "native_amount \<Rightarrow> number \<Rightarrow> (amount_error, int) result" where
  "to_satoshi N a =
     (case a of NumBool _ \<Rightarrow> raise AmountType
      | _ \<Rightarrow> native_or N (map_option (\<lambda>f. f a) (na_to_satoshi N)) (to_satoshi_py a))"

definition from_satoshi :: "int \<Rightarrow> rat" where
  "from_satoshi sat = dec28 (of_int sat / of_int satoshi_multiplier)"

definition from_satoshi_float :: "native_amount \<Rightarrow> int \<Rightarrow> (amount_error, pyfloat) result" where
  "from_satoshi_float N sat = native_or N (map_option (\<lambda>f. f sat) (na_from_float N)) (ret (f64 (from_satoshi sat)))"

section \<open>Accounts\<close>

record account_row =
  ac_satoshi :: "json_int option"
  ac_balance :: "number option"

definition account_satoshi :: "native_amount \<Rightarrow> account_row option \<Rightarrow> (amount_error, int) result" where
  "account_satoshi N row =
     (case row of
        None \<Rightarrow> ret 0
      | Some r \<Rightarrow>
          (case Option.bind (ac_satoshi r) to_int of
             Some n \<Rightarrow> ret (max 0 n)
           | None \<Rightarrow>
               (case to_satoshi N (case ac_balance r of None \<Rightarrow> NumValue 0 | Some b \<Rightarrow> if b = NumBool False then NumValue 0 else b) of
                  Inl e \<Rightarrow> raise e
                | Inr s \<Rightarrow> ret (max 0 s))))"

definition account_balance_abs :: "native_amount \<Rightarrow> account_row option \<Rightarrow> (amount_error, pyfloat) result" where
  "account_balance_abs N row =
     (case account_satoshi N row of Inl e \<Rightarrow> raise e | Inr s \<Rightarrow> from_satoshi_float N s)"

definition dual_write_balance :: "native_amount \<Rightarrow> number \<Rightarrow> (amount_error, int \<times> pyfloat) result" where
  "dual_write_balance N balance =
     (case to_satoshi N balance of
        Inl e \<Rightarrow> raise e
      | Inr s \<Rightarrow> (case from_satoshi_float N (max 0 s) of Inl e \<Rightarrow> raise e | Inr f \<Rightarrow> ret (max 0 s, f)))"

definition apply_delta_satoshi :: "native_amount \<Rightarrow> int \<Rightarrow> number \<Rightarrow> (amount_error, int) result" where
  "apply_delta_satoshi N cur delta =
     (let py = (case to_satoshi N delta of Inl e \<Rightarrow> raise e | Inr d \<Rightarrow> ret (max 0 (cur + d)))
      in case delta of
           NumBool _ \<Rightarrow> raise AmountType
         | _ \<Rightarrow> native_or N (map_option (\<lambda>f. f cur delta) (na_delta N)) py)"

definition try_debit_satoshi :: "native_amount \<Rightarrow> int \<Rightarrow> number \<Rightarrow> (amount_error, int) result" where
  "try_debit_satoshi N cur debit =
     (case to_satoshi N debit of
        Inl e \<Rightarrow> raise e
      | Inr d \<Rightarrow> if d < 0 then raise AmountValue else if cur < d then raise AmountValue else ret (cur - d))"

definition apply_satoshi_delta :: "int \<Rightarrow> int \<Rightarrow> int" where
  "apply_satoshi_delta cur delta = max 0 (cur + delta)"

section \<open>Fees\<close>

text \<open>The burn rate, clamped to the unit interval; \<open>NaN\<close> raises in the comparison.\<close>

definition clamp_rate :: "number \<Rightarrow> (amount_error, rat) result" where
  "clamp_rate r =
     (case r of
        NumValue x \<Rightarrow> ret (if x < 0 then 0 else if 1 < x then 1 else x)
      | NumInf pos \<Rightarrow> ret (if pos then 1 else 0)
      | _ \<Rightarrow> raise AmountInvalid)"

text \<open>\<open>Decimal(int(gas)) * gp\<close> of a price that is not negative, and the greater of two amounts.\<close>

definition gas_cost :: "int \<Rightarrow> number \<Rightarrow> (amount_error, number) result" where
  "gas_cost g price =
     (case price of
        NumValue gp \<Rightarrow> if gp < 0 then raise AmountValue else ret (NumValue (dec28 (of_int g * gp)))
      | NumInf pos \<Rightarrow>
          if \<not> pos then raise AmountValue else if g = 0 then raise AmountInvalid else ret (NumInf (0 < g))
      | _ \<Rightarrow> raise AmountInvalid)"

definition max_number :: "number \<Rightarrow> number \<Rightarrow> number" where
  "max_number a b =
     (case (a, b) of
        (NumValue x, NumValue y) \<Rightarrow> NumValue (max x y)
      | (NumInf pos, _) \<Rightarrow> if pos then a else b
      | (_, NumInf pos) \<Rightarrow> if pos then b else a
      | _ \<Rightarrow> a)"

definition fee_amount :: "int \<Rightarrow> int option \<Rightarrow> number \<Rightarrow> (amount_error, number) result" where
  "fee_amount gas gas_used price =
     (case gas_cost gas price of
        Inl e \<Rightarrow> raise e
      | Inr fee \<Rightarrow>
          (case gas_used of
             None \<Rightarrow> ret fee
           | Some u \<Rightarrow> (case gas_cost u price of Inl e \<Rightarrow> raise e | Inr used \<Rightarrow> ret (max_number fee used))))"

definition plan_py :: "native_amount \<Rightarrow> int \<Rightarrow> number \<Rightarrow> number \<Rightarrow> number \<Rightarrow> int option \<Rightarrow> (amount_error, fee_plan) result" where
  "plan_py N gas price burn_rate val gas_used =
     (case fee_amount gas gas_used price of
        Inl e \<Rightarrow> raise e
      | Inr fee_abs \<Rightarrow>
          (case to_satoshi N fee_abs of
             Inl e \<Rightarrow> raise e
           | Inr fee_sat \<Rightarrow>
               (case clamp_rate burn_rate of
                  Inl e \<Rightarrow> raise e
                | Inr rate \<Rightarrow>
                    (let burned = truncate_rat (dec28 (of_int fee_sat * rate))
                     in case to_satoshi N val of
                          Inl e \<Rightarrow> raise e
                        | Inr value_sat \<Rightarrow>
                            ret \<lparr>pl_fee = fee_sat, pl_burned = burned, pl_miner = fee_sat - burned,
                                 pl_value = value_sat, pl_total = value_sat + fee_sat\<rparr>))))"

definition plan_transfer_fees_sat ::
  "native_amount \<Rightarrow> int \<Rightarrow> number \<Rightarrow> number \<Rightarrow> number \<Rightarrow> int option \<Rightarrow> (amount_error, fee_plan) result" where
  "plan_transfer_fees_sat N gas price burn_rate val gas_used =
     (let py = plan_py N gas price burn_rate val gas_used
      in case na_plan N of
           None \<Rightarrow> py
         | Some f \<Rightarrow>
             native_or N (Some (case f gas price burn_rate val gas_used of
                 None \<Rightarrow> None
               | Some (fee, burned, miner, cost) \<Rightarrow>
                   (case to_satoshi N val of
                      Inl _ \<Rightarrow> None
                    | Inr v \<Rightarrow> Some \<lparr>pl_fee = fee, pl_burned = burned, pl_miner = miner, pl_value = v, pl_total = cost\<rparr>))) py)"

definition can_afford_transfer_sat :: "int \<Rightarrow> int \<Rightarrow> bool" where
  "can_afford_transfer_sat sender cost \<longleftrightarrow> max 0 cost \<le> sender"

definition can_afford_transfer :: "native_amount \<Rightarrow> int \<Rightarrow> number \<Rightarrow> (amount_error, bool) result" where
  "can_afford_transfer N sender cost =
     native_or N (map_option (\<lambda>f. f sender cost) (na_afford N))
       (case to_satoshi N cost of Inl e \<Rightarrow> raise e | Inr t \<Rightarrow> ret (can_afford_transfer_sat sender t))"

section \<open>Facts\<close>

lemma truncate_of_int [simp]: "truncate_rat (of_int k) = k"
  by (simp add: truncate_rat_def)

lemma truncate_mono_int: "0 \<le> x \<Longrightarrow> x \<le> of_int k \<Longrightarrow> 0 \<le> truncate_rat x \<and> truncate_rat x \<le> k"
  by (auto simp: truncate_rat_def floor_le_iff)

lemma native_or_none [simp]: "native_or N None py = py"
  by (simp add: native_or_def)

lemma no_native_simps [simp]:
  "na_to_satoshi no_native = None" "na_from_float no_native = None" "na_delta no_native = None"
  "na_plan no_native = None" "na_afford no_native = None"
  by (simp_all add: no_native_def)

lemma to_satoshi_value: "to_satoshi no_native (NumValue d) = quantize_down (dec28 (d * of_int satoshi_multiplier))"
  by (simp add: to_satoshi_def to_satoshi_py_def)

lemma to_satoshi_Inr:
  assumes "to_satoshi no_native a = Inr s"
  obtains d where "a = NumValue d" "\<bar>s\<bar> < 10 ^ 28" "0 \<le> d \<longrightarrow> 0 \<le> s" "s = truncate_rat (dec28 (d * of_int satoshi_multiplier))"
proof (cases a)
  case (NumValue d)
  have "s = truncate_rat (dec28 (d * of_int satoshi_multiplier))" "\<bar>s\<bar> < 10 ^ 28"
    using assms NumValue by (auto simp: to_satoshi_value quantize_down_def split: if_splits)
  moreover have "0 \<le> d \<longrightarrow> 0 \<le> s"
  proof
    assume "0 \<le> d"
    hence "0 \<le> dec28 (d * of_int satoshi_multiplier)" using decimal.R_nonneg by (simp add: satoshi_multiplier_def)
    with calculation(1) show "0 \<le> s" by (simp add: truncate_rat_def)
  qed
  ultimately show thesis using that NumValue by blast
qed (use assms in \<open>auto simp: to_satoshi_def to_satoshi_py_def\<close>)

text \<open>A whole number of satoshi below \<open>10 ^ 28\<close> survives the way to ABS and back.\<close>

lemma satoshi_exact:
  assumes "\<bar>n\<bar> \<le> 10 ^ 28"
  shows "dec28 (of_int n / of_int satoshi_multiplier) = of_int n / of_int satoshi_multiplier"
proof -
  have "of_int n / of_int satoshi_multiplier = of_int n * (of_nat 10 :: rat) powi (-6)"
    by (simp add: satoshi_multiplier_def power_int_minus field_simps)
  moreover have "dec28 (of_int n * of_nat 10 powi (-6)) = of_int n * of_nat 10 powi (-6)"
    unfolding dec28_def using assms by (intro rnd_exact) simp_all
  ultimately show ?thesis by (simp add: satoshi_multiplier_def field_simps)
qed

lemma burn_bounds:
  assumes "0 \<le> rate" "rate \<le> 1" "0 \<le> fee" "fee \<le> 10 ^ 28"
  shows "0 \<le> truncate_rat (dec28 (of_int fee * rate)) \<and> truncate_rat (dec28 (of_int fee * rate)) \<le> fee"
proof (rule truncate_mono_int)
  show "0 \<le> dec28 (of_int fee * rate)" using assms by (intro decimal.R_nonneg) simp
  have "of_int fee * rate \<le> of_int fee" using assms by (simp add: mult_left_le)
  hence "dec28 (of_int fee * rate) \<le> dec28 (of_int fee)" by (rule decimal.R_mono)
  thus "dec28 (of_int fee * rate) \<le> of_int fee" using decimal.R_int [of fee] assms by simp
qed

lemma clamp_bounds: "clamp_rate r = Inr x \<Longrightarrow> 0 \<le> x \<and> x \<le> 1"
  by (auto simp: clamp_rate_def split: number.splits if_splits)

lemma fee_amount_nonneg:
  assumes "fee_amount gas gas_used price = Inr (NumValue x)" "0 \<le> gas"
  shows "0 \<le> x"
proof -
  have c: "0 \<le> y" if "gas_cost gas price = Inr (NumValue y)" for y
    using that assms(2) by (auto simp: gas_cost_def intro!: decimal.R_nonneg split: number.splits if_splits)
  show ?thesis
    using assms c
    by (auto simp: fee_amount_def max_number_def gas_cost_def le_max_iff_disj
        split: sum.splits option.splits number.splits if_splits)
qed

lemma plan_py_Inr:
  assumes "plan_py N gas price burn_rate val gas_used = Inr p"
  obtains fee_abs rate where "fee_amount gas gas_used price = Inr fee_abs" "to_satoshi N fee_abs = Inr (pl_fee p)"
    "clamp_rate burn_rate = Inr rate"
    "pl_burned p = truncate_rat (dec28 (of_int (pl_fee p) * rate))" "pl_miner p = pl_fee p - pl_burned p"
    "to_satoshi N val = Inr (pl_value p)" "pl_total p = pl_value p + pl_fee p"
  using assms by (auto simp: plan_py_def Let_def split: sum.splits)

lemma to_satoshi_from:
  assumes "\<bar>n\<bar> < 10 ^ 28"
  shows "to_satoshi no_native (NumValue (from_satoshi n)) = Inr n"
proof -
  have "from_satoshi n * of_int satoshi_multiplier = of_int n"
    unfolding from_satoshi_def using assms by (subst satoshi_exact) (simp_all add: satoshi_multiplier_def)
  thus ?thesis using assms decimal.R_int [of n] by (simp add: to_satoshi_value quantize_down_def)
qed

lemma plan_no_native: "plan_transfer_fees_sat no_native = plan_py no_native"
  by (intro ext) (simp add: plan_transfer_fees_sat_def)

lemma plan_split:
  assumes "plan_transfer_fees_sat no_native gas price burn_rate val gas_used = Inr p" "0 \<le> gas"
  shows "0 \<le> pl_burned p" "pl_burned p \<le> pl_fee p" "pl_fee p = pl_burned p + pl_miner p"
    "pl_total p = pl_value p + pl_fee p" "to_satoshi no_native val = Inr (pl_value p)"
proof -
  from assms(1) obtain fee_abs rate where p: "fee_amount gas gas_used price = Inr fee_abs"
      "to_satoshi no_native fee_abs = Inr (pl_fee p)" "clamp_rate burn_rate = Inr rate"
      "pl_burned p = truncate_rat (dec28 (of_int (pl_fee p) * rate))" "pl_miner p = pl_fee p - pl_burned p"
      "to_satoshi no_native val = Inr (pl_value p)" "pl_total p = pl_value p + pl_fee p"
    unfolding plan_no_native by (rule plan_py_Inr)
  from p(2) obtain d where d: "fee_abs = NumValue d" "\<bar>pl_fee p\<bar> < 10 ^ 28" "0 \<le> d \<longrightarrow> 0 \<le> pl_fee p"
      "pl_fee p = truncate_rat (dec28 (d * of_int satoshi_multiplier))"
    by (rule to_satoshi_Inr)
  have "0 \<le> pl_fee p" using d fee_amount_nonneg assms(2) p(1) by blast
  with burn_bounds [of rate "pl_fee p"] clamp_bounds [OF p(3)] d(2) p(4)
  show "0 \<le> pl_burned p" "pl_burned p \<le> pl_fee p" by simp_all
  show "pl_fee p = pl_burned p + pl_miner p" "pl_total p = pl_value p + pl_fee p"
    "to_satoshi no_native val = Inr (pl_value p)" using p by simp_all
qed

section \<open>Properties\<close>


lemma dec28_million: "dec28 (of_int k * 1000000) = of_int (k * 1000000)" if "\<bar>k\<bar> \<le> 10 ^ 22"
  using decimal.R_int [of "k * 1000000"] that by simp

definition demo_plan :: fee_plan where
  "demo_plan = \<lparr>pl_fee = 21000000000, pl_burned = 21000000000, pl_miner = 0, pl_value = 5000000,
     pl_total = 21005000000\<rparr>"

lemma demo_plan_eq:
  "plan_transfer_fees_sat no_native 21000 (NumValue 1) (NumValue 2) (NumValue 5) None = Inr demo_plan"
  using dec28_million [of 21000] dec28_million [of 5] decimal.R_int [of 21000] decimal.R_int [of 21000000000]
  by (simp add: plan_no_native plan_py_def fee_amount_def gas_cost_def to_satoshi_value quantize_down_def
      clamp_rate_def satoshi_multiplier_def truncate_rat_def Let_def demo_plan_def)


text \<open>
  Satoshi survive the way through \<open>Decimal\<close>: an amount below \<open>10 ^ 28\<close> satoshi, written out in ABS by
  \<open>from_satoshi\<close> and read back by \<open>to_satoshi\<close>, is the same amount -- no rounding, no off-by-one.
\<close>

theorem satoshi_roundtrip:
  assumes "\<bar>n\<bar> < 10 ^ 28"
  shows "to_satoshi no_native (NumValue (from_satoshi n)) = Inr n"
  using assms by (rule to_satoshi_from)

theorem satoshi_roundtrip_witness: "to_satoshi no_native (NumValue (from_satoshi 1234567)) = Inr 1234567"
  by (rule satoshi_roundtrip) simp

text \<open>
  The check before a transfer and the debit agree: for a plan of a value that is not negative,
  \<open>can_afford_transfer_sat\<close> accepts a balance exactly when debiting the plan's total succeeds, and then
  the balance has been divided, satoshi for satoshi, into what remains, the value, the burn and the
  miner's share; otherwise the debit raises and nothing is clamped.
\<close>

theorem affordable_iff_debit:
  assumes "plan_transfer_fees_sat no_native gas price burn_rate val gas_used = Inr p" "0 \<le> gas"
    and "0 \<le> pl_value p" "pl_total p < 10 ^ 28"
  shows "case try_debit_satoshi no_native cur (NumValue (from_satoshi (pl_total p))) of
      Inr rest \<Rightarrow> can_afford_transfer_sat cur (pl_total p) \<and> 0 \<le> rest \<and>
        rest + pl_value p + pl_burned p + pl_miner p = cur
    | Inl e \<Rightarrow> e = AmountValue \<and> \<not> can_afford_transfer_sat cur (pl_total p)"
proof -
  note P = plan_split [OF assms(1,2)]
  have "to_satoshi no_native (NumValue (from_satoshi (pl_total p))) = Inr (pl_total p)"
    using P assms(3,4) by (intro to_satoshi_from) simp
  thus ?thesis using P assms(3) by (simp add: try_debit_satoshi_def can_afford_transfer_sat_def)
qed

theorem affordable_iff_debit_witness:
  "case try_debit_satoshi no_native 21005000001 (NumValue (from_satoshi (pl_total demo_plan))) of
      Inr rest \<Rightarrow> can_afford_transfer_sat 21005000001 (pl_total demo_plan) \<and> 0 \<le> rest \<and>
        rest + pl_value demo_plan + pl_burned demo_plan + pl_miner demo_plan = 21005000001
    | Inl e \<Rightarrow> e = AmountValue \<and> \<not> can_afford_transfer_sat 21005000001 (pl_total demo_plan)"
  by (rule affordable_iff_debit [OF demo_plan_eq]) (simp_all add: demo_plan_def)

end
