(* ===== verification/Casper_Finality.thy ===== *)
theory Casper_Finality
  imports Prelude
begin

text \<open>
  \<open>finality_engine.py\<close>: the checkpoint finality the consensus adapter runs beside the BFT rounds. The
  three kernels the engine asks of the native library (epoch, quorum, finalization test) are a record of
  functions whose \<open>None\<close> means that the library is missing or raises, which the engine answers with its
  own Python line; \<open>rust_ffg\<close> is \<open>native/abs_native/src/consensus_ffg.rs\<close>. What the engine needs of a
  kernel is the locale \<open>ffg_kernel\<close>, interpreted for the absent library and for the Rust one.
\<close>

section \<open>State\<close>

record checkpoint =
  cp_epoch :: int
  cp_hash :: string
  cp_number :: int
  cp_votes :: int
  cp_justified :: bool
  cp_finalized :: bool

record ffg_native =
  fn_epoch :: "int \<Rightarrow> int \<Rightarrow> int option"
  fn_quorum :: "int \<Rightarrow> int \<Rightarrow> bool option"
  fn_can :: "int \<Rightarrow> int list \<Rightarrow> bool option"

record finality_engine =
  ff_checkpoints :: "(int, checkpoint) dict"
  ff_votes :: "(int, string list) dict"
  ff_justified :: "int list"
  ff_finalized :: "int list"
  ff_epoch :: int
  ff_count :: int

definition ffg_epoch_length :: int where
  "ffg_epoch_length = 32"

definition new_finality_engine :: finality_engine where
  "new_finality_engine =
     \<lparr>ff_checkpoints = [], ff_votes = [], ff_justified = [], ff_finalized = [], ff_epoch = 0, ff_count = 1\<rparr>"

definition set_active_validator_count :: "int \<Rightarrow> finality_engine \<Rightarrow> finality_engine" where
  "set_active_validator_count n s = s\<lparr>ff_count := max 1 (if n = 0 then 1 else n)\<rparr>"

section \<open>The native kernels\<close>

definition no_ffg_native :: ffg_native where
  "no_ffg_native = \<lparr>fn_epoch = (\<lambda>_ _. None), fn_quorum = (\<lambda>_ _. None), fn_can = (\<lambda>_ _. None)\<rparr>"

text \<open>Arguments outside \<open>i64\<close> raise at the call, and so does an epoch length that is not positive.\<close>

definition i64 :: "int \<Rightarrow> bool" where
  "i64 n \<longleftrightarrow> - (2 ^ 63) \<le> n \<and> n < 2 ^ 63"

definition rust_fe_epoch :: "int \<Rightarrow> int \<Rightarrow> int option" where
  "rust_fe_epoch n len = (if \<not> i64 n \<or> \<not> i64 len \<or> len \<le> 0 then None else Some (n div len))"

definition rust_fe_quorum_reached :: "int \<Rightarrow> int \<Rightarrow> bool option" where
  "rust_fe_quorum_reached votes n =
     (if \<not> i64 votes \<or> \<not> i64 n then None
      else Some (fdiv (fmul (float_of_int (max n 1)) 2) 3 \<le> float_of_int votes))"

definition rust_fe_can_finalize :: "int \<Rightarrow> int list \<Rightarrow> bool option" where
  "rust_fe_can_finalize e justified =
     (if \<not> i64 e \<or> \<not> i64 (e - 1) \<or> \<not> list_all i64 justified then None
      else Some (e \<in> set justified \<and> e - 1 \<in> set justified))"

definition rust_ffg :: ffg_native where
  "rust_ffg = \<lparr>fn_epoch = rust_fe_epoch, fn_quorum = rust_fe_quorum_reached, fn_can = rust_fe_can_finalize\<rparr>"

definition native_get :: "'a option \<Rightarrow> 'a \<Rightarrow> 'a" where
  "native_get r py = (case r of Some x \<Rightarrow> x | None \<Rightarrow> py)"

section \<open>Operations\<close>

definition ffg_get_epoch :: "ffg_native \<Rightarrow> int \<Rightarrow> int" where
  "ffg_get_epoch F n = native_get (fn_epoch F n ffg_epoch_length) (n div ffg_epoch_length)"

definition create_checkpoint :: "ffg_native \<Rightarrow> int \<Rightarrow> string \<Rightarrow> finality_engine \<Rightarrow> finality_engine \<times> checkpoint" where
  "create_checkpoint F n h s =
     (let e = ffg_get_epoch F n
      in case map_of (ff_checkpoints s) e of
           Some c \<Rightarrow> (s, c)
         | None \<Rightarrow>
             (let c = \<lparr>cp_epoch = e, cp_hash = h, cp_number = n, cp_votes = 0, cp_justified = False, cp_finalized = False\<rparr>
              in (s\<lparr>ff_checkpoints := dict_set e c (ff_checkpoints s)\<rparr>, c)))"

text \<open>\<open>votes >= total_validators * 2 / 3\<close>: an integer against a double.\<close>

definition ffg_quorum :: "ffg_native \<Rightarrow> int \<Rightarrow> int \<Rightarrow> bool" where
  "ffg_quorum F votes n = native_get (fn_quorum F votes n) (f64 (of_int (n * 2) / 3) \<le> of_int votes)"

definition add_attestation :: "ffg_native \<Rightarrow> string \<Rightarrow> int \<Rightarrow> string \<Rightarrow> finality_engine \<Rightarrow> finality_engine \<times> bool" where
  "add_attestation F v e h s =
     (case map_of (ff_checkpoints s) e of
        None \<Rightarrow> (s, False)
      | Some c \<Rightarrow>
          if cp_hash c \<noteq> h then (s, False)
          else (let vs = dict_get (ff_votes s) e [];
                    fresh = (v \<notin> set vs);
                    vs1 = (if fresh then vs @ [v] else vs);
                    c1 = (if fresh then c\<lparr>cp_votes := cp_votes c + 1\<rparr> else c);
                    justify = (ffg_quorum F (cp_votes c1) (max 1 (ff_count s)) \<and> \<not> cp_justified c1);
                    c2 = (if justify then c1\<lparr>cp_justified := True\<rparr> else c1)
                in (s\<lparr>ff_checkpoints := dict_set e c2 (ff_checkpoints s), ff_votes := dict_set e vs1 (ff_votes s),
                      ff_justified := (if justify then ff_justified s @ [e] else ff_justified s)\<rparr>, True)))"

definition ffg_can_finalize :: "ffg_native \<Rightarrow> int \<Rightarrow> int list \<Rightarrow> bool" where
  "ffg_can_finalize F e js = native_get (fn_can F e js) (e \<in> set js \<and> e - 1 \<in> set js)"

definition finalize_checkpoint :: "ffg_native \<Rightarrow> int \<Rightarrow> finality_engine \<Rightarrow> finality_engine \<times> bool" where
  "finalize_checkpoint F e s =
     (if \<not> ffg_can_finalize F e (ff_justified s) then (s, False)
      else case map_of (ff_checkpoints s) e of
             None \<Rightarrow> (s, False)
           | Some c \<Rightarrow>
               if \<not> cp_finalized c
               then (s\<lparr>ff_checkpoints := dict_set e (c\<lparr>cp_finalized := True\<rparr>) (ff_checkpoints s),
                       ff_finalized := ff_finalized s @ [e]\<rparr>, True)
               else (s, False))"

record block_finality =
  bf_number :: int
  bf_epoch :: int
  bf_justified :: "int list"
  bf_finalized :: "int list"
  bf_is_finalized :: bool

definition process_block :: "ffg_native \<Rightarrow> int \<Rightarrow> string \<Rightarrow> string \<Rightarrow> finality_engine \<Rightarrow> finality_engine \<times> block_finality" where
  "process_block F n h v s =
     (let e = ffg_get_epoch F n;
          s1 = fst (create_checkpoint F n h s);
          s2 = fst (add_attestation F v e h s1);
          s3 = foldl (\<lambda>t k. fst (finalize_checkpoint F k t)) s2 [ff_epoch s2..e];
          s4 = s3\<lparr>ff_epoch := e\<rparr>
      in (s4, \<lparr>bf_number = n, bf_epoch = e, bf_justified = ff_justified s4, bf_finalized = ff_finalized s4,
               bf_is_finalized = (e \<in> set (ff_finalized s4))\<rparr>))"

datatype ffg_status = FfgFinalized | FfgJustified | FfgPending

definition get_finality_status :: "ffg_native \<Rightarrow> int \<Rightarrow> finality_engine \<Rightarrow> ffg_status \<times> int" where
  "get_finality_status F n s =
     (let e = ffg_get_epoch F n
      in (if e \<in> set (ff_finalized s) then FfgFinalized else if e \<in> set (ff_justified s) then FfgJustified else FfgPending, e))"

record ffg_stats =
  fs_epoch :: int
  fs_justified :: int
  fs_finalized :: int
  fs_votes :: int

definition ffg_get_stats :: "finality_engine \<Rightarrow> ffg_stats" where
  "ffg_get_stats s =
     \<lparr>fs_epoch = ff_epoch s, fs_justified = int (length (ff_justified s)),
      fs_finalized = int (length (ff_finalized s)),
      fs_votes = sum_list (map (\<lambda>vs. int (length vs)) (dict_values (ff_votes s)))\<rparr>"

datatype ffg_op =
    Checkpoint int string
  | Attest string int string
  | Finalize int
  | Block int string string

fun ffg_step :: "ffg_native \<Rightarrow> finality_engine \<Rightarrow> ffg_op \<Rightarrow> finality_engine" where
  "ffg_step F s (Checkpoint n h) = fst (create_checkpoint F n h s)"
| "ffg_step F s (Attest v e h) = fst (add_attestation F v e h s)"
| "ffg_step F s (Finalize e) = fst (finalize_checkpoint F e s)"
| "ffg_step F s (Block n h v) = fst (process_block F n h v s)"

section \<open>The two quorum tests are exact\<close>

lemma f64_int_le:
  assumes "1 \<le> n" "n \<le> 2 ^ 50" "3 * v < 2 * n"
  shows "of_int v < f64 (of_int (n * 2) / 3) \<and> f64 (of_int v) < f64 (of_int (n * 2) / 3)"
proof -
  let ?q = "of_int (n * 2) / 3 :: rat"
  define w where "w = max v 0"
  have w: "0 \<le> w" "v \<le> w" "w \<le> 2 ^ 50" "3 * w + 1 \<le> 2 * n" using assms by (auto simp: w_def)
  have "of_int (4 * w + 1) / 4 = (of_int (4 * w + 1) :: rat) * (of_nat 2) powi (-2)"
    by (simp add: power_int_minus field_simps)
  moreover have "f64 (of_int (4 * w + 1) * (of_nat 2) powi (-2)) = of_int (4 * w + 1) * (of_nat 2) powi (-2)"
    unfolding f64_def using w by (intro rnd_exact) simp_all
  ultimately have 1: "f64 (of_int (4 * w + 1) / 4) = of_int (4 * w + 1) / 4" by simp
  have "of_int (3 * w + 1) \<le> (of_int (2 * n) :: rat)" using w(4) by (simp only: of_int_le_iff)
  hence "of_int (4 * w + 1) / 4 \<le> ?q" by (simp add: field_simps)
  hence "f64 (of_int (4 * w + 1) / 4) \<le> f64 ?q" by (rule double.R_mono)
  hence q: "of_int w < f64 ?q" unfolding 1 by (simp add: field_simps)
  moreover have "f64 (of_int v) \<le> f64 (of_int w)" using w(2) by (intro double.R_mono) simp
  moreover have "f64 (of_int w) = of_int w" using w by (intro double.R_int) simp
  moreover have "(of_int v :: rat) \<le> of_int w" using w(2) by simp
  ultimately show ?thesis by linarith
qed

lemma python_quorum_exact:
  assumes "1 \<le> n" "n \<le> 2 ^ 50"
  shows "f64 (of_int (n * 2) / 3) \<le> of_int v \<longleftrightarrow> 2 * n \<le> 3 * v"
proof
  assume "f64 (of_int (n * 2) / 3) \<le> of_int v"
  thus "2 * n \<le> 3 * v" using f64_int_le [OF assms, of v] by linarith
next
  assume q: "2 * n \<le> 3 * v"
  define w where "w = min v n"
  have w: "2 * n \<le> 3 * w" "0 \<le> w" "w \<le> 2 ^ 50" "w \<le> v" using q assms by (auto simp: w_def)
  have "of_int (2 * n) \<le> (of_int (3 * w) :: rat)" using w(1) by (simp only: of_int_le_iff)
  hence "f64 (of_int (n * 2) / 3) \<le> f64 (of_int w)" by (intro double.R_mono) (simp add: field_simps)
  moreover have "f64 (of_int w) = of_int w" using w by (intro double.R_int) simp
  moreover have "(of_int w :: rat) \<le> of_int v" using w(4) by simp
  ultimately show "f64 (of_int (n * 2) / 3) \<le> of_int v" by linarith
qed

lemma rust_quorum_exact:
  assumes "1 \<le> n" "n \<le> 2 ^ 50"
  shows "fdiv (fmul (float_of_int (max n 1)) 2) 3 \<le> float_of_int v \<longleftrightarrow> 2 * n \<le> 3 * v"
proof -
  have "fmul (float_of_int (max n 1)) 2 = of_int (n * 2)"
    using assms double.R_int [of n] double.R_int [of "n * 2"] by (simp add: fmul_def float_of_int_def max_def)
  hence l: "fdiv (fmul (float_of_int (max n 1)) 2) 3 = f64 (of_int (n * 2) / 3)" by (simp add: fdiv_def)
  show ?thesis
  proof
    assume "fdiv (fmul (float_of_int (max n 1)) 2) 3 \<le> float_of_int v"
    thus "2 * n \<le> 3 * v" using f64_int_le [OF assms, of v] unfolding l unfolding float_of_int_def by linarith
  next
    assume "2 * n \<le> 3 * v"
    hence "f64 (of_int (n * 2) / 3) \<le> of_int v" using python_quorum_exact [OF assms] by simp
    hence "f64 (f64 (of_int (n * 2) / 3)) \<le> f64 (of_int v)" by (rule double.R_mono)
    thus "fdiv (fmul (float_of_int (max n 1)) 2) 3 \<le> float_of_int v"
      unfolding l double.R_idem unfolding float_of_int_def .
  qed
qed

lemma rust_quorum_eq:
  assumes "1 \<le> n" "n \<le> 2 ^ 50"
  shows "rust_fe_quorum_reached v n = (if i64 v \<and> i64 n then Some (2 * n \<le> 3 * v) else None)"
  unfolding rust_fe_quorum_reached_def rust_quorum_exact [OF assms] by simp

section \<open>The engine's invariant\<close>

text \<open>
  A checkpoint counts its distinct voters, its flags agree with the two lists, a justified one has two
  thirds of the \<open>n\<close> validators, and a finalized one follows a justified one.
\<close>

definition checkpoint_ok :: "int \<Rightarrow> finality_engine \<Rightarrow> int \<Rightarrow> checkpoint \<Rightarrow> bool" where
  "checkpoint_ok n s e c \<longleftrightarrow>
     cp_votes c = int (length (dict_get (ff_votes s) e [])) \<and> distinct (dict_get (ff_votes s) e [])
     \<and> (cp_justified c \<longleftrightarrow> e \<in> set (ff_justified s)) \<and> (cp_finalized c \<longleftrightarrow> e \<in> set (ff_finalized s))
     \<and> (cp_justified c \<longrightarrow> 2 * n \<le> 3 * int (length (dict_get (ff_votes s) e [])))"

definition ffg_ok :: "int \<Rightarrow> finality_engine \<Rightarrow> bool" where
  "ffg_ok n s \<longleftrightarrow>
     ff_count s = n
     \<and> (\<forall>e c. map_of (ff_checkpoints s) e = Some c \<longrightarrow> checkpoint_ok n s e c)
     \<and> (\<forall>e. map_of (ff_checkpoints s) e = None \<longrightarrow>
          dict_get (ff_votes s) e [] = [] \<and> e \<notin> set (ff_justified s) \<and> e \<notin> set (ff_finalized s))
     \<and> (\<forall>e \<in> set (ff_finalized s). e \<in> set (ff_justified s) \<and> e - 1 \<in> set (ff_justified s))"

lemma ffg_okD:
  assumes "ffg_ok n s"
  shows "ff_count s = n" "map_of (ff_checkpoints s) e = Some c \<Longrightarrow> checkpoint_ok n s e c"
    "map_of (ff_checkpoints s) e = None \<Longrightarrow>
       dict_get (ff_votes s) e [] = [] \<and> e \<notin> set (ff_justified s) \<and> e \<notin> set (ff_finalized s)"
    "e \<in> set (ff_finalized s) \<Longrightarrow> e \<in> set (ff_justified s) \<and> e - 1 \<in> set (ff_justified s)"
  using assms by (auto simp: ffg_ok_def)

lemma dict_get_set: "dict_get (dict_set k v d) j x = (if j = k then v else dict_get d j x)"
  by (simp add: dict_get_def update_conv)

lemma create_checkpoint_ok:
  assumes "ffg_ok n s"
  shows "ffg_ok n (fst (create_checkpoint F k h s))"
proof (cases "map_of (ff_checkpoints s) (ffg_get_epoch F k)")
  case None
  let ?s = "fst (create_checkpoint F k h s)"
  have f: "ff_votes ?s = ff_votes s" "ff_justified ?s = ff_justified s" "ff_finalized ?s = ff_finalized s" "ff_count ?s = ff_count s"
    using None by (simp_all add: create_checkpoint_def Let_def)
  have same: "checkpoint_ok n ?s = checkpoint_ok n s" by (intro ext) (simp add: checkpoint_ok_def f)
  have "checkpoint_ok n s e c" if "map_of (ff_checkpoints ?s) e = Some c" for e c
    using that None ffg_okD(2) [OF assms, of e c] ffg_okD(3) [OF assms None]
    by (auto simp: create_checkpoint_def Let_def update_conv checkpoint_ok_def split: if_splits)
  moreover have "map_of (ff_checkpoints s) e = None" if "map_of (ff_checkpoints ?s) e = None" for e
    using that None by (simp add: create_checkpoint_def Let_def update_conv split: if_splits)
  ultimately show ?thesis
    using ffg_okD [OF assms] unfolding ffg_ok_def same f by blast
qed (use assms in \<open>simp add: create_checkpoint_def Let_def\<close>)

lemma finalize_checkpoint_frame:
  "ff_count (fst (finalize_checkpoint F e s)) = ff_count s" "ff_justified (fst (finalize_checkpoint F e s)) = ff_justified s"
  "ff_votes (fst (finalize_checkpoint F e s)) = ff_votes s" "ff_epoch (fst (finalize_checkpoint F e s)) = ff_epoch s"
  by (simp_all add: finalize_checkpoint_def split: option.split)

lemma ffg_ok_epoch [simp]: "ffg_ok n (s\<lparr>ff_epoch := e\<rparr>) = ffg_ok n s"
  by (simp add: ffg_ok_def checkpoint_ok_def)

lemma new_engine_ok: "1 \<le> n \<Longrightarrow> ffg_ok n (set_active_validator_count n new_finality_engine)"
  by (simp add: ffg_ok_def set_active_validator_count_def new_finality_engine_def dict_get_def)

section \<open>The contract of the kernels\<close>

locale ffg_kernel =
  fixes F :: ffg_native
  assumes epoch_law: "ffg_get_epoch F n = n div 32"
    and quorum_law: "1 \<le> n \<Longrightarrow> n \<le> 2 ^ 50 \<Longrightarrow> ffg_quorum F v n \<longleftrightarrow> 2 * n \<le> 3 * v"
    and can_law: "ffg_can_finalize F e js \<longleftrightarrow> e \<in> set js \<and> e - 1 \<in> set js"
begin

lemma add_attestation_ok:
  assumes "ffg_ok n s" "1 \<le> n" "n \<le> 2 ^ 50"
  shows "ffg_ok n (fst (add_attestation F v e h s))"
proof (cases "map_of (ff_checkpoints s) e")
  case (Some c)
  note ok = ffg_okD [OF assms(1)]
  have c: "checkpoint_ok n s e c" using ok(2) Some by simp
  have q: "ffg_quorum F w (max 1 (ff_count s)) \<longleftrightarrow> 2 * n \<le> 3 * w" for w
    using ok(1) assms quorum_law [of n w] by (simp add: max_def)
  show ?thesis
  proof (cases "cp_hash c = h")
    case True
    let ?s = "fst (add_attestation F v e h s)"
    have this_one: "checkpoint_ok n ?s e (the (map_of (ff_checkpoints ?s) e))"
      using c True Some q by (auto simp: add_attestation_def checkpoint_ok_def dict_get_set update_conv Let_def)
    have dom: "map_of (ff_checkpoints ?s) k = (if k = e then Some (the (map_of (ff_checkpoints ?s) e)) else map_of (ff_checkpoints s) k)" for k
      using True Some by (simp add: add_attestation_def update_conv Let_def)
    have lists: "ff_count ?s = n" "ff_finalized ?s = ff_finalized s"
        "k \<noteq> e \<Longrightarrow> k \<in> set (ff_justified ?s) \<longleftrightarrow> k \<in> set (ff_justified s)"
        "k \<in> set (ff_justified s) \<Longrightarrow> k \<in> set (ff_justified ?s)"
        "k \<noteq> e \<Longrightarrow> dict_get (ff_votes ?s) k [] = dict_get (ff_votes s) k []" for k
      using True Some ok(1) by (simp_all add: add_attestation_def dict_get_set Let_def)
    have other: "checkpoint_ok n ?s k d" if "map_of (ff_checkpoints s) k = Some d" "k \<noteq> e" for k d
      using ok(2) [OF that(1)] unfolding checkpoint_ok_def lists(2) lists(3,5) [OF that(2)] .
    show ?thesis
      unfolding ffg_ok_def
    proof (intro conjI allI impI)
      show "checkpoint_ok n ?s k d" if "map_of (ff_checkpoints ?s) k = Some d" for k d
        using that dom [of k] other this_one by (cases "k = e") auto
      show "\<forall>k \<in> set (ff_finalized ?s). k \<in> set (ff_justified ?s) \<and> k - 1 \<in> set (ff_justified ?s)"
        using lists(2,4) ok(4) by auto
      fix k assume "map_of (ff_checkpoints ?s) k = None"
      hence k: "k \<noteq> e" "map_of (ff_checkpoints s) k = None" using dom [of k] by (auto split: if_splits)
      show "dict_get (ff_votes ?s) k [] = []" using lists(5) [OF k(1)] ok(3) [OF k(2)] by simp
      show "k \<notin> set (ff_justified ?s)" "k \<notin> set (ff_finalized ?s)"
        using lists(2) lists(3) [OF k(1)] ok(3) [OF k(2)] by simp_all
    qed (rule lists(1))
  qed (use assms Some in \<open>simp add: add_attestation_def\<close>)
qed (use assms in \<open>simp add: add_attestation_def\<close>)

lemma finalize_checkpoint_ok:
  assumes "ffg_ok n s"
  shows "ffg_ok n (fst (finalize_checkpoint F e s))"
proof (cases "ffg_can_finalize F e (ff_justified s)")
  case True
  hence j: "e \<in> set (ff_justified s)" "e - 1 \<in> set (ff_justified s)" by (simp_all add: can_law)
  note ok = ffg_okD [OF assms]
  show ?thesis
  proof (cases "map_of (ff_checkpoints s) e")
    case (Some c)
    with ok(2) [OF Some] True j assms show ?thesis
      by (auto simp: finalize_checkpoint_def ffg_ok_def checkpoint_ok_def update_conv split: if_splits)
  qed (use assms in \<open>simp add: finalize_checkpoint_def\<close>)
qed (use assms in \<open>simp add: finalize_checkpoint_def\<close>)

lemma process_block_ok:
  assumes "ffg_ok n s" "1 \<le> n" "n \<le> 2 ^ 50"
  shows "ffg_ok n (fst (process_block F k h v s))"
proof -
  have fin: "ffg_ok n t \<Longrightarrow> ffg_ok n (foldl (\<lambda>t k. fst (finalize_checkpoint F k t)) t es)" for t es
    by (induction es arbitrary: t) (auto intro: finalize_checkpoint_ok)
  show ?thesis
    unfolding process_block_def Let_def fst_conv ffg_ok_epoch
    by (intro fin add_attestation_ok create_checkpoint_ok assms)
qed

lemma run_ok:
  assumes "ffg_ok n s" "1 \<le> n" "n \<le> 2 ^ 50"
  shows "ffg_ok n (foldl (ffg_step F) s ops)"
  using assms(1)
proof (induction ops arbitrary: s)
  case (Cons op ops)
  have "ffg_ok n (ffg_step F s op)"
    using add_attestation_ok [OF Cons.prems assms(2,3)] process_block_ok [OF Cons.prems assms(2,3)]
    by (cases op) (simp_all add: Cons.prems create_checkpoint_ok finalize_checkpoint_ok)
  with Cons.IH show ?case by simp
qed simp

end

interpretation python_kernel: ffg_kernel no_ffg_native
  by unfold_locales (simp_all add: ffg_get_epoch_def ffg_quorum_def ffg_can_finalize_def no_ffg_native_def
      native_get_def ffg_epoch_length_def python_quorum_exact del: of_int_mult)

interpretation rust_kernel: ffg_kernel rust_ffg
  by unfold_locales (simp_all add: ffg_get_epoch_def ffg_quorum_def ffg_can_finalize_def rust_ffg_def
      rust_fe_epoch_def rust_quorum_eq rust_fe_can_finalize_def
      native_get_def ffg_epoch_length_def python_quorum_exact del: of_int_mult)

section \<open>Blocks alone\<close>

text \<open>
  \<open>process_block\<close> attests the checkpoint of the epoch with the hash of the block at hand, so only the
  proposer of the epoch's first block is ever counted.
\<close>

definition sole_voter :: "(string \<Rightarrow> string) \<Rightarrow> finality_engine \<Rightarrow> bool" where
  "sole_voter proposer s \<longleftrightarrow>
     (\<forall>e c. map_of (ff_checkpoints s) e = Some c \<longrightarrow> set (dict_get (ff_votes s) e []) \<subseteq> {proposer (cp_hash c)})"

lemma add_attestation_effect:
  "fst (add_attestation F v e h s) = s \<or> (\<exists>c d vs. map_of (ff_checkpoints s) e = Some c \<and> cp_hash c = h \<and> cp_hash d = h
      \<and> cp_number d = cp_number c \<and> set vs \<subseteq> insert v (set (dict_get (ff_votes s) e []))
      \<and> ff_checkpoints (fst (add_attestation F v e h s)) = dict_set e d (ff_checkpoints s)
      \<and> ff_votes (fst (add_attestation F v e h s)) = dict_set e vs (ff_votes s))"
proof (cases "map_of (ff_checkpoints s) e")
  case (Some c)
  let ?vs = "dict_get (ff_votes s) e []"
  let ?c1 = "if v \<notin> set ?vs then c\<lparr>cp_votes := cp_votes c + 1\<rparr> else c"
  let ?c2 = "if ffg_quorum F (cp_votes ?c1) (max 1 (ff_count s)) \<and> \<not> cp_justified ?c1 then ?c1\<lparr>cp_justified := True\<rparr> else ?c1"
  show ?thesis
  proof (cases "cp_hash c = h")
    case True
    have "ff_checkpoints (fst (add_attestation F v e h s)) = dict_set e ?c2 (ff_checkpoints s)"
      "ff_votes (fst (add_attestation F v e h s)) = dict_set e (if v \<notin> set ?vs then ?vs @ [v] else ?vs) (ff_votes s)"
      by (simp_all add: add_attestation_def Some True Let_def)
    moreover have "cp_hash ?c2 = h" "cp_number ?c2 = cp_number c" using True by simp_all
    moreover have "set (if v \<notin> set ?vs then ?vs @ [v] else ?vs) \<subseteq> insert v (set ?vs)" by auto
    ultimately show ?thesis using Some True by blast
  qed (simp add: add_attestation_def Some)
qed (simp add: add_attestation_def)

lemma sole_voter_step:
  assumes "sole_voter proposer s" "ffg_ok n s"
  shows "sole_voter proposer (fst (create_checkpoint F k h s))"
    and "sole_voter proposer (fst (add_attestation F (proposer h) e h s))"
    and "sole_voter proposer (fst (finalize_checkpoint F e s))"
proof -
  show "sole_voter proposer (fst (create_checkpoint F k h s))"
    using assms ffg_okD(3) [OF assms(2), of "ffg_get_epoch F k"]
    by (auto simp: sole_voter_def create_checkpoint_def Let_def update_conv split: option.splits if_splits)
  show "sole_voter proposer (fst (add_attestation F (proposer h) e h s))"
    using add_attestation_effect [of F "proposer h" e h s]
  proof (elim disjE exE conjE)
    fix c d vs
    let ?t = "fst (add_attestation F (proposer h) e h s)"
    assume e: "map_of (ff_checkpoints s) e = Some c" "cp_hash c = h" "cp_hash d = h"
      "set vs \<subseteq> insert (proposer h) (set (dict_get (ff_votes s) e []))"
      "ff_checkpoints ?t = dict_set e d (ff_checkpoints s)" "ff_votes ?t = dict_set e vs (ff_votes s)"
    have old: "map_of (ff_checkpoints s) k = Some a \<Longrightarrow> set (dict_get (ff_votes s) k []) \<subseteq> {proposer (cp_hash a)}" for k a
      using assms(1) by (simp add: sole_voter_def)
    show ?thesis
      unfolding sole_voter_def e(5,6)
    proof (intro allI impI)
      fix k a assume k: "map_of (dict_set e d (ff_checkpoints s)) k = Some a"
      show "set (dict_get (dict_set e vs (ff_votes s)) k []) \<subseteq> {proposer (cp_hash a)}"
      proof (cases "k = e")
        case True
        have "set vs \<subseteq> {proposer h}" using e(2,4) old [OF e(1)] by auto
        with True k e(3) show ?thesis by (simp add: update_conv dict_get_set)
      next
        case False
        with k old [of k a] show ?thesis by (simp add: update_conv dict_get_set)
      qed
    qed
  qed (simp add: assms(1))
  have "map_of (ff_checkpoints (fst (finalize_checkpoint F e s))) k = Some a \<Longrightarrow>
      \<exists>b. map_of (ff_checkpoints s) k = Some b \<and> cp_hash b = cp_hash a" for k a
    by (cases "map_of (ff_checkpoints s) e") (auto simp: finalize_checkpoint_def update_conv split: if_splits)
  thus "sole_voter proposer (fst (finalize_checkpoint F e s))"
    using assms(1) unfolding sole_voter_def finalize_checkpoint_frame by metis
qed

lemma lone_voters:
  assumes "sole_voter proposer s" "ffg_ok n s" "2 \<le> n"
  shows "ff_justified s = []" "ff_finalized s = []"
proof -
  have "e \<notin> set (ff_justified s)" for e
  proof (cases "map_of (ff_checkpoints s) e")
    case (Some c)
    note c = ffg_okD(2) [OF assms(2) Some]
    have "set (dict_get (ff_votes s) e []) \<subseteq> {proposer (cp_hash c)}" using assms(1) Some by (simp add: sole_voter_def)
    from card_mono [OF _ this] c have "length (dict_get (ff_votes s) e []) \<le> 1"
      by (simp add: checkpoint_ok_def distinct_card)
    with c assms(3) show ?thesis by (auto simp: checkpoint_ok_def)
  qed (use ffg_okD(3) [OF assms(2)] in auto)
  thus "ff_justified s = []" by (cases "ff_justified s") auto
  with ffg_okD(4) [OF assms(2)] show "ff_finalized s = []"
    by (cases "ff_finalized s") auto
qed

lemma blocks_lone:
  assumes "ffg_kernel F" "sole_voter proposer s" "ffg_ok n s" "1 \<le> n" "n \<le> 2 ^ 50"
  shows "sole_voter proposer (foldl (ffg_step F) s (map (\<lambda>(k, h). Block k h (proposer h)) bs))"
  using assms(2,3)
proof (induction bs arbitrary: s)
  case (Cons b bs)
  obtain k h where b: "b = (k, h)" by force
  note ok = ffg_kernel.add_attestation_ok [OF assms(1) _ assms(4,5)] ffg_kernel.finalize_checkpoint_ok [OF assms(1)]
  have fin: "sole_voter proposer t \<and> ffg_ok n t \<Longrightarrow>
      sole_voter proposer (foldl (\<lambda>t k. fst (finalize_checkpoint F k t)) t es)" for t es
    by (induction es arbitrary: t) (auto intro: sole_voter_step ok)
  have epoch: "sole_voter proposer (t\<lparr>ff_epoch := e\<rparr>) = sole_voter proposer t" for t e
    by (simp add: sole_voter_def)
  have "sole_voter proposer (fst (process_block F k h (proposer h) s))"
    unfolding process_block_def Let_def fst_conv epoch
    by (intro fin conjI sole_voter_step [where n = n] ok create_checkpoint_ok Cons.prems)
  with Cons.IH ffg_kernel.process_block_ok [OF assms(1) Cons.prems(2) assms(4,5)] show ?case by (simp add: b)
qed simp

section \<open>Properties\<close>

text \<open>
  C39. With a constant number of validators, no run of the engine -- checkpoints, attestations,
  blocks and finalizations in any order, with or without the native kernels -- finalizes an epoch
  unless it and the epoch before have checkpoints for which distinct voters were counted, two thirds
  of the validators each.
\<close>

theorem finalized_epochs_have_quorums:
  assumes "F \<in> {no_ffg_native, rust_ffg}" "1 \<le> n" "n \<le> 2 ^ 50"
    and "e \<in> set (ff_finalized (foldl (ffg_step F) (set_active_validator_count n new_finality_engine) ops))"
    and "k \<in> {e - 1, e}"
  shows "let s = foldl (ffg_step F) (set_active_validator_count n new_finality_engine) ops;
             voters = dict_get (ff_votes s) k []
         in (\<exists>c. map_of (ff_checkpoints s) k = Some c \<and> cp_votes c = int (length voters))
            \<and> distinct voters \<and> 2 * n \<le> 3 * int (length voters)"
proof -
  let ?s = "foldl (ffg_step F) (set_active_validator_count n new_finality_engine) ops"
  have "ffg_kernel F" using assms(1) python_kernel.ffg_kernel_axioms rust_kernel.ffg_kernel_axioms by auto
  hence ok: "ffg_ok n ?s" using ffg_kernel.run_ok new_engine_ok assms(2,3) by blast
  have k: "k \<in> set (ff_justified ?s)" using ffg_okD(4) [OF ok assms(4)] assms(5) by auto
  then obtain c where "map_of (ff_checkpoints ?s) k = Some c" using ffg_okD(3) [OF ok, of k] by fastforce
  with ffg_okD(2) [OF ok this] k show ?thesis by (auto simp: checkpoint_ok_def Let_def)
qed

definition demo_ffg :: "ffg_op list" where
  "demo_ffg = [Checkpoint 5 ''a'', Checkpoint 40 ''b'', Attest ''v'' 0 ''a'', Attest ''w'' 0 ''a'',
     Attest ''v'' 1 ''b'', Attest ''w'' 1 ''b'', Finalize 1]"

lemma demo_ffg_finalized:
  "ff_finalized (foldl (ffg_step no_ffg_native) (set_active_validator_count 3 new_finality_engine) demo_ffg) = [1]"
proof -
  have q: "ffg_quorum no_ffg_native v 3 \<longleftrightarrow> 2 \<le> v" for v using python_kernel.quorum_law [of 3 v] by auto
  show ?thesis
    by (simp add: demo_ffg_def set_active_validator_count_def new_finality_engine_def create_checkpoint_def
        add_attestation_def finalize_checkpoint_def python_kernel.epoch_law python_kernel.can_law q dict_get_def Let_def)
qed

lemma finalized_epochs_have_quorums_witness:
  "let s = foldl (ffg_step no_ffg_native) (set_active_validator_count 3 new_finality_engine) demo_ffg;
       voters = dict_get (ff_votes s) 0 []
   in (\<exists>c. map_of (ff_checkpoints s) 0 = Some c \<and> cp_votes c = int (length voters))
      \<and> distinct voters \<and> 2 * 3 \<le> 3 * int (length voters)"
  by (rule finalized_epochs_have_quorums [where e = 1]) (simp_all add: demo_ffg_finalized)

text \<open>
  Blocks alone never finalize: as long as each block hash has one proposer, a node with at least
  two validators that only feeds its blocks to \<open>process_block\<close> -- the only use the consensus adapter
  makes of the engine -- never justifies an epoch, let alone finalizes one, however many blocks pass.
\<close>

theorem blocks_alone_never_finalize:
  assumes "F \<in> {no_ffg_native, rust_ffg}" "2 \<le> n" "n \<le> 2 ^ 50"
  shows "let s = foldl (ffg_step F) (set_active_validator_count n new_finality_engine)
      (map (\<lambda>(k, h). Block k h (proposer h)) bs)
    in ff_justified s = [] \<and> ff_finalized s = []"
proof -
  have F: "ffg_kernel F" using assms(1) python_kernel.ffg_kernel_axioms rust_kernel.ffg_kernel_axioms by auto
  have n: "1 \<le> n" using assms(2) by simp
  have "sole_voter proposer (set_active_validator_count n new_finality_engine)"
    by (simp add: sole_voter_def set_active_validator_count_def new_finality_engine_def)
  from blocks_lone [OF F this new_engine_ok [OF n] n assms(3)]
    ffg_kernel.run_ok [OF F new_engine_ok [OF n] n assms(3)] assms(2)
  show ?thesis unfolding Let_def using lone_voters by blast
qed

lemma blocks_alone_never_finalize_witness:
  "ff_justified (foldl (ffg_step rust_ffg) (set_active_validator_count 2 new_finality_engine)
     (map (\<lambda>(k, h). Block k h ''v'') [(0, ''a''), (1, ''b''), (32, ''c''), (64, ''d'')])) = []"
  using blocks_alone_never_finalize [of rust_ffg 2 "\<lambda>_. ''v''" "[(0, ''a''), (1, ''b''), (32, ''c''), (64, ''d'')]"]
  by (simp add: Let_def del: list.map foldl_Cons)

lemma kernels_step:
  assumes "ffg_kernel F" "ffg_kernel G" "ff_count s = n" "1 \<le> n" "n \<le> 2 ^ 50"
  shows "ffg_step F s op = ffg_step G s op"
proof -
  note f = ffg_kernel.epoch_law [OF assms(1)] ffg_kernel.can_law [OF assms(1)] ffg_kernel.epoch_law [OF assms(2)] ffg_kernel.can_law [OF assms(2)]
  have cc: "create_checkpoint F = create_checkpoint G" by (intro ext) (simp add: create_checkpoint_def f)
  have fc: "finalize_checkpoint F = finalize_checkpoint G" by (intro ext) (simp add: finalize_checkpoint_def f)
  have q: "ffg_quorum F w (max 1 n) = ffg_quorum G w (max 1 n)" for w
    using assms ffg_kernel.quorum_law [of F n w] ffg_kernel.quorum_law [of G n w] by (simp add: max_def)
  have aa: "add_attestation F v e h t = add_attestation G v e h t" if "ff_count t = n" for v e h t
    unfolding add_attestation_def that q ..
  have "ff_count (fst (create_checkpoint G k h s)) = n" for k h
    by (simp add: create_checkpoint_def Let_def assms(3) split: option.split)
  thus ?thesis by (cases op) (simp_all add: process_block_def Let_def cc fc aa f assms(3))
qed

text \<open>
  The native kernels do not change the protocol: up to \<open>2 ^ 50\<close> validators an engine that asks the
  Rust library goes through exactly the states of one that computes everything in Python, although
  they round the two thirds differently.
\<close>

theorem rust_kernels_agree:
  assumes "1 \<le> n" "n \<le> 2 ^ 50"
  shows "foldl (ffg_step rust_ffg) (set_active_validator_count n new_finality_engine) ops =
    foldl (ffg_step no_ffg_native) (set_active_validator_count n new_finality_engine) ops"
proof -
  have "foldl (ffg_step rust_ffg) s ops = foldl (ffg_step no_ffg_native) s ops" if "ffg_ok n s" for s
    using that
  proof (induction ops arbitrary: s)
    case (Cons op ops)
    have "ffg_step rust_ffg s op = ffg_step no_ffg_native s op"
      using kernels_step [OF rust_kernel.ffg_kernel_axioms python_kernel.ffg_kernel_axioms ffg_okD(1) [OF Cons.prems] assms] .
    with Cons.IH python_kernel.run_ok [OF Cons.prems assms, of "[op]"] show ?case by simp
  qed simp
  with new_engine_ok [OF assms(1)] show ?thesis by blast
qed

lemma rust_kernels_agree_witness:
  "ff_finalized (foldl (ffg_step rust_ffg) (set_active_validator_count 3 new_finality_engine) demo_ffg) = [1]"
  using rust_kernels_agree [of 3 demo_ffg] by (simp add: demo_ffg_finalized)

end
