(* ===== verification/Finality_Floor.thy ===== *)
theory Finality_Floor
  imports Bft_Agreement Casper_Finality Fork_Props
begin

text \<open>
  Where the components meet: the finalized floor the consensus adapter computes from the BFT round
  machine and the checkpoint engine (\<open>consensus/adapter.py\<close>), which \<open>reorg_to_ancestor\<close> of the chain
  asks for before it truncates.
\<close>

section \<open>The floor\<close>

definition get_finalized_floor_height :: "round_sm \<Rightarrow> finality_engine \<Rightarrow> int" where
  "get_finalized_floor_height s fe =
     foldl (\<lambda>flr e. case map_of (ff_checkpoints fe) e of
                 None \<Rightarrow> flr
               | Some c \<Rightarrow> if flr < cp_number c then cp_number c else flr)
       (fv_finalized_height (finality_status s)) (ff_finalized fe)"

text \<open>A height is settled when either source of finality covers it.\<close>

definition settled :: "round_sm \<Rightarrow> finality_engine \<Rightarrow> int \<Rightarrow> bool" where
  "settled s fe h \<longleftrightarrow> h \<le> sm_finalized_height s
     \<or> (\<exists>e \<in> set (ff_finalized fe). \<exists>c. map_of (ff_checkpoints fe) e = Some c \<and> h \<le> cp_number c)"

lemma settled_below_floor:
  assumes "settled s fe h"
  shows "h \<le> get_finalized_floor_height s fe"
proof -
  let ?f = "\<lambda>flr e. case map_of (ff_checkpoints fe) e of None \<Rightarrow> flr | Some c \<Rightarrow> if flr < cp_number c then cp_number c else flr"
  have up: "a \<le> foldl ?f a es" for a es
  proof (induction es arbitrary: a)
    case (Cons e es)
    have "a \<le> ?f a e" by (simp split: option.split)
    with Cons.IH [of "?f a e"] show ?case by simp
  qed simp
  have cov: "e \<in> set es \<Longrightarrow> map_of (ff_checkpoints fe) e = Some c \<Longrightarrow> cp_number c \<le> foldl ?f a es" for e c a es
  proof (induction es arbitrary: a)
    case (Cons k es)
    show ?case
    proof (cases "k = e")
      case True
      hence "cp_number c \<le> ?f a k" using Cons.prems(2) by simp
      with up [of "?f a k" es] show ?thesis by simp
    qed (use Cons in simp)
  qed simp
  have "fv_finalized_height (finality_status s) = sm_finalized_height s" by (simp add: finality_status_def Let_def)
  moreover have "h \<le> foldl ?f (sm_finalized_height s) (ff_finalized fe)"
    using assms unfolding settled_def
  proof (elim disjE bexE exE conjE)
    assume "h \<le> sm_finalized_height s"
    also note up
    finally show ?thesis .
  next
    fix e c assume e: "e \<in> set (ff_finalized fe)" "map_of (ff_checkpoints fe) e = Some c" "h \<le> cp_number c"
    note e(3)
    also note cov [OF e(1,2)]
    finally show ?thesis .
  qed
  ultimately show ?thesis by (simp only: get_finalized_floor_height_def)
qed

section \<open>Settled heights stay settled\<close>

definition keeps_checkpoints :: "finality_engine \<Rightarrow> finality_engine \<Rightarrow> bool" where
  "keeps_checkpoints s t \<longleftrightarrow> set (ff_finalized s) \<subseteq> set (ff_finalized t)
     \<and> (\<forall>e c. map_of (ff_checkpoints s) e = Some c \<longrightarrow>
          (\<exists>d. map_of (ff_checkpoints t) e = Some d \<and> cp_number d = cp_number c))"

lemma keeps_refl: "keeps_checkpoints s s"
  by (simp add: keeps_checkpoints_def)

lemma keeps_trans: "keeps_checkpoints s t \<Longrightarrow> keeps_checkpoints t u \<Longrightarrow> keeps_checkpoints s u"
  unfolding keeps_checkpoints_def by (metis subset_trans)

lemma keeps_update:
  assumes "map_of (ff_checkpoints s) e = None \<or> (\<exists>c. map_of (ff_checkpoints s) e = Some c \<and> cp_number d = cp_number c)"
    and "ff_checkpoints t = dict_set e d (ff_checkpoints s)" "set (ff_finalized s) \<subseteq> set (ff_finalized t)"
  shows "keeps_checkpoints s t"
  using assms by (auto simp: keeps_checkpoints_def update_conv)

lemma keeps_ops:
  "keeps_checkpoints s (fst (create_checkpoint F k h s))"
  "keeps_checkpoints s (fst (finalize_checkpoint F e s))"
  "keeps_checkpoints s (fst (add_attestation F v e h s))"
proof -
  show "keeps_checkpoints s (fst (create_checkpoint F k h s))"
  proof (cases "map_of (ff_checkpoints s) (ffg_get_epoch F k)")
    case None
    thus ?thesis by (intro keeps_update [of _ "ffg_get_epoch F k"]) (simp_all add: create_checkpoint_def Let_def)
  qed (simp add: create_checkpoint_def keeps_refl)
  show "keeps_checkpoints s (fst (finalize_checkpoint F e s))"
  proof (cases "ffg_can_finalize F e (ff_justified s) \<and> (\<exists>c. map_of (ff_checkpoints s) e = Some c \<and> \<not> cp_finalized c)")
    case True
    then obtain c where c: "map_of (ff_checkpoints s) e = Some c" "\<not> cp_finalized c" "ffg_can_finalize F e (ff_justified s)" by blast
    thus ?thesis
      by (intro keeps_update [of _ e "c\<lparr>cp_finalized := True\<rparr>"]) (auto simp: finalize_checkpoint_def)
  next
    case False
    hence "fst (finalize_checkpoint F e s) = s" by (auto simp: finalize_checkpoint_def split: option.split)
    thus ?thesis by (simp add: keeps_refl)
  qed
  have "ff_finalized (fst (add_attestation F v e h s)) = ff_finalized s"
    by (simp add: add_attestation_def Let_def split: option.split)
  with add_attestation_effect [of F v e h s] show "keeps_checkpoints s (fst (add_attestation F v e h s))"
  proof (elim disjE exE conjE)
    fix c d
    assume "map_of (ff_checkpoints s) e = Some c" "cp_number d = cp_number c"
      "ff_checkpoints (fst (add_attestation F v e h s)) = dict_set e d (ff_checkpoints s)"
      "ff_finalized (fst (add_attestation F v e h s)) = ff_finalized s"
    thus ?thesis by (intro keeps_update [of s e d]) simp_all
  qed (simp add: keeps_refl)
qed

lemma keeps_run: "keeps_checkpoints s (foldl (ffg_step F) s ops)"
proof (induction ops arbitrary: s)
  case (Cons op ops)
  have fin: "keeps_checkpoints t (foldl (\<lambda>t k. fst (finalize_checkpoint F k t)) t es)" for t es
    by (induction es arbitrary: t) (auto intro: keeps_refl keeps_trans keeps_ops)
  have ep: "keeps_checkpoints s (t\<lparr>ff_epoch := e\<rparr>) = keeps_checkpoints s t" for s t e
    by (simp add: keeps_checkpoints_def)
  have "keeps_checkpoints s (fst (process_block F k h v s))" for k h v
    unfolding process_block_def Let_def fst_conv ep by (intro keeps_trans [OF _ fin] keeps_trans [OF keeps_ops(1) keeps_ops(3)])
  hence "keeps_checkpoints s (ffg_step F s op)" by (cases op) (simp_all add: keeps_ops)
  with Cons.IH [of "ffg_step F s op"] show ?case by (auto intro: keeps_trans)
qed (simp add: keeps_refl)

lemma settled_run:
  assumes "settled s fe h"
  shows "settled (sm_run s ops) (foldl (ffg_step F) fe fops) h"
proof -
  let ?cp = "\<lambda>t. \<exists>e \<in> set (ff_finalized t). \<exists>c. map_of (ff_checkpoints t) e = Some c \<and> h \<le> cp_number c"
  have sm: "sm_finalized_height s \<le> sm_finalized_height (sm_run s ops)"
    using grows_run [of s ops] by (simp add: finality_grows_def)
  show ?thesis
    using assms unfolding settled_def
  proof (elim disjE bexE exE conjE)
    assume "h \<le> sm_finalized_height s"
    with sm show "h \<le> sm_finalized_height (sm_run s ops) \<or> ?cp (foldl (ffg_step F) fe fops)" by simp
  next
    fix e c assume e: "e \<in> set (ff_finalized fe)" "map_of (ff_checkpoints fe) e = Some c" "h \<le> cp_number c"
    with keeps_run [of fe F fops] obtain d where "e \<in> set (ff_finalized (foldl (ffg_step F) fe fops))"
      "map_of (ff_checkpoints (foldl (ffg_step F) fe fops)) e = Some d" "cp_number d = cp_number c"
      unfolding keeps_checkpoints_def by blast
    moreover from this e(3) have "h \<le> cp_number d" by simp
    ultimately show "h \<le> sm_finalized_height (sm_run s ops) \<or> ?cp (foldl (ffg_step F) fe fops)" by blast
  qed
qed

section \<open>Property\<close>

text \<open>
  C40. Finality holds across the components: once either the BFT rounds or the checkpoint engine have
  finalized a height above genesis, no later sequence of votes, blocks and attestations and no reorg
  request whatever -- not even the rollback to height -1 that a body without a height causes -- removes a
  stored block at or below that height from the chain.
\<close>

theorem finalized_blocks_survive:
  assumes "settled s fe h" "0 < h" "b \<le> h" "b \<in> set hs"
  shows "b \<in> set (fst (reorg_to_ancestor
      (get_finalized_floor_height (sm_run s ops) (foldl (ffg_step F) fe fops)) replay_ok anc hs))"
  using settled_below_floor [OF settled_run [OF assms(1), of ops F fops]] assms(2-4)
  by (auto simp: reorg_to_ancestor_def Let_def)

lemma finalized_blocks_survive_witness:
  "0 \<in> set (fst (reorg_to_ancestor
      (get_finalized_floor_height (sm_run (init_sm \<lparr>ar_registry = None, ar_engine = [], ar_db_fails = False, ar_db_slashed = []\<rparr> [] 32\<lparr>sm_finalized_height := 2\<rparr>) [])
        (foldl (ffg_step rust_ffg) new_finality_engine [])) True (-1) [0, 1, 2, 3]))"
  by (rule finalized_blocks_survive [where h = 2]) (simp_all add: settled_def)

end
