(* ===== verification/Registry_Props.thy ===== *)
theory Registry_Props
  imports Validator_Registry
begin

text \<open>Properties of \<open>consensus/validator_registry.py\<close> over runs of its operations.\<close>

section \<open>Missed blocks\<close>

definition misses :: "nat \<Rightarrow> string \<Rightarrow> registry \<Rightarrow> registry" where
  "misses k a r = foldl registry_step r (replicate k (Missed a))"

lemma missed_get: "map_of (record_missed_block a r) a = map_option state_missed_block (map_of r a)"
  by (simp add: record_missed_block_def dict_modify_get)

text \<open>
  Slashing by absence, from the registration on: after \<open>k\<close> missed blocks a validator has \<open>k\<close> of them on
  its record, is slashed exactly when \<open>k\<close> exceeds ten, has been slashed once for each miss after the
  tenth, and then scores nothing; and whatever happens later, it stays slashed.
\<close>

theorem eleven_misses_slash:
  assumes "map_of r a = None"
  shows "\<exists>v. map_of (misses k a (registry_step r (Register a stake now))) a = Some v
      \<and> vs_missed_blocks v = int k \<and> (vs_slashed v \<longleftrightarrow> 10 < k) \<and> vs_slash_count v = int (k - 10)
      \<and> (10 < k \<longrightarrow> get_score v = 0 \<and>
          (\<exists>w. map_of (foldl registry_step (misses k a (registry_step r (Register a stake now))) ops) a = Some w
             \<and> vs_slashed w))"
proof -
  let ?r = "registry_step r (Register a stake now)"
  have run: "misses (Suc k) a ?r = record_missed_block a (misses k a ?r)" for k
    unfolding misses_def replicate_Suc replicate_append_same [symmetric] foldl_append by simp
  have "\<exists>v. map_of (misses k a ?r) a = Some v \<and> vs_missed_blocks v = int k \<and> (vs_slashed v \<longleftrightarrow> 10 < k)
      \<and> vs_slash_count v = int (k - 10)"
  proof (induction k)
    case 0
    show ?case using assms by (simp add: misses_def register_validator_def new_validator_def update_conv)
  next
    case (Suc k)
    then obtain v where v: "map_of (misses k a ?r) a = Some v" "vs_missed_blocks v = int k"
      "vs_slashed v \<longleftrightarrow> 10 < k" "vs_slash_count v = int (k - 10)" by blast
    hence "map_of (misses (Suc k) a ?r) a = Some (state_missed_block v)"
      unfolding run missed_get v(1) by simp
    moreover have "10 < Suc k \<Longrightarrow> Suc k - 10 = Suc (k - 10)" by simp
    ultimately show ?case using v(2-4) by (auto simp: state_missed_block_def slash_def Let_def)
  qed
  then obtain v where v: "map_of (misses k a ?r) a = Some v" "vs_missed_blocks v = int k"
      "vs_slashed v \<longleftrightarrow> 10 < k" "vs_slash_count v = int (k - 10)" by blast
  moreover have "10 < k \<Longrightarrow> get_score v = 0" using v(3) by (simp add: get_score_def)
  ultimately show ?thesis using registry_run_slashed [OF v(1)] by blast
qed

lemma eleven_misses_slash_witness:
  "\<exists>v. map_of (misses 11 ''a'' (registry_step [] (Register ''a'' 7 0))) ''a'' = Some v
      \<and> vs_missed_blocks v = int 11 \<and> (vs_slashed v \<longleftrightarrow> 10 < (11 :: nat)) \<and> vs_slash_count v = int (11 - 10)
      \<and> (10 < (11 :: nat) \<longrightarrow> get_score v = 0 \<and>
          (\<exists>w. map_of (foldl registry_step (misses 11 ''a'' (registry_step [] (Register ''a'' 7 0))) [Produced ''a'']) ''a'' = Some w
             \<and> vs_slashed w))"
  by (rule eleven_misses_slash) simp

end
