(* ===== verification/Catch_Up.thy ===== *)
theory Catch_Up
  imports Json_Block
begin

text \<open>
  \<open>sync/catchup/\<close>: the catch-up loop against a peer that is ahead ("path A"). \<open>policy.py\<close> and
  \<open>orchestrator.py\<close> are the refusal gates, \<open>path_a.py\<close> the loop. The chain, fetch and probe ports are a
  record of functions over a world \<open>'w\<close>; what the side-effect port collects is in the state, and what
  it changes for the ports themselves (\<open>cup_note_fail\<close>) in the world. The loop has
  no bound of its own, so it is a partial function: \<open>None\<close> is a run that never returns.

  Of a body the keys read here are kept (\<open>parent_hash\<close> and \<open>parent\<close> are \<open>cb_parent\<close> and \<open>cb_alt_parent\<close>). A height
  is absent, null or a value, because the policy and the loop treat null differently; a null text is
  the empty text, which every reader treats alike.
\<close>

section \<open>Values\<close>

record cu_block =
  cb_height :: "json_int option option"
  cb_number :: "json_int option option"
  cb_hash :: "string option"
  cb_block_hash :: "string option"
  cb_parent :: "string option"
  cb_alt_parent :: "string option"

datatype cu_status = CuSkipped | CuRefused | CuStalled | CuIncomplete | CuComplete | CuError

record cu_peer =
  cu_id :: string
  cu_height :: int
  cu_head :: string

definition mk_cu_peer :: "string \<Rightarrow> int \<Rightarrow> string \<Rightarrow> cu_peer" where
  "mk_cu_peer i h head = \<lparr>cu_id = i, cu_height = h, cu_head = py_strip head\<rparr>"

record cu_config =
  cc_batch_size :: int
  cc_require_head :: bool
  cc_tip_head_bind :: bool
  cc_height_continuity_bind :: bool
  cc_contiguous_parent_bind :: bool
  cc_tip_probe :: bool
  cc_peer_head_probe :: bool

definition cu_batch_size :: "int \<Rightarrow> int" where
  "cu_batch_size n = (let bs = (if n = 0 then 1 else n) in if bs < 1 then 1 else bs)"

definition default_cu_config :: cu_config where
  "default_cu_config =
     \<lparr>cc_batch_size = cu_batch_size 32, cc_require_head = True, cc_tip_head_bind = True, cc_height_continuity_bind = True,
      cc_contiguous_parent_bind = True, cc_tip_probe = True, cc_peer_head_probe = True\<rparr>"

record cu_outcome =
  co_status :: cu_status
  co_reason :: string
  co_local :: int
  co_target :: int
  co_imported :: int
  co_reached :: bool

definition cu_make :: "cu_status \<Rightarrow> string \<Rightarrow> int \<Rightarrow> int \<Rightarrow> int \<Rightarrow> cu_outcome" where
  "cu_make st reason local_h target imported =
     \<lparr>co_status = st, co_reason = reason, co_local = local_h, co_target = target, co_imported = imported,
      co_reached = (st = CuComplete)\<rparr>"

definition cu_ok :: "cu_outcome \<Rightarrow> bool" where
  "cu_ok out \<longleftrightarrow> co_status out = CuComplete"

definition cu_refused :: "string \<Rightarrow> int \<Rightarrow> int \<Rightarrow> cu_outcome" where
  "cu_refused reason local_h target = cu_make CuRefused (if reason = '''' then ''refused'' else reason) local_h target 0"

section \<open>Policy\<close>

text \<open>\<open>blk.get("height", blk.get("number", ...))\<close>: the value found, \<open>None\<close> for null; absent is the default.\<close>

definition cu_raw_height :: "cu_block \<Rightarrow> json_int option \<Rightarrow> json_int option" where
  "cu_raw_height b other =
     (case cb_height b of Some v \<Rightarrow> v | None \<Rightarrow> (case cb_number b of Some v \<Rightarrow> v | None \<Rightarrow> other))"

text \<open>\<open>int(x or -1)\<close>, with \<open>-1\<close> on an exception: zero and null count as missing.\<close>

definition cu_local_height :: "cu_block \<Rightarrow> int" where
  "cu_local_height b =
     (case cu_raw_height b (Some (IntValue (-1))) of
        None \<Rightarrow> -1
      | Some j \<Rightarrow> if j = IntValue 0 then -1 else (case to_int j of None \<Rightarrow> -1 | Some n \<Rightarrow> n))"

definition cu_ahead_refuse :: "int \<Rightarrow> int \<Rightarrow> string \<Rightarrow> cu_block option \<Rightarrow> bool \<Rightarrow> string" where
  "cu_ahead_refuse local_h peer_h peer_head local_blk require_head =
     (if \<not> require_head then ''''
      else if peer_h \<le> local_h then ''''
      else if py_strip peer_head = '''' then ''catch_up_no_head''
      else (case local_blk of
              None \<Rightarrow> ''''
            | Some b \<Rightarrow> if 0 \<le> cu_local_height b \<and> cu_local_height b \<noteq> peer_h
                        then ''catch_up_head_height_mismatch'' else ''''))"

definition cu_continuity_refuse :: "cu_block \<Rightarrow> int \<Rightarrow> bool \<Rightarrow> string" where
  "cu_continuity_refuse b expected enabled =
     (if \<not> enabled then ''''
      else (case cu_raw_height b None of
              None \<Rightarrow> ''''
            | Some j \<Rightarrow>
                (case to_int j of
                   None \<Rightarrow> ''catch_up_height_continuity_mismatch''
                 | Some got \<Rightarrow>
                     if got < 0 \<or> expected < 0 then ''''
                     else if got \<noteq> expected then ''catch_up_height_continuity_mismatch'' else '''')))"

definition cu_contiguous_refuse :: "cu_block \<Rightarrow> string \<Rightarrow> bool \<Rightarrow> string" where
  "cu_contiguous_refuse b expected_parent enabled =
     (if \<not> enabled then ''''
      else (let want = py_lower (py_strip expected_parent); got = py_lower (py_strip (text_or (cb_parent b) ''''))
            in if want = '''' then ''''
               else if got \<noteq> '''' \<and> got \<noteq> want then ''catch_up_contiguous_parent_mismatch'' else ''''))"

definition cu_tip_head_refuse :: "string \<Rightarrow> string \<Rightarrow> bool \<Rightarrow> string" where
  "cu_tip_head_refuse local_head peer_head enabled =
     (if \<not> enabled then ''''
      else (let here = py_lower (py_strip local_head); peer = py_lower (py_strip peer_head)
            in if peer = '''' then ''''
               else if here \<noteq> '''' \<and> here \<noteq> peer then ''catch_up_tip_head_mismatch'' else ''''))"

definition cu_tip_at_height_refuse :: "int \<Rightarrow> int \<Rightarrow> string \<Rightarrow> string \<Rightarrow> bool \<Rightarrow> string" where
  "cu_tip_at_height_refuse tip_h peer_h local_head peer_head enabled =
     (if \<not> enabled then ''''
      else if tip_h \<le> 0 \<or> peer_h \<le> 0 \<or> tip_h \<noteq> peer_h then ''''
      else cu_tip_head_refuse local_head peer_head True)"

section \<open>Ports and state\<close>

definition cu_block_height :: "cu_block \<Rightarrow> int \<Rightarrow> int" where
  "cu_block_height b other =
     (case cb_height b of
        Some (Some j) \<Rightarrow> (case to_int j of Some n \<Rightarrow> n | None \<Rightarrow> other)
      | _ \<Rightarrow> (case cb_number b of
                Some (Some j) \<Rightarrow> (case to_int j of Some n \<Rightarrow> n | None \<Rightarrow> other)
              | _ \<Rightarrow> other))"

definition cu_block_hash :: "cu_block \<Rightarrow> string" where
  "cu_block_hash b = py_strip (text_or (cb_hash b) (text_or (cb_block_hash b) ''''))"

datatype cu_fetch = FetchRaises | NoResponse | Blocks "cu_block option list"

text \<open>
  The ports. An entry of a fetched batch that is not a mapping is \<open>None\<close>; a call that raises answers
  \<open>None\<close> where the code catches it (\<open>cup_import\<close>, \<open>cup_reorg\<close>).
\<close>

record 'w cu_ports =
  cup_height :: "'w \<Rightarrow> int"
  cup_head :: "'w \<Rightarrow> string"
  cup_needs_genesis :: "'w \<Rightarrow> bool"
  cup_get_block :: "'w \<Rightarrow> string \<Rightarrow> cu_block option"
  cup_expected_parent :: "'w \<Rightarrow> int \<Rightarrow> string"
  cup_find_ancestor :: "'w \<Rightarrow> string \<Rightarrow> int option"
  cup_import :: "cu_block \<Rightarrow> 'w \<Rightarrow> 'w \<times> bool option"
  cup_reorg :: "int \<Rightarrow> 'w \<Rightarrow> 'w \<times> bool option"
  cup_note_fail :: "string \<Rightarrow> 'w \<Rightarrow> 'w"
  cup_fetch :: "string \<Rightarrow> int \<Rightarrow> int \<Rightarrow> string \<Rightarrow> 'w \<Rightarrow> 'w \<times> cu_fetch"
  cup_running :: "'w \<Rightarrow> bool"
  cup_tip_probe :: "'w \<Rightarrow> cu_peer \<Rightarrow> string"
  cup_head_probe :: "'w \<Rightarrow> cu_peer \<Rightarrow> string"

record 'w cu_state =
  cw_world :: 'w
  cw_refuses :: "string list"
  cw_import_fails :: "string list"
  cw_peer_heights :: "(string \<times> int) list"

definition cu_bump :: "string \<Rightarrow> 'w cu_state \<Rightarrow> 'w cu_state" where
  "cu_bump r s = s\<lparr>cw_refuses := r # cw_refuses s\<rparr>"

section \<open>One block\<close>

datatype cu_import = ImOk | ImRefuse | ImFail | ImReorg

definition cu_tip_body_refuse :: "'w cu_ports \<Rightarrow> cu_config \<Rightarrow> cu_peer \<Rightarrow> cu_block \<Rightarrow> int \<Rightarrow> 'w \<Rightarrow> string" where
  "cu_tip_body_refuse P cfg peer b expected w =
     (let cont = cu_continuity_refuse b expected (cc_height_continuity_bind cfg);
          tip_h = cup_height P w; body_h = cu_block_height b (-1);
          contig = (if 0 \<le> body_h \<and> 0 \<le> tip_h \<and> body_h = tip_h + 1 \<and> cc_contiguous_parent_bind cfg
                    then cu_contiguous_refuse b (cup_head P w) True else '''');
          want = py_strip (cu_head peer); got = cu_block_hash b;
          tip = (if 0 \<le> body_h \<and> 0 \<le> cu_height peer \<and> body_h = cu_height peer \<and> cc_tip_head_bind cfg
                    \<and> want \<noteq> '''' \<and> got \<noteq> '''' \<and> py_lower want \<noteq> py_lower got
                 then ''catch_up_tip_head_mismatch'' else '''')
      in if cont \<noteq> '''' then cont else if contig \<noteq> '''' then contig else tip)"

text \<open>The result \<open>None\<close> is an exception.\<close>

definition cu_import_one ::
  "'w cu_ports \<Rightarrow> cu_config \<Rightarrow> cu_peer \<Rightarrow> cu_block \<Rightarrow> int \<Rightarrow> 'w cu_state \<Rightarrow> 'w cu_state \<times> cu_import option" where
  "cu_import_one P cfg peer b expected s =
     (let refuse = cu_tip_body_refuse P cfg peer b expected (cw_world s)
      in if refuse \<noteq> '''' then (cu_bump refuse s, Some ImRefuse)
         else (let (w1, res) = cup_import P b (cw_world s); s1 = s\<lparr>cw_world := w1\<rparr>
               in case res of
                    None \<Rightarrow> (s1, None)
                  | Some True \<Rightarrow> (s1, Some ImOk)
                  | Some False \<Rightarrow>
                      (let w2 = cup_note_fail P (cu_id peer) w1;
                           s2 = s1\<lparr>cw_world := w2, cw_import_fails := cu_id peer # cw_import_fails s1\<rparr>;
                           parent = py_strip (text_or (cb_parent b) '''');
                           anc = (if parent = '''' then None else cup_find_ancestor P w2 parent)
                       in case anc of
                            None \<Rightarrow> (s2, Some ImFail)
                          | Some a \<Rightarrow>
                              if a < cup_height P w2
                              then (let (w3, ok) = cup_reorg P a w2; s3 = s2\<lparr>cw_world := w3\<rparr>
                                    in case ok of
                                         None \<Rightarrow> (s3, None)
                                       | Some True \<Rightarrow> (s3, Some ImReorg)
                                       | Some False \<Rightarrow> (s3, Some ImFail))
                              else (s2, Some ImFail))))"

section \<open>A batch\<close>

record cu_cursor =
  cr_current :: int
  cr_imported :: int
  cr_any :: bool
  cr_abort :: bool

text \<open>
  The loop over a fetched batch. \<open>Inl\<close> is an early return (the import raised), \<open>Inr\<close> the cursor when the
  loop ends, with the flag \<open>abort_batch\<close>.
\<close>

fun cu_import_batch ::
  "'w cu_ports \<Rightarrow> cu_config \<Rightarrow> cu_peer \<Rightarrow> int \<Rightarrow> cu_block option list \<Rightarrow> cu_cursor \<Rightarrow> 'w cu_state \<Rightarrow> 'w cu_state \<times> (cu_outcome + cu_cursor)" where
  "cu_import_batch P cfg peer target [] c s = (s, Inr c)"
| "cu_import_batch P cfg peer target (None # bs) c s = (s, Inr (c\<lparr>cr_abort := True\<rparr>))"
| "cu_import_batch P cfg peer target (Some b # bs) c s =
     (let (s', r) = cu_import_one P cfg peer b (cr_current c) s
      in case r of
           None \<Rightarrow> (s', Inl (cu_make CuError ''import_exception'' (cup_height P (cw_world s')) target (cr_imported c)))
         | Some ImRefuse \<Rightarrow> (s', Inr (c\<lparr>cr_abort := True\<rparr>))
         | Some ImFail \<Rightarrow> (s', Inr (c\<lparr>cr_abort := True\<rparr>))
         | Some ImReorg \<Rightarrow> (s', Inr (c\<lparr>cr_current := cup_height P (cw_world s') + 1, cr_any := True, cr_abort := True\<rparr>))
         | Some ImOk \<Rightarrow>
             cu_import_batch P cfg peer target bs
               (c\<lparr>cr_current := cu_block_height b (cr_current c) + 1, cr_imported := cr_imported c + 1, cr_any := True\<rparr>) s')"

section \<open>The loop\<close>

text \<open>\<open>None\<close>: an exception, which \<open>run_ahead\<close> turns into an outcome.\<close>

type_synonym 'w cu_result = "'w cu_state \<times> cu_outcome option"

definition cu_finish :: "'w cu_ports \<Rightarrow> cu_config \<Rightarrow> cu_peer \<Rightarrow> int \<Rightarrow> 'w cu_state \<Rightarrow> 'w cu_result" where
  "cu_finish P cfg peer imported s =
     (let tip = cup_height P (cw_world s)
      in if cu_height peer \<le> tip then
           (let refuse = cu_tip_at_height_refuse tip (cu_height peer) (cup_head P (cw_world s)) (cu_head peer) (cc_tip_head_bind cfg)
            in if refuse \<noteq> '''' then (cu_bump refuse s, Some (cu_make CuIncomplete refuse tip (cu_height peer) imported))
               else (s, Some (cu_make CuComplete ''ok'' tip (cu_height peer) imported)))
         else (s, Some (cu_make CuIncomplete ''incomplete'' tip (cu_height peer) imported)))"

text \<open>One turn of the loop: an exit, or the next cursor, target and count.\<close>

definition cu_turn ::
  "'w cu_ports \<Rightarrow> cu_config \<Rightarrow> cu_peer \<Rightarrow> int \<Rightarrow> int \<Rightarrow> int \<Rightarrow> 'w cu_state \<Rightarrow> 'w cu_state \<times> (cu_outcome option + int \<times> int \<times> int \<times> bool)" where
  "cu_turn P cfg peer current target imported s =
     (let batch_end = min (current + max 1 (cc_batch_size cfg) - 1) target;
          (w1, answer) = cup_fetch P (cu_id peer) current batch_end (cup_expected_parent P (cw_world s) current) (cw_world s);
          s1 = s\<lparr>cw_world := w1\<rparr>
      in case answer of
           FetchRaises \<Rightarrow> (s1, Inl None)
         | NoResponse \<Rightarrow> (s1, Inl (Some (cu_make CuStalled ''fetch_stall'' (cup_height P w1) target imported)))
         | Blocks bs \<Rightarrow>
             if bs = [] then (s1, Inl (Some (cu_make CuIncomplete ''empty_batch'' (cup_height P w1) target imported)))
             else (case cu_import_batch P cfg peer target bs
                          \<lparr>cr_current = current, cr_imported = imported, cr_any = False, cr_abort = False\<rparr> s1 of
                     (s2, Inl out) \<Rightarrow> (s2, Inl (Some out))
                   | (s2, Inr c) \<Rightarrow>
                       if \<not> cr_any c then
                         (s2, Inl (Some (cu_make CuIncomplete ''batch_no_progress'' (cup_height P (cw_world s2)) target (cr_imported c))))
                       else
                         (s2\<lparr>cw_peer_heights := (cu_id peer, max (cu_height peer) (cup_height P (cw_world s2))) # cw_peer_heights s2\<rparr>,
                          Inr (cr_current c, max target (cu_height peer), cr_imported c, cr_abort c))))"

partial_function (option) cu_loop ::
  "'w cu_ports \<Rightarrow> cu_config \<Rightarrow> cu_peer \<Rightarrow> int \<Rightarrow> int \<Rightarrow> int \<Rightarrow> 'w cu_state \<Rightarrow> 'w cu_result option" where
  "cu_loop P cfg peer current target imported s =
     (if \<not> cup_running P (cw_world s) \<or> target < current then Some (cu_finish P cfg peer imported s)
      else (case cu_turn P cfg peer current target imported s of
              (s', Inl out) \<Rightarrow> Some (s', out)
            | (s', Inr (current', target', imported', abort)) \<Rightarrow>
                if abort \<and> target' < current' then Some (cu_finish P cfg peer imported' s')
                else cu_loop P cfg peer current' target' imported' s'))"

declare cu_loop.simps [code]

definition cu_start :: "int \<Rightarrow> int \<Rightarrow> bool \<Rightarrow> int" where
  "cu_start local_h peer_h needs_genesis =
     (if needs_genesis then 0 else if local_h = 0 then (if peer_h = 0 then 0 else 1) else local_h + 1)"

definition cu_run_inner :: "'w cu_ports \<Rightarrow> cu_peer \<Rightarrow> cu_config \<Rightarrow> 'w cu_state \<Rightarrow> 'w cu_result option" where
  "cu_run_inner P peer cfg s =
     (let w = cw_world s; local_h = cup_height P w; peer_h = cu_height peer; ng = cup_needs_genesis P w;
          refuse = (\<lambda>r. Some (cu_bump r s, Some (cu_refused r local_h peer_h)))
      in if peer_h < local_h \<or> peer_h = local_h \<and> \<not> ng \<or> peer_h < 0
         then Some (s, Some (cu_make CuSkipped ''not_ahead'' local_h peer_h 0))
         else (let head = py_strip (cu_head peer);
                   blk = (if head = '''' then None else cup_get_block P w head);
                   r1 = cu_ahead_refuse (if ng \<and> local_h = 0 then -1 else local_h) peer_h head blk (cc_require_head cfg);
                   r2 = (if cc_tip_probe cfg then cup_tip_probe P w peer else '''');
                   r3 = (if cc_peer_head_probe cfg then cup_head_probe P w peer else '''')
               in if r1 \<noteq> '''' then refuse r1 else if r2 \<noteq> '''' then refuse r2 else if r3 \<noteq> '''' then refuse r3
                  else cu_loop P cfg peer (cu_start local_h peer_h ng) peer_h 0 s))"

definition cu_run_ahead :: "'w cu_ports \<Rightarrow> cu_peer \<Rightarrow> cu_config \<Rightarrow> 'w cu_state \<Rightarrow> ('w cu_state \<times> cu_outcome) option" where
  "cu_run_ahead P peer cfg s =
     (case cu_run_inner P peer cfg s of
        None \<Rightarrow> None
      | Some (s', Some out) \<Rightarrow> Some (s', out)
      | Some (s', None) \<Rightarrow> Some (s', cu_make CuError ''path_a_exception'' (cup_height P (cw_world s')) (cu_height peer) 0))"

end
