(* ===== verification/Chain_Import.thy ===== *)
theory Chain_Import
  imports Catch_Up Fork_Props
begin

text \<open>
  The chain below the catch-up ports: \<open>Blockchain.import_block\<close> and the queries of \<open>core/blockchain.py\<close>, the
  block table of \<open>storage/database.py\<close>, \<open>native.validate_imported_block_chain\<close>, and the adapter of
  \<open>network/catchup_adapters.py\<close> over \<open>P2PNode.import_block\<close>. A chain is the block table: height and hash of
  each row. What the validators and the execution of a block decide is the record \<open>import_checks\<close>.
\<close>

section \<open>The block table\<close>

type_synonym chain = "(int \<times> string) list"

definition genesis_hash :: string where
  "genesis_hash = replicate 64 (CHR ''0'')"

definition chain_tip :: "chain \<Rightarrow> int" where
  "chain_tip ch = (if ch = [] then 0 else Max (fst ` set ch))"

definition last_block :: "chain \<Rightarrow> (int \<times> string) option" where
  "last_block ch = (if ch = [] then None else map_option (Pair (chain_tip ch)) (map_of ch (chain_tip ch)))"

definition block_by_hash :: "chain \<Rightarrow> string \<Rightarrow> int option" where
  "block_by_hash ch h = map_option fst (find (\<lambda>(k, g). g = h) ch)"

text \<open>\<open>INSERT OR REPLACE\<close> with the height as key and the hash unique.\<close>

definition insert_block :: "int \<Rightarrow> string \<Rightarrow> chain \<Rightarrow> chain" where
  "insert_block n h ch = filter (\<lambda>(k, g). k \<noteq> n \<and> g \<noteq> h) ch @ [(n, h)]"

section \<open>Import\<close>

record import_checks =
  ic_validate :: "cu_block \<Rightarrow> (int \<times> string) option \<Rightarrow> bool option"
  ic_digest :: "cu_block \<Rightarrow> string"
  ic_apply :: "cu_block \<Rightarrow> chain \<Rightarrow> bool"

text \<open>\<open>data.get(a, data.get(b, ""))\<close> of texts.\<close>

definition first_text :: "string option \<Rightarrow> string option \<Rightarrow> string" where
  "first_text a b = (case a of Some s \<Rightarrow> s | None \<Rightarrow> (case b of Some s \<Rightarrow> s | None \<Rightarrow> ''''))"

text \<open>The height after \<open>_normalize_block_dict\<close>; \<open>None\<close> is the exception of \<open>int()\<close>.\<close>

definition import_height :: "cu_block \<Rightarrow> int option" where
  "import_height b = Option.bind (cu_raw_height b (Some (IntValue 0))) to_int"

text \<open>\<open>validate_imported_block_chain\<close> on one block; the digest is lower-case hex text.\<close>

definition validate_imported :: "import_checks \<Rightarrow> cu_block \<Rightarrow> int \<Rightarrow> string \<Rightarrow> int \<Rightarrow> bool" where
  "validate_imported K b h expected_parent start \<longleftrightarrow>
     (let hash = first_text (cb_hash b) (cb_block_hash b); parent = first_text (cb_parent b) (cb_alt_parent b)
      in hash \<noteq> '''' \<and> h = start + 1 \<and> (expected_parent = '''' \<or> parent = expected_parent)
         \<and> norm_hash (ic_digest K b) = hash)"

definition add_imported :: "import_checks \<Rightarrow> cu_block \<Rightarrow> int \<Rightarrow> chain \<Rightarrow> chain \<times> bool" where
  "add_imported K b h ch =
     (if map_of ch h \<noteq> None then (ch, False)
      else if \<not> ic_apply K b ch then (ch, False)
      else (insert_block h (first_text (cb_hash b) (cb_block_hash b)) ch, True))"

definition import_block :: "import_checks \<Rightarrow> cu_block \<Rightarrow> chain \<Rightarrow> chain \<times> bool option" where
  "import_block K b ch =
     (case import_height b of
        None \<Rightarrow> (ch, None)
      | Some h \<Rightarrow>
          (let existing = map_of ch h;
               wipe = (existing \<noteq> None \<and> h = 0 \<and> existing \<noteq> cb_hash b)
           in if existing \<noteq> None \<and> \<not> wipe then (ch, Some False)
              else (let ch1 = (if wipe then [] else ch)
                    in case ic_validate K b (last_block ch1) of
                         None \<Rightarrow> (ch1, None)
                       | Some False \<Rightarrow> (ch1, Some False)
                       | Some True \<Rightarrow>
                           (let (start, parent) = (case last_block ch1 of Some (k, g) \<Rightarrow> (k, g) | None \<Rightarrow> (-1, genesis_hash))
                            in if \<not> validate_imported K b h parent start then (ch1, Some False)
                               else (let (ch2, ok) = add_imported K b h ch1 in (ch2, Some ok))))))"

section \<open>The ports of a node\<close>

text \<open>The adapter has no \<open>needs_genesis\<close>, which the loop reads as false.\<close>

record 'n node_world =
  nw_chain :: chain
  nw_net :: 'n

record 'n node_env =
  ne_checks :: import_checks
  ne_gate :: "cu_block \<Rightarrow> 'n node_world \<Rightarrow> bool"
  ne_fetch :: "string \<Rightarrow> int \<Rightarrow> int \<Rightarrow> string \<Rightarrow> 'n \<Rightarrow> 'n \<times> cu_fetch"
  ne_running :: "'n node_world \<Rightarrow> bool"
  ne_floor :: "'n node_world \<Rightarrow> int"
  ne_replay :: "int \<Rightarrow> 'n node_world \<Rightarrow> bool"
  ne_tip_probe :: "'n node_world \<Rightarrow> cu_peer \<Rightarrow> string"
  ne_head_probe :: "'n node_world \<Rightarrow> cu_peer \<Rightarrow> string"

definition chain_head :: "chain \<Rightarrow> string" where
  "chain_head ch = (case last_block ch of None \<Rightarrow> '''' | Some (k, h) \<Rightarrow> h)"

definition stored_block :: "int \<Rightarrow> string \<Rightarrow> cu_block" where
  "stored_block n h = \<lparr>cb_height = Some (Some (IntValue n)), cb_number = None, cb_hash = Some h, cb_block_hash = None,
     cb_parent = None, cb_alt_parent = None\<rparr>"

definition expected_parent_for :: "chain \<Rightarrow> int \<Rightarrow> string" where
  "expected_parent_for ch n =
     (if n \<le> 0 then genesis_hash
      else (case map_of ch (n - 1) of
              Some h \<Rightarrow> if py_strip h \<noteq> '''' then py_strip h
                        else if py_strip (chain_head ch) \<noteq> '''' then py_strip (chain_head ch) else genesis_hash
            | None \<Rightarrow> if py_strip (chain_head ch) \<noteq> '''' then py_strip (chain_head ch) else genesis_hash))"

text \<open>\<open>P2PNode.import_block\<close> behind the tip-safety gate; the adapter turns exceptions into \<open>False\<close>.\<close>

definition node_import :: "'n node_env \<Rightarrow> cu_block \<Rightarrow> 'n node_world \<Rightarrow> 'n node_world \<times> bool option" where
  "node_import E b w =
     (if \<not> ne_gate E b w then (w, Some False)
      else (case import_block (ne_checks E) b (nw_chain w) of
              (ch, res) \<Rightarrow> (w\<lparr>nw_chain := ch\<rparr>, Some (res = Some True))))"

definition node_reorg :: "'n node_env \<Rightarrow> int \<Rightarrow> 'n node_world \<Rightarrow> 'n node_world \<times> bool option" where
  "node_reorg E a w =
     (case reorg_to_ancestor (ne_floor E w) (ne_replay E a w) a (map fst (nw_chain w)) of
        (hs, ok) \<Rightarrow> (w\<lparr>nw_chain := filter (\<lambda>(k, h). k \<in> set hs) (nw_chain w)\<rparr>, Some ok))"

definition node_ports :: "'n node_env \<Rightarrow> ('n node_world) cu_ports" where
  "node_ports E =
     \<lparr>cup_height = (\<lambda>w. chain_tip (nw_chain w)), cup_head = (\<lambda>w. chain_head (nw_chain w)),
      cup_needs_genesis = (\<lambda>_. False),
      cup_get_block = (\<lambda>w h. map_option (\<lambda>n. stored_block n h) (block_by_hash (nw_chain w) h)),
      cup_expected_parent = (\<lambda>w. expected_parent_for (nw_chain w)),
      cup_find_ancestor = (\<lambda>w. find_ancestor_height genesis_hash (block_by_hash (nw_chain w))),
      cup_import = node_import E, cup_reorg = node_reorg E, cup_note_fail = (\<lambda>_ w. w),
      cup_fetch = (\<lambda>pid a e p w. (case ne_fetch E pid a e p (nw_net w) of (n, r) \<Rightarrow> (w\<lparr>nw_net := n\<rparr>, r))),
      cup_running = ne_running E, cup_tip_probe = ne_tip_probe E, cup_head_probe = ne_head_probe E\<rparr>"

section \<open>Facts on the block table\<close>

lemma last_block_None [simp]: "last_block ch = None \<longleftrightarrow> ch = []"
proof (cases "ch = []")
  case False
  hence "chain_tip ch \<in> fst ` set ch" by (simp add: chain_tip_def)
  thus ?thesis using False by (simp add: last_block_def map_of_eq_None_iff)
qed (simp add: last_block_def)

lemma last_block_Nil [simp]: "last_block [] = None" "chain_head [] = []"
  by (simp_all add: chain_head_def last_block_def)

lemma last_block_Some: "last_block ch = Some (k, h) \<Longrightarrow> k = chain_tip ch \<and> (k, h) \<in> set ch"
  by (auto simp: last_block_def split: if_splits dest: map_of_SomeD)

lemma chain_head_in: "ch \<noteq> [] \<Longrightarrow> (chain_tip ch, chain_head ch) \<in> set ch"
  using last_block_Some [of ch] last_block_None [of ch] by (cases "last_block ch") (auto simp: chain_head_def)

lemma chain_tip_insert: "\<forall>k\<in>fst ` set ch. k \<le> n \<Longrightarrow> chain_tip (insert_block n h ch) = n"
  by (auto simp: chain_tip_def insert_block_def intro!: Max_eqI)

lemma chain_tip_ge: "k \<in> fst ` set ch \<Longrightarrow> k \<le> chain_tip ch"
  by (auto simp: chain_tip_def)

lemma block_by_hash_in: "block_by_hash ch h = Some k \<Longrightarrow> (k, h) \<in> set ch"
  by (auto simp: block_by_hash_def find_Some_iff in_set_conv_nth)

definition chain_inv :: "chain \<Rightarrow> bool" where
  "chain_inv ch \<longleftrightarrow> (\<forall>(k, h)\<in>set ch. 0 \<le> k \<and> norm_hash h = h \<and> h \<noteq> '''' \<and> h \<noteq> genesis_hash) \<and> distinct (map snd ch)"

lemma chain_inv_Nil [simp]: "chain_inv []"
  by (simp add: chain_inv_def)

lemma chain_inv_tip: "chain_inv ch \<Longrightarrow> 0 \<le> chain_tip ch"
  using chain_head_in [of ch] by (cases "ch = []") (auto simp: chain_inv_def chain_tip_def)

lemma chain_inv_head: "chain_inv ch \<Longrightarrow> norm_hash (chain_head ch) = chain_head ch"
  using chain_head_in [of ch] by (cases "ch = []") (auto simp: chain_inv_def chain_head_def)

lemma distinct_snd_filter: "distinct (map snd xs) \<Longrightarrow> distinct (map snd (filter P xs))"
  by (rule distinct_map_filter)

lemma chain_inv_insert:
  "chain_inv ch \<Longrightarrow> 0 \<le> n \<Longrightarrow> norm_hash h = h \<Longrightarrow> h \<noteq> '''' \<Longrightarrow> h \<noteq> genesis_hash \<Longrightarrow> chain_inv (insert_block n h ch)"
  by (auto simp: chain_inv_def insert_block_def intro!: distinct_snd_filter)

lemma by_hash_unique: "chain_inv ch \<Longrightarrow> (k, h) \<in> set ch \<Longrightarrow> block_by_hash ch h = Some m \<Longrightarrow> m = k"
  using inj_onD [of snd "set ch" "(k, h)" "(m, h)"] by (auto simp: chain_inv_def distinct_map dest!: block_by_hash_in)

definition node_inv :: "'n node_env \<Rightarrow> 'n node_world \<Rightarrow> bool" where
  "node_inv E w \<longleftrightarrow> (\<forall>b. norm_hash (ic_digest (ne_checks E) b) \<noteq> genesis_hash) \<and> chain_inv (nw_chain w)"

text \<open>A block imported at a height other than 0, or on an empty chain, is the next one; a failure changes nothing.\<close>

lemma import_block_next:
  assumes "import_block K b ch = (ch', r)" "import_height b = Some n" "n \<noteq> 0 \<or> ch = []" "chain_inv ch"
    "\<forall>b. norm_hash (ic_digest K b) \<noteq> genesis_hash"
  shows "r = Some True \<and> chain_inv ch' \<and> chain_tip ch' = n \<and> n = (if ch = [] then 0 else chain_tip ch + 1) \<or> r \<noteq> Some True \<and> ch' = ch"
proof (cases "r = Some True")
  case False
  thus ?thesis using assms(1-3)
    by (auto simp: import_block_def Let_def add_imported_def split: if_splits option.splits bool.splits prod.splits)
next
  case True
  let ?h = "first_text (cb_hash b) (cb_block_hash b)"
  define st where "st = (case last_block ch of Some (k, g) \<Rightarrow> (k, g) | None \<Rightarrow> (-1, genesis_hash))"
  have "validate_imported K b n (snd st) (fst st) \<and> ch' = insert_block n ?h ch"
    using assms(1-3) True unfolding st_def
    by (auto simp: import_block_def Let_def add_imported_def split: if_splits option.splits bool.splits prod.splits)
  hence v: "?h \<noteq> ''''" "n = fst st + 1" "norm_hash (ic_digest K b) = ?h" "ch' = insert_block n ?h ch"
    by (auto simp: validate_imported_def Let_def)
  have n: "n = (if ch = [] then 0 else chain_tip ch + 1)"
  proof (cases "last_block ch")
    case None
    thus ?thesis using v(2) by (simp add: st_def)
  next
    case (Some kg)
    thus ?thesis using v(2) last_block_Some [of ch "fst kg" "snd kg"] by (auto simp: st_def split: prod.splits)
  qed
  have h: "norm_hash ?h = ?h" "?h \<noteq> genesis_hash" using v(3) assms(5) by (metis norm_hash_idem, metis)
  have "chain_inv ch'" unfolding v(4) using n chain_inv_tip [OF assms(4)] by (intro chain_inv_insert assms(4) h v(1)) auto
  moreover have "chain_tip ch' = n" unfolding v(4) using n chain_tip_ge [of _ ch] by (intro chain_tip_insert) fastforce
  ultimately show ?thesis using True n by blast
qed

lemma raw_import_height: "cu_raw_height b None = Some j \<Longrightarrow> import_height b = to_int j"
  by (auto simp: cu_raw_height_def import_height_def split: option.splits)

lemma find_ancestor_known:
  assumes "chain_inv ch" "find_ancestor_height genesis_hash (block_by_hash ch) h = Some a"
  shows "0 \<le> a" "h \<noteq> '''' \<Longrightarrow> norm_hash h = norm_hash (chain_head ch) \<Longrightarrow> a = chain_tip ch"
proof -
  show "0 \<le> a"
    using assms by (auto simp: find_ancestor_height_def chain_inv_def split: if_splits dest!: block_by_hash_in)
  assume h: "h \<noteq> ''''" and eq: "norm_hash h = norm_hash (chain_head ch)"
  hence eq': "norm_hash h = chain_head ch" using chain_inv_head [OF assms(1)] by simp
  have gen: "norm_hash genesis_hash = genesis_hash" by code_simp
  show "a = chain_tip ch"
  proof (cases "ch = []")
    case True
    thus ?thesis using assms(2) h by (auto simp: find_ancestor_height_def block_by_hash_def chain_tip_def split: if_splits)
  next
    case False
    note hd_in = chain_head_in [OF False]
    have "h \<noteq> genesis_hash" using eq' gen hd_in assms(1) by (auto simp: chain_inv_def)
    hence b: "block_by_hash ch h = Some a" using assms(2) h by (simp add: find_ancestor_height_def)
    have "norm_hash h = h" using block_by_hash_in [OF b] assms(1) by (auto simp: chain_inv_def)
    thus ?thesis using eq' hd_in by_hash_unique [OF assms(1) _ b] by simp
  qed
qed

end
