(* ===== verification/Catch_Up_Props.thy ===== *)
theory Catch_Up_Props
  imports Chain_Import
begin

text \<open>
  What a catch-up run does. The loop rules carry an invariant through \<open>cu_loop\<close>: \<open>cu_loop_rule\<close> for a run
  that returns, \<open>cu_loop_total\<close> with a measure for one that does. \<open>cu_move\<close> is the abstract
  specification of a run: the only ways its world may change. The locale \<open>chain_port\<close> states what the loop
  needs of the chain to return; the node's ports meet it.
\<close>

section \<open>Loop rules\<close>

lemma cu_loop_rule:
  assumes "cu_loop P cfg peer c t i s = Some r" "I c t i s"
    and exit: "\<And>c t i s s' out. I c t i s \<Longrightarrow> cup_running P (cw_world s) \<Longrightarrow> c \<le> t \<Longrightarrow>
          cu_turn P cfg peer c t i s = (s', Inl out) \<Longrightarrow> Q (s', out)"
    and step: "\<And>c t i s s' c' t' i' a. I c t i s \<Longrightarrow> cup_running P (cw_world s) \<Longrightarrow> c \<le> t \<Longrightarrow>
          cu_turn P cfg peer c t i s = (s', Inr (c', t', i', a)) \<Longrightarrow> I c' t' i' s'"
    and finish: "\<And>c t i s. I c t i s \<Longrightarrow> \<not> cup_running P (cw_world s) \<or> t < c \<Longrightarrow> Q (cu_finish P cfg peer i s)"
  shows "Q r"
proof -
  have "P = P \<longrightarrow> cfg = cfg \<longrightarrow> peer = peer \<longrightarrow> I c t i s \<longrightarrow> Q r"
  proof (rule cu_loop.raw_induct [where Pa = "\<lambda>x r. case x of ((((((P', cfg'), peer'), c), t), i), s) \<Rightarrow>
          P' = P \<longrightarrow> cfg' = cfg \<longrightarrow> peer' = peer \<longrightarrow> I c t i s \<longrightarrow> Q r", OF _ assms(1), unfolded prod.case])
    fix loop P' cfg' peer' c t i s r
    assume IH: "\<And>P' cfg' peer' c t i s r. loop P' cfg' peer' c t i s = Some r \<Longrightarrow>
        P' = P \<longrightarrow> cfg' = cfg \<longrightarrow> peer' = peer \<longrightarrow> I c t i s \<longrightarrow> Q r"
      and eq: "(if \<not> cup_running P' (cw_world s) \<or> t < c then Some (cu_finish P' cfg' peer' i s)
        else case cu_turn P' cfg' peer' c t i s of
             (s', Inl out) \<Rightarrow> Some (s', out)
             | (s', Inr (c', t', i', a)) \<Rightarrow>
                 if a \<and> t' < c' then Some (cu_finish P' cfg' peer' i' s') else loop P' cfg' peer' c' t' i' s') = Some r"
    show "P' = P \<longrightarrow> cfg' = cfg \<longrightarrow> peer' = peer \<longrightarrow> I c t i s \<longrightarrow> Q r"
    proof (intro impI)
      assume same: "P' = P" "cfg' = cfg" "peer' = peer" and inv: "I c t i s"
      show "Q r"
      proof (cases "\<not> cup_running P (cw_world s) \<or> t < c")
        case True
        thus ?thesis using eq finish [OF inv True] by (simp add: same)
      next
        case False
        hence run: "cup_running P (cw_world s)" "c \<le> t" by simp_all
        obtain s' res where turn: "cu_turn P cfg peer c t i s = (s', res)" by fastforce
        show ?thesis
        proof (cases res)
          case (Inl out)
          thus ?thesis using eq exit [OF inv run] turn run by (simp add: same)
        next
          case (Inr x)
          obtain c' t' i' a where x: "x = (c', t', i', a)" by (cases x) auto
          have inv': "I c' t' i' s'" using step [OF inv run] turn Inr x by simp
          show ?thesis
          proof (cases "a \<and> t' < c'")
            case True
            thus ?thesis using eq finish [OF inv'] turn Inr x run by (simp add: same)
          next
            case False
            thus ?thesis using eq IH turn Inr x run inv' by (simp add: same split: if_splits)
          qed
        qed
      qed
    qed
  qed
  thus ?thesis using assms(2) by simp
qed

lemma cu_loop_total:
  assumes "I c t i s"
    and step: "\<And>c t i s s' c' t' i' a. I c t i s \<Longrightarrow> cup_running P (cw_world s) \<Longrightarrow> c \<le> t \<Longrightarrow>
          cu_turn P cfg peer c t i s = (s', Inr (c', t', i', a)) \<Longrightarrow> \<not> cup_running P (cw_world s') \<or> I c' t' i' s' \<and> t' - c' < t - c"
  shows "\<exists>r. cu_loop P cfg peer c t i s = Some r"
  using assms(1)
proof (induction "nat (t + 1 - c)" arbitrary: c t i s rule: less_induct)
  case less
  show ?case
  proof (cases "\<not> cup_running P (cw_world s) \<or> t < c")
    case True
    thus ?thesis by (simp add: cu_loop.simps)
  next
    case False
    hence run: "cup_running P (cw_world s)" "c \<le> t" by simp_all
    obtain s' res where turn: "cu_turn P cfg peer c t i s = (s', res)" by fastforce
    show ?thesis
    proof (cases res)
      case (Inl out)
      thus ?thesis using turn run by (simp add: cu_loop.simps)
    next
      case (Inr x)
      obtain c' t' i' a where x: "x = (c', t', i', a)" by (cases x) auto
      have "\<not> cup_running P (cw_world s') \<or> I c' t' i' s' \<and> t' - c' < t - c" using step [OF less.prems run] turn Inr x by simp
      hence "\<exists>r. cu_loop P cfg peer c' t' i' s' = Some r"
        using less.hyps run(2) by (cases "cup_running P (cw_world s')") (simp, simp add: cu_loop.simps [of P cfg peer c'])
      thus ?thesis using turn Inr x run by (subst cu_loop.simps) auto
    qed
  qed
qed

section \<open>What a run may do\<close>

inductive cu_move :: "'w cu_ports \<Rightarrow> cu_config \<Rightarrow> cu_peer \<Rightarrow> 'w \<Rightarrow> 'w \<Rightarrow> bool" for P cfg peer where
  fetch: "cu_move P cfg peer w (fst (cup_fetch P (cu_id peer) n m (cup_expected_parent P w n) w))"
| gated_import: "cu_tip_body_refuse P cfg peer b n w = '''' \<Longrightarrow> cu_move P cfg peer w (fst (cup_import P b w))"
| fail_noted: "cu_move P cfg peer w (cup_note_fail P (cu_id peer) w)"
| fork_reorg: "h \<noteq> '''' \<Longrightarrow> cup_find_ancestor P w h = Some a \<Longrightarrow> a < cup_height P w \<Longrightarrow>
    cu_move P cfg peer w (fst (cup_reorg P a w))"

abbreviation cu_moves :: "'w cu_ports \<Rightarrow> cu_config \<Rightarrow> cu_peer \<Rightarrow> 'w \<Rightarrow> 'w \<Rightarrow> bool" where
  "cu_moves P cfg peer \<equiv> (cu_move P cfg peer)\<^sup>*\<^sup>*"

lemma cu_bump_world [simp]: "cw_world (cu_bump r s) = cw_world s"
  by (simp add: cu_bump_def)

lemma cu_import_one_moves:
  assumes "cu_import_one P cfg peer b n s = (s', r)"
  shows "cu_moves P cfg peer (cw_world s) (cw_world s')"
proof (cases "cu_tip_body_refuse P cfg peer b n (cw_world s) = ''''")
  case False
  thus ?thesis using assms by (auto simp: cu_import_one_def)
next
  case True
  obtain w1 res where imp: "cup_import P b (cw_world s) = (w1, res)" by fastforce
  have m1: "cu_moves P cfg peer (cw_world s) w1" using cu_move.gated_import [OF True] imp by (metis fst_conv r_into_rtranclp)
  let ?parent = "py_strip (text_or (cb_parent b) '''')" and ?w2 = "cup_note_fail P (cu_id peer) w1"
  have m2: "cu_moves P cfg peer (cw_world s) ?w2" using m1 cu_move.fail_noted by (meson rtranclp.rtrancl_into_rtrancl)
  show ?thesis
  proof (cases "res = Some False")
    case False
    hence "cw_world s' = w1"
      using assms True imp by (auto simp: cu_import_one_def Let_def split: option.splits bool.splits)
    thus ?thesis using m1 by simp
  next
    case failed: True
    show ?thesis
    proof (cases "?parent \<noteq> '''' \<and> (\<exists>a. cup_find_ancestor P ?w2 ?parent = Some a \<and> a < cup_height P ?w2)")
      case False
      hence "cw_world s' = ?w2"
        using assms True imp failed by (auto simp: cu_import_one_def Let_def split: option.splits bool.splits if_splits prod.splits)
      thus ?thesis using m2 by simp
    next
      case fork: True
      then obtain a where a: "cup_find_ancestor P ?w2 ?parent = Some a" "a < cup_height P ?w2" "?parent \<noteq> ''''" by blast
      obtain w3 ok where re: "cup_reorg P a ?w2 = (w3, ok)" by fastforce
      have m3: "cu_move P cfg peer ?w2 w3" using cu_move.fork_reorg [OF a(3,1,2)] re by (metis fst_conv)
      have "cw_world s' = w3"
        using assms imp failed a re True by (auto simp: cu_import_one_def Let_def split: option.splits bool.splits)
      thus ?thesis using m2 m3 by (meson rtranclp.rtrancl_into_rtrancl)
    qed
  qed
qed

lemma cu_import_batch_moves:
  "cu_import_batch P cfg peer t bs c s = (s', r) \<Longrightarrow> cu_moves P cfg peer (cw_world s) (cw_world s')"
proof (induction P cfg peer t bs c s arbitrary: s' r rule: cu_import_batch.induct)
  case (3 P cfg peer t b bs c s)
  obtain s1 x where one: "cu_import_one P cfg peer b (cr_current c) s = (s1, x)" by fastforce
  have m: "cu_moves P cfg peer (cw_world s) (cw_world s1)" by (rule cu_import_one_moves [OF one])
  show ?case
  proof (cases "x = Some ImOk")
    case True
    hence "cu_moves P cfg peer (cw_world s1) (cw_world s')" using 3 one by simp
    thus ?thesis using m by (rule rtranclp_trans [rotated])
  next
    case False
    hence "s' = s1" using 3(2) one by (auto split: option.splits cu_import.splits)
    thus ?thesis using m by simp
  qed
qed auto

lemma cu_turn_moves:
  assumes "cu_turn P cfg peer c t i s = (s', r)"
  shows "cu_moves P cfg peer (cw_world s) (cw_world s')"
proof -
  let ?e = "min (c + max 1 (cc_batch_size cfg) - 1) t"
  obtain w1 ans where f: "cup_fetch P (cu_id peer) c ?e (cup_expected_parent P (cw_world s) c) (cw_world s) = (w1, ans)" by fastforce
  let ?s1 = "s\<lparr>cw_world := w1\<rparr>"
  have m: "cu_move P cfg peer (cw_world s) w1" using cu_move.fetch [of P cfg peer "cw_world s" c ?e] f by simp
  show ?thesis
  proof (cases "\<exists>bs. ans = Blocks bs \<and> bs \<noteq> []")
    case False
    hence "cw_world s' = w1" using assms f by (auto simp: cu_turn_def Let_def split: cu_fetch.splits if_splits)
    thus ?thesis using m by blast
  next
    case True
    then obtain bs where bs: "ans = Blocks bs" "bs \<noteq> []" by blast
    obtain s2 x where b: "cu_import_batch P cfg peer t bs \<lparr>cr_current = c, cr_imported = i, cr_any = False, cr_abort = False\<rparr> ?s1 = (s2, x)"
      by fastforce
    have "cw_world s' = cw_world s2" using assms f bs b by (auto simp: cu_turn_def Let_def split: sum.splits if_splits)
    thus ?thesis using m cu_import_batch_moves [OF b] by (simp add: converse_rtranclp_into_rtranclp)
  qed
qed

lemma cu_finish_world [simp]: "cw_world (fst (cu_finish P cfg peer i s)) = cw_world s"
  by (simp add: cu_finish_def Let_def)

lemma cu_loop_moves:
  assumes "cu_loop P cfg peer c t i s = Some r"
  shows "cu_moves P cfg peer (cw_world s) (cw_world (fst r))"
proof (rule cu_loop_rule [OF assms, where I = "\<lambda>c t i s'. cu_moves P cfg peer (cw_world s) (cw_world s')"])
  fix c t i s1 s' out
  assume "cu_moves P cfg peer (cw_world s) (cw_world s1)" "cu_turn P cfg peer c t i s1 = (s', Inl out)"
  thus "cu_moves P cfg peer (cw_world s) (cw_world (fst (s', out)))" by (auto dest: cu_turn_moves)
next
  fix c t i s1 s' c' t' i' a
  assume "cu_moves P cfg peer (cw_world s) (cw_world s1)" "cu_turn P cfg peer c t i s1 = (s', Inr (c', t', i', a))"
  thus "cu_moves P cfg peer (cw_world s) (cw_world s')" by (auto dest: cu_turn_moves)
qed auto

text \<open>A run either never enters the loop, and then only counts refusals, or is one run of the loop.\<close>

lemma cu_run_cases:
  assumes "cu_run_ahead P peer cfg s = Some (s', out)"
  obtains (skip) "s' = s" "out = cu_make CuSkipped ''not_ahead'' (cup_height P (cw_world s)) (cu_height peer) 0"
  | (refuse) r where "r \<noteq> ''''" "s' = cu_bump r s" "out = cu_refused r (cup_height P (cw_world s)) (cu_height peer)"
  | (loop) x where "cu_loop P cfg peer (cu_start (cup_height P (cw_world s)) (cu_height peer) (cup_needs_genesis P (cw_world s)))
        (cu_height peer) 0 s = Some (s', x)"
      "x = Some out \<or> x = None \<and> out = cu_make CuError ''path_a_exception'' (cup_height P (cw_world s')) (cu_height peer) 0"
proof -
  obtain x where inner: "cu_run_inner P peer cfg s = Some (s', x)"
      "x = Some out \<or> x = None \<and> out = cu_make CuError ''path_a_exception'' (cup_height P (cw_world s')) (cu_height peer) 0"
    using assms by (auto simp: cu_run_ahead_def split: option.splits)
  show thesis
    using inner that by (auto simp: cu_run_inner_def Let_def split: if_splits)
qed

section \<open>What a complete outcome means\<close>

lemma cu_import_batch_error:
  "cu_import_batch P cfg peer t bs c s = (s', Inl out) \<Longrightarrow> co_status out = CuError"
  by (induction P cfg peer t bs c s arbitrary: s' out rule: cu_import_batch.induct)
    (auto simp: cu_make_def split: option.splits cu_import.splits prod.splits)

lemma cu_turn_exit:
  assumes "cu_turn P cfg peer c t i s = (s', Inl (Some out))"
  shows "co_status out \<noteq> CuComplete"
  using assms
  by (auto simp: cu_turn_def Let_def cu_make_def dest: cu_import_batch_error split: prod.splits cu_fetch.splits if_splits sum.splits)

definition caught_up :: "'w cu_ports \<Rightarrow> cu_config \<Rightarrow> cu_peer \<Rightarrow> 'w \<Rightarrow> bool" where
  "caught_up P cfg peer w \<longleftrightarrow>
     cu_height peer \<le> cup_height P w \<and>
     (cc_tip_head_bind cfg \<and> cup_height P w = cu_height peer \<and> 0 < cu_height peer \<longrightarrow>
      norm_hash (cup_head P w) = '''' \<or> norm_hash (cu_head peer) = '''' \<or> norm_hash (cup_head P w) = norm_hash (cu_head peer))"

lemma cu_finish_complete:
  assumes "cu_finish P cfg peer i s = (s', Some out)" "co_status out = CuComplete"
  shows "caught_up P cfg peer (cw_world s') \<and> co_local out = cup_height P (cw_world s')"
  using assms
  by (auto simp: cu_finish_def Let_def caught_up_def cu_make_def cu_tip_at_height_refuse_def cu_tip_head_refuse_def norm_hash_def
      split: if_splits)

lemma cu_loop_complete:
  assumes "cu_loop P cfg peer c t i s = Some r"
  shows "\<forall>out. snd r = Some out \<longrightarrow> co_status out = CuComplete \<longrightarrow>
    caught_up P cfg peer (cw_world (fst r)) \<and> co_local out = cup_height P (cw_world (fst r))"
proof (rule cu_loop_rule [OF assms, where I = "\<lambda>_ _ _ _. True"])
  fix c t i s s' out
  assume "cu_turn P cfg peer c t i s = (s', Inl out)"
  thus "\<forall>out'. snd (s', out) = Some out' \<longrightarrow> co_status out' = CuComplete \<longrightarrow>
      caught_up P cfg peer (cw_world (fst (s', out))) \<and> co_local out' = cup_height P (cw_world (fst (s', out)))"
    using cu_turn_exit by fastforce
next
  fix t c i and s :: "'a cu_state"
  show "\<forall>out. snd (cu_finish P cfg peer i s) = Some out \<longrightarrow> co_status out = CuComplete \<longrightarrow>
      caught_up P cfg peer (cw_world (fst (cu_finish P cfg peer i s))) \<and>
      co_local out = cup_height P (cw_world (fst (cu_finish P cfg peer i s)))"
    using cu_finish_complete [of P cfg peer i s] by (cases "cu_finish P cfg peer i s") simp
qed simp_all

text \<open>What an outcome reports, on every exit of the loop.\<close>

definition cu_outcome_ok :: "'w cu_ports \<Rightarrow> cu_peer \<Rightarrow> 'w \<Rightarrow> cu_outcome \<Rightarrow> bool" where
  "cu_outcome_ok P peer w out \<longleftrightarrow> co_local out = cup_height P w \<and> co_target out = cu_height peer \<and> 0 \<le> co_imported out \<and>
     (co_reached out \<longleftrightarrow> co_status out = CuComplete) \<and> (co_status out \<in> {CuSkipped, CuRefused} \<longrightarrow> co_imported out = 0)"

lemma cu_outcome_ok_make:
  "cu_outcome_ok P peer w (cu_make st r h t i) \<longleftrightarrow>
     h = cup_height P w \<and> t = cu_height peer \<and> 0 \<le> i \<and> (st \<in> {CuSkipped, CuRefused} \<longrightarrow> i = 0)"
  by (simp add: cu_outcome_ok_def cu_make_def)

lemma cu_make_status [simp]: "co_status (cu_make st r h t i) = st"
  by (simp add: cu_make_def)

definition loop_out :: "'w cu_ports \<Rightarrow> cu_peer \<Rightarrow> 'w \<Rightarrow> cu_outcome \<Rightarrow> bool" where
  "loop_out P peer w out \<longleftrightarrow> cu_outcome_ok P peer w out \<and> co_status out \<in> {CuStalled, CuIncomplete, CuComplete, CuError}"

lemma cu_import_batch_outcome:
  "cu_import_batch P cfg peer (cu_height peer) bs c s = (s', r) \<Longrightarrow> 0 \<le> cr_imported c \<Longrightarrow>
   (case r of Inl out \<Rightarrow> loop_out P peer (cw_world s') out | Inr c' \<Rightarrow> 0 \<le> cr_imported c')"
  by (induction P cfg peer "cu_height peer" bs c s arbitrary: s' r rule: cu_import_batch.induct)
    (auto simp: loop_out_def cu_outcome_ok_make split: option.splits cu_import.splits prod.splits)

lemma cu_turn_outcome:
  assumes "cu_turn P cfg peer c (cu_height peer) i s = (s', r)" "0 \<le> i"
  shows "case r of Inl x \<Rightarrow> \<forall>out. x = Some out \<longrightarrow> loop_out P peer (cw_world s') out
    | Inr (c', t', i', a) \<Rightarrow> t' = cu_height peer \<and> 0 \<le> i'"
proof -
  let ?e = "min (c + max 1 (cc_batch_size cfg) - 1) (cu_height peer)"
  obtain w1 ans where f: "cup_fetch P (cu_id peer) c ?e (cup_expected_parent P (cw_world s) c) (cw_world s) = (w1, ans)" by fastforce
  let ?s1 = "s\<lparr>cw_world := w1\<rparr>" and ?k = "\<lparr>cr_current = c, cr_imported = i, cr_any = False, cr_abort = False\<rparr>"
  obtain s2 x where b: "cu_import_batch P cfg peer (cu_height peer) (case ans of Blocks bs \<Rightarrow> bs | _ \<Rightarrow> []) ?k ?s1 = (s2, x)" by fastforce
  note out = cu_import_batch_outcome [OF b]
  show ?thesis
    using assms f b out
    by (cases ans; cases x) (auto simp: cu_turn_def Let_def loop_out_def cu_outcome_ok_make split: if_splits)
qed

lemma cu_loop_outcome:
  assumes "cu_loop P cfg peer c (cu_height peer) 0 s = Some r"
  shows "\<forall>out. snd r = Some out \<longrightarrow> loop_out P peer (cw_world (fst r)) out"
proof (rule cu_loop_rule [OF assms, where I = "\<lambda>_ t i _. t = cu_height peer \<and> 0 \<le> i"])
    fix c t i :: int and s s' :: "'a cu_state" and x
    assume "t = cu_height peer \<and> 0 \<le> i" "cu_turn P cfg peer c t i s = (s', Inl x)"
    thus "\<forall>out. snd (s', x) = Some out \<longrightarrow> loop_out P peer (cw_world (fst (s', x))) out"
      using cu_turn_outcome [of P cfg peer c i s s' "Inl x"] by simp
  next
    fix c t i c' t' i' :: int and s s' :: "'a cu_state" and a
    assume "t = cu_height peer \<and> 0 \<le> i" "cu_turn P cfg peer c t i s = (s', Inr (c', t', i', a))"
    thus "t' = cu_height peer \<and> 0 \<le> i'" using cu_turn_outcome [of P cfg peer c i s s' "Inr (c', t', i', a)"] by simp
  next
    fix c t i :: int and s :: "'a cu_state"
    assume "t = cu_height peer \<and> 0 \<le> i"
    thus "\<forall>out. snd (cu_finish P cfg peer i s) = Some out \<longrightarrow> loop_out P peer (cw_world (fst (cu_finish P cfg peer i s))) out"
      by (simp add: cu_finish_def Let_def loop_out_def cu_outcome_ok_make)
qed simp

section \<open>A run returns\<close>

text \<open>What the loop needs of the chain: \<open>inv\<close> is the chain's own invariant.\<close>

locale chain_port =
  fixes P :: "'w cu_ports" and inv :: "'w \<Rightarrow> bool"
  assumes height_nonneg: "inv w \<Longrightarrow> 0 \<le> cup_height P w"
    and fetch_keeps: "inv w \<Longrightarrow> cup_fetch P p a e q w = (w', r) \<Longrightarrow>
      inv w' \<and> cup_height P w' = cup_height P w \<and> cup_needs_genesis P w' = cup_needs_genesis P w"
    and note_keeps: "inv w \<Longrightarrow> inv (cup_note_fail P p w) \<and> cup_height P (cup_note_fail P p w) = cup_height P w \<and>
      cup_head P (cup_note_fail P p w) = cup_head P w \<and> cup_needs_genesis P (cup_note_fail P p w) = cup_needs_genesis P w"
    and fresh: "inv w \<Longrightarrow> cup_needs_genesis P w \<Longrightarrow> cup_height P w = 0"
    and import_law: "inv w \<Longrightarrow> cu_raw_height b None = Some j \<Longrightarrow> to_int j = Some n \<Longrightarrow>
      n \<noteq> 0 \<or> cup_needs_genesis P w \<Longrightarrow> cup_import P b w = (w', res) \<Longrightarrow>
      res = Some True \<and> inv w' \<and> cup_height P w' = n \<or> res \<noteq> Some True \<and> w' = w"
    and ancestor_nonneg: "inv w \<Longrightarrow> cup_find_ancestor P w h = Some a \<Longrightarrow> 0 \<le> a"
    and ancestor_head: "inv w \<Longrightarrow> h \<noteq> '''' \<Longrightarrow> cup_find_ancestor P w h = Some a \<Longrightarrow>
      norm_hash h = norm_hash (cup_head P w) \<Longrightarrow> a = cup_height P w"
    and headless: "inv w \<Longrightarrow> norm_hash (cup_head P w) = '''' \<Longrightarrow> cup_height P w = 0"

text \<open>The cursor is the next height, or the genesis of an empty chain.\<close>

definition cursor_at :: "'w cu_ports \<Rightarrow> int \<Rightarrow> 'w \<Rightarrow> bool" where
  "cursor_at P c w \<longleftrightarrow> c = cup_height P w + 1 \<or> c = 0 \<and> cup_needs_genesis P w \<and> cup_height P w = 0"

definition numbered :: "cu_block \<Rightarrow> bool" where
  "numbered b \<longleftrightarrow> (case Option.bind (cu_raw_height b None) to_int of None \<Rightarrow> False | Some n \<Rightarrow> 0 \<le> n)"

lemma numbered_obtain:
  assumes "numbered b"
  obtains j n where "cu_raw_height b None = Some j" "to_int j = Some n" "0 \<le> n" "\<And>x. cu_block_height b x = n"
proof -
  obtain j n where 1: "cu_raw_height b None = Some j" "to_int j = Some n" "0 \<le> n"
    using assms by (auto simp: numbered_def bind_eq_Some_conv split: option.splits)
  hence "cu_block_height b x = n" for x
    by (auto simp: cu_raw_height_def cu_block_height_def split: option.splits)
  thus thesis using that 1 by blast
qed

definition serves_numbered :: "'w cu_ports \<Rightarrow> cu_peer \<Rightarrow> bool" where
  "serves_numbered P peer \<longleftrightarrow> (\<forall>n m p w bs b. snd (cup_fetch P (cu_id peer) n m p w) = Blocks bs \<longrightarrow> Some b \<in> set bs \<longrightarrow> numbered b)"

context chain_port
begin

lemma tip_body_accepted:
  assumes "cu_tip_body_refuse P cfg peer b c w = ''''" "cc_height_continuity_bind cfg" "cc_contiguous_parent_bind cfg"
    "inv w" "cursor_at P c w" "cu_raw_height b None = Some j" "to_int j = Some n" "0 \<le> n" "\<And>x. cu_block_height b x = n"
  shows "n = c" "n \<noteq> 0 \<or> cup_needs_genesis P w"
    "\<lbrakk>inv w'; cup_height P w' = cup_height P w; cup_head P w' = cup_head P w; py_strip (text_or (cb_parent b) '''') \<noteq> '''';
      cup_find_ancestor P w' (py_strip (text_or (cb_parent b) '''')) = Some a\<rbrakk> \<Longrightarrow> cup_height P w' \<le> a"
proof -
  have h: "0 \<le> cup_height P w" by (rule height_nonneg [OF assms(4)])
  have c0: "0 \<le> c" using assms(5) h by (auto simp: cursor_at_def)
  have cont: "cu_continuity_refuse b c True = ''''" using assms(1,2) by (simp add: cu_tip_body_refuse_def Let_def split: if_splits)
  show n: "n = c" using cont assms(6-8) c0 by (auto simp: cu_continuity_refuse_def split: if_splits)
  show "n \<noteq> 0 \<or> cup_needs_genesis P w" using n assms(5) h by (auto simp: cursor_at_def)
  let ?p = "py_strip (text_or (cb_parent b) '''')"
  assume w': "inv w'" "cup_height P w' = cup_height P w" "cup_head P w' = cup_head P w"
    and p: "?p \<noteq> ''''" and a: "cup_find_ancestor P w' ?p = Some a"
  show "cup_height P w' \<le> a"
  proof (cases "c = cup_height P w + 1")
    case True
    have "cu_contiguous_refuse b (cup_head P w) True = ''''"
      using assms(1,3) assms(9) n True h by (auto simp: cu_tip_body_refuse_def Let_def split: if_splits)
    hence "norm_hash (cup_head P w) = '''' \<or> norm_hash ?p = norm_hash (cup_head P w)"
      using p by (auto simp: cu_contiguous_refuse_def Let_def norm_hash_def split: if_splits)
    thus ?thesis using headless [OF w'(1)] ancestor_head [OF w'(1) p a] ancestor_nonneg [OF w'(1) a] w'(3) by auto
  next
    case False
    thus ?thesis using assms(5) ancestor_nonneg [OF w'(1) a] w'(2) by (simp add: cursor_at_def)
  qed
qed

lemma import_one_advances:
  assumes "cu_import_one P cfg peer b c s = (s', r)" "numbered b" "cc_height_continuity_bind cfg" "cc_contiguous_parent_bind cfg"
    "inv (cw_world s)" "cursor_at P c (cw_world s)"
  shows "r = Some ImOk \<and> inv (cw_world s') \<and> cup_height P (cw_world s') = c \<and> cu_block_height b c = c
    \<or> r \<noteq> Some ImOk \<and> r \<noteq> Some ImReorg \<and> inv (cw_world s') \<and> cup_height P (cw_world s') = cup_height P (cw_world s) \<and>
      cup_needs_genesis P (cw_world s') = cup_needs_genesis P (cw_world s)"
proof (cases "cu_tip_body_refuse P cfg peer b c (cw_world s) = ''''")
  case False
  thus ?thesis using assms(1,5) by (auto simp: cu_import_one_def)
next
  case True
  obtain j n where b: "cu_raw_height b None = Some j" "to_int j = Some n" "0 \<le> n" "\<And>x. cu_block_height b x = n"
    using numbered_obtain [OF assms(2)] by metis
  note acc = tip_body_accepted [OF True assms(3-6) b]
  obtain w1 res where imp: "cup_import P b (cw_world s) = (w1, res)" by fastforce
  have law: "res = Some True \<and> inv w1 \<and> cup_height P w1 = n \<or> res \<noteq> Some True \<and> w1 = cw_world s"
    by (rule import_law [OF assms(5) b(1,2) acc(2) imp])
  show ?thesis
  proof (cases "res = Some True")
    case ok: True
    thus ?thesis using assms(1) True imp law acc(1) b(4) by (auto simp: cu_import_one_def Let_def)
  next
    case False
    hence w1: "w1 = cw_world s" using law by blast
    let ?p = "py_strip (text_or (cb_parent b) '''')" and ?w2 = "cup_note_fail P (cu_id peer) (cw_world s)"
    note keeps = note_keeps [OF assms(5), of "cu_id peer"]
    have anc: "\<not> a < cup_height P ?w2" if "(if ?p = '''' then None else cup_find_ancestor P ?w2 ?p) = Some a" for a
      using that acc(3) [of ?w2 a] keeps by (auto split: if_splits)
    have "r \<noteq> Some ImOk \<and> r \<noteq> Some ImReorg \<and> (cw_world s' = cw_world s \<or> cw_world s' = ?w2)"
    proof (cases res)
      case None
      thus ?thesis using assms(1) True imp w1 by (auto simp: cu_import_one_def Let_def)
    next
      case (Some y)
      hence y: "y = False" using False by simp
      show ?thesis
      proof (cases "if ?p = '''' then None else cup_find_ancestor P ?w2 ?p")
        case None
        thus ?thesis using assms(1) True imp w1 y Some by (auto simp: cu_import_one_def Let_def)
      next
        case anc': (Some a)
        thus ?thesis using assms(1) True imp w1 y Some anc [OF anc'] by (auto simp: cu_import_one_def Let_def)
      qed
    qed
    thus ?thesis using keeps assms(5) by auto
  qed
qed

lemma import_batch_advances:
  "cu_import_batch P cfg peer t bs k s = (s', r) \<Longrightarrow> \<forall>b. Some b \<in> set bs \<longrightarrow> numbered b \<Longrightarrow>
   cc_height_continuity_bind cfg \<Longrightarrow> cc_contiguous_parent_bind cfg \<Longrightarrow> inv (cw_world s) \<Longrightarrow> cursor_at P (cr_current k) (cw_world s) \<Longrightarrow>
   inv (cw_world s') \<and> cup_height P (cw_world s) \<le> cup_height P (cw_world s') \<and>
   (\<forall>k'. r = Inr k' \<longrightarrow> cursor_at P (cr_current k') (cw_world s') \<and> cr_current k \<le> cr_current k' \<and>
      (cr_any k' \<longrightarrow> cr_any k \<or> cr_current k < cr_current k'))"
proof (induction bs arbitrary: k s)
  case Nil
  thus ?case by auto
next
  case (Cons e bs)
  show ?case
  proof (cases e)
    case None
    thus ?thesis using Cons.prems by auto
  next
    case (Some b)
  obtain s1 x where one: "cu_import_one P cfg peer b (cr_current k) s = (s1, x)" by fastforce
  note run = Cons.prems(1) [unfolded Some]
  have nb: "numbered b" using Cons.prems(2) Some by simp
  have h: "0 \<le> cup_height P (cw_world s)" by (rule height_nonneg [OF Cons.prems(5)])
  consider (ok) "x = Some ImOk" "inv (cw_world s1)" "cup_height P (cw_world s1) = cr_current k"
      "cu_block_height b (cr_current k) = cr_current k"
    | (stop) "x \<noteq> Some ImOk" "x \<noteq> Some ImReorg" "inv (cw_world s1)" "cup_height P (cw_world s1) = cup_height P (cw_world s)"
        "cup_needs_genesis P (cw_world s1) = cup_needs_genesis P (cw_world s)"
    using import_one_advances [OF one nb Cons.prems(3-6)] by blast
  thus ?thesis
  proof cases
    case ok
    let ?k = "k\<lparr>cr_current := cr_current k + 1, cr_imported := cr_imported k + 1, cr_any := True\<rparr>"
    have rest: "cu_import_batch P cfg peer t bs ?k s1 = (s', r)" using run one ok by simp
    have cur: "cursor_at P (cr_current ?k) (cw_world s1)" using ok(3) by (simp add: cursor_at_def)
    have le: "cup_height P (cw_world s) \<le> cup_height P (cw_world s1)" using Cons.prems(6) ok(3) by (auto simp: cursor_at_def)
    have "inv (cw_world s') \<and> cup_height P (cw_world s1) \<le> cup_height P (cw_world s') \<and>
       (\<forall>k'. r = Inr k' \<longrightarrow> cursor_at P (cr_current k') (cw_world s') \<and> cr_current ?k \<le> cr_current k' \<and>
          (cr_any k' \<longrightarrow> cr_any ?k \<or> cr_current ?k < cr_current k'))"
      using Cons.IH [OF rest _ Cons.prems(3,4) ok(2) cur] Cons.prems(2) by simp
    thus ?thesis using le by auto
  next
    case stop
    have "s' = s1 \<and> (\<forall>k'. r = Inr k' \<longrightarrow> cr_current k' = cr_current k \<and> cr_any k' = cr_any k)"
    proof -
      have "x = None \<or> x = Some ImRefuse \<or> x = Some ImFail" using stop(1,2) by (metis cu_import.exhaust option.exhaust)
      thus ?thesis using run one by (elim disjE) auto
    qed
    moreover have "cursor_at P (cr_current k) (cw_world s1)" using Cons.prems(6) stop(4,5) by (simp add: cursor_at_def)
    ultimately show ?thesis using stop(3,4) by (metis order_refl)
  qed
  qed
qed

lemma turn_advances:
  assumes "cu_turn P cfg peer c t i s = (s', r)" "cc_height_continuity_bind cfg" "cc_contiguous_parent_bind cfg"
    "inv (cw_world s)" "cursor_at P c (cw_world s)"
    and served: "serves_numbered P peer"
  shows "inv (cw_world s') \<and> cup_height P (cw_world s) \<le> cup_height P (cw_world s') \<and>
    (\<forall>c' t' i' a. r = Inr (c', t', i', a) \<longrightarrow> cursor_at P c' (cw_world s') \<and> c < c' \<and> t' = max t (cu_height peer))"
proof -
  let ?e = "min (c + max 1 (cc_batch_size cfg) - 1) t"
  obtain w1 ans where f: "cup_fetch P (cu_id peer) c ?e (cup_expected_parent P (cw_world s) c) (cw_world s) = (w1, ans)" by fastforce
  note keeps = fetch_keeps [OF assms(4) f]
  have cur: "cursor_at P c w1" using assms(5) keeps by (simp add: cursor_at_def)
  let ?s1 = "s\<lparr>cw_world := w1\<rparr>" and ?k = "\<lparr>cr_current = c, cr_imported = i, cr_any = False, cr_abort = False\<rparr>"
  show ?thesis
  proof (cases "\<exists>bs. ans = Blocks bs \<and> bs \<noteq> []")
    case False
    hence "cw_world s' = w1 \<and> (\<exists>out. r = Inl out)" using assms(1) f by (auto simp: cu_turn_def Let_def split: cu_fetch.splits if_splits)
    thus ?thesis using keeps by auto
  next
    case True
    then obtain bs where bs: "ans = Blocks bs" "bs \<noteq> []" by blast
    obtain s2 x where b: "cu_import_batch P cfg peer t bs ?k ?s1 = (s2, x)" by fastforce
    have num: "\<forall>b. Some b \<in> set bs \<longrightarrow> numbered b" using served f bs unfolding serves_numbered_def by (metis snd_conv)
    have adv: "inv (cw_world s2) \<and> cup_height P w1 \<le> cup_height P (cw_world s2) \<and>
       (\<forall>k'. x = Inr k' \<longrightarrow> cursor_at P (cr_current k') (cw_world s2) \<and> c \<le> cr_current k' \<and> (cr_any k' \<longrightarrow> c < cr_current k'))"
      using import_batch_advances [OF b num assms(2,3)] keeps cur by simp
    show ?thesis
    proof (cases x)
      case (Inl out)
      thus ?thesis using assms(1) f bs b adv keeps by (auto simp: cu_turn_def Let_def)
    next
      case (Inr k')
      thus ?thesis using assms(1) f bs b adv keeps by (auto simp: cu_turn_def Let_def split: if_splits)
    qed
  qed
qed

lemma loop_returns:
  assumes "cc_height_continuity_bind cfg" "cc_contiguous_parent_bind cfg"
    and served: "serves_numbered P peer"
    and "inv (cw_world s)" "cursor_at P c (cw_world s)" "cu_height peer \<le> t"
  shows "\<exists>r. cu_loop P cfg peer c t i s = Some r \<and> inv (cw_world (fst r)) \<and>
    cup_height P (cw_world s) \<le> cup_height P (cw_world (fst r))"
proof -
  let ?I = "\<lambda>c t i s'. inv (cw_world s') \<and> cursor_at P c (cw_world s') \<and> cu_height peer \<le> t \<and>
     cup_height P (cw_world s) \<le> cup_height P (cw_world s')"
  have I0: "?I c t i s" using assms(4-6) by simp
  obtain r where r: "cu_loop P cfg peer c t i s = Some r"
  proof -
    have "\<exists>r. cu_loop P cfg peer c t i s = Some r"
    proof (rule cu_loop_total [where I = ?I, OF I0])
      fix c t i s1 s' c' t' i' a
      assume I: "?I c t i s1" and turn: "cu_turn P cfg peer c t i s1 = (s', Inr (c', t', i', a))"
      show "\<not> cup_running P (cw_world s') \<or> ?I c' t' i' s' \<and> t' - c' < t - c"
        using turn_advances [OF turn assms(1,2) _ _ served] I by fastforce
    qed
    thus thesis using that by blast
  qed
  have "inv (cw_world (fst r)) \<and> cup_height P (cw_world s) \<le> cup_height P (cw_world (fst r))"
  proof (rule cu_loop_rule [OF r, where I = ?I, OF I0])
    fix c t i s1 s' out
    assume I: "?I c t i s1" and turn: "cu_turn P cfg peer c t i s1 = (s', Inl out)"
    show "inv (cw_world (fst (s', out))) \<and> cup_height P (cw_world s) \<le> cup_height P (cw_world (fst (s', out)))"
      using turn_advances [OF turn assms(1,2) _ _ served] I by fastforce
  next
    fix c t i s1 s' c' t' i' a
    assume I: "?I c t i s1" and turn: "cu_turn P cfg peer c t i s1 = (s', Inr (c', t', i', a))"
    show "?I c' t' i' s'" using turn_advances [OF turn assms(1,2) _ _ served] I by fastforce
  qed auto
  thus ?thesis using r by blast
qed

lemma gates_or:
  "(if b1 then Some (f r1, Some q1) else if b2 then Some (f r2, Some q2) else if b3 then Some (f r3, Some q3) else L) = L \<or>
   (\<exists>x out. (if b1 then Some (f r1, Some q1) else if b2 then Some (f r2, Some q2) else if b3 then Some (f r3, Some q3) else L) =
     Some (f x, Some out))"
  by simp blast

lemma run_returns:
  assumes "cc_height_continuity_bind cfg" "cc_contiguous_parent_bind cfg"
    and served: "serves_numbered P peer"
    and "inv (cw_world s)"
  shows "\<exists>s' out. cu_run_ahead P peer cfg s = Some (s', out) \<and> inv (cw_world s') \<and>
    cup_height P (cw_world s) \<le> cup_height P (cw_world s')"
proof -
  let ?w = "cw_world s"
  have skip: ?thesis if "cu_run_inner P peer cfg s = Some (s', Some out)" "cw_world s' = ?w" for s' out
    using that assms(4) by (auto simp: cu_run_ahead_def)
  show ?thesis
  proof (cases "cu_height peer < cup_height P ?w \<or> cu_height peer = cup_height P ?w \<and> \<not> cup_needs_genesis P ?w \<or> cu_height peer < 0")
    case True
    thus ?thesis using skip [of s] by (simp add: cu_run_inner_def Let_def)
  next
    case False
    let ?c = "cu_start (cup_height P ?w) (cu_height peer) (cup_needs_genesis P ?w)"
    have "cursor_at P ?c ?w"
      using False fresh [OF assms(4)] height_nonneg [OF assms(4)] by (auto simp: cu_start_def cursor_at_def)
    obtain r where r: "cu_loop P cfg peer ?c (cu_height peer) 0 s = Some r" "inv (cw_world (fst r))"
        "cup_height P ?w \<le> cup_height P (cw_world (fst r))"
      using loop_returns [where t = "cu_height peer" and i = 0, OF assms(1,2) served assms(4) \<open>cursor_at P ?c ?w\<close>] by auto
    have "cu_run_inner P peer cfg s = cu_loop P cfg peer ?c (cu_height peer) 0 s \<or>
        (\<exists>x out. cu_run_inner P peer cfg s = Some (cu_bump x s, Some out))"
      using False unfolding cu_run_inner_def Let_def by (simp only: if_False) (rule gates_or)
    thus ?thesis
    proof
      assume "cu_run_inner P peer cfg s = cu_loop P cfg peer ?c (cu_height peer) 0 s"
      thus ?thesis using r by (cases r; cases "snd r") (auto simp: cu_run_ahead_def)
    next
      assume "\<exists>x out. cu_run_inner P peer cfg s = Some (cu_bump x s, Some out)"
      thus ?thesis using skip by auto
    qed
  qed
qed

end

section \<open>The node's chain\<close>

lemma node_ports_simps [simp]:
  "cup_height (node_ports E) w = chain_tip (nw_chain w)" "cup_head (node_ports E) w = chain_head (nw_chain w)"
  "cup_needs_genesis (node_ports E) w = False" "cup_note_fail (node_ports E) p w = w"
  "cup_find_ancestor (node_ports E) w = find_ancestor_height genesis_hash (block_by_hash (nw_chain w))"
  "cup_import (node_ports E) = node_import E" "cup_reorg (node_ports E) = node_reorg E"
  "cup_running (node_ports E) = ne_running E"
  by (simp_all add: node_ports_def)

lemma node_fetch: "cup_fetch (node_ports E) p a e q w = (w', r) \<longleftrightarrow>
    (\<exists>n. ne_fetch E p a e q (nw_net w) = (n, r) \<and> w' = w\<lparr>nw_net := n\<rparr>)"
  by (auto simp: node_ports_def split: prod.splits)

lemma node_import_law:
  assumes "node_inv E w" "cu_raw_height b None = Some j" "to_int j = Some n" "n \<noteq> 0 \<or> nw_chain w = []"
    "node_import E b w = (w', res)"
  shows "res = Some True \<and> node_inv E w' \<and> chain_tip (nw_chain w') = n \<or> res \<noteq> Some True \<and> w' = w"
proof (cases "ne_gate E b w")
  case False
  thus ?thesis using assms(5) by (auto simp: node_import_def)
next
  case True
  obtain ch r where i: "import_block (ne_checks E) b (nw_chain w) = (ch, r)" by fastforce
  have "import_height b = Some n" using raw_import_height [OF assms(2)] assms(3) by simp
  hence "r = Some True \<and> chain_inv ch \<and> chain_tip ch = n \<or> r \<noteq> Some True \<and> ch = nw_chain w"
    using import_block_next [OF i _ assms(4)] assms(1) unfolding node_inv_def by blast
  moreover have "w' = w\<lparr>nw_chain := ch\<rparr>" "res = Some (r = Some True)" using assms(5) True i by (auto simp: node_import_def)
  ultimately show ?thesis using assms(1) by (auto simp: node_inv_def)
qed

interpretation node: chain_port "node_ports E" "node_inv E" for E :: "'n node_env"
proof
  fix w w' :: "'n node_world" and p a e q r b j n res
  assume inv: "node_inv E w"
  hence ch: "chain_inv (nw_chain w)" by (simp add: node_inv_def)
  show "0 \<le> cup_height (node_ports E) w" using chain_inv_tip [OF ch] by simp
  show "cup_needs_genesis (node_ports E) w \<Longrightarrow> cup_height (node_ports E) w = 0" by simp
  show "node_inv E (cup_note_fail (node_ports E) p w) \<and> cup_height (node_ports E) (cup_note_fail (node_ports E) p w) = cup_height (node_ports E) w \<and>
      cup_head (node_ports E) (cup_note_fail (node_ports E) p w) = cup_head (node_ports E) w \<and>
      cup_needs_genesis (node_ports E) (cup_note_fail (node_ports E) p w) = cup_needs_genesis (node_ports E) w"
    using inv by simp
  show "norm_hash (cup_head (node_ports E) w) = '''' \<Longrightarrow> cup_height (node_ports E) w = 0"
    using chain_inv_head [OF ch] chain_head_in [of "nw_chain w"] ch by (auto simp: chain_inv_def chain_tip_def)
  show "node_inv E w' \<and> cup_height (node_ports E) w' = cup_height (node_ports E) w \<and>
      cup_needs_genesis (node_ports E) w' = cup_needs_genesis (node_ports E) w"
    if "cup_fetch (node_ports E) p a e q w = (w', r)"
    using that inv by (auto simp: node_fetch node_inv_def)
  show "res = Some True \<and> node_inv E w' \<and> cup_height (node_ports E) w' = n \<or> res \<noteq> Some True \<and> w' = w"
    if "cu_raw_height b None = Some j" "to_int j = Some n" "n \<noteq> 0 \<or> cup_needs_genesis (node_ports E) w"
      "cup_import (node_ports E) b w = (w', res)"
    using node_import_law [OF inv that(1,2)] that(3,4) by simp
next
  fix w :: "'n node_world" and h a
  assume inv: "node_inv E w" and anc: "cup_find_ancestor (node_ports E) w h = Some a"
  have ch: "chain_inv (nw_chain w)" using inv by (simp add: node_inv_def)
  show "0 \<le> a" using find_ancestor_known(1) [OF ch] anc by simp
  show "h \<noteq> '''' \<Longrightarrow> norm_hash h = norm_hash (cup_head (node_ports E) w) \<Longrightarrow> a = cup_height (node_ports E) w"
    using find_ancestor_known(2) [OF ch] anc by simp
qed

section \<open>Bodies the gates let through\<close>

text \<open>A body with a negative height passes both binds, and cannot be imported.\<close>

lemma negative_body_accepted:
  assumes "cu_raw_height b None = Some j" "to_int j = Some n" "n < 0"
  shows "cu_tip_body_refuse P cfg peer b c w = ''''"
proof -
  have "cu_block_height b x = n" for x
    using assms(1,2) by (auto simp: cu_raw_height_def cu_block_height_def split: option.splits)
  thus ?thesis using assms by (simp add: cu_tip_body_refuse_def cu_continuity_refuse_def Let_def)
qed

lemma negative_body_not_imported:
  assumes "node_inv E w" "cu_raw_height b None = Some j" "to_int j = Some n" "n < 0"
  shows "node_import E b w = (w, Some False)"
proof -
  obtain w' res where i: "node_import E b w = (w', res)" by fastforce
  have "res \<noteq> Some True \<and> w' = w"
    using node_import_law [OF assms(1-3) _ i] assms(4) chain_inv_tip by (fastforce simp: node_inv_def)
  moreover have "res \<noteq> None" using i by (auto simp: node_import_def split: if_splits prod.splits)
  ultimately show ?thesis using i by (cases res) auto
qed

lemma negative_body_reorg:
  assumes "node_inv E (cw_world s)" "cu_raw_height b None = Some j" "to_int j = Some n" "n < 0"
    and known: "py_strip (text_or (cb_parent b) '''') = h" "h \<noteq> ''''" "h \<noteq> genesis_hash" "(a, h) \<in> set (nw_chain (cw_world s))"
    and below: "a < chain_tip (nw_chain (cw_world s))"
    and flr: "ne_floor E (cw_world s) \<le> a" "ne_replay E a (cw_world s)"
  shows "cu_import_one (node_ports E) cfg peer b c s =
    (s\<lparr>cw_world := (cw_world s)\<lparr>nw_chain := filter (\<lambda>(k, g). k \<le> a) (nw_chain (cw_world s))\<rparr>,
       cw_import_fails := cu_id peer # cw_import_fails s\<rparr>, Some ImReorg)"
proof -
  let ?w = "cw_world s"
  let ?ch = "nw_chain ?w"
  have ch: "chain_inv ?ch" using assms(1) by (simp add: node_inv_def)
  obtain m where m: "block_by_hash ?ch h = Some m"
    using known(4) by (cases "block_by_hash ?ch h") (auto simp: block_by_hash_def find_None_iff)
  hence "block_by_hash ?ch h = Some a" using by_hash_unique [OF ch known(4) m] by simp
  hence anc: "find_ancestor_height genesis_hash (block_by_hash ?ch) h = Some a" using known(2,3) by (simp add: find_ancestor_height_def)
  have ne: "?ch \<noteq> []" using known(4) by auto
  have tip: "Max (fst ` set ?ch) = chain_tip ?ch" using ne by (simp add: chain_tip_def)
  have re: "node_reorg E a ?w = (?w\<lparr>nw_chain := filter (\<lambda>(k, g). k \<le> a) ?ch\<rparr>, Some True)"
  proof -
    have "reorg_to_ancestor (ne_floor E ?w) (ne_replay E a ?w) a (map fst ?ch) = (filter (\<lambda>h. h \<le> a) (map fst ?ch), True)"
      using flr below tip ne by (simp add: reorg_to_ancestor_def Let_def)
    moreover have "filter (\<lambda>(k, g). k \<in> set (filter (\<lambda>h. h \<le> a) (map fst ?ch))) ?ch = filter (\<lambda>(k, g). k \<le> a) ?ch"
      by (rule filter_cong) (auto intro: rev_image_eqI)
    ultimately show ?thesis by (simp add: node_reorg_def)
  qed
  show ?thesis
    using negative_body_accepted [OF assms(2-4)] negative_body_not_imported [OF assms(1-4)] known(1,2) anc below re
    by (simp add: cu_import_one_def Let_def)
qed

end
