(* ===== verification/Catch_Up_Claims.thy ===== *)
theory Catch_Up_Claims
  imports Catch_Up_Props
begin

text \<open>The properties of the catch-up loop, over its ports and on the node's chain.\<close>

section \<open>A small node\<close>

text \<open>A chain of two blocks, and peers that serve one body per request, of the height asked for or lower.\<close>

definition body_of :: "int \<Rightarrow> string \<Rightarrow> string \<Rightarrow> cu_block" where
  "body_of n h p = \<lparr>cb_height = Some (Some (IntValue n)), cb_number = None, cb_hash = Some h, cb_block_hash = None,
     cb_parent = Some p, cb_alt_parent = None\<rparr>"

definition chain_hash :: "int \<Rightarrow> string" where
  "chain_hash n = replicate (nat n + 1) (CHR ''a'')"

definition honest_body :: "int \<Rightarrow> cu_block" where
  "honest_body n = body_of n (chain_hash n) (if n = 0 then genesis_hash else chain_hash (n - 1))"

definition small_checks :: import_checks where
  "small_checks = \<lparr>ic_validate = \<lambda>_ _. Some True, ic_digest = \<lambda>b. case cb_hash b of Some h \<Rightarrow> if norm_hash h = genesis_hash then '''' else h | None \<Rightarrow> '''',
     ic_apply = \<lambda>_ _. True\<rparr>"

definition small_env :: "(int \<Rightarrow> cu_block) \<Rightarrow> unit node_env" where
  "small_env serve = \<lparr>ne_checks = small_checks, ne_gate = \<lambda>_ _. True, ne_fetch = \<lambda>_ n _ _ w. (w, Blocks [Some (serve n)]),
     ne_running = \<lambda>_. True, ne_floor = \<lambda>_. 0, ne_replay = \<lambda>_ _. True, ne_tip_probe = \<lambda>_ _. '''', ne_head_probe = \<lambda>_ _. ''''\<rparr>"

definition small_state :: "unit node_world cu_state" where
  "small_state = \<lparr>cw_world = \<lparr>nw_chain = [(0, ''a''), (1, ''aa'')], nw_net = ()\<rparr>, cw_refuses = [], cw_import_fails = [], cw_peer_heights = []\<rparr>"

lemma small_env_inv:
  "(\<forall>b. norm_hash (ic_digest small_checks b) \<noteq> genesis_hash)"
  "norm_hash ''a'' = ''a''" "norm_hash ''aa'' = ''aa''" "''a'' \<noteq> genesis_hash" "''aa'' \<noteq> genesis_hash"
  by (auto simp: small_checks_def genesis_hash_def Cons_replicate_eq norm_hash_def py_strip_def py_lower_def lower_char_def py_space_def of_char_def split: option.splits)

lemma small_node_inv: "node_inv (small_env serve) (cw_world small_state)"
  using small_env_inv by (simp add: node_inv_def chain_inv_def small_env_def small_state_def)

lemma small_serves: "(\<And>n. numbered (serve n)) \<Longrightarrow> serves_numbered (node_ports (small_env serve)) peer"
  by (auto simp: serves_numbered_def node_ports_def small_env_def)

lemma small_run:
  "cu_run_ahead (node_ports (small_env honest_body)) (mk_cu_peer ''p'' 2 ''aaa'') default_cu_config small_state =
   Some (\<lparr>cw_world = \<lparr>nw_chain = [(0, ''a''), (1, ''aa''), (2, ''aaa'')], nw_net = ()\<rparr>, cw_refuses = [], cw_import_fails = [],
           cw_peer_heights = [(''p'', 2)]\<rparr>, cu_make CuComplete ''ok'' 2 2 1)"
  by code_simp

text \<open>A peer that answers every request above height 1 with a body of height \<open>-1\<close> on the genesis block.\<close>

definition evil_body :: "int \<Rightarrow> cu_block" where
  "evil_body n = (if n \<le> 1 then honest_body n else body_of (-1) ''b'' ''a'')"

definition evil_state :: "chain \<Rightarrow> string list \<Rightarrow> string list \<Rightarrow> (string \<times> int) list \<Rightarrow> unit node_world cu_state" where
  "evil_state ch r f p = \<lparr>cw_world = \<lparr>nw_chain = ch, nw_net = ()\<rparr>, cw_refuses = r, cw_import_fails = f, cw_peer_heights = p\<rparr>"

lemma evil_turn_back:
  "cu_turn (node_ports (small_env evil_body)) default_cu_config (mk_cu_peer ''p'' 2 ''aaa'') 2 2 i (evil_state [(0, ''a''), (1, ''aa'')] r f p) =
   (evil_state [(0, ''a'')] r (''p'' # f) ((''p'', 2) # p), Inr (1, 2, i, True))"
  by code_simp

lemma evil_turn_forth:
  "cu_turn (node_ports (small_env evil_body)) default_cu_config (mk_cu_peer ''p'' 2 ''aaa'') 1 2 i (evil_state [(0, ''a'')] r f p) =
   (evil_state [(0, ''a''), (1, ''aa'')] r f ((''p'', 2) # p), Inr (2, 2, i + 1, False))"
  by code_simp

lemma evil_inner:
  "cu_run_inner (node_ports (small_env evil_body)) (mk_cu_peer ''p'' 2 ''aaa'') default_cu_config small_state =
   cu_loop (node_ports (small_env evil_body)) default_cu_config (mk_cu_peer ''p'' 2 ''aaa'') 2 2 0
     (evil_state [(0, ''a''), (1, ''aa'')] [] [] [])"
proof -
  have tip: "chain_tip [(0, ''a''), (1, ''aa'')] = 1" by (simp add: chain_tip_def)
  have head: "py_strip ''aaa'' = ''aaa''" by (simp add: py_strip_def py_space_def of_char_def)
  show ?thesis
    by (simp add: cu_run_inner_def Let_def small_state_def evil_state_def tip head mk_cu_peer_def default_cu_config_def
        cu_ahead_refuse_def cu_start_def small_env_def node_ports_def block_by_hash_def)
qed

section \<open>Claims\<close>

text \<open>
  C24. The catch-up run returns. The loop has no bound of its own; with the height and parent binds on, against
  a peer whose bodies carry a non-negative height (what the wire check of a blocks response demands), it always
  ends with an outcome, and it never lowers the tip: the branch that rolls the chain back is not taken.
\<close>

theorem catch_up_returns:
  assumes "node_inv E (cw_world s)" "serves_numbered (node_ports E) peer"
    and "cc_height_continuity_bind cfg" "cc_contiguous_parent_bind cfg"
  shows "\<exists>s' out. cu_run_ahead (node_ports E) peer cfg s = Some (s', out) \<and> node_inv E (cw_world s') \<and>
    chain_tip (nw_chain (cw_world s)) \<le> chain_tip (nw_chain (cw_world s'))"
  using node.run_returns [OF assms(3,4,2,1)] by simp

theorem catch_up_returns_witness:
  "\<exists>s' out. cu_run_ahead (node_ports (small_env (\<lambda>n. honest_body \<bar>n\<bar>))) (mk_cu_peer ''p'' 3 ''aaaa'') default_cu_config small_state = Some (s', out)
     \<and> node_inv (small_env (\<lambda>n. honest_body \<bar>n\<bar>)) (cw_world s') \<and> 1 \<le> chain_tip (nw_chain (cw_world s'))"
proof -
  let ?E = "small_env (\<lambda>n. honest_body \<bar>n\<bar>)"
  have "numbered (honest_body \<bar>n\<bar>)" for n by (simp add: numbered_def honest_body_def body_of_def cu_raw_height_def)
  hence "serves_numbered (node_ports ?E) (mk_cu_peer ''p'' 3 ''aaaa'')" by (rule small_serves)
  from catch_up_returns [OF small_node_inv this, of default_cu_config]
  show ?thesis by (simp add: default_cu_config_def small_state_def chain_tip_def)
qed

text \<open>
  A run moves only behind its gates. Whatever ports it works on, if it returns, its world changed by
  fetches, by imports of bodies that passed the height, parent and tip binds on the world as it then was,
  and by reorgs to a known ancestor below the tip; a run that skips or refuses changed nothing.
\<close>

theorem catch_up_moves_gated:
  assumes "cu_run_ahead P peer cfg s = Some (s', out)"
  shows "cu_moves P cfg peer (cw_world s) (cw_world s') \<and>
    (cw_world s' \<noteq> cw_world s \<longrightarrow> co_status out \<in> {CuStalled, CuIncomplete, CuComplete, CuError})"
proof (rule cu_run_cases [OF assms])
  fix x
  assume l: "cu_loop P cfg peer (cu_start (cup_height P (cw_world s)) (cu_height peer) (cup_needs_genesis P (cw_world s)))
      (cu_height peer) 0 s = Some (s', x)" and x: "x = Some out \<or> x = None \<and> out = cu_make CuError ''path_a_exception'' (cup_height P (cw_world s')) (cu_height peer) 0"
  show ?thesis using cu_loop_moves [OF l] cu_loop_outcome [OF l] x by (auto simp: loop_out_def)
qed auto

theorem catch_up_moves_gated_witness:
  "cu_moves (node_ports (small_env honest_body)) default_cu_config (mk_cu_peer ''p'' 2 ''aaa'')
     \<lparr>nw_chain = [(0, ''a''), (1, ''aa'')], nw_net = ()\<rparr> \<lparr>nw_chain = [(0, ''a''), (1, ''aa''), (2, ''aaa'')], nw_net = ()\<rparr>"
  using catch_up_moves_gated [OF small_run] by (simp add: small_state_def)

text \<open>
  What an outcome says is true of the chain it leaves. The height it reports is the tip at return, the target
  is the peer's height, the count is not negative, the reached flag is set exactly for COMPLETE, and a
  skipped or refused run imported nothing.
\<close>

theorem outcome_well_formed:
  assumes "cu_run_ahead P peer cfg s = Some (s', out)"
  shows "cu_outcome_ok P peer (cw_world s') out"
proof (rule cu_run_cases [OF assms])
  fix x
  assume l: "cu_loop P cfg peer (cu_start (cup_height P (cw_world s)) (cu_height peer) (cup_needs_genesis P (cw_world s)))
      (cu_height peer) 0 s = Some (s', x)"
    and x: "x = Some out \<or> x = None \<and> out = cu_make CuError ''path_a_exception'' (cup_height P (cw_world s')) (cu_height peer) 0"
  show ?thesis using cu_loop_outcome [OF l] x by (auto simp: loop_out_def cu_outcome_ok_make)
qed (simp_all add: cu_outcome_ok_make cu_refused_def)

theorem outcome_well_formed_witness:
  "cu_outcome_ok (node_ports (small_env honest_body)) (mk_cu_peer ''p'' 2 ''aaa'')
     \<lparr>nw_chain = [(0, ''a''), (1, ''aa''), (2, ''aaa'')], nw_net = ()\<rparr> (cu_make CuComplete ''ok'' 2 2 1)"
  using outcome_well_formed [OF small_run] by simp

text \<open>
  What COMPLETE means. A run that reports COMPLETE ends with the tip at the peer's height or above; with the
  tip bind on, at the same positive height the two heads are the same text up to case and blanks, when both
  are known.
\<close>

theorem complete_means_caught_up:
  assumes "cu_run_ahead P peer cfg s = Some (s', out)" "cu_ok out"
  shows "cu_height peer \<le> cup_height P (cw_world s') \<and>
    (cc_tip_head_bind cfg \<and> cup_height P (cw_world s') = cu_height peer \<and> 0 < cu_height peer \<longrightarrow>
     norm_hash (cup_head P (cw_world s')) = '''' \<or> norm_hash (cu_head peer) = '''' \<or>
     norm_hash (cup_head P (cw_world s')) = norm_hash (cu_head peer))"
proof (rule cu_run_cases [OF assms(1)])
  fix x
  assume l: "cu_loop P cfg peer (cu_start (cup_height P (cw_world s)) (cu_height peer) (cup_needs_genesis P (cw_world s)))
      (cu_height peer) 0 s = Some (s', x)"
    and x: "x = Some out \<or> x = None \<and> out = cu_make CuError ''path_a_exception'' (cup_height P (cw_world s')) (cu_height peer) 0"
  show ?thesis using cu_loop_complete [OF l] x assms(2) by (auto simp: caught_up_def cu_ok_def)
qed (use assms(2) in \<open>simp_all add: cu_ok_def cu_refused_def\<close>)

theorem complete_means_caught_up_witness:
  "2 \<le> chain_tip [(0, ''a''), (1, ''aa''), (2, ''aaa'')]"
  using complete_means_caught_up [OF small_run] by (simp add: cu_ok_def mk_cu_peer_def)

text \<open>A negative height opens the way back. A body with a negative height passes the height, parent and tip binds
  whatever they are set to; its import fails, and when its parent is a stored block below the tip and above
  the finalized floor, the chain is truncated there.\<close>

theorem negative_body_truncates:
  assumes "node_inv E (cw_world s)" "cu_raw_height b None = Some j" "to_int j = Some n" "n < 0"
    and "py_strip (text_or (cb_parent b) '''') = h" "h \<noteq> ''''" "h \<noteq> genesis_hash" "(a, h) \<in> set (nw_chain (cw_world s))"
    and "a < chain_tip (nw_chain (cw_world s))" "ne_floor E (cw_world s) \<le> a" "ne_replay E a (cw_world s)"
  shows "snd (cu_import_one (node_ports E) cfg peer b c s) = Some ImReorg \<and>
    nw_chain (cw_world (fst (cu_import_one (node_ports E) cfg peer b c s))) = filter (\<lambda>(k, g). k \<le> a) (nw_chain (cw_world s))"
  by (simp add: negative_body_reorg [OF assms])

theorem negative_body_truncates_witness:
  "nw_chain (cw_world (fst (cu_import_one (node_ports (small_env honest_body)) default_cu_config (mk_cu_peer ''p'' 9 ''f'')
     (body_of (-1) ''b'' ''a'') 2 small_state))) = [(0, ''a'')]"
proof -
  let ?b = "body_of (-1) ''b'' ''a''"
  have b: "cu_raw_height ?b None = Some (IntValue (-1))" "to_int (IntValue (-1)) = Some (-1)" "py_strip (text_or (cb_parent ?b) '''') = ''a''"
    by (simp_all add: body_of_def cu_raw_height_def text_or_def py_strip_def py_space_def of_char_def)
  have "(0, ''a'') \<in> set (nw_chain (cw_world small_state))" "0 < chain_tip (nw_chain (cw_world small_state))"
      "ne_floor (small_env honest_body) (cw_world small_state) \<le> 0" "ne_replay (small_env honest_body) 0 (cw_world small_state)"
    by (simp_all add: small_state_def small_env_def chain_tip_def)
  from negative_body_truncates [OF small_node_inv b(1,2) _ b(3) _ small_env_inv(4) this]
  show ?thesis by (simp add: small_state_def)
qed

text \<open>
  Without heights a peer decides when the run ends. There is a chain of two blocks and a peer that serves the
  next block honestly and otherwise a body of height -1, against which a run with the default configuration
  never returns: each turn either truncates the chain by one block or imports it again.
\<close>

theorem negative_bodies_livelock:
  "cu_run_ahead (node_ports (small_env evil_body)) (mk_cu_peer ''p'' 2 ''aaa'') default_cu_config small_state = None"
proof (rule ccontr)
  let ?P = "node_ports (small_env evil_body)" and ?peer = "mk_cu_peer ''p'' 2 ''aaa''"
  let ?I = "\<lambda>c t (i :: int) s. t = (2 :: int) \<and> (\<exists>r f p. c = (2 :: int) \<and> s = evil_state [(0, ''a''), (1, ''aa'')] r f p \<or>
      c = 1 \<and> s = evil_state [(0, ''a'')] r f p)"
  assume "cu_run_ahead ?P ?peer default_cu_config small_state \<noteq> None"
  then obtain r where run: "cu_run_inner ?P ?peer default_cu_config small_state = Some r"
    by (auto simp: cu_run_ahead_def split: option.splits)
  have loop: "cu_loop ?P default_cu_config ?peer 2 2 0 (evil_state [(0, ''a''), (1, ''aa'')] [] [] []) = Some r"
    using run by (simp add: evil_inner)
  have "False"
  proof (rule cu_loop_rule [OF loop, where I = ?I and Q = "\<lambda>_. False"])
    show "?I 2 2 0 (evil_state [(0, ''a''), (1, ''aa'')] [] [] [])" by blast
  next
    fix c t i s s' out
    assume "?I c t i s" "cu_turn ?P default_cu_config ?peer c t i s = (s', Inl out)"
    thus False by (auto simp: evil_turn_back evil_turn_forth)
  next
    fix c t i s s' c' t' i' a
    assume "?I c t i s" "cu_turn ?P default_cu_config ?peer c t i s = (s', Inr (c', t', i', a))"
    thus "?I c' t' i' s'" by (auto simp: evil_turn_back evil_turn_forth) blast+
  next
    fix c t i s
    assume "?I c t i s" "\<not> cup_running ?P (cw_world s) \<or> t < c"
    thus False by (auto simp: small_env_def)
  qed
  thus False .
qed

text \<open>
  A block of height 0, or a body with neither height nor number, whose hash differs from the stored genesis
  replaces the whole chain: the table is truncated before any check of the body, and is empty or holds that
  block alone afterwards.
\<close>

theorem height_zero_import_wipes:
  assumes "import_height b = Some 0" "map_of ch 0 = Some g" "cb_hash b \<noteq> Some g"
  shows "fst (import_block K b ch) \<in> {[], [(0, first_text (cb_hash b) (cb_block_hash b))]}"
  using assms
  by (auto simp: import_block_def Let_def add_imported_def insert_block_def split: option.splits bool.splits prod.splits)

lemma keyless_body_accepted:
  "cb_height b = None \<Longrightarrow> cb_number b = None \<Longrightarrow> cu_tip_body_refuse P cfg peer b c w = '''' \<and> import_height b = Some 0"
  by (simp add: cu_tip_body_refuse_def cu_continuity_refuse_def cu_raw_height_def cu_block_height_def Let_def import_height_def)

end
