(* ===== verification/Engine_IO.thy ===== *)
theory Engine_IO
  imports Catch_Up_Props
begin

text \<open>
  \<open>sync/catchup/engine_io.py\<close>: the catch-up ports of \<open>SyncEngine.fast_sync\<close>. The download is one walk over
  parent hashes (\<open>SyncEngine.download_chain\<close>), filtered, sorted and checked as a chain before the first batch
  is served; the bodies then come from an index by height. What a hash resolves to (the local database, then
  the peers) is the parameter \<open>ee_lookup\<close>, whose answer \<open>None\<close> is an exception.
\<close>

section \<open>The walk\<close>

text \<open>\<open>SyncEngine._block_height\<close>: a height that is no number falls through to \<open>number\<close>, then to 0.\<close>

definition sync_height :: "cu_block \<Rightarrow> int" where
  "sync_height b =
     (let number = (case cb_number b of Some (Some j) \<Rightarrow> (case to_int j of Some n \<Rightarrow> n | None \<Rightarrow> 0) | _ \<Rightarrow> 0)
      in case cb_height b of Some (Some j) \<Rightarrow> (case to_int j of Some n \<Rightarrow> n | None \<Rightarrow> number) | _ \<Rightarrow> number)"

definition sync_parent :: "cu_block \<Rightarrow> string" where
  "sync_parent b = text_or (cb_parent b) (text_or (cb_alt_parent b) '''')"

text \<open>
  The loop of \<open>download_chain\<close>, with the chain newest last: the code appends and reverses at the end. The walk ends
  because the chain is cut after 10001 blocks.
\<close>

function download_walk ::
  "(string \<Rightarrow> cu_block option option) \<Rightarrow> int \<Rightarrow> string list \<Rightarrow> string \<Rightarrow> cu_block list \<Rightarrow> cu_block list option" where
  "download_walk look stop seen current chain =
     (if current = '''' \<or> current \<in> set seen \<or> 10000 < length chain then Some chain
      else (case look current of
              None \<Rightarrow> None
            | Some None \<Rightarrow> Some chain
            | Some (Some b) \<Rightarrow>
                if sync_height b \<le> stop then Some chain
                else download_walk look stop (current # seen) (sync_parent b) (b # chain)))"
  by pat_completeness auto
termination by (relation "measure (\<lambda>(look, stop, seen, current, chain). 10001 - length chain)") auto

declare download_walk.simps [simp del]

definition download_chain :: "(string \<Rightarrow> cu_block option option) \<Rightarrow> int \<Rightarrow> string \<Rightarrow> cu_block list option" where
  "download_chain look stop head = download_walk look stop [] head []"

section \<open>The chain check\<close>

text \<open>
  The height \<open>validate_imported_block_chain\<close> reads; zero and null count as 0. A value that is no number raises
  there, but a block that has one never gets this far (\<open>cu_block_height\<close> is then \<open>-1\<close> and the filter drops it).
\<close>

definition checked_height :: "cu_block \<Rightarrow> int" where
  "checked_height b =
     (case cu_raw_height b (Some (IntValue 0)) of Some j \<Rightarrow> (case to_int j of Some n \<Rightarrow> n | None \<Rightarrow> 0) | None \<Rightarrow> 0)"

fun validate_chain :: "import_checks \<Rightarrow> cu_block list \<Rightarrow> string \<Rightarrow> int \<Rightarrow> bool" where
  "validate_chain K [] prev start = True"
| "validate_chain K (b # bs) prev start =
     (validate_imported K b (checked_height b) prev start \<and>
      validate_chain K bs (first_text (cb_hash b) (cb_block_hash b)) (checked_height b))"

section \<open>State and ports\<close>

record 'n eng_world =
  ew_node :: "'n node_world"
  ew_index :: "(int, cu_block) dict"
  ew_ready :: bool
  ew_ok :: bool
  ew_error :: string
  ew_running :: bool
  ew_calls :: nat

record 'n eng_env =
  ee_node :: "'n node_env"
  ee_lookup :: "'n node_world \<Rightarrow> string \<Rightarrow> cu_block option option"

definition new_io :: "'n node_world \<Rightarrow> 'n eng_world" where
  "new_io w = \<lparr>ew_node = w, ew_index = [], ew_ready = False, ew_ok = True, ew_error = '''', ew_running = True, ew_calls = 0\<rparr>"

definition eng_height :: "'n eng_world \<Rightarrow> int" where
  "eng_height w = chain_tip (nw_chain (ew_node w))"

definition eng_needs_genesis :: "'n eng_world \<Rightarrow> bool" where
  "eng_needs_genesis w \<longleftrightarrow> last_block (nw_chain (ew_node w)) = None"

definition eng_block_at :: "'n eng_world \<Rightarrow> int \<Rightarrow> cu_block option" where
  "eng_block_at w n =
     (case map_of (ew_index w) n of
        Some b \<Rightarrow> Some b
      | None \<Rightarrow> map_option (stored_block n) (map_of (nw_chain (ew_node w)) n))"

text \<open>\<open>str.isdigit\<close> and \<open>int\<close> on ASCII text: a hash made of digits is taken for a height.\<close>

definition all_digits :: "string \<Rightarrow> bool" where
  "all_digits s \<longleftrightarrow> s \<noteq> '''' \<and> list_all (\<lambda>c. c \<in> set ''0123456789'') s"

definition digits_value :: "string \<Rightarrow> int" where
  "digits_value s = foldl (\<lambda>n c. 10 * n + (of_char c - 48)) 0 s"

definition eng_get_block :: "'n eng_env \<Rightarrow> 'n eng_world \<Rightarrow> string \<Rightarrow> cu_block option" where
  "eng_get_block E w key =
     (if all_digits key then eng_block_at w (digits_value key)
      else if py_strip key = '''' then None
      else (case find (\<lambda>b. cu_block_hash b = py_strip key) (dict_values (ew_index w)) of
              Some b \<Rightarrow> Some b
            | None \<Rightarrow> (case ee_lookup E (ew_node w) (py_strip key) of Some (Some b) \<Rightarrow> Some b | _ \<Rightarrow> None)))"

definition eng_head :: "'n eng_world \<Rightarrow> string" where
  "eng_head w = (case eng_block_at w (eng_height w) of Some b \<Rightarrow> cu_block_hash b | None \<Rightarrow> chain_head (nw_chain (ew_node w)))"

definition eng_expected_parent :: "'n eng_world \<Rightarrow> int \<Rightarrow> string" where
  "eng_expected_parent w n =
     (let tip = (if eng_head w = '''' then genesis_hash else eng_head w)
      in if n \<le> 0 then genesis_hash
         else (case eng_block_at w (n - 1) of
                 Some b \<Rightarrow> if cu_block_hash b \<noteq> '''' then cu_block_hash b else tip
               | None \<Rightarrow> tip))"

definition eng_import :: "'n eng_env \<Rightarrow> cu_block \<Rightarrow> 'n eng_world \<Rightarrow> 'n eng_world \<times> bool option" where
  "eng_import E b w =
     (let (nw, res) = node_import (ee_node E) b (ew_node w); ok = (res = Some True); h = cu_block_height b (-1)
      in (w\<lparr>ew_node := nw, ew_index := (if ok \<and> 0 \<le> h then dict_set h b (ew_index w) else ew_index w)\<rparr>, Some ok))"

definition eng_find_ancestor :: "'n eng_world \<Rightarrow> string \<Rightarrow> int option" where
  "eng_find_ancestor w h =
     (if py_strip h = '''' then None else find_ancestor_height genesis_hash (block_by_hash (nw_chain (ew_node w))) (py_strip h))"

definition eng_reorg :: "'n eng_env \<Rightarrow> int \<Rightarrow> 'n eng_world \<Rightarrow> 'n eng_world \<times> bool option" where
  "eng_reorg E a w = (let (nw, res) = node_reorg (ee_node E) a (ew_node w) in (w\<lparr>ew_node := nw\<rparr>, res))"

text \<open>The blocks above the local tip, up to the target, in ascending order.\<close>

definition ahead_blocks :: "int \<Rightarrow> int \<Rightarrow> cu_block list \<Rightarrow> cu_block list" where
  "ahead_blocks flr target chain =
     sort_key (\<lambda>b. cu_block_height b 0)
       (filter (\<lambda>b. flr < cu_block_height b (-1) \<and> \<not> (0 < target \<and> target < cu_block_height b (-1))) chain)"

definition index_blocks :: "cu_block list \<Rightarrow> (int, cu_block) dict \<Rightarrow> (int, cu_block) dict" where
  "index_blocks bs idx = fold (\<lambda>b d. if 0 \<le> cu_block_height b (-1) then dict_set (cu_block_height b (-1)) b d else d) bs idx"

definition ensure_index :: "'n eng_env \<Rightarrow> string \<Rightarrow> int \<Rightarrow> 'n eng_world \<Rightarrow> 'n eng_world" where
  "ensure_index E head target w =
     (if ew_ready w then w
      else (let w1 = w\<lparr>ew_ready := True\<rparr>;
                fail = (\<lambda>r. w1\<lparr>ew_ok := False, ew_error := r\<rparr>);
                ng = eng_needs_genesis w; local_h = eng_height w;
                stop = (if ng then -1 else local_h)
            in if head = '''' then fail ''no_peer_head''
               else (case download_chain (ee_lookup E (ew_node w)) stop head of
                       None \<Rightarrow> fail ''download''
                     | Some chain \<Rightarrow>
                         (let bs = ahead_blocks stop target chain;
                              prev = (if ng then genesis_hash
                                      else if 0 \<le> local_h then
                                        (case map_of (nw_chain (ew_node w)) local_h of Some g \<Rightarrow> py_strip g | None \<Rightarrow> '''')
                                      else '''')
                          in if ng \<and> bs = [] then fail ''genesis_download_empty''
                             else if bs \<noteq> [] \<and> \<not> validate_chain (ne_checks (ee_node E)) bs prev stop
                                  then (fail ''non_contiguous_chain'')\<lparr>ew_index := []\<rparr>
                             else w1\<lparr>ew_index := index_blocks bs (ew_index w), ew_ok := True, ew_error := ''''\<rparr>))))"

definition index_range :: "(int, cu_block) dict \<Rightarrow> int \<Rightarrow> int \<Rightarrow> cu_block list" where
  "index_range idx n m = map (\<lambda>h. the (map_of idx h)) (takeWhile (\<lambda>h. map_of idx h \<noteq> None) [n..m])"

definition eng_fetch ::
  "'n eng_env \<Rightarrow> string \<Rightarrow> int \<Rightarrow> string \<Rightarrow> int \<Rightarrow> int \<Rightarrow> string \<Rightarrow> 'n eng_world \<Rightarrow> 'n eng_world \<times> cu_fetch" where
  "eng_fetch E head target pid n m parent w =
     (let w1 = ensure_index E head target (w\<lparr>ew_calls := ew_calls w + 1\<rparr>)
      in (w1, if \<not> ew_ok w1 then NoResponse else Blocks (map Some (index_range (ew_index w1) n m))))"

definition eng_ports :: "'n eng_env \<Rightarrow> string \<Rightarrow> int \<Rightarrow> ('n eng_world) cu_ports" where
  "eng_ports E head target =
     \<lparr>cup_height = eng_height, cup_head = eng_head, cup_needs_genesis = eng_needs_genesis, cup_get_block = eng_get_block E,
      cup_expected_parent = eng_expected_parent, cup_find_ancestor = eng_find_ancestor, cup_import = eng_import E,
      cup_reorg = eng_reorg E, cup_note_fail = (\<lambda>_ w. w\<lparr>ew_running := False\<rparr>), cup_fetch = eng_fetch E head target,
      cup_running = ew_running, cup_tip_probe = (\<lambda>_ _. ''''), cup_head_probe = (\<lambda>_ _. '''')\<rparr>"

section \<open>The index\<close>

text \<open>Every entry is filed under its own height.\<close>

definition index_inv :: "(int, cu_block) dict \<Rightarrow> bool" where
  "index_inv idx \<longleftrightarrow> (\<forall>k b. map_of idx k = Some b \<longrightarrow> 0 \<le> k \<and> cu_block_height b (-1) = k)"

lemma index_inv_Nil [simp]: "index_inv []"
  by (simp add: index_inv_def)

lemma index_inv_set: "index_inv idx \<Longrightarrow> 0 \<le> cu_block_height b (-1) \<Longrightarrow> index_inv (dict_set (cu_block_height b (-1)) b idx)"
  by (simp add: index_inv_def update_conv)

lemma index_inv_blocks: "index_inv idx \<Longrightarrow> index_inv (index_blocks bs idx)"
  by (induction bs arbitrary: idx) (simp_all add: index_blocks_def index_inv_set)

lemma block_height_default: "0 \<le> cu_block_height b (-1) \<Longrightarrow> cu_block_height b x = cu_block_height b (-1)"
  by (auto simp: cu_block_height_def split: option.splits)

fun numbered_from :: "int \<Rightarrow> cu_block list \<Rightarrow> bool" where
  "numbered_from c [] \<longleftrightarrow> True"
| "numbered_from c (b # bs) \<longleftrightarrow> (\<forall>x. cu_block_height b x = c) \<and> numbered_from (c + 1) bs"

lemma index_range_step:
  "index_range idx n m = (if n \<le> m then (case map_of idx n of None \<Rightarrow> [] | Some b \<Rightarrow> b # index_range idx (n + 1) m) else [])"
  by (auto simp: index_range_def upto_rec1 split: option.splits)

lemma index_range_numbered:
  assumes "index_inv idx"
  shows "numbered_from n (index_range idx n m)"
proof (induction "nat (m + 1 - n)" arbitrary: n rule: less_induct)
  case less
  show ?case
  proof (cases "n \<le> m \<and> map_of idx n \<noteq> None")
    case False
    thus ?thesis by (subst index_range_step) (auto split: option.splits)
  next
    case True
    then obtain b where b: "map_of idx n = Some b" "n \<le> m" by blast
    have "cu_block_height b x = n" for x using assms b(1) block_height_default [of b x] by (auto simp: index_inv_def)
    moreover have "numbered_from (n + 1) (index_range idx (n + 1) m)" using less b(2) by simp
    ultimately show ?thesis using b by (subst index_range_step) simp
  qed
qed

section \<open>The run returns\<close>

lemma eng_ports_simps [simp]:
  "cup_running (eng_ports E h t) = ew_running" "cup_import (eng_ports E h t) = eng_import E"
  "cup_reorg (eng_ports E h t) = eng_reorg E" "cup_fetch (eng_ports E h t) = eng_fetch E h t"
  "cup_note_fail (eng_ports E h t) p w = w\<lparr>ew_running := False\<rparr>" "cup_height (eng_ports E h t) = eng_height"
  by (simp_all add: eng_ports_def)

lemma eng_import_index: "eng_import E b w = (w', r) \<Longrightarrow> index_inv (ew_index w) \<Longrightarrow> index_inv (ew_index w')"
  by (auto simp: eng_import_def Let_def index_inv_set split: prod.splits if_splits)

lemma eng_reorg_frame: "eng_reorg E a w = (w', r) \<Longrightarrow> ew_index w' = ew_index w \<and> ew_running w' = ew_running w"
  by (auto simp: eng_reorg_def split: prod.splits)

lemma ensure_index_inv: "index_inv (ew_index w) \<Longrightarrow> index_inv (ew_index (ensure_index E h t w))"
  by (auto simp: ensure_index_def Let_def index_inv_blocks split: option.splits)

text \<open>A failed import stops the engine before a reorg is tried.\<close>

lemma eng_import_one:
  assumes "cu_import_one (eng_ports E h t) cfg peer b c s = (s', r)" "index_inv (ew_index (cw_world s))"
  shows "index_inv (ew_index (cw_world s')) \<and> (r = Some ImReorg \<longrightarrow> \<not> ew_running (cw_world s'))"
proof (cases "cu_tip_body_refuse (eng_ports E h t) cfg peer b c (cw_world s) = ''''")
  case False
  thus ?thesis using assms by (auto simp: cu_import_one_def)
next
  case True
  obtain w1 res where imp: "eng_import E b (cw_world s) = (w1, res)" by fastforce
  note i1 = eng_import_index [OF imp assms(2)]
  show ?thesis
  proof (cases "res = Some False")
    case False
    thus ?thesis using assms(1) True imp i1 by (auto simp: cu_import_one_def Let_def split: option.splits bool.splits)
  next
    case failed: True
    let ?w2 = "w1\<lparr>ew_running := False\<rparr>"
    have "ew_index (cw_world s') = ew_index w1 \<and> \<not> ew_running (cw_world s')"
    proof (cases "if py_strip (text_or (cb_parent b) '''') = '''' then None
        else cup_find_ancestor (eng_ports E h t) ?w2 (py_strip (text_or (cb_parent b) ''''))")
      case None
      thus ?thesis using assms(1) True imp failed by (auto simp: cu_import_one_def Let_def)
    next
      case (Some a)
      obtain w3 ok where re: "eng_reorg E a ?w2 = (w3, ok)" by fastforce
      show ?thesis
        using assms(1) True imp failed Some re eng_reorg_frame [OF re]
        by (auto simp: cu_import_one_def Let_def split: if_splits option.splits bool.splits)
    qed
    thus ?thesis using i1 by simp
  qed
qed

lemma eng_import_batch:
  "cu_import_batch (eng_ports E h t) cfg peer tgt (map Some bs) k s = (s', r) \<Longrightarrow> index_inv (ew_index (cw_world s)) \<Longrightarrow>
   numbered_from (cr_current k) bs \<Longrightarrow>
   index_inv (ew_index (cw_world s')) \<and>
   (\<forall>k'. r = Inr k' \<longrightarrow> \<not> ew_running (cw_world s') \<or> cr_current k \<le> cr_current k' \<and> (cr_any k' \<longrightarrow> cr_any k \<or> cr_current k < cr_current k'))"
proof (induction bs arbitrary: k s)
  case Nil
  thus ?case by auto
next
  case (Cons b bs)
  obtain s1 x where one: "cu_import_one (eng_ports E h t) cfg peer b (cr_current k) s = (s1, x)" by fastforce
  note inv1 = eng_import_one [OF one Cons.prems(2)]
  consider (ok) "x = Some ImOk" | (reorg) "x = Some ImReorg" | (stop) "x = None \<or> x = Some ImRefuse \<or> x = Some ImFail"
    by (metis cu_import.exhaust option.exhaust)
  thus ?case
  proof cases
    case ok
    let ?k = "k\<lparr>cr_current := cr_current k + 1, cr_imported := cr_imported k + 1, cr_any := True\<rparr>"
    have "cu_import_batch (eng_ports E h t) cfg peer tgt (map Some bs) ?k s1 = (s', r)"
      using Cons.prems(1,3) one ok by simp
    from Cons.IH [OF this] show ?thesis using inv1 Cons.prems(3) by fastforce
  next
    case reorg
    thus ?thesis using Cons.prems(1) one inv1 by auto
  next
    case stop
    have "s' = s1 \<and> (\<forall>k'. r = Inr k' \<longrightarrow> cr_current k' = cr_current k \<and> cr_any k' = cr_any k)"
      using stop Cons.prems(1) one by (elim disjE) auto
    thus ?thesis using inv1 by (metis order_refl)
  qed
qed

lemma eng_turn:
  assumes "cu_turn (eng_ports E h tg) cfg peer c t i s = (s', Inr (c', t', i', a))" "index_inv (ew_index (cw_world s))" "cu_height peer \<le> t"
  shows "\<not> ew_running (cw_world s') \<or> index_inv (ew_index (cw_world s')) \<and> c < c' \<and> t' = t"
proof -
  let ?e = "min (c + max 1 (cc_batch_size cfg) - 1) t" and ?P = "eng_ports E h tg"
  let ?w1 = "ensure_index E h tg ((cw_world s)\<lparr>ew_calls := ew_calls (cw_world s) + 1\<rparr>)"
  let ?bs = "index_range (ew_index ?w1) c ?e" and ?s1 = "s\<lparr>cw_world := ?w1\<rparr>"
    and ?k = "\<lparr>cr_current = c, cr_imported = i, cr_any = False, cr_abort = False\<rparr>"
  have inv1: "index_inv (ew_index ?w1)" using assms(2) by (intro ensure_index_inv) simp
  have f: "cup_fetch ?P (cu_id peer) c ?e (cup_expected_parent ?P (cw_world s) c) (cw_world s) =
      (?w1, if \<not> ew_ok ?w1 then NoResponse else Blocks (map Some ?bs))" by (simp add: eng_fetch_def Let_def)
  have ok: "ew_ok ?w1" using assms(1) f by (auto simp: cu_turn_def Let_def split: if_splits)
  obtain s2 x where b: "cu_import_batch ?P cfg peer t (map Some ?bs) ?k ?s1 = (s2, x)" by fastforce
  have num: "numbered_from (cr_current ?k) ?bs" using index_range_numbered [OF inv1] by simp
  have "index_inv (ew_index (cw_world ?s1))" using inv1 by simp
  note adv = eng_import_batch [OF b this num]
  obtain k' where x: "x = Inr k'" using assms(1) f ok b by (cases x) (auto simp: cu_turn_def Let_def split: if_splits)
  have "cr_any k' \<and> cw_world s' = cw_world s2 \<and> c' = cr_current k' \<and> t' = max t (cu_height peer)"
    using assms(1) f ok b x by (auto simp: cu_turn_def Let_def split: if_splits)
  thus ?thesis using adv x assms(3) by auto
qed

lemma eng_run_returns:
  assumes "index_inv (ew_index (cw_world s))"
  shows "\<exists>r. cu_run_ahead (eng_ports E h tg) peer cfg s = Some r"
proof -
  let ?P = "eng_ports E h tg"
  have loop: "\<exists>r. cu_loop ?P cfg peer c (cu_height peer) 0 s = Some r" for c
    by (rule cu_loop_total [where I = "\<lambda>c t i s. index_inv (ew_index (cw_world s)) \<and> cu_height peer \<le> t"])
      (use assms eng_turn in fastforce)+
  have "\<exists>r. cu_run_inner ?P peer cfg s = Some r"
    using loop by (simp add: cu_run_inner_def Let_def)
  thus ?thesis by (auto simp: cu_run_ahead_def split: option.splits)
qed

end
