(* ===== verification/Sync_Engine.thy ===== *)
theory Sync_Engine
  imports Engine_IO Consistency "HOL-Library.Sublist"
begin

text \<open>
  \<open>sync/sync_engine.py\<close>: head selection, the run of \<open>fast_sync\<close> over the ports of \<open>Engine_IO\<close>, and \<open>sync_state\<close>
  over the consistency service. A node with a blockchain attached is modelled. What the peers, the consensus
  weights, the local state root and the wire probe answer is the record \<open>sync_env\<close>; each call reads the clock once.
\<close>

section \<open>Environment and state\<close>

record sync_peer =
  sp_id :: string
  sp_height :: int
  sp_head :: string
  sp_dial :: string

record head_info =
  hi_hash :: string
  hi_height :: int
  hi_peer :: string

datatype probe_reply = ProbeRaises string | ProbeReply "wire_entry list option"

record 'n sync_env =
  se_io :: "'n eng_env"
  se_peers :: "'n node_world \<Rightarrow> sync_peer list"
  se_weight :: "'n node_world \<Rightarrow> string \<Rightarrow> int"
  se_state_root :: "'n node_world \<Rightarrow> string option"
  se_probe :: "('n node_world \<Rightarrow> 'n node_world \<times> probe_reply) option"

record 'n sync_engine =
  sy_node :: "'n node_world"
  sy_store :: consistency_store
  sy_syncing :: bool
  sy_progress :: int
  sy_fail :: int
  sy_error :: string
  sy_ok_at :: pyfloat
  sy_skipped :: int
  sy_heads_set :: "string list"

section \<open>Heads\<close>

definition request_heads :: "sync_peer list \<Rightarrow> head_info list" where
  "request_heads ps =
     map (\<lambda>p. \<lparr>hi_hash = py_strip (sp_head p), hi_height = sp_height p, hi_peer = sp_id p\<rparr>)
       (filter (\<lambda>p. py_strip (sp_head p) \<noteq> '''') ps)"

definition skipped_heads :: "sync_peer list \<Rightarrow> int" where
  "skipped_heads ps = int (length (filter (\<lambda>p. py_strip (sp_head p) = '''' \<and> 0 < sp_height p) ps))"

definition key_less :: "int \<times> int \<Rightarrow> int \<times> int \<Rightarrow> bool" where
  "key_less a b \<longleftrightarrow> fst a < fst b \<or> fst a = fst b \<and> snd a < snd b"

definition head_step :: "(string \<Rightarrow> int) \<Rightarrow> head_info \<Rightarrow> string option \<times> int \<times> int \<Rightarrow> string option \<times> int \<times> int" where
  "head_step weight h best =
     (let k = (weight (hi_hash h), hi_height h)
      in if hi_hash h = '''' then best else if key_less (snd best) k then (Some (hi_hash h), k) else best)"

definition select_best_head :: "(string \<Rightarrow> int) \<Rightarrow> head_info list \<Rightarrow> string option" where
  "select_best_head weight heads = fst (fold (head_step weight) heads (None, -1, -1))"

text \<open>The peer that claims the selected head: its height, or the greatest claimed one when that is not positive.\<close>

definition best_peer :: "head_info list \<Rightarrow> string \<Rightarrow> int \<times> string" where
  "best_peer heads best =
     (let (h, p) = (case find (\<lambda>x. py_strip (hi_hash x) = best) heads of Some x \<Rightarrow> (hi_height x, hi_peer x) | None \<Rightarrow> (0, ''''))
      in (if h \<le> 0 then Max (hi_height ` set heads) else h, p))"

section \<open>State comparison\<close>

definition peer_views :: "sync_peer list \<Rightarrow> peer_sync_view list" where
  "peer_views ps =
     map (\<lambda>p. \<lparr>pv_peer_id = sp_id p, pv_height = sp_height p, pv_head_hash = py_strip (sp_head p), pv_dial_key = sp_dial p\<rparr>) ps"

definition probe_result :: "probe_reply \<Rightarrow> wire_probe" where
  "probe_result r =
     (case r of
        ProbeRaises e \<Rightarrow> probe_failed e
      | ProbeReply None \<Rightarrow> probe_failed ''probe_timeout_empty''
      | ProbeReply (Some es) \<Rightarrow> if es = [] then probe_failed ''probe_empty'' else probe_succeeded es [] '''')"

definition sync_state :: "'n sync_env \<Rightarrow> pyfloat \<Rightarrow> 'n sync_engine \<Rightarrow> 'n sync_engine \<times> bool" where
  "sync_state E now s =
     (case se_state_root E (sy_node s) of
        None \<Rightarrow> (s\<lparr>sy_store := fst (service_lockdown ''no_get_state_root'' now (sy_store s))\<rparr>, False)
      | Some state_root \<Rightarrow>
          (let height = chain_tip (nw_chain (sy_node s)); peers = peer_views (se_peers E (sy_node s));
               evaluate = (\<lambda>probe s. let (st, d) = apply_probe_evaluation peers height state_root probe now (sy_store s)
                                     in (s\<lparr>sy_store := st\<rparr>, trusted d))
           in if peers = [] then evaluate (never_probed ''no_peers'') s
              else (case se_probe E of
                      None \<Rightarrow> evaluate (probe_failed ''probe_api_missing'') s
                    | Some probe \<Rightarrow>
                        (let (nw, reply) = probe (sy_node s)
                         in evaluate (probe_result reply)
                              (s\<lparr>sy_store := fst (service_probing now (sy_store s)), sy_node := nw\<rparr>)))))"

section \<open>Fast sync\<close>

text \<open>The tail shared by the exits that compare states: the flags of the engine after \<open>sync_state\<close>.\<close>

definition close_sync :: "'n sync_env \<Rightarrow> pyfloat \<Rightarrow> 'n sync_engine \<Rightarrow> 'n sync_engine \<times> bool" where
  "close_sync E now s =
     (let (s1, ok) = sync_state E now s
      in (s1\<lparr>sy_ok_at := (if ok then now else sy_ok_at s1), sy_error := (if ok then '''' else ''state_sync_failed''),
             sy_syncing := False\<rparr>, ok))"

definition sync_abort :: "string \<Rightarrow> 'n sync_engine \<Rightarrow> 'n sync_engine \<times> bool" where
  "sync_abort e s = (s\<lparr>sy_error := e, sy_syncing := False\<rparr>, False)"

definition sync_cfg :: cu_config where
  "sync_cfg = \<lparr>cc_batch_size = cu_batch_size 32, cc_require_head = True, cc_tip_head_bind = True, cc_height_continuity_bind = True,
     cc_contiguous_parent_bind = True, cc_tip_probe = False, cc_peer_head_probe = False\<rparr>"

text \<open>What \<open>fast_sync\<close> does with the outcome of the run; \<open>io\<close> is the engine's port object after it.\<close>

definition settle_run :: "'n sync_env \<Rightarrow> pyfloat \<Rightarrow> string \<Rightarrow> 'n eng_world \<Rightarrow> string list \<Rightarrow> string list \<Rightarrow> cu_outcome \<Rightarrow> 'n sync_engine \<Rightarrow> 'n sync_engine \<times> bool" where
  "settle_run E now best io refuses fails out s =
     (let r = co_reason out; st = co_status out; zero = (co_imported out = 0)
      in if st = CuRefused then sync_abort (if r = '''' then ''refused'' else r) s
         else if st = CuStalled then
           sync_abort (if ew_error io \<noteq> '''' then ew_error io else if r = '''' then ''fetch_stall'' else r) s
         else if st = CuError then sync_abort (if r = '''' then ''path_a_error'' else r) (s\<lparr>sy_fail := sy_fail s + 1\<rparr>)
         else if st = CuIncomplete \<and> zero \<and> r \<in> {''empty_batch'', ''batch_no_progress'', ''fetch_stall''} \<and>
                 (''non_contiguous_chain'' \<in> set refuses \<or> ew_error io = ''non_contiguous_chain'')
              then sync_abort ''non_contiguous_chain'' s
         else if st = CuIncomplete \<and> zero \<and> r \<in> {''empty_batch'', ''batch_no_progress'', ''fetch_stall''} \<and>
                 (ew_calls io = 0 \<or> ew_error io \<noteq> '''')
              then sync_abort (if ew_error io = '''' then ''download_failed'' else ew_error io) s
         else if st = CuIncomplete \<and> zero \<and> sublist ''import'' r then sync_abort r s
         else (let s1 = (if co_reached out \<or> st = CuComplete then s\<lparr>sy_heads_set := best # sy_heads_set s\<rparr> else s)
               in if st = CuIncomplete \<and> fails \<noteq> [] \<and> \<not> co_reached out then sync_abort ''import_failed'' s1
                  else close_sync E now s1))"

definition fast_sync :: "'n sync_env \<Rightarrow> pyfloat \<Rightarrow> int \<Rightarrow> 'n sync_engine \<Rightarrow> ('n sync_engine \<times> bool) option" where
  "fast_sync E now target s =
     (if sy_syncing s then Some (s, False)
      else (let w = sy_node s; local_h = chain_tip (nw_chain w); ps = se_peers E w; heads = request_heads ps;
                s1 = s\<lparr>sy_syncing := True, sy_skipped := skipped_heads ps\<rparr>
            in if heads = [] then Some (sync_abort ''no_peers'' s1)
               else (case select_best_head (se_weight E w) heads of
                       None \<Rightarrow> Some (sync_abort ''no_valid_head'' s1)
                     | Some best \<Rightarrow>
                         (let (claimed, pid) = best_peer heads best;
                              peer_h = (if 0 < target then min claimed target else claimed);
                              peer_id = (if pid = '''' then ''fast_sync'' else pid)
                          in if peer_h \<le> local_h \<and> last_block (nw_chain w) \<noteq> None then Some (close_sync E now s1)
                             else (let io = ensure_index (se_io E) best peer_h (new_io w);
                                       bind = (case map_of (ew_index io) peer_h of
                                                 Some b \<Rightarrow> if cu_block_hash b = '''' then best else cu_block_hash b
                                               | None \<Rightarrow> best)
                                   in case cu_run_ahead (eng_ports (se_io E) best peer_h) (mk_cu_peer peer_id peer_h bind) sync_cfg
                                             \<lparr>cw_world = io, cw_refuses = [], cw_import_fails = [], cw_peer_heights = []\<rparr> of
                                        None \<Rightarrow> None
                                      | Some (c, out) \<Rightarrow>
                                          Some (settle_run E now best (cw_world c) (cw_refuses c) (cw_import_fails c) out
                                            (s1\<lparr>sy_node := ew_node (cw_world c), sy_progress := co_imported out\<rparr>)))))))"

section \<open>The download\<close>

text \<open>Each block was looked up under the parent hash of the next one, and the last one under the head.\<close>

definition linked :: "(string \<Rightarrow> cu_block option option) \<Rightarrow> string \<Rightarrow> cu_block list \<Rightarrow> bool" where
  "linked look head chain \<longleftrightarrow> successively (\<lambda>b c. look (sync_parent c) = Some (Some b)) chain \<and>
     (chain \<noteq> [] \<longrightarrow> look head = Some (Some (last chain)))"

lemma download_walk_spec:
  "download_walk look stop seen current chain = Some out \<Longrightarrow> linked look head chain \<Longrightarrow>
   \<forall>b\<in>set chain. stop < sync_height b \<Longrightarrow> length chain \<le> 10001 \<Longrightarrow>
   current = (case chain of [] \<Rightarrow> head | b # _ \<Rightarrow> sync_parent b) \<Longrightarrow>
   linked look head out \<and> (\<forall>b\<in>set out. stop < sync_height b) \<and> length out \<le> 10001"
proof (induction look stop seen current chain rule: download_walk.induct)
  case (1 look stop seen current chain)
  show ?case
  proof (cases "current = '''' \<or> current \<in> set seen \<or> 10000 < length chain \<or> look current = Some None")
    case True
    hence "out = chain" using "1.prems"(1) by (subst (asm) download_walk.simps) (auto split: if_splits)
    thus ?thesis using "1.prems" by simp
  next
    case False
    then obtain b where b: "look current = Some (Some b)"
      using "1.prems"(1) by (subst (asm) download_walk.simps) (auto split: if_splits option.splits)
    show ?thesis
    proof (cases "sync_height b \<le> stop")
      case True
      hence "out = chain" using "1.prems"(1) b False by (subst (asm) download_walk.simps) (auto split: if_splits)
      thus ?thesis using "1.prems" by simp
    next
      case above: False
      have go: "download_walk look stop (current # seen) (sync_parent b) (b # chain) = Some out"
        using "1.prems"(1) b False above by (subst (asm) download_walk.simps) (auto split: if_splits)
      have link: "linked look head (b # chain)"
        using "1.prems"(2,5) b by (cases chain) (auto simp: linked_def)
      have cond: "\<not> (current = '''' \<or> current \<in> set seen \<or> 10000 < length chain)" using False by blast
      show ?thesis
        by (rule "1.IH" [OF cond b refl above go link]) (use "1.prems"(3,4) above cond in auto)
    qed
  qed
qed

lemma download_chain_spec:
  "download_chain look stop head = Some chain \<Longrightarrow>
   linked look head chain \<and> (\<forall>b\<in>set chain. stop < sync_height b) \<and> length chain \<le> 10001"
  using download_walk_spec [of look stop "[]" head "[]" chain head] by (simp add: download_chain_def linked_def)

section \<open>Head selection\<close>

lemma head_fold:
  "fold (head_step weight) hs (b, k) = (b', k') \<Longrightarrow>
   (\<forall>h\<in>set hs. hi_hash h \<noteq> '''' \<longrightarrow> \<not> key_less k' (weight (hi_hash h), hi_height h)) \<and> \<not> key_less k' k \<and>
   (b' = b \<and> k' = k \<or> (\<exists>h\<in>set hs. hi_hash h \<noteq> '''' \<and> b' = Some (hi_hash h) \<and> k' = (weight (hi_hash h), hi_height h)))"
proof (induction hs arbitrary: b k)
  case (Cons h hs)
  show ?case
  proof (cases "hi_hash h \<noteq> '''' \<and> key_less k (weight (hi_hash h), hi_height h)")
    case True
    hence "fold (head_step weight) hs (Some (hi_hash h), weight (hi_hash h), hi_height h) = (b', k')"
      using Cons.prems by (simp add: head_step_def [of weight h])
    from Cons.IH [OF this] show ?thesis using True by (auto simp: key_less_def)
  next
    case False
    hence "fold (head_step weight) hs (b, k) = (b', k')" using Cons.prems by (auto simp: head_step_def [of weight h] Let_def split: if_splits)
    from Cons.IH [OF this] show ?thesis using False by (auto simp: key_less_def)
  qed
qed (auto simp: key_less_def)

section \<open>Trust\<close>

lemma apply_probe_trusted:
  assumes "apply_probe_evaluation peers h rt p now st = (st', d)" "trusted d"
  shows "evidence peers h rt p \<and> cd_may_mine (service_decision st')"
proof -
  let ?n = "next_snapshot (sto_snap st) peers h rt p now"
  have d: "d = decide_from_snapshot ?n" "sto_snap st' = ?n"
    using assms(1) by (auto simp: apply_probe_evaluation_def evaluate_probe_def set_snapshot_def Let_def)
  hence "cs_state ?n = Consistent \<and> cs_consistent ?n"
    using assms(2) by (auto simp: trusted_def decide_from_snapshot_def Let_def split: if_splits)
  thus ?thesis using d by (simp add: service_decision_def decide_mine next_consistent)
qed

lemma sync_state_True:
  assumes "sync_state E now s = (s', True)"
  shows "cd_may_mine (service_decision (sy_store s')) \<and>
    (\<exists>probe reply state_root. se_probe E = Some probe \<and> probe (sy_node s) = (sy_node s', reply) \<and> se_state_root E (sy_node s) = Some state_root \<and>
      evidence (peer_views (se_peers E (sy_node s))) (chain_tip (nw_chain (sy_node s))) state_root (probe_result reply))"
proof -
  let ?views = "peer_views (se_peers E (sy_node s))" and ?h = "chain_tip (nw_chain (sy_node s))"
  obtain r where r: "se_state_root E (sy_node s) = Some r" using assms by (cases "se_state_root E (sy_node s)") (auto simp: sync_state_def)
  have views: "?views \<noteq> []" using assms r
    by (auto simp: sync_state_def Let_def evidence_def split: prod.splits dest: apply_probe_trusted)
  obtain probe where probe: "se_probe E = Some probe"
    using assms r views
    by (cases "se_probe E") (auto simp: sync_state_def Let_def evidence_def conclusive_def probe_failed_def split: prod.splits dest: apply_probe_trusted)
  obtain nw reply where reply: "probe (sy_node s) = (nw, reply)" by fastforce
  obtain st d where ev: "apply_probe_evaluation ?views ?h r (probe_result reply) now (fst (service_probing now (sy_store s))) = (st, d)" by fastforce
  have "trusted d \<and> sy_store s' = st \<and> sy_node s' = nw"
    using assms r views probe reply ev by (auto simp: sync_state_def Let_def)
  thus ?thesis using apply_probe_trusted [OF ev] probe reply r by auto
qed

lemma close_sync_True:
  assumes "close_sync E now s = (s', True)"
  obtains t where "sync_state E now s = (t, True)" "sy_store s' = sy_store t" "sy_node s' = sy_node t"
  using assms by (auto simp: close_sync_def Let_def split: prod.splits)

lemma settle_run_True:
  assumes "settle_run E now best io refuses fails out s = (s', True)"
  obtains t where "close_sync E now t = (s', True)"
  using assms that by (auto simp: settle_run_def Let_def sync_abort_def split: if_splits)

lemma fast_sync_True:
  assumes "fast_sync E now target s = Some (s', True)"
  obtains t where "close_sync E now t = (s', True)"
  using assms that
  by (auto simp: fast_sync_def Let_def sync_abort_def elim: settle_run_True split: if_splits option.splits prod.splits)

lemma close_sync_idle: "\<not> sy_syncing (fst (close_sync E now s))"
  by (simp add: close_sync_def split: prod.splits)

lemma settle_run_idle: "\<not> sy_syncing (fst (settle_run E now best io refuses fails out s))"
  by (simp add: settle_run_def Let_def sync_abort_def close_sync_idle)

lemma idle_result:
  "\<exists>s'. (\<exists>ok. close_sync E now s = (s', ok)) \<and> \<not> sy_syncing s'"
  "\<exists>s'. (\<exists>ok. settle_run E now best io refuses fails out s = (s', ok)) \<and> \<not> sy_syncing s'"
  using close_sync_idle settle_run_idle by (metis prod.collapse)+

section \<open>A small engine\<close>

text \<open>A chain of two blocks, one peer two blocks ahead, and a probe in which it confirms the state root.\<close>

definition demo_hash :: "int \<Rightarrow> string" where
  "demo_hash n = replicate (nat n + 1) (CHR ''a'')"

definition demo_body :: "int \<Rightarrow> cu_block" where
  "demo_body n = \<lparr>cb_height = Some (Some (IntValue n)), cb_number = None, cb_hash = Some (demo_hash n), cb_block_hash = None,
     cb_parent = Some (demo_hash (n - 1)), cb_alt_parent = None\<rparr>"

definition demo_lookup :: "string \<Rightarrow> cu_block option option" where
  "demo_lookup h = Some (if h = demo_hash 3 then Some (demo_body 3) else if h = demo_hash 2 then Some (demo_body 2)
     else if h = demo_hash 1 then Some (demo_body 1) else None)"

definition demo_env :: "unit sync_env" where
  "demo_env =
     \<lparr>se_io = \<lparr>ee_node = \<lparr>ne_checks = \<lparr>ic_validate = \<lambda>_ _. Some True, ic_digest = \<lambda>b. case cb_hash b of Some h \<Rightarrow> h | None \<Rightarrow> '''', ic_apply = \<lambda>_ _. True\<rparr>,
        ne_gate = \<lambda>_ _. True, ne_fetch = \<lambda>_ _ _ _ w. (w, NoResponse), ne_running = \<lambda>_. True, ne_floor = \<lambda>_. 0, ne_replay = \<lambda>_ _. True,
        ne_tip_probe = \<lambda>_ _. '''', ne_head_probe = \<lambda>_ _. ''''\<rparr>, ee_lookup = \<lambda>_. demo_lookup\<rparr>,
      se_peers = \<lambda>_. [\<lparr>sp_id = ''p'', sp_height = 3, sp_head = demo_hash 3, sp_dial = ''''\<rparr>],
      se_weight = \<lambda>_ _. 0, se_state_root = \<lambda>_. Some ''r'',
      se_probe = Some (\<lambda>w. (w, ProbeReply (Some [WireRoot ''r'' 3 ''p''])))\<rparr>"

definition demo_engine :: "unit sync_engine" where
  "demo_engine =
     \<lparr>sy_node = \<lparr>nw_chain = [(0, demo_hash 0), (1, demo_hash 1)], nw_net = ()\<rparr>, sy_store = new_store None False 0, sy_syncing = False,
      sy_progress = 0, sy_fail = 0, sy_error = '''', sy_ok_at = 0, sy_skipped = 0, sy_heads_set = []\<rparr>"

lemma demo_sync:
  "map_option (\<lambda>(s, ok). (map fst (nw_chain (sy_node s)), sy_progress s, ok)) (fast_sync demo_env 5 0 demo_engine) = Some ([0, 1, 2, 3], 2, True)"
  by code_simp

lemma demo_download: "download_chain demo_lookup 1 (demo_hash 3) = Some [demo_body 2, demo_body 3]"
  by code_simp

section \<open>Claims\<close>

text \<open>
  Fast sync always returns. Whatever peers claim, whatever their blocks are and however imports go, the call
  ends, and it leaves the flag that blocks the next call as it found it.
\<close>

theorem fast_sync_returns:
  "\<exists>s' ok. fast_sync E now target s = Some (s', ok) \<and> sy_syncing s' = sy_syncing s"
proof -
  have run: "\<exists>c out. cu_run_ahead (eng_ports (se_io E) best h) peer cfg
      \<lparr>cw_world = ensure_index (se_io E) best h (new_io w), cw_refuses = [], cw_import_fails = [], cw_peer_heights = []\<rparr> = Some (c, out)"
    for best h peer cfg and w :: "'a node_world"
    using eng_run_returns [of "\<lparr>cw_world = ensure_index (se_io E) best h (new_io w), cw_refuses = [], cw_import_fails = [], cw_peer_heights = []\<rparr>"
        "se_io E" best h peer cfg] ensure_index_inv [of "new_io w"] by (auto simp: new_io_def)
  show ?thesis
  proof (cases "sy_syncing s")
    case True
    thus ?thesis by (auto simp: fast_sync_def)
  next
    case idle: False
    let ?heads = "request_heads (se_peers E (sy_node s))"
    show ?thesis
    proof (cases "select_best_head (se_weight E (sy_node s)) ?heads")
      case None
      thus ?thesis using idle by (auto simp: fast_sync_def Let_def sync_abort_def)
    next
      case (Some best)
      obtain h p where bp: "best_peer ?heads best = (h, p)" by fastforce
      define ph where "ph = (if 0 < target then min h target else h)"
      define io where "io = ensure_index (se_io E) best ph (new_io (sy_node s))"
      obtain c out where r: "cu_run_ahead (eng_ports (se_io E) best ph) (mk_cu_peer (if p = '''' then ''fast_sync'' else p) ph
          (case map_of (ew_index io) ph of Some b \<Rightarrow> if cu_block_hash b = '''' then best else cu_block_hash b | None \<Rightarrow> best)) sync_cfg
          \<lparr>cw_world = io, cw_refuses = [], cw_import_fails = [], cw_peer_heights = []\<rparr> = Some (c, out)"
        using run unfolding io_def by blast
      show ?thesis
        using idle Some bp r unfolding fast_sync_def
        by (auto simp: Let_def ph_def [symmetric] io_def [symmetric] sync_abort_def idle_result)
    qed
  qed
qed

text \<open>
  Success is evidence. When \<open>fast_sync\<close> returns true, the consistency service allows mining, and the call ended
  with a wire probe in which a peer reported the local state root at the local height and nobody another one.
\<close>

theorem fast_sync_needs_evidence:
  assumes "fast_sync E now target s = Some (s', True)"
  shows "cd_may_mine (service_decision (sy_store s')) \<and>
    (\<exists>probe w reply state_root. se_probe E = Some probe \<and> probe w = (sy_node s', reply) \<and> se_state_root E w = Some state_root \<and>
      evidence (peer_views (se_peers E w)) (chain_tip (nw_chain w)) state_root (probe_result reply))"
proof (rule fast_sync_True [OF assms])
  fix t assume "close_sync E now t = (s', True)"
  thus ?thesis
  proof (rule close_sync_True)
    fix u assume "sync_state E now t = (u, True)" "sy_store s' = sy_store u" "sy_node s' = sy_node u"
    thus ?thesis using sync_state_True [of E now t u] by metis
  qed
qed

theorem fast_sync_needs_evidence_witness:
  "\<exists>s'. fast_sync demo_env 5 0 demo_engine = Some (s', True) \<and> cd_may_mine (service_decision (sy_store s'))"
proof -
  obtain s' where s': "fast_sync demo_env 5 0 demo_engine = Some (s', True)"
    using demo_sync by (cases "fast_sync demo_env 5 0 demo_engine") auto
  thus ?thesis using fast_sync_needs_evidence [OF s'] by blast
qed

text \<open>The download is a linked chain. What the parent walk returns ends in the block of the head, each block is what
  the next one's parent hash resolves to, all of it lies above the height where the walk stops, and it has at
  most 10001 blocks.\<close>

theorem download_chain_linked:
  assumes "download_chain look stop head = Some chain"
  shows "(chain \<noteq> [] \<longrightarrow> look head = Some (Some (last chain))) \<and>
    (\<forall>i. Suc i < length chain \<longrightarrow> look (sync_parent (chain ! Suc i)) = Some (Some (chain ! i))) \<and>
    (\<forall>b\<in>set chain. stop < sync_height b) \<and> length chain \<le> 10001"
  using download_chain_spec [OF assms] by (auto simp: linked_def successively_conv_nth)

theorem download_chain_linked_witness:
  "1 < sync_height (demo_body 2) \<and> demo_lookup (sync_parent (demo_body 3)) = Some (Some (demo_body 2))"
  using download_chain_linked [OF demo_download] by fastforce

text \<open>Head selection. The selected head is claimed by a peer, and no peer with a head has a greater pair of
  weight and height.\<close>

theorem best_head_maximal:
  assumes "select_best_head weight heads = Some best"
  shows "\<exists>h\<in>set heads. hi_hash h = best \<and>
    (\<forall>x\<in>set heads. hi_hash x \<noteq> '''' \<longrightarrow> \<not> key_less (weight (hi_hash h), hi_height h) (weight (hi_hash x), hi_height x))"
proof -
  obtain k where "fold (head_step weight) heads (None, -1, -1) = (Some best, k)"
    using assms by (cases "fold (head_step weight) heads (None, -1, -1)") (simp add: select_best_head_def)
  from head_fold [OF this] show ?thesis by auto
qed

theorem best_head_maximal_witness:
  "\<exists>h\<in>set [\<lparr>hi_hash = ''x'', hi_height = 5, hi_peer = ''p''\<rparr>, \<lparr>hi_hash = ''y'', hi_height = 5, hi_peer = ''q''\<rparr>]. hi_hash h = ''x''"
  using best_head_maximal [of "\<lambda>_. 0" "[\<lparr>hi_hash = ''x'', hi_height = 5, hi_peer = ''p''\<rparr>, \<lparr>hi_hash = ''y'', hi_height = 5, hi_peer = ''q''\<rparr>]" "''x''"]
  by (auto simp: select_best_head_def head_step_def key_less_def Let_def)

end
