(* ===== verification/Solicit.thy ===== *)
theory Solicit
  imports Prelude Numeric
begin

text \<open>
  \<open>sync/solicit.py\<close>: the table of armed requests. A request arms a waiter with a future, the message types it
  expects and the context it was made in; an inbound message fulfils the future, is rejected with a strike,
  or is left to the dispatcher. Futures are numbers, and the table \<open>sh_futures\<close> holds what the finished ones
  were given (\<open>None\<close> or a message). Waiters are the tuples \<open>arm\<close> stores; the shorter tuples of older callers
  are not modelled. The native verifiers are the record \<open>solicit_verify\<close>, the monotonic clock an argument.
\<close>

section \<open>Messages and state\<close>

text \<open>
  The \<open>data\<close> of a message as the hub looks at it: a list, a dictionary (with the text of its \<open>state_root\<close>), or
  something else that counts as true. The empty and null values are told apart where the code does.
\<close>

datatype 'd wire_data = JNull | JEmptyList | JEmptyDict | JList 'd | JDict 'd "string option" | JOther 'd

definition as_list :: "'d wire_data \<Rightarrow> 'd wire_data" where
  "as_list d = (case d of JNull \<Rightarrow> JEmptyList | JEmptyDict \<Rightarrow> JEmptyList | _ \<Rightarrow> d)"

definition as_dict :: "'d wire_data \<Rightarrow> 'd wire_data" where
  "as_dict d = (case d of JNull \<Rightarrow> JEmptyDict | JEmptyList \<Rightarrow> JEmptyDict | _ \<Rightarrow> d)"

record request_ctx =
  rc_kind :: string
  rc_from :: int
  rc_to :: int
  rc_parent :: string
  rc_allow_empty :: bool
  rc_hash :: string
  rc_allow_null :: bool
  rc_height :: int
  rc_head :: string
  rc_root :: string

record 'd solicit_verify =
  sv_blocks :: "('d wire_data \<Rightarrow> int \<Rightarrow> int \<Rightarrow> string \<Rightarrow> bool \<Rightarrow> string) option"
  sv_block :: "('d wire_data \<Rightarrow> string \<Rightarrow> bool \<Rightarrow> string) option"
  sv_root :: "('d wire_data \<Rightarrow> int \<Rightarrow> string \<Rightarrow> string) option"

record waiter =
  wt_types :: "string list"
  wt_future :: nat
  wt_ctx :: "request_ctx option"
  wt_armed :: pyfloat

record 'm solicit_hub =
  sh_waiters :: "(string, waiter) dict"
  sh_peers_only :: bool
  sh_max_age :: pyfloat
  sh_timeouts :: int
  sh_sweeps :: int
  sh_fulfills :: int
  sh_rejects :: int
  sh_futures :: "nat \<rightharpoonup> 'm option"
  sh_strikes :: "(string \<times> string) list"
  sh_bumps :: "string list"

definition new_hub :: "bool \<Rightarrow> pyfloat \<Rightarrow> 'm solicit_hub" where
  "new_hub peers_only max_age =
     \<lparr>sh_waiters = [], sh_peers_only = peers_only, sh_max_age = (if max_age = 0 then 120 else max_age), sh_timeouts = 0,
      sh_sweeps = 0, sh_fulfills = 0, sh_rejects = 0, sh_futures = Map.empty, sh_strikes = [], sh_bumps = []\<rparr>"

section \<open>Arming and expiry\<close>

text \<open>\<open>None\<close> is the \<open>ValueError\<close> of an empty peer id.\<close>

definition hub_arm :: "string \<Rightarrow> string list \<Rightarrow> nat \<Rightarrow> request_ctx option \<Rightarrow> pyfloat \<Rightarrow> 'm solicit_hub \<Rightarrow> 'm solicit_hub option" where
  "hub_arm pid types fut ctx t h =
     (if pid = '''' then None
      else Some (h\<lparr>sh_waiters := dict_set pid \<lparr>wt_types = types, wt_future = fut, wt_ctx = ctx, wt_armed = t\<rparr> (sh_waiters h)\<rparr>))"

definition hub_clear :: "string \<Rightarrow> 'm solicit_hub \<Rightarrow> 'm solicit_hub" where
  "hub_clear pid h = h\<lparr>sh_waiters := AList.delete pid (sh_waiters h)\<rparr>"

text \<open>\<open>if not fut.done(): fut.set_result(v)\<close>.\<close>

definition settle :: "nat \<Rightarrow> 'm option \<Rightarrow> 'm solicit_hub \<Rightarrow> 'm solicit_hub" where
  "settle f v h = (if sh_futures h f = None then h\<lparr>sh_futures := (sh_futures h)(f \<mapsto> v)\<rparr> else h)"

definition hub_timeout :: "string \<Rightarrow> 'm option \<Rightarrow> 'm solicit_hub \<Rightarrow> 'm solicit_hub \<times> bool" where
  "hub_timeout pid v h =
     (case map_of (sh_waiters h) pid of
        None \<Rightarrow> (h, False)
      | Some w \<Rightarrow> (let h1 = settle (wt_future w) v (hub_clear pid h) in (h1\<lparr>sh_timeouts := sh_timeouts h1 + 1\<rparr>, True)))"

definition stale :: "pyfloat \<Rightarrow> pyfloat \<Rightarrow> waiter \<Rightarrow> bool" where
  "stale max_age now w \<longleftrightarrow> (if wt_armed w \<le> 0 then max_age \<le> 0 else max_age \<le> fsub now (wt_armed w))"

definition expire_stale :: "pyfloat option \<Rightarrow> pyfloat \<Rightarrow> 'm solicit_hub \<Rightarrow> 'm solicit_hub \<times> nat" where
  "expire_stale age now h =
     (let m = (case age of None \<Rightarrow> sh_max_age h | Some a \<Rightarrow> a); max_age = (if m < 0 then 0 else m);
          expired = map fst (filter (\<lambda>(p, w). stale max_age now w) (sh_waiters h));
          h1 = fold (\<lambda>p h. fst (hub_timeout p None h)) expired h
      in (if expired = [] then h1 else h1\<lparr>sh_sweeps := sh_sweeps h1 + 1\<rparr>, length expired))"

definition clear_all :: "bool \<Rightarrow> 'm solicit_hub \<Rightarrow> 'm solicit_hub \<times> nat" where
  "clear_all timeout_futures h =
     (let pids = dict_keys (sh_waiters h)
      in if timeout_futures then (fold (\<lambda>p h. fst (hub_timeout p None h)) pids h, length pids)
         else (h\<lparr>sh_waiters := []\<rparr>, length pids))"

definition mempool_armed :: "string \<Rightarrow> 'm solicit_hub \<Rightarrow> bool" where
  "mempool_armed pid h =
     (case map_of (sh_waiters h) pid of
        None \<Rightarrow> False
      | Some w \<Rightarrow> ''mempool'' \<in> set (wt_types w) \<and> (\<exists>c. wt_ctx w = Some c \<and> rc_kind c = ''mempool''))"

section \<open>Inbound messages\<close>

definition fulfil :: "nat \<Rightarrow> 'm \<Rightarrow> string \<Rightarrow> 'm solicit_hub \<Rightarrow> 'm solicit_hub \<times> bool \<times> string" where
  "fulfil f m detail h = (let h1 = settle f (Some m) h in (h1\<lparr>sh_fulfills := sh_fulfills h1 + 1\<rparr>, True, detail))"

definition reject :: "string \<Rightarrow> nat \<Rightarrow> string \<Rightarrow> string \<Rightarrow> string \<Rightarrow> 'm solicit_hub \<Rightarrow> 'm solicit_hub \<times> bool \<times> string" where
  "reject pid f counter reason detail h =
     (settle f None (h\<lparr>sh_bumps := counter # sh_bumps h, sh_rejects := sh_rejects h + 1, sh_strikes := (pid, reason) # sh_strikes h\<rparr>),
      True, detail)"

definition kind_is :: "string \<Rightarrow> request_ctx option \<Rightarrow> bool" where
  "kind_is k c \<longleftrightarrow> (case c of None \<Rightarrow> False | Some c \<Rightarrow> rc_kind c = k)"

definition refuse_blocks :: "'d solicit_verify \<Rightarrow> 'd wire_data \<Rightarrow> request_ctx \<Rightarrow> string" where
  "refuse_blocks V d c =
     (case sv_blocks V of None \<Rightarrow> '''' | Some f \<Rightarrow> f (as_list d) (rc_from c) (rc_to c) (rc_parent c) (rc_allow_empty c))"

definition refuse_block :: "'d solicit_verify \<Rightarrow> 'd wire_data \<Rightarrow> request_ctx \<Rightarrow> string" where
  "refuse_block V d c = (case sv_block V of None \<Rightarrow> '''' | Some f \<Rightarrow> f d (rc_hash c) (rc_allow_null c))"

definition refuse_root :: "'d solicit_verify \<Rightarrow> 'd wire_data \<Rightarrow> request_ctx \<Rightarrow> string" where
  "refuse_root V d c = (case sv_root V of None \<Rightarrow> '''' | Some f \<Rightarrow> f (as_dict d) (rc_height c) (rc_head c))"

definition root_differs :: "'d wire_data \<Rightarrow> request_ctx \<Rightarrow> bool" where
  "root_differs d c \<longleftrightarrow>
     (let want = py_strip (rc_root c); got = (case d of JDict _ r \<Rightarrow> py_strip (case r of Some t \<Rightarrow> t | None \<Rightarrow> '''') | _ \<Rightarrow> '''')
      in want \<noteq> '''' \<and> got \<noteq> '''' \<and> py_lower got \<noteq> py_lower want)"

definition on_message ::
  "'d solicit_verify \<Rightarrow> string \<Rightarrow> nat \<Rightarrow> request_ctx option \<Rightarrow> string \<Rightarrow> 'd wire_data \<Rightarrow> 'm \<Rightarrow> 'm solicit_hub \<Rightarrow> 'm solicit_hub \<times> bool \<times> string" where
  "on_message V pid f ctx ty d m h =
     (if ty = ''blocks'' \<and> kind_is ''blocks'' ctx then
        (let r = refuse_blocks V d (the ctx)
         in if r \<noteq> '''' then reject pid f ''blocks_response_semantic_rejects_total'' r r h else fulfil f m ''blocks_ok'' h)
      else if ty = ''block'' \<and> kind_is ''block'' ctx then
        (let r = refuse_block V d (the ctx)
         in if r \<noteq> '''' then reject pid f ''block_response_semantic_rejects_total'' r r h else fulfil f m ''block_ok'' h)
      else if ty = ''state_root_response'' \<and> kind_is ''state_root'' ctx then
        (let r = refuse_root V d (the ctx)
         in if r \<noteq> '''' then reject pid f ''state_root_response_request_rejects_total'' r r h
            else if root_differs d (the ctx)
                 then reject pid f ''state_root_local_rejects_total'' ''bad_state_root_response_local_root'' ''local_root_mismatch'' h
            else fulfil f m ''state_root_ok'' h)
      else if ty = ''state_root_response'' then
        reject pid f ''unsolicited_state_root_rejects_total'' ''unsolicited_state_root_response'' ''unsolicited_state_root'' h
      else if ty = ''mempool'' then
        (if kind_is ''mempool'' ctx then fulfil f m ''mempool_ok'' h
         else reject pid f ''unsolicited_mempool_rejects_total'' ''unsolicited_mempool'' ''unsolicited_mempool'' h)
      else if ty = ''blocks'' then
        reject pid f ''unsolicited_block_rejects_total'' ''unsolicited_blocks'' ''unsolicited_blocks'' h
      else if ty = ''block'' then
        reject pid f ''unsolicited_block_rejects_total'' ''unsolicited_block'' ''unsolicited_block'' h
      else if ty = ''peers'' then
        (if kind_is ''peers'' ctx then fulfil f m ''peers_ok'' h
         else if sh_peers_only h then reject pid f ''unsolicited_peers_rejects_total'' ''unsolicited_peers'' ''unsolicited_peers'' h
         else fulfil f m ''peers_push_ok'' h)
      else fulfil f m ''generic_fulfill'' h)"

definition fulfill_or_reject ::
  "'d solicit_verify \<Rightarrow> string \<Rightarrow> string \<Rightarrow> 'd wire_data \<Rightarrow> 'm \<Rightarrow> 'm solicit_hub \<Rightarrow> 'm solicit_hub \<times> bool \<times> string" where
  "fulfill_or_reject V pid ty d m h =
     (case (if pid = '''' then None else map_of (sh_waiters h) pid) of
        None \<Rightarrow> (h, False, ''no_waiter'')
      | Some w \<Rightarrow>
          if ty \<notin> set (wt_types w) then (h, False, ''waiter_mismatch'')
          else if sh_futures h (wt_future w) \<noteq> None then
            (if ty = ''state_root_response'' then (h, True, ''late_state_root'') else (h, False, ''waiter_mismatch''))
          else on_message V pid (wt_future w) (wt_ctx w) ty d m h)"

section \<open>Runs\<close>

datatype ('d, 'm) hub_op =
    Arm string "string list" nat "request_ctx option" pyfloat
  | Clear string
  | Timeout string "'m option"
  | Expire "pyfloat option" pyfloat
  | ClearAll bool
  | PeersOnly bool
  | Message string string "'d wire_data" 'm

fun hub_step :: "'d solicit_verify \<Rightarrow> ('d, 'm) hub_op \<Rightarrow> 'm solicit_hub \<Rightarrow> 'm solicit_hub" where
  "hub_step V (Arm p ts f c t) h = (case hub_arm p ts f c t h of None \<Rightarrow> h | Some h' \<Rightarrow> h')"
| "hub_step V (Clear p) h = hub_clear p h"
| "hub_step V (Timeout p v) h = fst (hub_timeout p v h)"
| "hub_step V (Expire a t) h = fst (expire_stale a t h)"
| "hub_step V (ClearAll b) h = fst (clear_all b h)"
| "hub_step V (PeersOnly b) h = h\<lparr>sh_peers_only := b\<rparr>"
| "hub_step V (Message p ty d m) h = fst (fulfill_or_reject V p ty d m h)"

definition hub_run :: "'d solicit_verify \<Rightarrow> ('d, 'm) hub_op list \<Rightarrow> 'm solicit_hub \<Rightarrow> 'm solicit_hub" where
  "hub_run V ops h = foldl (\<lambda>h op. hub_step V op h) h ops"

lemma hub_run_Cons: "hub_run V (op # ops) h = hub_run V ops (hub_step V op h)"
  by (simp add: hub_run_def)

lemma hub_run_induct [consumes 1, case_names step]:
  assumes "I h" "\<And>h op. I h \<Longrightarrow> I (hub_step V op h)"
  shows "I (hub_run V ops h)"
  using assms(1) by (induction ops arbitrary: h) (simp_all add: hub_run_def assms(2))

section \<open>What one message does\<close>

definition acceptable :: "'d solicit_verify \<Rightarrow> bool \<Rightarrow> request_ctx option \<Rightarrow> string \<Rightarrow> 'd wire_data \<Rightarrow> bool" where
  "acceptable V peers_only ctx ty d \<longleftrightarrow>
     (ty = ''blocks'' \<longrightarrow> kind_is ''blocks'' ctx \<and> refuse_blocks V d (the ctx) = '''') \<and>
     (ty = ''block'' \<longrightarrow> kind_is ''block'' ctx \<and> refuse_block V d (the ctx) = '''') \<and>
     (ty = ''state_root_response'' \<longrightarrow> kind_is ''state_root'' ctx \<and> refuse_root V d (the ctx) = '''' \<and> \<not> root_differs d (the ctx)) \<and>
     (ty = ''mempool'' \<longrightarrow> kind_is ''mempool'' ctx) \<and>
     (ty = ''peers'' \<longrightarrow> kind_is ''peers'' ctx \<or> \<not> peers_only)"

lemma on_message_cases:
  "(acceptable V (sh_peers_only h) ctx ty d \<and> (\<exists>detail. on_message V pid f ctx ty d m h = fulfil f m detail h)) \<or>
   (\<not> acceptable V (sh_peers_only h) ctx ty d \<and> (\<exists>counter reason detail. on_message V pid f ctx ty d m h = reject pid f counter reason detail h))"
proof -
  consider "ty = ''blocks''" | "ty = ''block''" | "ty = ''state_root_response''" | "ty = ''mempool''" | "ty = ''peers''"
    | (other) "ty \<noteq> ''blocks''" "ty \<noteq> ''block''" "ty \<noteq> ''state_root_response''" "ty \<noteq> ''mempool''" "ty \<noteq> ''peers''"
    by blast
  thus ?thesis
  proof cases
    case other
    thus ?thesis unfolding on_message_def acceptable_def by (simp only: simp_thms if_False) blast
  qed (simp_all add: on_message_def acceptable_def Let_def, blast+)
qed

definition pending :: "string \<Rightarrow> string \<Rightarrow> 'm solicit_hub \<Rightarrow> waiter option" where
  "pending pid ty h =
     (case (if pid = '''' then None else map_of (sh_waiters h) pid) of
        Some w \<Rightarrow> if ty \<in> set (wt_types w) \<and> sh_futures h (wt_future w) = None then Some w else None
      | None \<Rightarrow> None)"

lemma message_pending:
  "pending pid ty h = Some w \<Longrightarrow> fulfill_or_reject V pid ty d m h = on_message V pid (wt_future w) (wt_ctx w) ty d m h"
  by (auto simp: pending_def fulfill_or_reject_def split: option.splits if_splits)

lemma message_not_pending:
  "pending pid ty h = None \<Longrightarrow> \<exists>c detail. fulfill_or_reject V pid ty d m h = (h, c, detail) \<and> (c \<longrightarrow> ty = ''state_root_response'')"
  by (auto simp: pending_def fulfill_or_reject_def split: option.splits if_splits)

lemma message_step_cases:
  obtains (ignored) "pending pid ty h = None" "fst (fulfill_or_reject V pid ty d m h) = h"
  | (fulfilled) w detail where "pending pid ty h = Some w" "acceptable V (sh_peers_only h) (wt_ctx w) ty d"
      "fulfill_or_reject V pid ty d m h = fulfil (wt_future w) m detail h"
  | (rejected) w counter reason detail where "pending pid ty h = Some w" "\<not> acceptable V (sh_peers_only h) (wt_ctx w) ty d"
      "fulfill_or_reject V pid ty d m h = reject pid (wt_future w) counter reason detail h"
proof (cases "pending pid ty h")
  case None
  then show thesis using message_not_pending [OF None, of V d m] that(1) by fastforce
next
  case (Some w)
  then show thesis
    using message_pending [OF Some, of V d m] on_message_cases [of V h "wt_ctx w" ty d pid "wt_future w" m] that(2,3) by metis
qed

lemma pending_future: "pending pid ty h = Some w \<Longrightarrow> sh_futures h (wt_future w) = None"
  by (auto simp: pending_def split: option.splits if_splits)

section \<open>Invariants\<close>

lemma settle_le: "sh_futures h \<subseteq>\<^sub>m sh_futures (settle f v h)"
  by (auto simp: settle_def map_le_def)

lemma settle_keeps: "g \<subseteq>\<^sub>m sh_futures h \<Longrightarrow> g \<subseteq>\<^sub>m sh_futures (settle f v h)"
  by (rule map_le_trans [OF _ settle_le])

lemma settle_frame [simp]:
  "sh_waiters (settle f v h) = sh_waiters h" "sh_timeouts (settle f v h) = sh_timeouts h" "sh_fulfills (settle f v h) = sh_fulfills h"
  "sh_rejects (settle f v h) = sh_rejects h" "sh_strikes (settle f v h) = sh_strikes h" "sh_peers_only (settle f v h) = sh_peers_only h"
  by (simp_all add: settle_def)

lemma settle_futures: "sh_futures (settle f v h) = (if sh_futures h f = None then (sh_futures h)(f \<mapsto> v) else sh_futures h)"
  by (simp add: settle_def)

lemma fold_timeout_induct:
  assumes "I h" "\<And>p h. I h \<Longrightarrow> I (fst (hub_timeout p None h))"
  shows "I (fold (\<lambda>p h. fst (hub_timeout p None h)) ps h)"
  using assms(1) by (induction ps arbitrary: h) (simp_all add: assms(2))

text \<open>
  Every operation is a sequence of five kinds of change: to the table, to a counter the books do not use, a
  timeout, a fulfilment of a pending future and a rejection of one.
\<close>

lemma hub_step_induct:
  assumes "I h"
    and table: "\<And>h ws. I h \<Longrightarrow> I (h\<lparr>sh_waiters := ws\<rparr>)"
    and misc: "\<And>h n b. I h \<Longrightarrow> I (h\<lparr>sh_sweeps := n\<rparr>) \<and> I (h\<lparr>sh_peers_only := b\<rparr>)"
    and tmo: "\<And>h f v. I h \<Longrightarrow> I ((settle f v h)\<lparr>sh_timeouts := sh_timeouts h + 1\<rparr>)"
    and ful: "\<And>h f m. I h \<Longrightarrow> sh_futures h f = None \<Longrightarrow> I ((settle f (Some m) h)\<lparr>sh_fulfills := sh_fulfills h + 1\<rparr>)"
    and rej: "\<And>h f c x. I h \<Longrightarrow> sh_futures h f = None \<Longrightarrow>
        I (settle f None (h\<lparr>sh_bumps := c # sh_bumps h, sh_rejects := sh_rejects h + 1, sh_strikes := x # sh_strikes h\<rparr>))"
  shows "I (hub_step V op h)"
proof -
  have timeout: "I (fst (hub_timeout p v h))" if "I h" for p v h
    using that tmo [of "hub_clear p h"] table [of h] by (auto simp: hub_timeout_def Let_def hub_clear_def split: option.splits)
  have many: "I (fold (\<lambda>p h. fst (hub_timeout p None h)) ps h)" if "I h" for ps h
    by (rule fold_timeout_induct) (use that timeout in auto)
  show ?thesis
  proof (cases op)
    case (Arm p ts f c t)
    thus ?thesis using assms(1) table by (simp add: hub_arm_def)
  next
    case (Clear p)
    thus ?thesis using assms(1) table by (simp add: hub_clear_def)
  next
    case (Timeout p v)
    thus ?thesis using assms(1) timeout by simp
  next
    case (Expire a t)
    thus ?thesis using assms(1) many misc by (simp add: expire_stale_def Let_def)
  next
    case (ClearAll b)
    thus ?thesis using assms(1) many table by (simp add: clear_all_def Let_def)
  next
    case (PeersOnly b)
    thus ?thesis using assms(1) misc by simp
  next
    case (Message p ty d m)
    show ?thesis
    proof (rule message_step_cases [of p ty h V d m])
      assume "fst (fulfill_or_reject V p ty d m h) = h"
      thus ?thesis using assms(1) Message by simp
    next
      fix w detail
      assume "pending p ty h = Some w" "fulfill_or_reject V p ty d m h = fulfil (wt_future w) m detail h"
      thus ?thesis using ful [OF assms(1) pending_future] Message by (simp add: fulfil_def Let_def)
    next
      fix w c x y
      assume "pending p ty h = Some w" "fulfill_or_reject V p ty d m h = reject p (wt_future w) c x y h"
      thus ?thesis using rej [OF assms(1) pending_future] Message by (simp add: reject_def)
    qed
  qed
qed

lemma hub_run_inv:
  assumes "I h"
    and "\<And>h ws. I h \<Longrightarrow> I (h\<lparr>sh_waiters := ws\<rparr>)"
    and "\<And>h n b. I h \<Longrightarrow> I (h\<lparr>sh_sweeps := n\<rparr>) \<and> I (h\<lparr>sh_peers_only := b\<rparr>)"
    and "\<And>h f v. I h \<Longrightarrow> I ((settle f v h)\<lparr>sh_timeouts := sh_timeouts h + 1\<rparr>)"
    and "\<And>h f m. I h \<Longrightarrow> sh_futures h f = None \<Longrightarrow> I ((settle f (Some m) h)\<lparr>sh_fulfills := sh_fulfills h + 1\<rparr>)"
    and "\<And>h f c x. I h \<Longrightarrow> sh_futures h f = None \<Longrightarrow>
        I (settle f None (h\<lparr>sh_bumps := c # sh_bumps h, sh_rejects := sh_rejects h + 1, sh_strikes := x # sh_strikes h\<rparr>))"
  shows "I (hub_run V ops h)"
  using assms(1) by (rule hub_run_induct) (rule hub_step_induct [where I = I]; (fact | erule assms(2-6); assumption)?)

text \<open>The books: a strike per rejection, and fulfilments and rejections settle different futures.\<close>

definition hub_books :: "'m solicit_hub \<Rightarrow> bool" where
  "hub_books h \<longleftrightarrow> finite (dom (sh_futures h)) \<and> sh_rejects h = int (length (sh_strikes h)) \<and>
     sh_fulfills h + sh_rejects h \<le> int (card (dom (sh_futures h))) \<and>
     int (card (dom (sh_futures h))) \<le> sh_fulfills h + sh_rejects h + sh_timeouts h"

lemma card_settle:
  "finite (dom (sh_futures h)) \<Longrightarrow> card (dom (sh_futures (settle f v h))) = card (dom (sh_futures h)) + (if sh_futures h f = None then 1 else 0)"
  by (auto simp: settle_futures domIff)

lemma finite_settle: "finite (dom (sh_futures (settle f v h))) = finite (dom (sh_futures h))"
  by (auto simp: settle_futures)

section \<open>Claims\<close>

text \<open>
  One message, one verdict. A message of a type that an armed, unsettled request of the peer expects is always
  consumed: it settles the request's future with itself exactly when its kind fits the request and the
  verifiers have nothing against it, and otherwise settles it with nothing and strikes the peer. Any other
  message leaves the hub as it was.
\<close>

theorem message_verdict:
  "let (h', consumed, detail) = fulfill_or_reject V pid ty d m h in
     case pending pid ty h of
       None \<Rightarrow> h' = h
     | Some w \<Rightarrow> consumed \<and> sh_waiters h' = sh_waiters h \<and>
         (if acceptable V (sh_peers_only h) (wt_ctx w) ty d
          then sh_futures h' = (sh_futures h)(wt_future w \<mapsto> Some m) \<and> sh_strikes h' = sh_strikes h
          else sh_futures h' = (sh_futures h)(wt_future w \<mapsto> None) \<and> (\<exists>reason. sh_strikes h' = (pid, reason) # sh_strikes h))"
proof (rule message_step_cases [of pid ty h V d m])
  assume "pending pid ty h = None" "fst (fulfill_or_reject V pid ty d m h) = h"
  thus ?thesis by (auto split: prod.splits)
next
  fix w detail
  assume "pending pid ty h = Some w" "acceptable V (sh_peers_only h) (wt_ctx w) ty d"
    "fulfill_or_reject V pid ty d m h = fulfil (wt_future w) m detail h"
  thus ?thesis using pending_future [of pid ty h w] by (simp add: fulfil_def settle_futures)
next
  fix w c r detail
  assume "pending pid ty h = Some w" "\<not> acceptable V (sh_peers_only h) (wt_ctx w) ty d"
    "fulfill_or_reject V pid ty d m h = reject pid (wt_future w) c r detail h"
  thus ?thesis using pending_future [of pid ty h w] by (simp add: reject_def settle_futures)
qed

text \<open>
  A future is settled once. Whatever requests are armed, dropped, timed out or answered in whatever order, a
  settled future keeps its value, each rejection is one strike, and the fulfilments and rejections together
  are requests settled by messages, each counted once.
\<close>

theorem hub_settles_once:
  "sh_futures (hub_run V ops (new_hub b a)) \<subseteq>\<^sub>m sh_futures (hub_run V (ops @ ops') (new_hub b a)) \<and>
   hub_books (hub_run V (ops @ ops') (new_hub b a))"
proof
  have books: "hub_books (hub_run V ops (new_hub b a))" for ops
  proof (rule hub_run_inv [where I = hub_books])
    show "hub_books (new_hub b a)" by (simp add: hub_books_def new_hub_def)
  qed (auto simp: hub_books_def card_settle finite_settle)
  thus "hub_books (hub_run V (ops @ ops') (new_hub b a))" .
  let ?h = "hub_run V ops (new_hub b a)"
  have "sh_futures ?h \<subseteq>\<^sub>m sh_futures (hub_run V ops' ?h)"
    by (rule hub_run_inv [where I = "\<lambda>h'. sh_futures ?h \<subseteq>\<^sub>m sh_futures h'"]) (simp_all add: settle_keeps)
  thus "sh_futures ?h \<subseteq>\<^sub>m sh_futures (hub_run V (ops @ ops') (new_hub b a))" by (simp add: hub_run_def)
qed

end
