(* ===== verification/Ghost.thy ===== *)
theory Ghost
  imports Prelude "HOL-Library.Char_ord" "HOL-Library.List_Lexorder"
begin

text \<open>
  \<open>consensus/lmd.py\<close>, \<open>consensus/ghost.py\<close> and the block tree of the three engines: the latest vote per validator,
  the weight of a subtree by an iterative walk with an explicit stack, and the fork choice that descends into
  the heaviest child. The Python code is modelled, not the native kernels it prefers. The walks may run for
  ever on a tree with a cycle, hence partial functions: \<open>None\<close> is a call that does not return.
\<close>

section \<open>Latest votes\<close>

record lmd_table =
  lm_votes :: "(string, string \<times> int) dict"
  lm_stakes :: "(string, int) dict"

definition new_lmd :: lmd_table where
  "new_lmd = \<lparr>lm_votes = [], lm_stakes = []\<rparr>"

definition lmd_add_validator :: "string \<Rightarrow> int \<Rightarrow> lmd_table \<Rightarrow> lmd_table" where
  "lmd_add_validator v stake t = t\<lparr>lm_stakes := dict_set v stake (lm_stakes t)\<rparr>"

definition lmd_update :: "string \<Rightarrow> string \<Rightarrow> int \<Rightarrow> lmd_table \<Rightarrow> lmd_table \<times> bool" where
  "lmd_update v h slot t =
     (if map_of (lm_stakes t) v = None then (t, False)
      else (let newer = (case map_of (lm_votes t) v of None \<Rightarrow> True | Some (g, k) \<Rightarrow> k < slot)
            in if newer then (t\<lparr>lm_votes := dict_set v (h, slot) (lm_votes t)\<rparr>, True) else (t, False)))"

definition lmd_weights :: "lmd_table \<Rightarrow> (string, int) dict" where
  "lmd_weights t =
     fold (\<lambda>(v, h, k) ws. dict_set h (dict_get ws h 0 + dict_get (lm_stakes t) v 0) ws) (lm_votes t) []"

section \<open>The block tree\<close>

record tree_node =
  tn_parent :: "string option"
  tn_children :: "string list"
  tn_number :: int

type_synonym block_tree = "(string, tree_node) dict"

definition tree_children :: "block_tree \<Rightarrow> string \<Rightarrow> string list" where
  "tree_children T n = (case map_of T n of None \<Rightarrow> [] | Some d \<Rightarrow> tn_children d)"

definition tree_number :: "block_tree \<Rightarrow> string \<Rightarrow> int" where
  "tree_number T n = (case map_of T n of None \<Rightarrow> 0 | Some d \<Rightarrow> tn_number d)"

text \<open>\<open>add_block\<close> of the engines: an empty parent is no parent, a parent not seen yet becomes a stub.\<close>

definition tree_record :: "string \<Rightarrow> string option \<Rightarrow> int \<Rightarrow> block_tree \<Rightarrow> block_tree" where
  "tree_record h p number T =
     (case map_of T h of
        None \<Rightarrow> dict_set h \<lparr>tn_parent = p, tn_children = [], tn_number = number\<rparr> T
      | Some d \<Rightarrow> dict_set h (d\<lparr>tn_parent := (if tn_parent d = None then p else tn_parent d), tn_number := number\<rparr>) T)"

definition tree_attach :: "string \<Rightarrow> string \<Rightarrow> block_tree \<Rightarrow> block_tree" where
  "tree_attach h q T =
     (let T1 = (if map_of T q = None then dict_set q \<lparr>tn_parent = None, tn_children = [], tn_number = 0\<rparr> T else T)
      in dict_modify q (\<lambda>d. if h \<in> set (tn_children d) then d else d\<lparr>tn_children := tn_children d @ [h]\<rparr>) T1)"

definition tree_add :: "string \<Rightarrow> string option \<Rightarrow> int \<Rightarrow> block_tree \<Rightarrow> block_tree" where
  "tree_add h parent number T =
     (let p = (if parent = Some '''' then None else parent);
          T1 = tree_record h p number T
      in case p of None \<Rightarrow> T1 | Some q \<Rightarrow> tree_attach h q T1)"

section \<open>Subtree weights\<close>

text \<open>
  The loop of \<open>_cumulative_weight_py\<close>. The top of the stack is the head of the list; a node is pushed again,
  marked, before its children, and summed up when the mark is popped.
\<close>

partial_function (option) weight_loop ::
  "block_tree \<Rightarrow> (string, int) dict \<Rightarrow> (string \<times> bool) list \<Rightarrow> (string \<rightharpoonup> int) \<Rightarrow> (string \<rightharpoonup> int) option" where
  "weight_loop T ws stack memo =
     (case stack of
        [] \<Rightarrow> Some memo
      | (n, marked) # rest \<Rightarrow>
          if marked
          then weight_loop T ws rest
                 (memo(n \<mapsto> fold (\<lambda>c s. s + (case memo c of None \<Rightarrow> 0 | Some v \<Rightarrow> v)) (tree_children T n) (dict_get ws n 0)))
          else weight_loop T ws
                 (map (\<lambda>c. (c, False)) (filter (\<lambda>c. memo c = None) (tree_children T n)) @ (n, True) # rest) memo)"

declare weight_loop.simps [code]

definition cumulative_weight :: "block_tree \<Rightarrow> (string, int) dict \<Rightarrow> string \<Rightarrow> int option" where
  "cumulative_weight T ws n =
     map_option (\<lambda>memo. case memo n of Some v \<Rightarrow> v | None \<Rightarrow> dict_get ws n 0) (weight_loop T ws [(n, False)] Map.empty)"

section \<open>Fork choice\<close>

definition forest_roots :: "block_tree \<Rightarrow> string list" where
  "forest_roots T = map fst (filter (\<lambda>(h, d). tn_parent d = None) T)"

fun pick_root :: "block_tree \<Rightarrow> (string, int) dict \<Rightarrow> string list \<Rightarrow> string option \<times> int \<Rightarrow> (string option \<times> int) option" where
  "pick_root T ws [] best = Some best"
| "pick_root T ws (r # rs) (best, best_w) =
     (case cumulative_weight T ws r of
        None \<Rightarrow> None
      | Some cum \<Rightarrow>
          pick_root T ws rs
            (if best_w < cum \<or> cum = best_w \<and> (case best of None \<Rightarrow> True | Some b \<Rightarrow> r < b) then (Some r, cum) else (best, best_w)))"

definition pick_genesis :: "block_tree \<Rightarrow> (string, int) dict \<Rightarrow> string option option" where
  "pick_genesis T ws =
     (case forest_roots T of [] \<Rightarrow> Some None | [r] \<Rightarrow> Some (Some r) | rs \<Rightarrow> map_option fst (pick_root T ws rs (None, -1)))"

text \<open>The heaviest child; on a tie the higher number, then the smaller hash.\<close>

fun pick_child :: "block_tree \<Rightarrow> (string, int) dict \<Rightarrow> string list \<Rightarrow> string option \<times> int \<Rightarrow> (string option \<times> int) option" where
  "pick_child T ws [] best = Some best"
| "pick_child T ws (c # cs) (best, best_w) =
     (case cumulative_weight T ws c of
        None \<Rightarrow> None
      | Some cum \<Rightarrow>
          pick_child T ws cs
            (if best_w < cum then (Some c, cum)
             else if cum = best_w then
               (case best of
                  None \<Rightarrow> (best, best_w)
                | Some b \<Rightarrow> if tree_number T b < tree_number T c \<or> tree_number T c = tree_number T b \<and> c < b
                            then (Some c, best_w) else (best, best_w))
             else (best, best_w)))"

partial_function (option) head_loop :: "block_tree \<Rightarrow> (string, int) dict \<Rightarrow> string list \<Rightarrow> string \<Rightarrow> string option" where
  "head_loop T ws visited current =
     (if current \<in> set visited \<or> tree_children T current = [] then Some current
      else (case pick_child T ws (tree_children T current) (None, -1) of
              None \<Rightarrow> None
            | Some (None, bw) \<Rightarrow> Some current
            | Some (Some c, bw) \<Rightarrow> head_loop T ws (current # visited) c))"

declare head_loop.simps [code]

definition select_head :: "block_tree \<Rightarrow> (string, int) dict \<Rightarrow> string option option" where
  "select_head T ws =
     (if T = [] then Some None
      else (case pick_genesis T ws of
              None \<Rightarrow> None
            | Some None \<Rightarrow> Some None
            | Some (Some g) \<Rightarrow> map_option Some (head_loop T ws [] g)))"

section \<open>The walk computes subtree weights\<close>

text \<open>A tree: children have a smaller rank, so there is no cycle, and a block is the child of one block only, once.\<close>

definition tree_ok :: "block_tree \<Rightarrow> (string \<Rightarrow> nat) \<Rightarrow> bool" where
  "tree_ok T rank \<longleftrightarrow>
     (\<forall>n. distinct (tree_children T n) \<and> (\<forall>c\<in>set (tree_children T n). rank c < rank n)) \<and>
     (\<forall>m n c. c \<in> set (tree_children T m) \<longrightarrow> c \<in> set (tree_children T n) \<longrightarrow> m = n)"

definition below :: "block_tree \<Rightarrow> string \<Rightarrow> string set" where
  "below T n = {m. (\<lambda>a b. b \<in> set (tree_children T a))\<^sup>*\<^sup>* n m}"

definition subtree_weight :: "block_tree \<Rightarrow> (string, int) dict \<Rightarrow> string \<Rightarrow> int" where
  "subtree_weight T ws n = (\<Sum>m\<in>below T n. dict_get ws m 0)"

lemma below_self [simp]: "n \<in> below T n"
  by (simp add: below_def)

lemma below_step: "below T n = insert n (\<Union>c\<in>set (tree_children T n). below T c)"
  unfolding below_def by (auto elim: converse_rtranclpE intro: converse_rtranclp_into_rtranclp)

lemma child_below: "c \<in> set (tree_children T n) \<Longrightarrow> c \<in> below T n"
  by (auto simp: below_def)

lemma below_rank: "tree_ok T rank \<Longrightarrow> m \<in> below T n \<Longrightarrow> m = n \<or> rank m < rank n"
proof -
  assume ok: "tree_ok T rank" and m: "m \<in> below T n"
  have "(\<lambda>a b. b \<in> set (tree_children T a))\<^sup>*\<^sup>* n m" using m by (simp add: below_def)
  thus ?thesis
    by (induction rule: rtranclp_induct) (use ok in \<open>auto simp: tree_ok_def dest: less_trans\<close>)
qed

lemma below_finite: "tree_ok T rank \<Longrightarrow> finite (below T n)"
proof (induction "rank n" arbitrary: n rule: less_induct)
  case less
  hence "finite (below T c)" if "c \<in> set (tree_children T n)" for c using that by (auto simp: tree_ok_def)
  thus ?case by (subst below_step) simp
qed

text \<open>Two blocks with a common descendant lie on one path.\<close>

lemma below_chain: "tree_ok T rank \<Longrightarrow> x \<in> below T a \<Longrightarrow> x \<in> below T b \<Longrightarrow> a \<in> below T b \<or> b \<in> below T a"
proof -
  assume ok: "tree_ok T rank" and a: "x \<in> below T a" and b: "x \<in> below T b"
  let ?R = "\<lambda>a b. b \<in> set (tree_children T a)"
  have "?R\<^sup>*\<^sup>* a x" "?R\<^sup>*\<^sup>* b x" using a b by (simp_all add: below_def)
  thus ?thesis
  proof (induction arbitrary: b rule: rtranclp_induct)
    case base
    thus ?case by (simp add: below_def)
  next
    case (step y z)
    from step.prems show ?case
    proof (cases rule: rtranclp.cases)
      case rtrancl_refl
      hence "z \<in> below T a" using step.hyps by (auto simp: below_def intro: rtranclp.rtrancl_into_rtrancl)
      thus ?thesis using rtrancl_refl by (simp add: below_def)
    next
      case (rtrancl_into_rtrancl w)
      hence "w = y" using step.hyps(2) ok by (auto simp: tree_ok_def)
      thus ?thesis using step.IH rtrancl_into_rtrancl by blast
    qed
  qed
qed

lemma siblings_disjoint:
  assumes "tree_ok T rank" "c \<in> set (tree_children T n)" "d \<in> set (tree_children T n)" "c \<noteq> d"
  shows "below T c \<inter> below T d = {}"
proof (rule ccontr)
  assume "below T c \<inter> below T d \<noteq> {}"
  then obtain x where "x \<in> below T c" "x \<in> below T d" by blast
  hence "c \<in> below T d \<or> d \<in> below T c" using below_chain [OF assms(1)] by blast
  moreover have "\<not> u \<in> below T v" if uv: "u \<in> set (tree_children T n)" "v \<in> set (tree_children T n)" "u \<noteq> v" for u v
  proof
    assume "u \<in> below T v"
    hence "(\<lambda>a b. b \<in> set (tree_children T a))\<^sup>*\<^sup>* v u" by (simp add: below_def)
    thus False
    proof (cases rule: rtranclp.cases)
      case rtrancl_refl
      thus False using uv by simp
    next
      case (rtrancl_into_rtrancl w)
      hence "w = n" using uv assms(1) by (auto simp: tree_ok_def)
      hence "n \<in> below T v" using rtrancl_into_rtrancl by (simp add: below_def)
      thus False using below_rank [OF assms(1)] uv assms(1) by (fastforce simp: tree_ok_def)
    qed
  qed
  ultimately show False using assms by blast
qed

lemma subtree_weight_step:
  assumes "tree_ok T rank"
  shows "subtree_weight T ws n = dict_get ws n 0 + (\<Sum>c\<leftarrow>tree_children T n. subtree_weight T ws c)"
proof -
  let ?cs = "tree_children T n" and ?w = "\<lambda>m. dict_get ws m 0"
  have notin: "n \<notin> (\<Union>c\<in>set ?cs. below T c)"
  proof
    assume "n \<in> (\<Union>c\<in>set ?cs. below T c)"
    then obtain c where "c \<in> set ?cs" "n \<in> below T c" by blast
    thus False using below_rank [OF assms] assms by (fastforce simp: tree_ok_def)
  qed
  have "sum ?w (below T n) = ?w n + sum ?w (\<Union>c\<in>set ?cs. below T c)"
    by (subst below_step) (use notin below_finite [OF assms] in \<open>simp add: sum.insert\<close>)
  also have "sum ?w (\<Union>c\<in>set ?cs. below T c) = (\<Sum>c\<in>set ?cs. sum ?w (below T c))"
    by (rule sum.UNION_disjoint) (use below_finite [OF assms] siblings_disjoint [OF assms] in auto)
  also have "\<dots> = (\<Sum>c\<leftarrow>?cs. sum ?w (below T c))"
    using assms by (subst sum_list_distinct_conv_sum_set) (simp_all add: tree_ok_def)
  finally show ?thesis by (simp add: subtree_weight_def)
qed

text \<open>The memo holds subtree weights only, and popping a node puts its own in.\<close>

definition memo_ok :: "block_tree \<Rightarrow> (string, int) dict \<Rightarrow> (string \<rightharpoonup> int) \<Rightarrow> bool" where
  "memo_ok T ws memo \<longleftrightarrow> (\<forall>m v. memo m = Some v \<longrightarrow> v = subtree_weight T ws m)"

lemma fold_memo: "fold (\<lambda>c s. s + f c) cs (x :: int) = x + (\<Sum>c\<leftarrow>cs. f c)"
  by (induction cs arbitrary: x) (simp_all add: algebra_simps)

lemma weight_loop_node:
  assumes "tree_ok T rank" "memo_ok T ws memo"
  shows "\<exists>memo'. memo_ok T ws memo' \<and> memo \<subseteq>\<^sub>m memo' \<and> memo' n \<noteq> None \<and>
    weight_loop T ws ((n, False) # rest) memo = weight_loop T ws rest memo'"
  using assms(2)
proof (induction "rank n" arbitrary: n rest memo rule: less_induct)
  case less
  have children: "\<exists>memo'. memo_ok T ws memo' \<and> m \<subseteq>\<^sub>m memo' \<and> (\<forall>c\<in>set cs. memo' c \<noteq> None) \<and>
      weight_loop T ws (map (\<lambda>c. (c, False)) cs @ st) m = weight_loop T ws st memo'"
    if "set cs \<subseteq> set (tree_children T n)" "memo_ok T ws m" for cs st m
    using that
  proof (induction cs arbitrary: m)
    case (Cons c cs)
    have "rank c < rank n" using Cons.prems(1) assms(1) by (auto simp: tree_ok_def)
    then obtain m1 where m1: "memo_ok T ws m1" "m \<subseteq>\<^sub>m m1" "m1 c \<noteq> None"
        "weight_loop T ws ((c, False) # map (\<lambda>c. (c, False)) cs @ st) m = weight_loop T ws (map (\<lambda>c. (c, False)) cs @ st) m1"
      using less.hyps Cons.prems(2) by blast
    obtain m2 where m2: "memo_ok T ws m2" "m1 \<subseteq>\<^sub>m m2" "\<forall>c\<in>set cs. m2 c \<noteq> None"
        "weight_loop T ws (map (\<lambda>c. (c, False)) cs @ st) m1 = weight_loop T ws st m2"
      using Cons.IH [OF _ m1(1)] Cons.prems(1) by auto
    have "m2 c \<noteq> None" using m1(3) m2(2) by (metis domIff map_le_def)
    moreover have "m \<subseteq>\<^sub>m m2" by (rule map_le_trans [OF m1(2) m2(2)])
    ultimately show ?case using m1(4) m2 by (intro exI [of _ m2]) simp
  qed auto
  let ?cs = "filter (\<lambda>c. memo c = None) (tree_children T n)"
  obtain m where m: "memo_ok T ws m" "memo \<subseteq>\<^sub>m m" "\<forall>c\<in>set ?cs. m c \<noteq> None"
      "weight_loop T ws (map (\<lambda>c. (c, False)) ?cs @ (n, True) # rest) memo = weight_loop T ws ((n, True) # rest) m"
    using children [of ?cs memo "(n, True) # rest"] less.prems by auto
  have known: "m c = Some (subtree_weight T ws c)" if "c \<in> set (tree_children T n)" for c
  proof -
    have "m c \<noteq> None" using m(2,3) that by (cases "memo c") (auto simp: map_le_def dom_def)
    thus ?thesis using m(1) by (auto simp: memo_ok_def)
  qed
  let ?v = "fold (\<lambda>c s. s + (case m c of None \<Rightarrow> 0 | Some v \<Rightarrow> v)) (tree_children T n) (dict_get ws n 0)"
  have "?v = dict_get ws n 0 + (\<Sum>c\<leftarrow>tree_children T n. case m c of None \<Rightarrow> 0 | Some v \<Rightarrow> v)" by (rule fold_memo)
  also have "(\<Sum>c\<leftarrow>tree_children T n. case m c of None \<Rightarrow> 0 | Some v \<Rightarrow> v) = (\<Sum>c\<leftarrow>tree_children T n. subtree_weight T ws c)"
    using known by (intro arg_cong [where f = sum_list] map_cong) auto
  finally have v: "?v = subtree_weight T ws n" by (simp only: subtree_weight_step [OF assms(1), of ws n, symmetric])
  have "weight_loop T ws ((n, False) # rest) memo = weight_loop T ws ((n, True) # rest) m"
    using m(4) by (subst weight_loop.simps) simp
  also have "\<dots> = weight_loop T ws rest (m(n \<mapsto> ?v))"
    using weight_loop.simps [of T ws "(n, True) # rest" m] by (simp only: list.case prod.case if_True)
  finally have loop: "weight_loop T ws ((n, False) # rest) memo = weight_loop T ws rest (m(n \<mapsto> subtree_weight T ws n))"
    unfolding v .
  let ?m' = "m(n \<mapsto> subtree_weight T ws n)"
  have "memo \<subseteq>\<^sub>m ?m'" unfolding map_le_def
  proof
    fix x assume "x \<in> dom memo"
    then obtain v where x: "memo x = Some v" by blast
    hence "m x = Some v" using m(2) by (metis domI map_le_def)
    moreover have "v = subtree_weight T ws x" using less.prems x by (simp add: memo_ok_def)
    ultimately show "memo x = ?m' x" using x by simp
  qed
  moreover have "memo_ok T ws ?m'" using m(1) by (simp add: memo_ok_def)
  moreover have "?m' n \<noteq> None" by simp
  ultimately show ?case using loop by blast
qed

lemma cumulative_weight_ok:
  assumes "tree_ok T rank"
  shows "cumulative_weight T ws n = Some (subtree_weight T ws n)"
proof -
  obtain m where m: "memo_ok T ws m" "m n \<noteq> None" "weight_loop T ws [(n, False)] Map.empty = weight_loop T ws [] m"
    using weight_loop_node [OF assms, of ws Map.empty n "[]"] by (auto simp: memo_ok_def)
  have "weight_loop T ws [] m = Some m" by (subst weight_loop.simps) simp
  thus ?thesis using m by (auto simp: cumulative_weight_def memo_ok_def)
qed

section \<open>The head is below every majority block\<close>

lemma subtree_weight_nonneg: "\<forall>m. 0 \<le> dict_get ws m 0 \<Longrightarrow> 0 \<le> subtree_weight T ws n"
  unfolding subtree_weight_def by (rule sum_nonneg) blast

lemma pick_child_spec:
  assumes "tree_ok T rank"
  shows "pick_child T ws cs (b, w) = Some (b', w') \<Longrightarrow> (\<forall>x. b = Some x \<longrightarrow> w = subtree_weight T ws x) \<Longrightarrow>
    (\<forall>c\<in>set cs. subtree_weight T ws c \<le> w') \<and> w \<le> w' \<and>
    (b' = b \<and> w' = w \<or> (\<exists>c\<in>set cs. b' = Some c) \<and> (\<forall>x. b' = Some x \<longrightarrow> w' = subtree_weight T ws x))"
proof (induction cs arbitrary: b w)
  case (Cons c cs)
  note cum = cumulative_weight_ok [OF assms, of ws c]
  show ?case
  proof (cases "w < subtree_weight T ws c \<or> subtree_weight T ws c = w \<and> (\<exists>x. b = Some x \<and>
      (tree_number T x < tree_number T c \<or> tree_number T c = tree_number T x \<and> c < x))")
    case True
    hence "pick_child T ws cs (Some c, subtree_weight T ws c) = Some (b', w')"
      using Cons.prems(1) cum by (auto split: if_splits)
    from Cons.IH [OF this] show ?thesis using True by auto
  next
    case False
    hence "pick_child T ws cs (b, w) = Some (b', w')"
      using Cons.prems(1) cum by (auto split: if_splits option.splits)
    from Cons.IH [OF this Cons.prems(2)] show ?thesis using False by auto
  qed
qed auto

lemma pick_child_total: "tree_ok T rank \<Longrightarrow> \<exists>r. pick_child T ws cs bw = Some r"
proof (induction cs arbitrary: bw)
  case (Cons c cs)
  show ?case using Cons by (cases bw) (simp add: cumulative_weight_ok)
qed simp

lemma pick_heaviest:
  assumes "tree_ok T rank" "\<forall>m. 0 \<le> dict_get ws m 0" "cs \<noteq> []"
  obtains c where "pick_child T ws cs (None, -1) = Some (Some c, subtree_weight T ws c)" "c \<in> set cs"
    "\<forall>d\<in>set cs. subtree_weight T ws d \<le> subtree_weight T ws c"
proof -
  obtain b w where p: "pick_child T ws cs (None, -1) = Some (b, w)"
    using pick_child_total [OF assms(1), of ws cs "(None, -1)"] by auto
  have spec: "(\<forall>c\<in>set cs. subtree_weight T ws c \<le> w) \<and> (b = None \<and> w = -1 \<or> (\<exists>c\<in>set cs. b = Some c) \<and>
      (\<forall>x. b = Some x \<longrightarrow> w = subtree_weight T ws x))"
    using pick_child_spec [OF assms(1) p] by auto
  obtain c where "c \<in> set cs" using assms(3) by (cases cs) auto
  hence "0 \<le> w" using spec subtree_weight_nonneg [OF assms(2), of T c] by fastforce
  thus thesis using that spec p by auto
qed

lemma subtree_weight_below:
  assumes "tree_ok T rank" "\<forall>m. 0 \<le> dict_get ws m 0" "b \<in> below T n"
  shows "subtree_weight T ws b \<le> subtree_weight T ws n"
proof -
  have "below T b \<subseteq> below T n" using assms(3) by (auto simp: below_def intro: rtranclp_trans)
  thus ?thesis unfolding subtree_weight_def using below_finite [OF assms(1)] assms(2) by (intro sum_mono2) auto
qed

lemma two_children:
  assumes "tree_ok T rank" "\<forall>m. 0 \<le> dict_get ws m 0" "c \<in> set (tree_children T n)" "d \<in> set (tree_children T n)" "c \<noteq> d"
  shows "subtree_weight T ws c + subtree_weight T ws d \<le> subtree_weight T ws n"
proof -
  let ?W = "subtree_weight T ws" and ?cs = "tree_children T n"
  have "(\<Sum>x\<in>{c, d}. ?W x) \<le> (\<Sum>x\<in>set ?cs. ?W x)"
    using assms(3,4) subtree_weight_nonneg [OF assms(2)] by (intro sum_mono2) auto
  also have "(\<Sum>x\<in>set ?cs. ?W x) = (\<Sum>x\<leftarrow>?cs. ?W x)"
    using assms(1) by (subst sum_list_distinct_conv_sum_set) (simp_all add: tree_ok_def)
  also have "\<dots> \<le> ?W n" using assms(2) by (subst subtree_weight_step [OF assms(1), of ws n]) simp
  finally show ?thesis using assms(5) by simp
qed

lemma head_loop_majority:
  assumes "tree_ok T rank" "\<forall>m. 0 \<le> dict_get ws m 0" "\<forall>v\<in>set visited. rank n < rank v"
  shows "\<exists>h. head_loop T ws visited n = Some h \<and> h \<in> below T n \<and> tree_children T h = [] \<and>
    (\<forall>b\<in>below T n. subtree_weight T ws n < 2 * subtree_weight T ws b \<longrightarrow> h \<in> below T b)"
  using assms(3)
proof (induction "rank n" arbitrary: n visited rule: less_induct)
  case less
  let ?W = "subtree_weight T ws"
  have fresh: "n \<notin> set visited" using less.prems by auto
  show ?case
  proof (cases "tree_children T n = []")
    case True
    hence "below T n = {n}" by (subst below_step) simp
    thus ?thesis using True by (subst head_loop.simps) simp
  next
    case False
    obtain c where c: "pick_child T ws (tree_children T n) (None, -1) = Some (Some c, ?W c)" "c \<in> set (tree_children T n)"
        "\<forall>d\<in>set (tree_children T n). ?W d \<le> ?W c" by (rule pick_heaviest [OF assms(1,2) False])
    have rc: "rank c < rank n" using c(2) assms(1) by (auto simp: tree_ok_def)
    have vis: "\<forall>v\<in>set (n # visited). rank c < rank v" using rc less.prems by auto
    obtain h where h: "head_loop T ws (n # visited) c = Some h" "h \<in> below T c" "tree_children T h = []"
        "\<forall>b\<in>below T c. ?W c < 2 * ?W b \<longrightarrow> h \<in> below T b" using less.hyps [OF rc vis] by blast
    have loop: "head_loop T ws visited n = Some h" using c(1) h(1) fresh False by (subst head_loop.simps) simp
    have cn: "h \<in> below T n" using h(2) c(2) by (subst below_step) auto
    have "h \<in> below T b" if b: "b \<in> below T n" "?W n < 2 * ?W b" for b
    proof (cases "b = n")
      case True
      thus ?thesis using cn by simp
    next
      case bn: False
      then obtain d where d: "d \<in> set (tree_children T n)" "b \<in> below T d" using b(1) by (subst (asm) below_step) auto
      have bd: "?W b \<le> ?W d" by (rule subtree_weight_below [OF assms(1,2) d(2)])
      have dc: "?W d \<le> ?W c" using c(3) d(1) by blast
      have "d = c"
      proof (rule ccontr)
        assume "d \<noteq> c"
        thus False using two_children [OF assms(1,2) c(2) d(1)] b(2) bd dc by simp
      qed
      moreover have "?W c \<le> ?W n"
        by (rule subtree_weight_below [OF assms(1,2) child_below [OF c(2)]])
      ultimately show ?thesis using h(4) d(2) b(2) by auto
    qed
    thus ?thesis using loop cn h(3) by blast
  qed
qed

lemma pick_root_spec:
  assumes "tree_ok T rank"
  shows "\<exists>b' w'. pick_root T ws rs (b, w) = Some (b', w') \<and>
    ((\<forall>x. b = Some x \<longrightarrow> w = subtree_weight T ws x) \<longrightarrow>
    (\<forall>c\<in>set rs. subtree_weight T ws c \<le> w') \<and> w \<le> w' \<and>
    (b' = b \<and> w' = w \<or> (\<exists>c\<in>set rs. b' = Some c) \<and> (\<forall>x. b' = Some x \<longrightarrow> w' = subtree_weight T ws x)))"
proof (induction rs arbitrary: b w)
  case (Cons c cs)
  note cum = cumulative_weight_ok [OF assms, of ws c]
  show ?case
  proof (cases "w < subtree_weight T ws c \<or> subtree_weight T ws c = w \<and> (case b of None \<Rightarrow> True | Some x \<Rightarrow> c < x)")
    case True
    have go: "pick_root T ws (c # cs) (b, w) = pick_root T ws cs (Some c, subtree_weight T ws c)" using True cum by simp
    obtain b' w' where r: "pick_root T ws cs (Some c, subtree_weight T ws c) = Some (b', w')"
        "(\<forall>c\<in>set cs. subtree_weight T ws c \<le> w') \<and> subtree_weight T ws c \<le> w' \<and>
         (b' = Some c \<and> w' = subtree_weight T ws c \<or> (\<exists>c\<in>set cs. b' = Some c) \<and> (\<forall>x. b' = Some x \<longrightarrow> w' = subtree_weight T ws x))"
      using Cons.IH [of "Some c" "subtree_weight T ws c"] by auto
    have "w \<le> w'" using r(2) True by auto
    thus ?thesis using r go by auto
  next
    case False
    have go: "pick_root T ws (c # cs) (b, w) = pick_root T ws cs (b, w)"
      by (simp only: pick_root.simps cum option.case False if_False)
    have le: "subtree_weight T ws c \<le> w" using False by simp
    obtain b' w' where r: "pick_root T ws cs (b, w) = Some (b', w')"
        "(\<forall>x. b = Some x \<longrightarrow> w = subtree_weight T ws x) \<longrightarrow> (\<forall>c\<in>set cs. subtree_weight T ws c \<le> w') \<and> w \<le> w' \<and>
         (b' = b \<and> w' = w \<or> (\<exists>c\<in>set cs. b' = Some c) \<and> (\<forall>x. b' = Some x \<longrightarrow> w' = subtree_weight T ws x))"
      using Cons.IH [of b w] by blast
    show ?thesis unfolding go
      by (rule exI [of _ b'], rule exI [of _ w']) (use r le in \<open>auto intro: order_trans\<close>)
  qed
qed simp

lemma select_head_majority:
  assumes ok: "tree_ok T rank" and pos: "\<forall>m. 0 \<le> dict_get ws m 0"
    and roots: "distinct (forest_roots T)" "r \<in> set (forest_roots T)" "b \<in> below T r"
    and major: "(\<Sum>x\<leftarrow>forest_roots T. subtree_weight T ws x) < 2 * subtree_weight T ws b"
  shows "\<exists>h. select_head T ws = Some (Some h) \<and> h \<in> below T b \<and> tree_children T h = []"
proof -
  let ?W = "subtree_weight T ws" and ?rs = "forest_roots T"
  have br: "?W b \<le> ?W r" by (rule subtree_weight_below [OF ok pos roots(3)])
  have sum: "(\<Sum>x\<leftarrow>?rs. ?W x) = (\<Sum>x\<in>set ?rs. ?W x)" by (rule sum_list_distinct_conv_sum_set [OF roots(1)])
  have le1: "?W x \<le> (\<Sum>x\<in>set ?rs. ?W x)" if "x \<in> set ?rs" for x
    using that subtree_weight_nonneg [OF pos] by (intro member_le_sum) auto
  have other: "?W x < ?W r" if x: "x \<in> set ?rs" "x \<noteq> r" for x
  proof -
    have "(\<Sum>y\<in>{x, r}. ?W y) \<le> (\<Sum>y\<in>set ?rs. ?W y)"
      using x roots(2) subtree_weight_nonneg [OF pos] by (intro sum_mono2) auto
    thus ?thesis using x(2) br major sum by simp
  qed
  have pick: "pick_genesis T ws = Some (Some r)"
  proof (cases "?rs = [r]")
    case True
    thus ?thesis by (simp add: pick_genesis_def)
  next
    case False
    obtain b' w' where p: "pick_root T ws ?rs (None, -1) = Some (b', w')"
      "(\<forall>c\<in>set ?rs. ?W c \<le> w') \<and> (b' = None \<and> w' = -1 \<or> (\<exists>c\<in>set ?rs. b' = Some c) \<and> (\<forall>x. b' = Some x \<longrightarrow> w' = ?W x))"
      using pick_root_spec [OF ok, of ws ?rs None "-1"] by auto
    have "0 \<le> w'" using p(2) roots(2) subtree_weight_nonneg [OF pos, of T r] by fastforce
    then obtain c where c: "c \<in> set ?rs" "b' = Some c" "w' = ?W c" using p(2) by auto
    have "c = r" using other [OF c(1)] p(2) c(3) roots(2) by fastforce
    thus ?thesis using p(1) c(2) False roots(2) unfolding pick_genesis_def by (cases ?rs; cases "tl ?rs") auto
  qed
  have "T \<noteq> []" using roots(2) by (auto simp: forest_roots_def)
  obtain h where h: "head_loop T ws [] r = Some h" "h \<in> below T r" "tree_children T h = []"
      "\<forall>b\<in>below T r. ?W r < 2 * ?W b \<longrightarrow> h \<in> below T b"
    using head_loop_majority [OF ok pos, of "[]" r] by auto
  have "?W r < 2 * ?W b" using major le1 [OF roots(2)] sum by simp
  thus ?thesis using h roots(3) pick \<open>T \<noteq> []\<close> by (auto simp: select_head_def)
qed

section \<open>Trees built by \<open>add_block\<close>\<close>

text \<open>Every hash has one parent, of smaller height: what hashing the parent into a block gives.\<close>

definition linked_blocks :: "(string \<Rightarrow> string option) \<Rightarrow> (string \<Rightarrow> nat) \<Rightarrow> (string \<times> string option \<times> int) list \<Rightarrow> bool" where
  "linked_blocks par height bs \<longleftrightarrow>
     (\<forall>(h, p, n)\<in>set bs. p = par h \<and> (\<forall>q. p = Some q \<longrightarrow> q \<noteq> '''' \<and> height q < height h))"

definition build_tree :: "(string \<times> string option \<times> int) list \<Rightarrow> block_tree" where
  "build_tree bs = fold (\<lambda>(h, p, n). tree_add h p n) bs []"

definition tree_parent :: "block_tree \<Rightarrow> string \<Rightarrow> string option" where
  "tree_parent T n = (case map_of T n of None \<Rightarrow> None | Some d \<Rightarrow> tn_parent d)"

definition tree_inv :: "(string \<Rightarrow> string option) \<Rightarrow> (string \<Rightarrow> nat) \<Rightarrow> block_tree \<Rightarrow> bool" where
  "tree_inv par height T \<longleftrightarrow>
     distinct (dict_keys T) \<and> (\<forall>n. distinct (tree_children T n)) \<and>
     (\<forall>n c. c \<in> set (tree_children T n) \<longleftrightarrow> tree_parent T c = Some n) \<and>
     (\<forall>n q. tree_parent T n = Some q \<longrightarrow> par n = Some q \<and> height q < height n \<and> map_of T q \<noteq> None)"

lemma tree_inv_Nil [simp]: "tree_inv par height []"
  by (simp add: tree_inv_def tree_children_def tree_parent_def)

lemma tree_children_set: "tree_children (dict_set n d T) m = (if m = n then tn_children d else tree_children T m)"
  by (simp add: tree_children_def update_conv)

lemma tree_parent_set: "tree_parent (dict_set n d T) m = (if m = n then tn_parent d else tree_parent T m)"
  by (simp add: tree_parent_def update_conv)

lemma tree_children_modify:
  "tree_children (dict_modify n f T) m =
     (if m = n then (case map_of T n of None \<Rightarrow> [] | Some d \<Rightarrow> tn_children (f d)) else tree_children T m)"
  by (simp add: tree_children_def dict_modify_get split: option.splits)

lemma tree_parent_modify:
  "tree_parent (dict_modify n f T) m =
     (if m = n then (case map_of T n of None \<Rightarrow> None | Some d \<Rightarrow> tn_parent (f d)) else tree_parent T m)"
  by (simp add: tree_parent_def dict_modify_get split: option.splits)

lemma key_map_of: "n \<in> set (dict_keys T) \<longleftrightarrow> map_of T n \<noteq> None"
  by (simp add: map_of_eq_None_iff)

text \<open>What one call does to the keys, the parents and the children.\<close>

lemma record_facts:
  "map_of (tree_record h p number T) n \<noteq> None \<longleftrightarrow> map_of T n \<noteq> None \<or> n = h"
  "tree_parent (tree_record h p number T) m = (if m = h \<and> tree_parent T h = None then p else tree_parent T m)"
  "tree_children (tree_record h p number T) m = tree_children T m"
proof -
  show "map_of (tree_record h p number T) n \<noteq> None \<longleftrightarrow> map_of T n \<noteq> None \<or> n = h"
    by (cases "map_of T h") (auto simp: tree_record_def update_conv)
  show "tree_parent (tree_record h p number T) m = (if m = h \<and> tree_parent T h = None then p else tree_parent T m)"
    by (cases "map_of T h"; auto simp: tree_record_def tree_parent_set; auto simp: tree_parent_def)
  show "tree_children (tree_record h p number T) m = tree_children T m"
    by (cases "map_of T h"; auto simp: tree_record_def tree_children_set; simp add: tree_children_def)
qed

lemma attach_facts:
  "map_of (tree_attach h q T) n \<noteq> None \<longleftrightarrow> map_of T n \<noteq> None \<or> n = q"
  "tree_parent (tree_attach h q T) m = tree_parent T m"
  "tree_children (tree_attach h q T) m =
     (if m = q \<and> h \<notin> set (tree_children T m) then tree_children T m @ [h] else tree_children T m)"
  by (cases "map_of T q"; simp add: tree_attach_def Let_def dict_modify_get tree_parent_modify tree_children_modify
      tree_parent_set tree_children_set update_conv; simp add: tree_parent_def tree_children_def)+

lemma record_distinct: "distinct (dict_keys T) \<Longrightarrow> distinct (dict_keys (tree_record h p number T))"
  by (cases "map_of T h") (simp_all add: tree_record_def dict_set_keys)

lemma attach_distinct: "distinct (dict_keys T) \<Longrightarrow> distinct (dict_keys (tree_attach h q T))"
  by (simp add: tree_attach_def Let_def dict_set_keys)

lemma tree_add_keys:
  "p \<noteq> Some '''' \<Longrightarrow> map_of (tree_add h p number T) n \<noteq> None \<longleftrightarrow> map_of T n \<noteq> None \<or> n = h \<or> p = Some n"
  by (cases p) (auto simp: tree_add_def attach_facts(1) record_facts(1) simp del: not_None_eq)

lemma tree_add_distinct: "distinct (dict_keys T) \<Longrightarrow> distinct (dict_keys (tree_add h p number T))"
  by (simp add: tree_add_def Let_def record_distinct attach_distinct split: option.split)

lemma tree_add_parent:
  "p \<noteq> Some '''' \<Longrightarrow> tree_parent (tree_add h p number T) m = (if m = h \<and> tree_parent T h = None then p else tree_parent T m)"
  by (cases p) (simp_all add: tree_add_def attach_facts record_facts)

lemma tree_add_children:
  "p \<noteq> Some '''' \<Longrightarrow> tree_children (tree_add h p number T) m =
     (if p = Some m \<and> h \<notin> set (tree_children T m) then tree_children T m @ [h] else tree_children T m)"
  by (cases p) (auto simp: tree_add_def attach_facts record_facts)

lemma tree_inv_add:
  assumes inv: "tree_inv par height T" and p: "p = par h" "\<forall>q. p = Some q \<longrightarrow> q \<noteq> '''' \<and> height q < height h"
  shows "tree_inv par height (tree_add h p number T)"
proof -
  have ne: "p \<noteq> Some ''''" using p(2) by auto
  have old: "tree_parent T h = None \<or> tree_parent T h = p"
    using inv p(1) by (cases "tree_parent T h") (simp_all add: tree_inv_def)
  have par': "tree_parent (tree_add h p number T) m = (if m = h then p else tree_parent T m)" for m
    using old by (auto simp: tree_add_parent [OF ne])
  show ?thesis unfolding tree_inv_def
  proof (intro conjI allI)
    show "distinct (dict_keys (tree_add h p number T))" using inv by (simp add: tree_inv_def tree_add_distinct)
    show "distinct (tree_children (tree_add h p number T) n)" for n
      using inv by (simp add: tree_inv_def tree_add_children [OF ne])
    show "c \<in> set (tree_children (tree_add h p number T) n) \<longleftrightarrow> tree_parent (tree_add h p number T) c = Some n" for n c
    proof (cases "c = h")
      case True
      have "h \<in> set (tree_children T n) \<longleftrightarrow> tree_parent T h = Some n" using inv by (simp add: tree_inv_def)
      thus ?thesis using True old by (auto simp: par' tree_add_children [OF ne])
    next
      case False
      have "c \<in> set (tree_children T n) \<longleftrightarrow> tree_parent T c = Some n" using inv by (simp add: tree_inv_def)
      thus ?thesis using False by (simp add: par' tree_add_children [OF ne])
    qed
    show "tree_parent (tree_add h p number T) n = Some q \<longrightarrow> par n = Some q \<and> height q < height n \<and>
        map_of (tree_add h p number T) q \<noteq> None" for n q
      unfolding tree_add_keys [OF ne] using inv p unfolding tree_inv_def par' by (cases "n = h") (simp, meson)
  qed
qed

lemma build_tree_inv:
  assumes "linked_blocks par height bs"
  shows "tree_inv par height (build_tree bs)"
proof -
  have "tree_inv par height T \<Longrightarrow> tree_inv par height (fold (\<lambda>(h, p, n). tree_add h p n) bs T)" for T
    using assms
  proof (induction bs arbitrary: T)
    case (Cons b bs)
    obtain h p n where b: "b = (h, p, n)" by (cases b)
    have "tree_inv par height (tree_add h p n T)"
      by (rule tree_inv_add) (use Cons.prems b in \<open>auto simp: linked_blocks_def\<close>)
    thus ?case using Cons.IH Cons.prems(2) b by (simp add: linked_blocks_def)
  qed simp
  thus ?thesis by (simp add: build_tree_def)
qed

text \<open>A tree with the invariant has no cycle: the rank of a block is its depth below the highest one.\<close>

definition tree_rank :: "(string \<Rightarrow> nat) \<Rightarrow> block_tree \<Rightarrow> string \<Rightarrow> nat" where
  "tree_rank height T n = sum_list (map height (dict_keys T)) - height n"

lemma tree_inv_ok: "tree_inv par height T \<Longrightarrow> tree_ok T (tree_rank height T)"
proof -
  assume inv: "tree_inv par height T"
  have "tree_rank height T c < tree_rank height T n" if c: "c \<in> set (tree_children T n)" for n c
  proof -
    have p: "tree_parent T c = Some n" using inv c by (simp add: tree_inv_def)
    hence "c \<in> set (dict_keys T)" by (auto simp: tree_parent_def key_map_of simp del: set_map split: option.splits)
    hence "height c \<le> sum_list (map height (dict_keys T))" by (intro member_le_sum_list) auto
    moreover have "height n < height c" using inv p by (simp add: tree_inv_def)
    ultimately show ?thesis by (simp add: tree_rank_def)
  qed
  thus ?thesis using inv by (auto simp: tree_ok_def tree_inv_def)
qed

lemma tree_inv_root:
  assumes inv: "tree_inv par height T" and n: "map_of T n \<noteq> None"
  shows "\<exists>r\<in>set (forest_roots T). n \<in> below T r"
  using n
proof (induction "height n" arbitrary: n rule: less_induct)
  case less
  then obtain d where d: "map_of T n = Some d" by blast
  show ?case
  proof (cases "tn_parent d")
    case None
    hence "n \<in> set (forest_roots T)" using d by (force simp: forest_roots_def dest: map_of_SomeD)
    thus ?thesis using below_self by blast
  next
    case (Some q)
    hence tp: "tree_parent T n = Some q" using d by (simp add: tree_parent_def)
    hence q: "height q < height n" "map_of T q \<noteq> None" "n \<in> set (tree_children T q)" using inv unfolding tree_inv_def by blast+
    obtain r where "r \<in> set (forest_roots T)" "q \<in> below T r" using less.hyps [OF q(1,2)] by blast
    thus ?thesis using q(3) by (auto simp: below_def intro: rtranclp.rtrancl_into_rtrancl)
  qed
qed

lemma forest_roots_distinct: "tree_inv par height T \<Longrightarrow> distinct (forest_roots T)"
  by (auto simp: forest_roots_def tree_inv_def distinct_map intro: inj_on_subset)

lemma root_no_parent: "tree_inv par height T \<Longrightarrow> r \<in> set (forest_roots T) \<Longrightarrow> tree_parent T r = None"
  by (auto simp: forest_roots_def tree_inv_def tree_parent_def map_of_eq_Some_iff)

section \<open>The weights of the latest votes\<close>

definition lmd_ok :: "lmd_table \<Rightarrow> bool" where
  "lmd_ok t \<longleftrightarrow> distinct (dict_keys (lm_votes t)) \<and> (\<forall>v. 0 \<le> dict_get (lm_stakes t) v 0)"

lemma lmd_ok_new: "lmd_ok new_lmd"
  by (simp add: lmd_ok_def new_lmd_def dict_get_def)

lemma lmd_ok_add: "lmd_ok t \<Longrightarrow> 0 \<le> stake \<Longrightarrow> lmd_ok (lmd_add_validator v stake t)"
  by (simp add: lmd_ok_def lmd_add_validator_def dict_get_def update_conv)

lemma lmd_ok_update: "lmd_ok t \<Longrightarrow> lmd_ok (fst (lmd_update v h slot t))"
  by (auto simp: lmd_ok_def lmd_update_def Let_def dict_set_keys split: option.splits)

text \<open>The stake of the validators whose latest vote is for a block of a set.\<close>

definition voted_stake :: "lmd_table \<Rightarrow> string set \<Rightarrow> int" where
  "voted_stake t B = (\<Sum>(v, h, k)\<leftarrow>lm_votes t. if h \<in> B then dict_get (lm_stakes t) v 0 else 0)"

lemma fold_weights:
  "dict_get (fold (\<lambda>(v, h, k) ws. dict_set h (dict_get ws h 0 + f v) ws) xs ws) b 0 =
     dict_get ws b 0 + (\<Sum>(v, h, k)\<leftarrow>xs. if h \<in> {b} then f v else 0)"
  for f :: "string \<Rightarrow> int"
  by (induction xs arbitrary: ws) (auto simp: dict_get_def update_conv)

lemma lmd_weights_get: "dict_get (lmd_weights t) b 0 = voted_stake t {b}"
  unfolding lmd_weights_def fold_weights by (simp add: voted_stake_def dict_get_def)

lemma voted_stake_UNION:
  assumes "finite I" "\<And>i j. i \<in> I \<Longrightarrow> j \<in> I \<Longrightarrow> i \<noteq> j \<Longrightarrow> B i \<inter> B j = {}"
  shows "(\<Sum>i\<in>I. voted_stake t (B i)) = voted_stake t (\<Union>i\<in>I. B i)"
proof -
  have "(\<Sum>i\<in>I. \<Sum>(v, h, k)\<leftarrow>xs. if h \<in> B i then f v else 0) = (\<Sum>(v, h, k)\<leftarrow>xs. if h \<in> (\<Union>i\<in>I. B i) then f v else 0)"
    for xs :: "(string \<times> string \<times> int) list" and f :: "string \<Rightarrow> int"
  proof (induction xs)
    case (Cons x xs)
    obtain v h k where x: "x = (v, h, k)" by (cases x)
    have one: "(\<Sum>i\<in>I. if h \<in> B i then f v else 0) = (if h \<in> (\<Union>i\<in>I. B i) then f v else 0)"
    proof (cases "\<exists>i\<in>I. h \<in> B i")
      case True
      then obtain i where i: "i \<in> I" "h \<in> B i" by blast
      have "(\<Sum>j\<in>I. if h \<in> B j then f v else 0) = (\<Sum>j\<in>I. if i = j then f v else 0)"
        by (rule sum.cong) (use i assms(2) in \<open>fastforce+\<close>)
      thus ?thesis using i assms(1) by auto
    qed auto
    show ?case using Cons.IH one by (simp add: x sum.distrib)
  qed simp
  thus ?thesis by (simp add: voted_stake_def)
qed

lemma voted_stake_sum: "finite B \<Longrightarrow> (\<Sum>b\<in>B. voted_stake t {b}) = voted_stake t B"
  by (subst voted_stake_UNION) auto

lemma voted_stake_nonneg: "lmd_ok t \<Longrightarrow> 0 \<le> voted_stake t B"
  unfolding voted_stake_def by (rule sum_list_nonneg) (auto simp: lmd_ok_def)

lemma voted_stake_mono: "lmd_ok t \<Longrightarrow> B \<subseteq> C \<Longrightarrow> voted_stake t B \<le> voted_stake t C"
  unfolding voted_stake_def by (rule sum_list_mono) (auto simp: lmd_ok_def)

lemma subtree_weight_votes: "tree_ok T rank \<Longrightarrow> subtree_weight T (lmd_weights t) n = voted_stake t (below T n)"
  by (simp add: subtree_weight_def lmd_weights_get voted_stake_sum below_finite)

lemma roots_apart:
  assumes "tree_inv par height T" "r \<in> set (forest_roots T)" "q \<in> set (forest_roots T)" "r \<noteq> q"
  shows "below T r \<inter> below T q = {}"
proof (rule ccontr)
  assume "below T r \<inter> below T q \<noteq> {}"
  then obtain x where "x \<in> below T r" "x \<in> below T q" by blast
  hence "r \<in> below T q \<or> q \<in> below T r" using below_chain [OF tree_inv_ok [OF assms(1)]] by blast
  moreover have "\<not> u \<in> below T w" if u: "tree_parent T u = None" "u \<noteq> w" for u w
  proof
    assume "u \<in> below T w"
    hence "(\<lambda>a b. b \<in> set (tree_children T a))\<^sup>*\<^sup>* w u" by (simp add: below_def)
    thus False by (cases rule: rtranclp.cases) (use u assms(1) in \<open>auto simp: tree_inv_def\<close>)
  qed
  ultimately show False using root_no_parent [OF assms(1)] assms(2-4) by metis
qed

lemma roots_weight:
  assumes inv: "tree_inv par height T" and ok: "lmd_ok t"
  shows "(\<Sum>r\<leftarrow>forest_roots T. subtree_weight T (lmd_weights t) r) \<le> voted_stake t UNIV"
proof -
  have "(\<Sum>r\<leftarrow>forest_roots T. subtree_weight T (lmd_weights t) r) = (\<Sum>r\<in>set (forest_roots T). voted_stake t (below T r))"
    using forest_roots_distinct [OF inv]
    by (simp add: sum_list_distinct_conv_sum_set subtree_weight_votes [OF tree_inv_ok [OF inv]])
  also have "\<dots> = voted_stake t (\<Union>r\<in>set (forest_roots T). below T r)"
    by (rule voted_stake_UNION) (use roots_apart [OF inv] in auto)
  also have "\<dots> \<le> voted_stake t UNIV" by (rule voted_stake_mono [OF ok]) simp
  finally show ?thesis .
qed

end
