(* ===== verification/Ghost_Props.thy ===== *)
theory Ghost_Props
  imports Ghost
begin

text \<open>
  The fork choice on the trees the engines build: the weight the iterative walk returns is the stake voting in the
  subtree, a majority subtree holds the head, and the head does not depend on the order in which blocks and votes came.
\<close>

section \<open>Weights and majorities\<close>


text \<open>Two forks of a genesis block: the parents, the heights, and the blocks in an order with a parent still missing.\<close>

definition fork_parent :: "string \<Rightarrow> string option" where
  "fork_parent h = (if h = ''a'' \<or> h = ''b'' then Some ''g'' else if h = ''c'' then Some ''a'' else None)"

definition fork_height :: "string \<Rightarrow> nat" where
  "fork_height h = (if h = ''g'' then 0 else if h = ''c'' then 2 else 1)"

definition fork_blocks :: "(string \<times> string option \<times> int) list" where
  "fork_blocks = [(''c'', Some ''a'', 2), (''g'', None, 0), (''a'', Some ''g'', 1), (''b'', Some ''g'', 1)]"

definition fork_votes :: lmd_table where
  "fork_votes = \<lparr>lm_votes = [(''v1'', ''a'', 3), (''v2'', ''c'', 4), (''v3'', ''b'', 2)], lm_stakes = [(''v1'', 10), (''v2'', 20), (''v3'', 25)]\<rparr>"

lemma fork_linked: "linked_blocks fork_parent fork_height fork_blocks"
  by (simp add: linked_blocks_def fork_blocks_def fork_parent_def fork_height_def)

lemma fork_lmd_ok: "lmd_ok fork_votes"
  by (auto simp: lmd_ok_def fork_votes_def dict_get_def)




section \<open>The head does not depend on the order of arrival\<close>

text \<open>What the tree holds after the blocks \<open>H\<close>, each with its own parent and number.\<close>

definition tree_of :: "(string \<Rightarrow> string option) \<Rightarrow> (string \<Rightarrow> int) \<Rightarrow> string set \<Rightarrow> block_tree \<Rightarrow> bool" where
  "tree_of par num H T \<longleftrightarrow>
     (\<forall>n. map_of T n \<noteq> None \<longleftrightarrow> n \<in> H \<or> (\<exists>h\<in>H. par h = Some n)) \<and>
     (\<forall>n. tree_parent T n = (if n \<in> H then par n else None)) \<and>
     (\<forall>n. tree_number T n = (if n \<in> H then num n else 0))"

lemma tree_number_set: "tree_number (dict_set n d T) m = (if m = n then tn_number d else tree_number T m)"
  by (simp add: tree_number_def update_conv)

lemma tree_number_add:
  assumes "p \<noteq> Some ''''" "p \<noteq> Some h"
  shows "tree_number (tree_add h p number T) m = (if m = h then number else tree_number T m)"
proof -
  have rec: "tree_number (tree_record h r number T) m = (if m = h then number else tree_number T m)" for r m
    by (cases "map_of T h") (simp_all add: tree_record_def tree_number_set)
  have att: "tree_number (tree_attach h q U) m = tree_number U m" for q U
    by (cases "map_of U q"; auto simp: tree_attach_def Let_def dict_modify_def tree_number_set update_conv; simp add: tree_number_def)
  show ?thesis using assms(1) by (cases p) (simp_all add: tree_add_def rec att)
qed

lemma tree_of_add:
  assumes "tree_of par num H T" "par h \<noteq> Some ''''" "par h \<noteq> Some h"
  shows "tree_of par num (insert h H) (tree_add h (par h) (num h) T)"
proof -
  have "tree_parent T h = None \<or> tree_parent T h = par h" using assms(1) by (simp add: tree_of_def)
  thus ?thesis using assms(1)
    unfolding tree_of_def tree_add_keys [OF assms(2)] tree_add_parent [OF assms(2)] tree_number_add [OF assms(2,3)]
    by (intro conjI allI) (auto simp del: not_None_eq split: if_splits)
qed

definition numbered_blocks :: "(string \<Rightarrow> int) \<Rightarrow> (string \<times> string option \<times> int) list \<Rightarrow> bool" where
  "numbered_blocks num bs \<longleftrightarrow> (\<forall>(h, p, n)\<in>set bs. n = num h)"

lemma build_tree_of:
  assumes "linked_blocks par height bs" "numbered_blocks num bs"
  shows "tree_of par num (fst ` set bs) (build_tree bs)"
proof -
  have "tree_of par num H T \<Longrightarrow> tree_of par num (H \<union> fst ` set bs) (fold (\<lambda>(h, p, n). tree_add h p n) bs T)" for H T
    using assms
  proof (induction bs arbitrary: H T)
    case (Cons b bs)
    obtain h p n where b: "b = (h, p, n)" by (cases b)
    have hp: "p = par h" "n = num h" "par h \<noteq> Some ''''" "par h \<noteq> Some h"
      using Cons.prems(2,3) by (auto simp: b linked_blocks_def numbered_blocks_def)
    have "tree_of par num (insert h H) (tree_add h p n T)" unfolding hp(1,2) by (rule tree_of_add [OF Cons.prems(1) hp(3,4)])
    from Cons.IH [OF this] Cons.prems(2,3) show ?case by (simp add: b linked_blocks_def numbered_blocks_def)
  qed simp
  moreover have "tree_of par num {} []" by (simp add: tree_of_def tree_parent_def tree_number_def)
  ultimately show ?thesis unfolding build_tree_def by fastforce
qed

lemma tree_of_children:
  "tree_inv par height T \<Longrightarrow> tree_of par num H T \<Longrightarrow> set (tree_children T n) = {c \<in> H. par c = Some n}"
  by (auto simp: tree_inv_def tree_of_def split: if_splits)

text \<open>The comparison the two choices make: a strict total order, so the winner does not depend on the order.\<close>

definition outranks :: "(string \<Rightarrow> int) \<Rightarrow> (string \<Rightarrow> int) \<Rightarrow> string \<Rightarrow> string \<Rightarrow> bool" where
  "outranks W num c d \<longleftrightarrow> W d < W c \<or> W d = W c \<and> (num d < num c \<or> num d = num c \<and> c < d)"

definition lex_above :: "int \<times> int \<times> string \<Rightarrow> int \<times> int \<times> string \<Rightarrow> bool" where
  "lex_above = (\<lambda>(w, n, c) (w', n', c'). w' < w \<or> w' = w \<and> (n' < n \<or> n' = n \<and> c < c'))"

lemma outranks_lex: "outranks W num c d \<longleftrightarrow> lex_above (W c, num c, c) (W d, num d, d)"
  by (simp only: outranks_def lex_above_def prod.case)

lemma lex_above_trans: "lex_above x y \<Longrightarrow> lex_above y z \<Longrightarrow> lex_above x z"
  by (cases x; cases y; cases z) (auto simp: lex_above_def)

lemma lex_above_total: "x \<noteq> y \<Longrightarrow> lex_above x y \<or> lex_above y x"
  by (cases x; cases y) (auto simp: lex_above_def)

lemma lex_above_asym: "lex_above x y \<Longrightarrow> \<not> lex_above y x"
  by (cases x; cases y) (auto simp: lex_above_def)

lemma outranks_trans: "outranks W num a b \<Longrightarrow> outranks W num b c \<Longrightarrow> outranks W num a c"
  unfolding outranks_lex by (rule lex_above_trans)

lemma outranks_total: "c \<noteq> d \<Longrightarrow> outranks W num c d \<or> outranks W num d c"
  unfolding outranks_lex by (rule lex_above_total) simp

lemma outranks_asym: "outranks W num c d \<Longrightarrow> \<not> outranks W num d c"
  unfolding outranks_lex by (rule lex_above_asym)

definition best_of :: "(string \<Rightarrow> int) \<Rightarrow> (string \<Rightarrow> int) \<Rightarrow> string set \<Rightarrow> string \<Rightarrow> bool" where
  "best_of W num S c \<longleftrightarrow> c \<in> S \<and> (\<forall>d\<in>S. d \<noteq> c \<longrightarrow> outranks W num c d)"

lemma best_of_unique:
  assumes "best_of W num S c" "best_of W num S d"
  shows "c = d"
proof (rule ccontr)
  assume "c \<noteq> d"
  hence "outranks W num c d" "outranks W num d c" using assms by (simp_all add: best_of_def)
  thus False using outranks_asym [of W num c d] by simp
qed

lemma best_of_step:
  assumes "best_of W num (insert w S) r" "outranks W num w l \<or> w = l"
  shows "best_of W num (insert l (insert w S)) r"
proof -
  have "w = r \<or> outranks W num r w" using assms(1) by (auto simp: best_of_def)
  hence "l = r \<or> outranks W num r l" using assms(2) outranks_trans [of W num r w l] by auto
  thus ?thesis using assms(1) by (auto simp: best_of_def)
qed

lemma best_of_choice:
  assumes "best_of W num (insert (if outranks W num c b then c else b) S) r"
  shows "best_of W num (insert b (insert c S)) r"
proof (cases "outranks W num c b")
  case True
  thus ?thesis using best_of_step [of W num c S r b] assms by simp
next
  case False
  hence "outranks W num b c \<or> b = c" using outranks_total [of b c W num] by auto
  thus ?thesis using best_of_step [of W num b S r c] assms False by (simp add: insert_commute)
qed

lemma pick_child_best:
  assumes "tree_ok T rank"
  shows "\<exists>r. pick_child T ws cs (Some b, subtree_weight T ws b) = Some (Some r, subtree_weight T ws r) \<and>
    best_of (subtree_weight T ws) (tree_number T) (insert b (set cs)) r"
proof (induction cs arbitrary: b)
  case (Cons c cs)
  let ?o = "outranks (subtree_weight T ws) (tree_number T) c b"
  have go: "pick_child T ws (c # cs) (Some b, subtree_weight T ws b) =
      pick_child T ws cs (Some (if ?o then c else b), subtree_weight T ws (if ?o then c else b))"
    by (auto simp: cumulative_weight_ok [OF assms] outranks_def)
  show ?case unfolding go using Cons.IH [of "if ?o then c else b"] best_of_choice by (simp only: list.set) blast
qed (simp add: best_of_def)

lemma pick_root_best:
  assumes "tree_ok T rank"
  shows "\<exists>r. pick_root T ws cs (Some b, subtree_weight T ws b) = Some (Some r, subtree_weight T ws r) \<and>
    best_of (subtree_weight T ws) (\<lambda>_. 0) (insert b (set cs)) r"
proof (induction cs arbitrary: b)
  case (Cons c cs)
  let ?o = "outranks (subtree_weight T ws) (\<lambda>_. 0) c b"
  have go: "pick_root T ws (c # cs) (Some b, subtree_weight T ws b) =
      pick_root T ws cs (Some (if ?o then c else b), subtree_weight T ws (if ?o then c else b))"
    by (auto simp: cumulative_weight_ok [OF assms] outranks_def)
  show ?case unfolding go using Cons.IH [of "if ?o then c else b"] best_of_choice by (simp only: list.set) blast
qed (simp add: best_of_def)

lemma pick_child_start:
  assumes ok: "tree_ok T rank" and pos: "\<forall>m. 0 \<le> dict_get ws m 0" and ne: "cs \<noteq> []"
  shows "\<exists>r w. pick_child T ws cs (None, -1) = Some (Some r, w) \<and> best_of (subtree_weight T ws) (tree_number T) (set cs) r"
proof -
  obtain c ds where cs: "cs = c # ds" using ne by (cases cs) auto
  have "-1 < subtree_weight T ws c" using subtree_weight_nonneg [OF pos, of T c] by simp
  thus ?thesis using pick_child_best [OF ok, of ws ds c] by (auto simp: cs cumulative_weight_ok [OF ok])
qed

lemma pick_root_start:
  assumes ok: "tree_ok T rank" and pos: "\<forall>m. 0 \<le> dict_get ws m 0" and ne: "cs \<noteq> []"
  shows "\<exists>r w. pick_root T ws cs (None, -1) = Some (Some r, w) \<and> best_of (subtree_weight T ws) (\<lambda>_. 0) (set cs) r"
proof -
  obtain c ds where cs: "cs = c # ds" using ne by (cases cs) auto
  have "-1 < subtree_weight T ws c" using subtree_weight_nonneg [OF pos, of T c] by simp
  thus ?thesis using pick_root_best [OF ok, of ws ds c] by (auto simp: cs cumulative_weight_ok [OF ok])
qed

lemma pick_genesis_best:
  assumes ok: "tree_ok T rank" and pos: "\<forall>m. 0 \<le> dict_get ws m 0" and ne: "forest_roots T \<noteq> []"
  shows "\<exists>r. pick_genesis T ws = Some (Some r) \<and> best_of (subtree_weight T ws) (\<lambda>_. 0) (set (forest_roots T)) r"
proof (cases "\<exists>r. forest_roots T = [r]")
  case True
  thus ?thesis by (auto simp: pick_genesis_def best_of_def)
next
  case False
  then obtain a b cs where "forest_roots T = a # b # cs" using ne by (cases "forest_roots T"; cases "tl (forest_roots T)") auto
  thus ?thesis using pick_root_start [OF ok pos ne] by (auto simp: pick_genesis_def simp del: pick_root.simps)
qed

definition same_tree :: "block_tree \<Rightarrow> block_tree \<Rightarrow> bool" where
  "same_tree T U \<longleftrightarrow> (\<forall>n. set (tree_children T n) = set (tree_children U n) \<and> tree_number T n = tree_number U n)"

lemma same_tree_below: "same_tree T U \<Longrightarrow> below T n = below U n"
  by (simp add: below_def same_tree_def)

lemma same_tree_weight: "same_tree T U \<Longrightarrow> \<forall>m. dict_get ws m 0 = dict_get vs m 0 \<Longrightarrow> subtree_weight T ws = subtree_weight U vs"
  by (rule ext) (simp add: subtree_weight_def same_tree_below)

lemma head_loop_same:
  assumes ok: "tree_ok T rank" "tree_ok U rank" and pos: "\<forall>m. 0 \<le> dict_get ws m 0"
    and same: "same_tree T U" "\<forall>m. dict_get ws m 0 = dict_get vs m 0"
    and fresh: "\<forall>v\<in>set xs. rank n < rank v" "\<forall>v\<in>set ys. rank n < rank v"
  shows "head_loop T ws xs n = head_loop U vs ys n"
  using fresh
proof (induction "rank n" arbitrary: n xs ys rule: less_induct)
  case less
  have notin: "n \<notin> set xs" "n \<notin> set ys" using less.prems by auto
  have cs: "set (tree_children T n) = set (tree_children U n)" using same(1) by (simp add: same_tree_def)
  show ?case
  proof (cases "tree_children T n = []")
    case True
    hence "tree_children U n = []" using cs by simp
    thus ?thesis using True by (subst (1 2) head_loop.simps) simp
  next
    case False
    hence ne: "tree_children U n \<noteq> []" using cs by auto
    have pos': "\<forall>m. 0 \<le> dict_get vs m 0" using pos same(2) by simp
    obtain c w where c: "pick_child T ws (tree_children T n) (None, -1) = Some (Some c, w)"
        "best_of (subtree_weight T ws) (tree_number T) (set (tree_children T n)) c"
      using pick_child_start [OF ok(1) pos False] by blast
    obtain d v where d: "pick_child U vs (tree_children U n) (None, -1) = Some (Some d, v)"
        "best_of (subtree_weight U vs) (tree_number U) (set (tree_children U n)) d"
      using pick_child_start [OF ok(2) pos' ne] by blast
    have "tree_number T = tree_number U" using same(1) by (auto simp: same_tree_def)
    hence "best_of (subtree_weight T ws) (tree_number T) (set (tree_children T n)) d"
      using d(2) cs same_tree_weight [OF same] by simp
    from best_of_unique [OF c(2) this] have cd: "d = c" by simp
    have rc: "rank c < rank n" using c(2) ok(1) by (auto simp: tree_ok_def best_of_def)
    have IH: "head_loop T ws (n # xs) c = head_loop U vs (n # ys) c"
      by (rule less.hyps [OF rc]) (use rc less.prems in auto)
    have "head_loop T ws xs n = head_loop T ws (n # xs) c" using c(1) notin False by (subst head_loop.simps) simp
    moreover have "head_loop U vs ys n = head_loop U vs (n # ys) c" using d(1) cd notin ne by (subst head_loop.simps) simp
    ultimately show ?thesis using IH by simp
  qed
qed

lemma select_head_same:
  assumes ok: "tree_ok T rank" "tree_ok U rank" and pos: "\<forall>m. 0 \<le> dict_get ws m 0"
    and same: "same_tree T U" "\<forall>m. dict_get ws m 0 = dict_get vs m 0"
    and roots: "set (forest_roots T) = set (forest_roots U)" "forest_roots T \<noteq> []"
  shows "select_head T ws = select_head U vs \<and> (\<exists>h. select_head T ws = Some (Some h))"
proof -
  have ne: "forest_roots U \<noteq> []" using roots by auto
  have pos': "\<forall>m. 0 \<le> dict_get vs m 0" using pos same(2) by simp
  obtain r where r: "pick_genesis T ws = Some (Some r)" "best_of (subtree_weight T ws) (\<lambda>_. 0) (set (forest_roots T)) r"
    using pick_genesis_best [OF ok(1) pos roots(2)] by blast
  obtain q where q: "pick_genesis U vs = Some (Some q)" "best_of (subtree_weight U vs) (\<lambda>_. 0) (set (forest_roots U)) q"
    using pick_genesis_best [OF ok(2) pos' ne] by blast
  have rq: "q = r" using q(2) best_of_unique [OF r(2)] roots(1) same_tree_weight [OF same] by simp
  have nonempty: "T \<noteq> []" "U \<noteq> []" using roots(2) ne by (auto simp: forest_roots_def)
  have loop: "head_loop T ws [] r = head_loop U vs [] r" by (rule head_loop_same [OF ok pos same]) simp_all
  obtain h where "head_loop T ws [] r = Some h" using head_loop_majority [OF ok(1) pos, of "[]" r] by auto
  thus ?thesis using r(1) q(1) rq nonempty loop by (simp add: select_head_def)
qed

section \<open>Votes in any order\<close>

definition run_votes :: "(string \<times> string \<times> int) list \<Rightarrow> lmd_table \<Rightarrow> lmd_table" where
  "run_votes us t = fold (\<lambda>(v, h, k) t. fst (lmd_update v h k t)) us t"

text \<open>No validator votes for two blocks in one slot.\<close>

definition one_vote_per_slot :: "(string \<times> string \<times> int) list \<Rightarrow> bool" where
  "one_vote_per_slot us \<longleftrightarrow> (\<forall>(v, h, k)\<in>set us. \<forall>(v', h', k')\<in>set us. v = v' \<and> k = k' \<longrightarrow> h = h')"

definition latest_vote :: "(string \<times> string \<times> int) list \<Rightarrow> string \<Rightarrow> string \<Rightarrow> int \<Rightarrow> bool" where
  "latest_vote us v h k \<longleftrightarrow> (v, h, k) \<in> set us \<and> (\<forall>(v', h', k')\<in>set us. v' = v \<longrightarrow> k' \<le> k)"

lemma run_votes_snoc: "run_votes (us @ [(v, h, k)]) t = fst (lmd_update v h k (run_votes us t))"
  by (simp add: run_votes_def)

lemma run_votes_stakes [simp]: "lm_stakes (run_votes us t) = lm_stakes t"
proof (induction us rule: rev_induct)
  case (snoc u us)
  thus ?case by (cases u) (simp add: run_votes_snoc lmd_update_def Let_def split: option.splits)
qed (simp add: run_votes_def)

lemma run_votes_ok: "lmd_ok t \<Longrightarrow> lmd_ok (run_votes us t)"
proof (induction us rule: rev_induct)
  case (snoc u us)
  thus ?case by (cases u) (simp add: run_votes_snoc lmd_ok_update)
qed (simp add: run_votes_def)

definition vote_spec :: "(string \<times> string \<times> int) list \<Rightarrow> string \<Rightarrow> (string \<times> int) option \<Rightarrow> bool" where
  "vote_spec us v m \<longleftrightarrow> (case m of None \<Rightarrow> v \<notin> fst ` set us | Some (h, k) \<Rightarrow> latest_vote us v h k)"

lemma run_votes_spec:
  assumes "lm_votes t = []" "map_of (lm_stakes t) v \<noteq> None"
  shows "vote_spec us v (map_of (lm_votes (run_votes us t)) v)"
proof (induction us rule: rev_induct)
  case Nil
  thus ?case using assms(1) by (simp add: vote_spec_def run_votes_def)
next
  case (snoc u us)
  obtain a g j where u: "u = (a, g, j)" by (cases u)
  let ?m = "map_of (lm_votes (run_votes us t)) v"
  show ?case
  proof (cases "a = v")
    case False
    have "map_of (lm_votes (run_votes (us @ [u]) t)) v = ?m"
      using False by (simp add: u run_votes_snoc lmd_update_def Let_def update_conv split: option.splits)
    thus ?thesis using snoc.IH False by (auto simp: u vote_spec_def latest_vote_def split: option.splits)
  next
    case True
    show ?thesis
    proof (cases ?m)
      case None
      have "map_of (lm_votes (run_votes (us @ [u]) t)) v = Some (g, j)"
        using True None assms(2) by (auto simp: u run_votes_snoc lmd_update_def Let_def update_conv)
      moreover have "v \<notin> fst ` set us" using snoc.IH None by (simp add: vote_spec_def)
      ultimately show ?thesis using True by (force simp: u vote_spec_def latest_vote_def)
    next
      case (Some x)
      obtain h k where x: "x = (h, k)" by (cases x)
      have old: "latest_vote us v h k" using snoc.IH Some x by (simp add: vote_spec_def)
      have "map_of (lm_votes (run_votes (us @ [u]) t)) v = Some (if k < j then (g, j) else (h, k))"
        using True Some x assms(2) by (auto simp: u run_votes_snoc lmd_update_def Let_def update_conv)
      moreover have "latest_vote (us @ [u]) v g j" if "k < j" using that old True by (force simp: u latest_vote_def)
      moreover have "latest_vote (us @ [u]) v h k" if "\<not> k < j" using that old True by (auto simp: u latest_vote_def)
      ultimately show ?thesis by (simp add: vote_spec_def)
    qed
  qed
qed

lemma latest_vote_unique: "one_vote_per_slot us \<Longrightarrow> latest_vote us v h k \<Longrightarrow> latest_vote us v h' k' \<Longrightarrow> (h, k) = (h', k')"
proof -
  assume one: "one_vote_per_slot us" and l: "latest_vote us v h k" "latest_vote us v h' k'"
  have m: "(v, h, k) \<in> set us" "(v, h', k') \<in> set us" using l by (simp_all add: latest_vote_def)
  have "k \<le> k'" "k' \<le> k" using bspec [OF conjunct2 [OF l(2) [unfolded latest_vote_def]] m(1)]
    bspec [OF conjunct2 [OF l(1) [unfolded latest_vote_def]] m(2)] by simp_all
  moreover have "k = k' \<Longrightarrow> h = h'"
    using bspec [OF bspec [OF one [unfolded one_vote_per_slot_def] m(1), unfolded prod.case] m(2)] by simp
  ultimately show ?thesis by simp
qed

lemma run_votes_unregistered: "lm_votes t = [] \<Longrightarrow> map_of (lm_stakes t) v = None \<Longrightarrow> map_of (lm_votes (run_votes us t)) v = None"
proof (induction us rule: rev_induct)
  case (snoc u us)
  thus ?case by (cases u) (auto simp: run_votes_snoc lmd_update_def Let_def update_conv split: option.splits)
qed (simp add: run_votes_def)

lemma run_votes_same:
  assumes "lm_votes t = []" "one_vote_per_slot us" "set us = set us'"
  shows "map_of (lm_votes (run_votes us t)) = map_of (lm_votes (run_votes us' t))"
proof (rule ext)
  fix v
  have same: "vote_spec us' v m = vote_spec us v m" for m by (simp only: vote_spec_def latest_vote_def assms(3))
  show "map_of (lm_votes (run_votes us t)) v = map_of (lm_votes (run_votes us' t)) v"
  proof (cases "map_of (lm_stakes t) v = None")
    case True
    thus ?thesis using run_votes_unregistered [OF assms(1)] by simp
  next
    case False
    have 1: "vote_spec us v (map_of (lm_votes (run_votes us t)) v)" and 2: "vote_spec us v (map_of (lm_votes (run_votes us' t)) v)"
      using run_votes_spec [OF assms(1) False] same by blast+
    have "x = y" if "vote_spec us v x" "vote_spec us v y" for x y
    proof (cases x; cases y)
      fix a b assume xy: "x = Some a" "y = Some b"
      obtain h k h' k' where ab: "a = (h, k)" "b = (h', k')" by (cases a; cases b)
      have "latest_vote us v h k" "latest_vote us v h' k'" using that xy ab by (simp_all add: vote_spec_def)
      thus ?thesis using latest_vote_unique [OF assms(2)] xy ab by simp
    qed (use that in \<open>force simp: vote_spec_def latest_vote_def\<close>)+
    thus ?thesis using 1 2 by blast
  qed
qed

lemma voted_stake_same:
  assumes "lmd_ok t" "lmd_ok u" "lm_stakes t = lm_stakes u" "map_of (lm_votes t) = map_of (lm_votes u)"
  shows "voted_stake t B = voted_stake u B"
proof -
  have d: "distinct (dict_keys (lm_votes t))" "distinct (dict_keys (lm_votes u))" using assms by (simp_all add: lmd_ok_def)
  have "set (lm_votes t) = set (lm_votes u)" using map_of_inject_set [OF d] assms(4) by simp
  moreover have "distinct (lm_votes t)" "distinct (lm_votes u)" using d by (simp_all add: distinct_map)
  ultimately show ?thesis unfolding voted_stake_def assms(3) by (simp add: sum_list_distinct_conv_sum_set)
qed

lemma forest_roots_set: "tree_inv par height T \<Longrightarrow> r \<in> set (forest_roots T) \<longleftrightarrow> map_of T r \<noteq> None \<and> tree_parent T r = None"
proof -
  assume "tree_inv par height T"
  hence "distinct (dict_keys T)" by (simp add: tree_inv_def)
  hence eq: "map_of T r = Some d \<longleftrightarrow> (r, d) \<in> set T" for d by simp
  have "r \<in> set (forest_roots T) \<longleftrightarrow> (\<exists>d. (r, d) \<in> set T \<and> tn_parent d = None)" by (force simp: forest_roots_def)
  also have "\<dots> \<longleftrightarrow> (\<exists>d. map_of T r = Some d \<and> tn_parent d = None)" by (simp only: eq)
  also have "\<dots> \<longleftrightarrow> map_of T r \<noteq> None \<and> tree_parent T r = None" by (cases "map_of T r") (simp_all add: tree_parent_def)
  finally show ?thesis .
qed

text \<open>
  The head does not depend on the order of arrival: two nodes with the same validators that have seen the same blocks and the same votes, each in its own order and any number of times, select the same head, provided every block hash carries one parent and number and no validator votes for two blocks in one slot.
\<close>

theorem head_order_free:
  assumes "linked_blocks par height bs" "numbered_blocks num bs" "set bs = set bs'" "bs \<noteq> []"
    and "lmd_ok t" "lm_votes t = []" "one_vote_per_slot us" "set us = set us'"
  shows "select_head (build_tree bs) (lmd_weights (run_votes us t)) =
      select_head (build_tree bs') (lmd_weights (run_votes us' t)) \<and>
    (\<exists>h. select_head (build_tree bs) (lmd_weights (run_votes us t)) = Some (Some h))"
proof -
  let ?T = "build_tree bs" and ?U = "build_tree bs'" and ?t = "run_votes us t" and ?u = "run_votes us' t"
  have linked: "linked_blocks par height bs'" "numbered_blocks num bs'"
    using assms(1-3) by (simp_all add: linked_blocks_def numbered_blocks_def)
  have inv: "tree_inv par height ?T" "tree_inv par height ?U" by (rule build_tree_inv assms(1) linked(1))+
  have abst: "tree_of par num (fst ` set bs) ?T" "tree_of par num (fst ` set bs) ?U"
    using build_tree_of [OF assms(1,2)] build_tree_of [OF linked] assms(3) by simp_all
  have same: "same_tree ?T ?U"
    using tree_of_children [OF inv(1) abst(1)] tree_of_children [OF inv(2) abst(2)] abst by (simp add: same_tree_def tree_of_def)
  have ok: "tree_ok ?T (tree_rank height ?T)" "tree_ok ?U (tree_rank height ?T)"
    using tree_inv_ok [OF inv(1)] tree_inv_ok [OF inv(2)] same by (auto simp: tree_ok_def same_tree_def)
  have oks: "lmd_ok ?t" "lmd_ok ?u" by (rule run_votes_ok [OF assms(5)])+
  have vs: "map_of (lm_votes ?t) = map_of (lm_votes ?u)" by (rule run_votes_same [OF assms(6-8)])
  have ws: "\<forall>m. dict_get (lmd_weights ?t) m 0 = dict_get (lmd_weights ?u) m 0"
    using voted_stake_same [OF oks _ vs] by (simp add: lmd_weights_get)
  have pos: "\<forall>m. 0 \<le> dict_get (lmd_weights ?t) m 0" by (simp add: lmd_weights_get voted_stake_nonneg [OF oks(1)])
  have keys: "map_of ?T n \<noteq> None \<longleftrightarrow> map_of ?U n \<noteq> None" and parents: "tree_parent ?T n = tree_parent ?U n" for n
    using abst unfolding tree_of_def by metis+
  have roots: "set (forest_roots ?T) = set (forest_roots ?U)"
    using forest_roots_set [OF inv(1)] forest_roots_set [OF inv(2)] keys parents by auto
  obtain h where "h \<in> fst ` set bs" using assms(4) by (cases bs) auto
  hence "map_of ?T h \<noteq> None" using abst(1) by (auto simp: tree_of_def)
  hence "forest_roots ?T \<noteq> []" using tree_inv_root [OF inv(1)] by fastforce
  from select_head_same [OF ok pos same ws roots this] show ?thesis .
qed

theorem head_order_free_witness:
  "select_head (build_tree fork_blocks) (lmd_weights (run_votes [(''v1'', ''a'', 3), (''v2'', ''b'', 1), (''v2'', ''c'', 4)] (fork_votes\<lparr>lm_votes := []\<rparr>))) =
   select_head (build_tree (rev fork_blocks))
     (lmd_weights (run_votes [(''v2'', ''c'', 4), (''v2'', ''b'', 1), (''v1'', ''a'', 3), (''v2'', ''c'', 4)] (fork_votes\<lparr>lm_votes := []\<rparr>)))"
proof -
  have "numbered_blocks (\<lambda>h. int (fork_height h)) fork_blocks"
    by (simp add: numbered_blocks_def fork_blocks_def fork_height_def)
  moreover have "lmd_ok (fork_votes\<lparr>lm_votes := []\<rparr>)" by (auto simp: lmd_ok_def fork_votes_def dict_get_def)
  moreover have "one_vote_per_slot [(''v1'', ''a'', 3), (''v2'', ''b'', 1), (''v2'', ''c'', 4)]" by (simp add: one_vote_per_slot_def)
  ultimately show ?thesis
    by (intro head_order_free [OF fork_linked, THEN conjunct1]) (auto simp: fork_blocks_def)
qed

end
