(* ===== verification/Slashing.thy ===== *)
theory Slashing
  imports Prelude
begin

text \<open>
  \<open>consensus/slashing.py\<close>: the slashing engine. Votes per validator and slot, proposals per height, missed
  attestations, and the validators slashed with one event each. The decisions are those of the Python code, which
  the native kernels repeat; the callback of \<open>_slash\<close> is taken to return, the time stamp of an event and the
  log line are left out.
\<close>

section \<open>State and operations\<close>

record slash_event =
  se_validator :: string
  se_reason :: string
  se_epoch :: int
  se_penalty :: int

record slashing_state =
  sl_votes :: "(string, (int, string) dict) dict"
  sl_proposals :: "(int, string list) dict"
  sl_slashed :: "string list"
  sl_events :: "slash_event list"
  sl_missed :: "(string, int) dict"
  sl_stakes :: "(string, int) dict"

definition new_slashing :: slashing_state where
  "new_slashing = \<lparr>sl_votes = [], sl_proposals = [], sl_slashed = [], sl_events = [], sl_missed = [], sl_stakes = []\<rparr>"

definition penalty_of :: "string \<Rightarrow> int" where
  "penalty_of reason =
     (if reason = ''double_vote'' then 100 else if reason = ''double_proposal'' then 200 else if reason = ''offline'' then 10
      else if reason = ''invalid_proposal'' then 50 else if reason = ''surround_vote'' then 75 else 50)"

definition slash_now :: "string \<Rightarrow> string \<Rightarrow> int \<Rightarrow> slashing_state \<Rightarrow> slashing_state" where
  "slash_now v reason epoch s =
     (if v \<in> set (sl_slashed s) then s
      else s\<lparr>sl_slashed := sl_slashed s @ [v],
             sl_events := sl_events s @ [\<lparr>se_validator = v, se_reason = reason, se_epoch = epoch, se_penalty = penalty_of reason\<rparr>]\<rparr>)"

definition register_stake :: "string \<Rightarrow> int \<Rightarrow> slashing_state \<Rightarrow> slashing_state" where
  "register_stake v stake s = s\<lparr>sl_stakes := dict_set v stake (sl_stakes s)\<rparr>"

definition record_vote_at :: "string \<Rightarrow> int \<Rightarrow> string \<Rightarrow> slashing_state \<Rightarrow> slashing_state \<times> bool" where
  "record_vote_at v slot h s =
     (if v \<in> set (sl_slashed s) then (s, False)
      else (let mine = dict_get (sl_votes s) v [];
                s1 = (if map_of (sl_votes s) v = None then s\<lparr>sl_votes := dict_set v [] (sl_votes s)\<rparr> else s)
            in case map_of mine slot of
                 Some g \<Rightarrow> if g \<noteq> h then (slash_now v ''double_vote'' slot s1, False) else (s1, True)
               | None \<Rightarrow> (s1\<lparr>sl_votes := dict_set v (dict_set slot h mine) (sl_votes s1)\<rparr>, True)))"

definition slashing_add_vote :: "string \<Rightarrow> int \<Rightarrow> string \<Rightarrow> slashing_state \<Rightarrow> slashing_state \<times> bool" where
  "slashing_add_vote v slot h s = (if v \<in> set (sl_slashed s) then (s, False) else record_vote_at v slot h s)"

definition slashing_stake :: "slashing_state \<Rightarrow> string \<Rightarrow> int" where
  "slashing_stake s v = (if v \<in> set (sl_slashed s) then 0 else dict_get (sl_stakes s) v 0)"

definition active_stake :: "slashing_state \<Rightarrow> int" where
  "active_stake s = (\<Sum>(v, k)\<leftarrow>filter (\<lambda>(v, k). v \<notin> set (sl_slashed s)) (sl_stakes s). k)"

definition slashed_stake :: "slashing_state \<Rightarrow> int" where
  "slashed_stake s = (\<Sum>v\<leftarrow>sl_slashed s. dict_get (sl_stakes s) v 0)"

definition record_proposal_at :: "string \<Rightarrow> int \<Rightarrow> string \<Rightarrow> slashing_state \<Rightarrow> slashing_state \<times> bool" where
  "record_proposal_at v height h s =
     (if v \<in> set (sl_slashed s) then (s, False)
      else (let made = dict_get (sl_proposals s) height []
            in if v \<in> set made then (slash_now v ''double_proposal'' (height div 32) s, False)
               else (s\<lparr>sl_proposals := dict_set height (made @ [v]) (sl_proposals s)\<rparr>, True)))"

definition record_missed :: "string \<Rightarrow> slashing_state \<Rightarrow> slashing_state" where
  "record_missed v s =
     (if v \<in> set (sl_slashed s) then s
      else (let n = dict_get (sl_missed s) v 0 + 1;
                s1 = s\<lparr>sl_missed := dict_set v n (sl_missed s)\<rparr>
            in if 50 < n then slash_now v ''offline'' 0 s1 else s1))"

definition report_invalid :: "string \<Rightarrow> int \<Rightarrow> slashing_state \<Rightarrow> slashing_state" where
  "report_invalid v height s = slash_now v ''invalid_proposal'' (height div 32) s"

definition clear_epoch :: "int \<Rightarrow> slashing_state \<Rightarrow> slashing_state" where
  "clear_epoch e s = s\<lparr>sl_votes := map (\<lambda>(v, m). (v, filter (\<lambda>(k, h). k \<noteq> e) m)) (sl_votes s)\<rparr>"

section \<open>Runs\<close>

datatype slash_op =
    OpRegister string int
  | OpVote string int string
  | OpProposal string int string
  | OpMissed string
  | OpInvalid string int
  | OpClear int

fun slash_step :: "slash_op \<Rightarrow> slashing_state \<Rightarrow> slashing_state" where
  "slash_step (OpRegister v k) s = register_stake v k s"
| "slash_step (OpVote v slot h) s = fst (slashing_add_vote v slot h s)"
| "slash_step (OpProposal v n h) s = fst (record_proposal_at v n h s)"
| "slash_step (OpMissed v) s = record_missed v s"
| "slash_step (OpInvalid v n) s = report_invalid v n s"
| "slash_step (OpClear e) s = clear_epoch e s"

definition slash_run :: "slash_op list \<Rightarrow> slashing_state" where
  "slash_run ops = fold slash_step ops new_slashing"

lemma slash_run_Nil [simp]: "slash_run [] = new_slashing"
  by (simp add: slash_run_def)

lemma slash_run_snoc: "slash_run (ops @ [x]) = slash_step x (slash_run ops)"
  by (simp add: slash_run_def)

section \<open>Slashing is final, and each slashing has one event\<close>

lemma slash_now_slashed [simp]: "set (sl_slashed (slash_now v r e s)) = insert v (set (sl_slashed s))"
  by (auto simp: slash_now_def)

lemma slash_now_other [simp]:
  "sl_votes (slash_now v r e s) = sl_votes s" "sl_proposals (slash_now v r e s) = sl_proposals s"
  "sl_missed (slash_now v r e s) = sl_missed s" "sl_stakes (slash_now v r e s) = sl_stakes s"
  by (simp_all add: slash_now_def)

named_theorems slash_defs

lemmas [slash_defs] = register_stake_def record_vote_at_def slashing_add_vote_def record_proposal_at_def record_missed_def
  report_invalid_def clear_epoch_def Let_def

text \<open>The validator and the reason an operation slashes for, in a state.\<close>

fun offence :: "slash_op \<Rightarrow> slashing_state \<Rightarrow> (string \<times> string \<times> int) option" where
  "offence (OpVote v slot h) s =
     (case map_of (dict_get (sl_votes s) v []) slot of
        Some g \<Rightarrow> if g \<noteq> h then Some (v, ''double_vote'', slot) else None
      | None \<Rightarrow> None)"
| "offence (OpProposal v n h) s =
     (if v \<in> set (dict_get (sl_proposals s) n []) then Some (v, ''double_proposal'', n div 32) else None)"
| "offence (OpMissed v) s = (if 50 < dict_get (sl_missed s) v 0 + 1 then Some (v, ''offline'', 0) else None)"
| "offence (OpInvalid v n) s = Some (v, ''invalid_proposal'', n div 32)"
| "offence x s = None"

definition same_slashed :: "slashing_state \<Rightarrow> slashing_state \<Rightarrow> bool" where
  "same_slashed s t \<longleftrightarrow> sl_slashed t = sl_slashed s \<and> sl_events t = sl_events s"

lemma slash_now_same: "same_slashed s t \<Longrightarrow> same_slashed (slash_now v r e s) (slash_now v r e t)"
  by (simp add: same_slashed_def slash_now_def)

lemma slash_now_slashed_same: "v \<in> set (sl_slashed s) \<Longrightarrow> slash_now v r e s = s"
  by (simp add: slash_now_def)

lemma slash_step_effect:
  "same_slashed (case offence x s of None \<Rightarrow> s | Some (v, r, e) \<Rightarrow> slash_now v r e s) (slash_step x s)"
proof (cases x)
  case (OpVote v slot h)
  show ?thesis
  proof (cases "v \<in> set (sl_slashed s)")
    case True
    thus ?thesis using OpVote by (auto simp: slash_defs same_slashed_def slash_now_slashed_same split: option.splits if_splits)
  next
    case False
    let ?s1 = "if map_of (sl_votes s) v = None then s\<lparr>sl_votes := dict_set v [] (sl_votes s)\<rparr> else s"
    have one: "same_slashed s ?s1" by (simp add: same_slashed_def)
    show ?thesis
    proof (cases "map_of (dict_get (sl_votes s) v []) slot")
      case None
      thus ?thesis using OpVote False one by (simp add: slash_defs same_slashed_def)
    next
      case (Some g)
      thus ?thesis using OpVote False one slash_now_same [OF one] by (cases "g = h") (simp_all add: slash_defs)
    qed
  qed
qed (auto simp: slash_defs same_slashed_def slash_now_def)

lemma slash_step_stays: "v \<in> set (sl_slashed s) \<Longrightarrow> v \<in> set (sl_slashed (slash_step x s))"
  using slash_step_effect [where x = x and s = s] by (cases "offence x s") (auto simp: same_slashed_def)

definition one_event_each :: "slashing_state \<Rightarrow> bool" where
  "one_event_each s \<longleftrightarrow> map se_validator (sl_events s) = sl_slashed s \<and> distinct (sl_slashed s)"

lemma slash_now_one: "one_event_each s \<Longrightarrow> one_event_each (slash_now v r e s)"
  by (auto simp: one_event_each_def slash_now_def)

lemma one_event_same: "same_slashed s t \<Longrightarrow> one_event_each s \<Longrightarrow> one_event_each t"
  by (simp add: one_event_each_def same_slashed_def)

lemma slash_step_one: "one_event_each s \<Longrightarrow> one_event_each (slash_step x s)"
  using slash_step_effect [where x = x and s = s] by (cases "offence x s") (auto intro: one_event_same slash_now_one)

lemma slash_run_one: "one_event_each (slash_run ops)"
proof (induction ops rule: rev_induct)
  case Nil
  show ?case by (simp add: one_event_each_def new_slashing_def)
next
  case (snoc x ops)
  thus ?case unfolding slash_run_snoc by (rule slash_step_one)
qed

lemma slash_run_stays: "v \<in> set (sl_slashed (slash_run ops)) \<Longrightarrow> v \<in> set (sl_slashed (slash_run (ops @ ops')))"
proof (induction ops' rule: rev_induct)
  case (snoc x ops')
  thus ?case using slash_step_stays by (simp add: append_assoc [symmetric] slash_run_snoc del: append_assoc)
qed simp

section \<open>What the books hold\<close>

lemma map_of_without: "map_of (filter (\<lambda>(k, h). k \<noteq> e) m) j = (if j = e then None else map_of m j)"
  by (induction m) auto

lemma cleared_votes:
  "map_of (dict_get (sl_votes (clear_epoch e s)) v []) k = (if k = e then None else map_of (dict_get (sl_votes s) v []) k)"
  by (simp add: clear_epoch_def dict_get_def map_of_map map_of_without split: option.split)

text \<open>A recorded vote was cast.\<close>

lemma vote_was_cast:
  "map_of (dict_get (sl_votes (slash_run ops)) v []) slot = Some h \<Longrightarrow> OpVote v slot h \<in> set ops"
proof (induction ops arbitrary: v slot h rule: rev_induct)
  case Nil
  thus ?case by (simp add: new_slashing_def dict_get_def)
next
  case (snoc x ops)
  let ?s = "slash_run ops"
  show ?case
  proof (cases x)
    case (OpVote w k g)
    have "map_of (dict_get (sl_votes (slash_step x ?s)) v []) slot = Some h \<Longrightarrow>
        map_of (dict_get (sl_votes ?s) v []) slot = Some h \<or> v = w \<and> slot = k \<and> h = g"
      by (auto simp: OpVote slash_defs dict_get_def update_conv split: option.splits if_splits)
    thus ?thesis using snoc OpVote by (auto simp: slash_run_snoc)
  next
    case (OpClear e)
    thus ?thesis using snoc by (auto simp: slash_run_snoc cleared_votes split: if_splits)
  qed (use snoc in \<open>auto simp: slash_run_snoc slash_defs split: if_splits\<close>)
qed

lemma proposal_was_made:
  "v \<in> set (dict_get (sl_proposals (slash_run ops)) n []) \<Longrightarrow> \<exists>h. OpProposal v n h \<in> set ops"
proof (induction ops rule: rev_induct)
  case Nil
  thus ?case by (simp add: new_slashing_def dict_get_def)
next
  case (snoc x ops)
  let ?s = "slash_run ops"
  have "v \<in> set (dict_get (sl_proposals (slash_step x ?s)) n []) \<Longrightarrow>
      v \<in> set (dict_get (sl_proposals ?s) n []) \<or> (\<exists>h. x = OpProposal v n h)"
    by (cases x) (auto simp: slash_defs dict_get_def update_conv split: option.splits if_splits)
  thus ?case using snoc by (auto simp: slash_run_snoc)
qed

lemma misses_were_noted: "dict_get (sl_missed (slash_run ops)) v 0 \<le> int (count_list ops (OpMissed v))"
proof (induction ops rule: rev_induct)
  case Nil
  show ?case by (simp add: new_slashing_def dict_get_def)
next
  case (snoc x ops)
  let ?s = "slash_run ops"
  have "dict_get (sl_missed (slash_step x ?s)) v 0 \<le> dict_get (sl_missed ?s) v 0 + (if x = OpMissed v then 1 else 0)"
    by (cases x) (auto simp: slash_defs dict_get_def update_conv split: option.splits if_splits)
  thus ?case using snoc by (simp add: slash_run_snoc split: if_splits)
qed

section \<open>Slashed exactly for offences\<close>

definition guilty :: "slash_op list \<Rightarrow> slash_event \<Rightarrow> bool" where
  "guilty ops e \<longleftrightarrow>
     (let v = se_validator e; r = se_reason e in
      r = ''double_vote'' \<and> (\<exists>h h'. h \<noteq> h' \<and> OpVote v (se_epoch e) h \<in> set ops \<and> OpVote v (se_epoch e) h' \<in> set ops) \<or>
      r = ''double_proposal'' \<and> (\<exists>n. se_epoch e = n div 32 \<and> 2 \<le> length (filter (\<lambda>x. \<exists>h. x = OpProposal v n h) ops)) \<or>
      r = ''offline'' \<and> 50 < count_list ops (OpMissed v) \<or>
      r = ''invalid_proposal'' \<and> (\<exists>n. OpInvalid v n \<in> set ops))"

lemma guilty_append: "guilty ops e \<Longrightarrow> guilty (ops @ xs) e"
  unfolding guilty_def Let_def by fastforce

lemma offence_guilty:
  assumes "offence x (slash_run ops) = Some (v, r, k)"
  shows "guilty (ops @ [x]) \<lparr>se_validator = v, se_reason = r, se_epoch = k, se_penalty = p\<rparr>"
proof (cases x)
  case (OpVote w slot h)
  then obtain g where g: "map_of (dict_get (sl_votes (slash_run ops)) w []) slot = Some g" "g \<noteq> h"
      and vr: "v = w" "r = ''double_vote''" "k = slot" using assms by (auto split: option.splits if_splits)
  from vote_was_cast [OF g(1)] show ?thesis using g(2) vr OpVote by (auto simp: guilty_def)
next
  case (OpProposal w n h)
  hence vr: "v = w" "r = ''double_proposal''" "k = n div 32" and made: "w \<in> set (dict_get (sl_proposals (slash_run ops)) n [])"
    using assms by (auto split: if_splits)
  obtain h' where "OpProposal w n h' \<in> set ops" using proposal_was_made [OF made] by blast
  hence "filter (\<lambda>x. \<exists>h. x = OpProposal w n h) ops \<noteq> []" by (auto simp: filter_empty_conv)
  hence "0 < length (filter (\<lambda>x. \<exists>h. x = OpProposal w n h) ops)" by blast
  hence "2 \<le> length (filter (\<lambda>x. \<exists>h. x = OpProposal w n h) (ops @ [x]))" using OpProposal by (simp add: Suc_le_eq)
  thus ?thesis using vr unfolding guilty_def Let_def by auto
next
  case (OpMissed w)
  hence vr: "v = w" "r = ''offline''" and m: "50 \<le> dict_get (sl_missed (slash_run ops)) w 0"
    using assms by (auto split: if_splits)
  have "50 \<le> int (count_list ops (OpMissed w))" using m misses_were_noted [of ops w] by linarith
  thus ?thesis using vr OpMissed by (simp add: guilty_def)
next
  case (OpInvalid w n)
  hence vr: "v = w" "r = ''invalid_proposal''" using assms by simp_all
  show ?thesis unfolding guilty_def Let_def using vr OpInvalid by simp blast
qed (use assms in simp_all)

lemma events_guilty: "\<forall>e\<in>set (sl_events (slash_run ops)). guilty ops e"
proof (induction ops rule: rev_induct)
  case Nil
  show ?case by (simp add: new_slashing_def)
next
  case (snoc x ops)
  let ?s = "slash_run ops"
  have old: "\<forall>e\<in>set (sl_events ?s). guilty (ops @ [x]) e" using snoc.IH guilty_append by blast
  show ?case
  proof (cases "offence x ?s")
    case None
    thus ?thesis using slash_step_effect [where x = x and s = ?s] old by (simp add: slash_run_snoc same_slashed_def)
  next
    case (Some y)
    obtain v r k where y: "y = (v, r, k)" by (cases y)
    have "sl_events (slash_run (ops @ [x])) = sl_events (slash_now v r k ?s)"
      using slash_step_effect [where x = x and s = ?s] Some y by (simp add: slash_run_snoc same_slashed_def)
    moreover have "\<forall>e\<in>set (sl_events (slash_now v r k ?s)). guilty (ops @ [x]) e"
      using old offence_guilty [OF Some [unfolded y]] by (auto simp: slash_now_def)
    ultimately show ?thesis by simp
  qed
qed

lemma unslashed_vote_kept:
  assumes "OpVote v slot h \<in> set ops" "OpClear slot \<notin> set ops" "v \<notin> set (sl_slashed (slash_run ops))"
  shows "map_of (dict_get (sl_votes (slash_run ops)) v []) slot = Some h"
  using assms
proof (induction ops arbitrary: h rule: rev_induct)
  case (snoc x ops)
  let ?s = "slash_run ops"
  have before: "v \<notin> set (sl_slashed ?s)" using snoc.prems(3) slash_step_stays [of v ?s x] by (auto simp: slash_run_snoc)
  have after: "v \<notin> set (sl_slashed (slash_step x ?s))" using snoc.prems(3) by (simp add: slash_run_snoc)
  have IH: "OpVote v slot g \<in> set ops \<Longrightarrow> map_of (dict_get (sl_votes ?s) v []) slot = Some g" for g
    using snoc.IH snoc.prems(2) before by simp
  show ?case
  proof (cases x)
    case (OpVote w k g)
    show ?thesis
    proof (cases "w = v \<and> k = slot")
      case True
      have "map_of (dict_get (sl_votes (slash_step x ?s)) v []) slot = Some g \<and>
          (\<forall>g'. map_of (dict_get (sl_votes ?s) v []) slot = Some g' \<longrightarrow> g' = g)"
        using after before True OpVote by (auto simp: slash_defs dict_get_def update_conv split: option.splits if_splits)
      thus ?thesis using snoc.prems(1) IH OpVote True by (auto simp: slash_run_snoc)
    next
      case False
      have "map_of (dict_get (sl_votes (slash_step x ?s)) v []) slot = map_of (dict_get (sl_votes ?s) v []) slot"
        using False by (auto simp: OpVote slash_defs dict_get_def update_conv split: option.splits)
      thus ?thesis using snoc.prems(1) IH False OpVote by (auto simp: slash_run_snoc)
    qed
  next
    case (OpClear e)
    thus ?thesis using snoc.prems(1,2) IH by (simp add: slash_run_snoc cleared_votes)
  qed (use snoc.prems(1) IH in \<open>auto simp: slash_run_snoc slash_defs split: if_splits\<close>)
qed simp

lemma conflicting_votes_slashed:
  assumes "OpVote v slot h \<in> set ops" "OpVote v slot h' \<in> set ops" "h \<noteq> h'" "OpClear slot \<notin> set ops"
  shows "v \<in> set (sl_slashed (slash_run ops))"
  using unslashed_vote_kept [OF assms(1,4)] unslashed_vote_kept [OF assms(2,4)] assms(3) by auto

text \<open>
  C29. Slashing is accountable. After every sequence of operations the slashed validators are those of the events, one event each, and each event has its offence among the operations: two different votes in the slot it names, two proposals at one height, more than fifty misses, or a report. Conversely a validator with two different votes in a slot is slashed, unless the votes of that slot were cleared.
\<close>

theorem slashing_accountable:
  "map se_validator (sl_events (slash_run ops)) = sl_slashed (slash_run ops) \<and> distinct (sl_slashed (slash_run ops)) \<and>
   (\<forall>e\<in>set (sl_events (slash_run ops)). guilty ops e) \<and>
   (\<forall>v slot h h'. OpVote v slot h \<in> set ops \<and> OpVote v slot h' \<in> set ops \<and> h \<noteq> h' \<and> OpClear slot \<notin> set ops \<longrightarrow>
      v \<in> set (sl_slashed (slash_run ops)))"
  using slash_run_one [of ops] events_guilty [of ops] conflicting_votes_slashed [of _ _ _ ops]
  unfolding one_event_each_def by metis

theorem slashing_accountable_witness:
  "sl_slashed (slash_run [OpVote ''a'' 3 ''x'', OpVote ''b'' 3 ''x'', OpVote ''a'' 3 ''y'', OpVote ''a'' 4 ''y'']) = [''a''] \<and>
   ''a'' \<in> set (sl_slashed (slash_run [OpVote ''a'' 3 ''x'', OpVote ''b'' 3 ''x'', OpVote ''a'' 3 ''y'', OpVote ''a'' 4 ''y'']))"
proof
  show "sl_slashed (slash_run [OpVote ''a'' 3 ''x'', OpVote ''b'' 3 ''x'', OpVote ''a'' 3 ''y'', OpVote ''a'' 4 ''y'']) = [''a'']"
    by code_simp
  have "''x'' \<noteq> ''y''" by simp
  thus "''a'' \<in> set (sl_slashed (slash_run [OpVote ''a'' 3 ''x'', OpVote ''b'' 3 ''x'', OpVote ''a'' 3 ''y'', OpVote ''a'' 4 ''y'']))"
    by (intro slashing_accountable [THEN conjunct2, THEN conjunct2, THEN conjunct2, rule_format, of _ 3 "''x''" _ "''y''"]) simp
qed

section \<open>Stakes\<close>

definition known_slashed :: "slashing_state \<Rightarrow> bool" where
  "known_slashed s \<longleftrightarrow> distinct (dict_keys (sl_stakes s)) \<and> distinct (sl_slashed s)"

lemma slash_run_known: "known_slashed (slash_run ops)"
proof (induction ops rule: rev_induct)
  case Nil
  show ?case by (simp add: known_slashed_def new_slashing_def)
next
  case (snoc x ops)
  let ?s = "slash_run ops"
  have "sl_stakes (slash_step x ?s) = sl_stakes ?s \<or> (\<exists>v k. sl_stakes (slash_step x ?s) = dict_set v k (sl_stakes ?s))"
    by (cases x) (auto simp: slash_defs split: option.splits)
  moreover have "distinct (sl_slashed (slash_run (ops @ [x])))" using slash_run_one by (simp add: one_event_each_def)
  ultimately show ?case using snoc.IH by (auto simp: known_slashed_def slash_run_snoc dict_set_keys)
qed

lemma stake_split_dict:
  assumes "distinct (dict_keys m)" "distinct vs"
  shows "(\<Sum>(v, k)\<leftarrow>filter (\<lambda>(v, k). v \<notin> set vs) m. k) + (\<Sum>v\<leftarrow>vs. dict_get m v 0) = (\<Sum>(v, k)\<leftarrow>m. k :: int)"
  using assms(1)
proof (induction m)
  case Nil
  thus ?case by (simp add: dict_get_def)
next
  case (Cons x m)
  obtain u j where x: "x = (u, j)" by (cases x)
  have fresh: "map_of m u = None" using Cons.prems by (simp add: x map_of_eq_None_iff)
  have "(\<Sum>v\<leftarrow>vs. dict_get (x # m) v 0) = (\<Sum>v\<leftarrow>vs. (if v = u then j else 0) + dict_get m v 0)"
    by (rule arg_cong [where f = sum_list], rule map_cong) (use fresh in \<open>auto simp: x dict_get_def\<close>)
  also have "\<dots> = (\<Sum>v\<leftarrow>vs. if v = u then j else 0) + (\<Sum>v\<leftarrow>vs. dict_get m v 0)" by (simp add: sum_list_addf)
  also have "(\<Sum>v\<leftarrow>vs. if v = u then j else 0) = (if u \<in> set vs then j else 0)"
    using assms(2) by (induction vs) auto
  finally show ?case using Cons by (simp add: x)
qed

lemma stake_conserved: "active_stake (slash_run ops) + slashed_stake (slash_run ops) = (\<Sum>(v, k)\<leftarrow>sl_stakes (slash_run ops). k)"
  using slash_run_known [of ops] by (simp add: known_slashed_def active_stake_def slashed_stake_def stake_split_dict)

end
