(* ===== verification/Engines.thy ===== *)
theory Engines
  imports Ghost Slashing Amount
begin

text \<open>
  \<open>consensus/epoch.py\<close>, \<open>finality_beacon.py\<close>, \<open>finality_casper.py\<close> and the three engines \<open>engine_slashing.py\<close>
  (the one the adapter runs in every mode), \<open>engine_casper.py\<close> and \<open>engine_beacon.py\<close>: attestations move the latest
  votes, the slashing books and the two-step finality. The Python code is modelled where a native kernel repeats it;
  sets are lists without repetition.
\<close>

section \<open>Epochs\<close>

definition epoch_at :: "int \<Rightarrow> int \<Rightarrow> int" where
  "epoch_at width n = n div width"

definition epoch_boundary :: "int \<Rightarrow> int \<Rightarrow> bool" where
  "epoch_boundary width n \<longleftrightarrow> n mod width = 0"

definition epoch_start :: "int \<Rightarrow> int \<Rightarrow> int" where
  "epoch_start width e = e * width"

definition epoch_end :: "int \<Rightarrow> int \<Rightarrow> int" where
  "epoch_end width e = (e + 1) * width - 1"

definition blocks_in_epoch :: "('b \<Rightarrow> int) \<Rightarrow> int \<Rightarrow> (string, 'b) dict \<Rightarrow> int \<Rightarrow> 'b list" where
  "blocks_in_epoch number width blocks e =
     filter (\<lambda>b. epoch_start width e \<le> number b \<and> number b \<le> epoch_end width e) (map snd blocks)"

lemma epoch_interval: "0 < width \<Longrightarrow> epoch_at width n = e \<longleftrightarrow> epoch_start width e \<le> n \<and> n \<le> epoch_end width e"
proof -
  assume "0 < width"
  have "n div width = e \<longleftrightarrow> e * width \<le> n \<and> n < (e + 1) * width"
  proof
    assume "n div width = e"
    hence "n = e * width + n mod width" by (metis div_mult_mod_eq)
    thus "e * width \<le> n \<and> n < (e + 1) * width"
      using pos_mod_bound [OF \<open>0 < width\<close>, of n] pos_mod_sign [OF \<open>0 < width\<close>, of n] by (simp add: distrib_right)
  next
    assume "e * width \<le> n \<and> n < (e + 1) * width"
    thus "n div width = e" by (intro int_div_pos_eq [where r = "n - width * e"]) (simp_all add: algebra_simps)
  qed
  thus ?thesis by (auto simp: epoch_at_def epoch_start_def epoch_end_def)
qed

section \<open>Two-step finality\<close>

text \<open>\<open>int(total_stake * threshold_ratio)\<close> with the float \<open>2/3\<close>.\<close>

definition two_thirds :: "int \<Rightarrow> int" where
  "two_thirds stakes = truncate_rat (fmul (float_of_int stakes) (fdiv 2 3))"

type_synonym epoch_votes = "(int, (string, int) dict) dict"

text \<open>\<open>max(items, key=weight)\<close>: the first of the heaviest.\<close>

fun best_vote :: "(string \<times> int) list \<Rightarrow> (string \<times> int) option" where
  "best_vote [] = None"
| "best_vote (x # xs) = Some (fold (\<lambda>y b. if snd b < snd y then y else b) xs x)"

definition best_checkpoint :: "epoch_votes \<Rightarrow> int \<Rightarrow> (string \<times> int) option" where
  "best_checkpoint vs e = (case map_of vs e of None \<Rightarrow> None | Some m \<Rightarrow> best_vote m)"

definition accumulate :: "int \<Rightarrow> string \<Rightarrow> int \<Rightarrow> epoch_votes \<Rightarrow> epoch_votes" where
  "accumulate e h weight vs = (let m = dict_get vs e [] in dict_set e (dict_set h (dict_get m h 0 + weight) m) vs)"

record beacon_finality =
  bf_epoch_size :: int
  bf_total :: int
  bf_votes :: epoch_votes
  bf_justified_checkpoint :: "int option"
  bf_justified_block :: "string option"
  bf_finalized_checkpoint :: "int option"
  bf_finalized_block :: "string option"
  bf_justified :: "int list"
  bf_finalized :: "int list"
  bf_blocks :: "(int, string) dict"

definition new_beacon :: "int \<Rightarrow> beacon_finality" where
  "new_beacon width = \<lparr>bf_epoch_size = width, bf_total = 0, bf_votes = [], bf_justified_checkpoint = None, bf_justified_block = None,
     bf_finalized_checkpoint = None, bf_finalized_block = None, bf_justified = [], bf_finalized = [], bf_blocks = []\<rparr>"

definition beacon_finalize :: "int \<Rightarrow> beacon_finality \<Rightarrow> beacon_finality" where
  "beacon_finalize prev f =
     (if prev \<in> set (bf_justified f) \<and> prev \<notin> set (bf_finalized f)
      then f\<lparr>bf_finalized := bf_finalized f @ [prev], bf_finalized_checkpoint := Some prev, bf_finalized_block := map_of (bf_blocks f) prev\<rparr>
      else f)"

definition beacon_evaluate :: "int \<Rightarrow> beacon_finality \<Rightarrow> beacon_finality" where
  "beacon_evaluate e f =
     (case best_checkpoint (bf_votes f) e of
        None \<Rightarrow> f
      | Some (h, weight) \<Rightarrow>
          if two_thirds (bf_total f) \<le> weight \<and> e \<notin> set (bf_justified f)
          then beacon_finalize (e - 1)
                 (f\<lparr>bf_justified := bf_justified f @ [e], bf_blocks := dict_set e h (bf_blocks f),
                    bf_justified_checkpoint := Some e, bf_justified_block := Some h\<rparr>)
          else f)"

definition beacon_add_vote :: "string \<Rightarrow> int \<Rightarrow> int \<Rightarrow> beacon_finality \<Rightarrow> beacon_finality" where
  "beacon_add_vote h slot weight f =
     (let e = epoch_at (bf_epoch_size f) slot in beacon_evaluate e (f\<lparr>bf_votes := accumulate e h weight (bf_votes f)\<rparr>))"

definition beacon_is_finalized :: "beacon_finality \<Rightarrow> int \<Rightarrow> bool" where
  "beacon_is_finalized f number \<longleftrightarrow> epoch_at (bf_epoch_size f) number \<in> set (bf_finalized f)"

record casper_finality =
  cf_votes :: epoch_votes
  cf_total :: int
  cf_justified :: "int list"
  cf_finalized :: "int list"
  cf_blocks :: "(int, string) dict"

definition new_casper :: casper_finality where
  "new_casper = \<lparr>cf_votes = [], cf_total = 0, cf_justified = [], cf_finalized = [], cf_blocks = []\<rparr>"

definition justify_epoch :: "int \<Rightarrow> string \<Rightarrow> casper_finality \<Rightarrow> casper_finality" where
  "justify_epoch e h f =
     (if e \<in> set (cf_justified f) then f else f\<lparr>cf_justified := cf_justified f @ [e], cf_blocks := dict_set e h (cf_blocks f)\<rparr>)"

definition try_finalize :: "int \<Rightarrow> casper_finality \<Rightarrow> casper_finality" where
  "try_finalize e f =
     (if e - 1 \<in> set (cf_justified f) \<and> e - 1 \<notin> set (cf_finalized f) then f\<lparr>cf_finalized := cf_finalized f @ [e - 1]\<rparr> else f)"

definition casper_evaluate :: "int \<Rightarrow> casper_finality \<Rightarrow> casper_finality" where
  "casper_evaluate e f =
     (case best_checkpoint (cf_votes f) e of
        None \<Rightarrow> f
      | Some (h, weight) \<Rightarrow> if two_thirds (cf_total f) \<le> weight then try_finalize e (justify_epoch e h f) else f)"

definition casper_add_vote :: "int \<Rightarrow> string \<Rightarrow> int \<Rightarrow> casper_finality \<Rightarrow> casper_finality" where
  "casper_add_vote e h weight f = casper_evaluate e (f\<lparr>cf_votes := accumulate e h weight (cf_votes f)\<rparr>)"

section \<open>The engines\<close>

text \<open>A block handed to an engine, with the hash and the parent already read from their two keys.\<close>

record engine_block =
  eb_hash :: string
  eb_parent :: "string option"
  eb_number :: "int option"
  eb_height :: "int option"

definition tree_number_of :: "engine_block \<Rightarrow> int" where
  "tree_number_of b = (case eb_number b of Some n \<Rightarrow> n | None \<Rightarrow> (case eb_height b of Some n \<Rightarrow> n | None \<Rightarrow> 0))"

definition block_number_of :: "engine_block \<Rightarrow> int" where
  "block_number_of b = (case eb_number b of Some n \<Rightarrow> n | None \<Rightarrow> 0)"

record slashing_engine =
  en_lmd :: lmd_table
  en_finality :: beacon_finality
  en_slashing :: slashing_state
  en_tree :: block_tree
  en_blocks :: "(string, engine_block) dict"

definition new_slashing_engine :: "int \<Rightarrow> slashing_engine" where
  "new_slashing_engine width =
     \<lparr>en_lmd = new_lmd, en_finality = new_beacon width, en_slashing = new_slashing, en_tree = [], en_blocks = []\<rparr>"

definition set_active_total :: "slashing_engine \<Rightarrow> slashing_engine" where
  "set_active_total E = E\<lparr>en_finality := (en_finality E)\<lparr>bf_total := active_stake (en_slashing E)\<rparr>\<rparr>"

definition en_add_validator :: "string \<Rightarrow> int \<Rightarrow> slashing_engine \<Rightarrow> slashing_engine" where
  "en_add_validator v stake E =
     set_active_total (E\<lparr>en_lmd := lmd_add_validator v stake (en_lmd E), en_slashing := register_stake v stake (en_slashing E)\<rparr>)"

definition en_add_block :: "engine_block \<Rightarrow> slashing_engine \<Rightarrow> slashing_engine" where
  "en_add_block b E =
     E\<lparr>en_blocks := dict_set (eb_hash b) b (en_blocks E),
       en_tree := tree_add (eb_hash b) (eb_parent b) (tree_number_of b) (en_tree E)\<rparr>"

definition en_on_attestation :: "string \<Rightarrow> string \<Rightarrow> int \<Rightarrow> slashing_engine \<Rightarrow> slashing_engine \<times> bool" where
  "en_on_attestation v h slot E =
     (let (sl, ok) = slashing_add_vote v slot h (en_slashing E);
          E1 = E\<lparr>en_slashing := sl\<rparr>
      in if \<not> ok then (E1, False)
         else (let stake = slashing_stake sl v;
                   E2 = (if 0 < stake
                         then E1\<lparr>en_lmd := fst (lmd_update v h slot (en_lmd E1)),
                                 en_finality := (if map_of (en_blocks E1) h \<noteq> None
                                                 then beacon_add_vote h slot stake (en_finality E1) else en_finality E1)\<rparr>
                         else E1)
               in (set_active_total E2, True)))"

definition en_head :: "slashing_engine \<Rightarrow> string option option" where
  "en_head E = select_head (en_tree E) (lmd_weights (en_lmd E))"

definition en_is_finalized :: "slashing_engine \<Rightarrow> string \<Rightarrow> bool" where
  "en_is_finalized E h =
     (case map_of (en_blocks E) h of None \<Rightarrow> False | Some b \<Rightarrow> beacon_is_finalized (en_finality E) (block_number_of b))"

record casper_engine =
  ce_lmd :: lmd_table
  ce_finality :: casper_finality
  ce_epoch_size :: int
  ce_tree :: block_tree
  ce_blocks :: "(string, engine_block) dict"

definition lmd_total :: "lmd_table \<Rightarrow> int" where
  "lmd_total t = sum_list (map snd (lm_stakes t))"

definition ce_add_validator :: "string \<Rightarrow> int \<Rightarrow> casper_engine \<Rightarrow> casper_engine" where
  "ce_add_validator v stake E =
     (let t = lmd_add_validator v stake (ce_lmd E) in E\<lparr>ce_lmd := t, ce_finality := (ce_finality E)\<lparr>cf_total := lmd_total t\<rparr>\<rparr>)"

definition ce_on_attestation :: "string \<Rightarrow> string \<Rightarrow> int \<Rightarrow> casper_engine \<Rightarrow> casper_engine \<times> bool" where
  "ce_on_attestation v h slot E =
     (let (t, result) = lmd_update v h slot (ce_lmd E);
          E1 = E\<lparr>ce_lmd := t\<rparr>
      in (case map_of (ce_blocks E) h of
            None \<Rightarrow> (E1, result)
          | Some b \<Rightarrow>
              (E1\<lparr>ce_finality := casper_add_vote (epoch_at (ce_epoch_size E) (block_number_of b)) h (dict_get (lmd_weights t) h 0) (ce_finality E)\<rparr>,
               result)))"

record beacon_engine =
  be_lmd :: lmd_table
  be_finality :: beacon_finality
  be_tree :: block_tree
  be_blocks :: "(string, engine_block) dict"

definition be_on_attestation :: "string \<Rightarrow> string \<Rightarrow> int \<Rightarrow> beacon_engine \<Rightarrow> beacon_engine \<times> bool" where
  "be_on_attestation v h slot E =
     (let (t, result) = lmd_update v h slot (be_lmd E)
      in (if result
          then E\<lparr>be_lmd := t, be_finality := beacon_add_vote h slot (dict_get (lm_stakes t) v 0) (be_finality E)\<rparr>
          else E\<lparr>be_lmd := t\<rparr>, result))"

end
