(* ===== verification/Engine_Props.thy ===== *)
theory Engine_Props
  imports Engines
begin

text \<open>
  What the two-step finality of the slashing engine guarantees, and what it does not: finalized epochs are followed by
  justified ones, but one validator that repeats an attestation justifies and finalizes epochs alone.
\<close>

section \<open>Evaluations\<close>

lemma fold_pick: "fold (\<lambda>y b. if P y b then y else b) xs b \<in> insert b (set xs)"
proof (induction xs arbitrary: b)
  case (Cons z xs)
  show ?case using Cons.IH [of z] Cons.IH [of b] by (cases "P z b") auto
qed simp

lemma fold_max:
  "y \<in> insert b (set xs) \<Longrightarrow> snd y \<le> snd (fold (\<lambda>y b. if snd b < snd y then y else b) xs b)"
  for y :: "string \<times> int"
proof (induction xs arbitrary: b y)
  case (Cons z xs)
  let ?c = "if snd b < snd z then z else b"
  have "snd ?c \<le> snd (fold (\<lambda>y b. if snd b < snd y then y else b) (z # xs) b)" using Cons.IH [of ?c ?c] by simp
  moreover have "y \<in> set xs \<Longrightarrow> snd y \<le> snd (fold (\<lambda>y b. if snd b < snd y then y else b) (z # xs) b)" using Cons.IH [of y ?c] by simp
  moreover have "snd b \<le> snd ?c" "snd z \<le> snd ?c" by simp_all
  moreover have "y = b \<or> y = z \<or> y \<in> set xs" using Cons.prems by auto
  ultimately show ?case by (elim disjE) (simp_all only: order_trans)
qed simp

lemma best_vote_max: "(h, w) \<in> set m \<Longrightarrow> \<exists>g v. best_vote m = Some (g, v) \<and> w \<le> v \<and> (g, v) \<in> set m"
proof (cases m)
  case (Cons x xs)
  assume "(h, w) \<in> set m"
  hence "w \<le> snd (fold (\<lambda>y b. if snd b < snd y then y else b) xs x)" using fold_max [of "(h, w)" x xs] Cons by simp
  moreover obtain g v where "fold (\<lambda>y b. if snd b < snd y then y else b) xs x = (g, v)" by fastforce
  ultimately show ?thesis using fold_pick [of "\<lambda>y b. snd b < snd y" xs x] Cons by simp
qed simp

definition epoch_weight :: "epoch_votes \<Rightarrow> int \<Rightarrow> string \<Rightarrow> int" where
  "epoch_weight vs e h = dict_get (dict_get vs e []) h 0"

lemma accumulate_weight:
  "epoch_weight (accumulate e h w vs) e' h' = epoch_weight vs e' h' + (if e' = e \<and> h' = h then w else 0)"
  by (simp add: epoch_weight_def accumulate_def Let_def dict_get_def update_conv)

lemma accumulate_best:
  assumes "0 < epoch_weight vs e h"
  shows "\<exists>g w. best_checkpoint vs e = Some (g, w) \<and> epoch_weight vs e h \<le> w"
proof -
  have ne: "map_of vs e \<noteq> None" using assms by (auto simp: epoch_weight_def dict_get_def split: option.splits)
  then obtain m where m: "map_of vs e = Some m" by blast
  have "map_of m h = Some (epoch_weight vs e h)" using assms m by (auto simp: epoch_weight_def dict_get_def split: option.splits)
  hence "(h, epoch_weight vs e h) \<in> set m" by (rule map_of_SomeD)
  thus ?thesis using best_vote_max m by (fastforce simp: best_checkpoint_def)
qed

lemma finalize_keeps [simp]:
  "bf_justified (beacon_finalize p f) = bf_justified f" "bf_votes (beacon_finalize p f) = bf_votes f"
  "bf_total (beacon_finalize p f) = bf_total f" "bf_epoch_size (beacon_finalize p f) = bf_epoch_size f"
  "set (bf_finalized (beacon_finalize p f)) = set (bf_finalized f) \<union> (if p \<in> set (bf_justified f) then {p} else {})"
  by (auto simp: beacon_finalize_def)

lemma evaluate_keeps [simp]:
  "bf_votes (beacon_evaluate e f) = bf_votes f" "bf_total (beacon_evaluate e f) = bf_total f"
  "bf_epoch_size (beacon_evaluate e f) = bf_epoch_size f"
  by (simp_all add: beacon_evaluate_def split: option.split)

text \<open>An evaluation justifies at most its own epoch, on the threshold, and then finalizes at most the epoch before.\<close>

definition carried :: "int \<Rightarrow> beacon_finality \<Rightarrow> bool" where
  "carried e f \<longleftrightarrow> (\<exists>h w. best_checkpoint (bf_votes f) e = Some (h, w) \<and> two_thirds (bf_total f) \<le> w)"

lemma evaluate_justified: "set (bf_justified (beacon_evaluate e f)) = set (bf_justified f) \<union> (if carried e f then {e} else {})"
  by (auto simp: beacon_evaluate_def carried_def split: option.splits)

lemma evaluate_finalized:
  "set (bf_finalized (beacon_evaluate e f)) =
     set (bf_finalized f) \<union> (if carried e f \<and> e \<notin> set (bf_justified f) \<and> e - 1 \<in> set (bf_justified f) then {e - 1} else {})"
  by (auto simp: beacon_evaluate_def carried_def split: option.splits)

section \<open>Finalized epochs are followed by justified ones\<close>

definition consecutive :: "beacon_finality \<Rightarrow> bool" where
  "consecutive f \<longleftrightarrow> (\<forall>e\<in>set (bf_finalized f). e \<in> set (bf_justified f) \<and> e + 1 \<in> set (bf_justified f))"

lemma evaluate_consecutive: "consecutive f \<Longrightarrow> consecutive (beacon_evaluate e f)"
  by (auto simp: consecutive_def evaluate_justified evaluate_finalized)

datatype engine_op = AddValidator string int | AddBlock engine_block | Attest string string int

fun engine_step :: "engine_op \<Rightarrow> slashing_engine \<Rightarrow> slashing_engine" where
  "engine_step (AddValidator v k) E = en_add_validator v k E"
| "engine_step (AddBlock b) E = en_add_block b E"
| "engine_step (Attest v h slot) E = fst (en_on_attestation v h slot E)"

definition engine_run :: "int \<Rightarrow> engine_op list \<Rightarrow> slashing_engine" where
  "engine_run width ops = fold engine_step ops (new_slashing_engine width)"

lemma consecutive_cong: "bf_justified g = bf_justified f \<Longrightarrow> bf_finalized g = bf_finalized f \<Longrightarrow> consecutive g = consecutive f"
  by (simp add: consecutive_def)

lemma add_vote_consecutive: "consecutive f \<Longrightarrow> consecutive (beacon_add_vote h slot w f)"
  unfolding beacon_add_vote_def Let_def by (rule evaluate_consecutive) (simp add: consecutive_def)

lemma engine_step_consecutive: "consecutive (en_finality E) \<Longrightarrow> consecutive (en_finality (engine_step x E))"
proof (cases x)
  case (Attest v h slot)
  assume c: "consecutive (en_finality E)"
  have t: "consecutive (f\<lparr>bf_total := n\<rparr>) = consecutive f" for f n by (simp add: consecutive_def)
  show ?thesis using c Attest by (simp add: en_on_attestation_def Let_def set_active_total_def t add_vote_consecutive split: prod.split)
qed (simp_all add: en_add_validator_def en_add_block_def set_active_total_def consecutive_def)

lemma engine_finalized_consecutive: "consecutive (en_finality (engine_run width ops))"
proof (induction ops rule: rev_induct)
  case Nil
  show ?case by (simp add: engine_run_def new_slashing_engine_def new_beacon_def consecutive_def)
next
  case (snoc x ops)
  thus ?case using engine_step_consecutive by (simp add: engine_run_def)
qed

section \<open>Replayed attestations\<close>

definition replay :: "nat \<Rightarrow> string \<Rightarrow> string \<Rightarrow> int \<Rightarrow> slashing_engine \<Rightarrow> slashing_engine" where
  "replay n v h slot E = ((\<lambda>E. fst (en_on_attestation v h slot E)) ^^ n) E"

text \<open>A validator that may attest \<open>h\<close> in \<open>slot\<close>: staked, not slashed, and without another vote in the slot.\<close>

definition may_attest :: "string \<Rightarrow> string \<Rightarrow> int \<Rightarrow> slashing_engine \<Rightarrow> bool" where
  "may_attest v h slot E \<longleftrightarrow>
     v \<notin> set (sl_slashed (en_slashing E)) \<and> 0 < dict_get (sl_stakes (en_slashing E)) v 0 \<and>
     map_of (dict_get (sl_votes (en_slashing E)) v []) slot \<in> {None, Some h}"

lemma attest_vote_accepted:
  assumes "may_attest v h slot E"
  obtains sl where "slashing_add_vote v slot h (en_slashing E) = (sl, True)" "sl_slashed sl = sl_slashed (en_slashing E)"
    "sl_stakes sl = sl_stakes (en_slashing E)"
    "\<And>k. map_of (dict_get (sl_votes sl) v []) k = (if k = slot then Some h else map_of (dict_get (sl_votes (en_slashing E)) v []) k)"
proof -
  let ?s = "en_slashing E"
  obtain sl ok where sl: "slashing_add_vote v slot h ?s = (sl, ok)" by fastforce
  have "ok \<and> sl_slashed sl = sl_slashed ?s \<and> sl_stakes sl = sl_stakes ?s \<and>
      (\<forall>k. map_of (dict_get (sl_votes sl) v []) k = (if k = slot then Some h else map_of (dict_get (sl_votes ?s) v []) k))"
    using assms sl by (auto simp: may_attest_def slash_defs dict_get_def update_conv split: option.splits if_splits)
  thus thesis by (intro that [of sl]) (use sl in auto)
qed

lemma attest_effect:
  assumes may: "may_attest v h slot E" and known: "map_of (en_blocks E) h \<noteq> None"
  obtains E' where "fst (en_on_attestation v h slot E) = E'" "en_blocks E' = en_blocks E"
    "sl_slashed (en_slashing E') = sl_slashed (en_slashing E)" "sl_stakes (en_slashing E') = sl_stakes (en_slashing E)"
    "\<And>k. map_of (dict_get (sl_votes (en_slashing E')) v []) k =
       (if k = slot then Some h else map_of (dict_get (sl_votes (en_slashing E)) v []) k)"
    "en_finality E' = (beacon_add_vote h slot (dict_get (sl_stakes (en_slashing E)) v 0) (en_finality E))\<lparr>bf_total := active_stake (en_slashing E')\<rparr>"
proof -
  obtain sl where sl: "slashing_add_vote v slot h (en_slashing E) = (sl, True)" "sl_slashed sl = sl_slashed (en_slashing E)"
    "sl_stakes sl = sl_stakes (en_slashing E)"
    "\<And>k. map_of (dict_get (sl_votes sl) v []) k = (if k = slot then Some h else map_of (dict_get (sl_votes (en_slashing E)) v []) k)"
    using attest_vote_accepted [OF may] by metis
  have stake: "slashing_stake sl v = dict_get (sl_stakes (en_slashing E)) v 0" "0 < slashing_stake sl v"
    using may sl(2,3) by (simp_all add: may_attest_def slashing_stake_def)
  show thesis
    by (rule that [of "fst (en_on_attestation v h slot E)"])
      (use sl stake known in \<open>auto simp: en_on_attestation_def set_active_total_def\<close>)
qed

lemma replay_0 [simp]: "replay 0 v h slot E = E"
  by (simp add: replay_def)

lemma replay_Suc: "replay (Suc n) v h slot E = fst (en_on_attestation v h slot (replay n v h slot E))"
  by (simp add: replay_def)

text \<open>What stays during the replays of one attestation, and what they add up to.\<close>

definition replayed :: "string \<Rightarrow> string \<Rightarrow> int \<Rightarrow> nat \<Rightarrow> slashing_engine \<Rightarrow> slashing_engine \<Rightarrow> bool" where
  "replayed v h slot n E F \<longleftrightarrow>
     (let k = dict_get (sl_stakes (en_slashing E)) v 0; f = en_finality E; g = en_finality F; e = epoch_at (bf_epoch_size f) slot in
      en_blocks F = en_blocks E \<and> sl_slashed (en_slashing F) = sl_slashed (en_slashing E) \<and>
      sl_stakes (en_slashing F) = sl_stakes (en_slashing E) \<and>
      map_of (dict_get (sl_votes (en_slashing F)) v []) slot \<in> {None, Some h} \<and>
      (\<forall>j. j \<noteq> slot \<longrightarrow> map_of (dict_get (sl_votes (en_slashing F)) v []) j = map_of (dict_get (sl_votes (en_slashing E)) v []) j) \<and>
      bf_epoch_size g = bf_epoch_size f \<and> epoch_weight (bf_votes g) e h = epoch_weight (bf_votes f) e h + int n * k \<and>
      set (bf_justified f) \<subseteq> set (bf_justified g) \<and> set (bf_justified g) \<subseteq> insert e (set (bf_justified f)) \<and>
      set (bf_finalized f) \<subseteq> set (bf_finalized g) \<and>
      (e \<in> set (bf_justified g) \<and> e \<notin> set (bf_justified f) \<and> e - 1 \<in> set (bf_justified f) \<longrightarrow> e - 1 \<in> set (bf_finalized g)) \<and>
      (0 < n \<longrightarrow> bf_total g = active_stake (en_slashing E)))"

lemma replayed_may: "may_attest v h slot E \<Longrightarrow> replayed v h slot n E F \<Longrightarrow> may_attest v h slot F"
  by (simp add: replayed_def may_attest_def Let_def)

lemma active_stake_cong: "sl_slashed t = sl_slashed s \<Longrightarrow> sl_stakes t = sl_stakes s \<Longrightarrow> active_stake t = active_stake s"
  by (simp add: active_stake_def)

lemma replayed_step:
  assumes may: "may_attest v h slot E" and known: "map_of (en_blocks E) h \<noteq> None" and r: "replayed v h slot n E F"
  shows "replayed v h slot (Suc n) E (fst (en_on_attestation v h slot F))"
proof -
  have eqs: "en_blocks F = en_blocks E" "sl_slashed (en_slashing F) = sl_slashed (en_slashing E)"
      "sl_stakes (en_slashing F) = sl_stakes (en_slashing E)" "bf_epoch_size (en_finality F) = bf_epoch_size (en_finality E)"
    using r by (simp_all add: replayed_def Let_def)
  have "map_of (en_blocks F) h \<noteq> None" using known eqs(1) by simp
  from attest_effect [OF replayed_may [OF may r] this]
  obtain G where G: "fst (en_on_attestation v h slot F) = G" "en_blocks G = en_blocks F"
    "sl_slashed (en_slashing G) = sl_slashed (en_slashing F)" "sl_stakes (en_slashing G) = sl_stakes (en_slashing F)"
    "\<And>k. map_of (dict_get (sl_votes (en_slashing G)) v []) k =
       (if k = slot then Some h else map_of (dict_get (sl_votes (en_slashing F)) v []) k)"
    "en_finality G = (beacon_add_vote h slot (dict_get (sl_stakes (en_slashing F)) v 0) (en_finality F))\<lparr>bf_total := active_stake (en_slashing G)\<rparr>"
    by metis
  have act: "active_stake (en_slashing G) = active_stake (en_slashing E)"
    by (rule active_stake_cong) (simp_all add: G(3,4) eqs)
  show ?thesis
    using r unfolding replayed_def Let_def G(1)
    by (simp add: G act eqs beacon_add_vote_def Let_def accumulate_weight evaluate_justified evaluate_finalized algebra_simps)
      blast
qed

lemma replay_replayed:
  assumes "may_attest v h slot E" "map_of (en_blocks E) h \<noteq> None"
  shows "replayed v h slot n E (replay n v h slot E)"
proof (induction n)
  case 0
  show ?case using assms(1) by (auto simp: replayed_def Let_def may_attest_def)
next
  case (Suc n)
  show ?case unfolding replay_Suc by (rule replayed_step [OF assms Suc.IH])
qed

lemma replay_justifies:
  assumes may: "may_attest v h slot E" and known: "map_of (en_blocks E) h \<noteq> None"
  shows "\<exists>N. \<forall>n\<ge>N. epoch_at (bf_epoch_size (en_finality E)) slot \<in> set (bf_justified (en_finality (replay n v h slot E)))"
proof -
  let ?k = "dict_get (sl_stakes (en_slashing E)) v 0" and ?e = "epoch_at (bf_epoch_size (en_finality E)) slot"
    and ?w = "epoch_weight (bf_votes (en_finality E)) (epoch_at (bf_epoch_size (en_finality E)) slot) h"
    and ?A = "two_thirds (active_stake (en_slashing E))"
  have k: "1 \<le> ?k" using may by (simp add: may_attest_def)
  define M where "M = nat (\<bar>?w\<bar> + \<bar>?A\<bar> + 1)"
  have "?e \<in> set (bf_justified (en_finality (replay n v h slot E)))" if n: "Suc (Suc M) \<le> n" for n
  proof -
    obtain m where m: "n = Suc m" "Suc M \<le> m" using n by (cases n) auto
    let ?F = "replay m v h slot E"
    have r: "replayed v h slot m E ?F" by (rule replay_replayed [OF may known])
    have rn: "replayed v h slot n E (replay n v h slot E)" by (rule replay_replayed [OF may known])
    have "map_of (en_blocks ?F) h \<noteq> None" using r known by (simp add: replayed_def Let_def)
    from attest_effect [OF replayed_may [OF may r] this]
    have G: "en_finality (replay n v h slot E) =
        (beacon_add_vote h slot ?k (en_finality ?F))\<lparr>bf_total := active_stake (en_slashing (replay n v h slot E))\<rparr>"
      using r unfolding m(1) replay_Suc replayed_def Let_def by metis
    let ?g = "(en_finality ?F)\<lparr>bf_votes := accumulate ?e h ?k (bf_votes (en_finality ?F))\<rparr>"
    have width: "bf_epoch_size (en_finality ?F) = bf_epoch_size (en_finality E)"
      and total: "bf_total (en_finality ?F) = active_stake (en_slashing E)"
      using r m(2) by (simp_all add: replayed_def Let_def)
    have "epoch_weight (bf_votes ?g) ?e h = ?w + int n * ?k"
      using r by (simp add: accumulate_weight replayed_def Let_def m(1) algebra_simps)
    moreover have "int M * 1 \<le> int n * ?k" using k n by (intro mult_mono) auto
    ultimately have "\<bar>?A\<bar> < epoch_weight (bf_votes ?g) ?e h" by (simp add: M_def)
    moreover obtain b w where bw: "best_checkpoint (bf_votes ?g) ?e = Some (b, w)" "epoch_weight (bf_votes ?g) ?e h \<le> w"
      using accumulate_best [of "bf_votes ?g" ?e h] calculation by fastforce
    ultimately have "carried ?e ?g" by (auto simp: carried_def total)
    thus ?thesis by (simp add: G beacon_add_vote_def Let_def width evaluate_justified)
  qed
  thus ?thesis by blast
qed

text \<open>
  One validator finalizes alone. In every state of the slashing engine, a validator with any stake that is not slashed can repeat one attestation for a block it knows, and then the same vote one epoch later, often enough that the epoch of the first slot is finalized, whatever the stake of the others; and then every block the engine knows with a number in that epoch is finalized, voted for or not. The only conditions are that the two slots hold no other vote of the validator and the later epoch is not justified yet.
\<close>

theorem replays_finalize:
  assumes "may_attest v h slot E" "may_attest v h (slot + width) E" "map_of (en_blocks E) h \<noteq> None"
    and "bf_epoch_size (en_finality E) = width" "0 < width" "epoch_at width slot + 1 \<notin> set (bf_justified (en_finality E))"
  shows "\<exists>n m. let F = replay m v h (slot + width) (replay n v h slot E) in
    epoch_at width slot \<in> set (bf_finalized (en_finality F)) \<and>
    (\<forall>g b. map_of (en_blocks E) g = Some b \<and> epoch_at width (block_number_of b) = epoch_at width slot \<longrightarrow> en_is_finalized F g)"
proof -
  let ?e = "epoch_at width slot"
  obtain n where n: "?e \<in> set (bf_justified (en_finality (replay n v h slot E)))"
    using replay_justifies [OF assms(1,3)] assms(4) by blast
  let ?E1 = "replay n v h slot E"
  have r1: "replayed v h slot n E ?E1" by (rule replay_replayed [OF assms(1,3)])
  have next_epoch: "epoch_at width (slot + width) = ?e + 1" using assms(5) by (simp add: epoch_at_def)
  have E1: "bf_epoch_size (en_finality ?E1) = width" "en_blocks ?E1 = en_blocks E" "?e + 1 \<notin> set (bf_justified (en_finality ?E1))"
    using r1 assms(4,6) by (auto simp: replayed_def Let_def)
  have may: "may_attest v h (slot + width) ?E1" using r1 assms(2,5) by (simp add: replayed_def Let_def may_attest_def)
  have known: "map_of (en_blocks ?E1) h \<noteq> None" using assms(3) E1(2) by simp
  obtain m where m: "?e + 1 \<in> set (bf_justified (en_finality (replay m v h (slot + width) ?E1)))"
    using replay_justifies [OF may known] next_epoch E1(1) by fastforce
  let ?F = "replay m v h (slot + width) ?E1"
  have r2: "replayed v h (slot + width) m ?E1 ?F" by (rule replay_replayed [OF may known])
  have F: "bf_epoch_size (en_finality ?F) = width" "en_blocks ?F = en_blocks E"
    using r2 E1(1,2) by (simp_all add: replayed_def Let_def)
  have "?e \<in> set (bf_finalized (en_finality ?F))" using r2 m n E1 next_epoch by (auto simp: replayed_def Let_def)
  thus ?thesis
    by (intro exI [of _ n] exI [of _ m]) (auto simp: Let_def en_is_finalized_def beacon_is_finalized_def F)
qed

definition minority_ops :: "engine_op list" where
  "minority_ops =
     [AddValidator ''big'' 99, AddValidator ''small'' 1,
      AddBlock \<lparr>eb_hash = ''x'', eb_parent = None, eb_number = Some 40, eb_height = None\<rparr>,
      AddBlock \<lparr>eb_hash = ''y'', eb_parent = None, eb_number = Some 40, eb_height = None\<rparr>,
      Attest ''big'' ''y'' 40]"

theorem replays_finalize_witness:
  "\<exists>n m. let F = replay m ''small'' ''x'' (40 + 32) (replay n ''small'' ''x'' 40 (engine_run 32 minority_ops)) in
    epoch_at 32 40 \<in> set (bf_finalized (en_finality F)) \<and>
    (\<forall>g b. map_of (en_blocks (engine_run 32 minority_ops)) g = Some b \<and> epoch_at 32 (block_number_of b) = epoch_at 32 40 \<longrightarrow>
       en_is_finalized F g)"
proof (rule replays_finalize)
  show "may_attest ''small'' ''x'' 40 (engine_run 32 minority_ops)" by code_simp
  show "may_attest ''small'' ''x'' (40 + 32) (engine_run 32 minority_ops)" by code_simp
  show "map_of (en_blocks (engine_run 32 minority_ops)) ''x'' \<noteq> None" by code_simp
  show "bf_epoch_size (en_finality (engine_run 32 minority_ops)) = 32" by code_simp
  show "epoch_at 32 40 + 1 \<notin> set (bf_justified (en_finality (engine_run 32 minority_ops)))" by code_simp
qed simp

text \<open>With stakes of one and two, two attestations in each of two epochs are enough for the smaller validator.\<close>

lemma minority_run:
  "let E = engine_run 32 [AddValidator ''big'' 2, AddValidator ''small'' 1,
        AddBlock \<lparr>eb_hash = ''x'', eb_parent = None, eb_number = Some 40, eb_height = None\<rparr>,
        Attest ''small'' ''x'' 40, Attest ''small'' ''x'' 40, Attest ''small'' ''x'' 72, Attest ''small'' ''x'' 72]
   in en_is_finalized E ''x''"
  by code_simp

section \<open>Slashed validators\<close>

text \<open>
  A slashed validator is shut out: its attestations change nothing any more. But the vote it had keeps its weight in
  the fork choice: the attestation that slashes it leaves the latest votes, the weights and the head as they were.
\<close>

theorem slashed_shut_out:
  "v \<in> set (sl_slashed (en_slashing E)) \<Longrightarrow> en_on_attestation v h slot E = (E, False)"
  by (simp add: en_on_attestation_def slashing_add_vote_def)

theorem slashed_keeps_weight:
  assumes "\<not> snd (en_on_attestation v h slot E)"
  shows "en_lmd (fst (en_on_attestation v h slot E)) = en_lmd E \<and> en_head (fst (en_on_attestation v h slot E)) = en_head E"
  using assms by (auto simp: en_on_attestation_def en_head_def Let_def split: prod.splits if_splits)

section \<open>The Casper engine\<close>

text \<open>
  The Casper engine adds the whole weight of the block to its epoch at every attestation, also when the latest-vote
  table rejects it: repeating any attestation for a block that has votes justifies the block's epoch.
\<close>

definition ce_replay :: "nat \<Rightarrow> string \<Rightarrow> string \<Rightarrow> int \<Rightarrow> casper_engine \<Rightarrow> casper_engine" where
  "ce_replay n v h slot E = ((\<lambda>E. fst (ce_on_attestation v h slot E)) ^^ n) E"

lemma justify_epoch_keeps [simp]:
  "cf_votes (justify_epoch e h f) = cf_votes f" "cf_total (justify_epoch e h f) = cf_total f"
  "set (cf_justified (justify_epoch e h f)) = insert e (set (cf_justified f))"
  by (auto simp: justify_epoch_def)

lemma try_finalize_keeps [simp]:
  "cf_votes (try_finalize e f) = cf_votes f" "cf_total (try_finalize e f) = cf_total f" "cf_justified (try_finalize e f) = cf_justified f"
  by (simp_all add: try_finalize_def)

lemma casper_evaluate_keeps [simp]: "cf_votes (casper_evaluate e f) = cf_votes f" "cf_total (casper_evaluate e f) = cf_total f"
  by (simp_all add: casper_evaluate_def split: option.split)

lemma casper_evaluate_justifies:
  "best_checkpoint (cf_votes f) e = Some (h, w) \<Longrightarrow> two_thirds (cf_total f) \<le> w \<Longrightarrow> e \<in> set (cf_justified (casper_evaluate e f))"
  by (simp add: casper_evaluate_def)

text \<open>With an old slot the vote is rejected, and the weight is added nevertheless.\<close>

lemma rejected_vote_counts:
  assumes "lmd_update v h slot (ce_lmd E) = (ce_lmd E, False)" "map_of (ce_blocks E) h = Some b"
  shows "ce_on_attestation v h slot E =
    (E\<lparr>ce_finality := casper_add_vote (epoch_at (ce_epoch_size E) (block_number_of b)) h (dict_get (lmd_weights (ce_lmd E)) h 0) (ce_finality E)\<rparr>, False)"
  using assms by (simp add: ce_on_attestation_def)

lemma ce_replay_state:
  assumes "lmd_update v h slot (ce_lmd E) = (ce_lmd E, False)" "map_of (ce_blocks E) h = Some b"
  shows "\<exists>f. ce_replay n v h slot E = E\<lparr>ce_finality := f\<rparr> \<and> cf_total f = cf_total (ce_finality E) \<and>
    epoch_weight (cf_votes f) (epoch_at (ce_epoch_size E) (block_number_of b)) h =
      epoch_weight (cf_votes (ce_finality E)) (epoch_at (ce_epoch_size E) (block_number_of b)) h + int n * dict_get (lmd_weights (ce_lmd E)) h 0"
proof (induction n)
  case 0
  show ?case by (intro exI [of _ "ce_finality E"]) (simp add: ce_replay_def)
next
  case (Suc n)
  let ?e = "epoch_at (ce_epoch_size E) (block_number_of b)" and ?k = "dict_get (lmd_weights (ce_lmd E)) h 0"
  from Suc.IH obtain f where f: "ce_replay n v h slot E = E\<lparr>ce_finality := f\<rparr>" "cf_total f = cf_total (ce_finality E)"
      "epoch_weight (cf_votes f) ?e h = epoch_weight (cf_votes (ce_finality E)) ?e h + int n * ?k" by blast
  have "ce_replay (Suc n) v h slot E = E\<lparr>ce_finality := casper_add_vote ?e h ?k f\<rparr>"
    using rejected_vote_counts [of v h slot "E\<lparr>ce_finality := f\<rparr>" b] assms f(1) by (simp add: ce_replay_def)
  thus ?case by (intro exI [of _ "casper_add_vote ?e h ?k f"])
      (simp add: casper_add_vote_def f(2,3) accumulate_weight algebra_simps)
qed

theorem rejected_votes_justify:
  assumes "lmd_update v h slot (ce_lmd E) = (ce_lmd E, False)" "map_of (ce_blocks E) h = Some b"
    and "0 < dict_get (lmd_weights (ce_lmd E)) h 0"
  shows "\<exists>n. epoch_at (ce_epoch_size E) (block_number_of b) \<in> set (cf_justified (ce_finality (ce_replay n v h slot E)))"
proof -
  let ?e = "epoch_at (ce_epoch_size E) (block_number_of b)" and ?k = "dict_get (lmd_weights (ce_lmd E)) h 0"
    and ?A = "two_thirds (cf_total (ce_finality E))" and ?w = "epoch_weight (cf_votes (ce_finality E)) (epoch_at (ce_epoch_size E) (block_number_of b)) h"
  define n where "n = nat (\<bar>?w\<bar> + \<bar>?A\<bar> + 1)"
  obtain f where f: "ce_replay n v h slot E = E\<lparr>ce_finality := f\<rparr>" "cf_total f = cf_total (ce_finality E)"
      "epoch_weight (cf_votes f) ?e h = ?w + int n * ?k" using ce_replay_state [OF assms(1,2), of n] by blast
  have "ce_replay (Suc n) v h slot E = E\<lparr>ce_finality := casper_add_vote ?e h ?k f\<rparr>"
    using rejected_vote_counts [of v h slot "E\<lparr>ce_finality := f\<rparr>" b] assms f(1) by (simp add: ce_replay_def)
  moreover have "?e \<in> set (cf_justified (casper_add_vote ?e h ?k f))"
  proof -
    let ?vs = "accumulate ?e h ?k (cf_votes f)"
    have w: "epoch_weight ?vs ?e h = ?w + int (Suc n) * ?k" using f(3) by (simp add: accumulate_weight algebra_simps)
    have "int n * 1 \<le> int (Suc n) * ?k" using assms(3) by (intro mult_mono) auto
    hence big: "\<bar>?A\<bar> < epoch_weight ?vs ?e h" using w by (simp add: n_def)
    obtain g x where "best_checkpoint ?vs ?e = Some (g, x)" "epoch_weight ?vs ?e h \<le> x"
      using accumulate_best [of ?vs ?e h] big by fastforce
    moreover have "?A \<le> \<bar>?A\<bar>" by simp
    ultimately have "?A \<le> x" using big by linarith
    with \<open>best_checkpoint ?vs ?e = Some (g, x)\<close> show ?thesis
      unfolding casper_add_vote_def using f(2) by (intro casper_evaluate_justifies) simp_all
  qed
  ultimately show ?thesis by (intro exI [of _ "Suc n"]) simp
qed

end
