(* ===== verification/Key_Codec.thy ===== *)
theory Key_Codec
  imports Prelude "HOL-Library.Word" "HOL-Library.Char_ord" "HOL-Library.List_Lexorder"
begin

text \<open>
  \<open>storage/keycodec.py\<close>: the binary keys of the RocksDB store. A key is a family byte followed by fixed-width
  big-endian numbers, 32-byte hashes and names; the store sorts keys bytewise. The Python encoders are modelled, which
  the native ones repeat; names are ASCII, so \<open>encode\<close> is one byte per character. \<open>None\<close> is a \<open>ValueError\<close>.
\<close>

type_synonym bytes = "8 word list"

section \<open>Numbers\<close>

text \<open>\<open>struct.pack\<close> big-endian after the mask, and its inverse.\<close>

fun be_bytes :: "nat \<Rightarrow> int \<Rightarrow> bytes" where
  "be_bytes 0 v = []"
| "be_bytes (Suc n) v = word_of_int (v div 256 ^ n) # be_bytes n v"

definition be_value :: "bytes \<Rightarrow> int" where
  "be_value bs = fold (\<lambda>b acc. acc * 256 + uint b) bs 0"

definition pack_u32 :: "int \<Rightarrow> bytes" where
  "pack_u32 v = be_bytes 4 (v mod 2 ^ 32)"

definition unpack_u32 :: "bytes \<Rightarrow> int option" where
  "unpack_u32 bs = (if length bs \<noteq> 4 then None else Some (be_value bs))"

definition pack_u64 :: "int \<Rightarrow> bytes" where
  "pack_u64 v = be_bytes 8 (v mod 2 ^ 64)"

definition unpack_u64 :: "bytes \<Rightarrow> int option" where
  "unpack_u64 bs = (if length bs \<noteq> 8 then None else Some (be_value bs))"

lemma be_bytes_length [simp]: "length (be_bytes n v) = n"
  by (induction n) simp_all

lemma pack_length [simp]: "length (pack_u32 v) = 4" "length (pack_u64 v) = 8"
  by (simp_all add: pack_u32_def pack_u64_def)

lemma be_value_fold: "fold (\<lambda>b acc. acc * 256 + uint b) bs a = a * 256 ^ length bs + be_value bs"
proof (induction bs arbitrary: a)
  case (Cons b bs)
  have "be_value (b # bs) = uint b * 256 ^ length bs + be_value bs"
    using Cons.IH [of "uint b"] by (simp add: be_value_def)
  thus ?case using Cons.IH [of "a * 256 + uint b"] by (simp add: algebra_simps)
qed (simp add: be_value_def)

lemma be_value_Cons: "be_value (b # bs) = uint b * 256 ^ length bs + be_value bs"
  using be_value_fold [of bs "uint b"] by (simp add: be_value_def)

lemma be_value_Nil [simp]: "be_value [] = 0"
  by (simp add: be_value_def)

lemma be_value_bytes: "be_value (be_bytes n v) = v mod 256 ^ n"
proof (induction n)
  case (Suc n)
  have "uint (word_of_int (v div 256 ^ n) :: 8 word) = (v div 256 ^ n) mod 256"
    by (simp add: uint_word_of_int take_bit_eq_mod)
  moreover have "v mod (256 ^ n * 256) = 256 ^ n * (v div 256 ^ n mod 256) + v mod 256 ^ n"
    by (simp add: zmod_zmult2_eq)
  ultimately show ?case by (simp add: be_value_Cons Suc mult.commute)
qed simp

lemma be_bytes_mod: "be_bytes n (v mod 256 ^ n) = be_bytes n v"
proof -
  have "be_bytes k (v mod 256 ^ m) = be_bytes k v" if "k \<le> m" for k m
    using that
  proof (induction k)
    case (Suc k)
    have "v mod 256 ^ m div 256 ^ k = (v div 256 ^ k) mod 256 ^ (m - k)"
    proof -
      have "(256 :: int) ^ m = 256 ^ k * 256 ^ (m - k)" using Suc.prems by (simp add: power_add [symmetric])
      thus ?thesis by (simp add: zmod_zmult2_eq)
    qed
    moreover have "(256 :: int) dvd 256 ^ (m - k)" using Suc.prems by simp
    ultimately have "(v mod 256 ^ m div 256 ^ k) mod 256 = (v div 256 ^ k) mod 256" by (simp add: mod_mod_cancel)
    hence "(word_of_int (v mod 256 ^ m div 256 ^ k) :: 8 word) = word_of_int (v div 256 ^ k)"
      by (simp add: word_of_int_eq_iff take_bit_eq_mod)
    thus ?case using Suc by simp
  qed simp
  thus ?thesis by simp
qed

lemma unpack_pack_u64: "unpack_u64 (pack_u64 v) = Some (v mod 2 ^ 64)"
  by (simp add: unpack_u64_def pack_u64_def be_value_bytes)

lemma unpack_pack_u32: "unpack_u32 (pack_u32 v) = Some (v mod 2 ^ 32)"
  by (simp add: unpack_u32_def pack_u32_def be_value_bytes)

lemma pack_u64_inject: "pack_u64 a = pack_u64 b \<longleftrightarrow> a mod 2 ^ 64 = b mod 2 ^ 64"
proof
  assume "pack_u64 a = pack_u64 b"
  hence "unpack_u64 (pack_u64 a) = unpack_u64 (pack_u64 b)" by (rule arg_cong)
  thus "a mod 2 ^ 64 = b mod 2 ^ 64" unfolding unpack_pack_u64 by (rule option.inject [THEN iffD1])
qed (simp only: pack_u64_def)

text \<open>Bytewise order of two equally long encodings is the order of the numbers.\<close>

lemma be_value_bound: "0 \<le> be_value bs \<and> be_value bs < 256 ^ length bs"
proof (induction bs)
  case (Cons b bs)
  have "uint b \<le> 255" using uint_lt2p [of b] by simp
  hence "uint b * 256 ^ length bs \<le> 255 * 256 ^ length bs" by (intro mult_right_mono) simp_all
  moreover have "0 \<le> uint b * 256 ^ length bs" by simp
  moreover have "(256 :: int) ^ length (b # bs) = 255 * 256 ^ length bs + 256 ^ length bs" by simp
  ultimately show ?case using Cons unfolding be_value_Cons by linarith
qed simp

lemma be_value_less: "length as = length bs \<Longrightarrow> as < bs \<longleftrightarrow> be_value as < be_value bs"
proof (induction as bs rule: list_induct2)
  case (Cons a as b bs)
  have ba: "0 \<le> be_value as" "be_value as < 256 ^ length bs" "0 \<le> be_value bs" "be_value bs < 256 ^ length bs"
    using be_value_bound [of as] be_value_bound [of bs] Cons.hyps by simp_all
  have step: "uint x * 256 ^ length bs + 256 ^ length bs \<le> uint y * 256 ^ length bs" if "uint x < uint y" for x y :: "8 word"
  proof -
    have "(uint x + 1) * 256 ^ length bs \<le> uint y * 256 ^ length bs" using that by (intro mult_right_mono) simp_all
    thus ?thesis by (simp add: distrib_right)
  qed
  show ?case
  proof (cases "a = b")
    case True
    thus ?thesis using Cons by (simp add: be_value_Cons)
  next
    case False
    hence ne: "uint a \<noteq> uint b" using word_uint_eq_iff by blast
    have "a # as < b # bs \<longleftrightarrow> uint a < uint b" using False by (simp add: word_less_def)
    moreover have "be_value (a # as) < be_value (b # bs) \<longleftrightarrow> uint a < uint b"
      using ba step [of a b] step [of b a] ne Cons.hyps by (cases "uint a < uint b") (auto simp: be_value_Cons)
    ultimately show ?thesis by simp
  qed
qed simp

lemma pack_u64_less: "pack_u64 a < pack_u64 b \<longleftrightarrow> a mod 2 ^ 64 < b mod 2 ^ 64"
  by (simp add: be_value_less) (simp add: pack_u64_def be_value_bytes)

section \<open>Hexadecimal\<close>

definition hex_digit :: "char \<Rightarrow> int option" where
  "hex_digit c = (let n = of_char c in
     if 48 \<le> n \<and> n \<le> 57 then Some (n - 48) else if 97 \<le> n \<and> n \<le> 102 then Some (n - 87)
     else if 65 \<le> n \<and> n \<le> 70 then Some (n - 55) else None)"

definition hex_space :: "char \<Rightarrow> bool" where
  "hex_space c \<longleftrightarrow> (let n = of_char c :: int in (9 \<le> n \<and> n \<le> 13) \<or> n = 32)"

text \<open>\<open>bytes.fromhex\<close>: pairs of digits, white space between pairs is skipped.\<close>

fun from_hex :: "string \<Rightarrow> bytes option" where
  "from_hex [] = Some []"
| "from_hex (c # cs) =
     (if hex_space c then from_hex cs
      else (case cs of
              [] \<Rightarrow> None
            | d # ds \<Rightarrow>
                (case (hex_digit c, hex_digit d) of
                   (Some i, Some j) \<Rightarrow> map_option ((#) (word_of_int (16 * i + j))) (from_hex ds)
                 | _ \<Rightarrow> None)))"

definition hex_char :: "int \<Rightarrow> char" where
  "hex_char n = (if n < 10 then char_of (n + 48) else char_of (n + 87))"

definition to_hex :: "bytes \<Rightarrow> string" where
  "to_hex bs = concat (map (\<lambda>b. [hex_char (uint b div 16), hex_char (uint b mod 16)]) bs)"

definition strip_0x :: "string \<Rightarrow> string" where
  "strip_0x h = (if take 2 h = ''0x'' then drop 2 h else h)"

definition normalize_hash_key :: "string \<Rightarrow> bytes option" where
  "normalize_hash_key s =
     (let h = strip_0x (py_lower (py_strip s)) in if length h \<noteq> 64 then None else from_hex h)"

definition zfill64 :: "string \<Rightarrow> string" where
  "zfill64 h = replicate (64 - length h) CHR ''0'' @ h"

definition last64 :: "string \<Rightarrow> string" where
  "last64 h = drop (length h - 64) h"

text \<open>The 32 bytes of a transaction hash: shorter ones are filled up, longer ones lose their beginning.\<close>

definition tx_hash_body :: "string \<Rightarrow> bytes option" where
  "tx_hash_body s = from_hex (last64 (zfill64 (strip_0x (py_lower (py_strip s)))))"

definition utf8 :: "string \<Rightarrow> bytes" where
  "utf8 s = map (\<lambda>c. word_of_int (of_char c)) s"

definition normalize_address_key :: "string \<Rightarrow> string" where
  "normalize_address_key a = py_lower (py_strip a)"

section \<open>Keys\<close>

definition key_block_height :: "int \<Rightarrow> bytes" where
  "key_block_height h = 1 # pack_u64 h"

definition key_block_hash :: "string \<Rightarrow> bytes option" where
  "key_block_hash s = map_option ((#) 2) (normalize_hash_key s)"

definition key_tx :: "string \<Rightarrow> bytes option" where
  "key_tx t = map_option ((#) 4) (tx_hash_body t)"

definition key_block_tx :: "int \<Rightarrow> string \<Rightarrow> bytes option" where
  "key_block_tx h t = map_option (\<lambda>k. 3 # pack_u64 h @ tl k) (key_tx t)"

definition prefix_tx_from :: "string \<Rightarrow> bytes" where
  "prefix_tx_from a = 6 # utf8 (normalize_address_key a)"

definition prefix_tx_to :: "string \<Rightarrow> bytes" where
  "prefix_tx_to a = 7 # utf8 (normalize_address_key a)"

definition key_tx_from :: "string \<Rightarrow> int \<Rightarrow> string \<Rightarrow> bytes option" where
  "key_tx_from a h t = map_option (\<lambda>b. 6 # utf8 (normalize_address_key a) @ pack_u64 h @ b) (tx_hash_body t)"

definition key_tx_to :: "string \<Rightarrow> int \<Rightarrow> string \<Rightarrow> bytes option" where
  "key_tx_to a h t = map_option (\<lambda>b. 7 # utf8 (normalize_address_key a) @ pack_u64 h @ b) (tx_hash_body t)"

definition key_tx_recent :: "int \<Rightarrow> int \<Rightarrow> string \<Rightarrow> bytes option" where
  "key_tx_recent h ts t =
     map_option (\<lambda>b. 8 # pack_u64 (2 ^ 64 - 1 - h) @ pack_u64 (2 ^ 64 - 1 - ts) @ b) (tx_hash_body t)"

definition key_tx_prop :: "string \<Rightarrow> string \<Rightarrow> bytes option" where
  "key_tx_prop t stage = map_option (\<lambda>b. 0x44 # b @ take 16 (utf8 stage)) (tx_hash_body t)"

definition prefix_tx_prop :: "string \<Rightarrow> bytes option" where
  "prefix_tx_prop t = map_option ((#) 0x44) (tx_hash_body t)"

definition key_bridge_lock :: "string \<Rightarrow> bytes option" where
  "key_bridge_lock t = map_option ((#) 0x50) (tx_hash_body t)"

text \<open>\<open>replace\<close> removes every \<open>0x\<close>, also inside.\<close>

fun remove_0x :: "string \<Rightarrow> string" where
  "remove_0x (c # d # cs) = (if c = CHR ''0'' \<and> d = CHR ''x'' then remove_0x cs else c # remove_0x (d # cs))"
| "remove_0x cs = cs"

definition key_bridge_credit :: "string \<Rightarrow> bytes option" where
  "key_bridge_credit s = map_option ((#) 0x51) (from_hex (last64 (zfill64 (remove_0x (py_lower (py_strip s))))))"

definition key_evm_log :: "int \<Rightarrow> string \<Rightarrow> int \<Rightarrow> bytes option" where
  "key_evm_log h t i = map_option (\<lambda>b. 0x52 # pack_u64 h @ b @ pack_u32 i) (tx_hash_body t)"

definition key_evm_log_tx :: "string \<Rightarrow> int \<Rightarrow> bytes option" where
  "key_evm_log_tx t i = map_option (\<lambda>b. 0x53 # b @ pack_u32 i) (tx_hash_body t)"

definition prefix_evm_logs_tx :: "string \<Rightarrow> bytes option" where
  "prefix_evm_logs_tx t = map_option ((#) 0x53) (tx_hash_body t)"

definition named_key :: "8 word \<Rightarrow> string \<Rightarrow> bytes" where
  "named_key family name = (let n = utf8 (py_strip name) in family # pack_u32 (int (length n)) @ n)"

definition key_nft_token :: "string \<Rightarrow> bytes" where "key_nft_token = named_key 0x54"
definition key_nft_offer :: "string \<Rightarrow> bytes" where "key_nft_offer = named_key 0x55"
definition key_nft_auction :: "string \<Rightarrow> bytes" where "key_nft_auction = named_key 0x56"

definition key_nft_sale :: "int \<Rightarrow> int \<Rightarrow> bytes" where
  "key_nft_sale created i = 0x57 # pack_u64 (2 ^ 64 - 1 - created) @ pack_u64 i"

definition key_account :: "string \<Rightarrow> bytes" where
  "key_account a = 0x10 # utf8 (normalize_address_key a)"

definition key_validator :: "string \<Rightarrow> bytes" where
  "key_validator a = 0x20 # utf8 (normalize_address_key a)"

definition key_meta :: "string \<Rightarrow> bytes" where
  "key_meta name = 0x40 # utf8 name"

definition key_burn :: "int \<Rightarrow> bytes" where
  "key_burn h = 0x41 # pack_u64 h"

definition key_proposer_audit :: "int \<Rightarrow> bytes" where
  "key_proposer_audit h = 0x42 # pack_u64 h"

definition has_prefix :: "bytes \<Rightarrow> bytes \<Rightarrow> bool" where
  "has_prefix p k \<longleftrightarrow> take (length p) k = p"

definition iter_prefix_keys :: "(bytes \<times> 'v) list \<Rightarrow> bytes \<Rightarrow> (bytes \<times> 'v) list" where
  "iter_prefix_keys rows p = takeWhile (\<lambda>(k, v). has_prefix p k) rows"

section \<open>Hexadecimal round trip\<close>

lemma hex_char_digit: "0 \<le> n \<Longrightarrow> n < 16 \<Longrightarrow> hex_digit (hex_char n) = Some n \<and> \<not> hex_space (hex_char n)"
  by (cases "n < 10") (simp_all add: hex_char_def hex_digit_def hex_space_def Let_def)

lemma from_hex_to_hex: "from_hex (to_hex bs) = Some bs"
proof (induction bs)
  case (Cons b bs)
  have b: "0 \<le> uint b" "uint b < 256" using uint_lt2p [of b] by simp_all
  have "0 \<le> i div 16 \<and> i div 16 < 16" if "0 \<le> i" "i < 256" for i :: int using that by presburger
  hence "0 \<le> uint b div 16" "uint b div 16 < 16" using b by simp_all
  hence h: "hex_digit (hex_char (uint b div 16)) = Some (uint b div 16) \<and> \<not> hex_space (hex_char (uint b div 16))"
      "hex_digit (hex_char (uint b mod 16)) = Some (uint b mod 16)"
    using hex_char_digit [of "uint b div 16"] hex_char_digit [of "uint b mod 16"] by auto
  have "word_of_int (16 * (uint b div 16) + uint b mod 16) = b" by simp
  thus ?case using h Cons.IH by (simp add: to_hex_def)
qed (simp add: to_hex_def)

lemma from_hex_bytes: "from_hex s = Some bs \<Longrightarrow> 2 * length bs \<le> length s"
proof (induction s arbitrary: bs rule: from_hex.induct)
  case (2 c cs)
  show ?case
  proof (cases "hex_space c")
    case True
    thus ?thesis using 2 by fastforce
  next
    case False
    then obtain d ds i j bs' where "cs = d # ds" "hex_digit c = Some i" "hex_digit d = Some j" "from_hex ds = Some bs'"
        "bs = word_of_int (16 * i + j) # bs'"
      using "2.prems" by (auto split: list.splits option.splits)
    thus ?thesis using "2.IH"(2) False by fastforce
  qed
qed simp

section \<open>Key order\<close>

lemma append_less_same_length: "length a = length b \<Longrightarrow> a @ c < b @ d \<longleftrightarrow> a < b \<or> a = b \<and> c < d"
  for a b c d :: bytes
  by (induction a b rule: list_induct2) auto

lemma u64_range: "0 \<le> v \<Longrightarrow> v < 2 ^ 64 \<Longrightarrow> v mod 2 ^ 64 = v" for v :: int
  by simp

lemma u64_complement: "0 \<le> v \<Longrightarrow> v < 2 ^ 64 \<Longrightarrow> (2 ^ 64 - 1 - v) mod 2 ^ 64 = 2 ^ 64 - 1 - v" for v :: int
  by simp

section \<open>Every key encodes one thing\<close>

text \<open>What a key stands for, with the arguments already normalized.\<close>

datatype store_key =
    KBlock int | KHash bytes | KTx bytes | KReceipt bytes | KBlockTx int bytes | KFrom bytes int bytes | KTo bytes int bytes
  | KRecent int int bytes | KProp bytes bytes | KLock bytes | KCredit bytes | KLog int bytes int | KLogTx bytes int
  | KToken bytes | KOffer bytes | KAuction bytes | KSale int int | KAccount bytes | KValidator bytes | KMeta bytes
  | KBurn int | KAudit int

fun encode_key :: "store_key \<Rightarrow> bytes" where
  "encode_key (KBlock h) = 1 # pack_u64 h"
| "encode_key (KHash b) = 2 # b"
| "encode_key (KTx b) = 4 # b"
| "encode_key (KReceipt b) = 5 # b"
| "encode_key (KBlockTx h b) = 3 # pack_u64 h @ b"
| "encode_key (KFrom a h b) = 6 # a @ pack_u64 h @ b"
| "encode_key (KTo a h b) = 7 # a @ pack_u64 h @ b"
| "encode_key (KRecent h ts b) = 8 # pack_u64 (2 ^ 64 - 1 - h) @ pack_u64 (2 ^ 64 - 1 - ts) @ b"
| "encode_key (KProp b st) = 0x44 # b @ st"
| "encode_key (KLock b) = 0x50 # b"
| "encode_key (KCredit b) = 0x51 # b"
| "encode_key (KLog h b i) = 0x52 # pack_u64 h @ b @ pack_u32 i"
| "encode_key (KLogTx b i) = 0x53 # b @ pack_u32 i"
| "encode_key (KToken n) = 0x54 # pack_u32 (int (length n)) @ n"
| "encode_key (KOffer n) = 0x55 # pack_u32 (int (length n)) @ n"
| "encode_key (KAuction n) = 0x56 # pack_u32 (int (length n)) @ n"
| "encode_key (KSale t i) = 0x57 # pack_u64 (2 ^ 64 - 1 - t) @ pack_u64 i"
| "encode_key (KAccount a) = 0x10 # a"
| "encode_key (KValidator a) = 0x20 # a"
| "encode_key (KMeta n) = 0x40 # n"
| "encode_key (KBurn h) = 0x41 # pack_u64 h"
| "encode_key (KAudit h) = 0x42 # pack_u64 h"

definition u64 :: "int \<Rightarrow> bool" where "u64 v \<longleftrightarrow> 0 \<le> v \<and> v < 2 ^ 64"
definition u32 :: "int \<Rightarrow> bool" where "u32 v \<longleftrightarrow> 0 \<le> v \<and> v < 2 ^ 32"

fun key_ok :: "store_key \<Rightarrow> bool" where
  "key_ok (KBlock h) = u64 h"
| "key_ok (KBlockTx h b) = u64 h"
| "key_ok (KFrom a h b) = (u64 h \<and> length b = 32)"
| "key_ok (KTo a h b) = (u64 h \<and> length b = 32)"
| "key_ok (KRecent h ts b) = (u64 h \<and> u64 ts)"
| "key_ok (KProp b st) = (length b = 32)"
| "key_ok (KLog h b i) = (u64 h \<and> length b = 32 \<and> u32 i)"
| "key_ok (KLogTx b i) = (length b = 32 \<and> u32 i)"
| "key_ok (KSale t i) = (u64 t \<and> u64 i)"
| "key_ok (KBurn h) = u64 h"
| "key_ok (KAudit h) = u64 h"
| "key_ok k = True"

lemma pack_u64_same: "u64 a \<Longrightarrow> u64 b \<Longrightarrow> pack_u64 a = pack_u64 b \<longleftrightarrow> a = b"
  unfolding pack_u64_inject u64_def by simp

lemma pack_u64_complement_same: "u64 a \<Longrightarrow> u64 b \<Longrightarrow> pack_u64 (18446744073709551615 - a) = pack_u64 (18446744073709551615 - b) \<longleftrightarrow> a = b"
  unfolding pack_u64_inject u64_def using u64_complement [of a] u64_complement [of b] by simp

lemma pack_u32_same: "u32 a \<Longrightarrow> u32 b \<Longrightarrow> pack_u32 a = pack_u32 b \<longleftrightarrow> a = b"
proof
  assume r: "u32 a" "u32 b" and "pack_u32 a = pack_u32 b"
  hence "unpack_u32 (pack_u32 a) = unpack_u32 (pack_u32 b)" by simp
  hence "a mod 2 ^ 32 = b mod 2 ^ 32" unfolding unpack_pack_u32 by (rule option.inject [THEN iffD1])
  thus "a = b" using r by (simp add: u32_def)
qed simp

text \<open>
  Keys do not collide. The functions of the key codec build the encodings of \<open>encode_key\<close> (lemma \<open>code_keys\<close>), and two things to store with the same key are the same thing, across all families of keys and whatever the names in them, as long as numbers fit their width and hashes have 32 bytes.
\<close>

theorem key_encoding_injective:
  assumes "encode_key k = encode_key k'" "key_ok k" "key_ok k'"
  shows "k = k'"
  using assms
  by (cases k; cases k') (simp_all add: pack_u64_same pack_u64_complement_same pack_u32_same)

theorem key_encoding_injective_witness: "KFrom [1] 7 (replicate 32 0) = KFrom [1] (3 + 4) (replicate 32 (1 - 1))"
  by (rule key_encoding_injective) (simp_all add: u64_def)

text \<open>The keys the code builds are those encodings.\<close>

lemma code_keys:
  "key_block_height h = encode_key (KBlock h)"
  "key_block_hash s = map_option (\<lambda>b. encode_key (KHash b)) (normalize_hash_key s)"
  "key_tx t = map_option (\<lambda>b. encode_key (KTx b)) (tx_hash_body t)"
  "key_block_tx h t = map_option (\<lambda>b. encode_key (KBlockTx h b)) (tx_hash_body t)"
  "key_tx_from a h t = map_option (\<lambda>b. encode_key (KFrom (utf8 (normalize_address_key a)) h b)) (tx_hash_body t)"
  "key_tx_to a h t = map_option (\<lambda>b. encode_key (KTo (utf8 (normalize_address_key a)) h b)) (tx_hash_body t)"
  "key_tx_recent h ts t = map_option (\<lambda>b. encode_key (KRecent h ts b)) (tx_hash_body t)"
  "key_tx_prop t stage = map_option (\<lambda>b. encode_key (KProp b (take 16 (utf8 stage)))) (tx_hash_body t)"
  "key_bridge_lock t = map_option (\<lambda>b. encode_key (KLock b)) (tx_hash_body t)"
  "key_evm_log h t i = map_option (\<lambda>b. encode_key (KLog h b i)) (tx_hash_body t)"
  "key_evm_log_tx t i = map_option (\<lambda>b. encode_key (KLogTx b i)) (tx_hash_body t)"
  "key_nft_token n = encode_key (KToken (utf8 (py_strip n)))" "key_nft_offer n = encode_key (KOffer (utf8 (py_strip n)))"
  "key_nft_auction n = encode_key (KAuction (utf8 (py_strip n)))" "key_nft_sale c i = encode_key (KSale c i)"
  "key_account a = encode_key (KAccount (utf8 (normalize_address_key a)))"
  "key_validator a = encode_key (KValidator (utf8 (normalize_address_key a)))"
  "key_meta n = encode_key (KMeta (utf8 n))" "key_burn h = encode_key (KBurn h)" "key_proposer_audit h = encode_key (KAudit h)"
  by (simp_all add: key_block_height_def key_block_hash_def key_tx_def key_block_tx_def key_tx_from_def key_tx_to_def
      key_tx_recent_def key_tx_prop_def key_bridge_lock_def key_evm_log_def key_evm_log_tx_def key_nft_token_def
      key_nft_offer_def key_nft_auction_def named_key_def Let_def key_nft_sale_def key_account_def key_validator_def key_meta_def
      key_burn_def key_proposer_audit_def option.map_comp comp_def)

lemma key_block_order: "u64 h \<Longrightarrow> u64 h' \<Longrightarrow> key_block_height h < key_block_height h' \<longleftrightarrow> h < h'"
  by (simp add: key_block_height_def pack_u64_less u64_def)

text \<open>The index of recent transactions lists the newer ones first: by height, then by time.\<close>

lemma key_recent_order:
  assumes "u64 h" "u64 ts" "u64 h'" "u64 ts'" "key_tx_recent h ts t = Some k" "key_tx_recent h' ts' t' = Some k'"
    and "h' < h \<or> h' = h \<and> ts' < ts"
  shows "k < k'"
proof -
  have less: "pack_u64 (2 ^ 64 - 1 - a) < pack_u64 (2 ^ 64 - 1 - b)" if "u64 a" "u64 b" "b < a" for a b
    unfolding pack_u64_less using that u64_complement [of a] u64_complement [of b] by (simp add: u64_def)
  obtain b b' where b: "k = 8 # pack_u64 (2 ^ 64 - 1 - h) @ pack_u64 (2 ^ 64 - 1 - ts) @ b"
      "k' = 8 # pack_u64 (2 ^ 64 - 1 - h') @ pack_u64 (2 ^ 64 - 1 - ts') @ b'"
    using assms(5,6) by (auto simp: key_tx_recent_def)
  show ?thesis using assms(7)
  proof
    assume "h' < h"
    thus ?thesis using less [of h h'] assms(1,3) by (simp only: b Cons_less_Cons append_less_same_length pack_length) simp
  next
    assume "h' = h \<and> ts' < ts"
    thus ?thesis using less [of ts ts'] assms(2,4) by (simp only: b Cons_less_Cons append_less_same_length pack_length) simp
  qed
qed

section \<open>Prefix scans\<close>

lemma prefix_interval: "\<not> k < p \<Longrightarrow> \<not> has_prefix p k \<Longrightarrow> has_prefix p k' \<Longrightarrow> k' < k"
proof (induction p arbitrary: k k')
  case Nil
  thus ?case by (simp add: has_prefix_def)
next
  case (Cons b p)
  obtain c ks where k: "k = c # ks" using Cons.prems(1) by (cases k) auto
  obtain ks' where k': "k' = b # ks'" "has_prefix p ks'" using Cons.prems(3) by (cases k') (auto simp: has_prefix_def)
  show ?case
  proof (cases "c = b")
    case True
    hence "\<not> ks < p" "\<not> has_prefix p ks" using Cons.prems k by (auto simp: has_prefix_def)
    thus ?thesis using Cons.IH k' True k by simp
  next
    case False
    thus ?thesis using Cons.prems(1) k k' by auto
  qed
qed

lemma iter_prefix_filter:
  assumes "sorted_wrt (<) (map fst rows)" "\<forall>(k, v)\<in>set rows. \<not> k < p"
  shows "iter_prefix_keys rows p = filter (\<lambda>(k, v). has_prefix p k) rows"
  using assms
proof (induction rows)
  case (Cons r rows)
  obtain k v where r: "r = (k, v)" by (cases r)
  show ?case
  proof (cases "has_prefix p k")
    case True
    thus ?thesis using Cons by (simp add: iter_prefix_keys_def r)
  next
    case False
    have "\<not> has_prefix p k'" if "(k', v') \<in> set rows" for k' v'
    proof
      assume "has_prefix p k'"
      hence "k' < k" using prefix_interval False Cons.prems(2) r by auto
      moreover have "k < k'" using Cons.prems(1) that r by force
      ultimately show False by simp
    qed
    hence "filter (\<lambda>(k, v). has_prefix p k) rows = []" by (auto simp: filter_empty_conv)
    thus ?thesis using False by (simp add: iter_prefix_keys_def r)
  qed
qed (simp add: iter_prefix_keys_def)

text \<open>
  The index of an address is scanned by its name alone, which does not end: the scan for one address finds the keys of
  every address whose name continues it.
\<close>

lemma address_scan_overlaps:
  "key_tx_from (a @ rest) h t = Some k \<Longrightarrow> py_strip (a @ rest) = a @ rest \<Longrightarrow> py_strip a = a \<Longrightarrow> has_prefix (prefix_tx_from a) k"
  by (auto simp: key_tx_from_def has_prefix_def prefix_tx_from_def normalize_address_key_def py_lower_def utf8_def)

end
