(* ===== verification/Rocks_Store.thy ===== *)
theory Rocks_Store
  imports Key_Codec Amount
begin

text \<open>
  \<open>storage/rocks_store.py\<close> over a sorted map of keys: reads and writes with the pending batch of \<open>atomic\<close>, blocks,
  accounts, transactions with their indexes, burns, bridge locks, the commit of a block and the truncation of a
  reorganisation. Row formats are values (a row that does not decode is \<open>VCorrupt\<close>); the root accumulator, a cache of
  the account rows, and the float column derived from the satoshi one are left out. An operation returns the store
  and whether it came back (\<open>False\<close>: an exception).
\<close>

section \<open>The engine: a map sorted by key\<close>

record rk_block =
  kb_height :: int
  kb_hash :: string
  kb_state_root :: string
  kb_rest :: string

record rk_tx =
  kt_hash :: string
  kt_height :: int
  kt_from :: string
  kt_to :: string
  kt_timestamp :: int
  kt_rest :: string

record rk_account =
  ka_address :: string
  ka_satoshi :: int
  ka_nonce :: int
  ka_code :: "string option"
  ka_storage :: "string option"

record rk_lock =
  kl_from :: string
  kl_amount :: number
  kl_status :: string

datatype rocks_value =
    VBlock rk_block | VHeight bytes | VMark | VTx rk_tx | VReceipt string int | VAccount rk_account | VNum int | VText string
  | VAudit int string | VBurn pyfloat pyfloat | VLock rk_lock | VCredit string | VRow int | VCorrupt

type_synonym rocks_db = "(bytes \<times> rocks_value) list"

fun db_put :: "bytes \<Rightarrow> rocks_value \<Rightarrow> rocks_db \<Rightarrow> rocks_db" where
  "db_put k v [] = [(k, v)]"
| "db_put k v ((j, w) # db) = (if k < j then (k, v) # (j, w) # db else if k = j then (k, v) # db else (j, w) # db_put k v db)"

definition db_delete :: "bytes \<Rightarrow> rocks_db \<Rightarrow> rocks_db" where
  "db_delete k db = filter (\<lambda>(j, v). j \<noteq> k) db"

definition write_op :: "bytes \<times> rocks_value option \<Rightarrow> rocks_db \<Rightarrow> rocks_db" where
  "write_op = (\<lambda>(k, v) db. case v of None \<Rightarrow> db_delete k db | Some x \<Rightarrow> db_put k x db)"

definition db_scan :: "nat \<Rightarrow> bytes \<Rightarrow> rocks_db \<Rightarrow> rocks_db" where
  "db_scan limit p db = takeWhile (\<lambda>(k, v). has_prefix p k) (take limit (dropWhile (\<lambda>(k, v). k < p) db))"

definition db_last :: "bytes \<Rightarrow> rocks_db \<Rightarrow> (bytes \<times> rocks_value) option" where
  "db_last p db =
     (case rev (filter (\<lambda>(k, v). k \<le> p @ replicate 32 0xFF) db) of
        [] \<Rightarrow> None
      | (k, v) # _ \<Rightarrow> if has_prefix p k then Some (k, v) else None)"

section \<open>Reads, writes and batches\<close>

record rocks =
  rk_db :: rocks_db
  rk_batch :: "(bytes \<times> rocks_value option) list option"

type_synonym rocks_op = "rocks \<Rightarrow> rocks \<times> bool"

definition scan_limit :: nat where
  "scan_limit = 100000"

definition raw_get :: "bytes \<Rightarrow> rocks \<Rightarrow> rocks_value option" where
  "raw_get k s = map_of (rk_db s) k"

definition raw_write :: "bytes \<Rightarrow> rocks_value option \<Rightarrow> rocks_op" where
  "raw_write k v s =
     (case rk_batch s of
        Some ops \<Rightarrow> (s\<lparr>rk_batch := Some (ops @ [(k, v)])\<rparr>, True)
      | None \<Rightarrow> (s\<lparr>rk_db := write_op (k, v) (rk_db s)\<rparr>, True))"

definition raw_put :: "bytes \<Rightarrow> rocks_value \<Rightarrow> rocks_op" where
  "raw_put k v = raw_write k (Some v)"

definition raw_delete :: "bytes \<Rightarrow> rocks_op" where
  "raw_delete k = raw_write k None"

definition scan_prefix :: "bytes \<Rightarrow> rocks \<Rightarrow> rocks_db" where
  "scan_prefix p s = db_scan scan_limit p (rk_db s)"

text \<open>Sequencing: an exception stops the operation, what it wrote before stays where it went.\<close>

definition skip_op :: rocks_op where "skip_op s = (s, True)"
definition fail_op :: rocks_op where "fail_op s = (s, False)"

fun run_ops :: "rocks_op list \<Rightarrow> rocks_op" where
  "run_ops [] s = (s, True)"
| "run_ops (f # fs) s = (case f s of (t, ok) \<Rightarrow> if ok then run_ops fs t else (t, False))"

definition keyed :: "bytes option \<Rightarrow> (bytes \<Rightarrow> rocks_op) \<Rightarrow> rocks_op" where
  "keyed k f = (case k of None \<Rightarrow> fail_op | Some b \<Rightarrow> f b)"

definition for_rows :: "(rocks \<Rightarrow> rocks_db) \<Rightarrow> (bytes \<times> rocks_value \<Rightarrow> rocks_op) \<Rightarrow> rocks_op" where
  "for_rows rows f s = run_ops (map f (rows s)) s"

text \<open>\<open>atomic\<close>: the batch is written when the body returns, and dropped when it raises.\<close>

definition atomic :: "rocks_op \<Rightarrow> rocks_op" where
  "atomic f s =
     (case f (s\<lparr>rk_batch := Some []\<rparr>) of
        (t, ok) \<Rightarrow>
          if ok then (t\<lparr>rk_db := fold write_op (the (rk_batch t)) (rk_db t), rk_batch := None\<rparr>, True)
          else (t\<lparr>rk_batch := None\<rparr>, False))"

section \<open>Blocks\<close>

definition touch_live_root :: "rk_block \<Rightarrow> rocks_op" where
  "touch_live_root b =
     (let root = py_strip (kb_state_root b) in
      if root = '''' then skip_op
      else run_ops [raw_put (key_meta ''state_root'') (VText root), raw_put (key_meta ''live_state_root'') (VText root),
                    raw_put (key_meta ''live_state_root_height'') (VNum (kb_height b))])"

definition insert_audit :: "rk_block \<Rightarrow> rocks_op" where
  "insert_audit b = run_ops [raw_put (key_proposer_audit (kb_height b)) (VAudit (kb_height b) (kb_hash b)), touch_live_root b]"

definition rk_insert_block :: "rk_block \<Rightarrow> rocks_op" where
  "rk_insert_block b =
     run_ops
       [raw_put (key_block_height (kb_height b)) (VBlock b),
        (if kb_hash b = '''' then skip_op
         else keyed (key_block_hash (kb_hash b)) (\<lambda>k. raw_put k (VHeight (pack_u64 (kb_height b))))),
        raw_put (key_meta ''chain_tip'') (VNum (kb_height b)),
        (if kb_hash b = '''' then skip_op else raw_put (key_meta ''chain_tip_hash'') (VText (kb_hash b))),
        insert_audit b]"

text \<open>\<open>save_block\<close> turns an exception into \<open>False\<close>.\<close>

definition save_block :: "rk_block \<Rightarrow> rocks \<Rightarrow> rocks \<times> bool" where
  "save_block b s = rk_insert_block b s"

definition key_height :: "bytes \<Rightarrow> int option" where
  "key_height k = unpack_u64 (take 8 (drop 1 k))"

definition get_chain_tip :: "rocks \<Rightarrow> int" where
  "get_chain_tip s =
     (case raw_get (key_meta ''chain_tip'') s of
        Some (VNum n) \<Rightarrow> n
      | _ \<Rightarrow> (case db_last [1] (rk_db s) of
                None \<Rightarrow> 0
              | Some (k, v) \<Rightarrow> (case key_height k of None \<Rightarrow> 0 | Some h \<Rightarrow> h)))"

definition rk_get_block :: "int \<Rightarrow> rocks \<Rightarrow> rk_block option" where
  "rk_get_block h s = (case raw_get (key_block_height h) s of Some (VBlock b) \<Rightarrow> Some b | _ \<Rightarrow> None)"

definition get_last_block :: "rocks \<Rightarrow> rk_block option" where
  "get_last_block s = (if get_chain_tip s < 0 then None else rk_get_block (get_chain_tip s) s)"

text \<open>The outer \<open>None\<close> is an exception.\<close>

definition get_block_by_hash :: "string \<Rightarrow> rocks \<Rightarrow> rk_block option option" where
  "get_block_by_hash hh s =
     (case key_block_hash hh of
        None \<Rightarrow> None
      | Some k \<Rightarrow>
          (case raw_get k s of
             Some (VHeight b) \<Rightarrow> map_option (\<lambda>h. rk_get_block h s) (unpack_u64 b)
           | _ \<Rightarrow> Some None))"

definition block_rows :: "rocks \<Rightarrow> rocks_db" where
  "block_rows = scan_prefix [1]"

definition get_latest_blocks :: "nat \<Rightarrow> rocks \<Rightarrow> rk_block list" where
  "get_latest_blocks limit s =
     List.map_filter (\<lambda>(k, v). case v of VBlock b \<Rightarrow> Some b | _ \<Rightarrow> None)
       (take limit (rev (sort_key (\<lambda>(k, v). case key_height k of None \<Rightarrow> 0 | Some h \<Rightarrow> h) (block_rows s))))"

section \<open>Accounts\<close>

text \<open>\<open>None\<close>: the row does not decode, \<open>AccountCorruptError\<close>.\<close>

definition load_account :: "string \<Rightarrow> rocks \<Rightarrow> rk_account option" where
  "load_account a s =
     (case raw_get (key_account a) s of
        None \<Rightarrow> Some \<lparr>ka_address = normalize_address_key a, ka_satoshi = 0, ka_nonce = 0, ka_code = None, ka_storage = None\<rparr>
      | Some (VAccount r) \<Rightarrow> Some (r\<lparr>ka_satoshi := max 0 (ka_satoshi r)\<rparr>)
      | _ \<Rightarrow> None)"

definition save_account_row :: "rk_account \<Rightarrow> rocks_op" where
  "save_account_row r =
     (let a = normalize_address_key (ka_address r) in
      raw_put (key_account a) (VAccount (r\<lparr>ka_address := a, ka_satoshi := max 0 (ka_satoshi r)\<rparr>)))"

definition with_account :: "string \<Rightarrow> (rk_account \<Rightarrow> rocks_op) \<Rightarrow> rocks_op" where
  "with_account a f s = (case load_account a s of None \<Rightarrow> (s, False) | Some r \<Rightarrow> f r s)"

definition get_balance_satoshi :: "string \<Rightarrow> rocks \<Rightarrow> int option" where
  "get_balance_satoshi a s = map_option ka_satoshi (load_account a s)"

definition get_nonce :: "string \<Rightarrow> rocks \<Rightarrow> int option" where
  "get_nonce a s = map_option ka_nonce (load_account a s)"

definition balance_delta_satoshi :: "string \<Rightarrow> int \<Rightarrow> rocks_op" where
  "balance_delta_satoshi a d = with_account a (\<lambda>r. save_account_row (r\<lparr>ka_satoshi := apply_satoshi_delta (ka_satoshi r) d\<rparr>))"

definition balance_delta :: "native_amount \<Rightarrow> string \<Rightarrow> number \<Rightarrow> rocks_op" where
  "balance_delta N a d =
     with_account a (\<lambda>r.
       case apply_delta_satoshi N (ka_satoshi r) d of
         Inl e \<Rightarrow> fail_op
       | Inr n \<Rightarrow> save_account_row (r\<lparr>ka_satoshi := n\<rparr>))"

definition set_balance :: "native_amount \<Rightarrow> string \<Rightarrow> number \<Rightarrow> rocks_op" where
  "set_balance N a x =
     with_account a (\<lambda>r.
       case to_satoshi N x of Inl e \<Rightarrow> fail_op | Inr n \<Rightarrow> save_account_row (r\<lparr>ka_satoshi := max 0 n\<rparr>))"

definition increment_nonce :: "string \<Rightarrow> rocks_op" where
  "increment_nonce a = with_account a (\<lambda>r. save_account_row (r\<lparr>ka_nonce := ka_nonce r + 1\<rparr>))"

definition save_account :: "native_amount \<Rightarrow> string \<Rightarrow> number \<Rightarrow> int \<Rightarrow> string option \<Rightarrow> string option \<Rightarrow> rocks_op" where
  "save_account N a x nonce code storage =
     with_account a (\<lambda>r.
       case to_satoshi N x of
         Inl e \<Rightarrow> fail_op
       | Inr n \<Rightarrow> save_account_row (r\<lparr>ka_satoshi := max 0 n, ka_nonce := nonce, ka_code := code, ka_storage := storage\<rparr>))"

definition reset_accounts_locked :: "native_amount \<Rightarrow> (string \<times> number) list \<Rightarrow> rocks_op" where
  "reset_accounts_locked N alloc =
     run_ops
       [for_rows (scan_prefix [0x10]) (\<lambda>(k, v). raw_delete k),
        run_ops (map (\<lambda>(a, x).
          case to_satoshi N x of
            Inl e \<Rightarrow> fail_op
          | Inr n \<Rightarrow> save_account_row \<lparr>ka_address = normalize_address_key a, ka_satoshi = max 0 n, ka_nonce = 0, ka_code = None, ka_storage = None\<rparr>)
          alloc)]"

definition reset_accounts :: "native_amount \<Rightarrow> (string \<times> number) list \<Rightarrow> rocks_op" where
  "reset_accounts N alloc = atomic (reset_accounts_locked N alloc)"

section \<open>Transactions and their indexes\<close>

definition insert_tx_indexes :: "rk_tx \<Rightarrow> rocks_op" where
  "insert_tx_indexes r =
     (if kt_hash r = '''' then skip_op
      else run_ops
        [(if kt_from r = '''' then skip_op else keyed (key_tx_from (kt_from r) (kt_height r) (kt_hash r)) (\<lambda>k. raw_put k VMark)),
         (if kt_to r = '''' then skip_op else keyed (key_tx_to (kt_to r) (kt_height r) (kt_hash r)) (\<lambda>k. raw_put k VMark)),
         keyed (key_tx_recent (kt_height r) (kt_timestamp r) (kt_hash r)) (\<lambda>k. raw_put k VMark)])"

definition delete_tx_indexes :: "rk_tx \<Rightarrow> rocks_op" where
  "delete_tx_indexes r =
     (if kt_hash r = '''' then skip_op
      else run_ops
        [(if kt_from r = '''' then skip_op else keyed (key_tx_from (kt_from r) (kt_height r) (kt_hash r)) raw_delete),
         (if kt_to r = '''' then skip_op else keyed (key_tx_to (kt_to r) (kt_height r) (kt_hash r)) raw_delete),
         keyed (key_tx_recent (kt_height r) (kt_timestamp r) (kt_hash r)) raw_delete])"

definition insert_transaction :: "rk_tx \<Rightarrow> rocks_op" where
  "insert_transaction t =
     (let r = t\<lparr>kt_from := normalize_address_key (kt_from t), kt_to := normalize_address_key (kt_to t)\<rparr>
      in if kt_hash t = '''' then skip_op
         else run_ops
           [keyed (key_tx (kt_hash t)) (\<lambda>k. raw_put k (VTx r)),
            (if kt_height r = 0 then skip_op else keyed (key_block_tx (kt_height r) (kt_hash t)) (\<lambda>k. raw_put k VMark)),
            insert_tx_indexes r])"

definition insert_receipt :: "rk_tx \<Rightarrow> string \<Rightarrow> int \<Rightarrow> rocks_op" where
  "insert_receipt t block_hash h =
     (if kt_hash t = '''' then skip_op
      else keyed (key_tx (kt_hash t)) (\<lambda>k. raw_put (5 # tl k) (VReceipt (kt_hash t) h)))"

definition get_transaction :: "string \<Rightarrow> rocks \<Rightarrow> rk_tx option option" where
  "get_transaction t s =
     map_option (\<lambda>k. case raw_get k s of Some (VTx r) \<Rightarrow> Some r | _ \<Rightarrow> None) (key_tx t)"

definition get_transactions_in_block :: "int \<Rightarrow> rocks \<Rightarrow> rk_tx list" where
  "get_transactions_in_block h s =
     (let p = 3 # pack_u64 h in
      List.map_filter (\<lambda>(k, v). case raw_get (4 # drop (length p) k) s of Some (VTx r) \<Rightarrow> Some r | _ \<Rightarrow> None) (scan_prefix p s))"

definition tx_hash_from_index :: "bytes \<Rightarrow> bytes \<Rightarrow> string" where
  "tx_hash_from_index k p = (let body = drop (length p) k in if length body < 40 then '''' else ''0x'' @ to_hex (drop 8 body))"

definition count_by_address :: "string \<Rightarrow> string \<Rightarrow> rocks \<Rightarrow> nat" where
  "count_by_address a direction s =
     (if direction = ''sent'' then length (scan_prefix (prefix_tx_from a) s)
      else if direction = ''received'' then length (scan_prefix (prefix_tx_to a) s)
      else card (set (filter (\<lambda>h. h \<noteq> '''')
             (map (\<lambda>(k, v). tx_hash_from_index k (prefix_tx_from a)) (scan_prefix (prefix_tx_from a) s) @
              map (\<lambda>(k, v). tx_hash_from_index k (prefix_tx_to a)) (scan_prefix (prefix_tx_to a) s)))))"

section \<open>Burns and bridge locks\<close>

definition burn_rows :: "rocks \<Rightarrow> rocks_db" where
  "burn_rows = scan_prefix [0x41]"

text \<open>The last burn row by height; \<open>None\<close> would be a key that is not a height.\<close>

definition get_total_burned :: "rocks \<Rightarrow> pyfloat" where
  "get_total_burned s =
     (case burn_rows s of
        [] \<Rightarrow> 0
      | r # rs \<Rightarrow>
          (case snd (fold (\<lambda>x b. if the (key_height (fst b)) < the (key_height (fst x)) then x else b) rs r) of
             VBurn burned tot \<Rightarrow> tot
           | _ \<Rightarrow> 0))"

definition insert_burn :: "int \<Rightarrow> pyfloat \<Rightarrow> rocks_op" where
  "insert_burn h x s = raw_put (key_burn h) (VBurn x (fadd (get_total_burned s) x)) s"

definition save_bridge_lock :: "string \<Rightarrow> number \<Rightarrow> string \<Rightarrow> rocks_op" where
  "save_bridge_lock from amount t =
     keyed (key_bridge_lock t) (\<lambda>k. raw_put k (VLock \<lparr>kl_from = from, kl_amount = amount, kl_status = ''pending''\<rparr>))"

definition confirm_bridge_lock :: "string \<Rightarrow> rocks_op" where
  "confirm_bridge_lock t =
     keyed (key_bridge_lock t) (\<lambda>k s.
       case raw_get k s of Some (VLock l) \<Rightarrow> raw_put k (VLock (l\<lparr>kl_status := ''confirmed''\<rparr>)) s | _ \<Rightarrow> (s, True))"

text \<open>The second component of the result: was the lock refunded.\<close>

definition refund_body :: "native_amount \<Rightarrow> bytes \<Rightarrow> rk_lock \<Rightarrow> rocks_op" where
  "refund_body N k l =
     run_ops [balance_delta N (kl_from l) (kl_amount l), raw_put k (VLock (l\<lparr>kl_status := ''refunded''\<rparr>))]"

definition refundable :: "bytes \<Rightarrow> rocks \<Rightarrow> rk_lock option" where
  "refundable k s =
     (case raw_get k s of Some (VLock l) \<Rightarrow> if kl_status l = ''pending'' then Some l else None | _ \<Rightarrow> None)"

definition refund_pending_lock :: "native_amount \<Rightarrow> string \<Rightarrow> rocks_op" where
  "refund_pending_lock N t =
     atomic (keyed (key_bridge_lock t) (\<lambda>k s. case refundable k s of None \<Rightarrow> (s, True) | Some l \<Rightarrow> refund_body N k l s))"

definition debit_and_lock :: "native_amount \<Rightarrow> string \<Rightarrow> number \<Rightarrow> string \<Rightarrow> number \<Rightarrow> bool \<Rightarrow> number \<Rightarrow> string \<Rightarrow> rocks_op" where
  "debit_and_lock N from amount burn_addr burn_amount burns net t =
     atomic (run_ops
       [with_account from (\<lambda>r.
          case try_debit_satoshi N (ka_satoshi r) amount of Inl e \<Rightarrow> fail_op | Inr n \<Rightarrow> save_account_row (r\<lparr>ka_satoshi := n\<rparr>)),
        (if burns \<and> burn_addr \<noteq> '''' then balance_delta N burn_addr burn_amount else skip_op),
        save_bridge_lock from net t])"

section \<open>The commit of a block\<close>

definition persist_block_locked ::
  "native_amount \<Rightarrow> rk_block \<Rightarrow> rk_tx list \<Rightarrow> pyfloat \<Rightarrow> string \<Rightarrow> rocks_op" where
  "persist_block_locked N b txs burned burn_addr =
     run_ops
       [rk_insert_block b,
        run_ops (concat (map (\<lambda>t. [insert_transaction t, insert_receipt t (kb_hash b) (kb_height b)]) txs)),
        (if 0 < burned
         then run_ops [insert_burn (kb_height b) burned,
                       (if burn_addr \<noteq> '''' then balance_delta N burn_addr (NumValue burned) else skip_op)]
         else skip_op)]"

text \<open>The exception is caught inside the \<open>with\<close> block of \<open>atomic\<close>, which therefore sees a normal end.\<close>

definition persist_block_atomic ::
  "native_amount \<Rightarrow> rk_block \<Rightarrow> rk_tx list \<Rightarrow> pyfloat \<Rightarrow> string \<Rightarrow> rocks \<Rightarrow> rocks \<times> bool" where
  "persist_block_atomic N b txs burned burn_addr s =
     (fst (atomic (\<lambda>t. (fst (persist_block_locked N b txs burned burn_addr t), True)) s),
      snd (persist_block_locked N b txs burned burn_addr (s\<lparr>rk_batch := Some []\<rparr>)))"

section \<open>Truncation\<close>

definition height_above :: "int \<Rightarrow> bytes \<Rightarrow> rocks_op" where
  "height_above keep k = (case key_height k of None \<Rightarrow> fail_op | Some h \<Rightarrow> if keep < h then raw_delete k else skip_op)"

definition long_height_above :: "int \<Rightarrow> bytes \<Rightarrow> rocks_op" where
  "long_height_above keep k = (if 9 \<le> length k then height_above keep k else skip_op)"

definition drop_block_row :: "int \<Rightarrow> bytes \<times> rocks_value \<Rightarrow> rocks_op" where
  "drop_block_row keep = (\<lambda>(k, v).
     case key_height k of
       None \<Rightarrow> fail_op
     | Some h \<Rightarrow>
         if h \<le> keep then skip_op
         else run_ops
           [(case v of
               VBlock b \<Rightarrow> if kb_hash b = '''' then skip_op else keyed (key_block_hash (kb_hash b)) raw_delete
             | _ \<Rightarrow> skip_op),
            raw_delete k])"

definition drop_tx_row :: "int \<Rightarrow> bytes \<times> rocks_value \<Rightarrow> rocks_op" where
  "drop_tx_row keep = (\<lambda>(k, v).
     case v of
       VTx r \<Rightarrow> if keep < kt_height r then run_ops [delete_tx_indexes r, raw_delete k] else skip_op
     | _ \<Rightarrow> raw_delete k)"

definition drop_receipt_row :: "int \<Rightarrow> bytes \<times> rocks_value \<Rightarrow> rocks_op" where
  "drop_receipt_row keep = (\<lambda>(k, v). case v of VReceipt t h \<Rightarrow> if keep < h then raw_delete k else skip_op | _ \<Rightarrow> raw_delete k)"

definition drop_row :: "int \<Rightarrow> bytes \<times> rocks_value \<Rightarrow> rocks_op" where
  "drop_row keep = (\<lambda>(k, v). case v of VRow h \<Rightarrow> if keep < h then raw_delete k else skip_op | _ \<Rightarrow> raw_delete k)"

definition purge_height_indexes :: "int \<Rightarrow> rocks_op" where
  "purge_height_indexes keep =
     run_ops [for_rows (scan_prefix [0x52]) (\<lambda>(k, v). long_height_above keep k),
              for_rows (scan_prefix [0x53]) (drop_row keep), for_rows (scan_prefix [0x44]) (drop_row keep)]"

definition set_tip_meta :: "int \<Rightarrow> rocks_op" where
  "set_tip_meta keep s =
     (case rk_get_block keep s of
        Some b \<Rightarrow>
          run_ops [touch_live_root b, raw_put (key_meta ''chain_tip'') (VNum keep),
                   (if kb_hash b \<noteq> '''' then raw_put (key_meta ''chain_tip_hash'') (VText (kb_hash b))
                    else raw_delete (key_meta ''chain_tip_hash''))] s
      | None \<Rightarrow>
          run_ops (map (\<lambda>m. raw_delete (key_meta m))
            [''live_state_root'', ''live_state_root_height'', ''state_root'', ''chain_tip'', ''chain_tip_hash'']) s)"

definition reorg_truncate_above :: "int \<Rightarrow> rocks_op" where
  "reorg_truncate_above keep =
     run_ops
       [for_rows block_rows (drop_block_row keep),
        for_rows (scan_prefix [3]) (\<lambda>(k, v). long_height_above keep k),
        for_rows (scan_prefix [4]) (drop_tx_row keep),
        for_rows (scan_prefix [5]) (drop_receipt_row keep),
        for_rows (scan_prefix [0x42]) (\<lambda>(k, v). height_above keep k),
        for_rows (scan_prefix [0x41]) (\<lambda>(k, v). height_above keep k),
        for_rows (scan_prefix [0x43]) (\<lambda>(k, v). long_height_above keep k),
        purge_height_indexes keep, set_tip_meta keep]"

definition truncate_chain_state :: "int \<Rightarrow> rocks_op" where
  "truncate_chain_state keep = atomic (reorg_truncate_above keep)"

definition truncate_all_blocks :: "rocks_op" where
  "truncate_all_blocks = atomic (for_rows block_rows (\<lambda>(k, v). raw_delete k))"

definition empty_store :: rocks where
  "empty_store = \<lparr>rk_db = [], rk_batch = None\<rparr>"

end
