(* ===== verification/Rocks_Props.thy ===== *)
theory Rocks_Props
  imports Rocks_Store
begin

text \<open>
  What the store promises: reads after writes, complete scans below the scan limit, batches that are written whole or
  not at all, and an exact truncation; and where it does not keep the promise.
\<close>

section \<open>The map\<close>

lemma map_of_put: "map_of (db_put k v db) j = (if j = k then Some v else map_of db j)"
  by (induction k v db rule: db_put.induct) auto

lemma map_of_delete: "map_of (db_delete k db) j = (if j = k then None else map_of db j)"
  unfolding db_delete_def by (induction db) auto

lemma map_of_write: "map_of (write_op (k, v) db) j = (if j = k then v else map_of db j)"
  by (simp add: write_op_def map_of_put map_of_delete split: option.split)

abbreviation sorted_db :: "rocks_db \<Rightarrow> bool" where
  "sorted_db db \<equiv> sorted_wrt (<) (map fst db)"

lemma put_keys: "set (map fst (db_put k v db)) = insert k (set (map fst db))"
  by (induction k v db rule: db_put.induct) auto

lemma put_sorted: "sorted_db db \<Longrightarrow> sorted_db (db_put k v db)"
proof (induction k v db rule: db_put.induct)
  case (2 k v j w db)
  show ?case
  proof (cases "k < j \<or> k = j")
    case True
    thus ?thesis using "2.prems" by auto
  next
    case False
    hence jk: "j < k" by auto
    have "sorted_db (db_put k v db)" using "2.IH" "2.prems" False by simp
    moreover have "\<forall>x\<in>set (map fst (db_put k v db)). j < x" using "2.prems" jk by (simp only: put_keys) auto
    ultimately show ?thesis using False by simp
  qed
qed simp

lemma delete_sorted: "sorted_db db \<Longrightarrow> sorted_db (db_delete k db)"
  unfolding db_delete_def by (induction db) auto

lemma write_sorted: "sorted_db db \<Longrightarrow> sorted_db (write_op x db)"
  by (cases x) (simp add: write_op_def put_sorted delete_sorted split: option.split)

lemma writes_sorted: "sorted_db db \<Longrightarrow> sorted_db (fold write_op ops db)"
  by (induction ops arbitrary: db) (simp_all add: write_sorted)

lemma prefix_not_less: "has_prefix p k \<Longrightarrow> \<not> k < p"
proof
  assume "has_prefix p k" "k < p"
  then obtain r where "p @ r < p" by (metis append_take_drop_id has_prefix_def)
  thus False by (induction p) auto
qed

text \<open>Below its limit a scan returns all rows with the prefix.\<close>

lemma scan_complete:
  assumes "sorted_db db" "length (filter (\<lambda>(k, v). has_prefix p k) db) \<le> limit"
  shows "db_scan limit p db = filter (\<lambda>(k, v). has_prefix p k) db"
proof -
  let ?P = "\<lambda>(k, v). has_prefix p k" and ?L = "\<lambda>(k, v). k < p"
  define rows where "rows = dropWhile ?L db"
  have split: "db = takeWhile ?L db @ rows" by (simp add: rows_def)
  have none: "filter ?P (takeWhile ?L db) = []"
    using prefix_not_less by (auto simp: filter_empty_conv dest!: set_takeWhileD)
  have eq: "filter ?P db = filter ?P rows" by (subst split) (simp add: none)
  have sorted: "sorted_db (takeWhile ?L db @ rows)" using assms(1) split by simp
  hence srt: "sorted_db rows" by (simp add: sorted_wrt_append)
  have "\<not> k < p" if "(k, v) \<in> set rows" for k v
  proof (cases rows)
    case (Cons x xs)
    have "\<not> ?L x" using Cons by (simp add: rows_def dropWhile_eq_Cons_conv)
    hence "\<not> fst x < p" by (simp add: case_prod_beta)
    moreover have "fst x \<le> k" using that srt Cons by (force simp: order.order_iff_strict)
    ultimately show ?thesis by auto
  qed (use that in simp)
  hence ge: "\<forall>(k, v)\<in>set rows. \<not> k < p" by blast
  have "takeWhile ?P (take limit rows) = take limit (takeWhile ?P rows)"
    by (induction rows arbitrary: limit) (auto simp: take_Cons split: nat.split)
  also have "takeWhile ?P rows = filter ?P rows" using iter_prefix_filter [OF srt ge] by (simp add: iter_prefix_keys_def)
  also have "take limit (filter ?P rows) = filter ?P rows" using assms(2) eq by simp
  finally show ?thesis using eq by (simp add: db_scan_def rows_def)
qed

text \<open>At its limit it returns the first rows only.\<close>

lemma scan_truncated: "length (db_scan limit p db) \<le> limit"
  unfolding db_scan_def by (rule le_trans [OF length_takeWhile_le]) simp

section \<open>Batches\<close>

text \<open>The contract of a key-value store, and what a sequence of writes does under it.\<close>

locale kv_store =
  fixes lookup :: "'d \<Rightarrow> 'k \<Rightarrow> 'v option" and step :: "'k \<times> 'v option \<Rightarrow> 'd \<Rightarrow> 'd"
  assumes lookup_step: "lookup (step (k, v) db) j = (if j = k then v else lookup db j)"
begin

lemma untouched: "\<forall>(j, v)\<in>set ops. j \<noteq> k \<Longrightarrow> lookup (fold step ops db) k = lookup db k"
proof (induction ops arbitrary: db)
  case (Cons x ops)
  thus ?case by (cases x) (auto simp: lookup_step)
qed simp

lemma deleted:
  "\<forall>(j, v)\<in>set ops. j = k \<longrightarrow> v = None \<Longrightarrow> (k, None) \<in> set ops \<or> lookup db k = None \<Longrightarrow> lookup (fold step ops db) k = None"
proof (induction ops arbitrary: db)
  case (Cons x ops)
  obtain j v where x: "x = (j, v)" by (cases x)
  have rest: "\<forall>(j, v)\<in>set ops. j = k \<longrightarrow> v = None" using Cons.prems(1) by simp
  have "(k, None) \<in> set ops \<or> lookup (step (j, v) db) k = None"
    using Cons.prems by (cases "j = k") (auto simp: x lookup_step)
  thus ?case using Cons.IH [OF rest] by (simp add: x)
qed simp

lemma last_step: "\<forall>(j, w)\<in>set ops. j \<noteq> k \<Longrightarrow> lookup (fold step (pre @ (k, v) # ops) db) k = v"
  by (simp add: untouched lookup_step)

end

interpretation kv: kv_store map_of write_op
  by unfold_locales (rule map_of_write)

text \<open>
  Within a batch an operation adds writes to the batch and leaves the rows alone; \<open>emits db D f\<close> says that all of them
  satisfy \<open>D\<close> when the rows are \<open>db\<close>.
\<close>

definition emits :: "rocks_db \<Rightarrow> (bytes \<times> rocks_value option \<Rightarrow> bool) \<Rightarrow> rocks_op \<Rightarrow> bool" where
  "emits db D f \<longleftrightarrow> (\<forall>ops. \<exists>xs. fst (f \<lparr>rk_db = db, rk_batch = Some ops\<rparr>) = \<lparr>rk_db = db, rk_batch = Some (ops @ xs)\<rparr> \<and> (\<forall>x\<in>set xs. D x))"

named_theorems emits_intros

lemma emits_skip [emits_intros]: "emits db D skip_op"
  by (simp add: emits_def skip_op_def)

lemma emits_fail [emits_intros]: "emits db D fail_op"
  by (simp add: emits_def fail_op_def)

lemma emits_write: "D (k, v) \<Longrightarrow> emits db D (raw_write k v)"
  by (simp add: emits_def raw_write_def)

lemma emits_put [emits_intros]: "D (k, Some v) \<Longrightarrow> emits db D (raw_put k v)"
  unfolding raw_put_def by (rule emits_write)

lemma emits_delete [emits_intros]: "D (k, None) \<Longrightarrow> emits db D (raw_delete k)"
  unfolding raw_delete_def by (rule emits_write)

lemma emits_keyed [emits_intros]: "(\<And>k. b = Some k \<Longrightarrow> emits db D (f k)) \<Longrightarrow> emits db D (keyed b f)"
  by (cases b) (simp_all add: keyed_def emits_fail)

lemma emits_run [emits_intros]: "\<forall>f\<in>set fs. emits db D f \<Longrightarrow> emits db D (run_ops fs)"
proof (induction fs)
  case Nil
  show ?case by (simp add: emits_def)
next
  case (Cons f fs)
  have f: "emits db D f" and fs: "emits db D (run_ops fs)" using Cons by simp_all
  show ?case unfolding emits_def
  proof
    fix ops
    obtain xs where x: "fst (f \<lparr>rk_db = db, rk_batch = Some ops\<rparr>) = \<lparr>rk_db = db, rk_batch = Some (ops @ xs)\<rparr>" "\<forall>x\<in>set xs. D x"
      using f unfolding emits_def by blast
    obtain ys where y: "fst (run_ops fs \<lparr>rk_db = db, rk_batch = Some (ops @ xs)\<rparr>) = \<lparr>rk_db = db, rk_batch = Some ((ops @ xs) @ ys)\<rparr>"
        "\<forall>x\<in>set ys. D x" using fs unfolding emits_def by blast
    obtain ok where e: "f \<lparr>rk_db = db, rk_batch = Some ops\<rparr> = (\<lparr>rk_db = db, rk_batch = Some (ops @ xs)\<rparr>, ok)"
      using x(1) by (cases "f \<lparr>rk_db = db, rk_batch = Some ops\<rparr>") simp
    show "\<exists>xs. fst (run_ops (f # fs) \<lparr>rk_db = db, rk_batch = Some ops\<rparr>) = \<lparr>rk_db = db, rk_batch = Some (ops @ xs)\<rparr> \<and> (\<forall>x\<in>set xs. D x)"
    proof (cases ok)
      case True
      thus ?thesis using e x(2) y by (intro exI [of _ "xs @ ys"]) auto
    next
      case False
      thus ?thesis using e x(2) by (intro exI [of _ xs]) simp
    qed
  qed
qed

lemma emits_rows [emits_intros]:
  "\<forall>r\<in>set (rows \<lparr>rk_db = db, rk_batch = None\<rparr>). emits db D (f r) \<Longrightarrow>
   \<forall>b. rows \<lparr>rk_db = db, rk_batch = b\<rparr> = rows \<lparr>rk_db = db, rk_batch = None\<rparr> \<Longrightarrow> emits db D (for_rows rows f)"
proof -
  assume f: "\<forall>r\<in>set (rows \<lparr>rk_db = db, rk_batch = None\<rparr>). emits db D (f r)"
    and b: "\<forall>b. rows \<lparr>rk_db = db, rk_batch = b\<rparr> = rows \<lparr>rk_db = db, rk_batch = None\<rparr>"
  have run: "emits db D (run_ops (map f (rows \<lparr>rk_db = db, rk_batch = None\<rparr>)))" by (rule emits_run) (use f in simp)
  show ?thesis unfolding emits_def
  proof
    fix ops
    have e: "rows \<lparr>rk_db = db, rk_batch = Some ops\<rparr> = rows \<lparr>rk_db = db, rk_batch = None\<rparr>" using b by blast
    show "\<exists>xs. fst (for_rows rows f \<lparr>rk_db = db, rk_batch = Some ops\<rparr>) = \<lparr>rk_db = db, rk_batch = Some (ops @ xs)\<rparr> \<and> (\<forall>x\<in>set xs. D x)"
      unfolding for_rows_def e by (rule run [unfolded emits_def, rule_format])
  qed
qed

lemma scan_batch [simp]: "scan_prefix p \<lparr>rk_db = db, rk_batch = b\<rparr> = db_scan scan_limit p db"
  by (simp add: scan_prefix_def)

text \<open>An operation in \<open>atomic\<close> is written whole, or not at all.\<close>

lemma atomic_emits:
  assumes "emits (rk_db s) D f" "rk_batch s = None" "atomic f s = (t, ok)"
  shows "rk_batch t = None \<and>
    (if ok then \<exists>xs. f (s\<lparr>rk_batch := Some []\<rparr>) = (\<lparr>rk_db = rk_db s, rk_batch = Some xs\<rparr>, True) \<and> (\<forall>x\<in>set xs. D x) \<and> rk_db t = fold write_op xs (rk_db s)
     else rk_db t = rk_db s)"
proof -
  obtain xs where x: "fst (f \<lparr>rk_db = rk_db s, rk_batch = Some []\<rparr>) = \<lparr>rk_db = rk_db s, rk_batch = Some xs\<rparr>" "\<forall>x\<in>set xs. D x"
    using assms(1) unfolding emits_def by (metis append_Nil)
  have s: "s\<lparr>rk_batch := Some []\<rparr> = \<lparr>rk_db = rk_db s, rk_batch = Some []\<rparr>" by simp
  obtain okf where f: "f (s\<lparr>rk_batch := Some []\<rparr>) = (\<lparr>rk_db = rk_db s, rk_batch = Some xs\<rparr>, okf)"
    unfolding s using x(1) by (cases "f \<lparr>rk_db = rk_db s, rk_batch = Some []\<rparr>") simp
  show ?thesis using assms(3) f x(2) by (cases okf) (auto simp: atomic_def)
qed

lemma emits_same:
  assumes "\<And>ops. f \<lparr>rk_db = db, rk_batch = Some ops\<rparr> = g \<lparr>rk_db = db, rk_batch = Some ops\<rparr>" "emits db D g"
  shows "emits db D f"
  using assms by (simp add: emits_def)

lemma run_ops_append: "run_ops (fs @ gs) s = (case run_ops fs s of (t, ok) \<Rightarrow> if ok then run_ops gs t else (t, False))"
proof (induction fs arbitrary: s)
  case (Cons f fs)
  thus ?case by (cases "f s") simp
qed simp

lemma scanned: "(k, v) \<in> set (db_scan limit p db) \<Longrightarrow> has_prefix p k \<and> (k, v) \<in> set db"
  unfolding db_scan_def by (auto dest!: set_takeWhileD in_set_takeD set_dropWhileD)

section \<open>Truncation\<close>

definition family :: "bytes \<Rightarrow> bytes" where
  "family k = take 1 k"

text \<open>Of the rows of blocks a truncation deletes those above the height that were scanned, and it writes none.\<close>

definition truncates :: "int \<Rightarrow> bytes set \<Rightarrow> bytes \<times> rocks_value option \<Rightarrow> bool" where
  "truncates keep B = (\<lambda>(k, v). family k = [1] \<longrightarrow> v = None \<and> k \<in> B \<and> (\<exists>h. key_height k = Some h \<and> keep < h))"

lemma truncates_other: "family k \<noteq> [1] \<Longrightarrow> truncates keep B (k, v)"
  by (simp add: truncates_def)

lemma family_of [simp]:
  "key_block_hash x = Some k \<Longrightarrow> family k = [2]" "key_tx t = Some k \<Longrightarrow> family k = [4]"
  "key_tx_from a h t = Some k \<Longrightarrow> family k = [6]" "key_tx_to a h t = Some k \<Longrightarrow> family k = [7]"
  "key_tx_recent h ts t = Some k \<Longrightarrow> family k = [8]" "family (key_meta m) = [0x40]"
  "family (key_proposer_audit h) = [0x42]" "family (key_burn h) = [0x41]" "family (key_account a) = [0x10]"
  by (auto simp: family_def key_block_hash_def key_tx_def key_tx_from_def key_tx_to_def key_tx_recent_def key_meta_def
      key_proposer_audit_def key_burn_def key_account_def)

lemma emits_touch: "emits db (truncates keep B) (touch_live_root b)"
  by (auto simp: touch_live_root_def Let_def intro!: emits_intros truncates_other)

lemma emits_tip: "emits db (truncates keep B) (set_tip_meta n)"
proof -
  let ?g = "case rk_get_block n \<lparr>rk_db = db, rk_batch = None\<rparr> of
        Some b \<Rightarrow> run_ops [touch_live_root b, raw_put (key_meta ''chain_tip'') (VNum n),
          (if kb_hash b \<noteq> '''' then raw_put (key_meta ''chain_tip_hash'') (VText (kb_hash b)) else raw_delete (key_meta ''chain_tip_hash''))]
      | None \<Rightarrow> run_ops (map (\<lambda>m. raw_delete (key_meta m))
          [''live_state_root'', ''live_state_root_height'', ''state_root'', ''chain_tip'', ''chain_tip_hash''])"
  have "emits db (truncates keep B) ?g"
    by (auto split: option.split intro!: emits_intros emits_touch truncates_other)
  thus ?thesis
    by (rule emits_same [rotated]) (simp add: set_tip_meta_def rk_get_block_def raw_get_def split: option.split)
qed

lemma emits_height_above:
  "family k \<noteq> [1] \<Longrightarrow> emits db (truncates keep B) (height_above keep k)"
  "family k \<noteq> [1] \<Longrightarrow> emits db (truncates keep B) (long_height_above keep k)"
  by (auto simp: height_above_def long_height_above_def truncates_def split: option.split intro!: emits_intros)

lemma emits_block_row: "fst r \<in> B \<Longrightarrow> emits db (truncates keep B) (drop_block_row keep r)"
proof (cases r)
  case (Pair k v)
  assume inB: "fst r \<in> B"
  show ?thesis
  proof (cases "key_height k")
    case (Some h)
    have "keep < h \<Longrightarrow> emits db (truncates keep B) (raw_delete k)" using Some inB Pair by (intro emits_intros) (simp add: truncates_def)
    thus ?thesis using Some Pair
      by (auto simp: drop_block_row_def split: rocks_value.split intro!: emits_intros truncates_other)
  qed (simp add: Pair drop_block_row_def emits_fail)
qed

lemma emits_tx_row: "family k = [4] \<Longrightarrow> emits db (truncates keep B) (drop_tx_row keep (k, v))"
  by (auto simp: drop_tx_row_def delete_tx_indexes_def split: rocks_value.split intro!: emits_intros truncates_other)

lemma emits_other_row:
  "family k \<noteq> [1] \<Longrightarrow> emits db (truncates keep B) (drop_receipt_row keep (k, v))"
  "family k \<noteq> [1] \<Longrightarrow> emits db (truncates keep B) (drop_row keep (k, v))"
  by (auto simp: drop_receipt_row_def drop_row_def split: rocks_value.split intro!: emits_intros truncates_other)

lemma has_prefix_byte: "has_prefix [b] k \<longleftrightarrow> family k = [b]"
  by (simp add: has_prefix_def family_def)

lemma emits_scan:
  "(\<And>k v. family k = [b] \<Longrightarrow> emits db D (f (k, v))) \<Longrightarrow> emits db D (for_rows (scan_prefix [b]) f)"
  by (rule emits_rows) (auto dest!: scanned simp: has_prefix_byte)

definition scanned_blocks :: "rocks_db \<Rightarrow> bytes set" where
  "scanned_blocks db = fst ` set (db_scan scan_limit [1] db)"

lemma emits_block_loop: "emits db (truncates keep (scanned_blocks db)) (for_rows block_rows (drop_block_row keep))"
  by (rule emits_rows) (auto simp: block_rows_def scanned_blocks_def intro!: emits_block_row image_eqI)

lemma emits_reorg: "emits db (truncates keep (scanned_blocks db)) (reorg_truncate_above keep)"
  unfolding reorg_truncate_above_def purge_height_indexes_def
  by (auto intro!: emits_run emits_block_loop emits_scan emits_height_above emits_tx_row emits_other_row emits_tip)

text \<open>When the loop over the block rows comes to its end, every row above the height is deleted.\<close>

lemma block_row_deletes:
  assumes "drop_block_row keep (k, v) \<lparr>rk_db = db, rk_batch = Some ops\<rparr> = (t, True)"
  shows "\<exists>xs. t = \<lparr>rk_db = db, rk_batch = Some (ops @ xs)\<rparr> \<and> (\<forall>h. key_height k = Some h \<and> keep < h \<longrightarrow> (k, None) \<in> set xs)"
proof (cases "key_height k")
  case None
  thus ?thesis using assms by (simp add: drop_block_row_def fail_op_def)
next
  case (Some h)
  show ?thesis
  proof (cases "h \<le> keep")
    case True
    thus ?thesis using assms Some by (auto simp: drop_block_row_def skip_op_def)
  next
    case False
    thus ?thesis using assms Some
      by (auto simp: drop_block_row_def raw_delete_def raw_write_def skip_op_def keyed_def fail_op_def
          split: rocks_value.splits if_splits option.splits)
  qed
qed

lemma block_loop_deletes:
  "run_ops (map (drop_block_row keep) rows) \<lparr>rk_db = db, rk_batch = Some ops\<rparr> = (t, True) \<Longrightarrow>
   \<exists>xs. t = \<lparr>rk_db = db, rk_batch = Some (ops @ xs)\<rparr> \<and>
     (\<forall>(k, v)\<in>set rows. \<forall>h. key_height k = Some h \<and> keep < h \<longrightarrow> (k, None) \<in> set xs)"
proof (induction rows arbitrary: ops t)
  case (Cons r rows)
  obtain k v where r: "r = (k, v)" by (cases r)
  obtain u ok where u: "drop_block_row keep (k, v) \<lparr>rk_db = db, rk_batch = Some ops\<rparr> = (u, ok)" by fastforce
  have ok: "ok" using Cons.prems u r by (cases ok) simp_all
  obtain xs where xs: "u = \<lparr>rk_db = db, rk_batch = Some (ops @ xs)\<rparr>"
      "\<forall>h. key_height k = Some h \<and> keep < h \<longrightarrow> (k, None) \<in> set xs"
    using block_row_deletes [of keep k v db ops u] u ok by auto
  have "run_ops (map (drop_block_row keep) rows) \<lparr>rk_db = db, rk_batch = Some (ops @ xs)\<rparr> = (t, True)"
    using Cons.prems u ok r xs(1) by simp
  from Cons.IH [OF this] obtain ys where "t = \<lparr>rk_db = db, rk_batch = Some ((ops @ xs) @ ys)\<rparr>"
      "\<forall>(k, v)\<in>set rows. \<forall>h. key_height k = Some h \<and> keep < h \<longrightarrow> (k, None) \<in> set ys" by blast
  thus ?case using xs(2) r by (intro exI [of _ "xs @ ys"]) auto
qed simp

lemma reorg_deletes:
  assumes "reorg_truncate_above keep \<lparr>rk_db = db, rk_batch = Some []\<rparr> = (t, True)"
  shows "\<exists>xs. t = \<lparr>rk_db = db, rk_batch = Some xs\<rparr> \<and> (\<forall>x\<in>set xs. truncates keep (scanned_blocks db) x) \<and>
    (\<forall>(k, v)\<in>set (db_scan scan_limit [1] db). \<forall>h. key_height k = Some h \<and> keep < h \<longrightarrow> (k, None) \<in> set xs)"
proof -
  let ?first = "for_rows block_rows (drop_block_row keep)" and ?s = "\<lparr>rk_db = db, rk_batch = Some []\<rparr>"
  define rest where "rest = tl [?first,
      for_rows (scan_prefix [3]) (\<lambda>(k, v). long_height_above keep k), for_rows (scan_prefix [4]) (drop_tx_row keep),
      for_rows (scan_prefix [5]) (drop_receipt_row keep), for_rows (scan_prefix [0x42]) (\<lambda>(k, v). height_above keep k),
      for_rows (scan_prefix [0x41]) (\<lambda>(k, v). height_above keep k),
      for_rows (scan_prefix [0x43]) (\<lambda>(k, v). long_height_above keep k), purge_height_indexes keep, set_tip_meta keep]"
  have reorg: "reorg_truncate_above keep = run_ops (?first # rest)" by (simp add: reorg_truncate_above_def rest_def)
  obtain u ok where u: "?first ?s = (u, ok)" by fastforce
  have ok: "ok" using assms u unfolding reorg by (cases ok) simp_all
  have "run_ops (map (drop_block_row keep) (db_scan scan_limit [1] db)) ?s = (u, True)"
    using u ok by (simp add: for_rows_def block_rows_def)
  from block_loop_deletes [OF this] obtain xs where xs: "u = \<lparr>rk_db = db, rk_batch = Some xs\<rparr>"
      "\<forall>(k, v)\<in>set (db_scan scan_limit [1] db). \<forall>h. key_height k = Some h \<and> keep < h \<longrightarrow> (k, None) \<in> set xs" by auto
  have "emits db (truncates keep (scanned_blocks db)) (run_ops rest)"
    unfolding rest_def purge_height_indexes_def
    by (auto intro!: emits_run emits_scan emits_height_above emits_tx_row emits_other_row emits_tip)
  then obtain ys where ys: "fst (run_ops rest u) = \<lparr>rk_db = db, rk_batch = Some (xs @ ys)\<rparr>" unfolding emits_def xs(1) by blast
  have t: "t = \<lparr>rk_db = db, rk_batch = Some (xs @ ys)\<rparr>" using assms u ok ys unfolding reorg by simp
  obtain zs where "fst (reorg_truncate_above keep ?s) = \<lparr>rk_db = db, rk_batch = Some ([] @ zs)\<rparr>" "\<forall>x\<in>set zs. truncates keep (scanned_blocks db) x"
    using emits_reorg unfolding emits_def by blast
  hence "\<forall>x\<in>set (xs @ ys). truncates keep (scanned_blocks db) x" using assms t by simp
  thus ?thesis using t xs(2) by auto
qed

lemma key_height_block: "u64 h \<Longrightarrow> key_height (key_block_height h) = Some h"
  using unpack_pack_u64 [of h] by (simp add: key_height_def key_block_height_def u64_def)

text \<open>
  C30. Truncation is exact. While the store holds no more block rows than one scan returns, \<open>truncate_chain_state\<close> leaves exactly the blocks up to the height, each as it was, when it succeeds; when anything in it raises, the store is unchanged; and it always ends outside a batch.
\<close>

theorem truncation_exact:
  assumes "rk_batch s = None" "sorted_db (rk_db s)" "length (filter (\<lambda>(k, v). has_prefix [1] k) (rk_db s)) \<le> scan_limit"
    and "truncate_chain_state keep s = (s', ok)"
  shows "rk_batch s' = None \<and>
    (if ok then \<forall>h. u64 h \<longrightarrow> rk_get_block h s' = (if h \<le> keep then rk_get_block h s else None)
     else rk_db s' = rk_db s)"
proof -
  have at: "rk_batch s' = None \<and> (if ok then \<exists>xs. reorg_truncate_above keep (s\<lparr>rk_batch := Some []\<rparr>) =
        (\<lparr>rk_db = rk_db s, rk_batch = Some xs\<rparr>, True) \<and> (\<forall>x\<in>set xs. truncates keep (scanned_blocks (rk_db s)) x) \<and> rk_db s' = fold write_op xs (rk_db s)
      else rk_db s' = rk_db s)"
    by (rule atomic_emits [OF emits_reorg assms(1) assms(4) [unfolded truncate_chain_state_def]])
  have "rk_get_block h s' = (if h \<le> keep then rk_get_block h s else None)" if "ok" "u64 h" for h
  proof -
    obtain xs where xs: "reorg_truncate_above keep (s\<lparr>rk_batch := Some []\<rparr>) = (\<lparr>rk_db = rk_db s, rk_batch = Some xs\<rparr>, True)"
        "\<forall>x\<in>set xs. truncates keep (scanned_blocks (rk_db s)) x" "rk_db s' = fold write_op xs (rk_db s)" using at \<open>ok\<close> by auto
    have sb: "s\<lparr>rk_batch := Some []\<rparr> = \<lparr>rk_db = rk_db s, rk_batch = Some []\<rparr>" by simp
    have cover: "\<forall>(k, v)\<in>set (db_scan scan_limit [1] (rk_db s)). \<forall>h. key_height k = Some h \<and> keep < h \<longrightarrow> (k, None) \<in> set xs"
      using reorg_deletes [OF xs(1) [unfolded sb]] by auto
    let ?k = "key_block_height h"
    note kh = key_height_block [OF \<open>u64 h\<close>]
    have fam: "family ?k = [1]" "has_prefix [1] ?k" by (simp_all add: family_def has_prefix_def key_block_height_def)
    show ?thesis
    proof (cases "h \<le> keep")
      case True
      have "j \<noteq> ?k" if "(j, v) \<in> set xs" for j v
        using xs(2) that fam(1) kh True by (fastforce simp: truncates_def)
      hence "map_of (rk_db s') ?k = map_of (rk_db s) ?k" unfolding xs(3) by (intro kv.untouched) blast
      thus ?thesis using True by (simp add: rk_get_block_def raw_get_def)
    next
      case False
      have "(?k, None) \<in> set xs \<or> map_of (rk_db s) ?k = None"
      proof (cases "map_of (rk_db s) ?k")
        case (Some v)
        hence "(?k, v) \<in> set (db_scan scan_limit [1] (rk_db s))"
          using scan_complete [OF assms(2,3)] fam(2) by (simp add: map_of_SomeD)
        thus ?thesis using cover kh False by fastforce
      qed simp
      moreover have "\<forall>(j, v)\<in>set xs. j = ?k \<longrightarrow> v = None" using xs(2) fam(1) by (fastforce simp: truncates_def)
      ultimately have "map_of (rk_db s') ?k = None" unfolding xs(3) by (intro kv.deleted)
      thus ?thesis using False by (simp add: rk_get_block_def raw_get_def)
    qed
  qed
  thus ?thesis using at by simp
qed

definition demo_rk_block :: "int \<Rightarrow> rk_block" where
  "demo_rk_block h = \<lparr>kb_height = h, kb_hash = '''', kb_state_root = ''r'', kb_rest = ''''\<rparr>"

definition demo_store :: rocks where
  "demo_store = fst (run_ops [rk_insert_block (demo_rk_block 0), rk_insert_block (demo_rk_block 1), rk_insert_block (demo_rk_block 2)] empty_store)"

lemma demo_store_facts:
  "rk_batch demo_store = None" "sorted_db (rk_db demo_store)"
  "length (filter (\<lambda>(k, v). has_prefix [1] k) (rk_db demo_store)) = 3"
  by code_simp+

text \<open>For evaluation: on a small store the limit of a scan is the size of the store.\<close>

lemma scan_prefix_small [code]:
  "scan_prefix p s = (if int (length (rk_db s)) \<le> 100000 then db_scan (length (rk_db s)) p (rk_db s) else db_scan scan_limit p (rk_db s))"
proof (cases "int (length (rk_db s)) \<le> 100000")
  case True
  have "length (dropWhile (\<lambda>(k, v). k < p) (rk_db s)) \<le> length (rk_db s)" by (rule length_dropWhile_le)
  thus ?thesis using True by (simp add: scan_prefix_def db_scan_def scan_limit_def)
qed (simp add: scan_prefix_def)

lemma demo_truncation: "snd (truncate_chain_state 1 demo_store) \<and> rk_get_block 1 demo_store \<noteq> None \<and> rk_get_block 2 demo_store \<noteq> None"
  unfolding truncate_chain_state_def by code_simp

theorem truncation_exact_witness:
  "let r = truncate_chain_state 1 demo_store in
   snd r \<and> rk_get_block 1 (fst r) = rk_get_block 1 demo_store \<and> rk_get_block 1 demo_store \<noteq> None \<and>
   rk_get_block 2 (fst r) = None \<and> rk_get_block 2 demo_store \<noteq> None"
proof -
  have "truncate_chain_state 1 demo_store = (fst (truncate_chain_state 1 demo_store), snd (truncate_chain_state 1 demo_store))" by simp
  from truncation_exact [OF demo_store_facts(1,2) _ this] demo_store_facts(3) demo_truncation
  show ?thesis by (simp add: Let_def scan_limit_def u64_def)
qed

text \<open>
  Above that size it is not: a scan returns the lowest keys, so when the first 100000 block rows are all kept, the
  truncation reports success and deletes no block at all, and the tip is moved below blocks that are still there.
\<close>

theorem truncation_beyond_limit:
  assumes "rk_batch s = None" "truncate_chain_state keep s = (s', True)" "u64 h"
    and "\<forall>(k, v)\<in>set (db_scan scan_limit [1] (rk_db s)). \<exists>n. key_height k = Some n \<and> n \<le> keep"
  shows "rk_get_block h s' = rk_get_block h s"
proof -
  obtain xs where xs: "\<forall>x\<in>set xs. truncates keep (scanned_blocks (rk_db s)) x" "rk_db s' = fold write_op xs (rk_db s)"
    using atomic_emits [OF emits_reorg assms(1) assms(2) [unfolded truncate_chain_state_def]] by auto
  have fam: "family (key_block_height h) = [1]" by (simp add: family_def key_block_height_def)
  have "j \<noteq> key_block_height h" if "(j, v) \<in> set xs" for j v
  proof
    assume j: "j = key_block_height h"
    have "truncates keep (scanned_blocks (rk_db s)) (j, v)" using xs(1) that by blast
    hence "j \<in> scanned_blocks (rk_db s)" "\<exists>n. key_height j = Some n \<and> keep < n" using fam j by (simp_all add: truncates_def)
    thus False using assms(4) by (fastforce simp: scanned_blocks_def)
  qed
  hence "map_of (rk_db s') (key_block_height h) = map_of (rk_db s) (key_block_height h)"
    unfolding xs(2) by (intro kv.untouched) blast
  thus ?thesis by (simp add: rk_get_block_def raw_get_def)
qed

section \<open>The commit of a block\<close>

definition block_writes :: "rk_block \<Rightarrow> (bytes \<times> rocks_value option) list" where
  "block_writes b =
     (key_block_height (kb_height b), Some (VBlock b)) #
     (if kb_hash b = '''' then [] else [(the (key_block_hash (kb_hash b)), Some (VHeight (pack_u64 (kb_height b))))]) @
     (key_meta ''chain_tip'', Some (VNum (kb_height b))) #
     (if kb_hash b = '''' then [] else [(key_meta ''chain_tip_hash'', Some (VText (kb_hash b)))]) @
     (key_proposer_audit (kb_height b), Some (VAudit (kb_height b) (kb_hash b))) #
     (let root = py_strip (kb_state_root b) in
      if root = '''' then []
      else [(key_meta ''state_root'', Some (VText root)), (key_meta ''live_state_root'', Some (VText root)),
            (key_meta ''live_state_root_height'', Some (VNum (kb_height b)))])"

lemma insert_block_batch:
  assumes "kb_hash b = '''' \<or> key_block_hash (kb_hash b) \<noteq> None"
  shows "rk_insert_block b \<lparr>rk_db = db, rk_batch = Some ops\<rparr> = (\<lparr>rk_db = db, rk_batch = Some (ops @ block_writes b)\<rparr>, True)"
  using assms
  by (auto simp: rk_insert_block_def block_writes_def insert_audit_def touch_live_root_def raw_put_def raw_write_def skip_op_def
      keyed_def Let_def)

lemma meta_keys_differ: "key_meta m = key_meta n \<longleftrightarrow> m = n"
proof -
  have "inj (\<lambda>c. word_of_int (of_char c) :: 8 word)"
  proof (rule injI)
    fix c d :: char
    assume eq: "(word_of_int (of_char c) :: 8 word) = word_of_int (of_char d)"
    have range: "0 \<le> (of_char x :: int) \<and> (of_char x :: int) < 256" for x :: char
      using of_char_mod_256 [of x, where ?'a = int] by (metis pos_mod_bound pos_mod_sign zero_less_numeral)
    have "uint (word_of_int (of_char c) :: 8 word) = uint (word_of_int (of_char d) :: 8 word)" using eq by simp
    hence "(of_char c :: int) = of_char d" using range [of c] range [of d] by (simp add: uint_word_of_int take_bit_eq_mod)
    thus "c = d" by simp
  qed
  thus ?thesis by (simp add: key_meta_def utf8_def inj_map_eq_map)
qed

definition storable :: "rk_block \<Rightarrow> bool" where
  "storable b \<longleftrightarrow> kb_hash b = '''' \<or> key_block_hash (kb_hash b) \<noteq> None"

lemma block_writes_block:
  assumes "storable b"
  shows "map_of (fold write_op (block_writes b) db) (key_block_height (kb_height b)) = Some (VBlock b)"
proof -
  let ?k = "key_block_height (kb_height b)"
  have fam: "family ?k = [1]" by (simp add: family_def key_block_height_def)
  obtain ws where ws: "block_writes b = [] @ (?k, Some (VBlock b)) # ws" by (simp add: block_writes_def)
  have "family j \<noteq> [1]" if "(j, v) \<in> set ws" for j v
    using that ws assms by (auto simp: block_writes_def storable_def Let_def split: if_splits)
  hence "\<forall>(j, v)\<in>set ws. j \<noteq> ?k" using fam by fastforce
  thus ?thesis unfolding ws by (rule kv.last_step)
qed

lemma block_writes_tip:
  assumes "storable b"
  shows "map_of (fold write_op (block_writes b) db) (key_meta ''chain_tip'') = Some (VNum (kb_height b))"
proof -
  let ?k = "key_meta ''chain_tip''" and ?h = "(if kb_hash b = '''' then [] else [(key_meta ''chain_tip_hash'', Some (VText (kb_hash b)))])"
  obtain pre ws where ws: "block_writes b = pre @ (?k, Some (VNum (kb_height b))) # ?h @ ws"
    "\<forall>(j, v)\<in>set ws. j = key_proposer_audit (kb_height b) \<or> j \<in> key_meta ` {''state_root'', ''live_state_root'', ''live_state_root_height''}"
  proof (rule that)
    show "block_writes b =
        ((key_block_height (kb_height b), Some (VBlock b)) #
         (if kb_hash b = '''' then [] else [(the (key_block_hash (kb_hash b)), Some (VHeight (pack_u64 (kb_height b))))])) @
        (?k, Some (VNum (kb_height b))) # ?h @
        ((key_proposer_audit (kb_height b), Some (VAudit (kb_height b) (kb_hash b))) #
         (let root = py_strip (kb_state_root b) in
          if root = '''' then []
          else [(key_meta ''state_root'', Some (VText root)), (key_meta ''live_state_root'', Some (VText root)),
                (key_meta ''live_state_root_height'', Some (VNum (kb_height b)))]))"
      by (simp add: block_writes_def)
  qed (auto simp: Let_def)
  have aud: "key_proposer_audit (kb_height b) \<noteq> ?k" by (simp add: key_proposer_audit_def key_meta_def)
  have "j \<noteq> ?k" if "(j, v) \<in> set ws" for j v
    using bspec [OF ws(2) that] aud by (auto simp: meta_keys_differ)
  moreover have "\<forall>(j, v)\<in>set ?h. j \<noteq> ?k" by (simp add: meta_keys_differ)
  ultimately have "\<forall>(j, v)\<in>set (?h @ ws). j \<noteq> ?k" by auto
  thus ?thesis unfolding ws(1) by (rule kv.last_step)
qed

text \<open>Reading after writing: a saved block is found under its height and is the tip.\<close>

lemma run_ops_unbatched:
  assumes "emits db D f" "f \<lparr>rk_db = db, rk_batch = Some []\<rparr> = (\<lparr>rk_db = db, rk_batch = Some xs\<rparr>, True)" "rk_batch s = None" "rk_db s = db"
  shows "atomic f s = (\<lparr>rk_db = fold write_op xs db, rk_batch = None\<rparr>, True)"
proof -
  have "s\<lparr>rk_batch := Some []\<rparr> = \<lparr>rk_db = db, rk_batch = Some []\<rparr>" using assms(4) by simp
  thus ?thesis using assms(2) by (simp add: atomic_def)
qed

lemma invalid_tx_stops:
  assumes "kt_hash t \<noteq> ''''" "key_tx (kt_hash t) = None"
  shows "insert_transaction t s = (s, False)"
  using assms by (simp add: insert_transaction_def Let_def keyed_def fail_op_def)



section \<open>Accounts\<close>

lemma account_key_normal: "normalize_address_key (normalize_address_key a) = normalize_address_key a"
  by (simp add: normalize_address_key_def strip_lower)

text \<open>What a change of an account writes.\<close>

definition saved_row :: "rk_account \<Rightarrow> rk_account" where
  "saved_row r = r\<lparr>ka_address := normalize_address_key (ka_address r), ka_satoshi := max 0 (ka_satoshi r)\<rparr>"

lemma save_row: "save_account_row r = raw_put (key_account (normalize_address_key (ka_address r))) (VAccount (saved_row r))"
  by (simp add: save_account_row_def saved_row_def Let_def)

definition well_addressed :: "rocks \<Rightarrow> string \<Rightarrow> bool" where
  "well_addressed s a \<longleftrightarrow> (\<forall>r. load_account a s = Some r \<longrightarrow> normalize_address_key (ka_address r) = normalize_address_key a)"

lemma key_account_normal: "key_account (normalize_address_key a) = key_account a"
  by (simp add: key_account_def account_key_normal)

text \<open>A change outside a batch is read back: the balance is the old one plus the change, never below zero.\<close>

lemma delta_read_back:
  assumes "rk_batch s = None" "load_account a s = Some r" "well_addressed s a"
  shows "\<exists>s'. balance_delta_satoshi a d s = (s', True) \<and> get_balance_satoshi a s' = Some (max 0 (ka_satoshi r + d)) \<and>
    (\<forall>b. key_account b \<noteq> key_account a \<longrightarrow> get_balance_satoshi b s' = get_balance_satoshi b s)"
proof -
  have addr: "key_account (ka_address r) = key_account a" using assms(2,3) by (simp add: well_addressed_def key_account_def)
  let ?r = "r\<lparr>ka_satoshi := apply_satoshi_delta (ka_satoshi r) d\<rparr>"
  let ?s' = "s\<lparr>rk_db := write_op (key_account a, Some (VAccount (saved_row ?r))) (rk_db s)\<rparr>"
  have "balance_delta_satoshi a d s = (?s', True)"
    using assms(1,2) addr by (simp add: balance_delta_satoshi_def with_account_def save_row raw_put_def raw_write_def key_account_normal)
  moreover have "get_balance_satoshi a ?s' = Some (max 0 (ka_satoshi r + d))"
    by (simp add: get_balance_satoshi_def load_account_def raw_get_def map_of_write saved_row_def apply_satoshi_delta_def)
  moreover have "key_account b \<noteq> key_account a \<longrightarrow> get_balance_satoshi b ?s' = get_balance_satoshi b s" for b
    by (simp add: get_balance_satoshi_def load_account_def raw_get_def map_of_write)
  ultimately show ?thesis by blast
qed

text \<open>
  A change of a balance inside a batch can be lost. Reads do not see the pending writes of their own batch, so of two changes of one account in one \<open>atomic\<close> block only the last one counts: the first is computed, written to the batch and overwritten by the second, which started from the same old row.
\<close>

theorem batched_change_lost:
  assumes "rk_batch s = None" "load_account a s = Some r" "well_addressed s a"
  shows "\<exists>s'. atomic (run_ops [balance_delta_satoshi a d, balance_delta_satoshi a e]) s = (s', True) \<and>
    get_balance_satoshi a s' = Some (max 0 (ka_satoshi r + e))"
proof -
  have addr: "key_account (ka_address r) = key_account a" using assms(2,3) by (simp add: well_addressed_def key_account_def)
  have load: "load_account a (s\<lparr>rk_batch := b\<rparr>) = Some r" for b using assms(2) by (simp add: load_account_def raw_get_def)
  let ?w = "\<lambda>d. (key_account a, Some (VAccount (saved_row (r\<lparr>ka_satoshi := apply_satoshi_delta (ka_satoshi r) d\<rparr>))))"
  have one: "balance_delta_satoshi a d (s\<lparr>rk_batch := Some ops\<rparr>) = (s\<lparr>rk_batch := Some (ops @ [?w d])\<rparr>, True)" for d ops
    using load addr by (simp add: balance_delta_satoshi_def with_account_def save_row raw_put_def raw_write_def key_account_normal)
  have "atomic (run_ops [balance_delta_satoshi a d, balance_delta_satoshi a e]) s =
      (s\<lparr>rk_db := fold write_op [?w d, ?w e] (rk_db s), rk_batch := None\<rparr>, True)"
    unfolding atomic_def by (simp add: one)
  moreover have "get_balance_satoshi a (s\<lparr>rk_db := fold write_op [?w d, ?w e] (rk_db s), rk_batch := None\<rparr>) = Some (max 0 (ka_satoshi r + e))"
    by (simp add: get_balance_satoshi_def load_account_def raw_get_def map_of_write saved_row_def apply_satoshi_delta_def)
  ultimately show ?thesis by blast
qed

definition rich_store :: rocks where
  "rich_store = fst (save_account_row \<lparr>ka_address = ''a'', ka_satoshi = 10, ka_nonce = 0, ka_code = None, ka_storage = None\<rparr> empty_store)"

theorem batched_change_lost_witness:
  "\<exists>s'. atomic (run_ops [balance_delta_satoshi ''a'' (- 7), balance_delta_satoshi ''a'' 3]) rich_store = (s', True) \<and>
    get_balance_satoshi ''a'' s' = Some 13"
proof -
  have "rk_batch rich_store = None" by code_simp
  moreover have load: "load_account ''a'' rich_store = Some \<lparr>ka_address = ''a'', ka_satoshi = 10, ka_nonce = 0, ka_code = None, ka_storage = None\<rparr>"
    by code_simp
  moreover have "well_addressed rich_store ''a''" using load by (simp add: well_addressed_def)
  ultimately show ?thesis using batched_change_lost [of rich_store "''a''" _ "- 7" 3] by fastforce
qed

text \<open>Deleting all blocks leaves the tip where it was.\<close>

theorem tip_survives_wipe:
  assumes "rk_batch s = None" "raw_get (key_meta ''chain_tip'') s = Some (VNum n)" "truncate_all_blocks s = (s', ok)"
  shows "get_chain_tip s' = n"
proof -
  let ?D = "\<lambda>(k, v :: rocks_value option). family k = [1]"
  have "emits (rk_db s) ?D (for_rows block_rows (\<lambda>(k, v). raw_delete k))"
    unfolding block_rows_def by (rule emits_scan) (auto intro!: emits_intros)
  from atomic_emits [OF this assms(1) assms(3) [unfolded truncate_all_blocks_def]]
  have "map_of (rk_db s') (key_meta ''chain_tip'') = map_of (rk_db s) (key_meta ''chain_tip'')"
    by (cases ok) (fastforce intro: kv.untouched)+
  thus ?thesis using assms(2) by (simp add: get_chain_tip_def raw_get_def)
qed

end
