(* ===== verification/Pool_Locks.thy ===== *)
theory Pool_Locks
  imports Prelude
begin

text \<open>
  The token economy: \<open>runtime/tokenomics.py\<close> (the allocation of the supply and the balances of the genesis block)
  and \<open>runtime/pool_locks.py\<close> (what the system pools may spend). The state of the locks is the one JSON value the
  manager keeps in the meta table; \<open>_save\<close> is the state returned. Display texts are left out, messages are reason
  codes.
\<close>

section \<open>Allocation of the supply\<close>

definition max_supply_abs :: int where
  "max_supply_abs = 221000000"

text \<open>\<open>round(x, 6)\<close> of a double: the decimal of six places next to its exact value, read back as a double.\<close>

definition round6 :: "pyfloat \<Rightarrow> pyfloat" where
  "round6 x = f64 (of_int (rne (x * 10 ^ 6)) / 10 ^ 6)"

definition founder_percent :: pyfloat where
  "founder_percent = f64 (174 / 10)"

definition founder_amount_abs :: pyfloat where
  "founder_amount_abs = round6 (fdiv (fmul (float_of_int max_supply_abs) founder_percent) (float_of_int 100))"

definition default_founder_address :: string where
  "default_founder_address = ''0xbeb0962327d6f0ad8de263bd883bb184e88744a2''"

definition staking_address :: string where
  "staking_address = ''0xstaking0000000000000000000000000000001''"

record allocation_pool =
  ap_id :: string
  ap_percent :: pyfloat
  ap_amount :: pyfloat
  ap_address :: string
  ap_locked :: bool
  ap_release :: string

definition build_allocations :: "string option \<Rightarrow> allocation_pool list" where
  "build_allocations founder =
     (let addr = (case founder of None \<Rightarrow> default_founder_address | Some a \<Rightarrow> if a = [] then default_founder_address else a);
          share = (\<lambda>x. fmul (float_of_int max_supply_abs) (f64 x))
      in [\<lparr>ap_id = ''founder'', ap_percent = founder_percent, ap_amount = founder_amount_abs, ap_address = addr,
           ap_locked = False, ap_release = ''genesis''\<rparr>,
          \<lparr>ap_id = ''ecosystem'', ap_percent = f64 10, ap_amount = share (10 / 100),
           ap_address = ''0xecosystem000000000000000000000000000001'', ap_locked = True, ap_release = ''genesis''\<rparr>,
          \<lparr>ap_id = ''treasury'', ap_percent = f64 10, ap_amount = share (10 / 100),
           ap_address = ''0xtreasury00000000000000000000000000001'', ap_locked = True, ap_release = ''genesis''\<rparr>,
          \<lparr>ap_id = ''staking'', ap_percent = f64 (126 / 10), ap_amount = share (126 / 1000),
           ap_address = staking_address, ap_locked = True, ap_release = ''staking''\<rparr>,
          \<lparr>ap_id = ''mining'', ap_percent = f64 50, ap_amount = share (50 / 100),
           ap_address = ''mining_pool'', ap_locked = False, ap_release = ''mining''\<rparr>])"

definition truncate_float :: "pyfloat \<Rightarrow> int" where
  "truncate_float x = (if 0 \<le> x then \<lfloor>x\<rfloor> else - \<lfloor>- x\<rfloor>)"

definition genesis_balances :: "string option \<Rightarrow> (string, int) dict" where
  "genesis_balances founder =
     fold (\<lambda>p d. if ap_release p = ''genesis'' then dict_set (ap_address p) (truncate_float (ap_amount p)) d else d)
       (build_allocations founder) []"

definition resolve_founder_address :: "string \<Rightarrow> string \<Rightarrow> string" where
  "resolve_founder_address founder miner =
     (if founder \<noteq> [] then founder else if miner \<noteq> [] then miner else default_founder_address)"

definition founder_balance_lookup :: "(string \<Rightarrow> pyfloat) option \<Rightarrow> string \<Rightarrow> string \<Rightarrow> string \<times> pyfloat \<times> string" where
  "founder_balance_lookup db founder miner =
     (let addr = resolve_founder_address founder miner;
          bal = (case db of None \<Rightarrow> 0 | Some f \<Rightarrow> f addr)
      in case db of
           Some f \<Rightarrow>
             if bal \<le> 0 \<and> miner \<noteq> [] \<and> py_lower miner \<noteq> py_lower addr \<and> 0 < f miner
             then (addr, f miner, miner) else (addr, bal, addr)
         | None \<Rightarrow> (addr, bal, addr))"

section \<open>The locks\<close>

record pool_info =
  pi_id :: string
  pi_locked :: bool
  pi_total :: pyfloat
  pi_released :: pyfloat
  pi_spent :: pyfloat
  pi_dao_unlocked :: bool
  pi_dao_votes :: "(string, bool) dict"

record pool_state =
  ps_pools :: "(string, pool_info) dict"
  ps_staking_epochs :: int
  ps_last_epoch :: int

definition staking_release_epochs :: int where
  "staking_release_epochs = 100"

definition dao_vote_threshold :: pyfloat where
  "dao_vote_threshold = f64 (51 / 100)"

definition new_pool_state :: "string \<Rightarrow> pool_state" where
  "new_pool_state founder =
     \<lparr>ps_pools = fold (\<lambda>p d. dict_set (ap_address p)
         \<lparr>pi_id = ap_id p, pi_locked = ap_locked p, pi_total = ap_amount p, pi_released = 0, pi_spent = 0,
          pi_dao_unlocked = False, pi_dao_votes = []\<rparr> d)
         (filter (\<lambda>p. ap_id p \<in> {''ecosystem'', ''treasury'', ''staking''}) (build_allocations (Some founder))) [],
      ps_staking_epochs = 0, ps_last_epoch = -1\<rparr>"

definition ensure_state :: "string \<Rightarrow> pool_state option \<Rightarrow> pool_state" where
  "ensure_state founder st = (case st of Some s \<Rightarrow> s | None \<Rightarrow> new_pool_state founder)"

definition is_system_pool :: "pool_state \<Rightarrow> string \<Rightarrow> bool" where
  "is_system_pool s a \<longleftrightarrow> a \<in> set (dict_keys (ps_pools s))"

definition spendable_balance :: "pool_state \<Rightarrow> string \<Rightarrow> pyfloat \<Rightarrow> pyfloat" where
  "spendable_balance s a db_balance =
     (case map_of (ps_pools s) a of
        None \<Rightarrow> db_balance
      | Some i \<Rightarrow>
          if pi_id i = ''staking'' then max 0 (fsub (pi_released i) (pi_spent i))
          else if pi_id i = ''ecosystem'' \<or> pi_id i = ''treasury''
          then (if \<not> pi_dao_unlocked i then 0 else max 0 (fsub (pi_total i) (pi_spent i)))
          else db_balance)"

text \<open>\<open>None\<close>: allowed; otherwise the reason.\<close>

definition is_outgoing_allowed :: "pool_state \<Rightarrow> string \<Rightarrow> pyfloat \<Rightarrow> pyfloat \<Rightarrow> string option" where
  "is_outgoing_allowed s a amount db_balance =
     (case map_of (ps_pools s) a of
        None \<Rightarrow> None
      | Some i \<Rightarrow>
          if fadd (spendable_balance s a db_balance) (f64 (1 / 10 ^ 9)) < amount
          then Some (if (pi_id i = ''ecosystem'' \<or> pi_id i = ''treasury'') \<and> \<not> pi_dao_unlocked i then pi_id i @ ''_dao_locked''
                     else if pi_id i = ''staking'' then ''staking_locked'' else ''pool_locked'')
          else None)"

definition record_outgoing :: "string \<Rightarrow> pyfloat \<Rightarrow> pool_state \<Rightarrow> pool_state" where
  "record_outgoing a amount s =
     s\<lparr>ps_pools := dict_modify a (\<lambda>i. i\<lparr>pi_spent := fadd (pi_spent i) amount\<rparr>) (ps_pools s)\<rparr>"

text \<open>The second component is the amount released now.\<close>

definition on_epoch_boundary :: "int \<Rightarrow> pool_state \<Rightarrow> pool_state \<times> pyfloat" where
  "on_epoch_boundary epoch s =
     (if epoch \<le> ps_last_epoch s then (s, 0)
      else case map_of (ps_pools s) staking_address of
          None \<Rightarrow> (s\<lparr>ps_last_epoch := epoch\<rparr>, 0)
        | Some i \<Rightarrow>
            if ps_staking_epochs s < staking_release_epochs
            then (let per_epoch = fdiv (pi_total i) (float_of_int staking_release_epochs);
                      new_released = min (pi_total i) (fadd (pi_released i) per_epoch)
                  in (s\<lparr>ps_pools := dict_set staking_address (i\<lparr>pi_released := new_released\<rparr>) (ps_pools s),
                        ps_staking_epochs := ps_staking_epochs s + 1, ps_last_epoch := epoch\<rparr>,
                      fsub new_released (pi_released i)))
            else (s\<lparr>ps_last_epoch := epoch\<rparr>, 0))"

definition catch_up_epochs :: "int \<Rightarrow> pool_state \<Rightarrow> pool_state \<times> pyfloat" where
  "catch_up_epochs now s =
     fold (\<lambda>ep (t, tot). case on_epoch_boundary ep t of (u, d) \<Rightarrow> (u, fadd tot d)) [0 .. max 0 now] (s, 0)"

text \<open>The votes for the unlocking of a pool; the registry is the list of its validators, if there is one.\<close>

datatype dao_result = DaoRefused string | DaoVoted nat nat bool

definition resolve_voter :: "string list \<Rightarrow> string \<Rightarrow> string option" where
  "resolve_voter validators v =
     (if v \<in> set validators then Some v else find (\<lambda>a. py_lower a = py_lower v) validators)"

definition dao_vote :: "string \<Rightarrow> string \<Rightarrow> string list option \<Rightarrow> pool_state \<Rightarrow> pool_state \<times> dao_result" where
  "dao_vote pool_id voter registry s =
     (if pool_id \<noteq> ''ecosystem'' \<and> pool_id \<noteq> ''treasury'' then (s, DaoRefused ''invalid_pool'')
      else case (case registry of None \<Rightarrow> Some voter | Some vs \<Rightarrow> resolve_voter vs voter) of
          None \<Rightarrow> (s, DaoRefused ''not_a_validator'')
        | Some v \<Rightarrow>
            (case find (\<lambda>(a, i). pi_id i = pool_id) (ps_pools s) of
               None \<Rightarrow> (s, DaoRefused ''pool_not_found'')
             | Some (a, i) \<Rightarrow>
                 (let votes = dict_set v True (pi_dao_votes i);
                      n = (case registry of None \<Rightarrow> 1 | Some vs \<Rightarrow> max 1 (length vs));
                      quorum = (dao_vote_threshold \<le> fdiv (of_nat (length votes)) (of_nat n));
                      j = i\<lparr>pi_dao_votes := votes\<rparr>;
                      k = (if quorum then j\<lparr>pi_dao_unlocked := True, pi_locked := False\<rparr> else j)
                  in (s\<lparr>ps_pools := dict_set a k (ps_pools s)\<rparr>, DaoVoted (length votes) n quorum))))"

record pool_status =
  pst_address :: string
  pst_spendable :: pyfloat
  pst_locked :: bool

definition pool_get_status :: "pool_state \<Rightarrow> pool_status list" where
  "pool_get_status s =
     map (\<lambda>(a, i). let sp = spendable_balance s a (pi_total i)
        in \<lparr>pst_address = a, pst_spendable = sp, pst_locked = (pi_locked i \<and> sp \<le> 0)\<rparr>) (ps_pools s)"

end
