(* ===== verification/Float_Repr.thy ===== *)
theory Float_Repr
  imports Numeric
begin

text \<open>
  \<open>repr\<close> of a Python float, which \<open>Decimal(str(x))\<close> reads: the shortest decimal that rounds to the double, and of
  these the one next to it. What the components need of it is one fact: a decimal of at most 15 digits survives the
  way through a double (\<open>repr_f64\<close>), so that amounts below \<open>10 ^ 15\<close> satoshi are exact wherever the code takes them
  out of the integers and back.
\<close>

section \<open>The shortest decimal\<close>

definition decimal_below :: "nat \<Rightarrow> rat \<Rightarrow> rat" where
  "decimal_below n x = of_int \<lfloor>x / 10 powi (magnitude 10 x - int n)\<rfloor> * 10 powi (magnitude 10 x - int n)"

definition decimal_above :: "nat \<Rightarrow> rat \<Rightarrow> rat" where
  "decimal_above n x = of_int (\<lfloor>x / 10 powi (magnitude 10 x - int n)\<rfloor> + 1) * 10 powi (magnitude 10 x - int n)"

definition round_trips :: "pyfloat \<Rightarrow> nat \<Rightarrow> bool" where
  "round_trips x n \<longleftrightarrow> f64 (decimal_below n x) = x \<or> f64 (decimal_above n x) = x"

definition repr_pos :: "pyfloat \<Rightarrow> rat" where
  "repr_pos x =
     (case find (round_trips x) [1 ..< 18] of
        None \<Rightarrow> x
      | Some n \<Rightarrow>
          if f64 (decimal_above n x) \<noteq> x then decimal_below n x
          else if f64 (decimal_below n x) \<noteq> x then decimal_above n x
          else if x - decimal_below n x < decimal_above n x - x then decimal_below n x
          else if decimal_above n x - x < x - decimal_below n x then decimal_above n x
          else if even \<lfloor>x / 10 powi (magnitude 10 x - int n)\<rfloor> then decimal_below n x else decimal_above n x)"

definition float_repr :: "pyfloat \<Rightarrow> rat" where
  "float_repr x = (if x = 0 then 0 else if 0 < x then repr_pos x else - repr_pos (- x))"

section \<open>The error of a rounding\<close>

lemma rne_close: "\<bar>of_int (rne y) - y\<bar> \<le> 1 / 2"
proof -
  have "of_int \<lfloor>y\<rfloor> \<le> y" "y < of_int \<lfloor>y\<rfloor> + 1" by linarith+
  thus ?thesis unfolding rne_def Let_def by (auto simp: abs_le_iff)
qed

lemma rne_eqI: "\<bar>y - of_int m\<bar> < 1 / 2 \<Longrightarrow> rne y = m"
proof -
  assume "\<bar>y - of_int m\<bar> < 1 / 2"
  with rne_close [of y] have "\<bar>of_int (rne y) - (of_int m :: rat)\<bar> < 1" by linarith
  hence "\<bar>rne y - m\<bar> < 1" by (metis of_int_abs of_int_diff of_int_less_1_iff)
  thus ?thesis by simp
qed

text \<open>The value of a rounding, from an estimate.\<close>

lemma f64_by:
  assumes "0 < q" "2 powi (k - 1) \<le> q" "q < 2 powi k" "\<bar>q / 2 powi (k - 53) - of_int m\<bar> < 1 / 2"
  shows "f64 q = of_int m * 2 powi (k - 53)"
proof -
  have "magnitude 2 q = k" using assms by (intro magnitude_unique) simp_all
  moreover have "rne (q / 2 powi (k - 53)) = m" using assms(4) by (rule rne_eqI)
  ultimately show ?thesis using assms(1) by (simp add: f64_def rnd_def rnd_pos_def Let_def)
qed

lemma f64_error:
  assumes "0 < q"
  shows "\<bar>f64 q - q\<bar> \<le> q / 2 ^ 53"
proof -
  define p :: rat where "p = 2 powi (magnitude 2 q - 53)"
  have p: "0 < p" by (simp add: p_def zero_less_power_int)
  have "f64 q = of_int (rne (q / p)) * p" using assms by (simp add: f64_def rnd_def rnd_pos_def p_def Let_def)
  hence "f64 q - q = (of_int (rne (q / p)) - q / p) * p" using p by (simp add: left_diff_distrib)
  hence "\<bar>f64 q - q\<bar> = \<bar>of_int (rne (q / p)) - q / p\<bar> * p" using p by (simp add: abs_mult)
  also have "\<dots> \<le> 1 / 2 * p" using p rne_close by (intro mult_right_mono) auto
  also have "1 / 2 * p = 2 powi (magnitude 2 q - 1) / 2 ^ 53"
  proof -
    have "(2::rat) powi (magnitude 2 q - 1 - int 53) * 2 ^ 53 = 2 powi (magnitude 2 q - 1)" by (rule powi_split) simp
    moreover have "p = 2 powi (magnitude 2 q - 1 - int 53) * 2 powi 1"
      unfolding p_def by (subst power_int_add [symmetric]) (simp_all add: algebra_simps)
    ultimately show ?thesis by (simp add: field_simps)
  qed
  also have "\<dots> \<le> q / 2 ^ 53" using magnitude_bounds(1) [of 2 q] assms by (simp add: divide_right_mono)
  finally show ?thesis .
qed

lemma f64_pos: "0 < q \<Longrightarrow> 0 < f64 q"
  using rnd_pos_pos [of 2 53 q] by (simp add: f64_def rnd_def)

section \<open>Short decimals survive\<close>

lemma powi_shift: "i \<le> j \<Longrightarrow> (10::rat) powi j = 10 ^ nat (j - i) * 10 powi i"
  using power_int_add [of "10::rat" "int (nat (j - i))" i] by (simp only: powi_of_nat) simp

lemma short_decimal_inj_le:
  assumes c: "c = of_int k * 10 powi i" "0 < k" "k \<le> 10 ^ 15" and d: "d = of_int l * 10 powi j" "0 < l" "l \<le> 10 ^ 15"
    and "i \<le> j" "f64 c = f64 d"
  shows "c = d"
proof (rule ccontr)
  assume ne: "c \<noteq> d"
  define u :: rat where "u = 10 powi i"
  have u: "0 < u" by (simp add: u_def zero_less_power_int)
  have "d = of_int (l * 10 ^ nat (j - i)) * u"
  proof -
    have "(10::rat) powi j = 10 ^ nat (j - i) * u" unfolding u_def using assms(7) by (rule powi_shift)
    thus ?thesis using d(1) by simp
  qed
  then obtain n where n: "d = of_int n * u" by blast
  have cu: "c = of_int k * u" using c(1) by (simp add: u_def)
  have pos: "0 < c" "0 < d" using c d u by (simp_all add: cu zero_less_power_int)
  have "k \<noteq> n" using ne cu n by auto
  hence "1 \<le> \<bar>of_int k - (of_int n :: rat)\<bar>" by (metis abs_of_nonneg int_one_le_iff_zero_less of_int_1_le_iff of_int_abs of_int_diff zero_less_abs_iff right_minus_eq)
  hence far: "u \<le> \<bar>c - d\<bar>" using u unfolding cu n left_diff_distrib [symmetric] abs_mult by simp
  have "\<bar>f64 c - c\<bar> \<le> c / 2 ^ 53" "\<bar>f64 c - d\<bar> \<le> d / 2 ^ 53"
    using f64_error [OF pos(1)] f64_error [OF pos(2)] assms(8) by simp_all
  hence err: "d - c \<le> c / 2 ^ 53 + d / 2 ^ 53" "c - d \<le> c / 2 ^ 53 + d / 2 ^ 53" by linarith+
  have cle: "c \<le> 10 ^ 15 * u" using c(3) u unfolding cu by (intro mult_right_mono) (metis of_int_le_iff of_int_power of_int_numeral, simp)
  have "d \<le> 2 * c" using err pos by (simp add: field_simps)
  hence "c / 2 ^ 53 + d / 2 ^ 53 \<le> 3 * c / 2 ^ 53" by (simp add: field_simps)
  hence "\<bar>c - d\<bar> \<le> 3 * c / 2 ^ 53" using err by linarith
  also have "\<dots> < u" using cle u by (simp add: field_simps)
  finally show False using far by simp
qed

lemma short_decimal_inj:
  assumes "c = of_int k * 10 powi i" "0 < k" "k \<le> 10 ^ 15" "d = of_int l * 10 powi j" "0 < l" "l \<le> 10 ^ 15"
    and "f64 c = f64 d"
  shows "c = d"
  using short_decimal_inj_le [of c k i d l j] short_decimal_inj_le [of d l j c k i] assms
  by (metis linear)

lemma short_decimal_neighbour:
  assumes d: "d = of_int m * 10 powi j" "0 < m" "m < 10 ^ 15"
  shows "decimal_below 15 (f64 d) = d \<or> decimal_above 15 (f64 d) = d"
proof -
  define x where "x = f64 d"
  define e where "e = magnitude 10 x"
  define u :: rat where "u = 10 powi (e - 15)"
  have u: "0 < u" by (simp add: u_def zero_less_power_int)
  have d0: "0 < d" using d by (simp add: zero_less_power_int)
  have x0: "0 < x" unfolding x_def using d0 by (rule f64_pos)
  have "\<bar>x - d\<bar> \<le> d / 2 ^ 53" unfolding x_def using d0 by (rule f64_error)
  hence err: "x - d \<le> d / 2 ^ 53" "d - x \<le> d / 2 ^ 53" by linarith+
  have mag: "10 powi (e - 1) \<le> x" "x < 10 powi e" using magnitude_bounds [of 10 x] x0 by (simp_all add: e_def)
  have eu: "10 powi e = 10 ^ 15 * u" unfolding u_def using powi_split [of "10::rat" e 15] by (simp add: mult.commute)
  have j: "e - 15 \<le> j"
  proof (rule ccontr)
    assume "\<not> e - 15 \<le> j"
    hence "15 + j \<le> e - 1" by simp
    hence "(10::rat) powi (15 + j) \<le> 10 powi (e - 1)" by (intro power_int_increasing) simp_all
    moreover have "(10::rat) powi (15 + j) = 10 ^ 15 * 10 powi j"
      using power_int_add [of "10::rat" 15 j] by simp
    ultimately have "10 ^ 15 * 10 powi j \<le> x" using mag(1) by linarith
    moreover have "x \<le> d * (1 + 1 / 2 ^ 53)" using err by (simp add: field_simps)
    moreover have "d \<le> (10 ^ 15 - 1) * 10 powi j"
    proof -
      have "(of_int m :: rat) \<le> of_int (10 ^ 15 - 1)" using d(3) by (simp only: of_int_le_iff)
      thus ?thesis unfolding d(1) by (intro mult_right_mono) (simp_all add: zero_le_power_int)
    qed
    moreover have "0 < (10::rat) powi j" by (simp add: zero_less_power_int)
    ultimately show False by (simp add: field_simps)
  qed
  have "(10::rat) powi j = 10 ^ nat (j - (e - 15)) * u"
    unfolding u_def using j by (rule powi_shift)
  hence "d = of_int (m * 10 ^ nat (j - (e - 15))) * u" using d(1) by simp
  then obtain n where n: "d = of_int n * u" by blast
  have "d \<le> 2 * x" using err d0 by (simp add: field_simps)
  hence "\<bar>x - d\<bar> < u" using err mag(2) eu by (simp add: abs_less_iff field_simps)
  hence "\<bar>x / u - of_int n\<bar> < 1" using u unfolding n by (simp add: abs_less_iff field_simps)
  hence "n = \<lfloor>x / u\<rfloor> \<or> n = \<lfloor>x / u\<rfloor> + 1" by linarith
  thus ?thesis
    unfolding decimal_below_def decimal_above_def x_def [symmetric] e_def [symmetric]
    using n by (auto simp: u_def)
qed

lemma candidate_short:
  assumes "0 < x" "n \<le> 15" "1 \<le> n" "c = decimal_below n x \<or> c = decimal_above n x" "0 < c"
  obtains k i where "c = of_int k * 10 powi i" "0 < k" "k \<le> 10 ^ 15"
proof -
  define u :: rat where "u = 10 powi (magnitude 10 x - int n)"
  have u: "0 < u" by (simp add: u_def zero_less_power_int)
  have "x < 10 powi magnitude 10 x" using magnitude_bounds(2) [of 10 x] assms(1) by simp
  also have "10 powi magnitude 10 x = 10 ^ n * u"
    unfolding u_def using powi_split [of "10::rat" "magnitude 10 x" n] by (simp add: mult.commute)
  finally have "x / u < of_int (10 ^ n)" using u by (simp add: field_simps)
  hence "\<lfloor>x / u\<rfloor> < 10 ^ n" by (simp add: floor_less_iff)
  moreover have "(10::int) ^ n \<le> 10 ^ 15" using assms(2) by (intro power_increasing) simp_all
  ultimately have b: "\<lfloor>x / u\<rfloor> + 1 \<le> 10 ^ 15" by linarith
  from assms(4) obtain k where k: "c = of_int k * u" "k \<le> 10 ^ 15"
  proof
    assume "c = decimal_below n x"
    thus ?thesis using that [of "\<lfloor>x / u\<rfloor>"] b by (simp add: decimal_below_def u_def)
  next
    assume "c = decimal_above n x"
    thus ?thesis using that [of "\<lfloor>x / u\<rfloor> + 1"] b by (simp add: decimal_above_def u_def)
  qed
  have "0 < k" using assms(5) u unfolding k(1) by (simp add: zero_less_mult_iff)
  with k show thesis using that by (simp add: u_def)
qed

theorem repr_f64:
  assumes d: "d = of_int m * 10 powi j" "\<bar>m\<bar> < 10 ^ 15"
  shows "float_repr (f64 d) = d"
proof -
  have pos: "repr_pos (f64 d) = d" if m: "0 < m" "m < 10 ^ 15" "d = of_int m * 10 powi j" for m d
  proof -
    define x where "x = f64 d"
    have d0: "0 < d" using m by (simp add: zero_less_power_int)
    hence x0: "0 < x" unfolding x_def by (rule f64_pos)
    have u: "c = d" if n: "1 \<le> n" "n \<le> 15" "c = decimal_below n x \<or> c = decimal_above n x" and c: "f64 c = x" for c n
    proof -
      have c0: "0 < c"
      proof (rule ccontr)
        assume "\<not> 0 < c"
        hence "f64 c \<le> 0" by (simp add: double.R_nonpos)
        with c x0 show False by simp
      qed
      obtain k i where "c = of_int k * 10 powi i" "0 < k" "k \<le> 10 ^ 15"
        using candidate_short [OF x0 n(2,1,3) c0] by metis
      thus ?thesis using short_decimal_inj [of c k i d m j] m c by (simp add: x_def)
    qed
    have "round_trips x 15"
      using short_decimal_neighbour [of d m j] m unfolding round_trips_def x_def by auto
    hence "find (round_trips x) [1 ..< 18] \<noteq> None" by (auto simp: find_None_iff intro!: exI [of _ 15])
    then obtain n where n: "find (round_trips x) [1 ..< 18] = Some n" by blast
    then obtain i where i: "i < length [1 ..< 18]" "round_trips x ([1 ..< 18] ! i)" "n = [1 ..< 18] ! i"
        "\<forall>k<i. \<not> round_trips x ([1 ..< 18] ! k)"
      unfolding find_Some_iff by blast
    have "i \<le> 14"
    proof (rule ccontr)
      assume "\<not> i \<le> 14"
      hence "\<not> round_trips x ([1 ..< 18] ! 14)" using i(4) by (meson not_le)
      moreover have "[1 ..< 18] ! 14 = (15 :: nat)" by simp
      ultimately show False using \<open>round_trips x 15\<close> by metis
    qed
    hence n15: "1 \<le> n" "n \<le> 15" using i(1,3) by auto
    have "f64 (decimal_below n x) = x \<or> f64 (decimal_above n x) = x" using i(2,3) by (simp add: round_trips_def)
    with u [OF n15] have *: "f64 (decimal_above n x) = x \<longrightarrow> decimal_above n x = d" "f64 (decimal_below n x) = x \<longrightarrow> decimal_below n x = d"
      "f64 (decimal_above n x) \<noteq> x \<longrightarrow> decimal_below n x = d"
      by auto
    show ?thesis unfolding x_def [symmetric] repr_pos_def n using * by auto
  qed
  consider "m = 0" | "0 < m" | "m < 0" by linarith
  thus ?thesis
  proof cases
    case 2
    with pos [of m d] d f64_pos [of d] show ?thesis by (simp add: float_repr_def zero_less_power_int)
  next
    case 3
    have "f64 (- d) = - f64 d" by (simp add: f64_def rnd_uminus)
    moreover have "0 < - d" using 3 d by (simp add: mult_less_0_iff zero_less_power_int)
    ultimately show ?thesis using pos [of "- m" "- d"] 3 d f64_pos [of "- d"] by (auto simp: float_repr_def)
  qed (use d in \<open>simp add: float_repr_def\<close>)
qed

end
