(* ===== verification/Account_Store.thy ===== *)
theory Account_Store
  imports Rocks_Store Pool_Locks Float_Repr
begin

text \<open>
  What the state service asks of its storage (\<open>storage/ports.py\<close>) and the SQL database that answers it
  (\<open>storage/database.py\<close>): the accounts table, the meta row of the pool locks, and the transaction of the one
  connection. A connection has the rows it sees, the rows last committed and whether a transaction is open; a write
  opens one, \<open>commit\<close> and \<open>rollback\<close> close it. \<open>set_meta\<close>, \<open>save_account\<close> and \<open>increment_nonce\<close> commit by
  themselves. The RocksDB store answers the same port, its reads blind to the batch.
\<close>

section \<open>Actions\<close>

text \<open>An operation on a store: the store afterwards and the value returned, or what was raised.\<close>

datatype store_fault = StorageFault | AmountFault amount_error | Raised string

type_synonym ('s, 'a) action = "'s \<Rightarrow> 's \<times> (store_fault, 'a) result"

definition give :: "'a \<Rightarrow> ('s, 'a) action" where
  "give x s = (s, ret x)"

definition throw :: "store_fault \<Rightarrow> ('s, 'a) action" where
  "throw e s = (s, raise e)"

definition andthen :: "('s, 'a) action \<Rightarrow> ('a \<Rightarrow> ('s, 'b) action) \<Rightarrow> ('s, 'b) action" where
  "andthen m f s = (case m s of (t, Inl e) \<Rightarrow> (t, raise e) | (t, Inr x) \<Rightarrow> f x t)"

definition asks :: "('s \<Rightarrow> (store_fault, 'a) result) \<Rightarrow> ('s, 'a) action" where
  "asks f s = (s, f s)"

definition attempt :: "(store_fault, 'a) result \<Rightarrow> ('s, 'a) action" where
  "attempt r s = (s, r)"

fun each :: "('a \<Rightarrow> ('s, 'b) action) \<Rightarrow> 'a list \<Rightarrow> ('s, 'b list) action" where
  "each f [] = give []"
| "each f (x # xs) = andthen (f x) (\<lambda>y. andthen (each f xs) (\<lambda>ys. give (y # ys)))"

definition amount_result :: "(amount_error, 'a) result \<Rightarrow> (store_fault, 'a) result" where
  "amount_result r = (case r of Inl e \<Rightarrow> raise (AmountFault e) | Inr x \<Rightarrow> ret x)"

lemma action_simps [simp]:
  "give x s = (s, Inr x)" "throw e s = (s, Inl e)" "asks f s = (s, f s)" "attempt r s = (s, r)"
  by (simp_all add: give_def throw_def asks_def attempt_def)

lemma andthen_Inr: "m s = (t, Inr x) \<Longrightarrow> andthen m f s = f x t"
  by (simp add: andthen_def)

lemma andthen_Inl: "m s = (t, Inl e) \<Longrightarrow> andthen m f s = (t, Inl e)"
  by (simp add: andthen_def)

lemma andthen_cases:
  assumes "andthen m f s = (u, Inr y)"
  obtains t x where "m s = (t, Inr x)" "f x t = (u, Inr y)"
  using assms by (auto simp: andthen_def split: prod.splits sum.splits)

section \<open>The port\<close>

text \<open>
  The account operations of \<open>StateStorePort\<close>, and the meta value of the pool locks. An account is its code and its
  storage, where it has them; \<open>get_account\<close> is \<open>None\<close> when there is no row.
\<close>

record 's account_port =
  sp_balance :: "string \<Rightarrow> 's \<Rightarrow> (store_fault, int) result"
  sp_nonce :: "string \<Rightarrow> 's \<Rightarrow> (store_fault, int) result"
  sp_account :: "string \<Rightarrow> 's \<Rightarrow> (store_fault, (string option \<times> string option) option) result"
  sp_credit :: "string \<Rightarrow> int \<Rightarrow> ('s, unit) action"
  sp_credit_commit :: "string \<Rightarrow> int \<Rightarrow> ('s, unit) action"
  sp_bump :: "string \<Rightarrow> ('s, unit) action"
  sp_bump_commit :: "string \<Rightarrow> ('s, unit) action"
  sp_save :: "string \<Rightarrow> number \<Rightarrow> int \<Rightarrow> string option \<Rightarrow> string option \<Rightarrow> ('s, unit) action"
  sp_supply :: "'s \<Rightarrow> (store_fault, pyfloat) result"
  sp_pools :: "'s \<Rightarrow> pool_state option"
  sp_set_pools :: "pool_state \<Rightarrow> ('s, unit) action"

text \<open>\<open>Decimal(str(x))\<close> of a float.\<close>

definition str_number :: "pyfloat \<Rightarrow> number" where
  "str_number x = NumValue (float_repr x)"

section \<open>The SQL database\<close>

record sql_account =
  sa_satoshi :: "int option"
  sa_balance :: pyfloat
  sa_nonce :: int
  sa_code :: "string option"
  sa_storage :: "string option"

record sql_tables =
  st_accounts :: "(string, sql_account) dict"
  st_pools :: "pool_state option"

record sql_conn =
  sc_live :: sql_tables
  sc_saved :: sql_tables
  sc_open :: bool

definition sql_write :: "(sql_tables \<Rightarrow> sql_tables) \<Rightarrow> sql_conn \<Rightarrow> sql_conn" where
  "sql_write f c = c\<lparr>sc_live := f (sc_live c), sc_open := True\<rparr>"

definition sql_commit :: "sql_conn \<Rightarrow> sql_conn" where
  "sql_commit c = c\<lparr>sc_saved := sc_live c, sc_open := False\<rparr>"

definition sql_rollback :: "sql_conn \<Rightarrow> sql_conn" where
  "sql_rollback c = (if sc_open c then c\<lparr>sc_live := sc_saved c, sc_open := False\<rparr> else c)"

text \<open>\<open>BEGIN IMMEDIATE\<close> raises inside a transaction.\<close>

definition sql_atomic :: "(sql_conn, 'a) action \<Rightarrow> (sql_conn, 'a) action" where
  "sql_atomic body c =
     (if sc_open c then (c, raise StorageFault)
      else case body (c\<lparr>sc_open := True\<rparr>) of
          (d, Inr x) \<Rightarrow> (sql_commit d, ret x)
        | (d, Inl e) \<Rightarrow> (sql_rollback d, raise e))"

definition sql_row :: "string \<Rightarrow> sql_conn \<Rightarrow> sql_account option" where
  "sql_row a c = map_of (st_accounts (sc_live c)) a"

definition row_number :: "sql_account \<Rightarrow> account_row" where
  "row_number r = \<lparr>ac_satoshi = map_option IntValue (sa_satoshi r), ac_balance = Some (str_number (sa_balance r))\<rparr>"

definition sql_balance :: "native_amount \<Rightarrow> string \<Rightarrow> sql_conn \<Rightarrow> (store_fault, int) result" where
  "sql_balance N a c = amount_result (account_satoshi N (map_option row_number (sql_row a c)))"

definition sql_nonce :: "string \<Rightarrow> sql_conn \<Rightarrow> (store_fault, int) result" where
  "sql_nonce a c = ret (case sql_row a c of None \<Rightarrow> 0 | Some r \<Rightarrow> sa_nonce r)"

definition sql_get_account :: "string \<Rightarrow> sql_conn \<Rightarrow> (store_fault, (string option \<times> string option) option) result" where
  "sql_get_account a c = ret (map_option (\<lambda>r. (sa_code r, sa_storage r)) (sql_row a c))"

text \<open>The balance a change starts from: it is not cut off at zero, as the one that is read is.\<close>

definition current_satoshi :: "native_amount \<Rightarrow> string \<Rightarrow> sql_conn \<Rightarrow> (amount_error, int) result" where
  "current_satoshi N a c =
     (case sql_row a c of
        None \<Rightarrow> ret 0
      | Some r \<Rightarrow> (case sa_satoshi r of Some n \<Rightarrow> ret n | None \<Rightarrow> to_satoshi N (str_number (sa_balance r))))"

text \<open>\<open>INSERT \<dots> ON CONFLICT DO UPDATE\<close> of the two balance columns.\<close>

definition put_balance :: "native_amount \<Rightarrow> string \<Rightarrow> int \<Rightarrow> (sql_conn, unit) action" where
  "put_balance N a n c =
     (case from_satoshi_float N n of
        Inl e \<Rightarrow> (c, raise (AmountFault e))
      | Inr x \<Rightarrow>
          (sql_write (\<lambda>t. t\<lparr>st_accounts := dict_set a
             (case map_of (st_accounts t) a of
                None \<Rightarrow> \<lparr>sa_satoshi = Some n, sa_balance = x, sa_nonce = 0, sa_code = None, sa_storage = None\<rparr>
              | Some r \<Rightarrow> r\<lparr>sa_satoshi := Some n, sa_balance := x\<rparr>) (st_accounts t)\<rparr>) c, ret ()))"

definition sql_credit :: "native_amount \<Rightarrow> string \<Rightarrow> int \<Rightarrow> (sql_conn, unit) action" where
  "sql_credit N a d c =
     (case current_satoshi N a c of
        Inl e \<Rightarrow> (c, raise (AmountFault e))
      | Inr n \<Rightarrow> put_balance N a (apply_satoshi_delta n d) c)"

definition sql_apply_balance_delta :: "native_amount \<Rightarrow> string \<Rightarrow> number \<Rightarrow> (sql_conn, unit) action" where
  "sql_apply_balance_delta N a d c =
     (case current_satoshi N a c of
        Inl e \<Rightarrow> (c, raise (AmountFault e))
      | Inr n \<Rightarrow>
          (case apply_delta_satoshi N n d of
             Inl e \<Rightarrow> (c, raise (AmountFault e))
           | Inr m \<Rightarrow> put_balance N a m c))"

definition sql_bump :: "string \<Rightarrow> (sql_conn, unit) action" where
  "sql_bump a c =
     (sql_write (\<lambda>t. t\<lparr>st_accounts := dict_set a
        (case map_of (st_accounts t) a of
           None \<Rightarrow> \<lparr>sa_satoshi = Some 0, sa_balance = 0, sa_nonce = 1, sa_code = None, sa_storage = None\<rparr>
         | Some r \<Rightarrow> r\<lparr>sa_nonce := sa_nonce r + 1\<rparr>) (st_accounts t)\<rparr>) c, ret ())"

definition committing :: "(sql_conn, 'a) action \<Rightarrow> (sql_conn, 'a) action" where
  "committing f c = (case f c of (d, Inl e) \<Rightarrow> (d, raise e) | (d, Inr x) \<Rightarrow> (sql_commit d, ret x))"

definition sql_update_balance :: "native_amount \<Rightarrow> string \<Rightarrow> number \<Rightarrow> (sql_conn, unit) action" where
  "sql_update_balance N a d = committing (sql_apply_balance_delta N a d)"

definition sql_set_balance :: "native_amount \<Rightarrow> string \<Rightarrow> number \<Rightarrow> (sql_conn, unit) action" where
  "sql_set_balance N a x =
     committing (\<lambda>c. case to_satoshi N x of Inl e \<Rightarrow> (c, raise (AmountFault e)) | Inr n \<Rightarrow> put_balance N a (max 0 n) c)"

definition sql_bump_commit :: "string \<Rightarrow> (sql_conn, unit) action" where
  "sql_bump_commit a = committing (sql_bump a)"

definition put_row :: "string \<Rightarrow> sql_account \<Rightarrow> (sql_conn, unit) action" where
  "put_row a r c = (sql_write (\<lambda>t. t\<lparr>st_accounts := dict_set a r (st_accounts t)\<rparr>) c, ret ())"

definition sql_save :: "native_amount \<Rightarrow> string \<Rightarrow> number \<Rightarrow> int \<Rightarrow> string option \<Rightarrow> string option \<Rightarrow> (sql_conn, unit) action" where
  "sql_save N a x nonce code storage =
     committing (\<lambda>c.
       case dual_write_balance N x of
         Inl e \<Rightarrow> (c, raise (AmountFault e))
       | Inr (n, f) \<Rightarrow> put_row a \<lparr>sa_satoshi = Some n, sa_balance = f, sa_nonce = nonce, sa_code = code, sa_storage = storage\<rparr> c)"

definition sql_reset_accounts_locked :: "native_amount \<Rightarrow> (string, number) dict \<Rightarrow> (sql_conn, unit) action" where
  "sql_reset_accounts_locked N alloc =
     andthen (\<lambda>c. (sql_write (\<lambda>t. t\<lparr>st_accounts := []\<rparr>) c, ret ())) (\<lambda>u.
       andthen (each (\<lambda>(a, x) c.
           case dual_write_balance N x of
             Inl e \<Rightarrow> (c, raise (AmountFault e))
           | Inr (n, f) \<Rightarrow> put_row a \<lparr>sa_satoshi = Some n, sa_balance = f, sa_nonce = 0, sa_code = None, sa_storage = None\<rparr> c) alloc)
         (\<lambda>v. give ()))"

definition sql_reset_accounts :: "native_amount \<Rightarrow> (string, number) dict \<Rightarrow> (sql_conn, unit) action" where
  "sql_reset_accounts N alloc = sql_atomic (sql_reset_accounts_locked N alloc)"

text \<open>The sum over the table; \<open>ROUND\<close> goes away from zero.\<close>

definition round_half_away :: "rat \<Rightarrow> int" where
  "round_half_away x = (if 0 \<le> x then \<lfloor>x + 1 / 2\<rfloor> else - \<lfloor>- x + 1 / 2\<rfloor>)"

definition row_satoshi :: "sql_account \<Rightarrow> int" where
  "row_satoshi r = (case sa_satoshi r of Some n \<Rightarrow> n | None \<Rightarrow> round_half_away (fmul (sa_balance r) 1000000))"

definition sql_supply :: "native_amount \<Rightarrow> sql_conn \<Rightarrow> (store_fault, pyfloat) result" where
  "sql_supply N c = amount_result (from_satoshi_float N (sum_list (map row_satoshi (dict_values (st_accounts (sc_live c))))))"

definition sql_set_pools :: "pool_state \<Rightarrow> (sql_conn, unit) action" where
  "sql_set_pools p = committing (\<lambda>c. (sql_write (\<lambda>t. t\<lparr>st_pools := Some p\<rparr>) c, ret ()))"

definition sql_port :: "native_amount \<Rightarrow> sql_conn account_port" where
  "sql_port N = \<lparr>sp_balance = sql_balance N, sp_nonce = sql_nonce, sp_account = sql_get_account, sp_credit = sql_credit N, sp_credit_commit = (\<lambda>a d. committing (sql_credit N a d)),
     sp_bump = sql_bump, sp_bump_commit = sql_bump_commit, sp_save = sql_save N, sp_supply = sql_supply N,
     sp_pools = (\<lambda>c. st_pools (sc_live c)), sp_set_pools = sql_set_pools\<rparr>"

section \<open>The RocksDB store\<close>

text \<open>The JSON text of the pool locks is made and read by \<open>json\<close>, two functions of the port.\<close>

definition of_rocks :: "rocks_op \<Rightarrow> (rocks, unit) action" where
  "of_rocks f s = (case f s of (t, ok) \<Rightarrow> (t, if ok then ret () else raise StorageFault))"

definition of_option :: "'a option \<Rightarrow> (store_fault, 'a) result" where
  "of_option x = (case x of None \<Rightarrow> raise StorageFault | Some y \<Rightarrow> ret y)"

definition rocks_get_account :: "string \<Rightarrow> rocks \<Rightarrow> (store_fault, (string option \<times> string option) option) result" where
  "rocks_get_account a s =
     (case raw_get (key_account a) s of
        None \<Rightarrow> ret None
      | Some (VAccount r) \<Rightarrow> ret (Some (ka_code r, ka_storage r))
      | _ \<Rightarrow> raise StorageFault)"

definition rocks_supply :: "native_amount \<Rightarrow> rocks \<Rightarrow> (store_fault, pyfloat) result" where
  "rocks_supply N s =
     (let rows = List.map_filter (\<lambda>(k, v). case v of VAccount r \<Rightarrow> Some (max 0 (ka_satoshi r)) | _ \<Rightarrow> None) (scan_prefix [0x10] s);
          xs = map (from_satoshi_float N) rows
      in if list_ex (\<lambda>x. case x of Inl e \<Rightarrow> True | Inr y \<Rightarrow> False) xs then raise (AmountFault AmountRuntime)
         else ret (py_sum (List.map_filter (\<lambda>x. case x of Inl e \<Rightarrow> None | Inr y \<Rightarrow> Some y) xs)))"

definition rocks_port :: "native_amount \<Rightarrow> (pool_state \<Rightarrow> string) \<Rightarrow> (string \<Rightarrow> pool_state option) \<Rightarrow> rocks account_port" where
  "rocks_port N enc dec = \<lparr>sp_balance = (\<lambda>a s. of_option (get_balance_satoshi a s)), sp_nonce = (\<lambda>a s. of_option (get_nonce a s)),
     sp_account = rocks_get_account, sp_credit = (\<lambda>a d. of_rocks (balance_delta_satoshi a d)),
     sp_credit_commit = (\<lambda>a d. of_rocks (balance_delta_satoshi a d)), sp_bump = (\<lambda>a. of_rocks (increment_nonce a)),
     sp_bump_commit = (\<lambda>a. of_rocks (increment_nonce a)), sp_save = (\<lambda>a x n c t. of_rocks (save_account N a x n c t)),
     sp_supply = rocks_supply N,
     sp_pools = (\<lambda>s. case raw_get (key_meta ''pool_locks_state'') s of Some (VText t) \<Rightarrow> dec t | _ \<Rightarrow> None),
     sp_set_pools = (\<lambda>p. of_rocks (raw_put (key_meta ''pool_locks_state'') (VText (enc p))))\<rparr>"

end
