(* ===== verification/Evm_Bytecode.thy ===== *)
theory Evm_Bytecode
  imports Key_Codec
begin

text \<open>
  \<open>execution/evm_bytecode_validator.py\<close> with the opcode scan of \<open>crypto/native.py\<close>: the static check of a contract
  before it is deployed. The scan walks from instruction to instruction, over the immediate bytes of a \<open>PUSH\<close>; it is
  compared with the inductive definition of where an instruction starts.
\<close>

section \<open>Opcodes\<close>

definition single_opcodes :: "int list" where
  "single_opcodes = [0x00 .. 0x0B] @ [0x10 .. 0x1D] @ [0x20] @ [0x30 .. 0x3A] @ [0x3B .. 0x48] @ [0x49, 0x4A] @
     [0x50 .. 0x5B] @ [0x5C .. 0x5F] @ [0xA0 .. 0xA4] @ [0xF0 .. 0xF5] @ [0xFA, 0xFD, 0xFE, 0xFF]"

definition is_supported_opcode :: "8 word \<Rightarrow> bool" where
  "is_supported_opcode w =
     (let op = uint w in
      (0x60 \<le> op \<and> op \<le> 0x7F) \<or> (0x80 \<le> op \<and> op \<le> 0x8F) \<or> (0x90 \<le> op \<and> op \<le> 0x9F) \<or> (0xA0 \<le> op \<and> op \<le> 0xA4) \<or>
      op \<in> set single_opcodes)"

definition immediate_length :: "8 word \<Rightarrow> nat" where
  "immediate_length w = (let op = uint w in if 0x60 \<le> op \<and> op \<le> 0x7F then nat (op - 0x5F) else 0)"

definition decimal_string :: "int \<Rightarrow> string" where
  "decimal_string n =
     (if n < 10 then [char_of (48 + nat n)] else [char_of (48 + nat (n div 10)), char_of (48 + nat (n mod 10))])"

definition upper_hex :: "int \<Rightarrow> char" where
  "upper_hex n = char_of (if n < 10 then 48 + nat n else 55 + nat n)"

definition opcode_names :: "(int \<times> string) list" where
  "opcode_names =
     [(0x00, ''STOP''), (0x01, ''ADD''), (0x02, ''MUL''), (0x03, ''SUB''), (0x04, ''DIV''), (0x05, ''SDIV''), (0x06, ''MOD''),
      (0x07, ''SMOD''), (0x08, ''ADDMOD''), (0x09, ''MULMOD''), (0x0A, ''EXP''), (0x0B, ''SIGNEXTEND''), (0xF1, ''CALL''),
      (0xF3, ''RETURN''), (0xFD, ''REVERT''), (0xF0, ''CREATE''), (0xF4, ''DELEGATECALL''), (0xFA, ''STATICCALL''),
      (0x3B, ''EXTCODESIZE''), (0x3C, ''EXTCODECOPY''), (0x40, ''BLOCKHASH''), (0x42, ''TIMESTAMP''), (0x43, ''NUMBER''),
      (0x45, ''GASLIMIT''), (0x46, ''CHAINID''), (0xA0, ''LOG0''), (0xA1, ''LOG1''), (0xA2, ''LOG2''), (0xA3, ''LOG3''),
      (0xA4, ''LOG4''), (0xFF, ''SELFDESTRUCT''), (0xF2, ''CALLCODE'')]"

definition opcode_name :: "8 word \<Rightarrow> string" where
  "opcode_name w =
     (let op = uint w in
      if 0x60 \<le> op \<and> op \<le> 0x7F then ''PUSH'' @ decimal_string (op - 0x5F)
      else if 0x80 \<le> op \<and> op \<le> 0x8F then ''DUP'' @ decimal_string (op - 0x7F)
      else if 0x90 \<le> op \<and> op \<le> 0x9F then ''SWAP'' @ decimal_string (op - 0x8F)
      else case map_of opcode_names op of
          Some n \<Rightarrow> n
        | None \<Rightarrow> ''0x'' @ [upper_hex (op div 16), upper_hex (op mod 16)])"

section \<open>The scan\<close>

text \<open>The unsupported opcodes with their positions; the list is what is left of the code from position \<open>pc\<close>.\<close>

function evm_scan :: "nat \<Rightarrow> bytes \<Rightarrow> (nat \<times> 8 word) list" where
  "evm_scan pc [] = []"
| "evm_scan pc (op # rest) =
     (if is_supported_opcode op then [] else [(pc, op)]) @
     evm_scan (pc + 1 + immediate_length op) (drop (immediate_length op) rest)"
  by pat_completeness auto
termination by (relation "measure (\<lambda>(pc, code). length code)") auto

record bytecode_issue =
  bi_pc :: nat
  bi_opcode :: "8 word"
  bi_name :: string

definition scan_bytecode :: "bytes \<Rightarrow> bool \<times> bytecode_issue list" where
  "scan_bytecode code =
     (let issues = map (\<lambda>(pc, op). \<lparr>bi_pc = pc, bi_opcode = op, bi_name = opcode_name op\<rparr>) (evm_scan 0 code)
      in (issues = [], issues))"

text \<open>The hexadecimal text; \<open>None\<close> is a \<open>ValueError\<close>.\<close>

definition parse_bytecode :: "string \<Rightarrow> bytes option" where
  "parse_bytecode raw =
     (let s = py_strip raw;
          body = (if take 2 s = ''0x'' \<or> take 2 s = ''0X'' then drop 2 s else s);
          t = filter (\<lambda>c. c \<noteq> CHR '' '') body
      in if t = [] then Some [] else if odd (length t) then None else from_hex t)"

record bytecode_verdict =
  bv_valid :: bool
  bv_error :: "string option"
  bv_size :: nat
  bv_unsupported :: "bytecode_issue list"

definition refused_code :: "string \<Rightarrow> nat \<Rightarrow> bytecode_verdict" where
  "refused_code e n = \<lparr>bv_valid = False, bv_error = Some e, bv_size = n, bv_unsupported = []\<rparr>"

definition validate_bytecode_hex :: "string \<Rightarrow> bytecode_verdict" where
  "validate_bytecode_hex raw =
     (case parse_bytecode raw of
        None \<Rightarrow> refused_code ''invalid_hex'' 0
      | Some [] \<Rightarrow> refused_code ''empty_bytecode'' 0
      | Some (b # bs) \<Rightarrow>
          if b = 0xEF \<and> bs \<noteq> [] \<and> hd bs = 0 then refused_code ''eof_container_not_supported'' (length (b # bs))
          else if b = 0xEF then refused_code ''legacy_bytecode_may_not_start_with_0xef'' (length (b # bs))
          else (case scan_bytecode (b # bs) of
              (ok, issues) \<Rightarrow> \<lparr>bv_valid = ok, bv_error = (if ok then None else Some ''unsupported_opcode''),
                 bv_size = length (b # bs), bv_unsupported = issues\<rparr>))"

section \<open>Where instructions start\<close>

inductive instruction_at :: "bytes \<Rightarrow> nat \<Rightarrow> bool" for code where
  first: "instruction_at code 0"
| following: "instruction_at code pc \<Longrightarrow> pc < length code \<Longrightarrow> instruction_at code (pc + 1 + immediate_length (code ! pc))"

lemma scan_sound:
  "instruction_at code pc \<Longrightarrow> rest = drop pc code \<Longrightarrow> (p, op) \<in> set (evm_scan pc rest) \<Longrightarrow>
   instruction_at code p \<and> p < length code \<and> op = code ! p \<and> \<not> is_supported_opcode op"
proof (induction pc rest rule: evm_scan.induct)
  case (2 pc o1 rest)
  have pc: "pc < length code" using 2(3) by (metis drop_all leI list.distinct(1))
  have o1: "o1 = code ! pc" "rest = drop (Suc pc) code" using 2(3) pc by (metis Cons_nth_drop_Suc list.inject)+
  have at: "instruction_at code (pc + 1 + immediate_length o1)" using following [OF 2(2) pc] o1 by simp
  have dr: "drop (immediate_length o1) rest = drop (pc + 1 + immediate_length o1) code" by (simp add: o1 add.commute)
  consider "p = pc" "op = o1" "\<not> is_supported_opcode o1"
    | "(p, op) \<in> set (evm_scan (pc + 1 + immediate_length o1) (drop (immediate_length o1) rest))"
    using 2(4) by (auto split: if_splits)
  thus ?case
  proof cases
    case 1
    thus ?thesis using 2(2) pc o1 by simp
  next
    case 2
    thus ?thesis using "2.IH" at dr by blast
  qed
qed simp

lemma scan_starts:
  assumes "instruction_at code p" "p < length code"
  shows "\<exists>before. evm_scan 0 code = before @ evm_scan p (drop p code)"
  using assms
proof (induction rule: instruction_at.induct)
  case (following pc)
  then obtain before where "evm_scan 0 code = before @ evm_scan pc (drop pc code)" by blast
  moreover have "drop pc code = code ! pc # drop (Suc pc) code" using following by (simp add: Cons_nth_drop_Suc)
  ultimately have "evm_scan 0 code = before @ evm_scan pc (code ! pc # drop (Suc pc) code)" by (simp only:)
  thus ?case by (auto simp: add.commute)
qed simp

text \<open>Exactly the instructions with an unsupported opcode are reported.\<close>

lemma scan_exact:
  "(p, op) \<in> set (evm_scan 0 code) \<longleftrightarrow>
   instruction_at code p \<and> p < length code \<and> op = code ! p \<and> \<not> is_supported_opcode op"
proof
  assume "(p, op) \<in> set (evm_scan 0 code)"
  thus "instruction_at code p \<and> p < length code \<and> op = code ! p \<and> \<not> is_supported_opcode op"
    using scan_sound [OF first [of code], of code p op] by (metis drop_0)
next
  assume a: "instruction_at code p \<and> p < length code \<and> op = code ! p \<and> \<not> is_supported_opcode op"
  then obtain before where "evm_scan 0 code = before @ evm_scan p (drop p code)" using scan_starts by blast
  moreover have "drop p code = code ! p # drop (Suc p) code" using a by (simp add: Cons_nth_drop_Suc)
  ultimately have "evm_scan 0 code = before @ evm_scan p (code ! p # drop (Suc p) code)" by (simp only:)
  moreover have "op = code ! p" "\<not> is_supported_opcode (code ! p)" using a by auto
  ultimately show "(p, op) \<in> set (evm_scan 0 code)" by simp
qed

text \<open>
  The validator accepts exactly the code that parses, is not empty, does not begin with the byte \<open>0xEF\<close> and has a
  supported opcode wherever an instruction starts; what stands inside the immediate bytes of a \<open>PUSH\<close> does not matter.
\<close>

theorem bytecode_valid_iff:
  "bv_valid (validate_bytecode_hex raw) \<longleftrightarrow>
   (case parse_bytecode raw of
      None \<Rightarrow> False
    | Some code \<Rightarrow> code \<noteq> [] \<and> hd code \<noteq> 0xEF \<and> (\<forall>p < length code. instruction_at code p \<longrightarrow> is_supported_opcode (code ! p)))"
proof (cases "parse_bytecode raw")
  case (Some code)
  have "evm_scan 0 code = [] \<longleftrightarrow> (\<forall>p < length code. instruction_at code p \<longrightarrow> is_supported_opcode (code ! p))"
    using scan_exact [of _ _ code] by (metis last_in_set list.set_intros(1) list.exhaust empty_iff list.set(1) surj_pair)
  thus ?thesis
    using Some by (cases code) (auto simp: validate_bytecode_hex_def refused_code_def scan_bytecode_def Let_def)
qed (simp add: validate_bytecode_hex_def refused_code_def)


lemma after_the_push: "instruction_at [0x60, 0x0C, 0x00] p \<Longrightarrow> p = 0 \<or> 2 \<le> p"
  by (induction rule: instruction_at.induct) (auto simp: immediate_length_def)

theorem bytecode_valid_iff_witness:
  "bv_valid (validate_bytecode_hex ''0x600C00'') \<and> \<not> bv_valid (validate_bytecode_hex ''0x0C'')"
proof -
  have parsed: "parse_bytecode ''0x600C00'' = Some [0x60, 0x0C, 0x00]" "parse_bytecode ''0x0C'' = Some [0x0C]" by code_simp+
  have op: "is_supported_opcode 0x60" "is_supported_opcode 0x00" "\<not> is_supported_opcode 0x0C" by code_simp+
  have "is_supported_opcode ([0x60, 0x0C, 0x00] ! p)" if "p < 3" "instruction_at [0x60, 0x0C, 0x00] p" for p
  proof -
    have "p = 0 \<or> p = 2" using after_the_push [OF that(2)] that(1) by auto
    thus ?thesis using op by auto
  qed
  hence "bv_valid (validate_bytecode_hex ''0x600C00'')" by (simp add: bytecode_valid_iff parsed)
  moreover have "\<not> bv_valid (validate_bytecode_hex ''0x0C'')"
    using op instruction_at.first by (auto simp: bytecode_valid_iff parsed)
  ultimately show ?thesis by simp
qed

end
