(* ===== verification/Tx_Pipeline.thy ===== *)
theory Tx_Pipeline
  imports Account_Store Evm_Bytecode
begin

text \<open>
  \<open>core/components/tx_pipeline.py\<close> with \<open>zk_gateway.py\<close> and the signature check of \<open>crypto/wallet.py\<close>: what a
  transaction must satisfy for the pool and for a block. The elliptic curve, the digest of the signing payload and the
  proof system are functions of the environment; an error message is its reason code.
\<close>

section \<open>Transactions, configuration, environment\<close>

record zk_proof =
  zp_type :: "string option"
  zp_own_type :: string
  zp_amount :: int
  zp_public :: int
  zp_body :: string

record transaction =
  tx_from :: string
  tx_to :: string
  tx_value :: number
  tx_nonce :: int
  tx_gas :: int
  tx_data :: string
  tx_hash :: string
  tx_signature :: string
  tx_public_key :: string
  tx_zk :: "zk_proof option"

record chain_config =
  cc_base_gas :: int
  cc_require_signatures :: bool
  cc_gas_price :: number
  cc_burn_rate :: number
  cc_chain_id :: int
  cc_burn_address :: string
  cc_block_reward :: number
  cc_max_supply :: number
  cc_miner_address :: string
  cc_evm_gas_limit :: int
  cc_fail_closed :: bool

datatype verdict = Valid | Invalid string

text \<open>The text that is signed: the value is an integer where it is whole, data and gas stand there only when not default.\<close>

datatype signed_value = SignedInt int | SignedFloat rat

record signing_payload =
  sg_from :: string
  sg_to :: string
  sg_value :: signed_value
  sg_nonce :: int
  sg_chain_id :: int
  sg_data :: "string option"
  sg_gas :: "int option"

record crypto_port =
  cy_available :: bool
  cy_digest :: "signing_payload \<Rightarrow> string"
  cy_verify :: "string \<Rightarrow> bytes \<Rightarrow> bytes \<Rightarrow> bool"
  cy_batch :: "((string \<times> bytes \<times> bytes) list \<Rightarrow> bool list option) option"

record zk_system =
  zs_range :: "zk_proof \<Rightarrow> bool option"
  zs_balance :: "zk_proof \<Rightarrow> int \<Rightarrow> bool option"
  zs_knowledge :: "zk_proof \<Rightarrow> int \<Rightarrow> bool option"

datatype zk_gateway = NullZk | FeaturesZk "zk_system option"

record evm_result =
  er_success :: bool
  er_gas_used :: int
  er_error :: string
  er_return :: string

record 's evm_port =
  ev_call :: "transaction \<Rightarrow> int \<Rightarrow> ('s, evm_result) action"
  ev_deploy :: "transaction \<Rightarrow> string \<Rightarrow> int \<Rightarrow> int \<Rightarrow> ('s, evm_result) action"

record 's chain_env =
  ce_config :: chain_config
  ce_store :: "'s account_port"
  ce_crypto :: crypto_port
  ce_amount :: native_amount
  ce_zk :: zk_gateway
  ce_locks :: bool
  ce_evm :: "'s evm_port option"

section \<open>The ZK gateway\<close>

definition zk_enabled :: "zk_gateway \<Rightarrow> bool" where
  "zk_enabled g = (case g of NullZk \<Rightarrow> False | FeaturesZk s \<Rightarrow> s \<noteq> None)"

text \<open>\<open>None\<close> of a verifier is an exception, which means no.\<close>

definition zk_verify_proof :: "zk_gateway \<Rightarrow> zk_proof \<Rightarrow> string \<Rightarrow> bool" where
  "zk_verify_proof g p ptype =
     (case g of
        FeaturesZk (Some s) \<Rightarrow>
          (let t = (if ptype \<noteq> [] then ptype else if zp_own_type p \<noteq> [] then zp_own_type p else ''knowledge'')
           in if t = ''range'' then zs_range s p = Some True
              else if t = ''balance'' then zs_balance s p (zp_amount p) = Some True
              else zs_knowledge s p (zp_public p) = Some True)
      | _ \<Rightarrow> False)"

definition validate_zk_tx :: "zk_gateway \<Rightarrow> transaction \<Rightarrow> verdict" where
  "validate_zk_tx g tx =
     (case g of
        NullZk \<Rightarrow> Invalid ''zk_disabled''
      | FeaturesZk None \<Rightarrow> Invalid ''zk_unavailable''
      | FeaturesZk (Some s) \<Rightarrow>
          (case tx_zk tx of
             None \<Rightarrow> Valid
           | Some p \<Rightarrow>
               if zk_verify_proof g p (case zp_type p of None \<Rightarrow> ''knowledge'' | Some t \<Rightarrow> if t = [] then ''knowledge'' else t)
               then Valid else Invalid ''zk_proof_invalid''))"

section \<open>Signatures\<close>

text \<open>\<open>int(v) if v == int(v) else v\<close>; \<open>None\<close>: the conversion raises.\<close>

definition signed_value_of :: "number \<Rightarrow> signed_value option" where
  "signed_value_of v =
     (case v of
        NumValue d \<Rightarrow> Some (if d \<in> \<int> then SignedInt \<lfloor>d\<rfloor> else SignedFloat d)
      | NumBool b \<Rightarrow> Some (SignedInt (if b then 1 else 0))
      | _ \<Rightarrow> None)"

definition canonical_payload :: "int \<Rightarrow> transaction \<Rightarrow> signed_value \<Rightarrow> signing_payload" where
  "canonical_payload chain tx v =
     \<lparr>sg_from = tx_from tx, sg_to = tx_to tx, sg_value = v, sg_nonce = tx_nonce tx, sg_chain_id = chain,
      sg_data = (if tx_data tx = [] then None else Some (tx_data tx)),
      sg_gas = (if tx_gas tx = 0 \<or> tx_gas tx = 21000 then None else Some (tx_gas tx))\<rparr>"

definition signature_material :: "int \<Rightarrow> crypto_port \<Rightarrow> transaction \<Rightarrow> signed_value \<Rightarrow> (string \<times> bytes \<times> bytes) option" where
  "signature_material chain cy tx v =
     (case (from_hex (tx_signature tx), from_hex (tx_public_key tx)) of
        (Some s, Some k) \<Rightarrow> Some (cy_digest cy (canonical_payload chain tx v), s, k)
      | _ \<Rightarrow> None)"

definition verify_transaction_signature :: "int \<Rightarrow> crypto_port \<Rightarrow> transaction \<Rightarrow> signed_value \<Rightarrow> bool" where
  "verify_transaction_signature chain cy tx v =
     (case signature_material chain cy tx v of
        None \<Rightarrow> False
      | Some (m, s, k) \<Rightarrow> cy_available cy \<and> cy_verify cy m s k)"

text \<open>\<open>verify_batch_sha256\<close>: the native batch, or one check after the other; \<open>None\<close>: it raises.\<close>

definition verify_batch_sha256 :: "crypto_port \<Rightarrow> (string \<times> bytes \<times> bytes) list \<Rightarrow> bool list option" where
  "verify_batch_sha256 cy batch =
     (if \<not> cy_available cy then Some (map (\<lambda>b. False) batch)
      else case cy_batch cy of
          Some f \<Rightarrow> f batch
        | None \<Rightarrow> Some (map (\<lambda>(m, s, k). cy_verify cy m s k) batch))"

fun scatter :: "'a option list \<Rightarrow> bool list \<Rightarrow> bool list" where
  "scatter [] bs = []"
| "scatter (None # ms) bs = False # scatter ms bs"
| "scatter (Some m # ms) [] = False # scatter ms []"
| "scatter (Some m # ms) (b # bs) = b # scatter ms bs"

definition verify_transaction_signatures_batch ::
  "int \<Rightarrow> crypto_port \<Rightarrow> (transaction \<times> signed_value) list \<Rightarrow> bool list option" where
  "verify_transaction_signatures_batch chain cy txs =
     (if \<not> cy_available cy then Some (map (\<lambda>t. False) txs)
      else let ms = map (\<lambda>(tx, v). signature_material chain cy tx v) txs;
               batch = List.map_filter id ms
           in if batch = [] then Some (map (\<lambda>t. False) txs)
              else map_option (scatter ms) (verify_batch_sha256 cy batch))"

definition verify_tx_signature :: "chain_config \<Rightarrow> crypto_port \<Rightarrow> transaction \<Rightarrow> verdict" where
  "verify_tx_signature cfg cy tx =
     (if tx_signature tx = [] then (if cc_require_signatures cfg then Invalid ''missing_signature'' else Valid)
      else if tx_public_key tx = [] then Invalid ''missing_public_key''
      else case signed_value_of (tx_value tx) of
          None \<Rightarrow> Invalid ''signature_check_failed''
        | Some v \<Rightarrow> if verify_transaction_signature (cc_chain_id cfg) cy tx v then Valid else Invalid ''invalid_signature'')"

text \<open>The transactions of a block that are signed, or the verdict that ends the loop; \<open>Inl\<close> outside is an exception.\<close>

fun collect_signed :: "chain_config \<Rightarrow> transaction list \<Rightarrow> (store_fault, (verdict, (transaction \<times> signed_value) list) result) result" where
  "collect_signed cfg [] = ret (ret [])"
| "collect_signed cfg (tx # txs) =
     (if tx_signature tx = [] then
        (if cc_require_signatures cfg then ret (raise (Invalid ''missing_signature'')) else collect_signed cfg txs)
      else if tx_public_key tx = [] then ret (raise (Invalid ''missing_public_key''))
      else case signed_value_of (tx_value tx) of
          None \<Rightarrow> raise (Raised ''ValueError'')
        | Some v \<Rightarrow> map_sum id (map_sum id (Cons (tx, v))) (collect_signed cfg txs))"

definition verify_signatures :: "chain_config \<Rightarrow> crypto_port \<Rightarrow> transaction list \<Rightarrow> (store_fault, verdict) result" where
  "verify_signatures cfg cy txs =
     (case collect_signed cfg txs of
        Inl e \<Rightarrow> raise e
      | Inr (Inl v) \<Rightarrow> ret v
      | Inr (Inr []) \<Rightarrow> ret Valid
      | Inr (Inr (t # ts)) \<Rightarrow>
          (case verify_transaction_signatures_batch (cc_chain_id cfg) cy (t # ts) of
             None \<Rightarrow> ret (Invalid ''signature_batch_failed'')
           | Some oks \<Rightarrow> ret (if list_all snd (zip (t # ts) oks) then Valid else Invalid ''invalid_signature'')))"

section \<open>Deployments\<close>

text \<open>\<open>s.replace("0x", "")\<close>.\<close>

fun remove_0x :: "string \<Rightarrow> string" where
  "remove_0x (c # d # s) = (if c = CHR ''0'' \<and> d = CHR ''x'' then remove_0x s else c # remove_0x (d # s))"
| "remove_0x s = s"

definition has_code :: "(string option \<times> string option) option \<Rightarrow> bool" where
  "has_code acct = (case acct of Some (Some c, t) \<Rightarrow> c \<noteq> [] | _ \<Rightarrow> False)"

definition looks_like_deploy :: "string \<Rightarrow> bool" where
  "looks_like_deploy data =
     (let d = py_strip data; body = remove_0x d in d \<noteq> [] \<and> 4 \<le> length body \<and> even (length body))"

definition is_evm_deploy_tx :: "'s chain_env \<Rightarrow> transaction \<Rightarrow> 's \<Rightarrow> (store_fault, bool) result" where
  "is_evm_deploy_tx E tx s =
     (if tx_data tx = [] \<or> ce_evm E = None then ret False
      else case sp_account (ce_store E) (tx_to tx) s of
          Inl e \<Rightarrow> raise e
        | Inr acct \<Rightarrow> ret (\<not> has_code acct \<and> looks_like_deploy (tx_data tx)))"

definition validate_evm_deploy_bytecode :: "'s chain_env \<Rightarrow> transaction \<Rightarrow> 's \<Rightarrow> (store_fault, verdict) result" where
  "validate_evm_deploy_bytecode E tx s =
     (case is_evm_deploy_tx E tx s of
        Inl e \<Rightarrow> raise e
      | Inr False \<Rightarrow> ret Valid
      | Inr True \<Rightarrow>
          (if bv_valid (validate_bytecode_hex (tx_data tx)) then ret Valid else ret (Invalid ''unsupported_evm_bytecode'')))"

section \<open>Validation\<close>

text \<open>One check after the other: the first that fails, or raises, decides.\<close>

definition and_then :: "(store_fault, verdict) result \<Rightarrow> (store_fault, verdict) result \<Rightarrow> (store_fault, verdict) result" where
  "and_then r k = (case r of Inr Valid \<Rightarrow> k | _ \<Rightarrow> r)"

definition negative_number :: "number \<Rightarrow> bool" where
  "negative_number v = (case v of NumValue d \<Rightarrow> d < 0 | NumInf pos \<Rightarrow> \<not> pos | _ \<Rightarrow> False)"

definition check_locks :: "'s chain_env \<Rightarrow> string \<Rightarrow> pyfloat \<Rightarrow> int \<Rightarrow> 's \<Rightarrow> (store_fault, verdict) result" where
  "check_locks E a cost balance_sat s =
     (case from_satoshi_float (ce_amount E) balance_sat of
        Inl e \<Rightarrow> raise (AmountFault e)
      | Inr balance \<Rightarrow>
          (if \<not> ce_locks E then ret Valid
           else case sp_pools (ce_store E) s of
               None \<Rightarrow> ret Valid
             | Some p \<Rightarrow> (case is_outgoing_allowed p a cost balance of None \<Rightarrow> ret Valid | Some reason \<Rightarrow> ret (Invalid reason))))"

definition tx_plan :: "'s chain_env \<Rightarrow> transaction \<Rightarrow> int option \<Rightarrow> (amount_error, fee_plan) result" where
  "tx_plan E tx used =
     plan_transfer_fees_sat (ce_amount E) (tx_gas tx) (cc_gas_price (ce_config E)) (cc_burn_rate (ce_config E)) (tx_value tx) used"

definition check_funds :: "'s chain_env \<Rightarrow> transaction \<Rightarrow> 's \<Rightarrow> (store_fault, verdict) result" where
  "check_funds E tx s =
     (case tx_plan E tx None of
        Inl e \<Rightarrow> raise (AmountFault e)
      | Inr p \<Rightarrow>
          (case sp_balance (ce_store E) (tx_from tx) s of
             Inl e \<Rightarrow> raise e
           | Inr bal \<Rightarrow>
               (case from_satoshi_float (ce_amount E) (pl_total p) of
                  Inl e \<Rightarrow> raise (AmountFault e)
                | Inr cost \<Rightarrow>
                    if \<not> can_afford_transfer_sat bal (pl_total p) then ret (Invalid ''insufficient_funds'')
                    else check_locks E (tx_from tx) cost bal s)))"

definition check_nonce :: "'s chain_env \<Rightarrow> transaction \<Rightarrow> int option \<Rightarrow> 's \<Rightarrow> (store_fault, verdict) result" where
  "check_nonce E tx expected s =
     (case sp_nonce (ce_store E) (tx_from tx) s of
        Inl e \<Rightarrow> raise e
      | Inr tip \<Rightarrow>
          if tx_nonce tx \<noteq> (case expected of None \<Rightarrow> tip | Some n \<Rightarrow> n) then ret (Invalid ''nonce_mismatch'') else ret Valid)"

definition check_shape :: "'s chain_env \<Rightarrow> transaction \<Rightarrow> verdict" where
  "check_shape E tx =
     (if tx_from tx = [] \<or> tx_to tx = [] then Invalid ''missing_address''
      else if negative_number (tx_value tx) then Invalid ''negative_value''
      else if tx_gas tx < cc_base_gas (ce_config E) then Invalid ''gas_too_low'' else Valid)"

definition check_zk :: "'s chain_env \<Rightarrow> transaction \<Rightarrow> verdict" where
  "check_zk E tx = (if zk_enabled (ce_zk E) \<and> tx_zk tx \<noteq> None then validate_zk_tx (ce_zk E) tx else Valid)"

definition validate_tx :: "'s chain_env \<Rightarrow> transaction \<Rightarrow> int option \<Rightarrow> 's \<Rightarrow> (store_fault, verdict) result" where
  "validate_tx E tx expected s =
     (let require = cc_require_signatures (ce_config E);
          signature = verify_tx_signature (ce_config E) (ce_crypto E) tx
      in and_then (ret (check_shape E tx))
        (and_then (ret (if require \<or> tx_signature tx \<noteq> [] then signature else Valid))
        (and_then (check_nonce E tx expected s)
        (and_then (check_funds E tx s)
        (and_then (ret (if \<not> require \<and> tx_signature tx = [] then signature else Valid))
        (and_then (validate_evm_deploy_bytecode E tx s)
        (ret (check_zk E tx))))))))"

definition validate_for_mempool :: "'s chain_env \<Rightarrow> transaction \<Rightarrow> 's \<Rightarrow> (store_fault, verdict) result" where
  "validate_for_mempool E tx = validate_tx E tx None"

definition validate_for_block :: "'s chain_env \<Rightarrow> transaction \<Rightarrow> int \<Rightarrow> 's \<Rightarrow> (store_fault, verdict) result" where
  "validate_for_block E tx expected = validate_tx E tx (Some expected)"

definition validate_for_block_cursor :: "'s chain_env \<Rightarrow> transaction \<Rightarrow> (string, int) dict \<Rightarrow> 's \<Rightarrow> (store_fault, verdict) result" where
  "validate_for_block_cursor E tx cursor s =
     (case sp_nonce (ce_store E) (tx_from tx) s of
        Inl e \<Rightarrow> raise e
      | Inr tip \<Rightarrow>
          (let expected = dict_get cursor (tx_from tx) tip
           in if tx_nonce tx \<noteq> expected then ret (Invalid ''nonce_mismatch_in_block'') else validate_for_block E tx expected s))"

text \<open>The transactions \<open>Blockchain.create_block\<close> takes into a block, each checked on the state at the tip.\<close>

fun select_txs :: "'s chain_env \<Rightarrow> 's \<Rightarrow> (string, int) dict \<Rightarrow> transaction list \<Rightarrow> (store_fault, transaction list) result" where
  "select_txs E s cursor [] = ret []"
| "select_txs E s cursor (tx # txs) =
     (case validate_for_block_cursor E tx cursor s of
        Inl e \<Rightarrow> raise e
      | Inr Valid \<Rightarrow> map_sum id (Cons tx) (select_txs E s (dict_set (tx_from tx) (tx_nonce tx + 1) cursor) txs)
      | Inr (Invalid r) \<Rightarrow> select_txs E s cursor txs)"

end
