(* ===== verification/State_Service.thy ===== *)
theory State_Service
  imports Tx_Pipeline
begin

text \<open>
  \<open>core/components/state_service.py\<close>: one transaction, the block reward, the mutations of a block and the replay of a
  chain, over the storage port. The native kernels are optional functions of the environment, from the snapshot they
  are handed to the accounts they return and the satoshi burned; \<open>None\<close> is an exception of theirs. The display fields
  written on transactions, the events and the log are left out.
\<close>

section \<open>One transaction\<close>

record apply_receipt =
  rc_fee :: int
  rc_burned :: int
  rc_miner_fee :: int
  rc_gas_used :: int
  rc_evm :: bool
  rc_contract :: string

datatype tx_outcome = Applied apply_receipt | Refused string

definition credit_sat :: "'s chain_env \<Rightarrow> bool \<Rightarrow> string \<Rightarrow> int \<Rightarrow> ('s, unit) action" where
  "credit_sat E in_atomic a d =
     (if d = 0 then give () else if in_atomic then sp_credit (ce_store E) a d else sp_credit_commit (ce_store E) a d)"

definition bump_nonce :: "'s chain_env \<Rightarrow> bool \<Rightarrow> string \<Rightarrow> ('s, unit) action" where
  "bump_nonce E in_atomic a = (if in_atomic then sp_bump (ce_store E) a else sp_bump_commit (ce_store E) a)"

definition record_spending :: "'s chain_env \<Rightarrow> string \<Rightarrow> pyfloat \<Rightarrow> ('s, unit) action" where
  "record_spending E a x s =
     (if \<not> ce_locks E then (s, ret ())
      else case sp_pools (ce_store E) s of
          None \<Rightarrow> (s, ret ())
        | Some p \<Rightarrow> if is_system_pool p a then sp_set_pools (ce_store E) (record_outgoing a x p) s else (s, ret ()))"

text \<open>The credits of the fee: the proposer's share, and the burned part if there is a burn address.\<close>

definition credit_fee :: "'s chain_env \<Rightarrow> bool \<Rightarrow> string \<Rightarrow> fee_plan \<Rightarrow> ('s, unit) action" where
  "credit_fee E in_atomic proposer p =
     andthen (credit_sat E in_atomic proposer (pl_miner p)) (\<lambda>u.
       if 0 < pl_burned p \<and> cc_burn_address (ce_config E) \<noteq> []
       then credit_sat E in_atomic (cc_burn_address (ce_config E)) (pl_burned p) else give ())"

definition float_of_sat :: "'s chain_env \<Rightarrow> int \<Rightarrow> (store_fault, pyfloat) result" where
  "float_of_sat E n = amount_result (from_satoshi_float (ce_amount E) n)"

definition fee_floats :: "'s chain_env \<Rightarrow> fee_plan \<Rightarrow> ('s, unit) action" where
  "fee_floats E p =
     andthen (attempt (float_of_sat E (pl_fee p))) (\<lambda>x.
     andthen (attempt (float_of_sat E (pl_burned p))) (\<lambda>x.
     andthen (attempt (float_of_sat E (pl_miner p))) (\<lambda>x. give ())))"

definition plan_floats :: "'s chain_env \<Rightarrow> fee_plan \<Rightarrow> ('s, pyfloat) action" where
  "plan_floats E p = andthen (fee_floats E p) (\<lambda>u. attempt (float_of_sat E (pl_total p)))"

text \<open>\<open>fee + tx.value\<close>, as the spending of a pool that calls a contract is recorded.\<close>

definition fee_plus_value :: "'s chain_env \<Rightarrow> fee_plan \<Rightarrow> number \<Rightarrow> (store_fault, pyfloat) result" where
  "fee_plus_value E p v =
     (case float_of_sat E (pl_fee p) of
        Inl e \<Rightarrow> raise e
      | Inr fee \<Rightarrow> (case v of NumValue d \<Rightarrow> ret (fadd fee (f64 d)) | _ \<Rightarrow> raise (Raised ''not finite'')))"

definition gas_limit_of :: "'s chain_env \<Rightarrow> transaction \<Rightarrow> int" where
  "gas_limit_of E tx = (if tx_gas tx = 0 then cc_evm_gas_limit (ce_config E) else tx_gas tx)"

definition evm_receipt :: "fee_plan \<Rightarrow> transaction \<Rightarrow> evm_result \<Rightarrow> string \<Rightarrow> apply_receipt" where
  "evm_receipt p tx r contract =
     \<lparr>rc_fee = pl_fee p, rc_burned = pl_burned p, rc_miner_fee = pl_miner p,
      rc_gas_used = (if er_gas_used r = 0 then tx_gas tx else er_gas_used r), rc_evm = True, rc_contract = contract\<rparr>"

text \<open>The call of a contract: the EVM moves the value, here only the fee is taken.\<close>

definition apply_call :: "'s chain_env \<Rightarrow> 's evm_port \<Rightarrow> bool \<Rightarrow> string \<Rightarrow> transaction \<Rightarrow> int \<Rightarrow> ('s, tx_outcome) action" where
  "apply_call E V in_atomic proposer tx sender_sat =
     andthen (ev_call V tx (gas_limit_of E tx)) (\<lambda>r.
       if \<not> er_success r then give (Refused (if er_error r = [] then ''evm_call_failed'' else er_error r))
       else andthen (attempt (amount_result (tx_plan E tx (Some (er_gas_used r))))) (\<lambda>p.
         andthen (fee_floats E p) (\<lambda>u.
         if \<not> can_afford_transfer_sat sender_sat (pl_total p) then give (Refused ''insufficient_funds'')
         else andthen (credit_sat E in_atomic (tx_from tx) (- pl_fee p)) (\<lambda>u.
              andthen (credit_fee E in_atomic proposer p) (\<lambda>u.
              andthen (bump_nonce E in_atomic (tx_from tx)) (\<lambda>u.
              andthen (if ce_locks E then andthen (attempt (fee_plus_value E p (tx_value tx))) (record_spending E (tx_from tx)) else give ())
                (\<lambda>u. give (Applied (evm_receipt p tx r [])))))))))"

definition apply_deploy :: "'s chain_env \<Rightarrow> 's evm_port \<Rightarrow> bool \<Rightarrow> string \<Rightarrow> int \<Rightarrow> transaction \<Rightarrow> int \<Rightarrow> ('s, tx_outcome) action" where
  "apply_deploy E V in_atomic proposer h tx sender_sat =
     andthen (ev_deploy V tx (py_strip (tx_data tx)) (gas_limit_of E tx) h) (\<lambda>r.
       if \<not> er_success r then give (Refused (if er_error r = [] then ''evm_deploy_failed'' else er_error r))
       else andthen (attempt (amount_result (tx_plan E tx (Some (er_gas_used r))))) (\<lambda>p.
         andthen (plan_floats E p) (\<lambda>cost.
         if sender_sat < pl_total p then give (Refused ''insufficient_funds_for_deploy'')
         else andthen (credit_sat E in_atomic (tx_from tx) (- pl_fee p)) (\<lambda>u.
              andthen (credit_fee E in_atomic proposer p) (\<lambda>u.
              andthen (bump_nonce E in_atomic (tx_from tx)) (\<lambda>u.
              andthen (record_spending E (tx_from tx) cost)
                (\<lambda>u. give (Applied (evm_receipt p tx r (er_return r))))))))))"

definition apply_transfer :: "'s chain_env \<Rightarrow> bool \<Rightarrow> string \<Rightarrow> transaction \<Rightarrow> fee_plan \<Rightarrow> pyfloat \<Rightarrow> ('s, tx_outcome) action" where
  "apply_transfer E in_atomic proposer tx p cost =
     andthen (credit_sat E in_atomic (tx_from tx) (- pl_total p)) (\<lambda>u.
     andthen (credit_sat E in_atomic (tx_to tx) (pl_value p)) (\<lambda>u.
     andthen (credit_fee E in_atomic proposer p) (\<lambda>u.
     andthen (bump_nonce E in_atomic (tx_from tx)) (\<lambda>u.
     andthen (record_spending E (tx_from tx) cost) (\<lambda>u.
     give (Applied \<lparr>rc_fee = pl_fee p, rc_burned = pl_burned p, rc_miner_fee = pl_miner p, rc_gas_used = tx_gas tx,
                    rc_evm = False, rc_contract = []\<rparr>))))))"

definition after_verdict :: "(store_fault, verdict) result \<Rightarrow> ('s, tx_outcome) action \<Rightarrow> ('s, tx_outcome) action" where
  "after_verdict r k =
     (case r of Inl e \<Rightarrow> throw e | Inr Valid \<Rightarrow> k | Inr (Invalid reason) \<Rightarrow> give (Refused reason))"

definition effective_proposer :: "chain_config \<Rightarrow> string \<Rightarrow> string" where
  "effective_proposer cfg proposer =
     (if proposer \<noteq> [] then proposer else if cc_miner_address cfg \<noteq> [] then cc_miner_address cfg else ''genesis'')"

definition apply_body :: "'s chain_env \<Rightarrow> transaction \<Rightarrow> int \<Rightarrow> string \<Rightarrow> bool \<Rightarrow> fee_plan \<Rightarrow> pyfloat \<Rightarrow> int \<Rightarrow> ('s, tx_outcome) action" where
  "apply_body E tx h proposer in_atomic p cost bal =
     (case (tx_data tx, ce_evm E) of
        (c # cs, Some V) \<Rightarrow>
          andthen (asks (sp_account (ce_store E) (tx_to tx))) (\<lambda>acct.
            if has_code acct then apply_call E V in_atomic proposer tx bal
            else if looks_like_deploy (tx_data tx) then apply_deploy E V in_atomic proposer h tx bal
            else apply_transfer E in_atomic proposer tx p cost)
      | _ \<Rightarrow> apply_transfer E in_atomic proposer tx p cost)"

definition apply_transaction :: "'s chain_env \<Rightarrow> transaction \<Rightarrow> int \<Rightarrow> string \<Rightarrow> bool \<Rightarrow> ('s, tx_outcome) action" where
  "apply_transaction E tx h proposer0 in_atomic =
     (let proposer = effective_proposer (ce_config E) proposer0 in
      andthen (attempt (amount_result (tx_plan E tx None))) (\<lambda>p.
      andthen (plan_floats E p) (\<lambda>cost.
      andthen (asks (sp_nonce (ce_store E) (tx_from tx))) (\<lambda>n.
      if tx_nonce tx \<noteq> n then give (Refused ''nonce_mismatch'')
      else andthen (asks (sp_balance (ce_store E) (tx_from tx))) (\<lambda>bal.
      if \<not> can_afford_transfer_sat bal (pl_total p) then give (Refused ''insufficient_funds'')
      else andthen (asks (check_locks E (tx_from tx) cost bal)) (\<lambda>v.
      after_verdict (ret v) (
      after_verdict (ret (verify_tx_signature (ce_config E) (ce_crypto E) tx))
        (apply_body E tx h proposer in_atomic p cost bal))))))))"

section \<open>The reward\<close>

definition apply_block_reward :: "'s chain_env \<Rightarrow> string \<Rightarrow> bool \<Rightarrow> ('s, int) action" where
  "apply_block_reward E proposer in_atomic =
     andthen (asks (sp_supply (ce_store E))) (\<lambda>x.
     andthen (attempt (amount_result (to_satoshi (ce_amount E) (str_number x)))) (\<lambda>supply.
     andthen (attempt (amount_result (to_satoshi (ce_amount E) (cc_max_supply (ce_config E))))) (\<lambda>cap.
     andthen (attempt (amount_result (to_satoshi (ce_amount E) (cc_block_reward (ce_config E))))) (\<lambda>full.
       let reward = (if cap < supply + full then max 0 (cap - supply) else full)
       in andthen (if 0 < reward then credit_sat E in_atomic proposer reward else give ()) (\<lambda>u. give reward)))))"

section \<open>Classes of transactions\<close>

definition tx_is_simple :: "transaction \<Rightarrow> bool" where
  "tx_is_simple tx \<longleftrightarrow> py_strip (tx_data tx) \<in> {[], ''0x'', ''0X''}"

definition block_transactions_are_simple :: "transaction list \<Rightarrow> bool" where
  "block_transactions_are_simple txs = list_all tx_is_simple txs"

definition block_transactions_are_all_evm :: "'s chain_env \<Rightarrow> transaction list \<Rightarrow> bool" where
  "block_transactions_are_all_evm E txs \<longleftrightarrow> txs \<noteq> [] \<and> ce_evm E \<noteq> None \<and> list_all (\<lambda>t. \<not> tx_is_simple t) txs"

definition block_transactions_are_mixed :: "'s chain_env \<Rightarrow> transaction list \<Rightarrow> bool" where
  "block_transactions_are_mixed E txs \<longleftrightarrow>
     txs \<noteq> [] \<and> ce_evm E \<noteq> None \<and> list_ex tx_is_simple txs \<and> list_ex (\<lambda>t. \<not> tx_is_simple t) txs"

end
