(* ===== verification/Block_Apply.thy ===== *)
theory Block_Apply
  imports State_Service
begin

text \<open>
  The second half of \<open>core/components/state_service.py\<close>: how a block is applied, by the Python loop or through the
  native kernels, and how a chain is replayed; with the part of \<open>Blockchain.add_block\<close> and \<open>reorg_to_ancestor\<close> that
  runs inside \<open>storage.atomic()\<close>. A kernel takes the snapshot of the accounts it may change and returns the changed
  accounts and the satoshi burned; \<open>None\<close> is an exception.
\<close>

section \<open>Snapshots\<close>

type_synonym snapshot = "(string, int \<times> int) dict"

record host_effect =
  he_from :: string
  he_to :: string
  he_value :: number
  he_apply_value :: bool
  he_gas :: int
  he_gas_used :: int
  he_nonce :: int

record apply_kernels =
  nk_simple :: "(chain_config \<Rightarrow> snapshot \<Rightarrow> transaction list \<Rightarrow> string \<Rightarrow> int \<Rightarrow> int \<Rightarrow> (snapshot \<times> int) option) option"
  nk_effects :: "(chain_config \<Rightarrow> snapshot \<Rightarrow> host_effect list \<Rightarrow> string \<Rightarrow> number \<Rightarrow> int \<Rightarrow> int \<Rightarrow> (snapshot \<times> int) option) option"
  nk_replay :: "(chain_config \<Rightarrow> snapshot \<Rightarrow> (string \<times> transaction list) list \<Rightarrow> int \<Rightarrow> int \<Rightarrow> (snapshot \<times> int) option) option"

definition no_kernels :: apply_kernels where
  "no_kernels = \<lparr>nk_simple = None, nk_effects = None, nk_replay = None\<rparr>"

record chain_block =
  bk_height :: int
  bk_miner :: string
  bk_txs :: "transaction list"
  bk_state_root :: string

definition collect_addrs :: "chain_config \<Rightarrow> chain_block \<Rightarrow> string list" where
  "collect_addrs cfg b =
     remdups (filter (\<lambda>a. a \<noteq> []) ([bk_miner b, cc_burn_address cfg] @ concat (map (\<lambda>t. [tx_from t, tx_to t]) (bk_txs b))))"

definition accounts_snapshot :: "'s chain_env \<Rightarrow> string list \<Rightarrow> ('s, snapshot) action" where
  "accounts_snapshot E addrs =
     each (\<lambda>a. andthen (asks (sp_balance (ce_store E) a)) (\<lambda>b. andthen (asks (sp_nonce (ce_store E) a)) (\<lambda>n. give (a, b, n))))
       (filter (\<lambda>a. a \<noteq> []) addrs)"

definition writeback_account :: "'s chain_env \<Rightarrow> string \<times> int \<times> int \<Rightarrow> ('s, unit) action" where
  "writeback_account E = (\<lambda>(a, sat, nonce).
     andthen (attempt (float_of_sat E sat)) (\<lambda>x.
     andthen (asks (sp_account (ce_store E) a)) (\<lambda>existing.
       if existing = None \<and> sat = 0 \<and> nonce = 0 then give ()
       else sp_save (ce_store E) a (str_number x) nonce (Option.bind existing fst) (Option.bind existing snd))))"

definition writeback_accounts :: "'s chain_env \<Rightarrow> snapshot \<Rightarrow> ('s, unit) action" where
  "writeback_accounts E accounts = andthen (each (writeback_account E) accounts) (\<lambda>u. give ())"

definition supply_satoshi :: "'s chain_env \<Rightarrow> ('s, int) action" where
  "supply_satoshi E =
     andthen (asks (sp_supply (ce_store E))) (\<lambda>x. attempt (amount_result (to_satoshi (ce_amount E) (str_number x))))"

definition max_supply_satoshi :: "'s chain_env \<Rightarrow> ('s, int) action" where
  "max_supply_satoshi E = attempt (amount_result (to_satoshi (ce_amount E) (cc_max_supply (ce_config E))))"

text \<open>The display fields of a transaction: the plan may raise, its values are not kept.\<close>

definition mirror_plan :: "'s chain_env \<Rightarrow> transaction \<Rightarrow> number \<Rightarrow> int option \<Rightarrow> ('s, unit) action" where
  "mirror_plan E tx v used =
     andthen (attempt (amount_result (tx_plan E (tx\<lparr>tx_value := v\<rparr>) used))) (\<lambda>p.
     andthen (attempt (float_of_sat E (pl_fee p))) (\<lambda>x.
     andthen (attempt (float_of_sat E (pl_burned p))) (\<lambda>x. give ())))"

definition of_kernel :: "'a option \<Rightarrow> ('s, 'a) action" where
  "of_kernel r = (case r of None \<Rightarrow> throw (Raised ''native'') | Some x \<Rightarrow> give x)"

section \<open>The native paths\<close>

definition apply_simple_block_native ::
  "'s chain_env \<Rightarrow> (chain_config \<Rightarrow> snapshot \<Rightarrow> transaction list \<Rightarrow> string \<Rightarrow> int \<Rightarrow> int \<Rightarrow> (snapshot \<times> int) option) \<Rightarrow> chain_block \<Rightarrow> ('s, int) action" where
  "apply_simple_block_native E K b =
     andthen (accounts_snapshot E (collect_addrs (ce_config E) b)) (\<lambda>snap.
     andthen (supply_satoshi E) (\<lambda>supply.
     andthen (max_supply_satoshi E) (\<lambda>cap.
     andthen (of_kernel (K (ce_config E) snap (bk_txs b) (bk_miner b) supply cap)) (\<lambda>(accounts, burned).
     andthen (writeback_accounts E accounts) (\<lambda>u.
     andthen (each (\<lambda>tx. mirror_plan E tx (tx_value tx) None) (bk_txs b)) (\<lambda>us.
     give burned))))))"

text \<open>The EVM alone: the gas used and the address of a new contract.\<close>

definition run_evm_host_only :: "'s chain_env \<Rightarrow> transaction \<Rightarrow> int \<Rightarrow> ('s, int \<times> string option) action" where
  "run_evm_host_only E tx h =
     (case ce_evm E of
        None \<Rightarrow> throw (Raised ''evm_unavailable'')
      | Some V \<Rightarrow>
          andthen (if tx_to tx = [] then give None else asks (sp_account (ce_store E) (tx_to tx))) (\<lambda>acct.
            let used = (\<lambda>r. if er_gas_used r = 0 then tx_gas tx else er_gas_used r) in
            if has_code acct then
              andthen (ev_call V tx (gas_limit_of E tx)) (\<lambda>r.
                if er_success r then give (used r, None)
                else throw (Raised (if er_error r = [] then ''evm_call_failed'' else er_error r)))
            else if looks_like_deploy (tx_data tx) then
              andthen (ev_deploy V tx (py_strip (tx_data tx)) (gas_limit_of E tx) h) (\<lambda>r.
                if er_success r then give (used r, Some (er_return r))
                else throw (Raised (if er_error r = [] then ''evm_deploy_failed'' else er_error r)))
            else throw (Raised ''evm_unsupported_tx'')))"

definition gas_or_default :: "transaction \<Rightarrow> int" where
  "gas_or_default tx = (if tx_gas tx = 0 then 21000 else tx_gas tx)"

definition effect_of :: "transaction \<Rightarrow> bool \<Rightarrow> int \<Rightarrow> host_effect" where
  "effect_of tx apply_value used =
     \<lparr>he_from = tx_from tx, he_to = tx_to tx, he_value = tx_value tx, he_apply_value = apply_value,
      he_gas = gas_or_default tx, he_gas_used = used, he_nonce = tx_nonce tx\<rparr>"

definition host_step :: "'s chain_env \<Rightarrow> int \<Rightarrow> transaction \<Rightarrow> ('s, host_effect \<times> string list) action" where
  "host_step E h tx =
     andthen (run_evm_host_only E tx h) (\<lambda>(used, contract).
     andthen (mirror_plan E tx (NumValue 0) (Some used)) (\<lambda>u.
     give (effect_of tx False used, case contract of None \<Rightarrow> [] | Some c \<Rightarrow> if c = [] then [] else [c])))"

type_synonym effects_kernel =
  "chain_config \<Rightarrow> snapshot \<Rightarrow> host_effect list \<Rightarrow> string \<Rightarrow> number \<Rightarrow> int \<Rightarrow> int \<Rightarrow> (snapshot \<times> int) option"

definition apply_evm_host_block_native :: "'s chain_env \<Rightarrow> effects_kernel \<Rightarrow> chain_block \<Rightarrow> ('s, int) action" where
  "apply_evm_host_block_native E K b =
     andthen (each (host_step E (bk_height b)) (bk_txs b)) (\<lambda>steps.
     andthen (accounts_snapshot E (remdups (collect_addrs (ce_config E) b @ concat (map snd steps)))) (\<lambda>snap.
     andthen (supply_satoshi E) (\<lambda>supply.
     andthen (max_supply_satoshi E) (\<lambda>cap.
     andthen (of_kernel (K (ce_config E) snap (map fst steps) (bk_miner b) (cc_block_reward (ce_config E)) supply cap)) (\<lambda>(accounts, burned).
     andthen (writeback_accounts E accounts) (\<lambda>u. give burned))))))"

section \<open>Blocks with both kinds of transactions\<close>

record mixed_state =
  mx_session :: snapshot
  mx_supply :: int
  mx_burned :: int

definition dict_update_all :: "snapshot \<Rightarrow> snapshot \<Rightarrow> snapshot" where
  "dict_update_all rows session = fold (\<lambda>(a, v) d. dict_set a v d) rows session"

definition ensure_rows :: "'s chain_env \<Rightarrow> string list \<Rightarrow> snapshot \<Rightarrow> ('s, snapshot) action" where
  "ensure_rows E addrs session =
     andthen (accounts_snapshot E (filter (\<lambda>a. a \<notin> set (dict_keys session)) addrs)) (\<lambda>rows. give (dict_update_all rows session))"

definition restrict_rows :: "string list \<Rightarrow> snapshot \<Rightarrow> snapshot" where
  "restrict_rows addrs session = List.map_filter (\<lambda>a. map_option (Pair a) (map_of session a)) addrs"

definition mixed_addrs :: "'s chain_env \<Rightarrow> chain_block \<Rightarrow> transaction \<Rightarrow> string list" where
  "mixed_addrs E b tx =
     remdups (filter (\<lambda>a. a \<noteq> []) [bk_miner b, cc_burn_address (ce_config E), tx_from tx, tx_to tx])"

text \<open>
  One transaction: the effect, the addresses of its snapshot and the session. After the EVM ran, the rows of the
  addresses are read again from the store.
\<close>

definition mixed_effect :: "'s chain_env \<Rightarrow> chain_block \<Rightarrow> snapshot \<Rightarrow> transaction \<Rightarrow> ('s, host_effect \<times> string list \<times> snapshot) action" where
  "mixed_effect E b session tx =
     (if tx_is_simple tx
      then andthen (mirror_plan E tx (tx_value tx) None) (\<lambda>u.
             give (effect_of tx True (gas_or_default tx), mixed_addrs E b tx, session))
      else andthen (run_evm_host_only E tx (bk_height b)) (\<lambda>(used, contract).
             let addrs = remdups (mixed_addrs E b tx @ (case contract of None \<Rightarrow> [] | Some c \<Rightarrow> if c = [] then [] else [c]))
             in andthen (accounts_snapshot E addrs) (\<lambda>refreshed.
                andthen (mirror_plan E tx (NumValue 0) (Some used)) (\<lambda>u.
                give (effect_of tx False used, addrs, dict_update_all refreshed session)))))"

definition mixed_step :: "'s chain_env \<Rightarrow> effects_kernel \<Rightarrow> chain_block \<Rightarrow> int \<Rightarrow> mixed_state \<Rightarrow> transaction \<Rightarrow> ('s, mixed_state) action" where
  "mixed_step E K b cap m tx =
     andthen (mixed_effect E b (mx_session m) tx) (\<lambda>(effect, addrs, session0).
     andthen (ensure_rows E addrs session0) (\<lambda>session.
     andthen (of_kernel (K (ce_config E) (restrict_rows addrs session) [effect] (bk_miner b) (NumValue 0) (mx_supply m) cap))
       (\<lambda>(accounts, burned).
          give \<lparr>mx_session = dict_update_all accounts session, mx_supply = max 0 (mx_supply m - burned),
                mx_burned = mx_burned m + burned\<rparr>)))"

fun mixed_loop :: "'s chain_env \<Rightarrow> effects_kernel \<Rightarrow> chain_block \<Rightarrow> int \<Rightarrow> transaction list \<Rightarrow> mixed_state \<Rightarrow> ('s, mixed_state) action" where
  "mixed_loop E K b cap [] m = give m"
| "mixed_loop E K b cap (tx # txs) m = andthen (mixed_step E K b cap m tx) (mixed_loop E K b cap txs)"

definition apply_mixed_block_native :: "'s chain_env \<Rightarrow> effects_kernel \<Rightarrow> chain_block \<Rightarrow> ('s, int) action" where
  "apply_mixed_block_native E K b =
     (if ce_evm E = None then throw (Raised ''evm_unavailable'')
      else andthen (max_supply_satoshi E) (\<lambda>cap.
        andthen (accounts_snapshot E (collect_addrs (ce_config E) b)) (\<lambda>session.
        andthen (supply_satoshi E) (\<lambda>supply.
        andthen (mixed_loop E K b cap (bk_txs b) \<lparr>mx_session = session, mx_supply = supply, mx_burned = 0\<rparr>) (\<lambda>m.
        let miner = filter (\<lambda>a. a \<noteq> []) [bk_miner b] in
        andthen (ensure_rows E miner (mx_session m)) (\<lambda>session2.
        andthen (of_kernel (K (ce_config E) (restrict_rows miner session2) [] (bk_miner b) (cc_block_reward (ce_config E)) (mx_supply m) cap))
          (\<lambda>(accounts, ignored).
        andthen (writeback_accounts E (dict_update_all accounts session2)) (\<lambda>u. give (mx_burned m)))))))))"

section \<open>The block\<close>

fun apply_txs :: "'s chain_env \<Rightarrow> int \<Rightarrow> string \<Rightarrow> transaction list \<Rightarrow> ('s, int) action" where
  "apply_txs E h miner [] = give 0"
| "apply_txs E h miner (tx # txs) =
     andthen (apply_transaction E tx h miner True) (\<lambda>out.
       case out of
         Refused r \<Rightarrow> throw (Raised r)
       | Applied rc \<Rightarrow> andthen (apply_txs E h miner txs) (\<lambda>burned. give (rc_burned rc + burned)))"

definition apply_block_python :: "'s chain_env \<Rightarrow> chain_block \<Rightarrow> ('s, int) action" where
  "apply_block_python E b =
     andthen (apply_txs E (bk_height b) (bk_miner b) (bk_txs b)) (\<lambda>burned.
     andthen (apply_block_reward E (bk_miner b) True) (\<lambda>r. give burned))"

text \<open>
  A native attempt: \<open>None\<close> when it was not made or failed in a mode that falls back; the store is then what the attempt
  left.
\<close>

definition try_native :: "'s chain_env \<Rightarrow> bool \<Rightarrow> ('s, int) action \<Rightarrow> ('s, int option) action" where
  "try_native E applies f s =
     (if \<not> applies then (s, ret None)
      else case f s of
          (t, Inr n) \<Rightarrow> (t, ret (Some n))
        | (t, Inl e) \<Rightarrow> if cc_fail_closed (ce_config E) then (t, raise e) else (t, ret None))"

definition orelse_native :: "('s, int option) action \<Rightarrow> ('s, int option) action \<Rightarrow> ('s, int option) action" where
  "orelse_native f g = andthen f (\<lambda>r. case r of Some n \<Rightarrow> give (Some n) | None \<Rightarrow> g)"

definition apply_block_mutations :: "'s chain_env \<Rightarrow> apply_kernels \<Rightarrow> chain_block \<Rightarrow> ('s, int \<times> bool) action" where
  "apply_block_mutations E K b =
     andthen
       (orelse_native
         (case nk_simple K of None \<Rightarrow> give None
          | Some f \<Rightarrow> try_native E (block_transactions_are_simple (bk_txs b)) (apply_simple_block_native E f b))
       (case nk_effects K of None \<Rightarrow> give None
        | Some f \<Rightarrow>
            orelse_native
              (try_native E (block_transactions_are_all_evm E (bk_txs b)) (apply_evm_host_block_native E f b))
              (try_native E (block_transactions_are_mixed E (bk_txs b)) (apply_mixed_block_native E f b))))
       (\<lambda>r. case r of
            Some burned \<Rightarrow> give (burned, True)
          | None \<Rightarrow> andthen (apply_block_python E b) (\<lambda>burned. give (burned, False)))"

section \<open>Inside \<open>storage.atomic()\<close>\<close>

datatype root_mode = RootStrict | RootLegacyWarn | RootSkip

record root_policy =
  rp_verify :: bool
  rp_strict_p2p :: bool
  rp_baseline :: int

definition state_root_check_mode :: "root_policy \<Rightarrow> int \<Rightarrow> string \<Rightarrow> bool \<Rightarrow> root_mode" where
  "state_root_check_mode rp h peer_root preserve =
     (let r = py_strip peer_root in
      if \<not> rp_verify rp then RootSkip
      else if r = [] then RootSkip
      else if length r < 64 then RootLegacyWarn
      else if preserve then
        (if rp_strict_p2p rp then (if h \<le> rp_baseline rp then RootLegacyWarn else RootStrict) else RootLegacyWarn)
      else if h \<le> rp_baseline rp then RootLegacyWarn else RootStrict)"

text \<open>
  The mutations of \<open>add_block\<close> and the comparison with the root a peer sent; \<open>seal\<close> stands for the hash check, the
  record of the proposal and the rows of the chain that follow. \<open>root_of\<close> is the state root of a store. The genesis block of
  a peer skips the mutations.
\<close>

definition skips_mutations :: "chain_block \<Rightarrow> bool \<Rightarrow> bool" where
  "skips_mutations b preserve \<longleftrightarrow> preserve \<and> bk_height b = 0 \<and> bk_txs b = [] \<and> bk_miner b = ''genesis''"

definition execute_block ::
  "'s chain_env \<Rightarrow> apply_kernels \<Rightarrow> root_policy \<Rightarrow> ('s \<Rightarrow> string) \<Rightarrow> (string \<Rightarrow> ('s, unit) action) \<Rightarrow> chain_block \<Rightarrow> bool \<Rightarrow> ('s, unit) action" where
  "execute_block E K rp root_of seal b preserve =
     (let skip = skips_mutations b preserve in
      andthen (if skip then give () else andthen (apply_block_mutations E K b) (\<lambda>r. give ())) (\<lambda>u s.
        let computed = root_of s; peer = (if preserve then bk_state_root b else []); mode = state_root_check_mode rp (bk_height b) peer preserve
        in if peer \<noteq> [] \<and> mode \<noteq> RootSkip \<and> py_strip peer \<noteq> computed \<and> (mode = RootStrict \<or> skip)
           then (s, raise (Raised ''state_root_mismatch''))
           else seal (if skip \<and> peer \<noteq> [] then py_strip peer else computed) s))"

section \<open>Replay\<close>

text \<open>The blocks of the chain by height; a missing one raises; the float of the satoshi burned is not kept.\<close>

fun replay_blocks :: "'s chain_env \<Rightarrow> (int \<Rightarrow> chain_block option) \<Rightarrow> int list \<Rightarrow> ('s, unit) action" where
  "replay_blocks E chain [] = give ()"
| "replay_blocks E chain (h # hs) =
     (case chain h of
        None \<Rightarrow> throw (Raised ''missing_block_at_replay'')
      | Some b \<Rightarrow> andthen (apply_block_python E b) (\<lambda>n. replay_blocks E chain hs))"

definition blocks_range_are_simple :: "(int \<Rightarrow> chain_block option) \<Rightarrow> int \<Rightarrow> int \<Rightarrow> bool" where
  "blocks_range_are_simple chain a b =
     list_all (\<lambda>h. case chain h of None \<Rightarrow> False | Some bk \<Rightarrow> list_all tx_is_simple (bk_txs bk)) [a .. b]"

definition replay_simple_range_native ::
  "'s chain_env \<Rightarrow> (chain_config \<Rightarrow> snapshot \<Rightarrow> (string \<times> transaction list) list \<Rightarrow> int \<Rightarrow> int \<Rightarrow> (snapshot \<times> int) option) \<Rightarrow>
   (int \<Rightarrow> chain_block option) \<Rightarrow> int \<Rightarrow> (string, number) dict \<Rightarrow> ('s, unit) action" where
  "replay_simple_range_native E K chain ancestor alloc =
     andthen (each (\<lambda>(a, x). andthen (attempt (amount_result (to_satoshi (ce_amount E) x))) (\<lambda>n. give (a, n, 0))) alloc) (\<lambda>accounts.
     andthen (max_supply_satoshi E) (\<lambda>cap.
     andthen (each (\<lambda>h. case chain h of None \<Rightarrow> throw (Raised ''missing_block_at_replay'') | Some b \<Rightarrow> give (bk_miner b, bk_txs b)) [1 .. ancestor]) (\<lambda>blocks.
     andthen (of_kernel (K (ce_config E) accounts blocks (sum_list (map (fst \<circ> snd) accounts)) cap)) (\<lambda>(rows, burned).
     writeback_accounts E rows))))"

definition replay_from_ancestor ::
  "'s chain_env \<Rightarrow> apply_kernels \<Rightarrow> (int \<Rightarrow> chain_block option) \<Rightarrow> int \<Rightarrow> (string, number) dict \<Rightarrow> ('s, unit) action" where
  "replay_from_ancestor E K chain ancestor alloc =
     (case nk_replay K of
        Some f \<Rightarrow>
          (if 1 \<le> ancestor \<and> blocks_range_are_simple chain 1 ancestor
           then replay_simple_range_native E f chain ancestor alloc else replay_blocks E chain [1 .. ancestor])
      | None \<Rightarrow> replay_blocks E chain [1 .. ancestor])"

text \<open>
  The replay of \<open>reorg_to_ancestor\<close>: the accounts go back to the allocation of genesis, then the native replay, or the
  Python loop when it failed and falling back is allowed.
\<close>

definition reorg_replay ::
  "'s chain_env \<Rightarrow> apply_kernels \<Rightarrow> (int \<Rightarrow> chain_block option) \<Rightarrow> ((string, number) dict \<Rightarrow> ('s, unit) action) \<Rightarrow> int \<Rightarrow>
   (string, number) dict \<Rightarrow> ('s, unit) action" where
  "reorg_replay E K chain reset ancestor alloc =
     andthen (reset alloc) (\<lambda>u.
     andthen
       (case nk_replay K of
          None \<Rightarrow> give None
        | Some f \<Rightarrow>
            try_native E (1 \<le> ancestor \<and> blocks_range_are_simple chain 1 ancestor)
              (andthen (replay_simple_range_native E f chain ancestor alloc) (\<lambda>u. give 0)))
       (\<lambda>r. case r of Some n \<Rightarrow> give () | None \<Rightarrow> replay_blocks E chain [1 .. ancestor]))"

end
