(* ===== verification/Ledger.thy ===== *)
theory Ledger
  imports Block_Apply
begin

text \<open>
  What the state service needs of its storage, as the locale \<open>account_store\<close>: balances and nonces that are read as they
  were written. From it follow what a transfer, a block and a reward do to the balances, the nonces and the supply. The
  SQL connection is interpreted in it (\<open>sql\<close>); RocksDB inside a batch is not an instance (\<open>Ledger_Props\<close>).
\<close>

section \<open>The sum of the balances\<close>

definition holdings :: "(string \<Rightarrow> int) \<Rightarrow> int" where
  "holdings f = (\<Sum>a | f a \<noteq> 0. f a)"

definition credited :: "string \<Rightarrow> int \<Rightarrow> (string \<Rightarrow> int) \<Rightarrow> string \<Rightarrow> int" where
  "credited a d f = f(a := max 0 (f a + d))"

lemma holdings_superset: "finite A \<Longrightarrow> {a. f a \<noteq> 0} \<subseteq> A \<Longrightarrow> holdings f = sum f A"
  unfolding holdings_def by (rule sum.mono_neutral_left) auto

lemma support_upd: "finite {a. f a \<noteq> 0} \<Longrightarrow> finite {b. (f(a := v)) b \<noteq> (0::int)}"
  by (rule finite_subset [of _ "insert a {a. f a \<noteq> 0}"]) auto

lemma holdings_upd:
  assumes "finite {a. f a \<noteq> 0}"
  shows "holdings (f(a := v)) = holdings f - f a + v"
proof -
  let ?A = "insert a {a. f a \<noteq> 0}"
  have "holdings (f(a := v)) = sum (f(a := v)) ?A" using assms by (intro holdings_superset) auto
  also have "\<dots> = v + sum (f(a := v)) (?A - {a})" using assms by (subst sum.remove [of _ a]) auto
  also have "sum (f(a := v)) (?A - {a}) = sum f (?A - {a})" by (intro sum.cong) auto
  also have "sum f (?A - {a}) = sum f ?A - f a" using assms by (subst sum.remove [of ?A a]) auto
  also have "sum f ?A = holdings f" using assms by (intro holdings_superset [symmetric]) auto
  finally show ?thesis by linarith
qed

lemma holdings_nonneg: "(\<And>a. 0 \<le> f a) \<Longrightarrow> 0 \<le> holdings f"
  unfolding holdings_def by (rule sum_nonneg) simp

lemma holdings_credited:
  assumes "finite {a. f a \<noteq> 0}" "0 \<le> f a + d"
  shows "holdings (credited a d f) = holdings f + d"
  using holdings_upd [OF assms(1)] assms(2) by (simp add: credited_def)

lemma credited_0: "0 \<le> f a \<Longrightarrow> credited a 0 f = f"
  by (simp add: credited_def)

lemma credited_nonneg: "(\<And>b. 0 \<le> f b) \<Longrightarrow> 0 \<le> credited a d f b"
  by (simp add: credited_def)

text \<open>The balances after a transfer: the sender pays the total, value, fee and burn are credited.\<close>

definition moved :: "chain_config \<Rightarrow> string \<Rightarrow> transaction \<Rightarrow> fee_plan \<Rightarrow> (string \<Rightarrow> int) \<Rightarrow> string \<Rightarrow> int" where
  "moved cfg proposer tx p f =
     (let g = credited proposer (pl_miner p) (credited (tx_to tx) (pl_value p) (credited (tx_from tx) (- pl_total p) f))
      in if 0 < pl_burned p \<and> cc_burn_address cfg \<noteq> [] then credited (cc_burn_address cfg) (pl_burned p) g else g)"

definition lost_burn :: "chain_config \<Rightarrow> int \<Rightarrow> int" where
  "lost_burn cfg b = (if cc_burn_address cfg = [] then b else 0)"

lemma moved_holdings:
  assumes fin: "finite {a. f a \<noteq> 0}" and nn: "\<And>a. 0 \<le> f a"
    and p: "0 \<le> pl_burned p" "0 \<le> pl_miner p" "0 \<le> pl_value p" "pl_total p = pl_value p + pl_burned p + pl_miner p"
    and enough: "pl_total p \<le> f (tx_from tx)"
  shows "holdings (moved cfg proposer tx p f) = holdings f - lost_burn cfg (pl_burned p)"
proof -
  define f1 where "f1 = credited (tx_from tx) (- pl_total p) f"
  define f2 where "f2 = credited (tx_to tx) (pl_value p) f1"
  define f3 where "f3 = credited proposer (pl_miner p) f2"
  have fin1: "finite {a. f1 a \<noteq> 0}" unfolding f1_def credited_def by (rule support_upd [OF fin])
  have fin2: "finite {a. f2 a \<noteq> 0}" unfolding f2_def credited_def by (rule support_upd [OF fin1])
  have fin3: "finite {a. f3 a \<noteq> 0}" unfolding f3_def credited_def by (rule support_upd [OF fin2])
  have nn1: "0 \<le> f1 a" for a unfolding f1_def using nn by (rule credited_nonneg)
  have nn2: "0 \<le> f2 a" for a unfolding f2_def using nn1 by (rule credited_nonneg)
  have nn3: "0 \<le> f3 a" for a unfolding f3_def using nn2 by (rule credited_nonneg)
  have h1: "holdings f1 = holdings f - pl_total p" unfolding f1_def using fin enough by (subst holdings_credited) auto
  have h2: "holdings f2 = holdings f1 + pl_value p" unfolding f2_def using fin1 nn1 [of "tx_to tx"] p by (intro holdings_credited) auto
  have h3: "holdings f3 = holdings f2 + pl_miner p" unfolding f3_def using fin2 nn2 [of proposer] p by (intro holdings_credited) auto
  have h4: "holdings (credited (cc_burn_address cfg) (pl_burned p) f3) = holdings f3 + pl_burned p"
    using fin3 nn3 [of "cc_burn_address cfg"] p by (intro holdings_credited) auto
  show ?thesis
    unfolding moved_def Let_def f1_def [symmetric] f2_def [symmetric] f3_def [symmetric]
    using h1 h2 h3 h4 p by (auto simp: lost_burn_def)
qed

section \<open>The interface\<close>

locale account_store =
  fixes P :: "'s account_port" and good :: "'s \<Rightarrow> bool" and bal :: "'s \<Rightarrow> string \<Rightarrow> int" and nonces :: "'s \<Rightarrow> string \<Rightarrow> int"
  assumes read_balance: "good s \<Longrightarrow> sp_balance P a s = Inr (bal s a)"
    and read_nonce: "good s \<Longrightarrow> sp_nonce P a s = Inr (nonces s a)"
    and read_supply: "good s \<Longrightarrow> holdings (bal s) < 10 ^ 15 \<Longrightarrow>
      \<exists>x. sp_supply P s = Inr x \<and> to_satoshi no_native (str_number x) = Inr (holdings (bal s))"
    and nonneg: "good s \<Longrightarrow> 0 \<le> bal s a"
    and finite_support: "good s \<Longrightarrow> finite {a. bal s a \<noteq> 0}"
    and credit: "good s \<Longrightarrow> \<exists>t. sp_credit P a d s = (t, Inr ()) \<and> good t \<and> bal t = credited a d (bal s) \<and> nonces t = nonces s"
    and bump: "good s \<Longrightarrow> \<exists>t. sp_bump P a s = (t, Inr ()) \<and> good t \<and> bal t = bal s \<and> nonces t = (nonces s)(a := nonces s a + 1)"
    and set_pools: "good s \<Longrightarrow> \<exists>t. sp_set_pools P p s = (t, Inr ()) \<and> good t \<and> bal t = bal s \<and> nonces t = nonces s"
begin

definition served_by :: "'s chain_env \<Rightarrow> bool" where
  "served_by E \<longleftrightarrow> ce_store E = P \<and> ce_amount E = no_native"

definition moves_to :: "'s \<Rightarrow> 's \<Rightarrow> (string \<Rightarrow> int) \<Rightarrow> (string \<Rightarrow> int) \<Rightarrow> bool" where
  "moves_to s t f n \<longleftrightarrow> good t \<and> bal t = f \<and> nonces t = n"

lemma credit_sat_moves:
  assumes "served_by E" "good s"
  shows "\<exists>t. credit_sat E True a d s = (t, Inr ()) \<and> moves_to s t (credited a d (bal s)) (nonces s)"
proof (cases "d = 0")
  case True
  thus ?thesis using assms nonneg [OF assms(2), of a] by (auto simp: credit_sat_def moves_to_def credited_0)
next
  case False
  thus ?thesis using assms credit [OF assms(2), of a d] by (auto simp: credit_sat_def moves_to_def served_by_def)
qed

lemma spending_moves:
  assumes "served_by E" "good s"
  shows "\<exists>t. record_spending E a x s = (t, Inr ()) \<and> moves_to s t (bal s) (nonces s)"
  using assms set_pools [OF assms(2)]
  by (auto simp: record_spending_def moves_to_def served_by_def split: option.splits)

lemma float_of_sat_ok: "served_by E \<Longrightarrow> float_of_sat E n = Inr (f64 (from_satoshi n))"
  by (simp add: float_of_sat_def served_by_def from_satoshi_float_def amount_result_def)

lemma plan_floats_ok: "served_by E \<Longrightarrow> plan_floats E p s = (s, Inr (f64 (from_satoshi (pl_total p))))"
  by (simp add: plan_floats_def fee_floats_def andthen_def float_of_sat_ok)

lemma credit_fee_moves:
  assumes "served_by E" "good s"
  shows "\<exists>t. credit_fee E True proposer p s = (t, Inr ()) \<and>
    moves_to s t (if 0 < pl_burned p \<and> cc_burn_address (ce_config E) \<noteq> []
      then credited (cc_burn_address (ce_config E)) (pl_burned p) (credited proposer (pl_miner p) (bal s))
      else credited proposer (pl_miner p) (bal s)) (nonces s)"
proof -
  obtain t where t: "credit_sat E True proposer (pl_miner p) s = (t, Inr ())" "moves_to s t (credited proposer (pl_miner p) (bal s)) (nonces s)"
    using credit_sat_moves [OF assms] by blast
  hence "good t" by (simp add: moves_to_def)
  from credit_sat_moves [OF assms(1) this] obtain u where
    "credit_sat E True (cc_burn_address (ce_config E)) (pl_burned p) t = (u, Inr ())"
    "moves_to t u (credited (cc_burn_address (ce_config E)) (pl_burned p) (bal t)) (nonces t)" by blast
  thus ?thesis using t by (auto simp: credit_fee_def andthen_def moves_to_def)
qed

text \<open>A transfer that is applied moves the money of its plan and nothing else, and takes one nonce of its sender.\<close>

lemma apply_transfer_moves:
  assumes "served_by E" "good s"
  shows "\<exists>t. apply_transfer E True proposer tx p cost s = (t, Inr (Applied \<lparr>rc_fee = pl_fee p, rc_burned = pl_burned p,
      rc_miner_fee = pl_miner p, rc_gas_used = tx_gas tx, rc_evm = False, rc_contract = []\<rparr>)) \<and>
    moves_to s t (moved (ce_config E) proposer tx p (bal s)) ((nonces s)(tx_from tx := nonces s (tx_from tx) + 1))"
proof -
  obtain t1 where t1: "credit_sat E True (tx_from tx) (- pl_total p) s = (t1, Inr ())"
      "moves_to s t1 (credited (tx_from tx) (- pl_total p) (bal s)) (nonces s)"
    using credit_sat_moves [OF assms] by blast
  hence g1: "good t1" by (simp add: moves_to_def)
  obtain t2 where t2: "credit_sat E True (tx_to tx) (pl_value p) t1 = (t2, Inr ())"
      "moves_to t1 t2 (credited (tx_to tx) (pl_value p) (bal t1)) (nonces t1)"
    using credit_sat_moves [OF assms(1) g1] by blast
  hence g2: "good t2" by (simp add: moves_to_def)
  obtain t3 where t3: "credit_fee E True proposer p t2 = (t3, Inr ())" "moves_to t2 t3 (if 0 < pl_burned p \<and> cc_burn_address (ce_config E) \<noteq> []
      then credited (cc_burn_address (ce_config E)) (pl_burned p) (credited proposer (pl_miner p) (bal t2))
      else credited proposer (pl_miner p) (bal t2)) (nonces t2)"
    using credit_fee_moves [OF assms(1) g2] by blast
  hence g3: "good t3" by (simp add: moves_to_def)
  obtain t4 where t4: "sp_bump P (tx_from tx) t3 = (t4, Inr ())" "good t4" "bal t4 = bal t3"
      "nonces t4 = (nonces t3)(tx_from tx := nonces t3 (tx_from tx) + 1)"
    using bump [OF g3] by blast
  obtain t5 where t5: "record_spending E (tx_from tx) cost t4 = (t5, Inr ())" "moves_to t4 t5 (bal t4) (nonces t4)"
    using spending_moves [OF assms(1) t4(2)] by blast
  have "bump_nonce E True (tx_from tx) t3 = (t4, Inr ())" using t4 assms(1) by (simp add: bump_nonce_def served_by_def)
  with t1 t2 t3 t4 t5 show ?thesis
    by (auto simp: apply_transfer_def andthen_def moves_to_def moved_def Let_def)
qed

end

section \<open>Plain transactions\<close>

text \<open>A transaction that does not reach the EVM: it carries no data, or no EVM is attached.\<close>

definition plain_tx :: "'s chain_env \<Rightarrow> transaction \<Rightarrow> bool" where
  "plain_tx E tx \<longleftrightarrow> tx_data tx = [] \<or> ce_evm E = None"

lemma plain_body: "plain_tx E tx \<Longrightarrow> apply_body E tx h proposer ia p cost b = apply_transfer E ia proposer tx p cost"
  by (auto simp: apply_body_def plain_tx_def split: list.splits option.splits)

text \<open>What the code checks of a transaction's shape before it takes it into a block of its own.\<close>

definition sound_shape :: "transaction \<Rightarrow> bool" where
  "sound_shape tx \<longleftrightarrow> 0 \<le> tx_gas tx \<and> \<not> negative_number (tx_value tx)"

lemma value_nonneg: "to_satoshi no_native v = Inr n \<Longrightarrow> \<not> negative_number v \<Longrightarrow> 0 \<le> n"
  by (erule to_satoshi_Inr) (simp add: negative_number_def)

lemma plan_sound:
  assumes "plan_transfer_fees_sat no_native (tx_gas tx) price rate (tx_value tx) used = Inr p" "sound_shape tx"
  shows "0 \<le> pl_burned p" "0 \<le> pl_miner p" "0 \<le> pl_value p" "pl_total p = pl_value p + pl_burned p + pl_miner p" "0 \<le> pl_total p"
proof -
  have "0 \<le> tx_gas tx" using assms(2) by (simp add: sound_shape_def)
  note P = plan_split [OF assms(1) this]
  show 1: "0 \<le> pl_burned p" "0 \<le> pl_miner p" using P by linarith+
  show 2: "0 \<le> pl_value p" using value_nonneg [OF P(5)] assms(2) by (simp add: sound_shape_def)
  show 3: "pl_total p = pl_value p + pl_burned p + pl_miner p" using P by linarith
  show "0 \<le> pl_total p" using 1 2 3 by linarith
qed

section \<open>A transaction, a block, a reward\<close>

definition sent_by :: "string \<Rightarrow> transaction list \<Rightarrow> int" where
  "sent_by a txs = int (length (filter (\<lambda>t. tx_from t = a) txs))"

lemma sent_by_simps [simp]: "sent_by a [] = 0" "sent_by a (t # ts) = (if tx_from t = a then 1 else 0) + sent_by a ts"
  by (simp_all add: sent_by_def)

lemma sent_by_nonneg: "0 \<le> sent_by a txs"
  by (simp add: sent_by_def)

definition block_plain :: "'s chain_env \<Rightarrow> transaction list \<Rightarrow> bool" where
  "block_plain E txs \<longleftrightarrow> list_all (\<lambda>tx. plain_tx E tx \<and> sound_shape tx) txs"

definition chain_plain :: "'s chain_env \<Rightarrow> (int \<Rightarrow> chain_block option) \<Rightarrow> bool" where
  "chain_plain E chain \<longleftrightarrow> (\<forall>h b. chain h = Some b \<longrightarrow> block_plain E (bk_txs b))"

lemma chain_plainD: "chain_plain E chain \<Longrightarrow> chain h = Some b \<Longrightarrow> block_plain E (bk_txs b)"
  by (simp add: chain_plain_def)

lemma block_plain_simps [simp]:
  "block_plain E []" "block_plain E (tx # txs) \<longleftrightarrow> plain_tx E tx \<and> sound_shape tx \<and> block_plain E txs"
  by (auto simp: block_plain_def)

context account_store
begin

lemma plan_served: "served_by E \<Longrightarrow> tx_plan E tx None =
    plan_transfer_fees_sat no_native (tx_gas tx) (cc_gas_price (ce_config E)) (cc_burn_rate (ce_config E)) (tx_value tx) None"
  by (simp add: tx_plan_def served_by_def)

lemma apply_transaction_eq:
  assumes "served_by E" "good s" "plain_tx E tx"
  shows "apply_transaction E tx h who True s =
    (case tx_plan E tx None of
       Inl e \<Rightarrow> (s, Inl (AmountFault e))
     | Inr p \<Rightarrow>
         if tx_nonce tx \<noteq> nonces s (tx_from tx) then (s, Inr (Refused ''nonce_mismatch''))
         else if \<not> can_afford_transfer_sat (bal s (tx_from tx)) (pl_total p) then (s, Inr (Refused ''insufficient_funds''))
         else andthen (asks (check_locks E (tx_from tx) (f64 (from_satoshi (pl_total p))) (bal s (tx_from tx)))) (\<lambda>v.
              after_verdict (ret v) (after_verdict (ret (verify_tx_signature (ce_config E) (ce_crypto E) tx))
                (apply_transfer E True (effective_proposer (ce_config E) who) tx p (f64 (from_satoshi (pl_total p)))))) s)"
proof -
  have st: "sp_nonce (ce_store E) (tx_from tx) s = Inr (nonces s (tx_from tx))" "sp_balance (ce_store E) (tx_from tx) s = Inr (bal s (tx_from tx))"
    using assms(1,2) read_nonce read_balance by (simp_all add: served_by_def)
  show ?thesis
    unfolding apply_transaction_def Let_def plain_body [OF assms(3)]
    by (cases "tx_plan E tx None") (simp_all add: andthen_def amount_result_def plan_floats_ok [OF assms(1)] st)
qed

lemma applied_moves:
  assumes E: "served_by E" "good s" "plain_tx E tx" and run: "apply_transaction E tx h who True s = (t, Inr (Applied rc))"
  obtains p where "tx_plan E tx None = Inr p" "tx_nonce tx = nonces s (tx_from tx)" "pl_total p \<le> bal s (tx_from tx)"
    "rc_burned rc = pl_burned p" "rc_fee rc = pl_fee p"
    "moves_to s t (moved (ce_config E) (effective_proposer (ce_config E) who) tx p (bal s)) ((nonces s)(tx_from tx := nonces s (tx_from tx) + 1))"
proof -
  let ?who = "effective_proposer (ce_config E) who"
  from run obtain p where p: "tx_plan E tx None = Inr p" "tx_nonce tx = nonces s (tx_from tx)"
      "can_afford_transfer_sat (bal s (tx_from tx)) (pl_total p)"
      "apply_transfer E True ?who tx p (f64 (from_satoshi (pl_total p))) s = (t, Inr (Applied rc))"
    unfolding apply_transaction_eq [OF E]
    by (auto simp: andthen_def after_verdict_def split: sum.splits if_splits verdict.splits)
  obtain u where u: "apply_transfer E True ?who tx p (f64 (from_satoshi (pl_total p))) s = (u, Inr (Applied \<lparr>rc_fee = pl_fee p, rc_burned = pl_burned p,
      rc_miner_fee = pl_miner p, rc_gas_used = tx_gas tx, rc_evm = False, rc_contract = []\<rparr>))"
    "moves_to s u (moved (ce_config E) ?who tx p (bal s)) ((nonces s)(tx_from tx := nonces s (tx_from tx) + 1))"
    using apply_transfer_moves [OF E(1,2)] by blast
  have "pl_total p \<le> bal s (tx_from tx)" using p(3) by (simp add: can_afford_transfer_sat_def)
  moreover have "u = t" "rc_burned rc = pl_burned p" "rc_fee rc = pl_fee p" using p(4) u(1) by auto
  ultimately show thesis using that [of p] p u(2) by simp
qed

lemma applied_conserves:
  assumes E: "served_by E" "good s" "plain_tx E tx" "sound_shape tx" and run: "apply_transaction E tx h who True s = (t, Inr (Applied rc))"
  shows "good t" "holdings (bal t) = holdings (bal s) - lost_burn (ce_config E) (rc_burned rc)"
    "nonces t = (nonces s)(tx_from tx := nonces s (tx_from tx) + 1)" "0 \<le> rc_burned rc" "tx_nonce tx = nonces s (tx_from tx)"
proof -
  obtain p where p: "tx_plan E tx None = Inr p" "tx_nonce tx = nonces s (tx_from tx)" "pl_total p \<le> bal s (tx_from tx)"
    "rc_burned rc = pl_burned p"
    "moves_to s t (moved (ce_config E) (effective_proposer (ce_config E) who) tx p (bal s)) ((nonces s)(tx_from tx := nonces s (tx_from tx) + 1))"
    using applied_moves [OF E(1-3) run] by metis
  note q = plan_sound [OF p(1) [unfolded plan_served [OF E(1)]] E(4)]
  show "good t" "nonces t = (nonces s)(tx_from tx := nonces s (tx_from tx) + 1)" "tx_nonce tx = nonces s (tx_from tx)"
    using p by (simp_all add: moves_to_def)
  show "0 \<le> rc_burned rc" using p(4) q by simp
  show "holdings (bal t) = holdings (bal s) - lost_burn (ce_config E) (rc_burned rc)"
    using moved_holdings [OF finite_support [OF E(2)] nonneg [OF E(2)] q(1,2,3,4) p(3)] p(4,5) by (simp add: moves_to_def)
qed

lemma apply_txs_conserves:
  assumes "served_by E" "good s" "block_plain E txs" "apply_txs E h who txs s = (t, Inr burned)"
  shows "good t \<and> holdings (bal t) = holdings (bal s) - lost_burn (ce_config E) burned \<and> 0 \<le> burned \<and>
    nonces t = (\<lambda>a. nonces s a + sent_by a txs) \<and> (\<forall>tx \<in> set txs. nonces s (tx_from tx) \<le> tx_nonce tx \<and> tx_nonce tx < nonces t (tx_from tx))"
  using assms(2-)
proof (induction txs arbitrary: s burned)
  case (Cons tx txs)
  from Cons.prems(3) obtain u out where u: "apply_transaction E tx h who True s = (u, Inr out)"
      "(case out of Refused r \<Rightarrow> throw (Raised r) | Applied rc \<Rightarrow> andthen (apply_txs E h who txs) (\<lambda>b. give (rc_burned rc + b))) u = (t, Inr burned)"
    by (auto elim: andthen_cases)
  from u(2) obtain rc where rc: "out = Applied rc" by (cases out) auto
  with u(2) obtain b where b: "apply_txs E h who txs u = (t, Inr b)" "burned = rc_burned rc + b"
    by (auto elim!: andthen_cases)
  have shape: "plain_tx E tx" "sound_shape tx" "block_plain E txs" using Cons.prems(2) by simp_all
  note one = applied_conserves [OF assms(1) Cons.prems(1) shape(1,2) u(1) [unfolded rc]]
  note rest = Cons.IH [OF one(1) shape(3) b(1)]
  have n: "nonces t = (\<lambda>a. nonces s a + sent_by a (tx # txs))" using rest one(3) by (auto simp: fun_eq_iff)
  have "nonces s a \<le> nonces u a" for a using one(3) by simp
  hence "\<forall>tx' \<in> set txs. nonces s (tx_from tx') \<le> tx_nonce tx' \<and> tx_nonce tx' < nonces t (tx_from tx')"
    using rest by (meson order.trans)
  moreover have "nonces s (tx_from tx) \<le> tx_nonce tx" "tx_nonce tx < nonces t (tx_from tx)"
    using one(5) sent_by_nonneg [of "tx_from tx" txs] by (simp_all add: n)
  ultimately show ?case using rest one b(2) n by (auto simp: lost_burn_def)
qed (simp add: lost_burn_def)

lemma reward_eq:
  assumes E: "served_by E" "good s" "holdings (bal s) < 10 ^ 15"
    and cap: "to_satoshi no_native (cc_max_supply (ce_config E)) = Inr cap" and full: "to_satoshi no_native (cc_block_reward (ce_config E)) = Inr full"
  defines "r \<equiv> if cap < holdings (bal s) + full then max 0 (cap - holdings (bal s)) else full"
  shows "\<exists>t. apply_block_reward E who True s = (t, Inr r) \<and> good t \<and> nonces t = nonces s \<and>
    holdings (bal t) = holdings (bal s) + max 0 r"
proof -
  obtain x where x: "sp_supply P s = Inr x" "to_satoshi no_native (str_number x) = Inr (holdings (bal s))"
    using read_supply [OF E(2,3)] by blast
  obtain t where t: "credit_sat E True who r s = (t, Inr ())" "moves_to s t (credited who r (bal s)) (nonces s)"
    using credit_sat_moves [OF E(1,2)] by blast
  have h: "0 < r \<Longrightarrow> holdings (credited who r (bal s)) = holdings (bal s) + r"
    using finite_support [OF E(2)] nonneg [OF E(2), of who] by (intro holdings_credited) auto
  have "apply_block_reward E who True s = (if 0 < r then (t, Inr r) else (s, Inr r))"
    using E(1) x cap full t(1) by (simp add: apply_block_reward_def andthen_def served_by_def amount_result_def r_def Let_def)
  thus ?thesis using t(2) h E(2) by (auto simp: moves_to_def)
qed

text \<open>A block: what is burned without a burn address leaves the supply, the reward enters it, below the cap.\<close>

lemma apply_block_supply:
  assumes E: "served_by E" "good s" "block_plain E (bk_txs b)" and small: "holdings (bal s) < 10 ^ 15"
    and cap: "to_satoshi no_native (cc_max_supply (ce_config E)) = Inr cap" and full: "to_satoshi no_native (cc_block_reward (ce_config E)) = Inr full"
    and run: "apply_block_python E b s = (t, Inr burned)"
  obtains r where "good t" "0 \<le> r" "r \<le> max 0 full" "0 \<le> burned"
    "holdings (bal t) = holdings (bal s) - lost_burn (ce_config E) burned + r" "holdings (bal t) \<le> max (holdings (bal s)) cap"
    "nonces t = (\<lambda>a. nonces s a + sent_by a (bk_txs b))"
proof -
  from run obtain u where u: "apply_txs E (bk_height b) (bk_miner b) (bk_txs b) s = (u, Inr burned)"
      "andthen (apply_block_reward E (bk_miner b) True) (\<lambda>r. give burned) u = (t, Inr burned)"
    unfolding apply_block_python_def by (auto elim!: andthen_cases [of "apply_txs E (bk_height b) (bk_miner b) (bk_txs b)"] simp: andthen_def split: prod.splits sum.splits)
  note c = apply_txs_conserves [OF E(1,2,3) u(1)]
  have lb: "0 \<le> lost_burn (ce_config E) burned" using c by (simp add: lost_burn_def)
  have gu: "good u" "holdings (bal u) < 10 ^ 15" using c lb small by auto
  define r where "r = (if cap < holdings (bal u) + full then max 0 (cap - holdings (bal u)) else full)"
  obtain t' where t': "apply_block_reward E (bk_miner b) True u = (t', Inr r)" "good t'" "nonces t' = nonces u"
      "holdings (bal t') = holdings (bal u) + max 0 r"
    using reward_eq [OF E(1) gu cap full] unfolding r_def by blast
  have tt: "t' = t" using u(2) t'(1) by (simp add: andthen_def)
  show thesis
  proof (rule that)
    show "holdings (bal t) = holdings (bal s) - lost_burn (ce_config E) burned + max 0 r" using t' c tt by simp
    show "holdings (bal t) \<le> max (holdings (bal s)) cap" using t' c lb tt unfolding r_def by (auto split: if_splits)
    show "max 0 r \<le> max 0 full" unfolding r_def by auto
  qed (use t' c tt in auto)
qed

lemma replay_supply:
  assumes E: "served_by E" and cap: "to_satoshi no_native (cc_max_supply (ce_config E)) = Inr cap" "cap < 10 ^ 15"
    and full: "to_satoshi no_native (cc_block_reward (ce_config E)) = Inr full"
    and blocks: "chain_plain E chain"
    and s: "good s" "holdings (bal s) \<le> cap" and run: "replay_blocks E chain hs s = (t, Inr ())"
  shows "good t \<and> holdings (bal t) \<le> cap \<and> (\<forall>a. nonces s a \<le> nonces t a)"
  using s run
proof (induction hs arbitrary: s)
  case (Cons h hs)
  then obtain b where b: "chain h = Some b" by (cases "chain h") auto
  with Cons.prems(3) obtain u n where u: "apply_block_python E b s = (u, Inr n)" "replay_blocks E chain hs u = (t, Inr ())"
    by (auto elim!: andthen_cases)
  have "holdings (bal s) < 10 ^ 15" using Cons.prems(2) cap(2) by simp
  from apply_block_supply [OF E Cons.prems(1) chain_plainD [OF blocks b] this cap(1) full u(1)]
  have "good u" "holdings (bal u) \<le> max (holdings (bal s)) cap" "nonces u = (\<lambda>a. nonces s a + sent_by a (bk_txs b))" by metis+
  with Cons.IH [OF _ _ u(2)] Cons.prems(2) sent_by_nonneg [of _ "bk_txs b"] show ?case
    by (simp add: max_def) (smt (verit) sent_by_nonneg)
qed simp

end

section \<open>The SQL connection\<close>

definition sql_good :: "sql_conn \<Rightarrow> bool" where
  "sql_good c \<longleftrightarrow> distinct (dict_keys (st_accounts (sc_live c))) \<and>
     (\<forall>(a, r) \<in> set (st_accounts (sc_live c)). \<exists>n. sa_satoshi r = Some n \<and> 0 \<le> n)"

definition sql_bal :: "sql_conn \<Rightarrow> string \<Rightarrow> int" where
  "sql_bal c a = (case sql_row a c of None \<Rightarrow> 0 | Some r \<Rightarrow> (case sa_satoshi r of None \<Rightarrow> 0 | Some n \<Rightarrow> n))"

definition sql_nonces :: "sql_conn \<Rightarrow> string \<Rightarrow> int" where
  "sql_nonces c a = (case sql_row a c of None \<Rightarrow> 0 | Some r \<Rightarrow> sa_nonce r)"

lemma sql_row_good: "sql_good c \<Longrightarrow> sql_row a c = Some r \<Longrightarrow> \<exists>n. sa_satoshi r = Some n \<and> 0 \<le> n"
  by (fastforce simp: sql_good_def sql_row_def dest: map_of_SomeD)

lemma sql_row_write [simp]:
  "sql_row b (sql_write (\<lambda>t. t\<lparr>st_accounts := dict_set a (v t) (st_accounts t)\<rparr>) c) = (if b = a then Some (v (sc_live c)) else sql_row b c)"
  by (simp add: sql_row_def sql_write_def update_conv)

lemma sql_good_write:
  assumes "sql_good c" "sa_satoshi (v (sc_live c)) = Some n" "0 \<le> n"
  shows "sql_good (sql_write (\<lambda>t. t\<lparr>st_accounts := dict_set a (v t) (st_accounts t)\<rparr>) c)"
proof -
  let ?A = "st_accounts (sc_live c)"
  have "distinct (dict_keys (dict_set a (v (sc_live c)) ?A))" using assms(1) by (intro dict_set_keys) (simp add: sql_good_def)
  moreover have "\<exists>n. sa_satoshi r = Some n \<and> 0 \<le> n" if "(b, r) \<in> set (dict_set a (v (sc_live c)) ?A)" for b r
  proof -
    from that calculation have "map_of (dict_set a (v (sc_live c)) ?A) b = Some r" by simp
    hence "r = v (sc_live c) \<or> map_of ?A b = Some r" by (auto simp: update_conv split: if_splits)
    thus ?thesis using assms sql_row_good [OF assms(1), of b r] by (auto simp: sql_row_def)
  qed
  ultimately show ?thesis by (auto simp: sql_good_def sql_write_def)
qed

lemma satoshi_through_float:
  assumes "\<bar>n\<bar> < 10 ^ 15"
  shows "to_satoshi no_native (str_number (f64 (from_satoshi n))) = Inr n"
proof -
  have "\<bar>n\<bar> \<le> 10 ^ 28" "\<bar>n\<bar> < 10 ^ 28" using assms by simp_all
  hence e: "from_satoshi n = of_int n * 10 powi (-6)"
    unfolding from_satoshi_def by (subst satoshi_exact) (simp_all add: satoshi_multiplier_def power_int_minus field_simps)
  have "float_repr (f64 (from_satoshi n)) = from_satoshi n" using e assms by (rule repr_f64)
  thus ?thesis using to_satoshi_from [OF \<open>\<bar>n\<bar> < 10 ^ 28\<close>] by (simp add: str_number_def)
qed

lemma sql_total:
  assumes "sql_good c"
  shows "sum_list (map row_satoshi (dict_values (st_accounts (sc_live c)))) = holdings (sql_bal c)"
proof -
  let ?A = "st_accounts (sc_live c)"
  have d: "distinct (dict_keys ?A)" using assms by (simp add: sql_good_def)
  have v: "row_satoshi r = sql_bal c a" if "(a, r) \<in> set ?A" for a r
  proof -
    have "sql_row a c = Some r" using d that by (simp add: sql_row_def)
    thus ?thesis using sql_row_good [OF assms, of a r] by (auto simp: sql_bal_def row_satoshi_def)
  qed
  have "sum_list (map row_satoshi (dict_values ?A)) = sum_list (map (sql_bal c) (dict_keys ?A))"
    using v by (auto intro!: arg_cong [of _ _ sum_list] simp: comp_def)
  also have "\<dots> = sum (sql_bal c) (set (dict_keys ?A))" using d by (rule sum_list_distinct_conv_sum_set)
  also have "\<dots> = holdings (sql_bal c)"
    by (rule holdings_superset [symmetric]) (auto simp: sql_bal_def sql_row_def split: option.splits dest: map_of_key)
  finally show ?thesis .
qed

lemma sql_finite: "finite {a. sql_bal c a \<noteq> 0}"
  by (rule finite_subset [of _ "set (dict_keys (st_accounts (sc_live c)))"])
    (auto simp: sql_bal_def sql_row_def split: option.splits dest: map_of_key)

lemma sql_put_balance:
  assumes "sql_good c" "0 \<le> n"
  shows "\<exists>t. put_balance no_native a n c = (t, Inr ()) \<and> sql_good t \<and> sql_bal t = (sql_bal c)(a := n) \<and> sql_nonces t = sql_nonces c"
proof -
  let ?v = "\<lambda>t. case map_of (st_accounts t) a of
       None \<Rightarrow> \<lparr>sa_satoshi = Some n, sa_balance = f64 (from_satoshi n), sa_nonce = 0, sa_code = None, sa_storage = None\<rparr>
     | Some r \<Rightarrow> r\<lparr>sa_satoshi := Some n, sa_balance := f64 (from_satoshi n)\<rparr>"
  let ?t = "sql_write (\<lambda>t. t\<lparr>st_accounts := dict_set a (?v t) (st_accounts t)\<rparr>) c"
  have r: "put_balance no_native a n c = (?t, Inr ())" by (simp add: put_balance_def from_satoshi_float_def)
  have v: "sa_satoshi (?v (sc_live c)) = Some n" by (simp split: option.splits)
  have "sa_nonce (?v (sc_live c)) = sql_nonces c a" by (simp add: sql_nonces_def sql_row_def split: option.splits)
  hence "sql_nonces ?t = sql_nonces c" by (auto simp: sql_nonces_def fun_eq_iff)
  moreover have "sql_bal ?t = (sql_bal c)(a := n)" using v by (auto simp: sql_bal_def fun_eq_iff)
  ultimately show ?thesis using r sql_good_write [where v = ?v, OF assms(1) v assms(2)] by blast
qed

lemma sql_same_accounts:
  assumes "st_accounts (sc_live t) = st_accounts (sc_live c)"
  shows "sql_good t = sql_good c" "sql_bal t = sql_bal c" "sql_nonces t = sql_nonces c"
  using assms by (simp_all add: sql_good_def sql_bal_def sql_nonces_def sql_row_def fun_eq_iff)

interpretation sql: account_store "sql_port no_native" sql_good sql_bal sql_nonces
proof
  fix c :: sql_conn and a :: string and d :: int and p :: pool_state
  assume g: "sql_good c"
  have row: "sql_row a c = None \<or> (\<exists>r n. sql_row a c = Some r \<and> sa_satoshi r = Some n \<and> 0 \<le> n)"
    using sql_row_good [OF g, of a] by (cases "sql_row a c") auto
  show "sp_balance (sql_port no_native) a c = Inr (sql_bal c a)"
    using row by (auto simp: sql_port_def sql_balance_def sql_bal_def account_satoshi_def row_number_def amount_result_def)
  show "sp_nonce (sql_port no_native) a c = Inr (sql_nonces c a)"
    by (simp add: sql_port_def sql_nonce_def sql_nonces_def)
  show "0 \<le> sql_bal c a" using row by (auto simp: sql_bal_def)
  show "finite {a. sql_bal c a \<noteq> 0}" by (rule sql_finite)
  show "\<exists>x. sp_supply (sql_port no_native) c = Inr x \<and> to_satoshi no_native (str_number x) = Inr (holdings (sql_bal c))"
    if "holdings (sql_bal c) < 10 ^ 15"
  proof -
    have "0 \<le> sql_bal c b" for b using sql_row_good [OF g, of b] by (auto simp: sql_bal_def split: option.splits)
    hence "\<bar>holdings (sql_bal c)\<bar> < 10 ^ 15" using that holdings_nonneg [of "sql_bal c"] by simp
    moreover have "sql_supply no_native c = Inr (f64 (from_satoshi (holdings (sql_bal c))))"
      unfolding sql_supply_def sql_total [OF g] by (simp add: from_satoshi_float_def amount_result_def)
    ultimately show ?thesis using satoshi_through_float by (simp add: sql_port_def)
  qed
  have "current_satoshi no_native a c = Inr (sql_bal c a)" using row by (auto simp: current_satoshi_def sql_bal_def)
  moreover have "0 \<le> apply_satoshi_delta (sql_bal c a) d" by (simp add: apply_satoshi_delta_def)
  ultimately show "\<exists>t. sp_credit (sql_port no_native) a d c = (t, Inr ()) \<and> sql_good t \<and> sql_bal t = credited a d (sql_bal c) \<and> sql_nonces t = sql_nonces c"
    using sql_put_balance [OF g] by (simp add: sql_port_def sql_credit_def credited_def apply_satoshi_delta_def)
  let ?v = "\<lambda>t. case map_of (st_accounts t) a of
      None \<Rightarrow> \<lparr>sa_satoshi = Some 0, sa_balance = 0, sa_nonce = 1, sa_code = None, sa_storage = None\<rparr> | Some r \<Rightarrow> r\<lparr>sa_nonce := sa_nonce r + 1\<rparr>"
  let ?t = "sql_write (\<lambda>t. t\<lparr>st_accounts := dict_set a (?v t) (st_accounts t)\<rparr>) c"
  have v: "sa_satoshi (?v (sc_live c)) = Some (sql_bal c a)" "sa_nonce (?v (sc_live c)) = sql_nonces c a + 1" "0 \<le> sql_bal c a"
    using row by (auto simp: sql_bal_def sql_nonces_def sql_row_def)
  have "sql_good ?t" using sql_good_write [where v = ?v, OF g v(1,3)] .
  moreover have "sql_bal ?t = sql_bal c" "sql_nonces ?t = (sql_nonces c)(a := sql_nonces c a + 1)"
    using v by (auto simp: sql_bal_def sql_nonces_def fun_eq_iff)
  moreover have "sp_bump (sql_port no_native) a c = (?t, Inr ())" by (simp add: sql_port_def sql_bump_def)
  ultimately show "\<exists>t. sp_bump (sql_port no_native) a c = (t, Inr ()) \<and> sql_good t \<and> sql_bal t = sql_bal c \<and>
      sql_nonces t = (sql_nonces c)(a := sql_nonces c a + 1)" by blast
  let ?q = "sql_commit (sql_write (\<lambda>t. t\<lparr>st_pools := Some p\<rparr>) c)"
  have "st_accounts (sc_live ?q) = st_accounts (sc_live c)" by (simp add: sql_commit_def sql_write_def)
  from sql_same_accounts [OF this] g
  show "\<exists>t. sp_set_pools (sql_port no_native) p c = (t, Inr ()) \<and> sql_good t \<and> sql_bal t = sql_bal c \<and> sql_nonces t = sql_nonces c"
    by (simp add: sql_port_def sql_set_pools_def committing_def)
qed

end
