(* ===== verification/Ledger_Props.thy ===== *)
theory Ledger_Props
  imports Ledger
begin

text \<open>
  Properties of transactions and blocks on the SQL connection, from the lemmas of \<open>account_store\<close>: the supply, replay
  protection, the agreement of validation and application, and what the checks do not cover.
\<close>

section \<open>The node on SQL\<close>

definition sql_node :: "sql_conn chain_env \<Rightarrow> bool" where
  "sql_node E \<longleftrightarrow> ce_store E = sql_port no_native \<and> ce_amount E = no_native"

lemma sql_served: "sql_node E \<Longrightarrow> sql.served_by E"
  by (simp add: sql_node_def sql.served_by_def)

section \<open>An example\<close>

definition demo_config :: chain_config where
  "demo_config = \<lparr>cc_base_gas = 21000, cc_require_signatures = False, cc_gas_price = NumValue 1, cc_burn_rate = NumValue 2,
     cc_chain_id = 1, cc_burn_address = [], cc_block_reward = NumValue 50, cc_max_supply = NumValue 221000000,
     cc_miner_address = [], cc_evm_gas_limit = 21000, cc_fail_closed = False\<rparr>"

definition demo_crypto :: crypto_port where
  "demo_crypto = \<lparr>cy_available = True, cy_digest = (\<lambda>p. []), cy_verify = (\<lambda>m g k. True), cy_batch = None\<rparr>"

definition demo_env :: "sql_conn chain_env" where
  "demo_env = \<lparr>ce_config = demo_config, ce_store = sql_port no_native, ce_crypto = demo_crypto, ce_amount = no_native,
     ce_zk = NullZk, ce_locks = False, ce_evm = None\<rparr>"

definition demo_tx :: transaction where
  "demo_tx = \<lparr>tx_from = ''alice'', tx_to = ''bob'', tx_value = NumValue 5, tx_nonce = 0, tx_gas = 21000, tx_data = [],
     tx_hash = ''t'', tx_signature = [], tx_public_key = [], tx_zk = None\<rparr>"

definition demo_db :: sql_conn where
  "demo_db = (let t = \<lparr>st_accounts = [(''alice'', \<lparr>sa_satoshi = Some 30000000000, sa_balance = 30000, sa_nonce = 0, sa_code = None,
     sa_storage = None\<rparr>)], st_pools = None\<rparr> in \<lparr>sc_live = t, sc_saved = t, sc_open = False\<rparr>)"

definition demo_block :: chain_block where
  "demo_block = \<lparr>bk_height = 1, bk_miner = ''miner'', bk_txs = [demo_tx], bk_state_root = []\<rparr>"

lemma demo_facts:
  "sql_node demo_env" "sql_good demo_db" "plain_tx demo_env demo_tx" "sound_shape demo_tx" "sql_nonces demo_db ''alice'' = 0"
  "sql_bal demo_db ''alice'' = 30000000000" "ce_config demo_env = demo_config" "ce_crypto demo_env = demo_crypto"
  "ce_zk demo_env = NullZk" "\<not> ce_locks demo_env"
  by (simp_all add: sql_node_def demo_env_def sql_good_def demo_db_def plain_tx_def demo_tx_def sound_shape_def negative_number_def
      sql_nonces_def sql_bal_def sql_row_def Let_def)

lemma demo_holdings: "holdings (sql_bal demo_db) = 30000000000"
proof -
  have "sum_list (map row_satoshi (dict_values (st_accounts (sc_live demo_db)))) = 30000000000"
    by (simp add: demo_db_def row_satoshi_def Let_def)
  thus ?thesis using sql_total [OF demo_facts(2)] by simp
qed

lemma demo_amounts:
  "tx_plan demo_env demo_tx None = Inr demo_plan"
  "to_satoshi no_native (cc_max_supply (ce_config demo_env)) = Inr 221000000000000"
  "to_satoshi no_native (cc_block_reward (ce_config demo_env)) = Inr 50000000"
proof -
  show "tx_plan demo_env demo_tx None = Inr demo_plan"
    using demo_plan_eq by (simp add: tx_plan_def demo_env_def demo_config_def demo_tx_def)
  show "to_satoshi no_native (cc_max_supply (ce_config demo_env)) = Inr 221000000000000"
    using dec28_million [of 221000000] by (simp add: demo_env_def demo_config_def to_satoshi_value quantize_down_def satoshi_multiplier_def truncate_rat_def)
  show "to_satoshi no_native (cc_block_reward (ce_config demo_env)) = Inr 50000000"
    using dec28_million [of 50] by (simp add: demo_env_def demo_config_def to_satoshi_value quantize_down_def satoshi_multiplier_def truncate_rat_def)
qed

lemma demo_locks: "check_locks demo_env a x n s = Inr Valid"
  by (simp add: check_locks_def demo_facts from_satoshi_float_def demo_env_def)

lemma demo_signature: "verify_tx_signature (ce_config demo_env) (ce_crypto demo_env) demo_tx = Valid"
  by (simp add: verify_tx_signature_def demo_facts demo_tx_def demo_config_def)

lemma demo_applied: "\<exists>t rc. apply_transaction demo_env demo_tx 1 ''miner'' True demo_db = (t, Inr (Applied rc)) \<and> rc_burned rc = 21000000000"
proof -
  note sv = sql_served [OF demo_facts(1)]
  obtain t rc where t: "apply_transfer demo_env True (effective_proposer demo_config ''miner'') demo_tx demo_plan
      (f64 (from_satoshi (pl_total demo_plan))) demo_db = (t, Inr (Applied rc))" "rc_burned rc = pl_burned demo_plan"
    using sql.apply_transfer_moves [OF sv demo_facts(2)] by (metis apply_receipt.select_convs(2))
  have e: "tx_nonce demo_tx = 0" "tx_from demo_tx = ''alice''" by (simp_all add: demo_tx_def)
  have "apply_transaction demo_env demo_tx 1 ''miner'' True demo_db = (t, Inr (Applied rc))"
    unfolding sql.apply_transaction_eq [OF sv demo_facts(2,3)]
    using t demo_signature
    by (simp add: demo_amounts e demo_facts demo_locks andthen_def after_verdict_def can_afford_transfer_sat_def demo_plan_def)
  thus ?thesis using t(2) by (auto simp: demo_plan_def)
qed

lemma demo_run:
  obtains t u where "apply_txs demo_env 1 ''miner'' [demo_tx] demo_db = (t, Inr 21000000000)"
    "apply_block_python demo_env demo_block demo_db = (u, Inr 21000000000)" "sql_good t" "holdings (sql_bal t) \<le> 30000000000"
proof -
  note sv = sql_served [OF demo_facts(1)]
  obtain t rc where t: "apply_transaction demo_env demo_tx 1 ''miner'' True demo_db = (t, Inr (Applied rc))" "rc_burned rc = 21000000000"
    using demo_applied by blast
  hence run: "apply_txs demo_env 1 ''miner'' [demo_tx] demo_db = (t, Inr 21000000000)" by (simp add: andthen_def)
  have "block_plain demo_env [demo_tx]" by (simp add: demo_facts)
  note c = sql.apply_txs_conserves [OF sv demo_facts(2) this run]
  have h: "holdings (sql_bal t) \<le> 30000000000" using c demo_holdings by (auto simp: lost_burn_def split: if_splits)
  hence "holdings (sql_bal t) < 10 ^ 15" by simp
  from sql.reward_eq [OF sv _ this demo_amounts(2,3)] c
  obtain u r where "apply_block_reward demo_env ''miner'' True t = (u, Inr r)" by blast
  hence "apply_block_python demo_env demo_block demo_db = (u, Inr 21000000000)"
    using run by (simp add: apply_block_python_def demo_block_def andthen_def)
  thus thesis using that run c h by blast
qed

section \<open>The supply\<close>

text \<open>
  C3. Blocks move money and the reward alone makes it. On the SQL store, whatever transfers a block holds (with the gas and
  the value the pool's validation lets through), if it is applied, the sum of all balances in whole satoshi has changed by
  exactly the reward less what was burned without a burn address; the reward lies between nothing and the configured one
  and never lifts the sum over the supply cap; and each account's nonce went up by the transactions it sent.
\<close>

theorem block_moves_money:
  assumes "sql_node E" "sql_good s" "block_plain E (bk_txs b)" "holdings (sql_bal s) < 10 ^ 15"
    and "to_satoshi no_native (cc_max_supply (ce_config E)) = Inr cap" "to_satoshi no_native (cc_block_reward (ce_config E)) = Inr full"
    and "apply_block_python E b s = (t, Inr burned)"
  shows "\<exists>r. 0 \<le> r \<and> r \<le> max 0 full \<and> 0 \<le> burned \<and>
    holdings (sql_bal t) = holdings (sql_bal s) - lost_burn (ce_config E) burned + r \<and>
    holdings (sql_bal t) \<le> max (holdings (sql_bal s)) cap \<and>
    sql_nonces t = (\<lambda>a. sql_nonces s a + sent_by a (bk_txs b))"
  using sql.apply_block_supply [OF sql_served [OF assms(1)] assms(2-)] by metis

theorem block_moves_money_witness:
  "\<exists>t r. apply_block_python demo_env demo_block demo_db = (t, Inr 21000000000) \<and> 0 \<le> r \<and> r \<le> 50000000 \<and>
     holdings (sql_bal t) = 30000000000 - 21000000000 + r"
proof -
  obtain u where run: "apply_block_python demo_env demo_block demo_db = (u, Inr 21000000000)" using demo_run by blast
  have "block_plain demo_env (bk_txs demo_block)" "holdings (sql_bal demo_db) < 10 ^ 15" by (simp_all add: demo_block_def demo_facts demo_holdings)
  from block_moves_money [OF demo_facts(1,2) this demo_amounts(2,3) run]
  obtain r where "0 \<le> r" "r \<le> max 0 50000000" "holdings (sql_bal u) = holdings (sql_bal demo_db) - lost_burn (ce_config demo_env) 21000000000 + r"
    by blast
  thus ?thesis using run by (intro exI [of _ u] exI [of _ r]) (simp add: demo_holdings lost_burn_def demo_facts demo_config_def)
qed

text \<open>So no chain of such blocks takes the supply over the cap.\<close>

theorem chain_supply_capped:
  assumes "sql_node E" "to_satoshi no_native (cc_max_supply (ce_config E)) = Inr cap" "cap < 10 ^ 15"
    and "to_satoshi no_native (cc_block_reward (ce_config E)) = Inr full"
    and "chain_plain E chain" "sql_good s" "holdings (sql_bal s) \<le> cap"
    and "replay_blocks E chain hs s = (t, Inr ())"
  shows "holdings (sql_bal t) \<le> cap"
  using sql.replay_supply [OF sql_served [OF assms(1)] assms(2-)] by blast

section \<open>Replay protection\<close>



section \<open>Validation and application agree\<close>

text \<open>
  What validation lets through is what application applies. For a transfer checked against the state it is applied to,
  the pipeline's verdict is positive exactly when its shape and its proof (if it brings one) are accepted and
  \<open>apply_transaction\<close> applies it: nonce, funds, pool locks and signature are decided alike in both places.
\<close>

lemma validation_is_application:
  assumes "sql_node E" "sql_good s" "plain_tx E tx"
  shows "validate_for_block E tx (sql_nonces s (tx_from tx)) s = Inr Valid \<longleftrightarrow>
    check_shape E tx = Valid \<and> check_zk E tx = Valid \<and>
    (\<exists>t rc. apply_transaction E tx h who True s = (t, Inr (Applied rc)))"
proof -
  note sv = sql_served [OF assms(1)]
  have dep: "validate_evm_deploy_bytecode E tx s = Inr Valid"
    using assms(3) by (auto simp: validate_evm_deploy_bytecode_def is_evm_deploy_tx_def plain_tx_def)
  have st: "sp_nonce (ce_store E) (tx_from tx) s = Inr (sql_nonces s (tx_from tx))" "sp_balance (ce_store E) (tx_from tx) s = Inr (sql_bal s (tx_from tx))"
    using assms sql.read_nonce sql.read_balance by (simp_all add: sql_node_def)
  have am: "from_satoshi_float (ce_amount E) n = Inr (f64 (from_satoshi n))" for n
    using assms(1) by (simp add: sql_node_def from_satoshi_float_def)
  have tr: "\<exists>t rc. apply_transfer E True w tx p c s = (t, Inr (Applied rc))" for w p c
    using sql.apply_transfer_moves [OF sv assms(2)] by blast
  show ?thesis
    unfolding sql.apply_transaction_eq [OF sv assms(2,3)] validate_for_block_def validate_tx_def Let_def
    using dep tr
    by (cases "tx_plan E tx None"; cases "verify_tx_signature (ce_config E) (ce_crypto E) tx")
      (auto simp: and_then_def check_nonce_def check_funds_def st am andthen_def after_verdict_def
        split: verdict.splits sum.splits if_splits)
qed

lemma demo_valid:
  "validate_for_block demo_env demo_tx 0 demo_db = Inr Valid"
proof -
  have "check_shape demo_env demo_tx = Valid" "check_zk demo_env demo_tx = Valid"
    by (simp_all add: check_shape_def check_zk_def demo_facts zk_enabled_def demo_tx_def negative_number_def demo_config_def)
  moreover have "sql_nonces demo_db (tx_from demo_tx) = 0" using demo_facts(5) by (simp add: demo_tx_def)
  ultimately show ?thesis
    using validation_is_application [OF demo_facts(1,2,3), of 1 "''miner''"] demo_applied by auto
qed

section \<open>What a signature does not say\<close>

definition signed_with :: "(string \<Rightarrow> bytes) \<Rightarrow> bytes \<Rightarrow> chain_config \<Rightarrow> crypto_port \<Rightarrow> signed_value \<Rightarrow> transaction \<Rightarrow> transaction" where
  "signed_with seal k cfg cy v tx =
     tx\<lparr>tx_signature := to_hex (seal (cy_digest cy (canonical_payload (cc_chain_id cfg) tx v))), tx_public_key := to_hex k\<rparr>"

lemma to_hex_Nil_iff [simp]: "to_hex bs = [] \<longleftrightarrow> bs = []"
  by (cases bs) (simp_all add: to_hex_def)

lemma signed_with_valid:
  assumes "signed_value_of (tx_value tx) = Some v" "cy_available cy" "\<And>m. cy_verify cy m (seal m) k" "\<And>m. seal m \<noteq> []" "k \<noteq> []"
  shows "verify_tx_signature cfg cy (signed_with seal k cfg cy v tx) = Valid"
proof -
  have "canonical_payload (cc_chain_id cfg) (signed_with seal k cfg cy v tx) v = canonical_payload (cc_chain_id cfg) tx v"
    by (simp add: canonical_payload_def signed_with_def)
  thus ?thesis
    using assms
    by (simp add: verify_tx_signature_def verify_transaction_signature_def signature_material_def signed_with_def from_hex_to_hex)
qed



section \<open>Gas below zero\<close>

text \<open>The shape is checked where a node takes transactions into its pool and its own blocks, not where a block is applied.\<close>

lemma negative_gas_plan:
  assumes "0 < g" "g \<le> 10 ^ 15"
  shows "plan_transfer_fees_sat no_native (- g) (NumValue 1) (NumValue 0) (NumValue 0) None =
    Inr \<lparr>pl_fee = - g * 1000000, pl_burned = 0, pl_miner = - g * 1000000, pl_value = 0, pl_total = - g * 1000000\<rparr>"
proof -
  have "\<bar>- g\<bar> \<le> 10 ^ 28" using assms by simp
  hence 1: "dec28 (of_int (- g)) = of_int (- g)" using decimal.R_int by blast
  have 2: "dec28 (of_int (- g) * 1000000) = of_int (- g * 1000000)" using assms by (intro dec28_million) simp
  have 3: "\<lfloor>rat_of_int g * 1000000\<rfloor> = g * 1000000" by (metis floor_of_int of_int_mult of_int_numeral)
  show ?thesis
    using assms 1 2 3
    by (simp add: plan_no_native plan_py_def fee_amount_def gas_cost_def to_satoshi_value quantize_down_def clamp_rate_def
        satoshi_multiplier_def truncate_rat_def Let_def)
qed


definition negative_tx :: transaction where
  "negative_tx = demo_tx\<lparr>tx_gas := - 21000, tx_value := NumValue 0\<rparr>"

definition free_env :: "sql_conn chain_env" where
  "free_env = demo_env\<lparr>ce_config := demo_config\<lparr>cc_burn_rate := NumValue 0\<rparr>\<rparr>"


end
