(* ===== verification/Ledger_Atomic.thy ===== *)
theory Ledger_Atomic
  imports Ledger_Props Rocks_Props
begin

text \<open>
  Blocks inside \<open>storage.atomic()\<close>: on the SQL connection the Python path leaves nothing behind when a block is refused,
  the native path does; on RocksDB a transfer inside the batch does not debit its sender; the session of a mixed block
  forgets what was credited before the EVM ran; a replay counts the spending of a system pool again.
\<close>

section \<open>Operations that do not commit\<close>

definition quiet :: "(sql_conn, 'a) action \<Rightarrow> bool" where
  "quiet f \<longleftrightarrow> (\<forall>c. sc_open c \<longrightarrow> sc_saved (fst (f c)) = sc_saved c \<and> sc_open (fst (f c)))"

named_theorems quiet_intros "an operation that does not commit"

lemma quiet_reads [quiet_intros]: "quiet (give x)" "quiet (throw e)" "quiet (asks g)" "quiet (attempt r)"
  by (simp_all add: quiet_def)

lemma quiet_andthen [quiet_intros]: "quiet f \<Longrightarrow> (\<And>x. quiet (g x)) \<Longrightarrow> quiet (andthen f g)"
  unfolding quiet_def andthen_def
  by (auto split: prod.splits sum.splits)

lemma quiet_if [quiet_intros]: "quiet f \<Longrightarrow> quiet g \<Longrightarrow> quiet (if b then f else g)"
  by simp

lemma quiet_credit: "quiet (sql_credit N a d)"
  by (auto simp: quiet_def sql_credit_def put_balance_def sql_write_def split: sum.splits)

lemma quiet_bump: "quiet (sql_bump a)"
  by (simp add: quiet_def sql_bump_def sql_write_def)

lemma quiet_credit_sat [quiet_intros]: "sql_node E \<Longrightarrow> quiet (credit_sat E True a d)"
  by (auto simp: credit_sat_def sql_node_def sql_port_def intro: quiet_intros quiet_credit)

lemma quiet_bump_nonce [quiet_intros]: "sql_node E \<Longrightarrow> quiet (bump_nonce E True a)"
  by (simp add: bump_nonce_def sql_node_def sql_port_def quiet_bump)

lemma quiet_spending [quiet_intros]: "\<not> ce_locks E \<Longrightarrow> quiet (record_spending E a x)"
  by (simp add: record_spending_def quiet_def)

lemma quiet_transfer [quiet_intros]: "sql_node E \<Longrightarrow> \<not> ce_locks E \<Longrightarrow> quiet (apply_transfer E True who tx p cost)"
  unfolding apply_transfer_def credit_fee_def by (intro quiet_intros)

lemma quiet_after_verdict [quiet_intros]: "quiet k \<Longrightarrow> quiet (after_verdict r k)"
  by (auto simp: after_verdict_def intro: quiet_intros split: sum.splits verdict.splits)

lemma quiet_transaction [quiet_intros]:
  "sql_node E \<Longrightarrow> \<not> ce_locks E \<Longrightarrow> plain_tx E tx \<Longrightarrow> quiet (apply_transaction E tx h who True)"
  unfolding apply_transaction_def Let_def plan_floats_def fee_floats_def plain_body by (intro quiet_intros)

lemma quiet_txs:
  assumes "sql_node E" "\<not> ce_locks E"
  shows "list_all (plain_tx E) txs \<Longrightarrow> quiet (apply_txs E h who txs)"
proof (induction txs)
  case (Cons tx txs)
  have "quiet (case out of Refused r \<Rightarrow> throw (Raised r) | Applied rc \<Rightarrow> andthen (apply_txs E h who txs) (\<lambda>b. give (rc_burned rc + b)))" for out
    using Cons by (cases out) (auto intro!: quiet_intros)
  thus ?case using assms Cons.prems by (auto intro!: quiet_intros)
qed (simp add: quiet_intros)

lemma quiet_reward [quiet_intros]: "sql_node E \<Longrightarrow> quiet (apply_block_reward E who True)"
  unfolding apply_block_reward_def Let_def by (intro quiet_intros)

lemma quiet_mutations:
  assumes "sql_node E" "\<not> ce_locks E" "list_all (plain_tx E) (bk_txs b)"
  shows "quiet (apply_block_mutations E no_kernels b)"
proof -
  have "quiet (apply_block_python E b)"
    unfolding apply_block_python_def using assms by (intro quiet_intros quiet_txs) auto
  hence "quiet (case r of Some burned \<Rightarrow> give (burned, True) | None \<Rightarrow> andthen (apply_block_python E b) (\<lambda>burned. give (burned, False)))" for r
    by (cases r) (auto intro!: quiet_intros)
  thus ?thesis unfolding apply_block_mutations_def no_kernels_def orelse_native_def
    by (auto intro!: quiet_intros split: option.splits)
qed

lemma quiet_execute:
  assumes "sql_node E" "\<not> ce_locks E" "list_all (plain_tx E) (bk_txs b)" "\<And>r. quiet (seal r)"
  shows "quiet (execute_block E no_kernels rp root_of seal b preserve)"
proof -
  have "quiet (if skips_mutations b preserve then give () else andthen (apply_block_mutations E no_kernels b) (\<lambda>r. give ()))"
    using quiet_mutations [OF assms(1-3)] by (intro quiet_intros)
  moreover have "quiet (\<lambda>s. let computed = root_of s; peer = (if preserve then bk_state_root b else []);
         mode = state_root_check_mode rp (bk_height b) peer preserve
     in if peer \<noteq> [] \<and> mode \<noteq> RootSkip \<and> py_strip peer \<noteq> computed \<and> (mode = RootStrict \<or> skips_mutations b preserve)
        then (s, raise (Raised ''state_root_mismatch''))
        else seal (if skips_mutations b preserve \<and> peer \<noteq> [] then py_strip peer else computed) s)"
    using assms(4) by (simp add: quiet_def Let_def)
  ultimately show ?thesis unfolding execute_block_def Let_def by (rule quiet_andthen)
qed



section \<open>The native path commits\<close>

lemma sql_save_row:
  assumes "sql_node E" "0 \<le> n" "n < 10 ^ 15"
  shows "sp_save (ce_store E) a (str_number (f64 (from_satoshi n))) k code st c =
    (sql_commit (sql_write (\<lambda>t. t\<lparr>st_accounts := dict_set a
       \<lparr>sa_satoshi = Some n, sa_balance = f64 (from_satoshi n), sa_nonce = k, sa_code = code, sa_storage = st\<rparr> (st_accounts t)\<rparr>) c), Inr ())"
proof -
  have "\<bar>n\<bar> < 10 ^ 15" using assms by simp
  from satoshi_through_float [OF this] show ?thesis
    using assms by (simp add: sql_node_def sql_port_def sql_save_def committing_def dual_write_balance_def from_satoshi_float_def put_row_def)
qed

text \<open>
  A rejected block pays its miner. When the native kernel applies the block, the accounts are written back by
  \<open>save_account\<close>, which commits inside \<open>storage.atomic()\<close>; the comparison of the state roots comes after it. An empty
  block with a state root that does not fit is rejected -- and the reward its kernel computed is in the committed tables,
  so a peer that sends such blocks grows the balance of any miner it names, and the node's state leaves the chain's.
\<close>

theorem rejected_block_pays:
  assumes E: "sql_node E" "sql_good s" "\<not> sc_open s" "holdings (sql_bal s) < 10 ^ 15" "cc_burn_address (ce_config E) = []"
    and cap: "to_satoshi no_native (cc_max_supply (ce_config E)) = Inr cap"
    and b: "bk_txs b = []" "bk_miner b \<noteq> []" "nk_simple K = Some f"
    and kernel: "\<forall>bal n supply. f (ce_config E) [(bk_miner b, bal, n)] [] (bk_miner b) supply cap = Some ([(bk_miner b, bal + r, n)], 0)"
    and r: "0 < r" "sql_bal s (bk_miner b) + r < 10 ^ 15"
    and root: "\<forall>c. root_of c \<noteq> py_strip (bk_state_root b)" "64 \<le> length (py_strip (bk_state_root b))"
    and rp: "rp_verify rp" "rp_strict_p2p rp" "rp_baseline rp < bk_height b" "bk_height b \<noteq> 0"
  shows "\<exists>t. sql_atomic (execute_block E K rp root_of seal b True) s = (t, Inl (Raised ''state_root_mismatch'')) \<and>
    sql_bal t (bk_miner b) = sql_bal s (bk_miner b) + r \<and> sc_saved t = sc_live t"
proof -
  let ?m = "bk_miner b" and ?c = "s\<lparr>sc_open := True\<rparr>"
  have sc: "sql_good ?c" "sql_bal ?c = sql_bal s" "sql_nonces ?c = sql_nonces s" using sql_same_accounts [of ?c s] E(2) by simp_all
  have row: "sql_row a ?c = sql_row a s" for a by (simp add: sql_row_def)
  obtain x where x: "sp_supply (sql_port no_native) ?c = Inr x" "to_satoshi no_native (str_number x) = Inr (holdings (sql_bal s))"
    using sql.read_supply [OF sc(1)] E(4) sc(2) by auto
  have st: "ce_store E = sql_port no_native" "ce_amount E = no_native" using E(1) by (simp_all add: sql_node_def)
  define n where "n = sql_bal s ?m + r"
  have n: "0 < n" "0 \<le> n" "n < 10 ^ 15" using r sql.nonneg [OF E(2), of ?m] by (simp_all add: n_def)
  have addrs: "collect_addrs (ce_config E) b = [?m]" using b E(5) by (simp add: collect_addrs_def)
  have snap: "accounts_snapshot E [?m] ?c = (?c, Inr [(?m, sql_bal s ?m, sql_nonces s ?m)])"
    using sql.read_balance [OF sc(1)] sql.read_nonce [OF sc(1)] b(2) by (simp add: accounts_snapshot_def andthen_def st sc)
  obtain t where t: "writeback_account E (?m, n, sql_nonces s ?m) ?c = (t, Inr ())" "sql_bal t ?m = n" "sc_saved t = sc_live t" "\<not> sc_open t"
  proof -
    have acct: "sp_account (ce_store E) ?m ?c = Inr (map_option (\<lambda>r. (sa_code r, sa_storage r)) (sql_row ?m ?c))"
      by (simp add: st sql_port_def sql_get_account_def)
    show thesis
      using n(1) that
      by (simp add: writeback_account_def andthen_def sql.float_of_sat_ok [OF sql_served [OF E(1)]] acct sql_save_row [OF E(1) n(2,3)])
        (simp add: sql_bal_def sql_row_def sql_commit_def sql_write_def update_conv)
  qed
  have mut: "apply_simple_block_native E f b ?c = (t, Inr 0)"
    using kernel t(1) x cap b(1)
    by (simp add: apply_simple_block_native_def andthen_def addrs snap supply_satoshi_def max_supply_satoshi_def st amount_result_def
        of_kernel_def writeback_accounts_def n_def)
  have "apply_block_mutations E K b ?c = (t, Inr (0, True))"
    using mut b by (simp add: apply_block_mutations_def orelse_native_def try_native_def andthen_def block_transactions_are_simple_def)
  moreover have "state_root_check_mode rp (bk_height b) (bk_state_root b) True = RootStrict"
    using rp root(2) by (auto simp: state_root_check_mode_def Let_def)
  moreover have "bk_state_root b \<noteq> []" using root(2) by auto
  moreover have "\<not> skips_mutations b True" using rp(4) by (simp add: skips_mutations_def)
  moreover have "py_strip (bk_state_root b) \<noteq> root_of t" using root(1) by metis
  ultimately have "execute_block E K rp root_of seal b True ?c = (t, Inl (Raised ''state_root_mismatch''))"
    by (simp add: execute_block_def andthen_def Let_def)
  hence "sql_atomic (execute_block E K rp root_of seal b True) s = (t, Inl (Raised ''state_root_mismatch''))"
    using E(3) t(4) by (simp add: sql_atomic_def sql_rollback_def)
  thus ?thesis using t by (simp add: n_def)
qed

definition reward_kernel ::
  "chain_config \<Rightarrow> snapshot \<Rightarrow> transaction list \<Rightarrow> string \<Rightarrow> int \<Rightarrow> int \<Rightarrow> (snapshot \<times> int) option" where
  "reward_kernel cfg snap txs m supply cap = (case snap of [(a, b, n)] \<Rightarrow> Some ([(a, b + 50000000, n)], 0) | _ \<Rightarrow> None)"

theorem rejected_block_pays_witness:
  "\<exists>t. sql_atomic (execute_block demo_env \<lparr>nk_simple = Some reward_kernel, nk_effects = None, nk_replay = None\<rparr>
       \<lparr>rp_verify = True, rp_strict_p2p = True, rp_baseline = 0\<rparr> (\<lambda>c. []) (\<lambda>r. give ())
       (demo_block\<lparr>bk_txs := [], bk_state_root := replicate 64 (CHR ''f'')\<rparr>) True) demo_db = (t, Inl (Raised ''state_root_mismatch'')) \<and>
     sql_bal t ''miner'' = 50000000 \<and> sc_saved t = sc_live t"
proof -
  have strip: "py_strip (replicate 64 (CHR ''f'')) = replicate 64 (CHR ''f'')" by code_simp
  have m: "bk_miner demo_block = ''miner''" "bk_height demo_block = 1" by (simp_all add: demo_block_def)
  have b: "sql_bal demo_db ''miner'' = 0" "\<not> sc_open demo_db" by (simp_all add: sql_bal_def sql_row_def demo_db_def Let_def)
  show ?thesis
    using rejected_block_pays [OF demo_facts(1,2) _ _ _ demo_amounts(2),
        where b = "demo_block\<lparr>bk_txs := [], bk_state_root := replicate 64 (CHR ''f'')\<rparr>" and r = 50000000 and f = reward_kernel and
          root_of = "\<lambda>c. []" and K = "\<lparr>nk_simple = Some reward_kernel, nk_effects = None, nk_replay = None\<rparr>" and
          rp = "\<lparr>rp_verify = True, rp_strict_p2p = True, rp_baseline = 0\<rparr>" and seal = "\<lambda>r. give ()"]
    unfolding chain_block.simps strip m b
    by (simp add: m b demo_holdings reward_kernel_def strip) (simp add: demo_facts demo_config_def)
qed

section \<open>RocksDB: a transfer inside the batch\<close>

definition rocks_atomic :: "(rocks, 'a) action \<Rightarrow> (rocks, 'a) action" where
  "rocks_atomic body s =
     (case body (s\<lparr>rk_batch := Some []\<rparr>) of
        (t, Inr x) \<Rightarrow> (t\<lparr>rk_db := fold write_op (the (rk_batch t)) (rk_db t), rk_batch := None\<rparr>, Inr x)
      | (t, Inl e) \<Rightarrow> (t\<lparr>rk_batch := None\<rparr>, Inl e))"

definition readable :: "rocks \<Rightarrow> bool" where
  "readable s \<longleftrightarrow> (\<forall>a. load_account a s \<noteq> None \<and> well_addressed s a)"

definition row_of :: "rocks_db \<Rightarrow> string \<Rightarrow> rk_account" where
  "row_of db a = the (load_account a \<lparr>rk_db = db, rk_batch = None\<rparr>)"

definition credit_writes :: "rocks_db \<Rightarrow> string \<Rightarrow> int \<Rightarrow> (bytes \<times> rocks_value option) list" where
  "credit_writes db a d =
     (if d = 0 then [] else [(key_account a, Some (VAccount (saved_row ((row_of db a)\<lparr>ka_satoshi := apply_satoshi_delta (ka_satoshi (row_of db a)) d\<rparr>))))])"

lemma readable_row:
  assumes "readable \<lparr>rk_db = db, rk_batch = b0\<rparr>"
  shows "load_account a \<lparr>rk_db = db, rk_batch = b\<rparr> = Some (row_of db a)" "key_account (ka_address (row_of db a)) = key_account a"
proof -
  have l: "load_account a \<lparr>rk_db = db, rk_batch = b\<rparr> = load_account a \<lparr>rk_db = db, rk_batch = None\<rparr>"
    "load_account a \<lparr>rk_db = db, rk_batch = b0\<rparr> = load_account a \<lparr>rk_db = db, rk_batch = None\<rparr>"
    by (simp_all add: load_account_def raw_get_def)
  have "load_account a \<lparr>rk_db = db, rk_batch = None\<rparr> \<noteq> None" "well_addressed \<lparr>rk_db = db, rk_batch = b0\<rparr> a"
    using assms l unfolding readable_def by metis+
  thus "load_account a \<lparr>rk_db = db, rk_batch = b\<rparr> = Some (row_of db a)" "key_account (ka_address (row_of db a)) = key_account a"
    using l by (auto simp: row_of_def well_addressed_def key_account_def)
qed

lemma load_nonneg: "load_account a s = Some r \<Longrightarrow> 0 \<le> ka_satoshi r"
  by (auto simp: load_account_def split: option.splits rocks_value.splits)

lemma batch_put: "save_account_row r \<lparr>rk_db = db, rk_batch = Some ops\<rparr> =
    (\<lparr>rk_db = db, rk_batch = Some (ops @ [(key_account (ka_address r), Some (VAccount (saved_row r)))])\<rparr>, True)"
  by (simp add: save_row raw_put_def raw_write_def key_account_normal)

lemma batch_credit:
  assumes "readable \<lparr>rk_db = db, rk_batch = b0\<rparr>" "ce_store E = rocks_port N enc dec"
  shows "credit_sat E True a d \<lparr>rk_db = db, rk_batch = Some ops\<rparr> = (\<lparr>rk_db = db, rk_batch = Some (ops @ credit_writes db a d)\<rparr>, Inr ())"
  using readable_row [OF assms(1)]
  by (simp add: credit_sat_def assms(2) rocks_port_def of_rocks_def balance_delta_satoshi_def with_account_def batch_put credit_writes_def)

lemma batch_bump:
  assumes "readable \<lparr>rk_db = db, rk_batch = b0\<rparr>" "ce_store E = rocks_port N enc dec"
  shows "bump_nonce E True a \<lparr>rk_db = db, rk_batch = Some ops\<rparr> =
    (\<lparr>rk_db = db, rk_batch = Some (ops @ [(key_account a, Some (VAccount (saved_row ((row_of db a)\<lparr>ka_nonce := ka_nonce (row_of db a) + 1\<rparr>))))])\<rparr>, Inr ())"
  using readable_row [OF assms(1)]
  by (simp add: bump_nonce_def assms(2) rocks_port_def of_rocks_def increment_nonce_def with_account_def batch_put)

text \<open>The batch of a transfer: the last word on the sender is the row of its nonce, read from the old balance.\<close>

lemma batch_transfer:
  assumes db: "readable \<lparr>rk_db = db, rk_batch = b0\<rparr>" and E: "ce_store E = rocks_port N enc dec" "\<not> ce_locks E"
  obtains fee rc where "apply_transfer E True who tx p cost \<lparr>rk_db = db, rk_batch = Some []\<rparr> =
      (\<lparr>rk_db = db, rk_batch = Some (credit_writes db (tx_from tx) (- pl_total p) @ credit_writes db (tx_to tx) (pl_value p) @ fee @
        [(key_account (tx_from tx), Some (VAccount (saved_row ((row_of db (tx_from tx))\<lparr>ka_nonce := ka_nonce (row_of db (tx_from tx)) + 1\<rparr>))))])\<rparr>, Inr (Applied rc))"
    "\<forall>(k, v) \<in> set fee. k = key_account who \<or> k = key_account (cc_burn_address (ce_config E))"
proof -
  let ?burn = "cc_burn_address (ce_config E)"
  define fee where "fee = credit_writes db who (pl_miner p) @ (if 0 < pl_burned p \<and> ?burn \<noteq> [] then credit_writes db ?burn (pl_burned p) else [])"
  have f: "credit_fee E True who p \<lparr>rk_db = db, rk_batch = Some ops\<rparr> = (\<lparr>rk_db = db, rk_batch = Some (ops @ fee)\<rparr>, Inr ())" for ops
    by (simp add: credit_fee_def andthen_def batch_credit [OF db E(1)] fee_def)
  show thesis
  proof (rule that)
    show "\<forall>(k, v) \<in> set fee. k = key_account who \<or> k = key_account ?burn" by (auto simp: fee_def credit_writes_def)
    show "apply_transfer E True who tx p cost \<lparr>rk_db = db, rk_batch = Some []\<rparr> =
      (\<lparr>rk_db = db, rk_batch = Some (credit_writes db (tx_from tx) (- pl_total p) @ credit_writes db (tx_to tx) (pl_value p) @ fee @
        [(key_account (tx_from tx), Some (VAccount (saved_row ((row_of db (tx_from tx))\<lparr>ka_nonce := ka_nonce (row_of db (tx_from tx)) + 1\<rparr>))))])\<rparr>,
       Inr (Applied \<lparr>rc_fee = pl_fee p, rc_burned = pl_burned p, rc_miner_fee = pl_miner p, rc_gas_used = tx_gas tx, rc_evm = False, rc_contract = []\<rparr>))"
      using E(2) by (simp add: apply_transfer_def andthen_def batch_credit [OF db E(1)] batch_bump [OF db E(1)] f record_spending_def)
  qed
qed

lemma applied_by_transfer:
  assumes "plain_tx E tx" "apply_transaction E tx h who ia s = (t, Inr (Applied rc))"
  obtains p cost where "tx_plan E tx None = Inr p" "apply_transfer E ia (effective_proposer (ce_config E) who) tx p cost s = (t, Inr (Applied rc))"
  using assms(2) unfolding apply_transaction_def Let_def plain_body [OF assms(1)] plan_floats_def fee_floats_def
  by (auto simp: amount_result_def after_verdict_def elim!: andthen_cases split: sum.splits if_splits verdict.splits)

text \<open>
  A transfer makes money. On RocksDB the Python path applies a transfer inside a write batch that reads do not see: the
  row with the sender's next nonce is made from the old row and overwrites the debit, so after the batch is written the
  receiver has the value and the sender still has its whole balance.
\<close>

theorem rocks_transfer_mints:
  assumes E: "ce_store E = rocks_port N enc dec" "\<not> ce_locks E" "plain_tx E tx" and s: "rk_batch s = None" "readable s"
    and run: "rocks_atomic (apply_transaction E tx h who True) s = (t, Inr (Applied rc))" and plan: "tx_plan E tx None = Inr p"
    and keys: "key_account (tx_to tx) \<notin> key_account ` {tx_from tx, effective_proposer (ce_config E) who, cc_burn_address (ce_config E)}"
  shows "get_balance_satoshi (tx_from tx) t = get_balance_satoshi (tx_from tx) s \<and>
    get_balance_satoshi (tx_to tx) t = map_option (\<lambda>b. max 0 (b + pl_value p)) (get_balance_satoshi (tx_to tx) s)"
proof -
  obtain db where sdb: "s = \<lparr>rk_db = db, rk_batch = None\<rparr>" using s(1) by (cases s) simp
  note rd = s(2) [unfolded sdb]
  let ?who = "effective_proposer (ce_config E) who" and ?f = "tx_from tx" and ?t = "tx_to tx"
  obtain d where d: "apply_transaction E tx h who True \<lparr>rk_db = db, rk_batch = Some []\<rparr> = (d, Inr (Applied rc))"
      "t = d\<lparr>rk_db := fold write_op (the (rk_batch d)) (rk_db d), rk_batch := None\<rparr>"
    using run sdb by (auto simp: rocks_atomic_def split: prod.splits sum.splits)
  obtain cost where tr: "apply_transfer E True ?who tx p cost \<lparr>rk_db = db, rk_batch = Some []\<rparr> = (d, Inr (Applied rc))"
  proof -
    obtain q cost where q: "tx_plan E tx None = Inr q" "apply_transfer E True ?who tx q cost \<lparr>rk_db = db, rk_batch = Some []\<rparr> = (d, Inr (Applied rc))"
      using applied_by_transfer [OF E(3) d(1)] .
    have "q = p" using q(1) plan by simp
    thus thesis using that q(2) by simp
  qed
  let ?bump = "(key_account ?f, Some (VAccount (saved_row ((row_of db ?f)\<lparr>ka_nonce := ka_nonce (row_of db ?f) + 1\<rparr>))))"
  obtain fee rc2 where b: "apply_transfer E True ?who tx p cost \<lparr>rk_db = db, rk_batch = Some []\<rparr> =
      (\<lparr>rk_db = db, rk_batch = Some (credit_writes db ?f (- pl_total p) @ credit_writes db ?t (pl_value p) @ fee @ [?bump])\<rparr>, Inr (Applied rc2))"
    and fee: "\<forall>(k, v) \<in> set fee. k = key_account ?who \<or> k = key_account (cc_burn_address (ce_config E))"
    by (rule batch_transfer [OF rd E(1,2)])
  have dd: "d = \<lparr>rk_db = db, rk_batch = Some (credit_writes db ?f (- pl_total p) @ credit_writes db ?t (pl_value p) @ fee @ [?bump])\<rparr>"
    using b tr by simp
  define db' where "db' = fold write_op (credit_writes db ?f (- pl_total p) @ credit_writes db ?t (pl_value p) @ fee @ [?bump]) db"
  have t: "t = \<lparr>rk_db = db', rk_batch = None\<rparr>" using d(2) dd by (simp add: db'_def)
  have f: "map_of db' (key_account ?f) = snd ?bump" by (simp add: db'_def map_of_write)
  have rest: "map_of (fold write_op (fee @ [?bump]) x) (key_account ?t) = map_of x (key_account ?t)" for x
  proof -
    have "map_of (fold write_op fee x) (key_account ?t) = map_of x (key_account ?t)" for x
      using fee keys
    proof (induction fee arbitrary: x)
      case (Cons w fee)
      thus ?case by (cases w) (auto simp: map_of_write)
    qed simp
    thus ?thesis using keys by (simp add: map_of_write)
  qed
  have w: "map_of db' (key_account ?t) = map_of (fold write_op (credit_writes db ?t (pl_value p)) db) (key_account ?t)"
    unfolding db'_def fold_append comp_def rest [unfolded fold_append comp_def]
    using keys by (simp add: credit_writes_def map_of_write)
  have bal: "get_balance_satoshi a \<lparr>rk_db = db, rk_batch = None\<rparr> = Some (ka_satoshi (row_of db a))" "0 \<le> ka_satoshi (row_of db a)" for a
    using readable_row(1) [OF rd, of a None] load_nonneg by (auto simp: get_balance_satoshi_def)
  have "get_balance_satoshi ?f t = Some (ka_satoshi (row_of db ?f))"
    using f bal(2) [of ?f] by (simp add: t get_balance_satoshi_def load_account_def raw_get_def saved_row_def)
  moreover have "get_balance_satoshi ?t t = Some (max 0 (ka_satoshi (row_of db ?t) + pl_value p))"
  proof (cases "pl_value p = 0")
    case True
    hence "get_balance_satoshi ?t t = get_balance_satoshi ?t \<lparr>rk_db = db, rk_batch = None\<rparr>"
      using w by (simp add: t credit_writes_def get_balance_satoshi_def load_account_def raw_get_def)
    thus ?thesis using True bal [of ?t] by simp
  next
    case False
    thus ?thesis
      using w by (simp add: t credit_writes_def map_of_write get_balance_satoshi_def load_account_def raw_get_def saved_row_def apply_satoshi_delta_def)
  qed
  ultimately show ?thesis unfolding sdb using bal by simp
qed


text \<open>The transfer of \<open>demo_tx\<close> on a RocksDB store with one funded account.\<close>

definition rocks_env :: "rocks chain_env" where
  "rocks_env = \<lparr>ce_config = demo_config, ce_store = rocks_port no_native (\<lambda>p. []) (\<lambda>t. None), ce_crypto = demo_crypto,
     ce_amount = no_native, ce_zk = NullZk, ce_locks = False, ce_evm = None\<rparr>"

definition funded_row :: rk_account where
  "funded_row = \<lparr>ka_address = ''alice'', ka_satoshi = 30000000000, ka_nonce = 0, ka_code = None, ka_storage = None\<rparr>"

definition funded_store :: rocks where
  "funded_store = fst (save_account_row funded_row empty_store)"

lemma funded_keys:
  "normalize_address_key ''alice'' = ''alice''" "normalize_address_key ''bob'' = ''bob''" "normalize_address_key ''miner'' = ''miner''"
  "normalize_address_key [] = []"
  by code_simp+

lemma key_account_inj: "key_account a = key_account b \<longleftrightarrow> normalize_address_key a = normalize_address_key b"
  using meta_keys_differ by (simp add: key_account_def key_meta_def)

lemma funded_load:
  "load_account a \<lparr>rk_db = rk_db funded_store, rk_batch = b\<rparr> = (if normalize_address_key a = ''alice'' then Some funded_row
     else Some \<lparr>ka_address = normalize_address_key a, ka_satoshi = 0, ka_nonce = 0, ka_code = None, ka_storage = None\<rparr>)"
proof -
  have "rk_db funded_store = [(key_account ''alice'', VAccount funded_row)]"
    by (simp add: funded_store_def save_account_row_def Let_def raw_put_def raw_write_def empty_store_def funded_row_def funded_keys
        write_op_def)
  thus ?thesis using key_account_inj [of a "''alice''"] by (auto simp: load_account_def raw_get_def funded_keys funded_row_def)
qed

lemma funded_rocks: "rk_batch funded_store = None" "readable funded_store" "load_account a funded_store =
    load_account a \<lparr>rk_db = rk_db funded_store, rk_batch = None\<rparr>"
proof -
  show b: "rk_batch funded_store = None"
    by (simp add: funded_store_def save_account_row_def Let_def raw_put_def raw_write_def empty_store_def)
  thus l: "load_account a funded_store = load_account a \<lparr>rk_db = rk_db funded_store, rk_batch = None\<rparr>" for a
    by (simp add: load_account_def raw_get_def)
  show "readable funded_store"
    unfolding readable_def well_addressed_def l funded_load by (auto simp: funded_row_def funded_keys account_key_normal)
qed

theorem rocks_transfer_mints_witness:
  "\<exists>t rc. rocks_atomic (apply_transaction rocks_env demo_tx 1 ''miner'' True) funded_store = (t, Inr (Applied rc)) \<and>
     get_balance_satoshi ''alice'' t = Some 30000000000 \<and> get_balance_satoshi ''bob'' t = Some 5000000"
proof -
  let ?c = "\<lparr>rk_db = rk_db funded_store, rk_batch = Some []\<rparr>" and ?s = "\<lparr>rk_db = rk_db funded_store, rk_batch = None\<rparr>"
  have s: "funded_store = ?s" using funded_rocks(1) by simp
  have E: "ce_store rocks_env = rocks_port no_native (\<lambda>p. []) (\<lambda>t. None)" "\<not> ce_locks rocks_env" "ce_config rocks_env = demo_config"
    "ce_crypto rocks_env = demo_crypto" "ce_amount rocks_env = no_native"
    by (simp_all add: rocks_env_def)
  have plan: "tx_plan rocks_env demo_tx None = Inr demo_plan"
    using demo_amounts(1) by (simp add: tx_plan_def E demo_env_def)
  have plain: "plain_tx rocks_env demo_tx" by (simp add: plain_tx_def demo_tx_def)
  have tx: "tx_from demo_tx = ''alice''" "tx_to demo_tx = ''bob''" "tx_nonce demo_tx = 0" by (simp_all add: demo_tx_def)
  have who: "effective_proposer demo_config ''miner'' = ''miner''" by (simp add: effective_proposer_def demo_config_def)
  have r: "readable ?s" using funded_rocks(2) s by simp
  let ?cost = "f64 (from_satoshi (pl_total demo_plan))"
  obtain u rc where tr: "apply_transfer rocks_env True ''miner'' demo_tx demo_plan ?cost ?c = (u, Inr (Applied rc))"
    by (rule batch_transfer [OF r E(1,2)])
  have floats: "plan_floats rocks_env demo_plan ?c = (?c, Inr ?cost)"
    by (simp add: plan_floats_def fee_floats_def andthen_def float_of_sat_def from_satoshi_float_def E amount_result_def)
  have reads: "get_nonce ''alice'' ?c = Some 0" "get_balance_satoshi ''alice'' ?c = Some 30000000000"
    by (simp_all add: get_nonce_def get_balance_satoshi_def funded_load funded_keys funded_row_def)
  have port: "sp_nonce (rocks_port N e d) a ?c = of_option (get_nonce a ?c)" "sp_balance (rocks_port N e d) a ?c = of_option (get_balance_satoshi a ?c)"
    for N e d a by (simp_all add: rocks_port_def)
  have locks: "check_locks rocks_env a y n ?c = Inr Valid" for a y n by (simp add: check_locks_def from_satoshi_float_def E)
  have afford: "can_afford_transfer_sat 30000000000 (pl_total demo_plan)" by (simp add: can_afford_transfer_sat_def demo_plan_def)
  have sign: "verify_tx_signature demo_config demo_crypto demo_tx = Valid" using demo_signature by (simp add: demo_facts)
  have "apply_transaction rocks_env demo_tx 1 ''miner'' True ?c = (u, Inr (Applied rc))"
    unfolding apply_transaction_def Let_def plain_body [OF plain] plan
    by (simp add: andthen_def amount_result_def floats E(1,3,4) who tx port reads of_option_def after_verdict_def locks afford sign tr)
  moreover have "funded_store\<lparr>rk_batch := Some []\<rparr> = ?c" by simp
  ultimately obtain t where t: "rocks_atomic (apply_transaction rocks_env demo_tx 1 ''miner'' True) funded_store = (t, Inr (Applied rc))"
    by (simp add: rocks_atomic_def)
  have keys: "key_account (tx_to demo_tx) \<notin> key_account ` {tx_from demo_tx, effective_proposer (ce_config rocks_env) ''miner'',
      cc_burn_address (ce_config rocks_env)}"
    unfolding E tx who image_insert image_empty using funded_keys by (simp add: key_account_inj demo_config_def)
  have b: "get_balance_satoshi ''alice'' funded_store = Some 30000000000" "get_balance_satoshi ''bob'' funded_store = Some 0"
    by (simp_all add: get_balance_satoshi_def funded_rocks(3) funded_load funded_keys funded_row_def)
  show ?thesis
    using rocks_transfer_mints [OF E(1,2) plain funded_rocks(1,2) t plan keys] t
    by (simp add: tx b demo_plan_def)
qed

end
