(* ===== verification/Mempool.thy ===== *)
theory Mempool
  imports Tx_Pipeline
begin

text \<open>
  \<open>blockchain/mempool.py\<close> with the address and amount checks of \<open>middleware/validators.py\<close>: the pool of pending
  transactions, a dictionary by transaction hash. The chain it is attached to, if any, is its environment and the
  store at the tip; an operation is an action on the pool, so that what the chain raises is kept. Fees are finite, an
  amount may be any float, as JSON can carry.
\<close>

section \<open>Entries\<close>

datatype pool_amount = Finite pyfloat | NotANumber | Infinite bool

fun number_of_amount :: "pool_amount \<Rightarrow> number" where
  "number_of_amount (Finite x) = NumValue x"
| "number_of_amount NotANumber = NumNaN"
| "number_of_amount (Infinite pos) = NumInf pos"

record pool_tx =
  mt_hash :: string
  mt_from :: string
  mt_to :: string
  mt_amount :: pool_amount
  mt_fee :: pyfloat
  mt_nonce :: int
  mt_signature :: string
  mt_public_key :: string
  mt_data :: string
  mt_gas :: int
  mt_timestamp :: pyfloat

record mempool =
  mp_txs :: "(string, pool_tx) dict"
  mp_max_size :: int
  mp_min_fee :: pyfloat
  mp_rejected :: nat
  mp_chain_id :: int
  mp_require :: bool

definition new_mempool :: "int \<Rightarrow> pyfloat \<Rightarrow> mempool" where
  "new_mempool max_size min_fee =
     \<lparr>mp_txs = [], mp_max_size = max_size, mp_min_fee = min_fee, mp_rejected = 0, mp_chain_id = 1, mp_require = False\<rparr>"

definition set_blockchain :: "chain_config \<Rightarrow> mempool \<Rightarrow> mempool" where
  "set_blockchain cfg p = p\<lparr>mp_chain_id := cc_chain_id cfg, mp_require := cc_require_signatures cfg\<rparr>"

text \<open>The chain transaction of an entry, with the gas given.\<close>

definition chain_tx :: "int \<Rightarrow> pool_tx \<Rightarrow> transaction" where
  "chain_tx gas t =
     \<lparr>tx_from = mt_from t, tx_to = mt_to t, tx_value = number_of_amount (mt_amount t), tx_nonce = mt_nonce t, tx_gas = gas,
      tx_data = mt_data t, tx_hash = mt_hash t, tx_signature = mt_signature t, tx_public_key = mt_public_key t, tx_zk = None\<rparr>"

definition gas_or :: "int \<Rightarrow> int \<Rightarrow> int" where
  "gas_or g d = (if g = 0 then d else g)"

section \<open>Checks of the fields\<close>

definition hex_char :: "char \<Rightarrow> bool" where
  "hex_char c = (let n = of_char c :: nat in (48 \<le> n \<and> n \<le> 57) \<or> (65 \<le> n \<and> n \<le> 70) \<or> (97 \<le> n \<and> n \<le> 102))"

definition validate_address :: "string \<Rightarrow> bool" where
  "validate_address a \<longleftrightarrow>
     a \<noteq> [] \<and> take 2 a = ''0x'' \<and> length (drop 2 a) = 40 \<and> list_all hex_char (drop 2 a)"

text \<open>
  \<open>len(str(x).split('.')[-1])\<close> of a positive float: \<open>repr\<close> writes the shortest decimal, with an exponent when the decimal
  point would stand more than three places before or sixteen places behind the first digit. Without a point the whole
  text counts.
\<close>

definition significant_digits :: "rat \<Rightarrow> nat" where
  "significant_digits r =
     (case find (\<lambda>k. r / 10 powi (magnitude 10 r - int k) \<in> \<int>) [1 ..< 18] of Some k \<Rightarrow> k | None \<Rightarrow> 17)"

definition places_after_point :: "pyfloat \<Rightarrow> nat" where
  "places_after_point x =
     (let r = float_repr x; e = magnitude 10 r; k = significant_digits r
      in if -4 < e \<and> e \<le> 16 then max 1 (nat (int k - e))
         else let exponent = 2 + (if \<bar>e - 1\<bar> < 100 then 2 else 3) in if k = 1 then 1 + exponent else k - 1 + exponent)"

definition validate_amount :: "pool_amount \<Rightarrow> pyfloat \<Rightarrow> pyfloat \<Rightarrow> bool" where
  "validate_amount a lo hi =
     (case a of
        Finite x \<Rightarrow> 0 < x \<and> lo \<le> x \<and> x \<le> hi \<and> places_after_point x \<le> 8
      | NotANumber \<Rightarrow> True
      | Infinite pos \<Rightarrow> False)"

definition negative_amount :: "pool_amount \<Rightarrow> bool" where
  "negative_amount a = (case a of Finite x \<Rightarrow> x < 0 | NotANumber \<Rightarrow> False | Infinite pos \<Rightarrow> \<not> pos)"

definition positive_amount :: "pool_amount \<Rightarrow> bool" where
  "positive_amount a = (case a of Finite x \<Rightarrow> 0 < x | NotANumber \<Rightarrow> False | Infinite pos \<Rightarrow> pos)"

definition validate_mempool_tx :: "pool_tx \<Rightarrow> pyfloat \<Rightarrow> verdict" where
  "validate_mempool_tx t min_fee =
     (if mt_hash t = [] then Invalid ''missing_hash''
      else if mt_fee t < min_fee then Invalid ''fee_too_low''
      else if \<not> validate_address (mt_from t) \<and> length (mt_from t) < 5 then Invalid ''invalid_from''
      else if \<not> validate_address (mt_to t) \<and> length (mt_to t) < 5 then Invalid ''invalid_to''
      else if negative_amount (mt_amount t) then Invalid ''negative_amount''
      else if positive_amount (mt_amount t) \<and> \<not> validate_amount (mt_amount t) 0 (10 ^ 9) then Invalid ''invalid_amount''
      else Valid)"

section \<open>Signatures\<close>

text \<open>A conversion that raises is caught here: the signature is not valid.\<close>

definition has_valid_signature :: "crypto_port \<Rightarrow> mempool \<Rightarrow> pool_tx \<Rightarrow> bool" where
  "has_valid_signature cy p t =
     (if mt_signature t = [] then \<not> mp_require p
      else if mt_public_key t = [] then False
      else if \<not> cy_available cy then False
      else case signed_value_of (number_of_amount (mt_amount t)) of
          None \<Rightarrow> False
        | Some v \<Rightarrow>
            verify_transaction_signature (if mp_chain_id p = 0 then 1 else mp_chain_id p) cy (chain_tx (gas_or (mt_gas t) 21000) t) v)"

text \<open>In the batch it is not: \<open>None\<close> is a \<open>ValueError\<close> or \<open>OverflowError\<close> of \<open>int(tx.amount)\<close>.\<close>

definition sort_signature :: "bool \<Rightarrow> pool_tx \<Rightarrow> (bool + transaction \<times> signed_value) option" where
  "sort_signature require t =
     (if mt_signature t = [] then Some (Inl (\<not> require))
      else if mt_public_key t = [] then Some (Inl False)
      else map_option (\<lambda>v. Inr (chain_tx (gas_or (mt_gas t) 21000) t, v)) (signed_value_of (number_of_amount (mt_amount t))))"

fun merge_flags :: "(bool + 'a) list \<Rightarrow> bool list \<Rightarrow> bool list" where
  "merge_flags [] bs = []"
| "merge_flags (Inl b # cs) bs = b # merge_flags cs bs"
| "merge_flags (Inr x # cs) [] = False # merge_flags cs []"
| "merge_flags (Inr x # cs) (b # bs) = b # merge_flags cs bs"

definition verify_signatures_batch :: "crypto_port \<Rightarrow> mempool \<Rightarrow> pool_tx list \<Rightarrow> (store_fault, bool list) result" where
  "verify_signatures_batch cy p txs =
     (case those (map (sort_signature (mp_require p)) txs) of
        None \<Rightarrow> raise (Raised ''ValueError'')
      | Some cs \<Rightarrow>
          (let payloads = List.map_filter (\<lambda>c. case c of Inl b \<Rightarrow> None | Inr x \<Rightarrow> Some x) cs
           in if payloads = [] \<or> \<not> cy_available cy then ret (merge_flags cs [])
              else case verify_transaction_signatures_batch (mp_chain_id p) cy payloads of
                  None \<Rightarrow> raise (Raised ''native'')
                | Some oks \<Rightarrow> ret (merge_flags cs oks)))"

section \<open>The pool\<close>

definition has_transaction :: "string \<Rightarrow> mempool \<Rightarrow> bool" where
  "has_transaction h p \<longleftrightarrow> h \<in> set (dict_keys (mp_txs p))"

definition pool_transaction :: "string \<Rightarrow> mempool \<Rightarrow> pool_tx option" where
  "pool_transaction h p = map_of (mp_txs p) h"

definition get_size :: "mempool \<Rightarrow> nat" where
  "get_size p = length (mp_txs p)"

definition pool_remove :: "string \<Rightarrow> mempool \<Rightarrow> mempool \<times> bool" where
  "pool_remove h p = (p\<lparr>mp_txs := AList.delete h (mp_txs p)\<rparr>, has_transaction h p)"

text \<open>\<open>_cleanup\<close>: nothing below four fifths of the limit, else a tenth of the pool, the cheapest first.\<close>

definition cheapest :: "mempool \<Rightarrow> pool_tx list" where
  "cheapest p =
     take (nat \<lfloor>fmul (float_of_int (int (get_size p))) (f64 (1 / 10))\<rfloor>) (sort_key mt_fee (dict_values (mp_txs p)))"

definition cleanup :: "mempool \<Rightarrow> mempool" where
  "cleanup p =
     (if of_nat (get_size p) < fmul (float_of_int (mp_max_size p)) (f64 (8 / 10)) then p
      else p\<lparr>mp_txs := fold (\<lambda>t. AList.delete (mt_hash t)) (cheapest p) (mp_txs p)\<rparr>)"

definition make_room :: "mempool \<Rightarrow> mempool" where
  "make_room p = (if mp_max_size p \<le> int (get_size p) then cleanup p else p)"

definition pool_put :: "pool_tx \<Rightarrow> mempool \<Rightarrow> mempool" where
  "pool_put t p = (let q = make_room p in q\<lparr>mp_txs := dict_set (mt_hash t) t (mp_txs q)\<rparr>)"

definition reject_tx :: "(mempool, bool) action" where
  "reject_tx p = (p\<lparr>mp_rejected := mp_rejected p + 1\<rparr>, ret False)"

definition pool_add :: "crypto_port \<Rightarrow> ('s chain_env \<times> 's) option \<Rightarrow> bool \<Rightarrow> bool \<Rightarrow> pool_tx \<Rightarrow> (mempool, bool) action" where
  "pool_add cy chain sig_done chain_done t p =
     (if has_transaction (mt_hash t) p then (p, ret False)
      else if validate_mempool_tx t (mp_min_fee p) \<noteq> Valid then reject_tx p
      else if \<not> sig_done \<and> \<not> has_valid_signature cy p t then reject_tx p
      else case (if chain_done then None else chain) of
          None \<Rightarrow> (pool_put t p, ret True)
        | Some (E, s) \<Rightarrow>
            (case validate_for_mempool E (chain_tx (gas_or (mt_gas t) (cc_base_gas (ce_config E))) t) s of
               Inl e \<Rightarrow> (p, raise e)
             | Inr Valid \<Rightarrow> (pool_put t p, ret True)
             | Inr (Invalid r) \<Rightarrow> reject_tx p))"

fun add_flagged :: "crypto_port \<Rightarrow> ('s chain_env \<times> 's) option \<Rightarrow> bool \<Rightarrow> (pool_tx \<times> bool) list \<Rightarrow> (mempool, nat \<times> nat \<times> string list) action" where
  "add_flagged cy chain chain_done [] = give (0, 0, [])"
| "add_flagged cy chain chain_done ((t, ok) # ts) =
     andthen (if ok then pool_add cy chain True chain_done t else reject_tx) (\<lambda>added.
     andthen (add_flagged cy chain chain_done ts) (\<lambda>(n, m, hs).
       give (if added then (n + 1, m, mt_hash t # hs) else (n, m + 1, hs))))"

definition add_batch :: "crypto_port \<Rightarrow> ('s chain_env \<times> 's) option \<Rightarrow> bool \<Rightarrow> pool_tx list \<Rightarrow> (mempool, nat \<times> nat \<times> string list) action" where
  "add_batch cy chain chain_done txs =
     (if txs = [] then give (0, 0, [])
      else andthen (asks (\<lambda>p. verify_signatures_batch cy p txs)) (\<lambda>flags. add_flagged cy chain chain_done (zip txs flags)))"

definition add_raw :: "pool_tx \<Rightarrow> mempool \<Rightarrow> mempool \<times> bool" where
  "add_raw t p =
     (if has_transaction (mt_hash t) p \<or> mt_fee t < mp_min_fee p then (p, False) else (pool_put t p, True))"

section \<open>Reading\<close>

text \<open>\<open>xs[:n]\<close>; a negative bound drops from the end.\<close>

definition py_prefix :: "int \<Rightarrow> 'a list \<Rightarrow> 'a list" where
  "py_prefix n xs = take (if 0 \<le> n then nat n else nat (int (length xs) + n)) xs"

definition by_fee :: "mempool \<Rightarrow> pool_tx list" where
  "by_fee p = sort_key (\<lambda>t. - mt_fee t) (dict_values (mp_txs p))"

definition pool_get :: "int \<Rightarrow> pyfloat \<Rightarrow> mempool \<Rightarrow> pool_tx list" where
  "pool_get limit min_fee p = py_prefix limit (filter (\<lambda>t. min_fee \<le> mt_fee t) (by_fee p))"

record pool_row =
  pr_hash :: string
  pr_from :: string
  pr_to :: string
  pr_value :: pool_amount
  pr_gas_price :: pyfloat
  pr_gas :: int
  pr_nonce :: int
  pr_data :: string
  pr_timestamp :: pyfloat

definition get_sorted_transactions :: "mempool \<Rightarrow> pool_row list" where
  "get_sorted_transactions p =
     map (\<lambda>t. \<lparr>pr_hash = mt_hash t, pr_from = mt_from t, pr_to = mt_to t, pr_value = mt_amount t, pr_gas_price = mt_fee t,
        pr_gas = gas_or (mt_gas t) 21000, pr_nonce = mt_nonce t, pr_data = mt_data t, pr_timestamp = mt_timestamp t\<rparr>) (by_fee p)"

text \<open>Size, sum of the fees, mean fee, rejections.\<close>

definition pool_stats :: "mempool \<Rightarrow> nat \<times> pyfloat \<times> pyfloat \<times> nat" where
  "pool_stats p =
     (let fees = map mt_fee (dict_values (mp_txs p))
      in if fees = [] then (0, 0, 0, mp_rejected p)
         else (length fees, py_sum fees, fdiv (py_sum fees) (of_nat (length fees)), mp_rejected p))"

end
