(* ===== verification/Mempool_Props.thy ===== *)
theory Mempool_Props
  imports Mempool Ledger_Props
begin

text \<open>
  Properties of the pool: its invariant with the bound on its size, what a cleanup drops and what a miner is handed.
\<close>

section \<open>Rounding in the cleanup\<close>

lemma f64_close: "0 < q \<Longrightarrow> f64 q \<le> q * (101 / 100)"
proof -
  assume q: "0 < q"
  hence "f64 q - q \<le> q / 2 ^ 53" using f64_error [of q] by linarith
  also have "\<dots> \<le> q / 100" using q by (simp add: frac_le)
  finally show ?thesis by simp
qed

lemma tenth_pos: "10 \<le> n \<Longrightarrow> 1 \<le> \<lfloor>fmul (float_of_int n) (f64 (1 / 10))\<rfloor>"
proof -
  assume n: "10 \<le> n"
  have ten: "f64 10 = 10" "f64 1 = 1" using double.R_int [of 10] double.R_int [of 1] by simp_all
  have "f64 (1 / 10) = 3602879701896397 / 36028797018963968"
    using f64_by [of "1 / 10" "- 3" 7205759403792794] by simp
  moreover have "10 \<le> float_of_int n"
    using double.R_mono [of 10 "of_int n"] n ten by (simp add: float_of_int_def)
  ultimately have "10 * (1 / 10) \<le> float_of_int n * f64 (1 / 10)" by (intro mult_mono) simp_all
  hence "1 \<le> float_of_int n * f64 (1 / 10)" by simp
  from double.R_mono [OF this] show ?thesis by (simp add: fmul_def ten)
qed

lemma four_fifths: "fmul (float_of_int m) (f64 (8 / 10)) \<le> max 0 (of_int m)"
proof (cases "0 < m")
  case True
  have "f64 (8 / 10) = 3602879701896397 / 4503599627370496"
    using f64_by [of "8 / 10" 0 7205759403792794] by simp
  hence e: "f64 (8 / 10) < 81 / 100" "0 < f64 (8 / 10)" by simp_all
  have m: "float_of_int m \<le> of_int m * (101 / 100)" "0 < float_of_int m"
    using f64_close [of "of_int m"] f64_pos [of "of_int m"] True by (simp_all add: float_of_int_def)
  have "float_of_int m * f64 (8 / 10) \<le> (of_int m * (101 / 100)) * (81 / 100)"
    using m e by (intro mult_mono) auto
  moreover have "fmul (float_of_int m) (f64 (8 / 10)) \<le> float_of_int m * f64 (8 / 10) * (101 / 100)"
    using f64_close [of "float_of_int m * f64 (8 / 10)"] m e by (simp add: fmul_def)
  ultimately have "fmul (float_of_int m) (f64 (8 / 10)) \<le> of_int m * (101 / 100) * (81 / 100) * (101 / 100)" by simp
  also have "\<dots> \<le> of_int m" using True by simp
  finally show ?thesis by simp
next
  case False
  hence "float_of_int m \<le> 0" using double.R_mono [of "of_int m" 0] double.R_int [of 0] by (simp add: float_of_int_def)
  moreover have "0 \<le> f64 (8 / 10)" using f64_pos [of "8 / 10"] by simp
  ultimately have "float_of_int m * f64 (8 / 10) \<le> 0" by (simp add: mult_nonpos_nonneg)
  from double.R_mono [OF this] show ?thesis using double.R_int [of 0] by (simp add: fmul_def)
qed


section \<open>The invariant\<close>

text \<open>
  A pool files every entry once, under its own hash, takes no fee below the minimum, and holds no more than its limit; a
  limit below ten is not one, because a tenth of fewer than ten entries is none.
\<close>

definition pool_filed :: "mempool \<Rightarrow> bool" where
  "pool_filed p \<longleftrightarrow> distinct (dict_keys (mp_txs p)) \<and> (\<forall>(k, t) \<in> set (mp_txs p). k = mt_hash t \<and> mp_min_fee p \<le> mt_fee t)"

definition pool_ok :: "mempool \<Rightarrow> bool" where
  "pool_ok p \<longleftrightarrow> pool_filed p \<and> int (get_size p) \<le> max 10 (mp_max_size p)"

lemma fold_delete: "fold (\<lambda>t. AList.delete (f t)) ts d = filter (\<lambda>(k, v). k \<notin> f ` set ts) d"
  by (induction ts arbitrary: d) (auto simp: AList.delete_eq filter_filter intro!: filter_cong)

lemma filed_hashes: "pool_filed p \<Longrightarrow> map mt_hash (dict_values (mp_txs p)) = dict_keys (mp_txs p)"
  by (auto simp: pool_filed_def)

lemma cheapest_hashes:
  assumes "pool_filed p"
  shows "distinct (map mt_hash (cheapest p))" "mt_hash ` set (cheapest p) \<subseteq> set (dict_keys (mp_txs p))"
    "set (cheapest p) \<subseteq> set (dict_values (mp_txs p))"
proof -
  let ?s = "sort_key mt_fee (dict_values (mp_txs p))"
  have "distinct (map mt_hash (dict_values (mp_txs p)))" 
    unfolding filed_hashes [OF assms] using assms by (simp add: pool_filed_def)
  hence d: "distinct (map mt_hash ?s)" unfolding distinct_map distinct_sort set_sort .
  show "distinct (map mt_hash (cheapest p))" using d by (simp add: cheapest_def take_map [symmetric])
  show "set (cheapest p) \<subseteq> set (dict_values (mp_txs p))" unfolding cheapest_def by (metis set_sort set_take_subset)
  thus "mt_hash ` set (cheapest p) \<subseteq> set (dict_keys (mp_txs p))" using filed_hashes [OF assms] by (metis image_mono list.set_map)
qed

lemma cleaned_size:
  assumes "pool_filed p"
  shows "length (fold (\<lambda>t. AList.delete (mt_hash t)) (cheapest p) (mp_txs p)) = get_size p - length (cheapest p)"
proof -
  let ?H = "mt_hash ` set (cheapest p)"
  have d: "distinct (dict_keys (mp_txs p))" using assms by (simp add: pool_filed_def)
  have "length (filter (\<lambda>(k, v). k \<in> ?H) (mp_txs p)) = card ?H"
  proof -
    have "map fst (filter (\<lambda>(k, v). k \<in> ?H) (mp_txs p)) = filter (\<lambda>k. k \<in> ?H) (dict_keys (mp_txs p))"
      by (simp add: filter_map comp_def case_prod_unfold)
    hence "length (filter (\<lambda>(k, v). k \<in> ?H) (mp_txs p)) = length (filter (\<lambda>k. k \<in> ?H) (dict_keys (mp_txs p)))"
      by (metis length_map)
    also have "\<dots> = card (set (filter (\<lambda>k. k \<in> ?H) (dict_keys (mp_txs p))))"
      using d by (simp only: distinct_card distinct_filter)
    also have "set (filter (\<lambda>k. k \<in> ?H) (dict_keys (mp_txs p))) = ?H" using cheapest_hashes(2) [OF assms] by auto
    finally show ?thesis .
  qed
  also have "card ?H = length (cheapest p)" using cheapest_hashes(1) [OF assms] by (metis distinct_card length_map list.set_map)
  finally have "length (filter (\<lambda>(k, v). k \<in> ?H) (mp_txs p)) = length (cheapest p)" .
  thus ?thesis
    using sum_length_filter_compl [of "\<lambda>(k, v). k \<in> ?H" "mp_txs p"]
    by (simp add: fold_delete get_size_def case_prod_unfold)
qed

lemma cleanup_pool:
  "mp_min_fee (cleanup p) = mp_min_fee p" "mp_max_size (cleanup p) = mp_max_size p" "mp_rejected (cleanup p) = mp_rejected p"
  "mp_chain_id (cleanup p) = mp_chain_id p" "mp_require (cleanup p) = mp_require p"
  "set (mp_txs (cleanup p)) \<subseteq> set (mp_txs p)"
  by (auto simp: cleanup_def fold_delete)

lemma filed_cleanup: "pool_filed p \<Longrightarrow> pool_filed (cleanup p)"
proof -
  assume p: "pool_filed p"
  have "distinct (map fst (filter (\<lambda>(k, v). k \<notin> mt_hash ` set (cheapest p)) (mp_txs p)))"
    using p by (simp add: pool_filed_def distinct_map_filter)
  hence "distinct (dict_keys (mp_txs (cleanup p)))" using p by (simp add: cleanup_def fold_delete pool_filed_def)
  thus ?thesis using p cleanup_pool(6) [of p] unfolding pool_filed_def cleanup_pool by blast
qed

lemma room_size:
  assumes "pool_filed p"
  shows "int (get_size (make_room p)) \<le> (if mp_max_size p \<le> int (get_size p) \<and> 10 \<le> get_size p then int (get_size p) - 1 else int (get_size p))"
proof (cases "mp_max_size p \<le> int (get_size p)")
  case True
  have "\<not> of_nat (get_size p) < fmul (float_of_int (mp_max_size p)) (f64 (8 / 10))"
    using four_fifths [of "mp_max_size p"] True by (auto simp: not_less)
  hence c: "get_size (cleanup p) = get_size p - length (cheapest p)"
    using cleaned_size [OF assms] by (simp add: cleanup_def get_size_def)
  have "1 \<le> length (cheapest p)" if "10 \<le> get_size p"
    using tenth_pos [of "int (get_size p)"] that by (auto simp: cheapest_def get_size_def Suc_le_eq)
  moreover have "int (get_size p - n) \<le> int (get_size p) - 1" if "10 \<le> get_size p" "1 \<le> n" for n using that by simp
  ultimately show ?thesis using True c by (auto simp: make_room_def)
qed (simp add: make_room_def)

lemma put_ok [inv_intros]:
  assumes "pool_ok p" "mp_min_fee p \<le> mt_fee t"
  shows "pool_ok (pool_put t p)"
proof -
  have f: "pool_filed p" using assms(1) by (simp add: pool_ok_def)
  let ?q = "make_room p"
  have q: "pool_filed ?q" "mp_min_fee ?q = mp_min_fee p" "mp_max_size ?q = mp_max_size p"
    using filed_cleanup [OF f] f by (simp_all add: make_room_def cleanup_pool)
  have sub: "set (dict_set k v d) \<subseteq> insert (k, v) (set d)" for k v and d :: "(string, pool_tx) dict" by (induction d) auto
  have len: "length (dict_set k v d) \<le> length d + 1" for k v and d :: "(string, pool_tx) dict" by (induction d) auto
  have "pool_filed (pool_put t p)"
    using q assms(2) unfolding pool_filed_def pool_put_def Let_def
    by (auto simp: distinct_update dest!: subsetD [OF sub])
  moreover have "int (get_size (pool_put t p)) \<le> int (get_size ?q) + 1"
    using len [of "mt_hash t" t "mp_txs ?q"] by (simp add: pool_put_def Let_def get_size_def)
  ultimately show ?thesis
    using room_size [OF f] assms(1) q(3) by (auto simp: pool_ok_def pool_put_def Let_def split: if_splits)
qed


lemma add_ok [inv_intros]:
  assumes "pool_ok p"
  shows "pool_ok (fst (pool_add cy chain sd cd t p))"
proof -
  have "pool_ok (p\<lparr>mp_rejected := n\<rparr>)" for n using assms by (simp add: pool_ok_def pool_filed_def get_size_def)
  moreover have "pool_ok (pool_put t p)" if "validate_mempool_tx t (mp_min_fee p) = Valid"
    using that by (intro put_ok [OF assms]) (simp add: validate_mempool_tx_def split: if_splits)
  ultimately show ?thesis using assms
    by (auto simp: pool_add_def reject_tx_def split: option.splits sum.splits verdict.splits)
qed

lemma flagged_ok [inv_intros]: "pool_ok p \<Longrightarrow> pool_ok (fst (add_flagged cy chain cd ts p))"
proof (induction cy chain cd ts arbitrary: p rule: add_flagged.induct)
  case (2 cy chain cd t ok ts)
  let ?a = "if ok then pool_add cy chain True cd t else reject_tx"
  have step: "pool_ok (fst (?a p))"
    using add_ok [OF 2(2), of cy chain True cd t] 2(2)
    by (auto simp: reject_tx_def pool_ok_def pool_filed_def get_size_def)
  obtain q r where q: "?a p = (q, r)" by (cases "?a p")
  hence qok: "pool_ok q" using step by simp
  show ?case
  proof (cases r)
    case (Inr b)
    thus ?thesis using q "2.IH" [OF qok] by (auto simp: andthen_def split: prod.splits sum.splits if_splits)
  qed (use q qok in \<open>auto simp: andthen_def split: if_splits\<close>)
qed simp

text \<open>
  C31. The pool's invariant. Whatever is added, singly, as a batch or raw, or removed, and whatever the chain answers or
  raises, every entry of the pool stays filed once under its own hash with at least the minimum fee, and the pool never
  holds more entries than its limit (or ten, if the limit is lower).
\<close>

theorem pool_stays_ok:
  assumes "pool_ok p"
  shows "pool_ok (fst (pool_add cy chain sig_done chain_done t p)) \<and> pool_ok (fst (add_batch cy chain chain_done txs p)) \<and>
    pool_ok (fst (add_raw t p)) \<and> pool_ok (fst (pool_remove h p))"
proof (intro conjI)
  show "pool_ok (fst (add_batch cy chain chain_done txs p))"
    using assms flagged_ok [OF assms] by (auto simp: add_batch_def andthen_def split: sum.splits)
  show "pool_ok (fst (add_raw t p))" using assms put_ok [OF assms] by (simp add: add_raw_def)
  have "int (length (AList.delete h (mp_txs p))) \<le> int (get_size p)" by (simp add: AList.delete_eq get_size_def)
  hence "int (length (AList.delete h (mp_txs p))) \<le> max 10 (mp_max_size p)" using assms unfolding pool_ok_def by linarith
  thus "pool_ok (fst (pool_remove h p))"
    using assms by (auto simp: pool_remove_def pool_ok_def pool_filed_def get_size_def AList.delete_eq distinct_map_filter)
qed (rule add_ok [OF assms])

definition entry :: "string \<Rightarrow> string \<Rightarrow> pyfloat \<Rightarrow> int \<Rightarrow> pool_tx" where
  "entry h a fee n = \<lparr>mt_hash = h, mt_from = a, mt_to = ''0xbob'', mt_amount = Finite 5, mt_fee = fee, mt_nonce = n,
     mt_signature = [], mt_public_key = [], mt_data = [], mt_gas = 21000, mt_timestamp = 0\<rparr>"

lemma fresh_pool: "pool_ok (new_mempool n 1)"
  by (simp add: pool_ok_def pool_filed_def new_mempool_def get_size_def)

theorem pool_stays_ok_witness:
  "pool_ok (fst (add_raw (entry ''x'' ''alice'' 2 0) (new_mempool 3 1))) \<and>
   mp_txs (fst (add_raw (entry ''x'' ''alice'' 2 0) (new_mempool 3 1))) = [(''x'', entry ''x'' ''alice'' 2 0)]"
proof
  show "pool_ok (fst (add_raw (entry ''x'' ''alice'' 2 0) (new_mempool 3 1)))"
    using pool_stays_ok [OF fresh_pool [of 3], of demo_crypto None True True "entry ''x'' ''alice'' 2 0" "[]" "[]"] by blast
qed (simp add: add_raw_def has_transaction_def new_mempool_def entry_def pool_put_def make_room_def get_size_def)

section \<open>Dropping the cheapest\<close>

lemma take_sorted_key:
  assumes "x \<in> set (take n (sort_key f xs))" "y \<in> set xs" "y \<notin> set (take n (sort_key f xs))"
  shows "f x \<le> f y"
proof -
  let ?s = "sort_key f xs"
  have "y \<in> set (drop n ?s)" using assms(2,3) by (metis Un_iff append_take_drop_id set_append set_sort)
  moreover have "sorted (map f (take n ?s @ drop n ?s))" by simp
  ultimately show ?thesis using assms(1) unfolding map_append sorted_append by auto
qed

text \<open>
  Room is made at the cheap end. A cleanup of a pool that is full takes exactly a tenth of its entries, rounded down in
  double precision, and every entry it takes paid at most as much as every entry it keeps.
\<close>

theorem cleanup_drops_cheapest:
  assumes "pool_filed p" "\<not> of_nat (get_size p) < fmul (float_of_int (mp_max_size p)) (f64 (8 / 10))"
  shows "get_size (cleanup p) = get_size p - nat \<lfloor>fmul (float_of_int (int (get_size p))) (f64 (1 / 10))\<rfloor> \<and>
    (\<forall>u \<in> set (dict_values (mp_txs p)). \<forall>t \<in> set (dict_values (mp_txs (cleanup p))).
       u \<notin> set (dict_values (mp_txs (cleanup p))) \<longrightarrow> mt_fee u \<le> mt_fee t)"
proof (intro conjI ballI impI)
  let ?n = "nat \<lfloor>fmul (float_of_int (int (get_size p))) (f64 (1 / 10))\<rfloor>"
  have c: "mp_txs (cleanup p) = filter (\<lambda>(k, v). k \<notin> mt_hash ` set (cheapest p)) (mp_txs p)"
    using assms(2) by (simp add: cleanup_def fold_delete)
  have "get_size (cleanup p) = get_size p - length (cheapest p)"
    using cleaned_size [OF assms(1)] assms(2) by (simp add: cleanup_def get_size_def)
  moreover have "length (cheapest p) = min (get_size p) ?n" by (simp add: cheapest_def get_size_def)
  moreover have "get_size p - min (get_size p) k = get_size p - k" for k by simp
  ultimately show "get_size (cleanup p) = get_size p - ?n" by (simp only:)
  fix u t assume u: "u \<in> set (dict_values (mp_txs p))" and t: "t \<in> set (dict_values (mp_txs (cleanup p)))"
    and gone: "u \<notin> set (dict_values (mp_txs (cleanup p)))"
  have kv: "\<And>k v. (k, v) \<in> set (mp_txs p) \<Longrightarrow> k = mt_hash v" using assms(1) by (auto simp: pool_filed_def)
  have inj: "inj_on mt_hash (set (dict_values (mp_txs p)))"
    using assms(1) filed_hashes [OF assms(1)] by (metis distinct_map pool_filed_def)
  obtain k where k: "(k, u) \<in> set (mp_txs p)" using u by auto
  have "mt_hash u \<in> mt_hash ` set (cheapest p)"
  proof (rule ccontr)
    assume "mt_hash u \<notin> mt_hash ` set (cheapest p)"
    hence "(k, u) \<in> set (mp_txs (cleanup p))" using k kv [OF k] c by simp
    thus False using gone by force
  qed
  hence uc: "u \<in> set (cheapest p)" using inj u cheapest_hashes(3) [OF assms(1)] by (auto dest: inj_onD)
  have "t \<in> set (dict_values (mp_txs p))" "t \<notin> set (cheapest p)" using t c by (auto dest: kv)
  with uc show "mt_fee u \<le> mt_fee t" unfolding cheapest_def by (intro take_sorted_key) auto
qed

theorem cleanup_drops_cheapest_witness:
  "get_size (cleanup \<lparr>mp_txs = map (\<lambda>n. ([n], entry [n] ''alice'' 2 0)) ''abcdefghij'', mp_max_size = 10, mp_min_fee = 1,
     mp_rejected = 0, mp_chain_id = 1, mp_require = False\<rparr>) = 9"
proof -
  let ?p = "\<lparr>mp_txs = map (\<lambda>n. ([n], entry [n] ''alice'' 2 0)) ''abcdefghij'', mp_max_size = 10, mp_min_fee = 1,
     mp_rejected = 0, mp_chain_id = 1, mp_require = False\<rparr>"
  have "pool_filed ?p" "get_size ?p = 10" by (auto simp: pool_filed_def get_size_def entry_def)
  moreover have "\<not> of_nat (get_size ?p) < fmul (float_of_int (mp_max_size ?p)) (f64 (8 / 10))"
    using four_fifths [of 10] by (simp add: get_size_def not_less)
  moreover have "\<lfloor>fmul (float_of_int 10) (f64 (1 / 10))\<rfloor> = 1"
  proof -
    have "f64 (1 / 10) = 3602879701896397 / 36028797018963968" "f64 10 = 10"
      using f64_by [of "1 / 10" "- 3" 7205759403792794] double.R_int [of 10] by simp_all
    hence "float_of_int 10 * f64 (1 / 10) \<le> 3 / 2" by (simp add: float_of_int_def)
    hence "fmul (float_of_int 10) (f64 (1 / 10)) \<le> f64 (3 / 2)" unfolding fmul_def by (rule double.R_mono)
    hence "fmul (float_of_int 10) (f64 (1 / 10)) < 2" using f64_close [of "3 / 2"] by simp
    thus ?thesis using tenth_pos [of 10] by (simp add: floor_eq_iff)
  qed
  ultimately show ?thesis using cleanup_drops_cheapest [of ?p] by simp
qed


section \<open>Hashes are only names\<close>

lemma signature_unnamed: "verify_transaction_signature c cy (tx\<lparr>tx_hash := h\<rparr>) v = verify_transaction_signature c cy tx v"
proof -
  have "canonical_payload c (tx\<lparr>tx_hash := h\<rparr>) v = canonical_payload c tx v" by (simp add: canonical_payload_def)
  hence "signature_material c cy (tx\<lparr>tx_hash := h\<rparr>) v = signature_material c cy tx v"
    unfolding signature_material_def by (simp only:) simp
  thus ?thesis by (simp add: verify_transaction_signature_def)
qed

lemma hash_not_checked:
  "validate_tx E (tx\<lparr>tx_hash := h\<rparr>) n s = validate_tx E tx n s"
proof -
  let ?t = "tx\<lparr>tx_hash := h\<rparr>"
  have sel: "tx_from ?t = tx_from tx" "tx_to ?t = tx_to tx" "tx_value ?t = tx_value tx" "tx_nonce ?t = tx_nonce tx" "tx_gas ?t = tx_gas tx"
    "tx_data ?t = tx_data tx" "tx_zk ?t = tx_zk tx" by simp_all
  have sig: "verify_tx_signature cfg cy ?t = verify_tx_signature cfg cy tx" for cfg cy
    by (simp add: verify_tx_signature_def signature_unnamed split: option.splits)
  have "check_funds E ?t s = check_funds E tx s" "check_nonce E ?t n s = check_nonce E tx n s" "check_shape E ?t = check_shape E tx"
    "validate_evm_deploy_bytecode E ?t s = validate_evm_deploy_bytecode E tx s" "check_zk E ?t = check_zk E tx"
    by (simp_all only: check_funds_def tx_plan_def check_nonce_def check_shape_def validate_evm_deploy_bytecode_def is_evm_deploy_tx_def
        check_zk_def validate_zk_tx_def sel)
  thus ?thesis by (simp add: validate_tx_def sig Let_def)
qed

lemma chain_tx_hash: "chain_tx g (t\<lparr>mt_hash := h\<rparr>) = (chain_tx g t)\<lparr>tx_hash := h\<rparr>"
  by (simp add: chain_tx_def)

lemma put_fields [simp]:
  "mp_min_fee (pool_put t p) = mp_min_fee p" "mp_require (pool_put t p) = mp_require p" "mp_chain_id (pool_put t p) = mp_chain_id p"
  "mp_max_size (pool_put t p) = mp_max_size p"
  by (simp_all add: pool_put_def Let_def make_room_def cleanup_pool)

lemma signature_ignores_hash:
  assumes "mp_require q = mp_require p" "mp_chain_id q = mp_chain_id p"
  shows "has_valid_signature cy q (t\<lparr>mt_hash := h\<rparr>) = has_valid_signature cy p t"
  using assms by (simp add: has_valid_signature_def chain_tx_hash signature_unnamed split: option.splits)

text \<open>
  One signature fills the pool. The hash an entry is filed under is what its sender says: neither the signature
  nor any check of the pool or the chain covers it. Once a transaction has been accepted, its copy under any other
  hash the pool does not hold is accepted as well, against the same chain state, for the same balance and nonce.
\<close>

theorem copies_are_accepted:
  assumes "pool_add cy chain sig_done chain_done t p = (q, Inr True)" "h \<noteq> []" "\<not> has_transaction h q"
  shows "pool_add cy chain sig_done chain_done (t\<lparr>mt_hash := h\<rparr>) q = (pool_put (t\<lparr>mt_hash := h\<rparr>) q, Inr True)"
proof -
  have q: "q = pool_put t p" using assms(1)
    by (auto simp: pool_add_def reject_tx_def split: if_splits option.splits sum.splits verdict.splits)
  have sig: "has_valid_signature cy q (t\<lparr>mt_hash := h\<rparr>) = has_valid_signature cy p t"
    by (rule signature_ignores_hash) (simp_all add: q)
  have ok: "validate_mempool_tx (t\<lparr>mt_hash := h\<rparr>) (mp_min_fee q) = Valid" if "validate_mempool_tx t (mp_min_fee p) = Valid"
    using that assms(2) by (auto simp: validate_mempool_tx_def q split: if_splits)
  have chain_ok: "validate_for_mempool E (chain_tx g (t\<lparr>mt_hash := h\<rparr>)) s = validate_for_mempool E (chain_tx g t) s"
    for E :: "'a chain_env" and g s
    by (simp add: validate_for_mempool_def chain_tx_hash hash_not_checked)
  show ?thesis
    using assms(1,3) unfolding pool_add_def
    by (auto simp: sig ok chain_ok reject_tx_def split: if_splits option.splits sum.splits verdict.splits)
qed

theorem copies_are_accepted_witness:
  "pool_add demo_crypto (None :: (sql_conn chain_env \<times> sql_conn) option) False False ((entry ''x'' ''alice'' 2 0)\<lparr>mt_amount := Finite 0, mt_hash := ''y''\<rparr>)
     (pool_put ((entry ''x'' ''alice'' 2 0)\<lparr>mt_amount := Finite 0\<rparr>) (new_mempool 10 1)) =
   (pool_put ((entry ''x'' ''alice'' 2 0)\<lparr>mt_amount := Finite 0, mt_hash := ''y''\<rparr>)
     (pool_put ((entry ''x'' ''alice'' 2 0)\<lparr>mt_amount := Finite 0\<rparr>) (new_mempool 10 1)), Inr True)"
proof -
  let ?t = "(entry ''x'' ''alice'' 2 0)\<lparr>mt_amount := Finite 0\<rparr>"
  have "pool_add demo_crypto (None :: (sql_conn chain_env \<times> sql_conn) option) False False ?t (new_mempool 10 1) =
      (pool_put ?t (new_mempool 10 1), Inr True)"
    by (simp add: pool_add_def has_transaction_def new_mempool_def validate_mempool_tx_def entry_def negative_amount_def positive_amount_def
        has_valid_signature_def)
  from copies_are_accepted [OF this, of "''y''"] show ?thesis
    by (simp add: has_transaction_def pool_put_def make_room_def new_mempool_def get_size_def entry_def)
qed

text \<open>An amount that is not a number stops a whole batch, if the entry is signed: \<open>int(nan)\<close> is not caught.\<close>

lemma poisoned_batch:
  assumes "t \<in> set txs" "mt_amount t = NotANumber" "mt_signature t \<noteq> []" "mt_public_key t \<noteq> []"
  shows "add_batch cy chain cd txs p = (p, Inl (Raised ''ValueError''))"
proof -
  have "sort_signature (mp_require p) t = None" using assms(2-) by (simp add: sort_signature_def signed_value_of_def)
  hence "None \<in> set (map (sort_signature (mp_require p)) txs)" using assms(1) by force
  hence "those (map (sort_signature (mp_require p)) txs) = None"
    by (induction txs) (auto split: option.splits)
  thus ?thesis using assms(1) by (auto simp: add_batch_def andthen_def verify_signatures_batch_def)
qed

end
