(* ===== verification/Forge.thy ===== *)
theory Forge
  imports Mempool_Props
begin

text \<open>
  From the pool into a block: how the mining loop of \<open>main.py\<close> turns the entries it is handed into transactions, what
  \<open>create_block\<close> selects of them, and what happens when the block is applied.
\<close>

section \<open>The mining loop\<close>

definition forge_tx :: "chain_config \<Rightarrow> pool_tx \<Rightarrow> transaction" where
  "forge_tx cfg t =
     chain_tx (if mt_gas t = 0 then (if mt_data t \<noteq> [] then cc_evm_gas_limit cfg else cc_base_gas cfg) else mt_gas t) t"

definition forge_txs :: "'s chain_env \<Rightarrow> 's \<Rightarrow> int \<Rightarrow> mempool \<Rightarrow> (store_fault, transaction list) result" where
  "forge_txs E s max_txs p = select_txs E s [] (map (forge_tx (ce_config E)) (pool_get max_txs 0 p))"

text \<open>After a success the block's transactions leave the pool, after a failure all that were handed out.\<close>

definition evict_all :: "string list \<Rightarrow> mempool \<Rightarrow> mempool" where
  "evict_all hs p = fold (\<lambda>h q. fst (pool_remove h q)) hs p"

definition after_forge :: "transaction list \<Rightarrow> transaction list \<Rightarrow> bool \<Rightarrow> mempool \<Rightarrow> mempool" where
  "after_forge handed included ok p = evict_all (map tx_hash (if ok then included else handed)) p"

section \<open>One transaction of a sender\<close>

text \<open>The transactions are at the tip: each carries the nonce its sender has there, as the pool's check demands.\<close>

definition at_tip :: "sql_conn \<Rightarrow> transaction list \<Rightarrow> bool" where
  "at_tip s txs \<longleftrightarrow> list_all (\<lambda>tx. tx_nonce tx = sql_nonces s (tx_from tx)) txs"

lemma selected:
  assumes E: "sql_node E" "sql_good s"
    and run: "select_txs E s cursor txs = Inr sel" "at_tip s txs"
    and cursor: "\<forall>(a, n) \<in> set cursor. n = sql_nonces s a + 1"
  shows "distinct (map tx_from sel) \<and> set (map tx_from sel) \<inter> set (dict_keys cursor) = {} \<and> set sel \<subseteq> set txs \<and>
    (\<forall>tx \<in> set sel. validate_for_block E tx (sql_nonces s (tx_from tx)) s = Inr Valid)"
  using run cursor
proof (induction txs arbitrary: cursor sel)
  case (Cons tx txs)
  let ?a = "tx_from tx"
  have st: "sp_nonce (ce_store E) ?a s = Inr (sql_nonces s ?a)"
    using sql.read_nonce [OF E(2)] E(1) by (simp add: sql_node_def)
  have n: "tx_nonce tx = sql_nonces s ?a" "at_tip s txs" using Cons.prems(2) by (simp_all add: at_tip_def)
  have sub: "set (dict_set a v d) \<subseteq> insert (a, v) (set d)" for a v and d :: "(string, int) dict" by (induction d) auto
  have cursor': "\<forall>(a, k) \<in> set (dict_set ?a (tx_nonce tx + 1) cursor). k = sql_nonces s a + 1"
    using Cons.prems(3) n(1) subsetD [OF sub [of ?a "tx_nonce tx + 1" cursor]] by fastforce
  have keys: "set (dict_keys (dict_set ?a k cursor)) = insert ?a (set (dict_keys cursor))" for k
    by (auto simp: dict_keys_set)
  show ?case
  proof (cases "?a \<in> set (dict_keys cursor)")
    case True
    then obtain k where k: "map_of cursor ?a = Some k" by (metis map_of_eq_None_iff not_None_eq list.set_map)
    hence "k = sql_nonces s ?a + 1" using Cons.prems(3) map_of_SomeD [OF k] by auto
    hence "validate_for_block_cursor E tx cursor s = Inr (Invalid ''nonce_mismatch_in_block'')"
      using k n(1) by (simp add: validate_for_block_cursor_def st dict_get_def)
    hence "select_txs E s cursor txs = Inr sel" using Cons.prems(1) by simp
    from Cons.IH [OF this n(2) Cons.prems(3)] show ?thesis by auto
  next
    case False
    hence "map_of cursor ?a = None" by (metis map_of_eq_None_iff list.set_map)
    hence v: "validate_for_block_cursor E tx cursor s = validate_for_block E tx (sql_nonces s ?a) s"
      using n(1) by (simp add: validate_for_block_cursor_def st dict_get_def)
    show ?thesis
    proof (cases "validate_for_block E tx (sql_nonces s ?a) s")
      case (Inr r)
      show ?thesis
      proof (cases r)
        case Valid
        then obtain sel' where sel': "select_txs E s (dict_set ?a (tx_nonce tx + 1) cursor) txs = Inr sel'" "sel = tx # sel'"
          using Cons.prems(1) v Inr by (auto simp: map_sum_def split: sum.splits)
        from Cons.IH [OF sel'(1) n(2) cursor'] show ?thesis
          unfolding keys sel'(2) using False Inr Valid by auto
      next
        case (Invalid e)
        hence "select_txs E s cursor txs = Inr sel" using Cons.prems(1) v Inr by simp
        from Cons.IH [OF this n(2) Cons.prems(3)] show ?thesis by auto
      qed
    qed (use Cons.prems(1) v in simp)
  qed
qed simp

section \<open>The block applies\<close>

text \<open>A transaction that applies on a store applies on any store where its sender has as much and the same nonce.\<close>

lemma applies_later:
  assumes E: "sql_node E" "\<not> ce_locks E" "sql_good s" "sql_good u" "plain_tx E tx"
    and now: "apply_transaction E tx h who True s = (t, Inr (Applied rc))"
    and later: "sql_nonces u (tx_from tx) = sql_nonces s (tx_from tx)" "sql_bal s (tx_from tx) \<le> sql_bal u (tx_from tx)"
  shows "\<exists>t' rc'. apply_transaction E tx h who True u = (t', Inr (Applied rc'))"
proof -
  note sv = sql_served [OF E(1)]
  have locks: "check_locks E a x n v = Inr Valid" for a x n v
    using E(1,2) by (simp add: check_locks_def from_satoshi_float_def sql_node_def)
  have tr: "\<exists>t rc. apply_transfer E True w tx p c u = (t, Inr (Applied rc))" for w p c
    using sql.apply_transfer_moves [OF sv E(4)] by blast
  show ?thesis
    using now later tr unfolding sql.apply_transaction_eq [OF sv E(3,5)] sql.apply_transaction_eq [OF sv E(4,5)]
    by (auto simp: andthen_def after_verdict_def locks can_afford_transfer_sat_def split: sum.splits if_splits verdict.splits)
qed

lemma others_gain:
  assumes "0 \<le> pl_burned p" "0 \<le> pl_miner p" "0 \<le> pl_value p" "a \<noteq> tx_from tx"
  shows "f a \<le> moved cfg who tx p f a"
proof -
  have up: "0 \<le> d \<Longrightarrow> g b \<le> credited c d g b" for b c d and g :: "string \<Rightarrow> int" by (auto simp: credited_def max_def)
  have other: "credited (tx_from tx) d f a = f a" for d using assms(4) by (simp add: credited_def)
  let ?g = "credited who (pl_miner p) (credited (tx_to tx) (pl_value p) (credited (tx_from tx) (- pl_total p) f))"
  have "f a \<le> ?g a" using up [OF assms(2)] up [OF assms(3)] other by (metis order.trans)
  thus ?thesis using up [OF assms(1)] by (auto simp: moved_def Let_def intro: order.trans)
qed

lemma applied_txs:
  assumes E: "sql_node E" "\<not> ce_locks E" "sql_good s"
  shows "distinct (map tx_from sel) \<Longrightarrow> block_plain E sel \<Longrightarrow> sql_good u \<Longrightarrow>
    (\<forall>tx \<in> set sel. (\<exists>t rc. apply_transaction E tx h who True s = (t, Inr (Applied rc))) \<and>
       sql_nonces u (tx_from tx) = sql_nonces s (tx_from tx) \<and> sql_bal s (tx_from tx) \<le> sql_bal u (tx_from tx)) \<Longrightarrow>
    \<exists>t burned. apply_txs E h who sel u = (t, Inr burned)"
proof (induction sel arbitrary: u)
  case (Cons tx sel)
  have shape: "plain_tx E tx" "sound_shape tx" "block_plain E sel" using Cons.prems(2) by simp_all
  obtain t0 rc0 where t0: "apply_transaction E tx h who True s = (t0, Inr (Applied rc0))"
      "sql_nonces u (tx_from tx) = sql_nonces s (tx_from tx)" "sql_bal s (tx_from tx) \<le> sql_bal u (tx_from tx)"
    using Cons.prems(4) by auto
  from applies_later [OF E Cons.prems(3) shape(1) t0] obtain v rc where v: "apply_transaction E tx h who True u = (v, Inr (Applied rc))"
    by blast
  from sql.applied_moves [OF sql_served [OF E(1)] Cons.prems(3) shape(1) v] obtain p where p: "tx_plan E tx None = Inr p"
      "sql.moves_to u v (moved (ce_config E) (effective_proposer (ce_config E) who) tx p (sql_bal u)) ((sql_nonces u)(tx_from tx := sql_nonces u (tx_from tx) + 1))"
    by metis
  have sound: "0 \<le> pl_burned p" "0 \<le> pl_miner p" "0 \<le> pl_value p"
    using plan_sound [OF _ shape(2)] p(1) E(1) by (auto simp: tx_plan_def sql_node_def)
  have good: "sql_good v" using p(2) by (simp add: sql.moves_to_def)
  have "\<forall>tx' \<in> set sel. (\<exists>t rc. apply_transaction E tx' h who True s = (t, Inr (Applied rc))) \<and>
       sql_nonces v (tx_from tx') = sql_nonces s (tx_from tx') \<and> sql_bal s (tx_from tx') \<le> sql_bal v (tx_from tx')"
  proof
    fix tx' assume tx': "tx' \<in> set sel"
    hence ne: "tx_from tx' \<noteq> tx_from tx" using Cons.prems(1) by (auto simp: image_iff)
    have "sql_bal u (tx_from tx') \<le> sql_bal v (tx_from tx')" "sql_nonces v (tx_from tx') = sql_nonces u (tx_from tx')"
      using p(2) others_gain [OF sound ne] ne by (auto simp: sql.moves_to_def)
    thus "(\<exists>t rc. apply_transaction E tx' h who True s = (t, Inr (Applied rc))) \<and>
       sql_nonces v (tx_from tx') = sql_nonces s (tx_from tx') \<and> sql_bal s (tx_from tx') \<le> sql_bal v (tx_from tx')"
      using Cons.prems(4) tx' by (metis list.set_intros(2) order.trans)
  qed
  from Cons.IH [OF _ shape(3) good this] Cons.prems(1) obtain t burned where "apply_txs E h who sel v = (t, Inr burned)" by auto
  thus ?case using v by (simp add: andthen_def)
qed simp



definition pending_entry :: "string \<Rightarrow> pyfloat \<Rightarrow> pool_tx" where
  "pending_entry h fee = \<lparr>mt_hash = h, mt_from = ''alice'', mt_to = ''bob'', mt_amount = Finite 5, mt_fee = fee, mt_nonce = 0,
     mt_signature = [], mt_public_key = [], mt_data = [], mt_gas = 21000, mt_timestamp = 0\<rparr>"


end
