(* ===== verification/Wire_Pool.thy ===== *)
theory Wire_Pool
  imports Forge
begin

text \<open>
  Transactions between peers: \<open>blockchain/mempool_wire.py\<close> and the transaction gate of \<open>network/p2p_node.py\<close>
  (\<open>_build_mempool_tx_from_wire\<close>, \<open>_ingest_peer_tx\<close>, \<open>_handle_mempool_batch\<close>, \<open>_handle_get_mempool\<close>). A wire entry holds
  what \<open>float()\<close> and \<open>int()\<close> make of its fields, nothing where they raise. Every refusal has its reason and its own
  counter, so the reason is all that is kept. The refusal of a fee that is not finite is taken to be on, as entries of
  the pool have finite fees.
\<close>

section \<open>The wire format\<close>

text \<open>\<open>TooLarge\<close>: an integer beyond every float, for which \<open>float()\<close> raises an \<open>OverflowError\<close>.\<close>

datatype 'a read_field = Missing | Unreadable | TooLarge | Field 'a

record wire_entry =
  wi_hash :: string
  wi_from :: string
  wi_to :: string
  wi_value :: "pool_amount read_field"
  wi_fee :: "pool_amount read_field"
  wi_nonce :: "int option"
  wi_signature :: string
  wi_public_key :: string
  wi_data :: string
  wi_gas :: "int option"

definition mempool_tx_to_wire :: "pool_tx \<Rightarrow> wire_entry" where
  "mempool_tx_to_wire t =
     \<lparr>wi_hash = mt_hash t, wi_from = mt_from t, wi_to = mt_to t, wi_value = Field (mt_amount t), wi_fee = Field (Finite (mt_fee t)),
      wi_nonce = Some (mt_nonce t), wi_signature = mt_signature t, wi_public_key = mt_public_key t, wi_data = mt_data t,
      wi_gas = Some (gas_or (mt_gas t) 21000)\<rparr>"

section \<open>The gate\<close>

record wire_guard =
  wg_unparseable_value :: bool
  wg_unparseable_nonce :: bool
  wg_unparseable_gas :: bool
  wg_empty_from :: bool
  wg_max_from :: bool
  wg_addr_chars :: int
  wg_empty_to :: bool
  wg_max_to :: bool
  wg_empty_sig :: bool
  wg_max_sig :: bool
  wg_sig_bytes :: int
  wg_empty_key :: bool
  wg_max_key :: bool
  wg_key_bytes :: int
  wg_empty_hash :: bool
  wg_max_hash :: bool
  wg_hash_chars :: int
  wg_min_fee :: bool
  wg_max_gas :: bool
  wg_gas_limit :: int
  wg_max_data :: bool
  wg_data_bytes :: int
  wg_negative_value :: bool
  wg_finite_value :: bool
  wg_max_value :: bool
  wg_value_limit :: pyfloat
  wg_negative_nonce :: bool
  wg_max_nonce :: bool
  wg_nonce_limit :: int
  wg_negative_fee :: bool
  wg_max_fee :: bool
  wg_fee_limit :: pyfloat
  wg_negative_gas :: bool
  wg_gas_price :: pyfloat

text \<open>What lies outside: the native check of the message and the hash of a transaction without one.\<close>

record wire_port =
  wp_shape :: "(wire_entry \<Rightarrow> bool) option"
  wp_batch_shape :: "(wire_entry list \<Rightarrow> bool) option"
  wp_hash :: "transaction \<Rightarrow> string"

definition or_default :: "'a :: zero \<Rightarrow> 'a \<Rightarrow> 'a" where
  "or_default x d = (if x = 0 then d else x)"

definition amount_below :: "pool_amount \<Rightarrow> pyfloat \<Rightarrow> bool" where
  "amount_below a x = (case a of Finite y \<Rightarrow> y < x | NotANumber \<Rightarrow> False | Infinite pos \<Rightarrow> \<not> pos)"

definition amount_above :: "pool_amount \<Rightarrow> pyfloat \<Rightarrow> bool" where
  "amount_above a x = (case a of Finite y \<Rightarrow> x < y | NotANumber \<Rightarrow> False | Infinite pos \<Rightarrow> pos)"

definition is_finite :: "pool_amount \<Rightarrow> bool" where
  "is_finite a = (case a of Finite y \<Rightarrow> True | _ \<Rightarrow> False)"

definition finite_part :: "pool_amount \<Rightarrow> pyfloat" where
  "finite_part a = (case a of Finite y \<Rightarrow> y | _ \<Rightarrow> 0)"

definition wire_calldata_byte_len :: "string \<Rightarrow> int" where
  "wire_calldata_byte_len s =
     (if take 2 s = ''0x'' \<or> take 2 s = ''0X'' then (int (length (drop 2 s)) + 1) div 2 else int (length s))"

definition too_long :: "int \<Rightarrow> int \<Rightarrow> int \<Rightarrow> bool" where
  "too_long len limit d \<longleftrightarrow> 0 < or_default limit d \<and> or_default limit d < len"

definition validate_p2p_wire_tx :: "wire_port \<Rightarrow> wire_entry \<Rightarrow> bool" where
  "validate_p2p_wire_tx W w = (case wp_shape W of Some f \<Rightarrow> f w | None \<Rightarrow> wi_from w \<noteq> [] \<and> wi_to w \<noteq> [])"

definition validate_p2p_mempool_batch :: "wire_port \<Rightarrow> wire_entry list \<Rightarrow> bool" where
  "validate_p2p_mempool_batch W ws =
     (case wp_batch_shape W of Some f \<Rightarrow> f ws | None \<Rightarrow> length ws \<le> 500 \<and> list_all (validate_p2p_wire_tx W) ws)"

definition wire_fee :: "wire_guard \<Rightarrow> wire_entry \<Rightarrow> int \<Rightarrow> pool_amount" where
  "wire_fee g w gas =
     (case wi_fee w of
        Missing \<Rightarrow> Finite (fmul (float_of_int gas) (wg_gas_price g))
      | Field x \<Rightarrow> x
      | _ \<Rightarrow> Finite 0)"

text \<open>
  Python computes the default of the fee also where the entry has one, and an \<open>OverflowError\<close> is not among the
  exceptions caught there.
\<close>

definition fee_overflows :: "wire_entry \<Rightarrow> int \<Rightarrow> bool" where
  "fee_overflows w gas \<longleftrightarrow> wi_fee w = TooLarge \<or> 2 ^ 1024 - 2 ^ 970 \<le> \<bar>gas\<bar>"

text \<open>The refusals in their order: the texts and a known hash; then, with the fee read, the limits; then the numbers.\<close>

definition text_refusals :: "wire_guard \<Rightarrow> mempool \<Rightarrow> wire_entry \<Rightarrow> (bool \<times> string) list" where
  "text_refusals g q w =
     (let sender = py_strip (wi_from w); receiver = py_strip (wi_to w); h = py_strip (wi_hash w)
      in [(wg_empty_from g \<and> sender = [], ''from_empty''),
          (wg_max_from g \<and> too_long (int (length sender)) (wg_addr_chars g) 128, ''from_too_large''),
          (wg_empty_to g \<and> receiver = [], ''to_empty''),
          (wg_max_to g \<and> too_long (int (length receiver)) (wg_addr_chars g) 128, ''to_too_large''),
          (wg_empty_sig g \<and> py_strip (wi_signature w) = [], ''signature_empty''),
          (wg_max_sig g \<and> too_long (wire_calldata_byte_len (wi_signature w)) (wg_sig_bytes g) 2048, ''signature_too_large''),
          (wg_empty_key g \<and> py_strip (wi_public_key w) = [], ''pubkey_empty''),
          (wg_max_key g \<and> too_long (wire_calldata_byte_len (wi_public_key w)) (wg_key_bytes g) 2048, ''pubkey_too_large''),
          (wg_empty_hash g \<and> h = [], ''hash_empty''),
          (wg_max_hash g \<and> too_long (int (length h)) (wg_hash_chars g) 128, ''hash_too_large''),
          (h \<noteq> [] \<and> has_transaction h q, ''duplicate_tx'')])"

definition limit_refusals :: "wire_guard \<Rightarrow> mempool \<Rightarrow> wire_entry \<Rightarrow> pool_amount \<Rightarrow> int \<Rightarrow> (bool \<times> string) list" where
  "limit_refusals g q w fee gas =
     (let gas_limit = or_default (wg_gas_limit g) 8000000
      in [(wg_min_fee g \<and> 0 < mp_min_fee q \<and> amount_below fee (mp_min_fee q), ''fee_too_low''),
          (wg_max_gas g \<and> 0 < gas_limit \<and> gas_limit < gas, ''gas_too_high''),
          (wg_max_data g \<and> too_long (wire_calldata_byte_len (wi_data w)) (wg_data_bytes g) 131072, ''calldata_too_large'')])"

definition number_refusals :: "wire_guard \<Rightarrow> pool_amount \<Rightarrow> int \<Rightarrow> pool_amount \<Rightarrow> int \<Rightarrow> (bool \<times> string) list" where
  "number_refusals g value nonce fee gas =
     (let value_limit = or_default (wg_value_limit g) 221000000; fee_limit = or_default (wg_fee_limit g) (10 ^ 9);
          nonce_limit = or_default (wg_nonce_limit g) (10 ^ 12)
      in [(wg_negative_value g \<and> amount_below value 0, ''value_negative''),
          (wg_finite_value g \<and> \<not> is_finite value, ''value_non_finite''),
          (wg_max_value g \<and> 0 < value_limit \<and> amount_above value value_limit, ''value_too_high''),
          (wg_negative_nonce g \<and> nonce < 0, ''nonce_negative''),
          (wg_max_nonce g \<and> 0 < nonce_limit \<and> nonce_limit < nonce, ''nonce_too_high''),
          (wg_negative_fee g \<and> amount_below fee 0, ''fee_negative''),
          (\<not> is_finite fee, ''fee_non_finite''),
          (wg_max_fee g \<and> 0 < fee_limit \<and> amount_above fee fee_limit, ''fee_too_high''),
          (wg_negative_gas g \<and> gas < 0, ''gas_negative'')])"

definition first_refusal :: "(bool \<times> string) list \<Rightarrow> string option" where
  "first_refusal rs = map_option snd (find fst rs)"

text \<open>A conversion that raised is refused, or replaced by its default where the refusal is off.\<close>

definition wire_number :: "bool \<Rightarrow> string \<Rightarrow> 'a option \<Rightarrow> 'a \<Rightarrow> (string, 'a) result" where
  "wire_number refuse reason x d = (case x of Some y \<Rightarrow> ret y | None \<Rightarrow> if refuse then raise reason else ret d)"

definition wire_value :: "wire_guard \<Rightarrow> wire_entry \<Rightarrow> (string, pool_amount) result" where
  "wire_value g w =
     (case wi_value w of
        Missing \<Rightarrow> ret (Finite 0)
      | Field x \<Rightarrow> ret x
      | _ \<Rightarrow> wire_number (wg_unparseable_value g) ''value_unparseable'' None (Finite 0))"

definition wire_numbers :: "wire_guard \<Rightarrow> wire_entry \<Rightarrow> (string, pool_amount \<times> int \<times> int) result" where
  "wire_numbers g w =
     (case wire_value g w of
        Inl e \<Rightarrow> raise e
      | Inr value \<Rightarrow>
          (case wire_number (wg_unparseable_nonce g) ''nonce_unparseable'' (wi_nonce w) 0 of
             Inl e \<Rightarrow> raise e
           | Inr nonce \<Rightarrow>
               (case wire_number (wg_unparseable_gas g) ''gas_unparseable'' (map_option (\<lambda>n. gas_or n 21000) (wi_gas w)) 21000 of
                  Inl e \<Rightarrow> raise e
                | Inr gas \<Rightarrow> ret (value, nonce, gas))))"

definition wire_tx :: "wire_port \<Rightarrow> wire_guard \<Rightarrow> pyfloat \<Rightarrow> wire_entry \<Rightarrow> pool_amount \<times> int \<times> int \<Rightarrow> pool_tx" where
  "wire_tx W g now w = (\<lambda>(value, nonce, gas).
     let t = \<lparr>mt_hash = py_strip (wi_hash w), mt_from = wi_from w, mt_to = wi_to w, mt_amount = value,
              mt_fee = finite_part (wire_fee g w gas), mt_nonce = nonce, mt_signature = wi_signature w, mt_public_key = wi_public_key w,
              mt_data = wi_data w, mt_gas = gas, mt_timestamp = now\<rparr>
     in if mt_hash t = [] then t\<lparr>mt_hash := wp_hash W (chain_tx gas t)\<rparr> else t)"

text \<open>The gate in front of the chain's check; the reason of a refusal, or an exception.\<close>

definition wire_gate :: "wire_port \<Rightarrow> wire_guard \<Rightarrow> mempool \<Rightarrow> wire_entry \<Rightarrow> (store_fault, (string, pool_amount \<times> int \<times> int) result) result" where
  "wire_gate W g q w =
     (if \<not> validate_p2p_wire_tx W w then ret (raise ''bad_wire_tx'')
      else if wi_value w = TooLarge then raise (Raised ''OverflowError'')
      else case wire_numbers g w of
          Inl e \<Rightarrow> ret (raise e)
        | Inr (value, nonce, gas) \<Rightarrow>
            (case first_refusal (text_refusals g q w) of
               Some e \<Rightarrow> ret (raise e)
             | None \<Rightarrow>
                 if fee_overflows w gas then raise (Raised ''OverflowError'')
                 else let fee = wire_fee g w gas
                      in case first_refusal (limit_refusals g q w fee gas @ number_refusals g value nonce fee gas) of
                          Some e \<Rightarrow> ret (raise e)
                        | None \<Rightarrow> ret (ret (value, nonce, gas))))"

definition build_mempool_tx_from_wire ::
  "wire_port \<Rightarrow> wire_guard \<Rightarrow> 's chain_env \<Rightarrow> 's \<Rightarrow> pyfloat \<Rightarrow> mempool \<Rightarrow> wire_entry \<Rightarrow> (store_fault, (string, pool_tx) result) result" where
  "build_mempool_tx_from_wire W g E s now q w =
     (case wire_gate W g q w of
        Inl e \<Rightarrow> raise e
      | Inr (Inl e) \<Rightarrow> ret (raise e)
      | Inr (Inr (value, nonce, gas)) \<Rightarrow>
          (let t = wire_tx W g now w (value, nonce, gas)
           in case validate_for_mempool E (chain_tx gas t) s of
               Inl e \<Rightarrow> raise e
             | Inr (Invalid e) \<Rightarrow> ret (raise e)
             | Inr Valid \<Rightarrow> ret (ret t)))"

text \<open>\<open>None\<close>: the entry was taken into the pool.\<close>

definition ingest_peer_tx ::
  "crypto_port \<Rightarrow> wire_port \<Rightarrow> wire_guard \<Rightarrow> 's chain_env \<Rightarrow> 's \<Rightarrow> pyfloat \<Rightarrow> wire_entry \<Rightarrow> (mempool, string option) action" where
  "ingest_peer_tx cy W g E s now w =
     andthen (asks (\<lambda>q. build_mempool_tx_from_wire W g E s now q w)) (\<lambda>built.
       case built of
         Inl e \<Rightarrow> give (Some e)
       | Inr t \<Rightarrow> andthen (pool_add cy (Some (E, s)) True True t) (\<lambda>ok. give (if ok then None else Some ''mempool_drop'')))"

fun build_all ::
  "wire_port \<Rightarrow> wire_guard \<Rightarrow> 's chain_env \<Rightarrow> 's \<Rightarrow> pyfloat \<Rightarrow> mempool \<Rightarrow> wire_entry list \<Rightarrow> (store_fault, pool_tx list) result" where
  "build_all W g E s now q [] = ret []"
| "build_all W g E s now q (w # ws) =
     (case build_mempool_tx_from_wire W g E s now q w of
        Inl e \<Rightarrow> raise e
      | Inr (Inl r) \<Rightarrow> build_all W g E s now q ws
      | Inr (Inr t) \<Rightarrow> map_sum id (Cons t) (build_all W g E s now q ws))"

text \<open>A batch of a peer: the strike, if it has one, and the hashes taken in.\<close>

definition handle_mempool_batch ::
  "crypto_port \<Rightarrow> wire_port \<Rightarrow> wire_guard \<Rightarrow> 's chain_env \<Rightarrow> 's \<Rightarrow> pyfloat \<Rightarrow> wire_entry list \<Rightarrow> (mempool, string option \<times> string list) action" where
  "handle_mempool_batch cy W g E s now ws =
     (if \<not> validate_p2p_mempool_batch W ws then give (Some ''bad_mempool_batch'', [])
      else andthen (asks (\<lambda>q. build_all W g E s now q ws)) (\<lambda>ts.
        if ts = [] then give (None, [])
        else andthen (add_batch cy (Some (E, s)) True ts) (\<lambda>(added, rejected, hs). give (None, hs))))"

section \<open>Serving the pool\<close>

definition tip_misaligned :: "bool \<Rightarrow> int \<Rightarrow> int \<Rightarrow> int \<Rightarrow> bool" where
  "tip_misaligned enabled max_delta peer_height local_height \<longleftrightarrow>
     enabled \<and> max 0 (or_default max_delta 2) < \<bar>peer_height - local_height\<bar>"

definition handle_get_mempool :: "bool \<Rightarrow> int \<Rightarrow> int \<Rightarrow> int \<Rightarrow> mempool \<Rightarrow> wire_entry list" where
  "handle_get_mempool enabled max_delta peer_height local_height p =
     (if tip_misaligned enabled max_delta peer_height local_height then []
      else map mempool_tx_to_wire (pool_get 200 0 p))"

section \<open>Relaying\<close>

lemma put_get: "pool_transaction (mt_hash t) (pool_put t q) = Some t"
  by (simp add: pool_transaction_def pool_put_def Let_def update_conv)

lemma refused_none: "first_refusal rs = None \<Longrightarrow> (b, r) \<in> set rs \<Longrightarrow> \<not> b"
  by (auto simp: first_refusal_def find_None_iff)

lemma gate_passed:
  assumes "wire_gate W g q w = Inr (Inr x)"
  shows "wire_numbers g w = Inr x" "first_refusal (text_refusals g q w) = None"
  using assms by (auto simp: wire_gate_def Let_def split: if_splits sum.splits option.splits)

lemma built:
  assumes "build_mempool_tx_from_wire W g E s now q w = Inr (Inr u)"
  obtains v n gas where "wire_numbers g w = Inr (v, n, gas)" "first_refusal (text_refusals g q w) = None"
    "u = wire_tx W g now w (v, n, gas)" "validate_for_mempool E (chain_tx gas u) s = Inr Valid"
  using assms gate_passed [of W g q w]
  by (auto simp: build_mempool_tx_from_wire_def Let_def split: if_splits sum.splits option.splits verdict.splits)

lemma built_from_wire:
  assumes "build_mempool_tx_from_wire W g E s now q (mempool_tx_to_wire t) = Inr (Inr u)" "py_strip (mt_hash t) \<noteq> []"
  shows "u = t\<lparr>mt_hash := py_strip (mt_hash t), mt_gas := gas_or (mt_gas t) 21000, mt_timestamp := now\<rparr> \<and>
    validate_for_mempool E (chain_tx (mt_gas u) u) s = Inr Valid \<and> \<not> has_transaction (mt_hash u) q"
proof -
  let ?w = "mempool_tx_to_wire t"
  obtain v n gas where b: "wire_numbers g ?w = Inr (v, n, gas)" "first_refusal (text_refusals g q ?w) = None"
      "u = wire_tx W g now ?w (v, n, gas)" "validate_for_mempool E (chain_tx gas u) s = Inr Valid"
    using built [OF assms(1)] .
  have "wire_numbers g ?w = Inr (mt_amount t, mt_nonce t, gas_or (mt_gas t) 21000)"
    by (simp add: wire_numbers_def wire_value_def wire_number_def mempool_tx_to_wire_def gas_or_def)
  hence vng: "v = mt_amount t" "n = mt_nonce t" "gas = gas_or (mt_gas t) 21000" using b(1) by simp_all
  have u: "u = t\<lparr>mt_hash := py_strip (mt_hash t), mt_gas := gas, mt_timestamp := now\<rparr>"
    using b(3) assms(2) by (simp add: vng wire_tx_def Let_def mempool_tx_to_wire_def wire_fee_def finite_part_def)
  have "(py_strip (wi_hash ?w) \<noteq> [] \<and> has_transaction (py_strip (wi_hash ?w)) q, ''duplicate_tx'') \<in> set (text_refusals g q ?w)"
    by (simp add: text_refusals_def Let_def)
  from refused_none [OF b(2) this] assms(2) have "\<not> has_transaction (py_strip (mt_hash t)) q"
    by (simp add: mempool_tx_to_wire_def)
  thus ?thesis using b(4) u vng(3) by simp
qed

text \<open>
  C32. What a node relays is what its peer takes in. If the entry a node serves passes the gate of a peer and the peer's pool
  accepts it, then the peer holds it under the hash it had (without outer blanks), with the same sender, receiver,
  value, fee, nonce, data and signature, the default of the gas written out, and the peer's own clock; it was
  not there before, and the peer's chain found it valid.
\<close>

theorem relayed_tx_arrives:
  assumes "ingest_peer_tx cy W g E s now (mempool_tx_to_wire t) q = (q', Inr None)" "py_strip (mt_hash t) \<noteq> []"
  shows "pool_transaction (py_strip (mt_hash t)) q' =
      Some (t\<lparr>mt_hash := py_strip (mt_hash t), mt_gas := gas_or (mt_gas t) 21000, mt_timestamp := now\<rparr>) \<and>
    \<not> has_transaction (py_strip (mt_hash t)) q \<and>
    validate_for_mempool E (chain_tx (gas_or (mt_gas t) 21000) (t\<lparr>mt_hash := py_strip (mt_hash t)\<rparr>)) s = Inr Valid"
proof -
  obtain u where u: "build_mempool_tx_from_wire W g E s now q (mempool_tx_to_wire t) = Inr (Inr u)"
      "pool_add cy (Some (E, s)) True True u q = (q', Inr True)"
    using assms(1) by (auto simp: ingest_peer_tx_def andthen_def split: sum.splits prod.splits if_splits)
  note b = built_from_wire [OF u(1) assms(2)]
  have "q' = pool_put u q" using u(2) by (auto simp: pool_add_def reject_tx_def split: if_splits)
  moreover have "chain_tx n (t\<lparr>mt_hash := h, mt_gas := m, mt_timestamp := now\<rparr>) = chain_tx n (t\<lparr>mt_hash := h\<rparr>)" for n h m
    by (simp add: chain_tx_def)
  ultimately show ?thesis using b put_get [of u q] by auto
qed

definition demo_guard :: wire_guard where
  "demo_guard = \<lparr>wg_unparseable_value = True, wg_unparseable_nonce = True, wg_unparseable_gas = True, wg_empty_from = True, wg_max_from = True,
     wg_addr_chars = 128, wg_empty_to = True, wg_max_to = True, wg_empty_sig = False, wg_max_sig = True, wg_sig_bytes = 2048,
     wg_empty_key = False, wg_max_key = True, wg_key_bytes = 2048, wg_empty_hash = True, wg_max_hash = True, wg_hash_chars = 128,
     wg_min_fee = True, wg_max_gas = True, wg_gas_limit = 8000000, wg_max_data = True, wg_data_bytes = 131072,
     wg_negative_value = True, wg_finite_value = True, wg_max_value = True, wg_value_limit = 221000000, wg_negative_nonce = True,
     wg_max_nonce = True, wg_nonce_limit = 1000000000000, wg_negative_fee = True, wg_max_fee = True, wg_fee_limit = 1000000000,
     wg_negative_gas = True, wg_gas_price = 1\<rparr>"

theorem relayed_tx_arrives_witness:
  "\<exists>q'. ingest_peer_tx demo_crypto \<lparr>wp_shape = None, wp_batch_shape = None, wp_hash = tx_hash\<rparr> demo_guard demo_env demo_db 7
      (mempool_tx_to_wire ((pending_entry '' t'' 2)\<lparr>mt_to := ''robert'', mt_gas := 0\<rparr>)) (new_mempool 10 1) = (q', Inr None) \<and>
     pool_transaction ''t'' q' = Some ((pending_entry ''t'' 2)\<lparr>mt_to := ''robert'', mt_timestamp := 7\<rparr>)"
proof -
  let ?W = "\<lparr>wp_shape = None, wp_batch_shape = None, wp_hash = tx_hash\<rparr>" and ?t = "(pending_entry '' t'' 2)\<lparr>mt_to := ''robert'', mt_gas := 0\<rparr>"
  let ?w = "mempool_tx_to_wire ?t" and ?q = "new_mempool 10 1" and ?u = "(pending_entry ''t'' 2)\<lparr>mt_to := ''robert'', mt_timestamp := 7\<rparr>"
  have strip: "py_strip '' t'' = ''t''" "py_strip ''alice'' = ''alice''" "py_strip ''robert'' = ''robert''" by code_simp+
  have ctx: "chain_tx 21000 ?u = demo_tx\<lparr>tx_to := ''robert''\<rparr>" by (simp add: pending_entry_def chain_tx_def demo_tx_def)
  have st: "sp_nonce (ce_store demo_env) ''alice'' demo_db = Inr 0" "sp_balance (ce_store demo_env) ''alice'' demo_db = Inr 30000000000"
    using sql.read_nonce [OF demo_facts(2)] sql.read_balance [OF demo_facts(2)] demo_facts(1,5,6) by (simp_all add: sql_node_def)
  have plan: "tx_plan demo_env (demo_tx\<lparr>tx_to := ''robert''\<rparr>) None = Inr demo_plan"
    using demo_amounts(1) by (simp add: tx_plan_def)
  have sender: "tx_from demo_tx = ''alice''" "tx_nonce demo_tx = 0" "tx_data demo_tx = []" "tx_signature demo_tx = []" "tx_zk demo_tx = None"
      "tx_gas demo_tx = 21000" "tx_value demo_tx = NumValue 5"
    by (simp_all add: demo_tx_def)
  have am: "ce_amount demo_env = no_native" by (simp add: demo_env_def)
  have valid: "validate_for_mempool demo_env (demo_tx\<lparr>tx_to := ''robert''\<rparr>) demo_db = Inr Valid"
    unfolding validate_for_mempool_def validate_tx_def Let_def check_funds_def plan
    by (simp add: check_shape_def check_nonce_def and_then_def sender st demo_facts demo_config_def negative_number_def verify_tx_signature_def
        validate_evm_deploy_bytecode_def is_evm_deploy_tx_def check_zk_def can_afford_transfer_sat_def demo_plan_def demo_locks from_satoshi_float_def am)
  have nums: "wire_numbers demo_guard ?w = Inr (Finite 5, 0, 21000)"
    by (simp add: wire_numbers_def wire_value_def wire_number_def mempool_tx_to_wire_def pending_entry_def gas_or_def)
  have "first_refusal (text_refusals demo_guard ?q ?w) = None"
    "first_refusal (limit_refusals demo_guard ?q ?w (Finite 2) 21000 @ number_refusals demo_guard (Finite 5) 0 (Finite 2) 21000) = None"
    by (simp_all add: first_refusal_def text_refusals_def limit_refusals_def number_refusals_def Let_def demo_guard_def mempool_tx_to_wire_def
        pending_entry_def strip too_long_def or_default_def wire_calldata_byte_len_def amount_below_def amount_above_def is_finite_def
        has_transaction_def new_mempool_def)
  moreover have "wi_value ?w = Field (Finite 5)" "\<not> fee_overflows ?w 21000" "wire_fee demo_guard ?w 21000 = Finite 2"
    by (simp_all add: fee_overflows_def wire_fee_def mempool_tx_to_wire_def pending_entry_def)
  moreover have "validate_p2p_wire_tx ?W ?w" by (simp add: validate_p2p_wire_tx_def mempool_tx_to_wire_def pending_entry_def)
  ultimately have gate: "wire_gate ?W demo_guard ?q ?w = Inr (Inr (Finite 5, 0, 21000))"
    using nums by (simp add: wire_gate_def)
  have tx: "wire_tx ?W demo_guard 7 ?w (Finite 5, 0, 21000) = ?u"
    by (simp add: wire_tx_def Let_def mempool_tx_to_wire_def pending_entry_def strip wire_fee_def finite_part_def)
  have "build_mempool_tx_from_wire ?W demo_guard demo_env demo_db 7 ?q ?w = Inr (Inr ?u)"
    using gate tx valid ctx by (simp add: build_mempool_tx_from_wire_def)
  moreover have "places_after_point 5 \<le> 8"
  proof -
    have "float_repr 5 = 5" using repr_f64 [of 5 5 0] double.R_int [of 5] by simp
    moreover have "magnitude 10 5 = 1" by (intro magnitude_unique) simp_all
    moreover have "significant_digits 5 = 1"
      by (simp add: significant_digits_def upt_conv_Cons calculation(2))
    ultimately show ?thesis by (simp add: places_after_point_def)
  qed
  hence "pool_add demo_crypto (Some (demo_env, demo_db)) True True ?u ?q = (pool_put ?u ?q, Inr True)"
    by (simp add: pool_add_def has_transaction_def new_mempool_def pending_entry_def validate_mempool_tx_def negative_amount_def positive_amount_def
        validate_amount_def)
  ultimately have run: "ingest_peer_tx demo_crypto ?W demo_guard demo_env demo_db 7 ?w ?q = (pool_put ?u ?q, Inr None)"
    by (simp add: ingest_peer_tx_def andthen_def)
  have "py_strip (mt_hash ?t) \<noteq> []" by (simp add: pending_entry_def strip)
  from relayed_tx_arrives [OF run this] have "pool_transaction ''t'' (pool_put ?u ?q) = Some ?u"
    by (simp add: pending_entry_def strip gas_or_def)
  thus ?thesis using run by blast
qed

end
