(* ===== verification/Pool_Props.thy ===== *)
theory Pool_Props
  imports Pool_Locks Float_Repr
begin

text \<open>
  The genesis allocation in whole coins, and the locks of the system pools as a transition system: what any sequence of
  epochs, spendings and votes keeps.
\<close>

section \<open>Genesis\<close>

lemma f64_int: "\<bar>m\<bar> \<le> 2 ^ 53 \<Longrightarrow> f64 (of_int m) = of_int m"
  by (rule double.R_int)

lemma supply_float: "float_of_int max_supply_abs = 221000000"
  using f64_int [of 221000000] by (simp add: float_of_int_def max_supply_abs_def)

lemma tenth_share: "fmul (float_of_int max_supply_abs) (f64 (10 / 100)) = 22100000"
proof -
  have t: "f64 (10 / 100) = 3602879701896397 / 36028797018963968" using f64_by [of "10 / 100" "- 3" 7205759403792794] by simp
  show ?thesis unfolding fmul_def supply_float t using f64_by [of "221000000 * (3602879701896397 / 36028797018963968)" 25 5932423577600000] by simp
qed

lemma founder_share: "founder_amount_abs = 38454000"
proof -
  have p: "founder_percent = 2448832297382707 / 140737488355328"
    unfolding founder_percent_def using f64_by [of "174 / 10" 5 4897664594765414] by simp
  have m: "fmul 221000000 founder_percent = 8064388300799999 / 2097152"
    unfolding fmul_def p using f64_by [of "221000000 * (2448832297382707 / 140737488355328)" 32 8064388300799999] by simp
  have d: "fdiv (8064388300799999 / 2097152) 100 = 5161208512511999 / 134217728"
    unfolding fdiv_def using f64_by [of "8064388300799999 / 2097152 / 100" 26 5161208512511999] by simp
  have "rne (5161208512511999 / 134217728 * 10 ^ 6) = 38454000000000" by (rule rne_eqI) simp
  hence "round6 (5161208512511999 / 134217728) = 38454000" using f64_int [of 38454000] by (simp add: round6_def)
  moreover have h: "float_of_int 100 = 100" using f64_int [of 100] by (simp add: float_of_int_def)
  ultimately show ?thesis unfolding founder_amount_abs_def supply_float h m d by simp
qed

text \<open>
  What the genesis block mints. For a founder whose address is not one of the pools', the genesis balances are exactly the
  founder's 38454000 coins and 22100000 each for ecosystem and treasury, together 82654000; the staking pool, which
  the allocation and the configuration count into the genesis supply of 110500000, gets nothing.
\<close>

theorem genesis_mints:
  assumes "f \<notin> {[], ''0xecosystem000000000000000000000000000001'', ''0xtreasury00000000000000000000000000001''}"
  shows "genesis_balances (Some f) = [(f, 38454000), (''0xecosystem000000000000000000000000000001'', 22100000),
      (''0xtreasury00000000000000000000000000001'', 22100000)] \<and>
    sum_list (dict_values (genesis_balances (Some f))) = 82654000"
proof -
  have "genesis_balances (Some f) = [(f, 38454000), (''0xecosystem000000000000000000000000000001'', 22100000),
      (''0xtreasury00000000000000000000000000001'', 22100000)]"
    using assms unfolding genesis_balances_def build_allocations_def Let_def
    by (simp add: tenth_share [simplified] founder_share truncate_float_def)
  thus ?thesis by simp
qed

theorem genesis_mints_witness:
  "sum_list (dict_values (genesis_balances (Some default_founder_address))) = 82654000"
  using genesis_mints [of default_founder_address] by (simp add: default_founder_address_def)

section \<open>What the locks keep\<close>

text \<open>
  The operations of the lock manager as steps: an epoch boundary, a recorded spending, a vote. The registry of the votes
  has the validators \<open>vs\<close>.
\<close>

inductive pool_step :: "string list \<Rightarrow> pool_state \<Rightarrow> pool_state \<Rightarrow> bool" for vs where
  epoch: "pool_step vs s (fst (on_epoch_boundary e s))"
| spending: "pool_step vs s (record_outgoing a x s)"
| voting: "pool_step vs s (fst (dao_vote pool voter (Some vs) s))"

definition info_ok :: "string list \<Rightarrow> pool_info \<Rightarrow> bool" where
  "info_ok vs i \<longleftrightarrow> 0 \<le> pi_released i \<and> pi_released i \<le> pi_total i \<and>
     distinct (dict_keys (pi_dao_votes i)) \<and> set (dict_keys (pi_dao_votes i)) \<subseteq> set vs \<and>
     (pi_dao_unlocked i \<longrightarrow> dao_vote_threshold \<le> fdiv (of_nat (length (pi_dao_votes i))) (of_nat (max 1 (length vs))))"

definition pools_ok :: "string list \<Rightarrow> pool_state \<Rightarrow> bool" where
  "pools_ok vs s \<longleftrightarrow> (\<forall>(a, i) \<in> set (ps_pools s). info_ok vs i) \<and> ps_staking_epochs s \<le> staking_release_epochs"

lemma pools_set:
  assumes "\<forall>(a, i) \<in> set d. P i" "P j"
  shows "\<forall>(a, i) \<in> set (dict_set k j d). P i"
proof -
  have "set (dict_set k j d) \<subseteq> insert (k, j) (set d)" by (induction d) auto
  thus ?thesis using assms by auto
qed

lemma pool_at: "\<forall>(a, i) \<in> set d. P i \<Longrightarrow> map_of d k = Some i \<Longrightarrow> P i"
  by (auto dest: map_of_SomeD)

lemma voted_more:
  assumes "dao_vote_threshold \<le> fdiv (of_nat (length d)) (of_nat n)" "1 \<le> n"
  shows "dao_vote_threshold \<le> fdiv (of_nat (length (dict_set v True d))) (of_nat n)"
proof -
  have "length d \<le> length (dict_set v True d)" by (induction d) auto
  hence "of_nat (length d) / (of_nat n :: rat) \<le> of_nat (length (dict_set v True d)) / of_nat n"
    by (intro divide_right_mono) simp_all
  hence "fdiv (of_nat (length d)) (of_nat n) \<le> fdiv (of_nat (length (dict_set v True d))) (of_nat n)"
    unfolding fdiv_def by (rule double.R_mono)
  thus ?thesis using assms(1) by linarith
qed

lemma pools_ok_with:
  assumes "pools_ok vs s" "info_ok vs j" "ps_pools t = dict_set k j (ps_pools s)" "ps_staking_epochs t \<le> staking_release_epochs"
  shows "pools_ok vs t"
  using assms pools_set [of "ps_pools s" "info_ok vs" j k] by (simp add: pools_ok_def)

lemma pools_okD: "pools_ok vs s \<Longrightarrow> map_of (ps_pools s) a = Some i \<Longrightarrow> info_ok vs i"
  using pool_at [of "ps_pools s" "info_ok vs" a i] by (simp add: pools_ok_def)

lemma epoch_ok:
  assumes s: "pools_ok vs s"
  shows "pools_ok vs (fst (on_epoch_boundary e s))"
proof (cases "map_of (ps_pools s) staking_address")
  case (Some i)
  let ?r = "fdiv (pi_total i) (float_of_int staking_release_epochs)"
  have o: "info_ok vs i" using pools_okD [OF s Some] .
  have "0 \<le> float_of_int staking_release_epochs" using f64_int [of 100] by (simp add: float_of_int_def staking_release_epochs_def)
  hence "0 \<le> ?r" using o unfolding fdiv_def by (intro double.R_nonneg) (simp add: info_ok_def)
  hence "0 \<le> fadd (pi_released i) ?r" using o double.R_nonneg by (simp add: info_ok_def fadd_def)
  hence "info_ok vs (i\<lparr>pi_released := min (pi_total i) (fadd (pi_released i) ?r)\<rparr>)" using o by (auto simp: info_ok_def)
  from pools_ok_with [OF s this, of _ staking_address] have
    "pools_ok vs (s\<lparr>ps_pools := dict_set staking_address (i\<lparr>pi_released := min (pi_total i) (fadd (pi_released i) ?r)\<rparr>) (ps_pools s),
      ps_staking_epochs := n, ps_last_epoch := e\<rparr>)" if "n \<le> staking_release_epochs" for n
    using that by simp
  moreover have "pools_ok vs (s\<lparr>ps_last_epoch := e\<rparr>)" using s by (simp add: pools_ok_def)
  ultimately show ?thesis using s Some by (simp add: on_epoch_boundary_def Let_def)
qed (use s in \<open>simp add: on_epoch_boundary_def pools_ok_def\<close>)

lemma spending_ok:
  assumes s: "pools_ok vs s"
  shows "pools_ok vs (record_outgoing a x s)"
proof (cases "map_of (ps_pools s) a")
  case (Some i)
  have "info_ok vs (i\<lparr>pi_spent := fadd (pi_spent i) x\<rparr>)" using pools_okD [OF s Some] by (simp add: info_ok_def)
  moreover have "ps_staking_epochs s \<le> staking_release_epochs" using s by (simp add: pools_ok_def)
  ultimately show ?thesis using Some by (intro pools_ok_with [OF s, of _ _ a]) (auto simp: record_outgoing_def dict_modify_def)
qed (use s in \<open>simp add: record_outgoing_def dict_modify_def pools_ok_def\<close>)

lemma resolved_voter: "resolve_voter vs v = Some w \<Longrightarrow> w \<in> set vs"
  by (auto simp: resolve_voter_def find_Some_iff split: if_splits)

lemma voting_ok:
  assumes s: "pools_ok vs s"
  shows "pools_ok vs (fst (dao_vote pool voter (Some vs) s))"
proof (cases "resolve_voter vs voter = None \<or> find (\<lambda>(a, i). pi_id i = pool) (ps_pools s) = None")
  case False
  then obtain w a i where w: "resolve_voter vs voter = Some w" and f: "find (\<lambda>(a, i). pi_id i = pool) (ps_pools s) = Some (a, i)"
    by auto
  have "(a, i) \<in> set (ps_pools s)" using f unfolding find_Some_iff by (metis nth_mem)
  hence o: "info_ok vs i" using s by (auto simp: pools_ok_def)
  let ?votes = "dict_set w True (pi_dao_votes i)"
  have v: "distinct (dict_keys ?votes)" "set (dict_keys ?votes) \<subseteq> set vs"
    using o resolved_voter [OF w] by (auto simp: info_ok_def distinct_update dict_keys_set)
  have j: "info_ok vs (i\<lparr>pi_dao_votes := ?votes\<rparr>)"
    using o v voted_more [of "pi_dao_votes i" "max 1 (length vs)" w] by (auto simp: info_ok_def)
  moreover have "info_ok vs (i\<lparr>pi_dao_votes := ?votes, pi_dao_unlocked := True, pi_locked := False\<rparr>)"
    if "dao_vote_threshold \<le> fdiv (of_nat (length ?votes)) (of_nat (max 1 (length vs)))"
    using o v that by (simp add: info_ok_def)
  moreover have "ps_staking_epochs s \<le> staking_release_epochs" using s by (simp add: pools_ok_def)
  ultimately have "pools_ok vs (s\<lparr>ps_pools := dict_set a k (ps_pools s)\<rparr>)"
    if "k = (if dao_vote_threshold \<le> fdiv (of_nat (length ?votes)) (of_nat (max 1 (length vs)))
             then i\<lparr>pi_dao_votes := ?votes, pi_dao_unlocked := True, pi_locked := False\<rparr> else i\<lparr>pi_dao_votes := ?votes\<rparr>)" for k
    using that by (intro pools_ok_with [OF s, of k _ a]) (simp_all split: if_splits)
  thus ?thesis using s by (simp add: dao_vote_def w f Let_def)
qed (use s in \<open>auto simp: dao_vote_def split: option.splits\<close>)

lemma new_pools: "pools_ok vs (new_pool_state f)"
proof -
  have half: "fmul 221000000 (f64 (126 / 1000)) \<ge> 0" "fmul 221000000 (f64 (1 / 10)) \<ge> 0"
    using double.R_nonneg by (simp_all add: fmul_def)
  thus ?thesis
    by (simp add: pools_ok_def new_pool_state_def build_allocations_def Let_def info_ok_def supply_float staking_release_epochs_def split: option.splits)
qed

text \<open>
  The locks hold. Whatever epochs pass, whatever is spent and whoever votes, in any order: no pool has released more than
  its total, the staking pool has been released at most a hundred times, only registered validators have votes, each one,
  and the ecosystem or treasury pool is unlocked only when their number reaches the threshold in double precision.
\<close>

theorem pool_locks_hold:
  assumes "(pool_step vs)\<^sup>*\<^sup>* (new_pool_state f) s"
  shows "pools_ok vs s"
  using assms
proof (induction rule: rtranclp_induct)
  case (step s t)
  from step(2,3) show ?case
    by (cases rule: pool_step.cases) (simp_all add: epoch_ok spending_ok voting_ok)
qed (rule new_pools)

theorem pool_locks_hold_witness:
  "pools_ok [''v''] (fst (dao_vote ''treasury'' ''V'' (Some [''v'']) (fst (on_epoch_boundary 0 (new_pool_state [])))))"
proof -
  have "(pool_step [''v''])\<^sup>*\<^sup>* (new_pool_state []) (fst (dao_vote ''treasury'' ''V'' (Some [''v'']) (fst (on_epoch_boundary 0 (new_pool_state [])))))"
    by (rule rtranclp.rtrancl_into_rtrancl [OF r_into_rtranclp]) (rule pool_step.intros)+
  thus ?thesis by (rule pool_locks_hold)
qed

end
