(* ===== verification/Block_Props.thy ===== *)
theory Block_Props
  imports Ledger_Props
begin

text \<open>
  The native path for blocks that mix transfers and contract calls keeps the balances of the block in a session and
  writes it back at the end. What it forgets of the session when a call comes.
\<close>

section \<open>Snapshots and sessions\<close>

definition rows_of :: "'s chain_env \<Rightarrow> 's \<Rightarrow> string \<Rightarrow> int \<times> int \<Rightarrow> bool" where
  "rows_of E s a = (\<lambda>(b, n). sp_balance (ce_store E) a s = Inr b \<and> sp_nonce (ce_store E) a s = Inr n)"

lemma each_reads:
  assumes F: "\<And>a s t r. F a s = (t, Inr r) \<Longrightarrow> t = s \<and> fst r = a \<and> P s r" and run: "each F addrs s = (t, Inr rows)"
  shows "t = s \<and> map fst rows = addrs \<and> (\<forall>r \<in> set rows. P s r)"
  using run
proof (induction addrs arbitrary: s t rows)
  case (Cons a addrs)
  from Cons.prems obtain u r rows' where r: "F a s = (u, Inr r)" "each F addrs u = (t, Inr rows')" "rows = r # rows'"
    by (auto elim!: andthen_cases)
  from F [OF r(1)] Cons.IH [OF r(2)] r(3) show ?case by auto
qed simp

lemma snapshot_reads:
  assumes "accounts_snapshot E addrs s = (t, Inr rows)"
  shows "t = s" "map fst rows = filter (\<lambda>a. a \<noteq> []) addrs" "(a, r) \<in> set rows \<Longrightarrow> rows_of E s a r"
proof -
  have "t = s \<and> map fst rows = filter (\<lambda>a. a \<noteq> []) addrs \<and> (\<forall>r \<in> set rows. (\<lambda>s (a, x). rows_of E s a x) s r)"
    using assms unfolding accounts_snapshot_def
    by (rule each_reads [rotated]) (auto simp: rows_of_def elim!: andthen_cases)
  thus "t = s" "map fst rows = filter (\<lambda>a. a \<noteq> []) addrs" "(a, r) \<in> set rows \<Longrightarrow> rows_of E s a r" by auto
qed

lemma update_all_get:
  assumes "distinct (map fst rows)"
  shows "map_of (dict_update_all rows d) a = (case map_of rows a of Some v \<Rightarrow> Some v | None \<Rightarrow> map_of d a)"
  using assms unfolding dict_update_all_def
proof (induction rows arbitrary: d)
  case (Cons row rows)
  obtain k v where row: "row = (k, v)" by (cases row)
  have "map_of rows k = None" using Cons.prems by (simp add: row map_of_eq_None_iff)
  thus ?case using Cons.IH [of "dict_set k v d"] Cons.prems by (auto simp: row update_conv split: option.splits)
qed simp

lemma mirror_reads: "mirror_plan E tx v used s = (t, r) \<Longrightarrow> t = s"
  by (auto simp: mirror_plan_def andthen_def split: sum.splits prod.splits)

text \<open>
  A call wipes the session. In a mixed block, when a transaction with call data comes, the session rows of the miner, the
  burn address, its sender and its receiver are read again from the store, which holds nothing of the block yet but
  what the EVM wrote: whatever the session said before, so the fees, values and nonces that earlier transactions of the
  block moved on these accounts are gone.
\<close>

theorem mixed_call_forgets:
  assumes "\<not> tx_is_simple tx" "mixed_effect E b session tx s = (t, Inr (effect, addrs, session'))" "a \<in> set (mixed_addrs E b tx)"
  shows "\<exists>r. map_of session' a = Some r \<and> rows_of E t a r"
proof -
  obtain u used contract where host: "run_evm_host_only E tx (bk_height b) s = (u, Inr (used, contract))"
    and rest: "(let addrs = remdups (mixed_addrs E b tx @ (case contract of None \<Rightarrow> [] | Some c \<Rightarrow> if c = [] then [] else [c]))
             in andthen (accounts_snapshot E addrs) (\<lambda>refreshed.
                andthen (mirror_plan E tx (NumValue 0) (Some used)) (\<lambda>u.
                give (effect_of tx False used, addrs, dict_update_all refreshed session)))) u = (t, Inr (effect, addrs, session'))"
    using assms(1,2) by (auto simp: mixed_effect_def elim!: andthen_cases)
  define as where "as = remdups (mixed_addrs E b tx @ (case contract of None \<Rightarrow> [] | Some c \<Rightarrow> if c = [] then [] else [c]))"
  obtain v rows where v: "accounts_snapshot E as u = (v, Inr rows)" "session' = dict_update_all rows session"
      "mirror_plan E tx (NumValue 0) (Some used) v = (t, Inr ())"
    using rest unfolding Let_def as_def [symmetric] by (auto elim!: andthen_cases)
  note sn = snapshot_reads [OF v(1)]
  have tv: "t = u" using mirror_reads [OF v(3)] sn(1) by simp
  have d: "distinct (map fst rows)" by (simp add: sn(2) as_def)
  have "a \<in> set (map fst rows)" 
    using assms(3) unfolding sn(2) as_def mixed_addrs_def by (simp only: set_remdups set_append set_filter mem_Collect_eq Un_iff) simp
  then obtain r where r: "map_of rows a = Some r" by (metis map_of_eq_None_iff not_None_eq list.set_map)
  hence "rows_of E u a r" using sn(3) map_of_SomeD [OF r] by blast
  moreover have "map_of session' a = Some r" using r update_all_get [OF d, of session a] by (simp add: v(2))
  ultimately show ?thesis using tv by blast
qed

definition call_env :: "sql_conn chain_env" where
  "call_env = demo_env\<lparr>ce_evm := Some \<lparr>ev_call = (\<lambda>tx g. give \<lparr>er_success = True, er_gas_used = 100, er_error = [], er_return = []\<rparr>),
     ev_deploy = (\<lambda>tx c g h. give \<lparr>er_success = True, er_gas_used = 100, er_error = [], er_return = ''c''\<rparr>)\<rparr>\<rparr>"

definition call_tx :: transaction where
  "call_tx = demo_tx\<lparr>tx_data := ''0x6000''\<rparr>"

theorem mixed_call_forgets_witness:
  "\<exists>t effect addrs session'. mixed_effect call_env demo_block [(''miner'', 99, 7)] call_tx demo_db = (t, Inr (effect, addrs, session')) \<and>
     map_of session' ''miner'' = Some (0, 0)"
proof -
  have E: "ce_config call_env = demo_config" "ce_store call_env = sql_port no_native" "ce_amount call_env = no_native"
    "ce_evm call_env = Some \<lparr>ev_call = (\<lambda>tx g. give \<lparr>er_success = True, er_gas_used = 100, er_error = [], er_return = []\<rparr>),
     ev_deploy = (\<lambda>tx c g h. give \<lparr>er_success = True, er_gas_used = 100, er_error = [], er_return = ''c''\<rparr>)\<rparr>"
    by (simp_all add: call_env_def demo_env_def)
  have tx: "tx_from call_tx = ''alice''" "tx_to call_tx = ''bob''" "tx_data call_tx = ''0x6000''" "tx_gas call_tx = 21000"
    by (simp_all add: call_tx_def demo_tx_def)
  have strip: "py_strip ''0x6000'' = ''0x6000''" "looks_like_deploy ''0x6000''" by code_simp+
  have simple: "\<not> tx_is_simple call_tx" by (simp add: tx_is_simple_def tx strip)
  have read: "sql_balance no_native a demo_db = Inr (sql_bal demo_db a)" "sql_nonce a demo_db = Inr (sql_nonces demo_db a)" for a
    using sql.read_balance [OF demo_facts(2)] sql.read_nonce [OF demo_facts(2)] by (simp_all add: sql_port_def)
  have "sql_row ''bob'' demo_db = None" by (simp add: sql_row_def demo_db_def Let_def)
  hence host: "run_evm_host_only call_env call_tx 1 demo_db = (demo_db, Inr (100, Some ''c''))"
    by (simp add: run_evm_host_only_def E tx andthen_def sql_port_def sql_get_account_def has_code_def strip Let_def)
  have "\<exists>p. tx_plan call_env (call_tx\<lparr>tx_value := NumValue 0\<rparr>) (Some 100) = Inr p"
    using dec28_million [of 21000] dec28_million [of 0] decimal.R_int [of 21000] decimal.R_int [of 21000000000] decimal.R_int [of 100]
    by (simp add: tx_plan_def E tx demo_config_def plan_no_native plan_py_def fee_amount_def gas_cost_def to_satoshi_value quantize_down_def
        clamp_rate_def satoshi_multiplier_def truncate_rat_def Let_def max_number_def)
  then obtain p where "tx_plan call_env (call_tx\<lparr>tx_value := NumValue 0\<rparr>) (Some 100) = Inr p" by blast
  hence mirror: "mirror_plan call_env call_tx (NumValue 0) (Some 100) s = (s, Inr ())" for s
    by (simp add: mirror_plan_def andthen_def amount_result_def float_of_sat_def from_satoshi_float_def E)
  have snap: "\<exists>rows. accounts_snapshot call_env as demo_db = (demo_db, Inr rows)" for as
  proof -
    have "\<exists>rows. each (\<lambda>a. andthen (asks (sql_balance no_native a)) (\<lambda>b. andthen (asks (sql_nonce a)) (\<lambda>n. give (a, b, n)))) xs demo_db =
        (demo_db, Inr rows)" for xs
      by (induction xs) (auto simp: andthen_def read)
    thus ?thesis by (simp add: accounts_snapshot_def E sql_port_def)
  qed
  have b: "bk_height demo_block = 1" "bk_miner demo_block = ''miner''" by (simp_all add: demo_block_def)
  obtain e as d where run: "mixed_effect call_env demo_block [(''miner'', 99, 7)] call_tx demo_db = (demo_db, Inr (e, as, d))"
    using simple snap [of "remdups (mixed_addrs call_env demo_block call_tx @ [''c''])"]
    by (auto simp: mixed_effect_def b host andthen_def mirror Let_def)
  have "''miner'' \<in> set (mixed_addrs call_env demo_block call_tx)" by (simp add: mixed_addrs_def b)
  from mixed_call_forgets [OF simple run this] have "map_of d ''miner'' = Some (sql_bal demo_db ''miner'', sql_nonces demo_db ''miner'')"
    by (auto simp: rows_of_def E sql_port_def read)
  moreover have "sql_bal demo_db ''miner'' = 0" "sql_nonces demo_db ''miner'' = 0"
    by (simp_all add: sql_bal_def sql_nonces_def sql_row_def demo_db_def Let_def)
  ultimately show ?thesis using run by auto
qed

end
