(* ===== verification/Evm_Word.thy ===== *)
theory Evm_Word
  imports Key_Codec Float_Repr "HOL-Library.Signed_Division"
begin

text \<open>
  The 256-bit arithmetic of the EVM as \<open>crypto/native.py\<close> computes it where the native library does not answer
  (\<open>evm_u256_add\<close> to \<open>evm_u256_signextend\<close>): on Python integers, masked by hand, with a true division of floats in
  \<open>sdiv\<close> and a \<open>copysign\<close> in \<open>smod\<close>. The second half compares every operation with the arithmetic of 256-bit words.
\<close>

unbundle bit_operations_syntax

type_synonym u256 = "256 word"

section \<open>Arithmetic\<close>

definition masked :: "int \<Rightarrow> int" where
  "masked v = take_bit 256 v"

text \<open>\<open>EVM_U256_MASK\<close> and \<open>1 << 255\<close>.\<close>

definition evm_u256_mask :: int where
  "evm_u256_mask = 2 ^ 256 - 1"

definition sign_bit :: int where
  "sign_bit = 2 ^ 255"

definition evm_u256_add :: "int \<Rightarrow> int \<Rightarrow> int" where
  "evm_u256_add l r = masked (masked l + masked r)"

definition evm_u256_mul :: "int \<Rightarrow> int \<Rightarrow> int" where
  "evm_u256_mul l r = masked (masked l * masked r)"

definition evm_u256_sub :: "int \<Rightarrow> int \<Rightarrow> int" where
  "evm_u256_sub l r = masked (masked l - masked r)"

definition evm_u256_div :: "int \<Rightarrow> int \<Rightarrow> int" where
  "evm_u256_div l r = (if masked r = 0 then 0 else masked l div masked r)"

definition evm_u256_mod :: "int \<Rightarrow> int \<Rightarrow> int" where
  "evm_u256_mod l r = (if masked r = 0 then 0 else masked l mod masked r)"

definition evm_u256_and :: "int \<Rightarrow> int \<Rightarrow> int" where
  "evm_u256_and l r = masked l AND masked r"

definition evm_u256_or :: "int \<Rightarrow> int \<Rightarrow> int" where
  "evm_u256_or l r = masked l OR masked r"

definition evm_u256_xor :: "int \<Rightarrow> int \<Rightarrow> int" where
  "evm_u256_xor l r = masked l XOR masked r"

definition evm_u256_not :: "int \<Rightarrow> int" where
  "evm_u256_not v = masked (- masked v - 1)"

text \<open>A shift to the left builds the whole number before it is masked; beyond the bits the host can hold it raises.\<close>

definition evm_u256_shl :: "int \<Rightarrow> int \<Rightarrow> int \<Rightarrow> int option" where
  "evm_u256_shl bits v shift =
     (if masked v \<noteq> 0 \<and> bits < masked shift then None else Some (if masked v = 0 then 0 else masked (masked v * 2 ^ nat (masked shift))))"

definition evm_u256_shr :: "int \<Rightarrow> int \<Rightarrow> int" where
  "evm_u256_shr v shift = (if 256 \<le> masked shift then 0 else masked v div 2 ^ nat (masked shift))"

definition to_signed :: "int \<Rightarrow> int" where
  "to_signed v = (if sign_bit \<le> masked v then masked v - (evm_u256_mask + 1) else masked v)"

definition py_flag :: "bool \<Rightarrow> int" where
  "py_flag b = (if b then 1 else 0)"

definition evm_u256_slt :: "int \<Rightarrow> int \<Rightarrow> int" where
  "evm_u256_slt l r =
     (let ln = sign_bit \<le> masked l; rn = sign_bit \<le> masked r
      in py_flag (if ln = rn then masked l < masked r else ln))"

definition evm_u256_sgt :: "int \<Rightarrow> int \<Rightarrow> int" where
  "evm_u256_sgt l r = evm_u256_slt r l"

definition evm_u256_sar :: "int \<Rightarrow> int \<Rightarrow> int" where
  "evm_u256_sar v0 shift0 =
     (let shift = masked shift0; v = masked v0
      in if 256 \<le> shift then (if sign_bit \<le> v then evm_u256_mask else 0)
         else if sign_bit \<le> v then (v div 2 ^ nat shift) OR masked (evm_u256_mask * 2 ^ nat (256 - shift))
         else v div 2 ^ nat shift)"

definition evm_u256_eq :: "int \<Rightarrow> int \<Rightarrow> int" where
  "evm_u256_eq l r = py_flag (masked l = masked r)"

definition evm_u256_lt :: "int \<Rightarrow> int \<Rightarrow> int" where
  "evm_u256_lt l r = py_flag (masked l < masked r)"

definition evm_u256_gt :: "int \<Rightarrow> int \<Rightarrow> int" where
  "evm_u256_gt l r = py_flag (masked r < masked l)"

definition evm_u256_iszero :: "int \<Rightarrow> int" where
  "evm_u256_iszero v = py_flag (masked v = 0)"

definition evm_u256_byte :: "int \<Rightarrow> int \<Rightarrow> int" where
  "evm_u256_byte i w =
     (if 32 \<le> masked i then 0 else (masked w div 2 ^ nat (8 * (31 - masked i))) mod 256)"

text \<open>\<open>int(x)\<close> of a float, \<open>a / b\<close> of integers, rounded once.\<close>

definition py_trunc :: "pyfloat \<Rightarrow> int" where
  "py_trunc x = (if 0 \<le> x then \<lfloor>x\<rfloor> else - \<lfloor>- x\<rfloor>)"

definition true_div :: "int \<Rightarrow> int \<Rightarrow> pyfloat" where
  "true_div a b = f64 (of_int a / of_int b)"

definition evm_u256_sdiv :: "int \<Rightarrow> int \<Rightarrow> int" where
  "evm_u256_sdiv l r =
     (if masked r = 0 then 0
      else if masked l = sign_bit \<and> masked r = evm_u256_mask then masked l
      else masked (py_trunc (true_div (to_signed l) (to_signed r))))"

definition evm_u256_smod :: "int \<Rightarrow> int \<Rightarrow> int" where
  "evm_u256_smod l r =
     (if masked r = 0 then 0
      else let ls = to_signed l; x = f64 (of_int (\<bar>ls\<bar> mod \<bar>to_signed r\<bar>))
           in masked (py_trunc (if ls < 0 then - x else x)))"

definition evm_u256_addmod :: "int \<Rightarrow> int \<Rightarrow> int \<Rightarrow> int" where
  "evm_u256_addmod l r m = (if masked m = 0 then 0 else (masked l + masked r) mod masked m)"

definition evm_u256_mulmod :: "int \<Rightarrow> int \<Rightarrow> int \<Rightarrow> int" where
  "evm_u256_mulmod l r m = (if masked m = 0 then 0 else (masked l * masked r) mod masked m)"

function exp_loop :: "int \<Rightarrow> int \<Rightarrow> int \<Rightarrow> int" where
  "exp_loop result b e =
     (if e \<le> 0 then result
      else exp_loop (if odd e then masked (result * b) else result) (masked (b * b)) (e div 2))"
  by pat_completeness auto
termination by (relation "measure (\<lambda>(r, b, e). nat e)") auto

declare exp_loop.simps [simp del]

definition evm_u256_exp :: "int \<Rightarrow> int \<Rightarrow> int" where
  "evm_u256_exp b e =
     (if masked e = 0 then (if masked b = 0 then 0 else 1) else exp_loop 1 (masked b) (masked e))"

definition evm_u256_signextend :: "int \<Rightarrow> int \<Rightarrow> int" where
  "evm_u256_signextend i0 w0 =
     (let i = masked i0; w = masked w0; bit = nat (8 * i + 7)
      in if 32 \<le> i then w
         else if odd (w div 2 ^ bit) then w OR masked (- (2 ^ (bit + 1)))
         else w mod 2 ^ (bit + 1))"

section \<open>Comparison with words\<close>

lemma mask_sign: "evm_u256_mask + 1 = 2 * sign_bit" "0 < sign_bit" "1 < sign_bit"
  by (simp_all add: evm_u256_mask_def sign_bit_def)

lemma masked_mod: "masked v = v mod (evm_u256_mask + 1)"
proof -
  have "evm_u256_mask + 1 = 2 ^ 256" by (simp add: evm_u256_mask_def)
  thus ?thesis by (simp only: masked_def take_bit_eq_mod)
qed

lemma masked_range: "0 \<le> masked v" "masked v < evm_u256_mask + 1"
  unfolding masked_mod using mask_sign by simp_all

lemma masked_id: "0 \<le> v \<Longrightarrow> v < evm_u256_mask + 1 \<Longrightarrow> masked v = v"
  unfolding masked_mod by (rule mod_pos_pos_trivial)

lemma uint_range: "0 \<le> uint (a :: u256)" "uint (a :: u256) < evm_u256_mask + 1"
  using uint_bounded [of a] by (simp_all add: evm_u256_mask_def)

lemma masked_uint [simp]: "masked (uint (a :: u256)) = uint a"
  by (rule masked_id) (rule uint_range)+

lemma masked_0 [simp]: "masked 0 = 0" "masked 1 = 1"
  by (simp_all add: masked_def)

lemma masked_idem [simp]: "masked (masked v) = masked v"
  by (simp add: masked_def)

lemma uint_of_int: "uint (word_of_int v :: u256) = masked v"
  by (simp add: masked_def uint_word_of_int_eq)

lemma word_of_masked [simp]: "word_of_int (masked v) = (word_of_int v :: u256)"
  by (rule word_uint_eq_iff [THEN iffD2]) (simp add: uint_of_int)

lemma bit_255:
  assumes "0 \<le> v" "v < evm_u256_mask + 1"
  shows "bit v 255 \<longleftrightarrow> sign_bit \<le> v"
proof -
  have "v div sign_bit = (if sign_bit \<le> v then 1 else 0)"
    using assms mask_sign by (auto simp: div_pos_geq div_pos_pos_trivial)
  hence "odd (v div sign_bit) \<longleftrightarrow> sign_bit \<le> v" by simp
  thus ?thesis unfolding bit_iff_odd sign_bit_def .
qed

lemma to_signed_range:
  assumes "0 \<le> v" "v < evm_u256_mask + 1"
  shows "signed_take_bit 255 v = (if sign_bit \<le> v then v - (evm_u256_mask + 1) else v)"
proof -
  have "signed_take_bit 255 v = take_bit (Suc 255) v - 2 ^ Suc 255 * of_bool (bit v 255)"
    by (rule signed_take_bit_eq_take_bit_minus)
  moreover have "take_bit (Suc 255) v = v" "(2::int) ^ Suc 255 = evm_u256_mask + 1"
    using masked_id [OF assms] by (simp_all add: masked_def evm_u256_mask_def)
  ultimately show ?thesis using bit_255 [OF assms] by simp
qed

lemma to_signed_sint [simp]: "to_signed (uint (a :: u256)) = sint a"
  using to_signed_range [OF uint_range, of a] by (simp add: to_signed_def sint_uint)

lemma wi_uint [simp]:
  "word_of_int (uint a + uint b) = (a + b :: u256)" "word_of_int (uint a * uint b) = (a * b :: u256)"
  "word_of_int (uint a - uint b) = (a - b :: u256)" "word_of_int (uint a div uint b) = (a div b :: u256)"
  "word_of_int (uint a mod uint b) = (a mod b :: u256)"
  by (simp_all add: wi_hom_syms [symmetric] word_div_def word_mod_def)

lemma uint_zero_iff [simp]: "uint (a :: u256) = 0 \<longleftrightarrow> a = 0"
  by (simp add: uint_0_iff)

lemma plain_ops:
  "word_of_int (evm_u256_add (uint a) (uint b)) = (a + b :: u256)"
  "word_of_int (evm_u256_mul (uint a) (uint b)) = (a * b :: u256)"
  "word_of_int (evm_u256_sub (uint a) (uint b)) = (a - b :: u256)"
  "word_of_int (evm_u256_div (uint a) (uint b)) = (a div b :: u256)"
  "word_of_int (evm_u256_mod (uint a) (uint b)) = (if b = 0 then 0 else a mod b :: u256)"
  by (simp_all add: evm_u256_add_def evm_u256_mul_def evm_u256_sub_def evm_u256_div_def evm_u256_mod_def)

lemma bit_ops:
  fixes a b :: u256
  shows "word_of_int (evm_u256_and (uint a) (uint b)) = a AND b"
    and "word_of_int (evm_u256_or (uint a) (uint b)) = a OR b"
    and "word_of_int (evm_u256_xor (uint a) (uint b)) = a XOR b"
    and "word_of_int (evm_u256_not (uint a)) = NOT a"
proof -
  show "word_of_int (evm_u256_and (uint a) (uint b)) = a AND b" by (simp only: evm_u256_and_def masked_uint word_and_def)
  show "word_of_int (evm_u256_or (uint a) (uint b)) = a OR b" by (simp only: evm_u256_or_def masked_uint word_or_def)
  show "word_of_int (evm_u256_xor (uint a) (uint b)) = a XOR b" by (simp only: evm_u256_xor_def masked_uint word_xor_def)
  show "word_of_int (evm_u256_not (uint a)) = NOT a" by (simp add: evm_u256_not_def not_eq_complement)
qed

lemma order_ops:
  fixes a b :: u256
  shows "evm_u256_lt (uint a) (uint b) = of_bool (a < b)"
    and "evm_u256_gt (uint a) (uint b) = of_bool (b < a)"
    and "evm_u256_eq (uint a) (uint b) = of_bool (a = b)"
    and "evm_u256_iszero (uint a) = of_bool (a = 0)"
  by (simp_all add: evm_u256_lt_def evm_u256_gt_def evm_u256_eq_def evm_u256_iszero_def py_flag_def word_less_def word_uint_eq_iff [symmetric])

lemma sint_cases: "sint (a :: u256) = (if sign_bit \<le> uint a then uint a - (evm_u256_mask + 1) else uint a)"
  using to_signed_sint [of a, symmetric] by (simp add: to_signed_def)

lemma neg_iff: "sign_bit \<le> uint (a :: u256) \<longleftrightarrow> sint a < 0"
  using uint_range [of a] by (simp add: sint_cases)

lemma slt_word:
  fixes a b :: u256
  shows "evm_u256_slt (uint a) (uint b) = of_bool (a <s b)"
proof -
  have "((if (sign_bit \<le> x) = (sign_bit \<le> y) then x < y else sign_bit \<le> x) \<longleftrightarrow>
      (if sign_bit \<le> x then x - (evm_u256_mask + 1) else x) < (if sign_bit \<le> y then y - (evm_u256_mask + 1) else y))"
    if "0 \<le> x" "0 \<le> y" "x < evm_u256_mask + 1" "y < evm_u256_mask + 1" for x y
    using that by auto
  from this [OF uint_range(1) uint_range(1) uint_range(2) uint_range(2), of a b] show ?thesis
    unfolding evm_u256_slt_def Let_def py_flag_def word_sless_alt sint_cases masked_uint of_bool_def by simp
qed

lemma shl_word:
  fixes a b :: u256
  assumes "evm_u256_shl bits (uint a) (uint b) = Some n"
  shows "word_of_int n = push_bit (unat b) a"
proof -
  have "n = masked (uint a * 2 ^ unat b)"
    using assms by (auto simp: evm_u256_shl_def split: if_splits)
  hence "word_of_int n = (word_of_int (uint a * 2 ^ unat b) :: u256)" by simp
  also have "\<dots> = a * 2 ^ unat b" by simp
  finally show ?thesis by (simp add: push_bit_eq_mult)
qed

lemma shr_word:
  fixes a b :: u256
  shows "word_of_int (evm_u256_shr (uint a) (uint b)) = drop_bit (unat b) a"
proof (cases "256 \<le> uint b")
  case True
  hence "256 \<le> unat b" by (metis nat_uint_eq nat_mono nat_numeral)
  hence "drop_bit (unat b) a = 0" by (intro bit_eqI) (auto simp: bit_drop_bit_eq dest: bit_imp_le_length)
  thus ?thesis using True by (simp add: evm_u256_shr_def)
next
  case False
  moreover have "uint (drop_bit (unat b) a) = uint a div 2 ^ unat b" 
  proof -
    have "uint (drop_bit (unat b) a) = drop_bit (unat b) (masked (uint a))" by (simp only: unsigned_drop_bit_eq masked_def) simp
    thus ?thesis by (simp add: drop_bit_eq_div)
  qed
  ultimately have "evm_u256_shr (uint a) (uint b) = uint (drop_bit (unat b) a)"
    by (simp add: evm_u256_shr_def)
  thus ?thesis by simp
qed

lemma bit_word_of_int: "bit (word_of_int v :: u256) n \<longleftrightarrow> n < 256 \<and> bit v n"
  by (simp add: bit_word_of_int_iff)

lemma bit_uint: "bit (uint (a :: u256)) n \<longleftrightarrow> n < 256 \<and> bit a n"
  by (simp add: bit_uint_iff)

lemma bit_masked: "bit (masked v) n \<longleftrightarrow> n < 256 \<and> bit v n"
  by (simp add: masked_def bit_take_bit_iff)

lemma sign_of: "sign_bit \<le> uint (a :: u256) \<longleftrightarrow> bit a 255"
  using bit_255 [OF uint_range, of a] by (simp add: bit_uint)

lemma big_shift: "256 \<le> uint (b :: u256) \<longleftrightarrow> 256 \<le> unat b"
proof -
  have "uint b = int (unat b)" by simp
  thus ?thesis by linarith
qed

lemma bit_signed_drop:
  assumes "n < 256"
  shows "bit (signed_drop_bit m (a :: u256)) n \<longleftrightarrow> bit a (if 256 - m \<le> n then 255 else m + n)"
  using assms unfolding bit_signed_drop_bit_iff by simp

lemma no_high_bit: "256 \<le> n \<Longrightarrow> \<not> bit (a :: u256) n"
  by (auto dest: bit_imp_le_length)

lemma sar_word:
  fixes a b :: u256
  shows "word_of_int (evm_u256_sar (uint a) (uint b)) = signed_drop_bit (unat b) a"
proof (rule bit_eqI)
  fix n assume n: "possible_bit TYPE(u256) n"
  hence n': "n < 256" by simp
  have m: "evm_u256_mask = mask 256" by (simp add: evm_u256_mask_def mask_eq_exp_minus_1)
  have sh: "uint a div 2 ^ unat b = drop_bit (unat b) (uint a)" by (simp add: drop_bit_eq_div)
  have ones: "bit (masked (evm_u256_mask * 2 ^ nat (256 - uint b))) n \<longleftrightarrow> 256 - unat b \<le> n"
    if "unat b < 256"
  proof -
    have "nat (256 - uint b) = 256 - unat b" 
    proof -
      have "uint b = int (unat b)" by simp
      thus ?thesis by linarith
    qed
    moreover have "evm_u256_mask * 2 ^ k = push_bit k (mask 256)" for k by (simp add: m push_bit_eq_mult)
    ultimately show ?thesis using n' by (simp add: bit_masked bit_push_bit_iff bit_mask_iff) linarith
  qed
  show "bit (word_of_int (evm_u256_sar (uint a) (uint b)) :: u256) n = bit (signed_drop_bit (unat b) a) n"
  proof (cases "256 \<le> unat b")
    case True
    thus ?thesis unfolding bit_word_of_int bit_signed_drop [OF n'] evm_u256_sar_def Let_def masked_uint big_shift sign_of
      using n' by (simp add: m bit_mask_iff)
  next
    case False
    have "bit (evm_u256_sar (uint a) (uint b)) n \<longleftrightarrow>
        bit a (n + unat b) \<or> (bit a 255 \<and> 256 - unat b \<le> n)"
      unfolding evm_u256_sar_def Let_def masked_uint big_shift sign_of
      using False n' ones no_high_bit by (auto simp: sh bit_or_iff bit_drop_bit_eq bit_uint add.commute)
    also have "\<dots> \<longleftrightarrow> bit a (if 256 - unat b \<le> n then 255 else unat b + n)"
      using no_high_bit [of "n + unat b" a] False by (cases "256 - unat b \<le> n") (auto simp: add.commute)
    finally show ?thesis using n' by (simp only: bit_word_of_int bit_signed_drop simp_thms)
  qed
qed

lemma byte_word:
  fixes i w :: u256
  shows "word_of_int (evm_u256_byte (uint i) (uint w)) = (if 32 \<le> i then 0 else take_bit 8 (drop_bit (8 * (31 - unat i)) w))"
proof -
  have i: "32 \<le> uint i \<longleftrightarrow> 32 \<le> i" by (simp add: word_le_def)
  have sh: "nat (8 * (31 - uint i)) = 8 * (31 - unat i)"
  proof -
    have "nat (8 * (31 - int k)) = 8 * (31 - k)" for k by (cases "k \<le> 31") (simp_all add: nat_mult_distrib nat_diff_distrib)
    from this [of "unat i"] show ?thesis by simp
  qed
  show ?thesis
  proof (cases "32 \<le> i")
    case False
    have "uint w div 2 ^ k mod 256 = take_bit 8 (drop_bit k (uint w))" for k
      by (simp add: take_bit_eq_mod drop_bit_eq_div)
    hence "evm_u256_byte (uint i) (uint w) = take_bit 8 (drop_bit (8 * (31 - unat i)) (uint w))"
      using False unfolding evm_u256_byte_def masked_uint i sh by simp
    thus ?thesis using False
      by (intro bit_eqI) (auto simp: bit_word_of_int bit_take_bit_iff bit_drop_bit_eq bit_uint no_high_bit dest: bit_imp_le_length)
  qed (simp add: evm_u256_byte_def i)
qed

lemma mod_ops:
  fixes a b m :: u256
  assumes "m \<noteq> 0"
  shows "evm_u256_addmod (uint a) (uint b) (uint m) = (uint a + uint b) mod uint m"
    and "evm_u256_mulmod (uint a) (uint b) (uint m) = (uint a * uint b) mod uint m"
  using assms by (simp_all add: evm_u256_addmod_def evm_u256_mulmod_def)

lemma exp_loop_power:
  "0 \<le> e \<Longrightarrow> (word_of_int (exp_loop r b e) :: u256) = word_of_int r * word_of_int b ^ nat e"
proof (induction r b e rule: exp_loop.induct)
  case (1 r b e)
  show ?case
  proof (cases "e = 0")
    case False
    hence e: "\<not> e \<le> 0" "0 \<le> e div 2" using 1(2) by auto
    have ne: "nat e = 2 * nat (e div 2) + (if odd e then 1 else 0)" 
    proof (cases "odd e")
      case True
      then obtain d where "e = 2 * d + 1" by (rule oddE)
      thus ?thesis using e(2) by (simp add: nat_add_distrib nat_mult_distrib)
    next
      case False
      then obtain d where "e = 2 * d" by auto
      thus ?thesis using e(2) by (simp add: nat_mult_distrib)
    qed
    have "(word_of_int (exp_loop r b e) :: u256) =
        word_of_int (if odd e then masked (r * b) else r) * word_of_int (masked (b * b)) ^ nat (e div 2)"
      using 1(1) [OF e(1) e(2)] e by (simp add: exp_loop.simps [of r b e])
    also have "\<dots> = word_of_int r * word_of_int b ^ nat e"
      unfolding ne by (simp add: power_add power_mult power2_eq_square power_mult_distrib mult.assoc)
    finally show ?thesis .
  qed (simp add: exp_loop.simps)
qed

lemma exp_word:
  fixes b e :: u256
  shows "word_of_int (evm_u256_exp (uint b) (uint e)) = (if b = 0 \<and> e = 0 then 0 else b ^ unat e)"
  using exp_loop_power [OF uint_range(1), of 1 "uint b" e] by (simp add: evm_u256_exp_def)

lemma signextend_word:
  fixes i w :: u256
  shows "word_of_int (evm_u256_signextend (uint i) (uint w)) = (if 32 \<le> i then w else signed_take_bit (8 * unat i + 7) w)"
proof -
  have i: "32 \<le> uint i \<longleftrightarrow> 32 \<le> i" by (simp add: word_le_def)
  have m: "nat (8 * uint i + 7) = 8 * unat i + 7"
  proof -
    have "nat (8 * int k + 7) = 8 * k + 7" for k by simp
    from this [of "unat i"] show ?thesis by simp
  qed
  show ?thesis
  proof (cases "32 \<le> i")
    case False
    define k where "k = 8 * unat i + 7"
    have sb: "odd (uint w div 2 ^ k) \<longleftrightarrow> bit w k"
    proof -
      have "odd (uint w div 2 ^ k) \<longleftrightarrow> bit (uint w) k" by (simp add: bit_iff_odd)
      thus ?thesis by (auto simp: bit_uint no_high_bit dest: bit_imp_le_length)
    qed
    have neg: "bit (masked (- (2 ^ (k + 1)))) n \<longleftrightarrow> n < 256 \<and> k < n" for n
      unfolding bit_masked minus_exp_eq_not_mask by (auto simp: bit_not_iff bit_mask_iff)
    have low: "bit (uint w mod 2 ^ (k + 1)) n \<longleftrightarrow> n \<le> k \<and> bit (uint w) n" for n
      unfolding take_bit_eq_mod [symmetric] bit_take_bit_iff by auto
    have "bit (word_of_int (evm_u256_signextend (uint i) (uint w)) :: u256) n = bit (signed_take_bit k w) n" if n: "n < 256" for n
    proof (cases "bit w k")
      case True
      thus ?thesis using n i False
        unfolding evm_u256_signextend_def Let_def masked_uint m k_def [symmetric] sb bit_word_of_int
        by (simp only: if_False if_True bit_or_iff neg bit_uint) (auto simp: bit_signed_take_bit_iff min_def)
    next
      case nk: False
      thus ?thesis using n i False
        unfolding evm_u256_signextend_def Let_def masked_uint m k_def [symmetric] sb bit_word_of_int
        by (simp only: if_False if_True low bit_uint) (auto simp: bit_signed_take_bit_iff min_def)
    qed
    hence "word_of_int (evm_u256_signextend (uint i) (uint w)) = signed_take_bit k w"
      by (intro bit_eqI) simp
    thus ?thesis using False by (simp add: k_def)
  qed (simp add: evm_u256_signextend_def i)
qed

section \<open>Signed division\<close>

text \<open>
  The true division of two integers is a float, so the quotient is the integer quotient only where no rounding reaches
  the next integer: certainly for numbers below \<open>2 ^ 53\<close>.
\<close>

lemma trunc_rounded:
  assumes a: "0 \<le> a" "a < 2 ^ 53" and b: "0 < b"
  shows "\<lfloor>f64 (of_int a / of_int b)\<rfloor> = a div b"
proof (cases "a = 0")
  case False
  define q :: rat where "q = of_int a / of_int b"
  define k where "k = a div b"
  have q: "0 < q" using False a b by (simp add: q_def)
  have kq: "of_int k \<le> q" using of_int_floor_le [of q] by (simp add: q_def k_def floor_divide_of_int_eq)
  have "k \<le> a" using a b by (simp add: k_def div_le_dividend pos_imp_zdiv_nonneg_iff zdiv_mono2 order.trans [OF zdiv_mono2 [of a 1 b]])
  hence "\<bar>k\<bar> \<le> 2 ^ 53" using a b by (simp add: k_def pos_imp_zdiv_nonneg_iff)
  hence low: "of_int k \<le> f64 q" using double.R_mono [OF kq] double.R_int [of k] by simp
  have "a < (k + 1) * b" using b by (simp add: k_def) (metis div_mult_mod_eq pos_mod_bound add_strict_left_mono distrib_right mult_1)
  hence "a + 1 \<le> (k + 1) * b" by simp
  hence "of_int a + 1 \<le> (of_int k + 1) * (of_int b :: rat)" by (metis of_int_1 of_int_add of_int_le_iff of_int_mult)
  hence gap: "q + 1 / of_int b \<le> of_int k + 1" using b by (simp add: q_def field_simps)
  have "q / 2 ^ 53 < 1 / of_int b" using a b by (simp add: q_def field_simps)
  hence "f64 q < of_int k + 1" using f64_error [OF q] gap by linarith
  hence "\<lfloor>f64 q\<rfloor> = k" using low by (simp add: floor_eq_iff)
  thus ?thesis by (simp add: q_def k_def)
qed (simp add: double.R_int [of 0, simplified])

lemma trunc_uminus: "py_trunc (- x) = - py_trunc x"
  by (auto simp: py_trunc_def)

lemma trunc_div:
  assumes "\<bar>a\<bar> < 2 ^ 53" "b \<noteq> 0"
  shows "py_trunc (true_div a b) = a sdiv b"
proof -
  have pos: "py_trunc (true_div c d) = c div d" if "0 \<le> c" "c < 2 ^ 53" "0 < d" for c d
  proof -
    have "0 \<le> true_div c d" using double.R_mono [of 0 "of_int c / of_int d"] double.R_int [of 0] that by (simp add: true_div_def)
    thus ?thesis using trunc_rounded [OF that] by (simp add: py_trunc_def true_div_def)
  qed
  have neg: "true_div (- c) d = - true_div c d" "true_div c (- d) = - true_div c d" for c d
    using double.R_uminus [of "of_int c / of_int d"] by (simp_all add: true_div_def)
  consider "0 \<le> a" "0 < b" | "0 \<le> a" "b < 0" | "a < 0" "0 < b" | "a < 0" "b < 0" using assms(2) by linarith
  thus ?thesis
  proof cases
    case 1
    thus ?thesis using pos [of a b] assms(1) by (cases "a = 0") (auto simp: signed_divide_int_def)
  next
    case 2
    thus ?thesis using pos [of a "- b"] neg(2) [of a "- b"] assms(1)
      by (cases "a = 0") (auto simp: signed_divide_int_def trunc_uminus)
  next
    case 3
    thus ?thesis using pos [of "- a" b] neg(1) [of "- a" b] assms(1) by (simp add: signed_divide_int_def trunc_uminus)
  next
    case 4
    thus ?thesis using pos [of "- a" "- b"] neg(1) [of "- a" b] neg(2) [of "- a" "- b"] assms(1)
      by (simp add: signed_divide_int_def trunc_uminus)
  qed
qed

lemma trunc_signed_int: "\<bar>m\<bar> \<le> 2 ^ 53 \<Longrightarrow> py_trunc (if neg then - f64 (of_int m) else f64 (of_int m)) = (if neg then - m else m)"
  using double.R_int [of m] by (auto simp: py_trunc_def)

text \<open>
  C27. Signed division and remainder agree with truncating division as long as the dividend has at most 53 bits.
\<close>

theorem signed_division_exact:
  fixes a b :: u256
  assumes "\<bar>sint a\<bar> < 2 ^ 53"
  shows "word_of_int (evm_u256_sdiv (uint a) (uint b)) = (word_of_int (sint a sdiv sint b) :: u256) \<and>
    word_of_int (evm_u256_smod (uint a) (uint b)) = (if b = 0 then 0 else word_of_int (sint a smod sint b) :: u256)"
proof
  have nz: "b \<noteq> 0 \<Longrightarrow> sint b \<noteq> 0" by (metis signed_0 signed_word_eqI)
  have "uint a \<noteq> sign_bit"
    using assms mask_sign by (auto simp: sint_cases sign_bit_def)
  thus "word_of_int (evm_u256_sdiv (uint a) (uint b)) = (word_of_int (sint a sdiv sint b) :: u256)"
    using trunc_div [OF assms nz] by (simp add: evm_u256_sdiv_def)
  have "\<bar>\<bar>sint a\<bar> mod \<bar>sint b\<bar>\<bar> \<le> 2 ^ 53"
    using assms zmod_le_nonneg_dividend [of "\<bar>sint a\<bar>" "\<bar>sint b\<bar>"] pos_mod_sign [of "\<bar>sint b\<bar>" "\<bar>sint a\<bar>"]
    by (cases "sint b = 0") auto
  from trunc_signed_int [OF this] show "word_of_int (evm_u256_smod (uint a) (uint b)) = (if b = 0 then 0 else word_of_int (sint a smod sint b) :: u256)"
    by (auto simp: evm_u256_smod_def Let_def signed_modulo_int_def sgn_if)
qed

theorem signed_division_witness:
  "word_of_int (evm_u256_sdiv (uint (- 7 :: u256)) (uint (2 :: u256))) = (- 3 :: u256)"
proof -
  have "sint (- 7 :: u256) = - 7" "sint (2 :: u256) = 2" by simp_all
  with signed_division_exact [of "- 7" 2] show ?thesis by (simp add: signed_divide_int_def)
qed

text \<open>Beyond that it rounds: dividing by one changes the number.\<close>

lemma signed_division_rounds: "evm_u256_sdiv (2 ^ 60 + 1) 1 = 2 ^ 60"
proof -
  have "f64 (2 ^ 60 + 1) = of_int (2 ^ 52) * 2 powi (61 - 53)"
    by (rule f64_by) (simp_all add: power_int_def)
  hence "true_div (2 ^ 60 + 1) 1 = 2 ^ 60" by (simp add: true_div_def)
  moreover have "to_signed (2 ^ 60 + 1) = 2 ^ 60 + 1" "to_signed 1 = 1" "masked (2 ^ 60 + 1) = 2 ^ 60 + 1" "masked (2 ^ 60) = 2 ^ 60"
    by (simp_all add: to_signed_def sign_bit_def masked_def take_bit_eq_mod)
  ultimately show ?thesis by (simp add: evm_u256_sdiv_def py_trunc_def sign_bit_def)
qed

text \<open>
  C13. The unsigned operations, the bitwise ones, the shifts, the comparisons and the sign extension of the fallback are
  the operations of 256-bit words; exponentiation is, except that zero to the power of zero is zero.
\<close>

theorem u256_is_word_arithmetic:
  fixes a b m :: u256
  shows "map (\<lambda>f. word_of_int (f (uint a) (uint b)))
      [evm_u256_add, evm_u256_mul, evm_u256_sub, evm_u256_div, evm_u256_mod, evm_u256_and, evm_u256_or, evm_u256_xor,
       evm_u256_shr, evm_u256_sar, evm_u256_eq, evm_u256_lt, evm_u256_gt, evm_u256_slt, evm_u256_sgt, evm_u256_exp] =
      [a + b, a * b, a - b, a div b, (if b = 0 then 0 else a mod b), a AND b, a OR b, a XOR b,
       drop_bit (unat b) a, signed_drop_bit (unat b) a, of_bool (a = b), of_bool (a < b), of_bool (b < a), of_bool (a <s b), of_bool (b <s a),
       (if a = 0 \<and> b = 0 then 0 else a ^ unat b)] \<and>
    word_of_int (evm_u256_not (uint a)) = NOT a \<and>
    evm_u256_shl bits (uint a) (uint b) \<in> {None, Some (uint (push_bit (unat b) a))} \<and>
    word_of_int (evm_u256_byte (uint b) (uint a)) = (if 32 \<le> b then 0 else take_bit 8 (drop_bit (8 * (31 - unat b)) a)) \<and>
    word_of_int (evm_u256_signextend (uint b) (uint a)) = (if 32 \<le> b then a else signed_take_bit (8 * unat b + 7) a) \<and>
    evm_u256_addmod (uint a) (uint b) (uint m) = (if m = 0 then 0 else (uint a + uint b) mod uint m) \<and>
    evm_u256_mulmod (uint a) (uint b) (uint m) = (if m = 0 then 0 else (uint a * uint b) mod uint m)"
proof -
  have "evm_u256_shl bits (uint a) (uint b) = Some n \<Longrightarrow> n = uint (push_bit (unat b) a)" for n
    using shl_word [of bits a b n] uint_of_int [of n] by (auto simp: evm_u256_shl_def split: if_splits)
  hence "evm_u256_shl bits (uint a) (uint b) \<in> {None, Some (uint (push_bit (unat b) a))}"
    by (cases "evm_u256_shl bits (uint a) (uint b)") auto
  thus ?thesis
    by (simp add: plain_ops bit_ops shr_word sar_word order_ops slt_word evm_u256_sgt_def exp_word byte_word signextend_word
    mod_ops evm_u256_addmod_def evm_u256_mulmod_def)
qed

end
