(* ===== verification/Evm_Memory.thy ===== *)
theory Evm_Memory
  imports Evm_Word Evm_Bytecode
begin

text \<open>
  What the interpreter asks of \<open>crypto/native.py\<close> beside arithmetic: slices, words and copies of the memory, immediate
  values, addresses, and the table of jump destinations (the Python paths, which the native ones repeat). A position is
  a natural number and memory a list of bytes. The table is compared with the definition of where an instruction starts.
\<close>

section \<open>Memory\<close>

text \<open>A chunk that is too short is filled with zeros on the right.\<close>

definition padded :: "nat \<Rightarrow> bytes \<Rightarrow> bytes" where
  "padded n bs = bs @ replicate (n - length bs) 0"

definition evm_memory_slice :: "bytes \<Rightarrow> nat \<Rightarrow> nat \<Rightarrow> bytes" where
  "evm_memory_slice memory offset n = padded n (if offset < length memory then take n (drop offset memory) else [])"

definition evm_memory_read_word :: "bytes \<Rightarrow> nat \<Rightarrow> int" where
  "evm_memory_read_word memory offset =
     be_value (padded 32 (if offset < length memory then take 32 (drop offset memory) else []))"

definition evm_calldataload :: "bytes \<Rightarrow> nat \<Rightarrow> int" where
  "evm_calldataload calldata offset =
     be_value (padded 32 (if offset < length calldata then take 32 (drop offset calldata) else []))"

definition evm_u256_bytes :: "int \<Rightarrow> bytes" where
  "evm_u256_bytes v = be_bytes 32 (masked v)"

definition evm_memory_write_word :: "bytes \<Rightarrow> nat \<Rightarrow> int \<Rightarrow> bytes" where
  "evm_memory_write_word memory offset v =
     fold (\<lambda>i m. if offset + i < length m then m[offset + i := evm_u256_bytes v ! i] else m) [0..<32] memory"

definition evm_memory_write_byte :: "bytes \<Rightarrow> nat \<Rightarrow> int \<Rightarrow> bytes" where
  "evm_memory_write_byte memory offset v = (if offset < length memory then memory[offset := word_of_int v] else memory)"

definition evm_memory_copy :: "bytes \<Rightarrow> nat \<Rightarrow> bytes \<Rightarrow> nat \<Rightarrow> nat \<Rightarrow> bytes" where
  "evm_memory_copy memory dest src src_offset n =
     fold (\<lambda>i m. if dest + i < length m
       then m[dest + i := (if src_offset + i < length src then src ! (src_offset + i) else 0)] else m) [0..<n] memory"

definition evm_read_push :: "bytes \<Rightarrow> nat \<Rightarrow> nat \<Rightarrow> int" where
  "evm_read_push code pc n = be_value (padded n (take n (drop (pc + 1) code)))"

section \<open>Addresses\<close>

definition evm_word_to_address :: "u256 \<Rightarrow> string" where
  "evm_word_to_address w = ''0x'' @ to_hex (be_bytes 20 (uint w mod 2 ^ 160))"

text \<open>\<open>hex\<close> of a number that is not negative.\<close>

definition py_hex :: "u256 \<Rightarrow> string" where
  "py_hex w = (let h = dropWhile (\<lambda>c. c = CHR ''0'') (to_hex (be_bytes 32 (uint w))) in ''0x'' @ (if h = [] then ''0'' else h))"

definition balance_address :: "u256 \<Rightarrow> string" where
  "balance_address who =
     (let h = drop 2 (py_hex who); p = replicate (40 - length h) CHR ''0'' @ h in ''0x'' @ drop (length p - 40) p)"

section \<open>Jump destinations\<close>

function mark_jumpdests :: "nat \<Rightarrow> bytes \<Rightarrow> bytes \<Rightarrow> bytes" where
  "mark_jumpdests pc [] table = table"
| "mark_jumpdests pc (op # rest) table =
     mark_jumpdests (pc + 1 + immediate_length op) (drop (immediate_length op) rest)
       (if op = 0x5B then table[pc div 8 := table ! (pc div 8) OR push_bit (pc mod 8) 1] else table)"
  by pat_completeness auto
termination by (relation "measure (\<lambda>(pc, rest, table). length rest)") auto

definition evm_build_jumpdest_table :: "bytes \<Rightarrow> bytes" where
  "evm_build_jumpdest_table code = mark_jumpdests 0 code (replicate ((length code + 7) div 8) 0)"

definition evm_is_jumpdest :: "bytes \<Rightarrow> nat \<Rightarrow> nat \<Rightarrow> bool" where
  "evm_is_jumpdest table dest n = (dest < n \<and> drop_bit (dest mod 8) (table ! (dest div 8)) AND 1 = 1)"

function instruction_starts :: "nat \<Rightarrow> bytes \<Rightarrow> nat list" where
  "instruction_starts pc [] = []"
| "instruction_starts pc (op # rest) =
     pc # instruction_starts (pc + 1 + immediate_length op) (drop (immediate_length op) rest)"
  by pat_completeness auto
termination by (relation "measure (\<lambda>(pc, rest). length rest)") auto

lemma length_padded: "length bs \<le> n \<Longrightarrow> length (padded n bs) = n"
  by (simp add: padded_def)

lemma length_memory_slice [simp]: "length (evm_memory_slice m off n) = n"
  by (simp add: evm_memory_slice_def length_padded)

lemma fold_keeps_length:
  "(\<And>i m. length (f i m) = length m) \<Longrightarrow> length (fold f xs (m :: 'a list)) = length m"
  by (induction xs arbitrary: m) simp_all

lemma length_memory_writes [simp]:
  "length (evm_memory_write_word m off v) = length m" "length (evm_memory_write_byte m off v) = length m"
  "length (evm_memory_copy m dest src so n) = length m"
  by (simp_all add: evm_memory_write_word_def evm_memory_write_byte_def evm_memory_copy_def fold_keeps_length)

text \<open>What a copy leaves at every position.\<close>

lemma memory_copy_nth:
  "dest + n \<le> length m \<Longrightarrow> p < length m \<Longrightarrow>
   evm_memory_copy m dest src so n ! p =
     (if dest \<le> p \<and> p < dest + n then (if so + (p - dest) < length src then src ! (so + (p - dest)) else 0) else m ! p)"
proof (induction n)
  case (Suc n)
  let ?c = "evm_memory_copy m dest src so n"
  have step: "evm_memory_copy m dest src so (Suc n) = ?c[dest + n := (if so + n < length src then src ! (so + n) else 0)]"
    using Suc.prems by (simp add: evm_memory_copy_def fold_keeps_length)
  show ?case
  proof (cases "p = dest + n")
    case True
    thus ?thesis using Suc.prems by (simp add: step)
  next
    case False
    moreover from False have "p < dest + Suc n \<longleftrightarrow> p < dest + n" by auto
    ultimately show ?thesis using Suc by (simp add: step)
  qed
qed (auto simp: evm_memory_copy_def)

lemma memory_write_word_copy: "evm_memory_write_word m off v = evm_memory_copy m off (evm_u256_bytes v) 0 32"
proof -
  have "length (evm_u256_bytes v) = 32" by (simp add: evm_u256_bytes_def)
  thus ?thesis unfolding evm_memory_write_word_def evm_memory_copy_def by (intro fold_cong) auto
qed

lemma starts_later: "p \<in> set (instruction_starts pc rest) \<Longrightarrow> pc \<le> p"
  by (induction pc rest rule: instruction_starts.induct) auto

lemma starts_sound:
  "instruction_at code pc \<Longrightarrow> rest = drop pc code \<Longrightarrow> p \<in> set (instruction_starts pc rest) \<Longrightarrow>
   instruction_at code p \<and> p < length code"
proof (induction pc rest rule: instruction_starts.induct)
  case (2 pc o1 rest)
  have pc: "pc < length code" using 2(3) by (metis drop_all leI list.distinct(1))
  have o1: "o1 = code ! pc" "rest = drop (Suc pc) code" using 2(3) pc by (metis Cons_nth_drop_Suc list.inject)+
  have next_at: "instruction_at code (pc + 1 + immediate_length o1)" using following [OF 2(2) pc] o1 by simp
  have dr: "drop (immediate_length o1) rest = drop (pc + 1 + immediate_length o1) code" by (simp add: o1 add.commute)
  show ?case
  proof (cases "p = pc")
    case True
    thus ?thesis using 2(2) pc by simp
  next
    case False
    hence "p \<in> set (instruction_starts (pc + 1 + immediate_length o1) (drop (immediate_length o1) rest))" using 2(4) by simp
    thus ?thesis using "2.IH" next_at dr by blast
  qed
qed simp

lemma starts_complete:
  assumes "instruction_at code p" "p \<le> length code"
  shows "\<exists>before. instruction_starts 0 code = before @ instruction_starts p (drop p code)"
  using assms
proof (induction rule: instruction_at.induct)
  case (following pc)
  then obtain before where "instruction_starts 0 code = before @ instruction_starts pc (drop pc code)" by auto
  moreover have "drop pc code = code ! pc # drop (Suc pc) code" using following by (simp add: Cons_nth_drop_Suc)
  ultimately have "instruction_starts 0 code = before @ instruction_starts pc (code ! pc # drop (Suc pc) code)" by (simp only:)
  thus ?case by (auto simp: add.commute)
qed simp

lemma starts_exact: "p \<in> set (instruction_starts 0 code) \<longleftrightarrow> instruction_at code p \<and> p < length code"
proof
  assume "p \<in> set (instruction_starts 0 code)"
  thus "instruction_at code p \<and> p < length code" using starts_sound [OF first [of code], of code p] by (metis drop_0)
next
  assume a: "instruction_at code p \<and> p < length code"
  then obtain before where "instruction_starts 0 code = before @ instruction_starts p (drop p code)"
    using starts_complete by (meson less_imp_le)
  moreover have "drop p code = code ! p # drop (Suc p) code" using a by (simp add: Cons_nth_drop_Suc)
  ultimately show "p \<in> set (instruction_starts 0 code)" by simp
qed

definition table_bit :: "bytes \<Rightarrow> nat \<Rightarrow> bool" where
  "table_bit table p = bit (table ! (p div 8)) (p mod 8)"

lemma jumpdest_bit: "evm_is_jumpdest table p n \<longleftrightarrow> p < n \<and> table_bit table p"
proof -
  have "drop_bit k (w :: 8 word) AND 1 = 1 \<longleftrightarrow> bit w k" for w k
    by (simp add: and_one_eq bit_iff_odd_drop_bit odd_iff_mod_2_eq_one)
  thus ?thesis by (simp add: evm_is_jumpdest_def table_bit_def)
qed

lemma table_bit_set:
  assumes "pc div 8 < length table"
  shows "table_bit (table[pc div 8 := table ! (pc div 8) OR push_bit (pc mod 8) 1]) p \<longleftrightarrow> p = pc \<or> table_bit table p"
proof (cases "p div 8 = pc div 8")
  case True
  have same: "p = pc \<longleftrightarrow> p mod 8 = pc mod 8" using True by (metis div_mod_decomp)
  have "p mod 8 < 8" by simp
  thus ?thesis using True assms same
    by (auto simp: table_bit_def bit_or_iff bit_exp_iff possible_bit_word)
next
  case False
  thus ?thesis by (auto simp: table_bit_def)
qed

lemma marks_exact:
  "rest = drop pc code \<Longrightarrow> length table = (length code + 7) div 8 \<Longrightarrow>
   table_bit (mark_jumpdests pc rest table) p \<longleftrightarrow>
     table_bit table p \<or> (p \<in> set (instruction_starts pc rest) \<and> code ! p = 0x5B)"
proof (induction pc rest table rule: mark_jumpdests.induct)
  case (2 pc o1 rest table)
  have pc: "pc < length code" using 2(2) by (metis drop_all leI list.distinct(1))
  have o1: "o1 = code ! pc" "rest = drop (Suc pc) code" using 2(2) pc by (metis Cons_nth_drop_Suc list.inject)+
  have dr: "drop (immediate_length o1) rest = drop (pc + 1 + immediate_length o1) code" by (simp add: o1 add.commute)
  have inside: "pc div 8 < length table" using pc 2(3) by simp
  let ?t = "if o1 = 0x5B then table[pc div 8 := table ! (pc div 8) OR push_bit (pc mod 8) 1] else table"
  have "table_bit (mark_jumpdests (pc + 1 + immediate_length o1) (drop (immediate_length o1) rest) ?t) p \<longleftrightarrow>
      table_bit ?t p \<or> (p \<in> set (instruction_starts (pc + 1 + immediate_length o1) (drop (immediate_length o1) rest)) \<and> code ! p = 0x5B)"
    using "2.IH" [OF dr] 2(3) by simp
  moreover have "table_bit ?t p \<longleftrightarrow> (p = pc \<and> code ! p = 0x5B) \<or> table_bit table p"
    using table_bit_set [OF inside] o1 by auto
  ultimately show ?case by auto
qed simp

text \<open>
  C12. The table of jump destinations is exact: a jump is admitted to a position if and only if an instruction starts
  there and that instruction is \<open>JUMPDEST\<close>. A byte 0x5B among the immediate bytes of a \<open>PUSH\<close> is none.
\<close>

theorem jumpdest_exact:
  "evm_is_jumpdest (evm_build_jumpdest_table code) dest (length code) \<longleftrightarrow>
   instruction_at code dest \<and> dest < length code \<and> code ! dest = 0x5B"
proof -
  have "\<not> table_bit (replicate ((length code + 7) div 8) 0) dest" if "dest < length code"
    using that by (simp add: table_bit_def)
  thus ?thesis
    using marks_exact [of code 0 code "replicate ((length code + 7) div 8) 0" dest]
    by (auto simp: jumpdest_bit evm_build_jumpdest_table_def starts_exact)
qed

end
