(* ===== verification/Evm_Machine.thy ===== *)
theory Evm_Machine
  imports Evm_Memory Account_Store
begin

text \<open>
  \<open>evm_interpreter.py\<close>: the contract machine, opcode by opcode, over an arbitrary world \<open>'w\<close> that the host operations of
  its context read and change. A step is an action on the machine and the world that keeps what was done before an
  exception. The runners of the native library and its arithmetic are fields of \<open>evm_kernel\<close>: a segment it ran is merged
  as \<open>_apply_native_segment\<close> does. \<open>contract_call\<close> is given the storage the context published (\<open>_abs_live_storage\<close>), which
  is the machine's own dictionary (\<open>ev_live = None\<close>) until the machine binds another one.
\<close>

section \<open>Context\<close>

record evm_context =
  cx_caller :: string
  cx_origin :: string
  cx_address :: string
  cx_calldata :: bytes
  cx_value :: int
  cx_block_number :: int
  cx_timestamp :: int
  cx_chain_id :: int
  cx_base_fee :: int
  cx_gas_price :: int
  cx_difficulty :: int
  cx_coinbase :: string
  cx_blob_base_fee :: int
  cx_blob_hashes :: "int list"

text \<open>\<open>int(s, 16)\<close>: a sign, a prefix, digits with single underscores between them.\<close>

fun hex_number :: "int \<Rightarrow> bool \<Rightarrow> string \<Rightarrow> int option" where
  "hex_number acc digit [] = (if digit then Some acc else None)"
| "hex_number acc digit (c # cs) =
     (if c = CHR ''_'' then (if digit then hex_number acc False cs else None)
      else case hex_digit c of None \<Rightarrow> None | Some d \<Rightarrow> hex_number (16 * acc + d) True cs)"

definition py_int16 :: "string \<Rightarrow> int option" where
  "py_int16 s =
     (let t = py_strip s;
          (negative, u) = (case t of c # cs \<Rightarrow> (if c = CHR ''-'' then (True, cs) else if c = CHR ''+'' then (False, cs) else (False, t))
                           | [] \<Rightarrow> (False, []));
          v = (if take 2 u = ''0x'' \<or> take 2 u = ''0X'' then (if take 1 (drop 2 u) = ''_'' then drop 3 u else drop 2 u) else u)
      in map_option (\<lambda>n. if negative then - n else n) (hex_number 0 False v))"

definition addr_int :: "(string \<Rightarrow> string) \<Rightarrow> string \<Rightarrow> int" where
  "addr_int sha256_hex who =
     (let raw = py_lower (remove_0x who) in
      if raw = [] then 0
      else case py_int16 (take 40 raw) of Some n \<Rightarrow> n | None \<Rightarrow> (case py_int16 (take 16 (sha256_hex who)) of Some n \<Rightarrow> n | None \<Rightarrow> 0))"

section \<open>Gas and names\<close>

definition gas_costs :: "(string \<times> int) list" where
  "gas_costs =
     [(''STOP'', 0), (''ADD'', 3), (''MUL'', 5), (''SUB'', 3), (''DIV'', 5), (''MOD'', 5),
      (''SDIV'', 5), (''SMOD'', 5), (''ADDMOD'', 8), (''MULMOD'', 8), (''EXP'', 10), (''SIGNEXTEND'', 5),
      (''POP'', 2), (''MLOAD'', 3), (''MSTORE'', 3), (''MSTORE8'', 3),
      (''SLOAD'', 200), (''SSTORE'', 5000), (''JUMP'', 8), (''JUMPI'', 10),
      (''BALANCE'', 400), (''CALLER'', 2), (''ORIGIN'', 2), (''ADDRESS'', 2),
      (''TIMESTAMP'', 2), (''NUMBER'', 2), (''CALLVALUE'', 2),
      (''CALLDATALOAD'', 3), (''CALLDATASIZE'', 2), (''RETURNDATASIZE'', 2), (''RETURNDATACOPY'', 3),
      (''CODESIZE'', 2), (''CODECOPY'', 3), (''CHAINID'', 2), (''GASLIMIT'', 2), (''GAS'', 2), (''PUSH0'', 2),
      (''SHA3'', 30), (''RETURN'', 0), (''REVERT'', 0), (''JUMPDEST'', 1),
      (''AND'', 3), (''OR'', 3), (''XOR'', 3), (''NOT'', 3), (''LT'', 3), (''GT'', 3),
      (''EQ'', 3), (''ISZERO'', 3), (''BYTE'', 3), (''SHL'', 3), (''SHR'', 3), (''SLT'', 3), (''SGT'', 3), (''SAR'', 3),
      (''GASPRICE'', 2), (''EXTCODEHASH'', 700), (''COINBASE'', 2), (''DIFFICULTY'', 2),
      (''SELFBALANCE'', 5), (''BASEFEE'', 2), (''PC'', 2), (''MSIZE'', 2),
      (''TLOAD'', 100), (''TSTORE'', 100), (''MCOPY'', 3),
      (''BLOBHASH'', 3), (''BLOBBASEFEE'', 2),
      (''CALL'', 700), (''CALLCODE'', 700), (''DELEGATECALL'', 700), (''STATICCALL'', 700),
      (''BLOCKHASH'', 20),
      (''CREATE'', 32000), (''CREATE2'', 32000),
      (''EXTCODESIZE'', 700), (''EXTCODECOPY'', 700),
      (''LOG'', 375), (''SELFDESTRUCT'', 5000)]"

definition evm_opcode_names :: "(int \<times> string) list" where
  "evm_opcode_names =
     [(0x00, ''STOP''), (0x01, ''ADD''), (0x02, ''MUL''), (0x03, ''SUB''), (0x04, ''DIV''),
      (0x05, ''SDIV''), (0x06, ''MOD''), (0x07, ''SMOD''), (0x08, ''ADDMOD''), (0x09, ''MULMOD''),
      (0x0A, ''EXP''), (0x0B, ''SIGNEXTEND''),
      (0x10, ''AND''), (0x11, ''OR''), (0x12, ''XOR''), (0x13, ''SGT''), (0x14, ''EQ''),
      (0x15, ''ISZERO''), (0x16, ''LT''), (0x17, ''GT''), (0x18, ''SLT''), (0x19, ''NOT''), (0x1A, ''BYTE''),
      (0x1B, ''SHL''), (0x1C, ''SHR''), (0x1D, ''SAR''), (0x20, ''SHA3''), (0x30, ''ADDRESS''),
      (0x31, ''BALANCE''), (0x32, ''ORIGIN''), (0x33, ''CALLER''), (0x34, ''CALLVALUE''),
      (0x35, ''CALLDATALOAD''), (0x36, ''CALLDATASIZE''), (0x37, ''CALLDATACOPY''),
      (0x38, ''CODESIZE''), (0x39, ''CODECOPY''), (0x3A, ''GASPRICE''), (0x3B, ''EXTCODESIZE''), (0x3C, ''EXTCODECOPY''),
      (0x3F, ''EXTCODEHASH''),
      (0x40, ''BLOCKHASH''),
      (0x3D, ''RETURNDATASIZE''), (0x3E, ''RETURNDATACOPY''),
      (0x42, ''TIMESTAMP''), (0x43, ''NUMBER''), (0x41, ''COINBASE''), (0x44, ''DIFFICULTY''),
      (0x45, ''GASLIMIT''), (0x46, ''CHAINID''),
      (0x47, ''SELFBALANCE''), (0x48, ''BASEFEE''), (0x49, ''BLOBHASH''), (0x4A, ''BLOBBASEFEE''),
      (0x50, ''POP''), (0x51, ''MLOAD''),
      (0x52, ''MSTORE''), (0x53, ''MSTORE8''), (0x54, ''SLOAD''), (0x55, ''SSTORE''),
      (0x56, ''JUMP''), (0x57, ''JUMPI''), (0x58, ''PC''), (0x59, ''MSIZE''), (0x5A, ''GAS''), (0x5B, ''JUMPDEST''),
      (0x5C, ''TLOAD''), (0x5D, ''TSTORE''), (0x5E, ''MCOPY''), (0x5F, ''PUSH0''),
      (0xA0, ''LOG0''), (0xFF, ''SELFDESTRUCT''),
      (0xF0, ''CREATE''), (0xF5, ''CREATE2''),
      (0xF1, ''CALL''), (0xF2, ''CALLCODE''), (0xF4, ''DELEGATECALL''), (0xFA, ''STATICCALL''),
      (0xF3, ''RETURN''), (0xFD, ''REVERT''), (0xFE, ''INVALID'')]"

definition evm_opcode_name :: "int \<Rightarrow> string" where
  "evm_opcode_name op =
     (if 0x60 \<le> op \<and> op \<le> 0x7F then ''PUSH'' @ decimal_string (op - 0x5F)
      else if 0x80 \<le> op \<and> op \<le> 0x8F then ''DUP'' @ decimal_string (op - 0x7F)
      else if 0x90 \<le> op \<and> op \<le> 0x9F then ''SWAP'' @ decimal_string (op - 0x8F)
      else case map_of evm_opcode_names op of
          Some n \<Rightarrow> n
        | None \<Rightarrow> ''UNKNOWN_'' @ [hex_char (op div 16), hex_char (op mod 16)])"

definition op_gas :: "string \<Rightarrow> int" where
  "op_gas name = (case map_of gas_costs name of Some c \<Rightarrow> c | None \<Rightarrow> 3)"

section \<open>The machine and its host\<close>

record evm_trace =
  tr_pc :: nat
  tr_op :: string
  tr_depth :: nat

record evm_log =
  lg_topics :: "string list"
  lg_data :: string

type_synonym storage = "(int, int) dict"

text \<open>The head of the stack is its top, the end of the Python list.\<close>

record evm =
  ev_stack :: "u256 list"
  ev_memory :: bytes
  ev_storage :: storage
  ev_live :: "storage option"
  ev_transient :: storage
  ev_gas_used :: int
  ev_gas_limit :: int
  ev_pc :: nat
  ev_running :: bool
  ev_reverted :: bool
  ev_return :: bytes
  ev_trace :: "evm_trace list"
  ev_logs :: "evm_log list"
  ev_code :: bytes

type_synonym 'w vm = "evm \<times> 'w"

datatype call_kind = Call | Callcode | Delegatecall | Staticcall

record call_request =
  cq_to :: string
  cq_data :: bytes
  cq_value :: int
  cq_gas :: int
  cq_kind :: call_kind

record call_answer =
  ca_success :: bool
  ca_reverted :: bool
  ca_return :: bytes
  ca_storage :: "storage option"
  ca_gas :: int

record create_answer =
  cr_success :: bool
  cr_reverted :: bool
  cr_address :: string
  cr_gas :: int

text \<open>The callables of the context. A call also runs on the storage the context published.\<close>

record 'w evm_host =
  ho_balance :: "(string \<Rightarrow> ('w, int) action) option"
  ho_code_size :: "(string \<Rightarrow> ('w, int) action) option"
  ho_code_copy :: "(string \<Rightarrow> nat \<Rightarrow> nat \<Rightarrow> ('w, bytes) action) option"
  ho_block_hash :: "(int \<Rightarrow> ('w, int) action) option"
  ho_log :: "(nat \<Rightarrow> u256 list \<Rightarrow> bytes \<Rightarrow> ('w, unit) action) option"
  ho_selfdestruct :: "(string \<Rightarrow> ('w, unit) action) option"
  ho_call :: "(call_request \<Rightarrow> (storage \<times> 'w, call_answer) action) option"
  ho_create :: "(bytes \<Rightarrow> int \<Rightarrow> int option \<Rightarrow> ('w, create_answer) action) option"

section \<open>The native library\<close>

datatype u256_op = Add | Mul | Sub | Div | Sdiv | Mod | Smod | Addmod | Mulmod | Exp | Signextend
  | And | Or | Xor | Sgt | Eq | Iszero | Lt | Gt | Slt | Not | Byte | Shl | Shr | Sar

datatype stop_reason = Halted | Returned | RevertStop | HostStop | Handoff | ErrorStop "string option" | GasStop | OtherStop

record segment =
  sg_pc :: nat
  sg_gas_used :: int
  sg_running :: bool
  sg_reverted :: bool
  sg_return :: bytes
  sg_stack :: "u256 list"
  sg_memory :: bytes
  sg_logs :: "evm_log list"
  sg_reason :: stop_reason

text \<open>
  A runner may also change the machine's storage and, through the bridge it is given, everything else. \<open>None\<close> is a
  library without the function. \<open>kn_memory\<close> is the number of bytes the process can hold, \<open>kn_bits\<close> the bits of its
  largest integer.
\<close>

record 'w evm_kernel =
  kn_word :: "u256_op \<Rightarrow> (int list \<Rightarrow> int) option"
  kn_until_halt :: "('w evm_host \<Rightarrow> evm_context \<Rightarrow> bytes \<Rightarrow> bytes \<Rightarrow> ('w vm, segment) action) option"
  kn_pure :: "('w evm_host \<Rightarrow> evm_context \<Rightarrow> bytes \<Rightarrow> bytes \<Rightarrow> ('w vm, segment) action) option"
  kn_keccak :: "bytes \<Rightarrow> bytes"
  kn_sha256_hex :: "string \<Rightarrow> string"
  kn_required :: bool
  kn_memory :: nat
  kn_bits :: int

section \<open>Elementary steps\<close>

definition on_evm :: "(evm \<Rightarrow> evm) \<Rightarrow> ('w vm, unit) action" where
  "on_evm f s = ((f (fst s), snd s), ret ())"

definition of_evm :: "(evm \<Rightarrow> 'a) \<Rightarrow> ('w vm, 'a) action" where
  "of_evm f s = (s, ret (f (fst s)))"

definition in_world :: "('w, 'a) action \<Rightarrow> ('w vm, 'a) action" where
  "in_world m s = (case m (snd s) of (w, r) \<Rightarrow> ((fst s, w), r))"

text \<open>\<open>_consume_gas\<close>, \<open>_push\<close>, \<open>_pop\<close>, \<open>_mem_extend\<close>.\<close>

definition consume_gas :: "int \<Rightarrow> ('w vm, unit) action" where
  "consume_gas cost s =
     (if ev_gas_limit (fst s) < ev_gas_used (fst s) + cost then (s, raise (Raised ''out_of_gas''))
      else on_evm (\<lambda>e. e\<lparr>ev_gas_used := ev_gas_used e + cost\<rparr>) s)"

definition evm_push :: "int \<Rightarrow> ('w vm, unit) action" where
  "evm_push v = on_evm (\<lambda>e. e\<lparr>ev_stack := word_of_int v # ev_stack e\<rparr>)"

definition evm_pop :: "('w vm, u256) action" where
  "evm_pop s =
     (case ev_stack (fst s) of
        [] \<Rightarrow> (s, raise (Raised ''stack underflow''))
      | x # xs \<Rightarrow> (((fst s)\<lparr>ev_stack := xs\<rparr>, snd s), ret x))"

fun evm_pops :: "nat \<Rightarrow> ('w vm, u256 list) action" where
  "evm_pops 0 = give []"
| "evm_pops (Suc n) = andthen evm_pop (\<lambda>x. andthen (evm_pops n) (\<lambda>xs. give (x # xs)))"

definition mem_extend :: "nat \<Rightarrow> nat \<Rightarrow> nat \<Rightarrow> ('w vm, unit) action" where
  "mem_extend limit offset n s =
     (let need = offset + n; m = ev_memory (fst s) in
      if need \<le> length m then (s, ret ())
      else if limit < need then (s, raise (Raised ''memory''))
      else (((fst s)\<lparr>ev_memory := m @ replicate (need - length m) 0\<rparr>, snd s), ret ()))"

text \<open>\<open>_charge_subcall_gas\<close> adds first and raises afterwards.\<close>

definition charge_subcall_gas :: "int \<Rightarrow> ('w vm, unit) action" where
  "charge_subcall_gas g =
     (if 0 < g then
        andthen (on_evm (\<lambda>e. e\<lparr>ev_gas_used := ev_gas_used e + g\<rparr>)) (\<lambda>_ s.
          if ev_gas_limit (fst s) < ev_gas_used (fst s) then (s, raise (Raised ''out_of_gas'')) else (s, ret ()))
      else give ())"

end
