(* ===== verification/Evm_Step.thy ===== *)
theory Evm_Step
  imports Evm_Machine "HOL-Library.Sublist"
begin

text \<open>
  The opcodes of \<open>evm_interpreter.py\<close>, the loop of \<open>_execute_bytecode_impl\<close>, \<open>execute_bytecode\<close> around it, and the
  bridge through which the native runner has single host opcodes executed (\<open>execution/evm_host_bridge.py\<close>). The loop is
  a partial function: a run that does not end is \<open>None\<close>.
\<close>

section \<open>Arithmetic opcodes\<close>

text \<open>An operation on up to three words; \<open>None\<close> is an integer the process cannot hold.\<close>

primrec word_fallback :: "u256_op \<Rightarrow> int \<Rightarrow> int \<Rightarrow> int \<Rightarrow> int \<Rightarrow> int option" where
  "word_fallback Add bits a b m = Some (evm_u256_add a b)"
| "word_fallback Mul bits a b m = Some (evm_u256_mul a b)"
| "word_fallback Sub bits a b m = Some (evm_u256_sub a b)"
| "word_fallback Div bits a b m = Some (evm_u256_div a b)"
| "word_fallback Sdiv bits a b m = Some (evm_u256_sdiv a b)"
| "word_fallback Mod bits a b m = Some (evm_u256_mod a b)"
| "word_fallback Smod bits a b m = Some (evm_u256_smod a b)"
| "word_fallback Addmod bits a b m = Some (evm_u256_addmod a b m)"
| "word_fallback Mulmod bits a b m = Some (evm_u256_mulmod a b m)"
| "word_fallback Exp bits b e m = Some (evm_u256_exp b e)"
| "word_fallback Signextend bits k x m = Some (evm_u256_signextend k x)"
| "word_fallback And bits a b m = Some (evm_u256_and a b)"
| "word_fallback Or bits a b m = Some (evm_u256_or a b)"
| "word_fallback Xor bits a b m = Some (evm_u256_xor a b)"
| "word_fallback Sgt bits a b m = Some (evm_u256_sgt a b)"
| "word_fallback Eq bits a b m = Some (evm_u256_eq a b)"
| "word_fallback Iszero bits a b m = Some (evm_u256_iszero a)"
| "word_fallback Lt bits a b m = Some (evm_u256_lt a b)"
| "word_fallback Gt bits a b m = Some (evm_u256_gt a b)"
| "word_fallback Slt bits a b m = Some (evm_u256_slt a b)"
| "word_fallback Not bits a b m = Some (evm_u256_not a)"
| "word_fallback Byte bits i x m = Some (evm_u256_byte i x)"
| "word_fallback Shl bits v s m = evm_u256_shl bits v s"
| "word_fallback Shr bits v s m = Some (evm_u256_shr v s)"
| "word_fallback Sar bits v s m = Some (evm_u256_sar v s)"

definition operand :: "int list \<Rightarrow> nat \<Rightarrow> int" where
  "operand args i = (if i < length args then args ! i else 0)"

definition evm_word :: "'w evm_kernel \<Rightarrow> u256_op \<Rightarrow> int list \<Rightarrow> ('w vm, int) action" where
  "evm_word K f args =
     (case kn_word K f of
        Some g \<Rightarrow> give (g args)
      | None \<Rightarrow> (case word_fallback f (kn_bits K) (operand args 0) (operand args 1) (operand args 2) of None \<Rightarrow> throw (Raised ''memory'') | Some v \<Rightarrow> give v))"

text \<open>How many words an opcode pops, and in which order they become arguments.\<close>

definition word_operands :: "u256_op \<Rightarrow> nat list" where
  "word_operands f =
     (if f \<in> {Addmod, Mulmod} then [2, 1, 0]
      else if f \<in> {Exp, Shl, Shr, Sar} then [1, 0]
      else if f \<in> {Iszero, Not} then [0]
      else [0, 1])"

section \<open>Instructions\<close>

datatype env_value = Address | Origin | Caller | Callvalue | Calldatasize | Codesize | Gasprice | Returndatasize
  | Timestamp | Number | Coinbase | Difficulty | Gaslimit | Chainid | Basefee | Blobbasefee | Gas | Pc | Msize | Push0

datatype copy_source = Calldata | Bytecode | Returndata

datatype instr = Stop | Push nat | Arith u256_op | Env env_value | Copying copy_source | Sha3 | Balance | Selfbalance
  | Calldataload | Extcodehash | Extcodesize | Extcodecopy | Log nat | Blockhash | Blobhash | Pop | Mload | Mstore | Mstore8
  | Sload | Sstore | Tload | Tstore | Mcopy | Jump | Jumpi | Jumpdest | Dup nat | Swap nat | Create | Create2
  | Calling call_kind | Return | Revert | Invalid | Selfdestruct | Unsupported

definition plain_instrs :: "(int \<times> instr) list" where
  "plain_instrs =
     [(0x00, Stop), (0x01, Arith Add), (0x02, Arith Mul), (0x03, Arith Sub), (0x04, Arith Div), (0x05, Arith Sdiv),
      (0x06, Arith Mod), (0x07, Arith Smod), (0x08, Arith Addmod), (0x09, Arith Mulmod), (0x0A, Arith Exp),
      (0x0B, Arith Signextend), (0x10, Arith And), (0x11, Arith Or), (0x12, Arith Xor), (0x13, Arith Sgt),
      (0x14, Arith Eq), (0x15, Arith Iszero), (0x16, Arith Lt), (0x17, Arith Gt), (0x18, Arith Slt), (0x19, Arith Not),
      (0x1A, Arith Byte), (0x1B, Arith Shl), (0x1C, Arith Shr), (0x1D, Arith Sar), (0x20, Sha3), (0x30, Env Address),
      (0x31, Balance), (0x32, Env Origin), (0x33, Env Caller), (0x34, Env Callvalue), (0x35, Calldataload),
      (0x36, Env Calldatasize), (0x37, Copying Calldata), (0x38, Env Codesize), (0x39, Copying Bytecode),
      (0x3A, Env Gasprice), (0x3B, Extcodesize), (0x3C, Extcodecopy), (0x3D, Env Returndatasize),
      (0x3E, Copying Returndata), (0x3F, Extcodehash), (0x40, Blockhash), (0x41, Env Coinbase), (0x42, Env Timestamp),
      (0x43, Env Number), (0x44, Env Difficulty), (0x45, Env Gaslimit), (0x46, Env Chainid), (0x47, Selfbalance),
      (0x48, Env Basefee), (0x49, Blobhash), (0x4A, Env Blobbasefee), (0x50, Pop), (0x51, Mload), (0x52, Mstore),
      (0x53, Mstore8), (0x54, Sload), (0x55, Sstore), (0x56, Jump), (0x57, Jumpi), (0x58, Env Pc), (0x59, Env Msize),
      (0x5A, Env Gas), (0x5B, Jumpdest), (0x5C, Tload), (0x5D, Tstore), (0x5E, Mcopy), (0x5F, Env Push0),
      (0xF0, Create), (0xF1, Calling Call), (0xF2, Calling Callcode), (0xF3, Return), (0xF4, Calling Delegatecall),
      (0xF5, Create2), (0xFA, Calling Staticcall), (0xFD, Revert), (0xFE, Invalid), (0xFF, Selfdestruct)]"

definition decode_instr :: "int \<Rightarrow> instr" where
  "decode_instr op =
     (if 0x60 \<le> op \<and> op \<le> 0x7F then Push (nat (op - 0x5F))
      else if 0xA0 \<le> op \<and> op \<le> 0xA4 then Log (nat (op - 0xA0))
      else if 0x80 \<le> op \<and> op \<le> 0x8F then Dup (nat (op - 0x7F))
      else if 0x90 \<le> op \<and> op \<le> 0x9F then Swap (nat (op - 0x8F))
      else case map_of plain_instrs op of Some i \<Rightarrow> i | None \<Rightarrow> Unsupported)"

definition evm_gas_remaining :: "int \<Rightarrow> int \<Rightarrow> int" where
  "evm_gas_remaining limit used = max 0 (max 0 limit - max 0 used)"

primrec env_word :: "env_value \<Rightarrow> 'w evm_kernel \<Rightarrow> evm_context \<Rightarrow> evm \<Rightarrow> int" where
  "env_word Address K cx e = addr_int (kn_sha256_hex K) (cx_address cx)"
| "env_word Origin K cx e = addr_int (kn_sha256_hex K) (cx_origin cx)"
| "env_word Caller K cx e = addr_int (kn_sha256_hex K) (cx_caller cx)"
| "env_word Callvalue K cx e = cx_value cx"
| "env_word Calldatasize K cx e = int (length (cx_calldata cx))"
| "env_word Codesize K cx e = int (length (ev_code e))"
| "env_word Gasprice K cx e = cx_gas_price cx"
| "env_word Returndatasize K cx e = int (length (ev_return e))"
| "env_word Timestamp K cx e = cx_timestamp cx"
| "env_word Number K cx e = cx_block_number cx"
| "env_word Coinbase K cx e = addr_int (kn_sha256_hex K) (cx_coinbase cx)"
| "env_word Difficulty K cx e = cx_difficulty cx"
| "env_word Gaslimit K cx e = ev_gas_limit e"
| "env_word Chainid K cx e = cx_chain_id cx"
| "env_word Basefee K cx e = cx_base_fee cx"
| "env_word Blobbasefee K cx e = cx_blob_base_fee cx"
| "env_word Gas K cx e = evm_gas_remaining (ev_gas_limit e) (ev_gas_used e)"
| "env_word Pc K cx e = int (ev_pc e)"
| "env_word Msize K cx e = int ((length (ev_memory e) + 31) div 32 * 32)"
| "env_word Push0 K cx e = 0"

primrec copied_bytes :: "copy_source \<Rightarrow> evm_context \<Rightarrow> evm \<Rightarrow> bytes" where
  "copied_bytes Calldata cx e = cx_calldata cx"
| "copied_bytes Bytecode cx e = ev_code e"
| "copied_bytes Returndata cx e = ev_return e"

section \<open>Calls and creation\<close>

definition plan_nested_call_gas :: "int \<Rightarrow> int \<Rightarrow> int \<Rightarrow> call_kind \<Rightarrow> int" where
  "plan_nested_call_gas remaining0 requested0 value_wei kind =
     (let remaining = max 0 remaining0; requested = max 0 requested0;
          cap = remaining * 63 div 64;
          base_cap = (if 0 < requested then min cap requested else cap)
      in if 0 < value_wei \<and> kind \<in> {Call, Callcode} then min remaining (base_cap + 2300) else base_cap)"

definition call_host :: "(call_request \<Rightarrow> (storage \<times> 'w, call_answer) action) \<Rightarrow> call_request \<Rightarrow> ('w vm, call_answer) action" where
  "call_host f q s =
     (let e = fst s in
      case ev_live e of
        None \<Rightarrow> (case f q (ev_storage e, snd s) of ((d, w), r) \<Rightarrow> ((e\<lparr>ev_storage := d\<rparr>, w), r))
      | Some live \<Rightarrow> (case f q (live, snd s) of ((d, w), r) \<Rightarrow> ((e\<lparr>ev_live := Some d\<rparr>, w), r)))"

text \<open>\<open>self.storage = dict(...)\<close> binds a new dictionary; the published one stays as it was.\<close>

definition bind_storage :: "storage \<Rightarrow> evm \<Rightarrow> evm" where
  "bind_storage d e = e\<lparr>ev_storage := d, ev_live := (case ev_live e of None \<Rightarrow> Some (ev_storage e) | Some l \<Rightarrow> Some l)\<rparr>"

definition write_return :: "nat \<Rightarrow> nat \<Rightarrow> nat \<Rightarrow> bytes \<Rightarrow> ('w vm, unit) action" where
  "write_return limit off n data =
     andthen (mem_extend limit off n) (\<lambda>_.
       on_evm (\<lambda>e. e\<lparr>ev_memory := evm_memory_copy (ev_memory e) off data 0 n\<rparr>))"

record call_frame =
  cf_gas :: u256
  cf_to :: u256
  cf_value :: int
  cf_args_offset :: nat
  cf_args_size :: nat
  cf_ret_offset :: nat
  cf_ret_size :: nat

definition execute_call :: "'w evm_kernel \<Rightarrow> 'w evm_host \<Rightarrow> call_kind \<Rightarrow> call_frame \<Rightarrow> ('w vm, int) action" where
  "execute_call K H kind f =
     (case ho_call H of
        None \<Rightarrow> andthen (on_evm (\<lambda>e. e\<lparr>ev_return := []\<rparr>)) (\<lambda>_. give 0)
      | Some call \<Rightarrow>
          andthen (mem_extend (kn_memory K) (cf_args_offset f) (cf_args_size f)) (\<lambda>_.
          andthen (of_evm (\<lambda>e. evm_memory_slice (ev_memory e) (cf_args_offset f) (cf_args_size f))) (\<lambda>data.
          andthen (of_evm (\<lambda>e. plan_nested_call_gas (max 0 (ev_gas_limit e - ev_gas_used e)) (uint (cf_gas f)) (cf_value f) kind)) (\<lambda>g.
          andthen (call_host call \<lparr>cq_to = evm_word_to_address (cf_to f), cq_data = data, cq_value = cf_value f, cq_gas = g,
                                   cq_kind = kind\<rparr>) (\<lambda>a.
          andthen (charge_subcall_gas (min (ca_gas a) g)) (\<lambda>_.
          andthen (on_evm (\<lambda>e. e\<lparr>ev_return := ca_return a\<rparr>)) (\<lambda>_.
          andthen (case ca_storage a of
                     Some d \<Rightarrow> if kind \<in> {Delegatecall, Callcode} then on_evm (bind_storage d) else give ()
                   | None \<Rightarrow> give ()) (\<lambda>_.
          andthen (write_return (kn_memory K) (cf_ret_offset f) (cf_ret_size f) (ca_return a)) (\<lambda>_.
          give (if ca_success a \<and> \<not> ca_reverted a then 1 else 0))))))))))"

definition execute_create :: "'w evm_kernel \<Rightarrow> 'w evm_host \<Rightarrow> int \<Rightarrow> nat \<Rightarrow> nat \<Rightarrow> int option \<Rightarrow> ('w vm, int) action" where
  "execute_create K H v off n salt =
     (case ho_create H of
        None \<Rightarrow> give 0
      | Some create \<Rightarrow>
          andthen (mem_extend (kn_memory K) off n) (\<lambda>_.
          andthen (of_evm (\<lambda>e. evm_memory_slice (ev_memory e) off n)) (\<lambda>code.
          andthen (in_world (create code v salt)) (\<lambda>a.
          andthen (charge_subcall_gas (cr_gas a)) (\<lambda>_.
          give (if \<not> cr_success a \<or> cr_reverted a \<or> cr_address a = [] then 0
                else addr_int (kn_sha256_hex K) (cr_address a)))))))"


section \<open>One instruction\<close>

datatype flow = Next | Jumped | Halt

definition proceed :: "('w vm, unit) action \<Rightarrow> ('w vm, flow) action" where
  "proceed m = andthen m (\<lambda>_. give Next)"

definition halt_with :: "(evm \<Rightarrow> evm) \<Rightarrow> ('w vm, flow) action" where
  "halt_with f = andthen (on_evm (\<lambda>e. f e\<lparr>ev_running := False\<rparr>)) (\<lambda>_. give Halt)"

definition ask_world :: "('w, int) action option \<Rightarrow> ('w vm, int) action" where
  "ask_world q = (case q of None \<Rightarrow> give 0 | Some m \<Rightarrow> in_world m)"

definition code_hash_of :: "'w evm_kernel \<Rightarrow> 'w evm_host \<Rightarrow> string \<Rightarrow> ('w vm, int) action" where
  "code_hash_of K H addr =
     (case (ho_code_size H, ho_code_copy H) of
        (Some size_of, Some copy_of) \<Rightarrow>
          andthen (in_world (size_of addr)) (\<lambda>n.
            if 0 < n then andthen (in_world (copy_of addr 0 (nat n))) (\<lambda>code.
              give (if code = [] then 0 else be_value (kn_keccak K code)))
            else give 0)
      | _ \<Rightarrow> give 0)"

definition put_slot :: "'w evm_kernel \<Rightarrow> u256 \<Rightarrow> u256 \<Rightarrow> ((storage \<Rightarrow> storage) \<Rightarrow> evm \<Rightarrow> evm) \<Rightarrow> ('w vm, unit) action" where
  "put_slot K key v change =
     andthen (evm_word K Iszero [uint v]) (\<lambda>z.
       on_evm (change (if z \<noteq> 0 then AList.delete (uint key) else dict_set (uint key) (uint v))))"

definition on_storage :: "(storage \<Rightarrow> storage) \<Rightarrow> evm \<Rightarrow> evm" where
  "on_storage f e = e\<lparr>ev_storage := f (ev_storage e)\<rparr>"

definition on_transient :: "(storage \<Rightarrow> storage) \<Rightarrow> evm \<Rightarrow> evm" where
  "on_transient f e = e\<lparr>ev_transient := f (ev_transient e)\<rparr>"

definition copy_into :: "'w evm_kernel \<Rightarrow> nat \<Rightarrow> (evm \<Rightarrow> bytes) \<Rightarrow> nat \<Rightarrow> nat \<Rightarrow> ('w vm, unit) action" where
  "copy_into K dest src offset n =
     andthen (mem_extend (kn_memory K) dest n) (\<lambda>_.
       on_evm (\<lambda>e. e\<lparr>ev_memory := evm_memory_copy (ev_memory e) dest (src e) offset n\<rparr>))"

definition take_slice :: "'w evm_kernel \<Rightarrow> nat \<Rightarrow> nat \<Rightarrow> ('w vm, bytes) action" where
  "take_slice K off n =
     andthen (mem_extend (kn_memory K) off n) (\<lambda>_. of_evm (\<lambda>e. evm_memory_slice (ev_memory e) off n))"

definition jump_to :: "bytes \<Rightarrow> u256 \<Rightarrow> ('w vm, flow) action" where
  "jump_to table dest s =
     (if evm_is_jumpdest table (unat dest) (length (ev_code (fst s)))
      then andthen (on_evm (\<lambda>e. e\<lparr>ev_pc := unat dest\<rparr>)) (\<lambda>_. give Jumped) s
      else (s, raise (Raised ''invalid jump destination'')))"

definition stack_dup :: "nat \<Rightarrow> ('w vm, unit) action" where
  "stack_dup n s =
     (let st = ev_stack (fst s) in
      if n = 0 \<or> length st < n then (s, raise (Raised ''stack underflow''))
      else on_evm (\<lambda>e. e\<lparr>ev_stack := st ! (n - 1) # st\<rparr>) s)"

definition stack_swap :: "nat \<Rightarrow> ('w vm, unit) action" where
  "stack_swap n s =
     (let st = ev_stack (fst s) in
      if n = 0 \<or> length st \<le> n then (s, raise (Raised ''stack underflow''))
      else on_evm (\<lambda>e. e\<lparr>ev_stack := st[0 := st ! n, n := st ! 0]\<rparr>) s)"

definition run_log :: "'w evm_kernel \<Rightarrow> 'w evm_host \<Rightarrow> nat \<Rightarrow> ('w vm, unit) action" where
  "run_log K H n =
     andthen (evm_pops n) (\<lambda>popped.
     andthen (evm_pops 2) (\<lambda>ps.
     andthen (consume_gas (op_gas ''LOG'' + (int n * 375 + uint (ps ! 0)))) (\<lambda>_.
     andthen (take_slice K (unat (ps ! 1)) (unat (ps ! 0))) (\<lambda>data.
     andthen (case ho_log H of None \<Rightarrow> give () | Some emit \<Rightarrow> in_world (emit n (rev popped) data)) (\<lambda>_.
       on_evm (\<lambda>e. e\<lparr>ev_logs := ev_logs e @ [\<lparr>lg_topics = map py_hex (rev popped), lg_data = to_hex data\<rparr>]\<rparr>))))))"

definition run_create :: "'w evm_kernel \<Rightarrow> 'w evm_host \<Rightarrow> bool \<Rightarrow> ('w vm, unit) action" where
  "run_create K H salted =
     andthen (if salted then andthen evm_pop (\<lambda>w. give (Some (uint w))) else give None) (\<lambda>salt.
     andthen (evm_pops 3) (\<lambda>ps.
     andthen (execute_create K H (uint (ps ! 2)) (unat (ps ! 1)) (unat (ps ! 0)) salt) (\<lambda>v. evm_push v)))"

definition call_width :: "call_kind \<Rightarrow> nat" where
  "call_width kind = (if kind \<in> {Call, Callcode} then 7 else 6)"

definition frame_of :: "call_kind \<Rightarrow> u256 list \<Rightarrow> call_frame" where
  "frame_of kind ps =
     (let k = (if kind \<in> {Call, Callcode} then 3 else 2) in
      \<lparr>cf_gas = ps ! 0, cf_to = ps ! 1, cf_value = (if kind \<in> {Call, Callcode} then uint (ps ! 2) else 0),
       cf_args_offset = unat (ps ! k), cf_args_size = unat (ps ! (k + 1)),
       cf_ret_offset = unat (ps ! (k + 2)), cf_ret_size = unat (ps ! (k + 3))\<rparr>)"

definition run_call :: "'w evm_kernel \<Rightarrow> 'w evm_host \<Rightarrow> call_kind \<Rightarrow> ('w vm, unit) action" where
  "run_call K H kind =
     andthen (evm_pops (call_width kind)) (\<lambda>ps. andthen (execute_call K H kind (frame_of kind ps)) (\<lambda>v. evm_push v))"

definition run_selfdestruct :: "'w evm_host \<Rightarrow> ('w vm, unit) action" where
  "run_selfdestruct H =
     andthen evm_pop (\<lambda>b.
     andthen (case ho_selfdestruct H of None \<Rightarrow> give () | Some f \<Rightarrow> in_world (f (evm_word_to_address b))) (\<lambda>_.
       on_evm (\<lambda>e. e\<lparr>ev_running := False\<rparr>)))"

primrec exec_instr :: "instr \<Rightarrow> 'w evm_kernel \<Rightarrow> 'w evm_host \<Rightarrow> evm_context \<Rightarrow> bytes \<Rightarrow> ('w vm, flow) action" where
  "exec_instr Stop K H cx table = halt_with (\<lambda>e. e)"
| "exec_instr (Push n) K H cx table =
     andthen (of_evm (\<lambda>e. evm_read_push (ev_code e) (ev_pc e) n)) (\<lambda>v.
     andthen (evm_push v) (\<lambda>_. proceed (on_evm (\<lambda>e. e\<lparr>ev_pc := ev_pc e + n\<rparr>))))"
| "exec_instr (Arith f) K H cx table =
     andthen (evm_pops (length (word_operands f))) (\<lambda>ps.
     andthen (evm_word K f (map (\<lambda>i. uint (ps ! i)) (word_operands f))) (\<lambda>v. proceed (evm_push v)))"
| "exec_instr (Env x) K H cx table = andthen (of_evm (env_word x K cx)) (\<lambda>v. proceed (evm_push v))"
| "exec_instr (Copying src) K H cx table =
     andthen (evm_pops 3) (\<lambda>ps. proceed (copy_into K (unat (ps ! 0)) (copied_bytes src cx) (unat (ps ! 1)) (unat (ps ! 2))))"
| "exec_instr Sha3 K H cx table =
     andthen (evm_pops 2) (\<lambda>ps. andthen (take_slice K (unat (ps ! 0)) (unat (ps ! 1))) (\<lambda>data.
       proceed (evm_push (be_value (kn_keccak K data)))))"
| "exec_instr Balance K H cx table =
     andthen evm_pop (\<lambda>who. andthen (ask_world (map_option (\<lambda>f. f (balance_address who)) (ho_balance H))) (\<lambda>v. proceed (evm_push v)))"
| "exec_instr Selfbalance K H cx table =
     andthen (ask_world (if cx_address cx = [] then None else map_option (\<lambda>f. f (cx_address cx)) (ho_balance H))) (\<lambda>v.
       proceed (evm_push v))"
| "exec_instr Calldataload K H cx table = andthen evm_pop (\<lambda>i. proceed (evm_push (evm_calldataload (cx_calldata cx) (unat i))))"
| "exec_instr Extcodehash K H cx table =
     andthen evm_pop (\<lambda>who. andthen (code_hash_of K H (evm_word_to_address who)) (\<lambda>v. proceed (evm_push v)))"
| "exec_instr Extcodesize K H cx table =
     andthen evm_pop (\<lambda>who. andthen (ask_world (map_option (\<lambda>f. f (evm_word_to_address who)) (ho_code_size H))) (\<lambda>v.
       proceed (evm_push v)))"
| "exec_instr Extcodecopy K H cx table =
     andthen (evm_pops 4) (\<lambda>ps.
     andthen (case ho_code_copy H of
                None \<Rightarrow> give []
              | Some f \<Rightarrow> in_world (f (evm_word_to_address (ps ! 3)) (unat (ps ! 0)) (unat (ps ! 2)))) (\<lambda>chunk.
       proceed (copy_into K (unat (ps ! 1)) (\<lambda>e. chunk) 0 (unat (ps ! 2)))))"
| "exec_instr (Log n) K H cx table = proceed (run_log K H n)"
| "exec_instr Blockhash K H cx table =
     andthen evm_pop (\<lambda>n. andthen (ask_world (map_option (\<lambda>f. f (uint n)) (ho_block_hash H))) (\<lambda>v. proceed (evm_push v)))"
| "exec_instr Blobhash K H cx table =
     andthen evm_pop (\<lambda>i. proceed (evm_push
       (if unat i < length (cx_blob_hashes cx) then masked (cx_blob_hashes cx ! unat i) else 0)))"
| "exec_instr Pop K H cx table = andthen evm_pop (\<lambda>_. give Next)"
| "exec_instr Mload K H cx table =
     andthen evm_pop (\<lambda>off. andthen (mem_extend (kn_memory K) (unat off) 32) (\<lambda>_.
     andthen (of_evm (\<lambda>e. evm_memory_read_word (ev_memory e) (unat off))) (\<lambda>v. proceed (evm_push v))))"
| "exec_instr Mstore K H cx table =
     andthen (evm_pops 2) (\<lambda>ps. andthen (mem_extend (kn_memory K) (unat (ps ! 0)) 32) (\<lambda>_.
       proceed (on_evm (\<lambda>e. e\<lparr>ev_memory := evm_memory_write_word (ev_memory e) (unat (ps ! 0)) (uint (ps ! 1))\<rparr>))))"
| "exec_instr Mstore8 K H cx table =
     andthen (evm_pops 2) (\<lambda>ps. andthen (mem_extend (kn_memory K) (unat (ps ! 0)) 1) (\<lambda>_.
       proceed (on_evm (\<lambda>e. e\<lparr>ev_memory := evm_memory_write_byte (ev_memory e) (unat (ps ! 0)) (uint (ps ! 1))\<rparr>))))"
| "exec_instr Sload K H cx table =
     andthen evm_pop (\<lambda>k. andthen (of_evm (\<lambda>e. dict_get (ev_storage e) (uint k) 0)) (\<lambda>v. proceed (evm_push v)))"
| "exec_instr Sstore K H cx table = andthen (evm_pops 2) (\<lambda>ps. proceed (put_slot K (ps ! 0) (ps ! 1) on_storage))"
| "exec_instr Tload K H cx table =
     andthen evm_pop (\<lambda>k. andthen (of_evm (\<lambda>e. dict_get (ev_transient e) (uint k) 0)) (\<lambda>v. proceed (evm_push v)))"
| "exec_instr Tstore K H cx table = andthen (evm_pops 2) (\<lambda>ps. proceed (put_slot K (ps ! 0) (ps ! 1) on_transient))"
| "exec_instr Mcopy K H cx table =
     andthen (evm_pops 3) (\<lambda>ps.
     andthen (consume_gas (op_gas ''MCOPY'' + 3 * ((uint (ps ! 0) + 31) div 32))) (\<lambda>_.
     andthen (mem_extend (kn_memory K) (unat (ps ! 2)) (unat (ps ! 0))) (\<lambda>_.
     andthen (mem_extend (kn_memory K) (unat (ps ! 1)) (unat (ps ! 0))) (\<lambda>_.
       proceed (on_evm (\<lambda>e. e\<lparr>ev_memory := evm_memory_copy (ev_memory e) (unat (ps ! 2))
         (take (unat (ps ! 0)) (drop (unat (ps ! 1)) (ev_memory e))) 0 (unat (ps ! 0))\<rparr>))))))"
| "exec_instr Jump K H cx table = andthen evm_pop (jump_to table)"
| "exec_instr Jumpi K H cx table =
     andthen (evm_pops 2) (\<lambda>ps. if ps ! 1 \<noteq> 0 then jump_to table (ps ! 0) else give Next)"
| "exec_instr Jumpdest K H cx table = give Next"
| "exec_instr (Dup n) K H cx table = proceed (stack_dup n)"
| "exec_instr (Swap n) K H cx table = proceed (stack_swap n)"
| "exec_instr Create K H cx table = proceed (run_create K H False)"
| "exec_instr Create2 K H cx table = proceed (run_create K H True)"
| "exec_instr (Calling kind) K H cx table = proceed (run_call K H kind)"
| "exec_instr Return K H cx table =
     andthen (evm_pops 2) (\<lambda>ps. andthen (take_slice K (unat (ps ! 0)) (unat (ps ! 1))) (\<lambda>data.
       halt_with (\<lambda>e. e\<lparr>ev_return := data\<rparr>)))"
| "exec_instr Revert K H cx table =
     andthen (evm_pops 2) (\<lambda>ps. andthen (take_slice K (unat (ps ! 0)) (unat (ps ! 1))) (\<lambda>data.
       halt_with (\<lambda>e. e\<lparr>ev_return := data, ev_reverted := True\<rparr>)))"
| "exec_instr Invalid K H cx table = throw (Raised ''invalid opcode'')"
| "exec_instr Selfdestruct K H cx table = andthen (run_selfdestruct H) (\<lambda>_. give Halt)"
| "exec_instr Unsupported K H cx table = throw (Raised ''unsupported opcode'')"


section \<open>Segments of the native runner\<close>

definition host_opcodes :: "int list" where
  "host_opcodes = [0xF0, 0xF1, 0xF2, 0xF4, 0xF5, 0xFA, 0xFF, 0xA0, 0xA1, 0xA2, 0xA3, 0xA4]"

definition apply_segment :: "segment \<Rightarrow> evm \<Rightarrow> evm" where
  "apply_segment g e =
     e\<lparr>ev_pc := sg_pc g, ev_gas_used := sg_gas_used g, ev_running := sg_running g, ev_reverted := sg_reverted g,
       ev_return := sg_return g, ev_stack := sg_stack g, ev_memory := sg_memory g, ev_logs := ev_logs e @ sg_logs g\<rparr>"

definition handle_segment :: "segment \<Rightarrow> ('w vm, stop_reason) action" where
  "handle_segment g =
     andthen (on_evm (apply_segment g)) (\<lambda>_.
       case sg_reason g of
         ErrorStop err \<Rightarrow>
           (let m = (case err of Some t \<Rightarrow> (if t = [] then ''evm error'' else t) | None \<Rightarrow> ''evm error'')
            in throw (Raised (if sublist ''invalid_jump'' m then ''invalid jump destination'' else m)))
       | GasStop \<Rightarrow> throw (Raised ''out_of_gas'')
       | r \<Rightarrow> give r)"

definition run_kernel ::
  "('w evm_host \<Rightarrow> evm_context \<Rightarrow> bytes \<Rightarrow> bytes \<Rightarrow> ('w vm, segment) action) option \<Rightarrow> 'w evm_host \<Rightarrow> evm_context \<Rightarrow>
   bytes \<Rightarrow> bytes \<Rightarrow> ('w vm, stop_reason) action" where
  "run_kernel k H cx code table =
     (case k of
        None \<Rightarrow> throw (Raised ''requires abs_native'')
      | Some run \<Rightarrow> andthen (run H cx code table) handle_segment)"

definition try_pure_segment ::
  "'w evm_kernel \<Rightarrow> 'w evm_host \<Rightarrow> evm_context \<Rightarrow> bytes \<Rightarrow> bytes \<Rightarrow> ('w vm, stop_reason option) action" where
  "try_pure_segment K H cx code table s =
     (if uint (code ! ev_pc (fst s)) \<in> set host_opcodes then (s, ret None)
      else andthen (run_kernel (kn_pure K) H cx code table) (\<lambda>r. give (Some r)) s)"

definition fail_on_handoff :: "'w evm_kernel \<Rightarrow> ('w vm, unit) action" where
  "fail_on_handoff K = (if kn_required K then throw (Raised ''native EVM handoff'') else give ())"

section \<open>The loop\<close>

text \<open>One opcode in Python; the answer is whether the loop goes on.\<close>

definition advance :: "flow \<Rightarrow> ('w vm, bool) action" where
  "advance f =
     (case f of
        Next \<Rightarrow> andthen (on_evm (\<lambda>e. e\<lparr>ev_pc := ev_pc e + 1\<rparr>)) (\<lambda>_. give True)
      | Jumped \<Rightarrow> give True
      | Halt \<Rightarrow> give False)"

definition run_opcode ::
  "'w evm_kernel \<Rightarrow> 'w evm_host \<Rightarrow> evm_context \<Rightarrow> bytes \<Rightarrow> bytes \<Rightarrow> ('w vm, bool) action" where
  "run_opcode K H cx code table s =
     (if length code \<le> ev_pc (fst s) then (s, raise (Raised ''index out of range''))
      else (let op = uint (code ! ev_pc (fst s)); name = evm_opcode_name op in
        andthen (if 0xA0 \<le> op \<and> op \<le> 0xA4 then give () else consume_gas (op_gas name)) (\<lambda>_.
        andthen (on_evm (\<lambda>e. e\<lparr>ev_trace := ev_trace e @
                  [\<lparr>tr_pc = ev_pc e, tr_op = name, tr_depth = length (ev_stack e)\<rparr>]\<rparr>)) (\<lambda>_.
        andthen (exec_instr (decode_instr op) K H cx table) advance)) s))"

definition evm_turn ::
  "'w evm_kernel \<Rightarrow> 'w evm_host \<Rightarrow> evm_context \<Rightarrow> bytes \<Rightarrow> bytes \<Rightarrow> ('w vm, bool) action" where
  "evm_turn K H cx code table =
     andthen (try_pure_segment K H cx code table) (\<lambda>r.
       case r of
         None \<Rightarrow> run_opcode K H cx code table
       | Some reason \<Rightarrow>
           if reason \<in> {Halted, Returned, RevertStop} then give False
           else if reason = Handoff then andthen (fail_on_handoff K) (\<lambda>_. run_opcode K H cx code table)
           else if reason = HostStop then run_opcode K H cx code table
           else give True)"

partial_function (option) evm_loop ::
  "'w evm_kernel \<Rightarrow> 'w evm_host \<Rightarrow> evm_context \<Rightarrow> bytes \<Rightarrow> bytes \<Rightarrow> 'w vm \<Rightarrow> ('w vm \<times> (store_fault, unit) result) option" where
  "evm_loop K H cx code table s =
     (if ev_pc (fst s) < length code \<and> ev_running (fst s)
      then (case evm_turn K H cx code table s of
              (t, Inl x) \<Rightarrow> Some (t, raise x)
            | (t, Inr go) \<Rightarrow> if go then evm_loop K H cx code table t else Some (t, ret ()))
      else Some (s, ret ()))"

declare evm_loop.simps [code]

record evm_outcome =
  eo_success :: bool
  eo_reverted :: bool
  eo_stack :: "u256 list"
  eo_memory :: bytes
  eo_storage :: storage
  eo_gas_used :: int
  eo_return :: bytes
  eo_trace :: "evm_trace list"
  eo_logs :: "evm_log list"

definition outcome_of :: "evm \<Rightarrow> evm_outcome" where
  "outcome_of e =
     \<lparr>eo_success = (ev_running e \<or> (\<not> ev_reverted e \<and> (ev_return e \<noteq> [] \<or> ev_stack e \<noteq> []))),
      eo_reverted = ev_reverted e, eo_stack = ev_stack e, eo_memory = ev_memory e, eo_storage = ev_storage e,
      eo_gas_used = ev_gas_used e, eo_return = ev_return e, eo_trace = ev_trace e, eo_logs = ev_logs e\<rparr>"

definition fresh_run :: "bytes \<Rightarrow> evm \<Rightarrow> evm" where
  "fresh_run code e =
     e\<lparr>ev_pc := 0, ev_stack := [], ev_gas_used := 0, ev_running := True, ev_reverted := False, ev_return := [],
       ev_trace := [], ev_logs := [], ev_code := code\<rparr>"

definition execute_bytecode_impl ::
  "'w evm_kernel \<Rightarrow> 'w evm_host \<Rightarrow> evm_context \<Rightarrow> bytes \<Rightarrow> 'w vm \<Rightarrow> ('w vm \<times> (store_fault, evm_outcome) result) option" where
  "execute_bytecode_impl K H cx code s =
     (let table = evm_build_jumpdest_table code in
      case run_kernel (kn_until_halt K) H cx code table (fresh_run code (fst s), snd s) of
        (t, Inl x) \<Rightarrow> Some (t, raise x)
      | (t, Inr reason) \<Rightarrow>
          if reason \<noteq> Handoff then Some (t, ret (outcome_of (fst t)))
          else (case fail_on_handoff K t of
                  (u, Inl x) \<Rightarrow> Some (u, raise x)
                | (u, Inr _) \<Rightarrow>
                    map_option (\<lambda>(v, r). (v, case r of Inl x \<Rightarrow> raise x | Inr _ \<Rightarrow> ret (outcome_of (fst v))))
                      (evm_loop K H cx code table u)))"

definition restore_storage :: "storage \<Rightarrow> 'w vm \<Rightarrow> 'w vm" where
  "restore_storage snap s = ((fst s)\<lparr>ev_storage := snap\<rparr>, snd s)"

definition execute_bytecode ::
  "'w evm_kernel \<Rightarrow> 'w evm_host \<Rightarrow> evm_context \<Rightarrow> bytes \<Rightarrow> 'w vm \<Rightarrow> ('w vm \<times> (store_fault, evm_outcome) result) option" where
  "execute_bytecode K H cx code s =
     (let snap = ev_storage (fst s) in
      map_option (\<lambda>(t, r). case r of
          Inl x \<Rightarrow> (restore_storage snap t, raise x)
        | Inr out \<Rightarrow>
            if eo_reverted out then (restore_storage snap t, ret (out\<lparr>eo_storage := snap\<rparr>)) else (t, ret out))
        (execute_bytecode_impl K H cx code s))"

section \<open>The bridge\<close>

text \<open>
  \<open>EvmRuntimeBridge.apply_host_op\<close>: the machine is brought to the runner's state, one host opcode is executed, without
  its base price, and the state goes back to the runner. The stack of a call is read before it is popped.
\<close>

definition sync_in :: "u256 list \<Rightarrow> bytes \<Rightarrow> int \<Rightarrow> storage \<Rightarrow> bytes \<Rightarrow> int \<Rightarrow> evm \<Rightarrow> evm" where
  "sync_in st m used d rd limit e =
     e\<lparr>ev_stack := st, ev_memory := m, ev_gas_used := used, ev_storage := d, ev_return := rd, ev_gas_limit := limit\<rparr>"

definition decode_call_frame :: "call_kind \<Rightarrow> u256 list \<Rightarrow> call_frame option" where
  "decode_call_frame kind st = (if length st < call_width kind then None else Some (frame_of kind (take (call_width kind) st)))"

definition bridge_call :: "'w evm_kernel \<Rightarrow> 'w evm_host \<Rightarrow> call_kind \<Rightarrow> ('w vm, unit) action" where
  "bridge_call K H kind =
     andthen (of_evm (\<lambda>e. decode_call_frame kind (ev_stack e))) (\<lambda>f.
       case f of
         None \<Rightarrow> throw (Raised ''stack underflow'')
       | Some frame \<Rightarrow>
           andthen (evm_pops (call_width kind)) (\<lambda>_. andthen (execute_call K H kind frame) (\<lambda>v. evm_push v)))"

definition apply_host_op ::
  "'w evm_kernel \<Rightarrow> 'w evm_host \<Rightarrow> int \<Rightarrow> u256 list \<Rightarrow> bytes \<Rightarrow> int \<Rightarrow> int \<Rightarrow> storage \<Rightarrow> bytes \<Rightarrow> ('w vm, unit) action" where
  "apply_host_op K H op st m limit used d rd =
     andthen (on_evm (sync_in st m used d rd limit)) (\<lambda>_.
       if 0xA0 \<le> op \<and> op \<le> 0xA4 then run_log K H (nat (op - 0xA0))
       else if op = 0xF0 then run_create K H False
       else if op = 0xF5 then run_create K H True
       else if op = 0xF1 then bridge_call K H Call
       else if op = 0xF2 then bridge_call K H Callcode
       else if op = 0xF4 then bridge_call K H Delegatecall
       else if op = 0xFA then bridge_call K H Staticcall
       else if op = 0xFF then run_selfdestruct H
       else throw (Raised ''unsupported host opcode''))"

end
