(* ===== verification/Evm_Writeback.thy ===== *)
theory Evm_Writeback
  imports Evm_Step
begin

text \<open>
  What a nested call or a creation leaves behind: the Python references of the write-back plan in \<open>crypto/native.py\<close>
  (\<open>_evm_plan_nested_call_effects_py\<close>, \<open>_evm_plan_nested_call_writeback_py\<close>, \<open>_evm_plan_create_writeback_py\<close>,
  \<open>_evm_apply_writeback_ops_py\<close>). Operations change rows loaded beforehand. A storage is written as JSON text, by a
  function of the environment.
\<close>

section \<open>Plans\<close>

datatype wb_op =
    Set_storage string storage
  | Save_account string string string
  | Transfer_value string string int
  | Append_logs string "evm_log list"

record effects_plan =
  ef_read_only :: bool
  ef_storage :: bool
  ef_value :: bool
  ef_logs :: bool
  ef_owner_is_caller :: bool
  ef_wei :: int

definition plan_nested_call_effects :: "call_kind \<Rightarrow> bool \<Rightarrow> int \<Rightarrow> bool \<Rightarrow> effects_plan" where
  "plan_nested_call_effects kind parent_ro value_wei0 success =
     (let value_wei = max 0 value_wei0;
          ro = (parent_ro \<or> kind = Staticcall);
          own = (kind \<in> {Delegatecall, Callcode});
          acts = (success \<and> \<not> ro);
          pays = (acts \<and> kind \<in> {Call, Callcode} \<and> 0 < value_wei)
      in \<lparr>ef_read_only = ro, ef_storage = acts, ef_value = pays, ef_logs = (acts \<and> own), ef_owner_is_caller = own,
          ef_wei = (if pays then value_wei else 0)\<rparr>)"

definition plan_nested_call_writeback ::
  "call_kind \<Rightarrow> bool \<Rightarrow> string \<Rightarrow> string \<Rightarrow> int \<Rightarrow> bool \<Rightarrow> storage \<Rightarrow> evm_log list \<Rightarrow> wb_op list" where
  "plan_nested_call_writeback kind parent_ro caller target value_wei success d logs =
     (let p = plan_nested_call_effects kind parent_ro value_wei success in
      (if ef_storage p then [Set_storage (if ef_owner_is_caller p then caller else target) d] else [])
      @ (if ef_value p \<and> 0 < ef_wei p then [Transfer_value caller target (ef_wei p)] else [])
      @ (if ef_logs p \<and> logs \<noteq> [] then [Append_logs caller logs] else []))"

definition plan_create_writeback :: "(storage \<Rightarrow> string) \<Rightarrow> string \<Rightarrow> string \<Rightarrow> int \<Rightarrow> bool \<Rightarrow> string \<Rightarrow> storage \<Rightarrow> wb_op list" where
  "plan_create_writeback enc deployer address value_wei0 success code d =
     (let value_wei = max 0 value_wei0 in
      if success \<and> address \<noteq> [] then
        Save_account address code (enc d) #
          (if 0 < value_wei \<and> deployer \<noteq> [] then [Transfer_value deployer address value_wei] else [])
      else [])"

section \<open>Applying a plan to rows\<close>

record wb_row =
  wr_satoshi :: "int option"
  wr_balance :: pyfloat
  wr_nonce :: int
  wr_code :: string
  wr_storage :: string

definition empty_row :: wb_row where
  "empty_row = \<lparr>wr_satoshi = Some 0, wr_balance = 0, wr_nonce = 0, wr_code = [], wr_storage = ''{}''\<rparr>"

definition row_sat :: "wb_row \<Rightarrow> int" where
  "row_sat r = (case wr_satoshi r of Some n \<Rightarrow> max 0 n | None \<Rightarrow> max 0 (py_trunc (fmul (wr_balance r) 1000000)))"

definition set_sat :: "int \<Rightarrow> wb_row \<Rightarrow> wb_row" where
  "set_sat n r = r\<lparr>wr_satoshi := Some (max 0 n), wr_balance := f64 (of_int (max 0 n) / 1000000)\<rparr>"

record wb_state =
  ws_rows :: "(string, wb_row) dict"
  ws_touched :: "string list"
  ws_logs :: "(string \<times> evm_log list) list"

definition row_of :: "string \<Rightarrow> wb_state \<Rightarrow> wb_row" where
  "row_of a s = dict_get (ws_rows s) a empty_row"

definition put_wb :: "string \<Rightarrow> wb_row \<Rightarrow> wb_state \<Rightarrow> wb_state" where
  "put_wb a r s = s\<lparr>ws_rows := dict_set a r (ws_rows s)\<rparr>"

definition touch :: "string \<Rightarrow> wb_state \<Rightarrow> wb_state" where
  "touch a s = (if a \<in> set (ws_touched s) then s else s\<lparr>ws_touched := ws_touched s @ [a]\<rparr>)"

definition wei_per_satoshi :: int where
  "wei_per_satoshi = 1000000000000"

fun apply_wb_op :: "(storage \<Rightarrow> string) \<Rightarrow> wb_op \<Rightarrow> wb_state \<Rightarrow> wb_state" where
  "apply_wb_op enc (Set_storage a d) s =
     (if a = [] then s else touch a (put_wb a ((row_of a s)\<lparr>wr_storage := enc d\<rparr>) s))"
| "apply_wb_op enc (Save_account a code text) s =
     (if a = [] then s
      else touch a (put_wb a (set_sat 0 ((row_of a s)\<lparr>wr_code := code, wr_nonce := 0, wr_storage := (if text = [] then ''{}'' else text)\<rparr>)) s))"
| "apply_wb_op enc (Transfer_value a b wei) s =
     (let sat = max 0 wei div wei_per_satoshi in
      if a = [] \<or> b = [] \<or> wei \<le> 0 \<or> sat = 0 then s
      else (let s1 = put_wb b (row_of b (put_wb a (row_of a s) s)) (put_wb a (row_of a s) s);
                s2 = put_wb a (set_sat (row_sat (row_of a s1) - sat) (row_of a s1)) s1;
                s3 = put_wb b (set_sat (row_sat (row_of b s2) + sat) (row_of b s2)) s2
            in touch b (touch a s3)))"
| "apply_wb_op enc (Append_logs a logs) s = (if logs = [] then s else s\<lparr>ws_logs := ws_logs s @ [(a, logs)]\<rparr>)"

definition apply_writeback_ops :: "(storage \<Rightarrow> string) \<Rightarrow> wb_op list \<Rightarrow> (string, wb_row) dict \<Rightarrow> wb_state" where
  "apply_writeback_ops enc ops rows = fold (apply_wb_op enc) ops \<lparr>ws_rows = rows, ws_touched = [], ws_logs = []\<rparr>"

section \<open>What a transfer does\<close>

definition sat_of :: "string \<Rightarrow> wb_state \<Rightarrow> int" where
  "sat_of a s = row_sat (row_of a s)"

lemma row_of_put [simp]: "row_of a (put_wb b r s) = (if a = b then r else row_of a s)"
  by (simp add: row_of_def put_wb_def dict_get_def update_conv)

lemma row_of_touch [simp]: "row_of a (touch b s) = row_of a s"
  by (simp add: row_of_def touch_def)

lemma row_sat_set [simp]: "row_sat (set_sat n r) = max 0 n"
  by (simp add: row_sat_def set_sat_def)

lemma row_sat_nonneg: "0 \<le> row_sat r"
  by (simp add: row_sat_def split: option.splits)

text \<open>Every plan of a nested call under a read-only parent, and of every static call, is empty.\<close>

lemma read_only_plan: "parent_ro \<or> kind = Staticcall \<Longrightarrow> plan_nested_call_writeback kind parent_ro caller target v ok d logs = []"
  by (auto simp: plan_nested_call_writeback_def plan_nested_call_effects_def Let_def)

lemma failed_plan: "plan_nested_call_writeback kind parent_ro caller target v False d logs = []"
  by (auto simp: plan_nested_call_writeback_def plan_nested_call_effects_def Let_def)

text \<open>
  C17. What a value transfer of a nested call does to balances: the receiver gets the whole amount, in satoshi, the sender
  loses what it has at most, so that the sum of the two grows by what the sender is short of. Nothing checks that the
  sender can pay.
\<close>

theorem nested_transfer_mints:
  assumes "a \<noteq> b" "a \<noteq> []" "b \<noteq> []" "0 < wei"
  shows "let sat = wei div wei_per_satoshi; t = apply_wb_op enc (Transfer_value a b wei) s in
    sat_of b t = sat_of b s + sat \<and> sat_of a t = max 0 (sat_of a s - sat) \<and>
    sat_of a t + sat_of b t = sat_of a s + sat_of b s + max 0 (sat - sat_of a s) \<and>
    (c \<notin> {a, b} \<longrightarrow> sat_of c t = sat_of c s)"
proof -
  define sat where "sat = wei div wei_per_satoshi"
  define t where "t = apply_wb_op enc (Transfer_value a b wei) s"
  have nonneg: "0 \<le> sat_of x s" for x by (simp add: sat_of_def row_sat_nonneg)
  have "sat_of b t = sat_of b s + sat \<and> sat_of a t = max 0 (sat_of a s - sat) \<and> (c \<notin> {a, b} \<longrightarrow> sat_of c t = sat_of c s)"
  proof (cases "sat = 0")
    case True
    have "t = s" using True assms(2-4) by (simp add: t_def sat_def Let_def max_def)
    thus ?thesis using True nonneg by (simp add: max_def)
  next
    case False
    have pos: "0 \<le> sat" using assms(4) by (simp add: sat_def wei_per_satoshi_def pos_imp_zdiv_nonneg_iff)
    have "sat_of b t = max 0 (sat_of b s + sat)" "sat_of a t = max 0 (sat_of a s - sat)" "c \<notin> {a, b} \<longrightarrow> sat_of c t = sat_of c s"
      using False assms(1-4) by (auto simp: t_def sat_def sat_of_def Let_def max_def)
    thus ?thesis using pos nonneg [of b] by simp
  qed
  thus ?thesis unfolding Let_def sat_def [symmetric] t_def [symmetric] by (auto simp: max_def)
qed

theorem nested_transfer_mints_witness:
  "let t = apply_wb_op (\<lambda>_. []) (Transfer_value ''0xpoor'' ''0xrich'' (10 ^ 18)) \<lparr>ws_rows = [], ws_touched = [], ws_logs = []\<rparr> in
   sat_of ''0xpoor'' t = 0 \<and> sat_of ''0xrich'' t = 1000000"
proof -
  have zero: "sat_of a \<lparr>ws_rows = [], ws_touched = [], ws_logs = []\<rparr> = 0" for a
    by (simp add: sat_of_def row_of_def dict_get_def empty_row_def row_sat_def)
  have "''0xpoor'' \<noteq> ''0xrich''" "''0xpoor'' \<noteq> []" "''0xrich'' \<noteq> []" "0 < (10 ^ 18 :: int)" by simp_all
  from nested_transfer_mints [OF this, of "\<lambda>_. []" "\<lparr>ws_rows = [], ws_touched = [], ws_logs = []\<rparr>" "[]"]
  show ?thesis by (simp only: Let_def zero) (simp add: wei_per_satoshi_def)
qed

end
