(* ===== verification/Evm_Adapter.thy ===== *)
theory Evm_Adapter
  imports Evm_Writeback Tx_Pipeline
begin

text \<open>
  \<open>execution/evm_adapter.py\<close>: contracts on the node's database. The database is a record of operations on a state
  \<open>'s\<close>; the adapter adds the journal of nested effects. A nested call tries the two native frames, which are parameters,
  and else runs the interpreter on a copy of the storage. The depth of nested frames is bounded by Python's recursion
  limit, which is a parameter; below it a \<open>RecursionError\<close> is raised. The rows go the way they go on a database without
  \<open>commit_writeback_accounts\<close>, that is on SQLite; reading and writing a storage as JSON are functions of the environment.
\<close>

section \<open>The database\<close>

record 's evm_db =
  ed_row :: "string \<Rightarrow> 's \<Rightarrow> (store_fault, wb_row option) result"
  ed_balance :: "string \<Rightarrow> 's \<Rightarrow> (store_fault, pyfloat) result"
  ed_save :: "string \<Rightarrow> pyfloat \<Rightarrow> int \<Rightarrow> string \<Rightarrow> string \<Rightarrow> ('s, unit) action"
  ed_update_balance :: "string \<Rightarrow> pyfloat \<Rightarrow> ('s, unit) action"
  ed_update_storage :: "string \<Rightarrow> string \<Rightarrow> ('s, unit) action"
  ed_logs :: "string \<Rightarrow> evm_log list \<Rightarrow> int \<Rightarrow> ('s, unit) action"
  ed_tip :: "'s \<Rightarrow> int"
  ed_block_hash :: "int \<Rightarrow> 's \<Rightarrow> string option"
  ed_last_time :: "'s \<Rightarrow> int option"

record 's adapter =
  aw_db :: 's
  aw_journal :: "wb_op list"
  aw_journaling :: bool
  aw_bad_storage :: nat

record nested_answer =
  na_reason :: stop_reason
  na_reverted :: bool
  na_return :: bytes
  na_gas :: int
  na_logs :: "evm_log list"

type_synonym 's nested_frame =
  "'s adapter evm_host \<Rightarrow> evm_context \<Rightarrow> bytes \<Rightarrow> int \<Rightarrow> (storage \<times> 's adapter, nested_answer) action"

datatype salt = IntSalt int | TextSalt string

record 's evm_env =
  ee_db :: "'s evm_db"
  ee_kernel :: "'s adapter evm_kernel"
  ee_pure_frame :: "'s nested_frame option"
  ee_host_frame :: "'s nested_frame option"
  ee_read :: "string \<Rightarrow> storage option"
  ee_write :: "storage \<Rightarrow> string"
  ee_gas_limit :: int
  ee_chain_id :: int
  ee_now :: int
  ee_eip1014 :: bool
  ee_need_salt :: bool
  ee_address :: "string \<Rightarrow> int \<Rightarrow> nat \<Rightarrow> string"
  ee_address2 :: "string \<Rightarrow> salt \<Rightarrow> bytes \<Rightarrow> string"
  ee_address_eip1014 :: "string \<Rightarrow> int \<Rightarrow> bytes \<Rightarrow> (store_fault, string) result"

definition db_read :: "('s \<Rightarrow> (store_fault, 'a) result) \<Rightarrow> ('s adapter, 'a) action" where
  "db_read f w = (w, f (aw_db w))"

definition db_do :: "('s, 'a) action \<Rightarrow> ('s adapter, 'a) action" where
  "db_do m w = (case m (aw_db w) of (d, r) \<Rightarrow> (w\<lparr>aw_db := d\<rparr>, r))"

definition on_adapter :: "('s adapter \<Rightarrow> 's adapter) \<Rightarrow> ('s adapter, unit) action" where
  "on_adapter f w = (f w, ret ())"

text \<open>\<open>_normalize_addr\<close>.\<close>

definition normalize_addr :: "string \<Rightarrow> string" where
  "normalize_addr s =
     (let raw = py_lower (remove_0x s) in
      if length raw \<le> 40 \<and> list_all (\<lambda>c. c \<in> set ''0123456789abcdef'') raw
      then ''0x'' @ replicate (40 - length raw) CHR ''0'' @ raw else s)"

definition get_row :: "'s evm_env \<Rightarrow> string \<Rightarrow> ('s adapter, wb_row option) action" where
  "get_row E a = db_read (ed_row (ee_db E) a)"

definition code_text_bytes :: "string \<Rightarrow> bytes option" where
  "code_text_bytes code = from_hex (remove_0x code)"

definition code_bytes :: "'s evm_env \<Rightarrow> string \<Rightarrow> ('s adapter, bytes) action" where
  "code_bytes E a =
     andthen (get_row E (normalize_addr a)) (\<lambda>r.
       give (case r of
          None \<Rightarrow> []
        | Some row \<Rightarrow> (case code_text_bytes (wr_code row) of None \<Rightarrow> [] | Some bs \<Rightarrow> bs)))"

text \<open>\<open>int(get_balance(a) * 10**18)\<close>.\<close>

definition wei_balance :: "'s evm_env \<Rightarrow> string \<Rightarrow> ('s adapter, int) action" where
  "wei_balance E a = andthen (db_read (ed_balance (ee_db E) a)) (\<lambda>x. give (py_trunc (fmul x (10 ^ 18))))"

definition block_hash_word :: "'s evm_env \<Rightarrow> int \<Rightarrow> ('s adapter, int) action" where
  "block_hash_word E h w =
     (let current = ed_tip (ee_db E) (aw_db w) in
      if h < 0 \<or> current \<le> h \<or> h < current - 256 then (w, ret 0)
      else case ed_block_hash (ee_db E) h (aw_db w) of
          None \<Rightarrow> (w, ret 0)
        | Some t \<Rightarrow> (let raw = remove_0x t in
            case from_hex (take 64 (raw @ replicate (64 - length raw) CHR ''0'')) of
              None \<Rightarrow> (w, raise (Raised ''ValueError''))
            | Some bs \<Rightarrow> (w, ret (be_value bs))))"

definition selfdestruct_contract :: "'s evm_env \<Rightarrow> string \<Rightarrow> string \<Rightarrow> ('s adapter, unit) action" where
  "selfdestruct_contract E contract0 beneficiary0 =
     (let contract = normalize_addr contract0; beneficiary = normalize_addr beneficiary0; D = ee_db E in
      andthen (get_row E contract) (\<lambda>row.
        let balance = (case row of None \<Rightarrow> 0 | Some r \<Rightarrow> wr_balance r);
            nonce = (case row of None \<Rightarrow> 0 | Some r \<Rightarrow> wr_nonce r)
        in andthen (if 0 < balance then
                      andthen (db_do (ed_update_balance D beneficiary balance)) (\<lambda>_.
                        db_do (ed_update_balance D contract (- balance)))
                    else give ()) (\<lambda>_.
           db_do (ed_save D contract 0 nonce [] ''{}''))))"

definition persist_logs :: "'s evm_env \<Rightarrow> string \<Rightarrow> evm_log list \<Rightarrow> ('s adapter, unit) action" where
  "persist_logs E a logs =
     (if logs = [] then give ()
      else andthen (db_read (\<lambda>d. ret (ed_tip (ee_db E) d))) (\<lambda>tip. db_do (ed_logs (ee_db E) a logs tip)))"

definition make_context :: "'s evm_env \<Rightarrow> string \<Rightarrow> string \<Rightarrow> bytes \<Rightarrow> int \<Rightarrow> ('s adapter, evm_context) action" where
  "make_context E caller contract data v =
     db_read (\<lambda>d. ret
       \<lparr>cx_caller = caller, cx_origin = caller, cx_address = contract, cx_calldata = data, cx_value = v,
        cx_block_number = ed_tip (ee_db E) d,
        cx_timestamp = (case ed_last_time (ee_db E) d of Some t \<Rightarrow> t | None \<Rightarrow> ee_now E),
        cx_chain_id = ee_chain_id E, cx_base_fee = 0, cx_gas_price = 0, cx_difficulty = 0, cx_coinbase = [],
        cx_blob_base_fee = 0, cx_blob_hashes = []\<rparr>)"

text \<open>The callables of \<open>_make_context\<close>; calls and creation are attached by the frame.\<close>

definition base_host :: "'s evm_env \<Rightarrow> string \<Rightarrow> bool \<Rightarrow> 's adapter evm_host" where
  "base_host E contract ro =
     \<lparr>ho_balance = Some (wei_balance E),
      ho_code_size = Some (\<lambda>a. andthen (code_bytes E a) (\<lambda>bs. give (int (length bs)))),
      ho_code_copy = Some (\<lambda>a off n. andthen (code_bytes E a) (\<lambda>bs. give (take n (drop off bs)))),
      ho_block_hash = Some (block_hash_word E), ho_log = None,
      ho_selfdestruct = Some (\<lambda>b. if ro then throw (Raised ''static_selfdestruct_rejected'') else selfdestruct_contract E contract b),
      ho_call = None, ho_create = None\<rparr>"

section \<open>Nested effects\<close>

definition wb_addresses :: "wb_op \<Rightarrow> string list" where
  "wb_addresses op =
     (case op of Set_storage a d \<Rightarrow> [a] | Save_account a c t \<Rightarrow> [a] | Transfer_value a b v \<Rightarrow> [a, b] | Append_logs a l \<Rightarrow> [a])"

definition normalize_op :: "wb_op \<Rightarrow> wb_op" where
  "normalize_op op =
     (let n = (\<lambda>a. if a = [] then a else normalize_addr a) in
      case op of Set_storage a d \<Rightarrow> Set_storage (n a) d | Save_account a c t \<Rightarrow> Save_account (n a) c t
      | Transfer_value a b v \<Rightarrow> Transfer_value (n a) (n b) v | Append_logs a l \<Rightarrow> Append_logs (n a) l)"

definition touched_addresses :: "wb_op list \<Rightarrow> string list" where
  "touched_addresses ops = rev (remdups (rev (map normalize_addr (filter (\<lambda>a. a \<noteq> []) (concat (map wb_addresses ops))))))"

definition load_row :: "'s evm_env \<Rightarrow> string \<Rightarrow> ('s adapter, string \<times> wb_row) action" where
  "load_row E a = andthen (get_row E a) (\<lambda>r. give (a, case r of Some row \<Rightarrow> row | None \<Rightarrow> empty_row))"

definition save_row :: "'s evm_env \<Rightarrow> string \<Rightarrow> wb_row \<Rightarrow> ('s adapter, unit) action" where
  "save_row E a r =
     db_do (ed_save (ee_db E) (normalize_addr a) (wr_balance r) (wr_nonce r) (wr_code r)
       (if wr_storage r = [] then ''{}'' else wr_storage r))"

definition apply_rows :: "'s evm_env \<Rightarrow> wb_op list \<Rightarrow> ('s adapter, unit) action" where
  "apply_rows E ops =
     andthen (each (load_row E) (touched_addresses ops)) (\<lambda>rows.
       let s = apply_writeback_ops (ee_write E) (map normalize_op ops) rows in
       andthen (each (\<lambda>a. save_row E a (row_of a s)) (ws_touched s)) (\<lambda>_.
       andthen (each (\<lambda>(a, logs). persist_logs E (normalize_addr a) logs) (ws_logs s)) (\<lambda>_. give ())))"

text \<open>The fallback, one operation at a time.\<close>

definition apply_op_now :: "'s evm_env \<Rightarrow> wb_op \<Rightarrow> ('s adapter, unit) action" where
  "apply_op_now E op =
     (case op of
        Set_storage a d \<Rightarrow> db_do (ed_update_storage (ee_db E) (normalize_addr a) (ee_write E d))
      | Save_account a code text \<Rightarrow>
          db_do (ed_save (ee_db E) (normalize_addr a) 0 0 code (if text = [] then ''{}'' else text))
      | Transfer_value a b wei \<Rightarrow>
          if wei \<le> 0 then give ()
          else let x = true_div wei (10 ^ 18) in
            andthen (db_do (ed_update_balance (ee_db E) (normalize_addr a) (- x))) (\<lambda>_.
              db_do (ed_update_balance (ee_db E) (normalize_addr b) x))
      | Append_logs a logs \<Rightarrow> persist_logs E (normalize_addr a) logs)"

definition apply_nested_now :: "'s evm_env \<Rightarrow> wb_op list \<Rightarrow> ('s adapter, unit) action" where
  "apply_nested_now E ops w =
     (if ops = [] then (w, ret ())
      else case apply_rows E ops w of
          (t, Inr _) \<Rightarrow> (t, ret ())
        | (t, Inl _) \<Rightarrow> andthen (each (apply_op_now E) ops) (\<lambda>_. give ()) t)"

definition apply_nested_writeback :: "'s evm_env \<Rightarrow> wb_op list \<Rightarrow> ('s adapter, unit) action" where
  "apply_nested_writeback E ops w =
     (if ops = [] then (w, ret ())
      else if aw_journaling w then (w\<lparr>aw_journal := aw_journal w @ ops\<rparr>, ret ())
      else apply_nested_now E ops w)"

definition begin_journal :: "('s adapter, unit) action" where
  "begin_journal = on_adapter (\<lambda>w. w\<lparr>aw_journal := [], aw_journaling := True\<rparr>)"

definition discard_journal :: "('s adapter, unit) action" where
  "discard_journal = on_adapter (\<lambda>w. w\<lparr>aw_journal := [], aw_journaling := False\<rparr>)"

definition commit_journal :: "'s evm_env \<Rightarrow> ('s adapter, unit) action" where
  "commit_journal E w = apply_nested_now E (aw_journal w) (w\<lparr>aw_journal := [], aw_journaling := False\<rparr>)"


section \<open>Nested frames\<close>

record nested_result =
  nr_reverted :: bool
  nr_return :: bytes
  nr_storage :: storage
  nr_gas :: int
  nr_logs :: "evm_log list"

definition nested_native_eligible :: "bytes \<Rightarrow> bool" where
  "nested_native_eligible code = list_all (\<lambda>p. uint (code ! p) \<notin> set host_opcodes) (instruction_starts 0 code)"

definition usable_reason :: "stop_reason \<Rightarrow> bool" where
  "usable_reason r = (r \<in> {Halted, Returned, RevertStop, GasStop})"

text \<open>A native frame works on the published dictionary; an exception or another stop reason leaves the call to the next way.\<close>

definition try_frame ::
  "'s nested_frame option \<Rightarrow> bool \<Rightarrow> 's adapter evm_host \<Rightarrow> evm_context \<Rightarrow> bytes \<Rightarrow> int \<Rightarrow>
   (storage \<times> 's adapter, nested_result option) action" where
  "try_frame frame keep_logs H cx code gas s =
     (case frame of
        None \<Rightarrow> (s, ret None)
      | Some run \<Rightarrow>
          (case run H cx code gas s of
             (t, Inl x) \<Rightarrow> (t, ret None)
           | (t, Inr a) \<Rightarrow>
               (t, ret (if usable_reason (na_reason a)
                        then Some \<lparr>nr_reverted = (na_reverted a \<or> na_reason a = GasStop), nr_return = na_return a,
                                   nr_storage = fst t, nr_gas = na_gas a, nr_logs = (if keep_logs then na_logs a else [])\<rparr>
                        else None))))"

text \<open>An interpreter for a frame: on a copy of the storage, while the context goes on publishing the storage itself.\<close>

definition new_interpreter :: "int \<Rightarrow> storage \<Rightarrow> storage option \<Rightarrow> evm" where
  "new_interpreter limit d live =
     \<lparr>ev_stack = [], ev_memory = [], ev_storage = d, ev_live = live, ev_transient = [], ev_gas_used = 0, ev_gas_limit = limit,
      ev_pc = 0, ev_running = True, ev_reverted = False, ev_return = [], ev_trace = [], ev_logs = [], ev_code = []\<rparr>"

definition result_of :: "evm_outcome \<Rightarrow> nested_result" where
  "result_of out = \<lparr>nr_reverted = eo_reverted out, nr_return = eo_return out, nr_storage = eo_storage out,
     nr_gas = eo_gas_used out, nr_logs = eo_logs out\<rparr>"

definition python_frame ::
  "'s evm_env \<Rightarrow> 's adapter evm_host \<Rightarrow> evm_context \<Rightarrow> bytes \<Rightarrow> int \<Rightarrow> (storage \<times> 's adapter, nested_result) action" where
  "python_frame E H cx code gas s =
     (case execute_bytecode (ee_kernel E) H cx code (new_interpreter gas (fst s) (Some (fst s)), snd s) of
        None \<Rightarrow> (s, raise (Raised ''diverges''))
      | Some ((e, w), r) \<Rightarrow>
          ((case ev_live e of Some d \<Rightarrow> d | None \<Rightarrow> ev_storage e, w),
           case r of Inl x \<Rightarrow> raise x | Inr out \<Rightarrow> ret (result_of out)))"

definition run_nested ::
  "'s evm_env \<Rightarrow> 's adapter evm_host \<Rightarrow> evm_context \<Rightarrow> bytes \<Rightarrow> int \<Rightarrow> (storage \<times> 's adapter, nested_result) action" where
  "run_nested E H cx code gas =
     andthen (if nested_native_eligible code then try_frame (ee_pure_frame E) False H cx code gas else give None) (\<lambda>r1.
     andthen (case r1 of Some r \<Rightarrow> give (Some r) | None \<Rightarrow> try_frame (ee_host_frame E) True H cx code gas) (\<lambda>r2.
       case r2 of Some r \<Rightarrow> give r | None \<Rightarrow> python_frame E H cx code gas))"

definition failed_call :: "bytes \<Rightarrow> int \<Rightarrow> call_answer" where
  "failed_call data gas = \<lparr>ca_success = False, ca_reverted = True, ca_return = data, ca_storage = None, ca_gas = gas\<rparr>"

definition in_db :: "('s adapter, 'a) action \<Rightarrow> (storage \<times> 's adapter, 'a) action" where
  "in_db m s = (case m (snd s) of (w, r) \<Rightarrow> ((fst s, w), r))"

text \<open>A call or a static call publishes the callee's own storage, not the caller's.\<close>

definition with_published :: "storage \<Rightarrow> (storage \<times> 's adapter, 'a) action \<Rightarrow> (storage \<times> 's adapter, 'a) action" where
  "with_published d m s = (case m (d, snd s) of ((d', w), r) \<Rightarrow> ((fst s, w), r))"

type_synonym 's hosts = "evm_context \<Rightarrow> bool \<Rightarrow> 's adapter evm_host"

text \<open>The storage of the callee, \<open>None\<close> when it cannot be read.\<close>

definition row_storage :: "'s evm_env \<Rightarrow> wb_row \<Rightarrow> storage option" where
  "row_storage E r = (if wr_storage r = [] then Some [] else ee_read E (wr_storage r))"

definition finish_call ::
  "'s evm_env \<Rightarrow> call_kind \<Rightarrow> bool \<Rightarrow> string \<Rightarrow> string \<Rightarrow> int \<Rightarrow> nested_result \<Rightarrow> ('s adapter, call_answer) action" where
  "finish_call E kind ro caller target v r =
     (let ops = plan_nested_call_writeback kind ro caller target v (\<not> nr_reverted r) (nr_storage r) (nr_logs r) in
      if nr_reverted r then give (failed_call (nr_return r) (nr_gas r))
      else if ops = [] then
        give \<lparr>ca_success = True, ca_reverted = False, ca_return = nr_return r, ca_storage = None, ca_gas = nr_gas r\<rparr>
      else andthen (apply_nested_writeback E ops) (\<lambda>_.
        give \<lparr>ca_success = True, ca_reverted = False, ca_return = nr_return r, ca_storage = Some (nr_storage r), ca_gas = nr_gas r\<rparr>))"

definition contract_call_hook ::
  "'s evm_env \<Rightarrow> 's hosts \<Rightarrow> evm_context \<Rightarrow> bool \<Rightarrow> call_request \<Rightarrow> (storage \<times> 's adapter, call_answer) action" where
  "contract_call_hook E sub cx ro q =
     (let target = normalize_addr (cq_to q); kind = cq_kind q; own = (kind \<in> {Delegatecall, Callcode}) in
      andthen (in_db (get_row E target)) (\<lambda>row.
        case row of
          None \<Rightarrow> give (failed_call [] 0)
        | Some r \<Rightarrow>
            (case row_storage E r of
               None \<Rightarrow> give (failed_call [] 0)
             | Some d \<Rightarrow>
                 if wr_code r = [] then give (failed_call [] 0)
                 else (case code_text_bytes (wr_code r) of
                     None \<Rightarrow> give (failed_call [] 0)
                   | Some code \<Rightarrow>
                       let v = (if kind = Delegatecall then 0 else cq_value q);
                           exec_address = (if own then cx_address cx else target);
                           caller = (if kind = Delegatecall then cx_caller cx else cx_address cx);
                           nested_ro = ef_read_only (plan_nested_call_effects kind ro v True);
                           budget = (if cq_gas q = 0 then ee_gas_limit E else cq_gas q)
                       in andthen (in_db (make_context E caller exec_address (cq_data q) v)) (\<lambda>sub_cx.
                          let run = run_nested E (sub sub_cx nested_ro) sub_cx code budget in
                          andthen (if own then run else with_published d run) (\<lambda>result.
                            in_db (finish_call E kind ro (cx_address cx) target v result)))))))"

definition run_evm ::
  "'s evm_env \<Rightarrow> 's hosts \<Rightarrow> bytes \<Rightarrow> storage \<Rightarrow> int \<Rightarrow> string \<Rightarrow> string \<Rightarrow> bytes \<Rightarrow> int \<Rightarrow> bool \<Rightarrow> ('s adapter, evm_outcome) action" where
  "run_evm E sub code d limit caller contract data v ro =
     andthen (make_context E caller contract data v) (\<lambda>cx w.
       case execute_bytecode (ee_kernel E) (sub cx ro) cx code (new_interpreter limit d None, w) of
         None \<Rightarrow> (w, raise (Raised ''diverges''))
       | Some ((e, t), r) \<Rightarrow> (t, r))"

definition failed_create :: "int \<Rightarrow> create_answer" where
  "failed_create gas = \<lparr>cr_success = False, cr_reverted = True, cr_address = [], cr_gas = gas\<rparr>"

definition create_address :: "'s evm_env \<Rightarrow> string \<Rightarrow> int \<Rightarrow> bytes \<Rightarrow> int option \<Rightarrow> (store_fault, string) result" where
  "create_address E deployer height code salt =
     (case salt of
        None \<Rightarrow> ret (ee_address E deployer height (length code))
      | Some n \<Rightarrow> if ee_eip1014 E then ee_address_eip1014 E deployer n code else ret (ee_address2 E deployer (IntSalt n) code))"

definition contract_create_hook ::
  "'s evm_env \<Rightarrow> 's hosts \<Rightarrow> evm_context \<Rightarrow> bytes \<Rightarrow> int \<Rightarrow> int option \<Rightarrow> ('s adapter, create_answer) action" where
  "contract_create_hook E sub cx code v salt =
     (let deployer = (if cx_address cx = [] then cx_caller cx else cx_address cx) in
      if deployer = [] then give (failed_create 0)
      else andthen (attempt (create_address E deployer (cx_block_number cx) code salt)) (\<lambda>address w.
        case run_evm E sub code [] (ee_gas_limit E) deployer address [] v False w of
          (t, Inl x) \<Rightarrow> (t, ret (failed_create 0))
        | (t, Inr out) \<Rightarrow>
            if eo_reverted out then (t, ret (failed_create (eo_gas_used out)))
            else (let runtime = to_hex (if eo_return out = [] then code else eo_return out) in
              andthen (apply_nested_writeback E (plan_create_writeback (ee_write E) deployer address v True runtime (eo_storage out))) (\<lambda>_.
                give \<lparr>cr_success = True, cr_reverted = False, cr_address = address, cr_gas = eo_gas_used out\<rparr>) t)))"

text \<open>
  The host of a frame: the callables of its context, with calls and creations of the next level. A read-only frame may not
  create. Level 0 is Python's recursion limit.
\<close>

primrec frame_host :: "nat \<Rightarrow> 's evm_env \<Rightarrow> 's hosts" where
  "frame_host 0 E cx ro =
     (base_host E (cx_address cx) ro)\<lparr>ho_call := Some (\<lambda>q. throw (Raised ''RecursionError'')),
       ho_create := Some (\<lambda>code v salt. if ro then give (failed_create 0) else throw (Raised ''RecursionError''))\<rparr>"
| "frame_host (Suc n) E cx ro =
     (base_host E (cx_address cx) ro)\<lparr>ho_call := Some (contract_call_hook E (frame_host n E) cx ro),
       ho_create := Some (\<lambda>code v salt. if ro then give (failed_create 0) else contract_create_hook E (frame_host n E) cx code v salt)\<rparr>"

section \<open>Deployment and calls\<close>

datatype returned = NoValue | AddressValue string | IntValue int

record adapter_result =
  ar_success :: bool
  ar_value :: returned
  ar_gas :: int
  ar_error :: string

definition adapter_error :: "string \<Rightarrow> int \<Rightarrow> adapter_result" where
  "adapter_error err gas = \<lparr>ar_success = False, ar_value = NoValue, ar_gas = gas, ar_error = err\<rparr>"

definition wei_value :: "pyfloat \<Rightarrow> int" where
  "wei_value v = (if v = 0 then 0 else py_trunc (fmul v (10 ^ 18)))"

definition resolve_deploy_address ::
  "'s evm_env \<Rightarrow> (string \<Rightarrow> int) \<Rightarrow> string \<Rightarrow> bytes \<Rightarrow> string option \<Rightarrow> int \<Rightarrow> (store_fault, string option) result" where
  "resolve_deploy_address E salt_word deployer code salt height =
     (case salt of
        None \<Rightarrow> if ee_need_salt E then ret None else ret (Some (ee_address E deployer height (length code)))
      | Some t \<Rightarrow>
          if ee_eip1014 E then
            (case ee_address_eip1014 E deployer (salt_word t) code of Inl x \<Rightarrow> raise x | Inr a \<Rightarrow> ret (Some a))
          else ret (Some (ee_address2 E deployer (TextSalt t) code)))"

definition deploy_salt_word :: "'s evm_env \<Rightarrow> string \<Rightarrow> int" where
  "deploy_salt_word E salt = be_value (take 32 (kn_keccak (ee_kernel E) (map (\<lambda>c. word_of_int (of_char c)) salt)))"

text \<open>The run inside \<open>try\<close>, under the journal: an exception or a revert discards it.\<close>

definition journaled_run :: "('s adapter, evm_outcome) action \<Rightarrow> string \<Rightarrow> ('s adapter, adapter_result + evm_outcome) action" where
  "journaled_run run revert_error =
     andthen begin_journal (\<lambda>_ w.
       case run w of
         (t, Inl x) \<Rightarrow> andthen discard_journal (\<lambda>_. give (Inl (adapter_error ''exception'' 0))) t
       | (t, Inr out) \<Rightarrow>
           if eo_reverted out then andthen discard_journal (\<lambda>_. give (Inl (adapter_error revert_error (eo_gas_used out)))) t
           else (t, ret (Inr out)))"

definition move_value :: "'s evm_env \<Rightarrow> string \<Rightarrow> string \<Rightarrow> pyfloat \<Rightarrow> ('s adapter, unit) action" where
  "move_value E a b v =
     (if 0 < v then andthen (db_do (ed_update_balance (ee_db E) a (- v))) (\<lambda>_. db_do (ed_update_balance (ee_db E) b v))
      else give ())"

definition deploy_contract ::
  "nat \<Rightarrow> 's evm_env \<Rightarrow> string \<Rightarrow> string \<Rightarrow> pyfloat \<Rightarrow> int \<Rightarrow> string option \<Rightarrow> int \<Rightarrow> ('s adapter, adapter_result) action" where
  "deploy_contract depth E deployer hex v gas salt height =
     (let limit = (if gas = 0 then ee_gas_limit E else gas) in
      case from_hex (remove_0x hex) of
        None \<Rightarrow> give (adapter_error ''invalid_bytecode'' 0)
      | Some code \<Rightarrow>
          if code = [] then give (adapter_error ''empty_bytecode'' 0)
          else if \<not> bv_valid (validate_bytecode_hex hex) then give (adapter_error ''bytecode_invalid'' 0)
          else andthen (attempt (resolve_deploy_address E (deploy_salt_word E) deployer code salt height)) (\<lambda>address.
            case address of
              None \<Rightarrow> give (adapter_error ''deploy_salt_required'' 0)
            | Some contract \<Rightarrow>
                andthen (journaled_run (run_evm E (frame_host depth E) code [] limit deployer contract [] (wei_value v) False)
                           ''constructor_reverted'') (\<lambda>r.
                case r of
                  Inl err \<Rightarrow> give err
                | Inr out \<Rightarrow>
                    andthen (db_do (ed_save (ee_db E) contract v 0 hex (ee_write E (eo_storage out)))) (\<lambda>_.
                    andthen (persist_logs E contract (eo_logs out)) (\<lambda>_.
                    andthen (commit_journal E) (\<lambda>_.
                    andthen (move_value E deployer contract v) (\<lambda>_.
                      give \<lparr>ar_success = True, ar_value = AddressValue contract, ar_gas = eo_gas_used out, ar_error = []\<rparr>)))))))"

definition returned_value :: "evm_outcome \<Rightarrow> returned" where
  "returned_value out =
     (if eo_return out \<noteq> [] then IntValue (be_value (padded 32 (take 32 (eo_return out))))
      else case eo_stack out of [] \<Rightarrow> NoValue | w # ws \<Rightarrow> IntValue (uint w))"

definition stored_contract :: "'s evm_env \<Rightarrow> string \<Rightarrow> string \<Rightarrow> ('s adapter, adapter_result + bytes \<times> storage) action" where
  "stored_contract E a bad_code =
     andthen (get_row E a) (\<lambda>row w.
       case row of
         None \<Rightarrow> (w, ret (Inl (adapter_error ''not_a_contract'' 0)))
       | Some r \<Rightarrow>
           if wr_code r = [] then (w, ret (Inl (adapter_error ''not_a_contract'' 0)))
           else (case code_text_bytes (wr_code r) of
               None \<Rightarrow> (w, ret (Inl (adapter_error bad_code 0)))
             | Some code \<Rightarrow>
                 (case row_storage E r of
                    None \<Rightarrow> (w\<lparr>aw_bad_storage := aw_bad_storage w + 1\<rparr>, ret (Inl (adapter_error ''corrupt_storage'' 0)))
                  | Some d \<Rightarrow> (w, ret (Inr (code, d))))))"

definition calldata_bytes :: "string \<Rightarrow> bytes option" where
  "calldata_bytes hex = (if hex = [] then Some [] else from_hex (remove_0x hex))"

definition call_contract ::
  "nat \<Rightarrow> 's evm_env \<Rightarrow> string \<Rightarrow> string \<Rightarrow> string \<Rightarrow> pyfloat \<Rightarrow> int \<Rightarrow> ('s adapter, adapter_result) action" where
  "call_contract depth E caller contract hex v gas =
     (let limit = (if gas = 0 then ee_gas_limit E else gas) in
      andthen (stored_contract E contract ''invalid_stored_bytecode'') (\<lambda>found.
      case found of
        Inl err \<Rightarrow> give err
      | Inr (code, d) \<Rightarrow>
          (case calldata_bytes hex of
             None \<Rightarrow> give (adapter_error ''invalid_calldata'' 0)
           | Some data \<Rightarrow>
               andthen (journaled_run (run_evm E (frame_host depth E) code d limit caller contract data (wei_value v) False)
                          ''execution_reverted'') (\<lambda>r.
               case r of
                 Inl err \<Rightarrow> give err
               | Inr out \<Rightarrow>
                   andthen (db_do (ed_update_storage (ee_db E) contract (ee_write E (eo_storage out)))) (\<lambda>_.
                   andthen (persist_logs E contract (eo_logs out)) (\<lambda>_.
                   andthen (commit_journal E) (\<lambda>_.
                   andthen (move_value E caller contract v) (\<lambda>_.
                     give \<lparr>ar_success = True, ar_value = returned_value out, ar_gas = eo_gas_used out, ar_error = []\<rparr>))))))))"

definition static_call :: "nat \<Rightarrow> 's evm_env \<Rightarrow> string \<Rightarrow> string \<Rightarrow> int \<Rightarrow> ('s adapter, adapter_result) action" where
  "static_call depth E contract hex gas =
     (let limit = (if gas = 0 then ee_gas_limit E else gas) in
      andthen (stored_contract E contract ''invalid_bytecode'') (\<lambda>found.
      case found of
        Inl err \<Rightarrow> give err
      | Inr (code, d) \<Rightarrow>
          (case calldata_bytes hex of
             None \<Rightarrow> give (adapter_error ''invalid_calldata'' 0)
           | Some data \<Rightarrow> (\<lambda>w.
               case run_evm E (frame_host depth E) code d limit [] contract data 0 True w of
                 (t, Inl x) \<Rightarrow> (t, ret (adapter_error ''exception'' 0))
               | (t, Inr out) \<Rightarrow>
                   (t, ret \<lparr>ar_success = (\<not> eo_reverted out), ar_value = returned_value out, ar_gas = eo_gas_used out,
                            ar_error = []\<rparr>)))))"

definition estimate_gas :: "nat \<Rightarrow> 's evm_env \<Rightarrow> string \<Rightarrow> string \<Rightarrow> ('s adapter, int) action" where
  "estimate_gas depth E contract hex =
     andthen (static_call depth E contract hex (ee_gas_limit E)) (\<lambda>r.
       give (if ar_success r then py_trunc (fmul (f64 (of_int (ar_gas r))) (f64 (12 / 10))) else ee_gas_limit E))"


section \<open>On SQLite\<close>

text \<open>
  The port over the accounts table of \<open>Account_Store\<close>; the tip, block hashes and the last time stamp come from the other
  tables, the rows of \<open>evm_logs\<close> are not kept.
\<close>

definition sql_evm_row :: "sql_account \<Rightarrow> wb_row" where
  "sql_evm_row r =
     \<lparr>wr_satoshi = sa_satoshi r, wr_balance = sa_balance r, wr_nonce = sa_nonce r,
      wr_code = (case sa_code r of None \<Rightarrow> [] | Some c \<Rightarrow> c), wr_storage = (case sa_storage r of None \<Rightarrow> [] | Some t \<Rightarrow> t)\<rparr>"

definition sql_float_balance :: "native_amount \<Rightarrow> string \<Rightarrow> sql_conn \<Rightarrow> (store_fault, pyfloat) result" where
  "sql_float_balance N a c =
     (case sql_row a c of
        None \<Rightarrow> ret 0
      | Some r \<Rightarrow> (case sa_satoshi r of Some n \<Rightarrow> amount_result (from_satoshi_float N n) | None \<Rightarrow> ret (sa_balance r)))"

definition sql_update_storage :: "string \<Rightarrow> string \<Rightarrow> (sql_conn, unit) action" where
  "sql_update_storage a text =
     committing (\<lambda>c. (sql_write (\<lambda>t. t\<lparr>st_accounts := dict_modify a (\<lambda>r. r\<lparr>sa_storage := Some text\<rparr>) (st_accounts t)\<rparr>) c, ret ()))"

definition sql_evm_db :: "native_amount \<Rightarrow> int \<Rightarrow> (int \<Rightarrow> string option) \<Rightarrow> int option \<Rightarrow> sql_conn evm_db" where
  "sql_evm_db N tip hashes time =
     \<lparr>ed_row = (\<lambda>a c. ret (map_option sql_evm_row (sql_row a c))), ed_balance = sql_float_balance N,
      ed_save = (\<lambda>a x nonce code text. sql_save N a (str_number x) nonce (Some code) (Some text)),
      ed_update_balance = (\<lambda>a x. sql_update_balance N a (str_number x)), ed_update_storage = sql_update_storage,
      ed_logs = (\<lambda>a logs height. give ()), ed_tip = (\<lambda>c. tip), ed_block_hash = (\<lambda>h c. hashes h), ed_last_time = (\<lambda>c. time)\<rparr>"

end
