(* ===== verification/Evm_Run.thy ===== *)
theory Evm_Run
  imports Evm_Step
begin

text \<open>
  What holds of every run of the contract machine: it ends within its gas, a run that fails leaves the storage as it
  was, and what the machine does not do: memory costs nothing, and after a delegated call the storage it publishes is
  no longer its own. Gas is accounted for by one predicate on actions, closed under sequencing.
\<close>

named_theorems gas_rules "actions that spend at least so much gas"

section \<open>Gas\<close>

definition spends :: "int \<Rightarrow> ('w vm, 'a) action \<Rightarrow> bool" where
  "spends k m \<longleftrightarrow>
     (\<forall>s t x. m s = (t, Inr x) \<longrightarrow>
        ev_gas_used (fst s) + k \<le> ev_gas_used (fst t) \<and> ev_gas_limit (fst t) = ev_gas_limit (fst s) \<and>
        (ev_gas_used (fst s) \<le> ev_gas_limit (fst s) \<longrightarrow> ev_gas_used (fst t) \<le> ev_gas_limit (fst t)))"

lemma spendsD:
  assumes "spends k m" "m s = (t, Inr x)"
  shows "ev_gas_used (fst s) + k \<le> ev_gas_used (fst t)" "ev_gas_limit (fst t) = ev_gas_limit (fst s)"
    "ev_gas_used (fst s) \<le> ev_gas_limit (fst s) \<Longrightarrow> ev_gas_used (fst t) \<le> ev_gas_limit (fst t)"
  using assms unfolding spends_def by blast+

lemma spends_andthen:
  assumes "spends j m" "\<And>x. spends k (f x)"
  shows "spends (j + k) (andthen m f)"
  unfolding spends_def
proof (intro allI impI)
  fix s u y
  assume "andthen m f s = (u, Inr y)"
  then obtain t x where "m s = (t, Inr x)" "f x t = (u, Inr y)" by (rule andthen_cases)
  thus "ev_gas_used (fst s) + (j + k) \<le> ev_gas_used (fst u) \<and> ev_gas_limit (fst u) = ev_gas_limit (fst s) \<and>
    (ev_gas_used (fst s) \<le> ev_gas_limit (fst s) \<longrightarrow> ev_gas_used (fst u) \<le> ev_gas_limit (fst u))"
    using spendsD [OF assms(1), of s t x] spendsD [OF assms(2), of x t u y] by auto
qed

lemma spends_seq [gas_rules]: "spends 0 m \<Longrightarrow> (\<And>x. spends 0 (f x)) \<Longrightarrow> spends 0 (andthen m f)"
  using spends_andthen [of 0 m 0 f] by simp

lemma spends_first: "spends k m \<Longrightarrow> (\<And>x. spends 0 (f x)) \<Longrightarrow> spends k (andthen m f)"
  using spends_andthen [of k m 0 f] by simp

lemma spends_then: "spends 0 m \<Longrightarrow> (\<And>x. spends k (f x)) \<Longrightarrow> spends k (andthen m f)"
  using spends_andthen [of 0 m k f] by simp

lemma spends_less: "spends k m \<Longrightarrow> j \<le> k \<Longrightarrow> spends j m"
  unfolding spends_def by (meson add_left_mono order_trans)

lemma spends_guard:
  assumes "spends 0 m"
  shows "spends 0 (\<lambda>s. if c s then (s, r) else m s)"
  unfolding spends_def
proof (intro allI impI)
  fix s t x
  assume "(if c s then (s, r) else m s) = (t, Inr x)"
  thus "ev_gas_used (fst s) + 0 \<le> ev_gas_used (fst t) \<and> ev_gas_limit (fst t) = ev_gas_limit (fst s) \<and>
    (ev_gas_used (fst s) \<le> ev_gas_limit (fst s) \<longrightarrow> ev_gas_used (fst t) \<le> ev_gas_limit (fst t))"
    using spendsD [OF assms, of s t x] by (auto split: if_splits)
qed

lemma spends_throw: "spends k (throw e)" "spends k (\<lambda>s. (s, Inl e))"
  by (simp_all add: spends_def)

lemma spends_on_evm:
  "(\<And>e. ev_gas_used (f e) = ev_gas_used e) \<Longrightarrow> (\<And>e. ev_gas_limit (f e) = ev_gas_limit e) \<Longrightarrow> spends 0 (on_evm f)"
  by (simp add: spends_def on_evm_def)

lemma spends_if [gas_rules]: "spends k m \<Longrightarrow> spends k n \<Longrightarrow> spends k (if b then m else n)"
  by simp

lemma spends_option [gas_rules]: "spends k m \<Longrightarrow> (\<And>x. spends k (f x)) \<Longrightarrow> spends k (case q of None \<Rightarrow> m | Some x \<Rightarrow> f x)"
  by (cases q) simp_all

lemma spends_elementary [gas_rules]:
  "spends 0 (\<lambda>s. (s, r))"
  "spends 0 (give x)" "spends 0 (throw e)" "spends 0 (of_evm f)" "spends 0 (evm_push v)" "spends 0 evm_pop"
  "spends 0 (in_world m)" "spends 0 (mem_extend limit off n)"
  by (auto simp: spends_def of_evm_def evm_push_def on_evm_def evm_pop_def in_world_def mem_extend_def Let_def
      split: list.splits prod.splits if_splits)

lemma spends_gas: "spends c (consume_gas c)"
  by (auto simp: spends_def consume_gas_def on_evm_def split: if_splits)

lemma spends_subcall [gas_rules]: "spends 0 (charge_subcall_gas g)"
  unfolding spends_def charge_subcall_gas_def andthen_def on_evm_def by (auto split: if_splits)

lemma spends_pops [gas_rules]: "spends 0 (evm_pops n)"
  by (induction n) (auto intro!: gas_rules)

lemma spends_consume [gas_rules]: "0 \<le> c \<Longrightarrow> spends 0 (consume_gas c)"
  using spends_gas spends_less by blast

lemma spends_storage [gas_rules]:
  "(\<And>f e. ev_gas_used (change f e) = ev_gas_used e) \<Longrightarrow> (\<And>f e. ev_gas_limit (change f e) = ev_gas_limit e) \<Longrightarrow>
   spends 0 (put_slot K k v change)"
  unfolding put_slot_def evm_word_def by (auto intro!: gas_rules spends_on_evm split: option.splits)

lemma slot_gas [simp]:
  "ev_gas_used (on_storage f e) = ev_gas_used e" "ev_gas_limit (on_storage f e) = ev_gas_limit e"
  "ev_gas_used (on_transient f e) = ev_gas_used e" "ev_gas_limit (on_transient f e) = ev_gas_limit e"
  "ev_gas_used (bind_storage d e) = ev_gas_used e" "ev_gas_limit (bind_storage d e) = ev_gas_limit e"
  by (simp_all add: on_storage_def on_transient_def bind_storage_def)

lemma spends_call_host [gas_rules]: "spends 0 (call_host f q)"
  by (auto simp: spends_def call_host_def Let_def split: option.splits prod.splits)

lemma spends_helpers [gas_rules]:
  "spends 0 (evm_word K f args)" "spends 0 (ask_world q)" "spends 0 (code_hash_of K H a)" "spends 0 (copy_into K d src off n)"
  "spends 0 (take_slice K off n)" "spends 0 (jump_to table w)" "spends 0 (stack_dup n)" "spends 0 (stack_swap n)"
  "spends 0 (write_return limit off n data)"
  unfolding evm_word_def ask_world_def code_hash_of_def copy_into_def take_slice_def write_return_def
  subgoal by (auto intro!: gas_rules split: option.splits)
  subgoal by (auto intro!: gas_rules split: option.splits)
  subgoal by (auto intro!: gas_rules split: option.splits)
  subgoal by (auto intro!: gas_rules spends_on_evm)
  subgoal by (auto intro!: gas_rules)
  subgoal by (auto simp: spends_def jump_to_def andthen_def on_evm_def split: if_splits)
  subgoal by (auto simp: spends_def stack_dup_def on_evm_def Let_def split: if_splits)
  subgoal by (auto simp: spends_def stack_swap_def on_evm_def Let_def split: if_splits)
  subgoal by (auto intro!: gas_rules spends_on_evm)
  done

lemma spends_execute_call [gas_rules]: "spends 0 (execute_call K H kind f)"
  unfolding execute_call_def by (auto intro!: gas_rules spends_on_evm split: option.splits)

lemma spends_execute_create [gas_rules]: "spends 0 (execute_create K H v off n salt)"
  unfolding execute_create_def by (auto intro!: gas_rules split: option.splits)

lemma log_gas: "op_gas ''LOG'' = 375"
  by (simp add: op_gas_def gas_costs_def)

lemma mcopy_gas: "op_gas ''MCOPY'' = 3"
  by (simp add: op_gas_def gas_costs_def)

lemma spends_log: "spends 375 (run_log K H n)"
proof -
  have "0 \<le> uint w" for w :: u256 by simp
  hence "spends 375 (consume_gas (op_gas ''LOG'' + (int n * 375 + uint w)))" for w :: u256
    by (intro spends_less [OF spends_gas]) (simp add: log_gas)
  thus ?thesis unfolding run_log_def
    by (intro spends_then [OF spends_pops] spends_first) (auto intro!: gas_rules spends_on_evm)
qed

lemma spends_runs [gas_rules]:
  "spends 0 (run_create K H b)" "spends 0 (run_call K H kind)" "spends 0 (run_selfdestruct H)" "spends 0 (run_log K H n)"
  unfolding run_create_def run_call_def run_selfdestruct_def
  subgoal by (auto intro!: gas_rules)
  subgoal by (auto intro!: gas_rules)
  subgoal by (auto intro!: gas_rules spends_on_evm split: option.splits)
  subgoal by (rule spends_less [OF spends_log]) simp
  done

lemma spends_proceed [gas_rules]: "spends 0 m \<Longrightarrow> spends 0 (proceed m)"
  unfolding proceed_def by (intro gas_rules)

lemma spends_halt [gas_rules]:
  "(\<And>e. ev_gas_used (f e) = ev_gas_used e) \<Longrightarrow> (\<And>e. ev_gas_limit (f e) = ev_gas_limit e) \<Longrightarrow> spends 0 (halt_with f)"
  unfolding halt_with_def by (intro gas_rules spends_on_evm) simp_all

lemma spends_instr: "spends 0 (exec_instr i K H cx table)"
proof -
  have "0 \<le> op_gas ''MCOPY'' + 3 * ((uint w + 31) div 32)" for w :: u256
    using uint_ge_0 [of w] by (simp add: mcopy_gas pos_imp_zdiv_nonneg_iff)
  thus ?thesis by (cases i) (auto intro!: gas_rules spends_on_evm)
qed


text \<open>Only \<open>STOP\<close>, \<open>RETURN\<close> and \<open>REVERT\<close> are free, and they end the run.\<close>

lemma op_gas_bounds: "0 \<le> op_gas n \<and> (op_gas n = 0 \<longrightarrow> n \<in> {''STOP'', ''RETURN'', ''REVERT''})"
proof (cases "map_of gas_costs n")
  case (Some c)
  have "\<forall>(n, c) \<in> set gas_costs. 0 \<le> c \<and> (c = 0 \<longrightarrow> n \<in> {''STOP'', ''RETURN'', ''REVERT''})"
    by (simp add: gas_costs_def)
  thus ?thesis using map_of_SomeD [OF Some] Some by (auto simp: op_gas_def)
qed (simp add: op_gas_def)

lemma free_names: "evm_opcode_name op \<in> {''STOP'', ''RETURN'', ''REVERT''} \<Longrightarrow> op \<in> {0, 0xF3, 0xFD}"
proof -
  have listed: "\<forall>(i, n) \<in> set evm_opcode_names. n \<in> {''STOP'', ''RETURN'', ''REVERT''} \<longrightarrow> i \<in> {0, 0xF3, 0xFD}"
    by (simp add: evm_opcode_names_def)
  assume "evm_opcode_name op \<in> {''STOP'', ''RETURN'', ''REVERT''}"
  thus ?thesis
    using listed by (auto simp: evm_opcode_name_def split: if_splits option.splits dest!: map_of_SomeD)
qed

lemma free_instrs: "op \<in> {0, 0xF3, 0xFD} \<Longrightarrow> decode_instr op \<in> {Stop, Return, Revert}"
  by (auto simp: decode_instr_def plain_instrs_def)

lemma halting: "i \<in> {Stop, Return, Revert} \<Longrightarrow> exec_instr i K H cx table s = (t, Inr f) \<Longrightarrow> f = Halt"
  by (auto simp: halt_with_def elim!: andthen_cases)

lemma decode_log: "0xA0 \<le> op \<Longrightarrow> op \<le> 0xA4 \<Longrightarrow> decode_instr op = Log (nat (op - 0xA0))"
  by (simp add: decode_instr_def)

lemma opcode_spends:
  fixes s t :: "'w vm"
  assumes run: "run_opcode K H cx code table s = (t, Inr go)"
  shows "ev_gas_used (fst s) + (if go then 1 else 0) \<le> ev_gas_used (fst t) \<and> ev_gas_limit (fst t) = ev_gas_limit (fst s) \<and>
    (ev_gas_used (fst s) \<le> ev_gas_limit (fst s) \<longrightarrow> ev_gas_used (fst t) \<le> ev_gas_limit (fst t))"
proof -
  define op where "op = uint (code ! ev_pc (fst s))"
  let ?log = "0xA0 \<le> op \<and> op \<le> 0xA4"
  let ?price = "if ?log then give () else consume_gas (op_gas (evm_opcode_name op)) :: ('w vm, unit) action"
  let ?trace = "on_evm (\<lambda>e. e\<lparr>ev_trace := ev_trace e @
     [\<lparr>tr_pc = ev_pc e, tr_op = evm_opcode_name op, tr_depth = length (ev_stack e)\<rparr>]\<rparr>) :: ('w vm, unit) action"
  have "andthen ?price (\<lambda>_. andthen ?trace (\<lambda>_. andthen (exec_instr (decode_instr op) K H cx table) advance)) s = (t, Inr go)"
  proof -
    have "\<not> length code \<le> ev_pc (fst s)" using run by (auto simp: run_opcode_def)
    thus ?thesis using run unfolding run_opcode_def op_def by (simp only: Let_def if_False)
  qed
  then obtain a b c f where
    a: "?price s = (a, Inr ())" and b: "?trace a = (b, Inr ())" and
    c: "exec_instr (decode_instr op) K H cx table b = (c, Inr f)" and t: "advance f c = (t, Inr go)"
    by (auto elim!: andthen_cases)
  have fin: "spends 0 (advance f)" by (cases f) (auto simp: advance_def intro!: gas_rules spends_on_evm)
  have tr: "spends 0 ?trace" by (rule spends_on_evm) simp_all
  have go: "go \<longleftrightarrow> f \<noteq> Halt" using t by (cases f) (auto simp: advance_def on_evm_def elim!: andthen_cases)
  note later = spendsD [OF tr b] spendsD [OF fin t]
  show ?thesis
  proof (cases ?log)
    case True
    hence big: "spends 375 (exec_instr (decode_instr op) K H cx table)"
      by (simp add: decode_log proceed_def spends_first [OF spends_log] gas_rules)
    thus ?thesis using later spendsD [OF big c] a True by auto
  next
    case False
    have price: "spends (op_gas (evm_opcode_name op)) ?price" using False by (simp only: if_False spends_gas)
    have "op_gas (evm_opcode_name op) \<ge> 1 \<or> f = Halt"
      using op_gas_bounds [of "evm_opcode_name op"] free_names free_instrs halting [OF _ c] by fastforce
    moreover have "0 \<le> op_gas (evm_opcode_name op)" using op_gas_bounds by blast
    ultimately show ?thesis using later spendsD [OF price a] spendsD [OF spends_instr c] go by auto
  qed
qed

section \<open>Runs end\<close>

text \<open>
  What the native runner promises: it keeps the limit, gives back gas to nobody, stays within the limit, and stops for
  one of the reasons it documents.
\<close>

definition meters_gas :: "'w evm_kernel \<Rightarrow> bool" where
  "meters_gas K \<longleftrightarrow>
     (\<forall>run H cx code table s t g. Some run \<in> {kn_pure K, kn_until_halt K} \<longrightarrow> run H cx code table s = (t, Inr g) \<longrightarrow>
        ev_gas_limit (fst t) = ev_gas_limit (fst s) \<and> ev_gas_used (fst s) \<le> sg_gas_used g \<and>
        (ev_gas_used (fst s) \<le> ev_gas_limit (fst s) \<longrightarrow> sg_gas_used g \<le> ev_gas_limit (fst s)) \<and> sg_reason g \<noteq> OtherStop)"

lemma handled:
  assumes "handle_segment g s = (t, Inr r)"
  shows "fst t = apply_segment g (fst s)" "r = sg_reason g" "r \<noteq> GasStop" "r \<noteq> ErrorStop x"
  using assms
  by (auto simp: handle_segment_def on_evm_def Let_def split: stop_reason.splits if_splits elim!: andthen_cases)

lemma kernel_runs:
  assumes "run_kernel k H cx code table s = (u, Inr r)"
  obtains run t g where "k = Some run" "run H cx code table s = (t, Inr g)" "handle_segment g t = (u, Inr r)"
proof (cases k)
  case (Some run)
  hence "andthen (run H cx code table) handle_segment s = (u, Inr r)" using assms by (simp add: run_kernel_def)
  then obtain t g where "run H cx code table s = (t, Inr g)" "handle_segment g t = (u, Inr r)" by (rule andthen_cases)
  thus ?thesis using that Some by blast
qed (use assms in \<open>simp add: run_kernel_def\<close>)

lemma kernel_spends:
  assumes "meters_gas K" "k \<in> {kn_pure K, kn_until_halt K}"
  shows "spends 0 (run_kernel k H cx code table)"
    "run_kernel k H cx code table s = (t, Inr r) \<Longrightarrow> r \<noteq> OtherStop"
proof -
  have run: "ev_gas_used (fst s) \<le> sg_gas_used g \<and> ev_gas_limit (fst t) = ev_gas_limit (fst s) \<and>
      (ev_gas_used (fst s) \<le> ev_gas_limit (fst s) \<longrightarrow> sg_gas_used g \<le> ev_gas_limit (fst s)) \<and> sg_reason g \<noteq> OtherStop"
    if "k = Some run" "run H cx code table s = (t, Inr g)" for run s t g
  proof -
    have "Some run \<in> {kn_pure K, kn_until_halt K}" using assms(2) that(1) by simp
    thus ?thesis using assms(1) that(2) unfolding meters_gas_def by blast
  qed
  have both: "ev_gas_used (fst s) \<le> ev_gas_used (fst u) \<and> ev_gas_limit (fst u) = ev_gas_limit (fst s) \<and>
      (ev_gas_used (fst s) \<le> ev_gas_limit (fst s) \<longrightarrow> ev_gas_used (fst u) \<le> ev_gas_limit (fst u)) \<and> r \<noteq> OtherStop"
    if r: "run_kernel k H cx code table s = (u, Inr r)" for s u r
  proof -
    obtain f t g where f: "k = Some f" "f H cx code table s = (t, Inr g)" and h: "handle_segment g t = (u, Inr r)"
      using r by (rule kernel_runs)
    show ?thesis using run [OF f] handled(1,2) [OF h] by (simp add: apply_segment_def)
  qed
  show "spends 0 (run_kernel k H cx code table)"
    unfolding spends_def
  proof (intro allI impI)
    fix s t x
    assume "run_kernel k H cx code table s = (t, Inr x)"
    from both [OF this] show "ev_gas_used (fst s) + 0 \<le> ev_gas_used (fst t) \<and> ev_gas_limit (fst t) = ev_gas_limit (fst s) \<and>
      (ev_gas_used (fst s) \<le> ev_gas_limit (fst s) \<longrightarrow> ev_gas_used (fst t) \<le> ev_gas_limit (fst t))" by auto
  qed
  show "run_kernel k H cx code table s = (t, Inr r) \<Longrightarrow> r \<noteq> OtherStop" using both by blast
qed

lemma turn_spends:
  assumes K: "meters_gas K" and turn: "evm_turn K H cx code table s = (t, Inr go)"
  shows "ev_gas_used (fst s) + (if go then 1 else 0) \<le> ev_gas_used (fst t) \<and> ev_gas_limit (fst t) = ev_gas_limit (fst s) \<and>
    (ev_gas_used (fst s) \<le> ev_gas_limit (fst s) \<longrightarrow> ev_gas_used (fst t) \<le> ev_gas_limit (fst t))"
proof -
  obtain a q where a: "try_pure_segment K H cx code table s = (a, Inr q)"
    and rest: "(case q of None \<Rightarrow> run_opcode K H cx code table
       | Some reason \<Rightarrow>
           if reason \<in> {Halted, Returned, RevertStop} then give False
           else if reason = Handoff then andthen (fail_on_handoff K) (\<lambda>_. run_opcode K H cx code table)
           else if reason = HostStop then run_opcode K H cx code table
           else give True) a = (t, Inr go)"
    using turn unfolding evm_turn_def by (rule andthen_cases)
  have k: "spends 0 (run_kernel (kn_pure K) H cx code table)" "\<And>s t. run_kernel (kn_pure K) H cx code table s = (t, Inr OtherStop) \<Longrightarrow> False"
    using kernel_spends [OF K, of "kn_pure K"] by blast+
  have pure: "spends 0 (try_pure_segment K H cx code table)"
    unfolding try_pure_segment_def by (intro spends_guard spends_seq k(1) spends_elementary)
  note before = spendsD [OF pure a]
  have "run_opcode K H cx code table a = (t, Inr go) \<or> (a = t \<and> \<not> go)"
  proof (cases q)
    case None
    thus ?thesis using rest by simp
  next
    case (Some reason)
    hence "run_kernel (kn_pure K) H cx code table s = (a, Inr reason)"
      using a by (auto simp: try_pure_segment_def split: if_splits elim!: andthen_cases)
    moreover from this obtain f u g where "handle_segment g u = (a, Inr reason)" by (rule kernel_runs)
    ultimately have "reason \<noteq> OtherStop" "reason \<noteq> GasStop" "\<And>x. reason \<noteq> ErrorStop x" using k(2) handled by blast+
    thus ?thesis using rest Some
      by (cases reason) (auto simp: fail_on_handoff_def split: if_splits elim!: andthen_cases)
  qed
  thus ?thesis using before opcode_spends [of K H cx code table a t go] by auto
qed


lemma evm_loop_returns:
  assumes K: "meters_gas K" and "ev_gas_used (fst s) \<le> ev_gas_limit (fst s)"
  shows "\<exists>t r. evm_loop K H cx code table s = Some (t, r) \<and>
    (r = Inr () \<longrightarrow> ev_gas_used (fst s) \<le> ev_gas_used (fst t) \<and> ev_gas_used (fst t) \<le> ev_gas_limit (fst s))"
  using assms(2)
proof (induction "nat (ev_gas_limit (fst s) - ev_gas_used (fst s))" arbitrary: s rule: less_induct)
  case less
  show ?case
  proof (cases "ev_pc (fst s) < length code \<and> ev_running (fst s)")
    case True
    obtain t q where turn: "evm_turn K H cx code table s = (t, q)" by fastforce
    show ?thesis
    proof (cases q)
      case (Inl x)
      thus ?thesis using True turn by (simp add: evm_loop.simps [of K H cx code table s])
    next
      case (Inr go)
      note gas = turn_spends [OF K, of H cx code table s t go]
      show ?thesis
      proof (cases go)
        case go: True
        hence "ev_gas_used (fst s) < ev_gas_used (fst t)" "ev_gas_limit (fst t) = ev_gas_limit (fst s)"
          "ev_gas_used (fst t) \<le> ev_gas_limit (fst t)" using gas turn Inr less.prems by auto
        moreover from this have "nat (ev_gas_limit (fst t) - ev_gas_used (fst t)) < nat (ev_gas_limit (fst s) - ev_gas_used (fst s))"
          by auto
        ultimately obtain u r where "evm_loop K H cx code table t = Some (u, r)"
          "r = Inr () \<longrightarrow> ev_gas_used (fst t) \<le> ev_gas_used (fst u) \<and> ev_gas_used (fst u) \<le> ev_gas_limit (fst t)"
          using less.hyps by blast
        thus ?thesis using True turn Inr go gas by (auto simp: evm_loop.simps [of K H cx code table s])
      next
        case False
        thus ?thesis using True turn Inr gas less.prems by (auto simp: evm_loop.simps [of K H cx code table s])
      qed
    qed
  next
    case False
    hence "evm_loop K H cx code table s = Some (s, ret ())"
      unfolding evm_loop.simps [of K H cx code table s] by (simp only: if_False)
    thus ?thesis using less.prems by blast
  qed
qed

lemma fresh_gas [simp]:
  "ev_gas_used (fresh_run code e) = 0" "ev_gas_limit (fresh_run code e) = ev_gas_limit e"
  "ev_storage (fresh_run code e) = ev_storage e"
  by (simp_all add: fresh_run_def)

lemma outcome_fields [simp]:
  "eo_gas_used (outcome_of e) = ev_gas_used e" "eo_storage (outcome_of e) = ev_storage e"
  "eo_reverted (outcome_of e) = ev_reverted e"
  by (simp_all add: outcome_of_def)

lemma impl_returns:
  assumes K: "meters_gas K" and limit: "0 \<le> ev_gas_limit (fst s)"
  shows "\<exists>t r. execute_bytecode_impl K H cx code s = Some (t, r) \<and>
    (\<forall>out. r = Inr out \<longrightarrow> 0 \<le> eo_gas_used out \<and> eo_gas_used out \<le> ev_gas_limit (fst s))"
proof -
  let ?table = "evm_build_jumpdest_table code"
  let ?s = "(fresh_run code (fst s), snd s)"
  obtain t q where k: "run_kernel (kn_until_halt K) H cx code ?table ?s = (t, q)" by fastforce
  show ?thesis
  proof (cases q)
    case (Inl x)
    thus ?thesis using k by (simp add: execute_bytecode_impl_def Let_def)
  next
    case (Inr reason)
    have "spends 0 (run_kernel (kn_until_halt K) H cx code ?table)" using kernel_spends(1) [OF K] by blast
    note gas = spendsD [OF this k [unfolded Inr]]
    have in_t: "0 \<le> ev_gas_used (fst t)" "ev_gas_limit (fst t) = ev_gas_limit (fst s)" "ev_gas_used (fst t) \<le> ev_gas_limit (fst t)"
      using gas limit by simp_all
    show ?thesis
    proof (cases "reason = Handoff \<and> \<not> kn_required K")
      case True
      obtain u r where "evm_loop K H cx code ?table t = Some (u, r)"
        "r = Inr () \<longrightarrow> ev_gas_used (fst t) \<le> ev_gas_used (fst u) \<and> ev_gas_used (fst u) \<le> ev_gas_limit (fst t)"
        using evm_loop_returns [OF K in_t(3)] by blast
      thus ?thesis using k Inr True in_t
        by (auto simp: execute_bytecode_impl_def Let_def fail_on_handoff_def split: sum.splits)
    next
      case False
      thus ?thesis using k Inr in_t by (auto simp: execute_bytecode_impl_def Let_def fail_on_handoff_def)
    qed
  qed
qed

text \<open>A library whose runners give every opcode back to Python, and an interpreter at its start.\<close>

definition giving_back :: "stop_reason \<Rightarrow> 'w evm_host \<Rightarrow> evm_context \<Rightarrow> bytes \<Rightarrow> bytes \<Rightarrow> ('w vm, segment) action" where
  "giving_back r H cx code table =
     of_evm (\<lambda>e. \<lparr>sg_pc = ev_pc e, sg_gas_used = ev_gas_used e, sg_running = ev_running e, sg_reverted = ev_reverted e,
       sg_return = ev_return e, sg_stack = ev_stack e, sg_memory = ev_memory e, sg_logs = [], sg_reason = r\<rparr>)"

definition python_kernel :: "(bytes \<Rightarrow> bytes) \<Rightarrow> (string \<Rightarrow> string) \<Rightarrow> nat \<Rightarrow> 'w evm_kernel" where
  "python_kernel keccak sha limit =
     \<lparr>kn_word = \<lambda>_. None, kn_until_halt = Some (giving_back Handoff), kn_pure = Some (giving_back HostStop),
      kn_keccak = keccak, kn_sha256_hex = sha, kn_required = False, kn_memory = limit, kn_bits = int limit\<rparr>"

definition new_evm :: "int \<Rightarrow> storage \<Rightarrow> evm" where
  "new_evm limit d =
     \<lparr>ev_stack = [], ev_memory = [], ev_storage = d, ev_live = None, ev_transient = [], ev_gas_used = 0, ev_gas_limit = limit,
      ev_pc = 0, ev_running = True, ev_reverted = False, ev_return = [], ev_trace = [], ev_logs = [], ev_code = []\<rparr>"

definition no_host :: "'w evm_host" where
  "no_host = \<lparr>ho_balance = None, ho_code_size = None, ho_code_copy = None, ho_block_hash = None, ho_log = None,
     ho_selfdestruct = None, ho_call = None, ho_create = None\<rparr>"

definition plain_context :: evm_context where
  "plain_context = \<lparr>cx_caller = [], cx_origin = [], cx_address = [], cx_calldata = [], cx_value = 0, cx_block_number = 0,
     cx_timestamp = 0, cx_chain_id = 77777, cx_base_fee = 0, cx_gas_price = 0, cx_difficulty = 0, cx_coinbase = [],
     cx_blob_base_fee = 0, cx_blob_hashes = []\<rparr>"

lemma python_kernel_meters: "meters_gas (python_kernel keccak sha limit)"
  by (auto simp: meters_gas_def python_kernel_def giving_back_def of_evm_def)

lemma run_example:
  "map_option (\<lambda>(t, r). case r of Inl x \<Rightarrow> None | Inr out \<Rightarrow> Some (eo_stack out, eo_gas_used out))
     (execute_bytecode (python_kernel (\<lambda>_. []) (\<lambda>_. []) 1024) no_host plain_context [0x60, 0x05, 0x60, 0x07, 0x01, 0x00]
        (new_evm 1000000 [], ())) = Some (Some ([12], 9))"
  by code_simp

text \<open>
  C5. Execution returns: whatever the code, the context, the host and the storage are, and with a native runner that
  meters gas or hands over to Python, \<open>execute_bytecode\<close> ends with an outcome or an exception, and the gas of an outcome
  lies between 0 and the limit. A jump back costs gas as everything does that does not end the run.
\<close>

theorem execution_returns:
  assumes "meters_gas K" "0 \<le> ev_gas_limit (fst s)"
  shows "\<exists>t r. execute_bytecode K H cx code s = Some (t, r) \<and>
    (case r of Inl x \<Rightarrow> True | Inr out \<Rightarrow> 0 \<le> eo_gas_used out \<and> eo_gas_used out \<le> ev_gas_limit (fst s))"
proof -
  obtain t r where "execute_bytecode_impl K H cx code s = Some (t, r)"
    "\<forall>out. r = Inr out \<longrightarrow> 0 \<le> eo_gas_used out \<and> eo_gas_used out \<le> ev_gas_limit (fst s)"
    using impl_returns [OF assms] by blast
  thus ?thesis by (cases r) (auto simp: execute_bytecode_def Let_def)
qed

theorem execution_returns_witness:
  "\<exists>t out. execute_bytecode (python_kernel (\<lambda>_. []) (\<lambda>_. []) 1024) no_host plain_context [0x60, 0x05, 0x60, 0x07, 0x01, 0x00]
       (new_evm 1000000 [], ()) = Some (t, Inr out) \<and> eo_stack out = [12] \<and> 0 \<le> eo_gas_used out \<and> eo_gas_used out \<le> 1000000"
proof -
  let ?s = "(new_evm 1000000 [], ())"
  have limit: "ev_gas_limit (fst ?s) = 1000000" by (simp add: new_evm_def)
  have "0 \<le> ev_gas_limit (fst ?s)" by (simp add: new_evm_def)
  then obtain t r where run: "execute_bytecode (python_kernel (\<lambda>_. []) (\<lambda>_. []) 1024) no_host plain_context
      [0x60, 0x05, 0x60, 0x07, 0x01, 0x00] ?s = Some (t, r)"
    and gas: "case r of Inl x \<Rightarrow> True | Inr out \<Rightarrow> 0 \<le> eo_gas_used out \<and> eo_gas_used out \<le> ev_gas_limit (fst ?s)"
    using execution_returns [OF python_kernel_meters, of ?s "\<lambda>_. []" "\<lambda>_. []" 1024 no_host plain_context "[0x60, 0x05, 0x60, 0x07, 0x01, 0x00]"]
    by blast
  note gas = gas [unfolded limit]
  show ?thesis using run gas run_example by (cases r; cases t) auto
qed

section \<open>Failure\<close>

text \<open>A run that reverts or raises leaves the machine's storage as it was; what its host operations did stays.\<close>

lemma failed_run_keeps_storage:
  assumes "execute_bytecode K H cx code s = Some (t, r)" "case r of Inl x \<Rightarrow> True | Inr out \<Rightarrow> eo_reverted out"
  shows "ev_storage (fst t) = ev_storage (fst s)"
proof -
  obtain u q where impl: "execute_bytecode_impl K H cx code s = Some (u, q)"
    using assms(1) by (auto simp: execute_bytecode_def Let_def)
  show ?thesis using assms impl by (cases q) (auto simp: execute_bytecode_def restore_storage_def Let_def split: if_splits)
qed

section \<open>Memory\<close>

lemma store_word_turn:
  assumes "ev_stack e = off # v # rest" "unat off + 32 \<le> kn_memory K"
  shows "\<exists>t. exec_instr Mstore K H cx table (e, w) = ((t, w), Inr Next) \<and> ev_gas_used t = ev_gas_used e \<and>
     length (ev_memory t) = max (length (ev_memory e)) (unat off + 32)"
proof -
  have pops: "evm_pops 2 (e, w) = ((e\<lparr>ev_stack := rest\<rparr>, w), Inr [off, v])"
    using assms(1) by (simp add: numeral_2_eq_2 andthen_def evm_pop_def)
  show ?thesis
  proof (cases "unat off + 32 \<le> length (ev_memory e)")
    case True
    thus ?thesis by (simp add: andthen_def pops mem_extend_def proceed_def on_evm_def Let_def max_def)
  next
    case False
    thus ?thesis using assms(2) by (simp add: andthen_def pops mem_extend_def proceed_def on_evm_def Let_def max_def)
  qed
qed

text \<open>
  Memory is free: \<open>MSTORE\<close> costs 3 gas at every offset, also where it makes the memory grow by any number of
  bytes. Only what the process can hold bounds the memory of a contract, not its gas.
\<close>

theorem memory_is_free:
  assumes "ev_pc e < length code" "code ! ev_pc e = 0x52" "ev_stack e = off # v # rest" "unat off + 32 \<le> kn_memory K"
    "ev_gas_used e + 3 \<le> ev_gas_limit e"
  shows "\<exists>t. run_opcode K H cx code table (e, w) = ((t, w), Inr True) \<and> ev_gas_used t = ev_gas_used e + 3 \<and>
    length (ev_memory t) = max (length (ev_memory e)) (unat off + 32)"
proof -
  have name: "evm_opcode_name 0x52 = ''MSTORE''" "op_gas ''MSTORE'' = 3"
    by (simp_all add: evm_opcode_name_def evm_opcode_names_def op_gas_def gas_costs_def)
  have dec: "decode_instr 0x52 = Mstore" by (simp add: decode_instr_def plain_instrs_def)
  let ?e = "e\<lparr>ev_gas_used := ev_gas_used e + 3,
     ev_trace := ev_trace e @ [\<lparr>tr_pc = ev_pc e, tr_op = ''MSTORE'', tr_depth = length (ev_stack e)\<rparr>]\<rparr>"
  obtain t where t: "exec_instr Mstore K H cx table (?e, w) = ((t, w), Inr Next)" "ev_gas_used t = ev_gas_used e + 3"
      "length (ev_memory t) = max (length (ev_memory e)) (unat off + 32)"
    using store_word_turn [of ?e off v rest K H cx table w] assms(3,4) by auto
  have "run_opcode K H cx code table (e, w) = ((t\<lparr>ev_pc := ev_pc t + 1\<rparr>, w), Inr True)"
    using assms(1,2,5) t(1)
    by (simp add: run_opcode_def Let_def name dec andthen_def consume_gas_def on_evm_def advance_def del: exec_instr.simps)
  thus ?thesis using t(2,3) by (intro exI [of _ "t\<lparr>ev_pc := ev_pc t + 1\<rparr>"]) simp
qed

theorem memory_is_free_witness:
  "\<exists>t. run_opcode ((python_kernel (\<lambda>_. []) (\<lambda>_. []) (2 ^ 31)) :: unit evm_kernel) no_host plain_context [0x52] [0]
       ((new_evm 10 [])\<lparr>ev_stack := [2 ^ 30, 1]\<rparr>, ()) = ((t, ()), Inr True) \<and>
     ev_gas_used t = 3 \<and> length (ev_memory t) = 2 ^ 30 + 32"
proof -
  have "unat (2 ^ 30 :: u256) = 2 ^ 30" by simp
  thus ?thesis
    using memory_is_free [of "(new_evm 10 [])\<lparr>ev_stack := [2 ^ 30, 1]\<rparr>" "[0x52]" "2 ^ 30" 1 "[]"
        "(python_kernel (\<lambda>_. []) (\<lambda>_. []) (2 ^ 31)) :: unit evm_kernel" no_host plain_context "[0]" "()"]
    by (simp add: new_evm_def python_kernel_def max_def)
qed

section \<open>Delegated calls\<close>

text \<open>
  A library that changes nothing: it gives back the storage it was run on. \<open>lost_write\<close> runs it twice, with a write
  between the two calls.
\<close>

definition unchanging :: "call_request \<Rightarrow> (storage \<times> 'w, call_answer) action" where
  "unchanging q s =
     (s, ret \<lparr>ca_success = True, ca_reverted = False, ca_return = [], ca_storage = Some (fst s), ca_gas = 0\<rparr>)"

definition empty_frame :: "u256 \<Rightarrow> call_frame" where
  "empty_frame to = \<lparr>cf_gas = 0, cf_to = to, cf_value = 0, cf_args_offset = 0, cf_args_size = 0, cf_ret_offset = 0, cf_ret_size = 0\<rparr>"

lemma unchanging_call:
  assumes "ho_call H = Some unchanging"
  shows "execute_call K H Delegatecall (empty_frame to) (e, w) =
    ((bind_storage (case ev_live e of None \<Rightarrow> ev_storage e | Some d \<Rightarrow> d) (e\<lparr>ev_return := []\<rparr>), w), Inr 1)"
proof -
  have gas: "charge_subcall_gas (min 0 (plan_nested_call_gas a b c k)) = give ()" for a b c k
    by (simp add: charge_subcall_gas_def)
  show ?thesis
    by (cases "ev_live e")
      (simp_all add: execute_call_def assms empty_frame_def andthen_def mem_extend_def of_evm_def call_host_def unchanging_def
        gas on_evm_def write_return_def evm_memory_copy_def bind_storage_def Let_def)
qed

text \<open>
  A write between two delegated calls is lost: after the first call the machine's storage is a new dictionary, but
  the context still publishes the old one, on which the second call runs, so that its answer replaces what was written
  in between. The library called may be one that writes nothing.
\<close>

theorem lost_write:
  assumes "ho_call H = Some unchanging" "ev_live e = None" "ev_storage e = d"
  shows "\<exists>t. andthen (execute_call K H Delegatecall (empty_frame to)) (\<lambda>_.
      andthen (on_evm (on_storage (dict_set k v))) (\<lambda>_. execute_call K H Delegatecall (empty_frame to))) (e, w) = ((t, w), Inr 1) \<and>
    ev_storage t = d"
  by (simp add: andthen_def unchanging_call [OF assms(1)] assms(2,3) on_evm_def on_storage_def bind_storage_def)

theorem lost_write_witness:
  "\<exists>t. andthen (execute_call (python_kernel (\<lambda>_. []) (\<lambda>_. []) 1024) (no_host\<lparr>ho_call := Some unchanging\<rparr>) Delegatecall (empty_frame 9)) (\<lambda>_.
      andthen (on_evm (on_storage (dict_set 1 7))) (\<lambda>_.
        execute_call (python_kernel (\<lambda>_. []) (\<lambda>_. []) 1024) (no_host\<lparr>ho_call := Some unchanging\<rparr>) Delegatecall (empty_frame 9)))
      (new_evm 1000 [(1, 5)], ()) = ((t, ()), Inr 1) \<and> ev_storage t = [(1, 5)]"
  by (rule lost_write) (simp_all add: new_evm_def)

section \<open>The bridge\<close>

lemma pops_take:
  "n \<le> length (ev_stack (fst s)) \<Longrightarrow>
   evm_pops n s = (((fst s)\<lparr>ev_stack := drop n (ev_stack (fst s))\<rparr>, snd s), Inr (take n (ev_stack (fst s))))"
proof (induction n arbitrary: s)
  case (Suc n)
  then obtain x xs where st: "ev_stack (fst s) = x # xs" by (cases "ev_stack (fst s)") auto
  hence "evm_pop s = (((fst s)\<lparr>ev_stack := xs\<rparr>, snd s), Inr x)" by (simp add: evm_pop_def)
  moreover have "evm_pops n ((fst s)\<lparr>ev_stack := xs\<rparr>, snd s) =
      (((fst s)\<lparr>ev_stack := drop n xs\<rparr>, snd s), Inr (take n xs))"
    using Suc.IH [of "((fst s)\<lparr>ev_stack := xs\<rparr>, snd s)"] Suc.prems st by simp
  ultimately show ?case by (simp add: andthen_def st)
qed simp

lemma bridge_call_run:
  assumes "call_width kind \<le> length (ev_stack (fst s))"
  shows "bridge_call K H kind s = run_call K H kind s"
  using assms pops_take [OF assms]
  by (simp add: bridge_call_def run_call_def decode_call_frame_def of_evm_def andthen_def)

lemma host_instrs:
  "decode_instr 0xF0 = Create" "decode_instr 0xF5 = Create2" "decode_instr 0xF1 = Calling Call" "decode_instr 0xF2 = Calling Callcode"
  "decode_instr 0xF4 = Calling Delegatecall" "decode_instr 0xFA = Calling Staticcall" "decode_instr 0xFF = Selfdestruct"
  "decode_instr 0xA0 = Log 0" "decode_instr 0xA1 = Log 1" "decode_instr 0xA2 = Log 2" "decode_instr 0xA3 = Log 3" "decode_instr 0xA4 = Log 4"
  by (simp_all add: decode_instr_def plain_instrs_def)

definition forget :: "'w vm \<times> (store_fault, 'a) result \<Rightarrow> 'w vm \<times> (store_fault, unit) result" where
  "forget r = (fst r, case snd r of Inl x \<Rightarrow> raise x | Inr _ \<Rightarrow> ret ())"

lemma forget_andthen: "forget (andthen m (\<lambda>_. give c) s) = m s"
  by (cases "snd (m s)"; cases "m s") (auto simp: forget_def andthen_def)

lemma forget_proceed: "forget (proceed m s) = m s"
  unfolding proceed_def by (rule forget_andthen)



end
