(* ===== verification/Store_Rules.thy ===== *)
theory Store_Rules
  imports Ledger
begin

text \<open>
  What the clients of a store share: \<open>keeps P m\<close>, an action never leaves the states with \<open>P\<close>, with one rule for every way to
  compose actions, and what the committing operations of the SQL database do to balances given as floats.
\<close>

named_theorems keep_rules "actions that keep a property of the world"

section \<open>Keeping a property\<close>

definition keeps :: "('s \<Rightarrow> bool) \<Rightarrow> ('s, 'a) action \<Rightarrow> bool" where
  "keeps P m \<longleftrightarrow> (\<forall>s t r. m s = (t, r) \<longrightarrow> P s \<longrightarrow> P t)"

lemma keepsD: "keeps P m \<Longrightarrow> m s = (t, r) \<Longrightarrow> P s \<Longrightarrow> P t"
  by (auto simp: keeps_def)

lemma keepsI: "(\<And>s t r. m s = (t, r) \<Longrightarrow> P s \<Longrightarrow> P t) \<Longrightarrow> keeps P m"
  by (auto simp: keeps_def)

lemma keeps_andthen [keep_rules]:
  assumes "keeps P m" "\<And>x. keeps P (f x)"
  shows "keeps P (andthen m f)"
proof (rule keepsI)
  fix s u r
  assume a: "andthen m f s = (u, r)" and P: "P s"
  obtain t q where m: "m s = (t, q)" by fastforce
  have t: "P t" using keepsD [OF assms(1) m P] .
  show "P u"
  proof (cases q)
    case (Inl e)
    thus ?thesis using a m t by (simp add: andthen_def)
  next
    case (Inr x)
    hence "f x t = (u, r)" using a m by (simp add: andthen_def)
    thus ?thesis using keepsD [OF assms(2)] t by blast
  qed
qed

lemma keeps_same [keep_rules]: "keeps P (give x)" "keeps P (throw e)" "keeps P (\<lambda>s. (s, r))" "keeps P (attempt q)"
  by (auto simp: keeps_def)

lemma keeps_if [keep_rules]: "keeps P m \<Longrightarrow> keeps P n \<Longrightarrow> keeps P (if b then m else n)"
  by simp

lemma keeps_if_state [keep_rules]: "keeps P m \<Longrightarrow> keeps P n \<Longrightarrow> keeps P (\<lambda>s. if b s then m s else n s)"
  by (auto simp: keeps_def)

lemma keeps_option [keep_rules]:
  "keeps P m \<Longrightarrow> (\<And>x. keeps P (f x)) \<Longrightarrow> keeps P (case q of None \<Rightarrow> m | Some x \<Rightarrow> f x)"
  by (cases q) simp_all

lemma keeps_each [keep_rules]: "(\<And>x. keeps P (f x)) \<Longrightarrow> keeps P (each f xs)"
  by (induction xs) (auto intro!: keep_rules)

section \<open>Balances\<close>

abbreviation coins :: "int \<Rightarrow> pyfloat" where
  "coins n \<equiv> f64 (from_satoshi n)"

lemma coins_minus: "- coins n = coins (- n)"
  by (simp add: from_satoshi_def decimal.R_uminus [symmetric] double.R_uminus [symmetric])

lemma sql_save_sat:
  assumes "\<bar>n\<bar> < 10 ^ 15"
  shows "\<exists>d. sql_save no_native a (str_number (coins n)) k cd st c = (d, Inr ()) \<and>
    (\<forall>b. current_satoshi no_native b d = (if b = a then Inr (max 0 n) else current_satoshi no_native b c))"
  by (simp add: sql_save_def committing_def dual_write_balance_def satoshi_through_float [OF assms] from_satoshi_float_def
      put_row_def sql_write_def sql_commit_def current_satoshi_def sql_row_def update_conv)

lemma sql_update_sat:
  assumes "\<bar>n\<bar> < 10 ^ 15" "current_satoshi no_native a c = Inr m"
  shows "\<exists>d. sql_update_balance no_native a (str_number (coins n)) c = (d, Inr ()) \<and>
    (\<forall>b. current_satoshi no_native b d = (if b = a then Inr (max 0 (m + n)) else current_satoshi no_native b c))"
proof -
  have delta: "apply_delta_satoshi no_native k (str_number (coins n)) = Inr (max 0 (k + n))" for k
    using satoshi_through_float [OF assms(1)] by (simp add: apply_delta_satoshi_def str_number_def)
  show ?thesis
    using assms(2)
    by (cases "map_of (st_accounts (sc_live c)) a")
      (auto simp: sql_update_balance_def committing_def sql_apply_balance_delta_def delta put_balance_def from_satoshi_float_def
        sql_write_def sql_commit_def current_satoshi_def sql_row_def update_conv)
qed

end
