(* ===== verification/Evm_Adapter_Props.thy ===== *)
theory Evm_Adapter_Props
  imports Evm_Adapter Evm_Run Store_Rules
begin

text \<open>
  What the adapter owes the node: a static call changes nothing, and a call that fails changes nothing but by
  self-destruction. Both follow from one predicate on actions, \<open>keeps\<close>, that is closed under sequencing, holds of every
  opcode when it holds of the host operations, and is carried through the levels of nested frames by induction.
\<close>

section \<open>The machine\<close>

abbreviation of_world :: "('w \<Rightarrow> bool) \<Rightarrow> 'x \<times> 'w \<Rightarrow> bool" where
  "of_world P s \<equiv> P (snd s)"

lemma keeps_elementary [keep_rules]:
  "keeps (of_world P) (on_evm f)" "keeps (of_world P) (of_evm g)" "keeps (of_world P) (evm_push v)" "keeps (of_world P) evm_pop"
  "keeps (of_world P) (consume_gas c)" "keeps (of_world P) (mem_extend limit off n)"
  "keeps (of_world P) (charge_subcall_gas c)" "keeps (of_world P) (jump_to table w)" "keeps (of_world P) (stack_dup n)"
  "keeps (of_world P) (stack_swap n)"
  by (auto simp: keeps_def on_evm_def of_evm_def evm_push_def evm_pop_def consume_gas_def mem_extend_def charge_subcall_gas_def
      jump_to_def stack_dup_def stack_swap_def andthen_def Let_def split: list.splits if_splits)

lemma keeps_in_world [keep_rules]: "keeps P m \<Longrightarrow> keeps (of_world P) (in_world m)"
  by (force simp: keeps_def in_world_def split: prod.splits)

lemma keeps_pops [keep_rules]: "keeps (of_world P) (evm_pops n)"
  by (induction n) (auto intro!: keep_rules)

lemma keeps_call_host [keep_rules]: "keeps (of_world P) (f q) \<Longrightarrow> keeps (of_world P) (call_host f q)"
  by (force simp: keeps_def call_host_def Let_def split: option.splits prod.splits)

definition host_keeps :: "('w \<Rightarrow> bool) \<Rightarrow> 'w evm_host \<Rightarrow> bool" where
  "host_keeps P H \<longleftrightarrow>
     (\<forall>f a. ho_balance H = Some f \<longrightarrow> keeps P (f a)) \<and> (\<forall>f a. ho_code_size H = Some f \<longrightarrow> keeps P (f a)) \<and>
     (\<forall>f a i n. ho_code_copy H = Some f \<longrightarrow> keeps P (f a i n)) \<and> (\<forall>f n. ho_block_hash H = Some f \<longrightarrow> keeps P (f n)) \<and>
     (\<forall>f n ts bs. ho_log H = Some f \<longrightarrow> keeps P (f n ts bs)) \<and> (\<forall>f a. ho_selfdestruct H = Some f \<longrightarrow> keeps P (f a)) \<and>
     (\<forall>f q. ho_call H = Some f \<longrightarrow> keeps (of_world P) (f q)) \<and> (\<forall>f c v i. ho_create H = Some f \<longrightarrow> keeps P (f c v i))"

lemma keeps_ask:
  "(\<And>f a. q = Some f \<Longrightarrow> keeps P (f a)) \<Longrightarrow> keeps (of_world P) (ask_world (map_option (\<lambda>f. f a) q))"
  by (cases q) (auto simp: ask_world_def intro!: keep_rules)

lemma keeps_ask_nobody [keep_rules]: "keeps (of_world P) (ask_world None)"
  by (auto simp: ask_world_def intro!: keep_rules)

lemma keeps_proceed [keep_rules]: "keeps P m \<Longrightarrow> keeps P (proceed m)"
  unfolding proceed_def by (intro keep_rules)

lemma keeps_halt [keep_rules]: "keeps (of_world P) (halt_with f)"
  unfolding halt_with_def by (intro keep_rules)

lemma keeps_helpers [keep_rules]:
  "keeps (of_world P) (evm_word K f args)" "keeps (of_world P) (put_slot K k v change)" "keeps (of_world P) (copy_into K d src off n)"
  "keeps (of_world P) (take_slice K off n)" "keeps (of_world P) (write_return limit off n data)"
  unfolding evm_word_def put_slot_def copy_into_def take_slice_def write_return_def
  by (auto intro!: keep_rules split: option.splits)

lemma keeps_execute_call:
  assumes "host_keeps P H"
  shows "keeps (of_world P) (execute_call K H kind f)"
proof (cases "ho_call H")
  case (Some call)
  hence "keeps (of_world P) (call q)" for q using assms by (simp add: host_keeps_def)
  thus ?thesis unfolding execute_call_def Some option.case by (intro keep_rules) auto
qed (auto simp: execute_call_def intro!: keep_rules)

lemma keeps_execute_create:
  assumes "host_keeps P H"
  shows "keeps (of_world P) (execute_create K H v off n salt)"
proof (cases "ho_create H")
  case (Some create)
  hence "keeps P (create c v i)" for c v i using assms by (simp add: host_keeps_def)
  thus ?thesis unfolding execute_create_def Some option.case by (intro keep_rules) auto
qed (auto simp: execute_create_def intro!: keep_rules)

lemma keeps_instr:
  assumes H: "host_keeps P H"
  shows "keeps (of_world P) (exec_instr i K H cx table)"
proof -
  note c = keeps_execute_call [OF H] keeps_execute_create [OF H]
  have ask: "keeps (of_world P) (ask_world (map_option (\<lambda>f. f a) (ho_balance H)))"
      "keeps (of_world P) (ask_world (map_option (\<lambda>f. f a) (ho_code_size H)))"
      "keeps (of_world P) (ask_world (map_option (\<lambda>f. f n) (ho_block_hash H)))" for a n
    using H by (auto simp: host_keeps_def intro!: keeps_ask)
  have none: "keeps (of_world P) (ask_world (if b then None else map_option (\<lambda>f. f a) (ho_balance H)))" for b a
    using ask(1) by (auto simp: ask_world_def intro!: keep_rules)
  have copy: "keeps (of_world P) (case ho_code_copy H of None \<Rightarrow> give [] | Some f \<Rightarrow> in_world (f a i n))" for a i n
    using H by (auto simp: host_keeps_def intro!: keep_rules split: option.splits)
  have hash: "keeps (of_world P) (code_hash_of K H a)" for a
    using H unfolding code_hash_of_def by (auto simp: host_keeps_def intro!: keep_rules split: option.splits)
  have emit: "keeps (of_world P) (case ho_log H of None \<Rightarrow> give () | Some f \<Rightarrow> in_world (f n ts bs))" for n ts bs
    using H by (auto simp: host_keeps_def intro!: keep_rules split: option.splits)
  have destroy: "keeps (of_world P) (case ho_selfdestruct H of None \<Rightarrow> give () | Some f \<Rightarrow> in_world (f a))" for a
    using H by (auto simp: host_keeps_def intro!: keep_rules split: option.splits)
  have runs: "keeps (of_world P) (run_log K H n)" "keeps (of_world P) (run_create K H b)" "keeps (of_world P) (run_call K H kind)"
      "keeps (of_world P) (run_selfdestruct H)" for n b kind
    unfolding run_log_def run_create_def run_call_def run_selfdestruct_def by (intro keep_rules c emit destroy)+
  show ?thesis by (cases i) (auto intro!: keep_rules ask none copy hash runs)
qed


text \<open>The native runner acts on the world through the host only.\<close>

definition runs_through_host :: "'w evm_kernel \<Rightarrow> bool" where
  "runs_through_host K \<longleftrightarrow>
     (\<forall>run H cx code table P. Some run \<in> {kn_pure K, kn_until_halt K} \<longrightarrow> host_keeps P H \<longrightarrow>
        keeps (of_world P) (run H cx code table))"

lemma keeps_kernel:
  assumes "runs_through_host K" "k \<in> {kn_pure K, kn_until_halt K}" "host_keeps P H"
  shows "keeps (of_world P) (run_kernel k H cx code table)"
proof (cases k)
  case (Some run)
  hence "keeps (of_world P) (run H cx code table)" using assms unfolding runs_through_host_def by blast
  moreover have "keeps (of_world P) (handle_segment g)" for g
    unfolding handle_segment_def by (intro keep_rules) (auto simp: Let_def intro!: keep_rules split: stop_reason.splits)
  ultimately show ?thesis unfolding run_kernel_def Some option.case by (intro keep_rules)
qed (auto simp: run_kernel_def intro!: keep_rules)

lemma keeps_opcode:
  assumes "host_keeps P H"
  shows "keeps (of_world P) (run_opcode K H cx code table)"
proof (rule keepsI)
  fix s t r
  assume run: "run_opcode K H cx code table s = (t, r)" and P: "P (snd s)"
  have adv: "keeps (of_world P) (advance f)" for f by (cases f) (auto simp: advance_def intro!: keep_rules)
  define op where "op = uint (code ! ev_pc (fst s))"
  let ?m = "andthen (if 0xA0 \<le> op \<and> op \<le> 0xA4 then give () else consume_gas (op_gas (evm_opcode_name op))) (\<lambda>_.
        andthen (on_evm (\<lambda>e. e\<lparr>ev_trace := ev_trace e @
                  [\<lparr>tr_pc = ev_pc e, tr_op = evm_opcode_name op, tr_depth = length (ev_stack e)\<rparr>]\<rparr>)) (\<lambda>_.
        andthen (exec_instr (decode_instr op) K H cx table) advance))"
  have keep: "keeps (of_world P) ?m" by (intro keep_rules keeps_instr [OF assms] adv)
  show "P (snd t)"
  proof (cases "length code \<le> ev_pc (fst s)")
    case True
    thus ?thesis using run P by (simp add: run_opcode_def)
  next
    case False
    hence "?m s = (t, r)" using run unfolding run_opcode_def op_def by (simp only: Let_def if_False)
    thus ?thesis using keepsD [OF keep] P by blast
  qed
qed

lemma keeps_turn:
  assumes "runs_through_host K" "host_keeps P H"
  shows "keeps (of_world P) (evm_turn K H cx code table)"
proof -
  have "keeps (of_world P) (try_pure_segment K H cx code table)"
    unfolding try_pure_segment_def by (intro keep_rules keeps_kernel [OF assms(1)] assms(2)) simp
  moreover have "keeps (of_world P) (fail_on_handoff K)" by (auto simp: fail_on_handoff_def intro!: keep_rules)
  ultimately show ?thesis
    unfolding evm_turn_def by (intro keep_rules keeps_opcode [OF assms(2)])
qed

lemma loop_keeps:
  fixes K :: "'w evm_kernel"
  assumes "runs_through_host K" "host_keeps P H" and "evm_loop K H cx code table s = Some (t, r)" "P (snd s)"
  shows "P (snd t)"
proof -
  let ?ok = "\<lambda>K H (s :: 'w vm) (y :: 'w vm \<times> (store_fault, unit) result). runs_through_host K \<longrightarrow> host_keeps P H \<longrightarrow> P (snd s) \<longrightarrow> P (snd (fst y))"
  have "?ok K H s (t, r)"
  proof (rule evm_loop.raw_induct [where P = "\<lambda>K H cx code table s y. ?ok K H s y", OF _ assms(3)], intro impI)
    fix loop :: "'w evm_kernel \<Rightarrow> 'w evm_host \<Rightarrow> evm_context \<Rightarrow> bytes \<Rightarrow> bytes \<Rightarrow> 'w vm \<Rightarrow> ('w vm \<times> (store_fault, unit) result) option"
      and K :: "'w evm_kernel" and H cx code table s y
    assume IH: "\<And>K H cx code table s y. loop K H cx code table s = Some y \<Longrightarrow> ?ok K H s y"
    assume body: "(if ev_pc (fst s) < length code \<and> ev_running (fst s)
        then case evm_turn K H cx code table s of
             (t, Inl x) \<Rightarrow> Some (t, raise x)
           | (t, Inr go) \<Rightarrow> if go then loop K H cx code table t else Some (t, ret ())
        else Some (s, ret ())) = Some y"
    assume K: "runs_through_host K" and H: "host_keeps P H" and P: "P (snd s)"
    obtain u q where u: "evm_turn K H cx code table s = (u, q)" by fastforce
    have Pu: "P (snd u)" using keepsD [OF keeps_turn [OF K H] u P] .
    show "P (snd (fst y))"
    proof (cases "ev_pc (fst s) < length code \<and> ev_running (fst s)")
      case False
      hence "(s, ret ()) = y" using body by (simp only: if_False option.inject)
      thus ?thesis using P by auto
    next
      case True
      hence step: "(case q of Inl x \<Rightarrow> Some (u, raise x) | Inr go \<Rightarrow> if go then loop K H cx code table u else Some (u, ret ())) = Some y"
        using body unfolding u by (simp only: if_True prod.case simp_thms)
      show ?thesis
      proof (cases q)
        case (Inl x)
        thus ?thesis using step Pu by auto
      next
        case (Inr go)
        show ?thesis
        proof (cases go)
          case True
          hence "loop K H cx code table u = Some y" using step Inr by simp
          thus ?thesis using IH K H Pu by blast
        next
          case False
          hence "Some (u, ret ()) = Some y" using step Inr by simp
          thus ?thesis using Pu by auto
        qed
      qed
    qed
  qed
  thus ?thesis using assms by simp
qed

lemma execute_keeps:
  assumes K: "runs_through_host K" and H: "host_keeps P H" and run: "execute_bytecode K H cx code s = Some (t, r)" and P: "P (snd s)"
  shows "P (snd t)"
proof -
  let ?table = "evm_build_jumpdest_table code"
  have impl: "P (snd u)" if u: "execute_bytecode_impl K H cx code s = Some (u, q)" for u q
  proof -
    obtain v p where v: "run_kernel (kn_until_halt K) H cx code ?table (fresh_run code (fst s), snd s) = (v, p)" by fastforce
    have Pv: "P (snd v)" using keepsD [OF keeps_kernel [OF K _ H] v] P by simp
    consider "u = v" | r where "evm_loop K H cx code ?table v = Some (u, r)"
      using u v
      by (cases p) (auto simp: execute_bytecode_impl_def Let_def fail_on_handoff_def split: if_splits)
    thus ?thesis using Pv loop_keeps [OF K H _ Pv] by cases blast+
  qed
  obtain u q where u: "execute_bytecode_impl K H cx code s = Some (u, q)"
    using run by (auto simp: execute_bytecode_def Let_def)
  have "snd t = snd u" using run u by (cases q) (auto simp: execute_bytecode_def Let_def restore_storage_def split: if_splits)
  thus ?thesis using impl [OF u] by simp
qed


section \<open>Frames\<close>

definition frame_through_host :: "'s nested_frame option \<Rightarrow> bool" where
  "frame_through_host frame \<longleftrightarrow>
     (\<forall>run H cx code gas P. frame = Some run \<longrightarrow> host_keeps P H \<longrightarrow> keeps (of_world P) (run H cx code gas))"

definition native_through_host :: "'s evm_env \<Rightarrow> bool" where
  "native_through_host E \<longleftrightarrow>
     runs_through_host (ee_kernel E) \<and> frame_through_host (ee_pure_frame E) \<and> frame_through_host (ee_host_frame E)"

lemma keeps_try_frame:
  assumes "frame_through_host frame" "host_keeps P H"
  shows "keeps (of_world P) (try_frame frame b H cx code gas)"
proof (cases frame)
  case (Some run)
  hence k: "keeps (of_world P) (run H cx code gas)" using assms unfolding frame_through_host_def by blast
  show ?thesis
  proof (rule keepsI)
    fix s t r
    assume t: "try_frame frame b H cx code gas s = (t, r)" and P: "P (snd s)"
    obtain u q where u: "run H cx code gas s = (u, q)" by fastforce
    have "u = t" using t u Some by (cases q) (simp_all add: try_frame_def)
    thus "P (snd t)" using keepsD [OF k u P] by simp
  qed
qed (auto simp: keeps_def try_frame_def)

lemma keeps_python_frame:
  assumes "runs_through_host (ee_kernel E)" "host_keeps P H"
  shows "keeps (of_world P) (python_frame E H cx code gas)"
proof (rule keepsI)
  fix s t r
  assume t: "python_frame E H cx code gas s = (t, r)" and P: "P (snd s)"
  show "P (snd t)"
  proof (cases "execute_bytecode (ee_kernel E) H cx code (new_interpreter gas (fst s) (Some (fst s)), snd s)")
    case (Some y)
    obtain e w q where y: "y = ((e, w), q)" by (cases y) auto
    have "P w" using execute_keeps [OF assms Some [unfolded y]] P by simp
    thus ?thesis using t Some y by (auto simp: python_frame_def)
  qed (use t P in \<open>auto simp: python_frame_def\<close>)
qed

lemma keeps_nested:
  assumes "native_through_host E" "host_keeps P H"
  shows "keeps (of_world P) (run_nested E H cx code gas)"
  using assms unfolding run_nested_def native_through_host_def
  by (auto intro!: keep_rules keeps_try_frame keeps_python_frame)

lemma keeps_in_db [keep_rules]: "keeps P m \<Longrightarrow> keeps (of_world P) (in_db m)"
  by (force simp: keeps_def in_db_def split: prod.splits)

lemma keeps_published [keep_rules]: "keeps (of_world P) m \<Longrightarrow> keeps (of_world P) (with_published d m)"
  by (force simp: keeps_def with_published_def split: prod.splits)

lemma keeps_db_read [keep_rules]: "keeps P (db_read f)"
  by (auto simp: keeps_def db_read_def)

lemma keeps_reads [keep_rules]:
  "keeps P (get_row E a)" "keeps P (code_bytes E a)" "keeps P (wei_balance E a)" "keeps P (block_hash_word E h)"
  "keeps P (make_context E caller contract data v)"
  unfolding get_row_def code_bytes_def wei_balance_def make_context_def
  by (auto intro!: keep_rules) (auto simp: keeps_def block_hash_word_def Let_def split: if_splits option.splits)

text \<open>
  What a level of frames keeps when self-destruction and the write-back of effects keep it, or when it may do neither
  because it is read-only.
\<close>

definition effects_keep :: "('s adapter \<Rightarrow> bool) \<Rightarrow> 's evm_env \<Rightarrow> bool" where
  "effects_keep P E \<longleftrightarrow>
     (\<forall>c b. keeps P (selfdestruct_contract E c b)) \<and> (\<forall>ops. keeps P (apply_nested_writeback E ops))"

lemma keeps_finish_call:
  "ro \<or> effects_keep P E \<Longrightarrow> keeps P (finish_call E kind ro caller target v r)"
  unfolding finish_call_def effects_keep_def Let_def
  by (auto simp: read_only_plan intro!: keep_rules)

lemma keeps_base:
  assumes "ro \<or> effects_keep P E"
  shows "host_keeps P (base_host E c ro)"
  using assms by (auto simp: host_keeps_def base_host_def effects_keep_def intro!: keep_rules)

lemma keeps_call_hook:
  assumes E: "native_through_host E" and ro: "ro \<or> effects_keep P E"
    and sub: "\<And>cx ro. ro \<or> effects_keep P E \<Longrightarrow> host_keeps P (sub cx ro)"
  shows "keeps (of_world P) (contract_call_hook E sub cx ro q)"
proof -
  have nested: "keeps (of_world P) (run_nested E (sub c (ef_read_only (plan_nested_call_effects k ro v True))) c code g)" for c k v code g
  proof -
    have "ef_read_only (plan_nested_call_effects k ro v True) \<or> effects_keep P E"
      using ro by (auto simp: plan_nested_call_effects_def Let_def)
    thus ?thesis by (intro keeps_nested [OF E] sub)
  qed
  show ?thesis
    unfolding contract_call_hook_def Let_def
    by (intro keep_rules nested keeps_finish_call [OF ro])
qed

lemma keeps_run_evm:
  assumes E: "native_through_host E" and H: "\<And>cx. host_keeps P (sub cx ro)"
  shows "keeps P (run_evm E sub code d limit caller contract data v ro)"
  unfolding run_evm_def
proof (intro keep_rules keepsI)
  fix cx w t r
  assume run: "(case execute_bytecode (ee_kernel E) (sub cx ro) cx code (new_interpreter limit d None, w) of
       None \<Rightarrow> (w, raise (Raised ''diverges'')) | Some ((e, t), r) \<Rightarrow> (t, r)) = (t, r)" and P: "P w"
  show "P t"
  proof (cases "execute_bytecode (ee_kernel E) (sub cx ro) cx code (new_interpreter limit d None, w)")
    case (Some y)
    obtain e u q where y: "y = ((e, u), q)" by (cases y) auto
    have K: "runs_through_host (ee_kernel E)" using E by (simp add: native_through_host_def)
    have "P u" using execute_keeps [OF K H Some [unfolded y]] P by simp
    thus ?thesis using run Some y by simp
  qed (use run P in simp)
qed

lemma keeps_create_hook:
  assumes E: "native_through_host E" and e: "effects_keep P E"
    and sub: "\<And>cx ro. ro \<or> effects_keep P E \<Longrightarrow> host_keeps P (sub cx ro)"
  shows "keeps P (contract_create_hook E sub cx code v salt)"
  unfolding contract_create_hook_def Let_def
proof (intro keep_rules keepsI)
  fix address w t r
  let ?dep = "if cx_address cx = [] then cx_caller cx else cx_address cx"
  assume run: "(case run_evm E sub code [] (ee_gas_limit E) ?dep address [] v False w of
        (t, Inl x) \<Rightarrow> (t, ret (failed_create 0))
      | (t, Inr out) \<Rightarrow>
          if eo_reverted out then (t, ret (failed_create (eo_gas_used out)))
          else andthen (apply_nested_writeback E (plan_create_writeback (ee_write E) ?dep address v True
                 (to_hex (if eo_return out = [] then code else eo_return out)) (eo_storage out))) (\<lambda>_.
                give \<lparr>cr_success = True, cr_reverted = False, cr_address = address, cr_gas = eo_gas_used out\<rparr>) t) = (t, r)"
    and P: "P w"
  obtain u q where u: "run_evm E sub code [] (ee_gas_limit E) ?dep address [] v False w = (u, q)" by fastforce
  have "keeps P (run_evm E sub code [] (ee_gas_limit E) ?dep address [] v False)" by (rule keeps_run_evm [OF E]) (use sub e in blast)
  hence Pu: "P u" using u P by (rule keepsD)
  have wb: "keeps P (andthen (apply_nested_writeback E ops) (\<lambda>_. give x))" for ops x
    using e by (auto simp: effects_keep_def intro!: keep_rules)
  show "P t"
  proof (cases q)
    case (Inl x)
    thus ?thesis using run u Pu by simp
  next
    case (Inr out)
    thus ?thesis using run u Pu keepsD [OF wb] by (auto split: if_splits)
  qed
qed

lemma frame_keeps:
  assumes E: "native_through_host E"
  shows "ro \<or> effects_keep P E \<Longrightarrow> host_keeps P (frame_host n E cx ro)"
proof (induction n arbitrary: cx ro)
  case 0
  thus ?case using keeps_base [OF 0] by (auto simp: host_keeps_def intro!: keep_rules)
next
  case (Suc n)
  have "keeps (of_world P) (contract_call_hook E (frame_host n E) cx ro q)" for q
    by (rule keeps_call_hook [OF E Suc.prems Suc.IH])
  moreover have "keeps P (if ro then give (failed_create 0) else contract_create_hook E (frame_host n E) cx code v salt)" for code v salt
    using Suc.prems keeps_create_hook [OF E _ Suc.IH, where cx = cx] by (auto intro!: keep_rules)
  ultimately show ?case using keeps_base [OF Suc.prems] by (simp add: host_keeps_def)
qed


section \<open>Static calls\<close>

lemma stored_keeps: "(\<And>w n. P w \<Longrightarrow> P (w\<lparr>aw_bad_storage := n\<rparr>)) \<Longrightarrow> keeps P (stored_contract E a err)"
  unfolding stored_contract_def
  by (intro keep_rules) (auto simp: keeps_def split: option.splits if_splits)

text \<open>
  C6. A static call changes nothing: whatever the contract calls, creates, writes or destroys, in the interpreter or in the
  native frames, the database and the journal are afterwards what they were, for every depth of nesting, also when the
  call raises.
\<close>

theorem static_call_is_pure:
  assumes "native_through_host E" "static_call depth E contract hex gas w = (t, r)"
  shows "aw_db t = aw_db w \<and> aw_journal t = aw_journal w \<and> aw_journaling t = aw_journaling w"
proof -
  let ?P = "\<lambda>x. aw_db x = aw_db w \<and> aw_journal x = aw_journal w \<and> aw_journaling x = aw_journaling w"
  have run: "keeps ?P (run_evm E (frame_host depth E) code d limit [] contract data 0 True)" for code d limit data
    by (intro keeps_run_evm [OF assms(1)] frame_keeps [OF assms(1)]) simp
  have guarded: "keeps ?P (\<lambda>w. case run_evm E (frame_host depth E) code d limit [] contract data 0 True w of
       (t, Inl x) \<Rightarrow> (t, ret (adapter_error ''exception'' 0))
     | (t, Inr out) \<Rightarrow> (t, ret \<lparr>ar_success = (\<not> eo_reverted out), ar_value = returned_value out, ar_gas = eo_gas_used out, ar_error = []\<rparr>))"
    for code d limit data
  proof (rule keepsI)
    fix s t and r :: "(store_fault, adapter_result) result"
    obtain u q where u: "run_evm E (frame_host depth E) code d limit [] contract data 0 True s = (u, q)" by fastforce
    assume "(case run_evm E (frame_host depth E) code d limit [] contract data 0 True s of
        (t, Inl x) \<Rightarrow> (t, ret (adapter_error ''exception'' 0))
      | (t, Inr out) \<Rightarrow> (t, ret \<lparr>ar_success = (\<not> eo_reverted out), ar_value = returned_value out, ar_gas = eo_gas_used out, ar_error = []\<rparr>)) = (t, r)"
    hence "t = u" using u by (cases q) simp_all
    moreover assume "?P s"
    ultimately show "?P t" using keepsD [OF run u] by simp
  qed
  have "keeps ?P (static_call depth E contract hex gas)"
    unfolding static_call_def Let_def
    by (intro keep_rules stored_keeps) (auto intro!: keep_rules guarded split: sum.splits option.splits)
  thus ?thesis using assms(2) by (rule keepsD) simp
qed

section \<open>Calls that fail\<close>

lemma destroy_flag: "keeps (\<lambda>w. aw_journaling w = b) (selfdestruct_contract E c d)"
proof -
  have do: "keeps (\<lambda>w. aw_journaling w = b) (db_do m)" for m :: "('a, unit) action"
    by (auto simp: keeps_def db_do_def split: prod.splits)
  show ?thesis unfolding selfdestruct_contract_def Let_def by (intro keep_rules do)
qed

lemma journaled_run_fails:
  assumes run: "keeps (\<lambda>w. aw_journaling w \<and> P (aw_db w)) run" and P: "P (aw_db w)"
    and out: "journaled_run run err w = (t, Inr (Inl e))"
  shows "P (aw_db t) \<and> aw_journal t = [] \<and> \<not> aw_journaling t"
proof -
  let ?w = "w\<lparr>aw_journal := [], aw_journaling := True\<rparr>"
  obtain u q where u: "run ?w = (u, q)" by fastforce
  have "P (aw_db u)" using keepsD [OF run u] P by simp
  thus ?thesis using out u
    by (cases q) (auto simp: journaled_run_def begin_journal_def discard_journal_def on_adapter_def andthen_def split: if_splits)
qed

text \<open>
  C9. A call that fails leaves the database alone, but for self-destruction: what a nested call or a creation wrote waits in
  the journal, which the failure discards. A property of the database that self-destruction keeps is kept by every call
  that is not successful, whatever it executed before it failed.
\<close>

theorem failed_call_keeps_database:
  assumes E: "native_through_host E" and "\<And>c b w. P (aw_db w) \<Longrightarrow> P (aw_db (fst (selfdestruct_contract E c b w)))"
    and call: "call_contract depth E caller contract hex v gas w = (t, Inr res)" and "\<not> ar_success res" and P: "P (aw_db w)"
  shows "P (aw_db t)"
proof -
  let ?Q = "\<lambda>w. aw_journaling w \<and> P (aw_db w)"
  have "keeps ?Q (selfdestruct_contract E c b)" for c b
  proof (rule keepsI)
    fix s u r
    assume u: "selfdestruct_contract E c b s = (u, r)" and s: "?Q s"
    have "aw_journaling u = True" using keepsD [OF destroy_flag u, of True] s by simp
    thus "?Q u" using assms(2) [of s c b] u s by simp
  qed
  moreover have "keeps ?Q (apply_nested_writeback E ops)" for ops
    by (auto simp: keeps_def apply_nested_writeback_def)
  ultimately have eff: "effects_keep ?Q E" by (simp add: effects_keep_def)
  have run: "keeps ?Q (run_evm E (frame_host depth E) code d limit caller contract data x False)" for code d limit data x
    by (intro keeps_run_evm [OF E] frame_keeps [OF E]) (use eff in simp)
  obtain s found where found: "stored_contract E contract ''invalid_stored_bytecode'' w = (s, Inr found)"
    using call by (auto simp: call_contract_def Let_def elim!: andthen_cases)
  have Ps: "P (aw_db s)"
    using keepsD [OF stored_keeps [where P = "\<lambda>w. P (aw_db w)"] found] P by simp
  show ?thesis
  proof (cases found)
    case (Inl err)
    thus ?thesis using call found Ps by (simp add: call_contract_def Let_def andthen_def)
  next
    case (Inr cd)
    obtain code d where cd: "cd = (code, d)" by (cases cd)
    show ?thesis
    proof (cases "calldata_bytes hex")
      case None
      thus ?thesis using call found Ps Inr cd by (simp add: call_contract_def Let_def andthen_def)
    next
      case (Some data)
      define limit where "limit = (if gas = 0 then ee_gas_limit E else gas)"
      let ?run = "journaled_run (run_evm E (frame_host depth E) code d limit caller contract data (wei_value v) False) ''execution_reverted''"
      obtain u q where u: "?run s = (u, q)" by fastforce
      have "\<exists>e. q = Inr (Inl e)" and "t = u"
        using call found Inr cd Some u assms(4) unfolding limit_def
        by (auto simp: call_contract_def Let_def andthen_def split: sum.splits prod.splits)
      thus ?thesis using journaled_run_fails [OF run Ps] u by blast
    qed
  qed
qed


section \<open>An environment without the native frames\<close>

definition python_env :: "sql_conn evm_env" where
  "python_env =
     \<lparr>ee_db = sql_evm_db no_native 0 (\<lambda>_. None) None, ee_kernel = python_kernel (\<lambda>_. []) (\<lambda>_. []) 1024,
      ee_pure_frame = None, ee_host_frame = None, ee_read = (\<lambda>_. Some []), ee_write = (\<lambda>_. ''{}''), ee_gas_limit = 100000,
      ee_chain_id = 77777, ee_now = 0, ee_eip1014 = False, ee_need_salt = False, ee_address = (\<lambda>_ _ _. ''0xc1''),
      ee_address2 = (\<lambda>_ _ _. ''0xc2''), ee_address_eip1014 = (\<lambda>_ _ _. ret ''0xc3'')\<rparr>"

definition one_contract :: "string \<Rightarrow> sql_conn adapter" where
  "one_contract code =
     (let t = \<lparr>st_accounts = [(''0xa'', \<lparr>sa_satoshi = Some 5, sa_balance = 0, sa_nonce = 0, sa_code = Some code, sa_storage = None\<rparr>)],
               st_pools = None\<rparr>
      in \<lparr>aw_db = \<lparr>sc_live = t, sc_saved = t, sc_open = False\<rparr>, aw_journal = [], aw_journaling = False, aw_bad_storage = 0\<rparr>)"

lemma python_kernel_through_host: "runs_through_host (python_kernel keccak sha limit)"
  by (auto simp: runs_through_host_def python_kernel_def giving_back_def intro!: keep_rules)

lemma python_env_through_host: "native_through_host python_env"
  by (simp add: native_through_host_def python_env_def python_kernel_through_host frame_through_host_def)

lemma static_example:
  "(case static_call 3 python_env ''0xa'' [] 0 (one_contract ''6007'') of (t, Inr r) \<Rightarrow> ar_success r \<and> ar_value r = IntValue 7 | _ \<Rightarrow> False)"
  by code_simp

lemma failing_example:
  "(case call_contract 3 python_env ''0xb'' ''0xa'' [] 0 0 (one_contract ''6001600155FE'') of (t, Inr r) \<Rightarrow> \<not> ar_success r | _ \<Rightarrow> False)"
  by code_simp


theorem static_call_is_pure_witness:
  "\<exists>t r. static_call 3 python_env ''0xa'' [] 0 (one_contract ''6007'') = (t, Inr r) \<and> ar_success r \<and> ar_value r = IntValue 7 \<and>
     aw_db t = aw_db (one_contract ''6007'')"
proof -
  obtain t r where run: "static_call 3 python_env ''0xa'' [] 0 (one_contract ''6007'') = (t, Inr r)"
    and r: "ar_success r" "ar_value r = IntValue 7"
    using static_example by (auto split: prod.splits sum.splits)
  from static_call_is_pure [OF python_env_through_host run] r run show ?thesis by blast
qed

lemma destroy_keeps_pools:
  assumes "ee_db E = sql_evm_db N tip hashes time"
  shows "keeps (\<lambda>w. st_pools (sc_live (aw_db w)) = p) (selfdestruct_contract E c b)"
proof -
  have do: "keeps (\<lambda>w. st_pools (sc_live (aw_db w)) = p) (db_do m)" if "keeps (\<lambda>d. st_pools (sc_live d) = p) m" for m
    using that by (auto simp: keeps_def db_do_def split: prod.splits)
  have upd: "keeps (\<lambda>d. st_pools (sc_live d) = p) (sql_update_balance N a x)" for a x
    by (auto simp: keeps_def sql_update_balance_def committing_def sql_apply_balance_delta_def put_balance_def sql_write_def
        sql_commit_def split: sum.splits)
  have save: "keeps (\<lambda>d. st_pools (sc_live d) = p) (sql_save N a x n cd st)" for a x n cd st
    by (auto simp: keeps_def sql_save_def committing_def put_row_def sql_write_def sql_commit_def split: sum.splits prod.splits)
  show ?thesis
    unfolding selfdestruct_contract_def Let_def assms sql_evm_db_def
    by (intro keep_rules do) (simp_all add: upd save)
qed

theorem failed_call_keeps_database_witness:
  "\<exists>t r. call_contract 3 python_env ''0xb'' ''0xa'' [] 0 0 (one_contract ''6001600155FE'') = (t, Inr r) \<and> \<not> ar_success r \<and>
     st_pools (sc_live (aw_db t)) = None"
proof -
  obtain t r where run: "call_contract 3 python_env ''0xb'' ''0xa'' [] 0 0 (one_contract ''6001600155FE'') = (t, Inr r)" "\<not> ar_success r"
    using failing_example by (auto split: prod.splits sum.splits)
  have db: "ee_db python_env = sql_evm_db no_native 0 (\<lambda>_. None) None" by (simp add: python_env_def)
  have keep: "st_pools (sc_live (aw_db (fst (selfdestruct_contract python_env c b w)))) = None"
    if "st_pools (sc_live (aw_db w)) = None" for c b w
    using destroy_keeps_pools [OF db, of None c b] that by (auto simp: keeps_def) (metis prod.exhaust_sel)
  have "st_pools (sc_live (aw_db t)) = None"
    by (rule failed_call_keeps_database [where P = "\<lambda>d. st_pools (sc_live d) = None", OF python_env_through_host keep run])
      (simp_all add: one_contract_def Let_def)
  thus ?thesis using run by blast
qed

section \<open>Deployment with a value\<close>

text \<open>A constructor that stops at once, under a kernel that gives every opcode back.\<close>

lemma stop_runs:
  assumes "0 \<le> limit"
  shows "\<exists>e. execute_bytecode (python_kernel keccak sha m) H cx [0x00] (new_interpreter limit d None, w) =
    Some ((e, w), Inr (outcome_of e)) \<and> ev_reverted e = False \<and> ev_storage e = d \<and> ev_logs e = []"
proof -
  have name: "evm_opcode_name 0 = ''STOP''" "op_gas ''STOP'' = 0" "decode_instr 0 = Stop"
    by (simp_all add: evm_opcode_name_def evm_opcode_names_def op_gas_def gas_costs_def decode_instr_def plain_instrs_def)
  show ?thesis
    using assms
    by (simp add: execute_bytecode_def execute_bytecode_impl_def Let_def run_kernel_def python_kernel_def giving_back_def of_evm_def
        andthen_def handle_segment_def on_evm_def apply_segment_def fresh_run_def new_interpreter_def fail_on_handoff_def
        evm_loop.simps evm_turn_def try_pure_segment_def host_opcodes_def run_opcode_def name consume_gas_def halt_with_def
        advance_def outcome_of_def)
qed




section \<open>Calls with the last gas\<close>

text \<open>
  A call made with no gas left is free and not bounded: the plan gives the callee 0, which the adapter reads as the
  whole \<open>evm_gas_limit\<close> of the node, and the caller is charged at most the 0 that was planned, whatever the callee used.
\<close>

theorem spent_caller_calls_free:
  assumes "ev_gas_limit e - ev_gas_used e \<le> 1" "cf_value f = 0"
    and "execute_call K (frame_host (Suc n) E cx ro) kind f (e, w) = ((t, w'), Inr x)"
  shows "ev_gas_used t = ev_gas_used e \<and>
    contract_call_hook E (frame_host n E) cx ro (q\<lparr>cq_gas := 0\<rparr>) =
      contract_call_hook E (frame_host n E) cx ro (q\<lparr>cq_gas := ee_gas_limit E\<rparr>)"
proof -
  let ?H = "frame_host (Suc n) E cx ro"
  let ?P = "\<lambda>s :: 'a adapter vm. ev_gas_used (fst s) = ev_gas_used e \<and> ev_gas_limit (fst s) = ev_gas_limit e"
  let ?call = "contract_call_hook E (frame_host n E) cx ro"
  have call: "ho_call ?H = Some ?call" by simp
  have on: "keeps ?P (on_evm h)" if "\<And>e. ev_gas_used (h e) = ev_gas_used e" "\<And>e. ev_gas_limit (h e) = ev_gas_limit e" for h
    using that by (simp add: keeps_def on_evm_def)
  have ext: "keeps ?P (mem_extend l off k)" for l off k
    by (auto simp: keeps_def mem_extend_def Let_def)
  have read: "keeps ?P (of_evm h)" for h :: "evm \<Rightarrow> 'b" by (simp add: keeps_def of_evm_def)
  have host: "keeps ?P (call_host ?call q)" for q
    by (auto simp: keeps_def call_host_def Let_def split: option.splits prod.splits)
  have free: "charge_subcall_gas (min g 0) = give ()" for g by (simp add: charge_subcall_gas_def)
  define rest where "rest data g =
      andthen (call_host ?call \<lparr>cq_to = evm_word_to_address (cf_to f), cq_data = data, cq_value = cf_value f, cq_gas = g, cq_kind = kind\<rparr>) (\<lambda>a.
      andthen (charge_subcall_gas (min (ca_gas a) g)) (\<lambda>_.
      andthen (on_evm (\<lambda>e. e\<lparr>ev_return := ca_return a\<rparr>)) (\<lambda>_.
      andthen (case ca_storage a of
                 Some d \<Rightarrow> if kind \<in> {Delegatecall, Callcode} then on_evm (bind_storage d) else give ()
               | None \<Rightarrow> give ()) (\<lambda>_.
      andthen (write_return (kn_memory K) (cf_ret_offset f) (cf_ret_size f) (ca_return a)) (\<lambda>_.
      give (if ca_success a \<and> \<not> ca_reverted a then 1 else 0 :: int))))))" for data g
  have keep: "keeps ?P (rest data 0)" for data
    unfolding rest_def free write_return_def by (intro keep_rules host on ext) (auto intro!: keep_rules on)
  have "andthen (mem_extend (kn_memory K) (cf_args_offset f) (cf_args_size f)) (\<lambda>_.
      andthen (of_evm (\<lambda>e. evm_memory_slice (ev_memory e) (cf_args_offset f) (cf_args_size f))) (\<lambda>data.
      andthen (of_evm (\<lambda>e. plan_nested_call_gas (max 0 (ev_gas_limit e - ev_gas_used e)) (uint (cf_gas f)) (cf_value f) kind)) (rest data)))
      (e, w) = ((t, w'), Inr x)"
    using assms(3) unfolding execute_call_def call option.case rest_def .
  then obtain u s1 data s2 g s3 where 1: "mem_extend (kn_memory K) (cf_args_offset f) (cf_args_size f) (e, w) = (s1, Inr u)"
    and 2: "of_evm (\<lambda>e. evm_memory_slice (ev_memory e) (cf_args_offset f) (cf_args_size f)) s1 = (s2, Inr data)"
    and 3: "of_evm (\<lambda>e. plan_nested_call_gas (max 0 (ev_gas_limit e - ev_gas_used e)) (uint (cf_gas f)) (cf_value f) kind) s2 = (s3, Inr g)"
    and 4: "rest data g s3 = ((t, w'), Inr x)"
    by (elim andthen_cases) blast
  have P2: "?P s2" using keepsD [OF ext 1] keepsD [OF read 2] by simp
  have P3: "?P s3" using keepsD [OF read 3] P2 by simp
  have "g = plan_nested_call_gas (max 0 (ev_gas_limit e - ev_gas_used e)) (uint (cf_gas f)) 0 kind"
    using 3 P2 assms(2) by (auto simp: of_evm_def)
  also have "\<dots> = 0"
  proof -
    have "max 0 (ev_gas_limit e - ev_gas_used e) \<in> {0, 1}" using assms(1) by auto
    thus ?thesis by (auto simp: plan_nested_call_gas_def Let_def)
  qed
  finally have "?P (t, w')" using keepsD [OF keep, of data s3] 4 P3 by simp
  moreover have "?call (q\<lparr>cq_gas := 0\<rparr>) = ?call (q\<lparr>cq_gas := ee_gas_limit E\<rparr>)"
    unfolding contract_call_hook_def Let_def by (simp cong: option.case_cong if_cong)
  ultimately show ?thesis by simp
qed

definition callee_world :: "string \<Rightarrow> sql_conn adapter" where
  "callee_world code =
     (let t = \<lparr>st_accounts = [(''0x000000000000000000000000000000000000000a'',
                 \<lparr>sa_satoshi = Some 0, sa_balance = 0, sa_nonce = 0, sa_code = Some code, sa_storage = None\<rparr>)], st_pools = None\<rparr>
      in \<lparr>aw_db = \<lparr>sc_live = t, sc_saved = t, sc_open = False\<rparr>, aw_journal = [], aw_journaling = True, aw_bad_storage = 0\<rparr>)"

lemma free_call_example:
  "(case execute_call (ee_kernel python_env) (frame_host 2 python_env plain_context False) Call (empty_frame 10)
      ((new_interpreter 700 [] None)\<lparr>ev_gas_used := 700\<rparr>, callee_world ''6001600055'') of
     ((t, w), Inr x) \<Rightarrow> x = 1 \<and> length (aw_journal w) = 1 | _ \<Rightarrow> False)"
  by code_simp

theorem spent_caller_calls_free_witness:
  "\<exists>t w. execute_call (ee_kernel python_env) (frame_host 2 python_env plain_context False) Call (empty_frame 10)
      ((new_interpreter 700 [] None)\<lparr>ev_gas_used := 700\<rparr>, callee_world ''6001600055'') = ((t, w), Inr 1) \<and>
     length (aw_journal w) = 1 \<and> ev_gas_used t = 700"
proof -
  let ?e = "(new_interpreter 700 [] None)\<lparr>ev_gas_used := 700\<rparr>"
  obtain t w where run: "execute_call (ee_kernel python_env) (frame_host 2 python_env plain_context False) Call (empty_frame 10)
      (?e, callee_world ''6001600055'') = ((t, w), Inr 1)" and j: "length (aw_journal w) = 1"
    using free_call_example by (auto split: prod.splits sum.splits)
  have "ev_gas_limit ?e - ev_gas_used ?e \<le> 1" "cf_value (empty_frame 10) = 0" by (simp_all add: new_interpreter_def empty_frame_def)
  from spent_caller_calls_free [OF this run [unfolded numeral_2_eq_2]] run j show ?thesis by auto
qed

end
