(* ===== verification/Mini_Vm.thy ===== *)
theory Mini_Vm
  imports Evm_Word
begin

text \<open>
  The second virtual machine: \<open>execution/vm.py\<close> runs a list of instructions on unbounded integers, and
  \<open>execution/contract_manager.py\<close> keeps the contracts that run on it. Every instruction but \<open>STOP\<close> costs gas, so that the
  loop is a function with a measure. The saving of a contract to the database is not modelled.
\<close>

section \<open>The machine\<close>

type_synonym vm_code = "(string \<times> int option) list"

record mini_vm =
  mv_stack :: "int list"
  mv_storage :: "(int, int) dict"
  mv_gas :: int
  mv_limit :: int
  mv_pc :: nat
  mv_running :: bool

datatype vm_fault = OutOfGas | NoArgument | EmptyStack | BadJump int | UnknownOpcode string

definition vm_costs :: "(string \<times> int) list" where
  "vm_costs =
     [(''PUSH'', 2), (''POP'', 2), (''ADD'', 3), (''SUB'', 3), (''MUL'', 5), (''DIV'', 5),
      (''STORE'', 20), (''SSTORE'', 20), (''MSTORE'', 20), (''LOAD'', 20), (''SLOAD'', 20), (''MLOAD'', 20), (''STOP'', 0),
      (''INC'', 2), (''DEC'', 2), (''EQ'', 3), (''LT'', 3), (''GT'', 3), (''JUMP'', 1), (''JUMPI'', 1)]"

definition vm_cost :: "string \<Rightarrow> int" where
  "vm_cost op = (case map_of vm_costs op of Some c \<Rightarrow> c | None \<Rightarrow> 1)"

definition vm_consume :: "string \<Rightarrow> mini_vm \<Rightarrow> (vm_fault, mini_vm) result" where
  "vm_consume op s =
     (if mv_limit s < mv_gas s + vm_cost op then raise OutOfGas else ret (s\<lparr>mv_gas := mv_gas s + vm_cost op\<rparr>))"

text \<open>Two operands, the second one on the top.\<close>

definition vm_binary :: "(int \<Rightarrow> int \<Rightarrow> int) \<Rightarrow> mini_vm \<Rightarrow> (vm_fault, mini_vm) result" where
  "vm_binary f s =
     (case mv_stack s of
        b # a # st \<Rightarrow> ret (s\<lparr>mv_stack := f a b # st\<rparr>)
      | _ \<Rightarrow> raise EmptyStack)"

definition vm_bump :: "int \<Rightarrow> mini_vm \<Rightarrow> (vm_fault, mini_vm) result" where
  "vm_bump k s = (case mv_stack s of [] \<Rightarrow> ret (s\<lparr>mv_stack := [k]\<rparr>) | a # st \<Rightarrow> ret (s\<lparr>mv_stack := (a + k) # st\<rparr>))"

definition vm_next :: "(vm_fault, mini_vm) result \<Rightarrow> (vm_fault, mini_vm) result" where
  "vm_next r = (case r of Inl e \<Rightarrow> raise e | Inr s \<Rightarrow> ret (s\<lparr>mv_pc := mv_pc s + 1\<rparr>))"

definition vm_jump :: "vm_code \<Rightarrow> int \<Rightarrow> mini_vm \<Rightarrow> (vm_fault, mini_vm) result" where
  "vm_jump code dest s = (if dest < 0 \<or> int (length code) \<le> dest then raise (BadJump dest) else ret (s\<lparr>mv_pc := nat dest\<rparr>))"

definition vm_instr :: "vm_code \<Rightarrow> string \<Rightarrow> int option \<Rightarrow> mini_vm \<Rightarrow> (vm_fault, mini_vm) result" where
  "vm_instr code op arg s =
     (if op = ''PUSH'' then (case arg of None \<Rightarrow> raise NoArgument | Some v \<Rightarrow> vm_next (ret (s\<lparr>mv_stack := v # mv_stack s\<rparr>)))
      else if op = ''POP'' then (case mv_stack s of [] \<Rightarrow> raise EmptyStack | a # st \<Rightarrow> vm_next (ret (s\<lparr>mv_stack := st\<rparr>)))
      else if op = ''ADD'' then vm_next (vm_binary (+) s)
      else if op = ''SUB'' then vm_next (vm_binary (-) s)
      else if op = ''MUL'' then vm_next (vm_binary (*) s)
      else if op = ''DIV'' then vm_next (vm_binary (\<lambda>a b. if b \<noteq> 0 then a div b else 0) s)
      else if op \<in> {''STORE'', ''SSTORE'', ''MSTORE''} then
        (case mv_stack s of
           v # k # st \<Rightarrow> vm_next (ret (s\<lparr>mv_stack := st, mv_storage := dict_set k v (mv_storage s)\<rparr>))
         | _ \<Rightarrow> raise EmptyStack)
      else if op \<in> {''LOAD'', ''SLOAD'', ''MLOAD''} then
        (case mv_stack s of [] \<Rightarrow> raise EmptyStack | k # st \<Rightarrow> vm_next (ret (s\<lparr>mv_stack := dict_get (mv_storage s) k 0 # st\<rparr>)))
      else if op = ''INC'' then vm_next (vm_bump 1 s)
      else if op = ''DEC'' then vm_next (vm_bump (- 1) s)
      else if op = ''EQ'' then vm_next (vm_binary (\<lambda>a b. py_flag (a = b)) s)
      else if op = ''LT'' then vm_next (vm_binary (\<lambda>a b. py_flag (a < b)) s)
      else if op = ''GT'' then vm_next (vm_binary (\<lambda>a b. py_flag (b < a)) s)
      else if op = ''JUMP'' then
        (case mv_stack s of [] \<Rightarrow> raise EmptyStack | d # st \<Rightarrow> vm_jump code d (s\<lparr>mv_stack := st\<rparr>))
      else if op = ''JUMPI'' then
        (case mv_stack s of
           d # c # st \<Rightarrow> if c \<noteq> 0 then vm_jump code d (s\<lparr>mv_stack := st\<rparr>) else vm_next (ret (s\<lparr>mv_stack := st\<rparr>))
         | _ \<Rightarrow> raise EmptyStack)
      else if op = ''STOP'' then ret (s\<lparr>mv_running := False\<rparr>)
      else raise (UnknownOpcode op))"

definition vm_turn :: "vm_code \<Rightarrow> mini_vm \<Rightarrow> (vm_fault, mini_vm) result" where
  "vm_turn code s =
     (case code ! mv_pc s of (op, arg) \<Rightarrow>
        (case vm_consume op s of Inl e \<Rightarrow> raise e | Inr t \<Rightarrow> vm_instr code op arg t))"

section \<open>Every run ends\<close>

lemma vm_cost_pos: "op \<noteq> ''STOP'' \<Longrightarrow> 1 \<le> vm_cost op"
proof (cases "map_of vm_costs op")
  case (Some c)
  assume "op \<noteq> ''STOP''"
  moreover have "\<forall>(op, c) \<in> set vm_costs. op \<noteq> ''STOP'' \<longrightarrow> 1 \<le> c" by (simp add: vm_costs_def)
  ultimately show ?thesis using map_of_SomeD [OF Some] Some by (auto simp: vm_cost_def)
qed (simp add: vm_cost_def)

lemma vm_cost_nonneg: "0 \<le> vm_cost op"
  using vm_cost_pos [of op] by (cases "op = ''STOP''") (simp_all add: vm_cost_def vm_costs_def)

text \<open>No instruction touches the counter of gas or the limit.\<close>

definition vm_metered :: "mini_vm \<Rightarrow> (vm_fault, mini_vm) result \<Rightarrow> bool" where
  "vm_metered s r = (case r of Inl e \<Rightarrow> True | Inr t \<Rightarrow> mv_gas t = mv_gas s \<and> mv_limit t = mv_limit s)"

lemma vm_metered_if: "vm_metered s a \<Longrightarrow> vm_metered s b \<Longrightarrow> vm_metered s (if c then a else b)"
  by simp

lemma vm_metered_option:
  "vm_metered s a \<Longrightarrow> (\<And>x. vm_metered s (f x)) \<Longrightarrow> vm_metered s (case x of None \<Rightarrow> a | Some y \<Rightarrow> f y)"
  by (cases x) simp_all

lemma vm_metered_list:
  "vm_metered s a \<Longrightarrow> (\<And>x xs. vm_metered s (f x xs)) \<Longrightarrow> vm_metered s (case l of [] \<Rightarrow> a | x # xs \<Rightarrow> f x xs)"
  by (cases l) simp_all

lemma vm_metered_raise: "vm_metered s (raise e)"
  by (simp add: vm_metered_def)

lemma vm_metered_ret: "mv_gas t = mv_gas s \<Longrightarrow> mv_limit t = mv_limit s \<Longrightarrow> vm_metered s (ret t)"
  by (simp add: vm_metered_def)

lemma vm_metered_next: "vm_metered s r \<Longrightarrow> vm_metered s (vm_next r)"
  by (simp add: vm_metered_def vm_next_def split: sum.splits)

lemmas vm_metered_intros = vm_metered_if vm_metered_option vm_metered_list vm_metered_raise vm_metered_ret vm_metered_next

lemma vm_metered_binary: "vm_metered s (vm_binary f s)"
  unfolding vm_binary_def by (intro vm_metered_intros) simp_all

lemma vm_metered_bump: "vm_metered s (vm_bump k s)"
  unfolding vm_bump_def by (intro vm_metered_intros) simp_all

lemma vm_metered_jump: "mv_gas t = mv_gas s \<Longrightarrow> mv_limit t = mv_limit s \<Longrightarrow> vm_metered s (vm_jump code d t)"
  unfolding vm_jump_def by (intro vm_metered_intros) simp_all

lemma vm_metered_instr: "vm_metered s (vm_instr code op arg s)"
  unfolding vm_instr_def
  by (intro vm_metered_intros vm_metered_binary vm_metered_bump vm_metered_jump; simp)

lemma vm_instr_gas:
  assumes "vm_instr code op arg s = Inr t"
  shows "mv_gas t = mv_gas s \<and> mv_limit t = mv_limit s \<and> (op = ''STOP'' \<longrightarrow> \<not> mv_running t)"
proof -
  have "mv_gas t = mv_gas s \<and> mv_limit t = mv_limit s"
    using vm_metered_instr [of s code op arg] assms by (simp add: vm_metered_def)
  moreover have "\<not> mv_running t" if "op = ''STOP''"
    using assms unfolding that vm_instr_def by auto
  ultimately show ?thesis by blast
qed

lemma vm_turn_gas:
  assumes "vm_turn code s = Inr t"
  shows "mv_limit t = mv_limit s \<and> mv_gas t \<le> mv_limit s \<and> mv_gas s \<le> mv_gas t \<and> (mv_running t \<longrightarrow> mv_gas s < mv_gas t)"
proof -
  obtain op arg where i: "code ! mv_pc s = (op, arg)" by fastforce
  have "vm_instr code op arg (s\<lparr>mv_gas := mv_gas s + vm_cost op\<rparr>) = Inr t" "mv_gas s + vm_cost op \<le> mv_limit s"
    using assms i by (auto simp: vm_turn_def vm_consume_def split: if_splits)
  thus ?thesis using vm_instr_gas [of code op arg] vm_cost_pos [of op] vm_cost_nonneg [of op] by fastforce
qed

function (sequential) vm_loop :: "vm_code \<Rightarrow> mini_vm \<Rightarrow> (vm_fault, mini_vm) result" where
  "vm_loop code s =
     (if mv_pc s < length code \<and> mv_running s
      then (case vm_turn code s of Inl e \<Rightarrow> raise e | Inr t \<Rightarrow> if mv_running t then vm_loop code t else ret t)
      else ret s)"
  by pat_completeness auto
termination
proof (relation "measure (\<lambda>(code, s). nat (mv_limit s - mv_gas s))", goal_cases)
  case (2 code s t)
  thus ?case using vm_turn_gas [of code s t] by auto
qed simp

declare vm_loop.simps [simp del]

record vm_result =
  vr_stack :: "int list"
  vr_storage :: "(int, int) dict"
  vr_gas :: int
  vr_success :: bool

definition vm_execute :: "vm_code \<Rightarrow> mini_vm \<Rightarrow> (vm_fault, mini_vm \<times> vm_result) result" where
  "vm_execute code s =
     (case vm_loop code (s\<lparr>mv_pc := 0, mv_gas := 0, mv_stack := [], mv_running := True\<rparr>) of
        Inl e \<Rightarrow> raise e
      | Inr t \<Rightarrow> ret (t, \<lparr>vr_stack = mv_stack t, vr_storage = mv_storage t, vr_gas = mv_gas t, vr_success = (mv_gas t \<le> mv_limit t)\<rparr>))"

definition vm_reset :: "mini_vm \<Rightarrow> mini_vm" where
  "vm_reset s = s\<lparr>mv_stack := [], mv_storage := [], mv_gas := 0, mv_pc := 0\<rparr>"

section \<open>The contract manager\<close>

record mini_contract =
  mc_code :: vm_code
  mc_storage :: "(int, int) dict"
  mc_deployed :: rat
  mc_calls :: int

record contract_manager =
  cm_contracts :: "(string, mini_contract) dict"
  cm_vm :: mini_vm

definition new_manager :: contract_manager where
  "new_manager = \<lparr>cm_contracts = [], cm_vm = \<lparr>mv_stack = [], mv_storage = [], mv_gas = 0, mv_limit = 10000, mv_pc = 0, mv_running = True\<rparr>\<rparr>"

definition cm_deploy :: "rat \<Rightarrow> vm_code \<Rightarrow> string \<Rightarrow> (int, int) dict option \<Rightarrow> contract_manager \<Rightarrow> contract_manager \<times> bool" where
  "cm_deploy now code a d m =
     (if map_of (cm_contracts m) a \<noteq> None then (m, False)
      else (m\<lparr>cm_contracts := dict_set a
              \<lparr>mc_code = code, mc_storage = (case d of None \<Rightarrow> [] | Some x \<Rightarrow> x), mc_deployed = now, mc_calls = 0\<rparr> (cm_contracts m)\<rparr>, True))"

text \<open>The arguments become instructions in front of the code.\<close>

definition with_arguments :: "int list \<Rightarrow> vm_code \<Rightarrow> vm_code" where
  "with_arguments args code = map (\<lambda>v. (''PUSH'', Some v)) args @ code @ [(''STOP'', None)]"

text \<open>An exception leaves the machine in a state the next \<open>reset\<close> wipes out; \<open>None\<close> is an unknown address.\<close>

definition cm_call :: "string \<Rightarrow> int list \<Rightarrow> contract_manager \<Rightarrow> contract_manager \<times> (vm_fault, vm_result option) result" where
  "cm_call a args m =
     (case map_of (cm_contracts m) a of
        None \<Rightarrow> (m, ret None)
      | Some c \<Rightarrow>
          (case vm_execute (with_arguments args (mc_code c)) ((vm_reset (cm_vm m))\<lparr>mv_storage := mc_storage c\<rparr>) of
             Inl e \<Rightarrow> (m, raise e)
           | Inr (vm, r) \<Rightarrow>
               (m\<lparr>cm_vm := vm, cm_contracts := dict_set a (c\<lparr>mc_storage := mv_storage vm, mc_calls := mc_calls c + 1\<rparr>) (cm_contracts m)\<rparr>,
                ret (Some r))))"

definition cm_get_storage :: "string \<Rightarrow> int \<Rightarrow> contract_manager \<Rightarrow> int" where
  "cm_get_storage a k m = (case map_of (cm_contracts m) a of None \<Rightarrow> 0 | Some c \<Rightarrow> dict_get (mc_storage c) k 0)"

definition cm_total_calls :: "contract_manager \<Rightarrow> int" where
  "cm_total_calls m = sum_list (map mc_calls (dict_values (cm_contracts m)))"

section \<open>What a run and a call promise\<close>

lemma vm_loop_stops: "\<not> (mv_pc s < length code \<and> mv_running s) \<Longrightarrow> vm_loop code s = ret s"
  by (simp only: vm_loop.simps [of code s] if_False)

lemma vm_loop_goes:
  "mv_pc s < length code \<and> mv_running s \<Longrightarrow>
   vm_loop code s = (case vm_turn code s of Inl e \<Rightarrow> raise e | Inr t \<Rightarrow> if mv_running t then vm_loop code t else ret t)"
  by (simp only: vm_loop.simps [of code s] conj.left_neutral if_True simp_thms)

lemma vm_loop_paid:
  "vm_loop code s = Inr t \<Longrightarrow> mv_gas s \<le> mv_limit s \<Longrightarrow> mv_limit t = mv_limit s \<and> mv_gas t \<le> mv_limit s"
proof (induction code s rule: vm_loop.induct)
  case (1 code s)
  show ?case
  proof (cases "mv_pc s < length code \<and> mv_running s")
    case False
    hence "t = s" using "1.prems"(1) by (simp add: vm_loop_stops)
    thus ?thesis using "1.prems"(2) by simp
  next
    case True
    then obtain u where u: "vm_turn code s = Inr u"
      using "1.prems" by (cases "vm_turn code s") (simp_all add: vm_loop_goes)
    have g: "mv_limit u = mv_limit s" "mv_gas u \<le> mv_limit s" using vm_turn_gas [OF u] by simp_all
    show ?thesis
    proof (cases "mv_running u")
      case False
      thus ?thesis using "1.prems" True u g by (simp add: vm_loop_goes)
    next
      case run: True
      have "vm_loop code u = Inr t" using "1.prems" True u run by (simp add: vm_loop_goes)
      thus ?thesis using "1.IH" [OF True u run] g by simp
    qed
  qed
qed

text \<open>
  A run of the second machine that returns has spent no more gas than its limit, so that the result it reports is always a
  success; running out is the exception and never a result.
\<close>

theorem vm_result_is_paid:
  assumes "0 \<le> mv_limit s" "vm_execute code s = Inr (t, r)"
  shows "vr_success r \<and> vr_gas r \<le> mv_limit s"
proof -
  let ?s = "s\<lparr>mv_pc := 0, mv_gas := 0, mv_stack := [], mv_running := True\<rparr>"
  obtain u where u: "vm_loop code ?s = Inr u"
    using assms(2) by (cases "vm_loop code ?s") (simp_all add: vm_execute_def)
  have "vr_gas r = mv_gas u" "vr_success r = (mv_gas u \<le> mv_limit u)"
    using assms(2) u by (auto simp: vm_execute_def)
  moreover have "mv_limit u = mv_limit s \<and> mv_gas u \<le> mv_limit s" using vm_loop_paid [OF u] assms(1) by simp
  ultimately show ?thesis by simp
qed

text \<open>A call works on a copy of the storage: it replaces the row of the contract it runs, and only when the run returns.\<close>

lemma call_frame:
  "b \<noteq> a \<Longrightarrow> map_of (cm_contracts (fst (cm_call a args m))) b = map_of (cm_contracts m) b"
  by (simp add: cm_call_def update_conv' split: option.splits sum.splits prod.splits)

lemma call_fault_keeps:
  "snd (cm_call a args m) = Inl e \<Longrightarrow> fst (cm_call a args m) = m"
  by (auto simp: cm_call_def split: option.splits sum.splits prod.splits)

lemma call_keeps_code:
  "map_option mc_code (map_of (cm_contracts (fst (cm_call a args m))) b) = map_option mc_code (map_of (cm_contracts m) b)"
  by (cases "b = a") (auto simp: cm_call_def update_conv' split: option.splits sum.splits prod.splits)

text \<open>
  The arguments of a call are instructions put in front of the code, and the targets of jumps are absolute: with as many as
  \<open>n\<close> arguments, a jump of the deployed code to its instruction \<open>k\<close> continues at instruction \<open>k - n\<close>.
\<close>

theorem arguments_shift_jumps:
  assumes "length args \<le> k" "k < length args + length code"
  shows "map_sum id (\<lambda>t. with_arguments args code ! mv_pc t) (vm_jump (with_arguments args code) (int k) s) = Inr (code ! (k - length args))"
proof -
  have "k - length args < length code" using assms by arith
  thus ?thesis using assms by (simp add: vm_jump_def with_arguments_def nth_append)
qed

theorem arguments_shift_jumps_witness:
  "cm_total_calls (fst (cm_deploy 0 [(''PUSH'', Some 3), (''JUMP'', None), (''POP'', None), (''STOP'', None)] ''c'' None new_manager)) = 0 \<and>
   map_sum id (\<lambda>t. with_arguments [5] [(''PUSH'', Some 3), (''JUMP'', None), (''POP'', None), (''STOP'', None)] ! mv_pc t)
     (vm_jump (with_arguments [5] [(''PUSH'', Some 3), (''JUMP'', None), (''POP'', None), (''STOP'', None)]) (int 3) (cm_vm new_manager)) =
   Inr (''POP'', None)"
  using arguments_shift_jumps
    [of "[5]" 3 "[(''PUSH'', Some 3), (''JUMP'', None), (''POP'', None), (''STOP'', None)]" "cm_vm new_manager"]
  by (simp add: cm_total_calls_def cm_deploy_def new_manager_def)

theorem vm_result_is_paid_witness:
  "\<exists>t r. vm_execute [(''PUSH'', Some 3), (''PUSH'', Some 4), (''ADD'', None)] (cm_vm new_manager) = Inr (t, r) \<and>
         vr_gas r \<le> mv_limit (cm_vm new_manager) \<and> vr_stack r = [7]"
proof -
  have "case vm_execute [(''PUSH'', Some 3), (''PUSH'', Some 4), (''ADD'', None)] (cm_vm new_manager) of
          Inl e \<Rightarrow> False | Inr (t, r) \<Rightarrow> vr_stack r = [7]"
    by code_simp
  then obtain t r where
    r: "vm_execute [(''PUSH'', Some 3), (''PUSH'', Some 4), (''ADD'', None)] (cm_vm new_manager) = Inr (t, r)" "vr_stack r = [7]"
    by (auto split: sum.splits prod.splits)
  thus ?thesis using vm_result_is_paid [OF _ r(1)] by (auto simp: new_manager_def)
qed

end
