(* ===== verification/Bridge_Store.thy ===== *)
theory Bridge_Store
  imports Evm_Adapter
begin

text \<open>
  The bridge's tables in the SQL database (\<open>storage/database.py\<close>): locks of money that leaves, replay keys of the events
  that were credited, and the operations that change them together with the accounts. They share the one connection of
  \<open>Account_Store\<close>, so that a commit and a roll-back take the tables with them.
\<close>

section \<open>Tables\<close>

record bridge_lock =
  bl_from :: string
  bl_chain :: string
  bl_to :: string
  bl_amount :: pyfloat
  bl_status :: string
  bl_created :: int

record bridge_credit =
  bc_event :: string
  bc_recipient :: string
  bc_amount :: pyfloat
  bc_chain :: string
  bc_time :: int

record bridge_tables =
  bt_locks :: "(string, bridge_lock) dict"
  bt_credits :: "(string, bridge_credit) dict"

record bridge_db =
  bd_conn :: sql_conn
  bd_live :: bridge_tables
  bd_saved :: bridge_tables

definition on_accounts :: "(sql_conn, 'a) action \<Rightarrow> (bridge_db, 'a) action" where
  "on_accounts m d = (case m (bd_conn d) of (c, r) \<Rightarrow> (d\<lparr>bd_conn := c\<rparr>, r))"

definition write_tables :: "(bridge_tables \<Rightarrow> bridge_tables) \<Rightarrow> (bridge_db, unit) action" where
  "write_tables f d = (d\<lparr>bd_live := f (bd_live d), bd_conn := (bd_conn d)\<lparr>sc_open := True\<rparr>\<rparr>, ret ())"

definition bridge_commit :: "bridge_db \<Rightarrow> bridge_db" where
  "bridge_commit d = d\<lparr>bd_conn := sql_commit (bd_conn d), bd_saved := bd_live d\<rparr>"

definition bridge_rollback :: "bridge_db \<Rightarrow> bridge_db" where
  "bridge_rollback d =
     (if sc_open (bd_conn d) then d\<lparr>bd_conn := sql_rollback (bd_conn d), bd_live := bd_saved d\<rparr> else d)"

definition bridge_committing :: "(bridge_db, 'a) action \<Rightarrow> (bridge_db, 'a) action" where
  "bridge_committing m d = (case m d of (e, Inl x) \<Rightarrow> (e, raise x) | (e, Inr y) \<Rightarrow> (bridge_commit e, ret y))"

definition bridge_atomic :: "(bridge_db, 'a) action \<Rightarrow> (bridge_db, 'a) action" where
  "bridge_atomic body d =
     (if sc_open (bd_conn d) then (d, raise StorageFault)
      else case body (d\<lparr>bd_conn := (bd_conn d)\<lparr>sc_open := True\<rparr>\<rparr>) of
          (e, Inr x) \<Rightarrow> (bridge_commit e, ret x)
        | (e, Inl x) \<Rightarrow> (bridge_rollback e, raise x))"

section \<open>Keys\<close>

text \<open>The text whose hash is the replay key; the hash is a parameter.\<close>

definition credit_text :: "string \<Rightarrow> string \<Rightarrow> int \<Rightarrow> string" where
  "credit_text chain event i = py_lower (py_strip chain @ '':'' @ py_strip event @ '':'' @ int_text i)"

definition bridge_credit_key :: "(string \<Rightarrow> string) \<Rightarrow> string \<Rightarrow> string \<Rightarrow> int \<Rightarrow> string" where
  "bridge_credit_key sha chain event i = sha (credit_text chain event i)"

definition has_bridge_credit :: "string \<Rightarrow> bridge_db \<Rightarrow> bool" where
  "has_bridge_credit k d = (map_of (bt_credits (bd_live d)) k \<noteq> None)"

section \<open>Operations\<close>

text \<open>\<open>INSERT OR REPLACE\<close>: the old row goes, the new one is the last.\<close>

definition dict_replace :: "'k \<Rightarrow> 'v \<Rightarrow> ('k, 'v) dict \<Rightarrow> ('k, 'v) dict" where
  "dict_replace k v d = AList.delete k d @ [(k, v)]"

definition insert_lock :: "string \<Rightarrow> bridge_lock \<Rightarrow> (bridge_db, unit) action" where
  "insert_lock h l = write_tables (\<lambda>t. t\<lparr>bt_locks := dict_replace h l (bt_locks t)\<rparr>)"

definition set_lock_status :: "string \<Rightarrow> string \<Rightarrow> (bridge_db, unit) action" where
  "set_lock_status h st = write_tables (\<lambda>t. t\<lparr>bt_locks := dict_modify h (\<lambda>l. l\<lparr>bl_status := st\<rparr>) (bt_locks t)\<rparr>)"

definition sql_save_bridge_lock :: "string \<Rightarrow> string \<Rightarrow> string \<Rightarrow> pyfloat \<Rightarrow> string \<Rightarrow> int \<Rightarrow> (bridge_db, unit) action" where
  "sql_save_bridge_lock from chain to_addr amount h now =
     bridge_committing (insert_lock h
       \<lparr>bl_from = from, bl_chain = chain, bl_to = to_addr, bl_amount = amount, bl_status = ''pending'', bl_created = now\<rparr>)"

definition sql_confirm_bridge_lock :: "string \<Rightarrow> (bridge_db, unit) action" where
  "sql_confirm_bridge_lock h = bridge_committing (set_lock_status h ''confirmed'')"

text \<open>The newest first; rows of one second stay in the order of the table.\<close>

definition get_bridge_locks :: "nat \<Rightarrow> bridge_db \<Rightarrow> (string \<times> bridge_lock) list" where
  "get_bridge_locks limit d = take limit (sort_key (\<lambda>(h, l). - bl_created l) (bt_locks (bd_live d)))"

definition insert_credit :: "string \<Rightarrow> bridge_credit \<Rightarrow> (bridge_db, unit) action" where
  "insert_credit k c = write_tables (\<lambda>t. t\<lparr>bt_credits := bt_credits t @ [(k, c)]\<rparr>)"

definition sql_save_bridge_credit ::
  "(string \<Rightarrow> string) \<Rightarrow> string \<Rightarrow> string \<Rightarrow> pyfloat \<Rightarrow> string \<Rightarrow> int \<Rightarrow> int \<Rightarrow> (bridge_db, string) action" where
  "sql_save_bridge_credit sha event recipient amount chain i now =
     (let k = bridge_credit_key sha chain event i in
      andthen (bridge_committing (\<lambda>d.
          if has_bridge_credit k d then (d\<lparr>bd_conn := (bd_conn d)\<lparr>sc_open := True\<rparr>\<rparr>, ret ())
          else insert_credit k \<lparr>bc_event = event, bc_recipient = recipient, bc_amount = amount, bc_chain = chain, bc_time = now\<rparr> d))
        (\<lambda>_. give k))"

text \<open>Was the event credited now; the key in either case.\<close>

definition claim_and_credit ::
  "native_amount \<Rightarrow> (string \<Rightarrow> string) \<Rightarrow> string \<Rightarrow> string \<Rightarrow> string \<Rightarrow> pyfloat \<Rightarrow> int \<Rightarrow> string \<Rightarrow> int \<Rightarrow> (bridge_db, bool \<times> string) action" where
  "claim_and_credit N sha chain event recipient amount i abs_tx now =
     (let k = bridge_credit_key sha chain event i; h = py_strip (if abs_tx \<noteq> [] then abs_tx else event) in
      bridge_atomic (\<lambda>d.
        if has_bridge_credit k d then (d, ret (False, k))
        else andthen (insert_credit k
                 \<lparr>bc_event = event, bc_recipient = recipient, bc_amount = amount, bc_chain = chain, bc_time = now\<rparr>) (\<lambda>_.
             andthen (on_accounts (sql_apply_balance_delta N recipient (str_number amount))) (\<lambda>_.
             andthen (if h \<noteq> [] then set_lock_status h ''confirmed'' else give ()) (\<lambda>_. give (True, k)))) d))"

text \<open>
  The debit of \<open>debit_and_create_bridge_lock\<close>: the balance read, the debit that fails on too little, and \<open>save_account\<close>,
  which commits although it stands inside \<open>atomic\<close>; then the two columns once more.
\<close>

definition lock_debit :: "native_amount \<Rightarrow> string \<Rightarrow> pyfloat \<Rightarrow> (bridge_db, unit) action" where
  "lock_debit N from amount d =
     (case sql_balance N from (bd_conn d) of
        Inl x \<Rightarrow> (d, raise x)
      | Inr cur \<Rightarrow>
          (case try_debit_satoshi N cur (str_number amount) of
             Inl e \<Rightarrow> (d, raise (AmountFault e))
           | Inr n \<Rightarrow>
               (case from_satoshi_float N n of
                  Inl e \<Rightarrow> (d, raise (AmountFault e))
                | Inr x \<Rightarrow>
                    (case dual_write_balance N (str_number x) of
                       Inl e \<Rightarrow> (d, raise (AmountFault e))
                     | Inr (_, f) \<Rightarrow>
                         (let row = sql_row from (bd_conn d) in
                          andthen (bridge_committing (on_accounts (sql_save N from (str_number f)
                              (case row of None \<Rightarrow> 0 | Some r \<Rightarrow> sa_nonce r) (Option.bind row sa_code) (Option.bind row sa_storage)))) (\<lambda>_ e.
                            (e\<lparr>bd_conn := sql_write (\<lambda>t. t\<lparr>st_accounts :=
                               dict_modify from (\<lambda>r. r\<lparr>sa_satoshi := Some n, sa_balance := f\<rparr>) (st_accounts t)\<rparr>) (bd_conn e)\<rparr>, ret ())) d)))))"

definition debit_and_create_bridge_lock ::
  "native_amount \<Rightarrow> string \<Rightarrow> pyfloat \<Rightarrow> string \<Rightarrow> pyfloat \<Rightarrow> string \<Rightarrow> string \<Rightarrow> pyfloat \<Rightarrow> string \<Rightarrow> int \<Rightarrow> (bridge_db, unit) action" where
  "debit_and_create_bridge_lock N from amount burn_address burn_amount chain to_addr net h now =
     bridge_atomic (andthen (lock_debit N from amount) (\<lambda>_.
       andthen (if burn_amount \<noteq> 0 \<and> burn_address \<noteq> []
                then on_accounts (sql_apply_balance_delta N burn_address (str_number burn_amount)) else give ()) (\<lambda>_.
         insert_lock h
           \<lparr>bl_from = from, bl_chain = chain, bl_to = to_addr, bl_amount = net, bl_status = ''pending'', bl_created = now\<rparr>)))"

text \<open>The amount given back, where the lock is pending.\<close>

definition refund_pending_bridge_lock :: "native_amount \<Rightarrow> string \<Rightarrow> (bridge_db, pyfloat option) action" where
  "refund_pending_bridge_lock N h =
     bridge_atomic (\<lambda>d.
       case map_of (bt_locks (bd_live d)) h of
         None \<Rightarrow> (d, ret None)
       | Some l \<Rightarrow>
           if bl_status l \<noteq> ''pending'' then (d, ret None)
           else andthen (on_accounts (sql_apply_balance_delta N (bl_from l) (str_number (bl_amount l)))) (\<lambda>_.
                andthen (set_lock_status h ''refunded'') (\<lambda>_. give (Some (bl_amount l)))) d)"

end
