(* ===== verification/Bridge.thy ===== *)
theory Bridge
  imports Bridge_Store
begin

text \<open>
  \<open>bridge/abs_bridge.py\<close>: money leaves by a lock and comes back by an event of another chain or by a refund. The Rust
  binary behind the bridge, the hashes and the clock are parameters; a store has the atomic operations of \<open>Bridge_Store\<close>.
  Amounts are finite floats.
\<close>

section \<open>Chains and statuses\<close>

definition supported_chains :: "string list" where
  "supported_chains = [''ethereum'', ''bsc'', ''solana'', ''absolute'']"

definition rust_l1_chains :: "string list" where
  "rust_l1_chains = [''ethereum'', ''bsc'', ''polygon'', ''absolute'']"

definition chain_aliases :: "(string \<times> string) list" where
  "chain_aliases =
     [(''eth'', ''ethereum''), (''ether'', ''ethereum''), (''ethereum'', ''ethereum''), (''bnb'', ''bsc''), (''bsc'', ''bsc''), (''binance'', ''bsc''),
      (''sol'', ''solana''), (''solana'', ''solana''), (''abs'', ''absolute''), (''absolute'', ''absolute'')]"

definition normalize_chain :: "string \<Rightarrow> string" where
  "normalize_chain c = (let k = py_lower (py_strip c) in case map_of chain_aliases k of None \<Rightarrow> k | Some n \<Rightarrow> n)"

definition bridge_fees :: "(string \<times> pyfloat) list" where
  "bridge_fees = [(''ethereum'', f64 (1 / 100)), (''bsc'', f64 (2 / 1000)), (''solana'', f64 (1 / 1000)), (''absolute'', f64 (5 / 1000))]"

definition fee_rate :: "string \<Rightarrow> pyfloat" where
  "fee_rate chain = (case map_of bridge_fees chain of None \<Rightarrow> f64 (1 / 100) | Some r \<Rightarrow> r)"

text \<open>\<open>bridge/state_machine.py\<close>.\<close>

datatype lock_status = LockPending | LockConfirmed | LockRefunded | LockFailed

definition status_text :: "lock_status \<Rightarrow> string" where
  "status_text st = (case st of LockPending \<Rightarrow> ''pending'' | LockConfirmed \<Rightarrow> ''confirmed'' | LockRefunded \<Rightarrow> ''refunded'' | LockFailed \<Rightarrow> ''failed'')"

definition outbound_edges :: "((lock_status \<times> string) \<times> lock_status) list" where
  "outbound_edges =
     [((LockPending, ''confirm_lock''), LockConfirmed), ((LockPending, ''refund''), LockRefunded),
      ((LockPending, ''l1_fail''), LockFailed), ((LockFailed, ''refund''), LockRefunded)]"

definition normalize_lock_status :: "string \<Rightarrow> lock_status" where
  "normalize_lock_status raw =
     (case find (\<lambda>st. status_text st = py_lower (py_strip raw)) [LockPending, LockConfirmed, LockRefunded, LockFailed] of
        Some st \<Rightarrow> st | None \<Rightarrow> LockPending)"

definition can_transition_lock :: "lock_status \<Rightarrow> string \<Rightarrow> bool" where
  "can_transition_lock st action = (map_of outbound_edges (st, action) \<noteq> None)"

definition next_lock_status :: "lock_status \<Rightarrow> string \<Rightarrow> lock_status option" where
  "next_lock_status st action = map_of outbound_edges (st, action)"

datatype inbound_status = InboundAccepted | InboundDuplicate | InboundRejected

definition inbound_status_from_claim :: "bool \<Rightarrow> bool \<Rightarrow> inbound_status" where
  "inbound_status_from_claim duplicate credited =
     (if duplicate then InboundDuplicate else if credited then InboundAccepted else InboundRejected)"

section \<open>Environment and state\<close>

datatype bridge_mode = RustMode | SimulatorMode | Unavailable

datatype rust_arg = TextArg string | FloatArg pyfloat

text \<open>What became of a run of the binary: a reply has a status and a transaction hash, if it has them.\<close>

datatype rust_answer = RustMissing | RustTimeout | RustFailed | RustGarbled | RustReply "string option" "string option"

record bridge_env =
  be_native :: native_amount
  be_sha :: "string \<Rightarrow> string"
  be_rust :: "string \<Rightarrow> (string \<times> rust_arg) list \<Rightarrow> rust_answer"
  be_sim_hash :: "string \<Rightarrow> string \<Rightarrow> string \<Rightarrow> string \<Rightarrow> pyfloat \<Rightarrow> int \<Rightarrow> string"
  be_now :: int
  be_rpc_set :: "string \<Rightarrow> bool"
  be_mode :: bridge_mode
  be_prod :: bool
  be_enabled :: bool
  be_require_event :: bool
  be_require_proof :: bool
  be_burn_rate :: pyfloat
  be_burn_address :: string
  be_auto_confirm :: int

datatype queue_value = QText string | QFloat pyfloat | QInt int

type_synonym queue_entry = "(string, queue_value) dict"

record sim_tx =
  sx_from_chain :: string
  sx_to_chain :: string
  sx_from :: string
  sx_to :: string
  sx_amount :: pyfloat
  sx_status :: string
  sx_time :: int

record rust_counters =
  rc_decode :: int
  rc_timeout :: int
  rc_bin :: int
  rc_cmd :: int

datatype bridge_event =
    BridgeLocked string string string string pyfloat pyfloat
  | BridgeCredited string string int string pyfloat string
  | LockConfirmedOut string string
  | InboundRefused string string string string

record bridge =
  bg_db :: bridge_db
  bg_outbound :: "queue_entry list"
  bg_incoming :: "queue_entry list"
  bg_sim :: "(string, sim_tx) dict option"
  bg_counters :: rust_counters
  bg_events :: "bridge_event list"

definition on_db :: "(bridge_db, 'a) action \<Rightarrow> (bridge, 'a) action" where
  "on_db m s = (case m (bg_db s) of (d, r) \<Rightarrow> (s\<lparr>bg_db := d\<rparr>, r))"

definition on_bridge :: "(bridge \<Rightarrow> bridge) \<Rightarrow> (bridge, unit) action" where
  "on_bridge f s = (f s, ret ())"

definition emit :: "bridge_event \<Rightarrow> (bridge, unit) action" where
  "emit e = on_bridge (\<lambda>s. s\<lparr>bg_events := bg_events s @ [e]\<rparr>)"

section \<open>The Rust binary and the simulator\<close>

definition count_failure :: "rust_answer \<Rightarrow> rust_counters \<Rightarrow> rust_counters" where
  "count_failure a c =
     (case a of
        RustMissing \<Rightarrow> c\<lparr>rc_bin := rc_bin c + 1\<rparr>
      | RustTimeout \<Rightarrow> c\<lparr>rc_timeout := rc_timeout c + 1\<rparr>
      | RustFailed \<Rightarrow> c\<lparr>rc_cmd := rc_cmd c + 1\<rparr>
      | RustGarbled \<Rightarrow> c\<lparr>rc_decode := rc_decode c + 1\<rparr>
      | RustReply st h \<Rightarrow> c)"

definition call_rust_raw :: "bridge_env \<Rightarrow> string \<Rightarrow> (string \<times> rust_arg) list \<Rightarrow> (bridge, (string option \<times> string option) option) action" where
  "call_rust_raw E cmd args s =
     (let a = be_rust E cmd args in
      (s\<lparr>bg_counters := count_failure a (bg_counters s)\<rparr>, ret (case a of RustReply st h \<Rightarrow> Some (st, h) | _ \<Rightarrow> None)))"

definition call_rust :: "bridge_env \<Rightarrow> string \<Rightarrow> (string \<times> rust_arg) list \<Rightarrow> (bridge, string option) action" where
  "call_rust E cmd args = andthen (call_rust_raw E cmd args) (\<lambda>r. give (Option.bind r snd))"

definition call_rust_ok :: "bridge_env \<Rightarrow> string \<Rightarrow> (string \<times> rust_arg) list \<Rightarrow> (bridge, bool) action" where
  "call_rust_ok E cmd args =
     andthen (call_rust_raw E cmd args) (\<lambda>r.
       give (case r of
          None \<Rightarrow> False
        | Some (st, h) \<Rightarrow>
            if st \<noteq> Some ''ok'' then False
            else if cmd \<in> {''confirm'', ''incoming'', ''status'', ''lock''} then True
            else h \<noteq> None \<and> h \<noteq> Some []))"

definition sim_fees :: "string \<Rightarrow> pyfloat" where
  "sim_fees chain = fee_rate chain"

text \<open>The fee of the simulator is the rate itself, not a part of the amount.\<close>

definition sim_bridge :: "bridge_env \<Rightarrow> string \<Rightarrow> string \<Rightarrow> string \<Rightarrow> string \<Rightarrow> pyfloat \<Rightarrow> (string, sim_tx) dict \<Rightarrow> (string, sim_tx) dict \<times> string" where
  "sim_bridge E from_chain to_chain from to_addr amount txs =
     (let h = be_sim_hash E from_chain to_chain from to_addr amount (be_now E) in
      (dict_set h \<lparr>sx_from_chain = from_chain, sx_to_chain = to_chain, sx_from = from, sx_to = to_addr,
         sx_amount = fsub amount (sim_fees from_chain), sx_status = ''pending'', sx_time = be_now E\<rparr> txs, h))"

definition sim_confirm :: "string \<Rightarrow> (string, sim_tx) dict \<Rightarrow> (string, sim_tx) dict" where
  "sim_confirm h txs = dict_modify h (\<lambda>x. x\<lparr>sx_status := ''confirmed''\<rparr>) txs"

definition confirm_in_simulator :: "string \<Rightarrow> (bridge, unit) action" where
  "confirm_in_simulator h = on_bridge (\<lambda>s. s\<lparr>bg_sim := map_option (sim_confirm h) (bg_sim s)\<rparr>)"

section \<open>The queue of proofs\<close>

definition last500 :: "'a list \<Rightarrow> 'a list" where
  "last500 xs = drop (length xs - 500) xs"

definition enqueue_l1_outbound :: "bridge_env \<Rightarrow> string \<Rightarrow> string \<Rightarrow> string \<Rightarrow> bridge \<Rightarrow> bridge" where
  "enqueue_l1_outbound E abs_tx l1 chain s =
     s\<lparr>bg_outbound := last500 (filter (\<lambda>e. map_of e ''abs_tx_hash'' \<noteq> Some (QText abs_tx)) (bg_outbound s) @
        [[(''abs_tx_hash'', QText abs_tx), (''tx_hash'', QText abs_tx), (''l1_tx_hash'', QText l1),
          (''chain'', QText (normalize_chain chain)), (''queued_at'', QInt (be_now E))]])\<rparr>"

definition enqueue_l1_incoming :: "bridge_env \<Rightarrow> string \<Rightarrow> string \<Rightarrow> pyfloat \<Rightarrow> string \<Rightarrow> string \<Rightarrow> bridge \<Rightarrow> bridge" where
  "enqueue_l1_incoming E l1 recipient amount chain tx_id s =
     (let i = (if tx_id \<noteq> [] then tx_id else l1) in
      if l1 = [] \<or> recipient = [] \<or> amount \<le> 0 then s
      else s\<lparr>bg_incoming := last500
         (filter (\<lambda>e. map_of e ''l1_tx_hash'' \<noteq> Some (QText l1) \<and> map_of e ''tx_id'' \<noteq> Some (QText i)) (bg_incoming s) @
          [[(''l1_tx_hash'', QText l1), (''tx_hash'', QText l1), (''tx_id'', QText i), (''recipient'', QText recipient),
            (''amount'', QFloat amount), (''from_chain'', QText (normalize_chain chain)), (''queued_at'', QInt (be_now E))]])\<rparr>)"

definition entry_text :: "queue_entry \<Rightarrow> string \<Rightarrow> string \<Rightarrow> string" where
  "entry_text e k dflt = (case map_of e k of None \<Rightarrow> dflt | Some (QText t) \<Rightarrow> t | Some _ \<Rightarrow> [])"

definition lookup_outbound_l1 :: "string \<Rightarrow> bridge \<Rightarrow> string" where
  "lookup_outbound_l1 h s =
     (case find (\<lambda>e. map_of e ''abs_tx_hash'' = Some (QText h) \<or> map_of e ''tx_hash'' = Some (QText h)) (bg_outbound s) of
        None \<Rightarrow> [] | Some e \<Rightarrow> entry_text e ''l1_tx_hash'' [])"

section \<open>Money that leaves\<close>

record lock_receipt =
  lr_hash :: string
  lr_amount :: pyfloat
  lr_fee :: pyfloat
  lr_net :: pyfloat
  lr_queued :: bool

definition chain_refusal :: "bridge_env \<Rightarrow> string \<Rightarrow> string option" where
  "chain_refusal E chain =
     (if be_prod E then
        (if chain = ''solana'' then Some ''chain_not_in_production''
         else if chain \<notin> set rust_l1_chains then Some ''unsupported_chain'' else None)
      else if chain \<notin> set supported_chains then Some ''unsupported_chain'' else None)"

text \<open>The hash of the lock: of the escrow on the other chain where it is given, or made by the binary or the simulator.\<close>

definition outbound_hash :: "bridge_env \<Rightarrow> string \<Rightarrow> string \<Rightarrow> string \<Rightarrow> pyfloat \<Rightarrow> string \<Rightarrow> (bridge, string + string) action" where
  "outbound_hash E from chain to_addr net l1 =
     (let args = [(''from_chain'', TextArg ''absolute''), (''to_chain'', TextArg chain), (''from_addr'', TextArg from),
                  (''to_addr'', TextArg to_addr), (''amount'', FloatArg net)] in
      case be_mode E of
        RustMode \<Rightarrow>
          if l1 \<noteq> [] then
            andthen (call_rust_ok E ''lock'' (args @ [(''l1_tx_hash'', TextArg l1)])) (\<lambda>ok.
              give (if ok then Inr l1 else Inl ''rust_lock_verification_failed''))
          else if be_prod E then give (Inl ''l1_tx_hash_required'')
          else andthen (call_rust E ''bridge'' args) (\<lambda>h.
                 give (case h of None \<Rightarrow> Inl ''rust_bridge_failed'' | Some t \<Rightarrow> if t = [] then Inl ''rust_bridge_failed'' else Inr t))
      | SimulatorMode \<Rightarrow>
          (\<lambda>s. case bg_sim s of
             None \<Rightarrow> (s, ret (Inl ''simulator_not_available''))
           | Some txs \<Rightarrow> (case sim_bridge E ''absolute'' chain from to_addr net txs of
                 (txs', h) \<Rightarrow> (s\<lparr>bg_sim := Some txs'\<rparr>, ret (Inr h))))
      | Unavailable \<Rightarrow> give (Inl ''bridge_unavailable''))"

text \<open>The debit and the row, the queue and the event.\<close>

definition record_lock ::
  "bridge_env \<Rightarrow> string \<Rightarrow> string \<Rightarrow> string \<Rightarrow> pyfloat \<Rightarrow> pyfloat \<Rightarrow> pyfloat \<Rightarrow> string \<Rightarrow> string \<Rightarrow> (bridge, string + lock_receipt) action" where
  "record_lock E from chain to_addr amount fee net l1 h =
     andthen (on_db (debit_and_create_bridge_lock (be_native E) from amount (be_burn_address E)
         (fmul fee (be_burn_rate E)) chain to_addr net h (be_now E))) (\<lambda>_.
     andthen (on_bridge (if l1 \<noteq> [] then enqueue_l1_outbound E h l1 chain else id)) (\<lambda>_.
     andthen (emit (BridgeLocked h from chain to_addr net fee)) (\<lambda>_.
       give (Inr \<lparr>lr_hash = h, lr_amount = amount, lr_fee = fee, lr_net = net, lr_queued = (l1 \<noteq> [])\<rparr>))))"

definition lock_and_bridge ::
  "bridge_env \<Rightarrow> string \<Rightarrow> string \<Rightarrow> string \<Rightarrow> pyfloat \<Rightarrow> string \<Rightarrow> (bridge, string + lock_receipt) action" where
  "lock_and_bridge E from to_chain to_addr amount l1 =
     (let chain = normalize_chain to_chain; fee = fmul amount (fee_rate chain); net = fsub amount fee in
      case chain_refusal E chain of
        Some e \<Rightarrow> give (Inl e)
      | None \<Rightarrow>
          if net \<le> 0 then give (Inl ''amount_too_small'')
          else andthen (on_db (on_accounts (asks (sql_float_balance (be_native E) from)))) (\<lambda>balance.
            if balance < amount then give (Inl ''insufficient_balance'')
            else if be_prod E \<and> be_enabled E \<and> \<not> be_require_event E then give (Inl ''l1_event_binding_required'')
            else andthen (outbound_hash E from chain to_addr net l1) (\<lambda>r.
              case r of Inl e \<Rightarrow> give (Inl e) | Inr h \<Rightarrow> record_lock E from chain to_addr amount fee net l1 h)))"

definition estimate_fee :: "string \<Rightarrow> pyfloat \<Rightarrow> pyfloat \<times> pyfloat" where
  "estimate_fee chain amount = (let fee = fmul amount (fee_rate (py_lower chain)) in (fee, fsub amount fee))"

definition bridge_refund :: "bridge_env \<Rightarrow> string \<Rightarrow> (bridge, pyfloat option) action" where
  "bridge_refund E h = on_db (refund_pending_bridge_lock (be_native E) h)"

section \<open>Money that arrives\<close>

datatype incoming_answer = IncomingRefused string | IncomingDuplicate string | IncomingConfirmed string

definition rpc_key :: "string \<Rightarrow> string" where
  "rpc_key chain =
     (let c = py_lower chain in
      if c \<in> {''ethereum'', ''eth''} then ''ETH_RPC_URL'' else if c = ''bsc'' then ''BSC_RPC_URL'' else [])"

text \<open>What the binary is asked, and what is refused before; \<open>None\<close> lets the event pass.\<close>

definition incoming_refusal :: "bridge_env \<Rightarrow> string \<Rightarrow> string \<Rightarrow> pyfloat \<Rightarrow> string \<Rightarrow> string \<Rightarrow> (bridge, string option) action" where
  "incoming_refusal E tx recipient amount chain l1 =
     (case be_mode E of
        RustMode \<Rightarrow>
          if be_prod E \<and> l1 = [] then give (Some ''l1_tx_hash_required'')
          else if rpc_key chain \<noteq> [] \<and> be_rpc_set E (rpc_key chain) \<and> l1 = [] then give (Some ''l1_tx_hash_required'')
          else andthen (call_rust_ok E ''incoming''
                 ([(''tx_hash'', TextArg tx), (''recipient'', TextArg recipient), (''amount'', FloatArg amount), (''from_chain'', TextArg chain)] @
                  (if l1 \<noteq> [] then [(''l1_tx_hash'', TextArg l1)] else []))) (\<lambda>ok.
               give (if ok then None else Some ''rust_incoming_failed''))
      | SimulatorMode \<Rightarrow> give None
      | Unavailable \<Rightarrow> give (Some ''bridge_unavailable''))"

definition confirm_incoming ::
  "bridge_env \<Rightarrow> string \<Rightarrow> string \<Rightarrow> pyfloat \<Rightarrow> string \<Rightarrow> string \<Rightarrow> int \<Rightarrow> (bridge, incoming_answer) action" where
  "confirm_incoming E tx recipient amount chain l1 i =
     (let event = py_strip (if l1 \<noteq> [] then l1 else tx); k = bridge_credit_key (be_sha E) chain event i in
      if event = [] \<or> recipient = [] \<or> amount \<le> 0 then give (IncomingRefused ''event_recipient_amount_required'')
      else (\<lambda>s. if has_bridge_credit k (bg_db s) then (s, ret (IncomingDuplicate k))
        else andthen (on_bridge (if l1 \<noteq> [] then enqueue_l1_incoming E l1 recipient amount chain tx else id)) (\<lambda>_.
             andthen (incoming_refusal E tx recipient amount chain l1) (\<lambda>r.
               case r of
                 Some e \<Rightarrow> give (IncomingRefused e)
               | None \<Rightarrow>
                   andthen (on_db (claim_and_credit (be_native E) (be_sha E) chain event recipient amount i tx (be_now E))) (\<lambda>(new, key).
                   if \<not> new then give (IncomingDuplicate key)
                   else andthen (confirm_in_simulator tx) (\<lambda>_.
                        andthen (emit (BridgeCredited tx event i recipient amount chain)) (\<lambda>_.
                          give (IncomingConfirmed k)))))) s))"

text \<open>The subscriber of \<open>bridge.incoming\<close>.\<close>

definition on_incoming :: "bridge_env \<Rightarrow> string \<Rightarrow> string \<Rightarrow> pyfloat \<Rightarrow> string \<Rightarrow> (bridge, unit) action" where
  "on_incoming E tx recipient amount chain = andthen (confirm_incoming E tx recipient amount chain [] 0) (\<lambda>_. give ())"

section \<open>Locks that are confirmed\<close>

definition lock_refusal :: "bridge_env \<Rightarrow> string \<Rightarrow> string \<Rightarrow> bridge_lock \<Rightarrow> (bridge, string option) action" where
  "lock_refusal E h l1 l s =
     (case be_mode E of
        RustMode \<Rightarrow>
          (let proof = (if l1 \<noteq> [] then l1 else lookup_outbound_l1 h s) in
           if proof = [] \<and> be_prod E \<and> be_require_proof E then (s, ret (Some ''l1_tx_hash_required''))
           else andthen (call_rust_ok E ''confirm''
                  ([(''tx_hash'', TextArg h), (''to_chain'', TextArg (normalize_chain (bl_chain l)))] @
                   (if proof \<noteq> [] then [(''l1_tx_hash'', TextArg proof)] else []))) (\<lambda>ok.
                give (if ok then None else Some ''rust_confirm_failed'')) s)
      | SimulatorMode \<Rightarrow> (s, ret None)
      | Unavailable \<Rightarrow> (s, ret (Some ''bridge_unavailable'')))"

definition confirm_lock :: "bridge_env \<Rightarrow> string \<Rightarrow> string \<Rightarrow> (bridge, string option) action" where
  "confirm_lock E h l1 s =
     (case find (\<lambda>(k, l). k = h \<and> bl_status l = ''pending'') (get_bridge_locks 1000 (bg_db s)) of
        None \<Rightarrow> (s, ret (Some ''pending_lock_not_found''))
      | Some (k, l) \<Rightarrow>
          andthen (lock_refusal E h l1 l) (\<lambda>r.
            case r of
              Some e \<Rightarrow> give (Some e)
            | None \<Rightarrow>
                andthen (confirm_in_simulator h) (\<lambda>_.
                andthen (on_db (sql_confirm_bridge_lock h)) (\<lambda>_.
                andthen (emit (LockConfirmedOut h (bl_chain l))) (\<lambda>_. give None)))) s)"

definition pending_hashes :: "nat \<Rightarrow> bridge_db \<Rightarrow> string list" where
  "pending_hashes limit d = map fst (filter (\<lambda>(h, l). bl_status l = ''pending'') (get_bridge_locks limit d))"

text \<open>The hashes confirmed, those that failed with the reason, and how many are still pending.\<close>

definition confirm_pending_locks :: "bridge_env \<Rightarrow> (bridge, string list \<times> (string \<times> string) list \<times> nat) action" where
  "confirm_pending_locks E s =
     andthen (each (\<lambda>h. andthen (confirm_lock E h []) (\<lambda>r. give (h, r))) (pending_hashes 1000 (bg_db s))) (\<lambda>rs t.
       (t, ret (map fst (filter (\<lambda>(h, r). r = None) rs), List.map_filter (\<lambda>(h, r). map_option (\<lambda>e. (h, e)) r) rs,
                length (pending_hashes 1000 (bg_db t))))) s"

definition process_pending :: "bridge_env \<Rightarrow> (bridge, unit) action" where
  "process_pending E s =
     (if be_mode E \<noteq> SimulatorMode \<or> be_auto_confirm E \<le> 0 \<or> bg_sim s = None then (s, ret ())
      else andthen (each (\<lambda>(h, l). confirm_lock E h [])
             (filter (\<lambda>(h, l). bl_status l = ''pending'' \<and> be_auto_confirm E < be_now E - bl_created l) (get_bridge_locks 50 (bg_db s))))
           (\<lambda>_. give ()) s)"

definition bridge_stats :: "bridge \<Rightarrow> nat \<times> nat \<times> nat" where
  "bridge_stats s =
     (let locks = get_bridge_locks 1000 (bg_db s) in
      (length locks, length (filter (\<lambda>(h, l). bl_status l = ''pending'') locks),
       length (filter (\<lambda>(h, l). bl_status l = ''confirmed'') locks)))"

end
