(* ===== verification/Bridge_Gateway.thy ===== *)
theory Bridge_Gateway
  imports Bridge
begin

text \<open>
  What stands around the bridge: the check of an incoming message (\<open>bridge/validators.py\<close>), the port the node sees
  (\<open>bridge/adapter.py\<close>), the body of the oracle's request (\<open>api/http.py\<close>), and the relayer that watches the other chain
  (\<open>bridge/relayer.py\<close>). Receipts, confirmations and zero-knowledge proofs come from ports.
\<close>

section \<open>The message and its check\<close>

record l1_receipt =
  rcp_hash :: string
  rcp_ok :: bool

record envelope =
  en_chain :: string
  en_to :: string
  en_amount :: pyfloat
  en_event :: string
  en_index :: int
  en_receipt :: "l1_receipt option"
  en_proof :: "string option"
  en_meta_l1 :: string
  en_abs :: string

text \<open>The ports of the check: the other chain, where it is wired, and the gateway of proofs, where it is there and enabled.\<close>

record gate_ports =
  gp_receipt :: "string \<Rightarrow> string \<Rightarrow> l1_receipt option"
  gp_confirmations :: "string \<Rightarrow> string \<Rightarrow> int"
  gp_wired :: bool
  gp_min_confirmations :: int
  gp_require_zk :: bool
  gp_zk :: "(string \<Rightarrow> bool) option"

definition compute_replay_key :: "(string \<Rightarrow> string) \<Rightarrow> string \<Rightarrow> string \<Rightarrow> int \<Rightarrow> string" where
  "compute_replay_key sha chain event i = sha (py_lower (py_strip chain) @ '':'' @ py_strip event @ '':'' @ int_text i)"

definition remove_lower_0x :: "string \<Rightarrow> string" where
  "remove_lower_0x s = (if take 2 s = ''0x'' then drop 2 s else s)"

definition shape_refusal :: "envelope \<Rightarrow> string option" where
  "shape_refusal en =
     (let event = py_strip (en_event en) in
      if event = [] \<or> event \<in> {''0'', ''0x0'', ''0x'' @ replicate 64 CHR ''0''} then Some ''empty_event_tx_hash''
      else if py_strip (en_to en) = [] then Some ''missing_recipient''
      else if py_strip (en_chain en) = [] then Some ''missing_from_chain''
      else if en_amount en \<le> 0 then Some ''invalid_amount'' else None)"

definition receipt_refusal :: "bridge_env \<Rightarrow> gate_ports \<Rightarrow> envelope \<Rightarrow> string option" where
  "receipt_refusal E G en =
     (let chain = py_lower (py_strip (en_chain en)); event = py_strip (en_event en); need = gp_min_confirmations G in
      if \<not> (gp_wired G \<and> (be_require_proof E \<or> 0 < need \<or> en_receipt en \<noteq> None)) then None
      else (case (case en_receipt en of Some r \<Rightarrow> Some r | None \<Rightarrow> gp_receipt G chain event) of
          None \<Rightarrow> Some ''receipt_missing''
        | Some r \<Rightarrow>
            (let h = py_lower (py_strip (rcp_hash r)); conf = gp_confirmations G chain event in
             if \<not> rcp_ok r then Some ''receipt_status_failed''
             else if h \<noteq> [] \<and> h \<noteq> py_lower event \<and> remove_lower_0x h \<noteq> remove_lower_0x (py_lower event) then Some ''receipt_hash_mismatch''
             else if 0 < need \<and> conf < need then Some (''insufficient_confirmations:'' @ int_text conf @ ''<'' @ int_text need)
             else None)))"

definition zk_refusal :: "gate_ports \<Rightarrow> envelope \<Rightarrow> string option" where
  "zk_refusal G en =
     (if \<not> gp_require_zk G then None
      else case gp_zk G of
          None \<Rightarrow> Some ''zk_required_unavailable''
        | Some verify \<Rightarrow>
            (case en_proof en of
               None \<Rightarrow> Some ''zk_proof_missing''
             | Some p \<Rightarrow> if verify p then None else Some ''zk_proof_invalid''))"

text \<open>The reason of a refusal and the replay key, which a message of the wrong shape does not get.\<close>

definition validate_inbound :: "bridge_env \<Rightarrow> gate_ports \<Rightarrow> envelope \<Rightarrow> string option \<times> string" where
  "validate_inbound E G en =
     (let k = compute_replay_key (be_sha E) (py_lower (py_strip (en_chain en))) (py_strip (en_event en)) (en_index en) in
      case shape_refusal en of
        Some e \<Rightarrow> (Some e, [])
      | None \<Rightarrow>
          (case receipt_refusal E G en of
             Some e \<Rightarrow> (Some e, k)
           | None \<Rightarrow> (zk_refusal G en, k)))"

section \<open>The port\<close>

record op_result =
  or_ok :: bool
  or_status :: string
  or_error :: string

definition inbound_text :: "inbound_status \<Rightarrow> string" where
  "inbound_text st = (case st of InboundAccepted \<Rightarrow> ''accepted'' | InboundDuplicate \<Rightarrow> ''duplicate'' | InboundRejected \<Rightarrow> ''rejected'')"

definition wrap_inbound :: "incoming_answer \<Rightarrow> op_result" where
  "wrap_inbound a =
     (case a of
        IncomingRefused e \<Rightarrow> \<lparr>or_ok = False, or_status = inbound_text InboundRejected, or_error = e\<rparr>
      | IncomingDuplicate k \<Rightarrow> \<lparr>or_ok = True, or_status = inbound_text InboundDuplicate, or_error = []\<rparr>
      | IncomingConfirmed k \<Rightarrow> \<lparr>or_ok = True, or_status = inbound_text (inbound_status_from_claim False True), or_error = []\<rparr>)"

definition wrap_lock :: "string + lock_receipt \<Rightarrow> op_result" where
  "wrap_lock r =
     (case r of
        Inl e \<Rightarrow> \<lparr>or_ok = False, or_status = ''failed'', or_error = e\<rparr>
      | Inr l \<Rightarrow> \<lparr>or_ok = True, or_status = status_text LockPending, or_error = []\<rparr>)"

definition port_lock :: "bridge_env \<Rightarrow> string \<Rightarrow> string \<Rightarrow> string \<Rightarrow> pyfloat \<Rightarrow> string \<Rightarrow> (bridge, op_result) action" where
  "port_lock E from to_chain to_addr amount l1 = andthen (lock_and_bridge E from to_chain to_addr amount l1) (\<lambda>r. give (wrap_lock r))"

definition port_confirm_incoming :: "bridge_env \<Rightarrow> gate_ports \<Rightarrow> envelope \<Rightarrow> (bridge, op_result) action" where
  "port_confirm_incoming E G en =
     (case validate_inbound E G en of
        (Some reason, k) \<Rightarrow>
          andthen (emit (InboundRefused reason k (en_event en) (en_chain en))) (\<lambda>_.
            give \<lparr>or_ok = False, or_status = inbound_text InboundRejected, or_error = reason\<rparr>)
      | (None, k) \<Rightarrow>
          (let abs_tx = (if en_abs en \<noteq> [] then en_abs en else en_event en);
               l1 = py_strip (if en_meta_l1 en \<noteq> [] then en_meta_l1 en
                              else if en_abs en \<noteq> [] \<and> en_event en \<noteq> [] \<and> en_abs en \<noteq> en_event en then en_event en else [])
           in andthen (confirm_incoming E abs_tx (en_to en) (en_amount en) (en_chain en) l1 (en_index en)) (\<lambda>a. give (wrap_inbound a))))"

definition port_confirm_lock :: "bridge_env \<Rightarrow> string \<Rightarrow> string \<Rightarrow> (bridge, op_result) action" where
  "port_confirm_lock E h l1 =
     andthen (confirm_lock E h l1) (\<lambda>r.
       give (case r of
          None \<Rightarrow> \<lparr>or_ok = True, or_status = status_text LockConfirmed, or_error = []\<rparr>
        | Some e \<Rightarrow> \<lparr>or_ok = False, or_status = ''failed'', or_error = e\<rparr>))"

definition port_refund :: "bridge_env \<Rightarrow> string \<Rightarrow> (bridge, op_result) action" where
  "port_refund E h =
     andthen (bridge_refund E h) (\<lambda>r.
       give (case r of
          Some x \<Rightarrow> \<lparr>or_ok = True, or_status = status_text LockRefunded, or_error = []\<rparr>
        | None \<Rightarrow> \<lparr>or_ok = False, or_status = ''failed'', or_error = ''lock_not_found_or_processed''\<rparr>))"

section \<open>The oracle's request\<close>

definition body_text :: "queue_entry \<Rightarrow> string \<Rightarrow> string \<Rightarrow> string \<Rightarrow> string" where
  "body_text b k1 k2 dflt = entry_text b k1 (entry_text b k2 dflt)"

definition body_amount :: "queue_entry \<Rightarrow> pyfloat" where
  "body_amount b = (case map_of b ''amount'' of Some (QFloat x) \<Rightarrow> x | Some (QInt n) \<Rightarrow> f64 (of_int n) | _ \<Rightarrow> 0)"

definition body_index :: "queue_entry \<Rightarrow> int" where
  "body_index b = (case map_of b ''log_index'' of Some (QInt n) \<Rightarrow> n | _ \<Rightarrow> 0)"

definition inbound_envelope_from_body :: "queue_entry \<Rightarrow> envelope" where
  "inbound_envelope_from_body b =
     (let tx_id = body_text b ''tx_id'' ''tx_hash'' []; l1 = py_strip (entry_text b ''l1_tx_hash'' []) in
      \<lparr>en_chain = body_text b ''from_chain'' ''source_chain'' ''ethereum'', en_to = body_text b ''recipient'' ''to_address'' [],
       en_amount = body_amount b, en_event = (if l1 \<noteq> [] then l1 else tx_id), en_index = body_index b,
       en_receipt = None, en_proof = None, en_meta_l1 = l1,
       en_abs = (if l1 \<noteq> [] \<and> l1 \<noteq> tx_id then tx_id else [])\<rparr>)"

section \<open>The relayer\<close>

text \<open>
  The node as the relayer sees it, by its requests: the pending locks, the confirmation of a lock and of an incoming event;
  and whether a transaction on another chain has enough
  confirmations, asked at the address in the entry or at the one configured for the chain.
\<close>

record 'n relayer_ports =
  rp_pending :: "'n \<Rightarrow> string list"
  rp_confirm_lock :: "string \<Rightarrow> 'n \<Rightarrow> 'n \<times> bool"
  rp_incoming :: "queue_entry \<Rightarrow> 'n \<Rightarrow> 'n \<times> bool"
  rp_confirmed :: "string \<Rightarrow> string \<Rightarrow> string \<Rightarrow> bool"
  rp_require_proof :: bool

fun confirm_all :: "'n relayer_ports \<Rightarrow> bool \<Rightarrow> string list \<Rightarrow> 'n \<Rightarrow> 'n \<times> nat" where
  "confirm_all R dry [] n = (n, 0)"
| "confirm_all R dry (h # hs) n =
     (if h = [] \<or> dry then confirm_all R dry hs n
      else case rp_confirm_lock R h n of
          (n', ok) \<Rightarrow> (case confirm_all R dry hs n' of (n'', k) \<Rightarrow> (n'', (if ok then 1 else 0) + k)))"

definition relay_pending :: "'n relayer_ports \<Rightarrow> bool \<Rightarrow> 'n \<Rightarrow> 'n \<times> nat" where
  "relay_pending R dry n = (if rp_require_proof R then (n, 0) else confirm_all R dry (rp_pending R n) n)"

definition outbound_ready :: "'n relayer_ports \<Rightarrow> queue_entry \<Rightarrow> bool" where
  "outbound_ready R e =
     (let l1 = entry_text e ''l1_tx_hash'' []; abs_tx = body_text e ''abs_tx_hash'' ''tx_hash'' [] in
      l1 \<noteq> [] \<and> abs_tx \<noteq> [] \<and> rp_confirmed R (entry_text e ''rpc_url'' []) (body_text e ''chain'' ''to_chain'' ''ethereum'') l1)"

text \<open>The entries that stay in the queue, and how many were processed.\<close>

fun relay_outbound :: "'n relayer_ports \<Rightarrow> bool \<Rightarrow> queue_entry list \<Rightarrow> 'n \<Rightarrow> 'n \<times> queue_entry list \<times> nat" where
  "relay_outbound R dry [] n = (n, [], 0)"
| "relay_outbound R dry (e # es) n =
     (if \<not> outbound_ready R e then
        (case relay_outbound R dry es n of (m, rest, k) \<Rightarrow> (m, e # rest, k))
      else if dry then (case relay_outbound R dry es n of (m, rest, k) \<Rightarrow> (m, rest, k + 1))
      else case rp_confirm_lock R (body_text e ''abs_tx_hash'' ''tx_hash'' []) n of
          (n', ok) \<Rightarrow>
            (case relay_outbound R dry es n' of
               (m, rest, k) \<Rightarrow> if ok then (m, rest, k + 1) else (m, e # rest, k)))"

definition incoming_l1 :: "queue_entry \<Rightarrow> string" where
  "incoming_l1 e = body_text e ''l1_tx_hash'' ''tx_hash'' []"

definition incoming_ready :: "'n relayer_ports \<Rightarrow> queue_entry \<Rightarrow> bool" where
  "incoming_ready R e =
     (incoming_l1 e \<noteq> [] \<and> body_text e ''recipient'' ''to_address'' [] \<noteq> [] \<and> 0 < body_amount e \<and>
      rp_confirmed R (entry_text e ''rpc_url'' []) (body_text e ''from_chain'' ''source_chain'' ''ethereum'') (incoming_l1 e))"

definition incoming_payload :: "queue_entry \<Rightarrow> queue_entry" where
  "incoming_payload e =
     [(''tx_id'', QText (body_text e ''tx_id'' ''abs_tx_hash'' (incoming_l1 e))), (''tx_hash'', QText (incoming_l1 e)),
      (''recipient'', QText (body_text e ''recipient'' ''to_address'' [])), (''amount'', QFloat (body_amount e)),
      (''from_chain'', QText (body_text e ''from_chain'' ''source_chain'' ''ethereum''))]"

fun relay_incoming :: "'n relayer_ports \<Rightarrow> bool \<Rightarrow> queue_entry list \<Rightarrow> 'n \<Rightarrow> 'n \<times> queue_entry list \<times> nat" where
  "relay_incoming R dry [] n = (n, [], 0)"
| "relay_incoming R dry (e # es) n =
     (if \<not> incoming_ready R e then
        (case relay_incoming R dry es n of (m, rest, k) \<Rightarrow> (m, e # rest, k))
      else if dry then (case relay_incoming R dry es n of (m, rest, k) \<Rightarrow> (m, rest, k + 1))
      else case rp_incoming R (incoming_payload e) n of
          (n', ok) \<Rightarrow>
            (case relay_incoming R dry es n' of
               (m, rest, k) \<Rightarrow> if ok then (m, rest, k + 1) else (m, e # rest, k)))"

text \<open>The queue as it is saved: a dry run saves nothing.\<close>

definition process_l1_queue ::
  "'n relayer_ports \<Rightarrow> bool \<Rightarrow> queue_entry list \<Rightarrow> queue_entry list \<Rightarrow> 'n \<Rightarrow> 'n \<times> (queue_entry list \<times> queue_entry list) \<times> nat" where
  "process_l1_queue R dry outs ins n =
     (if outs = [] \<and> ins = [] then (n, (outs, ins), 0)
      else case relay_outbound R dry outs n of
          (n1, rest_out, k1) \<Rightarrow>
            (case relay_incoming R dry ins n1 of
               (n2, rest_in, k2) \<Rightarrow> (n2, if dry then (outs, ins) else (rest_out, rest_in), k1 + k2)))"

end
