(* ===== verification/Bridge_Props.thy ===== *)
theory Bridge_Props
  imports Bridge_Gateway Store_Rules
begin

text \<open>
  What the bridge owes its users: an event is credited once, a lock is refunded once. Both are properties of rows that no
  operation takes back, neither a commit nor a roll-back, and therefore one predicate on the tables as they are and as they
  were saved, kept by every action. Then the ways in which the code pays twice or loses a lock.
\<close>

section \<open>Properties of the tables\<close>

text \<open>A property of the bridge's tables that holds of the live and of the saved tables.\<close>

definition in_tables :: "(bridge_tables \<Rightarrow> bool) \<Rightarrow> bridge_db \<Rightarrow> bool" where
  "in_tables P d \<longleftrightarrow> P (bd_live d) \<and> P (bd_saved d)"

abbreviation in_bridge :: "(bridge_tables \<Rightarrow> bool) \<Rightarrow> bridge \<Rightarrow> bool" where
  "in_bridge P s \<equiv> in_tables P (bg_db s)"

lemma keeps_accounts [keep_rules]: "keeps (in_tables P) (on_accounts m)"
  by (auto simp: keeps_def on_accounts_def in_tables_def split: prod.splits)

lemma keeps_tables [keep_rules]:
  "(\<And>t. P t \<Longrightarrow> P (f t)) \<Longrightarrow> keeps (in_tables P) (write_tables f)"
  by (auto simp: keeps_def write_tables_def in_tables_def)

lemma keeps_bridge_committing [keep_rules]:
  "keeps (in_tables P) m \<Longrightarrow> keeps (in_tables P) (bridge_committing m)"
  by (force simp: keeps_def bridge_committing_def bridge_commit_def in_tables_def split: prod.splits sum.splits)

lemma keeps_bridge_atomic [keep_rules]:
  assumes "keeps (in_tables P) m"
  shows "keeps (in_tables P) (bridge_atomic m)"
proof (rule keepsI)
  fix d e r
  assume r: "bridge_atomic m d = (e, r)" and P: "in_tables P d"
  obtain t q where m: "m (d\<lparr>bd_conn := (bd_conn d)\<lparr>sc_open := True\<rparr>\<rparr>) = (t, q)" by fastforce
  have "in_tables P t" using keepsD [OF assms m] P by (simp add: in_tables_def)
  thus "in_tables P e"
    using r m P
    by (cases q) (auto simp: bridge_atomic_def bridge_commit_def bridge_rollback_def in_tables_def split: if_splits)
qed

lemma keeps_on_db [keep_rules]: "keeps (in_tables P) m \<Longrightarrow> keeps (in_bridge P) (on_db m)"
  by (force simp: keeps_def on_db_def split: prod.splits)

lemma keeps_elsewhere [keep_rules]:
  "(\<And>s. bg_db (f s) = bg_db s) \<Longrightarrow> keeps (in_bridge P) (on_bridge f)" "keeps (in_bridge P) (emit e)"
  "keeps (in_bridge P) (call_rust_raw E cmd args)" "keeps (in_bridge P) (confirm_in_simulator h)"
  by (auto simp: keeps_def on_bridge_def emit_def call_rust_raw_def confirm_in_simulator_def Let_def)

lemma keeps_rust [keep_rules]:
  "keeps (in_bridge P) (call_rust_ok E cmd args)" "keeps (in_bridge P) (call_rust E cmd args)"
  unfolding call_rust_ok_def call_rust_def by (intro keep_rules)+

lemma keeps_option_state:
  "keeps P m \<Longrightarrow> (\<And>x. keeps P (f x)) \<Longrightarrow> keeps P (\<lambda>s. case q s of None \<Rightarrow> m s | Some x \<Rightarrow> f x s)"
  by (auto simp: keeps_def split: option.splits)

lemma keeps_state: "(\<And>s. keeps P (f s)) \<Longrightarrow> keeps P (\<lambda>s. f s s)"
  by (auto simp: keeps_def)

lemma queue_db [simp]: "bg_db (enqueue_l1_outbound E a l c s) = bg_db s" "bg_db (enqueue_l1_incoming E l r x c i s) = bg_db s"
  by (simp_all add: enqueue_l1_outbound_def enqueue_l1_incoming_def Let_def)

lemma keeps_outbound_hash [keep_rules]: "keeps (in_bridge P) (outbound_hash E sender chain to_addr net l1)"
proof -
  have "keeps (in_bridge P) (\<lambda>s. case bg_sim s of None \<Rightarrow> (s, ret (Inl e)) | Some txs \<Rightarrow>
      (case sim_bridge E c1 chain sender to_addr net txs of (txs', h) \<Rightarrow> (s\<lparr>bg_sim := Some txs'\<rparr>, ret (Inr h))))" for e :: string and c1
    by (auto simp: keeps_def split: option.splits prod.splits)
  thus ?thesis
    unfolding outbound_hash_def Let_def
    by (cases "be_mode E") (auto intro!: keep_rules)
qed

lemma keeps_incoming_refusal [keep_rules]: "keeps (in_bridge P) (incoming_refusal E tx r x c l1)"
  unfolding incoming_refusal_def by (cases "be_mode E") (auto intro!: keep_rules)

lemma keeps_lock_refusal [keep_rules]: "keeps (in_bridge P) (lock_refusal E h l1 l)"
proof (rule keepsI)
  fix s t r
  assume r: "lock_refusal E h l1 l s = (t, r)" and P: "in_bridge P s"
  have "keeps (in_bridge P) (andthen (call_rust_ok E ''confirm'' args) (\<lambda>ok. give (g ok)))" for args and g :: "bool \<Rightarrow> string option"
    by (intro keep_rules)
  from keepsD [OF this _ P] show "in_bridge P t"
    using r P by (cases "be_mode E") (auto simp: lock_refusal_def Let_def split: if_splits)
qed

lemma keeps_lock_debit [keep_rules]: "keeps (in_tables P) (lock_debit N sender x)"
proof (rule keepsI)
  fix d e r
  assume r: "lock_debit N sender x d = (e, r)" and P: "in_tables P d"
  have upd: "keeps (in_tables P) (\<lambda>e. (e\<lparr>bd_conn := f (bd_conn e)\<rparr>, ret ()))" for f
    by (auto simp: keeps_def in_tables_def)
  have "keeps (in_tables P) (andthen (bridge_committing (on_accounts m)) (\<lambda>_ e. (e\<lparr>bd_conn := f (bd_conn e)\<rparr>, ret ())))" for f and m :: "(sql_conn, unit) action"
    by (intro keep_rules upd)
  from keepsD [OF this _ P] show "in_tables P e"
    using r P by (auto simp: lock_debit_def Let_def split: sum.splits prod.splits)
qed

lemma keeps_claim:
  assumes "\<And>t c. P t \<Longrightarrow> P (t\<lparr>bt_credits := bt_credits t @ [c]\<rparr>)"
    and "\<And>t l. P t \<Longrightarrow> P (t\<lparr>bt_locks := dict_modify l (\<lambda>x. x\<lparr>bl_status := ''confirmed''\<rparr>) (bt_locks t)\<rparr>)"
  shows "keeps (in_tables P) (claim_and_credit N sha chain event recipient amount i abs_tx now)"
  unfolding claim_and_credit_def Let_def insert_credit_def set_lock_status_def
  by (intro keep_rules assms)

lemma keeps_refund:
  assumes "\<And>t l. P t \<Longrightarrow> P (t\<lparr>bt_locks := dict_modify l (\<lambda>x. x\<lparr>bl_status := ''refunded''\<rparr>) (bt_locks t)\<rparr>)"
  shows "keeps (in_tables P) (refund_pending_bridge_lock N h)"
  unfolding refund_pending_bridge_lock_def set_lock_status_def
  by (intro keep_rules keeps_option_state assms)

lemma keeps_debit_and_lock:
  assumes "\<And>t l. P t \<Longrightarrow> P (t\<lparr>bt_locks := dict_replace h l (bt_locks t)\<rparr>)"
  shows "keeps (in_tables P) (debit_and_create_bridge_lock N sender x burn_address burn chain to_addr net h now)"
  unfolding debit_and_create_bridge_lock_def insert_lock_def
  by (intro keep_rules assms)

text \<open>What the operations do to the tables: a credit is added, a lock is replaced or gets another status.\<close>

definition table_step :: "(bridge_tables \<Rightarrow> bool) \<Rightarrow> bool" where
  "table_step P \<longleftrightarrow>
     (\<forall>t c. P t \<longrightarrow> P (t\<lparr>bt_credits := bt_credits t @ [c]\<rparr>)) \<and>
     (\<forall>t l st. P t \<longrightarrow> st \<noteq> ''pending'' \<longrightarrow> P (t\<lparr>bt_locks := dict_modify l (\<lambda>x. x\<lparr>bl_status := st\<rparr>) (bt_locks t)\<rparr>))"

lemma keeps_confirm_incoming [keep_rules]:
  assumes "table_step P"
  shows "keeps (in_bridge P) (confirm_incoming E tx recipient amount chain l1 i)"
proof -
  have claim: "keeps (in_tables P) (claim_and_credit N sha c e r a j h now)" for N sha c e r a j h now
    using assms by (intro keeps_claim) (auto simp: table_step_def)
  show ?thesis
    unfolding confirm_incoming_def Let_def
    by (intro keep_rules claim) (auto split: prod.splits intro!: keep_rules)
qed

lemma keeps_andthen_db: "keeps P (on_db m) \<Longrightarrow> (\<And>x. keeps P (f x)) \<Longrightarrow> keeps P (andthen (on_db m) f)"
  by (rule keeps_andthen)

text \<open>Only the rows of the hashes that \<open>outbound_hash\<close> answers are written.\<close>

lemma keeps_locking:
  assumes "\<And>t l h. hash h \<Longrightarrow> P t \<Longrightarrow> P (t\<lparr>bt_locks := dict_replace h l (bt_locks t)\<rparr>)"
    and "\<And>chain net h s t. outbound_hash E sender chain to_addr net l1 s = (t, Inr (Inr h)) \<Longrightarrow> hash h"
  shows "keeps (in_bridge P) (lock_and_bridge E sender to_chain to_addr amount l1)"
proof -
  have row: "keeps (in_bridge P) (record_lock E sender chain to_addr amount fee net l1 h)" if "hash h" for chain fee net h
    unfolding record_lock_def using assms(1) [OF that] by (intro keep_rules keeps_debit_and_lock) auto
  have main: "keeps (in_bridge P) (andthen (outbound_hash E sender chain to_addr net l1)
      (\<lambda>r. case r of Inl e \<Rightarrow> give (Inl e) | Inr h \<Rightarrow> record_lock E sender chain to_addr amount fee net l1 h))" for chain fee net
  proof (rule keepsI)
    fix s u r
    assume a: "andthen (outbound_hash E sender chain to_addr net l1)
        (\<lambda>r. case r of Inl e \<Rightarrow> give (Inl e) | Inr h \<Rightarrow> record_lock E sender chain to_addr amount fee net l1 h) s = (u, r)"
      and P: "in_bridge P s"
    obtain t q where o: "outbound_hash E sender chain to_addr net l1 s = (t, q)" by fastforce
    have t: "in_bridge P t" using keepsD [OF keeps_outbound_hash o P] .
    show "in_bridge P u"
    proof (cases "\<exists>h. q = Inr (Inr h)")
      case True
      then obtain h where h: "q = Inr (Inr h)" by blast
      have "record_lock E sender chain to_addr amount fee net l1 h t = (u, r)" using a o h by (simp add: andthen_def)
      thus ?thesis using keepsD [OF row _ t] assms(2) o h by blast
    next
      case False
      thus ?thesis using a o t by (auto simp: andthen_def split: sum.splits)
    qed
  qed
  show ?thesis
    unfolding lock_and_bridge_def Let_def
    by (intro keeps_option keeps_if keeps_same keeps_andthen_db keeps_on_db keeps_accounts main)
qed

lemma keeps_confirm_lock [keep_rules]:
  assumes "table_step P"
  shows "keeps (in_bridge P) (confirm_lock E h l1)"
proof -
  have set: "keeps (in_bridge P) (on_db (sql_confirm_bridge_lock h))"
    using assms unfolding sql_confirm_bridge_lock_def set_lock_status_def
    by (intro keep_rules) (simp add: table_step_def)
  have go: "keeps (in_bridge P) (andthen (lock_refusal E h l1 l) (\<lambda>r. case r of Some e \<Rightarrow> give (Some e)
      | None \<Rightarrow> andthen (confirm_in_simulator h) (\<lambda>_. andthen (on_db (sql_confirm_bridge_lock h)) (\<lambda>_.
          andthen (emit (LockConfirmedOut h (bl_chain l))) (\<lambda>_. give None)))))" for l
    by (intro keep_rules set)
  show ?thesis
  proof (rule keepsI)
    fix s t r
    assume "confirm_lock E h l1 s = (t, r)" "in_bridge P s"
    thus "in_bridge P t" using keepsD [OF go] by (auto simp: confirm_lock_def split: option.splits)
  qed
qed

lemma keeps_confirm_pending:
  assumes "table_step P"
  shows "keeps (in_bridge P) (confirm_pending_locks E)"
proof -
  have look: "keeps (in_bridge P) (\<lambda>t. (t, g t))" for g :: "bridge \<Rightarrow> (store_fault, 'a) result" by (auto simp: keeps_def)
  have "keeps (in_bridge P) (andthen (each (\<lambda>h. andthen (confirm_lock E h []) (\<lambda>r. give (h, r))) hs) (\<lambda>rs t. (t, g rs t)))"
    for hs and g :: "(string \<times> string option) list \<Rightarrow> bridge \<Rightarrow> (store_fault, 'a) result"
    by (intro keep_rules keeps_confirm_lock assms look)
  hence "keeps (in_bridge P) (\<lambda>s. andthen (each (\<lambda>h. andthen (confirm_lock E h []) (\<lambda>r. give (h, r))) (q s)) (\<lambda>rs t. (t, g rs t)) s)"
    for q and g :: "(string \<times> string option) list \<Rightarrow> bridge \<Rightarrow> (store_fault, 'a) result"
    by (rule keeps_state)
  thus ?thesis unfolding confirm_pending_locks_def [abs_def] by this
qed

lemma keeps_process_pending:
  assumes "table_step P"
  shows "keeps (in_bridge P) (process_pending E)"
proof -
  have "keeps (in_bridge P) (andthen (each (\<lambda>(h, l). confirm_lock E h []) hs) (\<lambda>_. give ()))" for hs :: "(string \<times> bridge_lock) list"
    by (intro keep_rules) (auto split: prod.splits intro!: keeps_confirm_lock assms)
  thus ?thesis by (auto simp: keeps_def process_pending_def)
qed

section \<open>Runs\<close>

text \<open>The operations the node, its users, the oracle and the clock can call; each in its own environment.\<close>

datatype bridge_op =
    Send string string string pyfloat string
  | Receive gate_ports envelope
  | Notice string string pyfloat string
  | ConfirmOne string string
  | ConfirmAll
  | GiveBack string
  | Tick

primrec bridge_action :: "bridge_op \<Rightarrow> bridge_env \<Rightarrow> (bridge, unit) action" where
  "bridge_action (Send sender chain to_addr amount l1) E = andthen (port_lock E sender chain to_addr amount l1) (\<lambda>_. give ())"
| "bridge_action (Receive G en) E = andthen (port_confirm_incoming E G en) (\<lambda>_. give ())"
| "bridge_action (Notice tx recipient amount chain) E = on_incoming E tx recipient amount chain"
| "bridge_action (ConfirmOne h l1) E = andthen (port_confirm_lock E h l1) (\<lambda>_. give ())"
| "bridge_action ConfirmAll E = andthen (confirm_pending_locks E) (\<lambda>_. give ())"
| "bridge_action (GiveBack h) E = andthen (port_refund E h) (\<lambda>_. give ())"
| "bridge_action Tick E = process_pending E"

definition bridge_run :: "(bridge_env \<times> bridge_op) list \<Rightarrow> bridge \<Rightarrow> bridge" where
  "bridge_run ops s = fold (\<lambda>(E, op) s. fst (bridge_action op E s)) ops s"

text \<open>A property of the tables that steps keep, and that a new lock keeps under the hashes an operation may write.\<close>

lemma keeps_port_incoming:
  assumes "table_step P"
  shows "keeps (in_bridge P) (port_confirm_incoming E G en)"
proof -
  have pass: "keeps (in_bridge P) (andthen (confirm_incoming E tx r x c l1 i) (\<lambda>a. give (wrap_inbound a)))" for tx r x c l1 i
    by (intro keep_rules assms)
  have refuse: "keeps (in_bridge P) (andthen (emit e) (\<lambda>_. give q))" for e and q :: op_result
    by (intro keep_rules)
  show ?thesis
    unfolding port_confirm_incoming_def Let_def
    by (cases "validate_inbound E G en"; cases "fst (validate_inbound E G en)") (simp_all add: pass refuse)
qed

lemma keeps_bridge_action:
  assumes "table_step P"
    and "\<And>sender chain to_addr amount l1. op = Send sender chain to_addr amount l1 \<Longrightarrow>
      keeps (in_bridge P) (lock_and_bridge E sender chain to_addr amount l1)"
  shows "keeps (in_bridge P) (bridge_action op E)"
proof -
  have refunds: "keeps (in_tables P) (refund_pending_bridge_lock N h)" for N h
    using assms(1) by (intro keeps_refund) (simp add: table_step_def)
  have quiet: "keeps (in_bridge P) (andthen m (\<lambda>r. give (f r)))" if "keeps (in_bridge P) m"
    for f :: "'a \<Rightarrow> 'b" and m :: "(bridge, 'a) action"
    by (intro keep_rules that)
  have quiet2: "keeps (in_bridge P) (andthen (andthen m (\<lambda>r. give (f r))) (\<lambda>_. give ()))" if "keeps (in_bridge P) m"
    for f :: "'a \<Rightarrow> 'b" and m :: "(bridge, 'a) action"
    by (intro keep_rules that)
  note rules = keeps_port_incoming [OF assms(1)] keeps_confirm_incoming [OF assms(1)] keeps_confirm_lock [OF assms(1)]
    keeps_confirm_pending [OF assms(1)] keeps_process_pending [OF assms(1)]
  show ?thesis
  proof (cases op)
    case (Send sender chain to_addr amount l1)
    thus ?thesis using assms(2) by (simp add: port_lock_def quiet2)
  qed (simp_all add: on_incoming_def port_confirm_lock_def port_refund_def bridge_refund_def rules quiet quiet2 refunds keeps_on_db)
qed

lemma bridge_run_Cons: "bridge_run ((E, op) # ops) s = bridge_run ops (fst (bridge_action op E s))"
  by (simp add: bridge_run_def)

lemma bridge_run_keeps:
  assumes "\<And>E op. (E, op) \<in> set ops \<Longrightarrow> keeps (in_bridge P) (bridge_action op E)" "in_bridge P s"
  shows "in_bridge P (bridge_run ops s)"
  using assms
proof (induction ops arbitrary: s)
  case Nil
  thus ?case by (simp add: bridge_run_def)
next
  case (Cons x ops)
  obtain E op where x: "x = (E, op)" by fastforce
  obtain t r where t: "bridge_action op E s = (t, r)" by fastforce
  have "keeps (in_bridge P) (bridge_action op E)" using Cons.prems(1) x by simp
  from keepsD [OF this t Cons.prems(2)] have "in_bridge P t" .
  thus ?case using Cons.IH [of t] Cons.prems(1) x t by (simp add: bridge_run_Cons)
qed

section \<open>One credit for one event\<close>

definition credited :: "string \<Rightarrow> bridge_tables \<Rightarrow> bool" where
  "credited k t \<longleftrightarrow> map_of (bt_credits t) k \<noteq> None"

lemma credited_kept: "table_step (credited k)"
  by (auto simp: table_step_def credited_def map_add_def split: option.splits)

lemma credited_stays:
  assumes "in_bridge (credited k) s"
  shows "in_bridge (credited k) (bridge_run ops s)"
proof -
  have "keeps (in_bridge (credited k)) (lock_and_bridge E sender chain to_addr amount l1)" for E sender chain to_addr amount l1
    by (rule keeps_locking [where hash = "\<lambda>h. True"]) (simp_all add: credited_def)
  hence "keeps (in_bridge (credited k)) (bridge_action op E)" for E op by (intro keeps_bridge_action credited_kept)
  thus ?thesis using bridge_run_keeps [of ops] assms by blast
qed

lemma claim_credits:
  assumes "claim_and_credit N sha chain event recipient amount i tx now d = (e, Inr (True, k))"
  shows "k = bridge_credit_key sha chain event i \<and> in_tables (credited k) e"
  using assms
  by (auto simp: claim_and_credit_def Let_def bridge_atomic_def bridge_commit_def in_tables_def credited_def insert_credit_def
      write_tables_def on_accounts_def set_lock_status_def map_add_def andthen_def has_bridge_credit_def
      split: if_splits prod.splits sum.splits option.splits)

lemma incoming_refusal_db:
  "incoming_refusal E tx recipient amount chain l1 s = (t, r) \<Longrightarrow> bg_db t = bg_db s"
  by (cases "be_mode E")
    (auto simp: incoming_refusal_def call_rust_ok_def call_rust_raw_def andthen_def Let_def split: if_splits)

text \<open>Behind every confirmation stands one claim in the database.\<close>

lemma incoming_claims:
  assumes "confirm_incoming E tx recipient amount chain l1 i s = (t, Inr (IncomingConfirmed k))"
  shows "claim_and_credit (be_native E) (be_sha E) chain (py_strip (if l1 \<noteq> [] then l1 else tx)) recipient amount i tx (be_now E)
    (bg_db s) = (bg_db t, Inr (True, k))"
proof -
  let ?event = "py_strip (if l1 \<noteq> [] then l1 else tx)" let ?k = "bridge_credit_key (be_sha E) chain ?event i"
  define s1 where "s1 = (if l1 \<noteq> [] then enqueue_l1_incoming E l1 recipient amount chain tx else id) s"
  obtain s2 where s2: "incoming_refusal E tx recipient amount chain l1 s1 = (s2, Inr None)"
    and rest: "andthen (on_db (claim_and_credit (be_native E) (be_sha E) chain ?event recipient amount i tx (be_now E))) (\<lambda>(new, key).
                   if \<not> new then give (IncomingDuplicate key)
                   else andthen (confirm_in_simulator tx) (\<lambda>_.
                        andthen (emit (BridgeCredited tx ?event i recipient amount chain)) (\<lambda>_.
                          give (IncomingConfirmed ?k)))) s2 = (t, Inr (IncomingConfirmed k))"
    using assms
    by (auto simp: confirm_incoming_def Let_def andthen_def on_bridge_def s1_def
        split: if_splits prod.splits sum.splits option.splits)
  obtain d q where c: "claim_and_credit (be_native E) (be_sha E) chain ?event recipient amount i tx (be_now E) (bg_db s2) = (d, q)" by fastforce
  obtain key where q: "q = Inr (True, key)" and k: "k = ?k" and t: "bg_db t = d"
    using rest c by (auto simp: andthen_def on_db_def confirm_in_simulator_def on_bridge_def emit_def
        split: if_splits prod.splits sum.splits)
  have "bg_db s2 = bg_db s" using incoming_refusal_db [OF s2] by (simp add: s1_def)
  moreover have "key = ?k" using claim_credits [OF c [unfolded q]] by simp
  ultimately show ?thesis using c q k t by simp
qed

lemma incoming_credits:
  assumes "confirm_incoming E tx recipient amount chain l1 i s = (t, Inr (IncomingConfirmed k))"
  shows "k = bridge_credit_key (be_sha E) chain (py_strip (if l1 \<noteq> [] then l1 else tx)) i \<and> in_bridge (credited k) t"
  using claim_credits [OF incoming_claims [OF assms]] by metis

text \<open>
  C10. An event of another chain is credited at most once: after it was confirmed, whatever operations follow in whatever
  environments, no message with the same chain, transaction and log index, up to case and surrounding space, credits
  anybody or changes anything at all, whatever recipient and amount it names.
\<close>

theorem bridge_event_credited_once:
  assumes "confirm_incoming E tx recipient amount chain l1 i s = (t, Inr (IncomingConfirmed k))"
    and "be_sha E' = be_sha E" "norm_hash chain' = norm_hash chain"
    and "norm_hash (if l1' \<noteq> [] then l1' else tx') = norm_hash (if l1 \<noteq> [] then l1 else tx)"
  shows "\<exists>a. confirm_incoming E' tx' recipient' amount' chain' l1' i (bridge_run ops t) = (bridge_run ops t, Inr a) \<and>
    a \<in> {IncomingDuplicate k, IncomingRefused ''event_recipient_amount_required''}"
proof -
  let ?event = "py_strip (if l1 \<noteq> [] then l1 else tx)" and ?event' = "py_strip (if l1' \<noteq> [] then l1' else tx')"
  have "credit_text chain' ?event' i = credit_text chain ?event i"
    using assms(3,4) by (simp add: credit_text_def norm_hash_def py_lower_def)
  hence k: "bridge_credit_key (be_sha E') chain' ?event' i = k"
    using incoming_credits [OF assms(1)] assms(2) by (simp add: bridge_credit_key_def)
  have "in_bridge (credited k) (bridge_run ops t)"
    using credited_stays incoming_credits [OF assms(1)] by blast
  hence "has_bridge_credit k (bg_db (bridge_run ops t))" by (simp add: in_tables_def credited_def has_bridge_credit_def)
  thus ?thesis using k by (auto simp: confirm_incoming_def Let_def)
qed

section \<open>One refund for one lock\<close>

definition settled :: "string \<Rightarrow> bridge_tables \<Rightarrow> bool" where
  "settled h t \<longleftrightarrow> (case map_of (bt_locks t) h of None \<Rightarrow> True | Some l \<Rightarrow> bl_status l \<noteq> ''pending'')"

lemma modified_lock: "map_of (dict_modify k f d) h = (if h = k then map_option f (map_of d h) else map_of d h)"
  by (simp add: dict_modify_def update_conv' split: option.splits)

lemma settled_kept: "table_step (settled h)"
  by (auto simp: table_step_def settled_def modified_lock split: option.splits)

text \<open>A lock made with another hash: on the binary's path the hash of the escrow is the hash of the lock.\<close>

definition other_hash :: "string \<Rightarrow> bridge_env \<Rightarrow> bridge_op \<Rightarrow> bool" where
  "other_hash h E op =
     (case op of Send sender chain to_addr amount l1 \<Rightarrow> be_mode E = RustMode \<and> l1 \<noteq> [] \<and> l1 \<noteq> h | _ \<Rightarrow> True)"

lemma rust_hash:
  assumes "outbound_hash E sender chain to_addr net l1 s = (t, Inr (Inr h))" "be_mode E = RustMode" "l1 \<noteq> []"
  shows "h = l1 \<and> bg_db t = bg_db s"
  using assms
  by (auto simp: outbound_hash_def call_rust_ok_def call_rust_raw_def andthen_def Let_def split: if_splits)

lemma settled_stays:
  assumes "list_all (\<lambda>(E, op). other_hash h E op) ops" "in_bridge (settled h) s"
  shows "in_bridge (settled h) (bridge_run ops s)"
proof -
  have "keeps (in_bridge (settled h)) (bridge_action op E)" if "other_hash h E op" for E op
  proof (rule keeps_bridge_action [OF settled_kept])
    fix sender chain to_addr amount l1
    assume "op = Send sender chain to_addr amount l1"
    hence rust: "be_mode E = RustMode" "l1 \<noteq> []" "l1 \<noteq> h" using that by (simp_all add: other_hash_def)
    show "keeps (in_bridge (settled h)) (lock_and_bridge E sender chain to_addr amount l1)"
    proof (rule keeps_locking [where hash = "\<lambda>k. k \<noteq> h"])
      fix c net k s t
      assume "outbound_hash E sender c to_addr net l1 s = (t, Inr (Inr k))"
      thus "k \<noteq> h" using rust_hash rust by blast
    qed (auto simp: settled_def dict_replace_def map_add_def delete_conv' split: option.splits)
  qed
  moreover have "other_hash h E op" if "(E, op) \<in> set ops" for E op using assms(1) that by (auto simp: list_all_iff)
  ultimately show ?thesis using bridge_run_keeps [of ops] assms(2) by blast
qed

lemma refund_settles:
  assumes "bridge_refund E h s = (t, Inr (Some x))"
  shows "in_bridge (settled h) t"
  using assms
  by (auto simp: bridge_refund_def on_db_def refund_pending_bridge_lock_def bridge_atomic_def bridge_commit_def in_tables_def
      settled_def andthen_def on_accounts_def set_lock_status_def write_tables_def modified_lock
      split: if_splits prod.splits sum.splits option.splits)

text \<open>
  C11. A lock is refunded at most once: after a refund, whatever operations follow, as long as nobody locks under the same
  hash again, a further refund pays nothing and leaves all accounts as they are.
\<close>

theorem lock_refunded_once:
  assumes "bridge_refund E h s = (t, Inr (Some x))" "list_all (\<lambda>(E, op). other_hash h E op) ops"
  shows "\<exists>u r. bridge_refund E' h (bridge_run ops t) = (u, r) \<and> r \<in> {Inr None, Inl StorageFault} \<and>
    sc_live (bd_conn (bg_db u)) = sc_live (bd_conn (bg_db (bridge_run ops t)))"
proof -
  have "in_bridge (settled h) (bridge_run ops t)" by (rule settled_stays [OF assms(2) refund_settles [OF assms(1)]])
  thus ?thesis
    by (auto simp: bridge_refund_def on_db_def refund_pending_bridge_lock_def bridge_atomic_def bridge_commit_def sql_commit_def
        in_tables_def settled_def split: option.splits)
qed

section \<open>Locks that are lost\<close>

lemma claim_confirms:
  assumes "claim_and_credit N sha chain event recipient amount i h now d = (e, Inr (True, k))"
    and "map_of (bt_locks (bd_live d)) (py_strip h) = Some l" "py_strip h \<noteq> []"
  shows "map_of (bt_locks (bd_live e)) (py_strip h) = Some (l\<lparr>bl_status := ''confirmed''\<rparr>) \<and> in_tables (settled (py_strip h)) e"
  using assms
  by (auto simp: claim_and_credit_def Let_def bridge_atomic_def bridge_commit_def in_tables_def settled_def insert_credit_def
      write_tables_def on_accounts_def set_lock_status_def modified_lock andthen_def
      split: if_splits prod.splits sum.splits option.splits)

text \<open>
  C19. An incoming event that names a lock takes the lock away from its owner: the claim marks the lock confirmed
  whatever its state is and without asking for a confirmation of the other chain, and the lock is not refunded any more,
  although the state machine lets only a pending lock be confirmed.
\<close>

theorem incoming_event_confirms_lock:
  assumes "confirm_incoming E h recipient amount chain l1 i s = (t, Inr (IncomingConfirmed k))"
    and "map_of (bt_locks (bd_live (bg_db s))) (py_strip h) = Some l" "py_strip h \<noteq> []"
    and "list_all (\<lambda>(E, op). other_hash (py_strip h) E op) ops"
  shows "map_of (bt_locks (bd_live (bg_db t))) (py_strip h) = Some (l\<lparr>bl_status := ''confirmed''\<rparr>) \<and>
    (\<forall>x. snd (bridge_refund E' (py_strip h) (bridge_run ops t)) \<noteq> Inr (Some x))"
proof -
  note c = claim_confirms [OF incoming_claims [OF assms(1)] assms(2,3)]
  have "in_bridge (settled (py_strip h)) (bridge_run ops t)" using settled_stays assms(4) c by blast
  thus ?thesis
    using c
    by (auto simp: bridge_refund_def on_db_def refund_pending_bridge_lock_def bridge_atomic_def in_tables_def settled_def
        split: option.splits prod.splits if_splits)
qed

lemma lock_row:
  assumes "lock_and_bridge E sender chain to_addr amount h s = (t, Inr (Inr r))" "be_mode E = RustMode" "h \<noteq> []"
  shows "lr_hash r = h \<and> map_of (bt_locks (bd_live (bg_db t))) h =
    Some \<lparr>bl_from = sender, bl_chain = normalize_chain chain, bl_to = to_addr, bl_amount = lr_net r, bl_status = ''pending'', bl_created = be_now E\<rparr>"
proof -
  let ?chain = "normalize_chain chain" let ?fee = "fmul amount (fee_rate ?chain)" let ?net = "fsub amount ?fee"
  obtain s1 s2 k where o: "outbound_hash E sender ?chain to_addr ?net h s1 = (s2, Inr (Inr k))"
    and rec: "record_lock E sender ?chain to_addr amount ?fee ?net h k s2 = (t, Inr (Inr r))"
    using assms(1)
    by (auto simp: lock_and_bridge_def Let_def andthen_def split: option.splits if_splits prod.splits sum.splits)
  have k: "k = h" using rust_hash [OF o assms(2,3)] by simp
  obtain d where d: "debit_and_create_bridge_lock (be_native E) sender amount (be_burn_address E) (fmul ?fee (be_burn_rate E))
      ?chain to_addr ?net h (be_now E) (bg_db s2) = (d, Inr ())" "bg_db t = d" "lr_hash r = h" "lr_net r = ?net"
    using rec assms(3) k
    by (auto simp: record_lock_def andthen_def on_db_def on_bridge_def emit_def split: prod.splits sum.splits)
  have "map_of (bt_locks (bd_live d)) h =
    Some \<lparr>bl_from = sender, bl_chain = ?chain, bl_to = to_addr, bl_amount = ?net, bl_status = ''pending'', bl_created = be_now E\<rparr>"
    using d(1)
    by (auto simp: debit_and_create_bridge_lock_def bridge_atomic_def bridge_commit_def andthen_def insert_lock_def write_tables_def
        dict_replace_def map_add_def delete_conv' split: if_splits prod.splits sum.splits)
  thus ?thesis using d by simp
qed

text \<open>
  A lock is taken over by whoever locks under the same escrow transaction: the row is replaced, so that a refund pays the
  second sender, and the first one, whose coins were debited, is in no row any more.
\<close>

theorem second_lock_takes_over:
  assumes "lock_and_bridge E a chain to_addr amount h s = (t, Inr (Inr r))" "be_mode E = RustMode" "h \<noteq> []"
    and "lock_and_bridge E' b chain' to_addr' amount' h t = (u, Inr (Inr r'))" "be_mode E' = RustMode"
  shows "map_option bl_from (map_of (bt_locks (bd_live (bg_db t))) h) = Some a \<and>
    map_option bl_from (map_of (bt_locks (bd_live (bg_db u))) h) = Some b"
  using lock_row [OF assms(1-3)] lock_row [OF assms(4,5,3)] by simp

section \<open>Accounts\<close>

lemma apply_delta_sat:
  assumes "to_satoshi no_native (str_number x) = Inr n" "current_satoshi no_native a c = Inr m"
  shows "\<exists>d. sql_apply_balance_delta no_native a (str_number x) c = (d, Inr ()) \<and>
    (\<forall>b. current_satoshi no_native b d = (if b = a then Inr (max 0 (m + n)) else current_satoshi no_native b c))"
proof -
  have delta: "apply_delta_satoshi no_native k (str_number x) = Inr (max 0 (k + n))" for k
    using assms(1) by (simp add: apply_delta_satoshi_def str_number_def)
  show ?thesis
    using assms(2)
    by (cases "map_of (st_accounts (sc_live c)) a")
      (auto simp: sql_apply_balance_delta_def delta put_balance_def from_satoshi_float_def sql_write_def current_satoshi_def
        sql_row_def update_conv)
qed

lemma opened_sat [simp]: "current_satoshi N a (c\<lparr>sc_open := b\<rparr>) = current_satoshi N a c"
  "current_satoshi N a (sql_commit c) = current_satoshi N a c"
  by (simp_all add: current_satoshi_def sql_row_def sql_commit_def)

lemma claim_pays:
  assumes "\<bar>n\<bar> < 10 ^ 15" "current_satoshi no_native recipient (bd_conn d) = Inr m" "\<not> sc_open (bd_conn d)"
    and "\<not> has_bridge_credit (bridge_credit_key sha chain event i) d"
  shows "\<exists>e. claim_and_credit no_native sha chain event recipient (coins n) i tx now d =
      (e, Inr (True, bridge_credit_key sha chain event i)) \<and> \<not> sc_open (bd_conn e) \<and>
    (\<forall>b. current_satoshi no_native b (bd_conn e) =
       (if b = recipient then Inr (max 0 (m + n)) else current_satoshi no_native b (bd_conn d))) \<and>
    (\<forall>j. has_bridge_credit j e \<longleftrightarrow> j = bridge_credit_key sha chain event i \<or> has_bridge_credit j d)"
proof -
  let ?c = "(bd_conn d)\<lparr>sc_open := True\<rparr>"
  have "current_satoshi no_native recipient ?c = Inr m" using assms(2) by simp
  from apply_delta_sat [OF satoshi_through_float [OF assms(1)] this] obtain c where
    c: "sql_apply_balance_delta no_native recipient (str_number (coins n)) ?c = (c, Inr ())"
      "\<And>b. current_satoshi no_native b c = (if b = recipient then Inr (max 0 (m + n)) else current_satoshi no_native b ?c)"
    by blast
  have again: "d\<lparr>bd_conn := ?c, bd_live := l, bd_conn := ?c\<lparr>sc_open := True\<rparr>\<rparr> = d\<lparr>bd_conn := ?c, bd_live := l\<rparr>" for l by simp
  show ?thesis
    using assms(3,4) c
    by (auto simp: claim_and_credit_def Let_def bridge_atomic_def bridge_commit_def andthen_def insert_credit_def write_tables_def
        on_accounts_def set_lock_status_def has_bridge_credit_def sql_commit_def map_add_def current_satoshi_def sql_row_def
        split: option.splits)
qed

text \<open>The binary says yes to the event, and it was not credited under this name of the chain.\<close>

lemma incoming_pays:
  assumes "0 < n" "n < 10 ^ 15" "be_native E = no_native" "be_mode E = RustMode" "\<And>args. be_rust E ''incoming'' args = RustReply (Some ''ok'') h"
    and "py_strip l1 \<noteq> []" "recipient \<noteq> []"
    and "current_satoshi no_native recipient (bd_conn (bg_db s)) = Inr m" "\<not> sc_open (bd_conn (bg_db s))"
    and "\<not> has_bridge_credit (bridge_credit_key (be_sha E) chain (py_strip l1) i) (bg_db s)"
  shows "\<exists>t. confirm_incoming E tx recipient (coins n) chain l1 i s =
      (t, Inr (IncomingConfirmed (bridge_credit_key (be_sha E) chain (py_strip l1) i))) \<and> \<not> sc_open (bd_conn (bg_db t)) \<and>
    current_satoshi no_native recipient (bd_conn (bg_db t)) = Inr (max 0 (m + n)) \<and>
    (\<forall>j. has_bridge_credit j (bg_db t) \<longleftrightarrow>
       j = bridge_credit_key (be_sha E) chain (py_strip l1) i \<or> has_bridge_credit j (bg_db s))"
proof -
  have small: "\<bar>n\<bar> < 10 ^ 15" using assms(1,2) by simp
  have l1: "l1 \<noteq> []" using assms(6) by auto
  have "from_satoshi n = of_int n / of_int satoshi_multiplier"
    unfolding from_satoshi_def by (rule satoshi_exact) (use assms(1,2) in simp)
  hence positive: "\<not> coins n \<le> 0" using assms(1) f64_pos [of "from_satoshi n"] by (simp add: satoshi_multiplier_def not_le)
  obtain e where e: "claim_and_credit no_native (be_sha E) chain (py_strip l1) recipient (coins n) i tx (be_now E) (bg_db s) =
      (e, Inr (True, bridge_credit_key (be_sha E) chain (py_strip l1) i))" "\<not> sc_open (bd_conn e)"
      "current_satoshi no_native recipient (bd_conn e) = Inr (max 0 (m + n))"
      "\<And>j. has_bridge_credit j e \<longleftrightarrow> j = bridge_credit_key (be_sha E) chain (py_strip l1) i \<or> has_bridge_credit j (bg_db s)"
    using claim_pays [OF small assms(8,9,10), of tx "be_now E"] by auto
  have asked: "\<exists>s2. incoming_refusal E tx recipient (coins n) chain l1 s1 = (s2, Inr None) \<and> bg_db s2 = bg_db s1" for s1
    using l1 by (simp add: incoming_refusal_def assms(4,5) call_rust_ok_def call_rust_raw_def andthen_def Let_def)
  obtain s2 where s2: "incoming_refusal E tx recipient (coins n) chain l1 (enqueue_l1_incoming E l1 recipient (coins n) chain tx s) = (s2, Inr None)"
      "bg_db s2 = bg_db s"
    using asked [of "enqueue_l1_incoming E l1 recipient (coins n) chain tx s"] by auto
  show ?thesis
    using l1 assms(6,7,10) positive s2 e
    by (simp add: confirm_incoming_def Let_def assms(3) andthen_def on_bridge_def on_db_def confirm_in_simulator_def emit_def)
qed

text \<open>
  C18. One event is paid twice when it comes under two names of its chain: the replay key is made from the name as it was sent,
  while the binary takes \<open>eth\<close> and \<open>ethereum\<close> for the same chain.
\<close>

theorem aliased_event_paid_twice:
  assumes "0 < n" "n < 10 ^ 15" "be_native E = no_native" "be_mode E = RustMode" "\<And>args. be_rust E ''incoming'' args = RustReply (Some ''ok'') h"
    and "py_strip l1 \<noteq> []" "recipient \<noteq> []"
    and "current_satoshi no_native recipient (bd_conn (bg_db s)) = Inr m" "0 \<le> m" "\<not> sc_open (bd_conn (bg_db s))"
    and "bt_credits (bd_live (bg_db s)) = []"
    and "bridge_credit_key (be_sha E) ''eth'' (py_strip l1) i \<noteq> bridge_credit_key (be_sha E) ''ethereum'' (py_strip l1) i"
  shows "\<exists>t u j k. confirm_incoming E tx recipient (coins n) ''eth'' l1 i s = (t, Inr (IncomingConfirmed j)) \<and>
    confirm_incoming E tx recipient (coins n) ''ethereum'' l1 i t = (u, Inr (IncomingConfirmed k)) \<and>
    current_satoshi no_native recipient (bd_conn (bg_db u)) = Inr (m + 2 * n)"
proof -
  let ?k = "\<lambda>chain. bridge_credit_key (be_sha E) chain (py_strip l1) i"
  have none: "\<not> has_bridge_credit j (bg_db s)" for j using assms(11) by (simp add: has_bridge_credit_def)
  obtain t where t: "confirm_incoming E tx recipient (coins n) ''eth'' l1 i s = (t, Inr (IncomingConfirmed (?k ''eth'')))"
      "\<not> sc_open (bd_conn (bg_db t))" "current_satoshi no_native recipient (bd_conn (bg_db t)) = Inr (max 0 (m + n))"
      "\<And>j. has_bridge_credit j (bg_db t) \<longleftrightarrow> j = ?k ''eth'' \<or> has_bridge_credit j (bg_db s)"
    using incoming_pays [OF assms(1-8,10) none, where chain = "''eth''" and i = i and tx = tx] by auto
  have "\<not> has_bridge_credit (?k ''ethereum'') (bg_db t)" using t(4) none assms(12) by simp
  from incoming_pays [OF assms(1-7) t(3,2) this, of tx] obtain u where
    "confirm_incoming E tx recipient (coins n) ''ethereum'' l1 i t = (u, Inr (IncomingConfirmed (?k ''ethereum'')))"
    "current_satoshi no_native recipient (bd_conn (bg_db u)) = Inr (max 0 (max 0 (m + n) + n))"
    by auto
  thus ?thesis using t(1) assms(1,9) by auto
qed

text \<open>What a refund of a pending lock pays, and what the debit of a lock takes.\<close>

lemma refund_pays:
  assumes "map_of (bt_locks (bd_live d)) h = Some l" "bl_status l = ''pending''" "\<not> sc_open (bd_conn d)"
    and "to_satoshi no_native (str_number (bl_amount l)) = Inr n" "current_satoshi no_native (bl_from l) (bd_conn d) = Inr m"
  shows "\<exists>e. refund_pending_bridge_lock no_native h d = (e, Inr (Some (bl_amount l))) \<and> \<not> sc_open (bd_conn e) \<and>
    (\<forall>b. current_satoshi no_native b (bd_conn e) =
       (if b = bl_from l then Inr (max 0 (m + n)) else current_satoshi no_native b (bd_conn d)))"
proof -
  let ?c = "(bd_conn d)\<lparr>sc_open := True\<rparr>"
  have "current_satoshi no_native (bl_from l) ?c = Inr m" using assms(5) by simp
  from apply_delta_sat [OF assms(4) this] obtain c where
    c: "sql_apply_balance_delta no_native (bl_from l) (str_number (bl_amount l)) ?c = (c, Inr ())"
      "\<And>b. current_satoshi no_native b c = (if b = bl_from l then Inr (max 0 (m + n)) else current_satoshi no_native b ?c)"
    by blast
  show ?thesis
    using assms(1-3) c
    by (auto simp: refund_pending_bridge_lock_def bridge_atomic_def bridge_commit_def andthen_def on_accounts_def
        set_lock_status_def write_tables_def sql_commit_def current_satoshi_def sql_row_def)
qed

lemma sql_balance_sat:
  assumes "current_satoshi no_native a c = Inr m"
  shows "sql_balance no_native a c = Inr (max 0 m)"
  using assms
  by (auto simp: sql_balance_def current_satoshi_def account_satoshi_def row_number_def amount_result_def str_number_def
      split: option.splits)

lemma debit_takes:
  assumes "lock_debit no_native sender amount d = (e, Inr ())" "to_satoshi no_native (str_number amount) = Inr a"
    and "current_satoshi no_native sender (bd_conn d) = Inr m" "0 \<le> m" "m < 10 ^ 15"
  shows "0 \<le> a \<and> a \<le> m \<and> (\<forall>b. current_satoshi no_native b (bd_conn e) =
    (if b = sender then Inr (m - a) else current_satoshi no_native b (bd_conn d)))"
proof -
  have bal: "sql_balance no_native sender (bd_conn d) = Inr m" using sql_balance_sat [OF assms(3)] assms(4) by simp
  have a: "0 \<le> a \<and> a \<le> m"
    using assms(1,2) by (auto simp: lock_debit_def bal try_debit_satoshi_def split: if_splits)
  hence small: "\<bar>m - a\<bar> < 10 ^ 15" using assms(5) by simp
  have dual: "dual_write_balance no_native (str_number (coins (m - a))) = Inr (m - a, coins (m - a))"
    using satoshi_through_float [OF small] a by (simp add: dual_write_balance_def from_satoshi_float_def)
  let ?row = "sql_row sender (bd_conn d)"
  obtain c where c: "sql_save no_native sender (str_number (coins (m - a)))
        (case ?row of None \<Rightarrow> 0 | Some r \<Rightarrow> sa_nonce r) (Option.bind ?row sa_code) (Option.bind ?row sa_storage) (bd_conn d) = (c, Inr ())"
      "\<And>b. current_satoshi no_native b c = (if b = sender then Inr (max 0 (m - a)) else current_satoshi no_native b (bd_conn d))"
    using sql_save_sat [OF small] by blast
  have "bd_conn e = sql_write (\<lambda>t. t\<lparr>st_accounts := dict_modify sender (\<lambda>r. r\<lparr>sa_satoshi := Some (m - a), sa_balance := coins (m - a)\<rparr>)
      (st_accounts t)\<rparr>) (sql_commit c)"
    using assms(1,2) a c(1)
    by (auto simp: lock_debit_def bal try_debit_satoshi_def from_satoshi_float_def dual Let_def andthen_def bridge_committing_def
        on_accounts_def bridge_commit_def split: if_splits)
  moreover have "current_satoshi no_native b (sql_write (\<lambda>t. t\<lparr>st_accounts := dict_modify sender f (st_accounts t)\<rparr>) x) =
      (if b = sender then (case sql_row sender x of None \<Rightarrow> Inr 0 | Some r \<Rightarrow> Inr (m - a)) else current_satoshi no_native b x)"
    if "f = (\<lambda>r. r\<lparr>sa_satoshi := Some (m - a), sa_balance := coins (m - a)\<rparr>)" for b x f
    using that by (auto simp: current_satoshi_def sql_row_def sql_write_def modified_lock split: option.splits)
  moreover have "sql_row sender (sql_commit c) = None \<Longrightarrow> m - a = 0"
    using c(2) [of sender] a by (auto simp: current_satoshi_def sql_row_def sql_commit_def)
  ultimately show ?thesis using a c(2) by (auto split: option.splits)
qed

lemma lock_takes:
  assumes "lock_and_bridge E sender chain to_addr amount h s = (t, Inr (Inr r))" "be_mode E = RustMode" "h \<noteq> []"
    and "be_native E = no_native" "sender \<noteq> be_burn_address E"
    and "to_satoshi no_native (str_number amount) = Inr a" "current_satoshi no_native sender (bd_conn (bg_db s)) = Inr m" "0 \<le> m" "m < 10 ^ 15"
  shows "0 \<le> a \<and> a \<le> m \<and> current_satoshi no_native sender (bd_conn (bg_db t)) = Inr (m - a) \<and> \<not> sc_open (bd_conn (bg_db t))"
proof -
  let ?chain = "normalize_chain chain" let ?fee = "fmul amount (fee_rate ?chain)" let ?net = "fsub amount ?fee"
  let ?burn = "fmul ?fee (be_burn_rate E)"
  obtain s2 k where o: "outbound_hash E sender ?chain to_addr ?net h s = (s2, Inr (Inr k))"
    and rec: "record_lock E sender ?chain to_addr amount ?fee ?net h k s2 = (t, Inr (Inr r))"
    using assms(1)
    by (auto simp: lock_and_bridge_def Let_def andthen_def on_db_def on_accounts_def split: option.splits if_splits prod.splits sum.splits)
  have s2: "bg_db s2 = bg_db s" using rust_hash [OF o assms(2,3)] by simp
  have debit: "debit_and_create_bridge_lock no_native sender amount (be_burn_address E) ?burn ?chain to_addr ?net k (be_now E) (bg_db s) =
      (bg_db t, Inr ())"
    using rec assms(3,4) s2
    by (auto simp: record_lock_def andthen_def on_db_def on_bridge_def emit_def split: prod.splits sum.splits)
  let ?d = "(bg_db s)\<lparr>bd_conn := (bd_conn (bg_db s))\<lparr>sc_open := True\<rparr>\<rparr>"
  obtain e where e: "lock_debit no_native sender amount ?d = (e, Inr ())"
    using debit by (auto simp: debit_and_create_bridge_lock_def bridge_atomic_def andthen_def split: if_splits prod.splits sum.splits)
  have taken: "0 \<le> a \<and> a \<le> m" "current_satoshi no_native sender (bd_conn e) = Inr (m - a)"
    using debit_takes [OF e assms(6), of m] assms(7-9) by auto
  have burn: "current_satoshi no_native sender c = current_satoshi no_native sender (bd_conn e)"
    if "sql_apply_balance_delta no_native (be_burn_address E) (str_number ?burn) (bd_conn e) = (c, Inr ())" for c
    using that assms(5)
    by (auto simp: sql_apply_balance_delta_def put_balance_def sql_write_def current_satoshi_def sql_row_def update_conv'
        split: sum.splits)
  obtain x where x: "bg_db t = x" by simp
  define burning where "burning = (if ?burn \<noteq> 0 \<and> be_burn_address E \<noteq> []
    then on_accounts (sql_apply_balance_delta no_native (be_burn_address E) (str_number ?burn)) else give ())"
  obtain e2 l where e2: "burning e = (e2, Inr ())" and commit: "x = bridge_commit (fst (insert_lock k l e2))"
    using debit e unfolding x burning_def [symmetric] debit_and_create_bridge_lock_def bridge_atomic_def andthen_def
    by (auto simp: insert_lock_def write_tables_def split: if_splits prod.splits sum.splits)
  have "current_satoshi no_native sender (bd_conn e2) = current_satoshi no_native sender (bd_conn e)"
    using e2 burn by (auto simp: burning_def on_accounts_def split: if_splits prod.splits)
  hence "current_satoshi no_native sender (bd_conn x) = current_satoshi no_native sender (bd_conn e) \<and> \<not> sc_open (bd_conn x)"
    unfolding commit by (simp add: bridge_commit_def insert_lock_def write_tables_def) (simp add: sql_commit_def)
  hence "current_satoshi no_native sender (bd_conn (bg_db t)) = current_satoshi no_native sender (bd_conn e) \<and>
    \<not> sc_open (bd_conn (bg_db t))" using x by simp
  thus ?thesis using taken by simp
qed

text \<open>
  A refund does not give back the fee: of the \<open>a\<close> satoshi a lock took, the refund of the pending lock pays the net amount. The rest
  was destroyed, the burnt part of the fee apart, which the burn address holds.
\<close>

theorem refund_keeps_the_fee:
  assumes "lock_and_bridge E sender chain to_addr amount h s = (t, Inr (Inr r))" "be_mode E = RustMode" "h \<noteq> []"
    and "be_native E = no_native" "sender \<noteq> be_burn_address E"
    and "to_satoshi no_native (str_number amount) = Inr a" "to_satoshi no_native (str_number (lr_net r)) = Inr n"
    and "current_satoshi no_native sender (bd_conn (bg_db s)) = Inr m" "0 \<le> m" "m < 10 ^ 15"
  shows "\<exists>u. bridge_refund E h t = (u, Inr (Some (lr_net r))) \<and>
    current_satoshi no_native sender (bd_conn (bg_db u)) = Inr (max 0 (m - a + n))"
proof -
  note took = lock_takes [OF assms(1-6,8-10)] and row = lock_row [OF assms(1-3)]
  let ?l = "\<lparr>bl_from = sender, bl_chain = normalize_chain chain, bl_to = to_addr, bl_amount = lr_net r, bl_status = ''pending'', bl_created = be_now E\<rparr>"
  obtain d where "refund_pending_bridge_lock no_native h (bg_db t) = (d, Inr (Some (lr_net r)))"
      "current_satoshi no_native sender (bd_conn d) = Inr (max 0 (m - a + n))"
    using refund_pays [of "bg_db t" h ?l n "m - a"] took row assms(7) by auto
  thus ?thesis by (auto simp: bridge_refund_def on_db_def assms(4))
qed

section \<open>Examples\<close>

text \<open>A production bridge whose binary says yes, and a bridge with one account and one lock.\<close>

definition open_bridge_env :: bridge_env where
  "open_bridge_env = \<lparr>be_native = no_native, be_sha = id, be_rust = (\<lambda>cmd args. RustReply (Some ''ok'') None),
     be_sim_hash = (\<lambda>a b c d x t. []), be_now = 7, be_rpc_set = (\<lambda>k. True), be_mode = RustMode, be_prod = True, be_enabled = True,
     be_require_event = True, be_require_proof = True, be_burn_rate = 0, be_burn_address = ''burn'', be_auto_confirm = 0\<rparr>"

definition one_lock_bridge :: bridge where
  "one_lock_bridge =
     (let accounts = \<lparr>st_accounts = [(''a'', \<lparr>sa_satoshi = Some 500000000, sa_balance = 500, sa_nonce = 0, sa_code = None, sa_storage = None\<rparr>),
            (''b'', \<lparr>sa_satoshi = Some 500000000, sa_balance = 500, sa_nonce = 0, sa_code = None, sa_storage = None\<rparr>)], st_pools = None\<rparr>;
          tables = \<lparr>bt_locks = [(''0xab'', \<lparr>bl_from = ''a'', bl_chain = ''bsc'', bl_to = ''x'', bl_amount = coins 5, bl_status = ''pending'',
            bl_created = 1\<rparr>)], bt_credits = []\<rparr>
      in \<lparr>bg_db = \<lparr>bd_conn = \<lparr>sc_live = accounts, sc_saved = accounts, sc_open = False\<rparr>, bd_live = tables, bd_saved = tables\<rparr>,
          bg_outbound = [], bg_incoming = [], bg_sim = None, bg_counters = \<lparr>rc_decode = 0, rc_timeout = 0, rc_bin = 0, rc_cmd = 0\<rparr>, bg_events = []\<rparr>)"

lemma open_bridge_env_simps [simp]:
  "be_native open_bridge_env = no_native" "be_mode open_bridge_env = RustMode" "be_sha open_bridge_env = id"
  "be_rust open_bridge_env cmd args = RustReply (Some ''ok'') None" "be_burn_address open_bridge_env = ''burn''"
  by (simp_all add: open_bridge_env_def)

lemma one_lock_bridge_simps [simp]:
  "\<not> sc_open (bd_conn (bg_db one_lock_bridge))" "bt_credits (bd_live (bg_db one_lock_bridge)) = []"
  "current_satoshi no_native ''a'' (bd_conn (bg_db one_lock_bridge)) = Inr 500000000"
  "current_satoshi no_native ''b'' (bd_conn (bg_db one_lock_bridge)) = Inr 500000000"
  "map_of (bt_locks (bd_live (bg_db one_lock_bridge))) ''0xab'' =
     Some \<lparr>bl_from = ''a'', bl_chain = ''bsc'', bl_to = ''x'', bl_amount = coins 5, bl_status = ''pending'', bl_created = 1\<rparr>"
  by (simp_all add: one_lock_bridge_def Let_def current_satoshi_def sql_row_def)

lemma example_strips: "py_strip ''0xcd'' = ''0xcd''" "py_strip ''0xab'' = ''0xab''" "norm_hash ''eth'' = ''eth''" "norm_hash '' ETH'' = ''eth''"
  "norm_hash ''0xcd'' = ''0xcd''" "norm_hash ''0xCD'' = ''0xcd''"
  by code_simp+

lemma example_incoming:
  "\<exists>t k. confirm_incoming open_bridge_env ''0xab'' ''b'' (coins 5) ''eth'' ''0xcd'' 0 one_lock_bridge = (t, Inr (IncomingConfirmed k))"
  using incoming_pays [of 5 open_bridge_env None "''0xcd''" "''b''" one_lock_bridge 500000000 "''eth''" 0 "''0xab''"]
  by (auto simp: example_strips has_bridge_credit_def)

theorem bridge_event_credited_once_witness:
  "\<exists>t k a. confirm_incoming open_bridge_env ''0xab'' ''b'' (coins 5) ''eth'' ''0xcd'' 0 one_lock_bridge = (t, Inr (IncomingConfirmed k)) \<and>
    confirm_incoming open_bridge_env ''0xef'' ''a'' (coins 9) '' ETH'' ''0xCD'' 0 (bridge_run [(open_bridge_env, GiveBack ''0xab'')] t) =
      (bridge_run [(open_bridge_env, GiveBack ''0xab'')] t, Inr a) \<and>
    a \<in> {IncomingDuplicate k, IncomingRefused ''event_recipient_amount_required''}"
proof -
  obtain t k where
    t: "confirm_incoming open_bridge_env ''0xab'' ''b'' (coins 5) ''eth'' ''0xcd'' 0 one_lock_bridge = (t, Inr (IncomingConfirmed k))"
    using example_incoming by blast
  from bridge_event_credited_once [OF t, of open_bridge_env "'' ETH''" "''0xCD''" "''0xef''" "''a''" "coins 9" "[(open_bridge_env, GiveBack ''0xab'')]"]
  show ?thesis using t by (auto simp: example_strips)
qed

theorem lock_refunded_once_witness:
  "\<exists>t x u r. bridge_refund open_bridge_env ''0xab'' one_lock_bridge = (t, Inr (Some x)) \<and>
    bridge_refund open_bridge_env ''0xab'' (bridge_run [(open_bridge_env, ConfirmAll)] t) = (u, r) \<and> r \<in> {Inr None, Inl StorageFault}"
proof -
  obtain d where "refund_pending_bridge_lock no_native ''0xab'' (bg_db one_lock_bridge) = (d, Inr (Some (coins 5)))"
    using refund_pays [of "bg_db one_lock_bridge" "''0xab''" _ 5 500000000] satoshi_through_float [of 5] by auto
  hence "bridge_refund open_bridge_env ''0xab'' one_lock_bridge = (one_lock_bridge\<lparr>bg_db := d\<rparr>, Inr (Some (coins 5)))"
    by (simp add: bridge_refund_def on_db_def)
  from this lock_refunded_once [OF this, of "[(open_bridge_env, ConfirmAll)]" open_bridge_env]
  show ?thesis by (auto simp: other_hash_def)
qed

theorem incoming_event_confirms_lock_witness:
  "\<exists>t k. confirm_incoming open_bridge_env ''0xab'' ''b'' (coins 5) ''eth'' ''0xcd'' 0 one_lock_bridge = (t, Inr (IncomingConfirmed k)) \<and>
    map_option bl_status (map_of (bt_locks (bd_live (bg_db t))) ''0xab'') = Some ''confirmed''"
proof -
  obtain t k where
    t: "confirm_incoming open_bridge_env ''0xab'' ''b'' (coins 5) ''eth'' ''0xcd'' 0 one_lock_bridge = (t, Inr (IncomingConfirmed k))"
    using example_incoming by blast
  from incoming_event_confirms_lock [OF t, of _ "[]" open_bridge_env] show ?thesis using t by (auto simp: example_strips)
qed

theorem aliased_event_paid_twice_witness:
  "\<exists>t u j k. confirm_incoming open_bridge_env ''0xab'' ''b'' (coins 5) ''eth'' ''0xcd'' 0 one_lock_bridge = (t, Inr (IncomingConfirmed j)) \<and>
    confirm_incoming open_bridge_env ''0xab'' ''b'' (coins 5) ''ethereum'' ''0xcd'' 0 t = (u, Inr (IncomingConfirmed k)) \<and>
    current_satoshi no_native ''b'' (bd_conn (bg_db u)) = Inr 500000010"
proof -
  have "bridge_credit_key id ''eth'' (py_strip ''0xcd'') 0 \<noteq> bridge_credit_key id ''ethereum'' (py_strip ''0xcd'') 0" by code_simp
  thus ?thesis
    using aliased_event_paid_twice [of 5 open_bridge_env None "''0xcd''" "''b''" one_lock_bridge 500000000 0 "''0xab''"]
    by (simp add: example_strips)
qed

lemma debit_succeeds:
  assumes "to_satoshi no_native (str_number amount) = Inr a" "0 \<le> a" "a \<le> m" "m < 10 ^ 15"
    and "current_satoshi no_native sender (bd_conn d) = Inr m"
  shows "\<exists>e. lock_debit no_native sender amount d = (e, Inr ())"
proof -
  have small: "\<bar>m - a\<bar> < 10 ^ 15" using assms(2-4) by simp
  have dual: "dual_write_balance no_native (str_number (coins (m - a))) = Inr (m - a, coins (m - a))"
    using satoshi_through_float [OF small] assms(3) by (simp add: dual_write_balance_def from_satoshi_float_def)
  have bal: "sql_balance no_native sender (bd_conn d) = Inr m" using sql_balance_sat [OF assms(5)] assms(2,3) by simp
  have "\<exists>c. sql_save no_native sender (str_number (coins (m - a))) n x y (bd_conn d) = (c, Inr ())" for n x y
    using sql_save_sat [OF small] by blast
  then obtain c where c: "sql_save no_native sender (str_number (coins (m - a)))
      (case sql_row sender (bd_conn d) of None \<Rightarrow> 0 | Some r \<Rightarrow> sa_nonce r) (Option.bind (sql_row sender (bd_conn d)) sa_code)
      (Option.bind (sql_row sender (bd_conn d)) sa_storage) (bd_conn d) = (c, Inr ())" by blast
  have tried: "try_debit_satoshi no_native m (str_number amount) = Inr (m - a)" using assms(1-3) by (simp add: try_debit_satoshi_def)
  show ?thesis
    using c by (simp add: lock_debit_def bal tried from_satoshi_float_def dual Let_def andthen_def bridge_committing_def on_accounts_def)
qed

text \<open>A hundred coins to Polygon cost one coin.\<close>

lemma hundred_coins: "fmul 100 (f64 (1 / 100)) = 1" "fsub 100 1 = 99" "fmul 1 0 = 0" "coins 100000000 = 100" "coins 99000000 = 99"
    "coins 500000000 = 500" "coins 400000000 = 400"
  by code_simp+

lemma hundred_sat: "to_satoshi no_native (str_number 100) = Inr 100000000" "to_satoshi no_native (str_number 99) = Inr 99000000"
  using satoshi_through_float [of 100000000] satoshi_through_float [of 99000000] by (simp_all add: hundred_coins)

lemma example_lock:
  assumes "sql_float_balance no_native sender (bd_conn (bg_db s)) = Inr x" "100 \<le> x" "\<not> sc_open (bd_conn (bg_db s))"
    and "current_satoshi no_native sender (bd_conn (bg_db s)) = Inr m" "100000000 \<le> m" "m < 10 ^ 15"
  shows "\<exists>t r. lock_and_bridge open_bridge_env sender ''polygon'' ''x'' 100 ''0xef'' s = (t, Inr (Inr r)) \<and> lr_net r = 99 \<and>
    (\<forall>b. b \<noteq> sender \<longrightarrow> sql_row b (bd_conn (bg_db t)) = sql_row b (bd_conn (bg_db s)))"
proof -
  have chain: "normalize_chain ''polygon'' = ''polygon''" "fee_rate ''polygon'' = f64 (1 / 100)" by code_simp+
  have env: "chain_refusal open_bridge_env ''polygon'' = None" "be_prod open_bridge_env" "be_enabled open_bridge_env"
      "be_require_event open_bridge_env" "be_burn_rate open_bridge_env = 0"
    by (simp_all add: open_bridge_env_def chain_refusal_def rust_l1_chains_def)
  let ?d = "(bg_db s)\<lparr>bd_conn := (bd_conn (bg_db s))\<lparr>sc_open := True\<rparr>\<rparr>"
  obtain e where e: "lock_debit no_native sender 100 ?d = (e, Inr ())"
    using debit_succeeds [OF hundred_sat(1), of m sender ?d] assms(4-6) by auto
  have others: "sql_row b (bd_conn e) = sql_row b (bd_conn (bg_db s))" if "b \<noteq> sender" for b
    using e that
    by (auto simp: lock_debit_def Let_def andthen_def bridge_committing_def on_accounts_def bridge_commit_def sql_save_def committing_def
        put_row_def sql_write_def sql_commit_def sql_row_def modified_lock update_conv' split: sum.splits prod.splits)
  show ?thesis
    using assms(1-3) e others
    by (simp add: lock_and_bridge_def Let_def chain env hundred_coins on_db_def on_accounts_def andthen_def outbound_hash_def call_rust_ok_def
        call_rust_raw_def record_lock_def debit_and_create_bridge_lock_def bridge_atomic_def insert_lock_def write_tables_def
        bridge_commit_def sql_commit_def on_bridge_def emit_def sql_row_def)
qed

lemma one_lock_floats [simp]:
  "sql_float_balance no_native ''a'' (bd_conn (bg_db one_lock_bridge)) = Inr 500"
  "sql_float_balance no_native ''b'' (bd_conn (bg_db one_lock_bridge)) = Inr 500"
  by (simp_all add: sql_float_balance_def one_lock_bridge_def Let_def sql_row_def from_satoshi_float_def amount_result_def hundred_coins)

theorem second_lock_takes_over_witness:
  "\<exists>t r u r'. lock_and_bridge open_bridge_env ''a'' ''polygon'' ''x'' 100 ''0xef'' one_lock_bridge = (t, Inr (Inr r)) \<and>
    lock_and_bridge open_bridge_env ''b'' ''polygon'' ''x'' 100 ''0xef'' t = (u, Inr (Inr r')) \<and>
    map_option bl_from (map_of (bt_locks (bd_live (bg_db u))) ''0xef'') = Some ''b''"
proof -
  obtain t r where t: "lock_and_bridge open_bridge_env ''a'' ''polygon'' ''x'' 100 ''0xef'' one_lock_bridge = (t, Inr (Inr r))"
      "\<And>b. b \<noteq> ''a'' \<Longrightarrow> sql_row b (bd_conn (bg_db t)) = sql_row b (bd_conn (bg_db one_lock_bridge))"
    using example_lock [of "''a''" one_lock_bridge 500 500000000] by auto
  have "sql_row ''b'' (bd_conn (bg_db t)) = sql_row ''b'' (bd_conn (bg_db one_lock_bridge))" using t(2) by simp
  hence "sql_float_balance no_native ''b'' (bd_conn (bg_db t)) = Inr 500" "current_satoshi no_native ''b'' (bd_conn (bg_db t)) = Inr 500000000"
    using one_lock_floats(2) one_lock_bridge_simps(4) unfolding sql_float_balance_def current_satoshi_def by simp_all
  moreover have "\<not> sc_open (bd_conn (bg_db t))"
    using lock_takes [OF t(1), of 100000000 500000000] by (simp add: hundred_sat)
  ultimately obtain u r' where u: "lock_and_bridge open_bridge_env ''b'' ''polygon'' ''x'' 100 ''0xef'' t = (u, Inr (Inr r'))"
    using example_lock [of "''b''" t 500 500000000] by auto
  show ?thesis using second_lock_takes_over [OF t(1) _ _ u] t(1) u by auto
qed

theorem refund_keeps_the_fee_witness:
  "\<exists>t r u. lock_and_bridge open_bridge_env ''a'' ''polygon'' ''x'' 100 ''0xef'' one_lock_bridge = (t, Inr (Inr r)) \<and>
    bridge_refund open_bridge_env ''0xef'' t = (u, Inr (Some 99)) \<and>
    current_satoshi no_native ''a'' (bd_conn (bg_db u)) = Inr 499000000"
proof -
  obtain t r where t: "lock_and_bridge open_bridge_env ''a'' ''polygon'' ''x'' 100 ''0xef'' one_lock_bridge = (t, Inr (Inr r))" "lr_net r = 99"
    using example_lock [of "''a''" one_lock_bridge 500 500000000] by auto
  show ?thesis
    using refund_keeps_the_fee [OF t(1), of 100000000 99000000 500000000] t by (auto simp: hundred_sat)
qed

end
