(* ===== verification/Peer_Manager.thy ===== *)
theory Peer_Manager
  imports Prelude
begin

text \<open>
  The registry of peers (\<open>network/peer_manager.py\<close>): strikes and bans, admission, the rule which of two connections to the
  same peer stays, scores and pruning. The native table of strikes is not there, as without the native library; the
  governor of connections is a parameter whose answers may change from call to call. A connection is a number, so that
  \<open>is\<close> is equality.
\<close>

section \<open>Peers\<close>

record peer =
  pr_conn :: nat
  pr_id :: string
  pr_host :: string
  pr_port :: int
  pr_listen :: int
  pr_seen :: pyfloat
  pr_height :: int
  pr_fails :: int
  pr_inbound :: bool

record mesh_settings =
  se_max_peers :: nat
  se_strikes :: int
  se_ban_seconds :: int
  se_timeout :: pyfloat
  se_evict_below :: int
  se_eclipse_ratio :: pyfloat

record subnet_view =
  sv_at_risk :: bool
  sv_densest :: string
  sv_public :: int
  sv_unique :: int
  sv_ratio :: pyfloat

text \<open>The governor, where there is one: the reason to refuse a connection, and what it says of the hosts connected.\<close>

record governor =
  gv_inbound :: "nat \<Rightarrow> string \<Rightarrow> string"
  gv_outbound :: "nat \<Rightarrow> string"
  gv_diversity :: "string list \<Rightarrow> pyfloat \<Rightarrow> subnet_view"
  gv_public :: "string \<Rightarrow> bool"
  gv_subnet :: "string \<Rightarrow> string"

record mesh =
  me_peers :: "(string, peer) dict"
  me_strikes :: "(string, int) dict"
  me_bans :: "(string, pyfloat) dict"
  me_rejects :: "(string, int) dict"
  me_closed :: "nat list"
  me_eclipse :: subnet_view
  me_prunes :: int
  me_soft :: int

definition no_view :: subnet_view where
  "no_view = \<lparr>sv_at_risk = False, sv_densest = [], sv_public = 0, sv_unique = 0, sv_ratio = 0\<rparr>"

definition peer_health_score :: "int \<Rightarrow> pyfloat \<Rightarrow> pyfloat \<Rightarrow> int \<Rightarrow> int \<Rightarrow> int" where
  "peer_health_score gap age timeout strikes fails =
     (let score = 100 - min 45 (gap * 15)
                - (if timeout \<le> age then 50 else if timeout / 2 \<le> age then 20 else 0)
                - min 48 (max 0 strikes * 12) - min 40 (max 0 fails * 10)
      in max 0 (min 100 score))"

definition peer_key :: "peer \<Rightarrow> string" where
  "peer_key p =
     (if pr_id p \<noteq> [] then pr_id p
      else pr_host p @ '':'' @ int_text (if pr_listen p \<noteq> 0 then pr_listen p else pr_port p))"

definition bump_shape :: "string \<Rightarrow> mesh \<Rightarrow> mesh" where
  "bump_shape reason m =
     (let k = (if reason = [] then ''unknown'' else reason)
      in m\<lparr>me_rejects := dict_set k (dict_get (me_rejects m) k 0 + 1) (me_rejects m)\<rparr>)"

section \<open>Bans\<close>

text \<open>An expired ban is removed by the question.\<close>

definition is_banned :: "pyfloat \<Rightarrow> string \<Rightarrow> mesh \<Rightarrow> mesh \<times> bool" where
  "is_banned now key m =
     (if key = [] then (m, False)
      else case map_of (me_bans m) key of
          None \<Rightarrow> (m, False)
        | Some until \<Rightarrow> if until \<le> now then (m\<lparr>me_bans := AList.delete key (me_bans m)\<rparr>, False) else (m, True))"

datatype mesh_fault = ChangedDuringIteration

text \<open>
  The loop over the bans whose key begins with the host. The question removes an expired ban from the table the loop runs
  over, and Python raises when it asks for the next key.
\<close>

fun any_banned :: "pyfloat \<Rightarrow> string list \<Rightarrow> mesh \<Rightarrow> mesh \<times> (mesh_fault, bool) result" where
  "any_banned now [] m = (m, ret False)"
| "any_banned now (k # ks) m =
     (case is_banned now k m of
        (t, True) \<Rightarrow> (t, ret True)
      | (t, False) \<Rightarrow> if length (me_bans t) \<noteq> length (me_bans m) then (t, raise ChangedDuringIteration) else any_banned now ks t)"

definition host_bans :: "string \<Rightarrow> mesh \<Rightarrow> string list" where
  "host_bans host m = filter (\<lambda>k. take (length host + 1) k = host @ '':'') (map fst (me_bans m))"

definition is_addr_banned :: "pyfloat \<Rightarrow> string \<Rightarrow> int \<Rightarrow> mesh \<Rightarrow> mesh \<times> (mesh_fault, bool) result" where
  "is_addr_banned now host port m =
     (case is_banned now (host @ '':'' @ int_text port) m of
        (t, True) \<Rightarrow> (t, ret True)
      | (t, False) \<Rightarrow> any_banned now (host_bans host t) t)"

text \<open>The answer is whether the peer is banned now.\<close>

definition strike :: "mesh_settings \<Rightarrow> pyfloat \<Rightarrow> peer \<Rightarrow> string \<Rightarrow> mesh \<Rightarrow> mesh \<times> bool" where
  "strike C now p reason m0 =
     (let key = peer_key p; m = bump_shape reason m0; n = dict_get (me_strikes m) key 0 + 1 in
      if n < se_strikes C then (m\<lparr>me_strikes := dict_set key n (me_strikes m)\<rparr>, False)
      else (m\<lparr>me_bans := dict_set key (fadd now (of_int (max 30 (se_ban_seconds C)))) (me_bans m),
              me_strikes := AList.delete key (me_strikes m)\<rparr>, True))"

text \<open>The node's own strike: reasons that come up between honest peers are only counted.\<close>

definition soft_reasons :: "string list" where
  "soft_reasons =
     [''validator_register_disabled'', ''unsolicited_mempool'', ''unsolicited_block'', ''unsolicited_blocks'',
      ''unsolicited_peers'', ''unsolicited_state_root_response'', ''unsolicited_state_root'', ''tip_duplicate'',
      ''attestation_local_height_mismatch'', ''rate_limit_exceeded'', ''exempt_rate_exceeded'', ''bandwidth_exceeded'',
      ''rate_limited'', ''tip_unknown_parent'']"

definition strike_peer :: "mesh_settings \<Rightarrow> pyfloat \<Rightarrow> peer \<Rightarrow> string \<Rightarrow> mesh \<Rightarrow> mesh \<times> bool" where
  "strike_peer C now p reason m =
     (let io = ''p2p_transport_io:'' in
      if reason \<in> set soft_reasons \<or> take (length io) reason = io
      then (bump_shape reason (m\<lparr>me_soft := me_soft m + 1\<rparr>), False)
      else strike C now p reason m)"

definition strike_count :: "peer \<Rightarrow> mesh \<Rightarrow> int" where
  "strike_count p m = dict_get (me_strikes m) (peer_key p) 0"

definition note_import_fail :: "string \<Rightarrow> mesh \<Rightarrow> mesh" where
  "note_import_fail i m = m\<lparr>me_peers := dict_modify i (\<lambda>p. p\<lparr>pr_fails := pr_fails p + 1\<rparr>) (me_peers m)\<rparr>"

definition expire_bans :: "pyfloat \<Rightarrow> mesh \<Rightarrow> mesh \<times> nat" where
  "expire_bans now m =
     (m\<lparr>me_bans := filter (\<lambda>(k, until). now < until) (me_bans m)\<rparr>, length (filter (\<lambda>(k, until). until \<le> now) (me_bans m)))"

definition health_timeout :: "mesh_settings \<Rightarrow> pyfloat" where
  "health_timeout C = max 30 (se_timeout C * 2)"

definition peer_score :: "pyfloat \<Rightarrow> int \<Rightarrow> pyfloat \<Rightarrow> peer \<Rightarrow> mesh \<Rightarrow> int" where
  "peer_score now local_height timeout p m =
     peer_health_score \<bar>pr_height p - local_height\<bar> (max 0 (fsub now (if pr_seen p = 0 then now else pr_seen p))) timeout
       (strike_count p m) (pr_fails p)"

section \<open>Admission\<close>

record admit_decision =
  ad_allowed :: bool
  ad_reason :: string
  ad_replaced :: bool

definition admitted :: "bool \<Rightarrow> admit_decision" where
  "admitted replaced = \<lparr>ad_allowed = True, ad_reason = [], ad_replaced = replaced\<rparr>"

definition refused :: "string \<Rightarrow> admit_decision" where
  "refused reason = \<lparr>ad_allowed = False, ad_reason = reason, ad_replaced = False\<rparr>"

definition slot_decision :: "mesh_settings \<Rightarrow> governor option \<Rightarrow> string \<Rightarrow> mesh \<Rightarrow> mesh \<times> admit_decision" where
  "slot_decision C g host m =
     (case g of
        Some gov \<Rightarrow>
          (let deny = gv_inbound gov (length (me_peers m)) host in
           if deny \<noteq> [] then (bump_shape deny m, refused deny) else (m, admitted False))
      | None \<Rightarrow>
          if se_max_peers C \<le> length (me_peers m) then (bump_shape ''max_peers'' m, refused ''max_peers'') else (m, admitted False))"

definition allow_inbound :: "mesh_settings \<Rightarrow> governor option \<Rightarrow> pyfloat \<Rightarrow> string \<Rightarrow> mesh \<Rightarrow> mesh \<times> (mesh_fault, admit_decision) result" where
  "allow_inbound C g now host m =
     (case is_addr_banned now host 0 m of
        (t, Inl e) \<Rightarrow> (t, raise e)
      | (t, Inr False) \<Rightarrow> (case slot_decision C g host t of (u, d) \<Rightarrow> (u, ret d))
      | (t, Inr True) \<Rightarrow>
          (case any_banned now (host_bans host t) t of
             (u, Inl e) \<Rightarrow> (u, raise e)
           | (u, Inr True) \<Rightarrow> (u, ret (refused ''banned''))
           | (u, Inr False) \<Rightarrow> (case slot_decision C g host u of (v, d) \<Rightarrow> (v, ret d))))"

definition allow_outbound :: "mesh_settings \<Rightarrow> governor option \<Rightarrow> mesh \<Rightarrow> admit_decision" where
  "allow_outbound C g m =
     (case g of
        Some gov \<Rightarrow> (let deny = gv_outbound gov (length (me_peers m)) in if deny \<noteq> [] then refused deny else admitted False)
      | None \<Rightarrow> if se_max_peers C \<le> length (me_peers m) then refused ''max_peers'' else admitted False)"

definition has_active_endpoint :: "string \<Rightarrow> int \<Rightarrow> mesh \<Rightarrow> bool" where
  "has_active_endpoint host port m =
     list_ex (\<lambda>p. pr_host p = host \<and> (pr_port p = port \<or> pr_listen p = port)) (dict_values (me_peers m))"

text \<open>Of two nodes the one with the lower id owns the outbound connection.\<close>

definition text_less :: "string \<Rightarrow> string \<Rightarrow> bool" where
  "text_less a b = ord_class.lexordp (map (of_char :: char \<Rightarrow> nat) a) (map of_char b)"

definition preferred_inbound_for :: "string \<Rightarrow> string \<Rightarrow> bool option" where
  "preferred_inbound_for local_id remote_id =
     (let l = py_strip local_id; r = py_strip remote_id
      in if l = [] \<or> r = [] \<or> l = r then None else Some (text_less r l))"

definition install :: "bool \<Rightarrow> peer \<Rightarrow> mesh \<Rightarrow> mesh" where
  "install inbound p m = m\<lparr>me_peers := dict_set (pr_id p) (p\<lparr>pr_inbound := inbound\<rparr>) (me_peers m)\<rparr>"

definition close_conn :: "peer \<Rightarrow> mesh \<Rightarrow> mesh" where
  "close_conn p m = m\<lparr>me_closed := me_closed m @ [pr_conn p]\<rparr>"

definition challenge ::
  "mesh_settings \<Rightarrow> pyfloat \<Rightarrow> string \<Rightarrow> bool \<Rightarrow> bool \<Rightarrow> pyfloat option \<Rightarrow> peer \<Rightarrow> peer \<Rightarrow> string option" where
  "challenge C now local_id inbound replace_stale stale_after old p =
     (let aged = (let age = max 15 (case stale_after of Some a \<Rightarrow> a | None \<Rightarrow> se_timeout C) in
                  if fsub now (pr_seen old) \<le> age then Some ''duplicate_peer'' else if replace_stale then None else Some ''duplicate_peer'')
      in case preferred_inbound_for local_id (pr_id p) of
           None \<Rightarrow> aged
         | Some prefer \<Rightarrow>
             (let cand_ok = (inbound = prefer); old_ok = (pr_inbound old = prefer) in
              if cand_ok \<and> \<not> old_ok then None
              else if old_ok \<and> \<not> cand_ok then Some ''duplicate_noncanonical''
              else if cand_ok \<and> old_ok then Some ''duplicate_peer''
              else aged))"

definition register_peer ::
  "mesh_settings \<Rightarrow> pyfloat \<Rightarrow> string \<Rightarrow> bool \<Rightarrow> bool \<Rightarrow> pyfloat option \<Rightarrow> peer \<Rightarrow> mesh \<Rightarrow> mesh \<times> admit_decision" where
  "register_peer C now local_id inbound replace_stale stale_after p m =
     (if pr_id p = [] then (m, refused ''missing_peer_id'')
      else case is_banned now (pr_id p) m of
          (t, True) \<Rightarrow> (t, refused ''banned'')
        | (t, False) \<Rightarrow>
            (case map_of (me_peers t) (pr_id p) of
               None \<Rightarrow> (install inbound p t, admitted False)
             | Some old \<Rightarrow>
                 if pr_conn old = pr_conn p then (install inbound p t, admitted False)
                 else (case challenge C now local_id inbound replace_stale stale_after old p of
                     Some reason \<Rightarrow> (t, refused reason)
                   | None \<Rightarrow> (close_conn old (install inbound p t), admitted True))))"

text \<open>With the connection that is expected to hold the slot, or \<open>None\<close> for any.\<close>

definition unregister_peer :: "string \<Rightarrow> nat option \<Rightarrow> mesh \<Rightarrow> mesh \<times> peer option" where
  "unregister_peer i expected m =
     (case map_of (me_peers m) i of
        None \<Rightarrow> (m, None)
      | Some p \<Rightarrow>
          if expected \<noteq> None \<and> expected \<noteq> Some (pr_conn p) then (m, None)
          else (close_conn p (m\<lparr>me_peers := AList.delete i (me_peers m)\<rparr>), Some p))"

section \<open>Pruning\<close>

definition refresh_eclipse :: "mesh_settings \<Rightarrow> governor option \<Rightarrow> mesh \<Rightarrow> mesh \<times> subnet_view" where
  "refresh_eclipse C g m =
     (case g of
        None \<Rightarrow> (m\<lparr>me_eclipse := no_view\<rparr>, no_view)
      | Some gov \<Rightarrow>
          (let v = gv_diversity gov (map pr_host (dict_values (me_peers m))) (se_eclipse_ratio C)
           in (m\<lparr>me_eclipse := v\<lparr>sv_densest := sv_densest (me_eclipse m)\<rparr>\<rparr>, v)))"

text \<open>The lowest score goes first, of equal ones the lowest id.\<close>

definition worst_of :: "(int \<times> peer) list \<Rightarrow> peer option" where
  "worst_of cs =
     (case cs of
        [] \<Rightarrow> None
      | c # rest \<Rightarrow> Some (snd (fold (\<lambda>x b. if fst x < fst b \<or> fst x = fst b \<and> text_less (pr_id (snd x)) (pr_id (snd b)) then x else b) rest c)))"

definition eclipse_prune :: "mesh_settings \<Rightarrow> governor option \<Rightarrow> pyfloat \<Rightarrow> int \<Rightarrow> mesh \<Rightarrow> mesh \<times> nat" where
  "eclipse_prune C g now local_height m =
     (case refresh_eclipse C g m of (t, v) \<Rightarrow>
        if se_eclipse_ratio C \<le> 0 \<or> length (me_peers m) \<le> 1 then (t, 0)
        else case g of
            None \<Rightarrow> (t, 0)
          | Some gov \<Rightarrow>
              if \<not> sv_at_risk v \<or> sv_densest v = [] then (t, 0)
              else (case worst_of (map (\<lambda>p. (peer_score now local_height (health_timeout C) p t, p))
                       (filter (\<lambda>p. gv_public gov (pr_host p) \<and> gv_subnet gov (pr_host p) = sv_densest v) (dict_values (me_peers t)))) of
                  None \<Rightarrow> (t, 0)
                | Some p \<Rightarrow> ((fst (unregister_peer (pr_id p) (Some (pr_conn p)) t))\<lparr>me_prunes := me_prunes t + 1\<rparr>, 1)))"

definition prune_one :: "mesh_settings \<Rightarrow> pyfloat \<Rightarrow> int \<Rightarrow> pyfloat \<Rightarrow> string \<times> peer \<Rightarrow> mesh \<times> nat \<Rightarrow> mesh \<times> nat" where
  "prune_one C now local_height age_limit = (\<lambda>(i, p) (m, n).
     if age_limit < fsub now (if pr_seen p = 0 then now else pr_seen p) then (fst (unregister_peer i (Some (pr_conn p)) m), n + 1)
     else if 0 < se_evict_below C \<and> 1 < length (me_peers m) \<and> peer_score now local_height (health_timeout C) p m < se_evict_below C
     then (fst (unregister_peer i (Some (pr_conn p)) m), n + 1)
     else (m, n))"

definition prune_stale :: "mesh_settings \<Rightarrow> governor option \<Rightarrow> pyfloat \<Rightarrow> int \<Rightarrow> pyfloat option \<Rightarrow> mesh \<Rightarrow> mesh \<times> nat" where
  "prune_stale C g now local_height max_age m =
     (let age_limit = (case max_age of Some a \<Rightarrow> a | None \<Rightarrow> health_timeout C) in
      case fold (prune_one C now local_height age_limit) (me_peers m) (m, 0) of
        (t, n) \<Rightarrow> (case eclipse_prune C g now local_height t of (u, k) \<Rightarrow> (fst (expire_bans now u), n + k)))"

definition retain_strike_keys :: "pyfloat \<Rightarrow> string list \<Rightarrow> mesh \<Rightarrow> mesh" where
  "retain_strike_keys now live m =
     fold (\<lambda>k s. if k \<in> set live then s
                 else case is_banned now k s of
                     (t, True) \<Rightarrow> t
                   | (t, False) \<Rightarrow>
                       if list_ex (\<lambda>p. peer_key p = k) (dict_values (me_peers t)) then t
                       else t\<lparr>me_strikes := AList.delete k (me_strikes t)\<rparr>)
       (map fst (me_strikes m)) m"

text \<open>One turn of the maintenance loop, which runs every \<open>peer_timeout\<close> seconds, at least every fifteen.\<close>

definition maintain :: "mesh_settings \<Rightarrow> governor option \<Rightarrow> pyfloat \<Rightarrow> int \<Rightarrow> mesh \<Rightarrow> mesh" where
  "maintain C g now local_height m =
     (let t = fst (prune_stale C g now local_height None m); live = map peer_key (dict_values (me_peers t))
      in t\<lparr>me_strikes := filter (\<lambda>(k, n). k \<in> set live) (me_strikes t)\<rparr>)"

end
