(* ===== verification/Peer_Props.thy ===== *)
theory Peer_Props
  imports Peer_Manager
begin

text \<open>
  What the registry of peers promises: two nodes that dial each other keep the same connection, enough strikes ban a peer
  for the time configured, and what happens at the first question after a ban has run out.
\<close>

section \<open>Order of ids\<close>

lemma text_less_linear:
  assumes "a \<noteq> b"
  shows "text_less b a \<longleftrightarrow> \<not> text_less a b"
proof -
  have "map (of_char :: char \<Rightarrow> nat) a \<noteq> map of_char b" using assms by (simp add: inj_map_eq_map inj_on_def)
  thus ?thesis unfolding text_less_def by (metis lexordp_antisym lexordp_linear)
qed

lemma preferred_Some:
  "preferred_inbound_for a b = Some x \<longleftrightarrow>
     py_strip a \<noteq> [] \<and> py_strip b \<noteq> [] \<and> py_strip a \<noteq> py_strip b \<and> x = text_less (py_strip b) (py_strip a)"
  by (auto simp: preferred_inbound_for_def Let_def)

lemma preferred_opposite:
  assumes "preferred_inbound_for a b = Some x"
  shows "preferred_inbound_for b a = Some (\<not> x)"
proof -
  have ne: "py_strip a \<noteq> py_strip b" and x: "x = text_less (py_strip b) (py_strip a)"
    using assms by (simp_all add: preferred_Some)
  have "(\<not> x) = text_less (py_strip a) (py_strip b)" unfolding x using text_less_linear [OF ne] by blast
  thus ?thesis using assms not_sym [OF ne] by (simp add: preferred_Some)
qed

section \<open>Connections to one peer\<close>

text \<open>A connection whose handshake is done: which way it was dialled, when, and the peer.\<close>

record dial =
  at_inbound :: bool
  at_now :: pyfloat
  at_peer :: peer

definition registered :: "mesh_settings \<Rightarrow> string \<Rightarrow> bool \<Rightarrow> pyfloat option \<Rightarrow> dial list \<Rightarrow> mesh \<Rightarrow> mesh" where
  "registered C local_id replace_stale stale_after xs m =
     fold (\<lambda>x t. fst (register_peer C (at_now x) local_id (at_inbound x) replace_stale stale_after (at_peer x) t)) xs m"

definition conn_of :: "dial \<Rightarrow> nat" where "conn_of x = pr_conn (at_peer x)"

text \<open>
  The state between two registrations of connections to \<open>r\<close>, where \<open>k\<close> is the one of the direction \<open>d\<close> preferred and
  \<open>seen\<close> are the connections so far: as soon as \<open>k\<close> was seen it holds the slot, open, and before that no other
  connection of the direction preferred does.
\<close>

definition slot_ok :: "string \<Rightarrow> bool \<Rightarrow> nat \<Rightarrow> nat set \<Rightarrow> mesh \<Rightarrow> bool" where
  "slot_ok r d k seen m \<longleftrightarrow>
     map_of (me_bans m) r = None \<and> k \<notin> set (me_closed m) \<and>
     (case map_of (me_peers m) r of
        None \<Rightarrow> k \<notin> seen
      | Some old \<Rightarrow> pr_conn old \<in> seen \<and> pr_inbound old = (k \<in> seen \<longleftrightarrow> d) \<and> (k \<in> seen \<longrightarrow> pr_conn old = k))"

section \<open>Bans\<close>

lemma not_banned: "map_of (me_bans m) k = None \<Longrightarrow> is_banned now k m = (m, False)"
  by (simp add: is_banned_def)

lemma install_get [simp]:
  "map_of (me_peers (install i p m)) j = (if j = pr_id p then Some (p\<lparr>pr_inbound := i\<rparr>) else map_of (me_peers m) j)"
  "me_bans (install i p m) = me_bans m" "me_closed (install i p m) = me_closed m"
  by (simp_all add: install_def update_conv)

lemma close_conn_simps [simp]:
  "me_peers (close_conn p m) = me_peers m" "me_bans (close_conn p m) = me_bans m"
  "me_closed (close_conn p m) = me_closed m @ [pr_conn p]"
  by (simp_all add: close_conn_def)

text \<open>What a challenge comes to where the direction is decided.\<close>

lemma challenge_preferred:
  assumes "preferred_inbound_for l (pr_id p) = Some d"
  shows "i = d \<Longrightarrow> pr_inbound old \<noteq> d \<Longrightarrow> challenge C now l i rs sa old p = None"
    and "i \<noteq> d \<Longrightarrow> pr_inbound old = d \<Longrightarrow> challenge C now l i rs sa old p \<noteq> None"
  using assms by (auto simp: challenge_def Let_def)

lemma slot_ok_register:
  assumes ok: "slot_ok r d k seen m" and pref: "preferred_inbound_for l r = Some d"
    and x: "pr_id p = r" "pr_conn p \<notin> seen" "i = d \<longleftrightarrow> pr_conn p = k"
  shows "slot_ok r d k (insert (pr_conn p) seen) (fst (register_peer C now l i rs sa p m))"
proof -
  have r: "r \<noteq> []" using pref by (auto simp: preferred_Some)
  have nb: "is_banned now r m = (m, False)" using ok by (simp add: slot_ok_def not_banned)
  show ?thesis
  proof (cases "map_of (me_peers m) r")
    case None
    thus ?thesis using ok x r nb by (auto simp: register_peer_def slot_ok_def)
  next
    case (Some old)
    have ne: "pr_conn old \<noteq> pr_conn p" using ok Some x(2) by (auto simp: slot_ok_def)
    note c = challenge_preferred [OF pref [folded x(1)], where i = i and old = old and C = C and now = now and rs = rs and sa = sa]
    show ?thesis
    proof (cases "challenge C now l i rs sa old p")
      case None
      thus ?thesis using c(2) ok x r nb ne Some by (auto simp: register_peer_def slot_ok_def)
    next
      case (Some reason)
      thus ?thesis using c(1) ok x r nb ne \<open>map_of (me_peers m) r = Some old\<close> by (auto simp: register_peer_def slot_ok_def)
    qed
  qed
qed

lemma slot_ok_registered:
  assumes "slot_ok r d k seen m" "preferred_inbound_for l r = Some d"
    and "\<forall>x\<in>set xs. pr_id (at_peer x) = r \<and> (at_inbound x = d \<longleftrightarrow> conn_of x = k)"
    and "distinct (map conn_of xs)" "set (map conn_of xs) \<inter> seen = {}"
  shows "slot_ok r d k (seen \<union> set (map conn_of xs)) (registered C l rs sa xs m)"
  using assms
proof (induction xs arbitrary: seen m)
  case (Cons x xs)
  let ?t = "fst (register_peer C (at_now x) l (at_inbound x) rs sa (at_peer x) m)"
  have "slot_ok r d k (insert (conn_of x) seen) ?t"
    unfolding conn_of_def using Cons.prems by (intro slot_ok_register) (auto simp: conn_of_def)
  from Cons.IH [OF this Cons.prems(2)] Cons.prems show ?case by (auto simp: registered_def)
qed (simp add: registered_def)

definition holder :: "string \<Rightarrow> mesh \<Rightarrow> nat option" where
  "holder i m = map_option pr_conn (map_of (me_peers m) i)"

lemma preferred_holds:
  assumes "preferred_inbound_for l r = Some d"
    and "map_of (me_peers m) r = None" "map_of (me_bans m) r = None" "k \<notin> set (me_closed m)"
    and "\<forall>x\<in>set xs. pr_id (at_peer x) = r \<and> (at_inbound x = d \<longleftrightarrow> conn_of x = k)"
    and "distinct (map conn_of xs)" "k \<in> set (map conn_of xs)"
  shows "holder r (registered C l rs sa xs m) = Some k \<and> k \<notin> set (me_closed (registered C l rs sa xs m))"
proof -
  have "slot_ok r d k {} m" using assms(2-4) by (simp add: slot_ok_def)
  from slot_ok_registered [OF this assms(1,5,6), of C rs sa] assms(7) show ?thesis
    by (auto simp: slot_ok_def holder_def split: option.splits)
qed

text \<open>
  The connections with a finished handshake between the node \<open>here\<close> and the node \<open>there\<close>, as \<open>here\<close> sees them: each
  comes once and is inbound if and only if the other node dialled it.
\<close>

definition dialled :: "(nat \<Rightarrow> string) \<Rightarrow> string \<Rightarrow> string \<Rightarrow> dial list \<Rightarrow> bool" where
  "dialled dialler here there xs \<longleftrightarrow>
     distinct (map conn_of xs) \<and>
     (\<forall>x\<in>set xs. pr_id (at_peer x) = there \<and> dialler (conn_of x) \<in> {here, there} \<and>
        (at_inbound x \<longleftrightarrow> dialler (conn_of x) = there))"

definition vacant :: "string \<Rightarrow> nat \<Rightarrow> mesh \<Rightarrow> bool" where
  "vacant i k m \<longleftrightarrow> map_of (me_peers m) i = None \<and> map_of (me_bans m) i = None \<and> k \<notin> set (me_closed m)"

lemma one_node_holds:
  assumes ids: "py_strip a \<noteq> []" "py_strip b \<noteq> []" "py_strip a \<noteq> py_strip b"
    and xs: "dialled dialler a b xs" "k \<in> set (map conn_of xs)"
    and low: "\<forall>c\<in>set (map conn_of xs). dialler c = (if text_less (py_strip a) (py_strip b) then a else b) \<longleftrightarrow> c = k"
    and m: "vacant b k m"
  shows "holder b (registered C a rs sa xs m) = Some k \<and> k \<notin> set (me_closed (registered C a rs sa xs m))"
proof (rule preferred_holds)
  let ?d = "text_less (py_strip b) (py_strip a)"
  show "preferred_inbound_for a b = Some ?d" using ids by (simp add: preferred_Some)
  have d: "text_less (py_strip a) (py_strip b) \<longleftrightarrow> \<not> ?d" using text_less_linear [OF not_sym [OF ids(3)]] by blast
  have "a \<noteq> b" using ids(3) by auto
  thus "\<forall>x\<in>set xs. pr_id (at_peer x) = b \<and> (at_inbound x = ?d \<longleftrightarrow> conn_of x = k)"
    using xs(1) low unfolding dialled_def d by (cases ?d) auto
qed (use xs m in \<open>auto simp: dialled_def vacant_def\<close>)

section \<open>Strikes\<close>

fun strike_all :: "mesh_settings \<Rightarrow> peer \<Rightarrow> (pyfloat \<times> string) list \<Rightarrow> mesh \<Rightarrow> mesh \<times> bool list" where
  "strike_all C p [] m = (m, [])"
| "strike_all C p ((now, reason) # rs) m =
     (case strike C now p reason m of (t, b) \<Rightarrow> case strike_all C p rs t of (u, bs) \<Rightarrow> (u, b # bs))"

lemma bump_shape_simps [simp]:
  "me_strikes (bump_shape reason m) = me_strikes m" "me_bans (bump_shape reason m) = me_bans m"
  "me_peers (bump_shape reason m) = me_peers m" "me_closed (bump_shape reason m) = me_closed m"
  by (simp_all add: bump_shape_def Let_def)

lemma strike_below:
  assumes "strike_count p m + 1 < se_strikes C"
  shows "snd (strike C now p reason m) = False"
    "strike_count p (fst (strike C now p reason m)) = strike_count p m + 1"
  using assms by (simp_all add: strike_def Let_def strike_count_def dict_get_def update_conv)

lemma strike_last:
  assumes "se_strikes C \<le> strike_count p m + 1"
  shows "snd (strike C now p reason m) = True"
    "strike_count p (fst (strike C now p reason m)) = 0"
    "map_of (me_bans (fst (strike C now p reason m))) (peer_key p) = Some (fadd now (of_int (max 30 (se_ban_seconds C))))"
  using assms by (simp_all add: strike_def Let_def strike_count_def dict_get_def update_conv delete_conv)

lemma strike_all_below:
  "strike_count p m + int (length rs) < se_strikes C \<Longrightarrow>
   snd (strike_all C p rs m) = replicate (length rs) False \<and>
   strike_count p (fst (strike_all C p rs m)) = strike_count p m + int (length rs)"
proof (induction rs arbitrary: m)
  case (Cons x rs)
  obtain now reason where x: "x = (now, reason)" by fastforce
  from strike_below [of p m C now reason] Cons.prems Cons.IH [of "fst (strike C now p reason m)"] show ?case
    by (auto simp: x split: prod.splits)
qed simp

lemma strike_all_append:
  "strike_all C p (rs @ qs) m =
     (case strike_all C p rs m of (t, bs) \<Rightarrow> case strike_all C p qs t of (u, cs) \<Rightarrow> (u, bs @ cs))"
  by (induction rs arbitrary: m) (auto split: prod.splits)

lemma challenge_not_banned: "challenge C now l i rs sa old p \<noteq> Some ''banned''"
  by (simp add: challenge_def Let_def split: option.split)

lemma banned_register:
  assumes "map_of (me_bans m) (pr_id q) = Some until" "pr_id q \<noteq> []"
  shows "snd (register_peer C now l i rs sa q m) = refused ''banned'' \<longleftrightarrow> now < until"
  using assms challenge_not_banned
  by (auto simp: register_peer_def is_banned_def admitted_def refused_def split: option.split)

section \<open>The first question after a ban\<close>

lemma length_delete_less: "k \<in> set (map fst d) \<Longrightarrow> length (AList.delete k d) < length d"
  by (induction d) (auto simp: length_delete_le le_imp_less_Suc)

lemma any_banned_expired:
  assumes "k \<in> dom (map_of (me_bans m))" "\<forall>u. map_of (me_bans m) k = Some u \<longrightarrow> u \<le> now" "k \<noteq> []"
  shows "snd (any_banned now (k # ks) m) = raise ChangedDuringIteration"
proof -
  obtain u where u: "map_of (me_bans m) k = Some u" "u \<le> now" using assms by auto
  have "length (AList.delete k (me_bans m)) < length (me_bans m)" using length_delete_less [OF map_of_key [OF u(1)]] .
  thus ?thesis using u assms(3) by (simp add: is_banned_def)
qed

lemma host_bans_known: "k \<in> set (host_bans host m) \<Longrightarrow> k \<in> dom (map_of (me_bans m)) \<and> k \<noteq> []"
  by (auto simp: host_bans_def dom_map_of_conv_image_fst)

section \<open>Example\<close>

definition example_peer :: "string \<Rightarrow> nat \<Rightarrow> peer" where
  "example_peer i c = \<lparr>pr_conn = c, pr_id = i, pr_host = ''h'', pr_port = 1, pr_listen = 0, pr_seen = 0, pr_height = 0,
     pr_fails = 0, pr_inbound = False\<rparr>"

definition empty_mesh :: mesh where
  "empty_mesh = \<lparr>me_peers = [], me_strikes = [], me_bans = [], me_rejects = [], me_closed = [], me_eclipse = no_view,
     me_prunes = 0, me_soft = 0\<rparr>"

definition example_settings :: mesh_settings where
  "example_settings = \<lparr>se_max_peers = 50, se_strikes = 2, se_ban_seconds = 300, se_timeout = 30, se_evict_below = 0,
     se_eclipse_ratio = 0\<rparr>"

section \<open>Properties\<close>

text \<open>
  C20. Simultaneous dials converge: two nodes with different ids that have finished any number of connections to each
  other, in whatever order and at whatever times each of them registers these, both hold one and the same connection, and
  neither has closed it: the one that the node with the lower id dialled, when there is exactly one of that direction.
\<close>

theorem simultaneous_dials_converge:
  assumes "py_strip a \<noteq> []" "py_strip b \<noteq> []" "py_strip a \<noteq> py_strip b"
    and "dialled dialler a b xs" "dialled dialler b a ys"
    and "k \<in> set (map conn_of xs)" "k \<in> set (map conn_of ys)"
    and "\<forall>c\<in>set (map conn_of xs) \<union> set (map conn_of ys).
           dialler c = (if text_less (py_strip a) (py_strip b) then a else b) \<longleftrightarrow> c = k"
    and "vacant b k m" "vacant a k n"
  shows "holder b (registered C a rs sa xs m) = Some k \<and> holder a (registered D b rt sb ys n) = Some k \<and>
    k \<notin> set (me_closed (registered C a rs sa xs m)) \<and> k \<notin> set (me_closed (registered D b rt sb ys n))"
proof -
  have a: "\<forall>c\<in>set (map conn_of xs). dialler c = (if text_less (py_strip a) (py_strip b) then a else b) \<longleftrightarrow> c = k"
    using assms(8) by blast
  have swap: "(if text_less (py_strip a) (py_strip b) then a else b) = (if text_less (py_strip b) (py_strip a) then b else a)"
    using text_less_linear [OF assms(3)] by simp
  have b: "\<forall>c\<in>set (map conn_of ys). dialler c = (if text_less (py_strip b) (py_strip a) then b else a) \<longleftrightarrow> c = k"
    using assms(8) unfolding swap by blast
  note A = one_node_holds [OF assms(1,2,3,4,6) a assms(9), of C rs sa]
  note B = one_node_holds [OF assms(2,1) not_sym [OF assms(3)] assms(5,7) b assms(10), of D rt sb]
  from A B show ?thesis by simp
qed

lemma simultaneous_dials_witness:
  "let out = \<lambda>i c. \<lparr>at_inbound = False, at_now = 1, at_peer = example_peer i c\<rparr>;
       inb = \<lambda>i c. \<lparr>at_inbound = True, at_now = 1, at_peer = example_peer i c\<rparr>
   in holder ''b'' (registered example_settings ''a'' True None [inb ''b'' 2, out ''b'' 1] empty_mesh) = Some 1 \<and>
      holder ''a'' (registered example_settings ''b'' True None [inb ''a'' 1, out ''a'' 2] empty_mesh) = Some 1"
proof -
  let ?out = "\<lambda>i c. \<lparr>at_inbound = False, at_now = 1, at_peer = example_peer i c\<rparr>"
  let ?inb = "\<lambda>i c. \<lparr>at_inbound = True, at_now = 1, at_peer = example_peer i c\<rparr>"
  let ?dialler = "\<lambda>c::nat. if c = 1 then ''a'' else ''b''"
  have strips: "py_strip ''a'' = ''a''" "py_strip ''b'' = ''b''" by (simp_all add: py_strip_def py_space_def)
  have order: "text_less ''a'' ''b''" by (simp add: text_less_def)
  have conns: "conn_of (?out i c) = c" "conn_of (?inb i c) = c" for i c by (simp_all add: conn_of_def example_peer_def)
  have "dialled ?dialler ''a'' ''b'' [?inb ''b'' 2, ?out ''b'' 1]" "dialled ?dialler ''b'' ''a'' [?inb ''a'' 1, ?out ''a'' 2]"
    by (auto simp: dialled_def conns) (simp_all add: example_peer_def)
  moreover have "vacant i 1 empty_mesh" for i by (simp add: vacant_def empty_mesh_def)
  ultimately show ?thesis
    using simultaneous_dials_converge [of "''a''" "''b''" ?dialler "[?inb ''b'' 2, ?out ''b'' 1]" "[?inb ''a'' 1, ?out ''a'' 2]"
      1 empty_mesh empty_mesh example_settings True None example_settings True None]
    by (simp add: strips order conns)
qed

text \<open>
  C21. Strikes ban: of the strikes against a peer the last one that its allowance has, and no earlier one, bans it; then
  its strikes are forgotten, and until the ban runs out, and no longer, every registration under its id is refused as banned.
\<close>

theorem strikes_ban:
  assumes "strike_count p m + int (length rs) + 1 = se_strikes C" "pr_id p \<noteq> []" "pr_id q = pr_id p"
  shows "snd (strike_all C p (rs @ [(t, reason)]) m) = replicate (length rs) False @ [True] \<and>
    strike_count p (fst (strike_all C p (rs @ [(t, reason)]) m)) = 0 \<and>
    (snd (register_peer D now l i stale sa q (fst (strike_all C p (rs @ [(t, reason)]) m))) = refused ''banned'' \<longleftrightarrow>
       now < fadd t (of_int (max 30 (se_ban_seconds C))))"
proof -
  obtain u bs where u: "strike_all C p rs m = (u, bs)" by fastforce
  have b: "bs = replicate (length rs) False" "strike_count p u + 1 = se_strikes C"
    using strike_all_below [of p m rs C] assms(1) u by auto
  obtain v where v: "strike C t p reason u = (v, True)" "strike_count p v = 0"
      "map_of (me_bans v) (pr_id p) = Some (fadd t (of_int (max 30 (se_ban_seconds C))))"
    using strike_last [of C p u t reason] b(2) assms(2) by (cases "strike C t p reason u") (auto simp: peer_key_def)
  have all: "strike_all C p (rs @ [(t, reason)]) m = (v, bs @ [True])" by (simp add: strike_all_append u v(1))
  show ?thesis using banned_register [of v q] v(2,3) b(1) assms(2,3) by (simp add: all)
qed

lemma strikes_ban_witness:
  "snd (strike_all example_settings (example_peer ''a'' 1) [(5, ''spam''), (6, ''spam'')] empty_mesh) = [False, True] \<and>
   snd (register_peer example_settings 100 ''b'' True True None (example_peer ''a'' 2)
     (fst (strike_all example_settings (example_peer ''a'' 1) [(5, ''spam''), (6, ''spam'')] empty_mesh))) = refused ''banned''"
proof -
  have "fadd 6 300 = (306 :: pyfloat)" using fadd_int [of 6 300] by simp
  thus ?thesis
    using strikes_ban [of "example_peer ''a'' 1" empty_mesh "[(5, ''spam'')]" example_settings "example_peer ''a'' 2" 6 "''spam''"
      example_settings 100 "''b''" True True None]
    by (simp add: strike_count_def dict_get_def empty_mesh_def example_settings_def example_peer_def del: strike_all.simps)
qed

text \<open>
  The first question about a host whose bans have all run out raises: the loop over the bans removes an entry of the table it
  runs over. The connection that asks is neither admitted nor refused.
\<close>

theorem expired_ban_raises:
  assumes "host_bans host m \<noteq> []" "\<forall>k\<in>set (host_bans host m). \<forall>u. map_of (me_bans m) k = Some u \<longrightarrow> u \<le> now"
    and "map_of (me_bans m) (host @ '':'' @ int_text 0) = None"
  shows "snd (allow_inbound C g now host m) = raise ChangedDuringIteration"
proof -
  obtain k ks where k: "host_bans host m = k # ks" using assms(1) by (cases "host_bans host m") auto
  have "snd (any_banned now (k # ks) m) = raise ChangedDuringIteration"
    using any_banned_expired host_bans_known [of k host m] assms(2) k by auto
  thus ?thesis
    using k not_banned [OF assms(3)]
    by (cases "any_banned now (k # ks) m") (simp add: allow_inbound_def is_addr_banned_def del: any_banned.simps)
qed

text \<open>A turn of maintenance clears the expired bans, so that no question about a host raises at that time.\<close>

lemma live_is_banned:
  assumes "\<forall>k u. map_of (me_bans m) k = Some u \<longrightarrow> now < u"
  shows "is_banned now k m = (m, k \<noteq> [] \<and> k \<in> dom (map_of (me_bans m)))"
proof (cases "map_of (me_bans m) k")
  case (Some u)
  hence "\<not> u \<le> now" using assms by (simp add: not_le)
  thus ?thesis using Some by (simp add: is_banned_def dom_def)
qed (simp add: is_banned_def dom_def)

lemma any_banned_live:
  assumes "\<forall>k u. map_of (me_bans m) k = Some u \<longrightarrow> now < u"
  shows "any_banned now ks m = (m, ret (\<exists>k\<in>set ks. k \<noteq> [] \<and> k \<in> dom (map_of (me_bans m))))"
  by (induction ks) (simp_all add: live_is_banned [OF assms] split: bool.split)

lemma live_never_raises:
  assumes "\<forall>k u. map_of (me_bans m) k = Some u \<longrightarrow> now < u"
  shows "snd (allow_inbound C g now host m) \<noteq> raise ChangedDuringIteration"
proof -
  obtain b where b: "any_banned now (host_bans host m) m = (m, ret b)" using any_banned_live [OF assms] by blast
  obtain d where d: "is_banned now (host @ '':'' @ int_text 0) m = (m, d)" using live_is_banned [OF assms] by blast
  have "is_addr_banned now host 0 m = (m, ret (d \<or> b))" unfolding is_addr_banned_def d by (cases d) (simp_all add: b)
  thus ?thesis by (cases "d \<or> b"; cases b) (simp_all add: allow_inbound_def b split: prod.split)
qed

theorem maintenance_clears_bans:
  "snd (allow_inbound C g now host (maintain C g now h m)) \<noteq> raise ChangedDuringIteration"
  by (intro live_never_raises)
    (auto dest!: map_of_SomeD simp: maintain_def prune_stale_def expire_bans_def Let_def split: prod.splits)

end
