(* ===== verification/Spec2Isabelle.thy ===== *)
theory Spec2Isabelle
  imports Bft_Ballot Consistency Tip_Shadow Fork_Props Amount Casper_Finality Finality_Floor Registry_Props Catch_Up_Claims
    Sync_Engine Solicit Ghost_Props Engine_Props Rocks_Props Ledger_Atomic Wire_Pool Pool_Props Block_Props
    Evm_Adapter_Props Mini_Vm Bridge_Props Peer_Props
begin

text \<open>
  Absolute Blockchain: a verification development for the core of the node, the Python code that decides which
  block is final, which block may become the tip, when the node may mine, how it catches up and how a fork is
  resolved, and that checks, applies, stores and relays transfers. All paths are relative to the repository's root.

  \<^bold>\<open>How the parts interact.\<close> \<open>consensus/adapter.py\<close> owns the BFT round machine (\<open>consensus/bft/\<close>), the validator
  registry (read through \<open>consensus/registry_adapter.py\<close>), the checkpoint engine (\<open>finality_engine.py\<close>) and one of
  three attestation engines over the fork choice and the slashing engine. Its finalized floor is what
  \<open>core/blockchain.py\<close> asks for before \<open>reorg_to_ancestor\<close> truncates the chain. That truncation is the last step of
  fork reconciliation (\<open>sync/fork/\<close>), which gates every body a peer serves. A node that is behind runs the catch-up
  orchestrator (\<open>sync/catchup/\<close>) over the chain store or over the sync engine; the answers it waits for pass the
  hub of solicited requests. Before an import the tip-safety observer (\<open>consensus/tip_safety/\<close>) decides whether a
  block is a neighbour of the tip. The consistency service compares state roots with the peers and grants or denies
  mining. A transaction comes from a peer through the gate of \<open>network/p2p_node.py\<close> into the pool, from there through
  \<open>create_block\<close> into a block, and \<open>add_block\<close> applies the block with \<open>core/components/state_service.py\<close> inside one
  atomic transaction of the SQL or the RocksDB store; \<open>runtime/amount.py\<close> is the money arithmetic on this path. A
  transaction to a contract runs in \<open>execution/evm_adapter.py\<close>, which gives the interpreter \<open>evm_interpreter.py\<close> a context
  of callbacks; a nested call or creation comes back to the adapter through these callbacks, and what it did is a list of
  write-back operations that waits in the journal until the whole call has succeeded. Beside this path the bridge
  (\<open>bridge/\<close>) debits accounts into locks and credits events of other chains, in the same SQL database.

  \<^bold>\<open>The theories.\<close>
  \<^item> \<open>Numeric\<close>: correctly rounded binary64 and 28-digit decimal arithmetic on rationals; the locale \<open>rounding\<close>
    (monotone, idempotent, odd, exact on small integers) is interpreted for both. \<open>Float_Repr\<close>: the shortest
    decimal that reads back, as \<open>repr\<close> and \<open>json\<close> write a float. No overflow to infinity: stakes and amounts are far
    below \<open>2 ^ 1023\<close>; where a value from outside may be infinite or no number, a datatype says so.
  \<^item> \<open>Prelude\<close>: \<open>str.lower\<close>, \<open>str.strip\<close> on ASCII text, Python dictionaries as association lists in insertion order,
    results as sums.
  \<^item> \<open>Bft_Types\<close>, \<open>Bft_Quorum\<close>, \<open>Bft_Round\<close>: \<open>types.py\<close> and \<open>evidence.py\<close>, \<open>quorum.py\<close>, \<open>service.py\<close> of
    \<open>consensus/bft/\<close>, function by function; \<open>round_sm\<close> is the round machine with its evidence, lockdown and
    event sinks. \<open>Validator_Registry\<close>: the registry, the adapter's view of it, and the locale \<open>validator_set\<close>
    (slashing never re-activates anybody), interpreted on the adapter.
  \<^item> \<open>Bft_Safety\<close>: the machine's invariant (\<open>sm_inv\<close>) and what every operation keeps. \<open>Bft_Agreement\<close>: agreement,
    accountability, exact quorums, equivocation, finality, progress. \<open>Bft_Ballot\<close>: a ballot specification with
    two rules that \<open>submit_vote\<close> refines, and four facts on corner cases of the rounds.
  \<^item> \<open>Casper_Finality\<close>: the checkpoint engine with and without the Rust kernels (locale \<open>ffg_kernel\<close>, interpreted
    on both). \<open>Finality_Floor\<close>: the floor, and that finalized blocks survive every reorg. \<open>Registry_Props\<close>:
    slashing by absence.
  \<^item> \<open>Ghost\<close>, \<open>Ghost_Props\<close>: latest votes and the GHOST choice of \<open>consensus/lmd.py\<close>, \<open>ghost.py\<close>: memoised weights
    are subtree weights, a majority holds the head. \<open>Slashing\<close>: the slashing engine; only offenders are
    slashed. \<open>Engines\<close>, \<open>Engine_Props\<close>: the two-step finality and the three attestation engines.
  \<^item> \<open>Consistency\<close>: the state machine, its store and its service; mining is allowed on fresh positive evidence only.
  \<^item> \<open>Tip_Types\<close>, \<open>Ancestry_Window\<close>, \<open>Tip_Safety\<close>, \<open>Tip_Props\<close>, \<open>Tip_Shadow\<close>: block references and tip state, the LRU
    window of known blocks (locale \<open>block_cache\<close>, interpreted on the window), the reorg policy and the service,
    their properties over runs, and the observer that gates imports.
  \<^item> \<open>Json_Block\<close>, \<open>Fork_Reconcile\<close>, \<open>Fork_Props\<close>: bodies as peers send them, \<open>sync/fork/\<close> with its side-effect
    adapter (\<open>network/fork_adapters.py\<close>), and its properties down to \<open>reorg_to_ancestor\<close>.
  \<^item> \<open>Catch_Up\<close>, \<open>Chain_Import\<close>: policy, batch loop and outcome of \<open>sync/catchup/\<close>, and the block table with
    \<open>import_block\<close> under the node's ports. \<open>Catch_Up_Props\<close>, \<open>Catch_Up_Claims\<close>: the run as a sequence of gated moves,
    its outcomes, and when it returns. \<open>Engine_IO\<close>, \<open>Sync_Engine\<close>: the same run over \<open>sync/sync_engine.py\<close>, head
    selection, download and \<open>fast_sync\<close>. \<open>Solicit\<close>: requests armed, settled once and expired.
  \<^item> \<open>Key_Codec\<close>, \<open>Rocks_Store\<close>, \<open>Rocks_Props\<close>: the key formats of \<open>storage/keycodec.py\<close> (injective), the operations
    of \<open>storage/rocks_store.py\<close> over an ordered table with a pending batch, truncation and the commit of a block.
  \<^item> \<open>Amount\<close>: conversions, debits and the fee plan.
  \<^item> \<open>Account_Store\<close>: accounts on SQLite (live rows, saved rows, an open transaction) and on RocksDB behind one record
    of operations; an operation is an action that keeps what was written before an exception. The laws a
    balance sheet owes its callers are the locale \<open>served_by\<close> of \<open>Ledger\<close>, interpreted on the SQL store.
  \<^item> \<open>Evm_Bytecode\<close>: the deployment check, equivalent to a scan of the instruction starts. \<open>Tx_Pipeline\<close>: validation and
    signatures (\<open>tx_pipeline.py\<close>, \<open>zk_gateway.py\<close>, \<open>crypto/wallet.py\<close>) and the selection in \<open>create_block\<close>.
  \<^item> \<open>State_Service\<close>, \<open>Block_Apply\<close>: \<open>state_service.py\<close>, one transaction and one block on every path, and the atomic
    body of \<open>add_block\<close>. \<open>Ledger\<close> proves inside its locale what a transfer, a block, the reward and a replay do to all
    balances and nonces; \<open>Ledger_Props\<close>, \<open>Ledger_Atomic\<close> and \<open>Block_Props\<close> draw the consequences: supply, replay
    protection, atomicity, and the cases in which the code loses or makes money.
  \<^item> \<open>Evm_Word\<close>, \<open>Evm_Memory\<close>: the 256-bit operations, memory and jump tables of the Python path of \<open>crypto/native.py\<close>,
    which on words are the word operations but for signed division, which goes through a float, and \<open>0 ^ 0\<close>. A jump
    destination is exactly an instruction start with \<open>JUMPDEST\<close>. \<open>Evm_Machine\<close>, \<open>Evm_Step\<close>: \<open>evm_interpreter.py\<close>, the state as a
    record, an opcode as an action on it, the loop, \<open>execute_bytecode\<close>, and the bridge to the native runner.
    \<open>Evm_Run\<close>: every run returns within its gas; the bridge runs the same opcodes; a write that is lost.
  \<^item> \<open>Evm_Writeback\<close>, \<open>Evm_Adapter\<close>: the plans of nested effects and \<open>execution/evm_adapter.py\<close> over any database with these
    operations, the frames by depth. \<open>Evm_Adapter_Props\<close>: what no frame can break (static calls, failed calls) as a
    property \<open>keeps\<close> of actions with one rule for every way to compose them, and the value that is made or lost.
  \<^item> \<open>Bridge_Store\<close>, \<open>Bridge\<close>, \<open>Bridge_Gateway\<close>: the tables of locks and credits beside the accounts, \<open>bridge/abs_bridge.py\<close>
    (locks, events, refunds, confirmations), and around it the check of messages, the port and the relayer. \<open>Bridge_Props\<close>:
    over all runs an event is credited once and a lock refunded once; and how an event is paid twice, a lock taken over
    and a fee lost. \<open>Store_Rules\<close>: the predicate \<open>keeps\<close> and the balances of the SQL store, shared with the EVM adapter.
  \<^item> \<open>Mini_Vm\<close>: the second virtual machine, \<open>execution/vm.py\<close>, and its contract manager.
  \<^item> \<open>Pool_Locks\<close>, \<open>Pool_Props\<close>: the genesis allocation (\<open>runtime/tokenomics.py\<close>) and the locks on the system pools
    (\<open>runtime/pool_locks.py\<close>), with the invariant of all its runs.
  \<^item> \<open>Mempool\<close>, \<open>Mempool_Props\<close>: the pool of \<open>blockchain/mempool.py\<close>. \<open>Forge\<close>: from the pool into a block that
    applies. \<open>Wire_Pool\<close>: entries on the wire and the gate of \<open>network/p2p_node.py\<close>; what is relayed arrives.
  \<^item> \<open>Peer_Manager\<close>, \<open>Peer_Props\<close>: the registry of \<open>network/peer_manager.py\<close> with the strikes and the maintenance turn
    of the node: two nodes that dial each other keep the same connection, the last strike bans for the time configured.

  \<^bold>\<open>Conventions.\<close> A Python \<open>int\<close> is \<open>int\<close>, a \<open>float\<close> the rational it denotes, an exception the left summand of a
  result, \<open>None\<close> an option, an enum a datatype, a frozen dataclass a record built by the function that models
  its normalising constructor. \<open>time.time()\<close> and what the ports answer are arguments. Dictionaries that are
  only looked up are maps; where the order matters they are association lists.

  \<^bold>\<open>Bounds and termination.\<close> Exactness of the BFT quorum needs a total stake of at most \<open>2 ^ 51\<close>, of the checkpoint
  quorum at most \<open>2 ^ 50\<close> validators, of the satoshi conversions amounts below \<open>10 ^ 28\<close>; the supply theorems need less
  than \<open>10 ^ 15\<close> satoshi in all, which the cap of 221 million coins keeps. The catch-up loop and the walks over block
  trees are partial functions, \<open>None\<close> when they do not return, and theorems say when they do; every other loop is
  structural recursion or has a measure. The loop of the EVM is a partial function as well, and \<open>execution_returns\<close> proves
  that it returns for every code, host and gas limit, with the gas that is left as its measure; what a process can allocate is the
  number \<open>kn_memory\<close>, and the depth of nested frames is Python's recursion limit, a parameter of every
  statement. Counters are the code's own: \<open>max_steps\<close> of the parent walk, 10001 bodies of a download,
  100000 rows of a scan.

  \<^bold>\<open>Not modelled.\<close> Log and message texts beyond reason codes; progress callbacks; locks (each method is one step);
  sockets and tasks; what a peer answers, which is a record of arbitrary functions; the native library behind the money
  arithmetic, the apply kernels, the native EVM runner and its nested frames, the table of strikes, hashes, signatures
  and zero-knowledge primitives, which are functions of the environment or absent; the fee of a pool entry that is not
  finite (the gate refuses it); non-ASCII case mapping; the HTTP interface, scripts and feature demonstrations.

  \<^bold>\<open>What is left.\<close> The sandbox execution path (\<open>execution/state_engine.py\<close> and its neighbours), the handshake and the
  message budgets of \<open>network/\<close>.
\<close>

end
